(* ===== verification/Flock_Prelude.thy ===== *)
theory Flock_Prelude
  imports Main "HOL-Library.AList"
begin

text \<open>
  Shared vocabulary of the development.

  Every document key, role, status and DocType name of the program is a Python
  string, so it is a \<^typ>\<open>string\<close> here.  A Python value of type
  \<open>str | None\<close> is a \<^typ>\<open>string option\<close>; the truth test \<open>if x:\<close> on it is
  \<open>truthy\<close> (both \<open>None\<close> and the empty string are false).  A call that can raise
  returns a sum: \<open>Inl e\<close> is the exception, \<open>Inr v\<close> the value, and \<open>res_bind\<close>
  is Python's sequencing (the rest of the body runs only when no exception was
  raised).  A \<open>dict\<close> is an association list in insertion order: \<open>AList.update\<close>
  replaces in place or appends, as a Python dict does, and \<open>map_of\<close> is \<open>.get\<close>.

  The theory also holds the order-preserving de-duplication loop and the
  chunking loop which several services repeat, and the named theorem
  collections the component proofs use.
\<close>

section \<open>Names and truth values\<close>

type_synonym docname = string

named_theorems status_defs \<open>the string constants of the status machines\<close>
named_theorems op_defs \<open>the operations of the components, for unfolding\<close>

definition truthy :: "string option \<Rightarrow> bool" where
  "truthy x = (case x of None \<Rightarrow> False | Some s \<Rightarrow> s \<noteq> [])"

lemma truthy_simps [simp]:
  "\<not> truthy None" "truthy (Some s) = (s \<noteq> [])"
  by (simp_all add: truthy_def)

text \<open>\<open>x or y\<close> on optional strings and \<open>(x or "")\<close>.\<close>

definition or_else :: "string option \<Rightarrow> string option \<Rightarrow> string option" where
  "or_else x y = (if truthy x then x else y)"

definition or_empty :: "string option \<Rightarrow> string" where
  "or_empty x = (case x of None \<Rightarrow> [] | Some s \<Rightarrow> s)"

lemma or_empty_simps [simp]: "or_empty None = []" "or_empty (Some s) = s"
  by (simp_all add: or_empty_def)

section \<open>Results\<close>

definition res_bind :: "'e + 'a \<Rightarrow> ('a \<Rightarrow> 'e + 'b) \<Rightarrow> 'e + 'b" where
  "res_bind x f = (case x of Inl e \<Rightarrow> Inl e | Inr a \<Rightarrow> f a)"

lemma res_bind_simps [simp]:
  "res_bind (Inl e) f = Inl e" "res_bind (Inr a) f = f a"
  by (simp_all add: res_bind_def)

lemma res_bind_Inr_iff:
  "res_bind x f = Inr b \<longleftrightarrow> (\<exists>a. x = Inr a \<and> f a = Inr b)"
  by (cases x) auto

lemma res_bind_Inl_iff:
  "res_bind x f = Inl e \<longleftrightarrow> x = Inl e \<or> (\<exists>a. x = Inr a \<and> f a = Inl e)"
  by (cases x) auto

definition raise_if :: "bool \<Rightarrow> 'e \<Rightarrow> 'e + unit" where
  "raise_if b e = (if b then Inl e else Inr ())"

lemma raise_if_simps [simp]:
  "raise_if True e = Inl e" "raise_if False e = Inr ()"
  "raise_if b e = Inr () \<longleftrightarrow> \<not> b"
  "raise_if b e = Inl d \<longleftrightarrow> b \<and> d = e"
  by (auto simp: raise_if_def)

definition is_ok :: "'e + 'a \<Rightarrow> bool" where
  "is_ok r = (case r of Inl _ \<Rightarrow> False | Inr _ \<Rightarrow> True)"

lemma is_ok_simps [simp]: "\<not> is_ok (Inl e)" "is_ok (Inr a)"
  by (simp_all add: is_ok_def)

lemma is_ok_iff: "is_ok r \<longleftrightarrow> (\<exists>a. r = Inr a)"
  by (cases r) auto

lemma not_is_ok_iff: "\<not> is_ok r \<longleftrightarrow> (\<exists>e. r = Inl e)"
  by (cases r) auto

section \<open>Order-preserving de-duplication\<close>

text \<open>
  \<open>for x in xs: if key(x) not in seen: seen.add(key(x)); out.append(x)\<close>.
\<close>

fun dedup_on :: "('a \<Rightarrow> 'k) \<Rightarrow> 'k set \<Rightarrow> 'a list \<Rightarrow> 'a list" where
  "dedup_on key seen [] = []"
| "dedup_on key seen (x # xs) =
     (if key x \<in> seen then dedup_on key seen xs
      else x # dedup_on key (insert (key x) seen) xs)"

abbreviation dedup :: "'a list \<Rightarrow> 'a list" where
  "dedup \<equiv> dedup_on (\<lambda>x. x) {}"

lemma dedup_on_keys: "key ` set (dedup_on key seen xs) = key ` set xs - seen"
  by (induction xs arbitrary: seen) auto

lemma dedup_on_subset: "set (dedup_on key seen xs) \<subseteq> set xs"
proof (induction xs arbitrary: seen)
  case (Cons x xs)
  from Cons.IH [of seen] Cons.IH [of "insert (key x) seen"] show ?case by auto
qed simp

lemma distinct_dedup_on [simp]: "distinct (map key (dedup_on key seen xs))"
proof (induction xs arbitrary: seen)
  case (Cons x xs)
  have "key x \<notin> key ` set (dedup_on key (insert (key x) seen) xs)"
    by (simp only: dedup_on_keys) simp
  then show ?case using Cons.IH by auto
qed simp

lemma set_dedup [simp]: "set (dedup xs) = set xs"
  using dedup_on_keys [of "\<lambda>x. x" "{}" xs] by simp

lemma distinct_dedup [simp]: "distinct (dedup xs)"
  using distinct_dedup_on [of "\<lambda>x. x" "{}" xs] by simp

lemma length_dedup_on: "length (dedup_on key seen xs) \<le> length xs"
  by (induction xs arbitrary: seen) (auto intro: le_SucI)

lemma dedup_on_distinct:
  "distinct (map key xs) \<Longrightarrow> key ` set xs \<inter> seen = {} \<Longrightarrow> dedup_on key seen xs = xs"
  by (induction xs arbitrary: seen) auto

lemma dedup_on_append:
  "dedup_on key seen (xs @ ys) = dedup_on key seen xs @ dedup_on key (seen \<union> key ` set xs) ys"
proof (induction xs arbitrary: seen)
  case (Cons x xs)
  then show ?case by (cases "key x \<in> seen") (auto simp: insert_absorb)
qed simp

lemma dedup_on_map: "dedup_on key seen (map f xs) = map f (dedup_on (key o f) seen xs)"
  by (induction xs arbitrary: seen) auto

section \<open>Chunking\<close>

text \<open>\<open>for i in range(0, len(xs), n): yield xs[i:i+n]\<close> for \<open>n > 0\<close>.\<close>

function chunks :: "nat \<Rightarrow> 'a list \<Rightarrow> 'a list list" where
  "chunks n xs = (if xs = [] \<or> n = 0 then [] else take n xs # chunks n (drop n xs))"
  by pat_completeness auto
termination by (relation "measure (length o snd)") auto

declare chunks.simps [simp del]

lemma chunks_Nil [simp]: "chunks n [] = []"
  by (simp add: chunks.simps)

lemma concat_chunks: "n > 0 \<Longrightarrow> concat (chunks n xs) = xs"
  by (induction n xs rule: chunks.induct) (subst chunks.simps, auto)

lemma chunks_bounds: "ys \<in> set (chunks n xs) \<Longrightarrow> ys \<noteq> [] \<and> length ys \<le> n"
proof (induction n xs rule: chunks.induct)
  case (1 n xs)
  then show ?case
    by (subst (asm) (2) chunks.simps) (auto split: if_splits)
qed

section \<open>str.strip\<close>

text \<open>Strings are byte strings here, so \<open>str.strip\<close> removes the whitespace characters of
  the first 256 code points.\<close>

definition py_space :: "char \<Rightarrow> bool" where
  "py_space c = (let n = (of_char c :: nat) in
     (9 \<le> n \<and> n \<le> 13) \<or> (28 \<le> n \<and> n \<le> 32) \<or> n = 133 \<or> n = 160)"

definition py_strip :: "string \<Rightarrow> string" where
  "py_strip s = rev (dropWhile py_space (rev (dropWhile py_space s)))"

lemma py_strip_no_space:
  "py_strip s = [] \<or> (\<not> py_space (hd (py_strip s)) \<and> \<not> py_space (last (py_strip s)))"
proof (cases "py_strip s")
  case (Cons c cs)
  let ?t = "dropWhile py_space s"
  let ?u = "dropWhile py_space (rev ?t)"
  have u: "py_strip s = rev ?u" "?u \<noteq> []" using Cons by (auto simp: py_strip_def)
  then have l: "\<not> py_space (last (py_strip s))"
    using hd_dropWhile [of py_space "rev ?t"] by (simp add: last_rev)
  obtain w where w: "rev ?t = w @ ?u" by (metis takeWhile_dropWhile_id)
  have "?t \<noteq> []"
  proof
    assume "?t = []"
    then show False using u(2) by (metis dropWhile.simps(1) rev.simps(1))
  qed
  have "hd (py_strip s) = last ?u" using u by (simp add: hd_rev)
  also have "\<dots> = last (rev ?t)" using u(2) w by (metis last_appendR)
  also have "\<dots> = hd ?t" by (simp add: last_rev)
  finally have "hd (py_strip s) = hd ?t" .
  then have "\<not> py_space (hd (py_strip s))"
    using hd_dropWhile [of py_space s] \<open>?t \<noteq> []\<close> by metis
  with l show ?thesis by simp
qed simp

section \<open>Lists with a distinguished element\<close>

lemma nth_list_update_map_outside:
  "i < length xs \<Longrightarrow> map f (xs[i := y]) = (map f xs)[i := f y]"
  by (simp add: map_update)

lemma length_filter_one:
  "distinct xs \<Longrightarrow> w \<in> set xs \<Longrightarrow> length (filter (\<lambda>x. x = w) xs) = 1"
proof (induction xs)
  case (Cons x xs)
  then show ?case by (cases "x = w") (auto simp: filter_empty_conv)
qed simp

end
