(* ===== verification/Trees.thy ===== *)
theory Trees
  imports Flock_Prelude
begin

text \<open>
  Model of \<open>flock_os/flock_os/trees.py\<close>: the branch-binding rule of the group
  tree and the pure traversal primitives over adjacency maps.

  A \<open>ParentMap\<close> is a finite dict from a node to its parent or \<open>None\<close>; a
  \<open>ChildMap\<close> a finite dict from a node to the list of its children.  The two
  \<open>while\<close> loops are recursive functions whose termination rests on the finiteness
  of the dicts; a cycle is the exception \<open>Tree_Cycle\<close>.
\<close>

section \<open>Errors and adjacency maps\<close>

datatype tree_error =
    Tree_Branch_Required
  | Tree_Branch_Mismatch string string
  | Tree_Cycle string string

type_synonym parent_map = "(docname \<times> docname option) list"
type_synonym child_map = "(docname \<times> docname list) list"

definition parent_get :: "parent_map \<Rightarrow> docname \<Rightarrow> docname option" where
  "parent_get parent_of x = (case map_of parent_of x of None \<Rightarrow> None | Some p \<Rightarrow> p)"

definition children_get :: "child_map \<Rightarrow> docname \<Rightarrow> docname list" where
  "children_get children_of x = (case map_of children_of x of None \<Rightarrow> [] | Some cs \<Rightarrow> cs)"

definition validate_group_branch_binding ::
  "string option \<Rightarrow> string \<Rightarrow> tree_error + unit" where
  "validate_group_branch_binding parent_branch child_branch =
    (if child_branch = [] then Inl Tree_Branch_Required
     else case parent_branch of
       None \<Rightarrow> Inr ()
     | Some pb \<Rightarrow>
         if pb \<noteq> child_branch then Inl (Tree_Branch_Mismatch pb child_branch)
         else Inr ())"

section \<open>The ancestor chain\<close>

lemma parent_get_key: "parent_get m x = Some p \<Longrightarrow> x \<in> fst ` set m"
  by (auto simp: parent_get_def dest!: map_of_SomeD split: option.splits)
     (metis fst_conv image_eqI)

function ancestors_loop ::
  "parent_map \<Rightarrow> docname \<Rightarrow> docname list \<Rightarrow> docname set \<Rightarrow> docname option
    \<Rightarrow> tree_error + docname list" where
  "ancestors_loop parent_of node chain seen None = Inr chain"
| "ancestors_loop parent_of node chain seen (Some current) =
     (if current \<in> seen then Inl (Tree_Cycle current node)
      else ancestors_loop parent_of node (chain @ [current]) (insert current seen)
             (parent_get parent_of current))"
  by pat_completeness auto

termination
proof (relation "inv_image (less_than <*lex*> less_than)
    (\<lambda>(m, n, ch, seen, c). (card (fst ` set m - seen), case c of None \<Rightarrow> 0 | Some _ \<Rightarrow> (1::nat)))",
    goal_cases)
  case 1 then show ?case by auto
next
  case (2 m n ch seen c)
  show ?case
  proof (cases "parent_get m c")
    case None
    have "card (fst ` set m - insert c seen) \<le> card (fst ` set m - seen)"
      by (rule card_mono) auto
    then show ?thesis using None by auto
  next
    case (Some p)
    then have "c \<in> fst ` set m" by (rule parent_get_key)
    with 2 have "card (fst ` set m - insert c seen) < card (fst ` set m - seen)"
      by (intro psubset_card_mono) auto
    then show ?thesis by auto
  qed
qed

definition ancestors_of :: "docname \<Rightarrow> parent_map \<Rightarrow> tree_error + docname list" where
  "ancestors_of node parent_of =
     ancestors_loop parent_of node [] {node} (parent_get parent_of node)"

definition path_to_root :: "docname \<Rightarrow> parent_map \<Rightarrow> tree_error + docname list" where
  "path_to_root node parent_of =
     res_bind (ancestors_of node parent_of) (\<lambda>chain. Inr (node # chain))"

definition root_of :: "docname \<Rightarrow> parent_map \<Rightarrow> tree_error + docname" where
  "root_of node parent_of =
     res_bind (ancestors_of node parent_of)
       (\<lambda>chain. Inr (if chain \<noteq> [] then last chain else node))"

definition is_ancestor_of :: "docname \<Rightarrow> docname \<Rightarrow> parent_map \<Rightarrow> tree_error + bool" where
  "is_ancestor_of candidate node parent_of =
     res_bind (ancestors_of node parent_of) (\<lambda>chain. Inr (candidate \<in> set chain))"

definition is_descendant_of :: "docname \<Rightarrow> docname \<Rightarrow> parent_map \<Rightarrow> tree_error + bool" where
  "is_descendant_of candidate node parent_of = is_ancestor_of node candidate parent_of"

definition depth_of :: "docname \<Rightarrow> parent_map \<Rightarrow> tree_error + nat" where
  "depth_of node parent_of =
     res_bind (ancestors_of node parent_of) (\<lambda>chain. Inr (length chain))"

section \<open>Descendants, breadth first\<close>

text \<open>The inner \<open>for child in frontier\<close> loop; its state is
  \<open>(seen, out, next_frontier)\<close>.\<close>

fun visit_level ::
  "child_map \<Rightarrow> docname \<Rightarrow> docname set \<times> docname list \<times> docname list \<Rightarrow> docname list
    \<Rightarrow> tree_error + docname set \<times> docname list \<times> docname list" where
  "visit_level children_of node st [] = Inr st"
| "visit_level children_of node (seen, out, nf) (child # rest) =
     (if child \<in> seen then Inl (Tree_Cycle child node)
      else visit_level children_of node
             (insert child seen, out @ [child], nf @ children_get children_of child) rest)"

lemma visit_level_result:
  "visit_level m n (seen, out, nf) fr = Inr (seen', out', nf') \<Longrightarrow>
     seen' = seen \<union> set fr \<and> out' = out @ fr \<and> nf' = nf @ concat (map (children_get m) fr)
     \<and> distinct fr \<and> set fr \<inter> seen = {}"
proof (induction fr arbitrary: seen out nf)
  case (Cons a fr)
  then have "a \<notin> seen" and
    run: "visit_level m n (insert a seen, out @ [a], nf @ children_get m a) fr = Inr (seen', out', nf')"
    by (auto split: if_splits)
  with Cons.IH [OF run] show ?case by auto
qed simp

lemma visit_level_ok:
  "distinct fr \<Longrightarrow> set fr \<inter> seen = {} \<Longrightarrow>
     visit_level m n (seen, out, nf) fr
       = Inr (seen \<union> set fr, out @ fr, nf @ concat (map (children_get m) fr))"
  by (induction fr arbitrary: seen out nf) auto

lemma visit_level_bad:
  "\<not> (distinct fr \<and> set fr \<inter> seen = {}) \<Longrightarrow>
     \<exists>c \<in> set fr. visit_level m n (seen, out, nf) fr = Inl (Tree_Cycle c n)"
proof (induction fr arbitrary: seen out nf)
  case (Cons a fr)
  show ?case
  proof (cases "a \<in> seen")
    case False
    with Cons.prems have "\<not> (distinct fr \<and> set fr \<inter> insert a seen = {})" by auto
    from Cons.IH [OF this] False show ?thesis by fastforce
  qed auto
qed simp

definition child_nodes :: "child_map \<Rightarrow> docname set" where
  "child_nodes m = (\<Union>p \<in> set m. set (snd p))"

lemma finite_child_nodes [simp]: "finite (child_nodes m)"
  unfolding child_nodes_def by (rule finite_UN_I) auto

lemma children_get_nodes: "set (children_get m x) \<subseteq> child_nodes m"
proof (cases "map_of m x")
  case (Some cs)
  then have "(x, cs) \<in> set m" by (rule map_of_SomeD)
  with Some show ?thesis by (force simp: children_get_def child_nodes_def)
qed (simp add: children_get_def)

function descendants_loop ::
  "child_map \<Rightarrow> docname \<Rightarrow> docname set \<Rightarrow> docname list \<Rightarrow> docname list
    \<Rightarrow> tree_error + docname list" where
  "descendants_loop children_of node seen out frontier =
     (if frontier = [] then Inr out
      else case visit_level children_of node (seen, out, []) frontier of
        Inl e \<Rightarrow> Inl e
      | Inr (seen', out', next_frontier) \<Rightarrow>
          descendants_loop children_of node seen' out' next_frontier)"
  by pat_completeness auto

termination
proof (relation "measure (\<lambda>(m, n, seen, out, fr). card ((child_nodes m \<union> set fr) - seen))",
    goal_cases)
  case 1 then show ?case by simp
next
  case (2 m n seen out fr r seen' q out' nf')
  then have "visit_level m n (seen, out, []) fr = Inr (seen', out', nf')" by simp
  then have r: "seen' = seen \<union> set fr" "nf' = concat (map (children_get m) fr)"
    "set fr \<inter> seen = {}" by (auto dest: visit_level_result)
  have nf: "set nf' \<subseteq> child_nodes m" using r(2) children_get_nodes by fastforce
  obtain x where "x \<in> set fr" using 2(1) by (cases fr) auto
  with r nf have "(child_nodes m \<union> set nf') - seen' \<subset> (child_nodes m \<union> set fr) - seen"
    by auto
  then have "card ((child_nodes m \<union> set nf') - seen') < card ((child_nodes m \<union> set fr) - seen)"
    by (intro psubset_card_mono) auto
  then show ?case by simp
qed

declare descendants_loop.simps [simp del]

definition descendants_of :: "docname \<Rightarrow> child_map \<Rightarrow> tree_error + docname list" where
  "descendants_of node children_of =
     descendants_loop children_of node {node} [] (children_get children_of node)"

definition subtree_of :: "docname \<Rightarrow> child_map \<Rightarrow> tree_error + docname list" where
  "subtree_of node children_of =
     res_bind (descendants_of node children_of) (\<lambda>ds. Inr (node # ds))"

definition leaves_under :: "docname \<Rightarrow> child_map \<Rightarrow> tree_error + docname list" where
  "leaves_under node children_of =
     res_bind (subtree_of node children_of)
       (\<lambda>subtree. Inr (filter (\<lambda>n. children_get children_of n = []) subtree))"

section \<open>Specifications\<close>

text \<open>
  \<open>chain_from P cur ps\<close>: following \<open>parent_of\<close> from \<open>cur\<close> visits exactly \<open>ps\<close>
  and then stops.  \<open>child_edge\<close> and \<open>parent_edge\<close> are the edge relations, and
  \<open>tree_below C n\<close> says that the part of the child graph that \<open>n\<close> reaches is a
  tree rooted at \<open>n\<close>.
\<close>

fun chain_from :: "parent_map \<Rightarrow> docname option \<Rightarrow> docname list \<Rightarrow> bool" where
  "chain_from P cur [] = (cur = None)"
| "chain_from P cur (p # ps) = (cur = Some p \<and> chain_from P (parent_get P p) ps)"

definition parent_edge :: "parent_map \<Rightarrow> (docname \<times> docname) set" where
  "parent_edge P = {(x, p). parent_get P x = Some p}"

definition child_edge :: "child_map \<Rightarrow> (docname \<times> docname) set" where
  "child_edge C = {(p, x). x \<in> set (children_get C p)}"

definition tree_below :: "child_map \<Rightarrow> docname \<Rightarrow> bool" where
  "tree_below C n \<longleftrightarrow>
     (n, n) \<notin> (child_edge C)\<^sup>+
   \<and> (\<forall>x. (n, x) \<in> (child_edge C)\<^sup>* \<longrightarrow> distinct (children_get C x))
   \<and> (\<forall>x y. (n, x) \<in> (child_edge C)\<^sup>* \<longrightarrow> (n, y) \<in> (child_edge C)\<^sup>* \<longrightarrow> x \<noteq> y \<longrightarrow>
        set (children_get C x) \<inter> set (children_get C y) = {})"

section \<open>The ancestor walk\<close>

lemma chain_from_unique:
  "chain_from P cur ps \<Longrightarrow> chain_from P cur qs \<Longrightarrow> ps = qs"
proof (induction ps arbitrary: cur qs)
  case Nil
  then show ?case by (cases qs) auto
next
  case (Cons p ps)
  then show ?case by (cases qs) auto
qed

lemma chain_from_suffix:
  "chain_from P cur (xs @ x # ys) \<Longrightarrow> chain_from P (parent_get P x) ys"
  by (induction xs arbitrary: cur) auto

lemma chain_from_distinct: "chain_from P cur ps \<Longrightarrow> distinct ps"
proof (rule ccontr)
  assume c: "chain_from P cur ps" and "\<not> distinct ps"
  then obtain xs ys zs x where ps: "ps = xs @ x # ys @ x # zs"
    using not_distinct_decomp [of ps] by auto
  from c ps have "chain_from P (parent_get P x) (ys @ x # zs)"
    by (auto intro: chain_from_suffix)
  moreover from c ps have "chain_from P (parent_get P x) zs"
    using chain_from_suffix [of P cur "xs @ x # ys" x zs] by simp
  ultimately have "ys @ x # zs = zs" by (rule chain_from_unique)
  then have "length (ys @ x # zs) = length zs" by (rule arg_cong)
  then show False by simp
qed

lemma chain_from_node_distinct:
  "chain_from P (parent_get P n) ps \<Longrightarrow> distinct (n # ps)"
  using chain_from_distinct [of P "Some n" "n # ps"] by simp

lemma ancestors_loop_Inr_iff:
  "ancestors_loop P n ch seen cur = Inr r \<longleftrightarrow>
     (\<exists>ps. r = ch @ ps \<and> chain_from P cur ps \<and> set ps \<inter> seen = {})"
proof (induction P n ch seen cur arbitrary: r rule: ancestors_loop.induct)
  case (1 P n ch seen)
  have "chain_from P None ps \<longleftrightarrow> ps = []" for ps by (cases ps) auto
  then show ?case by auto
next
  case (2 P n ch seen c)
  have split: "chain_from P (Some c) ps \<longleftrightarrow>
      (\<exists>qs. ps = c # qs \<and> chain_from P (parent_get P c) qs)" for ps
    by (cases ps) auto
  show ?case
  proof (cases "c \<in> seen")
    case True
    then show ?thesis by (auto simp: split)
  next
    case False
    have notin: "chain_from P (parent_get P c) qs \<Longrightarrow> c \<notin> set qs" for qs
      using chain_from_node_distinct by fastforce
    show ?thesis
      using 2 [OF False] False notin by (auto simp: split)
  qed
qed

lemma ancestors_loop_error:
  "ancestors_loop P n ch seen cur = Inl e \<Longrightarrow> \<exists>c. e = Tree_Cycle c n"
  by (induction P n ch seen cur rule: ancestors_loop.induct) (auto split: if_splits)

lemma ancestors_of_Inr_iff:
  "ancestors_of n P = Inr ps \<longleftrightarrow> chain_from P (parent_get P n) ps"
  using chain_from_node_distinct [of P n ps]
  by (auto simp: ancestors_of_def ancestors_loop_Inr_iff)

lemma chain_from_set:
  "chain_from P (parent_get P n) ps \<Longrightarrow> set ps = {a. (n, a) \<in> (parent_edge P)\<^sup>+}"
proof (induction ps arbitrary: n)
  case Nil
  then have "(n, a) \<notin> (parent_edge P)\<^sup>+" for a
    by (auto simp: parent_edge_def dest: tranclD)
  then show ?case by auto
next
  case (Cons p ps)
  then have e: "parent_get P n = Some p" and IH: "set ps = {a. (p, a) \<in> (parent_edge P)\<^sup>+}"
    by auto
  have "(n, a) \<in> (parent_edge P)\<^sup>+ \<longleftrightarrow> a = p \<or> (p, a) \<in> (parent_edge P)\<^sup>+" for a
  proof
    assume "(n, a) \<in> (parent_edge P)\<^sup>+"
    then obtain q where "(n, q) \<in> parent_edge P" "(q, a) \<in> (parent_edge P)\<^sup>*"
      by (auto dest: tranclD)
    then show "a = p \<or> (p, a) \<in> (parent_edge P)\<^sup>+"
      using e by (auto simp: parent_edge_def rtrancl_eq_or_trancl)
  next
    have "(n, p) \<in> parent_edge P" using e by (simp add: parent_edge_def)
    then show "a = p \<or> (p, a) \<in> (parent_edge P)\<^sup>+ \<Longrightarrow> (n, a) \<in> (parent_edge P)\<^sup>+"
      by (auto intro: trancl_into_trancl2)
  qed
  then show ?case using IH by auto
qed

lemma ancestors_of_cases:
  obtains (chain) ps where "ancestors_of n P = Inr ps" "chain_from P (parent_get P n) ps"
  | (cycle) c where "ancestors_of n P = Inl (Tree_Cycle c n)" "\<nexists>ps. chain_from P (parent_get P n) ps"
proof (cases "ancestors_of n P")
  case (Inl e)
  then obtain c where "e = Tree_Cycle c n"
    using ancestors_loop_error unfolding ancestors_of_def by blast
  moreover have "\<nexists>ps. chain_from P (parent_get P n) ps"
    using Inl by (metis ancestors_of_Inr_iff sum.distinct(1))
  ultimately show ?thesis using Inl cycle by simp
next
  case (Inr ps)
  then show ?thesis using chain ancestors_of_Inr_iff by blast
qed

section \<open>The breadth-first search\<close>

lemma descendants_loop_fixpoint:
  assumes "descendants_loop C n seen out fr = Inr ds"
    and "out @ fr = concat (map (children_get C) (n # out))"
    and "seen = insert n (set out)" and "distinct (n # out)"
  shows "ds = concat (map (children_get C) (n # ds)) \<and> distinct (n # ds)"
  using assms
proof (induction C n seen out fr arbitrary: ds rule: descendants_loop.induct)
  case (1 C n seen out fr)
  show ?case
  proof (cases "fr = []")
    case True
    with 1 show ?thesis by (simp add: descendants_loop.simps)
  next
    case False
    with 1(2) obtain seen' out' nf where
      lvl: "visit_level C n (seen, out, []) fr = Inr (seen', out', nf)"
      and rec: "descendants_loop C n seen' out' nf = Inr ds"
      by (subst (asm) descendants_loop.simps) (auto split: sum.splits prod.splits)
    from visit_level_result [OF lvl]
    have r: "seen' = seen \<union> set fr" "out' = out @ fr" "nf = concat (map (children_get C) fr)"
      "distinct fr" "set fr \<inter> seen = {}" by auto
    show ?thesis
    proof (rule "1.IH" [OF False lvl refl refl rec])
      show "out' @ nf = concat (map (children_get C) (n # out'))"
        unfolding r using 1(3) by (metis append.assoc append_Cons concat_append map_append)
      show "seen' = insert n (set out')" using r 1(4) by auto
      show "distinct (n # out')" using r 1(4,5) by auto
    qed
  qed
qed

lemma descendants_of_fixpoint:
  "descendants_of n C = Inr ds \<Longrightarrow>
     ds = concat (map (children_get C) (n # ds)) \<and> distinct (n # ds)"
  unfolding descendants_of_def by (erule descendants_loop_fixpoint) auto

lemma descendants_loop_error:
  "descendants_loop C n seen out fr = Inl e \<Longrightarrow> \<exists>c. e = Tree_Cycle c n"
proof (induction C n seen out fr rule: descendants_loop.induct)
  case (1 C n seen out fr)
  show ?case
  proof (cases "fr = []")
    case True
    with 1(2) show ?thesis by (simp add: descendants_loop.simps)
  next
    case False
    have lvl: "visit_level C n st fr = Inl e \<Longrightarrow> \<exists>c. e = Tree_Cycle c n" for st
      by (induction C n st fr rule: visit_level.induct) (auto split: if_splits)
    from False 1(2) have "visit_level C n (seen, out, []) fr = Inl e \<or>
      (\<exists>s o' f. visit_level C n (seen, out, []) fr = Inr (s, o', f)
        \<and> descendants_loop C n s o' f = Inl e)"
      by (subst (asm) descendants_loop.simps) (auto split: sum.splits prod.splits)
    then show ?thesis using lvl "1.IH" [OF False] by blast
  qed
qed

lemma descendants_loop_reach:
  assumes "descendants_loop C n seen out fr = Inr ds"
    and "\<And>x. x \<in> set out \<union> set fr \<Longrightarrow> (n, x) \<in> (child_edge C)\<^sup>+"
  shows "\<forall>x \<in> set ds. (n, x) \<in> (child_edge C)\<^sup>+"
  using assms
proof (induction C n seen out fr arbitrary: ds rule: descendants_loop.induct)
  case (1 C n seen out fr)
  show ?case
  proof (cases "fr = []")
    case True
    with 1 show ?thesis by (simp add: descendants_loop.simps)
  next
    case False
    with 1(2) obtain seen' out' nf where
      lvl: "visit_level C n (seen, out, []) fr = Inr (seen', out', nf)"
      and rec: "descendants_loop C n seen' out' nf = Inr ds"
      by (subst (asm) descendants_loop.simps) (auto split: sum.splits prod.splits)
    from visit_level_result [OF lvl]
    have r: "out' = out @ fr" "nf = concat (map (children_get C) fr)" by auto
    have "(n, x) \<in> (child_edge C)\<^sup>+" if "x \<in> set out' \<union> set nf" for x
    proof (cases "x \<in> set out'")
      case True
      then show ?thesis using r 1(3) by auto
    next
      case False
      with that r obtain y where "y \<in> set fr" "(y, x) \<in> child_edge C"
        by (auto simp: child_edge_def)
      then show ?thesis using 1(3) by (blast intro: trancl.trancl_into_trancl)
    qed
    then show ?thesis by (rule "1.IH" [OF False lvl refl refl rec])
  qed
qed

lemma descendants_of_set:
  assumes "descendants_of n C = Inr ds"
  shows "set ds = {d. (n, d) \<in> (child_edge C)\<^sup>+}"
proof -
  note fxp = descendants_of_fixpoint [OF assms]
  then have setds: "set ds = set (concat (map (children_get C) (n # ds)))" by metis
  have "\<forall>x \<in> set ds. (n, x) \<in> (child_edge C)\<^sup>+"
    by (rule descendants_loop_reach [OF assms [unfolded descendants_of_def]])
       (auto simp: child_edge_def)
  moreover have "d \<in> set ds" if "(n, d) \<in> (child_edge C)\<^sup>+" for d
    using that
  proof (induction rule: trancl_induct)
    case (base y)
    then show ?case by (subst setds) (auto simp: child_edge_def)
  next
    case (step y z)
    then show ?case by (subst setds) (auto simp: child_edge_def)
  qed
  ultimately show ?thesis by blast
qed

lemma distinct_concat_map_each:
  "distinct (concat (map f xs)) \<Longrightarrow> x \<in> set xs \<Longrightarrow> distinct (f x)"
  by (induction xs) auto

lemma distinct_concat_map_disjoint:
  assumes "distinct (concat (map f xs))" "x \<in> set xs" "y \<in> set xs" "x \<noteq> y"
  shows "set (f x) \<inter> set (f y) = {}"
  using assms
proof (induction xs)
  case (Cons a xs)
  have "set (f z) \<inter> set (f a) = {}" if "z \<in> set xs" for z
    using Cons.prems(1) that by auto
  with Cons show ?case by (auto simp: Int_commute)
qed simp

lemma descendants_of_tree_below:
  assumes "descendants_of n C = Inr ds"
  shows "tree_below C n"
proof -
  note fxp = descendants_of_fixpoint [OF assms] and reach = descendants_of_set [OF assms]
  have d: "distinct (concat (map (children_get C) (n # ds)))" "distinct (n # ds)"
    using fxp by (metis distinct.simps(2))+
  have in_nds: "x \<in> set (n # ds)" if "(n, x) \<in> (child_edge C)\<^sup>*" for x
    using that reach by (auto simp: rtrancl_eq_or_trancl)
  show ?thesis
    unfolding tree_below_def
    using reach d(2) distinct_concat_map_each [OF d(1) in_nds]
      distinct_concat_map_disjoint [OF d(1) in_nds in_nds] by auto
qed

text \<open>Conversely, on a tree the search never meets a node twice.\<close>

lemma tree_below_parent:
  assumes "tree_below C n" "(n, x) \<in> (child_edge C)\<^sup>*" "(n, y) \<in> (child_edge C)\<^sup>*"
    "c \<in> set (children_get C x)" "c \<in> set (children_get C y)"
  shows "x = y"
  using assms unfolding tree_below_def by blast

lemma tree_below_level:
  assumes tb: "tree_below C n"
    and fr: "distinct fr" "set fr \<inter> seen = {}" "\<forall>x \<in> set fr. (n, x) \<in> (child_edge C)\<^sup>+"
    and seen: "n \<in> seen" "\<forall>x \<in> seen. (n, x) \<in> (child_edge C)\<^sup>*"
      "\<forall>c \<in> seen \<union> set fr. c = n \<or> (\<exists>p \<in> seen. c \<in> set (children_get C p))"
  shows "distinct (concat (map (children_get C) fr))"
    and "set (concat (map (children_get C) fr)) \<inter> (seen \<union> set fr) = {}"
proof -
  have reach: "(n, x) \<in> (child_edge C)\<^sup>*" if "x \<in> set fr" for x
    using fr(3) that by (simp add: trancl_into_rtrancl)
  have each: "distinct (children_get C x)" if "x \<in> set fr" for x
    using tb reach [OF that] by (simp add: tree_below_def)
  have "distinct (concat (map (children_get C) xs))" if "set xs \<subseteq> set fr" "distinct xs" for xs
    using that
  proof (induction xs)
    case (Cons a xs)
    then have "a \<in> set fr" "set (children_get C a) \<inter> set (children_get C b) = {}"
      if "b \<in> set xs" for b
      using tree_below_parent [OF tb reach reach] that by fastforce+
    with Cons each show ?case by fastforce
  qed simp
  then show "distinct (concat (map (children_get C) fr))" using fr(1) by blast
  have "c \<notin> seen \<union> set fr" if "p \<in> set fr" "c \<in> set (children_get C p)" for c p
  proof
    assume "c \<in> seen \<union> set fr"
    then consider "c = n" | q where "q \<in> seen" "c \<in> set (children_get C q)" using seen(3) by blast
    then show False
    proof cases
      case 1
      have "(p, c) \<in> child_edge C" using that by (simp add: child_edge_def)
      with fr(3) that 1 have "(n, n) \<in> (child_edge C)\<^sup>+"
        by (metis trancl.trancl_into_trancl)
      then show False using tb by (simp add: tree_below_def)
    next
      case 2
      then have "p = q" using tree_below_parent [OF tb reach _ that(2)] that(1) seen(2) by blast
      then show False using 2 that(1) fr(2) by blast
    qed
  qed
  then show "set (concat (map (children_get C) fr)) \<inter> (seen \<union> set fr) = {}" by auto
qed

lemma descendants_loop_ok:
  assumes "tree_below C n" "distinct fr" "set fr \<inter> seen = {}"
    "\<forall>x \<in> set fr. (n, x) \<in> (child_edge C)\<^sup>+" "n \<in> seen"
    "\<forall>x \<in> seen. (n, x) \<in> (child_edge C)\<^sup>*"
    "\<forall>c \<in> seen \<union> set fr. c = n \<or> (\<exists>p \<in> seen. c \<in> set (children_get C p))"
  shows "\<exists>ds. descendants_loop C n seen out fr = Inr ds"
  using assms
proof (induction C n seen out fr rule: descendants_loop.induct)
  case (1 C n seen out fr)
  show ?case
  proof (cases "fr = []")
    case True
    then show ?thesis by (simp add: descendants_loop.simps)
  next
    case False
    let ?nf = "concat (map (children_get C) fr)"
    have lvl: "visit_level C n (seen, out, []) fr = Inr (seen \<union> set fr, out @ fr, ?nf)"
      using visit_level_ok [OF 1(3,4), where nf = "[]"] by simp
    have "\<exists>ds. descendants_loop C n (seen \<union> set fr) (out @ fr) ?nf = Inr ds"
    proof (rule "1.IH" [OF False lvl refl refl 1(2)])
      show "distinct ?nf" "set ?nf \<inter> (seen \<union> set fr) = {}"
        using tree_below_level [OF 1(2-8)] by auto
      show "\<forall>x \<in> set ?nf. (n, x) \<in> (child_edge C)\<^sup>+"
        using 1(5) by (auto simp: child_edge_def intro: trancl.trancl_into_trancl)
      show "n \<in> seen \<union> set fr" using 1(6) by simp
      show "\<forall>x \<in> seen \<union> set fr. (n, x) \<in> (child_edge C)\<^sup>*"
        using 1(5,7) by (auto simp: trancl_into_rtrancl)
      show "\<forall>c \<in> (seen \<union> set fr) \<union> set ?nf.
          c = n \<or> (\<exists>p \<in> seen \<union> set fr. c \<in> set (children_get C p))"
        using 1(8) by auto
    qed
    then show ?thesis using False lvl by (subst descendants_loop.simps) simp
  qed
qed

lemma descendants_of_ok: "tree_below C n \<Longrightarrow> \<exists>ds. descendants_of n C = Inr ds"
  unfolding descendants_of_def
  by (rule descendants_loop_ok) (auto simp: tree_below_def child_edge_def)

lemma descendants_of_cases:
  obtains (tree) ds where "descendants_of n C = Inr ds" "tree_below C n"
  | (cycle) c where "descendants_of n C = Inl (Tree_Cycle c n)" "\<not> tree_below C n"
proof (cases "descendants_of n C")
  case (Inl e)
  then obtain c where "e = Tree_Cycle c n"
    using descendants_loop_error unfolding descendants_of_def by blast
  moreover have "\<not> tree_below C n"
    using Inl descendants_of_ok by fastforce
  ultimately show ?thesis using Inl cycle by simp
next
  case (Inr ds)
  then show ?thesis using tree descendants_of_tree_below by blast
qed

section \<open>The interface of a tree provider\<close>

text \<open>
  A provider materialises, from its own state, both adjacency views of one forest.
  The client lemmas below need only that the two views describe the same edges and
  that no child list repeats a node.  \<open>Traversal\<close> interprets the locale on the
  row sets the gateway returns.
\<close>

locale tree_provider =
  fixes wf_state :: "'s \<Rightarrow> bool"
    and parents :: "'s \<Rightarrow> parent_map"
    and kids :: "'s \<Rightarrow> child_map"
  assumes views_agree:
    "wf_state s \<Longrightarrow> parent_get (parents s) x = Some p \<longleftrightarrow> x \<in> set (children_get (kids s) p)"
    and kids_distinct: "wf_state s \<Longrightarrow> distinct (children_get (kids s) p)"
begin

lemma edges_converse:
  assumes "wf_state s"
  shows "child_edge (kids s) = (parent_edge (parents s))\<inverse>"
  using views_agree [OF assms] by (auto simp: child_edge_def parent_edge_def)

lemma trancl_converse_edges:
  "wf_state s \<Longrightarrow> (a, x) \<in> (child_edge (kids s))\<^sup>+ \<longleftrightarrow> (x, a) \<in> (parent_edge (parents s))\<^sup>+"
  by (simp add: edges_converse trancl_converse)

lemma duality:
  assumes "wf_state s" "ancestors_of x (parents s) = Inr as" "descendants_of a (kids s) = Inr ds"
  shows "a \<in> set as \<longleftrightarrow> x \<in> set ds"
proof -
  have "set as = {b. (x, b) \<in> (parent_edge (parents s))\<^sup>+}"
    using assms(2) by (simp add: ancestors_of_Inr_iff chain_from_set)
  moreover have "set ds = {b. (a, b) \<in> (child_edge (kids s))\<^sup>+}"
    by (rule descendants_of_set [OF assms(3)])
  ultimately show ?thesis using trancl_converse_edges [OF assms(1)] by simp
qed

lemma rooted_tree_below:
  assumes wf: "wf_state s" and anc: "ancestors_of n (parents s) = Inr as"
  shows "tree_below (kids s) n"
proof -
  have chain: "chain_from (parents s) (parent_get (parents s) n) as"
    using anc by (simp add: ancestors_of_Inr_iff)
  then have "n \<notin> set as" using chain_from_node_distinct by fastforce
  then have "(n, n) \<notin> (child_edge (kids s))\<^sup>+"
    using chain_from_set [OF chain] trancl_converse_edges [OF wf] by simp
  moreover have "x = y" if "c \<in> set (children_get (kids s) x)" "c \<in> set (children_get (kids s) y)"
    for x y c
    using that by (metis views_agree [OF wf] option.inject)
  ultimately show ?thesis
    unfolding tree_below_def using kids_distinct [OF wf] by blast
qed

lemma rooted_descendants:
  "wf_state s \<Longrightarrow> ancestors_of n (parents s) = Inr as \<Longrightarrow> \<exists>ds. descendants_of n (kids s) = Inr ds"
  by (rule descendants_of_ok [OF rooted_tree_below])

end

lemma tree_below_no_cycle:
  assumes "tree_below C n" "(n, x) \<in> (child_edge C)\<^sup>*"
  shows "(x, x) \<notin> (child_edge C)\<^sup>+"
  using assms(2)
proof (induction rule: rtrancl_induct)
  case base
  then show ?case using assms(1) by (simp add: tree_below_def)
next
  case (step z y)
  show ?case
  proof
    assume "(y, y) \<in> (child_edge C)\<^sup>+"
    then obtain w where w: "(y, w) \<in> (child_edge C)\<^sup>*" "(w, y) \<in> child_edge C"
      by (blast dest: tranclD2)
    have "(n, w) \<in> (child_edge C)\<^sup>*" using step(1,2) w(1) by (meson rtrancl.rtrancl_into_rtrancl rtrancl_trans)
    then have "w = z"
      using tree_below_parent [OF assms(1), of w z y] step(1,2) w(2) by (simp add: child_edge_def)
    then have "(z, z) \<in> (child_edge C)\<^sup>+" using step(2) w(1) by (metis rtrancl_into_trancl2)
    then show False using step(3) by simp
  qed
qed

lemma tree_below_leaf:
  assumes "tree_below C n" "(n, x) \<in> (child_edge C)\<^sup>*"
  shows "\<exists>l. (x, l) \<in> (child_edge C)\<^sup>* \<and> children_get C l = []"
proof -
  have fin: "finite {d. (y, d) \<in> (child_edge C)\<^sup>+}" for y
  proof (rule finite_subset)
    show "{d. (y, d) \<in> (child_edge C)\<^sup>+} \<subseteq> child_nodes C"
      using children_get_nodes by (auto simp: child_edge_def dest!: tranclD2)
  qed simp
  show ?thesis using assms(2)
  proof (induction "card {d. (x, d) \<in> (child_edge C)\<^sup>+}" arbitrary: x rule: less_induct)
    case less
    show ?case
    proof (cases "children_get C x")
      case (Cons c cs)
      then have e: "(x, c) \<in> child_edge C" by (simp add: child_edge_def)
      then have r: "(n, c) \<in> (child_edge C)\<^sup>*" using less(2) by simp
      have "{d. (c, d) \<in> (child_edge C)\<^sup>+} \<subset> {d. (x, d) \<in> (child_edge C)\<^sup>+}"
        using e tree_below_no_cycle [OF assms(1) r] by (auto intro: trancl_into_trancl2)
      then have "card {d. (c, d) \<in> (child_edge C)\<^sup>+} < card {d. (x, d) \<in> (child_edge C)\<^sup>+}"
        by (rule psubset_card_mono [OF fin])
      from less(1) [OF this r] e show ?thesis by (meson converse_rtrancl_into_rtrancl)
    qed auto
  qed
qed

section \<open>Properties\<close>

text \<open>C28. \<open>ancestors_of\<close> is total: it returns a chain exactly when following
  \<open>parent_of\<close> from the node reaches a root, and then the chain is that walk, repeats no
  node, never contains the node itself and holds every proper ancestor; otherwise it
  raises the cycle error for this node.\<close>
theorem ancestors_of_correct:
  "(\<exists>ps. ancestors_of n P = Inr ps \<and> chain_from P (parent_get P n) ps
        \<and> distinct (n # ps) \<and> set ps = {a. (n, a) \<in> (parent_edge P)\<^sup>+})
   \<or> ((\<exists>c. ancestors_of n P = Inl (Tree_Cycle c n))
        \<and> (\<nexists>ps. chain_from P (parent_get P n) ps))"
proof (cases rule: ancestors_of_cases [of n P])
  case (chain ps)
  then show ?thesis using chain_from_node_distinct [OF chain(2)] chain_from_set [OF chain(2)] by auto
qed auto

text \<open>C5. \<open>descendants_of\<close> is total: it returns a list exactly when the part of the
  child graph below the node is a tree; the list repeats nothing, is the set of nodes
  reachable by at least one child edge, and is laid out breadth first (it is the
  concatenation of the child lists of the node and of its own entries, in order);
  otherwise it raises the cycle error.\<close>
theorem descendants_of_correct:
  "(tree_below C n \<and> (\<exists>ds. descendants_of n C = Inr ds \<and> distinct (n # ds)
        \<and> set ds = {d. (n, d) \<in> (child_edge C)\<^sup>+}
        \<and> ds = concat (map (children_get C) (n # ds))))
   \<or> (\<not> tree_below C n \<and> (\<exists>c. descendants_of n C = Inl (Tree_Cycle c n)))"
proof (cases rule: descendants_of_cases [of n C])
  case (tree ds)
  then show ?thesis using descendants_of_fixpoint [OF tree(1)] descendants_of_set [OF tree(1)] by auto
qed auto

text \<open>\<open>leaves_under\<close> returns exactly the childless nodes of the subtree, each
  once, and from every node of the subtree one of them can be reached.\<close>
theorem leaves_under_correct:
  assumes "leaves_under n C = Inr ls"
  shows "distinct ls
    \<and> set ls = {l. (n, l) \<in> (child_edge C)\<^sup>* \<and> children_get C l = []}
    \<and> (\<forall>x. (n, x) \<in> (child_edge C)\<^sup>* \<longrightarrow> (\<exists>l \<in> set ls. (x, l) \<in> (child_edge C)\<^sup>*))"
proof -
  from assms obtain ds where ds: "descendants_of n C = Inr ds"
    and ls: "ls = filter (\<lambda>x. children_get C x = []) (n # ds)"
    by (auto simp: leaves_under_def subtree_of_def res_bind_Inr_iff)
  have mem: "set (n # ds) = {x. (n, x) \<in> (child_edge C)\<^sup>*}"
    using descendants_of_set [OF ds] by (auto simp: rtrancl_eq_or_trancl)
  have "distinct ls" using descendants_of_fixpoint [OF ds] ls by (metis distinct_filter)
  moreover have lset: "set ls = {l. (n, l) \<in> (child_edge C)\<^sup>* \<and> children_get C l = []}"
    using ls mem by auto
  moreover have "\<exists>l \<in> set ls. (x, l) \<in> (child_edge C)\<^sup>*" if "(n, x) \<in> (child_edge C)\<^sup>*" for x
    using tree_below_leaf [OF descendants_of_tree_below [OF ds] that] that
      lset descendants_of_set [OF ds] by (auto intro: rtrancl_trans)
  ultimately show ?thesis by blast
qed

text \<open>The branch-binding rule: when every node's branch passes
  \<open>validate_group_branch_binding\<close> against its parent's branch, every ancestor of a node,
  hence its root, carries the node's branch: a group subtree lives in one branch.\<close>
theorem branch_binding_subtree:
  assumes valid: "\<forall>x p. parent_get P x = Some p \<longrightarrow>
      validate_group_branch_binding (Some (branch p)) (branch x) = Inr ()"
    and anc: "ancestors_of n P = Inr as"
  shows "(\<forall>a \<in> set as. branch a = branch n) \<and>
    (\<exists>r. root_of n P = Inr r \<and> branch r = branch n)"
proof -
  have step: "branch p = branch x" if "parent_get P x = Some p" for x p
    using valid [rule_format, OF that]
    by (auto simp: validate_group_branch_binding_def split: if_splits)
  have "\<forall>a \<in> set as. branch a = branch n"
    using anc unfolding ancestors_of_Inr_iff
    by (induction as arbitrary: n) (auto dest: step)
  then show ?thesis using anc by (auto simp: root_of_def)
qed


definition demo_parents :: parent_map where
  "demo_parents = [(''root'', None), (''a'', Some ''root''), (''b'', Some ''a'')]"

definition demo_children :: child_map where
  "demo_children = [(''root'', [''a'', ''c'']), (''a'', [''b''])]"

lemma leaves_under_witness:
  "leaves_under ''root'' demo_children = Inr [''c'', ''b''] \<and> distinct [''c'', ''b'']"
proof -
  have "leaves_under ''root'' demo_children = Inr [''c'', ''b'']" by code_simp
  from leaves_under_correct [OF this] this show ?thesis by blast
qed

lemma branch_binding_witness:
  "ancestors_of ''b'' demo_parents = Inr [''a'', ''root'']
   \<and> (\<exists>r. root_of ''b'' demo_parents = Inr r \<and> (\<lambda>_. ''B1'') r = ''B1'')"
proof -
  have a: "ancestors_of ''b'' demo_parents = Inr [''a'', ''root'']" by code_simp
  have "\<forall>x p. parent_get demo_parents x = Some p \<longrightarrow>
      validate_group_branch_binding (Some ((\<lambda>_. ''B1'') p)) ((\<lambda>_. ''B1'') x) = Inr ()"
    by (simp add: validate_group_branch_binding_def)
  from branch_binding_subtree [OF this a] a show ?thesis by blast
qed

end
