(* ===== verification/Group_Docs.thy ===== *)
theory Group_Docs
  imports Trees
begin

text \<open>
  Model of \<open>flock_os/flock_os/rules.py\<close> and of the controllers of \<open>Flock Group\<close>,
  \<open>Flock Group Member\<close> and \<open>Flock Member\<close>.  A table is an association list from
  document name to row; \<open>save\<close> runs the validate hook on the incoming document and then
  writes the row, which is what \<open>doc.save()\<close> does around the controllers.

\<close>

section \<open>rules.py\<close>

datatype rule_error =
    Member_Name_Required
  | Member_Status_Invalid string
  | Group_Member_Role_Invalid string
  | Group_Member_Status_Invalid string
  | Group_Without_Branch
  | Group_Member_Branch_Mismatch string string
  | Linked_Group_Missing string
  | Member_Already_In_Group string string
  | Member_Email_Taken string string
  | Group_Binding_Error tree_error

definition MEMBER_STATUS_OPTIONS :: "string list" where
  "MEMBER_STATUS_OPTIONS = [''Member'', ''Pre-Member'', ''Visitor'']"
definition GROUP_MEMBER_ROLE_OPTIONS :: "string list" where
  "GROUP_MEMBER_ROLE_OPTIONS = [''Leader'', ''Co-Leader'', ''Member'', ''Visitor'']"
definition GROUP_MEMBER_STATUS_OPTIONS :: "string list" where
  "GROUP_MEMBER_STATUS_OPTIONS = [''Active'', ''Inactive'']"

text \<open>\<open>" ".join(part for part in (first, last) if part)\<close>.\<close>

definition join_nonempty :: "string \<Rightarrow> string \<Rightarrow> string" where
  "join_nonempty a b =
     (if a \<noteq> [] \<and> b \<noteq> [] then a @ '' '' @ b else if a \<noteq> [] then a else b)"

definition compute_member_full_name ::
  "string option \<Rightarrow> string option \<Rightarrow> rule_error + string" where
  "compute_member_full_name first_name last_name =
    (let first = py_strip (or_empty first_name); last = py_strip (or_empty last_name)
     in if first = [] \<and> last = [] then Inl Member_Name_Required
        else Inr (join_nonempty first last))"

definition validate_member_status :: "string \<Rightarrow> rule_error + unit" where
  "validate_member_status status =
     raise_if (status \<notin> set MEMBER_STATUS_OPTIONS) (Member_Status_Invalid status)"

definition validate_group_member_role :: "string \<Rightarrow> rule_error + unit" where
  "validate_group_member_role role =
     raise_if (role \<notin> set GROUP_MEMBER_ROLE_OPTIONS) (Group_Member_Role_Invalid role)"

definition validate_group_member_status :: "string \<Rightarrow> rule_error + unit" where
  "validate_group_member_status status =
     raise_if (status \<notin> set GROUP_MEMBER_STATUS_OPTIONS) (Group_Member_Status_Invalid status)"

definition denormalize_group_member_branch :: "string option \<Rightarrow> rule_error + string" where
  "denormalize_group_member_branch group_branch =
     (if \<not> truthy group_branch then Inl Group_Without_Branch else Inr (the group_branch))"

definition validate_group_member_branch_matches :: "string \<Rightarrow> string \<Rightarrow> rule_error + unit" where
  "validate_group_member_branch_matches member_branch group_branch =
     raise_if (member_branch \<noteq> group_branch) (Group_Member_Branch_Mismatch member_branch group_branch)"

definition is_duplicate_pair :: "string \<times> string \<Rightarrow> (string \<times> string) list \<Rightarrow> bool" where
  "is_duplicate_pair key existing = (key \<in> set existing)"

section \<open>Flock Group\<close>

record group_doc =
  g_parent :: "string option"
  g_branch :: string
  g_organization :: "string option"

type_synonym group_db = "(docname \<times> group_doc) list"

definition branch_organization_default :: "(string \<Rightarrow> string option) \<Rightarrow> group_doc \<Rightarrow> group_doc" where
  "branch_organization_default branch_org doc =
    (if truthy (g_organization doc) \<or> g_branch doc = [] then doc
     else if truthy (branch_org (g_branch doc))
     then doc \<lparr>g_organization := branch_org (g_branch doc)\<rparr>
     else doc)"

definition group_branch_of :: "group_db \<Rightarrow> docname \<Rightarrow> string option" where
  "group_branch_of db n = map_option g_branch (map_of db n)"

definition validate_branch_binding :: "group_db \<Rightarrow> group_doc \<Rightarrow> rule_error + unit" where
  "validate_branch_binding db doc =
    (let parent_branch =
       (if truthy (g_parent doc) then group_branch_of db (the (g_parent doc)) else None)
     in case validate_group_branch_binding parent_branch (g_branch doc) of
          Inl e \<Rightarrow> Inl (Group_Binding_Error e)
        | Inr _ \<Rightarrow> Inr ())"

definition validate_group :: "(string \<Rightarrow> string option) \<Rightarrow> group_db \<Rightarrow> group_doc \<Rightarrow> rule_error + group_doc" where
  "validate_group branch_org db doc =
    (let doc' = branch_organization_default branch_org doc
     in res_bind (validate_branch_binding db doc') (\<lambda>_. Inr doc'))"

definition save_group ::
  "(string \<Rightarrow> string option) \<Rightarrow> group_db \<Rightarrow> docname \<Rightarrow> group_doc \<Rightarrow> rule_error + group_db" where
  "save_group branch_org db n doc =
     res_bind (validate_group branch_org db doc) (\<lambda>doc'. Inr (AList.update n doc' db))"

section \<open>Flock Group Member\<close>

record group_member_doc =
  gm_group :: string
  gm_member :: string
  gm_role :: string
  gm_status :: string
  gm_branch :: string
  gm_organization :: "string option"

type_synonym group_member_db = "(docname \<times> group_member_doc) list"

definition denormalize_branch_and_org ::
  "group_db \<Rightarrow> group_member_doc \<Rightarrow> rule_error + group_member_doc" where
  "denormalize_branch_and_org groups doc =
    (case map_of groups (gm_group doc) of
       None \<Rightarrow> Inl (Linked_Group_Missing (gm_group doc))
     | Some g \<Rightarrow>
         res_bind (denormalize_group_member_branch (Some (g_branch g))) (\<lambda>b.
         let doc1 = doc \<lparr>gm_branch := b\<rparr>;
             doc2 = (if truthy (g_organization g) then doc1 \<lparr>gm_organization := g_organization g\<rparr> else doc1)
         in res_bind (validate_group_member_branch_matches (gm_branch doc2) (g_branch g)) (\<lambda>_. Inr doc2)))"

text \<open>\<open>filters = {group, member, name: ["!=", doc.name or ""]}\<close>, plucking names.\<close>

definition other_memberships ::
  "group_member_db \<Rightarrow> docname \<Rightarrow> group_member_doc \<Rightarrow> docname list" where
  "other_memberships db n doc =
     map fst (filter (\<lambda>(m, r). gm_group r = gm_group doc \<and> gm_member r = gm_member doc \<and> m \<noteq> n) db)"

definition validate_group_member_uniqueness ::
  "group_member_db \<Rightarrow> docname \<Rightarrow> group_member_doc \<Rightarrow> rule_error + unit" where
  "validate_group_member_uniqueness db n doc =
    (let pairs = replicate (length (other_memberships db n doc)) (gm_group doc, gm_member doc)
     in raise_if (is_duplicate_pair (gm_group doc, gm_member doc) pairs)
          (Member_Already_In_Group (gm_member doc) (gm_group doc)))"

definition validate_group_member ::
  "group_db \<Rightarrow> group_member_db \<Rightarrow> docname \<Rightarrow> group_member_doc \<Rightarrow> rule_error + group_member_doc" where
  "validate_group_member groups db n doc =
     res_bind (validate_group_member_role (gm_role doc)) (\<lambda>_.
     res_bind (validate_group_member_status (gm_status doc)) (\<lambda>_.
     res_bind (denormalize_branch_and_org groups doc) (\<lambda>doc'.
     res_bind (validate_group_member_uniqueness db n doc') (\<lambda>_. Inr doc'))))"

definition save_group_member ::
  "group_db \<Rightarrow> group_member_db \<Rightarrow> docname \<Rightarrow> group_member_doc \<Rightarrow> rule_error + group_member_db" where
  "save_group_member groups db n doc =
     res_bind (validate_group_member groups db n doc) (\<lambda>doc'. Inr (AList.update n doc' db))"

section \<open>Flock Member\<close>

record member_doc =
  m_first_name :: "string option"
  m_last_name :: "string option"
  m_full_name :: "string option"
  m_email :: "string option"
  m_status :: string
  m_branch :: string
  m_organization :: "string option"

type_synonym member_db = "(docname \<times> member_doc) list"

definition branch_organization :: "(string \<Rightarrow> string option) \<Rightarrow> member_doc \<Rightarrow> string option" where
  "branch_organization branch_org doc =
    (if truthy (m_organization doc) \<or> m_branch doc = [] then m_organization doc
     else or_else (branch_org (m_branch doc)) (m_organization doc))"

definition same_email_branch :: "member_db \<Rightarrow> docname \<Rightarrow> member_doc \<Rightarrow> docname list" where
  "same_email_branch db n doc =
     map fst (filter (\<lambda>(m, r). m_email r = m_email doc \<and> m_branch r = m_branch doc \<and> m \<noteq> n) db)"

definition validate_email_branch_uniqueness ::
  "member_db \<Rightarrow> docname \<Rightarrow> member_doc \<Rightarrow> rule_error + unit" where
  "validate_email_branch_uniqueness db n doc =
    (if \<not> truthy (m_email doc) then Inr ()
     else let key = (the (m_email doc), m_branch doc);
              pairs = replicate (length (same_email_branch db n doc)) key
          in raise_if (is_duplicate_pair key pairs)
               (Member_Email_Taken (the (m_email doc)) (m_branch doc)))"

definition validate_member ::
  "(string \<Rightarrow> string option) \<Rightarrow> member_db \<Rightarrow> docname \<Rightarrow> member_doc \<Rightarrow> rule_error + member_doc" where
  "validate_member branch_org db n doc =
     res_bind (compute_member_full_name (m_first_name doc) (m_last_name doc)) (\<lambda>full.
     let doc1 = doc \<lparr>m_full_name := Some full\<rparr>
     in res_bind (validate_member_status (m_status doc1)) (\<lambda>_.
        let doc2 = doc1 \<lparr>m_organization := branch_organization branch_org doc1\<rparr>
        in res_bind (validate_email_branch_uniqueness db n doc2) (\<lambda>_. Inr doc2)))"

definition save_member ::
  "(string \<Rightarrow> string option) \<Rightarrow> member_db \<Rightarrow> docname \<Rightarrow> member_doc \<Rightarrow> rule_error + member_db" where
  "save_member branch_org db n doc =
     res_bind (validate_member branch_org db n doc) (\<lambda>doc'. Inr (AList.update n doc' db))"

section \<open>Lemmas\<close>

lemma update_lookup: "map_of (AList.update n v db) = (map_of db)(n \<mapsto> v)"
  by (rule ext) (simp add: update_conv)

lemma full_name_ok_iff:
  "compute_member_full_name f l = Inr s \<longleftrightarrow>
     s = join_nonempty (py_strip (or_empty f)) (py_strip (or_empty l)) \<and> s \<noteq> []"
  by (auto simp: compute_member_full_name_def Let_def join_nonempty_def)

definition branch_bound :: "group_db \<Rightarrow> bool" where
  "branch_bound db \<longleftrightarrow> (\<forall>n g p pr. map_of db n = Some g \<longrightarrow> g_parent g = Some p \<longrightarrow> p \<noteq> [] \<longrightarrow>
     map_of db p = Some pr \<longrightarrow> g_branch g = g_branch pr)"

lemma save_group_Inr:
  assumes "save_group borg db n doc = Inr db'"
  obtains doc' where "db' = AList.update n doc' db" "g_branch doc' = g_branch doc"
    "g_parent doc' = g_parent doc" "g_branch doc \<noteq> []"
    "\<And>p pr. g_parent doc = Some p \<Longrightarrow> p \<noteq> [] \<Longrightarrow> map_of db p = Some pr \<Longrightarrow> g_branch pr = g_branch doc"
proof -
  let ?d = "branch_organization_default borg doc"
  have same: "g_branch ?d = g_branch doc" "g_parent ?d = g_parent doc"
    by (simp_all add: branch_organization_default_def)
  from assms have "db' = AList.update n ?d db" "validate_branch_binding db ?d = Inr ()"
    by (auto simp: save_group_def validate_group_def Let_def res_bind_Inr_iff)
  moreover from this(2) have "g_branch doc \<noteq> []"
    and "g_branch pr = g_branch doc"
    if "g_parent doc = Some p" "p \<noteq> []" "map_of db p = Some pr" for p pr
    using that same
    by (auto simp: validate_branch_binding_def validate_group_branch_binding_def Let_def
        group_branch_of_def split: sum.splits if_splits option.splits)
  moreover from calculation(2) have "g_branch doc \<noteq> []"
    using same by (auto simp: validate_branch_binding_def validate_group_branch_binding_def Let_def
        split: sum.splits if_splits option.splits)
  ultimately show ?thesis using that [of ?d] same by blast
qed

definition membership_unique :: "group_member_db \<Rightarrow> bool" where
  "membership_unique db \<longleftrightarrow> (\<forall>n m r s. map_of db n = Some r \<longrightarrow> map_of db m = Some s \<longrightarrow>
     gm_group r = gm_group s \<longrightarrow> gm_member r = gm_member s \<longrightarrow> n = m)"

definition membership_branches :: "group_db \<Rightarrow> group_member_db \<Rightarrow> bool" where
  "membership_branches groups db \<longleftrightarrow> (\<forall>n r. map_of db n = Some r \<longrightarrow>
     group_branch_of groups (gm_group r) = Some (gm_branch r))"

lemma save_group_member_Inr:
  assumes "save_group_member groups db n doc = Inr db'"
  obtains doc' where "db' = AList.update n doc' db" "gm_group doc' = gm_group doc"
    "gm_member doc' = gm_member doc" "other_memberships db n doc' = []"
    "group_branch_of groups (gm_group doc') = Some (gm_branch doc')"
proof -
  from assms obtain d where d: "denormalize_branch_and_org groups doc = Inr d"
    "validate_group_member_uniqueness db n d = Inr ()" "db' = AList.update n d db"
    by (auto simp: save_group_member_def validate_group_member_def res_bind_Inr_iff)
  from d(1) have "gm_group d = gm_group doc" "gm_member d = gm_member doc"
    "group_branch_of groups (gm_group d) = Some (gm_branch d)"
    by (auto simp: denormalize_branch_and_org_def denormalize_group_member_branch_def Let_def
        group_branch_of_def res_bind_Inr_iff split: option.splits if_splits)
  moreover have "other_memberships db n d = []"
    using d(2) by (auto simp: validate_group_member_uniqueness_def Let_def is_duplicate_pair_def)
  ultimately show ?thesis using that d(3) by blast
qed

section \<open>Properties\<close>

text \<open>Saving a group keeps the group tree branch-bound (every group has the branch of
  its parent) as long as the save does not change the branch of an existing group and a
  newly named group has no children yet.\<close>
theorem save_group_branch_bound:
  assumes inv: "branch_bound db" and ok: "save_group borg db n doc = Inr db'"
    and same: "\<forall>old. map_of db n = Some old \<longrightarrow> g_branch old = g_branch doc"
    and fresh: "map_of db n = None \<longrightarrow> (\<forall>m g. map_of db m = Some g \<longrightarrow> g_parent g \<noteq> Some n)"
  shows "branch_bound db'"
proof -
  obtain d where d: "db' = AList.update n d db" "g_branch d = g_branch doc" "g_parent d = g_parent doc"
    "\<And>p pr. g_parent doc = Some p \<Longrightarrow> p \<noteq> [] \<Longrightarrow> map_of db p = Some pr \<Longrightarrow> g_branch pr = g_branch doc"
    using ok by (rule save_group_Inr) blast
  show ?thesis
    unfolding branch_bound_def
  proof (intro allI impI)
    fix m g p pr
    assume a: "map_of db' m = Some g" "g_parent g = Some p" "p \<noteq> []" "map_of db' p = Some pr"
    consider "m = n" "p = n" | "m = n" "p \<noteq> n" | "m \<noteq> n" "p = n" | "m \<noteq> n" "p \<noteq> n" by blast
    then show "g_branch g = g_branch pr"
    proof cases
      case 1 then show ?thesis using a d(1) by (simp add: update_lookup)
    next
      case 2
      then have "g = d" "map_of db p = Some pr" using a(1,4) d(1) by (auto simp: update_lookup)
      then show ?thesis using d(2,3) d(4) [of p pr] a(2,3) by simp
    next
      case 3
      then obtain old where "map_of db n = Some old" using a d(1) fresh by (auto simp: update_lookup)
      then show ?thesis
        using 3 a d(1,2) same inv unfolding branch_bound_def by (auto simp: update_lookup)
    next
      case 4 then show ?thesis using a d(1) inv unfolding branch_bound_def by (auto simp: update_lookup)
    qed
  qed
qed

definition demo_groups :: group_db where
  "demo_groups =
    [(''G'', \<lparr>g_parent = None, g_branch = ''B1'', g_organization = None\<rparr>),
     (''H'', \<lparr>g_parent = Some ''G'', g_branch = ''B1'', g_organization = None\<rparr>)]"

lemma demo_groups_bound: "branch_bound demo_groups"
  by (auto simp: branch_bound_def demo_groups_def split: if_splits)

lemma save_group_branch_bound_witness:
  "branch_bound (AList.update ''K'' \<lparr>g_parent = Some ''H'', g_branch = ''B1'', g_organization = None\<rparr>
     demo_groups)"
  by (rule save_group_branch_bound [where borg = "\<lambda>_. None" and n = "''K''"
        and doc = "\<lparr>g_parent = Some ''H'', g_branch = ''B1'', g_organization = None\<rparr>",
        OF demo_groups_bound])
     (code_simp, auto simp: demo_groups_def split: if_splits)

text \<open>The binding is only checked upwards: the controller accepts a save which changes
  the branch of a root group that has children, and the stored tree is then no longer
  branch-bound.\<close>
theorem root_branch_change_breaks_binding:
  "\<exists>db'. save_group (\<lambda>_. None) demo_groups ''G''
        \<lparr>g_parent = None, g_branch = ''B2'', g_organization = None\<rparr> = Inr db'
     \<and> branch_bound demo_groups \<and> \<not> branch_bound db'"
proof -
  let ?db = "[(''G'', \<lparr>g_parent = None, g_branch = ''B2'', g_organization = None\<rparr>),
     (''H'', \<lparr>g_parent = Some ''G'', g_branch = ''B1'', g_organization = None\<rparr>)] :: group_db"
  have "save_group (\<lambda>_. None) demo_groups ''G''
      \<lparr>g_parent = None, g_branch = ''B2'', g_organization = None\<rparr> = Inr ?db" by code_simp
  moreover have "\<not> branch_bound ?db"
    by (auto simp: branch_bound_def intro!: exI [of _ "''H''"])
  ultimately show ?thesis using demo_groups_bound by blast
qed

text \<open>Membership rows stay unique on (group, member) and their branch stays that of
  their group: every accepted save preserves both, for a new row and for an edited one.\<close>
theorem save_group_member_invariant:
  assumes "membership_unique db" "membership_branches groups db"
    and ok: "save_group_member groups db n doc = Inr db'"
  shows "membership_unique db' \<and> membership_branches groups db'"
proof -
  obtain d where d: "db' = AList.update n d db" "other_memberships db n d = []"
    "group_branch_of groups (gm_group d) = Some (gm_branch d)"
    using ok by (rule save_group_member_Inr) blast
  have none: "m = n" if "map_of db m = Some r" "gm_group r = gm_group d" "gm_member r = gm_member d" for m r
    using d(2) map_of_SomeD [OF that(1)] that(2,3)
    by (auto simp: other_memberships_def filter_empty_conv)
  show ?thesis
    using assms(1,2) none d(3)
    unfolding membership_unique_def membership_branches_def d(1) update_lookup
    by (auto split: if_splits)
qed

definition demo_membership :: group_member_doc where
  "demo_membership = \<lparr>gm_group = ''G'', gm_member = ''M1'', gm_role = ''Leader'',
     gm_status = ''Active'', gm_branch = ''B9'', gm_organization = None\<rparr>"

lemma save_group_member_invariant_witness:
  "membership_unique [(''r1'', demo_membership \<lparr>gm_branch := ''B1''\<rparr>)]
   \<and> membership_branches demo_groups [(''r1'', demo_membership \<lparr>gm_branch := ''B1''\<rparr>)]"
proof (rule save_group_member_invariant)
  show "save_group_member demo_groups [] ''r1'' demo_membership
      = Inr [(''r1'', demo_membership \<lparr>gm_branch := ''B1''\<rparr>)]" by code_simp
qed (simp_all add: membership_unique_def membership_branches_def)

text \<open>A stored member always has a full name that is not empty and neither starts nor
  ends with whitespace, and no other row of the same branch has the same e-mail address.\<close>
theorem save_member_correct:
  assumes "save_member borg db n doc = Inr db'"
  shows "\<exists>r full. db' = AList.update n r db \<and> m_full_name r = Some full \<and> full \<noteq> []
     \<and> \<not> py_space (hd full) \<and> \<not> py_space (last full)
     \<and> m_status r \<in> set MEMBER_STATUS_OPTIONS
     \<and> (\<forall>m s. truthy (m_email r) \<longrightarrow> map_of db m = Some s \<longrightarrow> m_email s = m_email r
           \<longrightarrow> m_branch s = m_branch r \<longrightarrow> m = n)"
proof -
  from assms obtain full r where
    full: "compute_member_full_name (m_first_name doc) (m_last_name doc) = Inr full"
    and r: "r = doc \<lparr>m_full_name := Some full,
        m_organization := branch_organization borg (doc \<lparr>m_full_name := Some full\<rparr>)\<rparr>"
    and st: "validate_member_status (m_status doc) = Inr ()"
    and un: "validate_email_branch_uniqueness db n r = Inr ()"
    and db': "db' = AList.update n r db"
    by (auto simp: save_member_def validate_member_def res_bind_Inr_iff Let_def)
  have ends: "full \<noteq> [] \<and> \<not> py_space (hd full) \<and> \<not> py_space (last full)"
    using full py_strip_no_space [of "or_empty (m_first_name doc)"]
      py_strip_no_space [of "or_empty (m_last_name doc)"]
    by (auto simp: full_name_ok_iff join_nonempty_def split: if_splits)
  have "m = n" if "truthy (m_email r)" "map_of db m = Some s" "m_email s = m_email r"
    "m_branch s = m_branch r" for m s
    using un that(1,3,4) map_of_SomeD [OF that(2)]
    by (auto simp: validate_email_branch_uniqueness_def is_duplicate_pair_def Let_def
        same_email_branch_def filter_empty_conv)
  moreover have "m_full_name r = Some full" "m_status r \<in> set MEMBER_STATUS_OPTIONS"
    using st by (auto simp: r validate_member_status_def)
  ultimately show ?thesis using db' ends by blast
qed

definition demo_member :: member_doc where
  "demo_member = \<lparr>m_first_name = Some '' Ada '', m_last_name = None, m_full_name = None,
     m_email = Some ''a@x'', m_status = ''Member'', m_branch = ''B1'', m_organization = None\<rparr>"

lemma save_member_witness:
  "\<exists>r full. [(''M1'', demo_member \<lparr>m_full_name := Some ''Ada''\<rparr>)] = AList.update ''M1'' r []
     \<and> m_full_name r = Some full \<and> full \<noteq> []"
proof -
  have "save_member (\<lambda>_. None) [] ''M1'' demo_member
      = Inr [(''M1'', demo_member \<lparr>m_full_name := Some ''Ada''\<rparr>)]" by code_simp
  from save_member_correct [OF this] show ?thesis by blast
qed

end
