(* ===== verification/Traversal.thy ===== *)
theory Traversal
  imports Trees
begin

text \<open>
  Model of \<open>flock_os/traversal.py\<close>: the service which builds the adjacency views of
  the branch tree and of the group tree from the rows of a gateway and delegates the
  walk to \<open>Trees\<close>.  The gateway (the port \<open>TreeReadGateway\<close>) is a record of functions;
  its answers are whatever the database holds.  Rows are records with the fields the
  module requests; the REST endpoints serialise them to field/value lists without the
  fields that are \<open>None\<close>.
\<close>

section \<open>Rows and gateway\<close>

datatype py_val = PyStr string | PyInt int

record branch_row =
  br_name :: docname
  br_branch_name :: "string option"
  br_parent :: "string option"
  br_organization :: "string option"
  br_is_active :: "int option"

record group_row =
  gr_name :: docname
  gr_group_name :: "string option"
  gr_parent :: "string option"
  gr_branch :: "string option"
  gr_organization :: "string option"
  gr_leader :: "string option"
  gr_group_type :: "string option"
  gr_is_active :: "int option"

record roster_edge =
  re_group :: "string option"
  re_member :: string
  re_role :: string

record tree_gateway =
  gw_get_branch :: "docname \<Rightarrow> branch_row option"
  gw_get_group :: "docname \<Rightarrow> group_row option"
  gw_branch_rows :: "docname option \<Rightarrow> branch_row list"
  gw_group_rows :: "docname option \<Rightarrow> group_row list"
  gw_groups_led_by :: "docname \<Rightarrow> group_row list"
  gw_roster_edges :: "docname \<Rightarrow> string list \<Rightarrow> roster_edge list"

definition NullTreeReadGateway :: tree_gateway where
  "NullTreeReadGateway = \<lparr>gw_get_branch = (\<lambda>_. None), gw_get_group = (\<lambda>_. None),
     gw_branch_rows = (\<lambda>_. []), gw_group_rows = (\<lambda>_. []),
     gw_groups_led_by = (\<lambda>_. []), gw_roster_edges = (\<lambda>_ _. [])\<rparr>"

definition LEADER_ROLES :: "string list" where
  "LEADER_ROLES = [''Leader'', ''Co-Leader'']"

datatype traversal_error =
    Node_Not_Found string
  | Tree_Error tree_error
  | Argument_Required string

definition lift_tree :: "tree_error + 'a \<Rightarrow> traversal_error + 'a" where
  "lift_tree r = (case r of Inl e \<Rightarrow> Inl (Tree_Error e) | Inr a \<Rightarrow> Inr a)"

section \<open>Adjacency views\<close>

definition none_if_empty :: "string option \<Rightarrow> string option" where
  "none_if_empty x = (if truthy x then x else None)"

definition adjacency_step ::
  "('r \<Rightarrow> docname) \<Rightarrow> ('r \<Rightarrow> string option) \<Rightarrow> 'r
    \<Rightarrow> parent_map \<times> child_map \<times> (docname \<times> 'r) list \<Rightarrow> parent_map \<times> child_map \<times> (docname \<times> 'r) list" where
  "adjacency_step name_of parent_key row = (\<lambda>(parent_of, children_of, row_by_name).
    (let name = name_of row; parent = none_if_empty (parent_key row)
     in (AList.update name parent parent_of,
         (case parent of
            None \<Rightarrow> children_of
          | Some p \<Rightarrow> AList.update p (children_get children_of p @ [name]) children_of),
         AList.update name row row_by_name)))"

definition build_adjacency ::
  "('r \<Rightarrow> docname) \<Rightarrow> ('r \<Rightarrow> string option) \<Rightarrow> 'r list
    \<Rightarrow> parent_map \<times> child_map \<times> (docname \<times> 'r) list" where
  "build_adjacency name_of parent_key rows = fold (adjacency_step name_of parent_key) rows ([], [], [])"

definition rows_for :: "docname list \<Rightarrow> (docname \<times> 'r) list \<Rightarrow> 'r list" where
  "rows_for names row_by_name = List.map_filter (map_of row_by_name) names"

definition branch_subtree_view where
  "branch_subtree_view gw root = build_adjacency br_name br_parent (gw_branch_rows gw root)"

definition group_subtree_view where
  "group_subtree_view gw root = build_adjacency gr_name gr_parent (gw_group_rows gw root)"

definition require_branch :: "tree_gateway \<Rightarrow> docname \<Rightarrow> traversal_error + branch_row" where
  "require_branch gw name = (case gw_get_branch gw name of
     None \<Rightarrow> Inl (Node_Not_Found name) | Some row \<Rightarrow> Inr row)"

definition require_group :: "tree_gateway \<Rightarrow> docname \<Rightarrow> traversal_error + group_row" where
  "require_group gw name = (case gw_get_group gw name of
     None \<Rightarrow> Inl (Node_Not_Found name) | Some row \<Rightarrow> Inr row)"

section \<open>The service\<close>

definition branch_ancestors :: "tree_gateway \<Rightarrow> docname \<Rightarrow> traversal_error + branch_row list" where
  "branch_ancestors gw branch = res_bind (require_branch gw branch) (\<lambda>_.
     let (parent_of, _, row_by_name) = branch_subtree_view gw None
     in res_bind (lift_tree (ancestors_of branch parent_of)) (\<lambda>ns. Inr (rows_for ns row_by_name)))"

definition branch_descendants :: "tree_gateway \<Rightarrow> docname \<Rightarrow> traversal_error + branch_row list" where
  "branch_descendants gw branch = res_bind (require_branch gw branch) (\<lambda>_.
     let (_, children_of, row_by_name) = branch_subtree_view gw (Some branch)
     in res_bind (lift_tree (descendants_of branch children_of)) (\<lambda>ns. Inr (rows_for ns row_by_name)))"

definition branch_subtree :: "tree_gateway \<Rightarrow> docname \<Rightarrow> traversal_error + branch_row list" where
  "branch_subtree gw branch = res_bind (require_branch gw branch) (\<lambda>_.
     let (_, children_of, row_by_name) = branch_subtree_view gw (Some branch)
     in res_bind (lift_tree (subtree_of branch children_of)) (\<lambda>ns. Inr (rows_for ns row_by_name)))"

definition branch_path_to_root :: "tree_gateway \<Rightarrow> docname \<Rightarrow> traversal_error + branch_row list" where
  "branch_path_to_root gw branch = res_bind (require_branch gw branch) (\<lambda>_.
     let (parent_of, _, row_by_name) = branch_subtree_view gw None
     in res_bind (lift_tree (path_to_root branch parent_of)) (\<lambda>ns. Inr (rows_for ns row_by_name)))"

definition branch_tree :: "tree_gateway \<Rightarrow> branch_row list" where
  "branch_tree gw = gw_branch_rows gw None"

definition group_ancestors :: "tree_gateway \<Rightarrow> docname \<Rightarrow> traversal_error + group_row list" where
  "group_ancestors gw grp = res_bind (require_group gw grp) (\<lambda>_.
     let (parent_of, _, row_by_name) = group_subtree_view gw None
     in res_bind (lift_tree (ancestors_of grp parent_of)) (\<lambda>ns. Inr (rows_for ns row_by_name)))"

definition group_descendants :: "tree_gateway \<Rightarrow> docname \<Rightarrow> traversal_error + group_row list" where
  "group_descendants gw grp = res_bind (require_group gw grp) (\<lambda>_.
     let (_, children_of, row_by_name) = group_subtree_view gw (Some grp)
     in res_bind (lift_tree (descendants_of grp children_of)) (\<lambda>ns. Inr (rows_for ns row_by_name)))"

definition group_subtree :: "tree_gateway \<Rightarrow> docname \<Rightarrow> traversal_error + group_row list" where
  "group_subtree gw grp = res_bind (require_group gw grp) (\<lambda>_.
     let (_, children_of, row_by_name) = group_subtree_view gw (Some grp)
     in res_bind (lift_tree (subtree_of grp children_of)) (\<lambda>ns. Inr (rows_for ns row_by_name)))"

definition group_path_to_root_rows :: "tree_gateway \<Rightarrow> docname \<Rightarrow> traversal_error + group_row list" where
  "group_path_to_root_rows gw grp = res_bind (require_group gw grp) (\<lambda>_.
     let (parent_of, _, row_by_name) = group_subtree_view gw None
     in res_bind (lift_tree (path_to_root grp parent_of)) (\<lambda>ns. Inr (rows_for ns row_by_name)))"

definition group_tree :: "tree_gateway \<Rightarrow> group_row list" where
  "group_tree gw = gw_group_rows gw None"

definition groups_led_by :: "tree_gateway \<Rightarrow> docname \<Rightarrow> group_row list" where
  "groups_led_by gw member = gw_groups_led_by gw member"

fun co_led_loop :: "tree_gateway \<Rightarrow> docname set \<Rightarrow> roster_edge list \<Rightarrow> group_row list" where
  "co_led_loop gw seen [] = []"
| "co_led_loop gw seen (edge # edges) =
    (case re_group edge of
       None \<Rightarrow> co_led_loop gw seen edges
     | Some g \<Rightarrow>
         if g = [] \<or> g \<in> seen then co_led_loop gw seen edges
         else case gw_get_group gw g of
           None \<Rightarrow> co_led_loop gw seen edges
         | Some row \<Rightarrow> row # co_led_loop gw (insert g seen) edges)"

definition groups_co_led_by :: "tree_gateway \<Rightarrow> docname \<Rightarrow> group_row list" where
  "groups_co_led_by gw member = co_led_loop gw {} (gw_roster_edges gw member LEADER_ROLES)"

definition setdefault :: "'k \<Rightarrow> 'v \<Rightarrow> ('k \<times> 'v) list \<Rightarrow> ('k \<times> 'v) list" where
  "setdefault k v d = (case map_of d k of None \<Rightarrow> d @ [(k, v)] | Some _ \<Rightarrow> d)"

definition groups_led_or_co_led_by :: "tree_gateway \<Rightarrow> docname \<Rightarrow> group_row list" where
  "groups_led_or_co_led_by gw member =
    (let by_id = fold (\<lambda>r. AList.update (gr_name r) r) (groups_led_by gw member) [];
         by_id' = fold (\<lambda>r. setdefault (gr_name r) r) (groups_co_led_by gw member) by_id
     in map snd by_id')"

record leader_entry =
  le_group :: docname
  le_leader :: string

fun leader_entries :: "(docname \<times> group_row) list \<Rightarrow> docname list \<Rightarrow> leader_entry list" where
  "leader_entries row_by_name [] = []"
| "leader_entries row_by_name (n # ns) =
    (case map_of row_by_name n of
       None \<Rightarrow> leader_entries row_by_name ns
     | Some row \<Rightarrow>
         if truthy (gr_leader row)
         then \<lparr>le_group = n, le_leader = the (gr_leader row)\<rparr> # leader_entries row_by_name ns
         else leader_entries row_by_name ns)"

definition leader_chain_for_group :: "tree_gateway \<Rightarrow> docname \<Rightarrow> traversal_error + leader_entry list" where
  "leader_chain_for_group gw grp = res_bind (require_group gw grp) (\<lambda>_.
     let (parent_of, _, row_by_name) = group_subtree_view gw None
     in res_bind (lift_tree (path_to_root grp parent_of)) (\<lambda>path. Inr (leader_entries row_by_name path)))"

section \<open>The REST endpoints\<close>

definition require_arg :: "string \<Rightarrow> string option \<Rightarrow> traversal_error + string" where
  "require_arg name value =
     (case value of None \<Rightarrow> Inl (Argument_Required name)
      | Some v \<Rightarrow> if v = [] then Inl (Argument_Required name) else Inr v)"

definition str_field :: "string \<Rightarrow> string option \<Rightarrow> string \<times> py_val option" where
  "str_field k v = (k, map_option PyStr v)"

definition branch_row_fields :: "branch_row \<Rightarrow> (string \<times> py_val option) list" where
  "branch_row_fields r =
    [str_field ''name'' (Some (br_name r)), str_field ''branch_name'' (br_branch_name r),
     str_field ''parent_branch'' (br_parent r), str_field ''organization'' (br_organization r),
     (''is_active'', map_option PyInt (br_is_active r))]"

definition group_row_fields :: "group_row \<Rightarrow> (string \<times> py_val option) list" where
  "group_row_fields r =
    [str_field ''name'' (Some (gr_name r)), str_field ''group_name'' (gr_group_name r),
     str_field ''parent_group'' (gr_parent r), str_field ''branch'' (gr_branch r),
     str_field ''organization'' (gr_organization r), str_field ''leader'' (gr_leader r),
     str_field ''group_type'' (gr_group_type r), (''is_active'', map_option PyInt (gr_is_active r))]"

definition leader_entry_fields :: "leader_entry \<Rightarrow> (string \<times> py_val option) list" where
  "leader_entry_fields e =
    [str_field ''group'' (Some (le_group e)), str_field ''leader'' (Some (le_leader e))]"

definition serialize :: "(string \<times> py_val option) list list \<Rightarrow> (string \<times> py_val) list list" where
  "serialize rows = map (\<lambda>row. map (\<lambda>(k, v). (k, the v)) (filter (\<lambda>(k, v). v \<noteq> None) row)) rows"

type_synonym json_rows = "(string \<times> py_val) list list"

definition get_branch_ancestors :: "tree_gateway \<Rightarrow> string option \<Rightarrow> traversal_error + json_rows" where
  "get_branch_ancestors gw branch = res_bind (require_arg ''branch'' branch) (\<lambda>b.
     res_bind (branch_ancestors gw b) (\<lambda>rs. Inr (serialize (map branch_row_fields rs))))"

definition get_branch_descendants :: "tree_gateway \<Rightarrow> string option \<Rightarrow> traversal_error + json_rows" where
  "get_branch_descendants gw branch = res_bind (require_arg ''branch'' branch) (\<lambda>b.
     res_bind (branch_descendants gw b) (\<lambda>rs. Inr (serialize (map branch_row_fields rs))))"

definition get_branch_subtree :: "tree_gateway \<Rightarrow> string option \<Rightarrow> traversal_error + json_rows" where
  "get_branch_subtree gw branch = res_bind (require_arg ''branch'' branch) (\<lambda>b.
     res_bind (branch_subtree gw b) (\<lambda>rs. Inr (serialize (map branch_row_fields rs))))"

definition get_branch_path_to_root :: "tree_gateway \<Rightarrow> string option \<Rightarrow> traversal_error + json_rows" where
  "get_branch_path_to_root gw branch = res_bind (require_arg ''branch'' branch) (\<lambda>b.
     res_bind (branch_path_to_root gw b) (\<lambda>rs. Inr (serialize (map branch_row_fields rs))))"

definition get_branch_tree :: "tree_gateway \<Rightarrow> json_rows" where
  "get_branch_tree gw = serialize (map branch_row_fields (branch_tree gw))"

definition get_group_ancestors :: "tree_gateway \<Rightarrow> string option \<Rightarrow> traversal_error + json_rows" where
  "get_group_ancestors gw grp = res_bind (require_arg ''group'' grp) (\<lambda>g.
     res_bind (group_ancestors gw g) (\<lambda>rs. Inr (serialize (map group_row_fields rs))))"

definition get_group_descendants :: "tree_gateway \<Rightarrow> string option \<Rightarrow> traversal_error + json_rows" where
  "get_group_descendants gw grp = res_bind (require_arg ''group'' grp) (\<lambda>g.
     res_bind (group_descendants gw g) (\<lambda>rs. Inr (serialize (map group_row_fields rs))))"

definition get_group_subtree :: "tree_gateway \<Rightarrow> string option \<Rightarrow> traversal_error + json_rows" where
  "get_group_subtree gw grp = res_bind (require_arg ''group'' grp) (\<lambda>g.
     res_bind (group_subtree gw g) (\<lambda>rs. Inr (serialize (map group_row_fields rs))))"

definition get_group_path_to_root :: "tree_gateway \<Rightarrow> string option \<Rightarrow> traversal_error + json_rows" where
  "get_group_path_to_root gw grp = res_bind (require_arg ''group'' grp) (\<lambda>g.
     res_bind (group_path_to_root_rows gw g) (\<lambda>rs. Inr (serialize (map group_row_fields rs))))"

definition get_group_tree :: "tree_gateway \<Rightarrow> json_rows" where
  "get_group_tree gw = serialize (map group_row_fields (group_tree gw))"

definition get_groups_led_by_member :: "tree_gateway \<Rightarrow> string option \<Rightarrow> traversal_error + json_rows" where
  "get_groups_led_by_member gw member = res_bind (require_arg ''member'' member) (\<lambda>m.
     Inr (serialize (map group_row_fields (groups_led_or_co_led_by gw m))))"

definition get_leader_chain_for_group :: "tree_gateway \<Rightarrow> string option \<Rightarrow> traversal_error + json_rows" where
  "get_leader_chain_for_group gw grp = res_bind (require_arg ''group'' grp) (\<lambda>g.
     res_bind (leader_chain_for_group gw g) (\<lambda>es. Inr (serialize (map leader_entry_fields es))))"

section \<open>Lemmas on the views\<close>

lemma children_get_update:
  "children_get (AList.update p cs m) q = (if q = p then cs else children_get m q)"
  by (simp add: children_get_def update_conv')

lemma build_adjacency_snoc:
  "build_adjacency nm pk (rows @ [r]) = adjacency_step nm pk r (build_adjacency nm pk rows)"
  by (simp add: build_adjacency_def)

lemma build_adjacency_children:
  "children_get (fst (snd (build_adjacency nm pk rows))) p =
     map nm (filter (\<lambda>r. none_if_empty (pk r) = Some p) rows)"
proof (induction rows rule: rev_induct)
  case Nil
  then show ?case by (simp add: build_adjacency_def children_get_def)
next
  case (snoc r rows)
  then show ?case
    by (cases "build_adjacency nm pk rows")
       (auto simp: build_adjacency_snoc adjacency_step_def Let_def children_get_update split: option.split)
qed

lemma build_adjacency_rows:
  "map_of (snd (snd (build_adjacency nm pk rows))) = map_of (rev (map (\<lambda>r. (nm r, r)) rows))"
proof (induction rows rule: rev_induct)
  case Nil
  then show ?case by (simp add: build_adjacency_def)
next
  case (snoc r rows)
  then show ?case
    by (cases "build_adjacency nm pk rows")
       (auto simp: build_adjacency_snoc adjacency_step_def Let_def update_conv' fun_eq_iff)
qed

lemma build_adjacency_parents:
  "parent_get (fst (build_adjacency nm pk rows)) x =
     (case map_of (snd (snd (build_adjacency nm pk rows))) x of
        None \<Rightarrow> None | Some r \<Rightarrow> none_if_empty (pk r))"
proof (induction rows rule: rev_induct)
  case Nil
  then show ?case by (simp add: build_adjacency_def parent_get_def)
next
  case (snoc r rows)
  then show ?case
    by (cases "build_adjacency nm pk rows")
       (auto simp: build_adjacency_snoc adjacency_step_def Let_def update_conv' parent_get_def)
qed

lemma build_adjacency_lookup:
  assumes "distinct (map nm rows)"
  shows "map_of (snd (snd (build_adjacency nm pk rows))) x = Some r \<longleftrightarrow> r \<in> set rows \<and> nm r = x"
proof -
  have "distinct (map fst (rev (map (\<lambda>r. (nm r, r)) rows)))"
    using assms by (simp add: rev_map [symmetric] comp_def)
  then show ?thesis
    unfolding build_adjacency_rows by (subst map_of_eq_Some_iff) auto
qed

lemma build_adjacency_agree:
  assumes "distinct (map nm rows)"
  shows "parent_get (fst (build_adjacency nm pk rows)) x = Some p \<longleftrightarrow>
     x \<in> set (children_get (fst (snd (build_adjacency nm pk rows))) p)"
proof -
  let ?l = "map_of (snd (snd (build_adjacency nm pk rows))) x"
  have "parent_get (fst (build_adjacency nm pk rows)) x = Some p \<longleftrightarrow>
      (\<exists>r. ?l = Some r \<and> none_if_empty (pk r) = Some p)"
    by (simp add: build_adjacency_parents split: option.split)
  then have "parent_get (fst (build_adjacency nm pk rows)) x = Some p \<longleftrightarrow>
      (\<exists>r \<in> set rows. nm r = x \<and> none_if_empty (pk r) = Some p)"
    unfolding build_adjacency_lookup [OF assms] by blast
  then show ?thesis by (auto simp: build_adjacency_children)
qed

lemma build_adjacency_kids_distinct:
  "distinct (map nm rows) \<Longrightarrow> distinct (children_get (fst (snd (build_adjacency nm pk rows))) p)"
  by (simp add: build_adjacency_children distinct_map_filter)

interpretation branch_views: tree_provider
  "\<lambda>rows. distinct (map br_name rows)"
  "\<lambda>rows. fst (build_adjacency br_name br_parent rows)"
  "\<lambda>rows. fst (snd (build_adjacency br_name br_parent rows))"
  by unfold_locales (auto simp: build_adjacency_agree build_adjacency_kids_distinct)

interpretation group_views: tree_provider
  "\<lambda>rows. distinct (map gr_name rows)"
  "\<lambda>rows. fst (build_adjacency gr_name gr_parent rows)"
  "\<lambda>rows. fst (snd (build_adjacency gr_name gr_parent rows))"
  by unfold_locales (auto simp: build_adjacency_agree build_adjacency_kids_distinct)

lemma map_filter_names:
  assumes "\<And>x r. m x = Some r \<Longrightarrow> nm r = x"
  shows "map nm (List.map_filter m ns) = filter (\<lambda>n. m n \<noteq> None) ns"
  using assms by (induction ns) (auto simp: List.map_filter_simps split: option.split)

lemma rows_for_names:
  assumes "distinct (map nm rows)"
  shows "map nm (rows_for ns (snd (snd (build_adjacency nm pk rows))))
    = filter (\<lambda>n. n \<in> nm ` set rows) ns"
proof -
  let ?m = "map_of (snd (snd (build_adjacency nm pk rows)))"
  note lk = build_adjacency_lookup [OF assms, of pk]
  have "map nm (List.map_filter ?m ns) = filter (\<lambda>n. ?m n \<noteq> None) ns"
    by (rule map_filter_names) (simp add: lk)
  moreover have "?m n \<noteq> None \<longleftrightarrow> n \<in> nm ` set rows" for n
  proof -
    have "?m n \<noteq> None \<longleftrightarrow> (\<exists>r. ?m n = Some r)" by auto
    then show ?thesis by (auto simp: lk)
  qed
  ultimately show ?thesis by (simp add: rows_for_def)
qed

lemma rows_for_subset:
  assumes "distinct (map nm rows)"
  shows "set (rows_for ns (snd (snd (build_adjacency nm pk rows)))) \<subseteq> set rows"
proof
  fix r
  assume "r \<in> set (rows_for ns (snd (snd (build_adjacency nm pk rows))))"
  then obtain n where "map_of (snd (snd (build_adjacency nm pk rows))) n = Some r"
    by (force simp: rows_for_def List.map_filter_def)
  then show "r \<in> set rows" using build_adjacency_lookup [OF assms] by fast
qed

definition branch_edges :: "branch_row list \<Rightarrow> (docname \<times> docname) set" where
  "branch_edges rows =
     {(p, x). \<exists>r \<in> set rows. br_name r = x \<and> none_if_empty (br_parent r) = Some p}"

lemma branch_edges_view:
  "child_edge (fst (snd (build_adjacency br_name br_parent rows))) = branch_edges rows"
  by (auto simp: child_edge_def branch_edges_def build_adjacency_children)

lemma branch_edges_names:
  assumes "(b, x) \<in> (branch_edges rows)\<^sup>+"
  shows "x \<in> br_name ` set rows"
  using tranclD2 [OF assms] by (auto simp: branch_edges_def)

lemma co_led_loop_names:
  assumes "\<And>x r. gw_get_group gw x = Some r \<Longrightarrow> gr_name r = x"
  shows "distinct (map gr_name (co_led_loop gw seen es))
    \<and> gr_name ` set (co_led_loop gw seen es) =
       {g. \<exists>e \<in> set es. re_group e = Some g \<and> g \<noteq> [] \<and> gw_get_group gw g \<noteq> None} - seen"
proof (induction es arbitrary: seen)
  case (Cons e es)
  show ?case
  proof (cases "re_group e")
    case None
    then show ?thesis using Cons.IH [of seen] by simp
  next
    case (Some g)
    show ?thesis
    proof (cases "g = [] \<or> g \<in> seen \<or> gw_get_group gw g = None")
      case True
      then show ?thesis using Some Cons.IH [of seen] by (auto split: option.split)
    next
      case False
      then obtain row where row: "gw_get_group gw g = Some row" "gr_name row = g"
        using assms by auto
      then show ?thesis using False Some Cons.IH [of "insert g seen"] by auto
    qed
  qed
qed simp

lemma setdefault_keys:
  "map fst (setdefault k v d) = (if k \<in> fst ` set d then map fst d else map fst d @ [k])"
  by (auto simp: setdefault_def map_of_eq_None_iff dest: map_of_SomeD split: option.split)
     (metis fst_conv image_eqI map_of_SomeD)

lemma fold_setdefault:
  assumes "distinct (map fst d)" "\<forall>(k, r) \<in> set d. nm r = k"
  shows "distinct (map fst (fold (\<lambda>r. setdefault (nm r) r) rs d))
    \<and> (\<forall>(k, r) \<in> set (fold (\<lambda>r. setdefault (nm r) r) rs d). nm r = k)
    \<and> fst ` set (fold (\<lambda>r. setdefault (nm r) r) rs d) = fst ` set d \<union> nm ` set rs"
  using assms
proof (induction rs arbitrary: d)
  case (Cons r rs)
  let ?d = "setdefault (nm r) r d"
  have "distinct (map fst ?d)" using Cons.prems(1) by (auto simp: setdefault_keys)
  moreover have "\<forall>(k, r) \<in> set ?d. nm r = k"
    using Cons.prems(2) by (auto simp: setdefault_def split: option.split)
  moreover have "fst ` set ?d = fst ` set d \<union> {nm r}"
    using arg_cong [OF setdefault_keys [of "nm r" r d], of set] by (auto split: if_splits)
  ultimately show ?case using Cons.IH [of ?d] by auto
qed simp

lemma fold_update_rows:
  assumes "distinct (map fst d)" "\<forall>(k, r) \<in> set d. nm r = k"
  shows "distinct (map fst (fold (\<lambda>r. AList.update (nm r) r) rs d))
    \<and> (\<forall>(k, r) \<in> set (fold (\<lambda>r. AList.update (nm r) r) rs d). nm r = k)
    \<and> fst ` set (fold (\<lambda>r. AList.update (nm r) r) rs d) = fst ` set d \<union> nm ` set rs"
  using assms
proof (induction rs arbitrary: d)
  case (Cons r rs)
  let ?d = "AList.update (nm r) r d"
  have "distinct (map fst ?d)" using Cons.prems(1) by (simp add: distinct_update)
  moreover have "\<forall>(k, r) \<in> set ?d. nm r = k"
    using Cons.prems(2) by (induction d) (auto split: if_splits)
  moreover have "fst ` set ?d = fst ` set d \<union> {nm r}"
    by (auto simp: update_keys dom_update simp flip: set_map)
  ultimately show ?case using Cons.IH [of ?d] by auto
qed simp

lemma branch_subtree_spec:
  assumes uniq: "distinct (map br_name (gw_branch_rows gw (Some b)))"
    and found: "gw_get_branch gw b \<noteq> None"
    and own: "b \<in> br_name ` set (gw_branch_rows gw (Some b))"
    and anc: "ancestors_of b (fst (branch_subtree_view gw (Some b))) = Inr as"
  shows "\<exists>out. branch_subtree gw b = Inr out
    \<and> set out \<subseteq> set (gw_branch_rows gw (Some b)) \<and> distinct (map br_name out)
    \<and> out \<noteq> [] \<and> br_name (hd out) = b
    \<and> br_name ` set out = {x. (b, x) \<in> (branch_edges (gw_branch_rows gw (Some b)))\<^sup>*}"
proof -
  let ?rows = "gw_branch_rows gw (Some b)"
  let ?view = "build_adjacency br_name br_parent ?rows"
  obtain ds where ds: "descendants_of b (fst (snd ?view)) = Inr ds"
    using branch_views.rooted_descendants [OF uniq] anc by (auto simp: branch_subtree_view_def)
  note set_ds = descendants_of_set [OF ds, unfolded branch_edges_view]
  let ?out = "rows_for (b # ds) (snd (snd ?view))"
  have sub: "branch_subtree gw b = Inr ?out"
    using found ds by (auto simp: branch_subtree_def require_branch_def branch_subtree_view_def
        subtree_of_def lift_tree_def Let_def split: prod.split option.split)
  have "\<forall>x \<in> set (b # ds). x \<in> br_name ` set ?rows"
    using own set_ds branch_edges_names by auto
  then have names: "map br_name ?out = b # ds"
    unfolding rows_for_names [OF uniq] by (simp add: filter_id_conv)
  have "br_name ` set ?out = {x. (b, x) \<in> (branch_edges ?rows)\<^sup>*}"
    using arg_cong [OF names, of set] set_ds by (auto simp: rtrancl_eq_or_trancl)
  moreover have "distinct (map br_name ?out)"
    using names descendants_of_fixpoint [OF ds] by (simp only:)
  moreover have "?out \<noteq> [] \<and> br_name (hd ?out) = b" using names by (cases ?out) auto
  ultimately show ?thesis using sub rows_for_subset [OF uniq] by blast
qed

section \<open>Properties\<close>

text \<open>On a row set without duplicate names the two adjacency views describe one
  forest: \<open>a\<close> is an ancestor of \<open>x\<close> in the parent view exactly when \<open>x\<close> is a descendant
  of \<open>a\<close> in the child view, and a node whose ancestor walk succeeds always has a
  successful descendant search.\<close>
theorem traversal_views_dual:
  assumes "distinct (map br_name rows)"
    and "build_adjacency br_name br_parent rows = (par, ch, byname)"
    and "ancestors_of x par = Inr as"
  shows "(\<exists>ds. descendants_of x ch = Inr ds)
    \<and> (\<forall>a ds. descendants_of a ch = Inr ds \<longrightarrow> (a \<in> set as \<longleftrightarrow> x \<in> set ds))"
  using branch_views.rooted_descendants [OF assms(1)] branch_views.duality [OF assms(1)] assms(2,3)
  by auto

definition demo_branches :: "branch_row list" where
  "demo_branches =
    [\<lparr>br_name = ''HQ'', br_branch_name = None, br_parent = None, br_organization = Some ''O'', br_is_active = Some 1\<rparr>,
     \<lparr>br_name = ''North'', br_branch_name = None, br_parent = Some ''HQ'', br_organization = Some ''O'', br_is_active = Some 1\<rparr>,
     \<lparr>br_name = ''N1'', br_branch_name = None, br_parent = Some ''North'', br_organization = Some ''O'', br_is_active = Some 1\<rparr>]"

definition demo_gateway :: tree_gateway where
  "demo_gateway = NullTreeReadGateway
     \<lparr>gw_get_branch := (\<lambda>n. find (\<lambda>r. br_name r = n) demo_branches),
      gw_branch_rows := (\<lambda>_. demo_branches)\<rparr>"

lemma traversal_views_dual_witness:
  "\<exists>as. ancestors_of ''N1'' (fst (build_adjacency br_name br_parent demo_branches)) = Inr as \<and>
     (\<exists>ds. descendants_of ''N1'' (fst (snd (build_adjacency br_name br_parent demo_branches))) = Inr ds)"
proof -
  have "ancestors_of ''N1'' (fst (build_adjacency br_name br_parent demo_branches)) = Inr [''North'', ''HQ'']"
    by code_simp
  moreover have "distinct (map br_name demo_branches)" by code_simp
  ultimately show ?thesis
    using traversal_views_dual [of demo_branches _ _ _ "''N1''"] by (metis prod.collapse)
qed

text \<open>\<open>branch_subtree\<close> returns the branch's row first and then exactly the rows reachable
  from it by parent links among the rows the gateway returned, each once, provided the
  branch exists, the gateway includes its row, row names are unique and its parent chain
  ends.\<close>
theorem branch_subtree_rows:
  assumes uniq: "distinct (map br_name (gw_branch_rows gw (Some b)))"
    and found: "gw_get_branch gw b \<noteq> None"
    and own: "b \<in> br_name ` set (gw_branch_rows gw (Some b))"
    and anc: "ancestors_of b (fst (branch_subtree_view gw (Some b))) = Inr as"
  shows "\<exists>out. branch_subtree gw b = Inr out
    \<and> set out \<subseteq> set (gw_branch_rows gw (Some b)) \<and> distinct (map br_name out)
    \<and> out \<noteq> [] \<and> br_name (hd out) = b
    \<and> br_name ` set out = {x. (b, x) \<in> (branch_edges (gw_branch_rows gw (Some b)))\<^sup>*}"
  using assms by (rule branch_subtree_spec)

lemma branch_subtree_rows_witness:
  "\<exists>out. branch_subtree demo_gateway ''HQ'' = Inr out \<and> br_name (hd out) = ''HQ''"
proof -
  have "distinct (map br_name (gw_branch_rows demo_gateway (Some ''HQ'')))" by code_simp
  moreover have "gw_get_branch demo_gateway ''HQ'' \<noteq> None" by code_simp
  moreover have "''HQ'' \<in> br_name ` set (gw_branch_rows demo_gateway (Some ''HQ''))" by code_simp
  moreover have "ancestors_of ''HQ'' (fst (branch_subtree_view demo_gateway (Some ''HQ''))) = Inr []"
    by code_simp
  ultimately show ?thesis using branch_subtree_rows [of demo_gateway "''HQ''"] by blast
qed

text \<open>\<open>groups_led_or_co_led_by\<close> is the union of the accountable-leader rows and of the
  roster groups that exist, and it names no group twice.\<close>
theorem groups_led_union:
  assumes "\<forall>x r. gw_get_group gw x = Some r \<longrightarrow> gr_name r = x"
  shows "distinct (map gr_name (groups_led_or_co_led_by gw m))
    \<and> gr_name ` set (groups_led_or_co_led_by gw m) =
        gr_name ` set (gw_groups_led_by gw m)
        \<union> {g. \<exists>e \<in> set (gw_roster_edges gw m LEADER_ROLES).
              re_group e = Some g \<and> g \<noteq> [] \<and> gw_get_group gw g \<noteq> None}"
proof -
  let ?ini = "fold (\<lambda>r. AList.update (gr_name r) r) (groups_led_by gw m) []"
  let ?d = "fold (\<lambda>r. setdefault (gr_name r) r) (groups_co_led_by gw m) ?ini"
  have d0: "distinct (map fst ?ini)" "\<forall>(k, r) \<in> set ?ini. gr_name r = k"
    "fst ` set ?ini = gr_name ` set (groups_led_by gw m)"
    using fold_update_rows [of "[]" gr_name "groups_led_by gw m"] by auto
  note d = fold_setdefault [OF d0(1,2), of "groups_co_led_by gw m"]
  then have "\<forall>p \<in> set ?d. gr_name (snd p) = fst p" by (simp add: case_prod_beta)
  then have names: "map gr_name (map snd ?d) = map fst ?d" by simp
  have res: "groups_led_or_co_led_by gw m = map snd ?d"
    by (simp add: groups_led_or_co_led_by_def Let_def)
  have "gr_name ` set (groups_co_led_by gw m) = {g. \<exists>e \<in> set (gw_roster_edges gw m LEADER_ROLES).
              re_group e = Some g \<and> g \<noteq> [] \<and> gw_get_group gw g \<noteq> None}"
    using co_led_loop_names [of gw "{}"] assms by (auto simp: groups_co_led_by_def)
  moreover have "gr_name ` set (map snd ?d) = fst ` set ?d"
    using arg_cong [OF names, of set] by (simp only: set_map)
  ultimately show ?thesis
    using d d0(3) unfolding res names by (simp only: groups_led_by_def)
qed

definition demo_group_row :: group_row where
  "demo_group_row = \<lparr>gr_name = ''G'', gr_group_name = None, gr_parent = None, gr_branch = Some ''B'',
     gr_organization = None, gr_leader = Some ''M'', gr_group_type = None, gr_is_active = Some 1\<rparr>"

lemma groups_led_union_witness:
  "distinct (map gr_name (groups_led_or_co_led_by (NullTreeReadGateway
     \<lparr>gw_get_group := (\<lambda>n. if n = ''G'' then Some demo_group_row else None),
      gw_groups_led_by := (\<lambda>_. [demo_group_row]),
      gw_roster_edges := (\<lambda>m _. [\<lparr>re_group = Some ''G'', re_member = m, re_role = ''Co-Leader''\<rparr>])\<rparr>) ''M''))"
  by (rule groups_led_union [THEN conjunct1]) (auto simp: demo_group_row_def split: if_splits)

text \<open>The documented chain is distinct, the computed one is not: a leader of two groups of
  the path is listed twice.\<close>

lemma leader_chain_repeats:
  "\<exists>gw g es. leader_chain_for_group gw g = Inr es \<and> \<not> distinct (map le_leader es)"
proof -
  let ?rows = "[demo_group_row, demo_group_row \<lparr>gr_name := ''H'', gr_parent := Some ''G''\<rparr>]"
  let ?gw = "NullTreeReadGateway
     \<lparr>gw_get_group := (\<lambda>n. find (\<lambda>r. gr_name r = n) ?rows), gw_group_rows := (\<lambda>_. ?rows)\<rparr>"
  have "leader_chain_for_group ?gw ''H''
      = Inr [\<lparr>le_group = ''H'', le_leader = ''M''\<rparr>, \<lparr>le_group = ''G'', le_leader = ''M''\<rparr>]"
    by code_simp
  moreover have "\<not> distinct (map le_leader
      [\<lparr>le_group = ''H'', le_leader = ''M''\<rparr>, \<lparr>le_group = ''G'', le_leader = ''M''\<rparr>])" by simp
  ultimately show ?thesis by blast
qed

end
