(* ===== verification/Status_Machine.thy ===== *)
theory Status_Machine
  imports Flock_Prelude
begin

text \<open>
  The contract shared by the status guards of the document controllers (gatherings,
  approval requests, registrations): a catalog, one initial status, a transition table, and a
  guard \<open>valid from to\<close> consulted on every save, which also lets a document keep its status.
  The lemmas talk about \<open>accepts\<close>: the sequence of statuses a document takes over its saves,
  each accepted by the guard.
\<close>

fun accepts :: "('a option \<Rightarrow> 'a \<Rightarrow> bool) \<Rightarrow> 'a option \<Rightarrow> 'a list \<Rightarrow> bool" where
  "accepts valid cur [] = True"
| "accepts valid cur (t # ts) = (valid cur t \<and> accepts valid (Some t) ts)"

fun walks :: "('a \<Rightarrow> 'a \<Rightarrow> bool) \<Rightarrow> 'a \<Rightarrow> 'a list \<Rightarrow> bool" where
  "walks move s [] = True"
| "walks move s (t # ts) = (move s t \<and> walks move t ts)"

text \<open>\<open>table.get(s, frozenset())\<close>.\<close>

definition table_get :: "('a \<times> 'a list) list \<Rightarrow> 'a \<Rightarrow> 'a list" where
  "table_get table s = (case map_of table s of None \<Rightarrow> [] | Some ts \<Rightarrow> ts)"

lemma accepts_append:
  "accepts valid cur (xs @ ys) \<longleftrightarrow>
     accepts valid cur xs \<and> accepts valid (if xs = [] then cur else Some (last xs)) ys"
  by (induction xs arbitrary: cur) auto

text \<open>
  The guard on a document that has a status already.  Registrations use it alone: their
  first status is a capacity decision, not a constant.
\<close>

locale status_guard =
  fixes statuses :: "'a list"
    and table :: "('a \<times> 'a list) list"
    and move :: "'a \<Rightarrow> 'a \<Rightarrow> bool"
  assumes move_iff: "move s t \<longleftrightarrow> t \<in> set statuses \<and> (s = t \<or> t \<in> set (table_get table s))"
begin

text \<open>A set of statuses no edge leaves is never left.\<close>

lemma closed_set:
  assumes "\<And>x y. x \<in> S \<Longrightarrow> y \<in> set (table_get table x) \<Longrightarrow> y \<in> S"
  shows "s \<in> S \<Longrightarrow> walks move s ts \<Longrightarrow> set ts \<subseteq> S"
proof (induction ts arbitrary: s)
  case (Cons t ts)
  then have "t \<in> S" using assms move_iff by auto
  with Cons show ?case by auto
qed simp

lemma terminal_history: "table_get table s = [] \<Longrightarrow> walks move s ts \<Longrightarrow> set ts \<subseteq> {s}"
  by (rule closed_set) auto

text \<open>When every edge into \<open>t\<close> leaves \<open>p\<close>, a history which reaches \<open>t\<close> from another
  status visits \<open>p\<close> first.\<close>

lemma entered_through:
  assumes only: "\<And>x. t \<in> set (table_get table x) \<Longrightarrow> x = p"
  shows "walks move s ts \<Longrightarrow> t \<in> set ts \<Longrightarrow> s \<noteq> t \<Longrightarrow>
    \<exists>xs ys. s # ts = xs @ t # ys \<and> t \<notin> set xs \<and> p \<in> set xs"
proof (induction ts arbitrary: s)
  case (Cons u us)
  show ?case
  proof (cases "u = t")
    case True
    then have "s = p" using Cons.prems only move_iff by auto
    with True Cons.prems(3) show ?thesis by (intro exI [of _ "[s]"] exI [of _ us]) auto
  next
    case False
    with Cons obtain xs ys where "u # us = xs @ t # ys" "t \<notin> set xs" "p \<in> set xs" by fastforce
    with Cons.prems(3) show ?thesis by (intro exI [of _ "s # xs"] exI [of _ ys]) auto
  qed
qed simp

end

locale status_machine =
  fixes statuses :: "'a list"
    and initial :: 'a
    and table :: "('a \<times> 'a list) list"
    and valid :: "'a option \<Rightarrow> 'a \<Rightarrow> bool"
  assumes valid_new: "valid None t \<longleftrightarrow> t = initial"
    and valid_from: "valid (Some s) t \<longleftrightarrow> t \<in> set statuses \<and> (s = t \<or> t \<in> set (table_get table s))"
    and initial_status: "initial \<in> set statuses"
begin

lemma accepts_statuses: "accepts valid cur ts \<Longrightarrow> set ts \<subseteq> set statuses"
proof (induction ts arbitrary: cur)
  case (Cons t ts)
  then show ?case
    using valid_new valid_from initial_status by (cases cur) auto
qed simp

lemma accepts_initial: "accepts valid None (t # ts) \<Longrightarrow> t = initial"
  by (simp add: valid_new)

lemma predecessor:
  assumes "accepts valid None (xs @ t # ys)" "t \<noteq> initial" "t \<notin> set xs"
  shows "xs \<noteq> [] \<and> t \<in> set (table_get table (last xs))"
  using assms valid_new valid_from by (cases "xs = []") (auto simp: accepts_append)

lemma first_occurrence:
  assumes "accepts valid None hist" "t \<in> set hist" "t \<noteq> initial"
  shows "\<exists>xs ys. hist = xs @ t # ys \<and> t \<notin> set xs \<and> xs \<noteq> [] \<and> t \<in> set (table_get table (last xs))"
  using split_list_first [OF assms(2)] predecessor assms(1,3) by metis

lemma accepts_prefix: "accepts valid cur (xs @ ys) \<Longrightarrow> accepts valid cur xs"
  by (simp add: accepts_append)

text \<open>When every edge into \<open>t\<close> leaves \<open>p\<close>, a history which reaches \<open>t\<close> visited \<open>p\<close> before.\<close>

lemma only_through:
  assumes "accepts valid None hist" "t \<in> set hist" "t \<noteq> initial"
    and only: "\<And>s. t \<in> set (table_get table s) \<Longrightarrow> s = p"
  shows "\<exists>xs ys. hist = xs @ t # ys \<and> t \<notin> set xs \<and> p \<in> set xs \<and> accepts valid None xs"
  using first_occurrence [OF assms(1-3)] only accepts_prefix assms(1)
  by (metis last_in_set)

end

sublocale status_machine \<subseteq> moves: status_guard statuses table "\<lambda>s. valid (Some s)"
  by unfold_locales (simp add: valid_from)

context status_machine
begin

lemma accepts_history: "accepts valid (Some s) ts \<longleftrightarrow> walks (\<lambda>s. valid (Some s)) s ts"
  by (induction ts arbitrary: s) auto

lemma terminal_absorbing:
  "table_get table s = [] \<Longrightarrow> accepts valid (Some s) ts \<Longrightarrow> set ts \<subseteq> {s}"
  by (simp add: accepts_history moves.terminal_history)

end

end
