(* ===== verification/Permissions.thy ===== *)
theory Permissions
  imports Trees
begin

text \<open>
  Model of \<open>flock_os/permissions.py\<close>, the row-level permission layer: the branch axis
  (native User Permissions, reconciled by the syncer), the group axis (nested-set
  bounds of led groups and joined groups) with its two forms, the SQL fragment of the
  list hook and the guard \<open>assert_group_scope\<close>, and the approval-authority guard.

  The gateway port is a record of functions and the production adapter is a function
  from the tables it reads to such a record.  The SQL fragment is built as a list of
  branches, rendered to the text of the source, and given its meaning on a row.
\<close>

section \<open>Roles and registries\<close>

definition ROLE_ORG_ADMIN :: string where [status_defs]: "ROLE_ORG_ADMIN = ''Flock Org Admin''"
definition ROLE_BRANCH_ADMIN :: string where [status_defs]: "ROLE_BRANCH_ADMIN = ''Flock Branch Admin''"
definition ROLE_GROUP_LEADER :: string where [status_defs]: "ROLE_GROUP_LEADER = ''Flock Group Leader''"
definition ROLE_MEMBER :: string where [status_defs]: "ROLE_MEMBER = ''Flock Member''"
definition ROLE_VISITOR :: string where [status_defs]: "ROLE_VISITOR = ''Flock Visitor''"
definition ROLE_AUDITOR :: string where [status_defs]: "ROLE_AUDITOR = ''Flock Auditor''"

definition BYPASS_ROLES :: "string set" where
  "BYPASS_ROLES = {ROLE_ORG_ADMIN, ROLE_BRANCH_ADMIN, ROLE_AUDITOR}"
definition GLOBAL_BRANCH_ROLES :: "string set" where
  "GLOBAL_BRANCH_ROLES = {ROLE_ORG_ADMIN, ROLE_AUDITOR}"
definition GROUP_SCOPED_ROLES :: "string set" where
  "GROUP_SCOPED_ROLES = {ROLE_GROUP_LEADER, ROLE_MEMBER, ROLE_VISITOR}"

definition SCOPED_DOCTYPES :: "string list" where
  "SCOPED_DOCTYPES =
    [''Flock Group'', ''Flock Group Member'', ''Flock Gathering'', ''Flock Announcement'',
     ''Flock Event Approval'', ''Flock Engagement Session'', ''Flock Attendance Record'',
     ''Flock Event Registration'', ''Flock Event Invitation'']"

definition MEMBER_ANCHORED_DOCTYPES :: "(string \<times> string) list" where
  "MEMBER_ANCHORED_DOCTYPES =
    [(''Flock Group Member'', ''member''), (''Flock Event Registration'', ''registrant''),
     (''Flock Attendance Record'', ''member''), (''Flock Event Invitation'', ''invitee'')]"

definition BRANCH_DOCTYPE :: string where "BRANCH_DOCTYPE = ''Flock Branch''"
definition GROUP_DOCTYPE :: string where "GROUP_DOCTYPE = ''Flock Group''"
definition LEADER_ROSTER_ROLES :: "string list" where
  "LEADER_ROSTER_ROLES = [''Leader'', ''Co-Leader'']"
definition APPROVAL_LEVEL_BRANCH_ADMIN :: string where
  "APPROVAL_LEVEL_BRANCH_ADMIN = ''Branch Admin''"

section \<open>Scope data and gateway\<close>

record group_bounds =
  gb_name :: docname
  gb_lft :: int
  gb_rgt :: int

record leader_scope =
  ls_member :: "docname option"
  ls_led_bounds :: "group_bounds list"
  ls_joined_groups :: "docname list"

definition is_leader :: "leader_scope \<Rightarrow> bool" where
  "is_leader s = (ls_led_bounds s \<noteq> [])"

record permission_gateway =
  pg_user_roles :: "string \<Rightarrow> string set"
  pg_member_for_user :: "string \<Rightarrow> docname option"
  pg_led_group_bounds :: "docname \<Rightarrow> group_bounds list"
  pg_joined_group_names :: "docname \<Rightarrow> docname list"
  pg_group_bounds :: "docname \<Rightarrow> group_bounds option"
  pg_branch_permissions :: "string \<Rightarrow> docname list"

definition NullPermissionGateway :: permission_gateway where
  "NullPermissionGateway = \<lparr>pg_user_roles = (\<lambda>_. {}), pg_member_for_user = (\<lambda>_. None),
     pg_led_group_bounds = (\<lambda>_. []), pg_joined_group_names = (\<lambda>_. []),
     pg_group_bounds = (\<lambda>_. None), pg_branch_permissions = (\<lambda>_. [])\<rparr>"

definition empty_scope :: "docname option \<Rightarrow> leader_scope" where
  "empty_scope m = \<lparr>ls_member = m, ls_led_bounds = [], ls_joined_groups = []\<rparr>"

definition resolve_leader_scope :: "permission_gateway \<Rightarrow> string \<Rightarrow> string set \<Rightarrow> leader_scope" where
  "resolve_leader_scope gw user roles =
    (if roles \<inter> BYPASS_ROLES \<noteq> {} then empty_scope (pg_member_for_user gw user)
     else case pg_member_for_user gw user of
       None \<Rightarrow> empty_scope None
     | Some member \<Rightarrow> \<lparr>ls_member = Some member,
         ls_led_bounds = pg_led_group_bounds gw member,
         ls_joined_groups = pg_joined_group_names gw member\<rparr>)"

section \<open>The SQL fragment\<close>

text \<open>Decimal rendering of a Python int.\<close>

fun nat_text :: "nat \<Rightarrow> string" where
  "nat_text n = (if n < 10 then [char_of (48 + n)] else nat_text (n div 10) @ [char_of (48 + n mod 10)])"

declare nat_text.simps [simp del]

definition int_text :: "int \<Rightarrow> string" where
  "int_text i = (if i < 0 then ''-'' @ nat_text (nat (- i)) else nat_text (nat i))"

fun join_text :: "string \<Rightarrow> string list \<Rightarrow> string" where
  "join_text sep [] = []"
| "join_text sep [x] = x"
| "join_text sep (x # y # ys) = x @ sep @ join_text sep (y # ys)"

datatype scope_clause =
    Self_Subtree "group_bounds list"
  | Self_Joined "docname list"
  | Group_Is_Null
  | Group_Subtree "group_bounds list"
  | Member_Equals string docname
  | Group_Joined "docname list"

definition in_list :: "(string \<Rightarrow> string) \<Rightarrow> string list \<Rightarrow> string" where
  "in_list escape values = ''('' @ join_text '', '' (map escape values) @ '')''"

definition subtree_subselect :: "group_bounds list \<Rightarrow> string" where
  "subtree_subselect led =
    (if led \<noteq> [] then
       ''SELECT name FROM `tabFlock Group` WHERE '' @
       join_text '' OR ''
         (map (\<lambda>b. ''`tabFlock Group`.`lft` >= '' @ int_text (gb_lft b)
                 @ '' AND `tabFlock Group`.`rgt` <= '' @ int_text (gb_rgt b)) led)
     else ''SELECT name FROM `tabFlock Group` WHERE 0'')"

definition clause_text :: "string \<Rightarrow> (string \<Rightarrow> string) \<Rightarrow> scope_clause \<Rightarrow> string" where
  "clause_text doctype escape c =
    (let alias = ''`tab'' @ doctype @ ''`'' in
     case c of
       Self_Subtree led \<Rightarrow> ''`tabFlock Group`.`name` IN ('' @ subtree_subselect led @ '')''
     | Self_Joined js \<Rightarrow> ''`tabFlock Group`.`name` IN '' @ in_list escape js
     | Group_Is_Null \<Rightarrow> alias @ ''.`group` IS NULL''
     | Group_Subtree led \<Rightarrow> alias @ ''.`group` IN ('' @ subtree_subselect led @ '')''
     | Member_Equals col m \<Rightarrow> alias @ ''.`'' @ col @ ''` = '' @ escape m
     | Group_Joined js \<Rightarrow> alias @ ''.`group` IN '' @ in_list escape js)"

definition scope_is_empty :: "leader_scope \<Rightarrow> bool" where
  "scope_is_empty s = (\<not> truthy (ls_member s) \<and> ls_led_bounds s = [] \<and> ls_joined_groups s = [])"

text \<open>The clauses \<open>build_group_scope_sql\<close> collects in \<open>branches\<close>; \<open>None\<close> is the empty
  fragment.\<close>

definition scope_clauses :: "string \<Rightarrow> leader_scope \<Rightarrow> scope_clause list option" where
  "scope_clauses doctype scope =
    (if scope_is_empty scope then None
     else if doctype = GROUP_DOCTYPE then
       Some ([Self_Subtree (ls_led_bounds scope)] @
             (if ls_joined_groups scope \<noteq> [] then [Self_Joined (ls_joined_groups scope)] else []))
     else
       Some ([Group_Is_Null, Group_Subtree (ls_led_bounds scope)] @
             (case map_of MEMBER_ANCHORED_DOCTYPES doctype of
                Some col \<Rightarrow> if truthy (ls_member scope) then [Member_Equals col (the (ls_member scope))] else []
              | None \<Rightarrow> []) @
             (if ls_joined_groups scope \<noteq> [] then [Group_Joined (ls_joined_groups scope)] else [])))"

definition build_group_scope_sql :: "string \<Rightarrow> leader_scope \<Rightarrow> (string \<Rightarrow> string) \<Rightarrow> string" where
  "build_group_scope_sql doctype scope escape =
    (case scope_clauses doctype scope of
       None \<Rightarrow> []
     | Some cs \<Rightarrow> '' AND ('' @ join_text '' OR '' (map (clause_text doctype escape) cs) @ '')'')"

text \<open>The meaning of a clause on a row of the filtered table: \<open>tree\<close> is the live
  \<open>Flock Group\<close> table, a row gives its name, its group link and its member columns.\<close>

record scoped_row =
  sr_name :: docname
  sr_group :: "docname option"
  sr_member :: "string \<Rightarrow> docname option"

definition inside :: "group_bounds list \<Rightarrow> group_bounds \<Rightarrow> bool" where
  "inside led g = (\<exists>b \<in> set led. gb_lft b \<le> gb_lft g \<and> gb_rgt g \<le> gb_rgt b)"

definition selected :: "group_bounds list \<Rightarrow> group_bounds list \<Rightarrow> docname \<Rightarrow> bool" where
  "selected tree led n = (\<exists>g \<in> set tree. gb_name g = n \<and> inside led g)"

fun clause_holds :: "group_bounds list \<Rightarrow> scoped_row \<Rightarrow> scope_clause \<Rightarrow> bool" where
  "clause_holds tree row (Self_Subtree led) = selected tree led (sr_name row)"
| "clause_holds tree row (Self_Joined js) = (sr_name row \<in> set js)"
| "clause_holds tree row Group_Is_Null = (sr_group row = None)"
| "clause_holds tree row (Group_Subtree led) =
     (case sr_group row of None \<Rightarrow> False | Some g \<Rightarrow> selected tree led g)"
| "clause_holds tree row (Member_Equals col m) = (sr_member row col = Some m)"
| "clause_holds tree row (Group_Joined js) =
     (case sr_group row of None \<Rightarrow> False | Some g \<Rightarrow> g \<in> set js)"

definition fragment_holds :: "group_bounds list \<Rightarrow> scoped_row \<Rightarrow> scope_clause list option \<Rightarrow> bool" where
  "fragment_holds tree row frag =
     (case frag of None \<Rightarrow> True | Some cs \<Rightarrow> (\<exists>c \<in> set cs. clause_holds tree row c))"

text \<open>The hook, up to rendering; \<open>has_group_scope\<close> tests the rendered text.\<close>

definition group_scoped_clauses ::
  "permission_gateway \<Rightarrow> string \<Rightarrow> string \<Rightarrow> scope_clause list option" where
  "group_scoped_clauses gw user doctype =
    (if doctype \<notin> set SCOPED_DOCTYPES then None
     else let roles = pg_user_roles gw user in
       if roles \<inter> BYPASS_ROLES \<noteq> {} then None
       else let scope = resolve_leader_scope gw user roles in
         if scope_is_empty scope then None else scope_clauses doctype scope)"

definition get_group_scoped_conditions ::
  "permission_gateway \<Rightarrow> (string \<Rightarrow> string) \<Rightarrow> string \<Rightarrow> string \<Rightarrow> string \<Rightarrow> string" where
  "get_group_scoped_conditions gw escape session_user user doctype =
    (if doctype \<notin> set SCOPED_DOCTYPES then []
     else let resolved_user = (if user \<noteq> [] then user else session_user);
              roles = pg_user_roles gw resolved_user
          in if roles \<inter> BYPASS_ROLES \<noteq> {} then []
             else let scope = resolve_leader_scope gw resolved_user roles
                  in if scope_is_empty scope then []
                     else build_group_scope_sql doctype scope escape)"

definition has_group_scope ::
  "permission_gateway \<Rightarrow> (string \<Rightarrow> string) \<Rightarrow> string \<Rightarrow> string \<Rightarrow> string \<Rightarrow> bool" where
  "has_group_scope gw escape session_user doctype user =
     (py_strip (get_group_scoped_conditions gw escape session_user user doctype) \<noteq> [])"

section \<open>The branch axis\<close>

definition compute_branch_subtree :: "docname \<Rightarrow> child_map \<Rightarrow> tree_error + docname list" where
  "compute_branch_subtree branch children_of =
     (if branch = [] then Inl Tree_Branch_Required else subtree_of branch children_of)"

definition compute_branch_subtree_rebuild_target :: "docname \<Rightarrow> parent_map \<Rightarrow> tree_error + docname" where
  "compute_branch_subtree_rebuild_target moved_branch parent_of = root_of moved_branch parent_of"

definition is_bypass_user :: "string set \<Rightarrow> bool" where
  "is_bypass_user roles = (roles \<inter> BYPASS_ROLES \<noteq> {})"

definition can_access_branch :: "docname option \<Rightarrow> docname list \<Rightarrow> string set \<Rightarrow> bool" where
  "can_access_branch branch allowed_branches roles =
    (if roles \<inter> GLOBAL_BRANCH_ROLES \<noteq> {} then True
     else if \<not> truthy branch then True
     else the branch \<in> set allowed_branches)"

datatype permission_error =
    Lacks_Branch_Scope string "docname option"
  | Lacks_Group_Scope string "docname option" "docname option"
  | Not_Resolved_Approver string

definition assert_branch_scope ::
  "permission_gateway \<Rightarrow> docname option \<Rightarrow> string \<Rightarrow> permission_error + unit" where
  "assert_branch_scope gw doc_branch user =
    (let roles = pg_user_roles gw user; allowed = pg_branch_permissions gw user
     in if can_access_branch doc_branch allowed roles then Inr ()
        else Inl (Lacks_Branch_Scope user doc_branch))"

section \<open>The group-axis guard\<close>

definition assert_group_scope ::
  "permission_gateway \<Rightarrow> docname option \<Rightarrow> docname option \<Rightarrow> string \<Rightarrow> permission_error + unit" where
  "assert_group_scope gw doc_group doc_member user =
    (let roles = pg_user_roles gw user
     in if is_bypass_user roles then Inr ()
        else let scope = resolve_leader_scope gw user roles
        in if doc_group = None \<and> doc_member = None then Inr ()
        else if truthy (ls_member scope) \<and> truthy doc_member \<and> doc_member = ls_member scope then Inr ()
        else if truthy doc_group
             \<and> ((case pg_group_bounds gw (the doc_group) of None \<Rightarrow> False
                 | Some db \<Rightarrow> inside (ls_led_bounds scope) db)
                \<or> the doc_group \<in> set (ls_joined_groups scope))
        then Inr ()
        else Inl (Lacks_Group_Scope user doc_group doc_member))"

section \<open>The approval-authority guard\<close>

record step_view =
  sv_idx :: nat
  sv_approver_level :: string
  sv_approver_member :: "docname option"
  sv_approver_user :: "string option"
  sv_approver_group :: "docname option"
  sv_step_status :: string
  sv_doc_branch :: "docname option"
  sv_doc_group :: "docname option"

definition is_resolved_approver :: "permission_gateway \<Rightarrow> step_view \<Rightarrow> string \<Rightarrow> bool" where
  "is_resolved_approver gw step user =
    (let roles = pg_user_roles gw user;
         member = pg_member_for_user gw user;
         allowed = pg_branch_permissions gw user
     in (truthy (sv_approver_user step) \<and> sv_approver_user step = Some user)
      \<or> (truthy (sv_approver_member step) \<and> truthy member \<and> sv_approver_member step = member)
      \<or> (sv_approver_level step = APPROVAL_LEVEL_BRANCH_ADMIN
         \<and> ROLE_BRANCH_ADMIN \<in> roles \<and> can_access_branch (sv_doc_branch step) allowed roles))"

definition can_decide_approval_step :: "permission_gateway \<Rightarrow> step_view \<Rightarrow> string \<Rightarrow> bool" where
  "can_decide_approval_step gw step user =
    (let roles = pg_user_roles gw user; allowed = pg_branch_permissions gw user
     in if \<not> is_resolved_approver gw step user then False
        else if \<not> can_access_branch (sv_doc_branch step) allowed roles then False
        else if truthy (sv_doc_group step) \<and> sv_approver_level step \<noteq> APPROVAL_LEVEL_BRANCH_ADMIN
        then if is_bypass_user roles then True
             else case pg_group_bounds gw (the (sv_doc_group step)) of
               None \<Rightarrow> False
             | Some db \<Rightarrow> inside (ls_led_bounds (resolve_leader_scope gw user roles)) db
        else True)"

definition assert_approval_scope ::
  "permission_gateway \<Rightarrow> step_view \<Rightarrow> string \<Rightarrow> permission_error + unit" where
  "assert_approval_scope gw step user =
     (if can_decide_approval_step gw step user then Inr () else Inl (Not_Resolved_Approver user))"

section \<open>The production gateway over its tables\<close>

record group_tree_row =
  gt_name :: docname
  gt_leader :: "docname option"
  gt_lft :: int
  gt_rgt :: int

record roster_row =
  ro_group :: docname
  ro_member :: docname
  ro_role :: string

record user_permission =
  up_user :: string
  up_allow :: string
  up_for_value :: docname

record permission_db =
  pd_roles :: "string \<Rightarrow> string set"
  pd_members :: "(docname \<times> string option) list"
  pd_groups :: "group_tree_row list"
  pd_roster :: "roster_row list"
  pd_user_permissions :: "user_permission list"

definition resolve_member_for_user :: "permission_db \<Rightarrow> string \<Rightarrow> docname option" where
  "resolve_member_for_user db user =
    (if user = [] then None
     else map_option fst (find (\<lambda>(n, linked). linked = Some user) (pd_members db)))"

definition row_bounds :: "group_tree_row \<Rightarrow> group_bounds" where
  "row_bounds r = \<lparr>gb_name = gt_name r, gb_lft = gt_lft r, gb_rgt = gt_rgt r\<rparr>"

definition fetch_group_bounds :: "permission_db \<Rightarrow> docname \<Rightarrow> group_bounds option" where
  "fetch_group_bounds db n =
    (if n = [] then None else map_option row_bounds (find (\<lambda>r. gt_name r = n) (pd_groups db)))"

definition bounds_for :: "permission_db \<Rightarrow> docname list \<Rightarrow> group_bounds list" where
  "bounds_for db names = List.map_filter (fetch_group_bounds db) names"

definition fetch_led_group_bounds :: "permission_db \<Rightarrow> docname \<Rightarrow> group_bounds list" where
  "fetch_led_group_bounds db member =
    (if member = [] then []
     else let leader_rows = map gt_name (filter (\<lambda>r. gt_leader r = Some member) (pd_groups db));
              roster_rows = map ro_group (filter (\<lambda>r. ro_member r = member
                  \<and> ro_role r \<in> set LEADER_ROSTER_ROLES) (pd_roster db));
              group_names = dedup (leader_rows @ roster_rows)
          in if group_names = [] then [] else bounds_for db group_names)"

definition fetch_joined_group_names :: "permission_db \<Rightarrow> docname \<Rightarrow> docname list" where
  "fetch_joined_group_names db member =
    (if member = [] then []
     else dedup (map ro_group (filter (\<lambda>r. ro_member r = member) (pd_roster db))))"

definition list_branch_user_permissions :: "permission_db \<Rightarrow> string \<Rightarrow> docname list" where
  "list_branch_user_permissions db user =
    (if user = [] then []
     else map up_for_value (filter (\<lambda>p. up_user p = user \<and> up_allow p = BRANCH_DOCTYPE)
            (pd_user_permissions db)))"

definition FrappePermissionGateway :: "permission_db \<Rightarrow> permission_gateway" where
  "FrappePermissionGateway db = \<lparr>pg_user_roles = pd_roles db,
     pg_member_for_user = resolve_member_for_user db,
     pg_led_group_bounds = fetch_led_group_bounds db,
     pg_joined_group_names = fetch_joined_group_names db,
     pg_group_bounds = fetch_group_bounds db,
     pg_branch_permissions = list_branch_user_permissions db\<rparr>"

section \<open>The User-Permission syncer\<close>

text \<open>\<open>target - existing\<close> and \<open>existing - target\<close> are Python sets, iterated in an
  unspecified order; here they are iterated in list order.  Deleting every row found by
  \<open>(user, allow, for_value)\<close> removes all rows with these three values.\<close>

definition sync_branch_scope ::
  "user_permission list \<Rightarrow> string \<Rightarrow> docname list \<Rightarrow> user_permission list" where
  "sync_branch_scope rows user branch_subtree =
    (let target = dedup branch_subtree;
         existing = dedup (map up_for_value (filter (\<lambda>p. up_user p = user \<and> up_allow p = BRANCH_DOCTYPE) rows));
         inserted = rows @ map (\<lambda>b. \<lparr>up_user = user, up_allow = BRANCH_DOCTYPE, up_for_value = b\<rparr>)
                             (filter (\<lambda>b. b \<notin> set existing) target)
     in fold (\<lambda>b. filter (\<lambda>p. \<not> (up_user p = user \<and> up_allow p = BRANCH_DOCTYPE \<and> up_for_value p = b)))
          (filter (\<lambda>b. b \<notin> set target) existing) inserted)"

section \<open>The audited system read\<close>

record audit_entry =
  au_action :: string
  au_doctype :: string
  au_actor :: string
  au_reason :: string

text \<open>\<open>get_all\<close> is the permission-bypassing read of the framework, \<open>audit_ok\<close> tells
  whether the audit insert succeeds (a failure is swallowed).\<close>

definition system_query ::
  "(string \<Rightarrow> 'f \<Rightarrow> string list \<Rightarrow> 'r list) \<Rightarrow> bool \<Rightarrow> string \<Rightarrow> 'f \<Rightarrow> string list option \<Rightarrow> string \<Rightarrow> string
    \<Rightarrow> audit_entry list \<Rightarrow> 'r list \<times> audit_entry list" where
  "system_query get_all audit_ok doctype filters field_list reason actor log =
    (let fs = (case field_list of None \<Rightarrow> [''name''] | Some f \<Rightarrow> if f = [] then [''name''] else f);
         results = get_all doctype filters fs;
         entry = \<lparr>au_action = ''system_query'', au_doctype = doctype, au_actor = actor, au_reason = reason\<rparr>
     in (results, if audit_ok then log @ [entry] else log))"

section \<open>Lemmas\<close>

lemma inside_Nil [simp]: "\<not> inside [] g"
  by (simp add: inside_def)

lemma find_distinct_iff:
  "distinct (map f rows) \<Longrightarrow> find (\<lambda>r. f r = g) rows = Some r \<longleftrightarrow> r \<in> set rows \<and> f r = g"
proof (induction rows)
  case (Cons a rows)
  show ?case
  proof (cases "f a = g")
    case True
    have "f r \<noteq> g" if "r \<in> set rows" using Cons.prems True that by (auto simp: image_iff)
    then show ?thesis using True by auto
  next
    case False
    then show ?thesis using Cons by auto
  qed
qed simp

lemma fetch_group_bounds_selected:
  assumes "distinct (map gt_name (pd_groups db))" "g \<noteq> []"
  shows "selected (map row_bounds (pd_groups db)) led g \<longleftrightarrow>
    (case fetch_group_bounds db g of None \<Rightarrow> False | Some b \<Rightarrow> inside led b)"
proof -
  note find_iff = find_distinct_iff [OF assms(1), of g]
  show ?thesis
  proof (cases "find (\<lambda>r. gt_name r = g) (pd_groups db)")
    case None
    then have "\<forall>r \<in> set (pd_groups db). gt_name r \<noteq> g" by (auto simp: find_None_iff)
    then have "\<not> selected (map row_bounds (pd_groups db)) led g"
      by (auto simp: selected_def row_bounds_def)
    then show ?thesis using None by (simp add: fetch_group_bounds_def)
  next
    case (Some r)
    then have "r \<in> set (pd_groups db)" "gt_name r = g" using find_iff by auto
    moreover have "r' = r" if "r' \<in> set (pd_groups db)" "gt_name r' = g" for r'
      using find_iff [of r'] that Some by auto
    ultimately have "selected (map row_bounds (pd_groups db)) led g \<longleftrightarrow> inside led (row_bounds r)"
      by (force simp: selected_def row_bounds_def)
    then show ?thesis using Some assms(2) by (simp add: fetch_group_bounds_def)
  qed
qed

lemma fold_filter_out:
  "fold (\<lambda>b. filter (\<lambda>p. \<not> (Q p \<and> v p = b))) bs xs = filter (\<lambda>p. \<not> (Q p \<and> v p \<in> set bs)) xs"
  by (induction bs arbitrary: xs) (auto intro!: filter_cong)

lemma sync_branch_scope_filter:
  "sync_branch_scope rows user bs =
     filter (\<lambda>p. \<not> (up_user p = user \<and> up_allow p = BRANCH_DOCTYPE) \<or> up_for_value p \<in> set bs) rows @
     map (\<lambda>b. \<lparr>up_user = user, up_allow = BRANCH_DOCTYPE, up_for_value = b\<rparr>)
       (filter (\<lambda>b. b \<notin> up_for_value ` {p \<in> set rows. up_user p = user \<and> up_allow p = BRANCH_DOCTYPE})
         (dedup bs))"
proof -
  let ?Q = "\<lambda>p. up_user p = user \<and> up_allow p = BRANCH_DOCTYPE"
  let ?ex = "up_for_value ` {p \<in> set rows. ?Q p}"
  let ?new = "map (\<lambda>b. \<lparr>up_user = user, up_allow = BRANCH_DOCTYPE, up_for_value = b\<rparr>)
     (filter (\<lambda>b. b \<notin> ?ex) (dedup bs))"
  let ?keep = "\<lambda>p. \<not> (?Q p \<and> up_for_value p \<in> ?ex - set bs)"
  have "sync_branch_scope rows user bs = filter ?keep (rows @ ?new)"
    unfolding sync_branch_scope_def Let_def
    using fold_filter_out [of ?Q up_for_value "filter (\<lambda>b. b \<notin> set (dedup bs))
        (dedup (map up_for_value (filter ?Q rows)))" "rows @ ?new"]
    by (simp add: conj_assoc set_diff_eq)
  moreover have "filter ?keep rows = filter (\<lambda>p. \<not> ?Q p \<or> up_for_value p \<in> set bs) rows"
    by (rule filter_cong) auto
  moreover have "filter ?keep ?new = ?new"
    by (auto simp: filter_id_conv)
  ultimately show ?thesis by simp
qed

lemma sync_branch_scope_mem:
  "p \<in> set (sync_branch_scope rows user bs) \<longleftrightarrow>
     (p \<in> set rows \<and> (\<not> (up_user p = user \<and> up_allow p = BRANCH_DOCTYPE) \<or> up_for_value p \<in> set bs))
   \<or> (\<exists>b \<in> set bs. b \<notin> up_for_value ` {p \<in> set rows. up_user p = user \<and> up_allow p = BRANCH_DOCTYPE}
        \<and> p = \<lparr>up_user = user, up_allow = BRANCH_DOCTYPE, up_for_value = b\<rparr>)"
  unfolding sync_branch_scope_filter set_append set_filter set_map set_dedup by blast

lemma group_scoped_text:
  "get_group_scoped_conditions gw escape session user doctype =
     (case group_scoped_clauses gw (if user \<noteq> [] then user else session) doctype of
        None \<Rightarrow> []
      | Some cs \<Rightarrow> '' AND ('' @ join_text '' OR '' (map (clause_text doctype escape) cs) @ '')'')"
  by (simp add: get_group_scoped_conditions_def group_scoped_clauses_def Let_def
      build_group_scope_sql_def scope_clauses_def)

section \<open>Properties\<close>

text \<open>C6. The list hook and the guard agree on rows that have a group: for a user without
  bypass role who has a member record, a row of a scoped DocType other than Flock Group
  passes the SQL fragment of the hook exactly when \<open>assert_group_scope\<close> accepts its group
  and member.\<close>
theorem hook_guard_agree:
  assumes "distinct (map gt_name (pd_groups db))"
    and "pd_roles db user \<inter> BYPASS_ROLES = {}"
    and "resolve_member_for_user db user = Some m" "m \<noteq> []"
    and "doctype \<in> set SCOPED_DOCTYPES" "doctype \<noteq> GROUP_DOCTYPE"
    and "sr_group row = Some g" "g \<noteq> []"
    and "dm = (case map_of MEMBER_ANCHORED_DOCTYPES doctype of None \<Rightarrow> None | Some col \<Rightarrow> sr_member row col)"
  shows "fragment_holds (map row_bounds (pd_groups db)) row
      (group_scoped_clauses (FrappePermissionGateway db) user doctype)
    \<longleftrightarrow> assert_group_scope (FrappePermissionGateway db) (Some g) dm user = Inr ()"
proof -
  let ?gw = "FrappePermissionGateway db"
  have scope: "resolve_leader_scope ?gw user (pd_roles db user) =
      \<lparr>ls_member = Some m, ls_led_bounds = fetch_led_group_bounds db m,
       ls_joined_groups = fetch_joined_group_names db m\<rparr>"
    using assms(2,3) by (simp add: resolve_leader_scope_def FrappePermissionGateway_def)
  have guard: "assert_group_scope ?gw (Some g) dm user = Inr () \<longleftrightarrow>
      dm = Some m \<or> selected (map row_bounds (pd_groups db)) (fetch_led_group_bounds db m) g
      \<or> g \<in> set (fetch_joined_group_names db m)"
    using assms(2,4,8) scope fetch_group_bounds_selected [OF assms(1,8)]
    by (auto simp: assert_group_scope_def is_bypass_user_def FrappePermissionGateway_def Let_def
        split: option.splits)
  have hook: "group_scoped_clauses ?gw user doctype = scope_clauses doctype
      \<lparr>ls_member = Some m, ls_led_bounds = fetch_led_group_bounds db m,
       ls_joined_groups = fetch_joined_group_names db m\<rparr>"
    using assms(2,4,5) scope
    by (simp add: group_scoped_clauses_def Let_def scope_is_empty_def FrappePermissionGateway_def)
  show ?thesis
    unfolding guard hook
    using assms(4,6-9)
    by (auto simp: scope_clauses_def scope_is_empty_def fragment_holds_def split: option.splits)
qed

definition demo_perm_db :: permission_db where
  "demo_perm_db = \<lparr>pd_roles = (\<lambda>_. {ROLE_GROUP_LEADER}), pd_members = [(''M1'', Some ''u1'')],
     pd_groups = [\<lparr>gt_name = ''G'', gt_leader = Some ''M1'', gt_lft = 1, gt_rgt = 4\<rparr>,
                  \<lparr>gt_name = ''H'', gt_leader = None, gt_lft = 2, gt_rgt = 3\<rparr>],
     pd_roster = [], pd_user_permissions = []\<rparr>"

lemma hook_guard_agree_witness:
  "fragment_holds (map row_bounds (pd_groups demo_perm_db))
      \<lparr>sr_name = ''E'', sr_group = Some ''H'', sr_member = (\<lambda>_. None)\<rparr>
      (group_scoped_clauses (FrappePermissionGateway demo_perm_db) ''u1'' ''Flock Gathering'')
    \<longleftrightarrow> assert_group_scope (FrappePermissionGateway demo_perm_db) (Some ''H'') None ''u1'' = Inr ()"
proof (rule hook_guard_agree)
  show "distinct (map gt_name (pd_groups demo_perm_db))" by code_simp
  show "pd_roles demo_perm_db ''u1'' \<inter> BYPASS_ROLES = {}" by code_simp
  show "resolve_member_for_user demo_perm_db ''u1'' = Some ''M1''" by code_simp
  show "''Flock Gathering'' \<in> set SCOPED_DOCTYPES" by code_simp
  show "''Flock Gathering'' \<noteq> GROUP_DOCTYPE" by code_simp
qed (simp_all add: MEMBER_ANCHORED_DOCTYPES_def)

text \<open>Off that common ground the two forms differ, against the comments which say they
  agree: the hook lists a row without group that belongs to another member, and lists every
  row to a user without member record, while the guard refuses both.\<close>
theorem hook_guard_disagree:
  "(fragment_holds tree \<lparr>sr_name = ''R'', sr_group = None, sr_member = (\<lambda>_. Some ''M2'')\<rparr>
      (group_scoped_clauses (FrappePermissionGateway demo_perm_db) ''u1'' ''Flock Event Registration'')
    \<and> assert_group_scope (FrappePermissionGateway demo_perm_db) None (Some ''M2'') ''u1'' \<noteq> Inr ())
   \<and> (fragment_holds tree row
      (group_scoped_clauses (FrappePermissionGateway demo_perm_db) ''u2'' ''Flock Event Registration'')
    \<and> assert_group_scope (FrappePermissionGateway demo_perm_db) (Some ''H'') None ''u2'' \<noteq> Inr ())"
proof -
  have scopes: "group_scoped_clauses (FrappePermissionGateway demo_perm_db) ''u1'' ''Flock Event Registration''
      = Some [Group_Is_Null, Group_Subtree [\<lparr>gb_name = ''G'', gb_lft = 1, gb_rgt = 4\<rparr>],
              Member_Equals ''registrant'' ''M1'']"
    "group_scoped_clauses (FrappePermissionGateway demo_perm_db) ''u2'' ''Flock Event Registration'' = None"
    by code_simp+
  have "assert_group_scope (FrappePermissionGateway demo_perm_db) None (Some ''M2'') ''u1'' \<noteq> Inr ()"
    "assert_group_scope (FrappePermissionGateway demo_perm_db) (Some ''H'') None ''u2'' \<noteq> Inr ()"
    by code_simp+
  then show ?thesis by (simp add: scopes fragment_holds_def)
qed

text \<open>C17. Approval authority is chain membership: a user decides a step only as its named
  approver (by user or by member) or, on the Branch Admin step, as a Branch Admin with access
  to the branch; never across branches without a global branch role; and on a leader step
  with a group, only with a bypass role or with the group inside a led subtree.\<close>
theorem approval_authority:
  assumes "can_decide_approval_step gw step user"
  shows "(sv_approver_user step = Some user
      \<or> (sv_approver_member step = pg_member_for_user gw user \<and> sv_approver_member step \<noteq> None)
      \<or> (sv_approver_level step = APPROVAL_LEVEL_BRANCH_ADMIN \<and> ROLE_BRANCH_ADMIN \<in> pg_user_roles gw user))
    \<and> (pg_user_roles gw user \<inter> GLOBAL_BRANCH_ROLES = {} \<longrightarrow> truthy (sv_doc_branch step) \<longrightarrow>
        the (sv_doc_branch step) \<in> set (pg_branch_permissions gw user))
    \<and> (sv_approver_level step \<noteq> APPROVAL_LEVEL_BRANCH_ADMIN \<longrightarrow> truthy (sv_doc_group step) \<longrightarrow>
        \<not> is_bypass_user (pg_user_roles gw user) \<longrightarrow>
        (\<exists>db led m. pg_group_bounds gw (the (sv_doc_group step)) = Some db
           \<and> pg_member_for_user gw user = Some m \<and> led \<in> set (pg_led_group_bounds gw m)
           \<and> gb_lft led \<le> gb_lft db \<and> gb_rgt db \<le> gb_rgt led))"
proof -
  let ?roles = "pg_user_roles gw user"
  have "is_resolved_approver gw step user"
    and branch: "can_access_branch (sv_doc_branch step) (pg_branch_permissions gw user) ?roles"
    using assms by (auto simp: can_decide_approval_step_def Let_def split: if_splits)
  then have "sv_approver_user step = Some user
      \<or> (sv_approver_member step = pg_member_for_user gw user \<and> sv_approver_member step \<noteq> None)
      \<or> (sv_approver_level step = APPROVAL_LEVEL_BRANCH_ADMIN \<and> ROLE_BRANCH_ADMIN \<in> ?roles)"
    by (auto simp: is_resolved_approver_def Let_def truthy_def split: option.splits)
  moreover have "\<exists>db led m. pg_group_bounds gw (the (sv_doc_group step)) = Some db
        \<and> pg_member_for_user gw user = Some m \<and> led \<in> set (pg_led_group_bounds gw m)
        \<and> gb_lft led \<le> gb_lft db \<and> gb_rgt db \<le> gb_rgt led"
    if "sv_approver_level step \<noteq> APPROVAL_LEVEL_BRANCH_ADMIN" "truthy (sv_doc_group step)"
      "\<not> is_bypass_user ?roles"
    using assms that
    by (auto simp: can_decide_approval_step_def Let_def inside_def resolve_leader_scope_def
        is_bypass_user_def empty_scope_def split: if_splits option.splits)
  ultimately show ?thesis using branch by (auto simp: can_access_branch_def split: if_splits)
qed

definition demo_step :: step_view where
  "demo_step = \<lparr>sv_idx = 0, sv_approver_level = ''Parent Group Leader'', sv_approver_member = Some ''M1'',
     sv_approver_user = Some ''u1'', sv_approver_group = Some ''G'', sv_step_status = ''Pending'',
     sv_doc_branch = None, sv_doc_group = Some ''H''\<rparr>"

lemma approval_authority_witness:
  "can_decide_approval_step (FrappePermissionGateway demo_perm_db) demo_step ''u1''
   \<and> sv_approver_user demo_step = Some ''u1''"
proof -
  have "can_decide_approval_step (FrappePermissionGateway demo_perm_db) demo_step ''u1''" by code_simp
  from approval_authority [OF this] this show ?thesis by (simp add: demo_step_def)
qed

text \<open>After a sync the user's branch permissions are exactly the given subtree, the rows of
  other users and of other DocTypes are untouched, and a second sync changes nothing.\<close>
theorem sync_branch_scope_correct:
  "set (map up_for_value (filter (\<lambda>p. up_user p = user \<and> up_allow p = BRANCH_DOCTYPE)
        (sync_branch_scope rows user bs))) = set bs
   \<and> filter (\<lambda>p. \<not> (up_user p = user \<and> up_allow p = BRANCH_DOCTYPE)) (sync_branch_scope rows user bs)
       = filter (\<lambda>p. \<not> (up_user p = user \<and> up_allow p = BRANCH_DOCTYPE)) rows
   \<and> sync_branch_scope (sync_branch_scope rows user bs) user bs = sync_branch_scope rows user bs"
proof -
  let ?Q = "\<lambda>p. up_user p = user \<and> up_allow p = BRANCH_DOCTYPE"
  let ?s = "sync_branch_scope rows user bs"
  have vals: "up_for_value ` {p \<in> set ?s. ?Q p} = set bs"
  proof (intro set_eqI iffI)
    fix x assume "x \<in> up_for_value ` {p \<in> set ?s. ?Q p}"
    then obtain p where p: "p \<in> set ?s" "?Q p" "x = up_for_value p" by blast
    from p(1) show "x \<in> set bs" unfolding sync_branch_scope_mem
    proof
      assume "\<exists>b \<in> set bs. b \<notin> up_for_value ` {p \<in> set rows. ?Q p}
        \<and> p = \<lparr>up_user = user, up_allow = BRANCH_DOCTYPE, up_for_value = b\<rparr>"
      then show ?thesis using p(3) by auto
    qed (use p in blast)
  next
    fix x assume x: "x \<in> set bs"
    show "x \<in> up_for_value ` {p \<in> set ?s. ?Q p}"
    proof (cases "x \<in> up_for_value ` {p \<in> set rows. ?Q p}")
      case True
      then obtain p where p: "p \<in> set rows" "?Q p" "up_for_value p = x" by blast
      then have "p \<in> set ?s" using x unfolding sync_branch_scope_mem by blast
      then show ?thesis using p by blast
    next
      case False
      let ?p = "\<lparr>up_user = user, up_allow = BRANCH_DOCTYPE, up_for_value = x\<rparr>"
      have "?p \<in> set ?s" using False x unfolding sync_branch_scope_mem by blast
      then show ?thesis by force
    qed
  qed
  have "filter (\<lambda>p. \<not> ?Q p) (filter (\<lambda>p. \<not> ?Q p \<or> up_for_value p \<in> set bs) rows) = filter (\<lambda>p. \<not> ?Q p) rows"
    unfolding filter_filter by (rule filter_cong) auto
  then have rest: "filter (\<lambda>p. \<not> ?Q p) ?s = filter (\<lambda>p. \<not> ?Q p) rows"
    unfolding sync_branch_scope_filter by (simp add: filter_map comp_def)
  have fresh: "filter (\<lambda>b. b \<notin> up_for_value ` {p \<in> set ?s. ?Q p}) (dedup bs) = []"
    unfolding vals by (simp add: filter_empty_conv)
  have keep: "filter (\<lambda>p. \<not> ?Q p \<or> up_for_value p \<in> set bs) ?s = ?s"
    unfolding filter_id_conv using vals by blast
  have "sync_branch_scope ?s user bs = ?s"
    unfolding sync_branch_scope_filter [of ?s] fresh keep by simp
  moreover have "set (map up_for_value (filter ?Q ?s)) = set bs"
    using vals by (simp only: set_map set_filter)
  ultimately show ?thesis using rest by blast
qed

end
