(* ===== verification/Approvals.thy ===== *)
theory Approvals
  imports Status_Machine Permissions
begin

text \<open>
  Model of \<open>flock_os/approvals.py\<close>: the approval status machine, the approval policy
  with the small-group fast path, the resolution of the approver chain and the
  step-advance helpers.  Member and user ids are strings; the chain gateway is a record
  of functions.
\<close>

section \<open>Catalogs\<close>

definition APPROVAL_DRAFT :: string where [status_defs]: "APPROVAL_DRAFT = ''Draft''"
definition APPROVAL_PENDING :: string where [status_defs]: "APPROVAL_PENDING = ''Pending Approval''"
definition APPROVAL_APPROVED :: string where [status_defs]: "APPROVAL_APPROVED = ''Approved''"
definition APPROVAL_REJECTED :: string where [status_defs]: "APPROVAL_REJECTED = ''Rejected''"
definition APPROVAL_CANCELLED :: string where [status_defs]: "APPROVAL_CANCELLED = ''Cancelled''"
definition APPROVAL_WITHDRAWN :: string where [status_defs]: "APPROVAL_WITHDRAWN = ''Withdrawn''"

definition APPROVAL_STATUSES :: "string list" where
  "APPROVAL_STATUSES = [APPROVAL_DRAFT, APPROVAL_PENDING, APPROVAL_APPROVED, APPROVAL_REJECTED,
     APPROVAL_CANCELLED, APPROVAL_WITHDRAWN]"

definition DEFAULT_APPROVAL_STATUS :: string where
  "DEFAULT_APPROVAL_STATUS = APPROVAL_DRAFT"

definition TERMINAL_APPROVAL_STATUSES :: "string set" where
  "TERMINAL_APPROVAL_STATUSES =
     {APPROVAL_APPROVED, APPROVAL_REJECTED, APPROVAL_CANCELLED, APPROVAL_WITHDRAWN}"

definition STEP_PENDING :: string where [status_defs]: "STEP_PENDING = ''Pending''"
definition STEP_APPROVED :: string where [status_defs]: "STEP_APPROVED = ''Approved''"
definition STEP_REJECTED :: string where [status_defs]: "STEP_REJECTED = ''Rejected''"
definition STEP_SKIPPED :: string where [status_defs]: "STEP_SKIPPED = ''Skipped''"
definition STEP_RECUSED :: string where [status_defs]: "STEP_RECUSED = ''Recused''"

definition STEP_STATUSES :: "string list" where
  "STEP_STATUSES = [STEP_PENDING, STEP_APPROVED, STEP_REJECTED, STEP_SKIPPED, STEP_RECUSED]"
definition STEP_DECIDED :: "string set" where
  "STEP_DECIDED = {STEP_APPROVED, STEP_REJECTED, STEP_SKIPPED, STEP_RECUSED}"

definition LEVEL_PARENT :: string where [status_defs]: "LEVEL_PARENT = ''Parent Group Leader''"
definition LEVEL_ANCESTOR :: string where [status_defs]: "LEVEL_ANCESTOR = ''Ancestor Group Leader''"
definition LEVEL_BRANCH_ADMIN :: string where [status_defs]: "LEVEL_BRANCH_ADMIN = ''Branch Admin''"

definition APPROVER_LEVELS :: "string list" where
  "APPROVER_LEVELS = [LEVEL_PARENT, LEVEL_ANCESTOR, LEVEL_BRANCH_ADMIN]"

definition APPROVAL_TRANSITIONS :: "(string \<times> string list) list" where
  "APPROVAL_TRANSITIONS =
    [(APPROVAL_DRAFT, [APPROVAL_PENDING, APPROVAL_APPROVED, APPROVAL_WITHDRAWN, APPROVAL_CANCELLED]),
     (APPROVAL_PENDING, [APPROVAL_APPROVED, APPROVAL_REJECTED, APPROVAL_CANCELLED]),
     (APPROVAL_REJECTED, [APPROVAL_DRAFT]),
     (APPROVAL_WITHDRAWN, [APPROVAL_DRAFT]),
     (APPROVAL_APPROVED, []),
     (APPROVAL_CANCELLED, [])]"

datatype approval_error =
    Approval_Bad_Start string
  | Approval_Bad_Transition string string
  | Approval_Group_Required
  | Approval_Requester_Required
  | Approval_No_Approver string

definition is_terminal_approval_status :: "string \<Rightarrow> bool" where
  "is_terminal_approval_status status = (status \<in> TERMINAL_APPROVAL_STATUSES)"

definition is_valid_approval_transition :: "string option \<Rightarrow> string \<Rightarrow> bool" where
  "is_valid_approval_transition from_status to_status =
    (if to_status \<notin> set APPROVAL_STATUSES then False
     else case from_status of
       None \<Rightarrow> to_status = DEFAULT_APPROVAL_STATUS
     | Some f \<Rightarrow> if f = to_status then True
                 else to_status \<in> set (table_get APPROVAL_TRANSITIONS f))"

definition validate_approval_transition :: "string option \<Rightarrow> string \<Rightarrow> approval_error + unit" where
  "validate_approval_transition from_status to_status =
    (if is_valid_approval_transition from_status to_status then Inr ()
     else case from_status of
       None \<Rightarrow> Inl (Approval_Bad_Start to_status)
     | Some f \<Rightarrow> Inl (Approval_Bad_Transition f to_status))"

interpretation approval: status_machine APPROVAL_STATUSES DEFAULT_APPROVAL_STATUS APPROVAL_TRANSITIONS
    is_valid_approval_transition
  by unfold_locales
     (auto simp: is_valid_approval_transition_def APPROVAL_STATUSES_def DEFAULT_APPROVAL_STATUS_def)

lemma approval_table:
  "table_get APPROVAL_TRANSITIONS APPROVAL_DRAFT =
     [APPROVAL_PENDING, APPROVAL_APPROVED, APPROVAL_WITHDRAWN, APPROVAL_CANCELLED]"
  "table_get APPROVAL_TRANSITIONS APPROVAL_PENDING =
     [APPROVAL_APPROVED, APPROVAL_REJECTED, APPROVAL_CANCELLED]"
  "table_get APPROVAL_TRANSITIONS APPROVAL_REJECTED = [APPROVAL_DRAFT]"
  "table_get APPROVAL_TRANSITIONS APPROVAL_WITHDRAWN = [APPROVAL_DRAFT]"
  "table_get APPROVAL_TRANSITIONS APPROVAL_APPROVED = []"
  "table_get APPROVAL_TRANSITIONS APPROVAL_CANCELLED = []"
  by (simp_all add: table_get_def APPROVAL_TRANSITIONS_def status_defs)

section \<open>Policy and gateway\<close>

record approval_policy =
  require_branch_admin_final :: bool
  max_approval_levels :: "int option"
  allow_self_approval :: bool
  auto_approve_below_capacity :: "int option"
  approval_timeout_hours :: "int option"
  default_registration_scope :: "string option"
  enable_waitlist :: bool

definition DEFAULT_POLICY :: approval_policy where
  "DEFAULT_POLICY = \<lparr>require_branch_admin_final = True, max_approval_levels = None,
     allow_self_approval = False, auto_approve_below_capacity = None,
     approval_timeout_hours = None, default_registration_scope = None, enable_waitlist = True\<rparr>"

definition is_auto_approved :: "int option \<Rightarrow> approval_policy \<Rightarrow> bool" where
  "is_auto_approved capacity policy =
    (case auto_approve_below_capacity policy of
       None \<Rightarrow> False
     | Some threshold \<Rightarrow>
         if threshold \<le> 0 then False
         else case capacity of None \<Rightarrow> False | Some c \<Rightarrow> c < threshold)"

record chain_node =
  cn_group :: docname
  cn_leaders :: "docname list"

record chain_gateway =
  cg_chain_nodes :: "docname \<Rightarrow> chain_node list"
  cg_user_for_member :: "docname \<Rightarrow> string option"
  cg_group_branch :: "docname \<Rightarrow> docname option"
  cg_branch_admin_member :: "docname \<Rightarrow> docname option"
  cg_branch_admin_user :: "docname \<Rightarrow> string option"

definition NullApprovalChainGateway :: chain_gateway where
  "NullApprovalChainGateway = \<lparr>cg_chain_nodes = (\<lambda>_. []), cg_user_for_member = (\<lambda>_. None),
     cg_group_branch = (\<lambda>_. None), cg_branch_admin_member = (\<lambda>_. None),
     cg_branch_admin_user = (\<lambda>_. None)\<rparr>"

record step_spec =
  ss_idx :: nat
  ss_approver_level :: string
  ss_approver_member :: "docname option"
  ss_approver_user :: "string option"
  ss_approver_group :: "docname option"
  ss_step_status :: string

definition is_self_skipped :: "step_spec \<Rightarrow> bool" where
  "is_self_skipped s = (ss_step_status s = STEP_SKIPPED)"

section \<open>Chain resolution\<close>

definition level_for_depth :: "nat \<Rightarrow> string" where
  "level_for_depth depth = (if depth \<le> 1 then LEVEL_PARENT else LEVEL_ANCESTOR)"

definition leader_step ::
  "chain_gateway \<Rightarrow> approval_policy \<Rightarrow> docname \<Rightarrow> string \<Rightarrow> docname \<Rightarrow> docname \<Rightarrow> nat \<Rightarrow> step_spec" where
  "leader_step gw policy requested_by level grp leader i =
    \<lparr>ss_idx = i, ss_approver_level = level, ss_approver_member = Some leader,
     ss_approver_user = cg_user_for_member gw leader, ss_approver_group = Some grp,
     ss_step_status = (if leader = requested_by \<and> \<not> allow_self_approval policy
                       then STEP_SKIPPED else STEP_PENDING)\<rparr>"

text \<open>The inner loop over the leaders of one node; its state is \<open>(specs, seen_leaders)\<close>.\<close>

fun node_steps ::
  "chain_gateway \<Rightarrow> approval_policy \<Rightarrow> docname \<Rightarrow> string \<Rightarrow> docname \<Rightarrow> docname list
    \<Rightarrow> step_spec list \<times> docname set \<Rightarrow> step_spec list \<times> docname set" where
  "node_steps gw policy requested_by level grp [] st = st"
| "node_steps gw policy requested_by level grp (leader # rest) (specs, seen) =
    (if leader = [] \<or> leader \<in> seen
     then node_steps gw policy requested_by level grp rest (specs, seen)
     else node_steps gw policy requested_by level grp rest
            (specs @ [leader_step gw policy requested_by level grp leader (length specs)],
             insert leader seen))"

fun leader_walk ::
  "chain_gateway \<Rightarrow> approval_policy \<Rightarrow> docname \<Rightarrow> nat \<Rightarrow> chain_node list
    \<Rightarrow> step_spec list \<times> docname set \<Rightarrow> step_spec list \<times> docname set" where
  "leader_walk gw policy requested_by depth [] st = st"
| "leader_walk gw policy requested_by depth (node # nodes) st =
     leader_walk gw policy requested_by (Suc depth) nodes
       (node_steps gw policy requested_by (level_for_depth depth) (cn_group node) (cn_leaders node) st)"

definition admin_terminator :: "chain_gateway \<Rightarrow> approval_policy \<Rightarrow> docname \<Rightarrow> nat \<Rightarrow> step_spec list" where
  "admin_terminator gw policy grp i =
    (if require_branch_admin_final policy then
       case cg_group_branch gw grp of
         None \<Rightarrow> []
       | Some branch \<Rightarrow>
           if branch = [] then []
           else if truthy (cg_branch_admin_member gw branch) then
             [\<lparr>ss_idx = i, ss_approver_level = LEVEL_BRANCH_ADMIN,
               ss_approver_member = cg_branch_admin_member gw branch,
               ss_approver_user = cg_branch_admin_user gw branch,
               ss_approver_group = None, ss_step_status = STEP_PENDING\<rparr>]
           else []
     else [])"

fun cap_steps :: "int \<Rightarrow> step_spec list \<Rightarrow> step_spec list" where
  "cap_steps budget [] = []"
| "cap_steps budget (step # steps) =
    (if ss_step_status step = STEP_SKIPPED then step # cap_steps budget steps
     else if budget > 0 then step # cap_steps (budget - 1) steps
     else cap_steps budget steps)"

definition reindex :: "step_spec list \<Rightarrow> step_spec list" where
  "reindex steps = map (\<lambda>(i, s). s \<lparr>ss_idx := i\<rparr>) (enumerate 0 steps)"

definition apply_depth_cap :: "approval_policy \<Rightarrow> step_spec list \<Rightarrow> step_spec list" where
  "apply_depth_cap policy specs =
    (case max_approval_levels policy of
       None \<Rightarrow> specs
     | Some k \<Rightarrow>
         if k \<ge> 0 then
           reindex (cap_steps k (filter (\<lambda>s. ss_approver_level s \<noteq> LEVEL_BRANCH_ADMIN) specs)
                    @ filter (\<lambda>s. ss_approver_level s = LEVEL_BRANCH_ADMIN) specs)
         else specs)"

definition resolve_approval_chain ::
  "docname \<Rightarrow> docname \<Rightarrow> approval_policy \<Rightarrow> chain_gateway \<Rightarrow> approval_error + step_spec list" where
  "resolve_approval_chain grp requested_by policy gw =
    (if grp = [] then Inl Approval_Group_Required
     else if requested_by = [] then Inl Approval_Requester_Required
     else let leaders = fst (leader_walk gw policy requested_by 0 (cg_chain_nodes gw grp) ([], {}));
              specs = leaders @ admin_terminator gw policy grp (length leaders);
              capped = apply_depth_cap policy specs
          in if \<not> (\<exists>s \<in> set capped. ss_step_status s = STEP_PENDING)
             then Inl (Approval_No_Approver grp)
             else Inr capped)"

section \<open>Step advancement\<close>

text \<open>The helpers read only \<open>step_status\<close> of each step, so they take the status list.\<close>

fun pending_from :: "nat \<Rightarrow> string list \<Rightarrow> nat option" where
  "pending_from i [] = None"
| "pending_from i (s # ss) = (if s = STEP_PENDING then Some i else pending_from (Suc i) ss)"

definition first_pending_step :: "string list \<Rightarrow> nat option" where
  "first_pending_step steps = pending_from 0 steps"

definition is_chain_complete :: "string list \<Rightarrow> bool" where
  "is_chain_complete steps = (first_pending_step steps = None)"

definition current_step_index :: "string list \<Rightarrow> nat \<Rightarrow> nat option" where
  "current_step_index steps stored_current = pending_from stored_current (drop stored_current steps)"

definition step_view_from_spec :: "step_spec \<Rightarrow> docname option \<Rightarrow> docname option \<Rightarrow> step_view" where
  "step_view_from_spec spec doc_branch doc_group =
    \<lparr>sv_idx = ss_idx spec, sv_approver_level = ss_approver_level spec,
     sv_approver_member = ss_approver_member spec, sv_approver_user = ss_approver_user spec,
     sv_approver_group = ss_approver_group spec, sv_step_status = ss_step_status spec,
     sv_doc_branch = doc_branch, sv_doc_group = doc_group\<rparr>"

section \<open>Lemmas\<close>

lemma pending_from_Some:
  "pending_from i ss = Some j \<longleftrightarrow>
     i \<le> j \<and> j < i + length ss \<and> ss ! (j - i) = STEP_PENDING
     \<and> (\<forall>k. i \<le> k \<longrightarrow> k < j \<longrightarrow> ss ! (k - i) \<noteq> STEP_PENDING)"
proof (induction ss arbitrary: i)
  case (Cons s ss)
  show ?case
  proof (cases "s = STEP_PENDING")
    case True
    then show ?thesis by (auto simp: le_eq_less_or_eq intro: ccontr)
  next
    case False
    have shift: "(s # ss) ! (k - i) = ss ! (k - Suc i)" if "Suc i \<le> k" for k
      using that by (simp add: nth_Cons')
    show ?thesis
    proof
      assume "pending_from i (s # ss) = Some j"
      then have *: "Suc i \<le> j" "j < Suc i + length ss" "ss ! (j - Suc i) = STEP_PENDING"
        "\<forall>k. Suc i \<le> k \<longrightarrow> k < j \<longrightarrow> ss ! (k - Suc i) \<noteq> STEP_PENDING"
        using False Cons.IH by auto
      have "(s # ss) ! (k - i) \<noteq> STEP_PENDING" if "i \<le> k" "k < j" for k
        using * that False shift by (cases "k = i") auto
      then show "i \<le> j \<and> j < i + length (s # ss) \<and> (s # ss) ! (j - i) = STEP_PENDING
          \<and> (\<forall>k. i \<le> k \<longrightarrow> k < j \<longrightarrow> (s # ss) ! (k - i) \<noteq> STEP_PENDING)"
        using * shift by auto
    next
      assume *: "i \<le> j \<and> j < i + length (s # ss) \<and> (s # ss) ! (j - i) = STEP_PENDING
          \<and> (\<forall>k. i \<le> k \<longrightarrow> k < j \<longrightarrow> (s # ss) ! (k - i) \<noteq> STEP_PENDING)"
      then have "j \<noteq> i" using False by auto
      with * have le: "Suc i \<le> j" by simp
      have "ss ! (k - Suc i) \<noteq> STEP_PENDING" if "Suc i \<le> k" "k < j" for k
        using * shift [OF that(1)] that by (metis Suc_leD)
      with * le have "pending_from (Suc i) ss = Some j"
        unfolding Cons.IH using shift [OF le] by auto
      then show "pending_from i (s # ss) = Some j" using False by simp
    qed
  qed
qed simp

lemma pending_from_None: "pending_from i ss = None \<longleftrightarrow> STEP_PENDING \<notin> set ss"
  by (induction ss arbitrary: i) auto

text \<open>The candidate approvers on the path, nearest first: (level, group, leader).\<close>

fun candidates :: "nat \<Rightarrow> chain_node list \<Rightarrow> (string \<times> docname \<times> docname) list" where
  "candidates depth [] = []"
| "candidates depth (node # nodes) =
     map (\<lambda>l. (level_for_depth depth, cn_group node, l)) (filter (\<lambda>l. l \<noteq> []) (cn_leaders node))
     @ candidates (Suc depth) nodes"

fun cand_leader :: "string \<times> docname \<times> docname \<Rightarrow> docname" where
  "cand_leader (lv, g, l) = l"

definition steps_from where
  "steps_from gw policy req i cs =
     map (\<lambda>(j, (lv, g, l)). leader_step gw policy req lv g l j) (enumerate i cs)"

lemma steps_from_simps:
  "steps_from gw policy req i [] = []"
  "steps_from gw policy req i ((lv, g, l) # cs) =
     leader_step gw policy req lv g l i # steps_from gw policy req (Suc i) cs"
  by (simp_all add: steps_from_def)

lemma steps_from_append:
  "steps_from gw policy req i (xs @ ys) =
     steps_from gw policy req i xs @ steps_from gw policy req (i + length xs) ys"
  by (simp add: steps_from_def enumerate_append_eq)

lemma length_steps_from [simp]: "length (steps_from gw policy req i cs) = length cs"
  by (simp add: steps_from_def)

lemma node_steps_eq:
  "node_steps gw policy req lv g ls (specs, seen) =
    (specs @ steps_from gw policy req (length specs)
       (dedup_on cand_leader seen (map (\<lambda>l. (lv, g, l)) (filter (\<lambda>l. l \<noteq> []) ls))),
     seen \<union> (set ls - {[]}))"
proof (induction ls arbitrary: specs seen)
  case (Cons l ls)
  then show ?case by (auto simp: steps_from_simps)
qed (simp add: steps_from_simps)

lemma leader_walk_eq:
  "leader_walk gw policy req depth nodes (specs, seen) =
    (specs @ steps_from gw policy req (length specs) (dedup_on cand_leader seen (candidates depth nodes)),
     seen \<union> cand_leader ` set (candidates depth nodes))"
proof (induction nodes arbitrary: depth specs seen)
  case (Cons n ns)
  have img: "cand_leader ` set (map (\<lambda>l. (level_for_depth depth, cn_group n, l))
      (filter (\<lambda>l. l \<noteq> []) (cn_leaders n))) = set (cn_leaders n) - {[]}"
    by force
  show ?case
    by (simp only: leader_walk.simps node_steps_eq Cons candidates.simps dedup_on_append img
        steps_from_append) (auto simp: steps_from_simps image_Un image_image)
qed (simp add: steps_from_simps)

definition chain_leaders :: "chain_gateway \<Rightarrow> docname \<Rightarrow> (string \<times> docname \<times> docname) list" where
  "chain_leaders gw grp = dedup_on cand_leader {} (candidates 0 (cg_chain_nodes gw grp))"

lemma leader_walk_chain:
  "fst (leader_walk gw policy req 0 (cg_chain_nodes gw grp) ([], {})) =
     steps_from gw policy req 0 (chain_leaders gw grp)"
  by (simp add: leader_walk_eq chain_leaders_def)

lemma candidates_level: "c \<in> set (candidates d nodes) \<Longrightarrow> fst c \<noteq> LEVEL_BRANCH_ADMIN"
  by (induction d nodes rule: candidates.induct)
     (auto simp: level_for_depth_def status_defs split: if_splits)

lemma candidates_lead:
  "(lv, g, l) \<in> set (candidates d nodes) \<Longrightarrow>
     \<exists>n \<in> set nodes. cn_group n = g \<and> l \<in> set (cn_leaders n) \<and> l \<noteq> []"
  by (induction d nodes rule: candidates.induct) auto

lemma cap_steps_skipped:
  "filter (\<lambda>s. ss_step_status s = STEP_SKIPPED) (cap_steps k ss) =
     filter (\<lambda>s. ss_step_status s = STEP_SKIPPED) ss"
  by (induction ss arbitrary: k) auto

lemma cap_steps_pending:
  "filter (\<lambda>s. ss_step_status s \<noteq> STEP_SKIPPED) (cap_steps (int n) ss) =
     take n (filter (\<lambda>s. ss_step_status s \<noteq> STEP_SKIPPED) ss)"
proof (induction ss arbitrary: n)
  case (Cons s ss)
  then show ?case using Cons [of "n - 1"] Cons [of n] by (cases n) auto
qed simp

lemma cap_steps_subset: "set (cap_steps k ss) \<subseteq> set ss"
  by (induction ss arbitrary: k) (auto dest: subsetD)

lemma steps_from_nth:
  assumes "j < length cs" "cs ! j = (lv, g, l)"
  shows "steps_from gw policy req i cs ! j = leader_step gw policy req lv g l (i + j)"
  using assms by (simp add: steps_from_def nth_enumerate_eq)

lemma steps_from_set:
  "s \<in> set (steps_from gw policy req i cs) \<longleftrightarrow>
     (\<exists>j lv g l. j < length cs \<and> cs ! j = (lv, g, l) \<and> s = leader_step gw policy req lv g l (i + j))"
proof
  assume "s \<in> set (steps_from gw policy req i cs)"
  then obtain j where j: "j < length cs" "s = steps_from gw policy req i cs ! j"
    by (auto simp: in_set_conv_nth)
  obtain lv g l where "cs ! j = (lv, g, l)" by (cases "cs ! j") auto
  then show "\<exists>j lv g l. j < length cs \<and> cs ! j = (lv, g, l) \<and> s = leader_step gw policy req lv g l (i + j)"
    using j steps_from_nth by blast
next
  assume "\<exists>j lv g l. j < length cs \<and> cs ! j = (lv, g, l) \<and> s = leader_step gw policy req lv g l (i + j)"
  then show "s \<in> set (steps_from gw policy req i cs)"
    by (metis steps_from_nth length_steps_from nth_mem)
qed

lemma leader_step_sel [simp]:
  "ss_idx (leader_step gw policy req lv g l i) = i"
  "ss_approver_level (leader_step gw policy req lv g l i) = lv"
  "ss_approver_member (leader_step gw policy req lv g l i) = Some l"
  "ss_approver_user (leader_step gw policy req lv g l i) = cg_user_for_member gw l"
  "ss_approver_group (leader_step gw policy req lv g l i) = Some g"
  "ss_step_status (leader_step gw policy req lv g l i) =
     (if l = req \<and> \<not> allow_self_approval policy then STEP_SKIPPED else STEP_PENDING)"
  by (simp_all add: leader_step_def)

lemma steps_from_members:
  "map ss_approver_member (steps_from gw policy req i cs) = map (Some o cand_leader) cs"
  by (induction cs arbitrary: i) (auto simp: steps_from_simps)

lemma steps_from_idx: "map ss_idx (steps_from gw policy req i cs) = [i..<i + length cs]"
proof -
  have "map ss_idx (steps_from gw policy req i cs) = map fst (enumerate i cs)"
    unfolding steps_from_def map_map by (rule map_cong) auto
  then show ?thesis by simp
qed

lemma chain_leaders_members:
  "map cand_leader (chain_leaders gw grp) =
     dedup (filter (\<lambda>l. l \<noteq> []) (concat (map cn_leaders (cg_chain_nodes gw grp))))"
proof -
  have "map cand_leader (candidates d nodes) = filter (\<lambda>l. l \<noteq> []) (concat (map cn_leaders nodes))" for d nodes
    by (induction d nodes rule: candidates.induct) (auto simp: comp_def)
  moreover have "map cand_leader (dedup_on cand_leader {} cs) = dedup (map cand_leader cs)" for cs
    by (simp add: dedup_on_map comp_def)
  ultimately show ?thesis by (simp add: chain_leaders_def)
qed

lemma admin_terminator_step:
  "s \<in> set (admin_terminator gw policy grp i) \<Longrightarrow>
     ss_approver_level s = LEVEL_BRANCH_ADMIN \<and> ss_step_status s = STEP_PENDING \<and> ss_idx s = i"
  by (cases "cg_group_branch gw grp"; cases "require_branch_admin_final policy")
     (auto simp: admin_terminator_def split: if_split_asm)

lemma admin_terminator_length: "length (admin_terminator gw policy grp i) \<le> 1"
  by (auto simp: admin_terminator_def split: option.splits)

lemma admin_terminator_idx:
  "map ss_idx (admin_terminator gw policy grp i) = [i..<i + length (admin_terminator gw policy grp i)]"
  by (auto simp: admin_terminator_def split: option.splits)

lemma reindex_nth: "i < length ss \<Longrightarrow> reindex ss ! i = (ss ! i) \<lparr>ss_idx := i\<rparr>"
  by (simp add: reindex_def nth_enumerate_eq)

lemma length_reindex [simp]: "length (reindex ss) = length ss"
  by (simp add: reindex_def)

lemma reindex_snoc: "reindex (ss @ [s]) = reindex ss @ [s \<lparr>ss_idx := length ss\<rparr>]"
  by (simp add: reindex_def enumerate_append_eq)

lemma reindex_idx: "map ss_idx (reindex ss) = [0..<length ss]"
  by (rule nth_equalityI) (auto simp: reindex_nth)

lemma reindex_map:
  assumes "\<And>s i. f (s \<lparr>ss_idx := i\<rparr>) = f s"
  shows "map f (reindex ss) = map f ss"
  by (rule nth_equalityI) (auto simp: reindex_nth assms)

lemma filter_reindex_map:
  assumes "\<And>s i. f (s \<lparr>ss_idx := i\<rparr>) = f s" "\<And>s i. P (s \<lparr>ss_idx := i\<rparr>) = P s"
  shows "map f (filter P (reindex ss)) = map f (filter P ss)"
proof -
  have "map (\<lambda>s. (f s, P s)) (reindex ss) = map (\<lambda>s. (f s, P s)) ss"
    by (rule reindex_map) (simp add: assms)
  then have "map fst (filter snd (map (\<lambda>s. (f s, P s)) (reindex ss)))
      = map fst (filter snd (map (\<lambda>s. (f s, P s)) ss))" by simp
  then show ?thesis by (simp add: filter_map comp_def)
qed

lemma steps_from_level:
  "s \<in> set (steps_from gw policy req i (chain_leaders gw grp)) \<Longrightarrow>
     ss_approver_level s \<noteq> LEVEL_BRANCH_ADMIN"
  using candidates_level dedup_on_subset
  unfolding steps_from_set chain_leaders_def
  by (metis (no_types, lifting) fst_conv leader_step_sel(2) nth_mem subsetD)

text \<open>The leader part of the resolved chain, before and after the cap.\<close>

lemma resolve_split:
  assumes "resolve_approval_chain grp req policy gw = Inr specs"
  obtains L A where
    "L = steps_from gw policy req 0 (chain_leaders gw grp)"
    "A = admin_terminator gw policy grp (length L)"
    "specs = apply_depth_cap policy (L @ A)"
    "\<exists>s \<in> set specs. ss_step_status s = STEP_PENDING" "grp \<noteq> []" "req \<noteq> []"
  using assms
  by (auto simp: resolve_approval_chain_def Let_def leader_walk_chain split: if_splits)

lemma cap_split:
  assumes "\<And>s. s \<in> set L \<Longrightarrow> ss_approver_level s \<noteq> LEVEL_BRANCH_ADMIN"
    and "\<And>s. s \<in> set A \<Longrightarrow> ss_approver_level s = LEVEL_BRANCH_ADMIN"
    and "max_approval_levels policy = Some (int k)"
  shows "apply_depth_cap policy (L @ A) = reindex (cap_steps (int k) L @ A)"
proof -
  have "filter (\<lambda>s. ss_approver_level s \<noteq> LEVEL_BRANCH_ADMIN) (L @ A) = L"
    "filter (\<lambda>s. ss_approver_level s = LEVEL_BRANCH_ADMIN) (L @ A) = A"
    using assms(1,2) by (auto simp: filter_empty_conv filter_id_conv)
  then show ?thesis using assms(3) by (simp add: apply_depth_cap_def)
qed

lemma depth_cap_statuses:
  "set (map ss_step_status (apply_depth_cap policy ss)) \<subseteq> set (map ss_step_status ss)"
proof -
  have re: "map ss_step_status (reindex xs) = map ss_step_status xs" for xs
    by (rule reindex_map) simp
  have "set (map ss_step_status (cap_steps k (filter P ss) @ filter Q ss)) \<subseteq> set (map ss_step_status ss)"
    for k P Q using cap_steps_subset [of k "filter P ss"] by auto
  then have "set (map ss_step_status (reindex (cap_steps k (filter P ss) @ filter Q ss)))
      \<subseteq> set (map ss_step_status ss)" for k P Q unfolding re .
  then show ?thesis unfolding apply_depth_cap_def by (auto split: option.split)
qed

lemma resolve_statuses:
  assumes "resolve_approval_chain grp req policy gw = Inr specs"
  shows "set (map ss_step_status specs) \<subseteq> {STEP_PENDING, STEP_SKIPPED}"
proof -
  obtain L A where L: "L = steps_from gw policy req 0 (chain_leaders gw grp)"
    and A: "A = admin_terminator gw policy grp (length L)" and specs: "specs = apply_depth_cap policy (L @ A)"
    using assms by (rule resolve_split)
  have "ss_step_status s \<in> {STEP_PENDING, STEP_SKIPPED}" if "s \<in> set (L @ A)" for s
    using that admin_terminator_step unfolding L A by (auto simp: steps_from_set)
  then have "set (map ss_step_status (L @ A)) \<subseteq> {STEP_PENDING, STEP_SKIPPED}" by auto
  then show ?thesis unfolding specs using depth_cap_statuses by (rule order_trans [rotated])
qed

lemma current_step_index_spec:
  "current_step_index steps k = Some j \<longleftrightarrow>
     k \<le> j \<and> j < length steps \<and> steps ! j = STEP_PENDING
     \<and> (\<forall>i. k \<le> i \<longrightarrow> i < j \<longrightarrow> steps ! i \<noteq> STEP_PENDING)"
  by (auto simp: current_step_index_def pending_from_Some nth_drop)

lemma current_step_index_None:
  "current_step_index steps k = None \<longleftrightarrow> STEP_PENDING \<notin> set (drop k steps)"
  by (simp add: current_step_index_def pending_from_None)

section \<open>Properties\<close>

lemma distinct_cap_members:
  "distinct (map ss_approver_member ss) \<Longrightarrow> distinct (map ss_approver_member (cap_steps k ss))"
  by (induction ss arbitrary: k) (auto dest: subsetD [OF cap_steps_subset])

text \<open>The parts of a resolved chain: the leader steps \<open>L\<close> of the path, what the cap leaves of them
  (\<open>M\<close>), and the terminator \<open>A\<close>, renumbered when there is a cap.\<close>

lemma resolved_parts:
  assumes "resolve_approval_chain grp req policy gw = Inr specs"
  obtains L M A where
    "L = steps_from gw policy req 0 (chain_leaders gw grp)" "A = admin_terminator gw policy grp (length L)"
    "specs = M @ A \<or> specs = reindex (M @ A)" "map ss_idx specs = [0..<length specs]"
    "\<exists>s \<in> set specs. ss_step_status s = STEP_PENDING"
    "max_approval_levels policy = None \<longrightarrow> M = L"
    "\<forall>k. max_approval_levels policy = Some (int k) \<longrightarrow> M = cap_steps (int k) L"
    "set M \<subseteq> set L" "distinct (map ss_approver_member L) \<longrightarrow> distinct (map ss_approver_member M)"
    "\<forall>s \<in> set L. ss_approver_level s \<noteq> LEVEL_BRANCH_ADMIN"
    "\<forall>s \<in> set A. ss_approver_level s = LEVEL_BRANCH_ADMIN"
proof -
  obtain L A where L: "L = steps_from gw policy req 0 (chain_leaders gw grp)"
    and A: "A = admin_terminator gw policy grp (length L)" and specs: "specs = apply_depth_cap policy (L @ A)"
    and pend: "\<exists>s \<in> set specs. ss_step_status s = STEP_PENDING"
    using assms by (rule resolve_split)
  have lv: "\<And>s. s \<in> set L \<Longrightarrow> ss_approver_level s \<noteq> LEVEL_BRANCH_ADMIN"
    "\<And>s. s \<in> set A \<Longrightarrow> ss_approver_level s = LEVEL_BRANCH_ADMIN"
    using steps_from_level admin_terminator_step unfolding L A by blast+
  show thesis
  proof (cases "\<exists>k. max_approval_levels policy = Some (int k)")
    case True
    then obtain k where k: "max_approval_levels policy = Some (int k)" by blast
    have new: "specs = reindex (cap_steps (int k) L @ A)" unfolding specs by (rule cap_split [OF lv k])
    show thesis
    proof (rule that [OF L A, of "cap_steps (int k) L"])
      show "map ss_idx specs = [0..<length specs]" by (simp add: new reindex_idx)
    qed (use new pend lv k cap_steps_subset distinct_cap_members in simp_all)
  next
    case False
    have idx: "map ss_idx (L @ A) = [0..<length (L @ A)]"
      unfolding L A map_append steps_from_idx admin_terminator_idx
      using upt_add_eq_append [of 0 "length (chain_leaders gw grp)"] by simp
    have new: "specs = L @ A" unfolding specs
      using False by (auto simp: apply_depth_cap_def split: option.splits dest: zero_le_imp_eq_int)
    show thesis
      by (rule that [OF L A, of L]) (use new pend lv idx False in simp_all)
  qed
qed

text \<open>Renumbering aside, the steps below the Branch Admin level are \<open>M\<close>.\<close>

lemma leader_part:
  assumes "specs = M @ A \<or> specs = reindex (M @ A)"
    and "\<And>s. s \<in> set M \<Longrightarrow> ss_approver_level s \<noteq> LEVEL_BRANCH_ADMIN"
    and "\<And>s. s \<in> set A \<Longrightarrow> ss_approver_level s = LEVEL_BRANCH_ADMIN"
  shows "map ss_approver_member (filter (\<lambda>s. Q (ss_step_status s))
      (filter (\<lambda>s. ss_approver_level s \<noteq> LEVEL_BRANCH_ADMIN) specs))
    = map ss_approver_member (filter (\<lambda>s. Q (ss_step_status s)) M)"
proof -
  have "filter (\<lambda>s. ss_approver_level s \<noteq> LEVEL_BRANCH_ADMIN) (M @ A) = M"
    using assms(2,3) by (auto simp: filter_empty_conv filter_id_conv)
  then have "filter (\<lambda>s. Q (ss_step_status s) \<and> ss_approver_level s \<noteq> LEVEL_BRANCH_ADMIN) (M @ A)
      = filter (\<lambda>s. Q (ss_step_status s)) M"
    by (metis (no_types, lifting) filter_filter filter_cong)
  then show ?thesis
    using assms(1) by (auto simp: filter_filter filter_reindex_map conj_commute simp del: filter_append)
qed

lemma leader_step_origin:
  assumes "s \<in> set (steps_from gw policy req 0 (chain_leaders gw grp))"
  shows "\<exists>n \<in> set (cg_chain_nodes gw grp). \<exists>l \<in> set (cn_leaders n).
      ss_approver_group s = Some (cn_group n) \<and> ss_approver_member s = Some l"
proof -
  from assms obtain j lv' g l where "j < length (chain_leaders gw grp)" "chain_leaders gw grp ! j = (lv', g, l)"
    and sd: "s = leader_step gw policy req lv' g l j" unfolding steps_from_set by auto
  then have "(lv', g, l) \<in> set (candidates 0 (cg_chain_nodes gw grp))"
    unfolding chain_leaders_def by (metis dedup_on_subset nth_mem subsetD)
  then show ?thesis using candidates_lead sd by force
qed

lemma distinct_leader_members:
  "distinct (map ss_approver_member (steps_from gw policy req i (chain_leaders gw grp)))"
proof -
  have "distinct (map cand_leader (chain_leaders gw grp))" by (simp add: chain_leaders_def)
  then show ?thesis unfolding steps_from_members by (simp add: distinct_map comp_def inj_on_def)
qed

text \<open>The approvers of the leader steps with or without the skipped ones, from the path.\<close>

lemma members_by_status:
  assumes "L = steps_from gw policy req 0 (chain_leaders gw grp)"
  shows "map ss_approver_member (filter (\<lambda>s. Q (ss_step_status s = STEP_SKIPPED)) L)
    = map Some (filter (\<lambda>m. Q (m = req \<and> \<not> allow_self_approval policy))
        (dedup (filter (\<lambda>l. l \<noteq> []) (concat (map cn_leaders (cg_chain_nodes gw grp))))))"
proof -
  let ?skip = "\<lambda>m. m = req \<and> \<not> allow_self_approval policy"
  have "ss_step_status s = STEP_SKIPPED \<longleftrightarrow> ?skip (the (ss_approver_member s))" if "s \<in> set L" for s
    using that unfolding assms steps_from_set by (auto simp: STEP_SKIPPED_def STEP_PENDING_def split: if_splits)
  then have "filter (\<lambda>s. Q (ss_step_status s = STEP_SKIPPED)) L = filter ((\<lambda>m. Q (?skip (the m))) o ss_approver_member) L"
    by (intro filter_cong) auto
  then have "map ss_approver_member (filter (\<lambda>s. Q (ss_step_status s = STEP_SKIPPED)) L)
      = filter (\<lambda>m. Q (?skip (the m))) (map ss_approver_member L)"
    by (simp add: filter_map)
  also have "map ss_approver_member L
      = map Some (dedup (filter (\<lambda>l. l \<noteq> []) (concat (map cn_leaders (cg_chain_nodes gw grp)))))"
    unfolding assms steps_from_members chain_leaders_members [symmetric] by simp
  finally show ?thesis by (simp add: filter_map comp_def)
qed

text \<open>C13. The resolved chain, nearest leader first: without a depth cap the leader steps are
  exactly the distinct non-empty leaders on the path in path order; with a cap \<open>k\<close> all
  skipped steps stay and, of the others, exactly the first \<open>k\<close>.\<close>
theorem chain_nearest_first:
  assumes "resolve_approval_chain grp req policy gw = Inr specs"
  defines "leads \<equiv> filter (\<lambda>s. ss_approver_level s \<noteq> LEVEL_BRANCH_ADMIN) specs"
    and "path \<equiv> dedup (filter (\<lambda>l. l \<noteq> []) (concat (map cn_leaders (cg_chain_nodes gw grp))))"
    and "skip \<equiv> (\<lambda>m. m = req \<and> \<not> allow_self_approval policy)"
  shows "(max_approval_levels policy = None \<longrightarrow> map ss_approver_member leads = map Some path)
    \<and> (\<forall>k. max_approval_levels policy = Some (int k) \<longrightarrow>
        map ss_approver_member (filter (\<lambda>s. ss_step_status s = STEP_SKIPPED) leads)
          = map Some (filter skip path)
      \<and> map ss_approver_member (filter (\<lambda>s. ss_step_status s \<noteq> STEP_SKIPPED) leads)
          = map Some (take k (filter (\<lambda>m. \<not> skip m) path)))"
proof -
  obtain L M A where L: "L = steps_from gw policy req 0 (chain_leaders gw grp)" "A = admin_terminator gw policy grp (length L)"
    and spM: "specs = M @ A \<or> specs = reindex (M @ A)"
    and "map ss_idx specs = [0..<length specs]" "\<exists>s \<in> set specs. ss_step_status s = STEP_PENDING"
    and nocap: "max_approval_levels policy = None \<longrightarrow> M = L"
    and cap: "\<forall>k. max_approval_levels policy = Some (int k) \<longrightarrow> M = cap_steps (int k) L" and M: "set M \<subseteq> set L"
      "distinct (map ss_approver_member L) \<longrightarrow> distinct (map ss_approver_member M)"
    and lv: "\<forall>s \<in> set L. ss_approver_level s \<noteq> LEVEL_BRANCH_ADMIN"
      "\<forall>s \<in> set A. ss_approver_level s = LEVEL_BRANCH_ADMIN"
    using assms(1) by (rule resolved_parts)
  have leads: "map ss_approver_member (filter (\<lambda>s. Q (ss_step_status s = STEP_SKIPPED)) leads)
      = map ss_approver_member (filter (\<lambda>s. Q (ss_step_status s = STEP_SKIPPED)) M)" for Q
    unfolding leads_def using leader_part [OF spM, of "\<lambda>x. Q (x = STEP_SKIPPED)"] M lv by blast
  note members = members_by_status [OF L(1), folded path_def skip_def]
  have "map ss_approver_member (filter (\<lambda>s. ss_step_status s = STEP_SKIPPED) leads) = map Some (filter skip path)
      \<and> map ss_approver_member (filter (\<lambda>s. ss_step_status s \<noteq> STEP_SKIPPED) leads)
          = map Some (take k (filter (\<lambda>m. \<not> skip m) path))"
    if "max_approval_levels policy = Some (int k)" for k
    using leads [of "\<lambda>b. b"] leads [of Not] members [of "\<lambda>b. b"] members [of Not]
    by (simp add: cap [rule_format, OF that] cap_steps_skipped cap_steps_pending take_map [symmetric] skip_def)
  moreover have "map ss_approver_member leads = map Some path" if "max_approval_levels policy = None"
    using leads [of "\<lambda>_. True"] members [of "\<lambda>_. True"] by (simp add: nocap [rule_format, OF that])
  ultimately show ?thesis by blast
qed

definition demo_chain_gw :: chain_gateway where
  "demo_chain_gw = \<lparr>cg_chain_nodes = (\<lambda>_. [\<lparr>cn_group = ''G2'', cn_leaders = [''M1'', ''M2'']\<rparr>,
       \<lparr>cn_group = ''G1'', cn_leaders = [''M2'', ''M3'']\<rparr>, \<lparr>cn_group = ''G0'', cn_leaders = [''M4'']\<rparr>]),
     cg_user_for_member = (\<lambda>m. Some m), cg_group_branch = (\<lambda>_. Some ''B''),
     cg_branch_admin_member = (\<lambda>_. Some ''A1''), cg_branch_admin_user = (\<lambda>_. Some ''admin'')\<rparr>"

lemma chain_nearest_first_witness:
  "\<exists>specs. resolve_approval_chain ''G2'' ''M1'' (DEFAULT_POLICY \<lparr>max_approval_levels := Some (int 2)\<rparr>) demo_chain_gw
      = Inr specs
    \<and> map ss_approver_member (filter (\<lambda>s. ss_step_status s \<noteq> STEP_SKIPPED)
        (filter (\<lambda>s. ss_approver_level s \<noteq> LEVEL_BRANCH_ADMIN) specs)) = [Some ''M2'', Some ''M3'']"
proof -
  let ?pol = "DEFAULT_POLICY \<lparr>max_approval_levels := Some (int 2)\<rparr>"
  have "is_ok (resolve_approval_chain ''G2'' ''M1'' ?pol demo_chain_gw)" by code_simp
  then obtain specs where r: "resolve_approval_chain ''G2'' ''M1'' ?pol demo_chain_gw = Inr specs"
    by (auto simp: is_ok_iff)
  have "dedup (filter (\<lambda>l. l \<noteq> []) (concat (map cn_leaders (cg_chain_nodes demo_chain_gw ''G2''))))
      = [''M1'', ''M2'', ''M3'', ''M4'']" by code_simp
  then show ?thesis using chain_nearest_first [OF r] r
    by (simp add: DEFAULT_POLICY_def)
qed

text \<open>C9. Every resolved chain is usable: steps are numbered from 0 without gaps, at least one
  is pending, leader steps carry distinct approvers who lead the step's group on the path,
  and when the policy wants a Branch Admin and the branch has one, the last step is the
  pending Branch Admin step, whatever the cap.\<close>
theorem chain_well_formed:
  assumes "resolve_approval_chain grp req policy gw = Inr specs"
  shows "map ss_idx specs = [0..<length specs]
    \<and> (\<exists>s \<in> set specs. ss_step_status s = STEP_PENDING)
    \<and> distinct (map ss_approver_member (filter (\<lambda>s. ss_approver_level s \<noteq> LEVEL_BRANCH_ADMIN) specs))
    \<and> (\<forall>s \<in> set specs. ss_approver_level s \<noteq> LEVEL_BRANCH_ADMIN \<longrightarrow>
        (\<exists>n \<in> set (cg_chain_nodes gw grp). \<exists>l \<in> set (cn_leaders n).
           ss_approver_group s = Some (cn_group n) \<and> ss_approver_member s = Some l))
    \<and> (\<forall>b m. require_branch_admin_final policy \<longrightarrow> cg_group_branch gw grp = Some b \<longrightarrow> b \<noteq> [] \<longrightarrow>
        cg_branch_admin_member gw b = Some m \<longrightarrow> m \<noteq> [] \<longrightarrow>
        ss_approver_level (last specs) = LEVEL_BRANCH_ADMIN
        \<and> ss_approver_member (last specs) = Some m \<and> ss_step_status (last specs) = STEP_PENDING)"
proof -
  obtain L M A where L: "L = steps_from gw policy req 0 (chain_leaders gw grp)"
    and A: "A = admin_terminator gw policy grp (length L)" and spM: "specs = M @ A \<or> specs = reindex (M @ A)"
    and idx: "map ss_idx specs = [0..<length specs]" and pend: "\<exists>s \<in> set specs. ss_step_status s = STEP_PENDING"
    and "max_approval_levels policy = None \<longrightarrow> M = L"
      "\<forall>k. max_approval_levels policy = Some (int k) \<longrightarrow> M = cap_steps (int k) L"
    and M: "set M \<subseteq> set L" "distinct (map ss_approver_member L) \<longrightarrow> distinct (map ss_approver_member M)"
    and lv: "\<forall>s \<in> set L. ss_approver_level s \<noteq> LEVEL_BRANCH_ADMIN"
      "\<forall>s \<in> set A. ss_approver_level s = LEVEL_BRANCH_ADMIN"
    using assms by (rule resolved_parts)
  define view where "view s = (ss_approver_level s, ss_approver_group s, ss_approver_member s)" for s :: step_spec
  have "map view specs = map view (M @ A)"
    using spM reindex_map [of view "M @ A"] by (auto simp: view_def)
  then have "set (map view specs) = set (map view (M @ A))" by (simp only:)
  then have views: "view ` set specs = view ` set (M @ A)" by (simp only: set_map)
  have dist: "distinct (map ss_approver_member (filter (\<lambda>s. ss_approver_level s \<noteq> LEVEL_BRANCH_ADMIN) specs))"
    using leader_part [OF spM, of "\<lambda>_. True"] M distinct_leader_members lv unfolding L by (simp add: subset_iff)
  have lead: "\<exists>n \<in> set (cg_chain_nodes gw grp). \<exists>l \<in> set (cn_leaders n).
      ss_approver_group s = Some (cn_group n) \<and> ss_approver_member s = Some l"
    if s: "s \<in> set specs" "ss_approver_level s \<noteq> LEVEL_BRANCH_ADMIN" for s
  proof -
    have "view s \<in> view ` set (M @ A)" unfolding views [symmetric] using s(1) by (rule imageI)
    then obtain t where t: "view s = view t" "t \<in> set (M @ A)" by (rule imageE)
    then have "t \<in> set L" using lv(2) s(2) M(1) by (auto simp: view_def)
    then show ?thesis using leader_step_origin [of t gw policy req grp] t(1) by (simp add: L view_def)
  qed
  have last: "ss_approver_level (last specs) = LEVEL_BRANCH_ADMIN \<and> ss_approver_member (last specs) = Some m
      \<and> ss_step_status (last specs) = STEP_PENDING"
    if adm: "require_branch_admin_final policy" "cg_group_branch gw grp = Some b" "b \<noteq> []"
      "cg_branch_admin_member gw b = Some m" "m \<noteq> []" for b m
  proof -
    obtain a where "A = [a]" "ss_approver_level a = LEVEL_BRANCH_ADMIN" "ss_approver_member a = Some m"
      "ss_step_status a = STEP_PENDING"
      unfolding A using adm by (simp add: admin_terminator_def)
    then show ?thesis using spM by (auto simp: reindex_snoc)
  qed
  show ?thesis using idx pend dist lead last by blast
qed

lemma chain_well_formed_witness:
  "\<exists>specs. resolve_approval_chain ''G2'' ''M1'' DEFAULT_POLICY demo_chain_gw = Inr specs
    \<and> map ss_idx specs = [0..<length specs] \<and> ss_approver_member (last specs) = Some ''A1''"
proof -
  have "is_ok (resolve_approval_chain ''G2'' ''M1'' DEFAULT_POLICY demo_chain_gw)" by code_simp
  then obtain specs where r: "resolve_approval_chain ''G2'' ''M1'' DEFAULT_POLICY demo_chain_gw = Inr specs"
    by (auto simp: is_ok_iff)
  from chain_well_formed [OF this] show ?thesis
    using r by (simp add: DEFAULT_POLICY_def demo_chain_gw_def)
qed

text \<open>Self-approval is only excluded on leader steps: with self-approval switched off, a
  requester who is the Branch Admin of the branch still gets the pending final step of the
  own request.\<close>
theorem branch_admin_requester_not_skipped:
  "\<exists>specs s. resolve_approval_chain ''G2'' ''A1'' DEFAULT_POLICY demo_chain_gw = Inr specs
    \<and> s \<in> set specs \<and> ss_approver_member s = Some ''A1'' \<and> ss_step_status s = STEP_PENDING
    \<and> \<not> allow_self_approval DEFAULT_POLICY"
proof -
  let ?r = "resolve_approval_chain ''G2'' ''A1'' DEFAULT_POLICY demo_chain_gw"
  have "case ?r of Inl e \<Rightarrow> False | Inr specs \<Rightarrow>
      list_ex (\<lambda>s. ss_approver_member s = Some ''A1'' \<and> ss_step_status s = STEP_PENDING) specs"
    by code_simp
  then obtain specs where "?r = Inr specs"
    "\<exists>s \<in> set specs. ss_approver_member s = Some ''A1'' \<and> ss_step_status s = STEP_PENDING"
    by (auto simp: list_ex_iff split: sum.splits)
  then show ?thesis by (auto simp: DEFAULT_POLICY_def)
qed

text \<open>\<open>current_step_index\<close> returns the least pending index at or after the stored step,
  and nothing exactly when no pending step is left from there on.\<close>
theorem current_step_index_least:
  "(\<forall>j. current_step_index steps k = Some j \<longleftrightarrow>
      k \<le> j \<and> j < length steps \<and> steps ! j = STEP_PENDING
      \<and> (\<forall>i. k \<le> i \<longrightarrow> i < j \<longrightarrow> steps ! i \<noteq> STEP_PENDING))
   \<and> (current_step_index steps k = None \<longleftrightarrow> (\<forall>i < length steps. k \<le> i \<longrightarrow> steps ! i \<noteq> STEP_PENDING))"
proof -
  have "STEP_PENDING \<notin> set (drop k steps) \<longleftrightarrow> (\<forall>i < length steps. k \<le> i \<longrightarrow> steps ! i \<noteq> STEP_PENDING)"
    by (auto simp: in_set_conv_nth) (metis add_diff_inverse_nat diff_less_mono not_less)
  then show ?thesis by (simp add: current_step_index_spec current_step_index_None)
qed

text \<open>The status catalog calls Rejected and Withdrawn terminal (``no further transition
  is allowed''), yet the transition table lets both return to Draft.\<close>
theorem terminal_statuses_reopen:
  "{s. is_terminal_approval_status s \<and> (\<exists>t. t \<noteq> s \<and> is_valid_approval_transition (Some s) t)}
     = {APPROVAL_REJECTED, APPROVAL_WITHDRAWN}"
proof -
  have "(\<exists>t. t \<noteq> s \<and> is_valid_approval_transition (Some s) t) \<longleftrightarrow>
      (\<exists>t \<in> set (table_get APPROVAL_TRANSITIONS s). t \<noteq> s \<and> t \<in> set APPROVAL_STATUSES)" for s
    by (auto simp: is_valid_approval_transition_def)
  then have "(\<exists>t. t \<noteq> s \<and> is_valid_approval_transition (Some s) t) \<longleftrightarrow>
      list_ex (\<lambda>t. t \<noteq> s \<and> t \<in> set APPROVAL_STATUSES) (table_get APPROVAL_TRANSITIONS s)" for s
    by (auto simp: list_ex_iff)
  moreover have "list_ex (\<lambda>t. t \<noteq> APPROVAL_REJECTED \<and> t \<in> set APPROVAL_STATUSES)
      (table_get APPROVAL_TRANSITIONS APPROVAL_REJECTED)"
    "list_ex (\<lambda>t. t \<noteq> APPROVAL_WITHDRAWN \<and> t \<in> set APPROVAL_STATUSES)
      (table_get APPROVAL_TRANSITIONS APPROVAL_WITHDRAWN)"
    by code_simp+
  ultimately show ?thesis
    by (auto simp: is_terminal_approval_status_def TERMINAL_APPROVAL_STATUSES_def approval_table)
qed

end
