(* ===== verification/Approval_Doc.thy ===== *)
theory Approval_Doc
  imports Approvals
begin

text \<open>
  Model of \<open>doctype/flock_event_approval/flock_event_approval.py\<close>: the validate hook of
  \<open>Flock Event Approval\<close>, the chain gateway adapter, the policy mapper and the
  five endpoints which drive a request (submit, approve, reject, withdraw, cancel).

  The database part a request can change is the record \<open>approval_db\<close>: the approval
  documents, the gathering fields the endpoints write back, and the events emitted.  All
  other reads (roles, groups, members, policies) are the record \<open>approval_env\<close>.  An
  endpoint either raises, and the framework rolls the request back, or returns the new
  database.
\<close>

section \<open>State\<close>

record approval_step =
  as_level :: string
  as_member :: "docname option"
  as_user :: "string option"
  as_group :: "docname option"
  as_status :: string
  as_decided_by :: "string option"
  as_decided_at :: "string option"
  as_comment :: string

record approval_doc =
  ad_name :: docname
  ad_gathering :: docname
  ad_branch :: docname
  ad_group :: docname
  ad_organization :: "string option"
  ad_requested_by :: docname
  ad_status :: string
  ad_policy :: "string option"
  ad_steps :: "approval_step list"
  ad_current_step :: nat
  ad_auto_approved :: bool
  ad_proposed_scope :: "string option"
  ad_requested_at :: "string option"
  ad_timeout_hours :: "int option"
  ad_rejection_reason :: "string option"
  ad_final_by :: "string option"
  ad_final_at :: "string option"

record gathering_row =
  ga_branch :: "docname option"
  ga_group :: "docname option"
  ga_capacity :: "int option"
  ga_approval_status :: "string option"
  ga_approval_request :: "docname option"
  ga_registration_scope :: "string option"

datatype approval_event =
    Approval_Requested docname
  | Step_Approved docname nat string
  | Approval_Approved docname bool
  | Step_Rejected docname nat string
  | Approval_Rejected docname string
  | Registration_Opened docname docname string

record approval_db =
  db_approvals :: "(docname \<times> approval_doc) list"
  db_gatherings :: "(docname \<times> gathering_row) list"
  db_events :: "approval_event list"

record policy_row =
  pr_require_branch_admin_final :: "int option"
  pr_max_approval_levels :: "int option"
  pr_allow_self_approval :: "int option"
  pr_auto_approve_below_capacity :: "int option"
  pr_approval_timeout_hours :: "int option"
  pr_default_registration_scope :: "string option"
  pr_enable_waitlist :: "int option"

record approval_env =
  en_branch_org :: "docname \<Rightarrow> string option"
  en_group_branch :: "docname \<Rightarrow> docname option"
  en_group_leader :: "docname \<Rightarrow> docname option"
  en_on_roster :: "docname \<Rightarrow> docname \<Rightarrow> bool"
  en_member_of_user :: "string \<Rightarrow> docname option"
  en_user_roles :: "string \<Rightarrow> string set"
  en_policy_row :: "string \<Rightarrow> policy_row option"
  en_chain :: chain_gateway
  en_perm :: permission_gateway
  en_now :: string

datatype approval_action_error =
    Approval_Not_Found docname
  | Approval_Branch_Required
  | Approval_Group_Without_Branch
  | Approval_Branch_Mismatch
  | Approval_Gathering_Mismatch
  | Approval_State_Error approval_error
  | Approval_Requester_Not_Leader docname docname
  | Approval_Fields_Required
  | Approval_Permission string
  | Approval_Not_Pending string
  | Approval_No_Pending_Step
  | Approval_Guard_Error permission_error
  | Approval_Reason_Required
  | Approval_Cannot_Withdraw string

definition lift_approval :: "approval_error + 'a \<Rightarrow> approval_action_error + 'a" where
  "lift_approval r = (case r of Inl e \<Rightarrow> Inl (Approval_State_Error e) | Inr a \<Rightarrow> Inr a)"

section \<open>The validate hook\<close>

definition approval_tenant_floor :: "approval_env \<Rightarrow> approval_doc \<Rightarrow> approval_doc" where
  "approval_tenant_floor env doc =
    (if truthy (ad_organization doc) then doc
     else if ad_branch doc \<noteq> [] \<and> truthy (en_branch_org env (ad_branch doc))
     then doc \<lparr>ad_organization := en_branch_org env (ad_branch doc)\<rparr>
     else doc)"

definition validate_branch_group_binding ::
  "approval_env \<Rightarrow> (docname \<times> gathering_row) list \<Rightarrow> approval_doc \<Rightarrow> approval_action_error + unit" where
  "validate_branch_group_binding env gatherings doc =
    (let group_branch = (if ad_group doc \<noteq> [] then en_group_branch env (ad_group doc) else None)
     in if ad_branch doc = [] then Inl Approval_Branch_Required
        else case group_branch of
          None \<Rightarrow> Inl Approval_Group_Without_Branch
        | Some gb \<Rightarrow>
            if gb \<noteq> ad_branch doc then Inl Approval_Branch_Mismatch
            else (case map_of gatherings (ad_gathering doc) of
                None \<Rightarrow> Inr ()
              | Some g \<Rightarrow>
                  if truthy (ga_branch g)
                     \<and> (ga_branch g \<noteq> Some (ad_branch doc) \<or> ga_group g \<noteq> Some (ad_group doc))
                  then Inl Approval_Gathering_Mismatch else Inr ()))"

definition validate_requested_by_leads_group ::
  "approval_env \<Rightarrow> approval_doc \<Rightarrow> approval_action_error + unit" where
  "validate_requested_by_leads_group env doc =
    (if ad_requested_by doc = [] \<or> ad_group doc = [] then Inl Approval_Fields_Required
     else if Some (ad_requested_by doc) \<noteq> en_group_leader env (ad_group doc)
          \<and> \<not> en_on_roster env (ad_group doc) (ad_requested_by doc)
     then Inl (Approval_Requester_Not_Leader (ad_requested_by doc) (ad_group doc))
     else Inr ())"

definition validate_approval ::
  "approval_env \<Rightarrow> approval_db \<Rightarrow> approval_doc \<Rightarrow> approval_action_error + approval_doc" where
  "validate_approval env db doc0 =
    (let doc = approval_tenant_floor env doc0;
         before = map_option ad_status (map_of (db_approvals db) (ad_name doc))
     in res_bind (validate_branch_group_binding env (db_gatherings db) doc) (\<lambda>_.
        res_bind (lift_approval (validate_approval_transition before (ad_status doc))) (\<lambda>_.
        res_bind (validate_requested_by_leads_group env doc) (\<lambda>_. Inr doc))))"

definition save_approval ::
  "approval_env \<Rightarrow> approval_db \<Rightarrow> approval_doc \<Rightarrow> approval_action_error + approval_db" where
  "save_approval env db doc =
     res_bind (validate_approval env db doc) (\<lambda>d.
     Inr (db \<lparr>db_approvals := AList.update (ad_name d) d (db_approvals db)\<rparr>))"

section \<open>Gateway adapter and policy\<close>

text \<open>\<open>chain_nodes_for_group\<close> over the path rows (group, accountable leader) of the
  traversal service and the leadership roster of each group.\<close>

definition node_leaders :: "docname option \<Rightarrow> docname list \<Rightarrow> docname list" where
  "node_leaders accountable roster =
    (let start = (if truthy accountable then [the accountable] else [])
     in fold (\<lambda>m ls. if m \<noteq> [] \<and> m \<notin> set ls then ls @ [m] else ls) roster start)"

fun chain_nodes :: "(docname \<Rightarrow> docname list) \<Rightarrow> (docname \<times> docname option) list \<Rightarrow> chain_node list" where
  "chain_nodes roster [] = []"
| "chain_nodes roster ((g, leader) # rows) =
    (if g = [] then chain_nodes roster rows
     else let leaders = node_leaders leader (roster g)
          in if leaders \<noteq> [] then \<lparr>cn_group = g, cn_leaders = leaders\<rparr> # chain_nodes roster rows
             else chain_nodes roster rows)"

definition int_truthy :: "int option \<Rightarrow> bool" where
  "int_truthy v = (case v of None \<Rightarrow> False | Some i \<Rightarrow> i \<noteq> 0)"

definition approval_policy_from_row :: "approval_env \<Rightarrow> string option \<Rightarrow> approval_policy" where
  "approval_policy_from_row env policy_name =
    (if \<not> truthy policy_name then DEFAULT_POLICY
     else case en_policy_row env (the policy_name) of
       None \<Rightarrow> \<lparr>require_branch_admin_final = True, max_approval_levels = None,
         allow_self_approval = False, auto_approve_below_capacity = None,
         approval_timeout_hours = None, default_registration_scope = None, enable_waitlist = True\<rparr>
     | Some row \<Rightarrow> \<lparr>require_branch_admin_final = int_truthy (pr_require_branch_admin_final row),
         max_approval_levels = pr_max_approval_levels row,
         allow_self_approval = int_truthy (pr_allow_self_approval row),
         auto_approve_below_capacity = pr_auto_approve_below_capacity row,
         approval_timeout_hours = pr_approval_timeout_hours row,
         default_registration_scope =
           (if truthy (pr_default_registration_scope row) then pr_default_registration_scope row else None),
         enable_waitlist = int_truthy (pr_enable_waitlist row)\<rparr>)"

definition materialize_steps :: "step_spec list \<Rightarrow> approval_step list" where
  "materialize_steps specs = map (\<lambda>s. \<lparr>as_level = ss_approver_level s, as_member = ss_approver_member s,
     as_user = ss_approver_user s, as_group = ss_approver_group s, as_status = ss_step_status s,
     as_decided_by = None, as_decided_at = None, as_comment = []\<rparr>) specs"

definition step_view_of :: "approval_doc \<Rightarrow> nat \<Rightarrow> step_view" where
  "step_view_of doc i = (let s = ad_steps doc ! i in
     \<lparr>sv_idx = i, sv_approver_level = as_level s, sv_approver_member = as_member s,
      sv_approver_user = as_user s, sv_approver_group = as_group s, sv_step_status = as_status s,
      sv_doc_branch = Some (ad_branch doc), sv_doc_group = Some (ad_group doc)\<rparr>)"

section \<open>Write-backs\<close>

definition update_gathering ::
  "docname \<Rightarrow> (gathering_row \<Rightarrow> gathering_row) \<Rightarrow> approval_db \<Rightarrow> approval_db" where
  "update_gathering g f db = db \<lparr>db_gatherings :=
     map (\<lambda>(n, r). if n = g then (n, f r) else (n, r)) (db_gatherings db)\<rparr>"

definition sync_gathering_status :: "approval_doc \<Rightarrow> string \<Rightarrow> approval_db \<Rightarrow> approval_db" where
  "sync_gathering_status doc st = update_gathering (ad_gathering doc)
     (\<lambda>g. g \<lparr>ga_approval_status := Some st, ga_approval_request := Some (ad_name doc)\<rparr>)"

definition emit_event :: "approval_event \<Rightarrow> approval_db \<Rightarrow> approval_db" where
  "emit_event e db = db \<lparr>db_events := db_events db @ [e]\<rparr>"

definition confirmed_scope :: "approval_doc \<Rightarrow> string" where
  "confirmed_scope doc =
     (if truthy (ad_proposed_scope doc) then the (ad_proposed_scope doc) else ''None'')"

definition open_registration_on_final_approval :: "approval_doc \<Rightarrow> approval_db \<Rightarrow> approval_db" where
  "open_registration_on_final_approval doc db =
     emit_event (Registration_Opened (ad_name doc) (ad_gathering doc) (confirmed_scope doc))
       (update_gathering (ad_gathering doc)
          (\<lambda>g. g \<lparr>ga_registration_scope := Some (confirmed_scope doc)\<rparr>) db)"

definition get_approval :: "approval_db \<Rightarrow> docname \<Rightarrow> approval_action_error + approval_doc" where
  "get_approval db i = (case map_of (db_approvals db) i of
     None \<Rightarrow> Inl (Approval_Not_Found i) | Some d \<Rightarrow> Inr d)"

definition step_statuses :: "approval_doc \<Rightarrow> string list" where
  "step_statuses doc = map as_status (ad_steps doc)"

section \<open>The endpoints\<close>

definition preview_approval_chain ::
  "approval_env \<Rightarrow> string \<Rightarrow> docname \<Rightarrow> string option \<Rightarrow> approval_action_error + step_spec list" where
  "preview_approval_chain env user grp requested_by =
    (if grp = [] then Inl Approval_Fields_Required
     else let req = (if truthy requested_by then requested_by else en_member_of_user env user)
          in lift_approval (resolve_approval_chain grp (or_empty req) DEFAULT_POLICY (en_chain env)))"

definition gathering_capacity :: "approval_db \<Rightarrow> docname \<Rightarrow> int option" where
  "gathering_capacity db g = (case map_of (db_gatherings db) g of None \<Rightarrow> None | Some r \<Rightarrow> ga_capacity r)"

definition finalize_doc :: "approval_env \<Rightarrow> string \<Rightarrow> approval_doc \<Rightarrow> approval_doc" where
  "finalize_doc env user doc = doc \<lparr>ad_final_by := Some user, ad_final_at := Some (en_now env)\<rparr>"

text \<open>The three forms of the document \<open>submit_for_approval\<close> builds: with the timeout and
  the request time, auto-approved, and pending with its materialized chain.\<close>

definition stamp_submission :: "approval_env \<Rightarrow> approval_policy \<Rightarrow> approval_doc \<Rightarrow> approval_doc" where
  "stamp_submission env policy doc =
    (if approval_timeout_hours policy \<noteq> None
     then doc \<lparr>ad_timeout_hours := approval_timeout_hours policy\<rparr> else doc)
    \<lparr>ad_requested_at := Some (en_now env)\<rparr>"

definition auto_approved_doc :: "approval_env \<Rightarrow> string \<Rightarrow> approval_doc \<Rightarrow> approval_doc" where
  "auto_approved_doc env user doc =
     finalize_doc env user (doc \<lparr>ad_status := APPROVAL_APPROVED, ad_auto_approved := True\<rparr>)"

definition pending_doc :: "step_spec list \<Rightarrow> approval_doc \<Rightarrow> approval_doc" where
  "pending_doc specs doc = doc \<lparr>ad_steps := materialize_steps specs, ad_status := APPROVAL_PENDING,
     ad_current_step := (case current_step_index (map ss_step_status specs) 0 of None \<Rightarrow> 0 | Some i \<Rightarrow> i)\<rparr>"

definition submit_for_approval ::
  "approval_env \<Rightarrow> approval_db \<Rightarrow> string \<Rightarrow> docname \<Rightarrow> approval_action_error + approval_db" where
  "submit_for_approval env db user approval_id =
    res_bind (get_approval db approval_id) (\<lambda>doc.
    if Some (ad_requested_by doc) \<noteq> en_member_of_user env user then Inl (Approval_Permission user)
    else let policy = approval_policy_from_row env (ad_policy doc);
             doc1 = stamp_submission env policy doc
         in if is_auto_approved (gathering_capacity db (ad_gathering doc1)) policy then
              res_bind (lift_approval (validate_approval_transition (Some (ad_status doc1)) APPROVAL_APPROVED)) (\<lambda>_.
              let doc2 = auto_approved_doc env user doc1
              in res_bind (save_approval env db doc2) (\<lambda>db1.
                 Inr (emit_event (Approval_Approved approval_id True)
                       (open_registration_on_final_approval doc2
                         (sync_gathering_status doc2 APPROVAL_APPROVED db1)))))
            else
              res_bind (lift_approval (validate_approval_transition (Some (ad_status doc1)) APPROVAL_PENDING)) (\<lambda>_.
              res_bind (lift_approval (resolve_approval_chain (ad_group doc1) (ad_requested_by doc1) policy (en_chain env)))
                (\<lambda>specs.
              let doc2 = pending_doc specs doc1
              in res_bind (save_approval env db doc2) (\<lambda>db1.
                 Inr (emit_event (Approval_Requested approval_id)
                       (sync_gathering_status doc2 APPROVAL_PENDING db1))))))"

definition decide_current_step ::
  "approval_env \<Rightarrow> approval_db \<Rightarrow> string \<Rightarrow> docname \<Rightarrow> approval_action_error + approval_doc" where
  "decide_current_step env db user approval_id =
    res_bind (get_approval db approval_id) (\<lambda>doc.
    if ad_status doc \<noteq> APPROVAL_PENDING then Inl (Approval_Not_Pending (ad_status doc))
    else case current_step_index (step_statuses doc) (ad_current_step doc) of
      None \<Rightarrow> Inl Approval_No_Pending_Step
    | Some i \<Rightarrow>
        (case assert_approval_scope (en_perm env) (step_view_of doc i) user of
           Inl e \<Rightarrow> Inl (Approval_Guard_Error e)
         | Inr _ \<Rightarrow> Inr doc))"

definition decide_step ::
  "approval_env \<Rightarrow> string \<Rightarrow> string \<Rightarrow> string \<Rightarrow> nat \<Rightarrow> approval_doc \<Rightarrow> approval_doc" where
  "decide_step env user st comment i doc = doc \<lparr>ad_steps := (ad_steps doc)
     [i := (ad_steps doc ! i) \<lparr>as_status := st, as_decided_by := Some user,
            as_decided_at := Some (en_now env), as_comment := comment\<rparr>]\<rparr>"

definition current_or_zero :: "approval_doc \<Rightarrow> nat" where
  "current_or_zero doc = (case current_step_index (step_statuses doc) (ad_current_step doc) of
     None \<Rightarrow> 0 | Some i \<Rightarrow> i)"

definition approved_doc :: "approval_env \<Rightarrow> string \<Rightarrow> string option \<Rightarrow> approval_doc \<Rightarrow> approval_doc" where
  "approved_doc env user comment doc =
     decide_step env user STEP_APPROVED (or_empty comment) (current_or_zero doc) doc"

definition approve_event ::
  "approval_env \<Rightarrow> approval_db \<Rightarrow> string \<Rightarrow> docname \<Rightarrow> string option \<Rightarrow> approval_action_error + approval_db" where
  "approve_event env db user approval_id comment =
    res_bind (decide_current_step env db user approval_id) (\<lambda>doc.
    let doc1 = approved_doc env user comment doc;
        db1 = emit_event (Step_Approved approval_id (current_or_zero doc) user) db
    in case current_step_index (step_statuses doc1) (ad_current_step doc1) of
         None \<Rightarrow>
           let doc2 = finalize_doc env user (doc1 \<lparr>ad_status := APPROVAL_APPROVED\<rparr>)
           in res_bind (save_approval env db1 doc2) (\<lambda>db2.
              Inr (emit_event (Approval_Approved approval_id False)
                    (open_registration_on_final_approval doc2
                      (sync_gathering_status doc2 APPROVAL_APPROVED db2))))
       | Some next_idx \<Rightarrow> save_approval env db1 (doc1 \<lparr>ad_current_step := next_idx\<rparr>))"

definition reject_event ::
  "approval_env \<Rightarrow> approval_db \<Rightarrow> string \<Rightarrow> docname \<Rightarrow> string \<Rightarrow> approval_action_error + approval_db" where
  "reject_event env db user approval_id reason =
    (if reason = [] then Inl Approval_Reason_Required
     else res_bind (decide_current_step env db user approval_id) (\<lambda>doc.
       let i = current_or_zero doc;
           doc1 = decide_step env user STEP_REJECTED reason i doc;
           doc2 = finalize_doc env user
             (doc1 \<lparr>ad_status := APPROVAL_REJECTED, ad_rejection_reason := Some reason\<rparr>)
       in res_bind (save_approval env db doc2) (\<lambda>db1.
          Inr (emit_event (Approval_Rejected approval_id reason)
                (emit_event (Step_Rejected approval_id i user)
                  (sync_gathering_status doc2 APPROVAL_REJECTED db1))))))"

definition withdraw_event_request ::
  "approval_env \<Rightarrow> approval_db \<Rightarrow> string \<Rightarrow> docname \<Rightarrow> approval_action_error + approval_db" where
  "withdraw_event_request env db user approval_id =
    res_bind (get_approval db approval_id) (\<lambda>doc.
    if ad_status doc \<notin> {APPROVAL_DRAFT, APPROVAL_PENDING} then Inl (Approval_Cannot_Withdraw (ad_status doc))
    else if Some (ad_requested_by doc) \<noteq> en_member_of_user env user then Inl (Approval_Permission user)
    else let doc1 = doc \<lparr>ad_status := APPROVAL_WITHDRAWN\<rparr>
         in res_bind (save_approval env db doc1) (\<lambda>db1.
            Inr (sync_gathering_status doc1 APPROVAL_WITHDRAWN db1)))"

definition cancel_event_request ::
  "approval_env \<Rightarrow> approval_db \<Rightarrow> string \<Rightarrow> docname \<Rightarrow> approval_action_error + approval_db" where
  "cancel_event_request env db user approval_id =
    res_bind (get_approval db approval_id) (\<lambda>doc.
    if en_user_roles env user \<inter> {ROLE_ORG_ADMIN, ROLE_BRANCH_ADMIN} = {} then Inl (Approval_Permission user)
    else res_bind (lift_approval (validate_approval_transition (Some (ad_status doc)) APPROVAL_CANCELLED)) (\<lambda>_.
      let doc1 = doc \<lparr>ad_status := APPROVAL_CANCELLED\<rparr>
      in res_bind (save_approval env db doc1) (\<lambda>db1.
         Inr (sync_gathering_status doc1 APPROVAL_CANCELLED db1))))"

section \<open>Steps of the workflow\<close>

text \<open>What the system takes: the five endpoints, and the plain saves and deletions of the desk and
  the REST interface, of any document whatever its fields say, as long as the hook accepts it.  The
  hook reads neither the steps nor the guard, so a plain save can write a decision by hand
  (\<open>plain_save_approves\<close>).  The state carries the set of the names of such requests: those
  inserted with steps or with the auto-approval flag, and those saved with another status than
  before (a reset to Draft, a rejection, a withdrawal or a cancellation apart), other steps, another
  current step, another flag, or another branch or group.  Anything else may change the
  gatherings and the events.\<close>

definition decision_kept :: "approval_db \<Rightarrow> approval_doc \<Rightarrow> bool" where
  "decision_kept db d \<longleftrightarrow> (case map_of (db_approvals db) (ad_name d) of
     None \<Rightarrow> ad_steps d = [] \<and> \<not> ad_auto_approved d
   | Some e \<Rightarrow> ad_status d \<in> {ad_status e, APPROVAL_DRAFT, APPROVAL_REJECTED, APPROVAL_WITHDRAWN, APPROVAL_CANCELLED}
       \<and> ad_steps d = ad_steps e \<and> ad_current_step d = ad_current_step e
       \<and> ad_auto_approved d = ad_auto_approved e \<and> ad_branch d = ad_branch e \<and> ad_group d = ad_group e)"

inductive approval_step_rel ::
  "approval_env \<Rightarrow> docname set \<Rightarrow> approval_db \<Rightarrow> docname set \<Rightarrow> approval_db \<Rightarrow> bool" for env where
  plain: "save_approval env db d = Inr db' \<Longrightarrow>
     approval_step_rel env H db (if decision_kept db d then H else insert (ad_name d) H) db'"
| delete: "approval_step_rel env H db H (db \<lparr>db_approvals := AList.delete i (db_approvals db)\<rparr>)"
| other: "db_approvals db' = db_approvals db \<Longrightarrow> approval_step_rel env H db H db'"
| submit: "submit_for_approval env db user i = Inr db' \<Longrightarrow> approval_step_rel env H db H db'"
| approve: "approve_event env db user i comment = Inr db' \<Longrightarrow> approval_step_rel env H db H db'"
| reject: "reject_event env db user i reason = Inr db' \<Longrightarrow> approval_step_rel env H db H db'"
| withdraw: "withdraw_event_request env db user i = Inr db' \<Longrightarrow> approval_step_rel env H db H db'"
| cancel: "cancel_event_request env db user i = Inr db' \<Longrightarrow> approval_step_rel env H db H db'"

text \<open>The states reached from an empty table, with the names decided by hand on the way.\<close>

inductive approval_reach :: "approval_env \<Rightarrow> docname set \<Rightarrow> approval_db \<Rightarrow> bool" for env where
  start: "db_approvals db = [] \<Longrightarrow> approval_reach env {} db"
| step: "approval_reach env H db \<Longrightarrow> approval_step_rel env H db H' db' \<Longrightarrow> approval_reach env H' db'"

text \<open>The invariant of a stored request.\<close>

definition doc_ok :: "approval_env \<Rightarrow> approval_doc \<Rightarrow> bool" where
  "doc_ok env d \<longleftrightarrow>
    (ad_status d = APPROVAL_PENDING \<longrightarrow>
       set (step_statuses d) \<subseteq> {STEP_PENDING, STEP_SKIPPED, STEP_APPROVED}
       \<and> STEP_PENDING \<notin> set (take (ad_current_step d) (step_statuses d)))
  \<and> (ad_status d = APPROVAL_APPROVED \<longrightarrow> ad_auto_approved d \<or>
       set (step_statuses d) \<subseteq> {STEP_SKIPPED, STEP_APPROVED} \<and> STEP_APPROVED \<in> set (step_statuses d))
  \<and> (\<forall>i < length (ad_steps d). as_status (ad_steps d ! i) = STEP_APPROVED \<longrightarrow>
       (\<exists>u. as_decided_by (ad_steps d ! i) = Some u
          \<and> can_decide_approval_step (en_perm env) (step_view_of d i) u))"

definition approvals_ok :: "approval_env \<Rightarrow> docname set \<Rightarrow> approval_db \<Rightarrow> bool" where
  "approvals_ok env H db \<longleftrightarrow>
     (\<forall>i d. map_of (db_approvals db) i = Some d \<longrightarrow> ad_name d = i \<and> (i \<in> H \<or> doc_ok env d))"

section \<open>Lemmas\<close>

lemma write_back_approvals [simp]:
  "db_approvals (update_gathering g f db) = db_approvals db"
  "db_approvals (sync_gathering_status d st db) = db_approvals db"
  "db_approvals (emit_event e db) = db_approvals db"
  "db_approvals (open_registration_on_final_approval d db) = db_approvals db"
  by (simp_all add: update_gathering_def sync_gathering_status_def emit_event_def
      open_registration_on_final_approval_def)

lemma write_back_ok [simp]:
  "approvals_ok env H (sync_gathering_status d st db) = approvals_ok env H db"
  "approvals_ok env H (emit_event e db) = approvals_ok env H db"
  "approvals_ok env H (open_registration_on_final_approval d db) = approvals_ok env H db"
  by (simp_all add: approvals_ok_def)

lemma update_gathering_lookup:
  "map_of (db_gatherings (update_gathering g f db)) k =
     (if k = g then map_option f (map_of (db_gatherings db) k) else map_of (db_gatherings db) k)"
proof -
  have "map_of (map (\<lambda>(n, r). if n = g then (n, f r) else (n, r)) xs) k =
     (if k = g then map_option f (map_of xs k) else map_of xs k)" for xs
    by (induction xs) auto
  then show ?thesis by (simp add: update_gathering_def)
qed

lemma emit_event_gatherings [simp]: "db_gatherings (emit_event e db) = db_gatherings db"
  by (simp add: emit_event_def)

lemma tenant_floor_sel [simp]:
  "ad_name (approval_tenant_floor env d) = ad_name d"
  "ad_status (approval_tenant_floor env d) = ad_status d"
  "ad_steps (approval_tenant_floor env d) = ad_steps d"
  "ad_current_step (approval_tenant_floor env d) = ad_current_step d"
  "ad_auto_approved (approval_tenant_floor env d) = ad_auto_approved d"
  "ad_branch (approval_tenant_floor env d) = ad_branch d"
  "ad_group (approval_tenant_floor env d) = ad_group d"
  by (simp_all add: approval_tenant_floor_def)

lemma doc_ok_tenant_floor [simp]: "doc_ok env (approval_tenant_floor env d) = doc_ok env d"
  by (simp add: doc_ok_def step_statuses_def step_view_of_def Let_def)

lemma save_approval_Inr:
  assumes "save_approval env db d = Inr db'"
  shows "db_approvals db' = AList.update (ad_name d) (approval_tenant_floor env d) (db_approvals db)"
    and "db_gatherings db' = db_gatherings db" and "db_events db' = db_events db"
    and "is_valid_approval_transition (map_option ad_status (map_of (db_approvals db) (ad_name d))) (ad_status d)"
  using assms
  by (auto simp: save_approval_def validate_approval_def Let_def res_bind_Inr_iff lift_approval_def
      validate_approval_transition_def split: sum.splits if_splits option.splits)

lemma save_approval_ok:
  assumes "approvals_ok env H db" "save_approval env db d = Inr db'" "ad_name d \<in> H' \<or> doc_ok env d" "H \<subseteq> H'"
  shows "approvals_ok env H' db'"
  using assms(1,3,4) unfolding approvals_ok_def save_approval_Inr(1) [OF assms(2)]
  by (auto simp: update_conv')

text \<open>An endpoint saves the request it has read, with its name.\<close>

lemma endpoint_save_ok:
  assumes "approvals_ok env H db" "save_approval env db d = Inr db'"
    and "map_of (db_approvals db) i = Some d0" "ad_name d = ad_name d0" "doc_ok env d0 \<Longrightarrow> doc_ok env d"
  shows "approvals_ok env H db'"
proof -
  have "ad_name d \<in> H \<or> doc_ok env d" using assms(1,3-5) by (auto simp: approvals_ok_def)
  then show ?thesis using save_approval_ok [OF assms(1,2)] by blast
qed

lemma get_approval_Inr: "get_approval db i = Inr d \<longleftrightarrow> map_of (db_approvals db) i = Some d"
  by (auto simp: get_approval_def split: option.splits)

lemma can_decide_status:
  "can_decide_approval_step gw (v \<lparr>sv_step_status := st\<rparr>) u = can_decide_approval_step gw v u"
  by (cases v) (simp only: can_decide_approval_step_def is_resolved_approver_def Let_def
      step_view.select_convs step_view.update_convs)

lemma materialize_statuses [simp]: "map as_status (materialize_steps specs) = map ss_step_status specs"
  by (simp add: materialize_steps_def)

lemma status_distinct:
  "APPROVAL_APPROVED \<noteq> APPROVAL_PENDING" "APPROVAL_REJECTED \<noteq> APPROVAL_PENDING"
  "APPROVAL_REJECTED \<noteq> APPROVAL_APPROVED" "APPROVAL_WITHDRAWN \<noteq> APPROVAL_PENDING"
  "APPROVAL_WITHDRAWN \<noteq> APPROVAL_APPROVED" "APPROVAL_CANCELLED \<noteq> APPROVAL_PENDING"
  "APPROVAL_CANCELLED \<noteq> APPROVAL_APPROVED" "APPROVAL_DRAFT \<noteq> APPROVAL_PENDING"
  "APPROVAL_DRAFT \<noteq> APPROVAL_APPROVED" "STEP_APPROVED \<noteq> STEP_PENDING" "STEP_APPROVED \<noteq> STEP_SKIPPED"
  "STEP_REJECTED \<noteq> STEP_APPROVED" "STEP_PENDING \<noteq> STEP_SKIPPED"
  by (simp_all add: status_defs)

lemmas status_neq = status_distinct status_distinct [symmetric]

lemma doc_ok_inert:
  assumes "doc_ok env d" "st \<noteq> APPROVAL_PENDING" "st \<noteq> APPROVAL_APPROVED" "ad_status d' = st"
    "ad_steps d' = ad_steps d" "ad_branch d' = ad_branch d" "ad_group d' = ad_group d"
  shows "doc_ok env d'"
  using assms by (simp add: doc_ok_def step_view_of_def Let_def)

lemma lift_approval_Inr [simp]: "lift_approval r = Inr a \<longleftrightarrow> r = Inr a"
  by (cases r) (auto simp: lift_approval_def)

lemma built_doc_sel [simp]:
  "ad_steps (auto_approved_doc env user (stamp_submission env p d)) = ad_steps d"
  "ad_branch (auto_approved_doc env user (stamp_submission env p d)) = ad_branch d"
  "ad_group (auto_approved_doc env user (stamp_submission env p d)) = ad_group d"
  "ad_name (auto_approved_doc env user (stamp_submission env p d)) = ad_name d"
  "ad_name (pending_doc specs (stamp_submission env p d)) = ad_name d"
  "ad_status (auto_approved_doc env user d) = APPROVAL_APPROVED"
  "ad_auto_approved (auto_approved_doc env user d)"
  "ad_status (pending_doc specs d) = APPROVAL_PENDING"
  "step_statuses (pending_doc specs d) = map ss_step_status specs"
  by (simp_all add: auto_approved_doc_def stamp_submission_def finalize_doc_def pending_doc_def
      step_statuses_def)

lemma pending_doc_ok:
  assumes "resolve_approval_chain grp req policy gw = Inr specs"
  shows "doc_ok env (pending_doc specs d)"
proof -
  let ?d = "pending_doc specs d"
  have sub: "set (step_statuses ?d) \<subseteq> {STEP_PENDING, STEP_SKIPPED}"
    using resolve_statuses [OF assms] by simp
  have "STEP_PENDING \<notin> set (take (ad_current_step ?d) (step_statuses ?d))"
    by (auto simp: pending_doc_def step_statuses_def in_set_conv_nth current_step_index_def
        pending_from_Some split: option.splits)
  moreover have "as_status (ad_steps ?d ! j) \<noteq> STEP_APPROVED" if "j < length (ad_steps ?d)" for j
  proof -
    have "as_status (ad_steps ?d ! j) \<in> set (step_statuses ?d)" using that by (simp add: step_statuses_def)
    then show ?thesis using sub status_distinct by auto
  qed
  ultimately show ?thesis using sub by (auto simp: doc_ok_def status_neq)
qed

lemma submit_ok:
  assumes inv: "approvals_ok env H db" and ok: "submit_for_approval env db user i = Inr db'"
  shows "approvals_ok env H db'"
proof -
  obtain doc where doc: "map_of (db_approvals db) i = Some doc"
    using ok by (auto simp: submit_for_approval_def res_bind_Inr_iff get_approval_Inr)
  let ?p = "approval_policy_from_row env (ad_policy doc)"
  let ?d1 = "stamp_submission env ?p doc"
  have auto_ok: "doc_ok env (auto_approved_doc env user ?d1)" if "doc_ok env doc"
    using that by (simp add: doc_ok_def status_distinct step_view_of_def Let_def)
  note fast = endpoint_save_ok [OF inv _ doc _ auto_ok]
  note chain = endpoint_save_ok [OF inv _ doc _ pending_doc_ok]
  show ?thesis
    using ok doc fast chain
    by (auto simp: submit_for_approval_def res_bind_Inr_iff get_approval_Inr Let_def split: if_splits)
qed

text \<open>Deciding a step.\<close>

lemma decide_current_step_Inr:
  assumes "decide_current_step env db user i = Inr d"
  obtains j where "map_of (db_approvals db) i = Some d" "ad_status d = APPROVAL_PENDING"
    "current_step_index (step_statuses d) (ad_current_step d) = Some j" "current_or_zero d = j"
    "can_decide_approval_step (en_perm env) (step_view_of d j) user"
    "ad_current_step d \<le> j" "j < length (ad_steps d)" "as_status (ad_steps d ! j) = STEP_PENDING"
proof -
  from assms obtain j where d: "map_of (db_approvals db) i = Some d" "ad_status d = APPROVAL_PENDING"
    and j: "current_step_index (step_statuses d) (ad_current_step d) = Some j"
    and g: "can_decide_approval_step (en_perm env) (step_view_of d j) user"
    by (auto simp: decide_current_step_def res_bind_Inr_iff get_approval_Inr assert_approval_scope_def
        split: if_splits option.splits)
  have "ad_current_step d \<le> j" "j < length (ad_steps d)" "as_status (ad_steps d ! j) = STEP_PENDING"
    using current_step_index_spec [of "step_statuses d" "ad_current_step d" j] j
    by (auto simp: step_statuses_def)
  then show ?thesis using that d j g by (simp add: current_or_zero_def)
qed

lemma decide_step_sel [simp]:
  "ad_status (decide_step env user st c j d) = ad_status d"
  "ad_name (decide_step env user st c j d) = ad_name d"
  "ad_branch (decide_step env user st c j d) = ad_branch d"
  "ad_group (decide_step env user st c j d) = ad_group d"
  "ad_current_step (decide_step env user st c j d) = ad_current_step d"
  "ad_auto_approved (decide_step env user st c j d) = ad_auto_approved d"
  "length (ad_steps (decide_step env user st c j d)) = length (ad_steps d)"
  "j < length (ad_steps d) \<Longrightarrow> step_statuses (decide_step env user st c j d) = (step_statuses d) [j := st]"
  by (simp_all add: decide_step_def step_statuses_def map_update)

lemma decide_step_view:
  assumes "k < length (ad_steps d)"
  shows "can_decide_approval_step gw (step_view_of (decide_step env user st c j d) k) u
    = can_decide_approval_step gw (step_view_of d k) u"
proof -
  have "step_view_of (decide_step env user st c j d) k
      = (step_view_of d k) \<lparr>sv_step_status := as_status (ad_steps (decide_step env user st c j d) ! k)\<rparr>"
    using assms by (cases "k = j") (simp_all add: step_view_of_def decide_step_def Let_def)
  then show ?thesis by (simp only: can_decide_status)
qed

text \<open>The third clause of \<open>doc_ok\<close> alone: every approved step was decided by an authorised user.\<close>

definition steps_authorised :: "approval_env \<Rightarrow> approval_doc \<Rightarrow> bool" where
  "steps_authorised env d \<longleftrightarrow> (\<forall>i < length (ad_steps d). as_status (ad_steps d ! i) = STEP_APPROVED \<longrightarrow>
     (\<exists>u. as_decided_by (ad_steps d ! i) = Some u
        \<and> can_decide_approval_step (en_perm env) (step_view_of d i) u))"

lemma decide_step_authorised:
  assumes "steps_authorised env d" "j < length (ad_steps d)"
    and "st = STEP_APPROVED \<longrightarrow> can_decide_approval_step (en_perm env) (step_view_of d j) user"
  shows "steps_authorised env (decide_step env user st c j d)"
  unfolding steps_authorised_def
proof (intro allI impI)
  fix k
  let ?d = "decide_step env user st c j d"
  assume k: "k < length (ad_steps ?d)" "as_status (ad_steps ?d ! k) = STEP_APPROVED"
  then have len: "k < length (ad_steps d)" by simp
  show "\<exists>u. as_decided_by (ad_steps ?d ! k) = Some u
      \<and> can_decide_approval_step (en_perm env) (step_view_of ?d k) u"
  proof (cases "k = j")
    case True
    then have "as_decided_by (ad_steps ?d ! k) = Some user" "as_status (ad_steps ?d ! k) = st"
      using assms(2) by (simp_all add: decide_step_def)
    then show ?thesis using k(2) assms(3) decide_step_view [OF len] True by auto
  next
    case False
    then have "ad_steps ?d ! k = ad_steps d ! k" by (simp add: decide_step_def)
    then show ?thesis using k(2) assms(1) len decide_step_view [OF len]
      by (simp add: steps_authorised_def)
  qed
qed

lemma doc_ok_authorised: "doc_ok env d \<Longrightarrow> steps_authorised env d"
  by (simp add: doc_ok_def steps_authorised_def)

lemma authorised_cong:
  "ad_steps d' = ad_steps d \<Longrightarrow> ad_branch d' = ad_branch d \<Longrightarrow> ad_group d' = ad_group d \<Longrightarrow>
     steps_authorised env d' = steps_authorised env d"
  by (simp add: steps_authorised_def step_view_of_def Let_def)

lemma doc_okI:
  assumes "steps_authorised env d"
    and "ad_status d = APPROVAL_PENDING \<Longrightarrow> set (step_statuses d) \<subseteq> {STEP_PENDING, STEP_SKIPPED, STEP_APPROVED}"
    and "ad_status d = APPROVAL_PENDING \<Longrightarrow> STEP_PENDING \<notin> set (take (ad_current_step d) (step_statuses d))"
    and "ad_status d = APPROVAL_APPROVED \<Longrightarrow> set (step_statuses d) \<subseteq> {STEP_SKIPPED, STEP_APPROVED}"
    and "ad_status d = APPROVAL_APPROVED \<Longrightarrow> STEP_APPROVED \<in> set (step_statuses d)"
  shows "doc_ok env d"
  using assms unfolding doc_ok_def steps_authorised_def by blast

lemma finalize_sel [simp]:
  "ad_status (finalize_doc env user d) = ad_status d"
  "ad_steps (finalize_doc env user d) = ad_steps d"
  "ad_branch (finalize_doc env user d) = ad_branch d"
  "ad_group (finalize_doc env user d) = ad_group d"
  "ad_current_step (finalize_doc env user d) = ad_current_step d"
  "ad_name (finalize_doc env user d) = ad_name d"
  "step_statuses (finalize_doc env user d) = step_statuses d"
  by (simp_all add: finalize_doc_def step_statuses_def)

lemma step_statuses_update [simp]:
  "step_statuses (d \<lparr>ad_status := st\<rparr>) = step_statuses d"
  "step_statuses (d \<lparr>ad_current_step := n\<rparr>) = step_statuses d"
  "step_statuses (d \<lparr>ad_rejection_reason := r\<rparr>) = step_statuses d"
  by (simp_all add: step_statuses_def)

lemma approve_event_cases:
  assumes "approve_event env db user i comment = Inr db'"
  obtains (final) d d1 db1 db2 where "decide_current_step env db user i = Inr d"
      "d1 = approved_doc env user comment d"
      "current_step_index (step_statuses d1) (ad_current_step d1) = None"
      "db1 = emit_event (Step_Approved i (current_or_zero d) user) db"
      "save_approval env db1 (finalize_doc env user (d1 \<lparr>ad_status := APPROVAL_APPROVED\<rparr>)) = Inr db2"
      "db' = emit_event (Approval_Approved i False) (open_registration_on_final_approval
          (finalize_doc env user (d1 \<lparr>ad_status := APPROVAL_APPROVED\<rparr>))
        (sync_gathering_status (finalize_doc env user (d1 \<lparr>ad_status := APPROVAL_APPROVED\<rparr>))
          APPROVAL_APPROVED db2))"
  | (advance) d d1 db1 n where "decide_current_step env db user i = Inr d"
      "d1 = approved_doc env user comment d"
      "current_step_index (step_statuses d1) (ad_current_step d1) = Some n"
      "db1 = emit_event (Step_Approved i (current_or_zero d) user) db"
      "save_approval env db1 (d1 \<lparr>ad_current_step := n\<rparr>) = Inr db'"
proof -
  from assms obtain d where d: "decide_current_step env db user i = Inr d"
    by (auto simp: approve_event_def res_bind_Inr_iff)
  let ?d1 = "approved_doc env user comment d"
  show thesis
  proof (cases "current_step_index (step_statuses ?d1) (ad_current_step ?d1)")
    case None
    with assms d show thesis
      by (auto simp: approve_event_def Let_def res_bind_Inr_iff intro: final)
  next
    case (Some n)
    with assms d show thesis
      by (auto simp: approve_event_def Let_def intro: advance)
  qed
qed

lemma approved_doc_facts:
  assumes dok: "doc_ok env d" and dec: "decide_current_step env db user i = Inr d"
    and d1_def: "d1 = approved_doc env user comment d"
  shows "set (step_statuses d1) \<subseteq> {STEP_PENDING, STEP_SKIPPED, STEP_APPROVED}"
    and "STEP_PENDING \<notin> set (take (ad_current_step d1) (step_statuses d1))"
    and "STEP_APPROVED \<in> set (step_statuses d1)"
    and "steps_authorised env d1" and "ad_status d1 = APPROVAL_PENDING"
proof -
  obtain j where d: "map_of (db_approvals db) i = Some d" "ad_status d = APPROVAL_PENDING"
    and j: "current_or_zero d = j" "j < length (ad_steps d)"
    and can: "can_decide_approval_step (en_perm env) (step_view_of d j) user"
    using decide_current_step_Inr [OF dec] by metis
  have st: "step_statuses d1 = (step_statuses d) [j := STEP_APPROVED]"
    and cur: "ad_current_step d1 = ad_current_step d"
    using j by (simp_all add: d1_def approved_doc_def)
  show "ad_status d1 = APPROVAL_PENDING" using d(2) by (simp add: d1_def approved_doc_def)
  show "set (step_statuses d1) \<subseteq> {STEP_PENDING, STEP_SKIPPED, STEP_APPROVED}"
    using dok d(2) set_update_subset_insert [of "step_statuses d" j STEP_APPROVED]
    unfolding st doc_ok_def by blast
  show "STEP_PENDING \<notin> set (take (ad_current_step d1) (step_statuses d1))"
    using dok d(2) set_update_subset_insert [of "take (ad_current_step d) (step_statuses d)" j STEP_APPROVED]
    unfolding st cur doc_ok_def take_update_swap by (auto simp: status_neq)
  show "STEP_APPROVED \<in> set (step_statuses d1)"
    unfolding st by (rule set_update_memI) (simp add: j step_statuses_def)
  show "steps_authorised env d1"
    unfolding d1_def approved_doc_def j(1)
    by (rule decide_step_authorised [OF doc_ok_authorised [OF dok] j(2)]) (simp add: can)
qed

lemma final_doc_ok:
  assumes dok: "doc_ok env d" and dec: "decide_current_step env db user i = Inr d"
    and d1: "d1 = approved_doc env user comment d"
    and last: "current_step_index (step_statuses d1) (ad_current_step d1) = None"
  shows "doc_ok env (finalize_doc env user (d1 \<lparr>ad_status := APPROVAL_APPROVED\<rparr>))"
proof -
  note f = approved_doc_facts [OF dok dec d1]
  have "STEP_PENDING \<notin> set (drop (ad_current_step d1) (step_statuses d1))"
    using last unfolding current_step_index_None .
  then have "STEP_PENDING \<notin> set (step_statuses d1)"
    using f(2) by (metis Un_iff append_take_drop_id set_append)
  moreover have "steps_authorised env (finalize_doc env user (d1 \<lparr>ad_status := APPROVAL_APPROVED\<rparr>))"
    using f(4) by (subst authorised_cong [of _ d1]) simp_all
  ultimately show ?thesis using f(1,3) by (intro doc_okI) (auto simp: status_neq)
qed

lemma advanced_doc_ok:
  assumes dok: "doc_ok env d" and dec: "decide_current_step env db user i = Inr d"
    and d1: "d1 = approved_doc env user comment d"
    and "next": "current_step_index (step_statuses d1) (ad_current_step d1) = Some n"
  shows "doc_ok env (d1 \<lparr>ad_current_step := n\<rparr>)"
proof -
  note f = approved_doc_facts [OF dok dec d1]
  have n: "ad_current_step d1 \<le> n" "n < length (step_statuses d1)"
    "\<forall>k. ad_current_step d1 \<le> k \<longrightarrow> k < n \<longrightarrow> step_statuses d1 ! k \<noteq> STEP_PENDING"
    using "next" unfolding current_step_index_spec by auto
  have "step_statuses d1 ! k \<noteq> STEP_PENDING" if "k < n" for k
  proof (cases "k < ad_current_step d1")
    case True
    then have "step_statuses d1 ! k \<in> set (take (ad_current_step d1) (step_statuses d1))"
      using that n(2) by (auto simp: in_set_conv_nth intro!: exI [of _ k])
    then show ?thesis using f(2) by auto
  qed (use n(3) that in auto)
  then have "STEP_PENDING \<notin> set (take n (step_statuses d1))"
    by (auto simp: in_set_conv_nth)
  moreover have "steps_authorised env (d1 \<lparr>ad_current_step := n\<rparr>)"
    using f(4) by (subst authorised_cong [of _ d1]) simp_all
  ultimately show ?thesis using f(1,5) by (intro doc_okI) (auto simp: status_neq)
qed

lemma approve_ok:
  assumes inv: "approvals_ok env H db" and ok: "approve_event env db user i comment = Inr db'"
  shows "approvals_ok env H db'"
  using ok
proof (cases rule: approve_event_cases)
  case (final d d1 db1 db2)
  have d: "map_of (db_approvals db1) i = Some d"
    using decide_current_step_Inr [OF final(1)] by (metis final(4) write_back_approvals(3))
  have inv1: "approvals_ok env H db1" using inv by (simp add: final(4))
  have "approvals_ok env H db2"
    using final_doc_ok [OF _ final(1-3)]
    by (intro endpoint_save_ok [OF inv1 final(5) d]) (simp_all add: final(2) approved_doc_def)
  then show ?thesis by (simp add: final(6))
next
  case (advance d d1 db1 n)
  have d: "map_of (db_approvals db1) i = Some d"
    using decide_current_step_Inr [OF advance(1)] by (metis advance(4) write_back_approvals(3))
  have inv1: "approvals_ok env H db1" using inv by (simp add: advance(4))
  show ?thesis
    using advanced_doc_ok [OF _ advance(1-3)]
    by (intro endpoint_save_ok [OF inv1 advance(5) d]) (simp_all add: advance(2) approved_doc_def)
qed

lemma reject_ok:
  assumes inv: "approvals_ok env H db" and ok: "reject_event env db user i reason = Inr db'"
  shows "approvals_ok env H db'"
proof -
  from ok obtain d where dec: "decide_current_step env db user i = Inr d"
    by (auto simp: reject_event_def res_bind_Inr_iff split: if_splits)
  then obtain j where d: "map_of (db_approvals db) i = Some d" and j: "current_or_zero d = j" "j < length (ad_steps d)"
    using decide_current_step_Inr by metis
  let ?d1 = "decide_step env user STEP_REJECTED reason j d"
  let ?d2 = "finalize_doc env user (?d1 \<lparr>ad_status := APPROVAL_REJECTED, ad_rejection_reason := Some reason\<rparr>)"
  from ok dec j(1) obtain db1 where save: "save_approval env db ?d2 = Inr db1"
    and db': "approvals_ok env H db' = approvals_ok env H db1"
    by (auto simp: reject_event_def res_bind_Inr_iff Let_def split: if_splits)
  have "doc_ok env ?d2" if dok: "doc_ok env d"
  proof -
    have "steps_authorised env ?d1"
      using dok j(2) by (intro decide_step_authorised doc_ok_authorised) (simp_all add: status_neq)
    then have "steps_authorised env ?d2" by (subst authorised_cong [of _ ?d1]) simp_all
    then show ?thesis by (rule doc_okI) (simp_all add: status_neq)
  qed
  then have "approvals_ok env H db1" by (intro endpoint_save_ok [OF inv save d]) simp_all
  then show ?thesis by (simp add: db')
qed

lemma inert_save_ok:
  assumes inv: "approvals_ok env H db" and d: "map_of (db_approvals db) i = Some d"
    and "save_approval env db (d \<lparr>ad_status := st\<rparr>) = Inr db'"
    and "st \<noteq> APPROVAL_PENDING" "st \<noteq> APPROVAL_APPROVED"
  shows "approvals_ok env H db'"
proof -
  have "doc_ok env (d \<lparr>ad_status := st\<rparr>)" if "doc_ok env d"
    using that assms(4,5) by (rule doc_ok_inert) simp_all
  then show ?thesis by (intro endpoint_save_ok [OF inv assms(3) d]) simp_all
qed

lemma withdraw_ok:
  assumes "approvals_ok env H db" "withdraw_event_request env db user i = Inr db'"
  shows "approvals_ok env H db'"
proof -
  from assms(2) obtain d db1 where "map_of (db_approvals db) i = Some d"
    "save_approval env db (d \<lparr>ad_status := APPROVAL_WITHDRAWN\<rparr>) = Inr db1"
    "approvals_ok env H db' = approvals_ok env H db1"
    by (auto simp: withdraw_event_request_def res_bind_Inr_iff get_approval_Inr Let_def split: if_splits)
  then show ?thesis using inert_save_ok [OF assms(1)] by (auto simp: status_neq)
qed

lemma cancel_ok:
  assumes "approvals_ok env H db" "cancel_event_request env db user i = Inr db'"
  shows "approvals_ok env H db'"
proof -
  from assms(2) obtain d db1 where "map_of (db_approvals db) i = Some d"
    "save_approval env db (d \<lparr>ad_status := APPROVAL_CANCELLED\<rparr>) = Inr db1"
    "approvals_ok env H db' = approvals_ok env H db1"
    by (auto simp: cancel_event_request_def res_bind_Inr_iff get_approval_Inr Let_def split: if_splits)
  then show ?thesis using inert_save_ok [OF assms(1)] by (auto simp: status_neq)
qed

text \<open>A plain save that keeps the decision keeps the invariant of its row, and any other puts the
  row into the set.\<close>

lemma kept_doc_ok:
  assumes "decision_kept db d" "map_of (db_approvals db) (ad_name d) = Some e" "doc_ok env e"
  shows "doc_ok env d"
proof -
  have k: "ad_steps d = ad_steps e" "ad_current_step d = ad_current_step e" "ad_auto_approved d = ad_auto_approved e"
      "ad_branch d = ad_branch e" "ad_group d = ad_group e"
    and st: "ad_status d = ad_status e \<or> ad_status d \<noteq> APPROVAL_PENDING \<and> ad_status d \<noteq> APPROVAL_APPROVED"
    using assms(1,2) by (auto simp: decision_kept_def status_neq)
  from st show ?thesis
  proof
    assume "ad_status d = ad_status e"
    then show ?thesis using assms(3) by (simp add: doc_ok_def step_statuses_def step_view_of_def k)
  next
    assume "ad_status d \<noteq> APPROVAL_PENDING \<and> ad_status d \<noteq> APPROVAL_APPROVED"
    then show ?thesis using doc_ok_inert [OF assms(3) _ _ refl] k by blast
  qed
qed

lemma plain_ok:
  assumes inv: "approvals_ok env H db" and save: "save_approval env db d = Inr db'"
  shows "approvals_ok env (if decision_kept db d then H else insert (ad_name d) H) db'"
proof (cases "decision_kept db d")
  case True
  have "ad_name d \<in> H \<or> doc_ok env d"
  proof (cases "map_of (db_approvals db) (ad_name d)")
    case None
    then have "ad_status d = APPROVAL_DRAFT"
      using save_approval_Inr(4) [OF save] by (simp add: approval.valid_new DEFAULT_APPROVAL_STATUS_def)
    moreover have "ad_steps d = []" using True None by (simp add: decision_kept_def)
    ultimately show ?thesis by (simp add: doc_ok_def status_neq)
  next
    case (Some e)
    then show ?thesis using inv kept_doc_ok [OF True Some] by (auto simp: approvals_ok_def)
  qed
  then show ?thesis using save_approval_ok [OF inv save] True by simp
next
  case False
  then show ?thesis using save_approval_ok [OF inv save, of "insert (ad_name d) H"] by auto
qed

lemma delete_ok:
  "approvals_ok env H db \<Longrightarrow> approvals_ok env H (db \<lparr>db_approvals := AList.delete i (db_approvals db)\<rparr>)"
  by (simp add: approvals_ok_def delete_conv')

lemma approval_step_ok:
  assumes "approval_step_rel env H db H' db'" "approvals_ok env H db"
  shows "approvals_ok env H' db'"
  using assms
proof cases
  case (plain d) then show ?thesis using plain_ok assms(2) by blast
next
  case delete then show ?thesis using delete_ok assms(2) by blast
next
  case other then show ?thesis using assms(2) by (simp add: approvals_ok_def)
next
  case submit then show ?thesis using submit_ok assms(2) by blast
next
  case approve then show ?thesis using approve_ok assms(2) by blast
next
  case reject then show ?thesis using reject_ok assms(2) by blast
next
  case withdraw then show ?thesis using withdraw_ok assms(2) by blast
next
  case cancel then show ?thesis using cancel_ok assms(2) by blast
qed

lemma approval_reach_ok: "approval_reach env H db \<Longrightarrow> approvals_ok env H db"
proof (induction rule: approval_reach.induct)
  case (start db) then show ?case by (simp add: approvals_ok_def)
next
  case (step H db H' db') then show ?case by (blast intro: approval_step_ok)
qed

section \<open>Properties\<close>

text \<open>C2. An approved request is justified: in every state the endpoints, any plain saves and any
  deletions reach from an empty table, a request in status Approved whose decision was not
  written by hand was either auto-approved by the capacity fast path, or has no pending, rejected
  or recused step, has at least one approved step, and each approved step carries a deciding user
  whom the approval-authority guard accepts for that step.  The names written by hand are the set
  \<open>H\<close> of the run: a plain save that itself sets Approved or Pending, or edits the steps, the
  flag, the branch or the group, is accepted by the hook and lies outside the claim.\<close>
theorem approved_requests_justified:
  assumes "approval_reach env H db" "map_of (db_approvals db) i = Some d" and "i \<notin> H"
    and "ad_status d = APPROVAL_APPROVED" "\<not> ad_auto_approved d"
  shows "(\<forall>s \<in> set (ad_steps d). as_status s \<in> {STEP_SKIPPED, STEP_APPROVED})
    \<and> (\<exists>s \<in> set (ad_steps d). as_status s = STEP_APPROVED)
    \<and> (\<forall>j < length (ad_steps d). as_status (ad_steps d ! j) = STEP_APPROVED \<longrightarrow>
        (\<exists>u. as_decided_by (ad_steps d ! j) = Some u
           \<and> can_decide_approval_step (en_perm env) (step_view_of d j) u))"
proof -
  have "doc_ok env d" using approval_reach_ok [OF assms(1)] assms(2,3) by (auto simp: approvals_ok_def)
  then have "set (step_statuses d) \<subseteq> {STEP_SKIPPED, STEP_APPROVED}" "STEP_APPROVED \<in> set (step_statuses d)"
    "steps_authorised env d"
    using assms(4,5) by (auto simp: doc_ok_def steps_authorised_def)
  moreover have "\<exists>s \<in> set (ad_steps d). as_status s = STEP_APPROVED"
    using calculation(2) unfolding step_statuses_def set_map by (metis imageE)
  ultimately show ?thesis by (auto simp: step_statuses_def steps_authorised_def)
qed

definition demo_env :: approval_env where
  "demo_env = \<lparr>en_branch_org = (\<lambda>_. None), en_group_branch = (\<lambda>_. Some ''B''),
     en_group_leader = (\<lambda>_. Some ''M1''), en_on_roster = (\<lambda>_ _. False),
     en_member_of_user = (\<lambda>u. if u = ''u1'' then Some ''M1'' else None),
     en_user_roles = (\<lambda>_. {}), en_policy_row = (\<lambda>_. None),
     en_chain = \<lparr>cg_chain_nodes = (\<lambda>_. [\<lparr>cn_group = ''G'', cn_leaders = [''M1'', ''M2'']\<rparr>]),
       cg_user_for_member = (\<lambda>m. Some m), cg_group_branch = (\<lambda>_. None),
       cg_branch_admin_member = (\<lambda>_. None), cg_branch_admin_user = (\<lambda>_. None)\<rparr>,
     en_perm = NullPermissionGateway \<lparr>pg_user_roles := (\<lambda>_. {ROLE_ORG_ADMIN})\<rparr>, en_now = ''now''\<rparr>"

definition demo_request :: approval_doc where
  "demo_request = \<lparr>ad_name = ''A'', ad_gathering = ''E'', ad_branch = ''B'', ad_group = ''G'',
     ad_organization = None, ad_requested_by = ''M1'', ad_status = APPROVAL_DRAFT, ad_policy = None,
     ad_steps = [], ad_current_step = 0, ad_auto_approved = False, ad_proposed_scope = None,
     ad_requested_at = None, ad_timeout_hours = None, ad_rejection_reason = None, ad_final_by = None,
     ad_final_at = None\<rparr>"

definition demo_approval_db :: approval_db where
  "demo_approval_db = \<lparr>db_approvals = [], db_gatherings = [(''E'', \<lparr>ga_branch = Some ''B'', ga_group = Some ''G'',
     ga_capacity = None, ga_approval_status = None, ga_approval_request = None,
     ga_registration_scope = None\<rparr>)], db_events = []\<rparr>"

definition demo_pending :: "approval_action_error + approval_db" where
  "demo_pending = res_bind (save_approval demo_env demo_approval_db demo_request)
     (\<lambda>db. submit_for_approval demo_env db ''u1'' ''A'')"

definition demo_approved :: "approval_action_error + approval_db" where
  "demo_approved = res_bind demo_pending (\<lambda>db. approve_event demo_env db ''M2'' ''A'' None)"

lemma demo_approved_ok:
  "case demo_approved of Inl e \<Rightarrow> False
   | Inr db \<Rightarrow> (case map_of (db_approvals db) ''A'' of None \<Rightarrow> False
      | Some d \<Rightarrow> ad_status d = APPROVAL_APPROVED \<and> \<not> ad_auto_approved d
          \<and> map as_status (ad_steps d) = [STEP_SKIPPED, STEP_APPROVED])"
  by code_simp

lemma demo_approved_reach:
  assumes "demo_approved = Inr db"
  shows "approval_reach demo_env {} db"
proof -
  from assms obtain db1 db2 where s: "save_approval demo_env demo_approval_db demo_request = Inr db1"
    "submit_for_approval demo_env db1 ''u1'' ''A'' = Inr db2" "approve_event demo_env db2 ''M2'' ''A'' None = Inr db"
    by (auto simp: demo_approved_def demo_pending_def res_bind_Inr_iff)
  have "approval_reach demo_env {} demo_approval_db"
    by (rule approval_reach.start) (simp add: demo_approval_db_def)
  moreover have "decision_kept demo_approval_db demo_request"
    by (simp add: decision_kept_def demo_approval_db_def demo_request_def)
  then have "approval_step_rel demo_env {} demo_approval_db {} db1"
    using approval_step_rel.plain [OF s(1), where H = "{}"] by simp
  ultimately show ?thesis using s(2,3)
    by (meson approval_reach.step approval_step_rel.submit approval_step_rel.approve)
qed

lemma approved_requests_justified_witness:
  "\<exists>db d. demo_approved = Inr db \<and> map_of (db_approvals db) ''A'' = Some d
     \<and> (\<exists>s \<in> set (ad_steps d). as_status s = STEP_APPROVED)"
proof -
  from demo_approved_ok obtain db d where "demo_approved = Inr db" "map_of (db_approvals db) ''A'' = Some d"
    "ad_status d = APPROVAL_APPROVED" "\<not> ad_auto_approved d"
    by (auto split: sum.splits option.splits)
  then show ?thesis using approved_requests_justified [OF demo_approved_reach, of db "''A''" d]
    by (intro exI [of _ db] exI [of _ d]) simp
qed

text \<open>C20. Final approval writes back: when approving the last pending step succeeds, the stored
  request is Approved, the gathering row carries that status, the request and the confirmed
  registration scope, and the registration-opened event precedes the approved event.\<close>
theorem final_approval_writes_back:
  assumes dec: "decide_current_step env db user i = Inr d"
    and last: "current_step_index (step_statuses (approved_doc env user comment d))
          (ad_current_step d) = None"
    and ok: "approve_event env db user i comment = Inr db'"
    and name: "ad_name d = i"
    and g: "map_of (db_gatherings db) (ad_gathering d) = Some g"
  shows "map_option ad_status (map_of (db_approvals db') i) = Some APPROVAL_APPROVED
    \<and> (\<exists>g'. map_of (db_gatherings db') (ad_gathering d) = Some g'
         \<and> ga_approval_status g' = Some APPROVAL_APPROVED \<and> ga_approval_request g' = Some i
         \<and> ga_registration_scope g' = Some (confirmed_scope d))
    \<and> db_events db' = db_events db @ [Step_Approved i (current_or_zero d) user,
         Registration_Opened i (ad_gathering d) (confirmed_scope d), Approval_Approved i False]"
  using ok
proof (cases rule: approve_event_cases)
  case (advance d' d1 db1 n)
  then show ?thesis using dec last by (simp add: approved_doc_def)
next
  case (final d' d1 db1 db2)
  have d': "d' = d" using dec final(1) by simp
  let ?d2 = "finalize_doc env user (d1 \<lparr>ad_status := APPROVAL_APPROVED\<rparr>)"
  have sel: "ad_name ?d2 = i" "ad_gathering ?d2 = ad_gathering d" "confirmed_scope ?d2 = confirmed_scope d"
    using name unfolding final(2) d'
    by (simp_all add: approved_doc_def finalize_doc_def decide_step_def confirmed_scope_def)
  note sv = save_approval_Inr [OF final(5)]
  have "map_option ad_status (map_of (db_approvals db') i) = Some APPROVAL_APPROVED"
    unfolding final(6) using sel(1) by (simp add: sv(1) update_conv')
  moreover have "map_of (db_gatherings db') (ad_gathering d) = Some (g \<lparr>ga_approval_status := Some APPROVAL_APPROVED,
      ga_approval_request := Some i, ga_registration_scope := Some (confirmed_scope d)\<rparr>)"
    unfolding final(6) using g sel
    by (simp add: open_registration_on_final_approval_def update_gathering_lookup
        sync_gathering_status_def sv(2) final(4))
  moreover have "db_events db' = db_events db @ [Step_Approved i (current_or_zero d) user,
         Registration_Opened i (ad_gathering d) (confirmed_scope d), Approval_Approved i False]"
    unfolding final(6) using sel d'
    by (simp add: emit_event_def open_registration_on_final_approval_def update_gathering_def
        sync_gathering_status_def sv(3) final(4))
  ultimately show ?thesis by simp
qed

lemma final_approval_writes_back_witness:
  "\<exists>db db'. demo_pending = Inr db \<and> approve_event demo_env db ''M2'' ''A'' None = Inr db'
     \<and> map_option ad_status (map_of (db_approvals db') ''A'') = Some APPROVAL_APPROVED"
proof -
  have run: "case demo_pending of Inl e \<Rightarrow> False | Inr db \<Rightarrow>
      is_ok (approve_event demo_env db ''M2'' ''A'' None)
      \<and> (case decide_current_step demo_env db ''M2'' ''A'' of Inl e \<Rightarrow> False
         | Inr d \<Rightarrow> ad_name d = ''A'' \<and> map_of (db_gatherings db) (ad_gathering d) \<noteq> None
             \<and> current_step_index (step_statuses (approved_doc demo_env ''M2'' None d)) (ad_current_step d) = None)"
    by code_simp
  then obtain db db' d where "demo_pending = Inr db" "approve_event demo_env db ''M2'' ''A'' None = Inr db'"
    "decide_current_step demo_env db ''M2'' ''A'' = Inr d" "ad_name d = ''A''"
    "map_of (db_gatherings db) (ad_gathering d) \<noteq> None"
    "current_step_index (step_statuses (approved_doc demo_env ''M2'' None d)) (ad_current_step d) = None"
    by (auto simp: is_ok_iff split: sum.splits)
  then show ?thesis using final_approval_writes_back by blast
qed

text \<open>A pending request can never be withdrawn: the endpoint admits Draft and Pending, but
  Pending to Withdrawn is not a legal transition, so the save always raises.\<close>
theorem withdraw_pending_fails:
  assumes "map_of (db_approvals db) i = Some d" "ad_name d = i" "ad_status d = APPROVAL_PENDING"
  shows "\<exists>e. withdraw_event_request env db user i = Inl e"
proof -
  have "\<not> is_valid_approval_transition (Some APPROVAL_PENDING) APPROVAL_WITHDRAWN" by code_simp
  then have "save_approval env db (d \<lparr>ad_status := APPROVAL_WITHDRAWN\<rparr>) \<noteq> Inr db'" for db'
    using save_approval_Inr(4) [of env db "d \<lparr>ad_status := APPROVAL_WITHDRAWN\<rparr>" db'] assms by auto
  then have "withdraw_event_request env db user i \<noteq> Inr db'" for db'
    using assms(1) by (auto simp: withdraw_event_request_def res_bind_Inr_iff get_approval_Inr Let_def)
  then show ?thesis by (cases "withdraw_event_request env db user i") auto
qed

lemma demo_pending_ok:
  "case demo_pending of Inl e \<Rightarrow> False
   | Inr db \<Rightarrow> (case map_of (db_approvals db) ''A'' of None \<Rightarrow> False
      | Some d \<Rightarrow> ad_name d = ''A'' \<and> ad_status d = APPROVAL_PENDING)"
  by code_simp

lemma withdraw_pending_fails_witness:
  "\<exists>db e. demo_pending = Inr db \<and> withdraw_event_request demo_env db ''u1'' ''A'' = Inl e"
proof -
  from demo_pending_ok obtain db d where "demo_pending = Inr db" "map_of (db_approvals db) ''A'' = Some d"
    "ad_name d = ''A''" "ad_status d = APPROVAL_PENDING"
    by (auto split: sum.splits option.splits)
  then show ?thesis using withdraw_pending_fails by blast
qed

text \<open>Nothing ties the Draft to Approved edge to the capacity threshold: the validate hook
  accepts a plain save which sets a draft without any approval step to Approved, neither
  auto-approved nor decided by anybody.\<close>
theorem plain_save_approves:
  "\<exists>db db' d. save_approval demo_env demo_approval_db demo_request = Inr db
     \<and> save_approval demo_env db (demo_request \<lparr>ad_status := APPROVAL_APPROVED\<rparr>) = Inr db'
     \<and> map_of (db_approvals db') ''A'' = Some d \<and> ad_status d = APPROVAL_APPROVED
     \<and> \<not> ad_auto_approved d \<and> ad_steps d = []"
proof -
  have "case save_approval demo_env demo_approval_db demo_request of Inl e \<Rightarrow> False | Inr db \<Rightarrow>
      (case save_approval demo_env db (demo_request \<lparr>ad_status := APPROVAL_APPROVED\<rparr>) of Inl e \<Rightarrow> False
       | Inr db' \<Rightarrow> (case map_of (db_approvals db') ''A'' of None \<Rightarrow> False
          | Some d \<Rightarrow> ad_status d = APPROVAL_APPROVED \<and> \<not> ad_auto_approved d \<and> ad_steps d = []))"
    by code_simp
  then show ?thesis by (auto split: sum.splits option.splits)
qed

end
