(* ===== verification/Registrations.thy ===== *)
theory Registrations
  imports Traversal Status_Machine "HOL-Library.List_Lexorder" "HOL-Library.Char_ord"
    "HOL-Library.Product_Lexorder"
begin

text \<open>
  Model of \<open>flock_os/registrations.py\<close>: the scope and status catalogs of event
  registrations, the eligibility predicate over the scope gateway, the registration
  window, the capacity decision, the waitlist order and the bulk partition.

  Times are ISO strings, compared by code points as Python compares strings
  (\<open>List_Lexorder\<close> over \<open>Char_ord\<close>).  The subtree reads of the gateway go through the
  traversal service and can raise, so they return a result.
\<close>

section \<open>Catalogs\<close>

definition SCOPE_NONE :: string where [status_defs]: "SCOPE_NONE = ''None''"
definition SCOPE_OWN_GROUP :: string where [status_defs]: "SCOPE_OWN_GROUP = ''Own Group''"
definition SCOPE_GROUP_SUBTREE :: string where [status_defs]: "SCOPE_GROUP_SUBTREE = ''Group Subtree''"
definition SCOPE_BRANCH :: string where [status_defs]: "SCOPE_BRANCH = ''Branch''"
definition SCOPE_BRANCH_SUBTREE :: string where [status_defs]: "SCOPE_BRANCH_SUBTREE = ''Branch Subtree''"
definition SCOPE_ORG_WIDE :: string where [status_defs]: "SCOPE_ORG_WIDE = ''Org-wide''"
definition SCOPE_INVITED_ONLY :: string where [status_defs]: "SCOPE_INVITED_ONLY = ''Invited Only''"

definition REGISTRATION_SCOPES :: "string list" where
  "REGISTRATION_SCOPES = [SCOPE_NONE, SCOPE_OWN_GROUP, SCOPE_GROUP_SUBTREE, SCOPE_BRANCH,
     SCOPE_BRANCH_SUBTREE, SCOPE_ORG_WIDE, SCOPE_INVITED_ONLY]"

definition DEFAULT_REGISTRATION_SCOPE :: string where
  "DEFAULT_REGISTRATION_SCOPE = SCOPE_OWN_GROUP"

definition CLOSED_SCOPES :: "string set" where
  "CLOSED_SCOPES = {SCOPE_NONE}"

definition REGISTRATION_REGISTERED :: string where [status_defs]: "REGISTRATION_REGISTERED = ''Registered''"
definition REGISTRATION_WAITLISTED :: string where [status_defs]: "REGISTRATION_WAITLISTED = ''Waitlisted''"
definition REGISTRATION_CANCELLED :: string where [status_defs]: "REGISTRATION_CANCELLED = ''Cancelled''"
definition REGISTRATION_CHECKED_IN :: string where [status_defs]: "REGISTRATION_CHECKED_IN = ''Checked-in''"
definition REGISTRATION_NO_SHOW :: string where [status_defs]: "REGISTRATION_NO_SHOW = ''No-show''"

definition REGISTRATION_STATUSES :: "string list" where
  "REGISTRATION_STATUSES = [REGISTRATION_REGISTERED, REGISTRATION_WAITLISTED,
     REGISTRATION_CANCELLED, REGISTRATION_CHECKED_IN, REGISTRATION_NO_SHOW]"

definition DEFAULT_REGISTRATION_STATUS :: string where
  "DEFAULT_REGISTRATION_STATUS = REGISTRATION_REGISTERED"

definition INACTIVE_REGISTRATION_STATUSES :: "string set" where
  "INACTIVE_REGISTRATION_STATUSES = {REGISTRATION_CANCELLED, REGISTRATION_NO_SHOW}"

definition REGISTRATION_TRANSITIONS :: "(string \<times> string list) list" where
  "REGISTRATION_TRANSITIONS =
    [(REGISTRATION_REGISTERED, [REGISTRATION_CHECKED_IN, REGISTRATION_CANCELLED]),
     (REGISTRATION_WAITLISTED, [REGISTRATION_REGISTERED, REGISTRATION_CANCELLED]),
     (REGISTRATION_CANCELLED, []),
     (REGISTRATION_CHECKED_IN, []),
     (REGISTRATION_NO_SHOW, [])]"

definition TERMINAL_REGISTRATION_STATUSES :: "string set" where
  "TERMINAL_REGISTRATION_STATUSES =
     {REGISTRATION_CANCELLED, REGISTRATION_CHECKED_IN, REGISTRATION_NO_SHOW}"

definition VIA_SELF :: string where "VIA_SELF = ''Self''"
definition VIA_LEADER :: string where "VIA_LEADER = ''Leader''"
definition VIA_INVITE :: string where "VIA_INVITE = ''Invite''"
definition VIA_BULK :: string where "VIA_BULK = ''Bulk''"
definition REGISTRATION_VIA :: "string list" where
  "REGISTRATION_VIA = [VIA_SELF, VIA_LEADER, VIA_INVITE, VIA_BULK]"
definition DEFAULT_REGISTRATION_VIA :: string where
  "DEFAULT_REGISTRATION_VIA = VIA_SELF"

datatype registration_error =
    Registration_Bad_Transition string string
  | Registration_Unknown_Scope string
  | Registration_Bad_Batch_Size int
  | Registration_Tree traversal_error

section \<open>Status guard\<close>

definition is_terminal_registration_status :: "string \<Rightarrow> bool" where
  "is_terminal_registration_status status = (status \<in> TERMINAL_REGISTRATION_STATUSES)"

definition is_valid_registration_transition :: "string \<Rightarrow> string \<Rightarrow> bool" where
  "is_valid_registration_transition from_status to_status =
    (if to_status \<notin> set REGISTRATION_STATUSES then False
     else if from_status = to_status then True
     else to_status \<in> set (table_get REGISTRATION_TRANSITIONS from_status))"

definition validate_registration_transition :: "string \<Rightarrow> string \<Rightarrow> registration_error + unit" where
  "validate_registration_transition from_status to_status =
    (if is_valid_registration_transition from_status to_status then Inr ()
     else Inl (Registration_Bad_Transition from_status to_status))"

section \<open>The scope gateway\<close>

record gathering_scope =
  gs_branch :: "docname option"
  gs_group :: "docname option"
  gs_organization :: "docname option"

record scope_gateway =
  rg_member_branch :: "docname \<Rightarrow> docname option"
  rg_member_organization :: "docname \<Rightarrow> docname option"
  rg_member_groups :: "docname \<Rightarrow> docname list"
  rg_group_subtree :: "docname \<Rightarrow> registration_error + docname list"
  rg_branch_subtree :: "docname \<Rightarrow> registration_error + docname list"
  rg_gathering_branch :: "docname \<Rightarrow> docname option"
  rg_gathering_organization :: "docname \<Rightarrow> docname option"
  rg_gathering_group :: "docname \<Rightarrow> docname option"
  rg_gathering_scope :: "docname \<Rightarrow> gathering_scope"
  rg_has_valid_invitation :: "docname \<Rightarrow> docname \<Rightarrow> registration_error + bool"

definition NullRegistrationScopeGateway :: scope_gateway where
  "NullRegistrationScopeGateway = \<lparr>rg_member_branch = (\<lambda>_. None),
     rg_member_organization = (\<lambda>_. None), rg_member_groups = (\<lambda>_. []),
     rg_group_subtree = (\<lambda>_. Inr []), rg_branch_subtree = (\<lambda>_. Inr []),
     rg_gathering_branch = (\<lambda>_. None), rg_gathering_organization = (\<lambda>_. None),
     rg_gathering_group = (\<lambda>_. None),
     rg_gathering_scope = (\<lambda>_. \<lparr>gs_branch = None, gs_group = None, gs_organization = None\<rparr>),
     rg_has_valid_invitation = (\<lambda>_ _. Inr False)\<rparr>"

definition is_invitation_expired :: "string option \<Rightarrow> string \<Rightarrow> bool" where
  "is_invitation_expired expires_on now = (if \<not> truthy expires_on then False else the expires_on \<le> now)"

section \<open>Eligibility\<close>

definition is_member_in_scope ::
  "docname \<Rightarrow> docname \<Rightarrow> string \<Rightarrow> scope_gateway \<Rightarrow> registration_error + bool" where
  "is_member_in_scope member gathering scope gateway =
    (if member = [] \<or> gathering = [] then Inr False
     else if scope \<in> CLOSED_SCOPES then Inr False
     else let anchors = rg_gathering_scope gateway gathering;
              gathering_group = gs_group anchors;
              gathering_branch = gs_branch anchors;
              gathering_org = gs_organization anchors
     in if scope = SCOPE_OWN_GROUP then
          (if \<not> truthy gathering_group then Inr False
           else Inr (the gathering_group \<in> set (rg_member_groups gateway member)))
        else if scope = SCOPE_GROUP_SUBTREE then
          (if \<not> truthy gathering_group then Inr False
           else res_bind (rg_group_subtree gateway (the gathering_group)) (\<lambda>names.
             let subtree = set names
             in if subtree = {} then Inr False
                else Inr (set (rg_member_groups gateway member) \<inter> subtree \<noteq> {})))
        else if scope = SCOPE_BRANCH then
          (if \<not> truthy gathering_branch then Inr False
           else Inr (rg_member_branch gateway member = gathering_branch))
        else if scope = SCOPE_BRANCH_SUBTREE then
          (if \<not> truthy gathering_branch then Inr False
           else res_bind (rg_branch_subtree gateway (the gathering_branch)) (\<lambda>names.
             let subtree = set names
             in if subtree = {} then Inr False
                else Inr (case rg_member_branch gateway member of
                       None \<Rightarrow> False | Some b \<Rightarrow> b \<in> subtree)))
        else if scope = SCOPE_ORG_WIDE then
          (if \<not> truthy gathering_org then Inr False
           else Inr (rg_member_organization gateway member = gathering_org))
        else if scope = SCOPE_INVITED_ONLY then rg_has_valid_invitation gateway gathering member
        else Inl (Registration_Unknown_Scope scope))"

datatype eligibility_verdict =
    Reason_Closed string
  | Reason_Eligible string
  | Reason_No_Invitation string
  | Reason_Out_Of_Scope string
  | Reason_At_Capacity
  | Reason_Not_Open
  | Reason_No_Member

definition eligibility_reason ::
  "docname \<Rightarrow> docname \<Rightarrow> string \<Rightarrow> scope_gateway \<Rightarrow> registration_error + eligibility_verdict" where
  "eligibility_reason member gathering scope gateway =
    (if scope \<in> CLOSED_SCOPES then Inr (Reason_Closed scope)
     else if scope = SCOPE_INVITED_ONLY then
       res_bind (is_member_in_scope member gathering scope gateway) (\<lambda>b.
         if b then Inr (Reason_Eligible scope) else Inr (Reason_No_Invitation scope))
     else res_bind (is_member_in_scope member gathering scope gateway) (\<lambda>b.
         if b then Inr (Reason_Eligible scope) else Inr (Reason_Out_Of_Scope scope)))"

section \<open>Window and capacity\<close>

record registration_window =
  rw_approval_status :: string
  rw_scope :: string
  rw_opens_on :: "string option"
  rw_closes_on :: "string option"
  rw_capacity :: "int option"
  rw_registered_count :: int

definition is_registration_window_open :: "registration_window \<Rightarrow> string \<Rightarrow> bool" where
  "is_registration_window_open window now =
    (if rw_scope window \<in> CLOSED_SCOPES then False
     else if rw_approval_status window \<noteq> ''Approved'' then False
     else if truthy (rw_opens_on window) \<and> now < the (rw_opens_on window) then False
     else if truthy (rw_closes_on window) \<and> the (rw_closes_on window) < now then False
     else True)"

record capacity_outcome =
  cd_status :: string
  cd_seated :: bool

definition is_waitlisted :: "capacity_outcome \<Rightarrow> bool" where
  "is_waitlisted d = (cd_status d = REGISTRATION_WAITLISTED)"

definition capacity_decision :: "int option \<Rightarrow> int \<Rightarrow> capacity_outcome" where
  "capacity_decision capacity registered_count =
    (case capacity of
       None \<Rightarrow> \<lparr>cd_status = REGISTRATION_REGISTERED, cd_seated = True\<rparr>
     | Some c \<Rightarrow>
         if c \<le> 0 then \<lparr>cd_status = REGISTRATION_REGISTERED, cd_seated = True\<rparr>
         else if registered_count < c then \<lparr>cd_status = REGISTRATION_REGISTERED, cd_seated = True\<rparr>
         else \<lparr>cd_status = REGISTRATION_WAITLISTED, cd_seated = False\<rparr>)"

definition is_capacity_full :: "int option \<Rightarrow> int \<Rightarrow> bool" where
  "is_capacity_full capacity registered_count =
    (case capacity of None \<Rightarrow> False | Some c \<Rightarrow> if c \<le> 0 then False else c \<le> registered_count)"

definition is_gathering_registration_eligible ::
  "registration_window \<Rightarrow> string \<Rightarrow> docname \<Rightarrow> docname \<Rightarrow> scope_gateway \<Rightarrow> registration_error + bool" where
  "is_gathering_registration_eligible window now member gathering gateway =
    (if is_registration_window_open window now
     then is_member_in_scope member gathering (rw_scope window) gateway
     else Inr False)"

section \<open>Waitlist and bulk partition\<close>

record waitlist_candidate =
  wc_name :: docname
  wc_gathering :: docname
  wc_registrant :: docname
  wc_registered_at :: string

definition waitlist_key :: "waitlist_candidate \<Rightarrow> string \<times> docname" where
  "waitlist_key c = (wc_registered_at c, wc_name c)"

text \<open>Python's \<open>min(xs, key=k)\<close>: the first element with the least key.\<close>

fun py_min :: "('a \<Rightarrow> 'k::linorder) \<Rightarrow> 'a \<Rightarrow> 'a list \<Rightarrow> 'a" where
  "py_min key best [] = best"
| "py_min key best (c # cs) = py_min key (if key c < key best then c else best) cs"

definition select_waitlist_promotion_candidate ::
  "waitlist_candidate list \<Rightarrow> waitlist_candidate option" where
  "select_waitlist_promotion_candidate candidates =
    (case candidates of [] \<Rightarrow> None | c # cs \<Rightarrow> Some (py_min waitlist_key c cs))"

definition DEFAULT_BULK_BATCH_SIZE :: int where
  "DEFAULT_BULK_BATCH_SIZE = 500"

definition chunk_members :: "docname list \<Rightarrow> int \<Rightarrow> registration_error + docname list list" where
  "chunk_members members batch_size =
    (if batch_size < 1 then Inl (Registration_Bad_Batch_Size batch_size)
     else Inr (chunks (nat batch_size) (dedup (filter (\<lambda>m. m \<noteq> []) members))))"

section \<open>The status guard as a contract\<close>

interpretation registration: status_guard REGISTRATION_STATUSES REGISTRATION_TRANSITIONS
  is_valid_registration_transition
  by unfold_locales (simp add: is_valid_registration_transition_def)

lemma registration_table:
  "table_get REGISTRATION_TRANSITIONS s =
    (if s = ''Registered'' then [''Checked-in'', ''Cancelled'']
     else if s = ''Waitlisted'' then [''Registered'', ''Cancelled''] else [])"
  by (simp add: table_get_def REGISTRATION_TRANSITIONS_def status_defs)

section \<open>The contract of the scope gateway\<close>

text \<open>What the eligibility rules rely on: a subtree that is read contains its root, and a
  member's organization is that of the home branch.\<close>

locale scope_contract =
  fixes gw :: scope_gateway
    and org_of :: "docname \<Rightarrow> docname option"
  assumes group_subtree_root: "rg_group_subtree gw g = Inr names \<Longrightarrow> g \<noteq> [] \<Longrightarrow> g \<in> set names"
    and branch_subtree_root: "rg_branch_subtree gw b = Inr names \<Longrightarrow> b \<noteq> [] \<Longrightarrow> b \<in> set names"
    and member_org: "rg_member_branch gw m = Some b \<Longrightarrow> b \<noteq> [] \<Longrightarrow> rg_member_organization gw m = org_of b"
begin

lemma own_group_in_subtree:
  assumes "is_member_in_scope m g SCOPE_OWN_GROUP gw = Inr True"
    and "is_member_in_scope m g SCOPE_GROUP_SUBTREE gw = Inr b"
  shows b
proof -
  let ?grp = "the (gs_group (rg_gathering_scope gw g))"
  from assms(1) have g: "truthy (gs_group (rg_gathering_scope gw g))"
    and mem: "?grp \<in> set (rg_member_groups gw m)" and ne: "m \<noteq> []" "g \<noteq> []"
    by (auto simp: is_member_in_scope_def CLOSED_SCOPES_def status_defs Let_def split: if_splits)
  from g obtain names where "rg_group_subtree gw ?grp = Inr names"
    "b \<longleftrightarrow> set names \<noteq> {} \<and> set (rg_member_groups gw m) \<inter> set names \<noteq> {}"
    using assms(2) ne
    by (auto simp: is_member_in_scope_def CLOSED_SCOPES_def status_defs Let_def res_bind_Inr_iff
        split: if_splits)
  moreover have "?grp \<noteq> []" using g by (cases "gs_group (rg_gathering_scope gw g)") auto
  ultimately show b using group_subtree_root mem by fastforce
qed

lemma branch_in_subtree:
  assumes "is_member_in_scope m g SCOPE_BRANCH gw = Inr True"
    and "is_member_in_scope m g SCOPE_BRANCH_SUBTREE gw = Inr b"
  shows b
proof -
  let ?br = "the (gs_branch (rg_gathering_scope gw g))"
  from assms(1) have g: "truthy (gs_branch (rg_gathering_scope gw g))"
    and mem: "rg_member_branch gw m = gs_branch (rg_gathering_scope gw g)" and ne: "m \<noteq> []" "g \<noteq> []"
    by (auto simp: is_member_in_scope_def CLOSED_SCOPES_def status_defs Let_def split: if_splits)
  obtain br where br: "gs_branch (rg_gathering_scope gw g) = Some br" "br \<noteq> []"
    using g by (cases "gs_branch (rg_gathering_scope gw g)") auto
  from br obtain names where "rg_branch_subtree gw br = Inr names"
    "b \<longleftrightarrow> set names \<noteq> {} \<and> br \<in> set names"
    using assms(2) ne mem
    by (auto simp: is_member_in_scope_def CLOSED_SCOPES_def status_defs Let_def res_bind_Inr_iff
        split: if_splits)
  then show b using branch_subtree_root br by fastforce
qed

lemma branch_in_organization:
  assumes "is_member_in_scope m g SCOPE_BRANCH gw = Inr True"
    and "truthy (gs_organization (rg_gathering_scope gw g))"
    and "\<And>b. gs_branch (rg_gathering_scope gw g) = Some b \<Longrightarrow>
       org_of b = gs_organization (rg_gathering_scope gw g)"
  shows "is_member_in_scope m g SCOPE_ORG_WIDE gw = Inr True"
proof -
  obtain br where br: "gs_branch (rg_gathering_scope gw g) = Some br" "br \<noteq> []"
    "rg_member_branch gw m = Some br" "m \<noteq> []" "g \<noteq> []"
    using assms(1) by (cases "gs_branch (rg_gathering_scope gw g)")
      (auto simp: is_member_in_scope_def CLOSED_SCOPES_def status_defs Let_def split: if_splits)
  then have "rg_member_organization gw m = gs_organization (rg_gathering_scope gw g)"
    using member_org assms(3) by simp
  then show ?thesis using assms(2) br
    by (simp add: is_member_in_scope_def CLOSED_SCOPES_def status_defs Let_def)
qed

end

section \<open>Order lemmas\<close>

lemma py_min_props:
  "py_min key best cs \<in> insert best (set cs) \<and> (\<forall>c \<in> insert best (set cs). key (py_min key best cs) \<le> key c)"
proof (induction cs arbitrary: best)
  case (Cons c cs)
  from Cons.IH [of "if key c < key best then c else best"] show ?case
    by (auto split: if_splits intro: order_trans)
qed simp

lemma select_in: "select_waitlist_promotion_candidate cs = Some c \<Longrightarrow> c \<in> set cs"
  using py_min_props [of waitlist_key] by (fastforce simp: select_waitlist_promotion_candidate_def split: list.splits)

lemma select_least:
  "select_waitlist_promotion_candidate cs = Some c \<Longrightarrow> d \<in> set cs \<Longrightarrow> waitlist_key c \<le> waitlist_key d"
  using py_min_props [of waitlist_key] by (fastforce simp: select_waitlist_promotion_candidate_def split: list.splits)

lemma select_None [simp]: "select_waitlist_promotion_candidate cs = None \<longleftrightarrow> cs = []"
  by (simp add: select_waitlist_promotion_candidate_def split: list.splits)

lemma select_Nil [simp]: "select_waitlist_promotion_candidate [] = None"
  by simp

lemma select_singleton [simp]: "select_waitlist_promotion_candidate [c] = Some c"
  by (simp add: select_waitlist_promotion_candidate_def)

lemma length_chunks: "n > 0 \<Longrightarrow> length (chunks n xs) = (length xs + n - 1) div n"
proof (induction n xs rule: chunks.induct)
  case (1 n xs)
  show ?case
  proof (cases "xs = []")
    case False
    then have "length (chunks n xs) = Suc ((length xs - n + n - 1) div n)"
      using 1 by (subst chunks.simps) simp
    also have "\<dots> = (length xs + n - 1) div n"
    proof (cases "length xs \<le> n")
      case True
      then obtain k where k: "length xs = Suc k" "k < n"
        using False by (cases "length xs") auto
      then have "(length xs + n - 1) div n = (k + n) div n" "length xs - n = 0" by auto
      moreover have "(k + n) div n = Suc (k div n)" using k by (simp add: div_add_self2)
      ultimately show ?thesis using k by simp
    next
      case False
      then have "length xs + n - 1 = (length xs - n + n - 1) + n" by simp
      then show ?thesis using 1(2) by (metis add_Suc_right div_add_self2 less_numeral_extra(3) Suc_eq_plus1)
    qed
    finally show ?thesis .
  qed (use 1 in simp)
qed

section \<open>Properties\<close>

text \<open>The registration life cycle over the statuses accepted by the guard: Cancelled,
  Checked-in and No-show are final, No-show is entered by no transition, and a waitlisted
  registration is checked in only after it was seated.\<close>
theorem registration_lifecycle:
  assumes h: "walks is_valid_registration_transition s hist"
  shows "(is_terminal_registration_status s \<longrightarrow> set hist \<subseteq> {s})
    \<and> (s \<noteq> REGISTRATION_NO_SHOW \<longrightarrow> REGISTRATION_NO_SHOW \<notin> set hist)
    \<and> (s = REGISTRATION_WAITLISTED \<and> REGISTRATION_CHECKED_IN \<in> set hist \<longrightarrow>
        (\<exists>xs ys. hist = xs @ REGISTRATION_CHECKED_IN # ys \<and> REGISTRATION_REGISTERED \<in> set xs))"
proof (intro conjI impI)
  assume "is_terminal_registration_status s"
  then show "set hist \<subseteq> {s}"
    using registration.terminal_history [OF _ h]
    by (auto simp: is_terminal_registration_status_def TERMINAL_REGISTRATION_STATUSES_def
        registration_table status_defs)
next
  assume s: "s \<noteq> REGISTRATION_NO_SHOW"
  have "set hist \<subseteq> - {REGISTRATION_NO_SHOW}"
    by (rule registration.closed_set [OF _ _ h])
       (use s in \<open>auto simp: registration_table status_defs split: if_splits\<close>)
  then show "REGISTRATION_NO_SHOW \<notin> set hist" by auto
next
  assume "s = REGISTRATION_WAITLISTED \<and> REGISTRATION_CHECKED_IN \<in> set hist"
  then have w: "s = REGISTRATION_WAITLISTED" and c: "REGISTRATION_CHECKED_IN \<in> set hist" by auto
  have "\<exists>xs ys. s # hist = xs @ REGISTRATION_CHECKED_IN # ys
    \<and> REGISTRATION_CHECKED_IN \<notin> set xs \<and> REGISTRATION_REGISTERED \<in> set xs"
    by (rule registration.entered_through [OF _ h c])
       (auto simp: registration_table w status_defs split: if_splits)
  then obtain xs ys where xs: "s # hist = xs @ REGISTRATION_CHECKED_IN # ys"
    "REGISTRATION_REGISTERED \<in> set xs" by auto
  then have "hist = tl xs @ REGISTRATION_CHECKED_IN # ys \<and> REGISTRATION_REGISTERED \<in> set (tl xs)"
    using w by (cases xs) (auto simp: status_defs)
  then show "\<exists>xs ys. hist = xs @ REGISTRATION_CHECKED_IN # ys \<and> REGISTRATION_REGISTERED \<in> set xs"
    by blast
qed

lemma registration_lifecycle_witness:
  "\<exists>xs ys. [REGISTRATION_REGISTERED, REGISTRATION_CHECKED_IN] = xs @ REGISTRATION_CHECKED_IN # ys
    \<and> REGISTRATION_REGISTERED \<in> set xs"
proof -
  have "walks is_valid_registration_transition REGISTRATION_WAITLISTED
    [REGISTRATION_REGISTERED, REGISTRATION_CHECKED_IN]" by code_simp
  from registration_lifecycle [OF this] show ?thesis by simp
qed

text \<open>\<open>chunk_members\<close> cuts the distinct non-empty member names, in order of first
  occurrence, into the least number of non-empty batches of at most \<open>batch_size\<close> names, and
  raises exactly when \<open>batch_size\<close> is below one.\<close>
theorem chunk_members_partition:
  "case chunk_members members batch_size of
     Inl e \<Rightarrow> batch_size < 1 \<and> e = Registration_Bad_Batch_Size batch_size
   | Inr batches \<Rightarrow> batch_size \<ge> 1
       \<and> concat batches = dedup (filter (\<lambda>m. m \<noteq> []) members)
       \<and> distinct (concat batches) \<and> set (concat batches) = set members - {[]}
       \<and> (\<forall>b \<in> set batches. b \<noteq> [] \<and> int (length b) \<le> batch_size)
       \<and> int (length batches) = (int (length (concat batches)) + batch_size - 1) div batch_size"
proof (cases "batch_size < 1")
  case False
  then have n: "nat batch_size > 0" "batch_size = int (nat batch_size)" by auto
  let ?ms = "dedup (filter (\<lambda>m. m \<noteq> []) members)"
  have "int ((length ?ms + nat batch_size - 1) div nat batch_size) =
      (int (length ?ms) + batch_size - 1) div batch_size"
    using n by (simp add: zdiv_int of_nat_diff)
  moreover have "b \<in> set (chunks (nat batch_size) ?ms) \<Longrightarrow> int (length b) \<le> batch_size" for b
    using chunks_bounds [of b] n by fastforce
  ultimately show ?thesis
    using False n(1) chunks_bounds
    by (auto simp: chunk_members_def concat_chunks length_chunks)
qed (simp add: chunk_members_def)

theorem chunk_members_partition_witness:
  "chunk_members [''a'', ''b'', [], ''a'', ''c''] 2 = Inr [[''a'', ''b''], [''c'']]
   \<and> set (concat [[''a'', ''b''], [''c'']]) = set [''a'', ''b'', [], ''a'', ''c''] - {[]}"
proof -
  have run: "chunk_members [''a'', ''b'', [], ''a'', ''c''] 2 = Inr [[''a'', ''b''], [''c'']]"
    by code_simp
  show ?thesis
    using chunk_members_partition [of 2 "[''a'', ''b'', [], ''a'', ''c'']"]
    unfolding run sum.case by (intro conjI refl) (elim conjE, assumption)
qed

end
