(* ===== verification/Tree_Tables.thy ===== *)
theory Tree_Tables
  imports Traversal "HOL-Library.List_Lexorder" "HOL-Library.Char_ord"
begin

text \<open>
  Model of \<open>FrappeTreeReadGateway\<close> (\<open>flock_os/traversal.py\<close>): the production adapter of the
  tree port, over the tables \<open>Flock Branch\<close>, \<open>Flock Group\<close> and \<open>Flock Group Member\<close>.  A
  row of a tree table carries the nested-set bounds the framework maintains.  \<open>order_by\<close> on
  a text column sorts by the collation weight of the database, a parameter of the tables.
\<close>

section \<open>Tables\<close>

record 'r nested_row =
  nr_row :: 'r
  nr_lft :: int
  nr_rgt :: int

record roster_row =
  rr_group :: "string option"
  rr_member :: docname
  rr_role :: string
  rr_status :: string

record tree_tables =
  tt_branches :: "branch_row nested_row list"
  tt_groups :: "group_row nested_row list"
  tt_roster :: "roster_row list"
  tt_collate :: "string \<Rightarrow> string"

definition find_row :: "('r \<Rightarrow> docname) \<Rightarrow> 'r nested_row list \<Rightarrow> docname \<Rightarrow> 'r nested_row option" where
  "find_row name_of rows name = find (\<lambda>r. name_of (nr_row r) = name) rows"

text \<open>\<open>get_all(..., filters = lft >= l and rgt <= r, order_by = lft)\<close>.\<close>

definition rows_within :: "'r nested_row list \<Rightarrow> int \<Rightarrow> int \<Rightarrow> 'r nested_row list" where
  "rows_within rows l r = sort_key nr_lft (filter (\<lambda>x. l \<le> nr_lft x \<and> nr_rgt x \<le> r) rows)"

definition fetch_subtree_rows ::
  "('r \<Rightarrow> docname) \<Rightarrow> 'r nested_row list \<Rightarrow> docname option \<Rightarrow> 'r list" where
  "fetch_subtree_rows name_of rows root =
    (case root of
       None \<Rightarrow> map nr_row rows
     | Some b \<Rightarrow>
        (case find_row name_of rows b of
           None \<Rightarrow> []
         | Some x \<Rightarrow> map nr_row (rows_within rows (nr_lft x) (nr_rgt x))))"

definition fetch_groups_led_by :: "tree_tables \<Rightarrow> docname \<Rightarrow> group_row list" where
  "fetch_groups_led_by tt member =
    sort_key (\<lambda>r. tt_collate tt (or_empty (gr_group_name r)))
      (filter (\<lambda>r. gr_leader r = Some member) (map nr_row (tt_groups tt)))"

definition fetch_group_member_rows_for :: "tree_tables \<Rightarrow> docname \<Rightarrow> string list \<Rightarrow> roster_edge list" where
  "fetch_group_member_rows_for tt member roles =
    map (\<lambda>r. \<lparr>re_group = rr_group r, re_member = rr_member r, re_role = rr_role r\<rparr>)
      (sort_key (\<lambda>r. tt_collate tt (or_empty (rr_group r)))
        (filter (\<lambda>r. rr_member r = member \<and> (roles \<noteq> [] \<longrightarrow> rr_role r \<in> set roles)) (tt_roster tt)))"

definition FrappeTreeReadGateway :: "tree_tables \<Rightarrow> tree_gateway" where
  "FrappeTreeReadGateway tt =
    \<lparr>gw_get_branch = (\<lambda>n. map_option nr_row (find_row br_name (tt_branches tt) n)),
     gw_get_group = (\<lambda>n. map_option nr_row (find_row gr_name (tt_groups tt) n)),
     gw_branch_rows = fetch_subtree_rows br_name (tt_branches tt),
     gw_group_rows = fetch_subtree_rows gr_name (tt_groups tt),
     gw_groups_led_by = fetch_groups_led_by tt,
     gw_roster_edges = fetch_group_member_rows_for tt\<rparr>"

section \<open>The nested-set law\<close>

text \<open>What the framework promises of the bounds of a tree table: row names are unique, the
  parent links are acyclic, and one row's bounds enclose another's exactly when the second
  is in the subtree of the first.\<close>

definition table_edges ::
  "('r \<Rightarrow> docname) \<Rightarrow> ('r \<Rightarrow> string option) \<Rightarrow> 'r nested_row list \<Rightarrow> (docname \<times> docname) set" where
  "table_edges name_of parent_of rows =
     {(p, x). \<exists>r \<in> set rows. name_of (nr_row r) = x \<and> none_if_empty (parent_of (nr_row r)) = Some p}"

definition nested_sets ::
  "('r \<Rightarrow> docname) \<Rightarrow> ('r \<Rightarrow> string option) \<Rightarrow> 'r nested_row list \<Rightarrow> bool" where
  "nested_sets name_of parent_of rows \<longleftrightarrow>
     distinct (map (name_of o nr_row) rows)
     \<and> acyclic (table_edges name_of parent_of rows)
     \<and> (\<forall>x \<in> set rows. \<forall>y \<in> set rows.
          nr_lft x \<le> nr_lft y \<and> nr_rgt y \<le> nr_rgt x \<longleftrightarrow>
          (name_of (nr_row x), name_of (nr_row y)) \<in> (table_edges name_of parent_of rows)\<^sup>*)"

lemma find_row_SomeD: "find_row nm rows b = Some x \<Longrightarrow> x \<in> set rows \<and> nm (nr_row x) = b"
  by (auto simp: find_row_def find_Some_iff)

lemma find_row_None_iff: "find_row nm rows b = None \<longleftrightarrow> b \<notin> (nm o nr_row) ` set rows"
  by (auto simp: find_row_def find_None_iff)

lemma set_rows_within [simp]:
  "set (rows_within rows l r) = {x \<in> set rows. l \<le> nr_lft x \<and> nr_rgt x \<le> r}"
  by (auto simp: rows_within_def)

lemma rows_within_distinct:
  "distinct (map (nm o nr_row) rows) \<Longrightarrow> distinct (map nm (map nr_row (rows_within rows l r)))"
  by (auto simp: rows_within_def distinct_map comp_def inj_on_def)

text \<open>The rows of a subtree always include its root, whatever the bounds are.\<close>

lemma fetch_subtree_own:
  assumes "find_row nm rows b = Some x"
  shows "nr_row x \<in> set (fetch_subtree_rows nm rows (Some b)) \<and> nm (nr_row x) = b"
  using assms find_row_SomeD [OF assms] by (auto simp: fetch_subtree_rows_def)

lemma rows_for_own:
  assumes "b \<in> nm ` set rows"
  shows "\<exists>r. map_of (snd (snd (build_adjacency nm pk rows))) b = Some r \<and> nm r = b"
proof -
  let ?m = "rev (map (\<lambda>r. (nm r, r)) rows)"
  have "b \<in> fst ` set ?m" using assms by force
  then obtain r where "map_of ?m b = Some r" by (metis map_of_eq_None_iff not_None_eq)
  moreover from this have "nm r = b" by (auto dest!: map_of_SomeD)
  ultimately show ?thesis by (simp add: build_adjacency_rows)
qed

lemma group_subtree_own:
  assumes "group_subtree (FrappeTreeReadGateway tt) g = Inr rows"
  shows "g \<in> gr_name ` set rows"
proof -
  let ?gw = "FrappeTreeReadGateway tt"
  obtain x where x: "find_row gr_name (tt_groups tt) g = Some x"
    using assms by (cases "find_row gr_name (tt_groups tt) g")
      (auto simp: group_subtree_def require_group_def FrappeTreeReadGateway_def)
  from fetch_subtree_own [OF x] have "g \<in> gr_name ` set (gw_group_rows ?gw (Some g))"
    by (force simp: FrappeTreeReadGateway_def)
  from rows_for_own [OF this, of gr_parent] obtain r where
    "map_of (snd (snd (group_subtree_view ?gw (Some g)))) g = Some r" "gr_name r = g"
    by (auto simp: group_subtree_view_def)
  then show ?thesis
    using assms by (cases "group_subtree_view ?gw (Some g)")
      (auto simp: group_subtree_def res_bind_Inr_iff lift_tree_def subtree_of_def rows_for_def
        List.map_filter_simps split: sum.splits)
qed

lemma branch_subtree_own:
  assumes "branch_subtree (FrappeTreeReadGateway tt) b = Inr rows"
  shows "b \<in> br_name ` set rows"
proof -
  let ?gw = "FrappeTreeReadGateway tt"
  obtain x where x: "find_row br_name (tt_branches tt) b = Some x"
    using assms by (cases "find_row br_name (tt_branches tt) b")
      (auto simp: branch_subtree_def require_branch_def FrappeTreeReadGateway_def)
  from fetch_subtree_own [OF x] have "b \<in> br_name ` set (gw_branch_rows ?gw (Some b))"
    by (force simp: FrappeTreeReadGateway_def)
  from rows_for_own [OF this, of br_parent] obtain r where
    "map_of (snd (snd (branch_subtree_view ?gw (Some b)))) b = Some r" "br_name r = b"
    by (auto simp: branch_subtree_view_def)
  then show ?thesis
    using assms by (cases "branch_subtree_view ?gw (Some b)")
      (auto simp: branch_subtree_def res_bind_Inr_iff lift_tree_def subtree_of_def rows_for_def
        List.map_filter_simps split: sum.splits)
qed

lemma nested_within_closed:
  assumes law: "nested_sets br_name br_parent rows" and x: "x \<in> set rows" "br_name (nr_row x) = b"
  defines "sub \<equiv> map nr_row (rows_within rows (nr_lft x) (nr_rgt x))"
  shows "{y. (b, y) \<in> (branch_edges sub)\<^sup>*} = {y. (b, y) \<in> (table_edges br_name br_parent rows)\<^sup>*}"
proof
  have "branch_edges sub \<subseteq> table_edges br_name br_parent rows"
    by (auto simp: branch_edges_def table_edges_def sub_def)
  then show "{y. (b, y) \<in> (branch_edges sub)\<^sup>*} \<subseteq> {y. (b, y) \<in> (table_edges br_name br_parent rows)\<^sup>*}"
    using rtrancl_mono by blast
next
  have "(b, y) \<in> (branch_edges sub)\<^sup>*" if "(b, y) \<in> (table_edges br_name br_parent rows)\<^sup>*" for y
    using that
  proof induction
    case (step y z)
    then obtain r where r: "r \<in> set rows" "br_name (nr_row r) = z"
      "none_if_empty (br_parent (nr_row r)) = Some y" by (auto simp: table_edges_def)
    have "(b, z) \<in> (table_edges br_name br_parent rows)\<^sup>*" using step by auto
    then have "nr_lft x \<le> nr_lft r \<and> nr_rgt r \<le> nr_rgt x"
      using law x r by (fastforce simp: nested_sets_def)
    then have "(y, z) \<in> branch_edges sub" using r by (auto simp: branch_edges_def sub_def)
    with step.IH show ?case by auto
  qed simp
  then show "{y. (b, y) \<in> (table_edges br_name br_parent rows)\<^sup>*} \<subseteq> {y. (b, y) \<in> (branch_edges sub)\<^sup>*}"
    by auto
qed

lemma nested_parent_outside:
  assumes law: "nested_sets br_name br_parent rows" and x: "x \<in> set rows" "br_name (nr_row x) = b"
    and p: "none_if_empty (br_parent (nr_row x)) = Some p"
    and y: "y \<in> set rows" "nr_lft x \<le> nr_lft y" "nr_rgt y \<le> nr_rgt x"
  shows "br_name (nr_row y) \<noteq> p"
proof
  assume "br_name (nr_row y) = p"
  then have "(b, p) \<in> (table_edges br_name br_parent rows)\<^sup>*"
    using law x y by (fastforce simp: nested_sets_def)
  moreover have "(p, b) \<in> table_edges br_name br_parent rows"
    using x p by (auto simp: table_edges_def)
  ultimately have "(p, p) \<in> (table_edges br_name br_parent rows)\<^sup>+" by (rule rtrancl_into_trancl2 [rotated])
  then show False using law by (auto simp: nested_sets_def acyclic_def)
qed

lemma nested_root_walk:
  assumes law: "nested_sets br_name br_parent rows" and x: "find_row br_name rows b = Some x"
  shows "\<exists>as. ancestors_of b (fst (build_adjacency br_name br_parent
    (map nr_row (rows_within rows (nr_lft x) (nr_rgt x))))) = Inr as"
proof -
  let ?sub = "map nr_row (rows_within rows (nr_lft x) (nr_rgt x))"
  let ?P = "fst (build_adjacency br_name br_parent ?sub)"
  let ?m = "map_of (snd (snd (build_adjacency br_name br_parent ?sub)))"
  note xb = find_row_SomeD [OF x]
  have u: "distinct (map br_name ?sub)"
    using law rows_within_distinct [of br_name rows] by (simp add: nested_sets_def)
  have own: "?m b = Some (nr_row x)"
    unfolding build_adjacency_lookup [OF u] using xb by auto
  show ?thesis
  proof (cases "none_if_empty (br_parent (nr_row x))")
    case None
    then have "chain_from ?P (parent_get ?P b) []" by (simp add: build_adjacency_parents own)
    then show ?thesis unfolding ancestors_of_Inr_iff by blast
  next
    case (Some p)
    have "?m p = None"
    proof (rule ccontr)
      assume "?m p \<noteq> None"
      then obtain r where r: "?m p = Some r" by auto
      then have "r \<in> set ?sub \<and> br_name r = p" unfolding build_adjacency_lookup [OF u] .
      then show False using nested_parent_outside [OF law _ _ Some] xb by auto
    qed
    then have "chain_from ?P (parent_get ?P b) [p]"
      using Some by (simp add: build_adjacency_parents own)
    then show ?thesis unfolding ancestors_of_Inr_iff by blast
  qed
qed

section \<open>Properties\<close>

text \<open>C25. Under the nested-set law, the branch subtree of the production gateway is complete:
  for every branch of the table it succeeds and returns, each once and the branch first,
  exactly the branches reachable from it by parent links in the whole table.\<close>
theorem production_branch_subtree:
  assumes law: "nested_sets br_name br_parent (tt_branches tt)"
    and b: "b \<in> (br_name o nr_row) ` set (tt_branches tt)"
  shows "\<exists>out. branch_subtree (FrappeTreeReadGateway tt) b = Inr out
    \<and> out \<noteq> [] \<and> br_name (hd out) = b \<and> distinct (map br_name out)
    \<and> set out \<subseteq> nr_row ` set (tt_branches tt)
    \<and> br_name ` set out = {y. (b, y) \<in> (table_edges br_name br_parent (tt_branches tt))\<^sup>*}"
proof -
  let ?gw = "FrappeTreeReadGateway tt"
  obtain x where x: "find_row br_name (tt_branches tt) b = Some x"
    using b find_row_None_iff [of br_name "tt_branches tt" b] by auto
  note xb = find_row_SomeD [OF x]
  let ?sub = "map nr_row (rows_within (tt_branches tt) (nr_lft x) (nr_rgt x))"
  have rows: "gw_branch_rows ?gw (Some b) = ?sub"
    using x by (simp add: FrappeTreeReadGateway_def fetch_subtree_rows_def)
  have u: "distinct (map br_name ?sub)"
    using law rows_within_distinct [of br_name "tt_branches tt" "nr_lft x" "nr_rgt x"] by (simp add: nested_sets_def)
  obtain as where "ancestors_of b (fst (branch_subtree_view ?gw (Some b))) = Inr as"
    using nested_root_walk [OF law x] by (auto simp: branch_subtree_view_def rows)
  moreover have "gw_get_branch ?gw b \<noteq> None" by (simp add: FrappeTreeReadGateway_def x)
  moreover have "b \<in> br_name ` set ?sub" using xb by auto
  ultimately obtain out where out: "branch_subtree ?gw b = Inr out"
    "set out \<subseteq> set ?sub" "distinct (map br_name out)" "out \<noteq> []" "br_name (hd out) = b"
    "br_name ` set out = {y. (b, y) \<in> (branch_edges ?sub)\<^sup>*}"
    using branch_subtree_spec [of ?gw b as] u unfolding rows by blast
  moreover have "{y. (b, y) \<in> (branch_edges ?sub)\<^sup>*} =
      {y. (b, y) \<in> (table_edges br_name br_parent (tt_branches tt))\<^sup>*}"
    by (rule nested_within_closed [OF law]) (use xb in auto)
  ultimately show ?thesis by auto
qed

definition demo_tables :: tree_tables where
  "demo_tables = \<lparr>tt_branches =
     [\<lparr>nr_row = \<lparr>br_name = ''North'', br_branch_name = None, br_parent = Some ''HQ'',
          br_organization = Some ''O'', br_is_active = Some 1\<rparr>, nr_lft = 2, nr_rgt = 3\<rparr>,
      \<lparr>nr_row = \<lparr>br_name = ''HQ'', br_branch_name = None, br_parent = None,
          br_organization = Some ''O'', br_is_active = Some 1\<rparr>, nr_lft = 1, nr_rgt = 4\<rparr>],
     tt_groups = [], tt_roster = [], tt_collate = (\<lambda>s. s)\<rparr>"

lemma single_edge_rtrancl: "(x, y) \<in> {(a, b)}\<^sup>* \<longleftrightarrow> x = y \<or> (x = a \<and> y = b)" if "a \<noteq> b"
  using that by (auto elim!: converse_rtranclE)

lemma demo_tables_nested: "nested_sets br_name br_parent (tt_branches demo_tables)"
proof -
  have e: "table_edges br_name br_parent (tt_branches demo_tables) = {(''HQ'', ''North'')}"
    by (auto simp: table_edges_def demo_tables_def none_if_empty_def)
  have ne: "''HQ'' \<noteq> ''North''" by simp
  have "({(''HQ'', ''North'')} :: (docname \<times> docname) set)\<^sup>+ \<subseteq> {(''HQ'', ''North'')}"
  proof -
    have "(x, y) \<in> {(''HQ'', ''North'')}\<^sup>+ \<Longrightarrow> (x, y) = (''HQ'', ''North'')" for x y :: docname
      by (auto simp: single_edge_rtrancl [OF ne] dest!: tranclD)
    then show ?thesis by auto
  qed
  then have "acyclic ({(''HQ'', ''North'')} :: (docname \<times> docname) set)"
    by (auto simp: acyclic_def)
  then show ?thesis
    unfolding nested_sets_def e single_edge_rtrancl [OF ne] by (simp add: demo_tables_def)
qed

lemma production_branch_subtree_witness:
  "\<exists>out. branch_subtree (FrappeTreeReadGateway demo_tables) ''HQ'' = Inr out \<and> br_name (hd out) = ''HQ''"
proof -
  have "''HQ'' \<in> (br_name o nr_row) ` set (tt_branches demo_tables)" by (simp add: demo_tables_def)
  from production_branch_subtree [OF demo_tables_nested this] show ?thesis by blast
qed

end
