(* ===== verification/Registration_Doc.thy ===== *)
theory Registration_Doc
  imports Registrations Tree_Tables Permissions
begin

text \<open>
  Model of \<open>doctype/flock_event_registration/flock_event_registration.py\<close>: the validate
  hook, the production scope gateway over its tables, and the endpoints which register,
  cancel, check in, promote and bulk-register.

  Concurrency.  A request runs in one transaction.  Its plain reads see the snapshot taken
  at the first read, its locking reads, updates and inserts see the current tables.  Each
  endpoint therefore takes two databases: \<open>snap\<close>, what its plain reads see, and \<open>db\<close>, what
  its locked reads and writes work on; a request that runs alone has \<open>snap = db\<close>.  A saved
  document carries a \<open>modified\<close> stamp: \<open>Document.save\<close> refuses a document whose stored
  stamp has moved since it was read and advances it, a raw \<open>UPDATE\<close> does neither.
  Published events are not undone by a rollback.
\<close>

section \<open>State\<close>

record registration_row =
  er_name :: docname
  er_organization :: "docname option"
  er_branch :: docname
  er_group :: docname
  er_gathering :: docname
  er_registrant :: docname
  er_registrant_name :: string
  er_status :: string
  er_registered_at :: string
  er_via :: string
  er_attendance :: "docname option"
  er_modified :: nat

record event_gathering =
  eg_branch :: "docname option"
  eg_group :: "docname option"
  eg_organization :: "docname option"
  eg_category :: "string option"
  eg_approval_status :: "string option"
  eg_scope :: "string option"
  eg_opens_on :: "string option"
  eg_closes_on :: "string option"
  eg_capacity :: "int option"
  eg_registration_capacity :: "int option"
  eg_registered_count :: int
  eg_checked_in_count :: int

record event_member =
  em_branch :: "docname option"
  em_full_name :: "string option"
  em_linked_user :: "string option"

record invitation_row =
  iv_gathering :: docname
  iv_invitee :: "docname option"
  iv_invitee_group :: "docname option"
  iv_status :: string
  iv_expires_on :: "string option"
  iv_docstatus :: int

record event_scope =
  es_branch :: docname
  es_group :: docname
  es_organization :: "docname option"

datatype registration_event =
    Registration_Created docname docname docname string event_scope
  | Registration_Waitlisted docname docname docname event_scope
  | Registration_Cancelled docname docname docname event_scope
  | Registration_Promoted docname docname docname docname event_scope
  | Registration_Checked_In docname docname docname "docname option" event_scope
  | Registration_Bulk_Queued docname string nat nat event_scope
  | Registration_Bulk_Completed docname string nat event_scope

record bulk_job =
  bj_gathering :: docname
  bj_members :: "docname list"
  bj_via :: string
  bj_job_id :: string
  bj_index :: nat
  bj_total :: nat

record registration_db =
  rd_registrations :: "registration_row list"
  rd_gatherings :: "(docname \<times> event_gathering) list"
  rd_members :: "(docname \<times> event_member) list"
  rd_branch_org :: "docname \<Rightarrow> docname option"
  rd_trees :: tree_tables
  rd_invitations :: "invitation_row list"
  rd_jobs :: "bulk_job list"
  rd_events :: "registration_event list"

text \<open>The request: session user, clock, permission gateway, and the name the naming series
  gives to the next row of a table.\<close>

record registration_env =
  rv_user :: string
  rv_now :: string
  rv_perm :: permission_gateway
  rv_next_name :: "registration_row list \<Rightarrow> docname"

datatype registration_action_error =
    Registration_Argument string
  | Registration_No_Member
  | Registration_Bad_Via string
  | Registration_Closed
  | Registration_Out_Of_Scope docname string
  | Registration_Not_Found docname
  | Registration_Gathering_Missing docname
  | Registration_Branch_Required
  | Registration_Binding
  | Registration_Not_One_Time
  | Registration_Duplicate
  | Registration_Stale
  | Registration_Rule registration_error
  | Registration_Guard permission_error
  | Registration_Check_In_Role

definition lift_rule :: "registration_error + 'a \<Rightarrow> registration_action_error + 'a" where
  "lift_rule r = (case r of Inl e \<Rightarrow> Inl (Registration_Rule e) | Inr a \<Rightarrow> Inr a)"

definition lift_guard :: "permission_error + 'a \<Rightarrow> registration_action_error + 'a" where
  "lift_guard r = (case r of Inl e \<Rightarrow> Inl (Registration_Guard e) | Inr a \<Rightarrow> Inr a)"

abbreviation gathering_of :: "registration_db \<Rightarrow> docname \<Rightarrow> event_gathering option" where
  "gathering_of db g \<equiv> map_of (rd_gatherings db) g"

text \<open>\<open>get_value("Flock Gathering", g, column)\<close>.\<close>

definition gathering_col ::
  "registration_db \<Rightarrow> (event_gathering \<Rightarrow> 'v option) \<Rightarrow> docname \<Rightarrow> 'v option" where
  "gathering_col db col g = Option.bind (gathering_of db g) col"

section \<open>The validate hook\<close>

definition registration_tenant_floor :: "registration_db \<Rightarrow> registration_row \<Rightarrow> registration_row" where
  "registration_tenant_floor db doc =
    (if truthy (er_organization doc) then doc
     else if er_branch doc \<noteq> [] \<and> truthy (rd_branch_org db (er_branch doc))
     then doc \<lparr>er_organization := rd_branch_org db (er_branch doc)\<rparr>
     else doc)"

definition member_full_name :: "registration_db \<Rightarrow> docname \<Rightarrow> string" where
  "member_full_name db m = or_empty (Option.bind (map_of (rd_members db) m) em_full_name)"

definition denormalize_registrant_name :: "registration_db \<Rightarrow> registration_row \<Rightarrow> registration_row" where
  "denormalize_registrant_name db doc =
    (if er_registrant doc \<noteq> [] \<and> er_registrant_name doc = []
     then doc \<lparr>er_registrant_name := member_full_name db (er_registrant doc)\<rparr>
     else doc)"

definition validate_registration_binding ::
  "registration_db \<Rightarrow> registration_row \<Rightarrow> registration_action_error + unit" where
  "validate_registration_binding db doc =
    (if er_branch doc = [] then Inl Registration_Branch_Required
     else let gathering_branch = gathering_col db eg_branch (er_gathering doc);
              gathering_group = gathering_col db eg_group (er_gathering doc)
     in if truthy gathering_branch \<and>
           (gathering_branch \<noteq> Some (er_branch doc) \<or> gathering_group \<noteq> Some (er_group doc))
        then Inl Registration_Binding else Inr ())"

definition validate_gathering_is_one_time ::
  "registration_db \<Rightarrow> registration_row \<Rightarrow> registration_action_error + unit" where
  "validate_gathering_is_one_time db doc =
    (let category = gathering_col db eg_category (er_gathering doc)
     in if truthy category \<and> category \<noteq> Some ''One-time'' then Inl Registration_Not_One_Time
        else Inr ())"

definition validate_registration ::
  "registration_db \<Rightarrow> registration_row \<Rightarrow> registration_action_error + registration_row" where
  "validate_registration db doc0 =
    (let doc = denormalize_registrant_name db (registration_tenant_floor db doc0)
     in res_bind (validate_registration_binding db doc) (\<lambda>_.
        res_bind (validate_gathering_is_one_time db doc) (\<lambda>_. Inr doc)))"

text \<open>\<open>doc.insert\<close>: validate, by plain reads, then insert under the unique
  \<open>(gathering, registrant)\<close> index and the primary key.\<close>

definition insert_registration ::
  "registration_db \<Rightarrow> registration_db \<Rightarrow> registration_row \<Rightarrow> registration_action_error + registration_db" where
  "insert_registration snap db doc0 =
    res_bind (validate_registration snap doc0) (\<lambda>doc.
      if (\<exists>r \<in> set (rd_registrations db). er_name r = er_name doc \<or>
            (er_gathering r = er_gathering doc \<and> er_registrant r = er_registrant doc))
      then Inl Registration_Duplicate
      else Inr (db \<lparr>rd_registrations := rd_registrations db @ [doc]\<rparr>))"

definition put_row :: "registration_row \<Rightarrow> registration_row list \<Rightarrow> registration_row list" where
  "put_row doc rows = map (\<lambda>r. if er_name r = er_name doc then doc else r) rows"

text \<open>\<open>doc.save\<close>: the stored row must still carry the stamp the document was read with.\<close>

definition save_registration ::
  "registration_db \<Rightarrow> registration_db \<Rightarrow> registration_row \<Rightarrow> registration_action_error + registration_db" where
  "save_registration snap db doc0 =
    (case find (\<lambda>r. er_name r = er_name doc0) (rd_registrations db) of
       None \<Rightarrow> Inl (Registration_Not_Found (er_name doc0))
     | Some stored \<Rightarrow>
         if er_modified stored \<noteq> er_modified doc0 then Inl Registration_Stale
         else res_bind (validate_registration snap doc0) (\<lambda>doc.
           Inr (db \<lparr>rd_registrations :=
             put_row (doc \<lparr>er_modified := Suc (er_modified doc)\<rparr>) (rd_registrations db)\<rparr>)))"

section \<open>The production scope gateway\<close>

definition SCOPE_MEMBER_ROLES :: "string list" where
  "SCOPE_MEMBER_ROLES = [''Leader'', ''Co-Leader'', ''Member'']"

definition frappe_member_branch :: "registration_db \<Rightarrow> docname \<Rightarrow> docname option" where
  "frappe_member_branch db m =
    (if m = [] then None else Option.bind (map_of (rd_members db) m) em_branch)"

definition frappe_member_organization :: "registration_db \<Rightarrow> docname \<Rightarrow> docname option" where
  "frappe_member_organization db m =
    (let branch = frappe_member_branch db m
     in if \<not> truthy branch then None else rd_branch_org db (the branch))"

definition frappe_member_groups :: "registration_db \<Rightarrow> docname \<Rightarrow> docname list" where
  "frappe_member_groups db m =
    (if m = [] then []
     else dedup (List.map_filter rr_group
       (filter (\<lambda>r. rr_member r = m \<and> rr_role r \<in> set SCOPE_MEMBER_ROLES \<and> rr_status r = ''Active'')
         (tt_roster (rd_trees db)))))"

definition lift_traversal :: "traversal_error + 'a \<Rightarrow> registration_error + 'a" where
  "lift_traversal r = (case r of Inl e \<Rightarrow> Inl (Registration_Tree e) | Inr a \<Rightarrow> Inr a)"

definition frappe_group_subtree :: "registration_db \<Rightarrow> docname \<Rightarrow> registration_error + docname list" where
  "frappe_group_subtree db g =
    (if g = [] then Inr []
     else res_bind (lift_traversal (group_subtree (FrappeTreeReadGateway (rd_trees db)) g))
       (\<lambda>rows. Inr (map gr_name rows)))"

definition frappe_branch_subtree :: "registration_db \<Rightarrow> docname \<Rightarrow> registration_error + docname list" where
  "frappe_branch_subtree db b =
    (if b = [] then Inr []
     else res_bind (lift_traversal (branch_subtree (FrappeTreeReadGateway (rd_trees db)) b))
       (\<lambda>rows. Inr (map br_name rows)))"

definition live_invitation :: "docname \<Rightarrow> invitation_row \<Rightarrow> bool" where
  "live_invitation gathering i \<longleftrightarrow>
     iv_gathering i = gathering \<and> iv_status i \<in> {''Sent'', ''Accepted''}"

text \<open>The loop over the invited groups.\<close>

fun invited_group_loop ::
  "registration_db \<Rightarrow> string \<Rightarrow> docname \<Rightarrow> docname set \<Rightarrow> docname list \<Rightarrow> registration_error + bool" where
  "invited_group_loop db now gathering member_groups [] = Inr False"
| "invited_group_loop db now gathering member_groups (ig # igs) =
    (if ig = [] then invited_group_loop db now gathering member_groups igs
     else res_bind (frappe_group_subtree db ig) (\<lambda>invited_subtree.
       if member_groups \<inter> set invited_subtree \<noteq> {} \<and>
          \<not> is_invitation_expired
             (Option.bind (find (\<lambda>i. live_invitation gathering i \<and> iv_invitee_group i = Some ig)
                (rd_invitations db)) iv_expires_on) now
       then Inr True
       else invited_group_loop db now gathering member_groups igs))"

definition frappe_has_valid_invitation ::
  "registration_db \<Rightarrow> string \<Rightarrow> docname \<Rightarrow> docname \<Rightarrow> registration_error + bool" where
  "frappe_has_valid_invitation db now gathering member =
    (if gathering = [] \<or> member = [] then Inr False
     else let direct = find (\<lambda>i. live_invitation gathering i \<and> iv_invitee i = Some member
                          \<and> iv_docstatus i < 2) (rd_invitations db)
     in if (case direct of None \<Rightarrow> False
            | Some d \<Rightarrow> \<not> is_invitation_expired (iv_expires_on d) now) then Inr True
     else let invitee_groups = List.map_filter iv_invitee_group
            (filter (\<lambda>i. live_invitation gathering i \<and> truthy (iv_invitee_group i) \<and> iv_docstatus i < 2)
              (rd_invitations db))
     in if invitee_groups = [] then Inr False
     else let member_groups = set (frappe_member_groups db member)
     in if member_groups = {} then Inr False
     else invited_group_loop db now gathering member_groups (dedup invitee_groups))"

definition frappe_gathering_scope :: "registration_db \<Rightarrow> docname \<Rightarrow> gathering_scope" where
  "frappe_gathering_scope db gathering =
    (if gathering = [] then \<lparr>gs_branch = None, gs_group = None, gs_organization = None\<rparr>
     else \<lparr>gs_branch = gathering_col db eg_branch gathering,
           gs_group = gathering_col db eg_group gathering,
           gs_organization = gathering_col db eg_organization gathering\<rparr>)"

definition FrappeRegistrationScopeGateway :: "registration_db \<Rightarrow> string \<Rightarrow> scope_gateway" where
  "FrappeRegistrationScopeGateway db now =
    \<lparr>rg_member_branch = frappe_member_branch db,
     rg_member_organization = frappe_member_organization db,
     rg_member_groups = frappe_member_groups db,
     rg_group_subtree = frappe_group_subtree db,
     rg_branch_subtree = frappe_branch_subtree db,
     rg_gathering_branch = (\<lambda>g. if g = [] then None else gathering_col db eg_branch g),
     rg_gathering_organization = (\<lambda>g. if g = [] then None else gathering_col db eg_organization g),
     rg_gathering_group = (\<lambda>g. if g = [] then None else gathering_col db eg_group g),
     rg_gathering_scope = frappe_gathering_scope db,
     rg_has_valid_invitation = frappe_has_valid_invitation db now\<rparr>"

section \<open>Window and counters\<close>

definition registration_window :: "registration_db \<Rightarrow> docname \<Rightarrow> registration_window" where
  "registration_window db gathering =
    (case gathering_of db gathering of
       None \<Rightarrow> \<lparr>rw_approval_status = ''Not Required'', rw_scope = SCOPE_NONE, rw_opens_on = None,
                rw_closes_on = None, rw_capacity = None, rw_registered_count = 0\<rparr>
     | Some e \<Rightarrow>
        \<lparr>rw_approval_status = the (or_else (eg_approval_status e) (Some ''Not Required'')),
         rw_scope = the (or_else (eg_scope e) (Some SCOPE_NONE)),
         rw_opens_on = eg_opens_on e, rw_closes_on = eg_closes_on e,
         rw_capacity = eg_capacity e, rw_registered_count = eg_registered_count e\<rparr>)"

definition scope_for_event ::
  "registration_db \<Rightarrow> docname \<Rightarrow> docname \<Rightarrow> docname \<Rightarrow> docname option \<Rightarrow> event_scope" where
  "scope_for_event db gathering branch grp organization =
    \<lparr>es_branch = branch, es_group = grp,
     es_organization = (case organization of
        Some org \<Rightarrow> Some org
      | None \<Rightarrow> if gathering \<noteq> [] then gathering_col db eg_organization gathering else None)\<rparr>"

definition resolve_registrant_member :: "registration_env \<Rightarrow> registration_db \<Rightarrow> docname option" where
  "resolve_registrant_member env db =
    map_option fst (find (\<lambda>(_, m). em_linked_user m = Some (rv_user env)) (rd_members db))"

text \<open>The locking read: it sees the current gathering row.\<close>

definition authoritative_registration_status ::
  "registration_db \<Rightarrow> docname \<Rightarrow> registration_action_error + string" where
  "authoritative_registration_status db gathering =
    (case gathering_of db gathering of
       None \<Rightarrow> Inl (Registration_Gathering_Missing gathering)
     | Some e \<Rightarrow> Inr (cd_status (capacity_decision (eg_registration_capacity e) (eg_registered_count e))))"

datatype counter_field = Registered_Count | Checked_In_Count

fun bump_row :: "counter_field \<Rightarrow> int \<Rightarrow> event_gathering \<Rightarrow> event_gathering" where
  "bump_row Registered_Count delta e =
    e \<lparr>eg_registered_count := (if delta > 0 then eg_registered_count e + delta
                               else max (eg_registered_count e + delta) 0)\<rparr>"
| "bump_row Checked_In_Count delta e =
    e \<lparr>eg_checked_in_count := (if delta > 0 then eg_checked_in_count e + delta
                               else max (eg_checked_in_count e + delta) 0)\<rparr>"

definition bump_gathering_count ::
  "docname \<Rightarrow> counter_field \<Rightarrow> int \<Rightarrow> registration_db \<Rightarrow> registration_db" where
  "bump_gathering_count gathering field delta db =
    db \<lparr>rd_gatherings := AList.map_entry gathering (bump_row field delta) (rd_gatherings db)\<rparr>"

definition bump_registered_count :: "docname \<Rightarrow> int \<Rightarrow> registration_db \<Rightarrow> registration_db" where
  "bump_registered_count gathering delta = bump_gathering_count gathering Registered_Count delta"

definition emit :: "registration_event \<Rightarrow> registration_db \<Rightarrow> registration_db" where
  "emit ev db = db \<lparr>rd_events := rd_events db @ [ev]\<rparr>"

section \<open>Endpoints\<close>

record eligibility =
  ey_member :: "docname option"
  ey_eligible :: bool
  ey_window_open :: bool
  ey_in_scope :: bool
  ey_at_capacity :: bool
  ey_scope :: string
  ey_reason :: eligibility_verdict

definition get_registration_eligibility ::
  "registration_env \<Rightarrow> registration_db \<Rightarrow> docname \<Rightarrow> docname option \<Rightarrow> registration_action_error + eligibility" where
  "get_registration_eligibility env db gathering member =
    (if gathering = [] then Inl (Registration_Argument ''gathering'')
     else let registrant = or_else member (resolve_registrant_member env db)
     in if \<not> truthy registrant then
       Inr \<lparr>ey_member = None, ey_eligible = False, ey_window_open = False, ey_in_scope = False,
            ey_at_capacity = False, ey_scope = SCOPE_NONE, ey_reason = Reason_No_Member\<rparr>
     else let m = the registrant;
              gateway = FrappeRegistrationScopeGateway db (rv_now env);
              window = registration_window db gathering;
              window_open = is_registration_window_open window (rv_now env)
     in res_bind (lift_rule (is_member_in_scope m gathering (rw_scope window) gateway)) (\<lambda>in_scope.
        let full = is_capacity_full (rw_capacity window) (rw_registered_count window);
            eligible = (window_open \<and> in_scope \<and> \<not> full)
        in res_bind (lift_rule (eligibility_reason m gathering (rw_scope window) gateway)) (\<lambda>reason0.
           let reason1 = (if window_open \<and> in_scope \<and> full then Reason_At_Capacity else reason0);
               reason = (if \<not> window_open then Reason_Not_Open else reason1)
           in Inr \<lparr>ey_member = Some m, ey_eligible = eligible, ey_window_open = window_open,
                   ey_in_scope = in_scope, ey_at_capacity = full, ey_scope = rw_scope window,
                   ey_reason = reason\<rparr>)))"

record registration_reply =
  ro_registration :: docname
  ro_status :: string
  ro_already_registered :: bool

definition find_registration :: "registration_row list \<Rightarrow> docname \<Rightarrow> docname \<Rightarrow> registration_row option" where
  "find_registration rows gathering member =
    find (\<lambda>r. er_gathering r = gathering \<and> er_registrant r = member) rows"

definition existing_reply :: "registration_row \<Rightarrow> registration_reply" where
  "existing_reply r =
    \<lparr>ro_registration = er_name r, ro_status = er_status r, ro_already_registered = True\<rparr>"

text \<open>The checks \<open>register_for_event\<close> runs before it looks for an existing row; all of them
  are plain reads.\<close>

definition register_gate ::
  "registration_env \<Rightarrow> registration_db \<Rightarrow> docname \<Rightarrow> docname option \<Rightarrow> string
    \<Rightarrow> registration_action_error + docname" where
  "register_gate env snap gathering member registered_via =
    (if gathering = [] then Inl (Registration_Argument ''gathering'')
     else let registrant = or_else member (resolve_registrant_member env snap)
     in if \<not> truthy registrant then Inl Registration_No_Member
     else if registered_via \<notin> set REGISTRATION_VIA then Inl (Registration_Bad_Via registered_via)
     else res_bind
       (if truthy member \<and> member \<noteq> resolve_registrant_member env snap
        then lift_guard (assert_branch_scope (rv_perm env)
               (gathering_col snap eg_branch gathering) (rv_user env))
        else Inr ()) (\<lambda>_.
       let window = registration_window snap gathering
       in if \<not> is_registration_window_open window (rv_now env) then Inl Registration_Closed
       else res_bind (lift_rule (is_member_in_scope (the registrant) gathering (rw_scope window)
              (FrappeRegistrationScopeGateway snap (rv_now env)))) (\<lambda>in_scope.
         if \<not> in_scope then Inl (Registration_Out_Of_Scope (the registrant) (rw_scope window))
         else Inr (the registrant))))"

text \<open>The document \<open>register_for_event\<close> and \<open>process_bulk_batch\<close> build; a bulk job reads
  the anchors of the gathering once.\<close>

definition new_registration ::
  "registration_env \<Rightarrow> gathering_scope \<Rightarrow> registration_db \<Rightarrow> registration_db \<Rightarrow> docname \<Rightarrow> docname \<Rightarrow> string \<Rightarrow> string
    \<Rightarrow> registration_row" where
  "new_registration env anchors snap db gathering registrant status registered_via =
    \<lparr>er_name = rv_next_name env (rd_registrations db),
     er_organization = gs_organization anchors,
     er_branch = or_empty (gs_branch anchors), er_group = or_empty (gs_group anchors),
     er_gathering = gathering, er_registrant = registrant,
     er_registrant_name = member_full_name snap registrant,
     er_status = status, er_registered_at = rv_now env, er_via = registered_via,
     er_attendance = None, er_modified = 0\<rparr>"

text \<open>After the row landed: claim the seat and publish.\<close>

definition announce_registration ::
  "registration_db \<Rightarrow> registration_row \<Rightarrow> registration_db \<Rightarrow> registration_db" where
  "announce_registration snap doc db =
    (let g = er_gathering doc; m = er_registrant doc; n = er_name doc; status = er_status doc;
         scope = scope_for_event snap g (er_branch doc) (er_group doc) None
     in if status = REGISTRATION_REGISTERED
        then emit (Registration_Created g m n status scope) (bump_registered_count g 1 db)
        else if status = REGISTRATION_WAITLISTED
        then emit (Registration_Waitlisted g m n scope) db
        else emit (Registration_Created g m n status scope) db)"

definition register_for_event ::
  "registration_env \<Rightarrow> registration_db \<Rightarrow> registration_db \<Rightarrow> docname \<Rightarrow> docname option \<Rightarrow> string
    \<Rightarrow> registration_action_error + registration_reply \<times> registration_db" where
  "register_for_event env snap db gathering member registered_via =
    res_bind (register_gate env snap gathering member registered_via) (\<lambda>registrant.
    case find_registration (rd_registrations snap) gathering registrant of
      Some r \<Rightarrow> Inr (existing_reply r, db)
    | None \<Rightarrow>
       res_bind (authoritative_registration_status db gathering) (\<lambda>status.
       let doc = new_registration env (frappe_gathering_scope snap gathering) snap db gathering
                   registrant status registered_via
       in case insert_registration snap db doc of
            Inl Registration_Duplicate \<Rightarrow>
              (case find_registration (rd_registrations db) gathering registrant of
                 Some r \<Rightarrow> Inr (existing_reply r, db)
               | None \<Rightarrow> Inl Registration_Duplicate)
          | Inl e \<Rightarrow> Inl e
          | Inr db1 \<Rightarrow>
              Inr (\<lparr>ro_registration = er_name doc, ro_status = status, ro_already_registered = False\<rparr>,
                   announce_registration snap doc db1)))"

section \<open>Cancel, check in, promote\<close>

definition assert_may_act_on_registration ::
  "registration_env \<Rightarrow> registration_db \<Rightarrow> registration_row \<Rightarrow> registration_action_error + unit" where
  "assert_may_act_on_registration env db doc =
    (let registrant_user = Option.bind (map_of (rd_members db) (er_registrant doc)) em_linked_user
     in if truthy registrant_user \<and> registrant_user = Some (rv_user env) then Inr ()
        else lift_guard (assert_branch_scope (rv_perm env) (Some (er_branch doc)) (rv_user env)))"

definition assert_may_check_in ::
  "registration_env \<Rightarrow> registration_row \<Rightarrow> registration_action_error + unit" where
  "assert_may_check_in env doc =
    (if pg_user_roles (rv_perm env) (rv_user env)
          \<inter> {ROLE_ORG_ADMIN, ROLE_BRANCH_ADMIN, ROLE_GROUP_LEADER} \<noteq> {}
     then lift_guard (assert_branch_scope (rv_perm env) (Some (er_branch doc)) (rv_user env))
     else Inl Registration_Check_In_Role)"

definition get_registration :: "registration_db \<Rightarrow> docname \<Rightarrow> registration_action_error + registration_row" where
  "get_registration db i =
    (case find (\<lambda>r. er_name r = i) (rd_registrations db) of
       None \<Rightarrow> Inl (Registration_Not_Found i) | Some r \<Rightarrow> Inr r)"

text \<open>\<open>ORDER BY registered_at, name LIMIT 1\<close> over the waitlisted rows.\<close>

definition oldest_waitlisted :: "registration_db \<Rightarrow> docname \<Rightarrow> waitlist_candidate list" where
  "oldest_waitlisted db gathering =
    take 1 (sort_key waitlist_key
      (map (\<lambda>r. \<lparr>wc_name = er_name r, wc_gathering = gathering, wc_registrant = er_registrant r,
                  wc_registered_at = er_registered_at r\<rparr>)
        (filter (\<lambda>r. er_gathering r = gathering \<and> er_status r = REGISTRATION_WAITLISTED)
          (rd_registrations db))))"

text \<open>The conditional \<open>UPDATE\<close>; its second component is the number of affected rows.\<close>

definition seat_waitlisted_row :: "docname \<Rightarrow> registration_db \<Rightarrow> registration_db \<times> nat" where
  "seat_waitlisted_row name db =
    (let hit = (\<lambda>r. er_name r = name \<and> er_status r = REGISTRATION_WAITLISTED)
     in (db \<lparr>rd_registrations :=
           map (\<lambda>r. if hit r then r \<lparr>er_status := REGISTRATION_REGISTERED\<rparr> else r) (rd_registrations db)\<rparr>,
         length (filter hit (rd_registrations db))))"

definition promote_oldest_waitlisted ::
  "registration_db \<Rightarrow> registration_db \<Rightarrow> docname \<Rightarrow> (docname \<times> docname) option \<times> registration_db" where
  "promote_oldest_waitlisted snap db gathering =
    (case select_waitlist_promotion_candidate (oldest_waitlisted snap gathering) of
       None \<Rightarrow> (None, db)
     | Some choice \<Rightarrow>
        (case seat_waitlisted_row (wc_name choice) db of (db1, affected) \<Rightarrow>
           if affected = 0 then (None, db1)
           else (Some (wc_name choice, wc_registrant choice), bump_registered_count gathering 1 db1)))"

definition release_and_promote ::
  "registration_db \<Rightarrow> registration_db \<Rightarrow> docname \<Rightarrow> bool \<Rightarrow> (docname \<times> docname) option \<times> registration_db" where
  "release_and_promote snap db gathering was_seated =
    (if was_seated then promote_oldest_waitlisted snap (bump_registered_count gathering (- 1) db) gathering
     else (None, db))"

definition cancel_registration ::
  "registration_env \<Rightarrow> registration_db \<Rightarrow> registration_db \<Rightarrow> docname
    \<Rightarrow> registration_action_error + (docname \<times> docname) option \<times> registration_db" where
  "cancel_registration env snap db registration_id =
    (if registration_id = [] then Inl (Registration_Argument ''registration_id'')
     else res_bind (get_registration snap registration_id) (\<lambda>doc.
       res_bind (lift_rule (validate_registration_transition (er_status doc) REGISTRATION_CANCELLED)) (\<lambda>_.
       res_bind (assert_may_act_on_registration env snap doc) (\<lambda>_.
       let was_seated = (er_status doc = REGISTRATION_REGISTERED)
       in res_bind (save_registration snap db (doc \<lparr>er_status := REGISTRATION_CANCELLED\<rparr>)) (\<lambda>db1.
         let g = er_gathering doc; scope = scope_for_event snap g (er_branch doc) (er_group doc) None;
             (promoted, db2) = release_and_promote snap db1 g was_seated;
             db3 = emit (Registration_Cancelled g (er_registrant doc) (er_name doc) scope) db2
         in Inr (promoted,
              case promoted of
                None \<Rightarrow> db3
              | Some (n, m) \<Rightarrow> emit (Registration_Promoted g m n registration_id scope) db3))))))"

definition check_in_registration ::
  "registration_env \<Rightarrow> registration_db \<Rightarrow> registration_db \<Rightarrow> docname \<Rightarrow> docname option
    \<Rightarrow> registration_action_error + registration_db" where
  "check_in_registration env snap db registration_id attendance_ref =
    (if registration_id = [] then Inl (Registration_Argument ''registration_id'')
     else res_bind (get_registration snap registration_id) (\<lambda>doc.
       res_bind (lift_rule (validate_registration_transition (er_status doc) REGISTRATION_CHECKED_IN)) (\<lambda>_.
       res_bind (assert_may_check_in env doc) (\<lambda>_.
       let doc1 = doc \<lparr>er_status := REGISTRATION_CHECKED_IN\<rparr>;
           doc2 = (if truthy attendance_ref then doc1 \<lparr>er_attendance := attendance_ref\<rparr> else doc1)
       in res_bind (save_registration snap db doc2) (\<lambda>db1.
         let g = er_gathering doc
         in Inr (emit (Registration_Checked_In g (er_registrant doc) (er_name doc) attendance_ref
                   (scope_for_event snap g (er_branch doc) (er_group doc) None))
              (bump_gathering_count g Checked_In_Count 1 db1)))))))"

section \<open>Bulk registration\<close>

record bulk_receipt =
  br_job_id :: string
  br_total_members :: nat
  br_batches :: nat

text \<open>The member list arrives decoded; \<open>job_id\<close> is the random job name.\<close>

definition register_bulk ::
  "registration_env \<Rightarrow> registration_db \<Rightarrow> string \<Rightarrow> docname \<Rightarrow> docname list \<Rightarrow> int
    \<Rightarrow> registration_action_error + bulk_receipt \<times> registration_db" where
  "register_bulk env db job_id gathering members batch_size =
    (if gathering = [] then Inl (Registration_Argument ''gathering'')
     else if members = [] then Inl (Registration_Argument ''members'')
     else if \<not> is_registration_window_open (registration_window db gathering) (rv_now env)
     then Inl Registration_Closed
     else res_bind (lift_guard (assert_branch_scope (rv_perm env)
            (gathering_col db eg_branch gathering) (rv_user env))) (\<lambda>_.
       res_bind (lift_rule (chunk_members members batch_size)) (\<lambda>batches.
       let branch = or_empty (gathering_col db eg_branch gathering);
           grp = or_empty (gathering_col db eg_group gathering);
           org = gathering_col db eg_organization gathering;
           total_unique = sum_list (map length batches);
           jobs = map (\<lambda>(idx, batch). \<lparr>bj_gathering = gathering, bj_members = batch, bj_via = VIA_BULK,
                    bj_job_id = job_id, bj_index = idx, bj_total = length batches\<rparr>)
                  (List.enumerate 0 batches)
       in Inr (\<lparr>br_job_id = job_id, br_total_members = total_unique, br_batches = length batches\<rparr>,
            emit (Registration_Bulk_Queued gathering job_id total_unique (length batches)
                    (scope_for_event db gathering branch grp org))
              (db \<lparr>rd_jobs := rd_jobs db @ jobs\<rparr>)))))"

record bulk_counts =
  bc_created :: nat
  bc_waitlisted :: nat
  bc_skipped :: nat

text \<open>The loop of the background job.  \<open>anchors\<close> were read before it; \<open>snap\<close> is the snapshot
  of its plain reads, renewed by a rollback; \<open>base\<close> is the committed database a rollback returns
  to, \<open>db\<close> the job's current one, \<open>view\<close> the registration rows its plain reads see: the
  snapshot and its own inserts, and after a rollback the committed rows.\<close>

fun bulk_loop ::
  "registration_env \<Rightarrow> gathering_scope \<Rightarrow> registration_db \<Rightarrow> registration_db \<Rightarrow> docname \<Rightarrow> string
    \<Rightarrow> registration_row list \<Rightarrow> registration_db \<Rightarrow> bulk_counts \<Rightarrow> docname list
    \<Rightarrow> registration_action_error + bulk_counts \<times> registration_db" where
  "bulk_loop env anchors snap base gathering registered_via view db counts [] = Inr (counts, db)"
| "bulk_loop env anchors snap base gathering registered_via view db counts (member # members) =
    (if member = [] then bulk_loop env anchors snap base gathering registered_via view db counts members
     else if find_registration view gathering member \<noteq> None
     then bulk_loop env anchors snap base gathering registered_via view db
            (counts \<lparr>bc_skipped := Suc (bc_skipped counts)\<rparr>) members
     else res_bind (authoritative_registration_status db gathering) (\<lambda>status.
       let doc = new_registration env anchors snap db gathering member status registered_via
       in case insert_registration snap db doc of
            Inl Registration_Duplicate \<Rightarrow>
              bulk_loop env anchors base base gathering registered_via (rd_registrations base)
                (base \<lparr>rd_events := rd_events db\<rparr>)
                (counts \<lparr>bc_skipped := Suc (bc_skipped counts)\<rparr>) members
          | Inl e \<Rightarrow> Inl e
          | Inr db1 \<Rightarrow>
              bulk_loop env anchors snap base gathering registered_via (view @ [doc])
                (announce_registration snap doc db1)
                (if status = REGISTRATION_REGISTERED
                 then counts \<lparr>bc_created := Suc (bc_created counts)\<rparr>
                 else counts \<lparr>bc_waitlisted := Suc (bc_waitlisted counts)\<rparr>) members))"

definition process_bulk_batch ::
  "registration_env \<Rightarrow> registration_db \<Rightarrow> registration_db \<Rightarrow> bulk_job
    \<Rightarrow> registration_action_error + bulk_counts \<times> registration_db" where
  "process_bulk_batch env snap db job =
    (let g = bj_gathering job; anchors = frappe_gathering_scope snap g
     in res_bind (bulk_loop env anchors snap db g (bj_via job) (rd_registrations snap) db
          \<lparr>bc_created = 0, bc_waitlisted = 0, bc_skipped = 0\<rparr> (bj_members job)) (\<lambda>(counts, db1).
        Inr (counts,
          if bj_total job \<le> bj_index job + 1
          then emit (Registration_Bulk_Completed g (bj_job_id job) (bj_index job)
                 (scope_for_event snap g (or_empty (gs_branch anchors)) (or_empty (gs_group anchors))
                    (gs_organization anchors))) db1
          else db1)))"

section \<open>Dashboard\<close>

record registration_dashboard =
  dd_registered_count :: int
  dd_checked_in_count :: int
  dd_waitlisted_count :: nat
  dd_capacity :: "int option"
  dd_seats_remaining :: "int option"
  dd_scope :: string
  dd_approval_status :: string
  dd_opens_on :: "string option"
  dd_closes_on :: "string option"

definition waitlist_depth :: "registration_row list \<Rightarrow> docname \<Rightarrow> nat" where
  "waitlist_depth rows gathering =
    length (filter (\<lambda>r. er_gathering r = gathering \<and> er_status r = REGISTRATION_WAITLISTED) rows)"

definition get_registration_dashboard ::
  "registration_env \<Rightarrow> registration_db \<Rightarrow> docname \<Rightarrow> registration_action_error + registration_dashboard" where
  "get_registration_dashboard env db gathering =
    (if gathering = [] then Inl (Registration_Argument ''gathering'')
     else res_bind (lift_guard (assert_branch_scope (rv_perm env)
            (gathering_col db eg_branch gathering) (rv_user env))) (\<lambda>_.
       let waitlisted = waitlist_depth (rd_registrations db) gathering;
           cap_int = gathering_col db eg_capacity gathering;
           registered = (case gathering_col db (Some o eg_registered_count) gathering of None \<Rightarrow> 0 | Some n \<Rightarrow> n);
           checked_in = (case gathering_col db (Some o eg_checked_in_count) gathering of None \<Rightarrow> 0 | Some n \<Rightarrow> n)
       in Inr \<lparr>dd_registered_count = registered, dd_checked_in_count = checked_in,
            dd_waitlisted_count = waitlisted, dd_capacity = cap_int,
            dd_seats_remaining = map_option (\<lambda>c. max (c - registered) 0) cap_int,
            dd_scope = the (or_else (gathering_col db eg_scope gathering) (Some SCOPE_NONE)),
            dd_approval_status = the (or_else (gathering_col db eg_approval_status gathering) (Some ''Not Required'')),
            dd_opens_on = gathering_col db eg_opens_on gathering, dd_closes_on = gathering_col db eg_closes_on gathering\<rparr>))"

section \<open>The production gateway keeps the contract\<close>

interpretation frappe_scope: scope_contract "FrappeRegistrationScopeGateway db now" "rd_branch_org db"
  for db now
proof
  show "rg_group_subtree (FrappeRegistrationScopeGateway db now) g = Inr names \<Longrightarrow> g \<noteq> [] \<Longrightarrow> g \<in> set names"
    for g names
    using group_subtree_own [of "rd_trees db" g]
    by (auto simp: FrappeRegistrationScopeGateway_def frappe_group_subtree_def lift_traversal_def
        res_bind_Inr_iff split: sum.splits)
  show "rg_branch_subtree (FrappeRegistrationScopeGateway db now) b = Inr names \<Longrightarrow> b \<noteq> [] \<Longrightarrow> b \<in> set names"
    for b names
    using branch_subtree_own [of "rd_trees db" b]
    by (auto simp: FrappeRegistrationScopeGateway_def frappe_branch_subtree_def lift_traversal_def
        res_bind_Inr_iff split: sum.splits)
  show "rg_member_branch (FrappeRegistrationScopeGateway db now) m = Some b \<Longrightarrow> b \<noteq> [] \<Longrightarrow>
      rg_member_organization (FrappeRegistrationScopeGateway db now) m = rd_branch_org db b" for m b
    by (simp add: FrappeRegistrationScopeGateway_def frappe_member_organization_def Let_def)
qed

section \<open>Properties\<close>

text \<open>With the production gateway the scopes are nested: who is eligible under Own Group is
  eligible under Group Subtree, who is eligible under Branch is eligible under Branch Subtree
  (whenever the subtree read does not raise), and under Org-wide when the gathering's
  organization is that of its branch.\<close>
theorem registration_scopes_nested:
  "(is_member_in_scope m g SCOPE_OWN_GROUP (FrappeRegistrationScopeGateway db now) = Inr True \<longrightarrow>
      is_member_in_scope m g SCOPE_GROUP_SUBTREE (FrappeRegistrationScopeGateway db now) \<noteq> Inr False)
   \<and> (is_member_in_scope m g SCOPE_BRANCH (FrappeRegistrationScopeGateway db now) = Inr True \<longrightarrow>
      is_member_in_scope m g SCOPE_BRANCH_SUBTREE (FrappeRegistrationScopeGateway db now) \<noteq> Inr False
      \<and> (\<forall>e b. gathering_of db g = Some e \<longrightarrow> eg_branch e = Some b \<longrightarrow> truthy (eg_organization e) \<longrightarrow>
           rd_branch_org db b = eg_organization e \<longrightarrow>
           is_member_in_scope m g SCOPE_ORG_WIDE (FrappeRegistrationScopeGateway db now) = Inr True))"
proof (intro conjI impI allI)
  let ?gw = "FrappeRegistrationScopeGateway db now"
  show "is_member_in_scope m g SCOPE_GROUP_SUBTREE ?gw \<noteq> Inr False"
    if "is_member_in_scope m g SCOPE_OWN_GROUP ?gw = Inr True"
    using frappe_scope.own_group_in_subtree [OF that] by blast
  show "is_member_in_scope m g SCOPE_BRANCH_SUBTREE ?gw \<noteq> Inr False"
    if "is_member_in_scope m g SCOPE_BRANCH ?gw = Inr True"
    using frappe_scope.branch_in_subtree [OF that] by blast
  show "is_member_in_scope m g SCOPE_ORG_WIDE ?gw = Inr True"
    if br: "is_member_in_scope m g SCOPE_BRANCH ?gw = Inr True" and e: "gathering_of db g = Some e"
      "eg_branch e = Some b" "truthy (eg_organization e)" "rd_branch_org db b = eg_organization e" for e b
  proof -
    have "g \<noteq> []" using br by (auto simp: is_member_in_scope_def)
    then show ?thesis
      using frappe_scope.branch_in_organization [OF br] e
      by (simp add: FrappeRegistrationScopeGateway_def frappe_gathering_scope_def gathering_col_def)
  qed
qed

text \<open>A small database for the witnesses: gathering \<open>G\<close> of branch \<open>B\<close>, open under the Branch
  scope with one seat, and three members of the branch.\<close>

definition demo_gathering :: event_gathering where
  "demo_gathering = \<lparr>eg_branch = Some ''B'', eg_group = Some ''Gr'', eg_organization = Some ''O'',
     eg_category = Some ''One-time'', eg_approval_status = Some ''Approved'', eg_scope = Some SCOPE_BRANCH,
     eg_opens_on = None, eg_closes_on = None, eg_capacity = Some 5, eg_registration_capacity = Some 1,
     eg_registered_count = 0, eg_checked_in_count = 0\<rparr>"

definition demo_member :: "string \<Rightarrow> event_member" where
  "demo_member u = \<lparr>em_branch = Some ''B'', em_full_name = Some ''N'', em_linked_user = Some u\<rparr>"

definition demo_db :: registration_db where
  "demo_db = \<lparr>rd_registrations = [], rd_gatherings = [(''G'', demo_gathering)],
     rd_members = [(''M1'', demo_member ''u1''), (''M2'', demo_member ''u2''), (''M3'', demo_member ''u3'')],
     rd_branch_org = (\<lambda>b. if b = ''B'' then Some ''O'' else None),
     rd_trees = \<lparr>tt_branches = [], tt_groups = [], tt_roster = [], tt_collate = (\<lambda>s. s)\<rparr>,
     rd_invitations = [], rd_jobs = [], rd_events = []\<rparr>"

text \<open>The session of an Org Admin, at a given time; a new name is longer than all the
  names there are.\<close>

definition demo_env :: "string \<Rightarrow> registration_env" where
  "demo_env now = \<lparr>rv_user = ''u1'', rv_now = now,
     rv_perm = NullPermissionGateway \<lparr>pg_user_roles := (\<lambda>_. {ROLE_ORG_ADMIN})\<rparr>,
     rv_next_name = (\<lambda>rows. concat (map er_name rows) @ ''R'')\<rparr>"

lemma registration_scopes_nested_witness:
  "is_member_in_scope ''M1'' ''G'' SCOPE_ORG_WIDE (FrappeRegistrationScopeGateway demo_db ''1'') = Inr True"
proof -
  have "is_member_in_scope ''M1'' ''G'' SCOPE_BRANCH (FrappeRegistrationScopeGateway demo_db ''1'') = Inr True"
    by code_simp
  moreover have "gathering_of demo_db ''G'' = Some demo_gathering" by (simp add: demo_db_def)
  moreover have "eg_branch demo_gathering = Some ''B''" "truthy (eg_organization demo_gathering)"
    "rd_branch_org demo_db ''B'' = eg_organization demo_gathering"
    by (simp_all add: demo_gathering_def demo_db_def)
  ultimately show ?thesis using registration_scopes_nested [of "''M1''" "''G''" demo_db "''1''"] by blast
qed

end
