(* ===== verification/Registration_Safety.thy ===== *)
theory Registration_Safety
  imports Registration_Doc
begin

text \<open>
  Correctness of the registration endpoints: the counter and capacity invariant
  (\<open>registration_inv\<close>), its preservation by every endpoint, the step relation of committed
  requests, the waitlist order, and the interleavings and replays the code does not handle.
\<close>

section \<open>Counters and rows\<close>

definition seated :: "string \<Rightarrow> bool" where
  "seated status \<longleftrightarrow> status = REGISTRATION_REGISTERED \<or> status = REGISTRATION_CHECKED_IN"

definition count_status :: "(string \<Rightarrow> bool) \<Rightarrow> docname \<Rightarrow> registration_row list \<Rightarrow> nat" where
  "count_status P g rows = length (filter (\<lambda>r. er_gathering r = g \<and> P (er_status r)) rows)"

text \<open>What the counters of a gathering say of its rows: the seat counter is exact, the
  check-in counter is at least the number of checked-in rows, a capped gathering is not
  overbooked, and somebody waits only when it is full.\<close>

definition gathering_ok :: "registration_row list \<Rightarrow> docname \<Rightarrow> event_gathering \<Rightarrow> bool" where
  "gathering_ok rows g e \<longleftrightarrow>
     eg_registered_count e = int (count_status seated g rows)
   \<and> int (count_status (\<lambda>s. s = REGISTRATION_CHECKED_IN) g rows) \<le> eg_checked_in_count e
   \<and> (\<forall>c. eg_registration_capacity e = Some c \<longrightarrow> c > 0 \<longrightarrow> eg_registered_count e \<le> c)
   \<and> (waitlist_depth rows g > 0 \<longrightarrow>
        (\<exists>c. eg_registration_capacity e = Some c \<and> c > 0 \<and> eg_registered_count e = c))"

definition registration_inv :: "registration_db \<Rightarrow> bool" where
  "registration_inv db \<longleftrightarrow>
     distinct (map er_name (rd_registrations db))
   \<and> distinct (map (\<lambda>r. (er_gathering r, er_registrant r)) (rd_registrations db))
   \<and> (\<forall>g e. gathering_of db g = Some e \<longrightarrow> gathering_ok (rd_registrations db) g e)"

lemma waitlist_depth_count:
  "waitlist_depth rows g = count_status (\<lambda>s. s = REGISTRATION_WAITLISTED) g rows"
  by (simp add: waitlist_depth_def count_status_def)

lemma count_status_append [simp]:
  "count_status P g (xs @ ys) = count_status P g xs + count_status P g ys"
  "count_status P g [] = 0"
  "count_status P g (x # xs) = (if er_gathering x = g \<and> P (er_status x) then 1 else 0) + count_status P g xs"
  by (simp_all add: count_status_def)

lemma count_status_put_row:
  assumes "distinct (map er_name rows)" "r \<in> set rows" "er_name d = er_name r"
  shows "count_status P g (put_row d rows) + (if er_gathering r = g \<and> P (er_status r) then 1 else 0)
    = count_status P g rows + (if er_gathering d = g \<and> P (er_status d) then 1 else 0)"
  using assms
proof (induction rows)
  case (Cons x xs)
  show ?case
  proof (cases "x = r")
    case True
    moreover have "er_name x \<notin> er_name ` set xs" using Cons.prems(1) by simp
    ultimately have "\<forall>y \<in> set xs. er_name y \<noteq> er_name d"
      using Cons.prems(3) by (metis image_eqI)
    then have "put_row d xs = xs" by (simp add: put_row_def map_idI)
    with \<open>x = r\<close> Cons.prems show ?thesis by (simp add: put_row_def)
  next
    case False
    with Cons.prems have "r \<in> set xs" "er_name x \<noteq> er_name d" by auto
    with Cons show ?thesis by (simp add: put_row_def)
  qed
qed simp

lemma put_row_keys:
  assumes "distinct (map er_name rows)" "r \<in> set rows" "er_name d = er_name r"
    "er_gathering d = er_gathering r" "er_registrant d = er_registrant r"
  shows "map er_name (put_row d rows) = map er_name rows"
    "map (\<lambda>r. (er_gathering r, er_registrant r)) (put_row d rows)
      = map (\<lambda>r. (er_gathering r, er_registrant r)) rows"
proof -
  show "map er_name (put_row d rows) = map er_name rows" by (auto simp: put_row_def)
  have "x = r" if "x \<in> set rows" "er_name x = er_name d" for x
    using that assms(1-3) by (auto simp: distinct_map dest: inj_onD)
  then show "map (\<lambda>r. (er_gathering r, er_registrant r)) (put_row d rows)
      = map (\<lambda>r. (er_gathering r, er_registrant r)) rows"
    using assms(4,5) by (auto simp: put_row_def)
qed

lemma put_row_other:
  assumes "distinct (map er_name rows)" "r \<in> set rows" "er_name d = er_name r" "v \<in> set rows"
    "er_status v \<noteq> er_status r"
  shows "v \<in> set (put_row d rows)"
proof -
  have "v \<noteq> r" using assms(5) by auto
  then have "er_name v \<noteq> er_name d" using assms(1-4) by (auto simp: distinct_map dest: inj_onD)
  then show ?thesis using assms(4) by (force simp: put_row_def)
qed

lemma gathering_of_bump [simp]:
  "gathering_of (bump_gathering_count g f d db) h =
     (if h = g then map_option (bump_row f d) (gathering_of db g) else gathering_of db h)"
  by (simp add: bump_gathering_count_def map_of_map_entry split: option.split)

lemma bump_rows [simp]:
  "rd_registrations (bump_gathering_count g f d db) = rd_registrations db"
  by (simp add: bump_gathering_count_def)

lemma emit_fields [simp]:
  "rd_registrations (emit ev db) = rd_registrations db"
  "rd_gatherings (emit ev db) = rd_gatherings db"
  by (simp_all add: emit_def)

lemma registration_inv_emit [simp]: "registration_inv (emit ev db) = registration_inv db"
  by (simp add: registration_inv_def)

lemma registration_status_neq [simp]:
  "REGISTRATION_REGISTERED \<noteq> REGISTRATION_WAITLISTED" "REGISTRATION_WAITLISTED \<noteq> REGISTRATION_REGISTERED"
  "REGISTRATION_REGISTERED \<noteq> REGISTRATION_CHECKED_IN" "REGISTRATION_CHECKED_IN \<noteq> REGISTRATION_REGISTERED"
  "REGISTRATION_REGISTERED \<noteq> REGISTRATION_CANCELLED" "REGISTRATION_CANCELLED \<noteq> REGISTRATION_REGISTERED"
  "REGISTRATION_WAITLISTED \<noteq> REGISTRATION_CHECKED_IN" "REGISTRATION_CHECKED_IN \<noteq> REGISTRATION_WAITLISTED"
  "REGISTRATION_WAITLISTED \<noteq> REGISTRATION_CANCELLED" "REGISTRATION_CANCELLED \<noteq> REGISTRATION_WAITLISTED"
  "REGISTRATION_CHECKED_IN \<noteq> REGISTRATION_CANCELLED" "REGISTRATION_CANCELLED \<noteq> REGISTRATION_CHECKED_IN"
  by (simp_all add: status_defs)

lemma validate_registration_keeps:
  assumes "validate_registration db d = Inr d'"
  shows "er_name d' = er_name d" "er_gathering d' = er_gathering d" "er_registrant d' = er_registrant d"
    "er_status d' = er_status d" "er_modified d' = er_modified d" "er_registered_at d' = er_registered_at d"
  using assms
  by (auto simp: validate_registration_def res_bind_Inr_iff Let_def registration_tenant_floor_def
      denormalize_registrant_name_def)

section \<open>Admission keeps the counters\<close>

lemma authoritative_decision:
  assumes "authoritative_registration_status db g = Inr status" "gathering_of db g = Some e"
  shows "(status = REGISTRATION_REGISTERED \<and>
           (\<forall>c. eg_registration_capacity e = Some c \<longrightarrow> c > 0 \<longrightarrow> eg_registered_count e < c))
    \<or> (status = REGISTRATION_WAITLISTED \<and>
           (\<exists>c. eg_registration_capacity e = Some c \<and> c > 0 \<and> c \<le> eg_registered_count e))"
  using assms
  by (auto simp: authoritative_registration_status_def capacity_decision_def split: option.splits if_splits)

lemma insert_registration_rows:
  assumes "insert_registration snap db d = Inr db1"
  obtains doc where "rd_registrations db1 = rd_registrations db @ [doc]"
    "rd_gatherings db1 = rd_gatherings db"
    "er_name doc = er_name d" "er_gathering doc = er_gathering d" "er_registrant doc = er_registrant d"
    "er_status doc = er_status d"
    "\<forall>r \<in> set (rd_registrations db). er_name r \<noteq> er_name d
       \<and> (er_gathering r, er_registrant r) \<noteq> (er_gathering d, er_registrant d)"
proof -
  from assms obtain doc where doc: "validate_registration snap d = Inr doc"
    "rd_registrations db1 = rd_registrations db @ [doc]" "rd_gatherings db1 = rd_gatherings db"
    "\<not> (\<exists>r \<in> set (rd_registrations db). er_name r = er_name doc \<or>
            (er_gathering r = er_gathering doc \<and> er_registrant r = er_registrant doc))"
    by (auto simp: insert_registration_def res_bind_Inr_iff split: if_splits)
  note k = validate_registration_keeps [OF doc(1)]
  show thesis by (rule that [OF doc(2,3) k(1-4)]) (use doc(4) k in auto)
qed

lemma seated_simps [simp]:
  "seated REGISTRATION_REGISTERED" "seated REGISTRATION_CHECKED_IN"
  "\<not> seated REGISTRATION_WAITLISTED" "\<not> seated REGISTRATION_CANCELLED"
  by (simp_all add: seated_def)

lemma gathering_ok_other:
  "er_gathering doc \<noteq> h \<Longrightarrow> gathering_ok (rows @ [doc]) h e = gathering_ok rows h e"
  by (simp add: gathering_ok_def waitlist_depth_count)

lemma gathering_ok_seat:
  assumes "gathering_ok rows g e" "er_gathering doc = g" "er_status doc = REGISTRATION_REGISTERED"
    "\<forall>c. eg_registration_capacity e = Some c \<longrightarrow> c > 0 \<longrightarrow> eg_registered_count e < c"
  shows "gathering_ok (rows @ [doc]) g (bump_row Registered_Count 1 e)"
  using assms by (auto simp: gathering_ok_def waitlist_depth_count)

lemma gathering_ok_wait:
  assumes "gathering_ok rows g e" "er_gathering doc = g" "er_status doc = REGISTRATION_WAITLISTED"
    "eg_registration_capacity e = Some c" "c > 0" "c \<le> eg_registered_count e"
  shows "gathering_ok (rows @ [doc]) g e"
  using assms by (auto simp: gathering_ok_def waitlist_depth_count)

lemma admission_inv:
  assumes inv: "registration_inv db"
    and st: "authoritative_registration_status db (er_gathering d) = Inr (er_status d)"
    and ins: "insert_registration snap db d = Inr db1"
  shows "registration_inv (announce_registration snap d db1)"
proof -
  let ?g = "er_gathering d"
  obtain doc where doc: "rd_registrations db1 = rd_registrations db @ [doc]"
    "rd_gatherings db1 = rd_gatherings db" "er_name doc = er_name d" "er_gathering doc = ?g"
    "er_registrant doc = er_registrant d" "er_status doc = er_status d"
    and fresh: "\<forall>r \<in> set (rd_registrations db). er_name r \<noteq> er_name d
       \<and> (er_gathering r, er_registrant r) \<noteq> (?g, er_registrant d)"
    using ins by (rule insert_registration_rows)
  have keys: "distinct (map er_name (rd_registrations db1))"
    "distinct (map (\<lambda>r. (er_gathering r, er_registrant r)) (rd_registrations db1))"
    using inv fresh doc by (auto simp: registration_inv_def)
  obtain e where e: "gathering_of db ?g = Some e"
    using st by (auto simp: authoritative_registration_status_def split: option.splits)
  have ok: "gathering_ok (rd_registrations db) h x" if "gathering_of db h = Some x" for h x
    using inv that by (auto simp: registration_inv_def)
  consider (seat) "er_status d = REGISTRATION_REGISTERED"
      "\<forall>c. eg_registration_capacity e = Some c \<longrightarrow> c > 0 \<longrightarrow> eg_registered_count e < c"
    | (wait) c where "er_status d = REGISTRATION_WAITLISTED"
      "eg_registration_capacity e = Some c" "c > 0" "c \<le> eg_registered_count e"
    using authoritative_decision [OF st e] by auto
  then show ?thesis
  proof cases
    case seat
    have "gathering_ok (rd_registrations db1) ?g (bump_row Registered_Count 1 e)"
      using gathering_ok_seat [OF ok [OF e] doc(4) _ seat(2)] doc(1,6) seat(1) by simp
    then have "gathering_ok (rd_registrations db1) h x"
      if "gathering_of (bump_registered_count ?g 1 db1) h = Some x" for h x
      using that ok [of h x] e doc
      by (auto simp: bump_registered_count_def gathering_ok_other simp del: bump_row.simps split: if_splits)
    then show ?thesis
      using seat keys by (auto simp: announce_registration_def Let_def registration_inv_def
          bump_registered_count_def)
  next
    case wait
    then have "gathering_ok (rd_registrations db1) h x" if "gathering_of db1 h = Some x" for h x
      using that ok [OF e] ok [of h x] e doc
      by (cases "h = ?g") (auto simp: gathering_ok_wait gathering_ok_other)
    then show ?thesis
      using wait keys by (auto simp: announce_registration_def Let_def registration_inv_def)
  qed
qed

lemma register_for_event_cases:
  assumes "register_for_event env snap db g member via = Inr (reply, db')"
  obtains (existing) r where "db' = db" "reply = existing_reply r" "er_gathering r = g"
      "r \<in> set (rd_registrations snap) \<union> set (rd_registrations db)"
      "register_gate env snap g member via = Inr (er_registrant r)"
  | (admitted) doc db1 where "register_gate env snap g member via = Inr (er_registrant doc)"
      "find_registration (rd_registrations snap) g (er_registrant doc) = None"
      "authoritative_registration_status db g = Inr (er_status doc)"
      "doc = new_registration env (frappe_gathering_scope snap g) snap db g (er_registrant doc) (er_status doc) via"
      "er_gathering doc = g"
      "insert_registration snap db doc = Inr db1" "db' = announce_registration snap doc db1"
      "reply = \<lparr>ro_registration = er_name doc, ro_status = er_status doc, ro_already_registered = False\<rparr>"
proof -
  from assms obtain m where m: "register_gate env snap g member via = Inr m"
    by (auto simp: register_for_event_def res_bind_Inr_iff)
  have found: "r \<in> set rows \<and> er_gathering r = g \<and> er_registrant r = m"
    if "find_registration rows g m = Some r" for r rows
    using that by (auto simp: find_registration_def find_Some_iff)
  show thesis
  proof (cases "find_registration (rd_registrations snap) g m")
    case (Some r)
    then show thesis using assms m found [OF Some] existing by (auto simp: register_for_event_def)
  next
    case None
    then obtain status where st: "authoritative_registration_status db g = Inr status"
      using assms m by (auto simp: register_for_event_def res_bind_Inr_iff)
    define doc where "doc = new_registration env (frappe_gathering_scope snap g) snap db g m status via"
    have d: "er_gathering doc = g" "er_registrant doc = m" "er_status doc = status"
      by (simp_all add: doc_def new_registration_def Let_def)
    show thesis
    proof (cases "insert_registration snap db doc")
      case (Inr db1)
      then show thesis
        using assms m None st d admitted [of doc db1]
        by (simp add: register_for_event_def doc_def [symmetric])
    next
      case (Inl err)
      then have "err = Registration_Duplicate \<and>
          (\<exists>r. find_registration (rd_registrations db) g m = Some r \<and> reply = existing_reply r \<and> db' = db)"
        using assms m None st
        by (auto simp: register_for_event_def doc_def [symmetric]
            split: registration_action_error.splits option.splits)
      then show thesis using existing m found by auto
    qed
  qed
qed

lemma register_inv:
  assumes "registration_inv db" "register_for_event env snap db g member via = Inr (reply, db')"
  shows "registration_inv db'"
  using assms(2)
proof (cases rule: register_for_event_cases)
  case (admitted doc db1)
  then show ?thesis using admission_inv [OF assms(1)] by simp
qed (use assms in simp)

lemma registration_inv_events [simp]:
  "registration_inv (db \<lparr>rd_events := evs\<rparr>) = registration_inv db"
  "registration_inv (db \<lparr>rd_jobs := js\<rparr>) = registration_inv db"
  by (simp_all add: registration_inv_def)

lemma new_registration_fields [simp]:
  "er_gathering (new_registration env anchors snap db g m status via) = g"
  "er_registrant (new_registration env anchors snap db g m status via) = m"
  "er_status (new_registration env anchors snap db g m status via) = status"
  "er_name (new_registration env anchors snap db g m status via) = rv_next_name env (rd_registrations db)"
  by (simp_all add: new_registration_def Let_def)

lemma bulk_loop_inv:
  "registration_inv db \<Longrightarrow> registration_inv base \<Longrightarrow>
   bulk_loop env anchors snap base g via view db counts ms = Inr (counts', db') \<Longrightarrow> registration_inv db'"
proof (induction env anchors snap base g via view db counts ms rule: bulk_loop.induct)
  case (2 env anchors snap base g via view db counts m ms)
  show ?case
  proof (cases "m = [] \<or> find_registration view g m \<noteq> None")
    case True
    then show ?thesis using 2 by (auto split: if_splits)
  next
    case False
    then obtain status where st: "authoritative_registration_status db g = Inr status"
      using "2.prems"(3) by (auto simp: res_bind_Inr_iff)
    let ?doc = "new_registration env anchors snap db g m status via"
    show ?thesis
    proof (cases "insert_registration snap db ?doc")
      case (Inl err)
      then show ?thesis using False st "2.prems" "2.IH"(3) [OF _ _ refl Inl]
        by (auto simp: Let_def split: registration_action_error.splits)
    next
      case (Inr db1)
      have "registration_inv (announce_registration snap ?doc db1)"
        using admission_inv [OF "2.prems"(1) _ Inr] st by simp
      then show ?thesis using False st Inr "2.prems" "2.IH"(4) [OF _ _ refl Inr] by (simp add: Let_def)
    qed
  qed
qed simp

lemma process_bulk_batch_inv:
  assumes "registration_inv db" "process_bulk_batch env snap db job = Inr (counts, db')"
  shows "registration_inv db'"
proof -
  obtain db1 where "bulk_loop env (frappe_gathering_scope snap (bj_gathering job)) snap db (bj_gathering job) (bj_via job) (rd_registrations snap) db
        \<lparr>bc_created = 0, bc_waitlisted = 0, bc_skipped = 0\<rparr> (bj_members job) = Inr (counts, db1)"
    "registration_inv db' = registration_inv db1"
    using assms(2) by (fastforce simp: process_bulk_batch_def res_bind_Inr_iff Let_def split: if_splits)
  then show ?thesis using bulk_loop_inv assms(1) by metis
qed

section \<open>Cancel, check-in and promotion keep the counters\<close>

lemma gathering_ok_put_other:
  assumes "distinct (map er_name rows)" "r \<in> set rows" "er_name d = er_name r"
    "er_gathering d = er_gathering r" "er_gathering r \<noteq> h"
  shows "gathering_ok (put_row d rows) h e = gathering_ok rows h e"
  using count_status_put_row [OF assms(1-3), where g = h] assms(4,5)
  by (simp add: gathering_ok_def waitlist_depth_count)

lemma gathering_ok_release:
  assumes keys: "distinct (map er_name rows)" "r \<in> set rows" "er_name d = er_name r"
    "er_gathering d = g" "er_gathering r = g"
    and st: "er_status r = REGISTRATION_REGISTERED" "er_status d = REGISTRATION_CANCELLED"
    and ok: "gathering_ok rows g e" and empty: "waitlist_depth rows g = 0"
  shows "gathering_ok (put_row d rows) g (bump_row Registered_Count (- 1) e)"
  using count_status_put_row [OF keys(1-3), of seated g]
    count_status_put_row [OF keys(1-3), of "\<lambda>s. s = REGISTRATION_CHECKED_IN" g]
    count_status_put_row [OF keys(1-3), of "\<lambda>s. s = REGISTRATION_WAITLISTED" g] keys(4,5) st ok empty
  by (auto simp: gathering_ok_def waitlist_depth_count)

lemma gathering_ok_unwait:
  assumes keys: "distinct (map er_name rows)" "r \<in> set rows" "er_name d = er_name r"
    "er_gathering d = g" "er_gathering r = g"
    and st: "\<not> seated (er_status r)" "er_status d = REGISTRATION_CANCELLED" and ok: "gathering_ok rows g e"
  shows "gathering_ok (put_row d rows) g e"
  using count_status_put_row [OF keys(1-3), of seated g]
    count_status_put_row [OF keys(1-3), of "\<lambda>s. s = REGISTRATION_CHECKED_IN" g]
    count_status_put_row [OF keys(1-3), of "\<lambda>s. s = REGISTRATION_WAITLISTED" g] keys(4,5) st ok
  by (auto simp: gathering_ok_def waitlist_depth_count seated_def split: if_splits)

lemma gathering_ok_check_in:
  assumes keys: "distinct (map er_name rows)" "r \<in> set rows" "er_name d = er_name r"
    "er_gathering d = g" "er_gathering r = g"
    and st: "seated (er_status r)" "er_status d = REGISTRATION_CHECKED_IN" and ok: "gathering_ok rows g e"
  shows "gathering_ok (put_row d rows) g (bump_row Checked_In_Count 1 e)"
  using count_status_put_row [OF keys(1-3), of seated g]
    count_status_put_row [OF keys(1-3), of "\<lambda>s. s = REGISTRATION_CHECKED_IN" g]
    count_status_put_row [OF keys(1-3), of "\<lambda>s. s = REGISTRATION_WAITLISTED" g] keys(4,5) st ok
  by (auto simp: gathering_ok_def waitlist_depth_count seated_def split: if_splits)

text \<open>A cancelled seat handed to a waiting row leaves the counter where it was.\<close>

lemma gathering_ok_swap:
  assumes keys: "distinct (map er_name rows)" "r \<in> set rows" "er_name d = er_name r"
    "er_gathering d = g" "er_gathering r = g" "er_registrant d = er_registrant r"
    and st: "er_status r = REGISTRATION_REGISTERED" "er_status d = REGISTRATION_CANCELLED"
    and w: "w \<in> set rows" "er_gathering w = g" "er_status w = REGISTRATION_WAITLISTED"
    and ok: "gathering_ok rows g e"
  defines "rows' \<equiv> put_row (w \<lparr>er_status := REGISTRATION_REGISTERED\<rparr>) (put_row d rows)"
  shows "gathering_ok rows' g (bump_row Registered_Count 1 (bump_row Registered_Count (- 1) e))"
proof -
  have in': "w \<in> set (put_row d rows)" using put_row_other [OF keys(1-3) w(1)] w(3) st(1) by auto
  have d': "distinct (map er_name (put_row d rows))"
    using put_row_keys [OF keys(1-3)] keys by simp
  note c1 = count_status_put_row [OF keys(1-3), where g = g]
  note c2 = count_status_put_row [OF d' in', where g = g and d = "w \<lparr>er_status := REGISTRATION_REGISTERED\<rparr>"]
  show ?thesis
    using c1 [of seated] c1 [of "\<lambda>s. s = REGISTRATION_CHECKED_IN"] c1 [of "\<lambda>s. s = REGISTRATION_WAITLISTED"]
      c2 [of seated] c2 [of "\<lambda>s. s = REGISTRATION_CHECKED_IN"] c2 [of "\<lambda>s. s = REGISTRATION_WAITLISTED"]
      keys(4,5) st w ok
    by (auto simp: gathering_ok_def waitlist_depth_count rows'_def)
qed

lemma save_registration_rows:
  assumes "save_registration snap db d = Inr db1"
  obtains doc where "rd_registrations db1 = put_row doc (rd_registrations db)"
    "rd_gatherings db1 = rd_gatherings db" "er_name doc = er_name d" "er_gathering doc = er_gathering d"
    "er_registrant doc = er_registrant d" "er_status doc = er_status d"
    "er_registered_at doc = er_registered_at d"
proof -
  from assms obtain d' where d': "validate_registration snap d = Inr d'"
    "db1 = db \<lparr>rd_registrations := put_row (d' \<lparr>er_modified := Suc (er_modified d')\<rparr>) (rd_registrations db)\<rparr>"
    by (auto simp: save_registration_def res_bind_Inr_iff split: option.splits if_splits)
  show thesis
    by (rule that [of "d' \<lparr>er_modified := Suc (er_modified d')\<rparr>"])
       (use d' validate_registration_keeps [OF d'(1)] in simp_all)
qed

lemma get_registration_in:
  "get_registration db i = Inr r \<Longrightarrow> r \<in> set (rd_registrations db) \<and> er_name r = i"
  by (auto simp: get_registration_def find_Some_iff split: option.splits)

lemma seat_waitlisted_row_hit:
  assumes "distinct (map er_name (rd_registrations db))" "w \<in> set (rd_registrations db)"
    "er_status w = REGISTRATION_WAITLISTED"
  shows "seat_waitlisted_row (er_name w) db =
    (db \<lparr>rd_registrations := put_row (w \<lparr>er_status := REGISTRATION_REGISTERED\<rparr>) (rd_registrations db)\<rparr>, 1)"
proof -
  have same: "x = w" if "x \<in> set (rd_registrations db)" "er_name x = er_name w" for x
    using that assms(1,2) by (auto simp: distinct_map dest: inj_onD)
  have "filter (\<lambda>r. er_name r = er_name w \<and> er_status r = REGISTRATION_WAITLISTED) (rd_registrations db)
      = filter (\<lambda>r. r = w) (rd_registrations db)"
    using same assms(3) by (intro filter_cong) auto
  moreover have "length (filter (\<lambda>r. r = w) (rd_registrations db)) = 1"
    using assms(1,2) by (intro length_filter_one) (auto simp: distinct_map)
  moreover have "map (\<lambda>r. if er_name r = er_name w \<and> er_status r = REGISTRATION_WAITLISTED
        then r \<lparr>er_status := REGISTRATION_REGISTERED\<rparr> else r) (rd_registrations db)
      = put_row (w \<lparr>er_status := REGISTRATION_REGISTERED\<rparr>) (rd_registrations db)"
    unfolding put_row_def using same assms(3) by (intro map_cong) auto
  ultimately show ?thesis by (simp add: seat_waitlisted_row_def Let_def)
qed

lemma oldest_waitlisted_cases:
  obtains (none) "select_waitlist_promotion_candidate (oldest_waitlisted db g) = None"
      "waitlist_depth (rd_registrations db) g = 0"
  | (some) w where "select_waitlist_promotion_candidate (oldest_waitlisted db g) =
        Some \<lparr>wc_name = er_name w, wc_gathering = g, wc_registrant = er_registrant w,
              wc_registered_at = er_registered_at w\<rparr>"
      "w \<in> set (rd_registrations db)" "er_gathering w = g" "er_status w = REGISTRATION_WAITLISTED"
      "\<forall>v \<in> set (rd_registrations db). er_gathering v = g \<and> er_status v = REGISTRATION_WAITLISTED \<longrightarrow>
         (er_registered_at w, er_name w) \<le> (er_registered_at v, er_name v)"
proof -
  let ?P = "\<lambda>r. er_gathering r = g \<and> er_status r = REGISTRATION_WAITLISTED"
  let ?c = "\<lambda>r. \<lparr>wc_name = er_name r, wc_gathering = g, wc_registrant = er_registrant r,
                  wc_registered_at = er_registered_at r\<rparr>"
  let ?cs = "map ?c (filter ?P (rd_registrations db))"
  show thesis
  proof (cases "sort_key waitlist_key ?cs")
    case Nil
    from arg_cong [OF Nil, of length] have "filter ?P (rd_registrations db) = []" by simp
    then show thesis using none by (simp add: oldest_waitlisted_def waitlist_depth_def)
  next
    case (Cons c cs)
    have "sorted (map waitlist_key (c # cs))"
      unfolding Cons [symmetric] by (rule sorted_sort_key)
    then have le: "\<forall>x \<in> set (c # cs). waitlist_key c \<le> waitlist_key x" by simp
    have cs: "set ?cs = set (c # cs)" by (simp only: Cons [symmetric] set_sort)
    then have least: "\<forall>x \<in> set ?cs. waitlist_key c \<le> waitlist_key x" using le by (simp only:)
    have "c \<in> set (c # cs)" by simp
    then have "c \<in> set ?cs" unfolding cs .
    then obtain w where w: "w \<in> set (rd_registrations db)" "?P w" "c = ?c w" by auto
    have "select_waitlist_promotion_candidate (oldest_waitlisted db g) = Some c"
      by (simp add: oldest_waitlisted_def Cons)
    moreover have "\<forall>v \<in> set (rd_registrations db). ?P v \<longrightarrow>
         (er_registered_at w, er_name w) \<le> (er_registered_at v, er_name v)"
      using least w by (auto simp: waitlist_key_def)
    ultimately show thesis using some w by auto
  qed
qed

lemma promote_none:
  assumes "waitlist_depth (rd_registrations snap) g = 0"
  shows "promote_oldest_waitlisted snap db g = (None, db)"
  by (rule oldest_waitlisted_cases [of snap g])
     (use assms in \<open>auto simp: promote_oldest_waitlisted_def waitlist_depth_def filter_empty_conv\<close>)

lemma promote_some:
  assumes depth: "waitlist_depth (rd_registrations snap) g \<noteq> 0"
    and d: "distinct (map er_name (rd_registrations db))"
    and keep: "\<forall>v \<in> set (rd_registrations snap). er_status v = REGISTRATION_WAITLISTED
       \<longrightarrow> v \<in> set (rd_registrations db)"
  obtains w where "w \<in> set (rd_registrations snap)" "er_gathering w = g"
    "er_status w = REGISTRATION_WAITLISTED"
    "\<forall>v \<in> set (rd_registrations snap). er_gathering v = g \<and> er_status v = REGISTRATION_WAITLISTED \<longrightarrow>
       (er_registered_at w, er_name w) \<le> (er_registered_at v, er_name v)"
    "promote_oldest_waitlisted snap db g = (Some (er_name w, er_registrant w),
       bump_registered_count g 1
         (db \<lparr>rd_registrations := put_row (w \<lparr>er_status := REGISTRATION_REGISTERED\<rparr>) (rd_registrations db)\<rparr>))"
proof (rule oldest_waitlisted_cases [of snap g])
  assume "waitlist_depth (rd_registrations snap) g = 0"
  then show thesis using depth by simp
next
  fix w
  assume w: "select_waitlist_promotion_candidate (oldest_waitlisted snap g) =
        Some \<lparr>wc_name = er_name w, wc_gathering = g, wc_registrant = er_registrant w,
              wc_registered_at = er_registered_at w\<rparr>"
      "w \<in> set (rd_registrations snap)" "er_gathering w = g" "er_status w = REGISTRATION_WAITLISTED"
      "\<forall>v \<in> set (rd_registrations snap). er_gathering v = g \<and> er_status v = REGISTRATION_WAITLISTED \<longrightarrow>
         (er_registered_at w, er_name w) \<le> (er_registered_at v, er_name v)"
  have "seat_waitlisted_row (er_name w) db = (db \<lparr>rd_registrations :=
      put_row (w \<lparr>er_status := REGISTRATION_REGISTERED\<rparr>) (rd_registrations db)\<rparr>, 1)"
    using seat_waitlisted_row_hit [OF d _ w(4)] keep w by auto
  then show thesis using that [of w] w by (simp add: promote_oldest_waitlisted_def)
qed

lemma cancel_cases:
  assumes inv: "registration_inv db" and c: "cancel_registration env db db i = Inr (promoted, db')"
  obtains r doc db1 where "r \<in> set (rd_registrations db)" "er_name r = i" "er_name doc = er_name r"
    "er_gathering doc = er_gathering r" "er_registrant doc = er_registrant r"
    "er_status doc = REGISTRATION_CANCELLED" "er_registered_at doc = er_registered_at r"
    "is_valid_registration_transition (er_status r) REGISTRATION_CANCELLED"
    "rd_registrations db1 = put_row doc (rd_registrations db)" "rd_gatherings db1 = rd_gatherings db"
    "(promoted, rd_registrations db', rd_gatherings db') =
       (let (p, d) = release_and_promote db db1 (er_gathering r) (er_status r = REGISTRATION_REGISTERED)
        in (p, rd_registrations d, rd_gatherings d))"
proof -
  from c obtain r where r: "get_registration db i = Inr r"
    "is_valid_registration_transition (er_status r) REGISTRATION_CANCELLED"
    by (auto simp: cancel_registration_def res_bind_Inr_iff lift_rule_def
        validate_registration_transition_def split: if_splits)
  from c r obtain db1 where db1: "save_registration db db (r \<lparr>er_status := REGISTRATION_CANCELLED\<rparr>) = Inr db1"
    by (auto simp: cancel_registration_def res_bind_Inr_iff lift_rule_def split: if_splits)
  have res: "(promoted, rd_registrations db', rd_gatherings db') =
       (let (p, d) = release_and_promote db db1 (er_gathering r) (er_status r = REGISTRATION_REGISTERED)
        in (p, rd_registrations d, rd_gatherings d))"
    using c r db1
    by (cases "release_and_promote db db1 (er_gathering r) (er_status r = REGISTRATION_REGISTERED)")
       (auto simp: cancel_registration_def res_bind_Inr_iff Let_def split: if_splits option.splits)
  from db1 obtain doc where "rd_registrations db1 = put_row doc (rd_registrations db)"
    "rd_gatherings db1 = rd_gatherings db" "er_name doc = er_name r" "er_gathering doc = er_gathering r"
    "er_registrant doc = er_registrant r" "er_status doc = REGISTRATION_CANCELLED"
    "er_registered_at doc = er_registered_at r"
    by (rule save_registration_rows) auto
  then show thesis using that [of r doc db1] res r get_registration_in [OF r(1)] by blast
qed

lemma may_cancel:
  "is_valid_registration_transition s REGISTRATION_CANCELLED \<Longrightarrow> s \<noteq> REGISTRATION_REGISTERED \<Longrightarrow>
   s = REGISTRATION_WAITLISTED \<or> s = REGISTRATION_CANCELLED"
  by (auto simp: registration.move_iff registration_table seated_def status_defs split: if_splits)

lemma may_check_in:
  "is_valid_registration_transition s REGISTRATION_CHECKED_IN \<Longrightarrow> seated s"
  by (auto simp: registration.move_iff registration_table seated_def status_defs split: if_splits)

text \<open>What a successful cancellation does to rows and counters, in the three cases: no seat
  was freed, a seat was freed and nobody waits, a seat was freed and handed on.\<close>

lemma cancel_effect:
  assumes inv: "registration_inv db" and c: "cancel_registration env db db i = Inr (promoted, db')"
  obtains (unseated) r doc where "r \<in> set (rd_registrations db)" "er_name r = i" "er_name doc = er_name r"
      "er_gathering doc = er_gathering r" "er_registrant doc = er_registrant r"
      "er_status doc = REGISTRATION_CANCELLED"
      "er_status r = REGISTRATION_WAITLISTED \<or> er_status r = REGISTRATION_CANCELLED" "promoted = None"
      "rd_registrations db' = put_row doc (rd_registrations db)" "rd_gatherings db' = rd_gatherings db"
  | (freed) r doc where "r \<in> set (rd_registrations db)" "er_name r = i" "er_name doc = er_name r"
      "er_gathering doc = er_gathering r" "er_registrant doc = er_registrant r"
      "er_status doc = REGISTRATION_CANCELLED" "er_status r = REGISTRATION_REGISTERED" "promoted = None"
      "waitlist_depth (rd_registrations db) (er_gathering r) = 0"
      "rd_registrations db' = put_row doc (rd_registrations db)"
      "rd_gatherings db' = AList.map_entry (er_gathering r) (bump_row Registered_Count (- 1)) (rd_gatherings db)"
  | (handed) r doc w where "r \<in> set (rd_registrations db)" "er_name r = i" "er_name doc = er_name r"
      "er_gathering doc = er_gathering r" "er_registrant doc = er_registrant r"
      "er_status doc = REGISTRATION_CANCELLED" "er_status r = REGISTRATION_REGISTERED"
      "w \<in> set (rd_registrations db)" "er_gathering w = er_gathering r"
      "er_status w = REGISTRATION_WAITLISTED" "promoted = Some (er_name w, er_registrant w)"
      "\<forall>v \<in> set (rd_registrations db). er_gathering v = er_gathering r \<and>
          er_status v = REGISTRATION_WAITLISTED \<longrightarrow>
          (er_registered_at w, er_name w) \<le> (er_registered_at v, er_name v)"
      "rd_registrations db' =
         put_row (w \<lparr>er_status := REGISTRATION_REGISTERED\<rparr>) (put_row doc (rd_registrations db))"
      "rd_gatherings db' = AList.map_entry (er_gathering r) (bump_row Registered_Count 1)
         (AList.map_entry (er_gathering r) (bump_row Registered_Count (- 1)) (rd_gatherings db))"
  using inv c
proof (rule cancel_cases)
  fix r doc db1
  assume r: "r \<in> set (rd_registrations db)" "er_name r = i" "er_name doc = er_name r"
    "er_gathering doc = er_gathering r" "er_registrant doc = er_registrant r"
    "er_status doc = REGISTRATION_CANCELLED"
    and valid: "is_valid_registration_transition (er_status r) REGISTRATION_CANCELLED"
    and db1: "rd_registrations db1 = put_row doc (rd_registrations db)" "rd_gatherings db1 = rd_gatherings db"
    and res: "(promoted, rd_registrations db', rd_gatherings db') =
       (let (p, d) = release_and_promote db db1 (er_gathering r) (er_status r = REGISTRATION_REGISTERED)
        in (p, rd_registrations d, rd_gatherings d))"
  let ?g = "er_gathering r" and ?db2 = "bump_registered_count (er_gathering r) (- 1) db1"
  have names: "distinct (map er_name (rd_registrations db))" using inv by (simp add: registration_inv_def)
  show thesis
  proof (cases "er_status r = REGISTRATION_REGISTERED")
    case False
    then show thesis using unseated [OF r] res db1 may_cancel [OF valid] by (simp add: release_and_promote_def)
  next
    case seat: True
    show thesis
    proof (cases "waitlist_depth (rd_registrations db) ?g = 0")
      case True
      then show thesis using freed [OF r seat] res db1 seat
        by (simp add: release_and_promote_def promote_none bump_registered_count_def bump_gathering_count_def)
    next
      case False
      have "distinct (map er_name (rd_registrations ?db2))"
        using put_row_keys [OF names r(1,3,4,5)] names by (simp add: bump_registered_count_def db1)
      moreover have "\<forall>v \<in> set (rd_registrations db). er_status v = REGISTRATION_WAITLISTED
          \<longrightarrow> v \<in> set (rd_registrations ?db2)"
        using put_row_other [OF names r(1,3)] seat by (auto simp: bump_registered_count_def db1)
      ultimately obtain w where "w \<in> set (rd_registrations db)" "er_gathering w = ?g"
        "er_status w = REGISTRATION_WAITLISTED"
        "\<forall>v \<in> set (rd_registrations db). er_gathering v = ?g \<and> er_status v = REGISTRATION_WAITLISTED \<longrightarrow>
           (er_registered_at w, er_name w) \<le> (er_registered_at v, er_name v)"
        "promote_oldest_waitlisted db ?db2 ?g = (Some (er_name w, er_registrant w),
           bump_registered_count ?g 1
             (?db2 \<lparr>rd_registrations := put_row (w \<lparr>er_status := REGISTRATION_REGISTERED\<rparr>) (rd_registrations ?db2)\<rparr>))"
        by (rule promote_some [OF False])
      then show thesis using handed [OF r seat] res db1 seat
        by (simp add: release_and_promote_def bump_registered_count_def bump_gathering_count_def)
    qed
  qed
qed

lemma registration_inv_putI:
  assumes inv: "registration_inv db"
    and keys: "r \<in> set (rd_registrations db)" "er_name d = er_name r" "er_gathering d = er_gathering r"
      "er_registrant d = er_registrant r"
    and rows: "rd_registrations db' = put_row d (rd_registrations db)"
    and other: "\<And>h. h \<noteq> er_gathering r \<Longrightarrow> gathering_of db' h = gathering_of db h"
    and own: "\<And>e'. gathering_of db' (er_gathering r) = Some e' \<Longrightarrow>
       \<exists>e. gathering_of db (er_gathering r) = Some e \<and>
           (gathering_ok (rd_registrations db) (er_gathering r) e \<longrightarrow>
            gathering_ok (rd_registrations db') (er_gathering r) e')"
  shows "registration_inv db'"
proof -
  have names: "distinct (map er_name (rd_registrations db))"
    and ok: "\<And>h e. gathering_of db h = Some e \<Longrightarrow> gathering_ok (rd_registrations db) h e"
    using inv by (auto simp: registration_inv_def)
  have "gathering_ok (rd_registrations db') h e'" if "gathering_of db' h = Some e'" for h e'
  proof (cases "h = er_gathering r")
    case True
    then show ?thesis using own ok that by metis
  next
    case False
    then show ?thesis
      using gathering_ok_put_other [OF names keys(1-3)] other [OF False] ok that rows by auto
  qed
  then show ?thesis
    using put_row_keys [OF names keys] inv by (simp add: registration_inv_def rows)
qed

lemma cancel_inv:
  assumes inv: "registration_inv db" and c: "cancel_registration env db db i = Inr (promoted, db')"
  shows "registration_inv db'"
proof (rule cancel_effect [OF inv c], goal_cases)
  case (1 r doc)
  have names: "distinct (map er_name (rd_registrations db))" using inv by (simp add: registration_inv_def)
  show ?case
    by (rule registration_inv_putI [OF inv 1(1,3,4,5,9)])
       (use 1 gathering_ok_unwait [OF names 1(1,3,4) refl _ 1(6)] in auto)
next
  case (2 r doc)
  have names: "distinct (map er_name (rd_registrations db))" using inv by (simp add: registration_inv_def)
  show ?case
    by (rule registration_inv_putI [OF inv 2(1,3,4,5,10)])
       (use 2 gathering_ok_release [OF names 2(1,3,4) refl 2(7,6) _ 2(9)]
        in \<open>auto simp: map_of_map_entry simp del: bump_row.simps split: option.splits\<close>)
next
  case (3 r doc w)
  have names: "distinct (map er_name (rd_registrations db))" using inv by (simp add: registration_inv_def)
  let ?g = "er_gathering r" and ?w = "w \<lparr>er_status := REGISTRATION_REGISTERED\<rparr>"
  let ?rows = "put_row doc (rd_registrations db)"
  have w: "w \<in> set ?rows" using put_row_other [OF names 3(1,3,8)] 3(7,10) by simp
  have names': "distinct (map er_name ?rows)" using put_row_keys [OF names 3(1,3,4,5)] names by simp
  have ok: "\<And>h e. gathering_of db h = Some e \<Longrightarrow> gathering_ok (rd_registrations db) h e"
    using inv by (auto simp: registration_inv_def)
  have "gathering_ok (rd_registrations db') h e'" if "gathering_of db' h = Some e'" for h e'
  proof (cases "h = ?g")
    case True
    with that 3(14) obtain e where e: "gathering_of db ?g = Some e"
      "e' = bump_row Registered_Count 1 (bump_row Registered_Count (- 1) e)"
      by (auto simp: map_of_map_entry simp del: bump_row.simps split: option.splits)
    then show ?thesis
      using gathering_ok_swap [OF names 3(1,3,4) refl 3(5,7,6,8,9,10) ok [OF e(1)]] 3(13) True by simp
  next
    case False
    then have "gathering_of db h = Some e'"
      using that 3(14) by (simp add: map_of_map_entry split: option.splits)
    then have "gathering_ok ?rows h e'"
      using gathering_ok_put_other [OF names 3(1,3,4)] False ok by auto
    then show ?thesis
      using gathering_ok_put_other [OF names' w, of ?w h e'] False 3(9,13) by simp
  qed
  moreover have "map er_name (rd_registrations db') = map er_name (rd_registrations db)"
    "map (\<lambda>r. (er_gathering r, er_registrant r)) (rd_registrations db')
      = map (\<lambda>r. (er_gathering r, er_registrant r)) (rd_registrations db)"
    using put_row_keys [OF names 3(1,3,4,5)] put_row_keys [OF names' w, of ?w] 3(13) by simp_all
  ultimately show ?case using inv by (simp add: registration_inv_def)
qed

lemma check_in_effect:
  assumes inv: "registration_inv db" and c: "check_in_registration env db db i ref = Inr db'"
  obtains r doc where "r \<in> set (rd_registrations db)" "er_name r = i" "er_name doc = er_name r"
    "er_gathering doc = er_gathering r" "er_registrant doc = er_registrant r"
    "er_status doc = REGISTRATION_CHECKED_IN" "seated (er_status r)"
    "rd_registrations db' = put_row doc (rd_registrations db)"
    "rd_gatherings db' = AList.map_entry (er_gathering r) (bump_row Checked_In_Count 1) (rd_gatherings db)"
proof -
  from c obtain r where r: "get_registration db i = Inr r"
    "is_valid_registration_transition (er_status r) REGISTRATION_CHECKED_IN"
    by (auto simp: check_in_registration_def res_bind_Inr_iff lift_rule_def
        validate_registration_transition_def split: if_splits)
  let ?d = "r \<lparr>er_status := REGISTRATION_CHECKED_IN\<rparr>"
  let ?d2 = "if truthy ref then ?d \<lparr>er_attendance := ref\<rparr> else ?d"
  have k: "er_name ?d2 = er_name r" "er_gathering ?d2 = er_gathering r"
    "er_registrant ?d2 = er_registrant r" "er_status ?d2 = REGISTRATION_CHECKED_IN"
    by simp_all
  from c r obtain db1 where db1: "save_registration db db ?d2 = Inr db1"
    "rd_registrations db' = rd_registrations db1"
    "rd_gatherings db' = AList.map_entry (er_gathering r) (bump_row Checked_In_Count 1) (rd_gatherings db1)"
    by (auto simp: check_in_registration_def res_bind_Inr_iff Let_def bump_gathering_count_def split: if_splits)
  from db1(1) show thesis
    by (rule save_registration_rows)
       (use that [of r] db1 k get_registration_in [OF r(1)] may_check_in [OF r(2)] in simp)
qed

lemma check_in_inv:
  assumes inv: "registration_inv db" and c: "check_in_registration env db db i ref = Inr db'"
  shows "registration_inv db'"
proof (rule check_in_effect [OF inv c])
  fix r doc
  assume r: "r \<in> set (rd_registrations db)" "er_name r = i" "er_name doc = er_name r"
    "er_gathering doc = er_gathering r" "er_registrant doc = er_registrant r"
    "er_status doc = REGISTRATION_CHECKED_IN" "seated (er_status r)"
    "rd_registrations db' = put_row doc (rd_registrations db)"
    "rd_gatherings db' = AList.map_entry (er_gathering r) (bump_row Checked_In_Count 1) (rd_gatherings db)"
  have names: "distinct (map er_name (rd_registrations db))" using inv by (simp add: registration_inv_def)
  show ?thesis
    by (rule registration_inv_putI [OF inv r(1,3,4,5,8)])
       (use r gathering_ok_check_in [OF names r(1,3,4) refl r(7,6)]
        in \<open>auto simp: map_of_map_entry simp del: bump_row.simps split: option.splits\<close>)
qed

section \<open>The system of requests\<close>

text \<open>One committed request.  Registrations and bulk jobs may read from any snapshot, however
  stale; cancellations and check-ins are those whose snapshot is current.\<close>

inductive reg_step :: "registration_db \<Rightarrow> registration_db \<Rightarrow> bool" where
  step_register: "register_for_event env snap db g member via = Inr (reply, db') \<Longrightarrow> reg_step db db'"
| step_cancel: "cancel_registration env db db i = Inr (promoted, db') \<Longrightarrow> reg_step db db'"
| step_check_in: "check_in_registration env db db i ref = Inr db' \<Longrightarrow> reg_step db db'"
| step_bulk_queue: "register_bulk env db job_id g members batch_size = Inr (receipt, db') \<Longrightarrow> reg_step db db'"
| step_bulk: "process_bulk_batch env snap db job = Inr (counts, db') \<Longrightarrow> reg_step db db'"

lemma register_bulk_rows:
  assumes "register_bulk env db job_id g members batch_size = Inr (receipt, db')"
  shows "rd_registrations db' = rd_registrations db \<and> rd_gatherings db' = rd_gatherings db"
  using assms by (auto simp: register_bulk_def res_bind_Inr_iff Let_def split: if_splits)

lemma register_bulk_inv:
  "registration_inv db \<Longrightarrow> register_bulk env db job_id g members batch_size = Inr (receipt, db')
    \<Longrightarrow> registration_inv db'"
  using register_bulk_rows by (fastforce simp: registration_inv_def)

lemma reg_step_inv: "reg_step db db' \<Longrightarrow> registration_inv db \<Longrightarrow> registration_inv db'"
  by (induction rule: reg_step.induct)
     (auto intro: register_inv cancel_inv check_in_inv process_bulk_batch_inv register_bulk_inv)

lemma reg_steps_inv: "reg_step\<^sup>*\<^sup>* db db' \<Longrightarrow> registration_inv db \<Longrightarrow> registration_inv db'"
  by (induction rule: rtranclp_induct) (auto intro: reg_step_inv)

text \<open>Every row survives a step under its name, and its status moves by the table.\<close>

definition follows :: "registration_row list \<Rightarrow> registration_row list \<Rightarrow> bool" where
  "follows rows rows' \<longleftrightarrow> (\<forall>r \<in> set rows. \<exists>r' \<in> set rows'.
     er_name r' = er_name r \<and> er_gathering r' = er_gathering r \<and> er_registrant r' = er_registrant r
     \<and> (er_status r' = er_status r \<or> er_status r' \<in> set (table_get REGISTRATION_TRANSITIONS (er_status r))))"

lemma follows_append [simp]: "follows rows (rows @ extra)"
  by (auto simp: follows_def)

lemma follows_refl [simp]: "follows rows rows"
  by (auto simp: follows_def)

lemma follows_trans_put:
  assumes f: "follows rows rows1" and w: "w \<in> set rows" "w \<in> set rows1" "distinct (map er_name rows1)"
    and d: "er_name d = er_name w" "er_gathering d = er_gathering w" "er_registrant d = er_registrant w"
      "er_status d = er_status w \<or> er_status d \<in> set (table_get REGISTRATION_TRANSITIONS (er_status w))"
    and names: "distinct (map er_name rows)"
  shows "follows rows (put_row d rows1)"
  unfolding follows_def
proof
  fix x assume x: "x \<in> set rows"
  show "\<exists>r' \<in> set (put_row d rows1). er_name r' = er_name x \<and> er_gathering r' = er_gathering x
     \<and> er_registrant r' = er_registrant x
     \<and> (er_status r' = er_status x \<or> er_status r' \<in> set (table_get REGISTRATION_TRANSITIONS (er_status x)))"
  proof (cases "er_name x = er_name d")
    case True
    then have "x = w" using names x w(1) d(1) by (auto simp: distinct_map dest: inj_onD)
    moreover have "d \<in> set (put_row d rows1)" using w(2) d(1) by (force simp: put_row_def)
    ultimately show ?thesis using d by auto
  next
    case False
    from f x obtain r' where "r' \<in> set rows1" "er_name r' = er_name x" "er_gathering r' = er_gathering x"
      "er_registrant r' = er_registrant x"
      "er_status r' = er_status x \<or> er_status r' \<in> set (table_get REGISTRATION_TRANSITIONS (er_status x))"
      unfolding follows_def by blast
    moreover from this False have "r' \<in> set (put_row d rows1)" by (force simp: put_row_def)
    ultimately show ?thesis by auto
  qed
qed

lemmas follows_put_row = follows_trans_put [OF follows_refl]

lemma announce_rows [simp]: "rd_registrations (announce_registration snap d db) = rd_registrations db"
  by (simp add: announce_registration_def Let_def bump_registered_count_def)

lemma bulk_loop_rows:
  "rd_registrations db = rd_registrations base @ own \<Longrightarrow>
   bulk_loop env anchors snap base g via view db counts ms = Inr (counts', db') \<Longrightarrow>
   \<exists>extra. rd_registrations db' = rd_registrations base @ extra"
proof (induction env anchors snap base g via view db counts ms arbitrary: own rule: bulk_loop.induct)
  case (2 env anchors snap base g via view db counts m ms)
  show ?case
  proof (cases "m = [] \<or> find_registration view g m \<noteq> None")
    case True
    then show ?thesis using 2 by (auto split: if_splits)
  next
    case False
    then obtain status where st: "authoritative_registration_status db g = Inr status"
      using "2.prems"(2) by (auto simp: res_bind_Inr_iff)
    let ?doc = "new_registration env anchors snap db g m status via"
    show ?thesis
    proof (cases "insert_registration snap db ?doc")
      case (Inl err)
      then show ?thesis using False st "2.prems" "2.IH"(3) [OF _ _ refl Inl, of "[]"]
        by (auto simp: Let_def split: registration_action_error.splits)
    next
      case (Inr db1)
      then obtain d where "rd_registrations db1 = rd_registrations db @ [d]"
        by (rule insert_registration_rows)
      then have "rd_registrations (announce_registration snap ?doc db1) = rd_registrations base @ (own @ [d])"
        using "2.prems"(1) by simp
      then show ?thesis using False st Inr "2.prems" "2.IH"(4) [OF _ _ refl Inr] by (simp add: Let_def)
    qed
  qed
qed auto

lemma reg_step_follows:
  assumes "reg_step db db'" "registration_inv db"
  shows "follows (rd_registrations db) (rd_registrations db')"
  using assms
proof (induction rule: reg_step.induct)
  case (step_register env snap db g member via reply db')
  from step_register(1) show ?case
    by (cases rule: register_for_event_cases) (auto elim!: insert_registration_rows)
next
  case (step_cancel env db i promoted db')
  have names: "distinct (map er_name (rd_registrations db))"
    using step_cancel(2) by (simp add: registration_inv_def)
  have edge: "REGISTRATION_CANCELLED = s \<or> REGISTRATION_CANCELLED \<in> set (table_get REGISTRATION_TRANSITIONS s)"
    if "s = REGISTRATION_REGISTERED \<or> s = REGISTRATION_WAITLISTED \<or> s = REGISTRATION_CANCELLED" for s
    using that by (auto simp: registration_table status_defs)
  from step_cancel(2,1) show ?case
  proof (cases rule: cancel_effect)
    case (unseated r doc)
    then show ?thesis
      using follows_put_row [OF unseated(1,1) names unseated(3,4,5) _ names] edge [of "er_status r"] unseated by auto
  next
    case (freed r doc)
    then show ?thesis
      using follows_put_row [OF freed(1,1) names freed(3,4,5) _ names] edge [of "er_status r"] freed by auto
  next
    case (handed r doc w)
    let ?rows = "put_row doc (rd_registrations db)"
    have f: "follows (rd_registrations db) ?rows"
      using follows_put_row [OF handed(1,1) names handed(3,4,5) _ names] edge [of "er_status r"] handed by auto
    have w: "w \<in> set ?rows" using put_row_other [OF names handed(1,3,8)] handed(7,10) by simp
    have n: "distinct (map er_name ?rows)" using put_row_keys [OF names handed(1,3,4,5)] names by simp
    have "follows (rd_registrations db) (put_row (w \<lparr>er_status := REGISTRATION_REGISTERED\<rparr>) ?rows)"
      by (rule follows_trans_put [OF f handed(8) w n _ _ _ _ names])
         (simp_all add: handed(10) registration_table status_defs)
    then show ?thesis by (simp add: handed(13))
  qed
next
  case (step_check_in env db i ref db')
  have names: "distinct (map er_name (rd_registrations db))"
    using step_check_in(2) by (simp add: registration_inv_def)
  show ?case
  proof (rule check_in_effect [OF step_check_in(2,1)])
    fix r doc
    assume r: "r \<in> set (rd_registrations db)" "er_name doc = er_name r"
      "er_gathering doc = er_gathering r" "er_registrant doc = er_registrant r"
      "er_status doc = REGISTRATION_CHECKED_IN" "seated (er_status r)"
      "rd_registrations db' = put_row doc (rd_registrations db)"
    show ?thesis
      unfolding r(7)
      by (rule follows_put_row [OF r(1,1) names r(2-4) _ names])
         (use r(5,6) in \<open>auto simp: seated_def registration_table status_defs\<close>)
  qed
next
  case (step_bulk_queue env db job_id g members batch_size receipt db')
  then show ?case using register_bulk_rows by fastforce
next
  case (step_bulk env snap db job counts db')
  then obtain db1 where "bulk_loop env (frappe_gathering_scope snap (bj_gathering job)) snap db (bj_gathering job) (bj_via job) (rd_registrations snap) db
        \<lparr>bc_created = 0, bc_waitlisted = 0, bc_skipped = 0\<rparr> (bj_members job) = Inr (counts, db1)"
    "rd_registrations db' = rd_registrations db1"
    by (fastforce simp: process_bulk_batch_def res_bind_Inr_iff Let_def split: if_splits)
  moreover from this obtain extra where "rd_registrations db1 = rd_registrations db @ extra"
    using bulk_loop_rows [of db db "[]"] by fastforce
  ultimately show ?case by simp
qed

lemma terminal_row_persists:
  assumes "reg_step\<^sup>*\<^sup>* db db'" "registration_inv db" "r \<in> set (rd_registrations db)"
    "is_terminal_registration_status (er_status r)"
  shows "\<exists>r' \<in> set (rd_registrations db'). er_name r' = er_name r \<and> er_gathering r' = er_gathering r
    \<and> er_registrant r' = er_registrant r \<and> er_status r' = er_status r"
  using assms
proof (induction rule: rtranclp_induct)
  case (step y z)
  then obtain x where x: "x \<in> set (rd_registrations y)" "er_name x = er_name r"
    "er_gathering x = er_gathering r" "er_registrant x = er_registrant r" "er_status x = er_status r" by auto
  have "follows (rd_registrations y) (rd_registrations z)"
    using reg_step_follows [OF step(2)] reg_steps_inv [OF step(1)] step.prems by auto
  then obtain x' where "x' \<in> set (rd_registrations z)" "er_name x' = er_name x"
    "er_gathering x' = er_gathering x" "er_registrant x' = er_registrant x"
    "er_status x' = er_status x \<or> er_status x' \<in> set (table_get REGISTRATION_TRANSITIONS (er_status x))"
    using x(1) unfolding follows_def by blast
  moreover have "table_get REGISTRATION_TRANSITIONS (er_status x) = []"
    using step.prems x(5) by (auto simp: registration_table is_terminal_registration_status_def
        TERMINAL_REGISTRATION_STATUSES_def status_defs)
  ultimately show ?case using x by (intro bexI [of _ x']) auto
qed auto

lemma gathering_ok_spec:
  assumes "gathering_ok rows g e"
  shows "eg_registered_count e = int (count_status seated g rows)"
    "\<forall>c. eg_registration_capacity e = Some c \<longrightarrow> c > 0 \<longrightarrow> int (count_status seated g rows) \<le> c"
    "waitlist_depth rows g > 0 \<longrightarrow>
       (\<exists>c. eg_registration_capacity e = Some c \<and> c > 0 \<and> int (count_status seated g rows) = c)"
  using assms by (auto simp: gathering_ok_def)

text \<open>A seated row of a gathering counts, so releasing its seat takes one off the counter.\<close>

lemma seat_counted:
  assumes "registration_inv db" "r \<in> set (rd_registrations db)" "er_status r = REGISTRATION_REGISTERED"
    "gathering_of db (er_gathering r) = Some e"
  shows "1 \<le> eg_registered_count e"
proof -
  have "eg_registered_count e = int (count_status seated (er_gathering r) (rd_registrations db))"
    using assms(1,4) by (auto simp: registration_inv_def gathering_ok_def)
  moreover have "count_status seated (er_gathering r) (rd_registrations db) \<noteq> 0"
    using assms(2,3) by (auto simp: count_status_def filter_empty_conv)
  ultimately show ?thesis by linarith
qed

lemma seat_released:
  assumes "registration_inv db" "r \<in> set (rd_registrations db)" "er_status r = REGISTRATION_REGISTERED"
    "rd_gatherings db' = AList.map_entry (er_gathering r) (bump_row Registered_Count (- 1)) (rd_gatherings db)"
  shows "map_option eg_registered_count (gathering_of db' h)
    = map_option (\<lambda>e. eg_registered_count e - (if h = er_gathering r then 1 else 0)) (gathering_of db h)"
  using seat_counted [OF assms(1-3)] by (auto simp: assms(4) map_of_map_entry split: option.split)

lemma seat_reclaimed:
  assumes "registration_inv db" "r \<in> set (rd_registrations db)" "er_status r = REGISTRATION_REGISTERED"
    "rd_gatherings db' = AList.map_entry (er_gathering r) (bump_row Registered_Count 1)
       (AList.map_entry (er_gathering r) (bump_row Registered_Count (- 1)) (rd_gatherings db))"
  shows "map_option eg_registered_count (gathering_of db' h) = map_option eg_registered_count (gathering_of db h)"
  using seat_counted [OF assms(1-3)] by (auto simp: assms(4) map_of_map_entry split: option.split)

section \<open>Properties\<close>

text \<open>C1. No sequence of requests overbooks: from a consistent database, whatever snapshots
  registrations and bulk jobs read, the seat counter of every gathering equals the number of
  its Registered and Checked-in rows, never exceeds a positive registration capacity, somebody
  waits only while the gathering is full, and a member has at most one row per gathering.\<close>
theorem registrations_never_overbook:
  assumes steps: "reg_step\<^sup>*\<^sup>* db0 db" and inv: "registration_inv db0"
  shows "distinct (map (\<lambda>r. (er_gathering r, er_registrant r)) (rd_registrations db))
    \<and> (\<forall>g e. gathering_of db g = Some e \<longrightarrow>
         eg_registered_count e = int (count_status seated g (rd_registrations db))
       \<and> (\<forall>c. eg_registration_capacity e = Some c \<longrightarrow> c > 0 \<longrightarrow>
            int (count_status seated g (rd_registrations db)) \<le> c)
       \<and> (waitlist_depth (rd_registrations db) g > 0 \<longrightarrow>
            (\<exists>c. eg_registration_capacity e = Some c \<and> c > 0
               \<and> int (count_status seated g (rd_registrations db)) = c)))"
  using reg_steps_inv [OF steps inv] gathering_ok_spec unfolding registration_inv_def by blast

text \<open>C18. Cancelling a seated registration while others wait hands the seat to the waiting
  row with the least registration time (then name), leaves the number of seated rows of the
  gathering and the seat counter of every gathering unchanged and shortens the waitlist by one; in
  every other case nobody is promoted, and the seat counter of the gathering falls by one if the
  cancelled row held a seat, while no other counter of seats changes.\<close>
theorem cancelled_seat_goes_to_oldest:
  assumes inv: "registration_inv db" and c: "cancel_registration env db db i = Inr (promoted, db')"
  shows "\<exists>r \<in> set (rd_registrations db). er_name r = i \<and>
    (if er_status r = REGISTRATION_REGISTERED \<and> waitlist_depth (rd_registrations db) (er_gathering r) > 0
     then \<exists>w \<in> set (rd_registrations db). er_gathering w = er_gathering r
         \<and> er_status w = REGISTRATION_WAITLISTED \<and> promoted = Some (er_name w, er_registrant w)
         \<and> (\<forall>v \<in> set (rd_registrations db). er_gathering v = er_gathering r
              \<and> er_status v = REGISTRATION_WAITLISTED \<longrightarrow>
              (er_registered_at w, er_name w) \<le> (er_registered_at v, er_name v))
         \<and> w \<lparr>er_status := REGISTRATION_REGISTERED\<rparr> \<in> set (rd_registrations db')
         \<and> count_status seated (er_gathering r) (rd_registrations db')
             = count_status seated (er_gathering r) (rd_registrations db)
         \<and> Suc (waitlist_depth (rd_registrations db') (er_gathering r))
             = waitlist_depth (rd_registrations db) (er_gathering r)
         \<and> (\<forall>h. map_option eg_registered_count (gathering_of db' h)
              = map_option eg_registered_count (gathering_of db h))
     else promoted = None
         \<and> (\<forall>h. map_option eg_registered_count (gathering_of db' h)
              = map_option (\<lambda>e. eg_registered_count e
                  - (if h = er_gathering r \<and> er_status r = REGISTRATION_REGISTERED then 1 else 0))
                  (gathering_of db h)))"
proof (rule cancel_effect [OF inv c], goal_cases)
  case (1 r doc)
  have "er_status r \<noteq> REGISTRATION_REGISTERED" using 1(7) by (auto simp: status_defs)
  then show ?case using 1 by (intro bexI [of _ r]) simp_all
next
  case (2 r doc)
  then show ?case using seat_released [OF inv 2(1,7,11)] by (intro bexI [of _ r]) simp_all
next
  case (3 r doc w)
  have names: "distinct (map er_name (rd_registrations db))" using inv by (simp add: registration_inv_def)
  let ?rows = "put_row doc (rd_registrations db)" and ?w = "w \<lparr>er_status := REGISTRATION_REGISTERED\<rparr>"
  have w: "w \<in> set ?rows" using put_row_other [OF names 3(1,3,8)] 3(7,10) by simp
  have n: "distinct (map er_name ?rows)" using put_row_keys [OF names 3(1,3,4,5)] names by simp
  note c1 = count_status_put_row [OF names 3(1,3)]
  note c2 = count_status_put_row [OF n w, of ?w]
  have "waitlist_depth (rd_registrations db) (er_gathering r) > 0"
    using 3(8-10) by (force simp: waitlist_depth_def filter_empty_conv)
  moreover have "?w \<in> set (rd_registrations db')" using w by (force simp: 3(13) put_row_def)
  moreover have "count_status seated (er_gathering r) (rd_registrations db')
      = count_status seated (er_gathering r) (rd_registrations db)"
    using c1 [of seated "er_gathering r"] c2 [of seated "er_gathering r"] 3 by simp
  moreover have "Suc (waitlist_depth (rd_registrations db') (er_gathering r))
      = waitlist_depth (rd_registrations db) (er_gathering r)"
    using c1 [of "\<lambda>s. s = REGISTRATION_WAITLISTED" "er_gathering r"]
      c2 [of "\<lambda>s. s = REGISTRATION_WAITLISTED" "er_gathering r"] 3 by (simp add: waitlist_depth_count)
  moreover note seat_reclaimed [OF inv 3(1,7,14)]
  ultimately show ?case using 3 by (intro bexI [of _ r]) auto
qed

lemma demo_db_inv: "registration_inv demo_db"
  by (auto simp: registration_inv_def demo_db_def demo_gathering_def gathering_ok_def waitlist_depth_def
      split: if_splits)

text \<open>Three members register for the one seat; the states after each request.\<close>

definition demo_register :: "registration_db \<Rightarrow> docname \<Rightarrow> string \<Rightarrow>
    registration_action_error + registration_reply \<times> registration_db" where
  "demo_register db m now = register_for_event (demo_env now) db db ''G'' (Some m) VIA_LEADER"

definition demo_db1 :: registration_db where
  "demo_db1 = snd (projr (demo_register demo_db ''M1'' ''1''))"
definition demo_db2 :: registration_db where
  "demo_db2 = snd (projr (demo_register demo_db1 ''M2'' ''2''))"
definition demo_db3 :: registration_db where
  "demo_db3 = snd (projr (demo_register demo_db2 ''M3'' ''3''))"

lemma is_ok_projr: "is_ok r \<Longrightarrow> r = Inr (fst (projr r), snd (projr r))"
  by (cases r) auto

lemma demo_steps:
  "\<exists>reply. demo_register demo_db ''M1'' ''1'' = Inr (reply, demo_db1)"
  "\<exists>reply. demo_register demo_db1 ''M2'' ''2'' = Inr (reply, demo_db2)"
  "\<exists>reply. demo_register demo_db2 ''M3'' ''3'' = Inr (reply, demo_db3)"
proof -
  have "is_ok (demo_register demo_db ''M1'' ''1'')" by code_simp
  then show "\<exists>reply. demo_register demo_db ''M1'' ''1'' = Inr (reply, demo_db1)"
    unfolding demo_db1_def by (metis is_ok_projr)
  have "is_ok (demo_register demo_db1 ''M2'' ''2'')" by code_simp
  then show "\<exists>reply. demo_register demo_db1 ''M2'' ''2'' = Inr (reply, demo_db2)"
    unfolding demo_db2_def by (metis is_ok_projr)
  have "is_ok (demo_register demo_db2 ''M3'' ''3'')" by code_simp
  then show "\<exists>reply. demo_register demo_db2 ''M3'' ''3'' = Inr (reply, demo_db3)"
    unfolding demo_db3_def by (metis is_ok_projr)
qed

lemma demo_reach: "reg_step\<^sup>*\<^sup>* demo_db demo_db3"
  using demo_steps unfolding demo_register_def
  by (meson reg_step.step_register rtranclp.rtrancl_into_rtrancl rtranclp.rtrancl_refl)

lemma demo_inv3: "registration_inv demo_db3"
  using reg_steps_inv [OF demo_reach demo_db_inv] .

lemma registrations_never_overbook_witness:
  "map er_status (rd_registrations demo_db3) = [''Registered'', ''Waitlisted'', ''Waitlisted'']
   \<and> distinct (map (\<lambda>r. (er_gathering r, er_registrant r)) (rd_registrations demo_db3))"
proof -
  have "map er_status (rd_registrations demo_db3) = [''Registered'', ''Waitlisted'', ''Waitlisted'']"
    by code_simp
  then show ?thesis using registrations_never_overbook [OF demo_reach demo_db_inv] by blast
qed

definition demo_cancel :: "registration_db \<Rightarrow> registration_db \<Rightarrow> docname \<Rightarrow>
    registration_action_error + (docname \<times> docname) option \<times> registration_db" where
  "demo_cancel snap db i = cancel_registration (demo_env ''4'') snap db i"

definition demo_db4 :: registration_db where
  "demo_db4 = snd (projr (demo_cancel demo_db3 demo_db3 ''R''))"

lemma demo_cancelled: "demo_cancel demo_db3 demo_db3 ''R'' = Inr (Some (''RR'', ''M2''), demo_db4)"
proof -
  have "is_ok (demo_cancel demo_db3 demo_db3 ''R'')" by code_simp
  moreover have "fst (projr (demo_cancel demo_db3 demo_db3 ''R'')) = Some (''RR'', ''M2'')" by code_simp
  ultimately show ?thesis unfolding demo_db4_def by (metis is_ok_projr)
qed

lemma cancelled_seat_goes_to_oldest_witness:
  "\<exists>r \<in> set (rd_registrations demo_db3). er_name r = ''R''"
  using cancelled_seat_goes_to_oldest [OF demo_inv3 demo_cancelled [unfolded demo_cancel_def]] by blast

text \<open>A registration that was cancelled, checked in or marked no-show keeps its row and its
  status through every sequence of requests, and registering the member again returns that
  row unchanged: a cancelled member can never register for the gathering again.\<close>
theorem cancelled_is_final:
  assumes steps: "reg_step\<^sup>*\<^sup>* db db'" and inv: "registration_inv db"
    and r: "r \<in> set (rd_registrations db)" "is_terminal_registration_status (er_status r)"
    and again: "register_for_event env db' db' (er_gathering r) member via = Inr (reply, db'')"
    and same: "register_gate env db' (er_gathering r) member via = Inr (er_registrant r)"
  shows "db'' = db' \<and> ro_already_registered reply \<and> ro_registration reply = er_name r
    \<and> ro_status reply = er_status r"
proof -
  obtain r' where r': "r' \<in> set (rd_registrations db')" "er_name r' = er_name r"
    "er_gathering r' = er_gathering r" "er_registrant r' = er_registrant r" "er_status r' = er_status r"
    using terminal_row_persists [OF steps inv r] by auto
  have "distinct (map (\<lambda>r. (er_gathering r, er_registrant r)) (rd_registrations db'))"
    using reg_steps_inv [OF steps inv] by (simp add: registration_inv_def)
  then have uniq: "x = r'" if "x \<in> set (rd_registrations db')" "er_gathering x = er_gathering r"
    "er_registrant x = er_registrant r" for x
    using that r' by (auto simp: distinct_map inj_on_def)
  have "find_registration (rd_registrations db') (er_gathering r) (er_registrant r) \<noteq> None"
    using r' by (auto simp: find_registration_def find_None_iff)
  then obtain x where x: "find_registration (rd_registrations db') (er_gathering r) (er_registrant r) = Some x"
    by auto
  then have "x = r'" using uniq by (auto simp: find_registration_def find_Some_iff)
  then show ?thesis
    using again same x r' by (auto simp: register_for_event_def existing_reply_def)
qed

lemma cancelled_is_final_witness:
  "\<exists>reply db''. register_for_event (demo_env ''5'') demo_db4 demo_db4 ''G'' (Some ''M1'') VIA_LEADER = Inr (reply, db'')
     \<and> db'' = demo_db4 \<and> ro_status reply = ''Cancelled''"
proof -
  let ?r = "hd (rd_registrations demo_db4)"
  let ?res = "register_for_event (demo_env ''5'') demo_db4 demo_db4 ''G'' (Some ''M1'') VIA_LEADER"
  have inv: "registration_inv demo_db4"
    using cancel_inv [OF demo_inv3 demo_cancelled [unfolded demo_cancel_def]] .
  have r: "?r \<in> set (rd_registrations demo_db4)"
    by (rule hd_in_set) code_simp
  have t: "is_terminal_registration_status (er_status ?r)" by code_simp
  have k: "er_gathering ?r = ''G''" "er_registrant ?r = ''M1''" "er_status ?r = ''Cancelled''" by code_simp+
  have g: "register_gate (demo_env ''5'') demo_db4 ''G'' (Some ''M1'') VIA_LEADER = Inr ''M1''" by code_simp
  have "is_ok ?res" by code_simp
  then have res: "?res = Inr (fst (projr ?res), snd (projr ?res))" by (rule is_ok_projr)
  show ?thesis
    using cancelled_is_final [OF rtranclp.rtrancl_refl inv r t, unfolded k, OF res g] res by blast
qed

text \<open>C19. What an accepted new registration proves: at that time, on the data the request read,
  the gathering was approved and within its window, the registrant was in the confirmed scope,
  and a caller who named somebody else had scope over the gathering's branch.\<close>
theorem registration_admission_sound:
  assumes reg: "register_for_event env snap db g member via = Inr (reply, db')"
    and new: "\<not> ro_already_registered reply"
  shows "\<exists>m. is_registration_window_open (registration_window snap g) (rv_now env)
    \<and> is_member_in_scope m g (rw_scope (registration_window snap g))
        (FrappeRegistrationScopeGateway snap (rv_now env)) = Inr True
    \<and> via \<in> set REGISTRATION_VIA
    \<and> (resolve_registrant_member env snap = Some m
       \<or> can_access_branch (gathering_col snap eg_branch g)
            (pg_branch_permissions (rv_perm env) (rv_user env)) (pg_user_roles (rv_perm env) (rv_user env)))
    \<and> (\<exists>d \<in> set (rd_registrations db'). er_gathering d = g \<and> er_registrant d = m
         \<and> er_name d = ro_registration reply \<and> er_status d = ro_status reply)"
  using reg
proof (cases rule: register_for_event_cases)
  case (existing r)
  then show ?thesis using new by (simp add: existing_reply_def)
next
  case (admitted doc db1)
  let ?m = "er_registrant doc"
  have gate: "or_else member (resolve_registrant_member env snap) = Some ?m \<and> ?m \<noteq> []
      \<and> is_registration_window_open (registration_window snap g) (rv_now env) \<and> via \<in> set REGISTRATION_VIA
      \<and> is_member_in_scope ?m g (rw_scope (registration_window snap g))
          (FrappeRegistrationScopeGateway snap (rv_now env)) = Inr True
      \<and> (truthy member \<longrightarrow> member = resolve_registrant_member env snap \<or>
           is_ok (assert_branch_scope (rv_perm env) (gathering_col snap eg_branch g) (rv_user env)))"
    using admitted(1)
    by (cases "or_else member (resolve_registrant_member env snap)")
       (auto simp: register_gate_def res_bind_Inr_iff Let_def lift_rule_def lift_guard_def is_ok_iff
        split: if_splits sum.splits)
  have "resolve_registrant_member env snap = Some ?m
       \<or> can_access_branch (gathering_col snap eg_branch g)
            (pg_branch_permissions (rv_perm env) (rv_user env)) (pg_user_roles (rv_perm env) (rv_user env))"
    using gate by (auto simp: or_else_def assert_branch_scope_def Let_def split: if_splits)
  moreover obtain d where "rd_registrations db1 = rd_registrations db @ [d]" "er_name d = er_name doc"
    "er_gathering d = g" "er_registrant d = ?m" "er_status d = er_status doc"
    using admitted(5,6) by (auto elim!: insert_registration_rows)
  ultimately show ?thesis using gate admitted(7,8) by (intro exI [of _ ?m]) auto
qed

lemma registration_admission_sound_witness:
  "is_registration_window_open (registration_window demo_db ''G'') ''1''"
proof -
  obtain reply where r: "demo_register demo_db ''M1'' ''1'' = Inr (reply, demo_db1)" using demo_steps by auto
  have "\<not> ro_already_registered (fst (projr (demo_register demo_db ''M1'' ''1'')))" by code_simp
  then have "\<not> ro_already_registered reply" by (simp add: r)
  from registration_admission_sound [OF r [unfolded demo_register_def] this]
  show ?thesis by (auto simp: demo_env_def)
qed

section \<open>Interleavings and replays the code does not handle\<close>

lemma find_by_name:
  assumes "distinct (map er_name rows)" "r \<in> set rows" "er_name r = n"
  shows "find (\<lambda>r. er_name r = n) rows = Some r"
proof -
  have "find (\<lambda>r. er_name r = n) rows \<noteq> None" using assms(2,3) by (auto simp: find_None_iff)
  then obtain x where x: "find (\<lambda>r. er_name r = n) rows = Some x" by auto
  then have "x \<in> set rows" "er_name x = n" by (auto simp: find_Some_iff)
  then have "x = r" using assms by (auto simp: distinct_map inj_on_def)
  with x show ?thesis by simp
qed

lemma cancel_waiting_stale:
  assumes w: "get_registration snap n = Inr w" "er_status w = REGISTRATION_WAITLISTED"
    and c: "cancel_registration env snap db n = Inr (p, db')"
  obtains doc where "p = None" "rd_registrations db' = put_row doc (rd_registrations db)"
    "rd_gatherings db' = rd_gatherings db" "er_name doc = n" "er_gathering doc = er_gathering w"
    "er_status doc = REGISTRATION_CANCELLED"
proof -
  from c w obtain db1 where db1: "save_registration snap db (w \<lparr>er_status := REGISTRATION_CANCELLED\<rparr>) = Inr db1"
    by (auto simp: cancel_registration_def res_bind_Inr_iff lift_rule_def split: if_splits)
  then have res: "p = None \<and> rd_registrations db' = rd_registrations db1 \<and> rd_gatherings db' = rd_gatherings db1"
    using c w by (auto simp: cancel_registration_def res_bind_Inr_iff Let_def release_and_promote_def
        split: if_splits)
  from db1 obtain doc where "rd_registrations db1 = put_row doc (rd_registrations db)"
    "rd_gatherings db1 = rd_gatherings db" "er_name doc = er_name w" "er_gathering doc = er_gathering w"
    "er_status doc = REGISTRATION_CANCELLED" by (rule save_registration_rows) auto
  moreover have "er_name w = n" using get_registration_in [OF w(1)] by simp
  ultimately show thesis using that res by simp
qed

text \<open>A lost update: when a cancellation promotes the oldest waiting row while that member's
  own cancellation is already running on the older snapshot, both succeed, because the
  promotion does not advance the row's stamp; the second one frees no seat, and the seat
  counter stays one above the number of seated rows.\<close>
theorem stale_cancel_leaks_seat:
  assumes inv: "registration_inv db"
    and first: "cancel_registration env db db i = Inr (Some (n, m), db1)"
    and second: "cancel_registration env' db db1 n = Inr (p, db2)"
  shows "p = None \<and> (\<exists>w \<in> set (rd_registrations db). er_name w = n \<and>
    (\<forall>e. gathering_of db2 (er_gathering w) = Some e \<longrightarrow>
      eg_registered_count e = int (count_status seated (er_gathering w) (rd_registrations db2)) + 1))"
proof -
  have inv1: "registration_inv db1" by (rule cancel_inv [OF inv first])
  then have n1: "distinct (map er_name (rd_registrations db1))"
    and ok1: "\<And>g e. gathering_of db1 g = Some e \<Longrightarrow> gathering_ok (rd_registrations db1) g e"
    by (auto simp: registration_inv_def)
  have n0: "distinct (map er_name (rd_registrations db))" using inv by (simp add: registration_inv_def)
  from inv first show ?thesis
  proof (cases rule: cancel_effect)
    case (handed r doc w)
    let ?w = "w \<lparr>er_status := REGISTRATION_REGISTERED\<rparr>"
    have wn: "er_name w = n" using handed(11) by simp
    have "w \<in> set (put_row doc (rd_registrations db))"
      using put_row_other [OF n0 handed(1,3,8)] handed(7,10) by simp
    then have in1: "?w \<in> set (rd_registrations db1)" by (force simp: handed(13) put_row_def)
    have "get_registration db n = Inr w"
      using find_by_name [OF n0 handed(8) wn] by (simp add: get_registration_def)
    from this handed(10) second obtain doc2 where d2: "p = None"
      "rd_registrations db2 = put_row doc2 (rd_registrations db1)"
      "rd_gatherings db2 = rd_gatherings db1" "er_name doc2 = n" "er_gathering doc2 = er_gathering w"
      "er_status doc2 = REGISTRATION_CANCELLED" by (rule cancel_waiting_stale)
    have nm: "er_name doc2 = er_name ?w" using wn d2(4) by simp
    have "eg_registered_count e = int (count_status seated (er_gathering w) (rd_registrations db2)) + 1"
      if "gathering_of db2 (er_gathering w) = Some e" for e
      using count_status_put_row [OF n1 in1 nm, of seated "er_gathering w"] ok1 [of "er_gathering w" e] that d2
      by (simp add: gathering_ok_def)
    with d2(1) wn handed(8) show ?thesis by blast
  qed simp_all
qed

lemma seat_waitlisted_row_miss:
  assumes "\<forall>x \<in> set (rd_registrations db). er_name x = n \<longrightarrow> er_status x \<noteq> REGISTRATION_WAITLISTED"
  shows "seat_waitlisted_row n db = (db, 0)"
proof -
  have "map (\<lambda>r. if er_name r = n \<and> er_status r = REGISTRATION_WAITLISTED
        then r \<lparr>er_status := REGISTRATION_REGISTERED\<rparr> else r) (rd_registrations db) = rd_registrations db"
    using assms by (intro map_idI) auto
  moreover have "filter (\<lambda>r. er_name r = n \<and> er_status r = REGISTRATION_WAITLISTED) (rd_registrations db) = []"
    using assms by (auto simp: filter_empty_conv)
  ultimately show ?thesis by (simp add: seat_waitlisted_row_def Let_def)
qed

text \<open>The oldest waiting row is unique, since names are.\<close>

lemma oldest_waitlisted_eq:
  assumes w: "w \<in> set (rd_registrations db)" "er_gathering w = g" "er_status w = REGISTRATION_WAITLISTED"
    and least: "\<forall>v \<in> set (rd_registrations db). er_gathering v = g \<and> er_status v = REGISTRATION_WAITLISTED \<longrightarrow>
         (er_registered_at w, er_name w) \<le> (er_registered_at v, er_name v)"
  shows "\<exists>c. select_waitlist_promotion_candidate (oldest_waitlisted db g) = Some c \<and> wc_name c = er_name w"
proof (rule oldest_waitlisted_cases [of db g])
  assume "waitlist_depth (rd_registrations db) g = 0"
  then show ?thesis using w by (auto simp: waitlist_depth_def filter_empty_conv)
next
  fix v
  assume v: "select_waitlist_promotion_candidate (oldest_waitlisted db g) =
        Some \<lparr>wc_name = er_name v, wc_gathering = g, wc_registrant = er_registrant v,
              wc_registered_at = er_registered_at v\<rparr>"
      "v \<in> set (rd_registrations db)" "er_gathering v = g" "er_status v = REGISTRATION_WAITLISTED"
      "\<forall>x \<in> set (rd_registrations db). er_gathering x = g \<and> er_status x = REGISTRATION_WAITLISTED \<longrightarrow>
         (er_registered_at v, er_name v) \<le> (er_registered_at x, er_name x)"
  have "(er_registered_at w, er_name w) \<le> (er_registered_at v, er_name v)" using least v by blast
  moreover have "(er_registered_at v, er_name v) \<le> (er_registered_at w, er_name w)" using v w by blast
  ultimately have "er_name w = er_name v" by (metis order_antisym snd_conv)
  then show ?thesis using v(1) by simp
qed

lemma stale_cancel_leaks_seat_witness:
  "\<exists>db2. demo_cancel demo_db3 demo_db4 ''RR'' = Inr (None, db2)
     \<and> (\<exists>w \<in> set (rd_registrations demo_db3). er_name w = ''RR'' \<and>
         (\<forall>e. gathering_of db2 (er_gathering w) = Some e \<longrightarrow>
           eg_registered_count e = int (count_status seated (er_gathering w) (rd_registrations db2)) + 1))"
proof -
  let ?res = "demo_cancel demo_db3 demo_db4 ''RR''"
  have "is_ok ?res" by code_simp
  then have res: "?res = Inr (fst (projr ?res), snd (projr ?res))" by (rule is_ok_projr)
  show ?thesis
    using stale_cancel_leaks_seat [OF demo_inv3 demo_cancelled [unfolded demo_cancel_def] res [unfolded demo_cancel_def]]
      res unfolding demo_cancel_def by metis
qed

text \<open>Two concurrent cancellations promote one row: the second, whose snapshot still shows
  the waiting row the first one seated, promotes nobody and frees its seat, so that with two
  members waiting one of them waits beside a free seat.\<close>
theorem concurrent_cancels_promote_once:
  assumes inv: "registration_inv db"
    and first: "cancel_registration env db db i = Inr (Some (n, m), db1)"
    and j: "r \<in> set (rd_registrations db)" "er_name r = j" "er_status r = REGISTRATION_REGISTERED" "j \<noteq> i"
    and g: "\<exists>x \<in> set (rd_registrations db). er_name x = i \<and> er_gathering x = er_gathering r"
    and second: "cancel_registration env' db db1 j = Inr (p, db2)"
  shows "p = None \<and> waitlist_depth (rd_registrations db2) (er_gathering r)
      = waitlist_depth (rd_registrations db1) (er_gathering r)
    \<and> Suc (count_status seated (er_gathering r) (rd_registrations db2))
      = count_status seated (er_gathering r) (rd_registrations db1)"
proof -
  have n0: "distinct (map er_name (rd_registrations db))" using inv by (simp add: registration_inv_def)
  have n1: "distinct (map er_name (rd_registrations db1))"
    using cancel_inv [OF inv first] by (simp add: registration_inv_def)
  from inv first show ?thesis
  proof (cases rule: cancel_effect)
    case (handed x doc w)
    let ?w = "w \<lparr>er_status := REGISTRATION_REGISTERED\<rparr>"
    have xi: "x \<noteq> r" using j handed(2) by auto
    obtain y where y: "y \<in> set (rd_registrations db)" "er_name y = i" "er_gathering y = er_gathering r"
      using g by auto
    then have "y = x" using n0 handed(1,2) by (auto simp: distinct_map inj_on_def)
    then have gx: "er_gathering x = er_gathering r" using y by simp
    have rw: "r \<noteq> w" using j(3) handed(10) by auto
    have rd: "r \<in> set (put_row doc (rd_registrations db))"
      using j(1) xi n0 handed(1,3) by (force simp: put_row_def distinct_map inj_on_def)
    then have r1: "r \<in> set (rd_registrations db1)"
      unfolding handed(13) using j(1) rw n0 handed(8) by (force simp: put_row_def distinct_map inj_on_def)
    have get: "get_registration db j = Inr r"
      using find_by_name [OF n0 j(1,2)] by (simp add: get_registration_def)
    from second get j(3) obtain db1' where s: "save_registration db db1 (r \<lparr>er_status := REGISTRATION_CANCELLED\<rparr>) = Inr db1'"
      by (auto simp: cancel_registration_def res_bind_Inr_iff lift_rule_def split: if_splits)
    from s obtain doc2 where d2: "rd_registrations db1' = put_row doc2 (rd_registrations db1)"
      "er_name doc2 = er_name r" "er_gathering doc2 = er_gathering r" "er_status doc2 = REGISTRATION_CANCELLED"
      by (rule save_registration_rows) auto
    obtain c where sel: "select_waitlist_promotion_candidate (oldest_waitlisted db (er_gathering r)) = Some c"
      "wc_name c = er_name w"
      using oldest_waitlisted_eq [OF handed(8,9,10,12)] gx by auto
    let ?db2 = "bump_registered_count (er_gathering r) (- 1) db1'"
    have "er_status x \<noteq> REGISTRATION_WAITLISTED"
      if x: "x \<in> set (rd_registrations ?db2)" "er_name x = er_name w" for x
    proof -
      have nm: "er_name w \<noteq> er_name r"
        using rw n0 handed(8) j(1) by (auto simp: distinct_map inj_on_def)
      have "x \<in> set (put_row doc2 (rd_registrations db1))"
        using x(1) by (simp add: bump_registered_count_def d2(1))
      then have "x \<in> set (rd_registrations db1)" using x(2) d2(2) nm by (auto simp: put_row_def split: if_splits)
      then show ?thesis using x(2) unfolding handed(13) by (auto simp: put_row_def split: if_splits)
    qed
    then have miss: "release_and_promote db db1' (er_gathering r) True = (None, ?db2)"
      by (simp add: release_and_promote_def promote_oldest_waitlisted_def sel seat_waitlisted_row_miss)
    then have "p = None \<and> rd_registrations db2 = put_row doc2 (rd_registrations db1)"
      using second get j(3) s d2(1)
      by (auto simp: cancel_registration_def res_bind_Inr_iff Let_def bump_registered_count_def split: if_splits)
    then show ?thesis
      using count_status_put_row [OF n1 r1 d2(2), of seated "er_gathering r"]
        count_status_put_row [OF n1 r1 d2(2), of "\<lambda>s. s = REGISTRATION_WAITLISTED" "er_gathering r"] j(3) d2
      by (simp add: waitlist_depth_count)
  qed simp_all
qed

text \<open>The same gathering with two seats, both taken, and one member waiting.\<close>

definition demo_two :: registration_db where
  "demo_two = demo_db \<lparr>rd_gatherings := [(''G'', demo_gathering \<lparr>eg_registration_capacity := Some 2\<rparr>)]\<rparr>"
definition demo_two1 :: registration_db where
  "demo_two1 = snd (projr (demo_register demo_two ''M1'' ''1''))"
definition demo_two2 :: registration_db where
  "demo_two2 = snd (projr (demo_register demo_two1 ''M2'' ''2''))"
definition demo_two3 :: registration_db where
  "demo_two3 = snd (projr (demo_register demo_two2 ''M3'' ''3''))"
definition demo_two4 :: registration_db where
  "demo_two4 = snd (projr (demo_cancel demo_two3 demo_two3 ''R''))"

lemma demo_register_step: "is_ok (demo_register db m now) \<Longrightarrow> reg_step db (snd (projr (demo_register db m now)))"
  using is_ok_projr [of "demo_register db m now"] unfolding demo_register_def
  by (rule reg_step.step_register)

lemma demo_two_inv: "registration_inv demo_two3"
proof -
  have "registration_inv demo_two"
    by (auto simp: registration_inv_def demo_two_def demo_db_def demo_gathering_def gathering_ok_def
        waitlist_depth_def split: if_splits)
  moreover have "is_ok (demo_register demo_two ''M1'' ''1'')" by code_simp
  moreover have "is_ok (demo_register demo_two1 ''M2'' ''2'')" by code_simp
  moreover have "is_ok (demo_register demo_two2 ''M3'' ''3'')" by code_simp
  ultimately show ?thesis
    unfolding demo_two3_def using demo_register_step reg_step_inv
    by (metis demo_two1_def demo_two2_def)
qed

lemma concurrent_cancels_promote_once_witness:
  "\<exists>p db2. demo_cancel demo_two3 demo_two4 ''RR'' = Inr (p, db2) \<and> p = None"
proof -
  let ?first = "demo_cancel demo_two3 demo_two3 ''R''" and ?second = "demo_cancel demo_two3 demo_two4 ''RR''"
  let ?r = "rd_registrations demo_two3 ! 1"
  have "is_ok ?first" by code_simp
  then have "?first = Inr (fst (projr ?first), demo_two4)" unfolding demo_two4_def by (rule is_ok_projr)
  moreover have "fst (projr ?first) = Some (''RRRR'', ''M3'')" by code_simp
  ultimately have first: "?first = Inr (Some (''RRRR'', ''M3''), demo_two4)" by simp
  have "is_ok ?second" by code_simp
  then have second: "?second = Inr (fst (projr ?second), snd (projr ?second))" by (rule is_ok_projr)
  have "length (rd_registrations demo_two3) = 3" by code_simp
  then have r: "?r \<in> set (rd_registrations demo_two3)" by simp
  have k: "er_name ?r = ''RR''" "er_status ?r = REGISTRATION_REGISTERED" "''RR'' \<noteq> ''R''" by code_simp+
  have "\<exists>x \<in> set (rd_registrations demo_two3). er_name x = ''R'' \<and> er_gathering x = er_gathering ?r"
    by code_simp
  from concurrent_cancels_promote_once [OF demo_two_inv first [unfolded demo_cancel_def] r k this
      second [unfolded demo_cancel_def]] second show ?thesis unfolding demo_cancel_def by blast
qed

text \<open>Checking in is not idempotent: the guard accepts Checked-in to Checked-in as a no-op, so
  a second check-in of the same registration succeeds and adds one more to the check-in
  counter, while no further row becomes checked in.\<close>
theorem double_check_in_counts_twice:
  assumes inv: "registration_inv db"
    and first: "check_in_registration env db db i ref = Inr db1"
    and second: "check_in_registration env' db1 db1 i ref' = Inr db2"
  shows "\<exists>r \<in> set (rd_registrations db1). er_name r = i \<and> er_status r = REGISTRATION_CHECKED_IN
    \<and> count_status (\<lambda>s. s = REGISTRATION_CHECKED_IN) (er_gathering r) (rd_registrations db2)
        = count_status (\<lambda>s. s = REGISTRATION_CHECKED_IN) (er_gathering r) (rd_registrations db1)
    \<and> (\<forall>e. gathering_of db (er_gathering r) = Some e \<longrightarrow>
         (\<exists>e'. gathering_of db2 (er_gathering r) = Some e'
           \<and> eg_checked_in_count e' = eg_checked_in_count e + 2))"
proof (rule check_in_effect [OF inv first])
  fix r doc
  assume r: "r \<in> set (rd_registrations db)" "er_name r = i" "er_name doc = er_name r"
    "er_gathering doc = er_gathering r" "er_status doc = REGISTRATION_CHECKED_IN"
    "rd_registrations db1 = put_row doc (rd_registrations db)"
    "rd_gatherings db1 = AList.map_entry (er_gathering r) (bump_row Checked_In_Count 1) (rd_gatherings db)"
  have inv1: "registration_inv db1" by (rule check_in_inv [OF inv first])
  then have n1: "distinct (map er_name (rd_registrations db1))" by (simp add: registration_inv_def)
  have in1: "doc \<in> set (rd_registrations db1)" using r(1,3) by (force simp: r(6) put_row_def)
  from inv1 second show ?thesis
  proof (rule check_in_effect)
    fix x doc2
    assume x: "x \<in> set (rd_registrations db1)" "er_name x = i" "er_name doc2 = er_name x"
      "er_gathering doc2 = er_gathering x" "er_status doc2 = REGISTRATION_CHECKED_IN"
      "rd_registrations db2 = put_row doc2 (rd_registrations db1)"
      "rd_gatherings db2 = AList.map_entry (er_gathering x) (bump_row Checked_In_Count 1) (rd_gatherings db1)"
    have "x = doc" using n1 x(1,2) in1 r(2,3) by (auto simp: distinct_map inj_on_def)
    then show ?thesis
      using x r in1 count_status_put_row [OF n1 x(1,3), of "\<lambda>s. s = REGISTRATION_CHECKED_IN" "er_gathering doc"]
      by (intro bexI [of _ doc]) (auto simp: map_of_map_entry split: option.splits)
  qed
qed

lemma double_check_in_counts_twice_witness:
  "\<exists>db1 db2. check_in_registration (demo_env ''4'') demo_db1 demo_db1 ''R'' None = Inr db1
     \<and> check_in_registration (demo_env ''5'') db1 db1 ''R'' None = Inr db2
     \<and> (\<exists>r \<in> set (rd_registrations db1). er_name r = ''R'' \<and> er_status r = REGISTRATION_CHECKED_IN)"
proof -
  let ?one = "check_in_registration (demo_env ''4'') demo_db1 demo_db1 ''R'' None"
  let ?two = "check_in_registration (demo_env ''5'') (projr ?one) (projr ?one) ''R'' None"
  have inv: "registration_inv demo_db1"
    using demo_register_step reg_step_inv demo_db_inv is_ok_simps(2) demo_steps(1) demo_db1_def by metis
  have "is_ok ?one" by code_simp
  then have one: "?one = Inr (projr ?one)" by (cases ?one) auto
  have "is_ok ?two" by code_simp
  then have two: "?two = Inr (projr ?two)" by (cases ?two) auto
  from double_check_in_counts_twice [OF inv one two] one two show ?thesis by blast
qed

definition has_row :: "registration_row list \<Rightarrow> docname \<Rightarrow> docname \<Rightarrow> bool" where
  "has_row rows g m \<longleftrightarrow> find_registration rows g m \<noteq> None"

lemma has_row_append [simp]: "has_row (xs @ ys) g m \<longleftrightarrow> has_row xs g m \<or> has_row ys g m"
  by (auto simp: has_row_def find_registration_def find_None_iff)

lemma has_row_single [simp]: "has_row [d] g m \<longleftrightarrow> er_gathering d = g \<and> er_registrant d = m"
  by (simp add: has_row_def find_registration_def)

lemma insert_duplicate:
  assumes "has_row (rd_registrations db) (er_gathering d) (er_registrant d)"
  shows "\<exists>e. insert_registration snap db d = Inl e"
proof (cases "insert_registration snap db d")
  case (Inr db1)
  then show ?thesis using assms
    by (auto elim!: insert_registration_rows simp: has_row_def find_registration_def find_None_iff)
qed simp

lemma insert_fresh:
  assumes "\<not> has_row (rd_registrations db) (er_gathering d) (er_registrant d)"
    "er_name d \<notin> er_name ` set (rd_registrations db)"
  shows "insert_registration snap db d \<noteq> Inl Registration_Duplicate"
proof
  assume dup: "insert_registration snap db d = Inl Registration_Duplicate"
  have "validate_registration snap d \<noteq> Inl Registration_Duplicate"
    by (auto simp: validate_registration_def validate_registration_binding_def
        validate_gathering_is_one_time_def Let_def res_bind_def split: sum.splits if_splits)
  with dup obtain doc where v: "validate_registration snap d = Inr doc"
    "\<exists>r \<in> set (rd_registrations db). er_name r = er_name doc \<or>
            (er_gathering r = er_gathering doc \<and> er_registrant r = er_registrant doc)"
    by (auto simp: insert_registration_def res_bind_Inl_iff split: if_splits)
  then show False using assms validate_registration_keeps [OF v(1)]
    by (auto simp: has_row_def find_registration_def find_None_iff image_iff)
qed

lemma bulk_loop_discards:
  assumes names: "\<And>rows. rv_next_name env rows \<notin> er_name ` set rows"
  shows "\<forall>m \<in> set ms. m \<noteq> [] \<and> \<not> has_row view g m \<and> \<not> has_row (rd_registrations db) g m \<Longrightarrow>
    distinct (ms @ [b]) \<Longrightarrow> b \<noteq> [] \<Longrightarrow> \<not> has_row view g b \<Longrightarrow> has_row (rd_registrations db) g b \<Longrightarrow>
    bulk_loop env anchors snap base g via view db counts (ms @ [b]) = Inr (counts', db') \<Longrightarrow>
    rd_registrations db' = rd_registrations base \<and> rd_gatherings db' = rd_gatherings base
      \<and> bc_created counts' + bc_waitlisted counts' = bc_created counts + bc_waitlisted counts + length ms"
proof (induction ms arbitrary: view db counts)
  case Nil
  then obtain status where st: "authoritative_registration_status db g = Inr status"
    by (auto simp: has_row_def res_bind_Inr_iff)
  obtain e where "insert_registration snap db (new_registration env anchors snap db g b status via) = Inl e"
    using insert_duplicate [of db "new_registration env anchors snap db g b status via"] Nil(5) by auto
  then show ?case using Nil st
    by (auto simp: has_row_def Let_def split: registration_action_error.splits)
next
  case (Cons m ms)
  then obtain status where st: "authoritative_registration_status db g = Inr status"
    by (auto simp: has_row_def res_bind_Inr_iff)
  let ?doc = "new_registration env anchors snap db g m status via"
  have "insert_registration snap db ?doc \<noteq> Inl Registration_Duplicate"
    by (rule insert_fresh) (use Cons.prems(1) names in auto)
  then obtain db1 where ins: "insert_registration snap db ?doc = Inr db1"
    using Cons.prems st
    by (cases "insert_registration snap db ?doc")
      (auto simp: has_row_def Let_def split: registration_action_error.splits)
  then obtain d where d: "rd_registrations db1 = rd_registrations db @ [d]" "er_gathering d = g" "er_registrant d = m"
    by (auto elim!: insert_registration_rows)
  let ?db = "announce_registration snap ?doc db1"
  let ?counts = "if status = REGISTRATION_REGISTERED then counts \<lparr>bc_created := Suc (bc_created counts)\<rparr>
     else counts \<lparr>bc_waitlisted := Suc (bc_waitlisted counts)\<rparr>"
  have "bulk_loop env anchors snap base g via (view @ [?doc]) ?db ?counts (ms @ [b]) = Inr (counts', db')"
    using Cons.prems st ins by (simp add: has_row_def Let_def)
  moreover have "\<forall>x \<in> set ms. x \<noteq> [] \<and> \<not> has_row (view @ [?doc]) g x \<and> \<not> has_row (rd_registrations ?db) g x"
    using Cons.prems(1,2) d by auto
  ultimately have "rd_registrations db' = rd_registrations base \<and> rd_gatherings db' = rd_gatherings base
      \<and> bc_created counts' + bc_waitlisted counts' = bc_created ?counts + bc_waitlisted ?counts + length ms"
    using Cons.prems(2-5) d by (intro Cons.IH [of "view @ [?doc]" ?db ?counts]) auto
  then show ?case by (auto split: if_splits)
qed

text \<open>A bulk job whose last member turns out to be registered already, by a request its
  snapshot did not show, rolls back the transaction in which it inserted all the others: it
  reports every one of them as created or waitlisted, and none of them has a row.\<close>
theorem bulk_duplicate_discards_batch:
  assumes names: "\<forall>rows. rv_next_name env rows \<notin> er_name ` set rows"
    and ms: "\<forall>m \<in> set ms. m \<noteq> [] \<and> \<not> has_row (rd_registrations snap) g m \<and> \<not> has_row (rd_registrations db) g m"
    and b: "distinct (ms @ [b])" "b \<noteq> []" "\<not> has_row (rd_registrations snap) g b" "has_row (rd_registrations db) g b"
    and job: "bj_gathering job = g" "bj_members job = ms @ [b]"
    and res: "process_bulk_batch env snap db job = Inr (counts, db')"
  shows "bc_created counts + bc_waitlisted counts = length ms
    \<and> rd_registrations db' = rd_registrations db \<and> rd_gatherings db' = rd_gatherings db"
proof -
  obtain db1 where l: "bulk_loop env (frappe_gathering_scope snap g) snap db g (bj_via job) (rd_registrations snap) db
        \<lparr>bc_created = 0, bc_waitlisted = 0, bc_skipped = 0\<rparr> (ms @ [b]) = Inr (counts, db1)"
    "rd_registrations db' = rd_registrations db1" "rd_gatherings db' = rd_gatherings db1"
    using res job by (fastforce simp: process_bulk_batch_def res_bind_Inr_iff Let_def split: if_splits)
  show ?thesis using bulk_loop_discards [OF _ ms b l(1)] names l(2,3) by simp
qed

definition demo_job :: bulk_job where
  "demo_job = \<lparr>bj_gathering = ''G'', bj_members = [''M2'', ''M1''], bj_via = VIA_BULK, bj_job_id = ''J'',
     bj_index = 0, bj_total = 1\<rparr>"

lemma demo_names_fresh: "rv_next_name (demo_env now) rows \<notin> er_name ` set rows"
proof
  assume "rv_next_name (demo_env now) rows \<in> er_name ` set rows"
  then obtain r where "r \<in> set rows" "er_name r = concat (map er_name rows) @ ''R''"
    by (auto simp: demo_env_def)
  moreover have "x \<in> set xs \<Longrightarrow> length (er_name x) \<le> length (concat (map er_name xs))" for x and xs :: "registration_row list"
    by (induction xs) auto
  ultimately show False by fastforce
qed

lemma bulk_duplicate_discards_batch_witness:
  "\<exists>counts db'. process_bulk_batch (demo_env ''2'') demo_db demo_db1 demo_job = Inr (counts, db')
     \<and> bc_created counts + bc_waitlisted counts = 1 \<and> rd_registrations db' = rd_registrations demo_db1"
proof -
  let ?res = "process_bulk_batch (demo_env ''2'') demo_db demo_db1 demo_job"
  have "is_ok ?res" by code_simp
  then have res: "?res = Inr (fst (projr ?res), snd (projr ?res))" by (rule is_ok_projr)
  have ms: "\<forall>m \<in> set [''M2'']. m \<noteq> [] \<and> \<not> has_row (rd_registrations demo_db) ''G'' m
      \<and> \<not> has_row (rd_registrations demo_db1) ''G'' m" by code_simp
  have b: "distinct ([''M2''] @ [''M1''])" "''M1'' \<noteq> []"
    "\<not> has_row (rd_registrations demo_db) ''G'' ''M1''" "has_row (rd_registrations demo_db1) ''G'' ''M1''"
    by code_simp+
  have job: "bj_gathering demo_job = ''G''" "bj_members demo_job = [''M2''] @ [''M1'']"
    by (simp_all add: demo_job_def)
  show ?thesis
    using bulk_duplicate_discards_batch [OF _ ms b job res] demo_names_fresh res by fastforce
qed

end
