(* ===== verification/Py_Values.thy ===== *)
theory Py_Values
  imports Complex_Main Flock_Prelude
begin

text \<open>
  Values without a declared type, as request payloads, JSON columns and event payloads carry
  them, and the operations the program uses on them: truth value, \<open>dict.get\<close>, item assignment
  and \<open>str\<close>.  A number is a rational: an \<open>int\<close> or a \<open>float\<close> is the exact value it has, rounding of
  float sums is not modelled, and neither are infinities and not-a-number.
\<close>

datatype pyval =
    Py_None
  | Py_Bool bool
  | Py_Num rat
  | Py_Str string
  | Py_List "pyval list"
  | Py_Dict "(string \<times> pyval) list"

type_synonym pydict = "(string \<times> pyval) list"

fun py_true :: "pyval \<Rightarrow> bool" where
  "py_true Py_None = False"
| "py_true (Py_Bool b) = b"
| "py_true (Py_Num n) = (n \<noteq> 0)"
| "py_true (Py_Str s) = (s \<noteq> [])"
| "py_true (Py_List xs) = (xs \<noteq> [])"
| "py_true (Py_Dict d) = (d \<noteq> [])"

text \<open>\<open>d.get(k)\<close> and \<open>d.get(k, dflt)\<close>.\<close>

definition py_get_or :: "pyval \<Rightarrow> pydict \<Rightarrow> string \<Rightarrow> pyval" where
  "py_get_or dflt d k = (case map_of d k of None \<Rightarrow> dflt | Some v \<Rightarrow> v)"

abbreviation py_get :: "pydict \<Rightarrow> string \<Rightarrow> pyval" where
  "py_get \<equiv> py_get_or Py_None"

text \<open>\<open>a or b\<close>.\<close>

definition py_or :: "pyval \<Rightarrow> pyval \<Rightarrow> pyval" where
  "py_or a b = (if py_true a then a else b)"

text \<open>A \<open>str | None\<close> as a value, and back.\<close>

definition py_of_opt :: "string option \<Rightarrow> pyval" where
  "py_of_opt x = (case x of None \<Rightarrow> Py_None | Some s \<Rightarrow> Py_Str s)"

definition py_str_opt :: "pyval \<Rightarrow> string option" where
  "py_str_opt v = (case v of Py_Str s \<Rightarrow> Some s | _ \<Rightarrow> None)"

lemma py_of_opt_simps [simp]:
  "py_of_opt None = Py_None" "py_of_opt (Some s) = Py_Str s" "py_str_opt (py_of_opt x) = x"
  by (auto simp: py_of_opt_def py_str_opt_def split: option.split)

lemma py_true_of_opt [simp]: "py_true (py_of_opt x) = truthy x"
  by (cases x) auto

section \<open>Dictionaries of any value\<close>

text \<open>\<open>d.get(k, dflt)\<close> and \<open>d.setdefault(k, []).append(x)\<close> on a dict in insertion order.\<close>

definition dict_or :: "'v \<Rightarrow> ('k \<times> 'v) list \<Rightarrow> 'k \<Rightarrow> 'v" where
  "dict_or dflt d k = (case map_of d k of None \<Rightarrow> dflt | Some v \<Rightarrow> v)"

definition dict_push :: "'k \<Rightarrow> 'v \<Rightarrow> ('k \<times> 'v list) list \<Rightarrow> ('k \<times> 'v list) list" where
  "dict_push k x d = AList.update k (dict_or [] d k @ [x]) d"

lemma dict_or_update [simp]:
  "dict_or dflt (AList.update k v d) k' = (if k' = k then v else dict_or dflt d k')"
  by (simp add: dict_or_def update_conv')

lemma dict_or_push [simp]:
  "dict_or [] (dict_push k x d) k' = (if k' = k then dict_or [] d k @ [x] else dict_or [] d k')"
  by (simp add: dict_push_def)

lemma dict_or_Nil [simp]: "dict_or dflt [] k = dflt"
  by (simp add: dict_or_def)

section \<open>Decimal text\<close>

text \<open>The decimal digits of a number from 0 on, and \<open>f"{x:.6f}"\<close>: the value rounded half to
  even to six decimals.\<close>

function digits :: "int \<Rightarrow> string" where
  "digits n = (if n < 10 then [char_of (48 + n)] else digits (n div 10) @ [char_of (48 + n mod 10)])"
  by pat_completeness auto
termination by (relation "measure nat") auto

declare digits.simps [simp del]

fun digits_value :: "int \<Rightarrow> string \<Rightarrow> int" where
  "digits_value acc [] = acc"
| "digits_value acc (c # cs) = digits_value (10 * acc + (of_char c - 48)) cs"

lemma digits_value_append: "digits_value a (xs @ ys) = digits_value (digits_value a xs) ys"
  by (induction a xs rule: digits_value.induct) auto

lemma digit_code: "0 \<le> d \<Longrightarrow> d < 10 \<Longrightarrow> of_char (char_of (48 + d) :: char) = (48 + d :: int)"
  by (simp add: of_char_of)

lemma digits_value_digits: "0 \<le> n \<Longrightarrow> digits_value 0 (digits n) = n"
proof (induction n rule: digits.induct)
  case (1 n)
  show ?case
  proof (cases "n < 10")
    case True
    then show ?thesis using 1 by (subst digits.simps) (simp add: digit_code)
  next
    case False
    with 1 have "digits_value 0 (digits (n div 10)) = n div 10" by simp
    then show ?thesis
      using False by (subst digits.simps) (simp add: digits_value_append digit_code)
  qed
qed

lemma digits_inject: "0 \<le> m \<Longrightarrow> 0 \<le> n \<Longrightarrow> digits m = digits n \<longleftrightarrow> m = n"
  using digits_value_digits by metis

lemma digits_chars: "0 \<le> n \<Longrightarrow> c \<in> set (digits n) \<Longrightarrow> 48 \<le> (of_char c :: int) \<and> (of_char c :: int) \<le> 57"
proof (induction n rule: digits.induct)
  case (1 n)
  show ?case
  proof (cases "n < 10")
    case True
    with 1 show ?thesis by (subst (asm) (2) digits.simps) (auto simp: digit_code)
  next
    case False
    then have "c \<in> set (digits (n div 10)) \<or> c = char_of (48 + n mod 10)"
      using 1(3) by (subst (asm) digits.simps) auto
    moreover have "of_char (char_of (48 + n mod 10) :: char) = (48 + n mod 10 :: int)"
      by (rule digit_code) simp_all
    moreover have "n mod 10 \<le> 9" "0 \<le> n mod 10" by simp_all
    ultimately show ?thesis using 1(1,2) False by auto
  qed
qed

definition half_even :: "rat \<Rightarrow> int" where
  "half_even x = (let f = \<lfloor>x\<rfloor>; d = x - of_int f in
     if d < 1/2 then f else if 1/2 < d then f + 1 else if even f then f else f + 1)"

definition pad6 :: "int \<Rightarrow> string" where
  "pad6 n = (let s = digits n in replicate (6 - length s) CHR ''0'' @ s)"

definition fixed6 :: "rat \<Rightarrow> string" where
  "fixed6 x = (let m = half_even (x * 1000000); a = \<bar>m\<bar> in
     (if x < 0 then ''-'' else []) @ digits (a div 1000000) @ ''.'' @ pad6 (a mod 1000000))"

lemma half_even_close: "\<bar>of_int (half_even x) - x\<bar> \<le> 1/2"
  unfolding half_even_def Let_def by (auto simp: abs_if split: if_splits) linarith+

text \<open>\<open>str(n)\<close> of an integer, and \<open>f"{x:.kf}"\<close>.\<close>

definition int_text :: "int \<Rightarrow> string" where
  "int_text n = (if n < 0 then ''-'' @ digits (- n) else digits n)"

definition pad_zeros :: "nat \<Rightarrow> int \<Rightarrow> string" where
  "pad_zeros k n = (let s = digits n in replicate (k - length s) CHR ''0'' @ s)"

definition fixed_text :: "nat \<Rightarrow> rat \<Rightarrow> string" where
  "fixed_text k x = (let m = half_even (x * 10 ^ k); a = \<bar>m\<bar> in
     (if x < 0 then ''-'' else []) @ digits (a div 10 ^ k) @ (if k = 0 then [] else ''.'' @ pad_zeros k (a mod 10 ^ k)))"

section \<open>Text and integer of a value\<close>

text \<open>\<open>str(v)\<close>: of a text itself; of another value the parameter gives it.\<close>

definition py_text :: "(pyval \<Rightarrow> string) \<Rightarrow> pyval \<Rightarrow> string" where
  "py_text text v = (case v of Py_Str s \<Rightarrow> s | _ \<Rightarrow> text v)"

text \<open>\<open>int(v)\<close>: of a number truncated, of a text with an optional sign and digits; of
  anything else it raises (blanks around and underscores inside a text are not modelled).\<close>

definition all_digits :: "string \<Rightarrow> bool" where
  "all_digits s \<longleftrightarrow> s \<noteq> [] \<and> (\<forall>c \<in> set s. 48 \<le> (of_char c :: int) \<and> (of_char c :: int) \<le> 57)"

definition py_int :: "pyval \<Rightarrow> string + int" where
  "py_int v = (case v of Py_Num r \<Rightarrow> Inr (if r < 0 then \<lceil>r\<rceil> else \<lfloor>r\<rfloor>)
     | Py_Bool b \<Rightarrow> Inr (if b then 1 else 0)
     | Py_Str s \<Rightarrow> (if all_digits s then Inr (digits_value 0 s)
         else if s \<noteq> [] \<and> hd s = CHR ''+'' \<and> all_digits (tl s) then Inr (digits_value 0 (tl s))
         else if s \<noteq> [] \<and> hd s = CHR ''-'' \<and> all_digits (tl s) then Inr (- digits_value 0 (tl s))
         else Inl ''ValueError'')
     | _ \<Rightarrow> Inl ''TypeError'')"

end
