(* ===== verification/Reporting.thy ===== *)
theory Reporting
  imports Flock_Prelude
begin

text \<open>
  Model of \<open>flock_os/reporting.py\<close>: attendance items and their two keys, the storage port of
  the bulk write path with its in-memory and production adapters, and the service which
  deduplicates a batch, writes it and maintains the summary counters.

  The port is a record of functions over the adapter's state.  Only the insert of the
  service's transaction can raise; the production adapter then rolls back to the tables at
  entry (the in-memory adapter never raises), so a raising \<open>submit\<close> leaves the state the
  transaction started from.  Dead-lock and time-out errors of the database are not modelled.
\<close>

section \<open>Items and receipts\<close>

definition BULK_BATCH_SIZE :: nat where "BULK_BATCH_SIZE = 500"
definition BULK_ATTENDANCE_MAX_RETRY :: int where "BULK_ATTENDANCE_MAX_RETRY = 5"

record attendance_item =
  ai_event :: docname
  ai_attendee_ref :: docname
  ai_branch :: docname
  ai_status :: string
  ai_source :: string
  ai_client_req_id :: "string option"
  ai_gathering :: "docname option"
  ai_member :: "docname option"
  ai_session :: "docname option"
  ai_attendee_key :: "string option"

type_synonym item_key = "docname \<times> docname \<times> string"

definition idempotency_key :: "attendance_item \<Rightarrow> item_key" where
  "idempotency_key item = (ai_event item, ai_attendee_ref item,
     if truthy (ai_client_req_id item) then the (ai_client_req_id item) else ai_attendee_ref item)"

definition unique_key :: "attendance_item \<Rightarrow> docname \<times> docname" where
  "unique_key item = (ai_event item, ai_attendee_ref item)"

datatype attendance_event =
    Bulk_Recorded docname nat string docname
  | Batch_Rejected docname string nat nat

record rejected_item =
  rj_index :: nat
  rj_attendee_ref :: docname
  rj_reason :: string

record bulk_outcome =
  bo_batch_id :: string
  bo_scope :: docname
  bo_accepted :: bool
  bo_inserted :: nat
  bo_deduplicated :: nat
  bo_rejected :: "rejected_item list"
  bo_events :: "attendance_event list"

definition rejected_count :: "bulk_outcome \<Rightarrow> nat" where
  "rejected_count o' = length (bo_rejected o')"

datatype attendance_error =
    Unique_Violation
  | Batch_Size_Exceeded nat nat

section \<open>The port\<close>

record 'g bulk_gateway =
  bg_filter_unseen :: "item_key list \<Rightarrow> 'g \<Rightarrow> item_key set"
  bg_bulk_insert :: "attendance_item list \<Rightarrow> 'g \<Rightarrow> attendance_error + nat \<times> 'g"
  bg_seed_aggregate :: "docname \<Rightarrow> docname list \<Rightarrow> 'g \<Rightarrow> 'g"
  bg_increment_aggregate :: "docname \<Rightarrow> docname \<Rightarrow> nat \<Rightarrow> 'g \<Rightarrow> 'g"
  bg_aggregate :: "docname \<Rightarrow> docname option \<Rightarrow> 'g \<Rightarrow> nat"
  bg_emit :: "attendance_event \<Rightarrow> 'g \<Rightarrow> 'g"

section \<open>The in-memory adapter\<close>

record mem_gateway =
  mg_seen :: "item_key set"
  mg_unique :: "(docname \<times> docname) set"
  mg_counters :: "((docname \<times> docname) \<times> nat) list"
  mg_published :: "attendance_event list"
  mg_inserted :: "attendance_item list"

definition mem_empty :: mem_gateway where
  "mem_empty = \<lparr>mg_seen = {}, mg_unique = {}, mg_counters = [], mg_published = [], mg_inserted = []\<rparr>"

definition counter_get :: "((docname \<times> docname) \<times> nat) list \<Rightarrow> docname \<Rightarrow> docname \<Rightarrow> nat" where
  "counter_get m b e = (case map_of m (b, e) of None \<Rightarrow> 0 | Some n \<Rightarrow> n)"

definition counter_sum :: "((docname \<times> docname) \<times> nat) list \<Rightarrow> docname \<Rightarrow> nat" where
  "counter_sum m b = sum_list (map snd (filter (\<lambda>((b', _), _). b' = b) m))"

definition mem_filter_unseen :: "item_key list \<Rightarrow> mem_gateway \<Rightarrow> item_key set" where
  "mem_filter_unseen keys st =
    set (filter (\<lambda>(e, a, c). (e, a, c) \<notin> mg_seen st \<and> (e, a) \<notin> mg_unique st) keys)"

definition mem_insert_item :: "attendance_item \<Rightarrow> mem_gateway \<Rightarrow> mem_gateway" where
  "mem_insert_item item st =
    st \<lparr>mg_seen := insert (idempotency_key item) (mg_seen st),
        mg_unique := insert (unique_key item) (mg_unique st),
        mg_inserted := mg_inserted st @ [item]\<rparr>"

definition mem_bulk_insert ::
  "attendance_item list \<Rightarrow> mem_gateway \<Rightarrow> attendance_error + nat \<times> mem_gateway" where
  "mem_bulk_insert items st = Inr (length items, fold mem_insert_item items st)"

definition seed_counter ::
  "docname \<Rightarrow> docname \<Rightarrow> ((docname \<times> docname) \<times> nat) list \<Rightarrow> ((docname \<times> docname) \<times> nat) list" where
  "seed_counter b e m = (case map_of m (b, e) of None \<Rightarrow> m @ [((b, e), 0)] | Some _ \<Rightarrow> m)"

definition InMemoryBulkAttendanceGateway :: "mem_gateway bulk_gateway" where
  "InMemoryBulkAttendanceGateway =
    \<lparr>bg_filter_unseen = mem_filter_unseen,
     bg_bulk_insert = mem_bulk_insert,
     bg_seed_aggregate = (\<lambda>b es st. st \<lparr>mg_counters := fold (seed_counter b) es (mg_counters st)\<rparr>),
     bg_increment_aggregate = (\<lambda>b e d st.
       st \<lparr>mg_counters := AList.update (b, e) (counter_get (mg_counters st) b e + d) (mg_counters st)\<rparr>),
     bg_aggregate = (\<lambda>b e st. case e of
         Some ev \<Rightarrow> counter_get (mg_counters st) b ev
       | None \<Rightarrow> counter_sum (mg_counters st) b),
     bg_emit = (\<lambda>ev st. st \<lparr>mg_published := mg_published st @ [ev]\<rparr>)\<rparr>"

section \<open>The production adapter\<close>

text \<open>The two tables and the published events.  A stored row keeps the resolved request id.
  The unique indexes are those of the schema: \<open>(event, attendee_ref)\<close>, which contains the
  idempotency index, \<open>(branch, gathering, member)\<close> and \<open>(engagement_session, attendee_key)\<close>;
  a row with a null in an indexed column does not take part in that index.\<close>

record attendance_tables =
  at_rows :: "attendance_item list"
  at_summary :: "((docname \<times> docname) \<times> nat) list"
  at_events :: "attendance_event list"

definition stored_item :: "attendance_item \<Rightarrow> attendance_item" where
  "stored_item item = item \<lparr>ai_client_req_id := Some (snd (snd (idempotency_key item)))\<rparr>"

definition rows_clash :: "attendance_item \<Rightarrow> attendance_item \<Rightarrow> bool" where
  "rows_clash r s \<longleftrightarrow> unique_key r = unique_key s
     \<or> (ai_gathering r \<noteq> None \<and> ai_member r \<noteq> None \<and> ai_branch r = ai_branch s
          \<and> ai_gathering r = ai_gathering s \<and> ai_member r = ai_member s)
     \<or> (ai_session r \<noteq> None \<and> ai_attendee_key r \<noteq> None
          \<and> ai_session r = ai_session s \<and> ai_attendee_key r = ai_attendee_key s)"

fun table_insert :: "attendance_item list \<Rightarrow> attendance_item list \<Rightarrow> attendance_error + attendance_item list" where
  "table_insert rows [] = Inr rows"
| "table_insert rows (x # xs) =
     (if \<exists>r \<in> set rows. rows_clash r x then Inl Unique_Violation
      else table_insert (rows @ [x]) xs)"

definition db_bulk_insert ::
  "attendance_item list \<Rightarrow> attendance_tables \<Rightarrow> attendance_error + nat \<times> attendance_tables" where
  "db_bulk_insert items st =
    (if items = [] then Inr (0, st)
     else res_bind (table_insert (at_rows st) (map stored_item items)) (\<lambda>rows.
       Inr (length items, st \<lparr>at_rows := rows\<rparr>)))"

definition db_filter_unseen :: "item_key list \<Rightarrow> attendance_tables \<Rightarrow> item_key set" where
  "db_filter_unseen keys st =
    (if keys = [] then {}
     else set (filter (\<lambda>k. k \<notin> idempotency_key ` set (at_rows st)) keys))"

definition FrappeBulkAttendanceGateway :: "attendance_tables bulk_gateway" where
  "FrappeBulkAttendanceGateway =
    \<lparr>bg_filter_unseen = db_filter_unseen,
     bg_bulk_insert = db_bulk_insert,
     bg_seed_aggregate = (\<lambda>b es st. st \<lparr>at_summary := fold (seed_counter b) es (at_summary st)\<rparr>),
     bg_increment_aggregate = (\<lambda>b e d st.
       st \<lparr>at_summary := AList.map_entry (b, e) (\<lambda>n. n + d) (at_summary st)\<rparr>),
     bg_aggregate = (\<lambda>b e st. case e of
         Some ev \<Rightarrow> counter_get (at_summary st) b ev
       | None \<Rightarrow> counter_sum (at_summary st) b),
     bg_emit = (\<lambda>ev st. st \<lparr>at_events := at_events st @ [ev]\<rparr>)\<rparr>"

section \<open>The service\<close>

text \<open>\<open>Counter(item.event for item in items)\<close>, in order of first occurrence.\<close>

definition event_counts :: "attendance_item list \<Rightarrow> (docname \<times> nat) list" where
  "event_counts items = (let es = map ai_event items in map (\<lambda>e. (e, count_list es e)) (dedup es))"

definition reject_batch :: "'g bulk_gateway \<Rightarrow> attendance_item list \<Rightarrow> docname \<Rightarrow> string \<Rightarrow> 'g
    \<Rightarrow> 'g \<times> bulk_outcome" where
  "reject_batch gw items scope batch_id st =
    (let out_of_scope = length (filter (\<lambda>i. ai_branch i \<noteq> scope) items);
         rejected = map (\<lambda>(i, item). \<lparr>rj_index = i, rj_attendee_ref = ai_attendee_ref item,
                      rj_reason = ''batch_scope_violation''\<rparr>) (List.enumerate 0 items);
         event = Batch_Rejected scope batch_id (length items) out_of_scope
     in (bg_emit gw event st,
         \<lparr>bo_batch_id = batch_id, bo_scope = scope, bo_accepted = False, bo_inserted = 0,
          bo_deduplicated = 0, bo_rejected = rejected, bo_events = [event]\<rparr>))"

text \<open>The body of the transaction: filter, insert, count.\<close>

definition write_batch :: "'g bulk_gateway \<Rightarrow> attendance_item list \<Rightarrow> docname \<Rightarrow> string \<Rightarrow> 'g
    \<Rightarrow> attendance_error + (nat \<times> nat \<times> attendance_event list) \<times> 'g" where
  "write_batch gw items scope batch_id st =
    (let unseen = bg_filter_unseen gw (map idempotency_key items) st;
         new_items = filter (\<lambda>i. idempotency_key i \<in> unseen) items;
         deduplicated = length items - length new_items
     in if new_items = [] then Inr ((0, deduplicated, []), st)
        else res_bind (bg_bulk_insert gw new_items st) (\<lambda>(inserted, st1).
          let by_event = event_counts new_items;
              st2 = fold (\<lambda>(e, n). bg_increment_aggregate gw scope e n) by_event st1;
              events = map (\<lambda>(e, n). Bulk_Recorded e n batch_id scope) by_event
          in Inr ((inserted, deduplicated, events), st2)))"

text \<open>\<open>submit\<close>: the state it leaves, and the exception or the receipt.\<close>

definition submit :: "'g bulk_gateway \<Rightarrow> attendance_item list \<Rightarrow> docname \<Rightarrow> string \<Rightarrow> 'g
    \<Rightarrow> 'g \<times> (attendance_error + bulk_outcome)" where
  "submit gw items scope batch_id st =
    (if \<exists>i \<in> set items. ai_branch i \<noteq> scope
     then let (st', out) = reject_batch gw items scope batch_id st in (st', Inr out)
     else let st0 = bg_seed_aggregate gw scope (dedup (map ai_event items)) st
     in case write_batch gw items scope batch_id st0 of
          Inl e \<Rightarrow> (st0, Inl e)
        | Inr ((inserted, deduplicated, events), st1) \<Rightarrow>
            (fold (bg_emit gw) events st1,
             Inr \<lparr>bo_batch_id = batch_id, bo_scope = scope, bo_accepted = True,
                  bo_inserted = inserted, bo_deduplicated = deduplicated, bo_rejected = [],
                  bo_events = events\<rparr>))"

definition aggregate :: "'g bulk_gateway \<Rightarrow> docname \<Rightarrow> docname option \<Rightarrow> 'g \<Rightarrow> nat" where
  "aggregate gw scope event st = bg_aggregate gw scope event st"

definition enforce_batch_size :: "attendance_item list \<Rightarrow> nat \<Rightarrow> attendance_error + unit" where
  "enforce_batch_size items limit =
    (if length items > limit then Inl (Batch_Size_Exceeded (length items) limit) else Inr ())"

text \<open>Delays in seconds, for integral base and cap.\<close>

definition with_exponential_backoff :: "nat \<Rightarrow> nat \<Rightarrow> nat \<Rightarrow> nat" where
  "with_exponential_backoff attempt base_seconds cap_seconds =
    min cap_seconds (base_seconds * 2 ^ attempt)"

section \<open>Counting lemmas\<close>

definition stored_count :: "attendance_item list \<Rightarrow> docname \<Rightarrow> docname \<Rightarrow> nat" where
  "stored_count rows b e = length (filter (\<lambda>r. ai_branch r = b \<and> ai_event r = e) rows)"

lemma stored_count_append [simp]:
  "stored_count (xs @ ys) b e = stored_count xs b e + stored_count ys b e"
  by (simp add: stored_count_def)

lemma stored_count_scope:
  "\<forall>i \<in> set items. ai_branch i = scope \<Longrightarrow>
   stored_count items b e = (if b = scope then count_list (map ai_event items) e else 0)"
  by (induction items) (auto simp: stored_count_def)

lemma event_counts_sum:
  "sum_list (map snd (filter (\<lambda>p. fst p = e) (event_counts items))) = count_list (map ai_event items) e"
proof -
  have "distinct es \<Longrightarrow> sum_list (map snd (filter (\<lambda>p. fst p = e) (map (\<lambda>e. (e, f e)) es))) =
      (if e \<in> set es then f e else 0)" for es and f :: "docname \<Rightarrow> nat"
    by (induction es) (auto simp: filter_empty_conv)
  from this [of "dedup (map ai_event items)" "count_list (map ai_event items)"] show ?thesis
    by (simp add: event_counts_def Let_def count_notin)
qed

lemma event_counts_events: "fst ` set (event_counts items) = ai_event ` set items"
  by (force simp: event_counts_def Let_def)

lemma counter_get_update [simp]:
  "counter_get (AList.update k n m) b e = (if k = (b, e) then n else counter_get m b e)"
  by (simp add: counter_get_def update_conv')

lemma seed_counter_get [simp]: "counter_get (fold (seed_counter b) es m) b' e' = counter_get m b' e'"
proof (induction es arbitrary: m)
  case (Cons e es)
  have "counter_get (seed_counter b e m) b' e' = counter_get m b' e'"
    by (auto simp: seed_counter_def counter_get_def map_add_def split: option.split)
  with Cons show ?case by simp
qed simp

lemma seed_counter_dom:
  "map_of (fold (seed_counter b) es m) (b', e') = None \<longleftrightarrow>
     map_of m (b', e') = None \<and> \<not> (b' = b \<and> e' \<in> set es)"
proof (induction es arbitrary: m)
  case (Cons e es)
  have "map_of (seed_counter b e m) (b', e') = None \<longleftrightarrow> map_of m (b', e') = None \<and> \<not> (b' = b \<and> e' = e)"
    by (auto simp: seed_counter_def map_add_def split: option.split)
  with Cons show ?case by auto
qed simp

section \<open>The contract of the store\<close>

text \<open>What the service relies on, and what both adapters promise: the filter returns only keys
  that are asked and not stored and never grows back, an insert that succeeds appends every
  item, seeding and publishing change no row and no total, and an increment of a seeded
  counter adds exactly its amount.\<close>

locale attendance_store =
  fixes gw :: "'g bulk_gateway"
    and rows :: "'g \<Rightarrow> attendance_item list"
    and total :: "'g \<Rightarrow> docname \<Rightarrow> docname \<Rightarrow> nat"
    and seeded :: "'g \<Rightarrow> docname \<Rightarrow> docname \<Rightarrow> bool"
    and stored :: "attendance_item \<Rightarrow> attendance_item"
    and ok :: "'g \<Rightarrow> bool"
  assumes filter_new: "ok st \<Longrightarrow> k \<in> bg_filter_unseen gw keys st \<Longrightarrow>
      k \<in> set keys \<and> k \<notin> idempotency_key ` set (rows st)"
    and filter_mono: "ok st \<Longrightarrow> ok st' \<Longrightarrow> set (rows st) \<subseteq> set (rows st') \<Longrightarrow>
      bg_filter_unseen gw keys st' \<subseteq> bg_filter_unseen gw keys st"
    and insert_rows: "ok st \<Longrightarrow> bg_bulk_insert gw items st = Inr (n, st') \<Longrightarrow>
      ok st' \<and> n = length items \<and> rows st' = rows st @ map stored items
      \<and> total st' = total st \<and> seeded st' = seeded st"
    and stored_keeps: "idempotency_key (stored i) = idempotency_key i"
      "ai_event (stored i) = ai_event i" "ai_branch (stored i) = ai_branch i"
    and seed: "ok st \<Longrightarrow> ok (bg_seed_aggregate gw b es st) \<and> rows (bg_seed_aggregate gw b es st) = rows st
      \<and> total (bg_seed_aggregate gw b es st) = total st
      \<and> (\<forall>e \<in> set es. seeded (bg_seed_aggregate gw b es st) b e)"
    and increment: "ok st \<Longrightarrow> seeded st b e \<Longrightarrow>
      ok (bg_increment_aggregate gw b e n st) \<and> rows (bg_increment_aggregate gw b e n st) = rows st
      \<and> total (bg_increment_aggregate gw b e n st) b' e'
          = total st b' e' + (if b' = b \<and> e' = e then n else 0)
      \<and> (seeded st b' e' \<longrightarrow> seeded (bg_increment_aggregate gw b e n st) b' e')"
    and emit: "ok st \<Longrightarrow> ok (bg_emit gw ev st) \<and> rows (bg_emit gw ev st) = rows st
      \<and> total (bg_emit gw ev st) = total st"
begin

definition exact :: "'g \<Rightarrow> bool" where
  "exact st \<longleftrightarrow> ok st \<and> (\<forall>b e. total st b e = stored_count (rows st) b e)"

lemma emit_all:
  "ok st \<Longrightarrow> ok (fold (bg_emit gw) evs st) \<and> rows (fold (bg_emit gw) evs st) = rows st
     \<and> total (fold (bg_emit gw) evs st) = total st"
  by (induction evs arbitrary: st) (auto simp: emit)

lemma increment_all:
  "ok st \<Longrightarrow> \<forall>p \<in> set ps. seeded st scope (fst p) \<Longrightarrow>
   ok (fold (\<lambda>(e, n). bg_increment_aggregate gw scope e n) ps st)
   \<and> rows (fold (\<lambda>(e, n). bg_increment_aggregate gw scope e n) ps st) = rows st
   \<and> total (fold (\<lambda>(e, n). bg_increment_aggregate gw scope e n) ps st) b e =
       total st b e + (if b = scope then sum_list (map snd (filter (\<lambda>p. fst p = e) ps)) else 0)"
proof (induction ps arbitrary: st)
  case (Cons p ps)
  obtain x n where p: "p = (x, n)" by (cases p)
  with Cons.prems have s: "seeded st scope x" by simp
  let ?st = "bg_increment_aggregate gw scope x n st"
  note inc = increment [OF Cons.prems(1) s, of n]
  have "\<forall>p \<in> set ps. seeded ?st scope (fst p)" using Cons.prems(2) inc by auto
  with Cons.IH [of ?st] inc p show ?case by auto
qed simp

lemma write_batch_effect:
  assumes st: "ok st" and scope: "\<forall>i \<in> set items. ai_branch i = scope"
    and seeded: "\<forall>i \<in> set items. seeded st scope (ai_event i)"
    and w: "write_batch gw items scope bid st = Inr ((inserted, deduplicated, evs), st')"
  defines "new \<equiv> filter (\<lambda>i. idempotency_key i \<in> bg_filter_unseen gw (map idempotency_key items) st) items"
  shows "ok st' \<and> rows st' = rows st @ map stored new
    \<and> (\<forall>b e. total st' b e = total st b e + stored_count (map stored new) b e)
    \<and> inserted = length new \<and> deduplicated = length items - length new
    \<and> evs = map (\<lambda>(e, n). Bulk_Recorded e n bid scope) (event_counts new)"
proof (cases "new = []")
  case True
  then show ?thesis
    using w st by (auto simp: write_batch_def Let_def new_def stored_count_def event_counts_def)
next
  case False
  then obtain n st1 where ins: "bg_bulk_insert gw new st = Inr (n, st1)"
    and rest: "inserted = n" "deduplicated = length items - length new"
      "st' = fold (\<lambda>(e, n). bg_increment_aggregate gw scope e n) (event_counts new) st1"
      "evs = map (\<lambda>(e, n). Bulk_Recorded e n bid scope) (event_counts new)"
    using w by (auto simp: write_batch_def Let_def new_def [symmetric] res_bind_Inr_iff)
  note i = insert_rows [OF st ins]
  have "\<forall>p \<in> set (event_counts new). seeded st1 scope (fst p)"
  proof
    fix p assume "p \<in> set (event_counts new)"
    then have "fst p \<in> ai_event ` set new" using event_counts_events [of new] by blast
    then show "seeded st1 scope (fst p)" using seeded i by (auto simp: new_def)
  qed
  note inc = increment_all [of st1, OF _ this]
  have "stored_count (map stored new) b e = (if b = scope then count_list (map ai_event new) e else 0)" for b e
  proof -
    have "\<forall>i \<in> set (map stored new). ai_branch i = scope"
      using scope by (auto simp: new_def stored_keeps)
    from stored_count_scope [OF this] show ?thesis by (simp add: stored_keeps comp_def)
  qed
  then show ?thesis using inc i rest by (simp add: event_counts_sum)
qed

lemma submit_exact:
  assumes st: "exact st" and s: "submit gw items scope bid st = (st', r)"
  shows "exact st' \<and> (\<exists>extra. rows st' = rows st @ extra)"
proof (cases "\<exists>i \<in> set items. ai_branch i \<noteq> scope")
  case True
  then have "\<exists>ev. st' = bg_emit gw ev st"
    using s by (auto simp: submit_def reject_batch_def Let_def)
  then show ?thesis using st emit unfolding exact_def by (metis append_Nil2)
next
  case False
  let ?st0 = "bg_seed_aggregate gw scope (dedup (map ai_event items)) st"
  have ok0: "ok st" using st by (simp add: exact_def)
  note s0 = seed [OF ok0, of scope "dedup (map ai_event items)"]
  show ?thesis
  proof (cases "write_batch gw items scope bid ?st0")
    case (Inl e)
    then have "st' = ?st0" using s False by (simp add: submit_def)
    then show ?thesis using s0 st by (auto simp: exact_def)
  next
    case (Inr p)
    obtain ins ded evs st1 where p: "p = ((ins, ded, evs), st1)" by (cases p) auto
    have "\<forall>i \<in> set items. seeded ?st0 scope (ai_event i)" using s0 by auto
    note w = write_batch_effect [OF _ _ this Inr [unfolded p]]
    have "st' = fold (bg_emit gw) evs st1" using s False Inr p by (auto simp: submit_def)
    then show ?thesis using w s0 emit_all [of st1 evs] st False by (auto simp: exact_def)
  qed
qed

text \<open>A batch that was accepted is empty the second time.\<close>

lemma submit_replay:
  assumes st: "exact st" and s: "submit gw items scope bid st = (st', Inr out)" "bo_accepted out"
  shows "\<exists>st'' out'. submit gw items scope bid' st' = (st'', Inr out') \<and> bo_accepted out'
    \<and> bo_inserted out' = 0 \<and> bo_deduplicated out' = length items \<and> bo_events out' = []
    \<and> rows st'' = rows st' \<and> total st'' = total st'"
proof -
  let ?keys = "map idempotency_key items"
  let ?seed = "bg_seed_aggregate gw scope (dedup (map ai_event items))"
  have same: "\<not> (\<exists>i \<in> set items. ai_branch i \<noteq> scope)"
    using s by (auto simp: submit_def reject_batch_def Let_def split: if_splits)
  have ok0: "ok st" using st by (simp add: exact_def)
  note s0 = seed [OF ok0, of scope "dedup (map ai_event items)"]
  obtain ins ded evs st1 where w: "write_batch gw items scope bid (?seed st) = Inr ((ins, ded, evs), st1)"
    and st': "st' = fold (bg_emit gw) evs st1"
    using s same by (auto simp: submit_def Let_def split: sum.splits)
  have "\<forall>i \<in> set items. seeded (?seed st) scope (ai_event i)" using s0 by auto
  note e = write_batch_effect [OF _ _ this w]
  have ok': "ok st'" using submit_exact [OF st s(1)] by (simp add: exact_def)
  note s1 = seed [OF ok', of scope "dedup (map ai_event items)"]
  let ?new = "filter (\<lambda>i. idempotency_key i \<in> bg_filter_unseen gw ?keys (?seed st)) items"
  have rows: "rows (?seed st') = rows (?seed st) @ map stored ?new"
    using e s0 s1 same st' emit_all [of st1 evs] by auto
  have none: "filter (\<lambda>i. idempotency_key i \<in> bg_filter_unseen gw ?keys (?seed st')) items = []"
  proof (rule ccontr)
    assume "filter (\<lambda>i. idempotency_key i \<in> bg_filter_unseen gw ?keys (?seed st')) items \<noteq> []"
    then obtain i where i: "i \<in> set items" "idempotency_key i \<in> bg_filter_unseen gw ?keys (?seed st')"
      by (auto simp: filter_empty_conv)
    have "set (rows (?seed st)) \<subseteq> set (rows (?seed st'))" unfolding rows by auto
    then have "idempotency_key i \<in> bg_filter_unseen gw ?keys (?seed st)"
      using filter_mono [of "?seed st" "?seed st'"] s0 s1 i(2) by blast
    then have "stored i \<in> set (rows (?seed st'))" using i(1) by (auto simp: rows)
    then have "idempotency_key i \<in> idempotency_key ` set (rows (?seed st'))"
      using stored_keeps(1) [of i] by (metis image_eqI)
    then show False using filter_new [of "?seed st'", OF _ i(2)] s1 by blast
  qed
  have "submit gw items scope bid' st' = (?seed st', Inr \<lparr>bo_batch_id = bid', bo_scope = scope,
      bo_accepted = True, bo_inserted = 0, bo_deduplicated = length items, bo_rejected = [], bo_events = []\<rparr>)"
    using same by (simp add: submit_def write_batch_def Let_def none)
  then show ?thesis using s1 by auto
qed

end

section \<open>Both adapters keep the contract\<close>

definition mem_ok :: "mem_gateway \<Rightarrow> bool" where
  "mem_ok st \<longleftrightarrow> mg_seen st = idempotency_key ` set (mg_inserted st)
     \<and> mg_unique st = unique_key ` set (mg_inserted st)"

lemma mem_insert_all:
  "fold mem_insert_item items st = st
     \<lparr>mg_seen := mg_seen st \<union> idempotency_key ` set items,
      mg_unique := mg_unique st \<union> unique_key ` set items,
      mg_inserted := mg_inserted st @ items\<rparr>"
  by (induction items arbitrary: st) (auto simp: mem_insert_item_def)

interpretation mem_store: attendance_store InMemoryBulkAttendanceGateway mg_inserted
  "\<lambda>st. counter_get (mg_counters st)" "\<lambda>_ _ _. True" "\<lambda>i. i" mem_ok
  by unfold_locales
     (auto simp: InMemoryBulkAttendanceGateway_def mem_filter_unseen_def mem_ok_def mem_bulk_insert_def
        mem_insert_all fun_eq_iff)

text \<open>The tables keep their unique indexes.\<close>

definition tables_ok :: "attendance_tables \<Rightarrow> bool" where
  "tables_ok st \<longleftrightarrow> distinct (map unique_key (at_rows st))"

lemma table_insert_rows:
  "table_insert rows xs = Inr rows' \<Longrightarrow> distinct (map unique_key rows) \<Longrightarrow>
   rows' = rows @ xs \<and> distinct (map unique_key rows')"
proof (induction rows xs rule: table_insert.induct)
  case (2 rows x xs)
  then have n: "\<not> (\<exists>r \<in> set rows. rows_clash r x)" by (auto split: if_splits)
  have d: "distinct (map unique_key (rows @ [x]))" using 2(3) n by (auto simp: rows_clash_def)
  have "table_insert (rows @ [x]) xs = Inr rows'" using "2.prems"(1) n by simp
  from "2.IH" [OF n this d] show ?case by (metis append_assoc append_Cons append_Nil)
qed simp

lemma stored_item_keeps:
  "idempotency_key (stored_item i) = idempotency_key i" "ai_event (stored_item i) = ai_event i"
  "ai_branch (stored_item i) = ai_branch i" "unique_key (stored_item i) = unique_key i"
  by (cases "ai_client_req_id i"; auto simp: stored_item_def idempotency_key_def unique_key_def)+

interpretation frappe_store: attendance_store FrappeBulkAttendanceGateway at_rows
  "\<lambda>st. counter_get (at_summary st)" "\<lambda>st b e. map_of (at_summary st) (b, e) \<noteq> None" stored_item tables_ok
proof
  show "bg_bulk_insert FrappeBulkAttendanceGateway items st = Inr (n, st') \<Longrightarrow>
      tables_ok st' \<and> n = length items \<and> at_rows st' = at_rows st @ map stored_item items
      \<and> counter_get (at_summary st') = counter_get (at_summary st)
      \<and> (\<lambda>b e. map_of (at_summary st') (b, e) \<noteq> None) = (\<lambda>b e. map_of (at_summary st) (b, e) \<noteq> None)"
    if "tables_ok st" for st items n st'
    using that table_insert_rows [of "at_rows st" "map stored_item items"]
    by (auto simp: FrappeBulkAttendanceGateway_def db_bulk_insert_def res_bind_Inr_iff tables_ok_def
        split: if_splits)
  show "tables_ok (bg_seed_aggregate FrappeBulkAttendanceGateway b es st)
      \<and> at_rows (bg_seed_aggregate FrappeBulkAttendanceGateway b es st) = at_rows st
      \<and> counter_get (at_summary (bg_seed_aggregate FrappeBulkAttendanceGateway b es st)) = counter_get (at_summary st)
      \<and> (\<forall>e \<in> set es. map_of (at_summary (bg_seed_aggregate FrappeBulkAttendanceGateway b es st)) (b, e) \<noteq> None)"
    if "tables_ok st" for st b es
    using that seed_counter_dom [of b es "at_summary st" b]
    by (auto simp: FrappeBulkAttendanceGateway_def tables_ok_def fun_eq_iff)
qed (auto simp: FrappeBulkAttendanceGateway_def db_filter_unseen_def tables_ok_def stored_item_keeps
    counter_get_def map_of_map_entry split: option.splits if_splits)

section \<open>Batches of one branch in production\<close>

definition unseen_items :: "attendance_item list \<Rightarrow> attendance_tables \<Rightarrow> attendance_item list" where
  "unseen_items items st = filter (\<lambda>i. idempotency_key i \<notin> idempotency_key ` set (at_rows st)) items"

lemma db_filter_items:
  "filter (\<lambda>i. idempotency_key i \<in> bg_filter_unseen FrappeBulkAttendanceGateway (map idempotency_key items) st) items
     = unseen_items items st"
  unfolding unseen_items_def by (rule filter_cong) (auto simp: FrappeBulkAttendanceGateway_def db_filter_unseen_def)

lemma db_increments_keep_rows:
  "at_rows (fold (\<lambda>(e, n). bg_increment_aggregate FrappeBulkAttendanceGateway scope e n) ps st) = at_rows st"
  by (induction ps arbitrary: st) (auto simp: FrappeBulkAttendanceGateway_def)

lemma db_emits_keep_rows: "at_rows (fold (bg_emit FrappeBulkAttendanceGateway) evs st) = at_rows st"
  by (induction evs arbitrary: st) (auto simp: FrappeBulkAttendanceGateway_def)

text \<open>The unique indexes decide alone whether a batch of one branch is stored or fails.\<close>

lemma db_submit:
  assumes scope: "\<forall>i \<in> set items. ai_branch i = scope"
  shows "case table_insert (at_rows st) (map stored_item (unseen_items items st)) of
      Inl e \<Rightarrow> \<exists>st'. submit FrappeBulkAttendanceGateway items scope bid st = (st', Inl e) \<and> at_rows st' = at_rows st
    | Inr rows \<Rightarrow> \<exists>st' out. submit FrappeBulkAttendanceGateway items scope bid st = (st', Inr out)
        \<and> at_rows st' = rows \<and> bo_accepted out \<and> bo_inserted out = length (unseen_items items st)
        \<and> bo_deduplicated out = length items - length (unseen_items items st)"
proof -
  let ?gw = "FrappeBulkAttendanceGateway" and ?new = "unseen_items items st"
  let ?st0 = "bg_seed_aggregate ?gw scope (dedup (map ai_event items)) st"
  have r0: "at_rows ?st0 = at_rows st" by (simp add: FrappeBulkAttendanceGateway_def)
  have same: "\<not> (\<exists>i \<in> set items. ai_branch i \<noteq> scope)" using scope by auto
  have new: "filter (\<lambda>i. idempotency_key i \<in> bg_filter_unseen ?gw (map idempotency_key items) ?st0) items = ?new"
    unfolding db_filter_items by (simp add: unseen_items_def r0)
  have ins: "bg_bulk_insert ?gw ?new ?st0 = (if ?new = [] then Inr (0, ?st0)
      else res_bind (table_insert (at_rows st) (map stored_item ?new))
        (\<lambda>rows. Inr (length ?new, ?st0 \<lparr>at_rows := rows\<rparr>)))"
    by (simp add: FrappeBulkAttendanceGateway_def db_bulk_insert_def)
  show ?thesis
  proof (cases "?new = []")
    case True
    then have "submit ?gw items scope bid st = (?st0, Inr \<lparr>bo_batch_id = bid, bo_scope = scope, bo_accepted = True,
        bo_inserted = 0, bo_deduplicated = length items, bo_rejected = [], bo_events = []\<rparr>)"
      using same new by (simp add: submit_def write_batch_def Let_def)
    then show ?thesis using True r0 by simp
  next
    case False
    show ?thesis
    proof (cases "table_insert (at_rows st) (map stored_item ?new)")
      case (Inl e)
      then have "write_batch ?gw items scope bid ?st0 = Inl e"
        using False by (simp add: write_batch_def Let_def new ins)
      then show ?thesis using same r0 Inl by (simp add: submit_def)
    next
      case (Inr rows)
      then have "write_batch ?gw items scope bid ?st0 = (let by_event = event_counts ?new in
          Inr ((length ?new, length items - length ?new, map (\<lambda>(e, n). Bulk_Recorded e n bid scope) by_event),
            fold (\<lambda>(e, n). bg_increment_aggregate ?gw scope e n) by_event (?st0 \<lparr>at_rows := rows\<rparr>)))"
        using False by (simp add: write_batch_def Let_def new ins)
      then show ?thesis using same Inr
        by (simp add: submit_def Let_def db_emits_keep_rows db_increments_keep_rows)
    qed
  qed
qed

text \<open>An insert succeeds exactly when no new row clashes with a stored or an earlier new one.\<close>

lemma table_insert_eq:
  "table_insert rows xs =
     (if (\<forall>r \<in> set rows. \<forall>x \<in> set xs. \<not> rows_clash r x) \<and> sorted_wrt (\<lambda>r x. \<not> rows_clash r x) xs
      then Inr (rows @ xs) else Inl Unique_Violation)"
  by (induction rows xs rule: table_insert.induct) auto

section \<open>Properties\<close>

text \<open>A sequence of batches submitted to the production adapter, raising or not.\<close>

inductive submissions :: "attendance_tables \<Rightarrow> attendance_tables \<Rightarrow> bool" where
  sub_start: "submissions st st"
| sub_step: "submissions st st1 \<Longrightarrow>
    submit FrappeBulkAttendanceGateway items scope bid st1 = (st2, r) \<Longrightarrow> submissions st st2"

lemma submissions_exact: "submissions st st' \<Longrightarrow> frappe_store.exact st \<Longrightarrow> frappe_store.exact st'"
  by (induction rule: submissions.induct) (auto dest: frappe_store.submit_exact)

definition empty_tables :: attendance_tables where
  "empty_tables = \<lparr>at_rows = [], at_summary = [], at_events = []\<rparr>"

lemma empty_tables_exact: "frappe_store.exact empty_tables"
  by (simp add: frappe_store.exact_def tables_ok_def empty_tables_def counter_get_def stored_count_def)

text \<open>The maintained summary never drifts: after any sequence of batches on empty tables,
  accepted, rejected or failed, the total read for a branch and event is the number of stored
  rows of that branch and event, and no event has two rows for one attendee.\<close>
theorem summary_counts_rows:
  assumes "submissions empty_tables st"
  shows "aggregate FrappeBulkAttendanceGateway b (Some e) st =
      length (filter (\<lambda>r. ai_branch r = b \<and> ai_event r = e) (at_rows st))
    \<and> distinct (map unique_key (at_rows st))"
proof -
  have "bg_aggregate FrappeBulkAttendanceGateway b (Some e) st = counter_get (at_summary st) b e"
    by (simp add: FrappeBulkAttendanceGateway_def)
  then show ?thesis
    using submissions_exact [OF assms empty_tables_exact]
    by (simp add: frappe_store.exact_def aggregate_def stored_count_def tables_ok_def)
qed

text \<open>Replaying an accepted batch under any batch id is accepted, inserts nothing, reports
  every item as deduplicated, records no event and leaves rows and totals as they are, in the
  production and in the in-memory adapter.\<close>
theorem replayed_batch_is_noop:
  "(submissions empty_tables st \<and> submit FrappeBulkAttendanceGateway items scope bid st = (st', Inr out)
      \<and> bo_accepted out \<longrightarrow>
     (\<exists>st'' out'. submit FrappeBulkAttendanceGateway items scope bid' st' = (st'', Inr out')
       \<and> bo_accepted out' \<and> bo_inserted out' = 0 \<and> bo_deduplicated out' = length items
       \<and> bo_events out' = [] \<and> at_rows st'' = at_rows st'
       \<and> counter_get (at_summary st'') = counter_get (at_summary st')))
   \<and> (mem_store.exact ms \<and> submit InMemoryBulkAttendanceGateway items scope bid ms = (ms', Inr out)
      \<and> bo_accepted out \<longrightarrow>
     (\<exists>ms'' out'. submit InMemoryBulkAttendanceGateway items scope bid' ms' = (ms'', Inr out')
       \<and> bo_accepted out' \<and> bo_inserted out' = 0 \<and> bo_deduplicated out' = length items
       \<and> bo_events out' = [] \<and> mg_inserted ms'' = mg_inserted ms'
       \<and> counter_get (mg_counters ms'') = counter_get (mg_counters ms')))"
  using frappe_store.submit_replay [of st items scope bid st' out bid']
    mem_store.submit_replay [of ms items scope bid ms' out bid']
    submissions_exact [OF _ empty_tables_exact, of st]
  by blast

text \<open>The scope check is wholesale: a batch with any item of another branch is rejected as a
  whole, every item is listed, and no row or total changes; a batch within scope is never
  rejected for its scope.\<close>
theorem scope_check_is_wholesale:
  "(if \<exists>i \<in> set items. ai_branch i \<noteq> scope
    then \<exists>st' out. submit FrappeBulkAttendanceGateway items scope bid st = (st', Inr out)
      \<and> \<not> bo_accepted out \<and> bo_inserted out = 0 \<and> rejected_count out = length items
      \<and> map rj_attendee_ref (bo_rejected out) = map ai_attendee_ref items
      \<and> at_rows st' = at_rows st \<and> at_summary st' = at_summary st
      \<and> at_events st' = at_events st @ [Batch_Rejected scope bid (length items)
          (length (filter (\<lambda>i. ai_branch i \<noteq> scope) items))]
    else \<forall>st' out. submit FrappeBulkAttendanceGateway items scope bid st = (st', Inr out) \<longrightarrow>
      bo_accepted out \<and> bo_inserted out + bo_deduplicated out = length items)"
proof (cases "\<exists>i \<in> set items. ai_branch i \<noteq> scope")
  case True
  have "map (\<lambda>x. ai_attendee_ref (snd x)) (List.enumerate n xs) = map ai_attendee_ref xs"
    for n and xs :: "attendance_item list"
    by (induction xs arbitrary: n) auto
  with True show ?thesis
    by (simp add: submit_def reject_batch_def Let_def rejected_count_def FrappeBulkAttendanceGateway_def
        comp_def case_prod_beta)
next
  case False
  have "bo_accepted out \<and> bo_inserted out + bo_deduplicated out = length items"
    if s: "submit FrappeBulkAttendanceGateway items scope bid st = (st', Inr out)" for st' out
  proof -
    let ?st0 = "bg_seed_aggregate FrappeBulkAttendanceGateway scope (dedup (map ai_event items)) st"
    obtain ins ded evs st1 where w: "write_batch FrappeBulkAttendanceGateway items scope bid ?st0
        = Inr ((ins, ded, evs), st1)"
      and o: "bo_accepted out" "bo_inserted out = ins" "bo_deduplicated out = ded"
      using s False by (auto simp: submit_def Let_def split: sum.splits)
    have "ins + ded = length items"
      using w length_filter_le [of _ items]
      by (auto simp: write_batch_def Let_def res_bind_Inr_iff FrappeBulkAttendanceGateway_def
          db_bulk_insert_def split: if_splits)
    with o show ?thesis by simp
  qed
  with False show ?thesis by simp
qed

definition demo_item :: "docname \<Rightarrow> string \<Rightarrow> attendance_item" where
  "demo_item a c = \<lparr>ai_event = ''E'', ai_attendee_ref = a, ai_branch = ''B'', ai_status = ''Present'',
     ai_source = ''bulk'', ai_client_req_id = Some c, ai_gathering = Some ''E'', ai_member = Some a,
     ai_session = None, ai_attendee_key = None\<rparr>"

definition demo_tables1 :: attendance_tables where
  "demo_tables1 = fst (submit FrappeBulkAttendanceGateway [demo_item ''M1'' ''c1''] ''B'' ''b1'' empty_tables)"

lemma demo_submitted: "submissions empty_tables demo_tables1"
  using sub_step [OF sub_start, of "[demo_item ''M1'' ''c1'']" "''B''" "''b1''" empty_tables]
  unfolding demo_tables1_def by (metis prod.collapse)

lemma summary_counts_rows_witness:
  "aggregate FrappeBulkAttendanceGateway ''B'' (Some ''E'') demo_tables1 = 1
    \<and> distinct (map unique_key (at_rows demo_tables1))"
proof -
  have "aggregate FrappeBulkAttendanceGateway ''B'' (Some ''E'') demo_tables1 = 1" by code_simp
  then show ?thesis using summary_counts_rows [OF demo_submitted] by simp
qed

lemma replayed_batch_is_noop_witness:
  "\<exists>st'' out'. submit FrappeBulkAttendanceGateway [demo_item ''M1'' ''c1''] ''B'' ''b2'' demo_tables1
     = (st'', Inr out') \<and> bo_inserted out' = 0"
proof -
  let ?items = "[demo_item ''M1'' ''c1'']"
  let ?r = "snd (submit FrappeBulkAttendanceGateway ?items ''B'' ''b1'' empty_tables)"
  have "is_ok ?r" "bo_accepted (projr ?r)" by code_simp+
  then have "submit FrappeBulkAttendanceGateway ?items ''B'' ''b1'' empty_tables = (demo_tables1, Inr (projr ?r))"
    unfolding demo_tables1_def by (cases ?r) (auto simp: prod_eq_iff)
  then show ?thesis
    using replayed_batch_is_noop [of empty_tables ?items "''B''" "''b1''" demo_tables1 "projr ?r" "''b2''"]
      sub_start \<open>bo_accepted (projr ?r)\<close> by blast
qed

lemma scope_check_is_wholesale_witness:
  "\<exists>st' out. submit FrappeBulkAttendanceGateway [demo_item ''M1'' ''c1''] ''C'' ''b1'' empty_tables = (st', Inr out)
     \<and> \<not> bo_accepted out"
  using scope_check_is_wholesale [of "[demo_item ''M1'' ''c1'']" "''C''" "''b1''" empty_tables]
  by (auto simp: demo_item_def)

lemma table_insert_clash:
  "x \<in> set xs \<Longrightarrow> r \<in> set rows \<Longrightarrow> rows_clash r x \<Longrightarrow> table_insert rows xs = Inl Unique_Violation"
  by (induction rows xs rule: table_insert.induct) auto

lemma idempotency_unique: "idempotency_key i = idempotency_key s \<Longrightarrow> unique_key i = unique_key s"
  by (simp add: idempotency_key_def unique_key_def)

lemma fresh_attendee_key:
  "unique_key i \<notin> unique_key ` S \<Longrightarrow> idempotency_key i \<notin> idempotency_key ` S"
  using idempotency_unique by (metis image_iff)

lemma mem_filter_iff:
  "idempotency_key i \<in> mem_filter_unseen keys st \<longleftrightarrow>
     idempotency_key i \<in> set keys \<and> idempotency_key i \<notin> mg_seen st \<and> unique_key i \<notin> mg_unique st"
  by (auto simp: mem_filter_unseen_def idempotency_key_def unique_key_def)

lemma new_of_old_attendee:
  assumes "distinct (map unique_key rows)" "r \<in> set rows" "unique_key x = unique_key r"
    "idempotency_key x \<noteq> idempotency_key r"
  shows "idempotency_key x \<notin> idempotency_key ` set rows"
proof
  assume "idempotency_key x \<in> idempotency_key ` set rows"
  then obtain s where s: "s \<in> set rows" "idempotency_key x = idempotency_key s" by auto
  then have "unique_key s = unique_key r" using assms(3) idempotency_unique by metis
  then have "s = r" using assms(1,2) s(1) by (auto simp: distinct_map inj_on_def)
  with s assms(4) show False by simp
qed

text \<open>An attendee who is recorded already and arrives again under another request id splits the
  adapters: the production filter lets the item through, so the unique index fails the whole
  batch and nothing of it is stored, however often it is retried; the in-memory adapter drops
  the item and accepts the batch.\<close>
theorem recorded_attendee_fails_batch:
  assumes st: "submissions empty_tables st" and r: "r \<in> set (at_rows st)"
    and x: "x \<in> set items" "unique_key x = unique_key r" "idempotency_key x \<noteq> idempotency_key r"
    and scope: "\<forall>i \<in> set items. ai_branch i = scope"
    and ms: "mem_store.exact ms" "r' \<in> set (mg_inserted ms)" "unique_key r' = unique_key r"
  shows "(\<exists>st'. submit FrappeBulkAttendanceGateway items scope bid st = (st', Inl Unique_Violation)
       \<and> at_rows st' = at_rows st \<and> counter_get (at_summary st') = counter_get (at_summary st))
    \<and> (\<exists>ms' out. submit InMemoryBulkAttendanceGateway items scope bid ms = (ms', Inr out)
       \<and> bo_accepted out \<and> bo_deduplicated out \<ge> 1)"
proof
  let ?gw = "FrappeBulkAttendanceGateway" and ?keys = "map idempotency_key items"
  let ?st0 = "bg_seed_aggregate ?gw scope (dedup (map ai_event items)) st"
  have same: "\<not> (\<exists>i \<in> set items. ai_branch i \<noteq> scope)" using scope by auto
  have ok: "tables_ok st" using submissions_exact [OF st empty_tables_exact] by (simp add: frappe_store.exact_def)
  have rows0: "at_rows ?st0 = at_rows st" "counter_get (at_summary ?st0) = counter_get (at_summary st)"
    using frappe_store.seed [OF ok] by simp_all
  have "idempotency_key x \<notin> idempotency_key ` set (at_rows st)"
    using new_of_old_attendee [OF _ r x(2,3)] ok by (simp add: tables_ok_def)
  then have "x \<in> set (filter (\<lambda>i. idempotency_key i \<in> bg_filter_unseen ?gw ?keys ?st0) items)"
    using x(1) rows0 by (auto simp: FrappeBulkAttendanceGateway_def db_filter_unseen_def)
  then obtain new where new: "new = filter (\<lambda>i. idempotency_key i \<in> bg_filter_unseen ?gw ?keys ?st0) items"
    "x \<in> set new" by blast
  then have "table_insert (at_rows st) (map stored_item new) = Inl Unique_Violation"
    using r x(2) by (intro table_insert_clash [of "stored_item x" _ r]) (auto simp: rows_clash_def stored_item_keeps)
  then have "bg_bulk_insert ?gw new ?st0 = Inl Unique_Violation"
    using new(2) rows0 by (auto simp: FrappeBulkAttendanceGateway_def db_bulk_insert_def)
  moreover have "new \<noteq> []" using new(2) by auto
  ultimately have "write_batch ?gw items scope bid ?st0 = Inl Unique_Violation"
    by (simp add: write_batch_def Let_def new(1) [symmetric])
  then have "submit ?gw items scope bid st = (?st0, Inl Unique_Violation)"
    using same by (simp add: submit_def)
  then show "\<exists>st'. submit ?gw items scope bid st = (st', Inl Unique_Violation)
       \<and> at_rows st' = at_rows st \<and> counter_get (at_summary st') = counter_get (at_summary st)"
    using rows0 by blast
next
  let ?gw = "InMemoryBulkAttendanceGateway" and ?keys = "map idempotency_key items"
  let ?ms0 = "bg_seed_aggregate ?gw scope (dedup (map ai_event items)) ms"
  let ?new = "filter (\<lambda>i. idempotency_key i \<in> bg_filter_unseen ?gw ?keys ?ms0) items"
  have same: "\<not> (\<exists>i \<in> set items. ai_branch i \<noteq> scope)" using scope by auto
  have "unique_key x \<in> mg_unique ?ms0"
    using ms x(2) by (auto simp: mem_store.exact_def mem_ok_def InMemoryBulkAttendanceGateway_def image_iff) metis
  then have drop: "idempotency_key x \<notin> bg_filter_unseen ?gw ?keys ?ms0"
    by (simp add: InMemoryBulkAttendanceGateway_def mem_filter_iff)
  have "length ?new < length items" using x(1) drop by (rule length_filter_less)
  moreover obtain ins evs ms1 where "write_batch ?gw items scope bid ?ms0 =
      Inr ((ins, length items - length ?new, evs), ms1)"
    by (cases "?new = []") (auto simp: write_batch_def Let_def InMemoryBulkAttendanceGateway_def mem_bulk_insert_def)
  ultimately show "\<exists>ms' out. submit ?gw items scope bid ms = (ms', Inr out)
       \<and> bo_accepted out \<and> bo_deduplicated out \<ge> 1"
    using same by (simp add: submit_def)
qed

lemma recorded_attendee_fails_batch_witness:
  "\<exists>st'. submit FrappeBulkAttendanceGateway [demo_item ''M2'' ''c2'', demo_item ''M1'' ''c3''] ''B'' ''b2'' demo_tables1
     = (st', Inl Unique_Violation) \<and> at_rows st' = at_rows demo_tables1"
proof -
  let ?r = "demo_item ''M1'' ''c1''" and ?x = "demo_item ''M1'' ''c3''"
  let ?items = "[demo_item ''M2'' ''c2'', ?x]"
  let ?ms = "fst (submit InMemoryBulkAttendanceGateway [?r] ''B'' ''b1'' mem_empty)"
  have r: "?r \<in> set (at_rows demo_tables1)" by code_simp
  have m: "?r \<in> set (mg_inserted ?ms)" by code_simp
  have "mem_store.exact mem_empty"
    by (simp add: mem_store.exact_def mem_ok_def mem_empty_def counter_get_def stored_count_def)
  then have ms: "mem_store.exact ?ms"
    using mem_store.submit_exact [of mem_empty "[?r]" "''B''" "''b1''" ?ms] by (metis prod.collapse)
  have x: "?x \<in> set ?items" "unique_key ?x = unique_key ?r" "idempotency_key ?x \<noteq> idempotency_key ?r"
    "\<forall>i \<in> set ?items. ai_branch i = ''B''"
    by (simp_all add: demo_item_def unique_key_def idempotency_key_def)
  from recorded_attendee_fails_batch [OF demo_submitted r x ms m refl] show ?thesis by blast
qed

text \<open>An attendee who occurs twice in one batch, under one or two request ids, and is not
  recorded yet is counted twice by the in-memory adapter, against its own unique index, while
  the production adapter fails the batch.\<close>
theorem batch_with_repeated_attendee:
  assumes xy: "unique_key x = unique_key y" "ai_branch x = scope" "ai_branch y = scope"
    and st: "submissions empty_tables st" "unique_key x \<notin> unique_key ` set (at_rows st)"
    and ms: "mem_store.exact ms" "unique_key x \<notin> unique_key ` set (mg_inserted ms)"
  shows "(\<exists>ms' out. submit InMemoryBulkAttendanceGateway [x, y] scope bid ms = (ms', Inr out)
        \<and> bo_inserted out = 2 \<and> mg_inserted ms' = mg_inserted ms @ [x, y])
    \<and> snd (submit FrappeBulkAttendanceGateway [x, y] scope bid st) = Inl Unique_Violation"
proof
  let ?gw = "InMemoryBulkAttendanceGateway" and ?keys = "map idempotency_key [x, y]"
  let ?ms0 = "bg_seed_aggregate ?gw scope (dedup (map ai_event [x, y])) ms"
  have k: "idempotency_key i \<in> bg_filter_unseen ?gw ?keys ?ms0" if "i \<in> {x, y}" for i
  proof -
    have "unique_key i = unique_key x" using that xy(1) by auto
    then have u: "unique_key i \<notin> unique_key ` set (mg_inserted ms)" using ms(2) by simp
    note fresh_attendee_key [OF this]
    with u show ?thesis using that ms(1)
      by (auto simp: InMemoryBulkAttendanceGateway_def mem_filter_iff mem_store.exact_def mem_ok_def)
  qed
  then have f: "filter (\<lambda>i. idempotency_key i \<in> bg_filter_unseen ?gw ?keys ?ms0) [x, y] = [x, y]" by simp
  have w: "write_batch ?gw [x, y] scope bid ?ms0 =
      (let ms1 = fold mem_insert_item [x, y] ?ms0; by_event = event_counts [x, y]
       in Inr ((2, 0, map (\<lambda>(e, n). Bulk_Recorded e n bid scope) by_event),
            fold (\<lambda>(e, n). bg_increment_aggregate ?gw scope e n) by_event ms1))"
    unfolding write_batch_def Let_def f
    by (simp add: InMemoryBulkAttendanceGateway_def mem_bulk_insert_def)
  have inc: "mg_inserted (fold (\<lambda>(e, n). bg_increment_aggregate ?gw scope e n) ps z) = mg_inserted z" for ps z
    by (induction ps arbitrary: z) (auto simp: InMemoryBulkAttendanceGateway_def)
  have em: "mg_inserted (fold (bg_emit ?gw) evs z) = mg_inserted z" for evs z
    by (induction evs arbitrary: z) (auto simp: InMemoryBulkAttendanceGateway_def)
  have z: "mg_inserted (fold mem_insert_item [x, y] ?ms0) = mg_inserted ms @ [x, y]"
    by (simp add: mem_insert_all InMemoryBulkAttendanceGateway_def mem_insert_item_def)
  show "\<exists>ms' out. submit ?gw [x, y] scope bid ms = (ms', Inr out)
        \<and> bo_inserted out = 2 \<and> mg_inserted ms' = mg_inserted ms @ [x, y]"
    using xy w inc em z by (simp add: submit_def Let_def)
next
  let ?gw = "FrappeBulkAttendanceGateway" and ?keys = "map idempotency_key [x, y]"
  let ?st0 = "bg_seed_aggregate ?gw scope (dedup (map ai_event [x, y])) st"
  have r0: "at_rows ?st0 = at_rows st" by (simp add: FrappeBulkAttendanceGateway_def)
  have "idempotency_key i \<in> bg_filter_unseen ?gw ?keys ?st0" if "i \<in> {x, y}" for i
  proof -
    have "unique_key i = unique_key x" using that xy(1) by auto
    then have "unique_key i \<notin> unique_key ` set (at_rows st)" using st(2) by simp
    note fresh_attendee_key [OF this]
    then show ?thesis using that r0 by (auto simp: FrappeBulkAttendanceGateway_def db_filter_unseen_def)
  qed
  then have f: "filter (\<lambda>i. idempotency_key i \<in> bg_filter_unseen ?gw ?keys ?st0) [x, y] = [x, y]" by simp
  have "table_insert (at_rows st) [stored_item x, stored_item y] = Inl Unique_Violation"
    using xy(1) by (auto simp: rows_clash_def stored_item_keeps)
  then have "write_batch ?gw [x, y] scope bid ?st0 = Inl Unique_Violation"
    unfolding write_batch_def Let_def f
    using r0 by (simp add: FrappeBulkAttendanceGateway_def db_bulk_insert_def del: table_insert.simps)
  then show "snd (submit ?gw [x, y] scope bid st) = Inl Unique_Violation"
    using xy by (simp add: submit_def)
qed

lemma batch_with_repeated_attendee_witness:
  "snd (submit FrappeBulkAttendanceGateway [demo_item ''M1'' ''c1'', demo_item ''M1'' ''c2''] ''B'' ''b1'' empty_tables)
     = Inl Unique_Violation"
proof -
  have "mem_store.exact mem_empty"
    by (simp add: mem_store.exact_def mem_ok_def mem_empty_def counter_get_def stored_count_def)
  moreover have "unique_key (demo_item ''M1'' ''c1'') = unique_key (demo_item ''M1'' ''c2'')"
    "ai_branch (demo_item a c) = ''B''" for a c
    by (simp_all add: demo_item_def unique_key_def)
  ultimately show ?thesis
    using batch_with_repeated_attendee [of "demo_item ''M1'' ''c1''" "demo_item ''M1'' ''c2''" "''B''"
        empty_tables mem_empty "''b1''"] sub_start
    by (simp add: empty_tables_def mem_empty_def)
qed

end
