(* ===== verification/Engagement.thy ===== *)
theory Engagement
  imports Py_Values Status_Machine Reporting Permissions
begin

text \<open>
  Model of \<open>flock_os/engagement.py\<close>, the runtime of live engagement sessions: the catalog of
  kinds, the session lifecycle, signed tickets, the validators, the storage port with its
  in-memory adapter, and the service which opens and closes sessions, records participations
  and projects them into attendance.

  Times are seconds as rationals.  \<open>time.time()\<close> is an argument \<open>clk\<close>, read once per request.
  SHA-256 and HMAC-SHA-256 come from a library; they are the record \<open>crypto\<close> of two functions
  on strings, and no lemma assumes more of them than it names.  An operation which can raise
  after it has written returns the state beside the result.
\<close>

section \<open>Constants and kinds\<close>

definition DEFAULT_GRACE_SECONDS :: rat where "DEFAULT_GRACE_SECONDS = 30"
definition DEFAULT_TICKET_TTL_SECONDS :: rat where "DEFAULT_TICKET_TTL_SECONDS = 60 * 60"
definition DEFAULT_PARTICIPATION_THROTTLE_PER_SEC :: nat where
  "DEFAULT_PARTICIPATION_THROTTLE_PER_SEC = 5"
definition SUSPECT_REACTION_MS :: rat where "SUSPECT_REACTION_MS = 100"
definition SUSPECT_SAME_IP_ATTENDEES :: nat where "SUSPECT_SAME_IP_ATTENDEES = 8"
definition REVIEW_QUEUE_MAX :: int where "REVIEW_QUEUE_MAX = 200"
definition DEFAULT_ATTENDEE_ROLE :: string where "DEFAULT_ATTENDEE_ROLE = ''member''"
definition DEFAULT_ENGAGEMENT_SOURCE :: string where "DEFAULT_ENGAGEMENT_SOURCE = ''engagement''"
definition DEFAULT_ATTENDANCE_STATUS :: string where "DEFAULT_ATTENDANCE_STATUS = ''Present''"

definition GAME_KINDS :: "string list" where
  "GAME_KINDS = [''quiz_race'', ''tap_burst'', ''reaction'', ''bingo'', ''team_challenge'']"
definition QUESTIONNAIRE_KINDS :: "string list" where
  "QUESTIONNAIRE_KINDS = [''poll'', ''word_cloud'', ''qa'', ''pulse'']"
definition ALL_KINDS :: "string list" where "ALL_KINDS = GAME_KINDS @ QUESTIONNAIRE_KINDS"

definition ENGAGEMENT_TYPE_GAME :: string where "ENGAGEMENT_TYPE_GAME = ''game''"
definition ENGAGEMENT_TYPE_QUESTIONNAIRE :: string where
  "ENGAGEMENT_TYPE_QUESTIONNAIRE = ''questionnaire''"

datatype engagement_error =
    Unknown_Kind string
  | Session_Id_Required
  | Identity_Required
  | Secret_Required
  | Cannot_Join string
  | Not_Live docname string
  | Illegal_Session_Move string string
  | Unknown_Session docname
  | Unknown_Engagement_Session docname
  | Attendance_Write attendance_error
  | Engagement_Scope
  | Session_Reference_Required
  | No_Template_Kind
  | Not_A_Facilitator
  | Host_Branch_Required
  | Host_Target_Outside docname

definition engagement_type_for :: "string \<Rightarrow> engagement_error + string" where
  "engagement_type_for kind =
    (if kind \<in> set GAME_KINDS then Inr ENGAGEMENT_TYPE_GAME
     else if kind \<in> set QUESTIONNAIRE_KINDS then Inr ENGAGEMENT_TYPE_QUESTIONNAIRE
     else Inl (Unknown_Kind kind))"

definition validate_kind :: "string \<Rightarrow> engagement_error + unit" where
  "validate_kind kind = raise_if (kind \<notin> set ALL_KINDS) (Unknown_Kind kind)"

record engagement_kind =
  ek_kind :: string
  ek_family :: string
  ek_component :: string
  ek_scored :: bool
  ek_timed :: bool
  ek_calm_checkin :: bool
  ek_i18n_key :: string

definition ENGAGEMENT_CATALOG :: "engagement_kind list" where
  "ENGAGEMENT_CATALOG =
    [engagement_kind.make ''tap_burst'' ENGAGEMENT_TYPE_GAME ''TapBurst'' True True True ''Tap to Check In'',
     engagement_kind.make ''quiz_race'' ENGAGEMENT_TYPE_GAME ''QuizRace'' True True True ''Live Quiz Race'',
     engagement_kind.make ''reaction'' ENGAGEMENT_TYPE_GAME ''ReactionTap'' True True True ''Reaction Tap'',
     engagement_kind.make ''bingo'' ENGAGEMENT_TYPE_GAME ''BingoCard'' True False False ''Team Bingo'',
     engagement_kind.make ''team_challenge'' ENGAGEMENT_TYPE_GAME ''TeamChallenge'' True False False ''Team Challenge'',
     engagement_kind.make ''poll'' ENGAGEMENT_TYPE_QUESTIONNAIRE ''LivePoll'' False False False ''Live Poll'',
     engagement_kind.make ''word_cloud'' ENGAGEMENT_TYPE_QUESTIONNAIRE ''WordCloud'' False False False ''Word Cloud'',
     engagement_kind.make ''qa'' ENGAGEMENT_TYPE_QUESTIONNAIRE ''LiveQA'' False False False ''Live Q&A'',
     engagement_kind.make ''pulse'' ENGAGEMENT_TYPE_QUESTIONNAIRE ''PulseSurvey'' False False False ''Pulse Survey'']"

definition get_kind :: "string \<Rightarrow> engagement_kind option" where
  "get_kind kind = map_of (map (\<lambda>k. (ek_kind k, k)) ENGAGEMENT_CATALOG) kind"

definition kind_as_dict :: "engagement_kind \<Rightarrow> pydict" where
  "kind_as_dict k =
    [(''kind'', Py_Str (ek_kind k)), (''family'', Py_Str (ek_family k)),
     (''component'', Py_Str (ek_component k)), (''scored'', Py_Bool (ek_scored k)),
     (''timed'', Py_Bool (ek_timed k)), (''calm_checkin'', Py_Bool (ek_calm_checkin k)),
     (''i18n_key'', Py_Str (ek_i18n_key k))]"

definition catalog_json :: "pydict list" where
  "catalog_json = map kind_as_dict ENGAGEMENT_CATALOG"

definition valid_kinds :: "string list" where "valid_kinds = map ek_kind ENGAGEMENT_CATALOG"

definition CALM_CHECKIN_KINDS :: "string list" where
  "CALM_CHECKIN_KINDS = map ek_kind (filter ek_calm_checkin ENGAGEMENT_CATALOG)"

definition COMPONENT_BY_KIND :: "(string \<times> string) list" where
  "COMPONENT_BY_KIND =
    [(''tap_burst'', ''TapBurst''), (''quiz_race'', ''QuizRace''), (''reaction'', ''ReactionTap''),
     (''bingo'', ''BingoCard''), (''team_challenge'', ''TeamChallenge''), (''poll'', ''LivePoll''),
     (''word_cloud'', ''WordCloud''), (''qa'', ''LiveQA''), (''pulse'', ''PulseSurvey'')]"

section \<open>Session lifecycle\<close>

definition STATUS_DRAFT :: string where [status_defs]: "STATUS_DRAFT = ''draft''"
definition STATUS_SCHEDULED :: string where [status_defs]: "STATUS_SCHEDULED = ''scheduled''"
definition STATUS_OPEN :: string where [status_defs]: "STATUS_OPEN = ''open''"
definition STATUS_CLOSING :: string where [status_defs]: "STATUS_CLOSING = ''closing''"
definition STATUS_CLOSED :: string where [status_defs]: "STATUS_CLOSED = ''closed''"
definition STATUS_ARCHIVED :: string where [status_defs]: "STATUS_ARCHIVED = ''archived''"

definition LIVE_STATES :: "string list" where "LIVE_STATES = [STATUS_OPEN, STATUS_CLOSING]"

definition VALID_TRANSITIONS :: "(string \<times> string list) list" where
  "VALID_TRANSITIONS =
    [(STATUS_DRAFT, [STATUS_SCHEDULED, STATUS_OPEN]),
     (STATUS_SCHEDULED, [STATUS_DRAFT, STATUS_OPEN]),
     (STATUS_OPEN, [STATUS_CLOSING]),
     (STATUS_CLOSING, [STATUS_CLOSED]),
     (STATUS_CLOSED, [STATUS_ARCHIVED]),
     (STATUS_ARCHIVED, [])]"

text \<open>The stored status is a string; an empty one has no transitions.\<close>

definition validate_state_transition :: "string \<Rightarrow> string \<Rightarrow> engagement_error + unit" where
  "validate_state_transition from to =
    raise_if (to \<notin> set (if from \<noteq> [] then table_get VALID_TRANSITIONS from else []))
      (Illegal_Session_Move from to)"

record engagement_session =
  se_id :: docname
  se_gathering :: docname
  se_branch :: docname
  se_organization :: docname
  se_group :: "docname option"
  se_kind :: string
  se_status :: string
  se_open_at :: "rat option"
  se_close_at :: "rat option"
  se_facilitator :: "docname option"
  se_config :: pydict
  se_geofence :: "pydict option"

record event_anchors =
  ea_branch :: docname
  ea_organization :: docname
  ea_group :: "docname option"

definition session_scope :: "engagement_session \<Rightarrow> event_anchors" where
  "session_scope s = \<lparr>ea_branch = se_branch s, ea_organization = se_organization s,
     ea_group = (if truthy (se_group s) then se_group s else None)\<rparr>"

datatype engagement_event =
    Engagement_Opened docname docname string event_anchors
  | Engagement_Closed docname docname nat event_anchors

section \<open>Attendee keys and tickets\<close>

record crypto =
  cr_sha256 :: "string \<Rightarrow> string"
  cr_hmac :: "string \<Rightarrow> string \<Rightarrow> string"

definition attendee_key ::
  "crypto \<Rightarrow> docname \<Rightarrow> docname option \<Rightarrow> string \<Rightarrow> engagement_error + string" where
  "attendee_key cr session_id member_id device_fingerprint =
    (if session_id = [] then Inl Session_Id_Required
     else let identity = (if truthy member_id then the member_id else device_fingerprint)
     in if identity = [] then Inl Identity_Required
        else Inr (cr_sha256 cr (session_id @ ''|'' @ identity)))"

definition normalize_score :: "string \<Rightarrow> rat option \<Rightarrow> rat option" where
  "normalize_score kind raw = (case raw of
      None \<Rightarrow> None
    | Some r \<Rightarrow> if kind \<in> set QUESTIONNAIRE_KINDS then None else Some (max 0 (min 100 r)))"

record session_ticket =
  tk_session :: docname
  tk_attendee_key :: string
  tk_member :: "docname option"
  tk_device :: string
  tk_issued_at :: rat
  tk_expires_at :: rat
  tk_signature :: string

definition ticket_expired :: "rat \<Rightarrow> session_ticket \<Rightarrow> bool" where
  "ticket_expired clk t \<longleftrightarrow> clk \<ge> tk_expires_at t"

definition canonical_ticket_payload :: "docname \<Rightarrow> string \<Rightarrow> rat \<Rightarrow> rat \<Rightarrow> string" where
  "canonical_ticket_payload session_id key issued_at expires_at =
    session_id @ ''|'' @ key @ ''|'' @ fixed6 issued_at @ ''|'' @ fixed6 expires_at"

definition sign_ticket ::
  "crypto \<Rightarrow> docname \<Rightarrow> string \<Rightarrow> rat \<Rightarrow> rat \<Rightarrow> string \<Rightarrow> engagement_error + string" where
  "sign_ticket cr session_id key issued_at expires_at secret =
    (if secret = [] then Inl Secret_Required
     else Inr (cr_hmac cr secret (canonical_ticket_payload session_id key issued_at expires_at)))"

definition verify_ticket :: "crypto \<Rightarrow> rat \<Rightarrow> session_ticket \<Rightarrow> string \<Rightarrow> engagement_error + bool" where
  "verify_ticket cr clk t secret =
    res_bind (sign_ticket cr (tk_session t) (tk_attendee_key t) (tk_issued_at t) (tk_expires_at t) secret)
      (\<lambda>expected. if expected \<noteq> tk_signature t then Inr False else Inr (\<not> ticket_expired clk t))"

definition issue_session_ticket :: "crypto \<Rightarrow> engagement_session \<Rightarrow> docname option \<Rightarrow> string
    \<Rightarrow> string \<Rightarrow> rat \<Rightarrow> rat \<Rightarrow> engagement_error + session_ticket" where
  "issue_session_ticket cr session member_id device secret issued ttl =
    (if se_status session \<notin> set LIVE_STATES then Inl (Cannot_Join (se_status session))
     else let expires = issued + ttl in
       res_bind (attendee_key cr (se_id session) member_id device) (\<lambda>key.
       res_bind (sign_ticket cr (se_id session) key issued expires secret) (\<lambda>signature.
         Inr \<lparr>tk_session = se_id session, tk_attendee_key = key, tk_member = member_id,
              tk_device = device, tk_issued_at = issued, tk_expires_at = expires,
              tk_signature = signature\<rparr>)))"

section \<open>Validators\<close>

definition validate_session_window ::
  "engagement_session \<Rightarrow> rat \<Rightarrow> rat \<Rightarrow> bool \<times> string option" where
  "validate_session_window session submitted_at grace =
    (if (case se_open_at session of None \<Rightarrow> False | Some o' \<Rightarrow> submitted_at < o')
     then (False, Some ''before_open'')
     else if (case se_close_at session of None \<Rightarrow> False | Some c \<Rightarrow> submitted_at > c + grace)
     then (False, Some ''after_grace'')
     else (True, None))"

definition detect_suspect_pattern :: "rat option \<Rightarrow> nat \<Rightarrow> bool" where
  "detect_suspect_pattern reaction_ms same_ip_attendee_count \<longleftrightarrow>
    (case reaction_ms of None \<Rightarrow> False | Some r \<Rightarrow> 0 < r \<and> r < SUSPECT_REACTION_MS)
    \<or> same_ip_attendee_count \<ge> SUSPECT_SAME_IP_ATTENDEES"

record status_flags =
  sf_out_of_scope :: bool
  sf_out_of_scope_reason :: "string option"
  sf_suspect_pattern :: bool
  sf_offline_replay :: bool
  sf_facilitator_override :: bool

definition status_flags_for :: "bool \<Rightarrow> bool \<Rightarrow> bool \<Rightarrow> bool \<Rightarrow> string option \<Rightarrow> status_flags" where
  "status_flags_for in_window suspect offline_replay facilitator_override reason =
    \<lparr>sf_out_of_scope = (\<not> in_window), sf_out_of_scope_reason = reason,
     sf_suspect_pattern = suspect, sf_offline_replay = offline_replay,
     sf_facilitator_override = facilitator_override\<rparr>"

record participation =
  pt_session :: docname
  pt_attendee_key :: string
  pt_member :: "docname option"
  pt_display_name :: string
  pt_device :: string
  pt_role :: string
  pt_type :: string
  pt_kind :: string
  pt_score :: "rat option"
  pt_submitted_at :: rat
  pt_client_submitted_at :: "rat option"
  pt_branch :: docname
  pt_organization :: docname
  pt_group :: "docname option"
  pt_geo_region :: "string option"
  pt_nonce :: string
  pt_ip :: "string option"
  pt_gathering :: docname
  pt_flags :: status_flags
  pt_feedback :: pydict

definition suspect_review_reason :: "status_flags \<Rightarrow> string" where
  "suspect_review_reason f =
    (if sf_suspect_pattern f then ''Flagged by an anti-abuse heuristic (still counted until revoked).''
     else if sf_out_of_scope f then ''Submitted outside the session window (recorded, excluded from headcount).''
     else ''Flagged for facilitator review.'')"

record review_item =
  ri_attendee_key :: string
  ri_display_name :: string
  ri_flag :: string
  ri_reason :: string

record review_queue =
  rq_items :: "review_item list"
  rq_total :: nat
  rq_limit :: int
  rq_capped :: bool

definition review_row :: "participation \<Rightarrow> review_item" where
  "review_row p = \<lparr>ri_attendee_key = pt_attendee_key p,
     ri_display_name = (if pt_display_name p = [] then ''Anonymous'' else pt_display_name p),
     ri_flag = (if sf_suspect_pattern (pt_flags p) then ''suspect_pattern'' else ''out_of_scope''),
     ri_reason = suspect_review_reason (pt_flags p)\<rparr>"

text \<open>The loop of \<open>review_queue_items\<close> with its two accumulators.\<close>

fun review_loop :: "nat \<Rightarrow> participation list \<Rightarrow> review_item list \<Rightarrow> nat \<Rightarrow> review_item list \<times> nat" where
  "review_loop limit [] items n = (items, n)"
| "review_loop limit (p # ps) items n =
     (if \<not> (sf_suspect_pattern (pt_flags p) \<or> sf_out_of_scope (pt_flags p))
      then review_loop limit ps items n
      else review_loop limit ps (if length items < limit then items @ [review_row p] else items) (n + 1))"

definition review_queue_items :: "participation list \<Rightarrow> int \<Rightarrow> review_queue" where
  "review_queue_items ps limit =
    (let lim = (if limit < 0 then 0 else limit); (items, n) = review_loop (nat lim) ps [] 0
     in \<lparr>rq_items = items, rq_total = n, rq_limit = lim, rq_capped = (int n > lim)\<rparr>)"

section \<open>The port and the in-memory adapter\<close>

text \<open>A throttle request and a record request answer a truth value and change the store.\<close>

record 's engagement_gateway =
  gg_ticket_secret :: "docname \<Rightarrow> 's \<Rightarrow> string"
  gg_get_session :: "docname \<Rightarrow> 's \<Rightarrow> engagement_session option"
  gg_upsert_session :: "engagement_session \<Rightarrow> 's \<Rightarrow> 's"
  gg_set_session_status :: "docname \<Rightarrow> string \<Rightarrow> rat option \<Rightarrow> rat \<Rightarrow> 's \<Rightarrow> engagement_error + 's"
  gg_record_participation :: "participation \<Rightarrow> 's \<Rightarrow> bool \<times> 's"
  gg_has_attendee :: "docname \<Rightarrow> string \<Rightarrow> 's \<Rightarrow> bool"
  gg_attendees :: "docname \<Rightarrow> 's \<Rightarrow> string list"
  gg_participations :: "docname \<Rightarrow> 's \<Rightarrow> participation list"
  gg_throttle_allows :: "string \<Rightarrow> rat \<Rightarrow> nat \<Rightarrow> 's \<Rightarrow> bool \<times> 's"
  gg_same_ip_attendee_count :: "docname \<Rightarrow> string \<Rightarrow> 's \<Rightarrow> nat"
  gg_schedule_finalize_close :: "docname \<Rightarrow> rat \<Rightarrow> rat \<Rightarrow> 's \<Rightarrow> 's"

record mem_engagement =
  mm_secret :: string
  mm_sessions :: "(docname \<times> engagement_session) list"
  mm_participations :: "(docname \<times> participation list) list"
  mm_nonce_seen :: "(docname \<times> string \<times> string) set"
  mm_attendees :: "(docname \<times> string list) list"
  mm_throttle :: "(string \<times> rat list) list"
  mm_ip_attendees :: "((docname \<times> string) \<times> string set) list"
  mm_pending_finalizes :: "(docname \<times> rat) list"

definition mem_engagement_init :: "string \<Rightarrow> mem_engagement" where
  "mem_engagement_init secret = \<lparr>mm_secret = secret, mm_sessions = [], mm_participations = [],
     mm_nonce_seen = {}, mm_attendees = [], mm_throttle = [], mm_ip_attendees = [],
     mm_pending_finalizes = []\<rparr>"

definition mem_set_session_status ::
  "docname \<Rightarrow> string \<Rightarrow> rat option \<Rightarrow> rat \<Rightarrow> mem_engagement \<Rightarrow> engagement_error + mem_engagement" where
  "mem_set_session_status sid status now clk st =
    (case map_of (mm_sessions st) sid of
       None \<Rightarrow> Inl (Unknown_Session sid)
     | Some session \<Rightarrow>
         let ts = (case now of None \<Rightarrow> clk | Some t \<Rightarrow> t);
             open_at = (if status = STATUS_OPEN \<and> se_open_at session = None then Some ts
                        else se_open_at session);
             close_at = (if status \<in> {STATUS_CLOSING, STATUS_CLOSED} \<and> se_close_at session = None
                         then Some ts else se_close_at session)
         in Inr (st \<lparr>mm_sessions := AList.update sid
              (session \<lparr>se_status := status, se_open_at := open_at, se_close_at := close_at\<rparr>)
              (mm_sessions st)\<rparr>))"

text \<open>\<open>setdefault(session, {})[attendee_key] = None\<close>: an ordered set.\<close>

definition mem_credit :: "participation \<Rightarrow> mem_engagement \<Rightarrow> mem_engagement" where
  "mem_credit p st =
    (let old = dict_or [] (mm_attendees st) (pt_session p)
     in st \<lparr>mm_attendees := AList.update (pt_session p)
          (if pt_attendee_key p \<in> set old then old else old @ [pt_attendee_key p]) (mm_attendees st)\<rparr>)"

definition mem_note_ip :: "participation \<Rightarrow> mem_engagement \<Rightarrow> mem_engagement" where
  "mem_note_ip p st =
    (let k = (pt_session p, the (pt_ip p))
     in st \<lparr>mm_ip_attendees := AList.update k
          (insert (pt_attendee_key p) (dict_or {} (mm_ip_attendees st) k)) (mm_ip_attendees st)\<rparr>)"

definition mem_record_participation :: "participation \<Rightarrow> mem_engagement \<Rightarrow> bool \<times> mem_engagement" where
  "mem_record_participation p st =
    (let nonce_key = (pt_session p, pt_attendee_key p, pt_nonce p)
     in if nonce_key \<in> mm_nonce_seen st then (False, st)
        else let st1 = st \<lparr>mm_nonce_seen := insert nonce_key (mm_nonce_seen st),
                          mm_participations := dict_push (pt_session p) p (mm_participations st)\<rparr>;
                 st2 = (if sf_out_of_scope (pt_flags p) then st1 else mem_credit p st1);
                 st3 = (if truthy (pt_ip p) then mem_note_ip p st2 else st2)
             in (True, st3))"

definition mem_throttle_allows :: "string \<Rightarrow> rat \<Rightarrow> nat \<Rightarrow> mem_engagement \<Rightarrow> bool \<times> mem_engagement" where
  "mem_throttle_allows key now max_per_second st =
    (let bucket = filter (\<lambda>ts. ts \<ge> now - 1) (dict_or [] (mm_throttle st) key)
     in if length bucket \<ge> max_per_second
        then (False, st \<lparr>mm_throttle := AList.update key bucket (mm_throttle st)\<rparr>)
        else (True, st \<lparr>mm_throttle := AList.update key (bucket @ [now]) (mm_throttle st)\<rparr>))"

definition InMemoryEngagementGateway :: "mem_engagement engagement_gateway" where
  "InMemoryEngagementGateway =
    \<lparr>gg_ticket_secret = (\<lambda>_ st. mm_secret st),
     gg_get_session = (\<lambda>sid st. map_of (mm_sessions st) sid),
     gg_upsert_session = (\<lambda>s st. st \<lparr>mm_sessions := AList.update (se_id s) s (mm_sessions st)\<rparr>),
     gg_set_session_status = mem_set_session_status,
     gg_record_participation = mem_record_participation,
     gg_has_attendee = (\<lambda>sid k st. k \<in> set (dict_or [] (mm_attendees st) sid)),
     gg_attendees = (\<lambda>sid st. dict_or [] (mm_attendees st) sid),
     gg_participations = (\<lambda>sid st. dict_or [] (mm_participations st) sid),
     gg_throttle_allows = mem_throttle_allows,
     gg_same_ip_attendee_count = (\<lambda>sid ip st. card (dict_or {} (mm_ip_attendees st) (sid, ip))),
     gg_schedule_finalize_close = (\<lambda>sid grace _ st.
       st \<lparr>mm_pending_finalizes := mm_pending_finalizes st @ [(sid, grace)]\<rparr>)\<rparr>"

section \<open>The service\<close>

record ('s, 'b) engagement_service =
  sx_gateway :: "'s engagement_gateway"
  sx_bulk :: "'b bulk_gateway"
  sx_grace :: rat
  sx_throttle :: nat
  sx_crypto :: crypto

record ('s, 'b) engagement_world =
  ew_store :: 's
  ew_bulk :: 'b
  ew_events :: "engagement_event list"

record close_outcome =
  co_session :: docname
  co_gathering :: docname
  co_attendee_count :: nat
  co_inserted :: nat
  co_deduplicated :: nat
  co_finalized :: bool

record participate_request =
  pq_session :: docname
  pq_ticket :: session_ticket
  pq_attendee_key :: string
  pq_member :: "docname option"
  pq_display_name :: string
  pq_device :: string
  pq_nonce :: string
  pq_role :: "string option"
  pq_score :: "rat option"
  pq_reaction_ms :: "rat option"
  pq_submitted_at :: "rat option"
  pq_client_submitted_at :: "rat option"
  pq_ip :: "string option"
  pq_geo_region :: "string option"
  pq_offline_replay :: bool
  pq_feedback :: pydict

record participation_receipt =
  pc_accepted :: bool
  pc_attendee_key :: string
  pc_reason :: "string option"
  pc_submitted_at :: "rat option"
  pc_flags :: "status_flags option"

definition require_session ::
  "'s engagement_gateway \<Rightarrow> docname \<Rightarrow> 's \<Rightarrow> engagement_error + engagement_session" where
  "require_session gw sid st = (case gg_get_session gw sid st of
      None \<Rightarrow> Inl (Unknown_Engagement_Session sid)
    | Some session \<Rightarrow> Inr session)"

definition create_session ::
  "'s engagement_gateway \<Rightarrow> engagement_session \<Rightarrow> 's \<Rightarrow> engagement_error + engagement_session \<times> 's" where
  "create_session gw session st =
    res_bind (validate_kind (se_kind session)) (\<lambda>_. Inr (session, gg_upsert_session gw session st))"

definition open_session :: "('s, 'b) engagement_service \<Rightarrow> docname \<Rightarrow> rat option \<Rightarrow> rat
    \<Rightarrow> ('s, 'b) engagement_world \<Rightarrow> engagement_error + engagement_session \<times> ('s, 'b) engagement_world" where
  "open_session sx sid now clk w =
    (let gw = sx_gateway sx in
     res_bind (require_session gw sid (ew_store w)) (\<lambda>session.
     res_bind (validate_state_transition (se_status session) STATUS_OPEN) (\<lambda>_.
     res_bind (gg_set_session_status gw sid STATUS_OPEN now clk (ew_store w)) (\<lambda>st.
     res_bind (require_session gw sid st) (\<lambda>opened.
       Inr (opened, w \<lparr>ew_store := st, ew_events := ew_events w @
         [Engagement_Opened (se_id opened) (se_gathering opened) (se_kind opened) (session_scope opened)]\<rparr>))))))"

text \<open>\<open>_in_window_attendees\<close>: the first in-window participation of each key, in log order.\<close>

definition in_window_attendees :: "participation list \<Rightarrow> participation list" where
  "in_window_attendees ps =
    dedup_on pt_attendee_key {} (filter (\<lambda>p. \<not> sf_out_of_scope (pt_flags p)) ps)"

definition preview_outcome ::
  "'s engagement_gateway \<Rightarrow> engagement_session \<Rightarrow> 's \<Rightarrow> close_outcome" where
  "preview_outcome gw session st =
    \<lparr>co_session = se_id session, co_gathering = se_gathering session,
     co_attendee_count = length (in_window_attendees (gg_participations gw (se_id session) st)),
     co_inserted = 0, co_deduplicated = 0, co_finalized = (se_status session = STATUS_CLOSED)\<rparr>"

definition close_session :: "('s, 'b) engagement_service \<Rightarrow> docname \<Rightarrow> rat option \<Rightarrow> rat
    \<Rightarrow> ('s, 'b) engagement_world \<Rightarrow> engagement_error + close_outcome \<times> ('s, 'b) engagement_world" where
  "close_session sx sid now clk w =
    (let gw = sx_gateway sx in
     res_bind (require_session gw sid (ew_store w)) (\<lambda>session.
     res_bind (validate_state_transition (se_status session) STATUS_CLOSING) (\<lambda>_.
     res_bind (gg_set_session_status gw sid STATUS_CLOSING now clk (ew_store w)) (\<lambda>st.
     res_bind (require_session gw sid st) (\<lambda>closing.
       let st1 = gg_schedule_finalize_close gw sid (sx_grace sx) clk st
       in Inr (preview_outcome gw closing st1, w \<lparr>ew_store := st1\<rparr>))))))"

definition participation_to_attendance_item :: "participation \<Rightarrow> attendance_item" where
  "participation_to_attendance_item p =
    \<lparr>ai_event = pt_gathering p,
     ai_attendee_ref = (if truthy (pt_member p) then the (pt_member p) else pt_attendee_key p),
     ai_branch = pt_branch p, ai_status = DEFAULT_ATTENDANCE_STATUS,
     ai_source = DEFAULT_ENGAGEMENT_SOURCE, ai_client_req_id = Some (pt_attendee_key p),
     ai_gathering = Some (pt_gathering p), ai_member = pt_member p,
     ai_session = Some (pt_session p), ai_attendee_key = Some (pt_attendee_key p)\<rparr>"

definition project_and_record_attendance :: "('s, 'b) engagement_service \<Rightarrow> engagement_session
    \<Rightarrow> ('s, 'b) engagement_world \<Rightarrow> ('s, 'b) engagement_world \<times> (engagement_error + close_outcome)" where
  "project_and_record_attendance sx session w =
    (let ps = gg_participations (sx_gateway sx) (se_id session) (ew_store w);
         items = map participation_to_attendance_item (in_window_attendees ps);
         (b, r) = submit (sx_bulk sx) items (se_branch session) (''engagement:'' @ se_id session) (ew_bulk w);
         w1 = w \<lparr>ew_bulk := b\<rparr>
     in case r of
          Inl e \<Rightarrow> (w1, Inl (Attendance_Write e))
        | Inr out \<Rightarrow> (w1, Inr \<lparr>co_session = se_id session, co_gathering = se_gathering session,
            co_attendee_count = length items, co_inserted = bo_inserted out,
            co_deduplicated = bo_deduplicated out, co_finalized = True\<rparr>))"

definition finalize_close :: "('s, 'b) engagement_service \<Rightarrow> docname \<Rightarrow> rat
    \<Rightarrow> ('s, 'b) engagement_world \<Rightarrow> ('s, 'b) engagement_world \<times> (engagement_error + close_outcome)" where
  "finalize_close sx sid clk w =
    (let gw = sx_gateway sx in
     case require_session gw sid (ew_store w) of Inl e \<Rightarrow> (w, Inl e)
     | Inr session \<Rightarrow>
       if se_status session = STATUS_CLOSED then (w, Inr (preview_outcome gw session (ew_store w)))
       else case validate_state_transition (se_status session) STATUS_CLOSED of Inl e \<Rightarrow> (w, Inl e)
       | Inr _ \<Rightarrow>
         case gg_set_session_status gw sid STATUS_CLOSED None clk (ew_store w) of Inl e \<Rightarrow> (w, Inl e)
         | Inr st \<Rightarrow>
           let w1 = w \<lparr>ew_store := st\<rparr> in
           case require_session gw sid st of Inl e \<Rightarrow> (w1, Inl e)
           | Inr final \<Rightarrow>
             case project_and_record_attendance sx final w1 of
               (w2, Inl e) \<Rightarrow> (w2, Inl e)
             | (w2, Inr out) \<Rightarrow>
                 (w2 \<lparr>ew_events := ew_events w2 @ [Engagement_Closed (se_id final) (se_gathering final)
                    (co_attendee_count out) (session_scope final)]\<rparr>, Inr out))"

definition join :: "('s, 'b) engagement_service \<Rightarrow> docname \<Rightarrow> docname option \<Rightarrow> string \<Rightarrow> rat
    \<Rightarrow> 's \<Rightarrow> engagement_error + session_ticket" where
  "join sx sid member_id device clk st =
    res_bind (require_session (sx_gateway sx) sid st) (\<lambda>session.
      if se_status session \<notin> set LIVE_STATES then Inl (Not_Live sid (se_status session))
      else issue_session_ticket (sx_crypto sx) session member_id device
        (gg_ticket_secret (sx_gateway sx) (se_organization session) st) clk DEFAULT_TICKET_TTL_SECONDS)"

definition refusal :: "participate_request \<Rightarrow> string \<Rightarrow> participation_receipt" where
  "refusal rq reason = \<lparr>pc_accepted = False, pc_attendee_key = pq_attendee_key rq,
     pc_reason = Some reason, pc_submitted_at = None, pc_flags = None\<rparr>"

definition request_time :: "rat \<Rightarrow> participate_request \<Rightarrow> rat" where
  "request_time clk rq = (case pq_submitted_at rq of None \<Rightarrow> clk | Some t \<Rightarrow> t)"

definition request_throttle_key :: "participate_request \<Rightarrow> string" where
  "request_throttle_key rq = pq_attendee_key rq @ '':'' @ pq_device rq"

definition request_participation :: "engagement_session \<Rightarrow> participate_request \<Rightarrow> rat \<Rightarrow> status_flags
    \<Rightarrow> string \<Rightarrow> participation" where
  "request_participation session rq submitted_at flags engagement_type =
    \<lparr>pt_session = se_id session, pt_attendee_key = pq_attendee_key rq, pt_member = pq_member rq,
     pt_display_name = pq_display_name rq, pt_device = pq_device rq,
     pt_role = (if truthy (pq_role rq) then the (pq_role rq) else DEFAULT_ATTENDEE_ROLE),
     pt_type = engagement_type, pt_kind = se_kind session,
     pt_score = normalize_score (se_kind session) (pq_score rq), pt_submitted_at = submitted_at,
     pt_client_submitted_at = pq_client_submitted_at rq, pt_branch = se_branch session,
     pt_organization = se_organization session, pt_group = se_group session,
     pt_geo_region = pq_geo_region rq, pt_nonce = pq_nonce rq, pt_ip = pq_ip rq,
     pt_gathering = se_gathering session, pt_flags = flags, pt_feedback = pq_feedback rq\<rparr>"

text \<open>The first three checks of \<open>participate\<close>, which write nothing: \<open>Inr (Inl _)\<close> is a refusal,
  \<open>Inr (Inr _)\<close> the session to record in.\<close>

definition participate_gate :: "('s, 'b) engagement_service \<Rightarrow> participate_request \<Rightarrow> rat \<Rightarrow> 's
    \<Rightarrow> engagement_error + participation_receipt + engagement_session" where
  "participate_gate sx rq clk st =
    res_bind (require_session (sx_gateway sx) (pq_session rq) st) (\<lambda>session.
      if se_status session \<notin> set LIVE_STATES then Inr (Inl (refusal rq ''session_not_live''))
      else res_bind (verify_ticket (sx_crypto sx) clk (pq_ticket rq)
             (gg_ticket_secret (sx_gateway sx) (se_organization session) st)) (\<lambda>valid.
        if \<not> valid then Inr (Inl (refusal rq ''invalid_ticket''))
        else if tk_attendee_key (pq_ticket rq) \<noteq> pq_attendee_key rq
        then Inr (Inl (refusal rq ''attendee_key_mismatch''))
        else Inr (Inr session)))"

definition participate :: "('s, 'b) engagement_service \<Rightarrow> participate_request \<Rightarrow> rat \<Rightarrow> 's
    \<Rightarrow> 's \<times> (engagement_error + participation_receipt)" where
  "participate sx rq clk st =
    (let gw = sx_gateway sx in
     case participate_gate sx rq clk st of
       Inl e \<Rightarrow> (st, Inl e)
     | Inr (Inl receipt) \<Rightarrow> (st, Inr receipt)
     | Inr (Inr session) \<Rightarrow>
       let submitted_at = request_time clk rq;
           (in_window, reason) = validate_session_window session submitted_at (sx_grace sx);
           (allowed, st1) = gg_throttle_allows gw (request_throttle_key rq) submitted_at (sx_throttle sx) st
       in if \<not> allowed then (st1, Inr (refusal rq ''throttled''))
          else let same_ip = (if truthy (pq_ip rq)
                     then gg_same_ip_attendee_count gw (se_id session) (the (pq_ip rq)) st1 else 0);
                   flags = status_flags_for in_window (detect_suspect_pattern (pq_reaction_ms rq) same_ip)
                     (pq_offline_replay rq) False reason
          in case engagement_type_for (se_kind session) of
               Inl e \<Rightarrow> (st1, Inl e)
             | Inr engagement_type \<Rightarrow>
                 let (recorded, st2) = gg_record_participation gw
                       (request_participation session rq submitted_at flags engagement_type) st1
                 in (st2, Inr \<lparr>pc_accepted = recorded, pc_attendee_key = pq_attendee_key rq,
                      pc_reason = (if recorded then None else Some ''duplicate_nonce''),
                      pc_submitted_at = Some submitted_at, pc_flags = Some flags\<rparr>))"

text \<open>\<open>bulk_participate\<close>: a raised error abandons the rest of the list, with what was written kept.\<close>

fun bulk_participate :: "('s, 'b) engagement_service \<Rightarrow> participate_request list \<Rightarrow> rat \<Rightarrow> 's
    \<Rightarrow> 's \<times> (engagement_error + participation_receipt list)" where
  "bulk_participate sx [] clk st = (st, Inr [])"
| "bulk_participate sx (rq # rqs) clk st =
     (case participate sx rq clk st of
        (st1, Inl e) \<Rightarrow> (st1, Inl e)
      | (st1, Inr receipt) \<Rightarrow>
          (case bulk_participate sx rqs clk st1 of
             (st2, Inl e) \<Rightarrow> (st2, Inl e)
           | (st2, Inr receipts) \<Rightarrow> (st2, Inr (receipt # receipts))))"

end
