(* ===== verification/Engagement_Store.thy ===== *)
theory Engagement_Store
  imports Engagement
begin

text \<open>
  The contract between the engagement service and its storage port, the lemmas about the service
  which need no more than the contract, and its first instance, the in-memory adapter.

  A store keeps sessions and one log of participations per session.  It records a participation
  exactly when the log has no row of the same attendee key and nonce, and its list of attendees
  is read off the log.
\<close>

section \<open>Logs\<close>

definition row_key :: "participation \<Rightarrow> string \<times> string" where
  "row_key p = (pt_attendee_key p, pt_nonce p)"

definition credited :: "participation list \<Rightarrow> string set" where
  "credited ps = pt_attendee_key ` set (filter (\<lambda>p. \<not> sf_out_of_scope (pt_flags p)) ps)"

lemma in_window_keys [simp]: "pt_attendee_key ` set (in_window_attendees ps) = credited ps"
  by (simp add: in_window_attendees_def credited_def dedup_on_keys)

lemma in_window_distinct [simp]: "distinct (map pt_attendee_key (in_window_attendees ps))"
  by (simp add: in_window_attendees_def)

lemma in_window_subset: "set (in_window_attendees ps) \<subseteq> set ps"
  using dedup_on_subset [of pt_attendee_key "{}"] by (fastforce simp: in_window_attendees_def)

lemma in_window_in_scope: "p \<in> set (in_window_attendees ps) \<Longrightarrow> \<not> sf_out_of_scope (pt_flags p)"
  using dedup_on_subset [of pt_attendee_key "{}"] by (fastforce simp: in_window_attendees_def)

lemma length_in_window: "length (in_window_attendees ps) = card (credited ps)"
  using distinct_card [OF in_window_distinct, of ps] by simp

lemma credited_insert:
  "credited (xs @ p # ys) =
     (if sf_out_of_scope (pt_flags p) then credited (xs @ ys) else insert (pt_attendee_key p) (credited (xs @ ys)))"
  by (auto simp: credited_def)

definition same_session :: "engagement_session \<Rightarrow> engagement_session \<Rightarrow> bool" where
  "same_session s s' \<longleftrightarrow> se_id s' = se_id s \<and> se_gathering s' = se_gathering s \<and> se_branch s' = se_branch s
     \<and> se_organization s' = se_organization s \<and> se_group s' = se_group s \<and> se_kind s' = se_kind s"

lemma same_session_refl [simp]: "same_session s s" by (simp add: same_session_def)

lemma same_session_trans [trans]: "same_session a b \<Longrightarrow> same_session b c \<Longrightarrow> same_session a c"
  by (simp add: same_session_def)

text \<open>What the attendee keys of the service look like: a non-empty digest without a bar.\<close>

definition digest_key :: "string \<Rightarrow> bool" where
  "digest_key k \<longleftrightarrow> k \<noteq> [] \<and> CHR ''|'' \<notin> set k"

section \<open>The contract\<close>

locale participation_store =
  fixes gw :: "'s engagement_gateway"
    and ok :: "'s \<Rightarrow> bool"
    and storable :: "participation \<Rightarrow> bool"
  assumes session_id: "ok st \<Longrightarrow> gg_get_session gw sid st = Some s \<Longrightarrow> se_id s = sid"
    and recording: "ok st \<Longrightarrow> storable p \<Longrightarrow> gg_record_participation gw p st = (b, st') \<Longrightarrow>
      ok st' \<and> (\<forall>sid. gg_get_session gw sid st' = gg_get_session gw sid st)
      \<and> (b \<longleftrightarrow> row_key p \<notin> row_key ` set (gg_participations gw (pt_session p) st))
      \<and> (\<forall>sid. sid \<noteq> pt_session p \<longrightarrow> gg_participations gw sid st' = gg_participations gw sid st)
      \<and> (if b then \<exists>xs ys. gg_participations gw (pt_session p) st = xs @ ys
                 \<and> gg_participations gw (pt_session p) st' = xs @ p # ys
         else gg_participations gw (pt_session p) st' = gg_participations gw (pt_session p) st)"
    and throttle: "ok st \<Longrightarrow> gg_throttle_allows gw k now n st = (b, st') \<Longrightarrow>
      ok st' \<and> (\<forall>sid. gg_get_session gw sid st' = gg_get_session gw sid st)
      \<and> (\<forall>sid. gg_participations gw sid st' = gg_participations gw sid st)"
    and status: "ok st \<Longrightarrow> gg_get_session gw sid st = Some s \<Longrightarrow>
      \<exists>st' s'. gg_set_session_status gw sid t stamp clk st = Inr st' \<and> ok st'
      \<and> gg_get_session gw sid st' = Some s' \<and> same_session s s' \<and> se_status s' = t
      \<and> (\<forall>sid'. sid' \<noteq> sid \<longrightarrow> gg_get_session gw sid' st' = gg_get_session gw sid' st)
      \<and> (\<forall>sid'. gg_participations gw sid' st' = gg_participations gw sid' st)"
    and schedule: "ok st \<Longrightarrow> ok (gg_schedule_finalize_close gw sid grace clk st)
      \<and> (\<forall>sid'. gg_get_session gw sid' (gg_schedule_finalize_close gw sid grace clk st) = gg_get_session gw sid' st)
      \<and> (\<forall>sid'. gg_participations gw sid' (gg_schedule_finalize_close gw sid grace clk st)
            = gg_participations gw sid' st)"
    and upserting: "ok st \<Longrightarrow> gg_get_session gw (se_id s) st = None \<Longrightarrow> ok (gg_upsert_session gw s st)
      \<and> (\<forall>sid. gg_participations gw sid (gg_upsert_session gw s st) = gg_participations gw sid st)
      \<and> (\<forall>sid. gg_get_session gw sid (gg_upsert_session gw s st) = gg_get_session gw sid st
            \<or> sid = se_id s \<and> gg_get_session gw sid (gg_upsert_session gw s st) = Some s)"
    and storable_request: "digest_key (pq_attendee_key rq) \<Longrightarrow> engagement_type_for (se_kind s) = Inr ty \<Longrightarrow>
      storable (request_participation s rq now flags ty)"
    and attendees: "ok st \<Longrightarrow> gg_attendees gw sid st =
      map pt_attendee_key (in_window_attendees (gg_participations gw sid st))"
begin

abbreviation log_of :: "docname \<Rightarrow> 's \<Rightarrow> participation list" where
  "log_of \<equiv> gg_participations gw"

abbreviation session_of :: "docname \<Rightarrow> 's \<Rightarrow> engagement_session option" where
  "session_of \<equiv> gg_get_session gw"

lemma headcount: "ok st \<Longrightarrow> length (gg_attendees gw sid st) = card (credited (log_of sid st))"
  by (simp add: attendees length_in_window)

text \<open>What one call of \<open>participate\<close> does to the store: nothing, or one new row of the session.\<close>

lemma participate_effect:
  assumes ok: "ok st" and gw: "sx_gateway sx = gw"
    and key: "digest_key (pq_attendee_key rq)"
    and run: "participate sx rq clk st = (st', r)"
  shows "ok st' \<and> (\<forall>sid. session_of sid st' = session_of sid st)
    \<and> (\<forall>sid. sid \<noteq> pq_session rq \<longrightarrow> log_of sid st' = log_of sid st)
    \<and> ((\<exists>out. r = Inr out \<and> pc_accepted out) \<and>
         (\<exists>s flags ty xs ys. session_of (pq_session rq) st = Some s \<and> se_status s \<in> set LIVE_STATES
           \<and> engagement_type_for (se_kind s) = Inr ty
           \<and> sf_out_of_scope flags = (\<not> fst (validate_session_window s (request_time clk rq) (sx_grace sx)))
           \<and> (pq_attendee_key rq, pq_nonce rq) \<notin> row_key ` set (xs @ ys)
           \<and> log_of (pq_session rq) st = xs @ ys
           \<and> log_of (pq_session rq) st' = xs @ request_participation s rq (request_time clk rq) flags ty # ys)
       \<or> \<not> (\<exists>out. r = Inr out \<and> pc_accepted out) \<and> log_of (pq_session rq) st' = log_of (pq_session rq) st)"
proof (cases "participate_gate sx rq clk st")
  case (Inl e)
  then show ?thesis using run ok by (auto simp: participate_def)
next
  case (Inr g)
  show ?thesis
  proof (cases g)
    case (Inl receipt)
    then have "\<not> pc_accepted receipt"
      using Inr by (auto simp: participate_gate_def res_bind_Inr_iff refusal_def split: if_splits)
    then show ?thesis using run ok Inr Inl by (auto simp: participate_def)
  next
    case (Inr s)
    note gate = \<open>participate_gate sx rq clk st = Inr g\<close> [unfolded Inr]
    then have s: "session_of (pq_session rq) st = Some s" "se_status s \<in> set LIVE_STATES"
      by (auto simp: participate_gate_def res_bind_Inr_iff require_session_def gw
          split: if_splits option.splits)
    have sid: "se_id s = pq_session rq" using session_id [OF ok s(1)] .
    let ?t = "request_time clk rq"
    obtain w reason where w: "validate_session_window s ?t (sx_grace sx) = (w, reason)"
      by (cases "validate_session_window s ?t (sx_grace sx)")
    obtain a st1 where a: "gg_throttle_allows gw (request_throttle_key rq) ?t (sx_throttle sx) st = (a, st1)"
      by (cases "gg_throttle_allows gw (request_throttle_key rq) ?t (sx_throttle sx) st")
    note th = throttle [OF ok a]
    show ?thesis
    proof (cases "a \<and> (\<exists>ty. engagement_type_for (se_kind s) = Inr ty)")
      case False
      then have "st' = st1 \<and> \<not> (\<exists>out. r = Inr out \<and> pc_accepted out)"
        using run gate w a
        by (cases "engagement_type_for (se_kind s)") (auto simp: participate_def Let_def refusal_def gw split: if_splits)
      then show ?thesis using th by auto
    next
      case True
      then obtain ty where ty: "engagement_type_for (se_kind s) = Inr ty" "a" by auto
      define flags where "flags = status_flags_for w (detect_suspect_pattern (pq_reaction_ms rq)
          (if truthy (pq_ip rq) then gg_same_ip_attendee_count gw (se_id s) (the (pq_ip rq)) st1 else 0))
          (pq_offline_replay rq) False reason"
      have flags: "sf_out_of_scope flags = (\<not> w)" by (simp add: flags_def status_flags_for_def)
      have rec: "participate sx rq clk st = (let (recorded, st2) = gg_record_participation gw
            (request_participation s rq ?t flags ty) st1
          in (st2, Inr \<lparr>pc_accepted = recorded, pc_attendee_key = pq_attendee_key rq,
             pc_reason = (if recorded then None else Some ''duplicate_nonce''),
             pc_submitted_at = Some ?t, pc_flags = Some flags\<rparr>))"
        using gate w a ty by (simp add: participate_def Let_def gw flags_def)
      let ?p = "request_participation s rq ?t flags ty"
      have p: "pt_session ?p = pq_session rq" "row_key ?p = (pq_attendee_key rq, pq_nonce rq)"
        by (simp_all add: request_participation_def sid row_key_def)
      obtain b st2 where b: "gg_record_participation gw ?p st1 = (b, st2)"
        by (cases "gg_record_participation gw ?p st1")
      note rec' = recording [OF _ storable_request [OF key ty(1)] b, unfolded p]
      have r: "st' = st2" "(\<exists>out. r = Inr out \<and> pc_accepted out) \<longleftrightarrow> b" using run rec b by auto
      show ?thesis
      proof (cases b)
        case True
        then obtain xs ys where "log_of (pq_session rq) st = xs @ ys"
          "log_of (pq_session rq) st' = xs @ ?p # ys" "row_key ?p \<notin> row_key ` set (xs @ ys)"
          using rec' th r p by auto
        then show ?thesis using rec' th r True s ty w flags p by (metis fst_conv)
      qed (use rec' th r in auto)
    qed
  qed
qed

end

section \<open>The in-memory adapter keeps the contract\<close>

definition mem_engagement_ok :: "mem_engagement \<Rightarrow> bool" where
  "mem_engagement_ok st \<longleftrightarrow>
     (\<forall>sid s. map_of (mm_sessions st) sid = Some s \<longrightarrow> se_id s = sid)
     \<and> (\<forall>sid k n. (sid, k, n) \<in> mm_nonce_seen st \<longleftrightarrow> (k, n) \<in> row_key ` set (dict_or [] (mm_participations st) sid))
     \<and> (\<forall>sid. dict_or [] (mm_attendees st) sid =
          map pt_attendee_key (in_window_attendees (dict_or [] (mm_participations st) sid)))"

lemma in_window_snoc:
  "map pt_attendee_key (in_window_attendees (ps @ [p])) =
     (let old = map pt_attendee_key (in_window_attendees ps)
      in if sf_out_of_scope (pt_flags p) \<or> pt_attendee_key p \<in> set old then old else old @ [pt_attendee_key p])"
proof -
  have "pt_attendee_key ` set (filter (\<lambda>p. \<not> sf_out_of_scope (pt_flags p)) ps) = credited ps"
    by (simp add: credited_def)
  then show ?thesis
    by (auto simp: in_window_attendees_def dedup_on_append Let_def dedup_on_keys)
qed

lemma mem_record_ok:
  assumes ok: "mem_engagement_ok st" and r: "mem_record_participation p st = (b, st')"
  shows "mem_engagement_ok st' \<and> mm_sessions st' = mm_sessions st
    \<and> (b \<longleftrightarrow> row_key p \<notin> row_key ` set (dict_or [] (mm_participations st) (pt_session p)))
    \<and> (if b then mm_participations st' = dict_push (pt_session p) p (mm_participations st) else st' = st)"
proof (cases "(pt_session p, pt_attendee_key p, pt_nonce p) \<in> mm_nonce_seen st")
  case True
  then show ?thesis using ok r
    by (auto simp: mem_record_participation_def mem_engagement_ok_def row_key_def Let_def)
next
  case False
  have key: "row_key p = (pt_attendee_key p, pt_nonce p)" by (simp add: row_key_def)
  let ?old = "dict_or [] (mm_attendees st) (pt_session p)"
  have st': "b" "mm_sessions st' = mm_sessions st"
    "mm_participations st' = dict_push (pt_session p) p (mm_participations st)"
    "mm_nonce_seen st' = insert (pt_session p, pt_attendee_key p, pt_nonce p) (mm_nonce_seen st)"
    "dict_or [] (mm_attendees st') sid = (if sid = pt_session p then
        if sf_out_of_scope (pt_flags p) \<or> pt_attendee_key p \<in> set ?old then ?old else ?old @ [pt_attendee_key p]
      else dict_or [] (mm_attendees st) sid)" for sid
    using False r by (auto simp: mem_record_participation_def mem_credit_def mem_note_ip_def Let_def split: if_splits)
  have old: "?old = map pt_attendee_key (in_window_attendees (dict_or [] (mm_participations st) (pt_session p)))"
    using ok by (simp add: mem_engagement_ok_def)
  have "mem_engagement_ok st'"
    unfolding mem_engagement_ok_def st'
  proof (intro conjI allI)
    show "map_of (mm_sessions st) sid = Some s \<longrightarrow> se_id s = sid" for sid s
      using ok by (simp add: mem_engagement_ok_def)
    show "((sid, k, n) \<in> insert (pt_session p, pt_attendee_key p, pt_nonce p) (mm_nonce_seen st)) =
        ((k, n) \<in> row_key ` set (dict_or [] (dict_push (pt_session p) p (mm_participations st)) sid))" for sid k n
      using ok by (auto simp: mem_engagement_ok_def key)
    show "(if sid = pt_session p then
        if sf_out_of_scope (pt_flags p) \<or> pt_attendee_key p \<in> set ?old then ?old else ?old @ [pt_attendee_key p]
      else dict_or [] (mm_attendees st) sid) =
      map pt_attendee_key (in_window_attendees (dict_or [] (dict_push (pt_session p) p (mm_participations st)) sid))" for sid
      using ok old by (simp add: mem_engagement_ok_def in_window_snoc Let_def)
  qed
  moreover have "row_key p \<notin> row_key ` set (dict_or [] (mm_participations st) (pt_session p))"
    using ok False unfolding mem_engagement_ok_def key by blast
  ultimately show ?thesis using st' by simp
qed

lemma mem_engagement_ok_updates [simp]:
  "mem_engagement_ok (st \<lparr>mm_throttle := t\<rparr>) = mem_engagement_ok st"
  "mem_engagement_ok (st \<lparr>mm_pending_finalizes := f\<rparr>) = mem_engagement_ok st"
  "mem_engagement_ok st \<Longrightarrow> se_id s = sid \<Longrightarrow>
    mem_engagement_ok (st \<lparr>mm_sessions := AList.update sid s (mm_sessions st)\<rparr>)"
  by (simp_all add: mem_engagement_ok_def update_conv')

interpretation mem_log: participation_store InMemoryEngagementGateway mem_engagement_ok "\<lambda>_. True"
proof
  fix st :: mem_engagement and sid s assume "mem_engagement_ok st"
    "gg_get_session InMemoryEngagementGateway sid st = Some s"
  then show "se_id s = sid" by (simp add: InMemoryEngagementGateway_def mem_engagement_ok_def)
next
  fix st st' :: mem_engagement and p b
  assume "mem_engagement_ok st" and r: "gg_record_participation InMemoryEngagementGateway p st = (b, st')"
  then show "mem_engagement_ok st'
     \<and> (\<forall>sid. gg_get_session InMemoryEngagementGateway sid st' = gg_get_session InMemoryEngagementGateway sid st)
     \<and> (b \<longleftrightarrow> row_key p \<notin> row_key ` set (gg_participations InMemoryEngagementGateway (pt_session p) st))
     \<and> (\<forall>sid. sid \<noteq> pt_session p \<longrightarrow> gg_participations InMemoryEngagementGateway sid st'
           = gg_participations InMemoryEngagementGateway sid st)
     \<and> (if b then \<exists>xs ys. gg_participations InMemoryEngagementGateway (pt_session p) st = xs @ ys
           \<and> gg_participations InMemoryEngagementGateway (pt_session p) st' = xs @ p # ys
        else gg_participations InMemoryEngagementGateway (pt_session p) st'
           = gg_participations InMemoryEngagementGateway (pt_session p) st)"
    using mem_record_ok [of st p b st'] by (auto simp: InMemoryEngagementGateway_def split: if_splits)
next
  fix st st' :: mem_engagement and k now n b
  assume "mem_engagement_ok st" "gg_throttle_allows InMemoryEngagementGateway k now n st = (b, st')"
  then show "mem_engagement_ok st'
     \<and> (\<forall>sid. gg_get_session InMemoryEngagementGateway sid st' = gg_get_session InMemoryEngagementGateway sid st)
     \<and> (\<forall>sid. gg_participations InMemoryEngagementGateway sid st' = gg_participations InMemoryEngagementGateway sid st)"
    by (auto simp: InMemoryEngagementGateway_def mem_throttle_allows_def Let_def split: if_splits)
next
  fix st :: mem_engagement and sid s t now clk
  assume ok: "mem_engagement_ok st" and "gg_get_session InMemoryEngagementGateway sid st = Some s"
  moreover from this have "se_id s = sid" by (simp add: InMemoryEngagementGateway_def mem_engagement_ok_def)
  ultimately show "\<exists>st' s'. gg_set_session_status InMemoryEngagementGateway sid t now clk st = Inr st'
     \<and> mem_engagement_ok st' \<and> gg_get_session InMemoryEngagementGateway sid st' = Some s'
     \<and> same_session s s' \<and> se_status s' = t
     \<and> (\<forall>sid'. sid' \<noteq> sid \<longrightarrow> gg_get_session InMemoryEngagementGateway sid' st'
           = gg_get_session InMemoryEngagementGateway sid' st)
     \<and> (\<forall>sid'. gg_participations InMemoryEngagementGateway sid' st' = gg_participations InMemoryEngagementGateway sid' st)"
    by (auto simp: InMemoryEngagementGateway_def mem_set_session_status_def Let_def same_session_def update_conv')
next
  fix st :: mem_engagement and sid grace clk assume "mem_engagement_ok st"
  then show "mem_engagement_ok (gg_schedule_finalize_close InMemoryEngagementGateway sid grace clk st)
     \<and> (\<forall>sid'. gg_get_session InMemoryEngagementGateway sid' (gg_schedule_finalize_close InMemoryEngagementGateway sid grace clk st)
           = gg_get_session InMemoryEngagementGateway sid' st)
     \<and> (\<forall>sid'. gg_participations InMemoryEngagementGateway sid' (gg_schedule_finalize_close InMemoryEngagementGateway sid grace clk st)
           = gg_participations InMemoryEngagementGateway sid' st)"
    by (simp add: InMemoryEngagementGateway_def)
next
  fix st :: mem_engagement and s assume "mem_engagement_ok st"
  then show "mem_engagement_ok (gg_upsert_session InMemoryEngagementGateway s st)
     \<and> (\<forall>sid. gg_participations InMemoryEngagementGateway sid (gg_upsert_session InMemoryEngagementGateway s st)
           = gg_participations InMemoryEngagementGateway sid st)
     \<and> (\<forall>sid. gg_get_session InMemoryEngagementGateway sid (gg_upsert_session InMemoryEngagementGateway s st)
           = gg_get_session InMemoryEngagementGateway sid st
         \<or> sid = se_id s \<and> gg_get_session InMemoryEngagementGateway sid (gg_upsert_session InMemoryEngagementGateway s st) = Some s)"
    by (simp add: InMemoryEngagementGateway_def update_conv')
next
  fix st :: mem_engagement and sid assume "mem_engagement_ok st"
  then show "gg_attendees InMemoryEngagementGateway sid st =
     map pt_attendee_key (in_window_attendees (gg_participations InMemoryEngagementGateway sid st))"
    by (simp add: InMemoryEngagementGateway_def mem_engagement_ok_def)
qed simp

end
