(* ===== verification/Engagement_Redis.thy ===== *)
theory Engagement_Redis
  imports Engagement_Store "HOL-Library.List_Lexorder" "HOL-Library.Char_ord" "HOL-Library.Product_Lexorder"
begin

text \<open>
  Model of \<open>FrappeEngagementGateway\<close> (\<open>flock_os/engagement_frappe.py\<close>), the production adapter of
  the engagement port: sessions are rows of a table, the participation log is a sorted set and
  the nonce index a set of strings, the throttle a sorted set per key, and the deferred finalize
  a queued job.

  The text a participation is stored as (\<open>json.dumps\<close> of its payload) is the parameter
  \<open>dumps\<close>; it decides the order of log entries with one score.  A naive timestamp is read back in
  the server's time zone, whose offset is a component of the state.  Keys do not expire here
  (a day for the log, two seconds for a throttle bucket), the time stamps keep all their
  decimals, and a failing Redis, on which the throttle answers \<open>True\<close>, is not modelled.
\<close>

record session_doc = engagement_session +
  sd_title :: string
  sd_engagement_type :: string
  sd_grace_seconds :: rat
  sd_scheduled_at :: "string option"
  sd_attendee_count :: "nat option"
  sd_batch_id :: "string option"
  sd_room_code :: "string option"
  sd_calm :: bool

record queued_call =
  qc_method :: string
  qc_kwargs :: "(string \<times> pyval) list"

record redis_engagement =
  rx_org_secrets :: "(docname \<times> string) list"
  rx_site_secret :: "string option"
  rx_sessions :: "(docname \<times> session_doc) list"
  rx_log :: "(docname \<times> participation list) list"
  rx_nonces :: "(docname \<times> string set) list"
  rx_throttle :: "(string \<times> rat list) list"
  rx_jobs :: "queued_call list"
  rx_utc_offset :: rat

definition redis_ticket_secret :: "docname \<Rightarrow> redis_engagement \<Rightarrow> string" where
  "redis_ticket_secret organization st =
    (if organization \<noteq> [] \<and> truthy (map_of (rx_org_secrets st) organization)
     then the (map_of (rx_org_secrets st) organization)
     else if truthy (rx_site_secret st) then the (rx_site_secret st)
     else ''flock-engagement-default-secret'')"

text \<open>\<open>_session_from_row\<close>: a naive timestamp is local time, and an empty geofence is none.\<close>

definition session_from_row :: "rat \<Rightarrow> session_doc \<Rightarrow> engagement_session" where
  "session_from_row offset row = engagement_session.truncate row
    \<lparr>se_open_at := map_option (\<lambda>t. t - offset) (se_open_at row),
     se_close_at := map_option (\<lambda>t. t - offset) (se_close_at row),
     se_geofence := (case se_geofence row of None \<Rightarrow> None | Some g \<Rightarrow> if g = [] then None else Some g)\<rparr>"

definition redis_get_session :: "docname \<Rightarrow> redis_engagement \<Rightarrow> engagement_session option" where
  "redis_get_session sid st =
    map_option (session_from_row (rx_utc_offset st)) (map_of (rx_sessions st) sid)"

text \<open>An update of an absent row changes nothing.\<close>

definition update_session_row ::
  "docname \<Rightarrow> (session_doc \<Rightarrow> session_doc) \<Rightarrow> redis_engagement \<Rightarrow> redis_engagement" where
  "update_session_row sid f st = st \<lparr>rx_sessions := AList.map_entry sid f (rx_sessions st)\<rparr>"

definition redis_set_session_status ::
  "docname \<Rightarrow> string \<Rightarrow> rat option \<Rightarrow> rat \<Rightarrow> redis_engagement \<Rightarrow> engagement_error + redis_engagement" where
  "redis_set_session_status sid status now clk st =
    Inr (update_session_row sid (\<lambda>row.
      let row1 = row \<lparr>se_status := status\<rparr> in
      case now of None \<Rightarrow> row1
      | Some ts \<Rightarrow> if status = STATUS_OPEN then row1 \<lparr>se_open_at := Some ts\<rparr>
                   else if status \<in> {STATUS_CLOSING, STATUS_CLOSED} then row1 \<lparr>se_close_at := Some ts\<rparr>
                   else row1) st)"

text \<open>\<open>zadd\<close> of a new member: after every entry that is not above it in (score, text).\<close>

definition log_key :: "(participation \<Rightarrow> string) \<Rightarrow> participation \<Rightarrow> rat \<times> string" where
  "log_key dumps p = (pt_submitted_at p, dumps p)"

fun zadd :: "('a \<Rightarrow> 'k::linorder) \<Rightarrow> 'a \<Rightarrow> 'a list \<Rightarrow> 'a list" where
  "zadd key x [] = [x]"
| "zadd key x (y # ys) =
     (if key x < key y then x # y # ys else if x = y then y # ys else y # zadd key x ys)"

definition nonce_member :: "participation \<Rightarrow> string" where
  "nonce_member p = pt_attendee_key p @ ''|'' @ pt_nonce p"

definition redis_record_participation ::
  "(participation \<Rightarrow> string) \<Rightarrow> participation \<Rightarrow> redis_engagement \<Rightarrow> bool \<times> redis_engagement" where
  "redis_record_participation dumps p st =
    (let sid = pt_session p; seen = dict_or {} (rx_nonces st) sid
     in if nonce_member p \<in> seen then (False, st)
        else (True, st \<lparr>rx_nonces := AList.update sid (insert (nonce_member p) seen) (rx_nonces st),
               rx_log := AList.update sid (zadd (log_key dumps) p (dict_or [] (rx_log st) sid)) (rx_log st)\<rparr>))"

text \<open>\<open>_participation_from_payload\<close>: empty strings get the defaults.\<close>

definition participation_from_payload :: "participation \<Rightarrow> participation" where
  "participation_from_payload p =
    p \<lparr>pt_role := (if pt_role p = [] then DEFAULT_ATTENDEE_ROLE else pt_role p),
       pt_type := (if pt_type p = [] then ENGAGEMENT_TYPE_GAME else pt_type p),
       pt_kind := (if pt_kind p = [] then ''tap_burst'' else pt_kind p)\<rparr>"

definition redis_participations :: "docname \<Rightarrow> redis_engagement \<Rightarrow> participation list" where
  "redis_participations sid st = map participation_from_payload (dict_or [] (rx_log st) sid)"

definition redis_attendees :: "docname \<Rightarrow> redis_engagement \<Rightarrow> string list" where
  "redis_attendees sid st =
    dedup (map pt_attendee_key (filter (\<lambda>p. \<not> sf_out_of_scope (pt_flags p) \<and> pt_attendee_key p \<noteq> [])
      (dict_or [] (rx_log st) sid)))"

text \<open>\<open>zremrangebyscore key 0 cutoff\<close>, \<open>zcard\<close>, \<open>zadd {str(now): now}\<close>: one entry per time.\<close>

definition redis_throttle_allows ::
  "string \<Rightarrow> rat \<Rightarrow> nat \<Rightarrow> redis_engagement \<Rightarrow> bool \<times> redis_engagement" where
  "redis_throttle_allows key now max_per_second st =
    (let bucket = filter (\<lambda>ts. \<not> (0 \<le> ts \<and> ts \<le> now - 1)) (dict_or [] (rx_throttle st) key);
         count = length bucket
     in if count > 0 \<and> count \<ge> max_per_second
        then (False, st \<lparr>rx_throttle := AList.update key bucket (rx_throttle st)\<rparr>)
        else (True, st \<lparr>rx_throttle := AList.update key
               (if now \<in> set bucket then bucket else bucket @ [now]) (rx_throttle st)\<rparr>))"

definition redis_same_ip_attendee_count :: "docname \<Rightarrow> string \<Rightarrow> redis_engagement \<Rightarrow> nat" where
  "redis_same_ip_attendee_count sid ip st =
    (if ip = [] then 0
     else card (pt_attendee_key ` set (filter (\<lambda>p. pt_ip p = Some ip) (redis_participations sid st))))"

text \<open>The job target and its arguments: \<open>enqueue\<close> hands every further keyword to the job.\<close>

definition redis_schedule_finalize_close ::
  "docname \<Rightarrow> rat \<Rightarrow> rat \<Rightarrow> redis_engagement \<Rightarrow> redis_engagement" where
  "redis_schedule_finalize_close sid grace clk st =
    st \<lparr>rx_jobs := rx_jobs st @ [\<lparr>qc_method = ''flock_os.engagement_api.finalize_close'',
      qc_kwargs = [(''session_id'', Py_Str sid), (''at'', Py_Num (clk + of_int \<lfloor>grace\<rfloor>))]\<rparr>]\<rparr>"

definition FrappeEngagementGateway :: "(participation \<Rightarrow> string) \<Rightarrow> redis_engagement engagement_gateway" where
  "FrappeEngagementGateway dumps =
    \<lparr>gg_ticket_secret = redis_ticket_secret,
     gg_get_session = redis_get_session,
     gg_upsert_session = (\<lambda>_ st. st),
     gg_set_session_status = redis_set_session_status,
     gg_record_participation = redis_record_participation dumps,
     gg_has_attendee = (\<lambda>sid k st. \<exists>p \<in> set (redis_participations sid st). pt_attendee_key p = k),
     gg_attendees = redis_attendees,
     gg_participations = redis_participations,
     gg_throttle_allows = redis_throttle_allows,
     gg_same_ip_attendee_count = redis_same_ip_attendee_count,
     gg_schedule_finalize_close = redis_schedule_finalize_close\<rparr>"

section \<open>The adapter keeps the contract\<close>

text \<open>The nonce index is a set of strings, so a row is identified by it only when the attendee key
  holds no bar; the digests the service issues do not.\<close>

definition storable :: "participation \<Rightarrow> bool" where
  "storable p \<longleftrightarrow> CHR ''|'' \<notin> set (pt_attendee_key p) \<and> pt_attendee_key p \<noteq> [] \<and> pt_role p \<noteq> []
     \<and> pt_type p \<noteq> [] \<and> pt_kind p \<noteq> []"

lemma storable_reads_back: "storable p \<Longrightarrow> participation_from_payload p = p"
  by (simp add: storable_def participation_from_payload_def)

lemma first_bar:
  "x \<notin> set as \<Longrightarrow> x \<notin> set bs \<Longrightarrow> as @ x # cs = bs @ x # ds \<longleftrightarrow> as = bs \<and> cs = ds"
proof (induction as arbitrary: bs)
  case Nil
  then show ?case by (cases bs) auto
next
  case (Cons a as)
  then show ?case by (cases bs) auto
qed

lemma nonce_member_iff:
  "storable p \<Longrightarrow> storable q \<Longrightarrow> nonce_member p = nonce_member q \<longleftrightarrow> row_key p = row_key q"
  by (auto simp: nonce_member_def row_key_def storable_def first_bar)

lemma zadd_new: "x \<notin> set l \<Longrightarrow> \<exists>xs ys. l = xs @ ys \<and> zadd key x l = xs @ x # ys"
proof (induction l)
  case (Cons y l)
  show ?case
  proof (cases "key x < key y")
    case True
    then have "y # l = [] @ y # l \<and> zadd key x (y # l) = [] @ x # y # l" by simp
    then show ?thesis by blast
  next
    case False
    from Cons obtain xs ys where "l = xs @ ys" "zadd key x l = xs @ x # ys" by auto
    with False Cons.prems show ?thesis by (intro exI [of _ "y # xs"] exI [of _ ys]) auto
  qed
qed auto

lemma set_zadd: "set (zadd key x l) = insert x (set l)"
  by (induction l) auto

lemma zadd_sorted: "sorted (map key l) \<Longrightarrow> sorted (map key (zadd key x l))"
  by (induction l) (auto simp: set_zadd)

definition redis_ok :: "redis_engagement \<Rightarrow> bool" where
  "redis_ok st \<longleftrightarrow>
     (\<forall>sid row. map_of (rx_sessions st) sid = Some row \<longrightarrow> se_id row = sid)
     \<and> (\<forall>sid. \<forall>p \<in> set (dict_or [] (rx_log st) sid). storable p)
     \<and> (\<forall>sid. dict_or {} (rx_nonces st) sid = nonce_member ` set (dict_or [] (rx_log st) sid))"

lemma redis_log: "redis_ok st \<Longrightarrow> redis_participations sid st = dict_or [] (rx_log st) sid"
  unfolding redis_participations_def redis_ok_def by (metis map_idI storable_reads_back)

lemma redis_ok_updates [simp]:
  "redis_ok (st \<lparr>rx_throttle := t\<rparr>) = redis_ok st" "redis_ok (st \<lparr>rx_jobs := j\<rparr>) = redis_ok st"
  by (simp_all add: redis_ok_def)

lemma redis_row_update:
  assumes "\<And>row. se_id (f row) = se_id row"
  shows "redis_ok st \<Longrightarrow> redis_ok (update_session_row sid f st)"
    and "redis_get_session sid' (update_session_row sid f st) =
      (if sid' = sid then map_option (\<lambda>row. session_from_row (rx_utc_offset st) (f row)) (map_of (rx_sessions st) sid)
       else redis_get_session sid' st)"
  using assms by (auto simp: redis_ok_def update_session_row_def redis_get_session_def map_of_map_entry
      split: option.splits)

lemma redis_participations_other [simp]:
  "redis_participations sid (update_session_row sid' f st) = redis_participations sid st"
  "redis_participations sid (st \<lparr>rx_throttle := t\<rparr>) = redis_participations sid st"
  "redis_participations sid (st \<lparr>rx_jobs := j\<rparr>) = redis_participations sid st"
  by (simp_all add: redis_participations_def update_session_row_def)

lemma redis_get_session_other [simp]:
  "redis_get_session sid (st \<lparr>rx_throttle := t\<rparr>) = redis_get_session sid st"
  "redis_get_session sid (st \<lparr>rx_jobs := j\<rparr>) = redis_get_session sid st"
  by (simp_all add: redis_get_session_def)

lemma redis_record_ok:
  assumes ok: "redis_ok st" and p: "storable p" and r: "redis_record_participation dumps p st = (b, st')"
  shows "redis_ok st' \<and> (\<forall>sid. redis_get_session sid st' = redis_get_session sid st)
    \<and> (b \<longleftrightarrow> row_key p \<notin> row_key ` set (redis_participations (pt_session p) st))
    \<and> (\<forall>sid. sid \<noteq> pt_session p \<longrightarrow> redis_participations sid st' = redis_participations sid st)
    \<and> (if b then \<exists>xs ys. redis_participations (pt_session p) st = xs @ ys
              \<and> redis_participations (pt_session p) st' = xs @ p # ys
       else redis_participations (pt_session p) st' = redis_participations (pt_session p) st)"
proof -
  let ?log = "dict_or [] (rx_log st) (pt_session p)"
  have all: "\<forall>q \<in> set ?log. storable q" using ok by (simp add: redis_ok_def)
  have seen: "nonce_member p \<in> dict_or {} (rx_nonces st) (pt_session p) \<longleftrightarrow> row_key p \<in> row_key ` set ?log"
    using ok nonce_member_iff [OF p] all by (force simp: redis_ok_def image_iff)
  note log = redis_log [OF ok]
  show ?thesis
  proof (cases "row_key p \<in> row_key ` set ?log")
    case True
    then show ?thesis using ok r seen log by (auto simp: redis_record_participation_def Let_def)
  next
    case False
    then have "p \<notin> set ?log" by auto
    from zadd_new [OF this] obtain xs ys where z: "?log = xs @ ys"
      "zadd (log_key dumps) p ?log = xs @ p # ys" by blast
    have st': "b" "st' = st \<lparr>rx_nonces := AList.update (pt_session p)
        (insert (nonce_member p) (dict_or {} (rx_nonces st) (pt_session p))) (rx_nonces st),
        rx_log := AList.update (pt_session p) (zadd (log_key dumps) p ?log) (rx_log st)\<rparr>"
      using False r seen by (auto simp: redis_record_participation_def Let_def)
    have ok': "redis_ok st'" using ok p unfolding redis_ok_def st' by (auto simp: set_zadd)
    have "redis_get_session sid st' = redis_get_session sid st" for sid
      by (simp add: st' redis_get_session_def)
    moreover have "redis_participations sid st' =
        (if sid = pt_session p then xs @ p # ys else redis_participations sid st)" for sid
      unfolding redis_log [OF ok'] log using z by (simp add: st'(2))
    ultimately show ?thesis using False z st'(1) ok' log by auto
  qed
qed

interpretation redis_log: participation_store "FrappeEngagementGateway dumps" redis_ok storable
  for dumps :: "participation \<Rightarrow> string"
proof
  fix st :: redis_engagement and sid s assume "redis_ok st"
    "gg_get_session (FrappeEngagementGateway dumps) sid st = Some s"
  then show "se_id s = sid"
    by (auto simp: FrappeEngagementGateway_def redis_get_session_def session_from_row_def redis_ok_def
        engagement_session.truncate_def)
next
  fix st st' :: redis_engagement and p b
  assume "redis_ok st" "storable p" "gg_record_participation (FrappeEngagementGateway dumps) p st = (b, st')"
  then show "redis_ok st'
     \<and> (\<forall>sid. gg_get_session (FrappeEngagementGateway dumps) sid st' = gg_get_session (FrappeEngagementGateway dumps) sid st)
     \<and> (b \<longleftrightarrow> row_key p \<notin> row_key ` set (gg_participations (FrappeEngagementGateway dumps) (pt_session p) st))
     \<and> (\<forall>sid. sid \<noteq> pt_session p \<longrightarrow> gg_participations (FrappeEngagementGateway dumps) sid st'
           = gg_participations (FrappeEngagementGateway dumps) sid st)
     \<and> (if b then \<exists>xs ys. gg_participations (FrappeEngagementGateway dumps) (pt_session p) st = xs @ ys
           \<and> gg_participations (FrappeEngagementGateway dumps) (pt_session p) st' = xs @ p # ys
        else gg_participations (FrappeEngagementGateway dumps) (pt_session p) st'
           = gg_participations (FrappeEngagementGateway dumps) (pt_session p) st)"
    using redis_record_ok [of st p dumps b st'] by (simp add: FrappeEngagementGateway_def)
next
  fix st st' :: redis_engagement and k now n b
  assume "redis_ok st" "gg_throttle_allows (FrappeEngagementGateway dumps) k now n st = (b, st')"
  then show "redis_ok st'
     \<and> (\<forall>sid. gg_get_session (FrappeEngagementGateway dumps) sid st' = gg_get_session (FrappeEngagementGateway dumps) sid st)
     \<and> (\<forall>sid. gg_participations (FrappeEngagementGateway dumps) sid st' = gg_participations (FrappeEngagementGateway dumps) sid st)"
    by (auto simp: FrappeEngagementGateway_def redis_throttle_allows_def Let_def split: if_splits)
next
  fix st :: redis_engagement and sid s t stamp clk
  assume ok: "redis_ok st" and s: "gg_get_session (FrappeEngagementGateway dumps) sid st = Some s"
  obtain row where row: "map_of (rx_sessions st) sid = Some row" "s = session_from_row (rx_utc_offset st) row"
    using s by (auto simp: FrappeEngagementGateway_def redis_get_session_def)
  define f :: "session_doc \<Rightarrow> session_doc" where "f = (\<lambda>row.
      let row1 = row \<lparr>se_status := t\<rparr> in
      case stamp of None \<Rightarrow> row1
      | Some ts \<Rightarrow> if t = STATUS_OPEN then row1 \<lparr>se_open_at := Some ts\<rparr>
                   else if t \<in> {STATUS_CLOSING, STATUS_CLOSED} then row1 \<lparr>se_close_at := Some ts\<rparr>
                   else row1)"
  have f: "se_id (f row) = se_id row" "se_status (f row) = t"
    "same_session (session_from_row off row) (session_from_row off (f row))" for row off
    by (auto simp: f_def Let_def same_session_def session_from_row_def engagement_session.truncate_def
        split: option.splits)
  have "gg_set_session_status (FrappeEngagementGateway dumps) sid t stamp clk st = Inr (update_session_row sid f st)"
    by (simp add: FrappeEngagementGateway_def redis_set_session_status_def f_def)
  moreover have "se_status (session_from_row off (f row)) = t" for off
    using f(2) [of row] by (simp add: session_from_row_def engagement_session.truncate_def)
  ultimately show "\<exists>st' s'. gg_set_session_status (FrappeEngagementGateway dumps) sid t stamp clk st = Inr st'
     \<and> redis_ok st' \<and> gg_get_session (FrappeEngagementGateway dumps) sid st' = Some s'
     \<and> same_session s s' \<and> se_status s' = t
     \<and> (\<forall>sid'. sid' \<noteq> sid \<longrightarrow> gg_get_session (FrappeEngagementGateway dumps) sid' st'
           = gg_get_session (FrappeEngagementGateway dumps) sid' st)
     \<and> (\<forall>sid'. gg_participations (FrappeEngagementGateway dumps) sid' st'
           = gg_participations (FrappeEngagementGateway dumps) sid' st)"
    using redis_row_update [of f, OF f(1)] ok row f(3) by (simp add: FrappeEngagementGateway_def)
next
  fix st :: redis_engagement and sid grace clk assume "redis_ok st"
  then show "redis_ok (gg_schedule_finalize_close (FrappeEngagementGateway dumps) sid grace clk st)
     \<and> (\<forall>sid'. gg_get_session (FrappeEngagementGateway dumps) sid' (gg_schedule_finalize_close (FrappeEngagementGateway dumps) sid grace clk st)
           = gg_get_session (FrappeEngagementGateway dumps) sid' st)
     \<and> (\<forall>sid'. gg_participations (FrappeEngagementGateway dumps) sid' (gg_schedule_finalize_close (FrappeEngagementGateway dumps) sid grace clk st)
           = gg_participations (FrappeEngagementGateway dumps) sid' st)"
    by (simp add: FrappeEngagementGateway_def redis_schedule_finalize_close_def)
next
  fix st :: redis_engagement and s assume "redis_ok st"
  then show "redis_ok (gg_upsert_session (FrappeEngagementGateway dumps) s st)
     \<and> (\<forall>sid. gg_participations (FrappeEngagementGateway dumps) sid (gg_upsert_session (FrappeEngagementGateway dumps) s st)
           = gg_participations (FrappeEngagementGateway dumps) sid st)
     \<and> (\<forall>sid. gg_get_session (FrappeEngagementGateway dumps) sid (gg_upsert_session (FrappeEngagementGateway dumps) s st)
           = gg_get_session (FrappeEngagementGateway dumps) sid st
         \<or> sid = se_id s \<and> gg_get_session (FrappeEngagementGateway dumps) sid (gg_upsert_session (FrappeEngagementGateway dumps) s st) = Some s)"
    by (simp add: FrappeEngagementGateway_def)
next
  fix rq :: participate_request and s :: engagement_session and ty now flags assume "digest_key (pq_attendee_key rq)" "engagement_type_for (se_kind s) = Inr ty"
  then show "storable (request_participation s rq now flags ty)"
    by (auto simp: digest_key_def storable_def request_participation_def engagement_type_for_def
        GAME_KINDS_def QUESTIONNAIRE_KINDS_def ENGAGEMENT_TYPE_GAME_def ENGAGEMENT_TYPE_QUESTIONNAIRE_def
        DEFAULT_ATTENDEE_ROLE_def truthy_def split: if_splits option.splits)
next
  fix st :: redis_engagement and sid assume ok: "redis_ok st"
  let ?log = "dict_or [] (rx_log st) sid"
  have "\<forall>p \<in> set ?log. pt_attendee_key p \<noteq> []" using ok by (simp add: redis_ok_def storable_def)
  then have "filter (\<lambda>p. \<not> sf_out_of_scope (pt_flags p) \<and> pt_attendee_key p \<noteq> []) ?log
      = filter (\<lambda>p. \<not> sf_out_of_scope (pt_flags p)) ?log" by (intro filter_cong) auto
  then show "gg_attendees (FrappeEngagementGateway dumps) sid st =
     map pt_attendee_key (in_window_attendees (gg_participations (FrappeEngagementGateway dumps) sid st))"
    by (simp add: FrappeEngagementGateway_def redis_log [OF ok] redis_attendees_def in_window_attendees_def
        dedup_on_map comp_def)
qed

end
