(* ===== verification/Engagement_Safety.thy ===== *)
theory Engagement_Safety
  imports Engagement_Redis
begin

text \<open>
  What holds in every state the engagement service can reach, with either storage adapter: the
  step relation of the service, the invariant of its logs and events, and the properties which
  follow.  A step is one request, run to its end or to its exception.
\<close>

section \<open>Steps\<close>

inductive engagement_step :: "('s, 'b) engagement_service \<Rightarrow> ('s, 'b) engagement_world
    \<Rightarrow> ('s, 'b) engagement_world \<Rightarrow> bool" for sx where
  es_create: "create_session (sx_gateway sx) s (ew_store w) = Inr (s', st') \<Longrightarrow>
    gg_get_session (sx_gateway sx) (se_id s) (ew_store w) = None \<Longrightarrow>
    se_status s \<in> {STATUS_DRAFT, STATUS_SCHEDULED} \<Longrightarrow>
    engagement_step sx w (w \<lparr>ew_store := st'\<rparr>)"
| es_open: "open_session sx sid stamp clk w = Inr (s, w') \<Longrightarrow> engagement_step sx w w'"
| es_close: "close_session sx sid stamp clk w = Inr (preview, w') \<Longrightarrow> engagement_step sx w w'"
| es_finalize: "finalize_close sx sid clk w = (w', r) \<Longrightarrow> engagement_step sx w w'"
| es_participate: "participate sx rq clk (ew_store w) = (st', r) \<Longrightarrow> digest_key (pq_attendee_key rq) \<Longrightarrow>
    engagement_step sx w (w \<lparr>ew_store := st'\<rparr>)"
| es_other_attendance: "submit (sx_bulk sx) items scope bid (ew_bulk w) = (b', r) \<Longrightarrow>
    engagement_step sx w (w \<lparr>ew_bulk := b'\<rparr>)"

inductive engagement_run :: "('s, 'b) engagement_service \<Rightarrow> ('s, 'b) engagement_world
    \<Rightarrow> ('s, 'b) engagement_world \<Rightarrow> bool" for sx w0 where
  er_start: "engagement_run sx w0 w0"
| er_step: "engagement_run sx w0 w \<Longrightarrow> engagement_step sx w w' \<Longrightarrow> engagement_run sx w0 w'"

text \<open>A start: sessions are drafts or scheduled, no row and no event is there.\<close>

definition fresh_world :: "'s engagement_gateway \<Rightarrow> ('s, 'b) engagement_world \<Rightarrow> bool" where
  "fresh_world gw w \<longleftrightarrow> ew_events w = [] \<and> (\<forall>sid. gg_participations gw sid (ew_store w) = [])
     \<and> (\<forall>sid s. gg_get_session gw sid (ew_store w) = Some s \<longrightarrow> se_status s \<in> {STATUS_DRAFT, STATUS_SCHEDULED})"

section \<open>The invariant\<close>

definition opened_events :: "docname \<Rightarrow> engagement_event list \<Rightarrow> nat" where
  "opened_events sid evs = length (filter (\<lambda>e. case e of Engagement_Opened s _ _ _ \<Rightarrow> s = sid | _ \<Rightarrow> False) evs)"

definition closed_events :: "docname \<Rightarrow> engagement_event list \<Rightarrow> nat" where
  "closed_events sid evs = length (filter (\<lambda>e. case e of Engagement_Closed s _ _ _ \<Rightarrow> s = sid | _ \<Rightarrow> False) evs)"

lemma event_counts_snoc [simp]:
  "opened_events sid (evs @ [Engagement_Opened s g k a]) = opened_events sid evs + (if s = sid then 1 else 0)"
  "opened_events sid (evs @ [Engagement_Closed s g n a]) = opened_events sid evs"
  "closed_events sid (evs @ [Engagement_Opened s g k a]) = closed_events sid evs"
  "closed_events sid (evs @ [Engagement_Closed s g n a]) = closed_events sid evs + (if s = sid then 1 else 0)"
  "opened_events sid [] = 0" "closed_events sid [] = 0"
  by (simp_all add: opened_events_def closed_events_def)

definition score_ok :: "string \<Rightarrow> rat option \<Rightarrow> bool" where
  "score_ok kind score \<longleftrightarrow> (case score of None \<Rightarrow> True
     | Some r \<Rightarrow> kind \<notin> set QUESTIONNAIRE_KINDS \<and> 0 \<le> r \<and> r \<le> 100)"

definition row_ok :: "engagement_session \<Rightarrow> participation \<Rightarrow> bool" where
  "row_ok s p \<longleftrightarrow> pt_session p = se_id s \<and> pt_gathering p = se_gathering s \<and> pt_branch p = se_branch s
     \<and> pt_organization p = se_organization s \<and> pt_group p = se_group s \<and> pt_kind p = se_kind s
     \<and> engagement_type_for (se_kind s) = Inr (pt_type p) \<and> score_ok (se_kind s) (pt_score p)
     \<and> pt_role p \<noteq> [] \<and> digest_key (pt_attendee_key p)"

definition log_ok :: "engagement_session \<Rightarrow> participation list \<Rightarrow> bool" where
  "log_ok s ps \<longleftrightarrow> distinct (map row_key ps) \<and> (\<forall>p \<in> set ps. row_ok s p)"

definition lifecycle_ok :: "engagement_session \<Rightarrow> participation list \<Rightarrow> nat \<Rightarrow> nat \<Rightarrow> bool" where
  "lifecycle_ok s ps opened final \<longleftrightarrow>
     (if se_status s \<in> {STATUS_DRAFT, STATUS_SCHEDULED} then ps = [] \<and> opened = 0 \<and> final = 0
      else if se_status s \<in> set LIVE_STATES then opened = 1 \<and> final = 0
      else se_status s = STATUS_CLOSED \<and> opened = 1 \<and> final \<le> 1)"

lemma score_ok_normalized [simp]: "score_ok kind (normalize_score kind raw)"
  by (auto simp: score_ok_def normalize_score_def split: option.split)

lemma row_ok_request:
  "se_id s = pq_session rq \<Longrightarrow> engagement_type_for (se_kind s) = Inr ty \<Longrightarrow> digest_key (pq_attendee_key rq) \<Longrightarrow>
   row_ok s (request_participation s rq now flags ty)"
  by (auto simp: row_ok_def request_participation_def DEFAULT_ATTENDEE_ROLE_def truthy_def split: option.splits)

lemma row_ok_same [simp]: "same_session s s' \<Longrightarrow> row_ok s' p = row_ok s p"
  by (simp add: row_ok_def same_session_def)

lemma log_ok_same: "same_session s s' \<Longrightarrow> log_ok s' ps = log_ok s ps"
  by (simp add: log_ok_def)

lemma distinct_insert_key:
  "distinct (map f (xs @ ys)) \<Longrightarrow> f p \<notin> f ` set (xs @ ys) \<Longrightarrow> distinct (map f (xs @ p # ys))"
  by auto

lemmas session_states = STATUS_DRAFT_def STATUS_SCHEDULED_def STATUS_OPEN_def STATUS_CLOSING_def
  STATUS_CLOSED_def STATUS_ARCHIVED_def LIVE_STATES_def

text \<open>The moves the service asks for.\<close>

lemma session_moves:
  "validate_state_transition from STATUS_OPEN = Inr u \<longleftrightarrow> from \<in> {STATUS_DRAFT, STATUS_SCHEDULED}"
  "validate_state_transition from STATUS_CLOSING = Inr u \<longleftrightarrow> from = STATUS_OPEN"
  "validate_state_transition from STATUS_CLOSED = Inr u \<longleftrightarrow> from = STATUS_CLOSING"
  by (auto simp: validate_state_transition_def VALID_TRANSITIONS_def table_get_def session_states)

section \<open>The promise of a session\<close>

text \<open>What a session promises, without tickets, clocks, throttles and storage: it is announced,
  goes live once, takes marks of attendees while it is live, each (attendee, nonce) once, and ends.
  A mark credits its attendee or is only noted.\<close>

datatype session_phase = Absent | Planned | Live | Done

record session_spec =
  sp_phase :: "docname \<Rightarrow> session_phase"
  sp_marks :: "docname \<Rightarrow> (string \<times> string) set"
  sp_credited :: "docname \<Rightarrow> string set"

inductive spec_step :: "session_spec \<Rightarrow> session_spec \<Rightarrow> bool" where
  sp_announce: "sp_phase \<sigma> sid = Absent \<Longrightarrow> spec_step \<sigma> (\<sigma> \<lparr>sp_phase := (sp_phase \<sigma>)(sid := Planned)\<rparr>)"
| sp_start: "sp_phase \<sigma> sid = Planned \<Longrightarrow> spec_step \<sigma> (\<sigma> \<lparr>sp_phase := (sp_phase \<sigma>)(sid := Live)\<rparr>)"
| sp_finish: "sp_phase \<sigma> sid = Live \<Longrightarrow> spec_step \<sigma> (\<sigma> \<lparr>sp_phase := (sp_phase \<sigma>)(sid := Done)\<rparr>)"
| sp_mark: "sp_phase \<sigma> sid = Live \<Longrightarrow> (k, n) \<notin> sp_marks \<sigma> sid \<Longrightarrow>
    spec_step \<sigma> (\<sigma> \<lparr>sp_marks := (sp_marks \<sigma>)(sid := insert (k, n) (sp_marks \<sigma> sid)),
      sp_credited := (sp_credited \<sigma>)(sid := (if credit then insert k else id) (sp_credited \<sigma> sid))\<rparr>)"
| sp_skip: "spec_step \<sigma> \<sigma>"

inductive_cases spec_stepE: "spec_step \<sigma> \<sigma>'"

text \<open>A session that is over keeps its marks and its credits.\<close>

lemma spec_done:
  "spec_step \<sigma> \<sigma>' \<Longrightarrow> sp_phase \<sigma> sid = Done \<Longrightarrow>
   sp_phase \<sigma>' sid = Done \<and> sp_marks \<sigma>' sid = sp_marks \<sigma> sid \<and> sp_credited \<sigma>' sid = sp_credited \<sigma> sid"
  by (elim spec_stepE) auto

definition status_phase :: "string \<Rightarrow> session_phase" where
  "status_phase t = (if t \<in> {STATUS_DRAFT, STATUS_SCHEDULED} then Planned
     else if t \<in> set LIVE_STATES then Live else Done)"

definition abs_store :: "'s engagement_gateway \<Rightarrow> 's \<Rightarrow> session_spec" where
  "abs_store gw st =
    \<lparr>sp_phase = (\<lambda>sid. case gg_get_session gw sid st of None \<Rightarrow> Absent | Some s \<Rightarrow> status_phase (se_status s)),
     sp_marks = (\<lambda>sid. row_key ` set (gg_participations gw sid st)),
     sp_credited = (\<lambda>sid. credited (gg_participations gw sid st))\<rparr>"

lemma abs_store_eqI:
  "(\<And>sid. gg_get_session gw sid st' = gg_get_session gw sid st) \<Longrightarrow>
   (\<And>sid. gg_participations gw sid st' = gg_participations gw sid st) \<Longrightarrow> abs_store gw st' = abs_store gw st"
  by (simp add: abs_store_def)

text \<open>A status change of one session moves its phase and nothing else.\<close>

lemma abs_store_phase:
  assumes "gg_get_session gw sid st' = Some s'"
    and "\<And>sid'. sid' \<noteq> sid \<Longrightarrow> gg_get_session gw sid' st' = gg_get_session gw sid' st"
    and "\<And>sid'. gg_participations gw sid' st' = gg_participations gw sid' st"
  shows "abs_store gw st' = (abs_store gw st)
    \<lparr>sp_phase := (sp_phase (abs_store gw st))(sid := status_phase (se_status s'))\<rparr>"
  using assms by (auto simp: abs_store_def fun_eq_iff)

lemma phase_of:
  "gg_get_session gw sid st = Some s \<Longrightarrow> sp_phase (abs_store gw st) sid = status_phase (se_status s)"
  by (simp add: abs_store_def)

lemma status_phase_simps [simp]:
  "status_phase STATUS_DRAFT = Planned" "status_phase STATUS_SCHEDULED = Planned"
  "status_phase STATUS_OPEN = Live" "status_phase STATUS_CLOSING = Live" "status_phase STATUS_CLOSED = Done"
  by (simp_all add: status_phase_def session_states)

context participation_store
begin

definition world_ok :: "('s, 'b) engagement_world \<Rightarrow> bool" where
  "world_ok w \<longleftrightarrow> ok (ew_store w) \<and> (\<forall>sid. case session_of sid (ew_store w) of
      None \<Rightarrow> log_of sid (ew_store w) = [] \<and> opened_events sid (ew_events w) = 0 \<and> closed_events sid (ew_events w) = 0
    | Some s \<Rightarrow> log_ok s (log_of sid (ew_store w))
        \<and> lifecycle_ok s (log_of sid (ew_store w)) (opened_events sid (ew_events w)) (closed_events sid (ew_events w)))"

lemma world_ok_session:
  "world_ok w \<Longrightarrow> session_of sid (ew_store w) = Some s \<Longrightarrow>
   ok (ew_store w) \<and> log_ok s (log_of sid (ew_store w))
   \<and> lifecycle_ok s (log_of sid (ew_store w)) (opened_events sid (ew_events w)) (closed_events sid (ew_events w))"
  by (auto simp: world_ok_def dest: spec [of _ sid])

lemma world_ok_same:
  assumes "world_ok w" "ok (ew_store w')" "ew_events w' = ew_events w"
    and "\<And>sid. session_of sid (ew_store w') = session_of sid (ew_store w)"
    and "\<And>sid. log_of sid (ew_store w') = log_of sid (ew_store w)"
  shows "world_ok w'"
  using assms by (simp add: world_ok_def cong: option.case_cong)

text \<open>One session changes, the others keep session, log and events.\<close>

lemma world_ok_update:
  assumes w: "world_ok w" and ok: "ok (ew_store w')"
    and other: "\<And>sid'. sid' \<noteq> sid \<Longrightarrow> session_of sid' (ew_store w') = session_of sid' (ew_store w)
      \<and> log_of sid' (ew_store w') = log_of sid' (ew_store w)
      \<and> opened_events sid' (ew_events w') = opened_events sid' (ew_events w)
      \<and> closed_events sid' (ew_events w') = closed_events sid' (ew_events w)"
    and upd: "session_of sid (ew_store w') = Some s" "log_ok s (log_of sid (ew_store w'))"
      "lifecycle_ok s (log_of sid (ew_store w')) (opened_events sid (ew_events w')) (closed_events sid (ew_events w'))"
  shows "world_ok w'"
  unfolding world_ok_def
proof (intro conjI ok allI)
  fix sid'
  show "case session_of sid' (ew_store w') of
      None \<Rightarrow> log_of sid' (ew_store w') = [] \<and> opened_events sid' (ew_events w') = 0 \<and> closed_events sid' (ew_events w') = 0
    | Some s \<Rightarrow> log_ok s (log_of sid' (ew_store w'))
        \<and> lifecycle_ok s (log_of sid' (ew_store w')) (opened_events sid' (ew_events w')) (closed_events sid' (ew_events w'))"
  proof (cases "sid' = sid")
    case False
    from w have "case session_of sid' (ew_store w) of
      None \<Rightarrow> log_of sid' (ew_store w) = [] \<and> opened_events sid' (ew_events w) = 0 \<and> closed_events sid' (ew_events w) = 0
    | Some s \<Rightarrow> log_ok s (log_of sid' (ew_store w))
        \<and> lifecycle_ok s (log_of sid' (ew_store w)) (opened_events sid' (ew_events w)) (closed_events sid' (ew_events w))"
      by (simp add: world_ok_def)
    with other [OF False] show ?thesis by (cases "session_of sid' (ew_store w)") simp_all
  qed (use upd in simp)
qed

lemma moved_session:
  assumes w: "world_ok w" and s: "session_of sid (ew_store w) = Some s"
  shows "\<exists>st' s'. gg_set_session_status gw sid t stamp clk (ew_store w) = Inr st'
    \<and> require_session gw sid st' = Inr s' \<and> same_session s s' \<and> se_id s' = sid \<and> se_status s' = t
    \<and> ok st' \<and> session_of sid st' = Some s' \<and> log_ok s' (log_of sid st')
    \<and> (\<forall>sid'. sid' \<noteq> sid \<longrightarrow> session_of sid' st' = session_of sid' (ew_store w))
    \<and> (\<forall>sid'. log_of sid' st' = log_of sid' (ew_store w))"
proof -
  have ok: "ok (ew_store w)" "log_ok s (log_of sid (ew_store w))" using world_ok_session [OF w s] by simp_all
  from status [OF ok(1) s] obtain st' s' where st': "gg_set_session_status gw sid t stamp clk (ew_store w) = Inr st'"
    "ok st'" "session_of sid st' = Some s'" "same_session s s'" "se_status s' = t"
    "\<forall>sid'. sid' \<noteq> sid \<longrightarrow> session_of sid' st' = session_of sid' (ew_store w)"
    "\<forall>sid'. log_of sid' st' = log_of sid' (ew_store w)" by blast
  then show ?thesis using ok log_ok_same [OF st'(4)] session_id [OF st'(2,3)] by (auto simp: require_session_def)
qed

lemma open_effect:
  assumes w: "world_ok w" and gw: "sx_gateway sx = gw" and run: "open_session sx sid stamp clk w = Inr (s', w')"
  shows "world_ok w' \<and> (\<exists>s. session_of sid (ew_store w) = Some s \<and> se_status s \<in> {STATUS_DRAFT, STATUS_SCHEDULED})
    \<and> session_of sid (ew_store w') = Some s' \<and> se_status s' = STATUS_OPEN
    \<and> (\<forall>sid'. log_of sid' (ew_store w') = log_of sid' (ew_store w)) \<and> ew_bulk w' = ew_bulk w"
proof -
  obtain s where s: "session_of sid (ew_store w) = Some s" "se_status s \<in> {STATUS_DRAFT, STATUS_SCHEDULED}"
    using run by (auto simp: open_session_def gw res_bind_Inr_iff require_session_def session_moves split: option.splits)
  from moved_session [OF w s(1), of STATUS_OPEN stamp clk] obtain st' s1 where m:
    "gg_set_session_status gw sid STATUS_OPEN stamp clk (ew_store w) = Inr st'"
    "require_session gw sid st' = Inr s1" "same_session s s1" "se_id s1 = sid" "se_status s1 = STATUS_OPEN" "ok st'"
    "session_of sid st' = Some s1" "log_ok s1 (log_of sid st')"
    "\<forall>sid'. sid' \<noteq> sid \<longrightarrow> session_of sid' st' = session_of sid' (ew_store w)"
    "\<forall>sid'. log_of sid' st' = log_of sid' (ew_store w)" by blast
  have w': "s' = s1" "ew_store w' = st'" "ew_bulk w' = ew_bulk w"
    "ew_events w' = ew_events w @ [Engagement_Opened (se_id s1) (se_gathering s1) (se_kind s1) (session_scope s1)]"
    using run m(1,2) s by (auto simp: open_session_def gw res_bind_Inr_iff)
  have "lifecycle_ok s (log_of sid (ew_store w)) (opened_events sid (ew_events w)) (closed_events sid (ew_events w))"
    using world_ok_session [OF w s(1)] by simp
  then have "world_ok w'"
    using s m w' by (intro world_ok_update [OF w, where sid = sid and s = s1])
      (auto simp: lifecycle_ok_def session_states)
  then show ?thesis using s m w' by auto
qed

lemma close_effect:
  assumes w: "world_ok w" and gw: "sx_gateway sx = gw" and run: "close_session sx sid stamp clk w = Inr (out, w')"
  shows "world_ok w' \<and> (\<exists>s. session_of sid (ew_store w) = Some s \<and> se_status s = STATUS_OPEN)
    \<and> (\<exists>s'. session_of sid (ew_store w') = Some s' \<and> se_status s' = STATUS_CLOSING)
    \<and> (\<forall>sid'. log_of sid' (ew_store w') = log_of sid' (ew_store w))
    \<and> ew_bulk w' = ew_bulk w \<and> ew_events w' = ew_events w
    \<and> co_attendee_count out = card (credited (log_of sid (ew_store w))) \<and> \<not> co_finalized out"
proof -
  obtain s where s: "session_of sid (ew_store w) = Some s" "se_status s = STATUS_OPEN"
    using run by (auto simp: close_session_def gw res_bind_Inr_iff require_session_def session_moves split: option.splits)
  from moved_session [OF w s(1), of STATUS_CLOSING stamp clk] obtain st' s1 where m:
    "gg_set_session_status gw sid STATUS_CLOSING stamp clk (ew_store w) = Inr st'"
    "require_session gw sid st' = Inr s1" "same_session s s1" "se_id s1 = sid" "se_status s1 = STATUS_CLOSING" "ok st'"
    "session_of sid st' = Some s1" "log_ok s1 (log_of sid st')"
    "\<forall>sid'. sid' \<noteq> sid \<longrightarrow> session_of sid' st' = session_of sid' (ew_store w)"
    "\<forall>sid'. log_of sid' st' = log_of sid' (ew_store w)" by blast
  note sch = schedule [OF m(6), of sid "sx_grace sx" clk]
  have w': "ew_store w' = gg_schedule_finalize_close gw sid (sx_grace sx) clk st'" "ew_bulk w' = ew_bulk w"
    "ew_events w' = ew_events w" "out = preview_outcome gw s1 (ew_store w')"
    using run m(1,2) s by (auto simp: close_session_def gw res_bind_Inr_iff Let_def)
  have "lifecycle_ok s (log_of sid (ew_store w)) (opened_events sid (ew_events w)) (closed_events sid (ew_events w))"
    using world_ok_session [OF w s(1)] by simp
  then have "world_ok w'"
    using s m w' sch by (intro world_ok_update [OF w, where sid = sid and s = s1])
      (auto simp: lifecycle_ok_def session_states)
  then show ?thesis using s m w' sch
    by (auto simp: preview_outcome_def length_in_window session_states)
qed

lemma finalize_effect:
  assumes w: "world_ok w" and gw: "sx_gateway sx = gw" and run: "finalize_close sx sid clk w = (w', r)"
  shows "world_ok w' \<and> (\<forall>sid'. log_of sid' (ew_store w') = log_of sid' (ew_store w))
    \<and> (case session_of sid (ew_store w) of
         Some s \<Rightarrow>
           if se_status s = STATUS_CLOSED then w' = w \<and> r = Inr (preview_outcome gw s (ew_store w))
           else if se_status s = STATUS_CLOSING then
             (\<exists>s'. session_of sid (ew_store w') = Some s' \<and> same_session s s' \<and> se_status s' = STATUS_CLOSED)
             \<and> (\<forall>sid'. sid' \<noteq> sid \<longrightarrow> session_of sid' (ew_store w') = session_of sid' (ew_store w))
             \<and> (let items = map participation_to_attendance_item (in_window_attendees (log_of sid (ew_store w)));
                   (b, rr) = submit (sx_bulk sx) items (se_branch s) (''engagement:'' @ sid) (ew_bulk w)
                in ew_bulk w' = b \<and> (case rr of
                     Inl e \<Rightarrow> r = Inl (Attendance_Write e) \<and> ew_events w' = ew_events w
                   | Inr out \<Rightarrow> r = Inr \<lparr>co_session = sid, co_gathering = se_gathering s,
                         co_attendee_count = length items, co_inserted = bo_inserted out,
                         co_deduplicated = bo_deduplicated out, co_finalized = True\<rparr>
                       \<and> ew_events w' = ew_events w @
                           [Engagement_Closed sid (se_gathering s) (length items) (session_scope s)]))
           else w' = w \<and> (\<exists>e. r = Inl e)
       | None \<Rightarrow> w' = w \<and> (\<exists>e. r = Inl e))"
proof (cases "session_of sid (ew_store w)")
  case None
  then show ?thesis using run w by (auto simp: finalize_close_def gw require_session_def)
next
  case (Some s)
  have req: "require_session gw sid (ew_store w) = Inr s" using Some by (simp add: require_session_def)
  show ?thesis
  proof (cases "se_status s = STATUS_CLOSING")
    case False
    have "w' = w \<and> (if se_status s = STATUS_CLOSED then r = Inr (preview_outcome gw s (ew_store w)) else \<exists>e. r = Inl e)"
    proof (cases "validate_state_transition (se_status s) STATUS_CLOSED")
      case (Inl e)
      then show ?thesis using run req by (auto simp: finalize_close_def gw split: if_splits)
    next
      case (Inr u)
      then show ?thesis using False session_moves(3) by simp
    qed
    then show ?thesis using Some False w by auto
  next
    case True
    have ncl: "se_status s \<noteq> STATUS_CLOSED" using True by (simp add: session_states)
    from moved_session [OF w Some, of STATUS_CLOSED None clk] obtain st' s1 where m:
      "gg_set_session_status gw sid STATUS_CLOSED None clk (ew_store w) = Inr st'"
      "require_session gw sid st' = Inr s1" "same_session s s1" "se_id s1 = sid" "se_status s1 = STATUS_CLOSED" "ok st'"
      "session_of sid st' = Some s1" "log_ok s1 (log_of sid st')"
      "\<forall>sid'. sid' \<noteq> sid \<longrightarrow> session_of sid' st' = session_of sid' (ew_store w)"
      "\<forall>sid'. log_of sid' st' = log_of sid' (ew_store w)" by blast
    let ?items = "map participation_to_attendance_item (in_window_attendees (log_of sid (ew_store w)))"
    obtain b rr where sub: "submit (sx_bulk sx) ?items (se_branch s) (''engagement:'' @ sid) (ew_bulk w) = (b, rr)"
      by (cases "submit (sx_bulk sx) ?items (se_branch s) (''engagement:'' @ sid) (ew_bulk w)")
    have s1: "se_branch s1 = se_branch s" "se_gathering s1 = se_gathering s" "session_scope s1 = session_scope s"
      using m(3) by (simp_all add: same_session_def session_scope_def)
    have mv: "validate_state_transition (se_status s) STATUS_CLOSED = Inr ()" using session_moves(3) True by simp
    have w': "ew_store w' = st'" "ew_bulk w' = b" "case rr of
         Inl e \<Rightarrow> r = Inl (Attendance_Write e) \<and> ew_events w' = ew_events w
       | Inr out \<Rightarrow> r = Inr \<lparr>co_session = sid, co_gathering = se_gathering s,
             co_attendee_count = length ?items, co_inserted = bo_inserted out,
             co_deduplicated = bo_deduplicated out, co_finalized = True\<rparr>
           \<and> ew_events w' = ew_events w @ [Engagement_Closed sid (se_gathering s) (length ?items) (session_scope s)]"
      using run req ncl mv m(1,2,4,10) s1 sub
      by (cases rr; auto simp: finalize_close_def gw project_and_record_attendance_def Let_def)+
    have life: "lifecycle_ok s (log_of sid (ew_store w)) (opened_events sid (ew_events w)) (closed_events sid (ew_events w))"
      using world_ok_session [OF w Some] by simp
    have "world_ok w'"
      using m w' life True by (intro world_ok_update [OF w, where sid = sid and s = s1])
        (auto simp: lifecycle_ok_def session_states split: sum.splits)
    then show ?thesis using Some True ncl m w' sub by auto
  qed
qed

lemma accepted_row:
  assumes "ok st" "sx_gateway sx = gw" "digest_key (pq_attendee_key rq)" "participate sx rq clk st = (st', r)"
    and "\<exists>out. r = Inr out \<and> pc_accepted out"
  obtains s flags ty xs ys where "session_of (pq_session rq) st = Some s" "se_status s \<in> set LIVE_STATES"
    "engagement_type_for (se_kind s) = Inr ty"
    "sf_out_of_scope flags = (\<not> fst (validate_session_window s (request_time clk rq) (sx_grace sx)))"
    "(pq_attendee_key rq, pq_nonce rq) \<notin> row_key ` set (xs @ ys)"
    "log_of (pq_session rq) st = xs @ ys"
    "log_of (pq_session rq) st' = xs @ request_participation s rq (request_time clk rq) flags ty # ys"
  using participate_effect [OF assms(1-4)] assms(5) by blast

lemma participate_world_ok:
  assumes w: "world_ok w" and gw: "sx_gateway sx = gw" and key: "digest_key (pq_attendee_key rq)"
    and run: "participate sx rq clk (ew_store w) = (st', r)"
  shows "world_ok (w \<lparr>ew_store := st'\<rparr>)"
proof -
  have ok: "ok (ew_store w)" using w by (simp add: world_ok_def)
  note e = participate_effect [OF ok gw key run]
  show ?thesis
  proof (cases "\<exists>out. r = Inr out \<and> pc_accepted out")
    case False
    then have "log_of sid st' = log_of sid (ew_store w)" for sid using e by metis
    then show ?thesis using e w by (intro world_ok_same [OF w]) auto
  next
    case True
    from accepted_row [OF ok gw key run this]
    obtain s flags ty xs ys where n: "session_of (pq_session rq) (ew_store w) = Some s"
      "se_status s \<in> set LIVE_STATES" "engagement_type_for (se_kind s) = Inr ty"
      "(pq_attendee_key rq, pq_nonce rq) \<notin> row_key ` set (xs @ ys)"
      "log_of (pq_session rq) (ew_store w) = xs @ ys"
      "log_of (pq_session rq) st' = xs @ request_participation s rq (request_time clk rq) flags ty # ys" .
    let ?p = "request_participation s rq (request_time clk rq) flags ty"
    have sid: "se_id s = pq_session rq" using session_id [OF ok n(1)] .
    have "row_key ?p = (pq_attendee_key rq, pq_nonce rq)"
      by (simp add: request_participation_def row_key_def)
    moreover have "log_ok s (xs @ ys)" "lifecycle_ok s (xs @ ys) (opened_events (pq_session rq) (ew_events w))
        (closed_events (pq_session rq) (ew_events w))" using world_ok_session [OF w n(1)] n(5) by simp_all
    ultimately have "log_ok s (xs @ ?p # ys)" "lifecycle_ok s (xs @ ?p # ys)
        (opened_events (pq_session rq) (ew_events w)) (closed_events (pq_session rq) (ew_events w))"
      using n(2,3,4) row_ok_request [OF sid n(3) key] distinct_insert_key [of row_key xs ys ?p]
      by (auto simp: log_ok_def lifecycle_ok_def session_states)
    then show ?thesis using e n
      by (intro world_ok_update [OF w, where sid = "pq_session rq" and s = s]) simp_all
  qed
qed

lemma create_world_ok:
  assumes w: "world_ok w" and new: "session_of (se_id s) (ew_store w) = None"
    and draft: "se_status s \<in> {STATUS_DRAFT, STATUS_SCHEDULED}"
    and run: "create_session gw s (ew_store w) = Inr (s', st')"
  shows "world_ok (w \<lparr>ew_store := st'\<rparr>)"
proof -
  have st': "st' = gg_upsert_session gw s (ew_store w)"
    using run by (auto simp: create_session_def res_bind_Inr_iff)
  have ok: "ok (ew_store w)" using w by (simp add: world_ok_def)
  note u = upserting [OF ok new, folded st']
  have none: "log_of (se_id s) (ew_store w) = [] \<and> opened_events (se_id s) (ew_events w) = 0
      \<and> closed_events (se_id s) (ew_events w) = 0"
    using w new by (auto simp: world_ok_def dest: spec [of _ "se_id s"])
  show ?thesis
  proof (cases "session_of (se_id s) st' = Some s")
    case True
    then show ?thesis using u none draft
      by (intro world_ok_update [OF w, where sid = "se_id s" and s = s]) (auto simp: log_ok_def lifecycle_ok_def)
  next
    case False
    then have "session_of sid st' = session_of sid (ew_store w)" for sid using u by auto
    then show ?thesis using u by (intro world_ok_same [OF w]) auto
  qed
qed

lemma step_world_ok:
  assumes "engagement_step sx w w'" and "sx_gateway sx = gw" and "world_ok w"
  shows "world_ok w'"
  using assms
proof (induction rule: engagement_step.induct)
  case (es_create s w s' st')
  then show ?case using create_world_ok [of w s s' st'] by simp
next
  case (es_other_attendance items scope bid w b' r)
  then show ?case using world_ok_same [of w "w \<lparr>ew_bulk := b'\<rparr>"] by (simp add: world_ok_def)
next
  case (es_open sid stamp clk w s w')
  then show ?case using open_effect [OF es_open(3,2,1)] by blast
next
  case (es_close sid stamp clk w out w')
  then show ?case using close_effect [OF es_close(3,2,1)] by blast
next
  case (es_finalize sid clk w w' r)
  show ?case using finalize_effect [OF es_finalize(3,2,1)] by (rule conjunct1)
next
  case (es_participate rq clk w st' r)
  then show ?case using participate_world_ok by blast
qed

lemma run_world_ok:
  "engagement_run sx w0 w \<Longrightarrow> sx_gateway sx = gw \<Longrightarrow> world_ok w0 \<Longrightarrow> world_ok w"
proof (induction rule: engagement_run.induct)
  case (er_step w w')
  then show ?case using step_world_ok by blast
qed

lemma fresh_world_ok: "ok (ew_store w) \<Longrightarrow> fresh_world gw w \<Longrightarrow> world_ok w"
  by (auto simp: world_ok_def fresh_world_def log_ok_def lifecycle_ok_def split: option.split)

text \<open>Every step of the service is a step of the promise.\<close>

lemma step_refines:
  assumes "engagement_step sx w w'" and "sx_gateway sx = gw" and "world_ok w"
  shows "spec_step (abs_store gw (ew_store w)) (abs_store gw (ew_store w'))"
  using assms
proof (induction rule: engagement_step.induct)
  case (es_create s w s' st')
  have st': "st' = gg_upsert_session gw s (ew_store w)"
    using es_create by (auto simp: create_session_def res_bind_Inr_iff)
  have ok: "ok (ew_store w)" using es_create by (simp add: world_ok_def)
  note u = upserting [OF ok es_create(2) [unfolded es_create(4)], folded st']
  show ?case
  proof (cases "session_of (se_id s) st' = Some s")
    case True
    have "abs_store gw st' = (abs_store gw (ew_store w))
        \<lparr>sp_phase := (sp_phase (abs_store gw (ew_store w)))(se_id s := Planned)\<rparr>"
      using abs_store_phase [OF True, of "ew_store w"] u es_create(3) by (auto simp: status_phase_def)
    moreover have "sp_phase (abs_store gw (ew_store w)) (se_id s) = Absent"
      using es_create by (simp add: abs_store_def)
    ultimately show ?thesis using sp_announce by simp
  next
    case False
    then have "abs_store gw st' = abs_store gw (ew_store w)" using u by (intro abs_store_eqI) auto
    then show ?thesis using sp_skip by simp
  qed
next
  case (es_open sid stamp clk w s' w')
  note e = open_effect [OF es_open(3,2,1)]
  then obtain s where s: "session_of sid (ew_store w) = Some s" "se_status s \<in> {STATUS_DRAFT, STATUS_SCHEDULED}" by blast
  from moved_session [OF es_open(3) s(1), of STATUS_OPEN stamp clk] es_open(1,2) s
  have "\<forall>sid'. sid' \<noteq> sid \<longrightarrow> session_of sid' (ew_store w') = session_of sid' (ew_store w)"
    by (auto simp: open_session_def res_bind_Inr_iff require_session_def)
  then have "abs_store gw (ew_store w') = (abs_store gw (ew_store w))
      \<lparr>sp_phase := (sp_phase (abs_store gw (ew_store w)))(sid := Live)\<rparr>"
    using e abs_store_phase [of gw sid "ew_store w'" s' "ew_store w"] by simp
  moreover have "sp_phase (abs_store gw (ew_store w)) sid = Planned"
    using phase_of [OF s(1)] s(2) by auto
  ultimately show ?case using sp_start by simp
next
  case (es_close sid stamp clk w out w')
  note e = close_effect [OF es_close(3,2,1)]
  then obtain s s' where s: "session_of sid (ew_store w) = Some s" "se_status s = STATUS_OPEN"
    "session_of sid (ew_store w') = Some s'" "se_status s' = STATUS_CLOSING" by blast
  from moved_session [OF es_close(3) s(1), of STATUS_CLOSING stamp clk] es_close(1,2) s(1) schedule
  have "\<forall>sid'. sid' \<noteq> sid \<longrightarrow> session_of sid' (ew_store w') = session_of sid' (ew_store w)"
    by (auto simp: close_session_def res_bind_Inr_iff require_session_def Let_def)
  then have "session_of sid' (ew_store w') = session_of sid' (ew_store w)" if "sid' \<noteq> sid" for sid' using that by blast
  then have "abs_store gw (ew_store w') = (abs_store gw (ew_store w))
      \<lparr>sp_phase := (sp_phase (abs_store gw (ew_store w)))(sid := Live)\<rparr>"
    using e s abs_store_phase [of gw sid "ew_store w'" s' "ew_store w"] by simp
  moreover have "sp_phase (abs_store gw (ew_store w)) sid = Live" using phase_of [OF s(1)] s(2) by simp
  ultimately have "abs_store gw (ew_store w') = abs_store gw (ew_store w)" by (simp add: fun_upd_idem)
  then show ?case using sp_skip by simp
next
  case (es_finalize sid clk w w' r)
  note e = finalize_effect [OF es_finalize(3,2,1)]
  show ?case
  proof (cases "\<exists>s. session_of sid (ew_store w) = Some s \<and> se_status s = STATUS_CLOSING")
    case False
    then have "w' = w" using e by (auto split: option.splits if_splits)
    then show ?thesis using sp_skip by simp
  next
    case True
    then obtain s where s: "session_of sid (ew_store w) = Some s" "se_status s = STATUS_CLOSING" by blast
    moreover from this have "se_status s \<noteq> STATUS_CLOSED" by (simp add: session_states)
    ultimately obtain s' where s': "session_of sid (ew_store w') = Some s'" "se_status s' = STATUS_CLOSED"
      "\<forall>sid'. sid' \<noteq> sid \<longrightarrow> session_of sid' (ew_store w') = session_of sid' (ew_store w)"
      using e by auto
    then have "abs_store gw (ew_store w') = (abs_store gw (ew_store w))
        \<lparr>sp_phase := (sp_phase (abs_store gw (ew_store w)))(sid := Done)\<rparr>"
      using e abs_store_phase [of gw sid "ew_store w'" s' "ew_store w"] by simp
    moreover have "sp_phase (abs_store gw (ew_store w)) sid = Live" using phase_of [OF s(1)] s(2) by simp
    ultimately show ?thesis using sp_finish by simp
  qed
next
  case (es_participate rq clk w st' r)
  have ok: "ok (ew_store w)" using es_participate by (simp add: world_ok_def)
  note e = participate_effect [OF ok es_participate(3,2,1)]
  show ?case
  proof (cases "\<exists>out. r = Inr out \<and> pc_accepted out")
    case False
    then have "log_of sid st' = log_of sid (ew_store w)" for sid using e by metis
    then have "abs_store gw st' = abs_store gw (ew_store w)" using e by (intro abs_store_eqI) auto
    then show ?thesis using sp_skip by simp
  next
    case True
    from accepted_row [OF ok es_participate(3,2,1) this]
    obtain s flags ty xs ys where n: "session_of (pq_session rq) (ew_store w) = Some s"
      "se_status s \<in> set LIVE_STATES"
      "(pq_attendee_key rq, pq_nonce rq) \<notin> row_key ` set (xs @ ys)"
      "log_of (pq_session rq) (ew_store w) = xs @ ys"
      "log_of (pq_session rq) st' = xs @ request_participation s rq (request_time clk rq) flags ty # ys" .
    let ?p = "request_participation s rq (request_time clk rq) flags ty" and ?\<sigma> = "abs_store gw (ew_store w)"
    have p: "row_key ?p = (pq_attendee_key rq, pq_nonce rq)" "pt_attendee_key ?p = pq_attendee_key rq" "pt_flags ?p = flags"
      by (simp_all add: request_participation_def row_key_def)
    have "abs_store gw st' = ?\<sigma> \<lparr>sp_marks := (sp_marks ?\<sigma>)(pq_session rq := insert (pq_attendee_key rq, pq_nonce rq) (sp_marks ?\<sigma> (pq_session rq))),
      sp_credited := (sp_credited ?\<sigma>)(pq_session rq :=
        (if \<not> sf_out_of_scope flags then insert (pq_attendee_key rq) else id) (sp_credited ?\<sigma> (pq_session rq)))\<rparr>"
      using e n p by (auto simp: abs_store_def fun_eq_iff credited_insert)
    moreover have "sp_phase ?\<sigma> (pq_session rq) = Live"
      using phase_of [OF n(1)] n(2) by (auto simp: status_phase_def session_states)
    moreover have "(pq_attendee_key rq, pq_nonce rq) \<notin> sp_marks ?\<sigma> (pq_session rq)"
      using n(3,4) by (simp add: abs_store_def)
    ultimately show ?thesis using sp_mark by simp
  qed
next
  case (es_other_attendance items scope bid w b' r)
  then show ?case using sp_skip by simp
qed

lemma done_iff:
  "world_ok w \<Longrightarrow> sp_phase (abs_store gw (ew_store w)) sid = Done \<longleftrightarrow>
     (\<exists>s. session_of sid (ew_store w) = Some s \<and> se_status s = STATUS_CLOSED)"
  using world_ok_session [of w sid]
  by (cases "session_of sid (ew_store w)")
    (auto simp: abs_store_def status_phase_def lifecycle_ok_def session_states split: if_splits)

lemma done_forever:
  "engagement_run sx w w2 \<Longrightarrow> sx_gateway sx = gw \<Longrightarrow> world_ok w \<Longrightarrow>
   sp_phase (abs_store gw (ew_store w)) sid = Done \<Longrightarrow>
   sp_phase (abs_store gw (ew_store w2)) sid = Done
   \<and> sp_marks (abs_store gw (ew_store w2)) sid = sp_marks (abs_store gw (ew_store w)) sid
   \<and> sp_credited (abs_store gw (ew_store w2)) sid = sp_credited (abs_store gw (ew_store w)) sid"
proof (induction rule: engagement_run.induct)
  case (er_step w1 w2)
  then have "world_ok w1" using run_world_ok by blast
  from spec_done [OF step_refines [OF er_step(2) er_step(4) this]] er_step show ?case by simp
qed simp

end

end
