(* ===== verification/Engagement_Api.thy ===== *)
theory Engagement_Api
  imports Engagement_Redis
begin

text \<open>
  Model of \<open>flock_os/engagement_api.py\<close>: the endpoints of the engagement runtime over the
  production adapters.  Requests arrive decoded; a missing field is \<open>None\<close>.

  A raised exception ends the request.  What an endpoint wrote before is undone with the
  request's transaction, except what a commit inside the bulk write path made durable; so the
  endpoints return the state the database is left in beside the result.
\<close>

record api_gathering =
  ag_branch :: "docname option"
  ag_group :: "docname option"
  ag_organization :: "docname option"

record api_env =
  ap_user :: string
  ap_perm :: permission_gateway
  ap_gatherings :: "(docname \<times> api_gathering) list"
  ap_linked_user :: "(docname \<times> string) list"
  ap_clock :: rat
  ap_client_ip :: "string option"

datatype api_error =
    Api_Engagement engagement_error
  | Api_Gathering_Not_Found docname
  | Api_Branch_And_Organization_Required
  | Api_Scope permission_error
  | Api_Facilitator_Scope
  | Api_Not_Facilitator
  | Api_Join_Identity_Required
  | Api_Item_Key_Required nat
  | Api_Item_Nonce_Required nat
  | Api_Ticket_Malformed
  | Api_Unexpected_Keyword string

type_synonym api_world = "(redis_engagement, attendance_tables) engagement_world"
type_synonym api_service = "(redis_engagement, attendance_tables) engagement_service"

text \<open>\<open>get_service\<close>: the process-wide service with its defaults.\<close>

definition get_service :: "(participation \<Rightarrow> string) \<Rightarrow> crypto \<Rightarrow> api_service" where
  "get_service dumps cr = \<lparr>sx_gateway = FrappeEngagementGateway dumps,
     sx_bulk = FrappeBulkAttendanceGateway, sx_grace = DEFAULT_GRACE_SECONDS,
     sx_throttle = DEFAULT_PARTICIPATION_THROTTLE_PER_SEC, sx_crypto = cr\<rparr>"

text \<open>Engagement errors become a \<open>frappe.throw\<close>.\<close>

definition api_try :: "engagement_error + 'a \<Rightarrow> api_error + 'a" where
  "api_try r = (case r of Inl e \<Rightarrow> Inl (Api_Engagement e) | Inr a \<Rightarrow> Inr a)"

definition assert_facilitator :: "api_service \<Rightarrow> api_env \<Rightarrow> docname \<Rightarrow> api_world \<Rightarrow> api_error + unit" where
  "assert_facilitator sx env sid w =
    res_bind (api_try (require_session (sx_gateway sx) sid (ew_store w))) (\<lambda>session.
      let scoped = is_ok (assert_branch_scope (ap_perm env) (Some (se_branch session)) (ap_user env))
      in if is_bypass_user (pg_user_roles (ap_perm env) (ap_user env))
         then raise_if (\<not> scoped) Api_Facilitator_Scope
         else let facilitator_user = (if truthy (se_facilitator session)
                    then map_of (ap_linked_user env) (the (se_facilitator session)) else None)
         in if truthy facilitator_user \<and> facilitator_user = Some (ap_user env) then Inr ()
            else raise_if (\<not> scoped) Api_Not_Facilitator)"

record create_request =
  cq_gathering :: docname
  cq_title :: string
  cq_engagement_type :: string
  cq_kind :: string
  cq_branch :: "docname option"
  cq_group :: "docname option"
  cq_organization :: "docname option"
  cq_facilitator :: "docname option"
  cq_config :: pydict
  cq_geofence :: "pydict option"
  cq_grace_seconds :: rat
  cq_scheduled_at :: "string option"

text \<open>\<open>_persist_session_doc\<close>: a name that is taken is logged and skipped.\<close>

definition persist_session_doc :: "engagement_session \<Rightarrow> create_request \<Rightarrow> redis_engagement \<Rightarrow> redis_engagement" where
  "persist_session_doc session rq st =
    (if map_of (rx_sessions st) (se_id session) \<noteq> None then st
     else st \<lparr>rx_sessions := rx_sessions st @ [(se_id session,
       \<lparr>se_id = se_id session, se_gathering = se_gathering session, se_branch = se_branch session,
        se_organization = se_organization session, se_group = se_group session, se_kind = se_kind session,
        se_status = se_status session, se_open_at = None, se_close_at = None,
        se_facilitator = se_facilitator session, se_config = se_config session,
        se_geofence = (case se_geofence session of Some g \<Rightarrow> if g = [] then None else Some g | None \<Rightarrow> None),
        sd_title = cq_title rq, sd_engagement_type = cq_engagement_type rq,
        sd_grace_seconds = cq_grace_seconds rq, sd_scheduled_at = cq_scheduled_at rq,
        sd_attendee_count = None, sd_batch_id = None, sd_room_code = None, sd_calm = False\<rparr>)]\<rparr>)"

text \<open>\<open>create_session\<close>, with the name the naming series yields.\<close>

definition api_create_session :: "api_service \<Rightarrow> api_env \<Rightarrow> create_request \<Rightarrow> docname \<Rightarrow> api_world
    \<Rightarrow> api_error + (docname \<times> string) \<times> api_world" where
  "api_create_session sx env rq sid w =
    (case map_of (ap_gatherings env) (cq_gathering rq) of None \<Rightarrow> Inl (Api_Gathering_Not_Found (cq_gathering rq))
     | Some g \<Rightarrow>
       let branch = or_else (cq_branch rq) (ag_branch g);
           grp = or_else (cq_group rq) (ag_group g);
           org = or_else (cq_organization rq) (ag_organization g)
       in if \<not> truthy branch \<or> \<not> truthy org then Inl Api_Branch_And_Organization_Required
          else case assert_branch_scope (ap_perm env) branch (ap_user env) of Inl e \<Rightarrow> Inl (Api_Scope e)
          | Inr _ \<Rightarrow>
            let status = (if truthy (cq_scheduled_at rq) then STATUS_SCHEDULED else STATUS_DRAFT);
                session = \<lparr>se_id = sid, se_gathering = cq_gathering rq, se_branch = the branch,
                  se_organization = the org, se_group = grp, se_kind = cq_kind rq, se_status = status,
                  se_open_at = None, se_close_at = None, se_facilitator = cq_facilitator rq,
                  se_config = cq_config rq, se_geofence = cq_geofence rq\<rparr>
            in res_bind (api_try (create_session (sx_gateway sx) session (ew_store w))) (\<lambda>(_, st).
                 Inr ((sid, status), w \<lparr>ew_store := persist_session_doc session rq st\<rparr>)))"

definition api_open_session :: "api_service \<Rightarrow> api_env \<Rightarrow> docname \<Rightarrow> api_world
    \<Rightarrow> api_error + (docname \<times> string) \<times> api_world" where
  "api_open_session sx env sid w =
    res_bind (assert_facilitator sx env sid w) (\<lambda>_.
    res_bind (api_try (open_session sx sid None (ap_clock env) w)) (\<lambda>(_, w1).
      Inr ((sid, STATUS_OPEN),
        w1 \<lparr>ew_store := update_session_row sid (\<lambda>row. row \<lparr>se_status := STATUS_OPEN\<rparr>) (ew_store w1)\<rparr>)))"

definition engagement_batch_id :: "docname \<Rightarrow> string" where
  "engagement_batch_id sid = ''engagement:'' @ sid"

definition api_close_session :: "api_service \<Rightarrow> api_env \<Rightarrow> docname \<Rightarrow> api_world
    \<Rightarrow> api_error + close_outcome \<times> api_world" where
  "api_close_session sx env sid w =
    res_bind (assert_facilitator sx env sid w) (\<lambda>_.
    res_bind (api_try (close_session sx sid None (ap_clock env) w)) (\<lambda>(outcome, w1).
      Inr (outcome, w1 \<lparr>ew_store := update_session_row sid (\<lambda>row.
        row \<lparr>se_status := STATUS_CLOSING, sd_attendee_count := Some (co_attendee_count outcome),
             sd_batch_id := Some (engagement_batch_id sid)\<rparr>) (ew_store w1)\<rparr>)))"

record finalize_reply =
  fr_status :: string
  fr_error :: "engagement_error option"
  fr_outcome :: "close_outcome option"

text \<open>\<open>finalize_close\<close> answers an engagement error in its reply; a failed write is no engagement
  error and is raised.  The seed of the summary committed the new status before that write.\<close>

definition api_finalize_close :: "api_service \<Rightarrow> api_env \<Rightarrow> docname \<Rightarrow> api_world
    \<Rightarrow> api_world \<times> (api_error + finalize_reply)" where
  "api_finalize_close sx env sid w =
    (case finalize_close sx sid (ap_clock env) w of
       (w1, Inl (Attendance_Write e)) \<Rightarrow> (w1, Inl (Api_Engagement (Attendance_Write e)))
     | (w1, Inl e) \<Rightarrow> (w1, Inr \<lparr>fr_status = STATUS_CLOSING, fr_error = Some e, fr_outcome = None\<rparr>)
     | (w1, Inr outcome) \<Rightarrow>
         (if co_finalized outcome
          then w1 \<lparr>ew_store := update_session_row sid (\<lambda>row.
                 row \<lparr>se_status := STATUS_CLOSED, sd_attendee_count := Some (co_attendee_count outcome),
                      sd_batch_id := Some (engagement_batch_id sid)\<rparr>) (ew_store w1)\<rparr>
          else w1,
          Inr \<lparr>fr_status = (if co_finalized outcome then STATUS_CLOSED else STATUS_CLOSING),
               fr_error = None, fr_outcome = Some outcome\<rparr>))"

text \<open>A worker calls the job's target with the keywords of the job; \<open>finalize_close\<close> takes the
  session id and nothing else.\<close>

definition run_finalize_job :: "api_service \<Rightarrow> api_env \<Rightarrow> queued_call \<Rightarrow> api_world
    \<Rightarrow> api_world \<times> (api_error + finalize_reply)" where
  "run_finalize_job sx env job w =
    (case filter (\<lambda>k. k \<noteq> ''session_id'') (map fst (qc_kwargs job)) of
       k # _ \<Rightarrow> (w, Inl (Api_Unexpected_Keyword k))
     | [] \<Rightarrow> (case py_get (qc_kwargs job) ''session_id'' of
           Py_Str sid \<Rightarrow> api_finalize_close sx env sid w
         | _ \<Rightarrow> (w, Inl (Api_Unexpected_Keyword ''session_id''))))"

record session_snapshot =
  sn_status :: string
  sn_kind :: string
  sn_engagement_type :: string
  sn_gathering :: docname
  sn_branch :: docname
  sn_group :: "docname option"
  sn_organization :: docname
  sn_open_at :: "rat option"
  sn_close_at :: "rat option"
  sn_attendee_count :: nat

definition session_state :: "api_service \<Rightarrow> docname \<Rightarrow> api_world \<Rightarrow> api_error + session_snapshot" where
  "session_state sx sid w =
    res_bind (api_try (require_session (sx_gateway sx) sid (ew_store w))) (\<lambda>session.
    res_bind (api_try (engagement_type_for (se_kind session))) (\<lambda>ty.
      Inr \<lparr>sn_status = se_status session, sn_kind = se_kind session, sn_engagement_type = ty,
           sn_gathering = se_gathering session, sn_branch = se_branch session,
           sn_group = se_group session, sn_organization = se_organization session,
           sn_open_at = se_open_at session, sn_close_at = se_close_at session,
           sn_attendee_count = length (gg_attendees (sx_gateway sx) sid (ew_store w))\<rparr>))"

definition join_session :: "api_service \<Rightarrow> api_env \<Rightarrow> docname \<Rightarrow> docname option \<Rightarrow> string option
    \<Rightarrow> api_world \<Rightarrow> api_error + session_ticket \<times> session_snapshot" where
  "join_session sx env sid member_id device w =
    (if \<not> truthy device \<and> \<not> truthy member_id then Inl Api_Join_Identity_Required
     else res_bind (api_try (join sx sid member_id (or_empty device) (ap_clock env) (ew_store w))) (\<lambda>ticket.
          res_bind (session_state sx sid w) (\<lambda>state. Inr (ticket, state))))"

text \<open>\<open>participate\<close>: the caller's fields, the client's address from the request.\<close>

definition api_participate :: "api_service \<Rightarrow> api_env \<Rightarrow> participate_request \<Rightarrow> api_world
    \<Rightarrow> api_world \<times> (api_error + participation_receipt)" where
  "api_participate sx env rq w =
    (let (st, r) = participate sx (rq \<lparr>pq_ip := ap_client_ip env\<rparr>) (ap_clock env) (ew_store w)
     in (w \<lparr>ew_store := st\<rparr>, api_try r))"

record flush_item =
  fi_ticket :: "session_ticket option"
  fi_attendee_key :: "string option"
  fi_nonce :: "string option"
  fi_member :: "docname option"
  fi_display_name :: "string option"
  fi_device :: "string option"
  fi_role :: "string option"
  fi_score :: "rat option"
  fi_reaction_ms :: "rat option"
  fi_submitted_at :: "rat option"
  fi_client_submitted_at :: "rat option"
  fi_geo_region :: "string option"
  fi_offline_replay :: bool
  fi_feedback :: "pydict option"

definition request_from_item ::
  "api_env \<Rightarrow> docname \<Rightarrow> nat \<Rightarrow> flush_item \<Rightarrow> api_error + participate_request" where
  "request_from_item env sid index raw =
    (case fi_attendee_key raw of None \<Rightarrow> Inl (Api_Item_Key_Required index) | Some key \<Rightarrow>
     case fi_nonce raw of None \<Rightarrow> Inl (Api_Item_Nonce_Required index) | Some nonce \<Rightarrow>
     case fi_ticket raw of None \<Rightarrow> Inl Api_Ticket_Malformed | Some ticket \<Rightarrow>
       Inr \<lparr>pq_session = sid, pq_ticket = ticket, pq_attendee_key = key, pq_member = fi_member raw,
            pq_display_name = or_empty (fi_display_name raw), pq_device = or_empty (fi_device raw),
            pq_nonce = nonce, pq_role = fi_role raw, pq_score = fi_score raw,
            pq_reaction_ms = fi_reaction_ms raw, pq_submitted_at = fi_submitted_at raw,
            pq_client_submitted_at = fi_client_submitted_at raw, pq_ip = ap_client_ip env,
            pq_geo_region = fi_geo_region raw, pq_offline_replay = fi_offline_replay raw,
            pq_feedback = (case fi_feedback raw of None \<Rightarrow> [] | Some f \<Rightarrow> f)\<rparr>)"

fun requests_from_items ::
  "api_env \<Rightarrow> docname \<Rightarrow> nat \<Rightarrow> flush_item list \<Rightarrow> api_error + participate_request list" where
  "requests_from_items env sid index [] = Inr []"
| "requests_from_items env sid index (raw # raws) =
     res_bind (request_from_item env sid index raw) (\<lambda>rq.
     res_bind (requests_from_items env sid (index + 1) raws) (\<lambda>rqs. Inr (rq # rqs)))"

record flush_reply =
  fl_accepted :: nat
  fl_deduplicated :: nat
  fl_receipts :: "participation_receipt list"

definition bulk_attendance :: "api_service \<Rightarrow> api_env \<Rightarrow> docname \<Rightarrow> flush_item list \<Rightarrow> api_world
    \<Rightarrow> api_world \<times> (api_error + flush_reply)" where
  "bulk_attendance sx env sid items w =
    (case requests_from_items env sid 0 items of Inl e \<Rightarrow> (w, Inl e)
     | Inr requests \<Rightarrow>
       (case bulk_participate sx requests (ap_clock env) (ew_store w) of
          (st, Inl e) \<Rightarrow> (w \<lparr>ew_store := st\<rparr>, Inl (Api_Engagement e))
        | (st, Inr receipts) \<Rightarrow> (w \<lparr>ew_store := st\<rparr>,
            Inr \<lparr>fl_accepted = length (filter pc_accepted receipts),
                 fl_deduplicated = length (filter (\<lambda>r. pc_reason r = Some ''duplicate_nonce'') receipts),
                 fl_receipts = receipts\<rparr>)))"

end
