(* ===== verification/Engagement_Demo.thy ===== *)
theory Engagement_Demo
  imports Engagement_Safety Engagement_Api
begin

text \<open>
  Concrete sessions for the witnesses of the engagement runtime: two drafts \<open>E1\<close> and \<open>E2\<close> of one
  gathering, opened, joined and played through the production service, with a digest that keeps
  its input but for the separator and a signature that prefixes the secret.
\<close>

definition demo_crypto :: crypto where
  "demo_crypto = \<lparr>cr_sha256 = filter (\<lambda>c. c \<noteq> CHR ''|''), cr_hmac = (\<lambda>secret payload. secret @ payload)\<rparr>"

definition demo_dumps :: "participation \<Rightarrow> string" where
  "demo_dumps p = nonce_member p"

definition demo_engagement :: api_service where
  "demo_engagement = get_service demo_dumps demo_crypto"

definition demo_session_doc :: "docname \<Rightarrow> session_doc" where
  "demo_session_doc sid = \<lparr>se_id = sid, se_gathering = ''G'', se_branch = ''B'', se_organization = ''O'',
     se_group = None, se_kind = ''tap_burst'', se_status = STATUS_DRAFT, se_open_at = None, se_close_at = None,
     se_facilitator = None, se_config = [], se_geofence = None, sd_title = ''T'', sd_engagement_type = ''game'',
     sd_grace_seconds = 30, sd_scheduled_at = None, sd_attendee_count = None, sd_batch_id = None,
     sd_room_code = None, sd_calm = False\<rparr>"

definition demo_world :: api_world where
  "demo_world = \<lparr>ew_store = \<lparr>rx_org_secrets = [], rx_site_secret = Some ''s'',
       rx_sessions = [(''E1'', demo_session_doc ''E1''), (''E2'', demo_session_doc ''E2'')],
       rx_log = [], rx_nonces = [], rx_throttle = [], rx_jobs = [], rx_utc_offset = 0\<rparr>,
     ew_bulk = empty_tables, ew_events = []\<rparr>"

definition demo_open :: "docname \<Rightarrow> api_world \<Rightarrow> api_world" where
  "demo_open sid w = snd (projr (open_session demo_engagement sid None 0 w))"

definition demo_close :: "docname \<Rightarrow> api_world \<Rightarrow> api_world" where
  "demo_close sid w = snd (projr (close_session demo_engagement sid None 30 w))"

definition demo_finalize :: "docname \<Rightarrow> api_world \<Rightarrow> api_world" where
  "demo_finalize sid w = fst (finalize_close demo_engagement sid 60 w)"

definition demo_ticket :: "docname \<Rightarrow> docname \<Rightarrow> api_world \<Rightarrow> session_ticket" where
  "demo_ticket sid m w = projr (join demo_engagement sid (Some m) ''D'' 10 (ew_store w))"

definition demo_request :: "docname \<Rightarrow> session_ticket \<Rightarrow> docname \<Rightarrow> string \<Rightarrow> participate_request" where
  "demo_request sid t m n = \<lparr>pq_session = sid, pq_ticket = t, pq_attendee_key = tk_attendee_key t,
     pq_member = Some m, pq_display_name = ''A'', pq_device = ''D'', pq_nonce = n, pq_role = None,
     pq_score = Some 120, pq_reaction_ms = None, pq_submitted_at = None, pq_client_submitted_at = None,
     pq_ip = None, pq_geo_region = None, pq_offline_replay = False, pq_feedback = []\<rparr>"

definition demo_play :: "participate_request \<Rightarrow> api_world \<Rightarrow> api_world" where
  "demo_play rq w = w \<lparr>ew_store := fst (participate demo_engagement rq 20 (ew_store w))\<rparr>"

definition demo_live :: api_world where
  "demo_live = demo_open ''E2'' (demo_open ''E1'' demo_world)"

text \<open>One attendee of \<open>E1\<close>; and one person in \<open>E2\<close> under the keys of both sessions.\<close>

definition demo_rq1 :: participate_request where
  "demo_rq1 = demo_request ''E1'' (demo_ticket ''E1'' ''M1'' demo_live) ''M1'' ''n1''"

definition demo_rq2 :: participate_request where
  "demo_rq2 = demo_request ''E2'' (demo_ticket ''E2'' ''M1'' demo_live) ''M1'' ''n2''"

definition demo_rq3 :: participate_request where
  "demo_rq3 = demo_request ''E2'' (demo_ticket ''E1'' ''M1'' demo_live) ''M1'' ''n3''"

definition demo_credit :: api_world where "demo_credit = demo_play demo_rq1 demo_live"
definition demo_closing :: api_world where "demo_closing = demo_close ''E1'' demo_credit"
definition demo_done :: api_world where "demo_done = demo_finalize ''E1'' demo_closing"
definition demo_two :: api_world where "demo_two = demo_play demo_rq3 (demo_play demo_rq2 demo_live)"
definition demo_twice :: api_world where "demo_twice = demo_close ''E2'' demo_two"

text \<open>An organization administrator at the endpoints.\<close>

definition demo_env :: api_env where
  "demo_env = \<lparr>ap_user = ''A'',
     ap_perm = NullPermissionGateway \<lparr>pg_user_roles := (\<lambda>_. {ROLE_ORG_ADMIN})\<rparr>,
     ap_gatherings = [(''G'', \<lparr>ag_branch = Some ''B'', ag_group = None, ag_organization = Some ''O''\<rparr>)],
     ap_linked_user = [], ap_clock = 5, ap_client_ip = None\<rparr>"

section \<open>The runs that reach them\<close>

lemma demo_open_run:
  "engagement_run demo_engagement w0 w \<Longrightarrow> is_ok (open_session demo_engagement sid None 0 w) \<Longrightarrow>
   engagement_run demo_engagement w0 (demo_open sid w)"
  by (cases "open_session demo_engagement sid None 0 w")
    (auto simp: demo_open_def dest!: es_open intro: er_step)

lemma demo_close_run:
  "engagement_run demo_engagement w0 w \<Longrightarrow> is_ok (close_session demo_engagement sid None 30 w) \<Longrightarrow>
   engagement_run demo_engagement w0 (demo_close sid w)"
  by (cases "close_session demo_engagement sid None 30 w")
    (auto simp: demo_close_def dest!: es_close intro: er_step)

lemma demo_finalize_run:
  "engagement_run demo_engagement w0 w \<Longrightarrow> engagement_run demo_engagement w0 (demo_finalize sid w)"
  by (cases "finalize_close demo_engagement sid 60 w")
    (auto simp: demo_finalize_def intro: er_step es_finalize)

lemma demo_play_run:
  "engagement_run demo_engagement w0 w \<Longrightarrow> digest_key (pq_attendee_key rq) \<Longrightarrow>
   engagement_run demo_engagement w0 (demo_play rq w)"
  by (cases "participate demo_engagement rq 20 (ew_store w)")
    (auto simp: demo_play_def intro: er_step es_participate)

lemma demo_opens: "is_ok (open_session demo_engagement ''E1'' None 0 demo_world)"
  "is_ok (open_session demo_engagement ''E2'' None 0 (demo_open ''E1'' demo_world))"
  by code_simp+

lemma demo_keys: "digest_key (pq_attendee_key demo_rq1)" "digest_key (pq_attendee_key demo_rq2)"
  "digest_key (pq_attendee_key demo_rq3)"
  by code_simp+

lemma demo_closes: "is_ok (close_session demo_engagement ''E1'' None 30 demo_credit)"
  "is_ok (close_session demo_engagement ''E2'' None 30 demo_two)"
  by code_simp+

lemma demo_runs:
  "engagement_run demo_engagement demo_world demo_live"
  "engagement_run demo_engagement demo_world demo_credit"
  "engagement_run demo_engagement demo_world demo_closing"
  "engagement_run demo_engagement demo_world demo_done"
  "engagement_run demo_engagement demo_world demo_two"
  "engagement_run demo_engagement demo_world demo_twice"
  unfolding demo_twice_def demo_two_def demo_done_def demo_closing_def demo_credit_def demo_live_def
  using demo_opens demo_keys demo_closes
  by (auto simp: demo_live_def demo_credit_def demo_two_def
      intro!: demo_open_run demo_close_run demo_finalize_run demo_play_run er_start)

lemma demo_gateway: "sx_gateway demo_engagement = FrappeEngagementGateway demo_dumps"
  "sx_bulk demo_engagement = FrappeBulkAttendanceGateway"
  by (simp_all add: demo_engagement_def get_service_def)

end
