(* ===== verification/Engagement_Limits.thy ===== *)
theory Engagement_Limits
  imports Engagement_Demo
begin

text \<open>
  The limits the engagement runtime sets itself: what a signed ticket payload determines, how many
  participations the throttle lets through, when the session window is enforced, and whether the
  deferred finalize can run.
\<close>

section \<open>Ticket payloads\<close>

lemma last_bar:
  "x \<notin> set cs \<Longrightarrow> x \<notin> set ds \<Longrightarrow> as @ x # cs = bs @ x # ds \<longleftrightarrow> as = bs \<and> cs = ds"
proof -
  assume "x \<notin> set cs" "x \<notin> set ds"
  then have "rev cs @ x # rev as = rev ds @ x # rev bs \<longleftrightarrow> rev cs = rev ds \<and> rev as = rev bs"
    by (intro first_bar) auto
  then show ?thesis by (metis append.assoc append_Cons append_Nil rev.simps(2) rev_append rev_rev_ident)
qed

lemma digits_value_zeros: "digits_value 0 (replicate k CHR ''0'' @ s) = digits_value 0 s"
  by (induction k) auto

lemma pad6_inject: "0 \<le> m \<Longrightarrow> 0 \<le> n \<Longrightarrow> pad6 m = pad6 n \<Longrightarrow> m = n"
  by (metis digits_value_digits digits_value_zeros pad6_def)

lemma digits_no_sign: "0 \<le> n \<Longrightarrow> c \<in> set (digits n) \<Longrightarrow> c \<notin> {CHR ''.'', CHR ''-'', CHR ''|''}"
  using digits_chars [of n c] by auto

lemma pad6_chars: "c \<in> set (pad6 n) \<Longrightarrow> c = CHR ''0'' \<or> c \<in> set (digits n)"
  by (auto simp: pad6_def Let_def)

lemma fixed6_no_bar: "CHR ''|'' \<notin> set (fixed6 x)"
proof -
  let ?a = "\<bar>half_even (x * 1000000)\<bar>"
  have "0 \<le> ?a div 1000000" "0 \<le> ?a mod 1000000" by simp_all
  note digits_no_sign [OF this(1), of "CHR ''|''"] digits_no_sign [OF this(2), of "CHR ''|''"]
  then show ?thesis using pad6_chars [of "CHR ''|''" "?a mod 1000000"] by (auto simp: fixed6_def Let_def)
qed

lemma half_even_sign: "(x < 0 \<longrightarrow> half_even x \<le> 0) \<and> (0 \<le> x \<longrightarrow> 0 \<le> half_even x)"
  unfolding half_even_def Let_def by (auto simp: not_less)

lemma digits_no_minus: "0 \<le> n \<Longrightarrow> digits n @ s \<noteq> CHR ''-'' # s'"
proof
  assume n: "0 \<le> n" and e: "digits n @ s = CHR ''-'' # s'"
  have "digits n \<noteq> []" by (subst digits.simps) simp
  then have "hd (digits n @ s) \<in> set (digits n)" by simp
  then show False using digits_no_sign [OF n] e by (metis insertI1 insertI2 list.sel(1))
qed

lemma fixed6_inject: "fixed6 x = fixed6 y \<Longrightarrow> half_even (x * 1000000) = half_even (y * 1000000)"
proof -
  assume eq: "fixed6 x = fixed6 y"
  let ?a = "\<lambda>x. \<bar>half_even (x * 1000000)\<bar>"
  have nn: "0 \<le> ?a x div 1000000" "0 \<le> ?a x mod 1000000" for x by simp_all
  have sgn: "x < 0 \<longleftrightarrow> y < 0"
    using eq digits_no_minus [OF nn(1)] by (auto simp: fixed6_def Let_def split: if_splits) metis+
  then have "digits (?a x div 1000000) @ CHR ''.'' # pad6 (?a x mod 1000000) =
      digits (?a y div 1000000) @ CHR ''.'' # pad6 (?a y mod 1000000)"
    using eq by (auto simp: fixed6_def Let_def split: if_splits)
  then have "digits (?a x div 1000000) = digits (?a y div 1000000) \<and> pad6 (?a x mod 1000000) = pad6 (?a y mod 1000000)"
    using digits_no_sign [OF nn(1)] by (subst (asm) first_bar) blast+
  then have "?a x div 1000000 = ?a y div 1000000" "?a x mod 1000000 = ?a y mod 1000000"
    using digits_inject [OF nn(1) nn(1)] pad6_inject [OF nn(2) nn(2)] by blast+
  then have "?a x = ?a y" by (metis div_mult_mod_eq)
  moreover have "x * 1000000 < 0 \<longleftrightarrow> x < 0" "y * 1000000 < 0 \<longleftrightarrow> y < 0" by auto
  ultimately show ?thesis using sgn half_even_sign [of "x * 1000000"] half_even_sign [of "y * 1000000"]
    by (cases "x < 0") auto
qed

text \<open>What is signed determines the ticket: two tickets with one canonical payload are for one
  session and one attendee key, and their times agree to the microsecond, although a session id
  may contain the separator.\<close>
theorem ticket_payload_determines:
  assumes "digest_key key" "digest_key key'"
    and "canonical_ticket_payload sid key issued expires = canonical_ticket_payload sid' key' issued' expires'"
  shows "sid = sid' \<and> key = key' \<and> half_even (issued * 1000000) = half_even (issued' * 1000000)
    \<and> half_even (expires * 1000000) = half_even (expires' * 1000000)"
proof -
  have e: "(sid @ CHR ''|'' # key @ CHR ''|'' # fixed6 issued) @ CHR ''|'' # fixed6 expires =
      (sid' @ CHR ''|'' # key' @ CHR ''|'' # fixed6 issued') @ CHR ''|'' # fixed6 expires'"
    using assms(3) by (simp add: canonical_ticket_payload_def)
  then have e1: "(sid @ CHR ''|'' # key) @ CHR ''|'' # fixed6 issued = (sid' @ CHR ''|'' # key') @ CHR ''|'' # fixed6 issued'"
    and x: "fixed6 expires = fixed6 expires'"
    by (subst (asm) last_bar [OF fixed6_no_bar fixed6_no_bar]; simp)+
  then have "sid @ CHR ''|'' # key = sid' @ CHR ''|'' # key'" and i: "fixed6 issued = fixed6 issued'"
    by (subst (asm) last_bar [OF fixed6_no_bar fixed6_no_bar]; simp)+
  then have "sid = sid' \<and> key = key'" using assms(1,2) by (simp add: digest_key_def last_bar)
  then show ?thesis using x i fixed6_inject by blast
qed

lemma ticket_payload_determines_witness:
  "half_even (10 * 1000000) = half_even (100000001 / 10000000 * 1000000)"
proof -
  have d: "digest_key ''k''" "digest_key ''k''"
    and e: "canonical_ticket_payload ''A|B'' ''k'' 10 3610 = canonical_ticket_payload ''A|B'' ''k'' (100000001 / 10000000) 3610"
    by code_simp+
  from ticket_payload_determines [OF d e] show ?thesis by blast
qed

section \<open>The throttle\<close>

text \<open>The times of the calls a sequence of throttle requests lets through.\<close>

fun throttle_log :: "'s engagement_gateway \<Rightarrow> string \<Rightarrow> nat \<Rightarrow> rat list \<Rightarrow> 's \<Rightarrow> rat list" where
  "throttle_log gw key n [] st = []"
| "throttle_log gw key n (t # ts) st =
     (case gg_throttle_allows gw key t n st of (allowed, st') \<Rightarrow>
        if allowed then t # throttle_log gw key n ts st' else throttle_log gw key n ts st')"

definition in_second :: "rat \<Rightarrow> rat list \<Rightarrow> nat" where
  "in_second u ts = length (filter (\<lambda>t. u \<le> t \<and> t \<le> u + 1) ts)"

lemma throttle_log_subset: "set (throttle_log gw key n ts st) \<subseteq> set ts"
proof (induction ts arbitrary: st)
  case (Cons t ts)
  obtain a st' where "gg_throttle_allows gw key t n st = (a, st')" by (cases "gg_throttle_allows gw key t n st")
  then show ?case using Cons.IH [of st'] by auto
qed simp

lemma in_second_none: "\<forall>t \<in> set ts. u + 1 < t \<Longrightarrow> in_second u ts = 0"
  by (auto simp: in_second_def filter_empty_conv)

lemma in_second_append: "in_second u (xs @ ys) = in_second u xs + in_second u ys"
  by (simp add: in_second_def)

lemma in_second_le: "in_second u xs \<le> length xs" by (simp add: in_second_def)

lemma in_second_split:
  "in_second u xs = in_second u (filter P xs) + in_second u (filter (\<lambda>x. \<not> P x) xs)"
  by (induction xs) (auto simp: in_second_def)

text \<open>With the bucket as it is and times that never go back, no second holds more than the limit.\<close>

lemma throttle_window:
  "sorted ts \<Longrightarrow> \<forall>b \<in> set (dict_or [] (mm_throttle st) key). \<forall>t \<in> set ts. b \<le> t \<Longrightarrow>
   \<forall>u. in_second u (dict_or [] (mm_throttle st) key) \<le> n \<Longrightarrow>
   in_second u (dict_or [] (mm_throttle st) key @ throttle_log InMemoryEngagementGateway key n ts st) \<le> n"
proof (induction ts arbitrary: st)
  case Nil
  then show ?case by simp
next
  case (Cons t ts)
  let ?b = "dict_or [] (mm_throttle st) key" and ?gw = "InMemoryEngagementGateway"
  let ?kept = "filter (\<lambda>ts. ts \<ge> t - 1) ?b" and ?old = "filter (\<lambda>ts. \<not> ts \<ge> t - 1) ?b"
  obtain allowed st' where a: "mem_throttle_allows key t n st = (allowed, st')"
    by (cases "mem_throttle_allows key t n st")
  let ?rest = "throttle_log ?gw key n ts st'"
  have b': "dict_or [] (mm_throttle st') key = (if allowed then ?kept @ [t] else ?kept)"
    "allowed \<longleftrightarrow> length ?kept < n"
    using a by (auto simp: mem_throttle_allows_def Let_def split: if_splits)
  have log: "throttle_log ?gw key n (t # ts) st = (if allowed then t # ?rest else ?rest)"
    using a by (simp add: InMemoryEngagementGateway_def)
  have later: "\<forall>x \<in> set (throttle_log ?gw key n (t # ts) st). t \<le> x"
    using throttle_log_subset [of ?gw key n ts st'] Cons.prems(1) unfolding log by auto
  have split: "in_second u ?b = in_second u ?kept + in_second u ?old"
    by (rule in_second_split)
  have "\<forall>u. in_second u (dict_or [] (mm_throttle st') key) \<le> n"
  proof
    fix u
    have "in_second u ?kept \<le> in_second u ?b"
      using in_second_split [of u ?b "\<lambda>ts. ts \<ge> t - 1"] by simp
    then show "in_second u (dict_or [] (mm_throttle st') key) \<le> n"
      using Cons.prems(3) b' in_second_le [of u "?kept @ [t]"] by (auto intro: order.trans)
  qed
  moreover have "\<forall>b \<in> set (dict_or [] (mm_throttle st') key). \<forall>t \<in> set ts. b \<le> t"
    using Cons.prems(1,2) b'(1) by auto
  ultimately have IH: "in_second u (dict_or [] (mm_throttle st') key @ ?rest) \<le> n"
    using Cons.IH [of st'] Cons.prems(1) by simp
  show ?case
  proof (cases "u + 1 < t")
    case True
    then have "\<forall>x \<in> set (throttle_log ?gw key n (t # ts) st). u + 1 < x" using later by (meson less_le_trans)
    from in_second_none [OF this] show ?thesis
      using Cons.prems(3) by (simp add: in_second_append del: throttle_log.simps)
  next
    case False
    then have "in_second u ?old = 0" by (auto simp: in_second_def filter_empty_conv)
    then show ?thesis using IH b' split by (auto simp: in_second_append log in_second_def simp del: throttle_log.simps)
  qed
qed

text \<open>With times that never go back, the in-memory throttle lets at most its limit of calls of
  one key through in any second.\<close>
theorem throttle_bounds_a_second:
  assumes "sorted ts" "dict_or [] (mm_throttle st) key = []"
  shows "length (filter (\<lambda>t. u \<le> t \<and> t \<le> u + 1) (throttle_log InMemoryEngagementGateway key n ts st)) \<le> n"
  using throttle_window [of ts st key n u] assms by (simp add: in_second_def)

lemma throttle_bounds_a_second_witness:
  "length (filter (\<lambda>t. 0 \<le> t \<and> t \<le> 0 + 1)
     (throttle_log InMemoryEngagementGateway ''k'' 2 [0, 1 / 4, 1 / 2, 3 / 2] (mem_engagement_init ''s''))) \<le> 2
   \<and> throttle_log InMemoryEngagementGateway ''k'' 2 [0, 1 / 4, 1 / 2, 3 / 2] (mem_engagement_init ''s'') = [0, 1 / 4, 3 / 2]"
proof -
  have "sorted [0, 1 / 4, 1 / 2, 3 / 2 :: rat]" "dict_or [] (mm_throttle (mem_engagement_init ''s'')) ''k'' = []"
    "throttle_log InMemoryEngagementGateway ''k'' 2 [0, 1 / 4, 1 / 2, 3 / 2] (mem_engagement_init ''s'') = [0, 1 / 4, 3 / 2]"
    by code_simp+
  then show ?thesis using throttle_bounds_a_second by blast
qed

text \<open>The production throttle counts distinct times, and the time is the client's: any number of
  calls with one time stamp passes.\<close>
theorem equal_times_pass_throttle:
  assumes "dict_or [] (rx_throttle st) key = []"
  shows "throttle_log (FrappeEngagementGateway dumps) key DEFAULT_PARTICIPATION_THROTTLE_PER_SEC (replicate m t) st
    = replicate m t"
proof -
  have "set (dict_or [] (rx_throttle st) key) \<subseteq> {t} \<Longrightarrow> length (dict_or [] (rx_throttle st) key) \<le> 1 \<Longrightarrow>
      throttle_log (FrappeEngagementGateway dumps) key 5 (replicate m t) st = replicate m t" for st
  proof (induction m arbitrary: st)
    case (Suc m)
    let ?b = "dict_or [] (rx_throttle st) key"
    obtain allowed st' where a: "redis_throttle_allows key t 5 st = (allowed, st')"
      by (cases "redis_throttle_allows key t 5 st")
    have "?b = [] \<or> ?b = [t]" using Suc.prems by (cases ?b) auto
    then have "allowed \<and> dict_or [] (rx_throttle st') key = [t]"
      using a by (auto simp: redis_throttle_allows_def Let_def)
    then have "allowed" "dict_or [] (rx_throttle st') key = [t]" by simp_all
    with Suc.IH [of st'] a show ?case by (simp add: FrappeEngagementGateway_def)
  qed simp
  then show ?thesis using assms by (simp add: DEFAULT_PARTICIPATION_THROTTLE_PER_SEC_def)
qed

lemma equal_times_pass_throttle_witness:
  "throttle_log (FrappeEngagementGateway demo_dumps) ''k'' DEFAULT_PARTICIPATION_THROTTLE_PER_SEC (replicate 100 7)
     (ew_store demo_world) = replicate 100 7"
  by (rule equal_times_pass_throttle) code_simp

section \<open>The window and the deferred finalize\<close>

lemma unstamped_window: "se_open_at s = None \<Longrightarrow> se_close_at s = None \<Longrightarrow> validate_session_window s t g = (True, None)"
  by (simp add: validate_session_window_def)

lemma unstamped_row:
  "se_open_at (session_from_row off row) = None \<longleftrightarrow> se_open_at row = None"
  "se_close_at (session_from_row off row) = None \<longleftrightarrow> se_close_at row = None"
  by (simp_all add: session_from_row_def engagement_session.truncate_def)

lemma persisted_unstamped:
  "map_of (rx_sessions st) (se_id s) = None \<Longrightarrow>
   \<exists>row. map_of (rx_sessions (persist_session_doc s rq st)) (se_id s) = Some row
     \<and> se_open_at row = None \<and> se_close_at row = None"
  by (simp add: persist_session_doc_def map_add_def)

lemma created_unstamped:
  assumes "sx_gateway sx = FrappeEngagementGateway dumps" "api_create_session sx env rq sid w = Inr (a, w')"
    and "map_of (rx_sessions (ew_store w)) sid = None"
  shows "\<exists>row. map_of (rx_sessions (ew_store w')) sid = Some row \<and> se_open_at row = None \<and> se_close_at row = None"
proof -
  obtain s where "ew_store w' = persist_session_doc s rq (ew_store w)" "se_id s = sid"
    using assms(1,2)
    by (auto simp: api_create_session_def Let_def res_bind_Inr_iff api_try_def create_session_def
        FrappeEngagementGateway_def split: option.splits sum.splits if_splits)
  then show ?thesis using persisted_unstamped assms(3) by metis
qed

text \<open>The endpoints never stamp a session: created, opened and closed through them it has no open
  and no close time, so every participation, however late, counts as inside the window.\<close>
theorem endpoints_never_stamp:
  assumes gw: "sx_gateway sx = FrappeEngagementGateway dumps"
    and "api_create_session sx env rq sid w = Inr (a, w') \<and> map_of (rx_sessions (ew_store w)) sid = None
      \<or> redis_get_session sid (ew_store w) = Some s \<and> se_open_at s = None \<and> se_close_at s = None
        \<and> (api_open_session sx env sid w = Inr (b, w') \<or> api_close_session sx env sid w = Inr (c, w'))"
  shows "\<exists>s'. redis_get_session sid (ew_store w') = Some s' \<and> se_open_at s' = None \<and> se_close_at s' = None
    \<and> (\<forall>t g. validate_session_window s' t g = (True, None))"
proof -
  have "\<exists>s'. redis_get_session sid (ew_store w') = Some s' \<and> se_open_at s' = None \<and> se_close_at s' = None"
    using assms(2)
  proof (elim disjE conjE)
    assume "api_create_session sx env rq sid w = Inr (a, w')" "map_of (rx_sessions (ew_store w)) sid = None"
    from created_unstamped [OF gw this] show ?thesis by (auto simp: redis_get_session_def unstamped_row)
  next
    assume s: "redis_get_session sid (ew_store w) = Some s" "se_open_at s = None" "se_close_at s = None"
    then obtain row where row: "map_of (rx_sessions (ew_store w)) sid = Some row" "se_open_at row = None" "se_close_at row = None"
      by (auto simp: redis_get_session_def unstamped_row)
    {
      assume "api_open_session sx env sid w = Inr (b, w')"
      then show ?thesis using row
        by (auto simp: api_open_session_def res_bind_Inr_iff api_try_def open_session_def gw
            FrappeEngagementGateway_def redis_set_session_status_def update_session_row_def
            redis_get_session_def map_of_map_entry unstamped_row Let_def split: sum.splits)
    next
      assume "api_close_session sx env sid w = Inr (c, w')"
      then show ?thesis using row
        by (auto simp: api_close_session_def res_bind_Inr_iff api_try_def close_session_def gw
            FrappeEngagementGateway_def redis_set_session_status_def update_session_row_def
            redis_schedule_finalize_close_def
            redis_get_session_def map_of_map_entry unstamped_row Let_def split: sum.splits)
    }
  qed
  then show ?thesis using unstamped_window by blast
qed

lemma endpoints_never_stamp_witness:
  "\<exists>s'. redis_get_session ''E1'' (ew_store (snd (projr (api_open_session demo_engagement demo_env ''E1'' demo_world)))) = Some s'
     \<and> validate_session_window s' 1000000 30 = (True, None)"
proof -
  let ?r = "api_open_session demo_engagement demo_env ''E1'' demo_world"
  let ?s = "the (redis_get_session ''E1'' (ew_store demo_world))"
  have "is_ok ?r" and s: "redis_get_session ''E1'' (ew_store demo_world) = Some ?s" "se_open_at ?s = None" "se_close_at ?s = None"
    by code_simp+
  then obtain b w' where r: "?r = Inr (b, w')" by (cases ?r) auto
  from endpoints_never_stamp [OF demo_gateway(1) disjI2 [OF conjI [OF s(1) conjI [OF s(2) conjI [OF s(3) disjI1 [OF r]]]]]]
  show ?thesis using r by auto
qed

text \<open>The job that closing schedules cannot run: it is queued with its due time among its
  arguments, which its target does not take, so every run of it fails and changes nothing.\<close>
theorem scheduled_finalize_never_runs:
  assumes gw: "sx_gateway sx = FrappeEngagementGateway dumps"
    and "api_close_session sx env sid w = Inr (out, w')"
  shows "\<exists>job. rx_jobs (ew_store w') = rx_jobs (ew_store w) @ [job]
    \<and> (\<forall>env'' w''. run_finalize_job sx env'' job w'' = (w'', Inl (Api_Unexpected_Keyword ''at'')))"
  using assms(2)
  by (auto simp: api_close_session_def res_bind_Inr_iff api_try_def close_session_def gw
      FrappeEngagementGateway_def redis_set_session_status_def update_session_row_def
      redis_schedule_finalize_close_def run_finalize_job_def Let_def split: sum.splits)

lemma scheduled_finalize_never_runs_witness:
  "\<exists>job. rx_jobs (ew_store (snd (projr (api_close_session demo_engagement demo_env ''E1'' demo_credit)))) = [job]
     \<and> run_finalize_job demo_engagement demo_env job demo_credit = (demo_credit, Inl (Api_Unexpected_Keyword ''at''))"
proof -
  let ?r = "api_close_session demo_engagement demo_env ''E1'' demo_credit"
  have "is_ok ?r" and j: "rx_jobs (ew_store demo_credit) = []" by code_simp+
  then obtain b w' where r: "?r = Inr (b, w')" by (cases ?r) auto
  from scheduled_finalize_never_runs [OF demo_gateway(1) r] show ?thesis using r j by auto
qed

end
