(* ===== verification/Attendance_Queue.thy ===== *)
theory Attendance_Queue
  imports Reporting "HOL-Library.Multiset"
begin

text \<open>
  Model of the bulk half of \<open>flock_os/attendance.py\<close>: the endpoint that queues a batch, the job
  that writes it, its in-place retries, and the retry or dead-letter decision.

  The state is the attendance tables, the queued jobs, the error log and the events.  What the
  database does to a try is an argument: \<open>None\<close> is no fault; a fault hits before the counters
  are seeded, inside the write transaction (which is rolled back), or after its commit.  A
  worker may run any queued job next.
\<close>

section \<open>State\<close>

definition BULK_ATTENDANCE_IN_PLACE_ATTEMPTS :: nat where "BULK_ATTENDANCE_IN_PLACE_ATTEMPTS = 10"

text \<open>An item as it crosses the queue: the provenance of a session is not carried.\<close>

record payload_item =
  pi_event :: docname
  pi_attendee_ref :: docname
  pi_branch :: docname
  pi_status :: string
  pi_source :: string
  pi_client_req_id :: "string option"
  pi_gathering :: "docname option"
  pi_member :: "docname option"

record batch_payload =
  bp_event :: docname
  bp_batch_id :: string
  bp_scope :: docname
  bp_items :: "payload_item list"
  bp_attempt :: int
  bp_deadlettered :: bool

datatype queue_event =
    Batch_Ack string nat nat nat nat
  | Import_Failed string int

datatype log_entry =
    Stale_Deadletter string
  | Persistence_Failed string
  | Retries_Exhausted string
  | Dead_Letter string

record attendance_queue =
  aq_tables :: attendance_tables
  aq_jobs :: "batch_payload list"
  aq_log :: "log_entry list"
  aq_events :: "queue_event list"

definition log_error :: "log_entry \<Rightarrow> attendance_queue \<Rightarrow> attendance_queue" where
  "log_error e q = q \<lparr>aq_log := aq_log q @ [e]\<rparr>"

definition emit_queue_event :: "queue_event \<Rightarrow> attendance_queue \<Rightarrow> attendance_queue" where
  "emit_queue_event e q = q \<lparr>aq_events := aq_events q @ [e]\<rparr>"

definition enqueue :: "batch_payload \<Rightarrow> attendance_queue \<Rightarrow> attendance_queue" where
  "enqueue p q = q \<lparr>aq_jobs := aq_jobs q @ [p]\<rparr>"

section \<open>One try against the database\<close>

text \<open>\<open>True\<close> marks the dead-lock and time-out errors that are retried in place.\<close>

datatype db_fault = Seed_Fault bool | Write_Fault bool | Emit_Fault

datatype raised = Retryable | Not_Retryable

definition raised_by :: "bool \<Rightarrow> raised" where
  "raised_by transient = (if transient then Retryable else Not_Retryable)"

definition try_submit :: "db_fault option \<Rightarrow> attendance_item list \<Rightarrow> docname \<Rightarrow> string
    \<Rightarrow> attendance_tables \<Rightarrow> attendance_tables \<times> (raised + bulk_outcome)" where
  "try_submit fault items scope bid st =
    (case fault of
       None \<Rightarrow> (case submit FrappeBulkAttendanceGateway items scope bid st of
           (st', Inl _) \<Rightarrow> (st', Inl Not_Retryable)
         | (st', Inr out) \<Rightarrow> (st', Inr out))
     | Some (Seed_Fault t) \<Rightarrow> (st, Inl (raised_by t))
     | Some (Write_Fault t) \<Rightarrow>
         (bg_seed_aggregate FrappeBulkAttendanceGateway scope (dedup (map ai_event items)) st, Inl (raised_by t))
     | Some Emit_Fault \<Rightarrow> (fst (submit FrappeBulkAttendanceGateway items scope bid st), Inl Not_Retryable))"

section \<open>The job\<close>

definition item_of_payload :: "payload_item \<Rightarrow> attendance_item" where
  "item_of_payload raw =
    \<lparr>ai_event = pi_event raw, ai_attendee_ref = pi_attendee_ref raw, ai_branch = pi_branch raw,
     ai_status = pi_status raw, ai_source = pi_source raw, ai_client_req_id = pi_client_req_id raw,
     ai_gathering = pi_gathering raw, ai_member = pi_member raw, ai_session = None,
     ai_attendee_key = None\<rparr>"

definition payload_of_item :: "attendance_item \<Rightarrow> payload_item" where
  "payload_of_item item =
    \<lparr>pi_event = ai_event item, pi_attendee_ref = ai_attendee_ref item, pi_branch = ai_branch item,
     pi_status = ai_status item, pi_source = ai_source item, pi_client_req_id = ai_client_req_id item,
     pi_gathering = ai_gathering item, pi_member = ai_member item\<rparr>"

text \<open>\<open>_deadletter_or_retry\<close>: the payload is queued again with its attempt counted, until the
  retries are used up.  The due time computed for the job is not a keyword of \<open>frappe.enqueue\<close>:
  it is handed to the job, which ignores it.\<close>

definition deadletter_or_retry :: "batch_payload \<Rightarrow> attendance_queue \<Rightarrow> attendance_queue" where
  "deadletter_or_retry p q =
    (let attempt = bp_attempt p + 1 in
     if attempt > BULK_ATTENDANCE_MAX_RETRY
     then log_error (Dead_Letter (bp_batch_id p))
            (emit_queue_event (Import_Failed (bp_batch_id p) (attempt - 1)) q)
     else enqueue (p \<lparr>bp_attempt := attempt\<rparr>) q)"

text \<open>The loop of \<open>_submit_with_in_place_retry\<close>; the list holds the faults of the tries to come, and
  an exhausted list means no further fault.  \<open>None\<close> is the answer after a failure.\<close>

fun in_place_tries :: "nat \<Rightarrow> db_fault option list \<Rightarrow> attendance_item list \<Rightarrow> batch_payload
    \<Rightarrow> attendance_queue \<Rightarrow> attendance_queue \<times> bulk_outcome option" where
  "in_place_tries 0 faults items p q =
     (deadletter_or_retry p (log_error (Retries_Exhausted (bp_batch_id p)) q), None)"
| "in_place_tries (Suc k) faults items p q =
     (case try_submit (case faults of [] \<Rightarrow> None | f # _ \<Rightarrow> f) items (bp_scope p) (bp_batch_id p) (aq_tables q) of
        (st, Inr out) \<Rightarrow> (q \<lparr>aq_tables := st\<rparr>, Some out)
      | (st, Inl Retryable) \<Rightarrow> in_place_tries k (tl faults) items p (q \<lparr>aq_tables := st\<rparr>)
      | (st, Inl Not_Retryable) \<Rightarrow>
          (deadletter_or_retry p (log_error (Persistence_Failed (bp_batch_id p)) (q \<lparr>aq_tables := st\<rparr>)), None))"

definition submit_with_in_place_retry :: "db_fault option list \<Rightarrow> attendance_item list \<Rightarrow> batch_payload
    \<Rightarrow> attendance_queue \<Rightarrow> attendance_queue \<times> bulk_outcome option" where
  "submit_with_in_place_retry = in_place_tries BULK_ATTENDANCE_IN_PLACE_ATTEMPTS"

definition process_bulk_batch :: "db_fault option list \<Rightarrow> batch_payload \<Rightarrow> attendance_queue \<Rightarrow> attendance_queue" where
  "process_bulk_batch faults p q =
    (if bp_deadlettered p then log_error (Stale_Deadletter (bp_batch_id p)) q
     else case submit_with_in_place_retry faults (map item_of_payload (bp_items p)) p q of
        (q', None) \<Rightarrow> q'
      | (q', Some out) \<Rightarrow> emit_queue_event (Batch_Ack (bp_batch_id p)
          (if bo_accepted out then 1 else 0) (bo_inserted out) (bo_deduplicated out) (rejected_count out)) q')"

text \<open>A worker takes the job at position \<open>i\<close> off the queue and runs it.\<close>

definition run_job :: "nat \<Rightarrow> db_fault option list \<Rightarrow> attendance_queue \<Rightarrow> attendance_queue" where
  "run_job i faults q =
    (if i < length (aq_jobs q)
     then process_bulk_batch faults (aq_jobs q ! i)
            (q \<lparr>aq_jobs := take i (aq_jobs q) @ drop (Suc i) (aq_jobs q)\<rparr>)
     else q)"

section \<open>The endpoint\<close>

record bulk_entry =
  bq_attendee_ref :: "string option"
  bq_client_req_id :: "string option"
  bq_status :: "string option"
  bq_source :: "string option"
  bq_member :: "docname option"

datatype bulk_error =
    Bulk_Event_Required
  | Bulk_Batch_Id_Required
  | Bulk_Ambiguous_Branch
  | Bulk_Ref_Required nat
  | Bulk_Req_Id_Required nat
  | Bulk_Too_Large attendance_error

definition DEFAULT_ATTENDANCE_STATUS :: string where "DEFAULT_ATTENDANCE_STATUS = ''Present''"
definition DEFAULT_ATTENDANCE_SOURCE :: string where "DEFAULT_ATTENDANCE_SOURCE = ''bulk''"

text \<open>\<open>_resolve_caller_branch_scope\<close>, over the documents of the caller's branch permissions.\<close>

definition resolve_caller_branch_scope :: "docname option list \<Rightarrow> bulk_error + docname" where
  "resolve_caller_branch_scope docs =
    (case dedup (map the (filter truthy docs)) of [b] \<Rightarrow> Inr b | _ \<Rightarrow> Inl Bulk_Ambiguous_Branch)"

definition or_default :: "string \<Rightarrow> string option \<Rightarrow> string" where
  "or_default d x = (case x of None \<Rightarrow> d | Some s \<Rightarrow> s)"

definition item_from_payload :: "docname \<Rightarrow> docname \<Rightarrow> bulk_entry \<Rightarrow> nat \<Rightarrow> bulk_error + attendance_item" where
  "item_from_payload event branch raw index =
    (if \<not> truthy (bq_attendee_ref raw) then Inl (Bulk_Ref_Required index)
     else if \<not> truthy (bq_client_req_id raw) then Inl (Bulk_Req_Id_Required index)
     else Inr \<lparr>ai_event = event, ai_attendee_ref = the (bq_attendee_ref raw), ai_branch = branch,
       ai_status = or_default DEFAULT_ATTENDANCE_STATUS (bq_status raw),
       ai_source = or_default DEFAULT_ATTENDANCE_SOURCE (bq_source raw),
       ai_client_req_id = bq_client_req_id raw, ai_gathering = Some event,
       ai_member = (if truthy (bq_member raw) then bq_member raw else None),
       ai_session = None, ai_attendee_key = None\<rparr>)"

fun items_from_payload :: "docname \<Rightarrow> docname \<Rightarrow> nat \<Rightarrow> bulk_entry list \<Rightarrow> bulk_error + attendance_item list" where
  "items_from_payload event branch index [] = Inr []"
| "items_from_payload event branch index (raw # raws) =
     res_bind (item_from_payload event branch raw index) (\<lambda>item.
     res_bind (items_from_payload event branch (index + 1) raws) (\<lambda>items. Inr (item # items)))"

text \<open>\<open>bulk_submit\<close>, by a caller with the given branch permissions; the receipt is the number of
  queued items.\<close>

definition bulk_submit :: "docname option list \<Rightarrow> docname \<Rightarrow> bulk_entry list \<Rightarrow> string
    \<Rightarrow> attendance_queue \<Rightarrow> bulk_error + nat \<times> attendance_queue" where
  "bulk_submit caller event entries batch_id q =
    (if event = [] then Inl Bulk_Event_Required
     else if batch_id = [] then Inl Bulk_Batch_Id_Required
     else res_bind (resolve_caller_branch_scope caller) (\<lambda>scope.
       res_bind (items_from_payload event scope 0 entries) (\<lambda>items.
         case enforce_batch_size items BULK_BATCH_SIZE of Inl e \<Rightarrow> Inl (Bulk_Too_Large e)
         | Inr _ \<Rightarrow> Inr (length items, enqueue \<lparr>bp_event = event, bp_batch_id = batch_id,
             bp_scope = scope, bp_items = map payload_of_item items, bp_attempt = 0,
             bp_deadlettered = False\<rparr> q))))"

section \<open>Jobs\<close>

lemma payload_roundtrip:
  "ai_session i = None \<Longrightarrow> ai_attendee_key i = None \<Longrightarrow> item_of_payload (payload_of_item i) = i"
  by (simp add: item_of_payload_def payload_of_item_def)

lemma queue_ops [simp]:
  "aq_tables (log_error e q) = aq_tables q" "aq_jobs (log_error e q) = aq_jobs q"
  "aq_events (log_error e q) = aq_events q" "aq_log (log_error e q) = aq_log q @ [e]"
  "aq_tables (emit_queue_event v q) = aq_tables q" "aq_jobs (emit_queue_event v q) = aq_jobs q"
  "aq_events (emit_queue_event v q) = aq_events q @ [v]" "aq_log (emit_queue_event v q) = aq_log q"
  "aq_tables (enqueue p q) = aq_tables q" "aq_jobs (enqueue p q) = aq_jobs q @ [p]"
  "aq_events (enqueue p q) = aq_events q" "aq_log (enqueue p q) = aq_log q"
  by (simp_all add: log_error_def emit_queue_event_def enqueue_def)

text \<open>A try, whatever its fault, is no batch or one batch of the write path on seeded counters.\<close>

lemma try_submit_exact:
  assumes "frappe_store.exact st" "try_submit f items scope bid st = (st', r)"
  shows "frappe_store.exact st' \<and> (\<exists>extra. at_rows st' = at_rows st @ extra)"
proof -
  have s: "frappe_store.exact (fst (submit FrappeBulkAttendanceGateway items scope bid st))
      \<and> (\<exists>extra. at_rows (fst (submit FrappeBulkAttendanceGateway items scope bid st)) = at_rows st @ extra)"
    using frappe_store.submit_exact [OF assms(1)] by (metis prod.collapse)
  have w: "frappe_store.exact (bg_seed_aggregate FrappeBulkAttendanceGateway scope es st)" for es
    using frappe_store.seed [of st scope es] assms(1) by (auto simp: frappe_store.exact_def)
  have rows: "at_rows (bg_seed_aggregate FrappeBulkAttendanceGateway scope es st) = at_rows st" for es
    by (simp add: FrappeBulkAttendanceGateway_def)
  show ?thesis
  proof (cases f)
    case None
    then have "st' = fst (submit FrappeBulkAttendanceGateway items scope bid st)"
      using assms(2) by (auto simp: try_submit_def split: prod.splits sum.splits)
    then show ?thesis using s by simp
  next
    case (Some x)
    then show ?thesis using assms s w rows by (cases x) (auto simp: try_submit_def)
  qed
qed

text \<open>What a try answers when it succeeds, and what a committed try leaves.\<close>

definition all_stored :: "attendance_item list \<Rightarrow> attendance_tables \<Rightarrow> bool" where
  "all_stored items st \<longleftrightarrow> idempotency_key ` set items \<subseteq> idempotency_key ` set (at_rows st)"

lemma submit_stores_all:
  assumes scope: "\<forall>i \<in> set items. ai_branch i = scope"
    and s: "submit FrappeBulkAttendanceGateway items scope bid st = (st', Inr out)"
  shows "all_stored items st' \<and> bo_accepted out \<and> bo_inserted out + bo_deduplicated out = length items
    \<and> bo_inserted out = length (unseen_items items st)"
proof -
  have l: "length (unseen_items items st) \<le> length items" by (simp add: unseen_items_def)
  obtain rows where t: "table_insert (at_rows st) (map stored_item (unseen_items items st)) = Inr rows"
    using db_submit [OF scope, where st = st and bid = bid] s by (cases "table_insert (at_rows st) (map stored_item (unseen_items items st))") auto
  with db_submit [OF scope, where st = st and bid = bid] s
  have o: "at_rows st' = rows" "bo_accepted out" "bo_inserted out = length (unseen_items items st)"
    "bo_deduplicated out = length items - length (unseen_items items st)" by auto
  have "rows = at_rows st @ map stored_item (unseen_items items st)"
    using t by (simp add: table_insert_eq split: if_splits)
  then have k: "idempotency_key ` set (at_rows st') =
      idempotency_key ` set (at_rows st) \<union> idempotency_key ` set (unseen_items items st)"
    using o(1) by (simp add: image_Un image_image stored_item_keeps)
  have "all_stored items st'" unfolding all_stored_def k by (auto simp: unseen_items_def)
  then show ?thesis using o l by simp
qed

lemma try_submit_ok:
  "try_submit f items scope bid st = (st', Inr out) \<Longrightarrow>
   submit FrappeBulkAttendanceGateway items scope bid st = (st', Inr out)"
  by (auto simp: try_submit_def split: option.splits db_fault.splits prod.splits sum.splits)

section \<open>The retry budget\<close>

text \<open>How many more times a queued job can run.\<close>

definition runs_left :: "batch_payload \<Rightarrow> nat" where
  "runs_left p = nat (BULK_ATTENDANCE_MAX_RETRY + 1 - bp_attempt p)"

definition work_left :: "attendance_queue \<Rightarrow> nat" where
  "work_left q = sum_list (map runs_left (aq_jobs q))"

text \<open>A job ends in one of three ways: it is acknowledged, queued again with one run less, or
  dead-lettered after its last run.\<close>

lemma tries_outcome:
  assumes "in_place_tries k faults items p q = (q', r)" "frappe_store.exact (aq_tables q)"
    and "\<forall>i \<in> set items. ai_branch i = bp_scope p"
  shows "frappe_store.exact (aq_tables q') \<and> (\<exists>extra. at_rows (aq_tables q') = at_rows (aq_tables q) @ extra)
    \<and> (case r of
         Some out \<Rightarrow> all_stored items (aq_tables q') \<and> bo_accepted out \<and> aq_jobs q' = aq_jobs q \<and> aq_events q' = aq_events q
           \<and> bo_inserted out + bo_deduplicated out = length items
       | None \<Rightarrow> if bp_attempt p < BULK_ATTENDANCE_MAX_RETRY
           then aq_jobs q' = aq_jobs q @ [p \<lparr>bp_attempt := bp_attempt p + 1\<rparr>] \<and> aq_events q' = aq_events q
           else aq_jobs q' = aq_jobs q \<and> aq_events q' = aq_events q @ [Import_Failed (bp_batch_id p) (bp_attempt p)])"
  using assms
proof (induction k arbitrary: faults q)
  case 0
  then show ?case by (auto simp: deadletter_or_retry_def Let_def)
next
  case (Suc k)
  let ?f = "case faults of [] \<Rightarrow> None | f # _ \<Rightarrow> f"
  obtain st s where t: "try_submit ?f items (bp_scope p) (bp_batch_id p) (aq_tables q) = (st, s)"
    by (cases "try_submit ?f items (bp_scope p) (bp_batch_id p) (aq_tables q)")
  note e = try_submit_exact [OF Suc.prems(2) t]
  show ?case
  proof (cases s)
    case (Inr out)
    then have "q' = q \<lparr>aq_tables := st\<rparr>" "r = Some out" using Suc.prems(1) t by auto
    then show ?thesis using e submit_stores_all [OF Suc.prems(3) try_submit_ok [OF t [unfolded Inr]]] by simp
  next
    case (Inl w)
    show ?thesis
    proof (cases w)
      case Retryable
      then have "in_place_tries k (tl faults) items p (q \<lparr>aq_tables := st\<rparr>) = (q', r)"
        using Suc.prems(1) t Inl by simp
      from Suc.IH [OF this _ Suc.prems(3)] e show ?thesis by (cases r) auto
    next
      case Not_Retryable
      then have "q' = deadletter_or_retry p (log_error (Persistence_Failed (bp_batch_id p)) (q \<lparr>aq_tables := st\<rparr>))"
        "r = None" using Suc.prems(1) t Inl by auto
      then show ?thesis using e by (auto simp: deadletter_or_retry_def Let_def)
    qed
  qed
qed

section \<open>Runs of the queue\<close>

definition payload_ok :: "batch_payload \<Rightarrow> bool" where
  "payload_ok p \<longleftrightarrow> \<not> bp_deadlettered p \<and> 0 \<le> bp_attempt p \<and> bp_attempt p \<le> BULK_ATTENDANCE_MAX_RETRY
     \<and> (\<forall>raw \<in> set (bp_items p). pi_branch raw = bp_scope p)"

definition queue_ok :: "attendance_queue \<Rightarrow> bool" where
  "queue_ok q \<longleftrightarrow> frappe_store.exact (aq_tables q) \<and> (\<forall>p \<in> set (aq_jobs q). payload_ok p)"

definition batch_of :: "queue_event \<Rightarrow> string" where
  "batch_of v = (case v of Batch_Ack b _ _ _ _ \<Rightarrow> b | Import_Failed b _ \<Rightarrow> b)"

lemma payload_scope: "payload_ok p \<Longrightarrow> \<forall>i \<in> set (map item_of_payload (bp_items p)). ai_branch i = bp_scope p"
  by (auto simp: payload_ok_def item_of_payload_def)

text \<open>One job: it ends with one event, or is queued again with a run less.\<close>

lemma process_outcome:
  fixes faults :: "db_fault option list"
  assumes q: "queue_ok q" and p: "payload_ok p"
  defines "q' \<equiv> process_bulk_batch faults p q"
  shows "frappe_store.exact (aq_tables q') \<and> (\<exists>extra. at_rows (aq_tables q') = at_rows (aq_tables q) @ extra)
    \<and> ((\<exists>ins ded rej. aq_events q' = aq_events q @ [Batch_Ack (bp_batch_id p) 1 ins ded rej]
          \<and> aq_jobs q' = aq_jobs q \<and> ins + ded = length (bp_items p)
          \<and> all_stored (map item_of_payload (bp_items p)) (aq_tables q'))
      \<or> (bp_attempt p = BULK_ATTENDANCE_MAX_RETRY \<and> aq_jobs q' = aq_jobs q
          \<and> aq_events q' = aq_events q @ [Import_Failed (bp_batch_id p) BULK_ATTENDANCE_MAX_RETRY])
      \<or> (bp_attempt p < BULK_ATTENDANCE_MAX_RETRY \<and> aq_events q' = aq_events q
          \<and> aq_jobs q' = aq_jobs q @ [p \<lparr>bp_attempt := bp_attempt p + 1\<rparr>]))"
proof -
  obtain q1 r where t: "submit_with_in_place_retry faults (map item_of_payload (bp_items p)) p q = (q1, r)"
    by (cases "submit_with_in_place_retry faults (map item_of_payload (bp_items p)) p q")
  have nd: "\<not> bp_deadlettered p" and ex: "frappe_store.exact (aq_tables q)" using p q by (simp_all add: payload_ok_def queue_ok_def)
  note o = tries_outcome [OF t [unfolded submit_with_in_place_retry_def] ex payload_scope [OF p]]
  show ?thesis
  proof (cases r)
    case (Some out)
    then have "q' = emit_queue_event (Batch_Ack (bp_batch_id p) 1 (bo_inserted out) (bo_deduplicated out) (rejected_count out)) q1"
      using nd t o by (simp add: q'_def process_bulk_batch_def)
    then show ?thesis using o Some by auto
  next
    case None
    then have "q' = q1" using nd t by (simp add: q'_def process_bulk_batch_def)
    then show ?thesis using o None p by (auto simp: payload_ok_def split: if_splits)
  qed
qed

lemma runs_left_pos: "payload_ok p \<Longrightarrow> 1 \<le> runs_left p \<and> runs_left p \<le> 6"
  by (auto simp: payload_ok_def runs_left_def BULK_ATTENDANCE_MAX_RETRY_def)

lemma mset_drop_nth:
  assumes "i < length xs"
  shows "mset xs = add_mset (xs ! i) (mset (take i xs @ drop (Suc i) xs))"
proof -
  have "mset xs = mset (take i xs @ xs ! i # drop (Suc i) xs)" using id_take_nth_drop [OF assms] by metis
  then show ?thesis by simp
qed

definition terminal_events :: "attendance_queue \<Rightarrow> string multiset" where
  "terminal_events q = mset (map batch_of (aq_events q))"

text \<open>What every run of a job keeps: the tables stay exact, and each batch is either queued or has
  its event.\<close>

lemma run_job_step:
  fixes faults :: "db_fault option list"
  assumes q: "queue_ok q" and i: "i < length (aq_jobs q)"
  defines "q' \<equiv> run_job i faults q"
  shows "queue_ok q' \<and> work_left q' < work_left q
    \<and> (\<exists>extra. at_rows (aq_tables q') = at_rows (aq_tables q) @ extra)
    \<and> terminal_events q' + mset (map bp_batch_id (aq_jobs q')) = terminal_events q + mset (map bp_batch_id (aq_jobs q))"
proof -
  let ?p = "aq_jobs q ! i" and ?rest = "take i (aq_jobs q) @ drop (Suc i) (aq_jobs q)"
  let ?q0 = "q \<lparr>aq_jobs := ?rest\<rparr>"
  have p: "payload_ok ?p" using q i by (simp add: queue_ok_def)
  have sub: "set ?rest \<subseteq> set (aq_jobs q)" by (auto dest: in_set_takeD in_set_dropD)
  then have q0: "queue_ok ?q0" using q by (auto simp: queue_ok_def)
  have q': "q' = process_bulk_batch faults ?p ?q0" using i by (simp add: q'_def run_job_def)
  note m = mset_drop_nth [OF i]
  have w: "work_left q = runs_left ?p + sum_list (map runs_left ?rest)"
  proof -
    have "work_left q = \<Sum>\<^sub># (image_mset runs_left (mset (aq_jobs q)))"
      by (simp add: work_left_def sum_mset_sum_list [symmetric])
    also have "\<dots> = runs_left ?p + \<Sum>\<^sub># (image_mset runs_left (mset ?rest))" by (subst m) simp
    finally show ?thesis by (simp add: sum_mset_sum_list [symmetric])
  qed
  have b: "mset (map bp_batch_id (aq_jobs q)) = add_mset (bp_batch_id ?p) (mset (map bp_batch_id ?rest))"
    using arg_cong [OF m, of "image_mset bp_batch_id"] by simp
  have again: "runs_left (?p \<lparr>bp_attempt := bp_attempt ?p + 1\<rparr>) < runs_left ?p"
    "payload_ok (?p \<lparr>bp_attempt := bp_attempt ?p + 1\<rparr>)" if "bp_attempt ?p < BULK_ATTENDANCE_MAX_RETRY"
    using that p by (auto simp: runs_left_def payload_ok_def)
  note pos = runs_left_pos [OF p]
  note o = process_outcome [OF q0 p, of faults, folded q']
  show ?thesis
  proof (intro conjI)
    show "queue_ok q'" using o q0 again(2) by (auto simp: queue_ok_def)
    show "work_left q' < work_left q" using o w pos again(1) by (auto simp: work_left_def)
    show "\<exists>extra. at_rows (aq_tables q') = at_rows (aq_tables q) @ extra" using o by simp
    show "terminal_events q' + mset (map bp_batch_id (aq_jobs q')) = terminal_events q + mset (map bp_batch_id (aq_jobs q))"
      unfolding b using o by (auto simp: terminal_events_def batch_of_def)
  qed
qed

text \<open>A schedule: which of the queued jobs runs next, and the faults of its tries.\<close>

fun run_schedule :: "(nat \<times> db_fault option list) list \<Rightarrow> attendance_queue \<Rightarrow> attendance_queue" where
  "run_schedule [] q = q"
| "run_schedule ((i, faults) # sched) q =
     run_schedule sched (if aq_jobs q = [] then q else run_job (i mod length (aq_jobs q)) faults q)"

lemma schedule_step:
  "queue_ok q \<Longrightarrow>
   queue_ok (run_schedule sched q)
   \<and> work_left (run_schedule sched q) \<le> work_left q - length sched
   \<and> (\<exists>extra. at_rows (aq_tables (run_schedule sched q)) = at_rows (aq_tables q) @ extra)
   \<and> terminal_events (run_schedule sched q) + mset (map bp_batch_id (aq_jobs (run_schedule sched q)))
       = terminal_events q + mset (map bp_batch_id (aq_jobs q))"
proof (induction sched arbitrary: q)
  case (Cons step sched)
  obtain i faults where s: "step = (i, faults)" by (cases step)
  show ?case
  proof (cases "aq_jobs q = []")
    case True
    then have "work_left q = 0" by (simp add: work_left_def)
    with Cons.IH [OF Cons.prems] True s show ?thesis by simp
  next
    case False
    let ?q1 = "run_job (i mod length (aq_jobs q)) faults q"
    note r = run_job_step [OF Cons.prems, of "i mod length (aq_jobs q)" faults]
    have l: "i mod length (aq_jobs q) < length (aq_jobs q)" using False by simp
    from Cons.IH [of ?q1] r [OF l] False s show ?thesis by (auto simp: le_diff_conv)
  qed
qed simp

inductive queue_run :: "attendance_queue \<Rightarrow> bool" where
  qr_start: "aq_tables q = empty_tables \<Longrightarrow> aq_jobs q = [] \<Longrightarrow> queue_run q"
| qr_submit: "queue_run q \<Longrightarrow> bulk_submit caller event entries bid q = Inr (n, q') \<Longrightarrow> queue_run q'"
| qr_job: "queue_run q \<Longrightarrow> queue_run (run_job i faults q)"
| qr_other: "queue_run q \<Longrightarrow> submit FrappeBulkAttendanceGateway items scope bid (aq_tables q) = (st', r) \<Longrightarrow>
    queue_run (q \<lparr>aq_tables := st'\<rparr>)"

lemma items_from_payload_scope:
  "items_from_payload event branch k raws = Inr items \<Longrightarrow>
   length items = length raws \<and> (\<forall>i \<in> set items. ai_branch i = branch \<and> ai_event i = event
     \<and> ai_session i = None \<and> ai_attendee_key i = None)"
  by (induction raws arbitrary: k items)
    (auto simp: res_bind_Inr_iff item_from_payload_def split: if_splits)

lemma bulk_submit_effect:
  assumes "bulk_submit caller event entries bid q = Inr (n, q')"
  shows "\<exists>scope items. resolve_caller_branch_scope caller = Inr scope
    \<and> items_from_payload event scope 0 entries = Inr items \<and> n = length entries \<and> n \<le> BULK_BATCH_SIZE
    \<and> q' = enqueue \<lparr>bp_event = event, bp_batch_id = bid, bp_scope = scope,
        bp_items = map payload_of_item items, bp_attempt = 0, bp_deadlettered = False\<rparr> q"
  using assms items_from_payload_scope
  by (auto simp: bulk_submit_def res_bind_Inr_iff enforce_batch_size_def split: if_splits sum.splits)

lemma queue_run_ok: "queue_run q \<Longrightarrow> queue_ok q"
proof (induction rule: queue_run.induct)
  case (qr_start q)
  then show ?case using empty_tables_exact by (simp add: queue_ok_def)
next
  case (qr_submit q caller event entries bid n q')
  from bulk_submit_effect [OF qr_submit(2)] obtain scope items where
    i: "items_from_payload event scope 0 entries = Inr items"
    and q': "q' = enqueue \<lparr>bp_event = event, bp_batch_id = bid, bp_scope = scope,
        bp_items = map payload_of_item items, bp_attempt = 0, bp_deadlettered = False\<rparr> q" by blast
  have "\<forall>raw \<in> set (map payload_of_item items). pi_branch raw = scope"
    using items_from_payload_scope [OF i] by (auto simp: payload_of_item_def)
  then show ?case using qr_submit.IH by (auto simp: queue_ok_def payload_ok_def q' BULK_ATTENDANCE_MAX_RETRY_def)
next
  case (qr_job q i faults)
  then show ?case using run_job_step [of q i faults] by (cases "i < length (aq_jobs q)") (auto simp: run_job_def)
next
  case (qr_other q items scope bid st' r)
  then show ?case using frappe_store.submit_exact by (auto simp: queue_ok_def)
qed

section \<open>Concrete queues\<close>

definition demo_queue0 :: attendance_queue where
  "demo_queue0 = \<lparr>aq_tables = empty_tables, aq_jobs = [], aq_log = [], aq_events = []\<rparr>"

definition demo_submit :: "string \<Rightarrow> docname \<Rightarrow> string \<Rightarrow> attendance_queue \<Rightarrow> attendance_queue" where
  "demo_submit bid a c q = snd (projr (bulk_submit [Some ''B''] ''E'' [\<lparr>bq_attendee_ref = Some a,
     bq_client_req_id = Some c, bq_status = None, bq_source = None, bq_member = None\<rparr>] bid q))"

definition demo_queued :: attendance_queue where "demo_queued = demo_submit ''b1'' ''M1'' ''c1'' demo_queue0"
definition demo_recorded :: attendance_queue where "demo_recorded = run_job 0 [Some (Write_Fault True)] demo_queued"
definition demo_conflict :: attendance_queue where "demo_conflict = demo_submit ''b2'' ''M1'' ''c2'' demo_recorded"

lemma demo_submit_run:
  "queue_run q \<Longrightarrow> is_ok (bulk_submit [Some ''B''] ''E'' [\<lparr>bq_attendee_ref = Some a,
     bq_client_req_id = Some c, bq_status = None, bq_source = None, bq_member = None\<rparr>] bid q) \<Longrightarrow>
   queue_run (demo_submit bid a c q)"
  by (auto simp: demo_submit_def is_ok_iff intro: qr_submit)

lemma demo_queue_runs: "queue_run demo_queued" "queue_run demo_recorded" "queue_run demo_conflict"
proof -
  show q: "queue_run demo_queued" unfolding demo_queued_def
    by (rule demo_submit_run, rule qr_start) (simp_all add: demo_queue0_def, code_simp)
  then show r: "queue_run demo_recorded" unfolding demo_recorded_def by (rule qr_job)
  show "queue_run demo_conflict" unfolding demo_conflict_def
    by (rule demo_submit_run [OF r]) code_simp
qed

section \<open>Properties\<close>

text \<open>C4. Every queued batch comes to an end: whichever jobs the workers pick and whatever faults the
  database raises, after at most six runs per queued batch the queue is empty, and every batch
  has exactly one final event, its acknowledgement or its dead letter.\<close>
theorem batches_reach_an_end:
  assumes "queue_run q" "6 * length (aq_jobs q) \<le> length sched"
  shows "aq_jobs (run_schedule sched q) = []
    \<and> terminal_events (run_schedule sched q) = terminal_events q + mset (map bp_batch_id (aq_jobs q))"
proof -
  have ok: "queue_ok q" using queue_run_ok assms(1) .
  note r = schedule_step [OF ok, of sched]
  have "sum_list (map runs_left ps) \<le> 6 * length ps" if "\<forall>p \<in> set ps. payload_ok p" for ps
    using that runs_left_pos by (induction ps) fastforce+
  then have "work_left q \<le> length sched" using ok assms(2) unfolding queue_ok_def work_left_def by (meson order.trans)
  then have "work_left (run_schedule sched q) = 0" using r by simp
  moreover have "\<forall>p \<in> set (aq_jobs (run_schedule sched q)). 1 \<le> runs_left p"
    using r runs_left_pos by (auto simp: queue_ok_def)
  ultimately have "aq_jobs (run_schedule sched q) = []"
    by (cases "aq_jobs (run_schedule sched q)") (auto simp: work_left_def)
  with r show ?thesis by simp
qed

lemma batches_reach_an_end_witness:
  "aq_jobs (run_schedule (replicate 6 (0, [Some (Seed_Fault False)])) demo_queued) = []
   \<and> terminal_events (run_schedule (replicate 6 (0, [Some (Seed_Fault False)])) demo_queued) = {#''b1''#}"
proof -
  have "length (aq_jobs demo_queued) = 1" "map bp_batch_id (aq_jobs demo_queued) = [''b1'']" "aq_events demo_queued = []"
    by code_simp+
  then show ?thesis
    using batches_reach_an_end [OF demo_queue_runs(1), of "replicate 6 (0, [Some (Seed_Fault False)])"]
    by (simp add: terminal_events_def)
qed

text \<open>C16. An acknowledgement is never lost: when a run of a job acknowledges its batch, every item of
  the batch is stored, the counts add up to the batch, and it stays stored whatever runs next.\<close>
theorem acknowledged_batch_is_stored:
  assumes "queue_run q" and i: "i < length (aq_jobs q)"
    and ack: "aq_events (run_job i faults q) = aq_events q @ [Batch_Ack bid acc ins ded rej]"
  shows "acc = 1 \<and> bid = bp_batch_id (aq_jobs q ! i) \<and> ins + ded = length (bp_items (aq_jobs q ! i))
    \<and> idempotency_key ` set (map item_of_payload (bp_items (aq_jobs q ! i)))
        \<subseteq> idempotency_key ` set (at_rows (aq_tables (run_schedule sched (run_job i faults q))))"
proof -
  let ?p = "aq_jobs q ! i" and ?q1 = "run_job i faults q"
  let ?q0 = "q \<lparr>aq_jobs := take i (aq_jobs q) @ drop (Suc i) (aq_jobs q)\<rparr>"
  have ok: "queue_ok q" using queue_run_ok assms(1) .
  then have p: "payload_ok ?p" and q0: "queue_ok ?q0"
    using i by (auto simp: queue_ok_def dest: in_set_takeD in_set_dropD)
  have q1: "?q1 = process_bulk_batch faults ?p ?q0" using i by (simp add: run_job_def)
  have "acc = 1 \<and> bid = bp_batch_id ?p \<and> ins + ded = length (bp_items ?p)
      \<and> all_stored (map item_of_payload (bp_items ?p)) (aq_tables ?q1)"
    using process_outcome [OF q0 p, of faults, folded q1] ack by auto
  moreover have "queue_ok ?q1" using run_job_step [OF ok i] by simp
  from schedule_step [OF this, of sched] obtain extra where
    "at_rows (aq_tables (run_schedule sched ?q1)) = at_rows (aq_tables ?q1) @ extra" by blast
  ultimately show ?thesis by (auto simp: all_stored_def)
qed

lemma acknowledged_batch_is_stored_witness:
  "(''E'', ''M1'', ''c1'') \<in> idempotency_key ` set (at_rows (aq_tables (run_schedule [(0, [Some Emit_Fault])] demo_recorded)))"
proof -
  have i: "0 < length (aq_jobs demo_queued)"
    and a: "aq_events (run_job 0 [Some (Write_Fault True)] demo_queued) = aq_events demo_queued @ [Batch_Ack ''b1'' 1 1 0 0]"
    and k: "map idempotency_key (map item_of_payload (bp_items (aq_jobs demo_queued ! 0))) = [(''E'', ''M1'', ''c1'')]"
    by code_simp+
  have "(''E'', ''M1'', ''c1'') \<in> idempotency_key ` set (map item_of_payload (bp_items (aq_jobs demo_queued ! 0)))"
    using k by (metis list.set_intros(1) set_map)
  then show ?thesis
    using acknowledged_batch_is_stored [OF demo_queue_runs(1) i a, of "[(0, [Some Emit_Fault])]"]
    unfolding demo_recorded_def by blast
qed

text \<open>C15. The maintained summary never drifts: whatever batches are queued, run, retried and written
  by other paths, and whatever faults hit them, the total read for a branch and event is the
  number of stored rows of that branch and event, and no event has two rows for one attendee.\<close>
theorem counters_exact_under_faults:
  assumes "queue_run q"
  shows "aggregate FrappeBulkAttendanceGateway b (Some e) (aq_tables q) =
      length (filter (\<lambda>r. ai_branch r = b \<and> ai_event r = e) (at_rows (aq_tables q)))
    \<and> distinct (map unique_key (at_rows (aq_tables q)))"
proof -
  have "bg_aggregate FrappeBulkAttendanceGateway b (Some e) st = counter_get (at_summary st) b e" for st
    by (simp add: FrappeBulkAttendanceGateway_def)
  then show ?thesis using queue_run_ok [OF assms]
    by (simp add: queue_ok_def frappe_store.exact_def aggregate_def stored_count_def tables_ok_def)
qed

lemma counters_exact_under_faults_witness:
  "aggregate FrappeBulkAttendanceGateway ''B'' (Some ''E'') (aq_tables demo_recorded) = 1
   \<and> distinct (map unique_key (at_rows (aq_tables demo_recorded)))"
proof -
  have "aggregate FrappeBulkAttendanceGateway ''B'' (Some ''E'') (aq_tables demo_recorded) = 1" by code_simp
  then show ?thesis using counters_exact_under_faults [OF demo_queue_runs(2)] by simp
qed

lemma conflict_try:
  assumes ok: "tables_ok st" and r: "r \<in> set (at_rows st)" and scope: "\<forall>i \<in> set items. ai_branch i = scope"
    and x: "x \<in> set items" "unique_key x = unique_key r" "idempotency_key x \<noteq> idempotency_key r"
    and t: "try_submit f items scope bid st = (st', s)"
  shows "at_rows st' = at_rows st \<and> (\<exists>w. s = Inl w)"
proof -
  have "idempotency_key x \<notin> idempotency_key ` set (at_rows st)"
    using new_of_old_attendee [OF _ r x(2,3)] ok by (simp add: tables_ok_def)
  then have "stored_item x \<in> set (map stored_item (unseen_items items st))"
    using x(1) by (auto simp: unseen_items_def)
  then have c: "table_insert (at_rows st) (map stored_item (unseen_items items st)) = Inl Unique_Violation"
    using r x(2) by (intro table_insert_clash [of "stored_item x" _ r]) (auto simp: rows_clash_def stored_item_keeps)
  obtain st1 where "submit FrappeBulkAttendanceGateway items scope bid st = (st1, Inl Unique_Violation)"
    "at_rows st1 = at_rows st" using db_submit [OF scope, where st = st and bid = bid] c by auto
  moreover have "at_rows (bg_seed_aggregate FrappeBulkAttendanceGateway scope es st) = at_rows st" for es
    by (simp add: FrappeBulkAttendanceGateway_def)
  ultimately show ?thesis using t by (auto simp: try_submit_def split: option.splits db_fault.splits)
qed

lemma conflict_tries:
  "in_place_tries k faults items p q = (q', res) \<Longrightarrow> frappe_store.exact (aq_tables q) \<Longrightarrow>
   \<forall>i \<in> set items. ai_branch i = bp_scope p \<Longrightarrow> r \<in> set (at_rows (aq_tables q)) \<Longrightarrow>
   x \<in> set items \<Longrightarrow> unique_key x = unique_key r \<Longrightarrow> idempotency_key x \<noteq> idempotency_key r \<Longrightarrow>
   at_rows (aq_tables q') = at_rows (aq_tables q) \<and> res = None"
proof (induction k arbitrary: faults q)
  case 0
  then show ?case by (auto simp: deadletter_or_retry_def Let_def)
next
  case (Suc k)
  let ?f = "case faults of [] \<Rightarrow> None | f # _ \<Rightarrow> f"
  obtain st s where t: "try_submit ?f items (bp_scope p) (bp_batch_id p) (aq_tables q) = (st, s)"
    by (cases "try_submit ?f items (bp_scope p) (bp_batch_id p) (aq_tables q)")
  have ok: "tables_ok (aq_tables q)" using Suc.prems(2) by (simp add: frappe_store.exact_def)
  obtain w where w: "at_rows st = at_rows (aq_tables q)" "s = Inl w"
    using conflict_try [OF ok Suc.prems(4,3,5,6,7) t] by blast
  have ex: "frappe_store.exact st" using try_submit_exact [OF Suc.prems(2) t] by simp
  show ?case
  proof (cases w)
    case Retryable
    then have "in_place_tries k (tl faults) items p (q \<lparr>aq_tables := st\<rparr>) = (q', res)"
      using Suc.prems(1) t w(2) by simp
    from Suc.IH [OF this _ Suc.prems(3)] show ?thesis using ex w(1) Suc.prems(4-7) by simp
  next
    case Not_Retryable
    then show ?thesis using Suc.prems(1) t w by (auto simp: deadletter_or_retry_def Let_def)
  qed
qed

text \<open>A conflicting batch alone in the queue fails each of its runs.\<close>

lemma conflict_runs:
  assumes "x \<in> set (map item_of_payload (bp_items p))"
    "unique_key x = unique_key r" "idempotency_key x \<noteq> idempotency_key r"
  shows "queue_ok q \<Longrightarrow> aq_jobs q = [p \<lparr>bp_attempt := a\<rparr>] \<Longrightarrow> r \<in> set (at_rows (aq_tables q)) \<Longrightarrow>
    nat (6 - a) \<le> length sched \<Longrightarrow>
    at_rows (aq_tables (run_schedule sched q)) = at_rows (aq_tables q) \<and> aq_jobs (run_schedule sched q) = []
    \<and> aq_events (run_schedule sched q) = aq_events q @ [Import_Failed (bp_batch_id p) 5]"
proof (induction sched arbitrary: q a)
  case Nil
  then show ?case by (auto simp: queue_ok_def payload_ok_def BULK_ATTENDANCE_MAX_RETRY_def)
next
  case (Cons step sched)
  obtain i faults where s: "step = (i, faults)" by (cases step)
  let ?p = "p \<lparr>bp_attempt := a\<rparr>" and ?q0 = "q \<lparr>aq_jobs := []\<rparr>"
  let ?q1 = "process_bulk_batch faults ?p ?q0"
  have pk: "payload_ok ?p" and ok0: "queue_ok ?q0" using Cons.prems(1,2) by (auto simp: queue_ok_def)
  have q1: "run_schedule (step # sched) q = run_schedule sched ?q1"
    using Cons.prems(2) by (simp add: s run_job_def)
  obtain q2 res where t: "in_place_tries BULK_ATTENDANCE_IN_PLACE_ATTEMPTS faults (map item_of_payload (bp_items ?p)) ?p ?q0 = (q2, res)"
    by (cases "in_place_tries BULK_ATTENDANCE_IN_PLACE_ATTEMPTS faults (map item_of_payload (bp_items ?p)) ?p ?q0")
  have c: "at_rows (aq_tables q2) = at_rows (aq_tables q)" "res = None"
    using conflict_tries [OF t _ payload_scope [OF pk], of r x] ok0 Cons.prems(3) assms by (auto simp: queue_ok_def)
  have "?q1 = q2" using t c(2) pk by (simp add: process_bulk_batch_def submit_with_in_place_retry_def payload_ok_def)
  with c(1) have rows: "at_rows (aq_tables ?q1) = at_rows (aq_tables q)" by simp
  have a5: "a \<le> 5" using pk by (simp add: payload_ok_def BULK_ATTENDANCE_MAX_RETRY_def)
  have no_ack: "aq_events ?q1 \<noteq> aq_events q @ [Batch_Ack b c d e f]" for b c d e f
    using tries_outcome [OF t _ payload_scope [OF pk]] c(2) \<open>?q1 = q2\<close> ok0 by (auto simp: queue_ok_def split: if_splits)
  note o = process_outcome [OF ok0 pk, of faults]
  show ?case
  proof (cases "a = 5")
    case True
    then have e: "aq_jobs ?q1 = []" "aq_events ?q1 = aq_events q @ [Import_Failed (bp_batch_id p) 5]"
      using o no_ack by (auto simp: BULK_ATTENDANCE_MAX_RETRY_def)
    have "run_schedule sched q' = q'" if "aq_jobs q' = []" for q'
      using that by (induction sched) auto
    then show ?thesis using q1 e rows by simp
  next
    case False
    then have e: "aq_jobs ?q1 = [p \<lparr>bp_attempt := a + 1\<rparr>]" "aq_events ?q1 = aq_events q"
      using o no_ack a5 by (auto simp: BULK_ATTENDANCE_MAX_RETRY_def)
    have "queue_ok ?q1" using o e ok0 False a5 pk
      by (auto simp: queue_ok_def payload_ok_def BULK_ATTENDANCE_MAX_RETRY_def)
    from Cons.IH [OF this e(1)] show ?thesis using q1 rows e Cons.prems(3,4) by simp
  qed
qed

text \<open>A batch that names an attendee who is recorded for the event already under another request
  id, by any path and even from another branch, is never written: alone in the queue it is run
  six times, stores nothing of its items, and is dead-lettered.\<close>
theorem conflicting_batch_dead_letters:
  assumes "queue_run q" "aq_jobs q = [p]" "bp_attempt p = 0" and r: "r \<in> set (at_rows (aq_tables q))"
    and raw: "raw \<in> set (bp_items p)" "pi_event raw = ai_event r" "pi_attendee_ref raw = ai_attendee_ref r"
      "idempotency_key (item_of_payload raw) \<noteq> idempotency_key r"
    and "6 \<le> length sched"
  shows "aq_jobs (run_schedule sched q) = []
    \<and> aq_events (run_schedule sched q) = aq_events q @ [Import_Failed (bp_batch_id p) 5]
    \<and> at_rows (aq_tables (run_schedule sched q)) = at_rows (aq_tables q)"
proof -
  have p: "p \<lparr>bp_attempt := 0\<rparr> = p" using assms(3) by simp
  have "item_of_payload raw \<in> set (map item_of_payload (bp_items p))" using raw(1) by simp
  moreover have "unique_key (item_of_payload raw) = unique_key r"
    using raw(2,3) by (simp add: unique_key_def item_of_payload_def)
  ultimately show ?thesis
    using conflict_runs [of "item_of_payload raw" p r q 0 sched] raw(4) queue_run_ok [OF assms(1)] assms(2,9) r p by simp
qed

lemma conflicting_batch_dead_letters_witness:
  "aq_events (run_schedule (replicate 6 (0, [])) demo_conflict) = aq_events demo_conflict @ [Import_Failed ''b2'' 5]"
proof -
  let ?p = "hd (aq_jobs demo_conflict)" and ?r = "hd (at_rows (aq_tables demo_conflict))"
  let ?raw = "hd (bp_items ?p)"
  have j: "aq_jobs demo_conflict = [?p]" "bp_attempt ?p = 0" and r: "?r \<in> set (at_rows (aq_tables demo_conflict))"
    and raw: "?raw \<in> set (bp_items ?p)" "pi_event ?raw = ai_event ?r" "pi_attendee_ref ?raw = ai_attendee_ref ?r"
      "idempotency_key (item_of_payload ?raw) \<noteq> idempotency_key ?r" and b: "bp_batch_id ?p = ''b2''"
    by code_simp+
  have l: "6 \<le> length (replicate 6 (0 :: nat, [] :: db_fault option list))" by simp
  show ?thesis
    using conflicting_batch_dead_letters [OF demo_queue_runs(3) j r raw l] b by simp
qed

end
