(* ===== verification/Gatherings.thy ===== *)
theory Gatherings
  imports Trees Status_Machine "HOL-Library.Sublist"
begin

text \<open>
  Model of \<open>flock_os/gatherings.py\<close> (status machine, branch binding, group path) and
  of the controller \<open>doctype/flock_gathering/flock_gathering.py\<close>, whose \<open>validate\<close>
  hook runs on every save of a \<open>Flock Gathering\<close>.  The database reads of the hook
  (branch organization, group branch, parent group) are arguments.
\<close>

section \<open>Status catalog\<close>

definition STATUS_SCHEDULED :: string where [status_defs]: "STATUS_SCHEDULED = ''Scheduled''"
definition STATUS_HELD :: string where [status_defs]: "STATUS_HELD = ''Held''"
definition STATUS_REPORTED :: string where [status_defs]: "STATUS_REPORTED = ''Reported''"
definition STATUS_CONFIRMED :: string where [status_defs]: "STATUS_CONFIRMED = ''Confirmed''"
definition STATUS_CANCELLED :: string where [status_defs]: "STATUS_CANCELLED = ''Cancelled''"

definition GATHERING_STATUSES :: "string list" where
  "GATHERING_STATUSES =
     [STATUS_SCHEDULED, STATUS_HELD, STATUS_REPORTED, STATUS_CONFIRMED, STATUS_CANCELLED]"

definition DEFAULT_STATUS :: string where
  "DEFAULT_STATUS = STATUS_SCHEDULED"

definition TERMINAL_STATUSES :: "string set" where
  "TERMINAL_STATUSES = {STATUS_CONFIRMED, STATUS_CANCELLED}"

definition TRANSITIONS :: "(string \<times> string list) list" where
  "TRANSITIONS =
    [(STATUS_SCHEDULED, [STATUS_HELD, STATUS_CANCELLED]),
     (STATUS_HELD, [STATUS_REPORTED, STATUS_CANCELLED]),
     (STATUS_REPORTED, [STATUS_CONFIRMED, STATUS_HELD]),
     (STATUS_CONFIRMED, []),
     (STATUS_CANCELLED, [])]"

datatype gathering_error =
    Gathering_Bad_Start string
  | Gathering_Bad_Transition string string
  | Gathering_Branch_Required
  | Gathering_Group_Without_Branch
  | Gathering_Branch_Mismatch string string

definition is_terminal_status :: "string \<Rightarrow> bool" where
  "is_terminal_status status = (status \<in> TERMINAL_STATUSES)"

definition is_valid_transition :: "string option \<Rightarrow> string \<Rightarrow> bool" where
  "is_valid_transition from_status to_status =
    (if to_status \<notin> set GATHERING_STATUSES then False
     else case from_status of
       None \<Rightarrow> to_status = DEFAULT_STATUS
     | Some f \<Rightarrow> if f = to_status then True else to_status \<in> set (table_get TRANSITIONS f))"

definition validate_status_transition :: "string option \<Rightarrow> string \<Rightarrow> gathering_error + unit" where
  "validate_status_transition from_status to_status =
    (if is_valid_transition from_status to_status then Inr ()
     else case from_status of
       None \<Rightarrow> Inl (Gathering_Bad_Start to_status)
     | Some f \<Rightarrow> Inl (Gathering_Bad_Transition f to_status))"

definition validate_gathering_branch_binding ::
  "string option \<Rightarrow> string \<Rightarrow> gathering_error + unit" where
  "validate_gathering_branch_binding group_branch gathering_branch =
    (if gathering_branch = [] then Inl Gathering_Branch_Required
     else case group_branch of
       None \<Rightarrow> Inl Gathering_Group_Without_Branch
     | Some gb \<Rightarrow>
         if gb \<noteq> gathering_branch then Inl (Gathering_Branch_Mismatch gb gathering_branch)
         else Inr ())"

text \<open>\<open>"/" + "/".join(reversed(path_to_root))\<close>.\<close>

fun join_with :: "string \<Rightarrow> string list \<Rightarrow> string" where
  "join_with sep [] = []"
| "join_with sep [x] = x"
| "join_with sep (x # y # ys) = x @ sep @ join_with sep (y # ys)"

definition build_group_path :: "string list \<Rightarrow> string" where
  "build_group_path chain =
     (if chain = [] then [] else ''/'' @ join_with ''/'' (rev chain))"

interpretation gathering: status_machine GATHERING_STATUSES DEFAULT_STATUS TRANSITIONS is_valid_transition
  by unfold_locales (auto simp: is_valid_transition_def GATHERING_STATUSES_def DEFAULT_STATUS_def)

section \<open>The controller\<close>

record gathering_doc =
  gd_organization :: "string option"
  gd_branch :: string
  gd_group :: string
  gd_status :: string
  gd_group_path :: string

definition GROUP_PATH_MAX_DEPTH :: nat where
  "GROUP_PATH_MAX_DEPTH = 64"

definition denormalize_tenant_floor ::
  "(string \<Rightarrow> string option) \<Rightarrow> gathering_doc \<Rightarrow> gathering_doc" where
  "denormalize_tenant_floor branch_org doc =
    (if truthy (gd_organization doc) then doc
     else if gd_branch doc \<noteq> [] \<and> truthy (branch_org (gd_branch doc))
     then doc \<lparr>gd_organization := branch_org (gd_branch doc)\<rparr>
     else doc)"

text \<open>The bounded \<open>for\<close> loop of \<open>_group_path_to_root\<close>; the first argument counts the
  remaining iterations, \<open>break\<close> returns the chain built so far.\<close>

fun group_walk ::
  "nat \<Rightarrow> (docname \<Rightarrow> string option) \<Rightarrow> docname list \<Rightarrow> docname set \<Rightarrow> docname \<Rightarrow> docname list" where
  "group_walk 0 parent_group chain seen current = chain"
| "group_walk (Suc k) parent_group chain seen current =
    (case parent_group current of
       None \<Rightarrow> chain
     | Some parent \<Rightarrow>
         if parent = [] then chain
         else if parent \<in> seen then chain
         else group_walk k parent_group (chain @ [parent]) (insert parent seen) parent)"

definition group_path_to_root :: "(docname \<Rightarrow> string option) \<Rightarrow> docname \<Rightarrow> docname list" where
  "group_path_to_root parent_group grp =
    (if grp = [] then []
     else group_walk GROUP_PATH_MAX_DEPTH parent_group [grp] {grp} grp)"

definition validate_gathering ::
  "(string \<Rightarrow> string option) \<Rightarrow> (docname \<Rightarrow> string option) \<Rightarrow> (docname \<Rightarrow> string option)
    \<Rightarrow> string option \<Rightarrow> gathering_doc \<Rightarrow> gathering_error + gathering_doc" where
  "validate_gathering branch_org group_branch parent_group before_status doc0 =
    (let doc = denormalize_tenant_floor branch_org doc0;
         gb = (if gd_group doc \<noteq> [] then group_branch (gd_group doc) else None)
     in res_bind (validate_gathering_branch_binding gb (gd_branch doc)) (\<lambda>_.
        res_bind (validate_status_transition before_status (gd_status doc)) (\<lambda>_.
        Inr (doc \<lparr>gd_group_path := build_group_path (group_path_to_root parent_group (gd_group doc))\<rparr>))))"

section \<open>Lemmas on the group path\<close>

lemma build_group_path_concat:
  "build_group_path chain = concat (map (\<lambda>x. CHR ''/'' # x) (rev chain))"
proof -
  have "xs \<noteq> [] \<Longrightarrow> CHR ''/'' # join_with ''/'' xs = concat (map (\<lambda>x. CHR ''/'' # x) xs)" for xs
    by (induction "''/''" xs rule: join_with.induct) auto
  then show ?thesis by (simp add: build_group_path_def)
qed

lemma slash_free_head:
  assumes "CHR ''/'' \<notin> set x" "CHR ''/'' \<notin> set y" "v = [] \<or> hd v = CHR ''/''"
    "prefix (x @ CHR ''/'' # u) (y @ v)"
  shows "x = y \<and> prefix (CHR ''/'' # u) v"
proof -
  from assms(4) obtain w where eq: "y @ v = x @ CHR ''/'' # u @ w" by (auto simp: prefix_def)
  have tw: "takeWhile (\<lambda>c. c \<noteq> CHR ''/'') (z @ CHR ''/'' # r) = z" if "CHR ''/'' \<notin> set z" for z r
    using that by (induction z) auto
  have "v \<noteq> []"
  proof
    assume "v = []"
    then have "CHR ''/'' \<in> set y" using eq by (metis append_Nil2 in_set_conv_decomp)
    then show False using assms(2) by simp
  qed
  with assms(3) obtain v' where v: "v = CHR ''/'' # v'" by (cases v) auto
  then have "x = y" using eq tw [OF assms(1)] tw [OF assms(2)] by metis
  then show ?thesis using eq by (auto simp: prefix_def)
qed

lemma slash_paths_prefix:
  assumes "\<forall>x \<in> set xs. CHR ''/'' \<notin> set x" "\<forall>y \<in> set ys. CHR ''/'' \<notin> set y"
  shows "prefix (concat (map (\<lambda>x. CHR ''/'' # x) xs) @ ''/'') (concat (map (\<lambda>x. CHR ''/'' # x) ys))
    \<longleftrightarrow> strict_prefix xs ys"
  using assms
proof (induction xs arbitrary: ys)
  case Nil
  then show ?case by (cases ys) (auto simp: strict_prefix_def)
next
  case (Cons x xs)
  show ?case
  proof (cases ys)
    case Nil
    then show ?thesis by (auto simp: prefix_def)
  next
    case (Cons y zs)
    let ?f = "\<lambda>zs. concat (map (\<lambda>x. CHR ''/'' # x) zs)"
    have starts: "?f zs = [] \<or> hd (?f zs) = CHR ''/''" for zs by (cases zs) auto
    obtain u where u: "?f xs @ ''/'' = CHR ''/'' # u" by (cases xs) auto
    have "prefix (x @ ?f xs @ ''/'') (y @ ?f zs) \<longleftrightarrow> x = y \<and> prefix (?f xs @ ''/'') (?f zs)"
      using slash_free_head [OF _ _ starts, of x y u zs] Cons.prems Cons u by auto
    then show ?thesis using Cons Cons.IH [of zs] Cons.prems by auto
  qed
qed

lemma group_walk_chain:
  assumes "chain_from P cur ps" "length ps \<le> k" "distinct ps" "set ps \<inter> seen = {}" "[] \<notin> set ps"
    "cur = parent_get P c"
  shows "group_walk k (parent_get P) ch seen c = ch @ ps"
  using assms
proof (induction ps arbitrary: k ch seen c cur)
  case Nil
  then show ?case by (cases k) auto
next
  case (Cons p ps)
  then obtain k' where "k = Suc k'" by (cases k) auto
  with Cons show ?case by auto
qed

lemma group_walk_bound:
  "length (group_walk k pg ch seen c) \<le> length ch + k"
proof (induction k arbitrary: ch seen c)
  case (Suc k)
  have "length (group_walk k pg (ch @ [p]) (insert p seen) p) \<le> length ch + Suc k" for p
    using Suc [of "ch @ [p]" "insert p seen" p] by simp
  then show ?case by (auto split: option.split)
qed simp

section \<open>Properties\<close>

text \<open>A gathering is confirmed only after it was held and then reported: every
  sequence of statuses the guard accepts for a new gathering starts as Scheduled, and when
  Confirmed occurs in it, Held and later Reported occur before; after Confirmed (as after
  Cancelled) no other status follows.\<close>
theorem gathering_confirmed_after_report:
  assumes acc: "accepts is_valid_transition None hist" and conf: "STATUS_CONFIRMED \<in> set hist"
  shows "hd hist = STATUS_SCHEDULED \<and>
    (\<exists>as bs cs ds. hist = as @ [STATUS_HELD] @ bs @ [STATUS_REPORTED] @ cs @ [STATUS_CONFIRMED] @ ds
       \<and> set ds \<subseteq> {STATUS_CONFIRMED})"
proof -
  have only_c: "STATUS_CONFIRMED \<in> set (table_get TRANSITIONS s) \<Longrightarrow> s = STATUS_REPORTED" for s
    by (auto simp: table_get_def TRANSITIONS_def status_defs split: if_splits)
  have only_r: "STATUS_REPORTED \<in> set (table_get TRANSITIONS s) \<Longrightarrow> s = STATUS_HELD" for s
    by (auto simp: table_get_def TRANSITIONS_def status_defs split: if_splits)
  from gathering.only_through [OF acc conf _ only_c] obtain xs ys where
    h: "hist = xs @ STATUS_CONFIRMED # ys" "STATUS_REPORTED \<in> set xs"
    "accepts is_valid_transition None xs"
    by (auto simp: DEFAULT_STATUS_def status_defs)
  from gathering.only_through [OF h(3,2) _ only_r] obtain us vs where
    x: "xs = us @ STATUS_REPORTED # vs" "STATUS_HELD \<in> set us"
    by (auto simp: DEFAULT_STATUS_def status_defs)
  from x(2) obtain as bs where us: "us = as @ STATUS_HELD # bs" by (meson split_list)
  have "accepts is_valid_transition (Some STATUS_CONFIRMED) ys"
    using acc h(1) by (simp add: accepts_append)
  then have "set ys \<subseteq> {STATUS_CONFIRMED}"
    by (rule gathering.terminal_absorbing [rotated]) (simp add: table_get_def TRANSITIONS_def status_defs)
  moreover have "hd hist = STATUS_SCHEDULED"
    using acc conf by (cases hist) (auto simp: gathering.valid_new DEFAULT_STATUS_def)
  ultimately show ?thesis
    unfolding h(1) x(1) us by (intro conjI exI [of _ as] exI [of _ bs] exI [of _ vs] exI [of _ ys]) auto
qed

lemma gathering_confirmed_witness:
  "STATUS_CONFIRMED \<in> set [STATUS_SCHEDULED, STATUS_HELD, STATUS_REPORTED, STATUS_CONFIRMED] \<and>
   (\<exists>as bs cs ds. [STATUS_SCHEDULED, STATUS_HELD, STATUS_REPORTED, STATUS_CONFIRMED]
      = as @ [STATUS_HELD] @ bs @ [STATUS_REPORTED] @ cs @ [STATUS_CONFIRMED] @ ds
      \<and> set ds \<subseteq> {STATUS_CONFIRMED})"
proof -
  have "accepts is_valid_transition None
      [STATUS_SCHEDULED, STATUS_HELD, STATUS_REPORTED, STATUS_CONFIRMED]" by code_simp
  from gathering_confirmed_after_report [OF this] show ?thesis by simp
qed

text \<open>The denormalised \<open>group_path\<close> supports subtree roll-ups by prefix: for groups
  whose names contain no slash, \<open>a\<close>'s path followed by a slash is a prefix of \<open>n\<close>'s path
  exactly when \<open>a\<close> is a proper ancestor of \<open>n\<close>.\<close>
theorem group_path_prefix_iff:
  assumes "path_to_root a P = Inr pa" "path_to_root n P = Inr pn"
    and "\<forall>x \<in> set pa \<union> set pn. CHR ''/'' \<notin> set x"
  shows "prefix (build_group_path pa @ ''/'') (build_group_path pn)
    \<longleftrightarrow> is_ancestor_of a n P = Inr True"
proof -
  from assms obtain ca cn where c: "pa = a # ca" "chain_from P (parent_get P a) ca"
    "pn = n # cn" "chain_from P (parent_get P n) cn" and anc: "ancestors_of n P = Inr cn"
    by (auto simp: path_to_root_def res_bind_Inr_iff ancestors_of_Inr_iff)
  have "strict_prefix (rev pa) (rev pn) \<longleftrightarrow> strict_suffix pa pn"
    by (auto simp: strict_prefix_def strict_suffix_def suffix_to_prefix)
  also have "\<dots> \<longleftrightarrow> a \<in> set cn"
  proof
    assume "strict_suffix pa pn"
    then obtain zs where "pn = zs @ pa" "zs \<noteq> []"
      by (auto simp: strict_suffix_def suffix_def)
    then show "a \<in> set cn" using c by (cases zs) auto
  next
    assume "a \<in> set cn"
    then obtain xs ys where "cn = xs @ a # ys" by (meson split_list)
    then have "ys = ca" using chain_from_suffix [of P "parent_get P n" xs a ys] chain_from_unique c by metis
    then have "pn = (n # xs) @ pa" using c \<open>cn = xs @ a # ys\<close> by simp
    then show "strict_suffix pa pn" by (auto simp: strict_suffix_def suffix_def)
  qed
  finally show ?thesis
    using slash_paths_prefix [of "rev pa" "rev pn"] assms(3) anc
    by (simp add: build_group_path_concat is_ancestor_of_def)
qed

lemma group_path_prefix_witness:
  "prefix (build_group_path [''a'', ''root''] @ ''/'') (build_group_path [''b'', ''a'', ''root''])
     \<longleftrightarrow> is_ancestor_of ''a'' ''b'' demo_parents = Inr True"
proof (rule group_path_prefix_iff)
  show "path_to_root ''a'' demo_parents = Inr [''a'', ''root'']" by code_simp
  show "path_to_root ''b'' demo_parents = Inr [''b'', ''a'', ''root'']" by code_simp
qed simp

text \<open>The bounded walk of the controller agrees with \<open>trees.path_to_root\<close>: when the
  group's chain is a walk to the root of at most 64 steps over non-empty names, the
  controller's chain is that path; in every case it has at most 65 entries.\<close>
theorem group_path_walk_agrees:
  assumes "g \<noteq> []" "path_to_root g P = Inr p" "length p \<le> Suc GROUP_PATH_MAX_DEPTH" "[] \<notin> set p"
  shows "group_path_to_root (parent_get P) g = p
    \<and> length (group_path_to_root pg g) \<le> Suc GROUP_PATH_MAX_DEPTH"
proof -
  from assms(2) obtain c where c: "p = g # c" "chain_from P (parent_get P g) c"
    by (auto simp: path_to_root_def res_bind_Inr_iff ancestors_of_Inr_iff)
  have "group_walk GROUP_PATH_MAX_DEPTH (parent_get P) [g] {g} g = [g] @ c"
    using chain_from_node_distinct [OF c(2)] c assms(3,4)
    by (intro group_walk_chain [OF c(2)]) auto
  moreover have "length (group_path_to_root pg g) \<le> Suc GROUP_PATH_MAX_DEPTH"
    using group_walk_bound [of GROUP_PATH_MAX_DEPTH pg "[g]" "{g}" g]
    by (simp add: group_path_to_root_def)
  ultimately show ?thesis using c assms(1) by (simp add: group_path_to_root_def)
qed

lemma group_path_walk_witness:
  "group_path_to_root (parent_get demo_parents) ''b'' = [''b'', ''a'', ''root'']
   \<and> length (group_path_to_root Some ''b'') \<le> Suc GROUP_PATH_MAX_DEPTH"
proof (rule group_path_walk_agrees)
  show "path_to_root ''b'' demo_parents = Inr [''b'', ''a'', ''root'']" by code_simp
qed (simp_all add: GROUP_PATH_MAX_DEPTH_def)

text \<open>The validate hook, on every branch: a save is accepted exactly when the branch is
  set and equals the group's branch and the status move is legal; the stored document then
  keeps status, branch and group, carries the path of its group, and has the organization
  it had or else that of its branch.\<close>
theorem validate_gathering_correct:
  "validate_gathering borg gbr pg before d = Inr d' \<longleftrightarrow>
     gd_branch d \<noteq> [] \<and> gd_group d \<noteq> [] \<and> gbr (gd_group d) = Some (gd_branch d)
   \<and> is_valid_transition before (gd_status d)
   \<and> d' = d \<lparr>gd_organization := (if truthy (gd_organization d) then gd_organization d
                else if truthy (borg (gd_branch d)) then borg (gd_branch d) else gd_organization d),
             gd_group_path := build_group_path (group_path_to_root pg (gd_group d))\<rparr>"
  by (auto simp: validate_gathering_def Let_def denormalize_tenant_floor_def res_bind_Inr_iff
      validate_gathering_branch_binding_def validate_status_transition_def
      split: if_splits option.splits)

end
