(* ===== verification/Leader_Reports.thy ===== *)
theory Leader_Reports
  imports Attendance_Queue Gatherings Py_Values
begin

text \<open>
  Model of \<open>flock_os/leader_reporting.py\<close>, the attendance report of a group leader, and of
  \<open>report_attendance\<close> in \<open>flock_os/attendance.py\<close>, its endpoint.

  The service runs over a port with an in-memory and a production adapter.  The write path
  commits every chunk it writes, so a report that fails later keeps the rows of its chunks;
  what the report does after (the save of the gathering) belongs to the request's transaction.
\<close>

section \<open>Submissions\<close>

definition MEMBER_STATUS_MEMBER :: string where "MEMBER_STATUS_MEMBER = ''Member''"
definition MEMBER_STATUS_PRE_MEMBER :: string where "MEMBER_STATUS_PRE_MEMBER = ''Pre-Member''"
definition MEMBER_STATUS_VISITOR :: string where "MEMBER_STATUS_VISITOR = ''Visitor''"

definition VISITOR_STATUSES :: "string set" where
  "VISITOR_STATUSES = {MEMBER_STATUS_PRE_MEMBER, MEMBER_STATUS_VISITOR}"

definition VALID_MEMBER_STATUSES :: "string set" where
  "VALID_MEMBER_STATUSES = {MEMBER_STATUS_MEMBER, MEMBER_STATUS_PRE_MEMBER, MEMBER_STATUS_VISITOR}"

definition LEADER_REPORT_SOURCE :: string where "LEADER_REPORT_SOURCE = ''leader''"
definition PRESENT_STATUS :: string where "PRESENT_STATUS = ''Present''"
definition REPORTED_STATUS :: string where "REPORTED_STATUS = STATUS_REPORTED"
definition REPORTABLE_STATUS :: string where "REPORTABLE_STATUS = STATUS_HELD"

record attendee_report =
  ar_member :: docname
  ar_present :: bool
  ar_first_time :: bool
  ar_client_req_id :: "string option"

record report_submission =
  rs_gathering :: docname
  rs_branch :: docname
  rs_group :: docname
  rs_reported_by :: docname
  rs_attendees :: "attendee_report list"
  rs_client_batch_id :: string

record report_outcome =
  ro_gathering :: docname
  ro_status :: string
  ro_accepted :: bool
  ro_inserted :: nat
  ro_deduplicated :: nat
  ro_member_count :: nat
  ro_visitor_count :: nat
  ro_first_time_count :: nat
  ro_batch_ids :: "string list"

datatype leader_error =
    Report_Needs_Gathering
  | Report_Needs_Branch
  | Report_Needs_Group
  | Report_Needs_Reporter
  | Report_Needs_Batch_Id
  | Report_No_Gathering docname
  | Report_Terminal docname string
  | Report_Not_Reportable docname string
  | Report_Unknown_Member docname
  | Report_Bad_Member_Status docname string
  | Report_Write attendance_error
  | Report_Move gathering_error
  | Report_Save gathering_error

record attendance_reported =
  ev_gathering :: docname
  ev_reported_by :: docname
  ev_member_count :: nat
  ev_visitor_count :: nat
  ev_total_count :: nat
  ev_first_time_count :: nat
  ev_inserted :: nat
  ev_deduplicated :: nat
  ev_client_batch_id :: string
  ev_branch :: docname
  ev_group :: docname

section \<open>The port and the service\<close>

record 's leader_gateway =
  lg_gathering_status :: "docname \<Rightarrow> 's \<Rightarrow> string option"
  lg_member_status :: "docname \<Rightarrow> 's \<Rightarrow> string option"
  lg_record_attendance :: "attendance_item list \<Rightarrow> docname \<Rightarrow> string \<Rightarrow> 's \<Rightarrow> 's \<times> (attendance_error + nat \<times> nat)"
  lg_advance_gathering :: "docname \<Rightarrow> string \<Rightarrow> docname \<Rightarrow> nat \<Rightarrow> nat \<Rightarrow> nat \<Rightarrow> 's \<Rightarrow> leader_error + 's"
  lg_emit :: "attendance_reported \<Rightarrow> 's \<Rightarrow> 's"

definition validate_submission_shape :: "report_submission \<Rightarrow> leader_error + unit" where
  "validate_submission_shape sub =
    (if rs_gathering sub = [] then Inl Report_Needs_Gathering
     else if rs_branch sub = [] then Inl Report_Needs_Branch
     else if rs_group sub = [] then Inl Report_Needs_Group
     else if rs_reported_by sub = [] then Inl Report_Needs_Reporter
     else raise_if (rs_client_batch_id sub = []) Report_Needs_Batch_Id)"

definition validate_reportable :: "'s leader_gateway \<Rightarrow> report_submission \<Rightarrow> 's \<Rightarrow> leader_error + unit" where
  "validate_reportable gw sub st =
    (case lg_gathering_status gw (rs_gathering sub) st of None \<Rightarrow> Inl (Report_No_Gathering (rs_gathering sub))
     | Some current \<Rightarrow>
         if is_terminal_status current then Inl (Report_Terminal (rs_gathering sub) current)
         else raise_if (current \<noteq> REPORTABLE_STATUS) (Report_Not_Reportable (rs_gathering sub) current))"

definition to_attendance_item :: "report_submission \<Rightarrow> attendee_report \<Rightarrow> attendance_item" where
  "to_attendance_item sub attendee =
    \<lparr>ai_event = rs_gathering sub, ai_attendee_ref = ar_member attendee, ai_branch = rs_branch sub,
     ai_status = PRESENT_STATUS, ai_source = LEADER_REPORT_SOURCE,
     ai_client_req_id = or_else (ar_client_req_id attendee) (Some (ar_member attendee)),
     ai_gathering = None, ai_member = None, ai_session = None, ai_attendee_key = None\<rparr>"

text \<open>The loop over the attendees: the counts of present members, present visitors and first-time
  entries, and the items of the present.\<close>

fun classify_attendees :: "'s leader_gateway \<Rightarrow> report_submission \<Rightarrow> 's \<Rightarrow> attendee_report list
    \<Rightarrow> nat \<Rightarrow> nat \<Rightarrow> nat \<Rightarrow> attendance_item list \<Rightarrow> leader_error + nat \<times> nat \<times> nat \<times> attendance_item list" where
  "classify_attendees gw sub st [] members visitors firsts items = Inr (members, visitors, firsts, items)"
| "classify_attendees gw sub st (a # as) members visitors firsts items =
     (case lg_member_status gw (ar_member a) st of None \<Rightarrow> Inl (Report_Unknown_Member (ar_member a))
      | Some status \<Rightarrow>
          if status \<notin> VALID_MEMBER_STATUSES then Inl (Report_Bad_Member_Status (ar_member a) status)
          else let firsts' = (if ar_first_time a then firsts + 1 else firsts) in
            if \<not> ar_present a then classify_attendees gw sub st as members visitors firsts' items
            else if status \<in> VISITOR_STATUSES
            then classify_attendees gw sub st as members (visitors + 1) firsts' (items @ [to_attendance_item sub a])
            else classify_attendees gw sub st as (members + 1) visitors firsts' (items @ [to_attendance_item sub a]))"

definition chunk_batch_id :: "string \<Rightarrow> nat \<Rightarrow> string" where
  "chunk_batch_id client_batch_id index = client_batch_id @ ''#'' @ digits (int index)"

text \<open>The loop of \<open>_record_in_chunks\<close>; a raise leaves the chunks written before.\<close>

fun record_chunks :: "'s leader_gateway \<Rightarrow> report_submission \<Rightarrow> nat \<Rightarrow> attendance_item list list \<Rightarrow> 's
    \<Rightarrow> nat \<Rightarrow> nat \<Rightarrow> string list \<Rightarrow> 's \<times> (leader_error + nat \<times> nat \<times> string list)" where
  "record_chunks gw sub index [] st inserted deduplicated ids = (st, Inr (inserted, deduplicated, ids))"
| "record_chunks gw sub index (chunk # rest) st inserted deduplicated ids =
     (let batch_id = chunk_batch_id (rs_client_batch_id sub) index in
      case lg_record_attendance gw chunk (rs_branch sub) batch_id st of
        (st1, Inl e) \<Rightarrow> (st1, Inl (Report_Write e))
      | (st1, Inr (i, d)) \<Rightarrow>
          record_chunks gw sub (index + 1) rest st1 (inserted + i) (deduplicated + d) (ids @ [batch_id]))"

definition record_in_chunks :: "'s leader_gateway \<Rightarrow> report_submission \<Rightarrow> attendance_item list \<Rightarrow> 's
    \<Rightarrow> 's \<times> (leader_error + nat \<times> nat \<times> string list)" where
  "record_in_chunks gw sub items st = record_chunks gw sub 0 (chunks BULK_BATCH_SIZE items) st 0 0 []"

definition submit_report :: "'s leader_gateway \<Rightarrow> report_submission \<Rightarrow> 's \<Rightarrow> 's \<times> (leader_error + report_outcome)" where
  "submit_report gw sub st =
    (case res_bind (validate_submission_shape sub) (\<lambda>_. res_bind (validate_reportable gw sub st) (\<lambda>_.
            classify_attendees gw sub st (rs_attendees sub) 0 0 0 [])) of
       Inl e \<Rightarrow> (st, Inl e)
     | Inr (members, visitors, firsts, items) \<Rightarrow>
       (case record_in_chunks gw sub items st of
          (st1, Inl e) \<Rightarrow> (st1, Inl e)
        | (st1, Inr (inserted, deduplicated, ids)) \<Rightarrow>
          (case validate_status_transition (lg_gathering_status gw (rs_gathering sub) st1) REPORTED_STATUS of
             Inl e \<Rightarrow> (st1, Inl (Report_Move e))
           | Inr _ \<Rightarrow>
             (case lg_advance_gathering gw (rs_gathering sub) REPORTED_STATUS (rs_reported_by sub)
                     members visitors firsts st1 of
                Inl e \<Rightarrow> (st1, Inl e)
              | Inr st2 \<Rightarrow>
                (lg_emit gw \<lparr>ev_gathering = rs_gathering sub, ev_reported_by = rs_reported_by sub,
                   ev_member_count = members, ev_visitor_count = visitors,
                   ev_total_count = members + visitors, ev_first_time_count = firsts,
                   ev_inserted = inserted, ev_deduplicated = deduplicated,
                   ev_client_batch_id = rs_client_batch_id sub, ev_branch = rs_branch sub,
                   ev_group = rs_group sub\<rparr> st2,
                 Inr \<lparr>ro_gathering = rs_gathering sub, ro_status = REPORTED_STATUS, ro_accepted = True,
                   ro_inserted = inserted, ro_deduplicated = deduplicated, ro_member_count = members,
                   ro_visitor_count = visitors, ro_first_time_count = firsts, ro_batch_ids = ids\<rparr>)))))"

section \<open>The in-memory adapter\<close>

record advance_call =
  ac_gathering :: docname
  ac_status :: string
  ac_reported_by :: docname
  ac_members :: nat
  ac_visitors :: nat
  ac_firsts :: nat

record mem_leader =
  ml_statuses :: "(docname \<times> string) list"
  ml_members :: "(docname \<times> string) list"
  ml_bulk :: mem_gateway
  ml_published :: "attendance_reported list"
  ml_advanced :: "advance_call list"

definition receipt_counts :: "attendance_error + bulk_outcome \<Rightarrow> attendance_error + nat \<times> nat" where
  "receipt_counts r = res_bind r (\<lambda>out. Inr (bo_inserted out, bo_deduplicated out))"

definition InMemoryLeaderReportingGateway :: "mem_leader leader_gateway" where
  "InMemoryLeaderReportingGateway =
    \<lparr>lg_gathering_status = (\<lambda>g st. map_of (ml_statuses st) g),
     lg_member_status = (\<lambda>m st. map_of (ml_members st) m),
     lg_record_attendance = (\<lambda>items scope bid st.
       let (b, r) = submit InMemoryBulkAttendanceGateway items scope bid (ml_bulk st)
       in (st \<lparr>ml_bulk := b\<rparr>, receipt_counts r)),
     lg_advance_gathering = (\<lambda>g status by members visitors firsts st.
       Inr (st \<lparr>ml_statuses := AList.update g status (ml_statuses st),
         ml_advanced := ml_advanced st @ [\<lparr>ac_gathering = g, ac_status = status, ac_reported_by = by,
           ac_members = members, ac_visitors = visitors, ac_firsts = firsts\<rparr>]\<rparr>)),
     lg_emit = (\<lambda>ev st. st \<lparr>ml_published := ml_published st @ [ev]\<rparr>)\<rparr>"

section \<open>The production adapter\<close>

record reported_gathering = gathering_doc +
  rg_reported_by :: "docname option"
  rg_reported_at :: "string option"
  rg_member_count :: nat
  rg_visitor_count :: nat
  rg_total_count :: nat
  rg_first_time_count :: nat

record leader_db =
  ld_tables :: attendance_tables
  ld_gatherings :: "(docname \<times> reported_gathering) list"
  ld_members :: "(docname \<times> string) list"
  ld_events :: "attendance_reported list"

text \<open>What the save of a gathering reads, and the time of the request.\<close>

record leader_env =
  le_branch_org :: "docname \<Rightarrow> docname option"
  le_group_branch :: "docname \<Rightarrow> docname option"
  le_parent_group :: "docname \<Rightarrow> docname option"
  le_now :: string

definition db_advance_gathering :: "leader_env \<Rightarrow> docname \<Rightarrow> string \<Rightarrow> docname \<Rightarrow> nat \<Rightarrow> nat \<Rightarrow> nat
    \<Rightarrow> leader_db \<Rightarrow> leader_error + leader_db" where
  "db_advance_gathering env g status by members visitors firsts st =
    (case map_of (ld_gatherings st) g of None \<Rightarrow> Inl (Report_No_Gathering g)
     | Some d \<Rightarrow>
       let d1 = d \<lparr>gd_status := status, rg_reported_by := Some by, rg_reported_at := Some (le_now env),
             rg_member_count := members, rg_visitor_count := visitors,
             rg_total_count := members + visitors, rg_first_time_count := firsts\<rparr>
       in (case validate_gathering (le_branch_org env) (le_group_branch env) (le_parent_group env)
               (Some (gd_status d)) (gathering_doc.truncate d1) of
             Inl e \<Rightarrow> Inl (Report_Save e)
           | Inr v \<Rightarrow> Inr (st \<lparr>ld_gatherings := AList.update g
               (d1 \<lparr>gd_organization := gd_organization v, gd_group_path := gd_group_path v\<rparr>)
               (ld_gatherings st)\<rparr>)))"

definition FrappeLeaderReportingGateway :: "leader_env \<Rightarrow> leader_db leader_gateway" where
  "FrappeLeaderReportingGateway env =
    \<lparr>lg_gathering_status = (\<lambda>g st. map_option gd_status (map_of (ld_gatherings st) g)),
     lg_member_status = (\<lambda>m st. map_of (ld_members st) m),
     lg_record_attendance = (\<lambda>items scope bid st.
       let (b, r) = submit FrappeBulkAttendanceGateway items scope bid (ld_tables st)
       in (st \<lparr>ld_tables := b\<rparr>, receipt_counts r)),
     lg_advance_gathering = db_advance_gathering env,
     lg_emit = (\<lambda>ev st. st \<lparr>ld_events := ld_events st @ [ev]\<rparr>)\<rparr>"

section \<open>The endpoint\<close>

record attendee_entry =
  ae_member :: "docname option"
  ae_present :: "bool option"
  ae_first_time :: "bool option"
  ae_client_req_id :: "string option"

datatype report_error =
    Report_Gathering_Required
  | Report_Batch_Id_Required
  | Report_Ambiguous_Branch
  | Report_Missing_Gathering docname
  | Report_Outside_Branch
  | Report_Not_Yet string
  | Report_Member_Required nat
  | Report_Rejected leader_error

definition attendee_from_payload :: "attendee_entry \<Rightarrow> nat \<Rightarrow> report_error + attendee_report" where
  "attendee_from_payload raw index =
    (if \<not> truthy (ae_member raw) then Inl (Report_Member_Required index)
     else Inr \<lparr>ar_member = the (ae_member raw),
       ar_present = (case ae_present raw of None \<Rightarrow> True | Some b \<Rightarrow> b),
       ar_first_time = (case ae_first_time raw of None \<Rightarrow> False | Some b \<Rightarrow> b),
       ar_client_req_id = (if truthy (ae_client_req_id raw) then ae_client_req_id raw else None)\<rparr>)"

fun attendees_from_payload :: "nat \<Rightarrow> attendee_entry list \<Rightarrow> report_error + attendee_report list" where
  "attendees_from_payload index [] = Inr []"
| "attendees_from_payload index (raw # raws) =
     res_bind (attendee_from_payload raw index) (\<lambda>a.
     res_bind (attendees_from_payload (index + 1) raws) (\<lambda>as. Inr (a # as)))"

record report_caller =
  rc_branch_docs :: "docname option list"
  rc_linked_member :: "docname option"
  rc_user :: string

definition resolve_reporter_member :: "report_caller \<Rightarrow> docname" where
  "resolve_reporter_member caller =
    (if truthy (rc_linked_member caller) then the (rc_linked_member caller) else rc_user caller)"

definition report_attendance :: "leader_env \<Rightarrow> report_caller \<Rightarrow> docname \<Rightarrow> attendee_entry list \<Rightarrow> string
    \<Rightarrow> leader_db \<Rightarrow> leader_db \<times> (report_error + report_outcome)" where
  "report_attendance env caller gathering attendees client_batch_id st =
    (if gathering = [] then (st, Inl Report_Gathering_Required)
     else if client_batch_id = [] then (st, Inl Report_Batch_Id_Required)
     else case resolve_caller_branch_scope (rc_branch_docs caller) of
       Inl _ \<Rightarrow> (st, Inl Report_Ambiguous_Branch)
     | Inr scope \<Rightarrow>
       (case map_of (ld_gatherings st) gathering of None \<Rightarrow> (st, Inl (Report_Missing_Gathering gathering))
        | Some doc \<Rightarrow>
          if gd_branch doc \<noteq> scope then (st, Inl Report_Outside_Branch)
          else if gd_status doc \<noteq> REPORTABLE_STATUS then (st, Inl (Report_Not_Yet (gd_status doc)))
          else case attendees_from_payload 0 attendees of Inl e \<Rightarrow> (st, Inl e)
          | Inr as \<Rightarrow>
            (case submit_report (FrappeLeaderReportingGateway env)
                    \<lparr>rs_gathering = gathering, rs_branch = scope, rs_group = gd_group doc,
                     rs_reported_by = resolve_reporter_member caller, rs_attendees = as,
                     rs_client_batch_id = client_batch_id\<rparr> st of
               (st1, Inl e) \<Rightarrow> (st1, Inl (Report_Rejected e))
             | (st1, Inr out) \<Rightarrow> (st1, Inr out))))"

end
