(* ===== verification/Leader_Safety.thy ===== *)
theory Leader_Safety
  imports Leader_Reports
begin

text \<open>
  What a leader report guarantees: the contract of the storage port, the effect of a report over
  every adapter that keeps it, and the properties of the production endpoint.
\<close>

section \<open>The contract of the port\<close>

text \<open>A write of items of one branch stores a row under the key of every item or raises; the key is
  what the adapter recognises an item by, and names its attendee.  A write touches neither statuses nor events.  An advance sets one status.\<close>

locale report_store =
  fixes gw :: "'s leader_gateway"
    and rows :: "'s \<Rightarrow> attendance_item list"
    and reports :: "'s \<Rightarrow> attendance_reported list"
    and key :: "attendance_item \<Rightarrow> 'k"
    and ok :: "'s \<Rightarrow> bool"
  assumes key_attendee: "key x = key y \<Longrightarrow> unique_key x = unique_key y"
    and write_ok: "ok st \<Longrightarrow> \<forall>i \<in> set items. ai_branch i = scope \<Longrightarrow>
      lg_record_attendance gw items scope bid st = (st', Inr (i, d)) \<Longrightarrow>
      i + d = length items \<and> key ` set items \<subseteq> key ` set (rows st')"
    and write_any: "ok st \<Longrightarrow> lg_record_attendance gw items scope bid st = (st', r) \<Longrightarrow>
      ok st' \<and> reports st' = reports st \<and> lg_gathering_status gw g st' = lg_gathering_status gw g st
      \<and> lg_member_status gw m st' = lg_member_status gw m st \<and> (\<exists>extra. rows st' = rows st @ extra)"
    and advance: "ok st \<Longrightarrow> lg_advance_gathering gw g status by a b c st = Inr st' \<Longrightarrow>
      ok st' \<and> reports st' = reports st \<and> rows st' = rows st
      \<and> lg_gathering_status gw h st' = (if h = g then Some status else lg_gathering_status gw h st)"
    and emit: "ok st \<Longrightarrow> ok (lg_emit gw ev st) \<and> reports (lg_emit gw ev st) = reports st @ [ev]
      \<and> rows (lg_emit gw ev st) = rows st \<and> lg_gathering_status gw g (lg_emit gw ev st) = lg_gathering_status gw g st"
begin

lemma classified:
  "classify_attendees gw sub st as m v f items = Inr (m', v', f', items') \<Longrightarrow>
   items' = items @ map (to_attendance_item sub) (filter ar_present as)
   \<and> m' + v' = m + v + length (filter ar_present as)
   \<and> f' = f + length (filter ar_first_time as)
   \<and> m' = m + length (filter (\<lambda>a. ar_present a \<and> lg_member_status gw (ar_member a) st = Some MEMBER_STATUS_MEMBER) as)
   \<and> (\<forall>a \<in> set as. \<exists>s \<in> VALID_MEMBER_STATUSES. lg_member_status gw (ar_member a) st = Some s)"
proof (induction as arbitrary: m v f items)
  case (Cons a as)
  have two: "s \<in> VALID_MEMBER_STATUSES \<Longrightarrow> (s \<in> VISITOR_STATUSES) = (s \<noteq> MEMBER_STATUS_MEMBER)" for s
    by (auto simp: VALID_MEMBER_STATUSES_def VISITOR_STATUSES_def MEMBER_STATUS_MEMBER_def
        MEMBER_STATUS_PRE_MEMBER_def MEMBER_STATUS_VISITOR_def)
  obtain s where s: "lg_member_status gw (ar_member a) st = Some s" "s \<in> VALID_MEMBER_STATUSES"
    using Cons.prems by (auto split: option.splits if_splits)
  show ?case using Cons.prems s two [OF s(2)] Cons.IH
    by (cases "ar_present a"; cases "ar_first_time a"; cases "s \<in> VISITOR_STATUSES") (fastforce simp: Let_def)+
qed auto

lemma chunks_written:
  "record_chunks gw sub k cs st i d ids = (st', r) \<Longrightarrow> ok st \<Longrightarrow>
   \<forall>c \<in> set cs. \<forall>x \<in> set c. ai_branch x = rs_branch sub \<Longrightarrow>
   ok st' \<and> reports st' = reports st \<and> lg_gathering_status gw g st' = lg_gathering_status gw g st
   \<and> (\<exists>extra. rows st' = rows st @ extra)
   \<and> (\<forall>i' d' ids'. r = Inr (i', d', ids') \<longrightarrow> i' + d' = i + d + length (concat cs)
        \<and> length ids' = length ids + length cs
        \<and> key ` set (concat cs) \<subseteq> key ` set (rows st'))"
proof (induction cs arbitrary: k st i d ids)
  case (Cons c cs)
  obtain st1 s where w: "lg_record_attendance gw c (rs_branch sub) (chunk_batch_id (rs_client_batch_id sub) k) st = (st1, s)"
    by (cases "lg_record_attendance gw c (rs_branch sub) (chunk_batch_id (rs_client_batch_id sub) k) st")
  note a = write_any [OF Cons.prems(2) w]
  have sc: "\<forall>x \<in> set c. ai_branch x = rs_branch sub" "\<forall>c \<in> set cs. \<forall>x \<in> set c. ai_branch x = rs_branch sub"
    using Cons.prems(3) by auto
  show ?case
  proof (cases s)
    case (Inl e)
    then show ?thesis using Cons.prems(1) w a by (auto simp: Let_def)
  next
    case (Inr p)
    obtain i1 d1 where p: "p = (i1, d1)" by (cases p)
    note wo = write_ok [OF Cons.prems(2) sc(1) w [unfolded Inr p]]
    have "record_chunks gw sub (k + 1) cs st1 (i + i1) (d + d1) (ids @ [chunk_batch_id (rs_client_batch_id sub) k]) = (st', r)"
      using Cons.prems(1) w Inr p by (simp add: Let_def)
    note h = Cons.IH [OF this _ sc(2)]
    from a have "ok st1" by blast
    note h = h [OF this]
    show ?thesis
    proof (intro conjI allI impI)
      show "ok st'" "reports st' = reports st" "lg_gathering_status gw g st' = lg_gathering_status gw g st"
        using h a by auto
      show "\<exists>extra. rows st' = rows st @ extra" using h a by (metis append_assoc)
      fix i' d' ids' assume "r = Inr (i', d', ids')"
      with h wo show "i' + d' = i + d + length (concat (c # cs))" "length ids' = length ids + length (c # cs)" by auto
      from h obtain extra where "rows st' = rows st1 @ extra" by blast
      then have "key ` set c \<subseteq> key ` set (rows st')" using wo by (simp add: image_Un le_supI1)
      moreover have "key ` set (concat cs) \<subseteq> key ` set (rows st')"
        using h \<open>r = Inr (i', d', ids')\<close> by blast
      ultimately show "key ` set (concat (c # cs)) \<subseteq> key ` set (rows st')"
        by (simp only: concat.simps set_append image_Un Un_subset_iff simp_thms)
    qed
  qed
qed auto

text \<open>A report changes the status of its gathering alone, and only from held to reported with its
  event; a rejected one changes no status and emits nothing.\<close>

lemma report_effect:
  assumes st: "ok st" and run: "submit_report gw sub st = (st', r)"
  defines "present \<equiv> filter ar_present (rs_attendees sub)"
  shows "ok st' \<and> (\<exists>extra. rows st' = rows st @ extra)
    \<and> (case r of
         Inl e \<Rightarrow> reports st' = reports st \<and> lg_gathering_status gw g st' = lg_gathering_status gw g st
       | Inr out \<Rightarrow>
           lg_gathering_status gw (rs_gathering sub) st = Some REPORTABLE_STATUS
         \<and> lg_gathering_status gw g st' = (if g = rs_gathering sub then Some REPORTED_STATUS else lg_gathering_status gw g st)
         \<and> key ` set (map (to_attendance_item sub) present) \<subseteq> key ` set (rows st')
         \<and> ro_accepted out \<and> ro_inserted out + ro_deduplicated out = length present
         \<and> ro_member_count out + ro_visitor_count out = length present
         \<and> ro_member_count out = length (filter (\<lambda>a. lg_member_status gw (ar_member a) st = Some MEMBER_STATUS_MEMBER) present)
         \<and> ro_first_time_count out = length (filter ar_first_time (rs_attendees sub))
         \<and> length (ro_batch_ids out) = length (chunks BULK_BATCH_SIZE present)
         \<and> (\<exists>ev. reports st' = reports st @ [ev] \<and> ev_gathering ev = rs_gathering sub
              \<and> ev_branch ev = rs_branch sub \<and> ev_group ev = rs_group sub
              \<and> ev_total_count ev = length present \<and> ev_reported_by ev = rs_reported_by sub))"
proof -
  let ?pre = "res_bind (validate_submission_shape sub) (\<lambda>_. res_bind (validate_reportable gw sub st) (\<lambda>_.
            classify_attendees gw sub st (rs_attendees sub) 0 0 0 []))"
  show ?thesis
  proof (cases ?pre)
    case (Inl e)
    then show ?thesis using run st by (auto simp: submit_report_def)
  next
    case (Inr p)
    obtain m v f items where p: "p = (m, v, f, items)" by (cases p)
    have held: "lg_gathering_status gw (rs_gathering sub) st = Some REPORTABLE_STATUS"
      using Inr by (auto simp: res_bind_Inr_iff validate_reportable_def split: option.splits if_splits)
    have c: "items = map (to_attendance_item sub) present" "m + v = length present"
      "f = length (filter ar_first_time (rs_attendees sub))"
      "m = length (filter (\<lambda>a. lg_member_status gw (ar_member a) st = Some MEMBER_STATUS_MEMBER) present)"
      using Inr classified [of sub st "rs_attendees sub" 0 0 0 "[]" m v f items]
      by (auto simp: p res_bind_Inr_iff present_def conj_commute)
    obtain st1 s where w: "record_in_chunks gw sub items st = (st1, s)" by (cases "record_in_chunks gw sub items st")
    have sc: "\<forall>c \<in> set (chunks BULK_BATCH_SIZE items). \<forall>x \<in> set c. ai_branch x = rs_branch sub"
    proof -
      have "set (concat (chunks BULK_BATCH_SIZE items)) = set items"
        by (simp only: concat_chunks BULK_BATCH_SIZE_def zero_less_numeral)
      then have "\<forall>c \<in> set (chunks BULK_BATCH_SIZE items). set c \<subseteq> set items" by auto
      then show ?thesis by (fastforce simp: c(1) to_attendance_item_def)
    qed
    have cc: "concat (chunks BULK_BATCH_SIZE items) = items" by (simp add: concat_chunks BULK_BATCH_SIZE_def)
    have len: "length (chunks BULK_BATCH_SIZE items) = length (chunks BULK_BATCH_SIZE present)"
    proof -
      have "length (chunks n (map h xs)) = length (chunks n xs)" for n and h :: "attendee_report \<Rightarrow> attendance_item" and xs
        by (induction n xs rule: chunks.induct) (subst (1 2) chunks.simps, simp add: drop_map)
      then show ?thesis by (simp add: c(1))
    qed
    note wr = chunks_written [OF w [unfolded record_in_chunks_def] st sc, unfolded cc]
    show ?thesis
    proof (cases s)
      case (Inl e)
      then have "st' = st1" "\<exists>e. r = Inl e" using run Inr p w by (auto simp: submit_report_def)
      then show ?thesis using wr by auto
    next
      case (Inr q)
      obtain i d ids where q: "q = (i, d, ids)" by (cases q)
      have same: "lg_gathering_status gw (rs_gathering sub) st1 = lg_gathering_status gw (rs_gathering sub) st"
        using wr by blast
      have mv: "validate_status_transition (lg_gathering_status gw (rs_gathering sub) st1) REPORTED_STATUS = Inr ()"
        unfolding same held
        by (simp add: validate_status_transition_def is_valid_transition_def REPORTED_STATUS_def REPORTABLE_STATUS_def
            GATHERING_STATUSES_def TRANSITIONS_def status_defs table_get_def)
      let ?adv = "lg_advance_gathering gw (rs_gathering sub) REPORTED_STATUS (rs_reported_by sub) m v f st1"
      show ?thesis
      proof (cases ?adv)
        case (Inl e)
        then have "st' = st1" "\<exists>e. r = Inl e" using run \<open>?pre = Inr p\<close> p w Inr q mv by (auto simp: submit_report_def)
        then show ?thesis using wr by auto
      next
        case (Inr st2)
        from wr have "ok st1" by blast
        note a = advance [OF this Inr]
        note e = emit [of st2]
        show ?thesis
          using run \<open>?pre = Inr p\<close> p w \<open>s = Inr q\<close> q mv Inr a e wr held c len
          by (auto simp: submit_report_def)
      qed
    qed
  qed
qed

text \<open>The same, per outcome.\<close>

lemma report_failed:
  assumes "ok st" "submit_report gw sub st = (st', Inl e)"
  shows "ok st'" "\<exists>extra. rows st' = rows st @ extra" "reports st' = reports st"
    "lg_gathering_status gw g st' = lg_gathering_status gw g st"
  using report_effect [OF assms] by simp_all

lemma report_ok:
  assumes "ok st" "submit_report gw sub st = (st', Inr out)"
  shows "ok st'" "\<exists>extra. rows st' = rows st @ extra"
    "lg_gathering_status gw (rs_gathering sub) st = Some REPORTABLE_STATUS"
    "lg_gathering_status gw g st' = (if g = rs_gathering sub then Some REPORTED_STATUS else lg_gathering_status gw g st)"
    "key ` set (map (to_attendance_item sub) (filter ar_present (rs_attendees sub))) \<subseteq> key ` set (rows st')"
    "ro_inserted out + ro_deduplicated out = length (filter ar_present (rs_attendees sub))"
    "ro_member_count out + ro_visitor_count out = length (filter ar_present (rs_attendees sub))"
    "ro_first_time_count out = length (filter ar_first_time (rs_attendees sub))"
    "\<exists>ev. reports st' = reports st @ [ev] \<and> ev_gathering ev = rs_gathering sub
      \<and> ev_total_count ev = length (filter ar_present (rs_attendees sub))"
proof -
  note e = report_effect [OF assms, of g, unfolded sum.case]
  show "ok st'" by (rule conjunct1 [OF e])
  show "\<exists>extra. rows st' = rows st @ extra" by (rule conjunct1 [OF conjunct2 [OF e]])
  note e = conjunct2 [OF conjunct2 [OF e]]
  show "lg_gathering_status gw (rs_gathering sub) st = Some REPORTABLE_STATUS" by (rule conjunct1 [OF e])
  note e = conjunct2 [OF e]
  show "lg_gathering_status gw g st' = (if g = rs_gathering sub then Some REPORTED_STATUS else lg_gathering_status gw g st)"
    by (rule conjunct1 [OF e])
  note e = conjunct2 [OF e]
  show "key ` set (map (to_attendance_item sub) (filter ar_present (rs_attendees sub))) \<subseteq> key ` set (rows st')"
    by (rule conjunct1 [OF e])
  note e = conjunct2 [OF conjunct2 [OF e]]
  show "ro_inserted out + ro_deduplicated out = length (filter ar_present (rs_attendees sub))" by (rule conjunct1 [OF e])
  note e = conjunct2 [OF e]
  show "ro_member_count out + ro_visitor_count out = length (filter ar_present (rs_attendees sub))" by (rule conjunct1 [OF e])
  note e = conjunct2 [OF conjunct2 [OF e]]
  show "ro_first_time_count out = length (filter ar_first_time (rs_attendees sub))" by (rule conjunct1 [OF e])
  from conjunct2 [OF conjunct2 [OF e]] show "\<exists>ev. reports st' = reports st @ [ev] \<and> ev_gathering ev = rs_gathering sub
      \<and> ev_total_count ev = length (filter ar_present (rs_attendees sub))" by (elim exE conjE) (intro exI conjI)
qed

end

section \<open>Both adapters keep it\<close>

lemma mem_submit_stores:
  assumes st: "mem_store.exact ms" and scope: "\<forall>i \<in> set items. ai_branch i = scope"
    and s: "submit InMemoryBulkAttendanceGateway items scope bid ms = (ms', Inr out)"
  shows "bo_inserted out + bo_deduplicated out = length items \<and> unique_key ` set items \<subseteq> unique_key ` set (mg_inserted ms')"
proof -
  let ?gw = "InMemoryBulkAttendanceGateway" and ?keys = "map idempotency_key items"
  let ?ms0 = "bg_seed_aggregate ?gw scope (dedup (map ai_event items)) ms"
  let ?new = "filter (\<lambda>i. idempotency_key i \<in> bg_filter_unseen ?gw ?keys ?ms0) items"
  have same: "\<not> (\<exists>i \<in> set items. ai_branch i \<noteq> scope)" using scope by auto
  obtain ins ded evs ms1 where w: "write_batch ?gw items scope bid ?ms0 = Inr ((ins, ded, evs), ms1)"
    and o: "bo_inserted out = ins" "bo_deduplicated out = ded" "ms' = fold (bg_emit ?gw) evs ms1"
    using s same by (auto simp: submit_def Let_def split: sum.splits)
  have ok0: "mem_ok ms" using st by (simp add: mem_store.exact_def)
  note s0 = mem_store.seed [OF ok0, of scope "dedup (map ai_event items)"]
  have e: "mg_inserted ms1 = mg_inserted ?ms0 @ map (\<lambda>i. i) ?new \<and> ins = length ?new \<and> ded = length items - length ?new"
    using mem_store.write_batch_effect [OF _ scope _ w] s0 by simp
  have rows: "mg_inserted ms' = mg_inserted ms @ ?new"
    using e s0 o(3) mem_store.emit_all [of ms1 evs] mem_store.write_batch_effect [OF _ scope _ w] by simp
  have "unique_key i \<in> unique_key ` set (mg_inserted ms')" if "i \<in> set items" for i
  proof (cases "idempotency_key i \<in> bg_filter_unseen ?gw ?keys ?ms0")
    case True
    then show ?thesis using that rows by auto
  next
    case False
    then have "idempotency_key i \<in> mg_seen ?ms0 \<or> unique_key i \<in> mg_unique ?ms0"
      using that mem_filter_iff [of i ?keys ?ms0] by (auto simp: InMemoryBulkAttendanceGateway_def)
    then have "idempotency_key i \<in> idempotency_key ` set (mg_inserted ms) \<or> unique_key i \<in> unique_key ` set (mg_inserted ms)"
      using s0 by (auto simp: mem_ok_def)
    then have "unique_key i \<in> unique_key ` set (mg_inserted ms)"
      using fresh_attendee_key by blast
    then show ?thesis using rows by auto
  qed
  then show ?thesis using e o(1,2) by auto
qed

lemma receipt_counts_Inr: "receipt_counts r = Inr (i, d) \<longleftrightarrow> (\<exists>out. r = Inr out \<and> i = bo_inserted out \<and> d = bo_deduplicated out)"
  by (auto simp: receipt_counts_def res_bind_Inr_iff)

interpretation mem_reports: report_store InMemoryLeaderReportingGateway "\<lambda>st. mg_inserted (ml_bulk st)" ml_published
  unique_key "\<lambda>st. mem_store.exact (ml_bulk st)"
proof
  fix st st' :: mem_leader and items scope bid i d
  assume a: "mem_store.exact (ml_bulk st)" "\<forall>i \<in> set items. ai_branch i = scope"
    "lg_record_attendance InMemoryLeaderReportingGateway items scope bid st = (st', Inr (i, d))"
  then obtain b out where b: "submit InMemoryBulkAttendanceGateway items scope bid (ml_bulk st) = (b, Inr out)"
    "st' = st \<lparr>ml_bulk := b\<rparr>" "i = bo_inserted out" "d = bo_deduplicated out"
    by (auto simp: InMemoryLeaderReportingGateway_def receipt_counts_Inr split: prod.splits)
  show "i + d = length items \<and> unique_key ` set items \<subseteq> unique_key ` set (mg_inserted (ml_bulk st'))"
    using mem_submit_stores [OF a(1,2) b(1)] b(2-4) by simp
next
  fix st st' :: mem_leader and items scope bid r g m
  assume "mem_store.exact (ml_bulk st)"
    "lg_record_attendance InMemoryLeaderReportingGateway items scope bid st = (st', r)"
  then show "mem_store.exact (ml_bulk st') \<and> ml_published st' = ml_published st
      \<and> lg_gathering_status InMemoryLeaderReportingGateway g st' = lg_gathering_status InMemoryLeaderReportingGateway g st
      \<and> lg_member_status InMemoryLeaderReportingGateway m st' = lg_member_status InMemoryLeaderReportingGateway m st
      \<and> (\<exists>extra. mg_inserted (ml_bulk st') = mg_inserted (ml_bulk st) @ extra)"
    using mem_store.submit_exact [of "ml_bulk st" items scope bid]
    by (auto simp: InMemoryLeaderReportingGateway_def split: prod.splits)
qed (auto simp: InMemoryLeaderReportingGateway_def update_conv')

interpretation db_reports: report_store "FrappeLeaderReportingGateway env" "\<lambda>st. at_rows (ld_tables st)" ld_events
  idempotency_key "\<lambda>st. frappe_store.exact (ld_tables st)" for env
proof
  fix st st' :: leader_db and items scope bid i d
  assume a: "frappe_store.exact (ld_tables st)" "\<forall>i \<in> set items. ai_branch i = scope"
    "lg_record_attendance (FrappeLeaderReportingGateway env) items scope bid st = (st', Inr (i, d))"
  then obtain b out where b: "submit FrappeBulkAttendanceGateway items scope bid (ld_tables st) = (b, Inr out)"
    "st' = st \<lparr>ld_tables := b\<rparr>" "i = bo_inserted out" "d = bo_deduplicated out"
    by (auto simp: FrappeLeaderReportingGateway_def receipt_counts_Inr split: prod.splits)
  note s = submit_stores_all [OF a(2) b(1)]
  show "i + d = length items \<and> idempotency_key ` set items \<subseteq> idempotency_key ` set (at_rows (ld_tables st'))"
    using s b by (simp add: all_stored_def)
next
  fix st st' :: leader_db and items scope bid r g m
  assume "frappe_store.exact (ld_tables st)"
    "lg_record_attendance (FrappeLeaderReportingGateway env) items scope bid st = (st', r)"
  then show "frappe_store.exact (ld_tables st') \<and> ld_events st' = ld_events st
      \<and> lg_gathering_status (FrappeLeaderReportingGateway env) g st' = lg_gathering_status (FrappeLeaderReportingGateway env) g st
      \<and> lg_member_status (FrappeLeaderReportingGateway env) m st' = lg_member_status (FrappeLeaderReportingGateway env) m st
      \<and> (\<exists>extra. at_rows (ld_tables st') = at_rows (ld_tables st) @ extra)"
    using frappe_store.submit_exact [of "ld_tables st" items scope bid]
    by (auto simp: FrappeLeaderReportingGateway_def split: prod.splits)
next
  fix st st' :: leader_db and g status "by" a b c h
  assume "frappe_store.exact (ld_tables st)"
    "lg_advance_gathering (FrappeLeaderReportingGateway env) g status by a b c st = Inr st'"
  then show "frappe_store.exact (ld_tables st') \<and> ld_events st' = ld_events st \<and> at_rows (ld_tables st') = at_rows (ld_tables st)
      \<and> lg_gathering_status (FrappeLeaderReportingGateway env) h st' =
          (if h = g then Some status else lg_gathering_status (FrappeLeaderReportingGateway env) h st)"
    by (auto simp: FrappeLeaderReportingGateway_def db_advance_gathering_def update_conv' Let_def
        split: option.splits sum.splits)
next
  fix x y assume "idempotency_key x = idempotency_key y"
  then show "unique_key x = unique_key y" by (rule idempotency_unique)
qed (simp_all add: FrappeLeaderReportingGateway_def)

end
