(* ===== verification/Engagement_Properties.thy ===== *)
theory Engagement_Properties
  imports Engagement_Demo
begin

text \<open>
  The properties of the engagement runtime, stated for the production adapter: what every
  reachable log looks like, that a session closes once, that the service refines the promise of
  \<open>Engagement_Safety\<close>, what a ticket admits, what the close path records, and where the code does
  not do what its comments say.
\<close>

section \<open>Reachable states in production\<close>

text \<open>A start: session rows under their own names, drafts or scheduled, no log and no event.\<close>

definition redis_start :: "(redis_engagement, 'b) engagement_world \<Rightarrow> bool" where
  "redis_start w \<longleftrightarrow> ew_events w = [] \<and> rx_log (ew_store w) = [] \<and> rx_nonces (ew_store w) = []
     \<and> (\<forall>(sid, row) \<in> set (rx_sessions (ew_store w)). se_id row = sid
          \<and> se_status row \<in> {STATUS_DRAFT, STATUS_SCHEDULED})"

lemma redis_start_ok: "redis_start w \<Longrightarrow> redis_ok (ew_store w)"
  by (auto simp: redis_start_def redis_ok_def dest: map_of_SomeD)

lemma redis_start_fresh: "redis_start w \<Longrightarrow> fresh_world (FrappeEngagementGateway dumps) w"
  by (auto simp: redis_start_def fresh_world_def FrappeEngagementGateway_def redis_participations_def
      redis_get_session_def session_from_row_def engagement_session.truncate_def dest!: map_of_SomeD)

lemma redis_reachable:
  "redis_start w0 \<Longrightarrow> sx_gateway sx = FrappeEngagementGateway dumps \<Longrightarrow> engagement_run sx w0 w \<Longrightarrow>
   redis_log.world_ok dumps w"
  using redis_log.run_world_ok redis_log.fresh_world_ok redis_start_ok redis_start_fresh by blast

lemmas redis_gateway_simps = FrappeEngagementGateway_def

text \<open>C22. Every stored participation of a reachable production state belongs to the session it is
  logged under and carries that session's gathering, branch, organization, group and kind and the
  type of the kind; it has a role, a score only in a game and then between 0 and 100; no two rows
  of a session share attendee key and nonce; and the session has been opened.\<close>
theorem engagement_rows_well_formed:
  assumes "redis_start w0" "sx_gateway sx = FrappeEngagementGateway dumps" "engagement_run sx w0 w"
    and s: "redis_get_session sid (ew_store w) = Some s" and p: "p \<in> set (redis_participations sid (ew_store w))"
  shows "pt_session p = sid \<and> pt_gathering p = se_gathering s \<and> pt_branch p = se_branch s
    \<and> pt_organization p = se_organization s \<and> pt_group p = se_group s \<and> pt_kind p = se_kind s
    \<and> engagement_type_for (se_kind s) = Inr (pt_type p) \<and> pt_role p \<noteq> []
    \<and> (\<forall>r. pt_score p = Some r \<longrightarrow> pt_kind p \<in> set GAME_KINDS \<and> 0 \<le> r \<and> r \<le> 100)
    \<and> distinct (map row_key (redis_participations sid (ew_store w)))
    \<and> se_status s \<in> {STATUS_OPEN, STATUS_CLOSING, STATUS_CLOSED}"
proof -
  have w: "redis_log.world_ok dumps w" using redis_reachable assms(1-3) by blast
  have g: "gg_get_session (FrappeEngagementGateway dumps) sid (ew_store w) = Some s"
    "gg_participations (FrappeEngagementGateway dumps) sid (ew_store w) = redis_participations sid (ew_store w)"
    using s by (simp_all add: FrappeEngagementGateway_def)
  note i = redis_log.world_ok_session [OF w g(1), unfolded g(2)]
  have id: "se_id s = sid" using redis_log.session_id [of "ew_store w"] i g(1) by blast
  have row: "row_ok s p" and d: "distinct (map row_key (redis_participations sid (ew_store w)))"
    using i p by (auto simp: log_ok_def)
  have ty: "engagement_type_for (se_kind s) = Inr (pt_type p)" using row by (simp add: row_ok_def)
  have "pt_score p = Some r \<Longrightarrow> pt_kind p \<in> set GAME_KINDS \<and> 0 \<le> r \<and> r \<le> 100" for r
    using row ty by (auto simp: row_ok_def score_ok_def engagement_type_for_def split: if_splits)
  moreover have "se_status s \<in> {STATUS_OPEN, STATUS_CLOSING, STATUS_CLOSED}"
    using i p by (auto simp: lifecycle_ok_def LIVE_STATES_def split: if_splits)
  ultimately show ?thesis using row d id by (simp add: row_ok_def)
qed

lemma demo_start: "redis_start demo_world"
  by code_simp

lemma engagement_rows_well_formed_witness:
  "map pt_score (redis_participations ''E1'' (ew_store demo_credit)) = [Some 100]
   \<and> distinct (map row_key (redis_participations ''E1'' (ew_store demo_credit)))"
proof -
  let ?st = "ew_store demo_credit"
  have s: "redis_get_session ''E1'' ?st = Some (the (redis_get_session ''E1'' ?st))"
    and p: "hd (redis_participations ''E1'' ?st) \<in> set (redis_participations ''E1'' ?st)" by code_simp+
  have "map pt_score (redis_participations ''E1'' ?st) = [Some 100]" by code_simp
  then show ?thesis
    using engagement_rows_well_formed [OF demo_start demo_gateway(1) demo_runs(2) s p] by blast
qed

text \<open>C21. A session is opened at most once and reported closed at most once, never without being
  closed; and a closed session is final: whatever requests follow, it stays closed, no attendee is
  credited any more and no further mark is taken.\<close>
theorem engagement_closes_once:
  assumes "redis_start w0" "sx_gateway sx = FrappeEngagementGateway dumps" "engagement_run sx w0 w"
    and s: "redis_get_session sid (ew_store w) = Some s"
  shows "opened_events sid (ew_events w) \<le> 1 \<and> closed_events sid (ew_events w) \<le> opened_events sid (ew_events w)
    \<and> (closed_events sid (ew_events w) = 1 \<longrightarrow> se_status s = STATUS_CLOSED)
    \<and> (se_status s = STATUS_CLOSED \<and> engagement_run sx w w2 \<longrightarrow>
        (\<exists>s2. redis_get_session sid (ew_store w2) = Some s2 \<and> se_status s2 = STATUS_CLOSED)
        \<and> row_key ` set (redis_participations sid (ew_store w2)) = row_key ` set (redis_participations sid (ew_store w))
        \<and> credited (redis_participations sid (ew_store w2)) = credited (redis_participations sid (ew_store w)))"
proof -
  have w: "redis_log.world_ok dumps w" using redis_reachable assms(1-3) by blast
  let ?gw = "FrappeEngagementGateway dumps"
  have g: "gg_get_session ?gw sid (ew_store w) = Some s" using s by (simp add: FrappeEngagementGateway_def)
  have life: "lifecycle_ok s (gg_participations ?gw sid (ew_store w)) (opened_events sid (ew_events w)) (closed_events sid (ew_events w))"
    using redis_log.world_ok_session [OF w g] by simp
  have abs: "sp_marks (abs_store ?gw st) sid = row_key ` set (redis_participations sid st)"
    "sp_credited (abs_store ?gw st) sid = credited (redis_participations sid st)" for st
    by (simp_all add: abs_store_def FrappeEngagementGateway_def)
  have final: "(\<exists>s2. redis_get_session sid (ew_store w2) = Some s2 \<and> se_status s2 = STATUS_CLOSED)
        \<and> row_key ` set (redis_participations sid (ew_store w2)) = row_key ` set (redis_participations sid (ew_store w))
        \<and> credited (redis_participations sid (ew_store w2)) = credited (redis_participations sid (ew_store w))"
    if c: "se_status s = STATUS_CLOSED" and run: "engagement_run sx w w2"
  proof -
    have w2: "redis_log.world_ok dumps w2" using redis_log.run_world_ok [OF run assms(2) w] .
    have "sp_phase (abs_store ?gw (ew_store w)) sid = Done" using redis_log.done_iff [OF w] g c by blast
    note d = redis_log.done_forever [OF run assms(2) w this]
    then have "\<exists>s2. gg_get_session ?gw sid (ew_store w2) = Some s2 \<and> se_status s2 = STATUS_CLOSED"
      using redis_log.done_iff [OF w2] by blast
    then show ?thesis using d by (simp add: abs) (simp add: FrappeEngagementGateway_def)
  qed
  show ?thesis using life final by (auto simp: lifecycle_ok_def LIVE_STATES_def split: if_splits)
qed

lemma engagement_closes_once_witness:
  "closed_events ''E1'' (ew_events demo_done) = 1
   \<and> credited (redis_participations ''E1'' (ew_store (demo_play demo_rq1 demo_done)))
       = credited (redis_participations ''E1'' (ew_store demo_done))"
proof -
  let ?s = "the (redis_get_session ''E1'' (ew_store demo_done))"
  have s: "redis_get_session ''E1'' (ew_store demo_done) = Some ?s" "se_status ?s = STATUS_CLOSED"
    and n: "closed_events ''E1'' (ew_events demo_done) = 1" by code_simp+
  have run: "engagement_run demo_engagement demo_done (demo_play demo_rq1 demo_done)"
    by (rule demo_play_run [OF er_start demo_keys(1)])
  show ?thesis
    using engagement_closes_once [OF demo_start demo_gateway(1) demo_runs(4) s(1)] s(2) n run by blast
qed

text \<open>C3. The production service refines the promise of a session: every request, whatever its
  ticket, clock, throttle and storage order, is one step of the abstract sessions or none.\<close>
theorem engagement_refines_promise:
  assumes "redis_start w0" "sx_gateway sx = FrappeEngagementGateway dumps" "engagement_run sx w0 w"
    and "engagement_step sx w w'"
  shows "spec_step (abs_store (FrappeEngagementGateway dumps) (ew_store w))
    (abs_store (FrappeEngagementGateway dumps) (ew_store w'))"
  using redis_log.step_refines [OF assms(4,2)] redis_reachable [OF assms(1-3)] .

lemma engagement_refines_promise_witness:
  "spec_step (abs_store (FrappeEngagementGateway demo_dumps) (ew_store demo_closing))
     (abs_store (FrappeEngagementGateway demo_dumps) (ew_store demo_done))"
proof -
  have "engagement_step demo_engagement demo_closing demo_done"
    by (cases "finalize_close demo_engagement ''E1'' 60 demo_closing")
      (auto simp: demo_done_def demo_finalize_def dest!: es_finalize)
  from engagement_refines_promise [OF demo_start demo_gateway(1) demo_runs(3) this] show ?thesis .
qed

text \<open>The headcount a client polls is the number of attendees with a participation inside the
  window, each counted once, in every reachable production state; closing a session answers the
  same number.\<close>
theorem headcount_counts_credited:
  assumes "redis_start w0" "engagement_run (get_service dumps cr) w0 w"
  shows "(session_state (get_service dumps cr) sid w = Inr sn \<longrightarrow>
      sn_attendee_count sn = card {k. \<exists>p \<in> set (redis_participations sid (ew_store w)).
        pt_attendee_key p = k \<and> \<not> sf_out_of_scope (pt_flags p)})
    \<and> (api_close_session (get_service dumps cr) env sid w = Inr (out, w') \<longrightarrow>
      co_attendee_count out = card {k. \<exists>p \<in> set (redis_participations sid (ew_store w)).
        pt_attendee_key p = k \<and> \<not> sf_out_of_scope (pt_flags p)} \<and> \<not> co_finalized out)"
proof -
  let ?sx = "get_service dumps cr" and ?gw = "FrappeEngagementGateway dumps"
  have gw: "sx_gateway ?sx = ?gw" by (simp add: get_service_def)
  have w: "redis_log.world_ok dumps w" using redis_reachable [OF assms(1) gw assms(2)] .
  then have ok: "redis_ok (ew_store w)" by (simp add: redis_log.world_ok_def)
  have c: "{k. \<exists>p \<in> set ps. pt_attendee_key p = k \<and> \<not> sf_out_of_scope (pt_flags p)} = credited ps" for ps
    by (auto simp: credited_def)
  have log: "gg_participations ?gw sid st = redis_participations sid st" for st
    by (simp add: FrappeEngagementGateway_def)
  show ?thesis unfolding c
  proof (intro conjI impI)
    show "sn_attendee_count sn = card (credited (redis_participations sid (ew_store w)))"
      if "session_state ?sx sid w = Inr sn"
      using that redis_log.headcount [OF ok, of dumps sid]
      by (auto simp: session_state_def res_bind_Inr_iff gw log)
    assume a: "api_close_session ?sx env sid w = Inr (out, w')"
    then obtain w1 where "close_session ?sx sid None (ap_clock env) w = Inr (out, w1)"
      by (auto simp: api_close_session_def res_bind_Inr_iff api_try_def split: sum.splits)
    from redis_log.close_effect [OF w gw this]
    show "co_attendee_count out = card (credited (redis_participations sid (ew_store w)))" "\<not> co_finalized out"
      by (simp_all add: log)
  qed
qed

lemma headcount_counts_credited_witness:
  "card {k. \<exists>p \<in> set (redis_participations ''E2'' (ew_store demo_two)).
     pt_attendee_key p = k \<and> \<not> sf_out_of_scope (pt_flags p)} = 2"
proof -
  have run: "engagement_run (get_service demo_dumps demo_crypto) demo_world demo_two"
    using demo_runs(5) by (simp add: demo_engagement_def)
  let ?r = "session_state (get_service demo_dumps demo_crypto) ''E2'' demo_two"
  have "is_ok ?r" "sn_attendee_count (projr ?r) = 2" by code_simp+
  then obtain snap where snap: "?r = Inr snap" "sn_attendee_count snap = 2" by (cases ?r) auto
  show ?thesis using headcount_counts_credited [OF demo_start run, of "''E2''"] snap by simp
qed


section \<open>Tickets\<close>

lemma request_fields [simp]:
  "pt_session (request_participation s rq now flags ty) = se_id s"
  "pt_attendee_key (request_participation s rq now flags ty) = pq_attendee_key rq"
  "pt_member (request_participation s rq now flags ty) = pq_member rq"
  "pt_nonce (request_participation s rq now flags ty) = pq_nonce rq"
  "pt_flags (request_participation s rq now flags ty) = flags"
  "pt_submitted_at (request_participation s rq now flags ty) = now"
  "row_key (request_participation s rq now flags ty) = (pq_attendee_key rq, pq_nonce rq)"
  by (simp_all add: request_participation_def row_key_def)

lemma known_kind_type: "kind \<in> set ALL_KINDS \<Longrightarrow> \<exists>ty. engagement_type_for kind = Inr ty"
  by (cases "kind \<in> set GAME_KINDS") (simp_all add: engagement_type_for_def ALL_KINDS_def)

text \<open>What a ticket of \<open>join\<close> is worth, in any live session whose organization has the same secret.\<close>

lemma ticket_admits:
  assumes j: "join sx sid member device t0 st = Inr ticket"
    and s: "require_session (sx_gateway sx) sid st = Inr s"
    and s2: "require_session (sx_gateway sx) (pq_session rq) st2 = Inr s2" "se_status s2 \<in> set LIVE_STATES"
    and secret: "gg_ticket_secret (sx_gateway sx) (se_organization s2) st2
        = gg_ticket_secret (sx_gateway sx) (se_organization s) st"
    and rq: "pq_ticket rq = ticket" "pq_attendee_key rq = tk_attendee_key ticket"
  shows "participate_gate sx rq clk st2 =
    (if clk < t0 + DEFAULT_TICKET_TTL_SECONDS then Inr (Inr s2) else Inr (Inl (refusal rq ''invalid_ticket'')))"
proof -
  let ?sec = "gg_ticket_secret (sx_gateway sx) (se_organization s) st"
  have i: "issue_session_ticket (sx_crypto sx) s member device ?sec t0 DEFAULT_TICKET_TTL_SECONDS = Inr ticket"
    using j s by (auto simp: join_def split: if_splits)
  then have t: "sign_ticket (sx_crypto sx) (tk_session ticket) (tk_attendee_key ticket) (tk_issued_at ticket)
      (tk_expires_at ticket) ?sec = Inr (tk_signature ticket)" "tk_expires_at ticket = t0 + DEFAULT_TICKET_TTL_SECONDS"
    by (auto simp: issue_session_ticket_def Let_def res_bind_Inr_iff split: if_splits)
  then have "verify_ticket (sx_crypto sx) clk ticket ?sec = Inr (clk < t0 + DEFAULT_TICKET_TTL_SECONDS)"
    by (auto simp: verify_ticket_def ticket_expired_def)
  then show ?thesis using s2 secret rq by (simp add: participate_gate_def)
qed

text \<open>Past the gate a request is recorded unless the throttle or a used nonce stops it.\<close>

lemma admitted_outcome:
  assumes "participate_gate sx rq clk st = Inr (Inr s)" "engagement_type_for (se_kind s) = Inr ty"
    and "participate sx rq clk st = (st', r)"
  shows "\<exists>out. r = Inr out \<and> (pc_accepted out \<or> pc_reason out \<in> {Some ''throttled'', Some ''duplicate_nonce''})"
  using assms by (auto simp: participate_def Let_def refusal_def split: prod.splits if_splits)

text \<open>C23. A ticket issued by \<open>join\<close> admits its holder to the session it was issued for as long as
  the session is live and the hour has not passed: the participation is recorded, unless the
  throttle or a used nonce stops it; after the hour it is refused.\<close>
theorem joined_ticket_admits:
  assumes "join sx sid member device t0 st = Inr ticket"
    and "require_session (sx_gateway sx) sid st = Inr s" "require_session (sx_gateway sx) sid st2 = Inr s2"
    and "se_status s2 \<in> set LIVE_STATES" "se_kind s2 \<in> set ALL_KINDS"
    and "gg_ticket_secret (sx_gateway sx) (se_organization s2) st2
        = gg_ticket_secret (sx_gateway sx) (se_organization s) st"
    and "pq_session rq = sid" "pq_ticket rq = ticket" "pq_attendee_key rq = tk_attendee_key ticket"
    and run: "participate sx rq clk st2 = (st', r)"
  shows "if clk < t0 + DEFAULT_TICKET_TTL_SECONDS
    then \<exists>out. r = Inr out \<and> (pc_accepted out \<or> pc_reason out \<in> {Some ''throttled'', Some ''duplicate_nonce''})
    else st' = st2 \<and> r = Inr (refusal rq ''invalid_ticket'')"
proof -
  have g: "participate_gate sx rq clk st2 =
    (if clk < t0 + DEFAULT_TICKET_TTL_SECONDS then Inr (Inr s2) else Inr (Inl (refusal rq ''invalid_ticket'')))"
    using ticket_admits [of sx sid member device t0 st ticket s rq st2 s2 clk] assms(1-9) by simp
  obtain ty where "engagement_type_for (se_kind s2) = Inr ty"
    using known_kind_type [OF assms(5)] by blast
  then show ?thesis using admitted_outcome [OF _ _ run] g run by (auto simp: participate_def)
qed

lemma joined_ticket_admits_witness:
  "\<exists>out. snd (participate demo_engagement demo_rq1 20 (ew_store demo_live)) = Inr out
     \<and> (pc_accepted out \<or> pc_reason out \<in> {Some ''throttled'', Some ''duplicate_nonce''})"
proof -
  let ?st = "ew_store demo_live"
  let ?s = "projr (require_session (sx_gateway demo_engagement) ''E1'' ?st)"
  have j: "join demo_engagement ''E1'' (Some ''M1'') ''D'' 10 ?st = Inr (demo_ticket ''E1'' ''M1'' demo_live)"
    and s: "require_session (sx_gateway demo_engagement) ''E1'' ?st = Inr ?s"
    and l: "se_status ?s \<in> set LIVE_STATES" "se_kind ?s \<in> set ALL_KINDS"
    and q: "pq_session demo_rq1 = ''E1''" "pq_ticket demo_rq1 = demo_ticket ''E1'' ''M1'' demo_live"
      "pq_attendee_key demo_rq1 = tk_attendee_key (demo_ticket ''E1'' ''M1'' demo_live)"
    and t: "(20 :: rat) < 10 + DEFAULT_TICKET_TTL_SECONDS"
    by code_simp+
  show ?thesis
    using joined_ticket_admits [OF j s s l refl q surjective_pairing, of 20] t by simp
qed

text \<open>A ticket is not bound to the session it is used in, nor to the member it was issued to: a ticket
  for one session is taken in any other live session of the organization, for any member named in
  the request.\<close>

lemma foreign_ticket_credits:
  assumes "join sx other member device t0 st = Inr ticket" "require_session (sx_gateway sx) other st = Inr s"
    and "require_session (sx_gateway sx) (pq_session rq) st2 = Inr s2" "se_status s2 \<in> set LIVE_STATES"
    and "se_kind s2 \<in> set ALL_KINDS" "se_organization s2 = se_organization s"
    and "sx_gateway sx = FrappeEngagementGateway dumps" "rx_org_secrets st2 = rx_org_secrets st"
    and "rx_site_secret st2 = rx_site_secret st" "redis_ok st2" "digest_key (pq_attendee_key rq)"
    and "pq_ticket rq = ticket" "pq_attendee_key rq = tk_attendee_key ticket"
    and "clk < t0 + DEFAULT_TICKET_TTL_SECONDS" "fst (validate_session_window s2 (request_time clk rq) (sx_grace sx))"
    and fresh: "dict_or [] (rx_throttle st2) (request_throttle_key rq) = []"
      "(pq_attendee_key rq, pq_nonce rq) \<notin> row_key ` set (redis_participations (pq_session rq) st2)"
    and run: "participate sx rq clk st2 = (st', r)"
  shows "\<exists>out p. r = Inr out \<and> pc_accepted out \<and> p \<in> set (redis_participations (pq_session rq) st')
    \<and> pt_member p = pq_member rq \<and> pt_attendee_key p = tk_attendee_key ticket \<and> \<not> sf_out_of_scope (pt_flags p)
    \<and> set (redis_participations (pq_session rq) st2) \<subseteq> set (redis_participations (pq_session rq) st')
    \<and> credited (redis_participations (pq_session rq) st') =
        insert (tk_attendee_key ticket) (credited (redis_participations (pq_session rq) st2))"
proof -
  let ?gw = "FrappeEngagementGateway dumps"
  have log: "gg_participations ?gw sid st = redis_participations sid st" for sid st
    by (simp add: FrappeEngagementGateway_def)
  have "gg_ticket_secret (sx_gateway sx) (se_organization s2) st2 = gg_ticket_secret (sx_gateway sx) (se_organization s) st"
    using assms(6-9) by (simp add: FrappeEngagementGateway_def redis_ticket_secret_def)
  from ticket_admits [OF assms(1-4) this assms(12,13)] assms(14)
  have gate: "participate_gate sx rq clk st2 = Inr (Inr s2)" by simp
  obtain ty where ty: "engagement_type_for (se_kind s2) = Inr ty"
    using known_kind_type [OF assms(5)] by blast
  have s2: "gg_get_session ?gw (pq_session rq) st2 = Some s2"
    using assms(3,7) by (auto simp: require_session_def split: option.splits)
  have acc: "\<exists>out. r = Inr out \<and> pc_accepted out"
  proof -
    let ?t = "request_time clk rq"
    have th: "fst (redis_throttle_allows (request_throttle_key rq) ?t n st2)" for n
      by (simp add: redis_throttle_allows_def fresh(1))
    obtain st1 where th': "gg_throttle_allows ?gw (request_throttle_key rq) ?t (sx_throttle sx) st2 = (True, st1)"
      using th [of "sx_throttle sx"]
      by (cases "redis_throttle_allows (request_throttle_key rq) ?t (sx_throttle sx) st2")
        (auto simp: FrappeEngagementGateway_def)
    note k = redis_log.throttle [OF assms(10) th']
    have id: "se_id s2 = pq_session rq" using redis_log.session_id [OF assms(10) s2] .
    have new: "fst (gg_record_participation ?gw (request_participation s2 rq ?t flags ty) st1)" for flags
    proof -
      let ?p = "request_participation s2 rq ?t flags ty"
      obtain b st3 where b: "gg_record_participation ?gw ?p st1 = (b, st3)"
        by (cases "gg_record_participation ?gw ?p st1")
      have b' [simp]: b
        using redis_log.recording [OF _ redis_log.storable_request [OF assms(11) ty] b] k fresh(2) log id by auto
      then show ?thesis by (simp add: b)
    qed
    show ?thesis using run gate th' ty new assms(7)
      by (auto simp: participate_def Let_def case_prod_beta split: prod.splits)
  qed
  from redis_log.accepted_row [OF assms(10,7,11) run acc, unfolded log]
  obtain s' flags ty' xs ys where n: "gg_get_session ?gw (pq_session rq) st2 = Some s'"
    "sf_out_of_scope flags = (\<not> fst (validate_session_window s' (request_time clk rq) (sx_grace sx)))"
    "redis_participations (pq_session rq) st2 = xs @ ys"
    "redis_participations (pq_session rq) st' = xs @ request_participation s' rq (request_time clk rq) flags ty' # ys" .
  have "\<not> sf_out_of_scope flags" using n(1,2) s2 assms(15) by simp
  moreover from acc obtain out where "r = Inr out" "pc_accepted out" by blast
  ultimately show ?thesis using n(3,4) assms(13)
    by (intro exI [of _ out] exI [of _ "request_participation s' rq (request_time clk rq) flags ty'"])
      (auto simp: credited_insert)
qed

text \<open>C37. A member who is already credited in a session under one key is credited in it a second time
  with a ticket for another session of the organization: the request that shows the foreign
  ticket is accepted, and the log of the session then holds two in-scope participations of that
  member under two different keys, both of which are credited.\<close>
theorem ticket_admits_elsewhere:
  assumes "join sx other member device t0 st = Inr ticket" "require_session (sx_gateway sx) other st = Inr s"
    and "require_session (sx_gateway sx) (pq_session rq) st2 = Inr s2" "se_status s2 \<in> set LIVE_STATES"
    and "se_kind s2 \<in> set ALL_KINDS" "se_organization s2 = se_organization s"
    and "sx_gateway sx = FrappeEngagementGateway dumps" "rx_org_secrets st2 = rx_org_secrets st"
    and "rx_site_secret st2 = rx_site_secret st" "redis_ok st2" "digest_key (pq_attendee_key rq)"
    and "pq_ticket rq = ticket" "pq_attendee_key rq = tk_attendee_key ticket"
    and "clk < t0 + DEFAULT_TICKET_TTL_SECONDS" "fst (validate_session_window s2 (request_time clk rq) (sx_grace sx))"
    and fresh: "dict_or [] (rx_throttle st2) (request_throttle_key rq) = []"
      "(pq_attendee_key rq, pq_nonce rq) \<notin> row_key ` set (redis_participations (pq_session rq) st2)"
    and run: "participate sx rq clk st2 = (st', r)"
    and foreign: "other \<noteq> pq_session rq"
    and before: "p0 \<in> set (redis_participations (pq_session rq) st2)" "\<not> sf_out_of_scope (pt_flags p0)"
      "pt_member p0 = pq_member rq" "pt_attendee_key p0 \<noteq> tk_attendee_key ticket"
  shows "\<exists>out p. r = Inr out \<and> pc_accepted out
    \<and> {p0, p} \<subseteq> set (filter (\<lambda>p. \<not> sf_out_of_scope (pt_flags p)) (redis_participations (pq_session rq) st'))
    \<and> pt_member p = pt_member p0 \<and> pt_attendee_key p \<noteq> pt_attendee_key p0
    \<and> {pt_attendee_key p0, pt_attendee_key p} \<subseteq> credited (redis_participations (pq_session rq) st')
    \<and> credited (redis_participations (pq_session rq) st') =
        insert (tk_attendee_key ticket) (credited (redis_participations (pq_session rq) st2))"
proof -
  obtain out p where out: "r = Inr out" "pc_accepted out"
    and p: "p \<in> set (redis_participations (pq_session rq) st')" "pt_member p = pq_member rq"
      "pt_attendee_key p = tk_attendee_key ticket" "\<not> sf_out_of_scope (pt_flags p)"
    and kept: "set (redis_participations (pq_session rq) st2) \<subseteq> set (redis_participations (pq_session rq) st')"
    and cr: "credited (redis_participations (pq_session rq) st') =
        insert (tk_attendee_key ticket) (credited (redis_participations (pq_session rq) st2))"
    using foreign_ticket_credits [OF assms(1-15) fresh run] by blast
  have "pt_attendee_key p0 \<in> credited (redis_participations (pq_session rq) st2)"
    using before(1,2) by (auto simp: credited_def)
  then show ?thesis using out p kept cr before
    by (intro exI [of _ out] exI [of _ p]) auto
qed

lemma ticket_admits_elsewhere_witness:
  "\<exists>p0 p. {p0, p} \<subseteq> set (redis_participations ''E2'' (ew_store demo_two))
     \<and> pt_member p0 = Some ''M1'' \<and> pt_member p = Some ''M1'' \<and> pt_attendee_key p \<noteq> pt_attendee_key p0
     \<and> {pt_attendee_key p0, pt_attendee_key p} \<subseteq> credited (redis_participations ''E2'' (ew_store demo_two))"
proof -
  let ?st = "ew_store demo_live" and ?st2 = "ew_store (demo_play demo_rq2 demo_live)"
  let ?s = "projr (require_session (sx_gateway demo_engagement) ''E1'' ?st)"
  let ?s2 = "projr (require_session (sx_gateway demo_engagement) (pq_session demo_rq3) ?st2)"
  have j: "join demo_engagement ''E1'' (Some ''M1'') ''D'' 10 ?st = Inr (demo_ticket ''E1'' ''M1'' demo_live)"
    and s: "require_session (sx_gateway demo_engagement) ''E1'' ?st = Inr ?s"
      "require_session (sx_gateway demo_engagement) (pq_session demo_rq3) ?st2 = Inr ?s2"
    and l: "se_status ?s2 \<in> set LIVE_STATES" "se_kind ?s2 \<in> set ALL_KINDS" "se_organization ?s2 = se_organization ?s"
    and sec: "rx_org_secrets ?st2 = rx_org_secrets ?st" "rx_site_secret ?st2 = rx_site_secret ?st"
    and q: "pq_ticket demo_rq3 = demo_ticket ''E1'' ''M1'' demo_live"
      "pq_attendee_key demo_rq3 = tk_attendee_key (demo_ticket ''E1'' ''M1'' demo_live)"
    and t: "(20 :: rat) < 10 + DEFAULT_TICKET_TTL_SECONDS"
      "fst (validate_session_window ?s2 (request_time 20 demo_rq3) (sx_grace demo_engagement))"
    and fr: "dict_or [] (rx_throttle ?st2) (request_throttle_key demo_rq3) = []"
      "(pq_attendee_key demo_rq3, pq_nonce demo_rq3) \<notin> row_key ` set (redis_participations (pq_session demo_rq3) ?st2)"
    and two: "ew_store demo_two = fst (participate demo_engagement demo_rq3 20 ?st2)"
    and sid: "pq_session demo_rq3 = ''E2''" and other: "''E1'' \<noteq> pq_session demo_rq3" and m: "pq_member demo_rq3 = Some ''M1''"
    and some: "redis_participations (pq_session demo_rq3) ?st2 \<noteq> []"
    and first: "\<not> sf_out_of_scope (pt_flags (hd (redis_participations (pq_session demo_rq3) ?st2)))"
      "pt_member (hd (redis_participations (pq_session demo_rq3) ?st2)) = pq_member demo_rq3"
      "pt_attendee_key (hd (redis_participations (pq_session demo_rq3) ?st2))
        \<noteq> tk_attendee_key (demo_ticket ''E1'' ''M1'' demo_live)"
    by code_simp+
  have ok: "redis_ok ?st2"
  proof -
    have "engagement_run demo_engagement demo_world (demo_play demo_rq2 demo_live)"
      by (rule demo_play_run [OF demo_runs(1) demo_keys(2)])
    from redis_reachable [OF demo_start demo_gateway(1) this] show ?thesis by (simp add: redis_log.world_ok_def)
  qed
  let ?p0 = "hd (redis_participations ''E2'' ?st2)" and ?log = "redis_participations ''E2'' (ew_store demo_two)"
  obtain p where p: "{?p0, p} \<subseteq> set (filter (\<lambda>p. \<not> sf_out_of_scope (pt_flags p)) ?log)"
    "pt_member p = pt_member ?p0" "pt_attendee_key p \<noteq> pt_attendee_key ?p0"
    "{pt_attendee_key ?p0, pt_attendee_key p} \<subseteq> credited ?log"
    using ticket_admits_elsewhere [OF j s l demo_gateway(1) sec ok demo_keys(3) q t fr surjective_pairing other
      hd_in_set [OF some] first, folded two, unfolded sid] by (elim exE conjE)
  have m0: "pt_member ?p0 = Some ''M1''" using first(2) unfolding sid m .
  have sub: "{?p0, p} \<subseteq> set ?log" by (rule order_trans [OF p(1) filter_is_subset])
  show ?thesis
    by (intro exI conjI; rule sub m0 p(3,4) p(2) [unfolded m0])
qed

section \<open>The close path\<close>

lemma projected_item [simp]:
  "ai_branch (participation_to_attendance_item p) = pt_branch p"
  "ai_event (participation_to_attendance_item p) = pt_gathering p"
  "ai_member (participation_to_attendance_item p) = pt_member p"
  "ai_session (participation_to_attendance_item p) = Some (pt_session p)"
  "ai_attendee_key (participation_to_attendance_item p) = Some (pt_attendee_key p)"
  by (simp_all add: participation_to_attendance_item_def)

lemma projected_key:
  "pt_attendee_key p \<noteq> [] \<Longrightarrow> idempotency_key (participation_to_attendance_item p) =
     (pt_gathering p, ai_attendee_ref (participation_to_attendance_item p), pt_attendee_key p)"
  by (simp add: idempotency_key_def participation_to_attendance_item_def)

text \<open>The rows a close projects, all of the session's branch.\<close>

lemma projected_rows:
  assumes w: "redis_log.world_ok dumps w" and s: "redis_get_session sid (ew_store w) = Some s"
    and p: "p \<in> set (in_window_attendees (redis_participations sid (ew_store w)))"
  shows "pt_branch p = se_branch s \<and> pt_gathering p = se_gathering s \<and> pt_session p = sid
    \<and> pt_attendee_key p \<noteq> []"
proof -
  have g: "gg_get_session (FrappeEngagementGateway dumps) sid (ew_store w) = Some s"
    "gg_participations (FrappeEngagementGateway dumps) sid (ew_store w) = redis_participations sid (ew_store w)"
    using s by (simp_all add: FrappeEngagementGateway_def)
  note i = redis_log.world_ok_session [OF w g(1), unfolded g(2)]
  have "row_ok s p" using i p in_window_subset by (auto simp: log_ok_def)
  moreover have "se_id s = sid" using redis_log.session_id [of "ew_store w"] i g(1) by blast
  ultimately show ?thesis by (simp add: row_ok_def digest_key_def)
qed

text \<open>The write of the close path, success or not, in terms of the unique indexes.\<close>

lemma finalize_write:
  assumes w: "redis_log.world_ok dumps w" and gw: "sx_gateway sx = FrappeEngagementGateway dumps"
    and bulk: "sx_bulk sx = FrappeBulkAttendanceGateway"
    and s: "redis_get_session sid (ew_store w) = Some s" "se_status s = STATUS_CLOSING"
    and run: "finalize_close sx sid clk w = (w', r)"
  defines "items \<equiv> map participation_to_attendance_item (in_window_attendees (redis_participations sid (ew_store w)))"
  shows "(\<exists>s'. redis_get_session sid (ew_store w') = Some s' \<and> se_status s' = STATUS_CLOSED)
    \<and> redis_participations sid (ew_store w') = redis_participations sid (ew_store w)
    \<and> (case table_insert (at_rows (ew_bulk w)) (map stored_item (unseen_items items (ew_bulk w))) of
         Inl e \<Rightarrow> r = Inl (Attendance_Write e) \<and> at_rows (ew_bulk w') = at_rows (ew_bulk w) \<and> ew_events w' = ew_events w
       | Inr rows \<Rightarrow> (\<exists>out. r = Inr out \<and> co_finalized out \<and> co_attendee_count out = length items
           \<and> co_inserted out = length (unseen_items items (ew_bulk w))
           \<and> co_deduplicated out = length items - length (unseen_items items (ew_bulk w)))
         \<and> at_rows (ew_bulk w') = rows
         \<and> ew_events w' = ew_events w @ [Engagement_Closed sid (se_gathering s) (length items) (session_scope s)])"
proof -
  let ?gw = "FrappeEngagementGateway dumps"
  have g: "gg_get_session ?gw x st = redis_get_session x st" "gg_participations ?gw x st = redis_participations x st" for x st
    by (simp_all add: FrappeEngagementGateway_def)
  have ncl: "se_status s \<noteq> STATUS_CLOSED" using s(2) by (simp add: session_states)
  have scope: "\<forall>i \<in> set items. ai_branch i = se_branch s"
    using projected_rows [OF w s(1)] by (auto simp: items_def)
  obtain b rr where sub: "submit FrappeBulkAttendanceGateway items (se_branch s) (''engagement:'' @ sid) (ew_bulk w) = (b, rr)"
    by (cases "submit FrappeBulkAttendanceGateway items (se_branch s) (''engagement:'' @ sid) (ew_bulk w)")
  note f = redis_log.finalize_effect [OF w gw run, unfolded g bulk, folded items_def]
  note d = db_submit [OF scope, where st = "ew_bulk w" and bid = "''engagement:'' @ sid"]
  show ?thesis
    using f s ncl sub d by (cases "table_insert (at_rows (ew_bulk w)) (map stored_item (unseen_items items (ew_bulk w)))") auto
qed

lemma distinct_wrt: "distinct (map f xs) \<Longrightarrow> sorted_wrt (\<lambda>x y. f x \<noteq> f y) xs"
  by (induction xs) (auto simp: image_iff)

lemma sorted_wrt_two:
  "sorted_wrt P xs \<Longrightarrow> sorted_wrt Q xs \<Longrightarrow> (\<And>x y. x \<in> set xs \<Longrightarrow> P x y \<Longrightarrow> Q x y \<Longrightarrow> R x y) \<Longrightarrow> sorted_wrt R xs"
  by (induction xs) auto

lemma finalized_again:
  assumes gw: "sx_gateway sx = FrappeEngagementGateway dumps"
    and s: "redis_get_session sid (ew_store w) = Some s" "se_status s = STATUS_CLOSED"
  shows "\<exists>out. finalize_close sx sid clk w = (w, Inr out) \<and> co_inserted out = 0 \<and> co_finalized out"
  using s by (simp add: finalize_close_def gw require_session_def FrappeEngagementGateway_def preview_outcome_def)

text \<open>C14. When no two credited attendees stand for one person and nobody of them is recorded for the
  gathering yet, finalizing a closing session stores exactly one attendance row per credited
  attendee, in the order of their first credit, emits the closed event with the headcount, and
  leaves the session closed.  (In the other cases see \<open>spoiled_close_loses_attendance\<close>.)\<close>
theorem finalize_records_attendance:
  assumes "redis_start w0" "sx_gateway sx = FrappeEngagementGateway dumps" "engagement_run sx w0 w"
    and bulk: "sx_bulk sx = FrappeBulkAttendanceGateway"
    and s: "redis_get_session sid (ew_store w) = Some s" "se_status s = STATUS_CLOSING"
    and items: "items = map participation_to_attendance_item (in_window_attendees (redis_participations sid (ew_store w)))"
    and persons: "distinct (map ai_attendee_ref items)" "\<forall>i \<in> set items. ai_member i \<noteq> Some []"
    and new: "\<forall>r \<in> set (at_rows (ew_bulk w)). \<forall>i \<in> set items. \<not> rows_clash r (stored_item i)"
    and run: "finalize_close sx sid clk w = (w', r)"
  shows "at_rows (ew_bulk w') = at_rows (ew_bulk w) @ map stored_item items
    \<and> (\<exists>out. r = Inr out \<and> co_inserted out = length items \<and> co_deduplicated out = 0 \<and> co_attendee_count out = length items)
    \<and> length items = card (credited (redis_participations sid (ew_store w)))
    \<and> ew_events w' = ew_events w @ [Engagement_Closed sid (se_gathering s) (length items) (session_scope s)]
    \<and> (\<exists>s'. redis_get_session sid (ew_store w') = Some s' \<and> se_status s' = STATUS_CLOSED)"
proof -
  have w: "redis_log.world_ok dumps w" using redis_reachable assms(1-3) by blast
  let ?ps = "in_window_attendees (redis_participations sid (ew_store w))"
  have "idempotency_key i \<notin> idempotency_key ` set (at_rows (ew_bulk w))" if "i \<in> set items" for i
  proof
    assume "idempotency_key i \<in> idempotency_key ` set (at_rows (ew_bulk w))"
    then obtain r where r: "r \<in> set (at_rows (ew_bulk w))" "idempotency_key r = idempotency_key i" by auto
    from idempotency_unique [OF r(2)] have "rows_clash r (stored_item i)"
      by (simp add: rows_clash_def stored_item_keeps)
    then show False using new r(1) that by blast
  qed
  then have unseen: "unseen_items items (ew_bulk w) = items" by (simp add: unseen_items_def filter_id_conv)
  have pair: "\<not> rows_clash (stored_item (participation_to_attendance_item p)) (stored_item (participation_to_attendance_item q))"
    if pq: "pt_attendee_key p \<noteq> pt_attendee_key q"
      "ai_attendee_ref (participation_to_attendance_item p) \<noteq> ai_attendee_ref (participation_to_attendance_item q)"
      "pt_member p \<noteq> Some []" for p q
    using that by (cases "pt_member p"; cases "pt_member q")
      (auto simp: rows_clash_def stored_item_def unique_key_def participation_to_attendance_item_def)
  have refs: "sorted_wrt (\<lambda>p q. ai_attendee_ref (participation_to_attendance_item p)
      \<noteq> ai_attendee_ref (participation_to_attendance_item q)) ?ps"
    by (rule distinct_wrt) (use persons(1) in \<open>simp add: items comp_def\<close>)
  have named: "pt_member p \<noteq> Some []" if "p \<in> set ?ps" for p using persons(2) that by (auto simp: items)
  have "sorted_wrt (\<lambda>p q. \<not> rows_clash (stored_item (participation_to_attendance_item p))
      (stored_item (participation_to_attendance_item q))) ?ps"
    by (rule sorted_wrt_two [OF distinct_wrt [OF in_window_distinct] refs]) (rule pair [OF _ _ named])
  then have "sorted_wrt (\<lambda>r x. \<not> rows_clash r x) (map stored_item items)"
    by (simp add: items sorted_wrt_map)
  then have "table_insert (at_rows (ew_bulk w)) (map stored_item items) = Inr (at_rows (ew_bulk w) @ map stored_item items)"
    using new by (simp add: table_insert_eq)
  moreover have "length items = card (credited (redis_participations sid (ew_store w)))"
    by (simp add: items length_in_window)
  moreover note finalize_write [OF w assms(2) bulk s run, folded items, unfolded unseen]
  ultimately show ?thesis by auto
qed

lemma finalize_records_attendance_witness:
  "length (at_rows (ew_bulk demo_done)) = 1 \<and> ew_events demo_done = ew_events demo_closing @
     [Engagement_Closed ''E1'' ''G'' 1 (session_scope (the (redis_get_session ''E1'' (ew_store demo_closing))))]"
proof -
  let ?s = "the (redis_get_session ''E1'' (ew_store demo_closing))"
  define items where i: "items = map participation_to_attendance_item
    (in_window_attendees (redis_participations ''E1'' (ew_store demo_closing)))"
  have s: "redis_get_session ''E1'' (ew_store demo_closing) = Some ?s" "se_status ?s = STATUS_CLOSING" by code_simp+
  have p: "distinct (map ai_attendee_ref items)" "\<forall>i \<in> set items. ai_member i \<noteq> Some []"
    and n: "\<forall>r \<in> set (at_rows (ew_bulk demo_closing)). \<forall>i \<in> set items. \<not> rows_clash r (stored_item i)"
    and l: "length items = 1" "at_rows (ew_bulk demo_closing) = []" "se_gathering ?s = ''G''"
    unfolding i by code_simp+
  from finalize_records_attendance [OF demo_start demo_gateway(1) demo_runs(3) demo_gateway(2) s i p n surjective_pairing, of 60]
  show ?thesis using l by (simp add: demo_done_def demo_finalize_def)
qed

text \<open>One attendee credited under two keys, or recorded for the gathering by another path before,
  spoils the close: the write fails as a whole, so nobody's attendance is stored and no closed
  event is emitted, but the session is closed, and every retry answers success without writing.\<close>
theorem spoiled_close_loses_attendance:
  assumes "redis_start w0" "sx_gateway sx = FrappeEngagementGateway dumps" "engagement_run sx w0 w"
    and bulk: "sx_bulk sx = FrappeBulkAttendanceGateway" and rows: "submissions empty_tables (ew_bulk w)"
    and s: "redis_get_session sid (ew_store w) = Some s" "se_status s = STATUS_CLOSING"
    and p: "p \<in> set (in_window_attendees (redis_participations sid (ew_store w)))" "pt_member p = Some m" "m \<noteq> []"
    and clash: "(\<exists>q \<in> set (in_window_attendees (redis_participations sid (ew_store w))). q \<noteq> p \<and> pt_member q = Some m)
      \<or> (\<exists>r \<in> set (at_rows (ew_bulk w)). ai_event r = se_gathering s \<and> ai_attendee_ref r = m
            \<and> idempotency_key r \<noteq> (se_gathering s, m, pt_attendee_key p))"
    and run: "finalize_close sx sid clk w = (w', r)"
  shows "r = Inl (Attendance_Write Unique_Violation) \<and> at_rows (ew_bulk w') = at_rows (ew_bulk w)
    \<and> ew_events w' = ew_events w
    \<and> (\<exists>s'. redis_get_session sid (ew_store w') = Some s' \<and> se_status s' = STATUS_CLOSED)
    \<and> (\<forall>clk'. \<exists>out. finalize_close sx sid clk' w' = (w', Inr out) \<and> co_inserted out = 0)"
proof -
  have w: "redis_log.world_ok dumps w" using redis_reachable assms(1-3) by blast
  let ?ps = "in_window_attendees (redis_participations sid (ew_store w))" and ?rows = "at_rows (ew_bulk w)"
  let ?it = "participation_to_attendance_item"
  define items where items: "items = map ?it ?ps"
  have d: "distinct (map unique_key ?rows)"
    using submissions_exact [OF rows empty_tables_exact] by (simp add: frappe_store.exact_def tables_ok_def)
  have key: "idempotency_key (?it q) = (se_gathering s, m, pt_attendee_key q)" "unique_key (?it q) = (se_gathering s, m)"
    if "q \<in> set ?ps" "pt_member q = Some m" for q
  proof -
    note q = projected_rows [OF w s(1) that(1)]
    then show "unique_key (?it q) = (se_gathering s, m)"
      using that(2) p(3) by (simp add: unique_key_def participation_to_attendance_item_def)
    then show "idempotency_key (?it q) = (se_gathering s, m, pt_attendee_key q)"
      using projected_key [of q] q by (simp add: unique_key_def)
  qed
  have stored: "table_insert ?rows (map stored_item (unseen_items items (ew_bulk w))) = Inl Unique_Violation"
    if q: "q \<in> set ?ps" "pt_member q = Some m" and r: "r \<in> set ?rows" "unique_key r = (se_gathering s, m)"
      "idempotency_key r \<noteq> (se_gathering s, m, pt_attendee_key q)" for q r
  proof -
    have "idempotency_key (?it q) \<notin> idempotency_key ` set ?rows"
      using new_of_old_attendee [OF d r(1), of "?it q"] key [OF q] r by simp
    then have "stored_item (?it q) \<in> set (map stored_item (unseen_items items (ew_bulk w)))"
      using q(1) by (auto simp: items unseen_items_def)
    then show ?thesis
      using r key [OF q] by (intro table_insert_clash [of "stored_item (?it q)" _ r])
        (auto simp: rows_clash_def stored_item_keeps)
  qed
  have "table_insert ?rows (map stored_item (unseen_items items (ew_bulk w))) = Inl Unique_Violation"
  proof (cases "\<exists>r \<in> set ?rows. unique_key r = (se_gathering s, m)")
    case True
    then obtain r where r: "r \<in> set ?rows" "unique_key r = (se_gathering s, m)" by blast
    show ?thesis
    proof (cases "idempotency_key r = (se_gathering s, m, pt_attendee_key p)")
      case False
      then show ?thesis using stored p r by blast
    next
      case True
      have "\<nexists>r'. r' \<in> set ?rows \<and> unique_key r' = (se_gathering s, m) \<and> r' \<noteq> r"
        using d r by (auto simp: distinct_map inj_on_def)
      then obtain q where q: "q \<in> set ?ps" "q \<noteq> p" "pt_member q = Some m"
        using clash True by (auto simp: unique_key_def)
      then have "pt_attendee_key q \<noteq> pt_attendee_key p"
        using in_window_distinct p(1) by (auto simp: distinct_map inj_on_def)
      then show ?thesis using stored q r True by auto
    qed
  next
    case False
    then obtain q where q: "q \<in> set ?ps" "q \<noteq> p" "pt_member q = Some m"
      using clash by (auto simp: unique_key_def)
    have "x \<in> set (unseen_items items (ew_bulk w))" if "x \<in> {?it p, ?it q}" for x
    proof -
      have "idempotency_key x \<notin> idempotency_key ` set ?rows"
        using that False key [OF p(1,2)] key [OF q(1,3)] idempotency_unique by (metis image_iff insertE singletonD)
      then show ?thesis using that p(1) q(1) by (auto simp: items unseen_items_def)
    qed
    then have "?it p \<in> set (unseen_items items (ew_bulk w))" "?it q \<in> set (unseen_items items (ew_bulk w))" by auto
    moreover have "?it p \<noteq> ?it q"
    proof
      assume "?it p = ?it q"
      then have "pt_attendee_key p = pt_attendee_key q" using projected_item(5) by (metis option.inject)
      then show False using in_window_distinct p(1) q(1,2) by (auto simp: distinct_map inj_on_def)
    qed
    ultimately have "\<not> inj_on unique_key (set (unseen_items items (ew_bulk w)))"
      using key(2) [OF p(1,2)] key(2) [OF q(1,3)] unfolding inj_on_def by metis
    then have "\<not> distinct (map unique_key (map stored_item (unseen_items items (ew_bulk w))))"
      by (simp add: distinct_map comp_def stored_item_keeps)
    moreover have "sorted_wrt (\<lambda>r x. \<not> rows_clash r x) xs \<Longrightarrow> distinct (map unique_key xs)" for xs
      by (induction xs) (auto simp: rows_clash_def)
    ultimately have "\<not> sorted_wrt (\<lambda>r x. \<not> rows_clash r x) (map stored_item (unseen_items items (ew_bulk w)))" by blast
    then show ?thesis unfolding table_insert_eq by (simp only: simp_thms if_False)
  qed
  then have f: "r = Inl (Attendance_Write Unique_Violation)" "at_rows (ew_bulk w') = ?rows" "ew_events w' = ew_events w"
    "\<exists>s'. redis_get_session sid (ew_store w') = Some s' \<and> se_status s' = STATUS_CLOSED"
    using finalize_write [OF w assms(2) bulk s run, folded items] by simp_all
  then show ?thesis using finalized_again [OF assms(2)] by blast
qed

lemma spoiled_close_loses_attendance_witness:
  "at_rows (ew_bulk (demo_finalize ''E2'' demo_twice)) = []
   \<and> (\<exists>out. snd (finalize_close demo_engagement ''E2'' 90 (demo_finalize ''E2'' demo_twice)) = Inr out \<and> co_inserted out = 0)"
proof -
  let ?s = "the (redis_get_session ''E2'' (ew_store demo_twice))"
  let ?ps = "in_window_attendees (redis_participations ''E2'' (ew_store demo_twice))"
  have e: "ew_bulk demo_twice = empty_tables" by code_simp
  have b: "submissions empty_tables (ew_bulk demo_twice)" unfolding e by (rule sub_start)
  have s: "redis_get_session ''E2'' (ew_store demo_twice) = Some ?s" "se_status ?s = STATUS_CLOSING"
    and p: "hd ?ps \<in> set ?ps" "pt_member (hd ?ps) = Some ''M1''" "''M1'' \<noteq> []"
    and q: "\<exists>q \<in> set ?ps. q \<noteq> hd ?ps \<and> pt_member q = Some ''M1''"
    and r: "at_rows empty_tables = []"
    by code_simp+
  from spoiled_close_loses_attendance [OF demo_start demo_gateway(1) demo_runs(6) demo_gateway(2) b s p disjI1 [OF q]
      surjective_pairing, of 60]
  show ?thesis using r e by (simp add: demo_finalize_def) (metis snd_conv)
qed

end
