(* ===== verification/Leader_Properties.thy ===== *)
theory Leader_Properties
  imports Leader_Safety Engagement_Properties
begin

text \<open>
  The properties of leader attendance reports in production: what an accepted report stores and
  stamps, that a gathering is reported once, and how a report fails, alone and together with the
  engagement runtime.
\<close>

section \<open>Reports in production\<close>

lemma report_accepted:
  assumes "report_attendance env caller g entries bid st = (st', Inr out)"
  obtains scope doc sub where
    "resolve_caller_branch_scope (rc_branch_docs caller) = Inr scope" "map_of (ld_gatherings st) g = Some doc"
    "gd_branch doc = scope" "gd_status doc = REPORTABLE_STATUS" "rs_gathering sub = g"
    "attendees_from_payload 0 entries = Inr (rs_attendees sub)"
    "submit_report (FrappeLeaderReportingGateway env) sub st = (st', Inr out)"
proof -
  obtain scope doc as where a: "resolve_caller_branch_scope (rc_branch_docs caller) = Inr scope"
    "map_of (ld_gatherings st) g = Some doc" "gd_branch doc = scope" "gd_status doc = REPORTABLE_STATUS"
    "attendees_from_payload 0 entries = Inr as"
    and s: "submit_report (FrappeLeaderReportingGateway env)
       \<lparr>rs_gathering = g, rs_branch = scope, rs_group = gd_group doc,
        rs_reported_by = resolve_reporter_member caller, rs_attendees = as, rs_client_batch_id = bid\<rparr> st
     = (st', Inr out)"
    using assms by (auto simp: report_attendance_def split: if_splits sum.splits option.splits prod.splits)
  show thesis by (rule that [OF a(1-4) _ _ s]) (simp_all add: a(5))
qed

lemma report_refused:
  assumes "report_attendance env caller g entries bid st = (st', Inl e)"
  shows "st' = st \<or> (\<exists>sub e'. rs_gathering sub = g \<and> submit_report (FrappeLeaderReportingGateway env) sub st = (st', Inl e')
    \<and> e = Report_Rejected e')"
  using assms by (force simp: report_attendance_def split: if_splits sum.splits option.splits prod.splits)

lemma chunks_keep_docs:
  "record_chunks (FrappeLeaderReportingGateway env) sub k cs st i d ids = (st', r) \<Longrightarrow>
   ld_gatherings st' = ld_gatherings st \<and> ld_members st' = ld_members st"
proof (induction cs arbitrary: k st i d ids)
  case (Cons c cs)
  let ?gw = "FrappeLeaderReportingGateway env"
  obtain st1 s where w: "lg_record_attendance ?gw c (rs_branch sub) (chunk_batch_id (rs_client_batch_id sub) k) st = (st1, s)"
    by (cases "lg_record_attendance ?gw c (rs_branch sub) (chunk_batch_id (rs_client_batch_id sub) k) st")
  then have "ld_gatherings st1 = ld_gatherings st \<and> ld_members st1 = ld_members st"
    by (auto simp: FrappeLeaderReportingGateway_def split: prod.splits)
  with Cons w show ?case by (auto simp: Let_def split: sum.splits)
qed simp

lemma advance_doc:
  assumes "db_advance_gathering env g status by m v f st = Inr st'"
  shows "\<exists>d d'. map_of (ld_gatherings st) g = Some d \<and> map_of (ld_gatherings st') g = Some d'
    \<and> gd_status d' = status \<and> gd_branch d' = gd_branch d \<and> gd_group d' = gd_group d
    \<and> rg_reported_by d' = Some by \<and> rg_total_count d' = m + v \<and> rg_member_count d' = m
    \<and> rg_visitor_count d' = v \<and> rg_first_time_count d' = f
    \<and> le_group_branch env (gd_group d) = Some (gd_branch d)
    \<and> (\<forall>h. h \<noteq> g \<longrightarrow> map_of (ld_gatherings st') h = map_of (ld_gatherings st) h)"
proof -
  from assms obtain d where d: "map_of (ld_gatherings st) g = Some d"
    by (auto simp: db_advance_gathering_def split: option.splits)
  let ?d1 = "d \<lparr>gd_status := status, rg_reported_by := Some by, rg_reported_at := Some (le_now env),
     rg_member_count := m, rg_visitor_count := v, rg_total_count := m + v, rg_first_time_count := f\<rparr>"
  from assms d obtain w where
    w: "validate_gathering (le_branch_org env) (le_group_branch env) (le_parent_group env)
          (Some (gd_status d)) (gathering_doc.truncate ?d1) = Inr w"
    and st': "st' = st \<lparr>ld_gatherings := AList.update g
        (?d1 \<lparr>gd_organization := gd_organization w, gd_group_path := gd_group_path w\<rparr>) (ld_gatherings st)\<rparr>"
    by (auto simp: db_advance_gathering_def Let_def split: sum.splits)
  have "le_group_branch env (gd_group d) = Some (gd_branch d)"
    using w by (auto simp: validate_gathering_def denormalize_tenant_floor_def gathering_doc.truncate_def Let_def
        res_bind_Inr_iff validate_gathering_branch_binding_def split: if_splits option.splits)
  then show ?thesis using d st' by (auto simp: update_conv')
qed

text \<open>The document an accepted report leaves.\<close>

lemma report_doc:
  assumes ok: "frappe_store.exact (ld_tables st)"
    and run: "submit_report (FrappeLeaderReportingGateway env) sub st = (st', Inr out)"
  shows "\<exists>d'. map_of (ld_gatherings st') (rs_gathering sub) = Some d' \<and> gd_status d' = REPORTED_STATUS
    \<and> rg_reported_by d' = Some (rs_reported_by sub) \<and> rg_member_count d' = ro_member_count out
    \<and> rg_visitor_count d' = ro_visitor_count out \<and> rg_total_count d' = ro_member_count out + ro_visitor_count out
    \<and> rg_first_time_count d' = ro_first_time_count out
    \<and> (\<forall>h. h \<noteq> rs_gathering sub \<longrightarrow> map_of (ld_gatherings st') h = map_of (ld_gatherings st) h)"
proof -
  let ?gw = "FrappeLeaderReportingGateway env"
  obtain m v f items where pre: "res_bind (validate_submission_shape sub) (\<lambda>_. res_bind (validate_reportable ?gw sub st) (\<lambda>_.
            classify_attendees ?gw sub st (rs_attendees sub) 0 0 0 [])) = Inr (m, v, f, items)"
    using run by (auto simp: submit_report_def split: sum.splits)
  obtain st1 s where w: "record_in_chunks ?gw sub items st = (st1, s)" by (cases "record_in_chunks ?gw sub items st")
  note k = chunks_keep_docs [OF w [unfolded record_in_chunks_def]]
  from run pre w obtain st2 where a: "db_advance_gathering env (rs_gathering sub) REPORTED_STATUS (rs_reported_by sub) m v f st1 = Inr st2"
    and st': "ld_gatherings st' = ld_gatherings st2"
    and out: "ro_member_count out = m" "ro_visitor_count out = v" "ro_first_time_count out = f"
    by (auto simp: submit_report_def FrappeLeaderReportingGateway_def split: sum.splits)
  show ?thesis using advance_doc [OF a] k out by (auto simp: st')
qed

section \<open>Runs\<close>

text \<open>Reports, other attendance writes, and edits of gatherings that the state machine allows, a
  reopening aside.\<close>

inductive leader_run :: "leader_db \<Rightarrow> bool" where
  lr_start: "ld_tables st = empty_tables \<Longrightarrow> ld_events st = [] \<Longrightarrow> leader_run st"
| lr_report: "leader_run st \<Longrightarrow> report_attendance env caller g entries bid st = (st', r) \<Longrightarrow> leader_run st'"
| lr_attendance: "leader_run st \<Longrightarrow> submit FrappeBulkAttendanceGateway items scope bid (ld_tables st) = (b, r) \<Longrightarrow>
    leader_run (st \<lparr>ld_tables := b\<rparr>)"
| lr_gathering: "leader_run st \<Longrightarrow> map_of (ld_gatherings st) g = Some d \<Longrightarrow>
    is_valid_transition (Some (gd_status d)) status \<Longrightarrow> gd_status d = STATUS_REPORTED \<longrightarrow> status \<noteq> STATUS_HELD \<Longrightarrow>
    leader_run (st \<lparr>ld_gatherings := AList.update g (d \<lparr>gd_status := status\<rparr>) (ld_gatherings st)\<rparr>)"

lemma report_steps:
  assumes "report_attendance env caller g entries bid st = (st', r)" "frappe_store.exact (ld_tables st)"
  shows "frappe_store.exact (ld_tables st') \<and> (\<exists>extra. at_rows (ld_tables st') = at_rows (ld_tables st) @ extra)
    \<and> (case r of
         Inl e \<Rightarrow> ld_events st' = ld_events st
           \<and> (\<forall>h. map_option gd_status (map_of (ld_gatherings st') h) = map_option gd_status (map_of (ld_gatherings st) h))
       | Inr out \<Rightarrow> map_option gd_status (map_of (ld_gatherings st) g) = Some STATUS_HELD
           \<and> (\<exists>ev. ld_events st' = ld_events st @ [ev] \<and> ev_gathering ev = g)
           \<and> (\<forall>h. map_option gd_status (map_of (ld_gatherings st') h)
                = (if h = g then Some STATUS_REPORTED else map_option gd_status (map_of (ld_gatherings st) h))))"
proof (cases r)
  case (Inl e)
  from report_refused [OF assms(1) [unfolded Inl]] show ?thesis
  proof (elim disjE exE conjE)
    assume "st' = st"
    then show ?thesis using Inl assms(2) by simp
  next
    fix sub e' assume "submit_report (FrappeLeaderReportingGateway env) sub st = (st', Inl e')"
    note f = db_reports.report_failed [OF assms(2) this]
    have "lg_gathering_status (FrappeLeaderReportingGateway env) h st'' = map_option gd_status (map_of (ld_gatherings st'') h)" for h st''
      by (simp add: FrappeLeaderReportingGateway_def)
    then show ?thesis using f Inl by simp
  qed
next
  case (Inr out)
  from report_accepted [OF assms(1) [unfolded Inr]] obtain scope doc sub where
    s: "resolve_caller_branch_scope (rc_branch_docs caller) = Inr scope" "map_of (ld_gatherings st) g = Some doc"
    "gd_branch doc = scope" "gd_status doc = REPORTABLE_STATUS" "rs_gathering sub = g"
    "attendees_from_payload 0 entries = Inr (rs_attendees sub)"
    "submit_report (FrappeLeaderReportingGateway env) sub st = (st', Inr out)" .
  note f = db_reports.report_ok [OF assms(2) s(7)]
  have g: "lg_gathering_status (FrappeLeaderReportingGateway env) h st'' = map_option gd_status (map_of (ld_gatherings st'') h)" for h st''
    by (simp add: FrappeLeaderReportingGateway_def)
  from f(9) obtain ev where "ld_events st' = ld_events st @ [ev]" "ev_gathering ev = g" using s(5) by blast
  then show ?thesis using f(1-4) Inr s(5) by (simp add: g REPORTABLE_STATUS_def REPORTED_STATUS_def)
qed

definition reports_of :: "docname \<Rightarrow> leader_db \<Rightarrow> nat" where
  "reports_of g st = length (filter (\<lambda>ev. ev_gathering ev = g) (ld_events st))"

lemma leader_run_inv:
  "leader_run st \<Longrightarrow> frappe_store.exact (ld_tables st) \<and> (reports_of g st = 0 \<or> reports_of g st = 1
     \<and> map_option gd_status (map_of (ld_gatherings st) g) \<in> {Some STATUS_REPORTED, Some STATUS_CONFIRMED})"
proof (induction rule: leader_run.induct)
  case (lr_start st)
  then show ?case using empty_tables_exact by (simp add: reports_of_def)
next
  case (lr_report st env caller h entries bid st' r)
  note s = report_steps [OF lr_report(2)]
  have ne: "STATUS_HELD \<noteq> STATUS_REPORTED" "STATUS_HELD \<noteq> STATUS_CONFIRMED" by (simp_all add: status_defs)
  show ?case
  proof (cases r)
    case (Inl e)
    then have "ld_events st' = ld_events st"
      "map_option gd_status (map_of (ld_gatherings st') g) = map_option gd_status (map_of (ld_gatherings st) g)"
      using s lr_report.IH by simp_all
    then show ?thesis using s lr_report.IH by (simp add: reports_of_def)
  next
    case (Inr out)
    with s lr_report.IH obtain ev where e: "map_option gd_status (map_of (ld_gatherings st) h) = Some STATUS_HELD"
      "ld_events st' = ld_events st @ [ev]" "ev_gathering ev = h"
      "map_option gd_status (map_of (ld_gatherings st') g)
          = (if g = h then Some STATUS_REPORTED else map_option gd_status (map_of (ld_gatherings st) g))"
      by auto
    show ?thesis
    proof (cases "g = h")
      case True
      then have "reports_of g st = 0" using lr_report.IH e(1) ne by auto
      then have "reports_of g st' = 1" using e(2,3) True by (simp add: reports_of_def)
      then show ?thesis using s lr_report.IH e(4) True by simp
    next
      case False
      then have "reports_of g st' = reports_of g st" using e(2,3) by (simp add: reports_of_def)
      then show ?thesis using s lr_report.IH e(4) False by simp
    qed
  qed
next
  case (lr_attendance st items scope bid b r)
  then have "frappe_store.exact b" using frappe_store.submit_exact by blast
  then show ?case using lr_attendance.IH by (simp add: reports_of_def)
next
  case (lr_gathering st h d status)
  have "gd_status d \<in> {STATUS_REPORTED, STATUS_CONFIRMED} \<Longrightarrow> status \<in> {STATUS_REPORTED, STATUS_CONFIRMED}"
    using lr_gathering(3,4) by (auto simp: is_valid_transition_def GATHERING_STATUSES_def TRANSITIONS_def table_get_def
        status_defs split: if_splits)
  then show ?case using lr_gathering.IH lr_gathering(2) by (auto simp: reports_of_def update_conv')
qed

section \<open>A concrete report\<close>

definition demo_leader_env :: "docname \<Rightarrow> leader_env" where
  "demo_leader_env b = \<lparr>le_branch_org = (\<lambda>_. Some ''O''), le_group_branch = (\<lambda>_. Some b),
     le_parent_group = (\<lambda>_. None), le_now = ''t''\<rparr>"

definition demo_caller :: report_caller where
  "demo_caller = \<lparr>rc_branch_docs = [Some ''B''], rc_linked_member = Some ''L'', rc_user = ''u''\<rparr>"

definition demo_entry :: "docname \<Rightarrow> attendee_entry" where
  "demo_entry m = \<lparr>ae_member = Some m, ae_present = None, ae_first_time = None, ae_client_req_id = None\<rparr>"

definition demo_leader_db :: leader_db where
  "demo_leader_db = \<lparr>ld_tables = empty_tables,
     ld_gatherings = [(''G'', \<lparr>gd_organization = Some ''O'', gd_branch = ''B'', gd_group = ''Gr'',
       gd_status = STATUS_HELD, gd_group_path = [], rg_reported_by = None, rg_reported_at = None,
       rg_member_count = 0, rg_visitor_count = 0, rg_total_count = 0, rg_first_time_count = 0\<rparr>)],
     ld_members = [(''M1'', MEMBER_STATUS_MEMBER), (''V1'', MEMBER_STATUS_VISITOR)], ld_events = []\<rparr>"

definition demo_reported :: leader_db where
  "demo_reported = fst (report_attendance (demo_leader_env ''B'') demo_caller ''G''
     [demo_entry ''M1'', demo_entry ''V1''] ''r1'' demo_leader_db)"

lemma demo_leader_start: "leader_run demo_leader_db"
  by (rule lr_start) (simp_all add: demo_leader_db_def)

lemma demo_reported_run: "leader_run demo_reported"
  using lr_report [OF demo_leader_start] unfolding demo_reported_def by (metis prod.collapse)


section \<open>Properties\<close>

text \<open>C7. An accepted report leaves exactly one attendance row of the gathering for every attendee it
  marks present, moves the gathering from Held to Reported, stamps it with the counts of the
  report, whose total is the number of present entries, changes no other gathering and emits one
  event; it is accepted only for the caller's single branch.\<close>
theorem accepted_report_complete:
  assumes "leader_run st" and run: "report_attendance env caller g entries bid st = (st', Inr out)"
  shows "\<exists>d d' as ev. map_of (ld_gatherings st) g = Some d \<and> map_of (ld_gatherings st') g = Some d'
    \<and> attendees_from_payload 0 entries = Inr as
    \<and> resolve_caller_branch_scope (rc_branch_docs caller) = Inr (gd_branch d)
    \<and> gd_status d = STATUS_HELD \<and> gd_status d' = STATUS_REPORTED
    \<and> (\<forall>a \<in> set as. ar_present a \<longrightarrow>
        length (filter (\<lambda>r. ai_event r = g \<and> ai_attendee_ref r = ar_member a) (at_rows (ld_tables st'))) = 1)
    \<and> rg_total_count d' = length (filter ar_present as) \<and> rg_member_count d' + rg_visitor_count d' = rg_total_count d'
    \<and> ro_inserted out + ro_deduplicated out = length (filter ar_present as)
    \<and> rg_first_time_count d' = length (filter ar_first_time as)
    \<and> (\<forall>h. h \<noteq> g \<longrightarrow> map_of (ld_gatherings st') h = map_of (ld_gatherings st) h)
    \<and> ld_events st' = ld_events st @ [ev] \<and> ev_gathering ev = g \<and> ev_total_count ev = rg_total_count d'"
proof -
  have ok: "frappe_store.exact (ld_tables st)" using leader_run_inv [OF assms(1)] by blast
  from report_accepted [OF run] obtain scope doc sub where
    a: "resolve_caller_branch_scope (rc_branch_docs caller) = Inr scope" "map_of (ld_gatherings st) g = Some doc"
    "gd_branch doc = scope" "gd_status doc = REPORTABLE_STATUS" and g: "rs_gathering sub = g"
    and as: "attendees_from_payload 0 entries = Inr (rs_attendees sub)"
    and s: "submit_report (FrappeLeaderReportingGateway env) sub st = (st', Inr out)" .
  let ?as = "rs_attendees sub"
  note f = db_reports.report_ok [OF ok s]
  note d = report_doc [OF ok s]
  have dis: "distinct (map unique_key (at_rows (ld_tables st')))"
    using f(1) by (simp add: frappe_store.exact_def tables_ok_def)
  have one: "length (filter (\<lambda>r. ai_event r = g \<and> ai_attendee_ref r = ar_member x) (at_rows (ld_tables st'))) = 1"
    if x: "x \<in> set ?as" "ar_present x" for x
  proof -
    let ?i = "to_attendance_item sub x"
    have "idempotency_key ?i \<in> idempotency_key ` set (at_rows (ld_tables st'))" using f(5) x by auto
    then have "unique_key ?i \<in> set (map unique_key (at_rows (ld_tables st')))"
      using fresh_attendee_key [of ?i "set (at_rows (ld_tables st'))"] by auto
    moreover have "unique_key ?i = (g, ar_member x)" by (simp add: unique_key_def to_attendance_item_def g)
    ultimately have "length (filter (\<lambda>k. k = (g, ar_member x)) (map unique_key (at_rows (ld_tables st')))) = 1"
      using length_filter_one [OF dis] by simp
    then show ?thesis by (simp add: filter_map comp_def unique_key_def)
  qed
  from f(9) obtain ev where e: "ld_events st' = ld_events st @ [ev]" "ev_gathering ev = g"
    "ev_total_count ev = length (filter ar_present ?as)" using g by auto
  from d g obtain d' where d': "map_of (ld_gatherings st') g = Some d'" "gd_status d' = REPORTED_STATUS"
    "rg_member_count d' = ro_member_count out" "rg_visitor_count d' = ro_visitor_count out"
    "rg_total_count d' = ro_member_count out + ro_visitor_count out" "rg_first_time_count d' = ro_first_time_count out"
    "\<forall>h. h \<noteq> g \<longrightarrow> map_of (ld_gatherings st') h = map_of (ld_gatherings st) h" by auto
  show ?thesis
    by (rule exI [of _ doc], rule exI [of _ d'], rule exI [of _ ?as], rule exI [of _ ev])
      (use a as d' e f(6-8) one in \<open>simp add: REPORTABLE_STATUS_def REPORTED_STATUS_def\<close>)
qed

lemma accepted_report_complete_witness:
  "length (filter (\<lambda>r. ai_event r = ''G'' \<and> ai_attendee_ref r = ''V1'') (at_rows (ld_tables demo_reported))) = 1
   \<and> (\<exists>d'. map_of (ld_gatherings demo_reported) ''G'' = Some d' \<and> gd_status d' = STATUS_REPORTED \<and> rg_total_count d' = 2)"
proof -
  let ?es = "[demo_entry ''M1'', demo_entry ''V1'']"
  let ?run = "report_attendance (demo_leader_env ''B'') demo_caller ''G'' ?es ''r1'' demo_leader_db"
  have "is_ok (snd ?run)" by code_simp
  then obtain out where r: "?run = (demo_reported, Inr out)"
    unfolding demo_reported_def by (cases ?run; cases "snd ?run") auto
  from accepted_report_complete [OF demo_leader_start r] obtain d d' as ev where
    a: "attendees_from_payload 0 ?es = Inr as" "map_of (ld_gatherings demo_reported) ''G'' = Some d'"
    "gd_status d' = STATUS_REPORTED" "rg_total_count d' = length (filter ar_present as)"
    "\<forall>a \<in> set as. ar_present a \<longrightarrow>
        length (filter (\<lambda>r. ai_event r = ''G'' \<and> ai_attendee_ref r = ar_member a) (at_rows (ld_tables demo_reported))) = 1"
    by blast
  have "as = [\<lparr>ar_member = ''M1'', ar_present = True, ar_first_time = False, ar_client_req_id = None\<rparr>,
      \<lparr>ar_member = ''V1'', ar_present = True, ar_first_time = False, ar_client_req_id = None\<rparr>]"
    using a(1) by (simp add: demo_entry_def attendee_from_payload_def)
  then show ?thesis using a(2-5) by simp
qed

text \<open>C26. Unless it is reopened, a gathering is reported at most once: whatever reports, attendance
  writes and status edits follow, there is at most one report event for it, and once there is one
  every further report is refused and changes nothing.\<close>
theorem gathering_reported_once:
  assumes "leader_run st"
  shows "reports_of g st \<le> 1 \<and> (reports_of g st = 1 \<longrightarrow>
    (\<exists>e. report_attendance env caller g entries bid st = (st, Inl e)))"
proof -
  note i = leader_run_inv [OF assms, of g]
  have "\<exists>e. report_attendance env caller g entries bid st = (st, Inl e)" if "reports_of g st = 1"
  proof -
    from i that obtain d where d: "map_of (ld_gatherings st) g = Some d" "gd_status d \<in> {STATUS_REPORTED, STATUS_CONFIRMED}"
      by (cases "map_of (ld_gatherings st) g") auto
    then have "gd_status d \<noteq> REPORTABLE_STATUS" by (auto simp: REPORTABLE_STATUS_def status_defs)
    then show ?thesis using d(1) by (auto simp: report_attendance_def split: sum.split)
  qed
  with i show ?thesis by auto
qed

lemma gathering_reported_once_witness:
  "reports_of ''G'' demo_reported = 1
   \<and> (\<exists>e. report_attendance (demo_leader_env ''B'') demo_caller ''G'' [demo_entry ''M1''] ''r2'' demo_reported = (demo_reported, Inl e))"
proof -
  have "reports_of ''G'' demo_reported = 1" by code_simp
  then show ?thesis using gathering_reported_once [OF demo_reported_run] by blast
qed

text \<open>A report whose save of the gathering is refused keeps its attendance: the request fails and
  the gathering stays as it was, without an event, but a row of every present attendee is stored.\<close>
theorem rejected_report_keeps_rows:
  assumes "leader_run st" and run: "submit_report (FrappeLeaderReportingGateway env) sub st = (st', Inl (Report_Save e))"
  shows "ld_gatherings st' = ld_gatherings st \<and> ld_events st' = ld_events st
    \<and> (\<forall>a \<in> set (rs_attendees sub). ar_present a \<longrightarrow>
        (\<exists>r \<in> set (at_rows (ld_tables st')). ai_event r = rs_gathering sub \<and> ai_attendee_ref r = ar_member a))"
proof -
  let ?gw = "FrappeLeaderReportingGateway env"
  have ok: "frappe_store.exact (ld_tables st)" using leader_run_inv [OF assms(1)] by blast
  have shape: "validate_submission_shape sub \<noteq> Inl (Report_Save e)"
    by (simp add: validate_submission_shape_def raise_if_def)
  have val: "validate_reportable ?gw sub st \<noteq> Inl (Report_Save e)"
    by (auto simp: validate_reportable_def split: option.splits)
  have cls: "classify_attendees ?gw sub st as a b c is \<noteq> Inl (Report_Save e)" for as a b c "is"
    by (induction as arbitrary: a b c "is") (auto simp: Let_def split: option.splits)
  have wr: "snd (record_chunks ?gw sub k cs st0 a b ids) \<noteq> Inl (Report_Save e)" for k cs st0 a b ids
    by (induction cs arbitrary: k st0 a b ids) (auto simp: Let_def split: prod.splits sum.splits)
  obtain m v f items where pre: "classify_attendees ?gw sub st (rs_attendees sub) 0 0 0 [] = Inr (m, v, f, items)"
    and full: "res_bind (validate_submission_shape sub) (\<lambda>_. res_bind (validate_reportable ?gw sub st) (\<lambda>_.
            classify_attendees ?gw sub st (rs_attendees sub) 0 0 0 [])) = Inr (m, v, f, items)"
    using run shape val cls
    by (cases "validate_submission_shape sub"; cases "validate_reportable ?gw sub st";
        cases "classify_attendees ?gw sub st (rs_attendees sub) 0 0 0 []") (auto simp: submit_report_def)
  obtain st1 s where w: "record_in_chunks ?gw sub items st = (st1, s)" by (cases "record_in_chunks ?gw sub items st")
  note w' = w [unfolded record_in_chunks_def]
  have "s \<noteq> Inl (Report_Save e)" using wr w' by (metis snd_conv)
  then obtain q where q: "s = Inr q" "st' = st1"
    using run full w by (cases s) (auto simp: submit_report_def split: sum.splits prod.splits)
  have it: "items = map (to_attendance_item sub) (filter ar_present (rs_attendees sub))"
    using db_reports.classified [OF pre] by simp
  have sc: "\<forall>c \<in> set (chunks BULK_BATCH_SIZE items). \<forall>x \<in> set c. ai_branch x = rs_branch sub"
  proof -
    have "set (concat (chunks BULK_BATCH_SIZE items)) = set items"
      by (simp only: concat_chunks BULK_BATCH_SIZE_def zero_less_numeral)
    then have "\<forall>c \<in> set (chunks BULK_BATCH_SIZE items). set c \<subseteq> set items" by auto
    then show ?thesis by (fastforce simp: it to_attendance_item_def)
  qed
  have cc: "concat (chunks BULK_BATCH_SIZE items) = items" by (simp add: concat_chunks BULK_BATCH_SIZE_def)
  note e = db_reports.chunks_written [OF w' ok sc, unfolded cc]
  obtain i' d' ids' where "q = (i', d', ids')" by (cases q)
  with e q(1) have k: "idempotency_key ` set items \<subseteq> idempotency_key ` set (at_rows (ld_tables st1))" by blast
  have "\<exists>r \<in> set (at_rows (ld_tables st')). ai_event r = rs_gathering sub \<and> ai_attendee_ref r = ar_member a"
    if "a \<in> set (rs_attendees sub)" "ar_present a" for a
  proof -
    have "to_attendance_item sub a \<in> set items" using that by (simp add: it)
    then obtain r where r: "r \<in> set (at_rows (ld_tables st1))" "idempotency_key (to_attendance_item sub a) = idempotency_key r"
      using k by (metis (mono_tags, lifting) imageE image_subset_iff)
    then have "unique_key (to_attendance_item sub a) = unique_key r" using idempotency_unique by blast
    then show ?thesis using r(1) q(2) by (auto simp: unique_key_def to_attendance_item_def)
  qed
  then show ?thesis using chunks_keep_docs [OF w'] e q(2) by blast
qed

lemma rejected_report_keeps_rows_witness:
  "\<exists>st'. submit_report (FrappeLeaderReportingGateway (demo_leader_env ''C''))
      \<lparr>rs_gathering = ''G'', rs_branch = ''B'', rs_group = ''Gr'', rs_reported_by = ''L'',
       rs_attendees = [\<lparr>ar_member = ''M1'', ar_present = True, ar_first_time = False, ar_client_req_id = None\<rparr>],
       rs_client_batch_id = ''r1''\<rparr>
      demo_leader_db = (st', Inl (Report_Save (Gathering_Branch_Mismatch ''C'' ''B'')))
    \<and> (\<exists>r \<in> set (at_rows (ld_tables st')). ai_event r = ''G'' \<and> ai_attendee_ref r = ''M1'')"
proof -
  let ?sub = "\<lparr>rs_gathering = ''G'', rs_branch = ''B'', rs_group = ''Gr'', rs_reported_by = ''L'',
     rs_attendees = [\<lparr>ar_member = ''M1'', ar_present = True, ar_first_time = False, ar_client_req_id = None\<rparr>],
     rs_client_batch_id = ''r1''\<rparr>"
  let ?run = "submit_report (FrappeLeaderReportingGateway (demo_leader_env ''C'')) ?sub demo_leader_db"
  have "(case snd ?run of Inl (Report_Save (Gathering_Branch_Mismatch a b)) \<Rightarrow> (a, b) = (''C'', ''B'') | _ \<Rightarrow> False)"
    by code_simp
  then obtain st' where r: "?run = (st', Inl (Report_Save (Gathering_Branch_Mismatch ''C'' ''B'')))"
    by (cases ?run) (auto split: sum.splits leader_error.splits gathering_error.splits)
  from rejected_report_keeps_rows [OF demo_leader_start r] r show ?thesis by auto
qed

lemma recorded_elsewhere_blocks:
  assumes ok: "frappe_store.exact (ld_tables st)" and r: "r \<in> set (at_rows (ld_tables st))" "ai_event r = g" "ai_attendee_ref r = ar_member a"
    and as: "attendees_from_payload 0 entries = Inr as" "a \<in> set as" "ar_present a"
    and key: "idempotency_key r \<noteq> (g, ar_member a, the (or_else (ar_client_req_id a) (Some (ar_member a))))" "ar_member a \<noteq> []"
    and run: "report_attendance env caller g entries bid st = (st', res)"
  shows "(\<exists>e. res = Inl e) \<and> ld_events st' = ld_events st
    \<and> (\<forall>h. map_option gd_status (map_of (ld_gatherings st') h) = map_option gd_status (map_of (ld_gatherings st) h))"
proof (cases res)
  case (Inl e)
  then show ?thesis using report_steps [OF run ok] by simp
next
  case (Inr out)
  from report_accepted [OF run [unfolded Inr]] obtain scope doc sub where
    "resolve_caller_branch_scope (rc_branch_docs caller) = Inr scope" "map_of (ld_gatherings st) g = Some doc"
    "gd_branch doc = scope" "gd_status doc = REPORTABLE_STATUS" and sg: "rs_gathering sub = g"
    and "attendees_from_payload 0 entries = Inr (rs_attendees sub)"
    and s: "submit_report (FrappeLeaderReportingGateway env) sub st = (st', Inr out)" .
  then have sa: "rs_attendees sub = as" using as(1) by simp
  let ?i = "to_attendance_item sub a"
  note f = db_reports.report_ok [OF ok s]
  have i: "idempotency_key ?i = (g, ar_member a, the (or_else (ar_client_req_id a) (Some (ar_member a))))"
    "unique_key ?i = unique_key r"
    using key(2) r(2,3) sg by (auto simp: idempotency_key_def unique_key_def to_attendance_item_def or_else_def)
  have dis: "distinct (map unique_key (at_rows (ld_tables st')))"
    using f(1) by (simp add: frappe_store.exact_def tables_ok_def)
  have "r \<in> set (at_rows (ld_tables st'))" using f(2) r(1) by auto
  from new_of_old_attendee [OF dis this i(2)] i(1) key(1)
  have "idempotency_key ?i \<notin> idempotency_key ` set (at_rows (ld_tables st'))" by simp
  moreover have "idempotency_key ?i \<in> idempotency_key ` set (at_rows (ld_tables st'))" using f(5) sa as(2,3) by auto
  ultimately show ?thesis by blast
qed

text \<open>C38. Checking in blocks the leader: once the close of an engagement session has stored the credit
  of a member for the gathering, every leader report that marks this member present under
  another request id fails, now and ever after, and the gathering is never reported by it.\<close>
theorem checkin_blocks_leader_report:
  assumes "redis_start w0" "sx_gateway sx = FrappeEngagementGateway dumps" "engagement_run sx w0 w"
    and bulk: "sx_bulk sx = FrappeBulkAttendanceGateway"
    and s: "redis_get_session sid (ew_store w) = Some s" "se_status s = STATUS_CLOSING"
    and fin: "finalize_close sx sid clk w = (w', Inr out)"
    and p: "p \<in> set (in_window_attendees (redis_participations sid (ew_store w)))" "pt_member p = Some m" "m \<noteq> []"
    and later: "leader_run st" "set (at_rows (ew_bulk w')) \<subseteq> set (at_rows (ld_tables st))"
    and a: "attendees_from_payload 0 entries = Inr as" "a \<in> set as" "ar_present a" "ar_member a = m"
      "the (or_else (ar_client_req_id a) (Some m)) \<noteq> pt_attendee_key p"
    and run: "report_attendance env caller (se_gathering s) entries bid st = (st', res)"
  shows "(\<exists>e. res = Inl e) \<and> ld_events st' = ld_events st
    \<and> map_option gd_status (map_of (ld_gatherings st') (se_gathering s))
        = map_option gd_status (map_of (ld_gatherings st) (se_gathering s))"
proof -
  have w: "redis_log.world_ok dumps w" using redis_reachable assms(1-3) by blast
  let ?ps = "in_window_attendees (redis_participations sid (ew_store w))" and ?it = "participation_to_attendance_item"
  define items where items: "items = map ?it ?ps"
  note q = projected_rows [OF w s(1) p(1)]
  have key: "idempotency_key (?it p) = (se_gathering s, m, pt_attendee_key p)"
    using p(2,3) q projected_key [of p] by (simp add: participation_to_attendance_item_def)
  obtain rows where t: "table_insert (at_rows (ew_bulk w)) (map stored_item (unseen_items items (ew_bulk w))) = Inr rows"
    "at_rows (ew_bulk w') = rows"
    using finalize_write [OF w assms(2) bulk s fin, folded items]
    by (cases "table_insert (at_rows (ew_bulk w)) (map stored_item (unseen_items items (ew_bulk w)))") auto
  then have rows: "at_rows (ew_bulk w') = at_rows (ew_bulk w) @ map stored_item (unseen_items items (ew_bulk w))"
    by (simp add: table_insert_eq split: if_splits)
  have "idempotency_key (?it p) \<in> idempotency_key ` set (at_rows (ew_bulk w'))"
  proof (cases "idempotency_key (?it p) \<in> idempotency_key ` set (at_rows (ew_bulk w))")
    case False
    then have "stored_item (?it p) \<in> set (at_rows (ew_bulk w'))"
      using p(1) by (auto simp: rows items unseen_items_def)
    then show ?thesis using stored_item_keeps(1) by (metis image_eqI)
  qed (auto simp: rows)
  then obtain r where r: "r \<in> set (at_rows (ld_tables st))" "idempotency_key r = (se_gathering s, m, pt_attendee_key p)"
    using later(2) key by auto
  have ok: "frappe_store.exact (ld_tables st)" using leader_run_inv [OF later(1)] by blast
  show ?thesis
    using recorded_elsewhere_blocks [OF ok r(1) _ _ a(1-3) _ _ run] r(2) a(4,5) p(3)
    by (auto simp: idempotency_key_def)
qed

lemma checkin_blocks_leader_report_witness:
  "\<exists>e. snd (report_attendance (demo_leader_env ''B'') demo_caller ''G'' [demo_entry ''M1'']
      ''r1'' (demo_leader_db \<lparr>ld_tables := ew_bulk demo_done\<rparr>)) = Inl e"
proof -
  let ?s = "the (redis_get_session ''E1'' (ew_store demo_closing))"
  let ?ps = "in_window_attendees (redis_participations ''E1'' (ew_store demo_closing))"
  let ?st = "demo_leader_db \<lparr>ld_tables := ew_bulk demo_done\<rparr>"
  let ?a = "\<lparr>ar_member = ''M1'', ar_present = True, ar_first_time = False, ar_client_req_id = None\<rparr>"
  have s: "redis_get_session ''E1'' (ew_store demo_closing) = Some ?s" "se_status ?s = STATUS_CLOSING" by code_simp+
  have "is_ok (snd (finalize_close demo_engagement ''E1'' 60 demo_closing))" by code_simp
  then obtain out where f: "finalize_close demo_engagement ''E1'' 60 demo_closing = (demo_done, Inr out)"
    unfolding demo_done_def demo_finalize_def
    by (cases "finalize_close demo_engagement ''E1'' 60 demo_closing"; cases "snd (finalize_close demo_engagement ''E1'' 60 demo_closing)") auto
  have p: "hd ?ps \<in> set ?ps" "pt_member (hd ?ps) = Some ''M1''" "''M1'' \<noteq> []" by code_simp+
  have b: "ew_bulk demo_done = fst (submit FrappeBulkAttendanceGateway (map participation_to_attendance_item ?ps)
      ''B'' ''engagement:E1'' empty_tables)" by code_simp
  have e: "ld_tables demo_leader_db = empty_tables" by (simp add: demo_leader_db_def)
  have run: "leader_run ?st"
    unfolding b using lr_attendance [OF demo_leader_start] e by (metis prod.collapse)
  have sub: "set (at_rows (ew_bulk demo_done)) \<subseteq> set (at_rows (ld_tables ?st))" by simp
  have a: "attendees_from_payload 0 [demo_entry ''M1''] = Inr [?a]" "?a \<in> set [?a]" "ar_present ?a" "ar_member ?a = ''M1''"
    by (simp_all add: demo_entry_def attendee_from_payload_def)
  have k: "the (or_else (ar_client_req_id ?a) (Some ''M1'')) \<noteq> pt_attendee_key (hd ?ps)" by code_simp
  have g: "se_gathering ?s = ''G''" by code_simp
  show ?thesis
    using checkin_blocks_leader_report [OF demo_start demo_gateway(1) demo_runs(3) demo_gateway(2) s f p run sub a k
        surjective_pairing, of "demo_leader_env ''B''" demo_caller "''r1''"] g by simp
qed

end
