(* ===== verification/Events.thy ===== *)
theory Events
  imports Py_Values
begin

text \<open>
  Model of \<open>flock_os/events.py\<close>: the catalog of event names, the subscriber bus with its sink port,
  and the production sink.

  A subscriber changes the state of its owner and may raise; the bus is generic in that state.
  The production sink pushes to the browsers and appends to the outbox; whether the push and
  the append raise is part of its state.
\<close>

section \<open>The catalog\<close>

definition BRANCH_CREATED :: string where "BRANCH_CREATED = ''flock.branch.created''"
definition BRANCH_MOVED :: string where "BRANCH_MOVED = ''flock.branch.moved''"
definition GROUP_CREATED :: string where "GROUP_CREATED = ''flock.group.created''"
definition GROUP_MEMBER_ADDED :: string where "GROUP_MEMBER_ADDED = ''flock.group_member.added''"
definition MEMBER_CREATED :: string where "MEMBER_CREATED = ''flock.member.created''"
definition GATHERING_CREATED :: string where "GATHERING_CREATED = ''flock.gathering.created''"
definition GATHERING_APPROVED :: string where "GATHERING_APPROVED = ''flock.gathering.approved''"
definition ATTENDANCE_RECORDED :: string where "ATTENDANCE_RECORDED = ''flock.attendance.recorded''"
definition ATTENDANCE_REPORTED :: string where "ATTENDANCE_REPORTED = ''flock.attendance.reported''"
definition ATTENDANCE_BULK_RECORDED :: string where "ATTENDANCE_BULK_RECORDED = ''flock.attendance.bulk_recorded''"
definition ATTENDANCE_BATCH_REJECTED :: string where "ATTENDANCE_BATCH_REJECTED = ''flock.attendance.batch_rejected''"
definition ATTENDANCE_IMPORT_FAILED :: string where "ATTENDANCE_IMPORT_FAILED = ''flock.attendance.import_failed''"
definition ENGAGEMENT_SESSION_OPENED :: string where "ENGAGEMENT_SESSION_OPENED = ''flock.engagement.opened''"
definition ENGAGEMENT_SESSION_CLOSED :: string where "ENGAGEMENT_SESSION_CLOSED = ''flock.engagement.closed''"
definition ANNOUNCEMENT_SCHEDULED :: string where "ANNOUNCEMENT_SCHEDULED = ''flock.announcement.scheduled''"
definition ANNOUNCEMENT_PUBLISHED :: string where "ANNOUNCEMENT_PUBLISHED = ''flock.announcement.published''"
definition NOTIFICATION_SENT :: string where "NOTIFICATION_SENT = ''flock.notification.sent''"
definition INVITATION_SENT :: string where "INVITATION_SENT = ''flock.invitation.sent''"
definition INVITATION_ACCEPTED :: string where "INVITATION_ACCEPTED = ''flock.invitation.accepted''"
definition INVITATION_DECLINED :: string where "INVITATION_DECLINED = ''flock.invitation.declined''"

definition PUBSUB_CHANNEL_PREFIX :: string where "PUBSUB_CHANNEL_PREFIX = ''flock''"

definition pubsub_channel :: "string \<Rightarrow> string" where
  "pubsub_channel event = PUBSUB_CHANNEL_PREFIX @ '':'' @ event"

section \<open>The bus\<close>

record domain_event =
  dv_name :: string
  dv_payload :: pydict
  dv_scope :: pydict

text \<open>A handler answers the state it leaves and what it raised, if it raised.\<close>

record 's subscription =
  sb_handler :: "domain_event \<Rightarrow> 's \<Rightarrow> 's \<times> string option"
  sb_filter :: "(domain_event \<Rightarrow> bool) option"

record 's event_bus =
  eb_sink :: "domain_event \<Rightarrow> bool \<Rightarrow> string option \<Rightarrow> 's \<Rightarrow> 's \<times> string option"
  eb_subs :: "(string \<times> 's subscription list) list"

definition NullEventSink :: "domain_event \<Rightarrow> bool \<Rightarrow> string option \<Rightarrow> 's \<Rightarrow> 's \<times> string option" where
  "NullEventSink event realtime room st = (st, None)"

definition empty_bus :: "'s event_bus" where
  "empty_bus = \<lparr>eb_sink = NullEventSink, eb_subs = []\<rparr>"

definition install_sink :: "(domain_event \<Rightarrow> bool \<Rightarrow> string option \<Rightarrow> 's \<Rightarrow> 's \<times> string option)
    \<Rightarrow> 's event_bus \<Rightarrow> 's event_bus" where
  "install_sink sink bus = bus \<lparr>eb_sink := sink\<rparr>"

definition subscribe :: "string \<Rightarrow> (domain_event \<Rightarrow> 's \<Rightarrow> 's \<times> string option) \<Rightarrow> (domain_event \<Rightarrow> bool) option
    \<Rightarrow> 's event_bus \<Rightarrow> 's event_bus" where
  "subscribe event handler filter_fn bus =
    bus \<lparr>eb_subs := dict_push event \<lparr>sb_handler = handler, sb_filter = filter_fn\<rparr> (eb_subs bus)\<rparr>"

definition subscriptions :: "string \<Rightarrow> 's event_bus \<Rightarrow> 's subscription list" where
  "subscriptions event bus = dict_or [] (eb_subs bus) event"

text \<open>The loop over the subscribers; a raise ends it and the emit.\<close>

fun dispatch :: "'s subscription list \<Rightarrow> domain_event \<Rightarrow> 's \<Rightarrow> 's \<times> string option" where
  "dispatch [] event st = (st, None)"
| "dispatch (sub # subs) event st =
     (if (case sb_filter sub of None \<Rightarrow> False | Some f \<Rightarrow> \<not> f event) then dispatch subs event st
      else case sb_handler sub event st of
        (st1, Some e) \<Rightarrow> (st1, Some e)
      | (st1, None) \<Rightarrow> dispatch subs event st1)"

definition bus_emit :: "'s event_bus \<Rightarrow> string \<Rightarrow> pydict \<Rightarrow> pydict \<Rightarrow> bool \<Rightarrow> string option \<Rightarrow> 's
    \<Rightarrow> 's \<times> (string + domain_event)" where
  "bus_emit bus event payload scope realtime room st =
    (let dv = \<lparr>dv_name = event, dv_payload = payload, dv_scope = scope\<rparr> in
     case dispatch (subscriptions event bus) dv st of
       (st1, Some e) \<Rightarrow> (st1, Inl e)
     | (st1, None) \<Rightarrow> (fst (eb_sink bus dv realtime room st1), Inr dv))"

section \<open>The production sink\<close>

text \<open>What the browsers were sent, the outbox and the error log; and whether a push or an append
  raises now.\<close>

record push_message =
  pm_event :: string
  pm_room :: "string option"
  pm_message :: pydict

record push_world =
  pw_pushed :: "push_message list"
  pw_outbox :: "domain_event list"
  pw_log :: "string list"
  pw_push_fails :: "string option"
  pw_outbox_fails :: bool

definition publish_realtime :: "string \<Rightarrow> pydict \<Rightarrow> string option \<Rightarrow> push_world \<Rightarrow> push_world \<times> string option" where
  "publish_realtime event message room w =
    (case pw_push_fails w of Some e \<Rightarrow> (w, Some e)
     | None \<Rightarrow> (w \<lparr>pw_pushed := pw_pushed w @ [\<lparr>pm_event = event, pm_room = room, pm_message = message\<rparr>]\<rparr>, None))"

definition append_outbox :: "domain_event \<Rightarrow> push_world \<Rightarrow> push_world" where
  "append_outbox event w =
    (if pw_outbox_fails w then w \<lparr>pw_log := pw_log w @ [''flock_os.events outbox append failed: '' @ dv_name event]\<rparr>
     else w \<lparr>pw_outbox := pw_outbox w @ [event]\<rparr>)"

definition FrappeEventSink :: "domain_event \<Rightarrow> bool \<Rightarrow> string option \<Rightarrow> push_world \<Rightarrow> push_world \<times> string option" where
  "FrappeEventSink event realtime room w =
    (case (if realtime
           then publish_realtime (dv_name event) [(''name'', Py_Str (dv_name event)),
                  (''payload'', Py_Dict (dv_payload event)), (''scope'', Py_Dict (dv_scope event))] room w
           else (w, None)) of
       (w1, Some e) \<Rightarrow> (w1, Some e)
     | (w1, None) \<Rightarrow> (append_outbox event w1, None))"

section \<open>Documents\<close>

text \<open>\<open>_scope_from_doc\<close> over the three anchor fields of a document.\<close>

definition scope_from_doc :: "docname option \<Rightarrow> docname option \<Rightarrow> docname option \<Rightarrow> pydict" where
  "scope_from_doc branch grp org =
    (if truthy branch then [(''branch'', py_of_opt branch)] else []) @
    (if truthy grp then [(''group'', py_of_opt grp)] else []) @
    (if truthy org then [(''organization'', py_of_opt org)] else [])"

text \<open>The table of \<open>hooks.py\<close> and its dispatcher.\<close>

definition FLOCK_DOC_EVENTS :: "((string \<times> string) \<times> string) list" where
  "FLOCK_DOC_EVENTS =
    [((''Flock Branch'', ''after_insert''), BRANCH_CREATED),
     ((''Flock Group'', ''after_insert''), GROUP_CREATED),
     ((''Flock Group Member'', ''on_update''), GROUP_MEMBER_ADDED),
     ((''Flock Member'', ''after_insert''), MEMBER_CREATED),
     ((''Flock Gathering'', ''after_insert''), GATHERING_CREATED)]"

record event_doc =
  ed_doctype :: string
  ed_name :: docname
  ed_branch :: "docname option"
  ed_group :: "docname option"
  ed_organization :: "docname option"

definition on_doc_event :: "'s event_bus \<Rightarrow> event_doc \<Rightarrow> string \<Rightarrow> 's \<Rightarrow> 's \<times> (string + domain_event)" where
  "on_doc_event bus doc event_name st =
    bus_emit bus event_name [(''doctype'', Py_Str (ed_doctype doc)), (''name'', Py_Str (ed_name doc))]
      (scope_from_doc (ed_branch doc) (ed_group doc) (ed_organization doc)) True None st"

definition dispatch_flock_doc_event :: "'s event_bus \<Rightarrow> event_doc \<Rightarrow> string \<Rightarrow> 's \<Rightarrow> 's \<times> string option" where
  "dispatch_flock_doc_event bus doc hook st =
    (case map_of FLOCK_DOC_EVENTS (ed_doctype doc, hook) of None \<Rightarrow> (st, None)
     | Some event_name \<Rightarrow> (case on_doc_event bus doc event_name st of
         (st', Inl e) \<Rightarrow> (st', Some e) | (st', Inr _) \<Rightarrow> (st', None)))"

section \<open>Lemmas on the bus\<close>

lemma subscribed [simp]:
  "subscriptions event' (subscribe event handler f bus) = subscriptions event' bus @
     (if event' = event then [\<lparr>sb_handler = handler, sb_filter = f\<rparr>] else [])"
  "eb_sink (subscribe event handler f bus) = eb_sink bus"
  by (simp_all add: subscribe_def subscriptions_def)

lemma dispatch_append:
  "dispatch (xs @ ys) event st =
     (case dispatch xs event st of (st1, Some e) \<Rightarrow> (st1, Some e) | (st1, None) \<Rightarrow> dispatch ys event st1)"
  by (induction xs arbitrary: st) (auto split: prod.splits option.splits)

text \<open>An emit fails only when a subscriber raises; the sink never makes it fail.\<close>

lemma emit_result:
  "snd (bus_emit bus event payload scope realtime room st) =
     (case snd (dispatch (subscriptions event bus) \<lparr>dv_name = event, dv_payload = payload, dv_scope = scope\<rparr> st) of
        Some e \<Rightarrow> Inl e | None \<Rightarrow> Inr \<lparr>dv_name = event, dv_payload = payload, dv_scope = scope\<rparr>)"
  by (simp add: bus_emit_def Let_def split: prod.splits option.splits)

end
