(* ===== verification/Realtime.thy ===== *)
theory Realtime
  imports Events Permissions "HOL-Library.Word"
begin

text \<open>
  Model of \<open>flock_os/realtime.py\<close>: the names of the rooms of a gathering, the shard an attendee is
  assigned to, the projector which routes a domain event to rooms, and the scope gate of a join.

  A string is a byte string here, so its UTF-8 encoding is the string.  \<open>str(v)\<close> of a value that
  is no string is a parameter.
\<close>

unbundle bit_operations_syntax

section \<open>Rooms and shards\<close>

definition RT_ATTENDANCE_PRESENCE :: string where "RT_ATTENDANCE_PRESENCE = ''flock_os:attendance:presence''"
definition RT_ATTENDANCE_COUNT :: string where "RT_ATTENDANCE_COUNT = ''flock_os:attendance:count''"
definition RT_GAME_STATE :: string where "RT_GAME_STATE = ''flock_os:engagement:state''"
definition RT_NOTIFICATION :: string where "RT_NOTIFICATION = ''flock_os:notification''"

definition EVENT_ROOM_PREFIX :: string where "EVENT_ROOM_PREFIX = ''flock_os:event''"
definition BROADCAST_SEGMENT :: string where "BROADCAST_SEGMENT = ''broadcast''"
definition SHARD_SEGMENT :: string where "SHARD_SEGMENT = ''shard''"
definition DEFAULT_SHARD_COUNT :: nat where "DEFAULT_SHARD_COUNT = 10"

definition broadcast_channel :: "string \<Rightarrow> string" where
  "broadcast_channel event_id = EVENT_ROOM_PREFIX @ '':'' @ event_id @ '':'' @ BROADCAST_SEGMENT"

definition shard_channel :: "string \<Rightarrow> nat \<Rightarrow> string" where
  "shard_channel event_id shard = EVENT_ROOM_PREFIX @ '':'' @ event_id @ '':'' @ SHARD_SEGMENT @ '':'' @ digits (int shard)"

text \<open>\<open>zlib.crc32\<close>: the reflected polynomial \<open>0xEDB88320\<close>, bit by bit.\<close>

definition crc32_bit :: "32 word \<Rightarrow> 32 word" where
  "crc32_bit c = (if bit c 0 then drop_bit 1 c XOR 0xEDB88320 else drop_bit 1 c)"

definition crc32_byte :: "char \<Rightarrow> 32 word \<Rightarrow> 32 word" where
  "crc32_byte b c = (crc32_bit ^^ 8) (c XOR of_char b)"

definition crc32 :: "string \<Rightarrow> 32 word" where
  "crc32 s = NOT (fold crc32_byte s (NOT 0))"

text \<open>With no shard at all Python raises; the projector is built with ten.\<close>

definition shard_for :: "string \<Rightarrow> nat \<Rightarrow> nat" where
  "shard_for attendee_ref shard_count = unat (crc32 attendee_ref) mod shard_count"

definition shards_for :: "string list \<Rightarrow> nat \<Rightarrow> nat list" where
  "shards_for refs shard_count = sort (remdups (map (\<lambda>r. shard_for r shard_count) refs))"

definition all_shards :: "nat \<Rightarrow> nat list" where "all_shards shard_count = [0..<shard_count]"

section \<open>The projector\<close>

record realtime_emission =
  em_event :: string
  em_room :: string
  em_message :: pydict

definition gathering_key :: "domain_event \<Rightarrow> string \<Rightarrow> pyval" where
  "gathering_key event key = py_or (py_get (dv_payload event) key) (py_get (dv_scope event) key)"

definition gathering_id :: "(pyval \<Rightarrow> string) \<Rightarrow> domain_event \<Rightarrow> string option" where
  "gathering_id text event =
    (if py_true (gathering_key event ''gathering'') then Some (py_text text (gathering_key event ''gathering''))
     else if py_true (gathering_key event ''event'') then Some (py_text text (gathering_key event ''event''))
     else None)"

definition refs_of :: "(pyval \<Rightarrow> string) \<Rightarrow> pyval \<Rightarrow> string list" where
  "refs_of text v = (case v of Py_List vs \<Rightarrow> map (py_text text) (filter py_true vs) | _ \<Rightarrow> [])"

definition attendee_refs :: "(pyval \<Rightarrow> string) \<Rightarrow> domain_event \<Rightarrow> string list" where
  "attendee_refs text event =
    concat (map (\<lambda>key. refs_of text (py_get (dv_payload event) key))
      [''attendees'', ''members'', ''players'', ''attendee_refs''])"

text \<open>\<open>{**a, **b}\<close>.\<close>

definition dict_merge :: "pydict \<Rightarrow> pydict \<Rightarrow> pydict" where
  "dict_merge a b = fold (\<lambda>(k, v). AList.update k v) b a"

definition extra_payload :: "domain_event \<Rightarrow> pydict" where
  "extra_payload event = filter (\<lambda>(k, _). k \<notin>
     {''gathering'', ''event'', ''member'', ''attendee_ref'', ''count'', ''batch_id''}) (dv_payload event)"

definition presence_message :: "domain_event \<Rightarrow> int \<Rightarrow> pydict" where
  "presence_message event delta =
    [(''delta'', Py_Num (of_int delta)), (''source'', py_get_or (Py_Str ''reporting'') (dv_payload event) ''source'')]
    @ map (\<lambda>key. (key, py_get (dv_payload event) key))
        (filter (\<lambda>key. py_true (py_get (dv_payload event) key)) [''gathering'', ''branch'', ''group''])"

definition route_single_attendance :: "(pyval \<Rightarrow> string) \<Rightarrow> nat \<Rightarrow> domain_event \<Rightarrow> string + realtime_emission list" where
  "route_single_attendance text n event =
    (case gathering_id text event of None \<Rightarrow> Inr []
     | Some event_id \<Rightarrow>
       let v = py_or (py_get (dv_payload event) ''member'') (py_get (dv_payload event) ''attendee_ref'');
           member = (if py_true v then py_text text v else [])
       in Inr ((if member \<noteq> [] then [\<lparr>em_event = RT_ATTENDANCE_PRESENCE,
                   em_room = shard_channel event_id (shard_for member n),
                   em_message = dict_merge [(''gathering'', Py_Str event_id), (''member'', Py_Str member)]
                     (extra_payload event)\<rparr>] else [])
         @ [\<lparr>em_event = RT_ATTENDANCE_COUNT, em_room = broadcast_channel event_id,
              em_message = presence_message event 1\<rparr>]))"

definition route_bulk_attendance :: "(pyval \<Rightarrow> string) \<Rightarrow> nat \<Rightarrow> domain_event \<Rightarrow> string + realtime_emission list" where
  "route_bulk_attendance text n event =
    (case gathering_id text event of None \<Rightarrow> Inr []
     | Some event_id \<Rightarrow>
       res_bind (py_int (py_or (py_get_or (Py_Num 0) (dv_payload event) ''count'') (Py_Num 0))) (\<lambda>count.
         let refs = attendee_refs text event;
             target_shards = (if refs \<noteq> [] then shards_for refs n else all_shards n)
         in Inr (map (\<lambda>shard. \<lparr>em_event = RT_ATTENDANCE_PRESENCE, em_room = shard_channel event_id shard,
                  em_message = [(''gathering'', Py_Str event_id),
                    (''batch_id'', py_get (dv_payload event) ''batch_id'')]\<rparr>) target_shards
            @ [\<lparr>em_event = RT_ATTENDANCE_COUNT, em_room = broadcast_channel event_id,
                 em_message = presence_message event count\<rparr>])))"

definition route_game_lifecycle :: "(pyval \<Rightarrow> string) \<Rightarrow> nat \<Rightarrow> domain_event \<Rightarrow> string + realtime_emission list" where
  "route_game_lifecycle text n event =
    (case gathering_id text event of None \<Rightarrow> Inr []
     | Some event_id \<Rightarrow>
       let state = (if dv_name event = ENGAGEMENT_SESSION_OPENED then ''opened'' else ''closed'');
           message = dict_merge [(''gathering'', Py_Str event_id), (''state'', Py_Str state)] (extra_payload event)
       in Inr (map (\<lambda>shard. \<lparr>em_event = RT_GAME_STATE, em_room = shard_channel event_id shard, em_message = message\<rparr>)
                 (all_shards n)
            @ [\<lparr>em_event = RT_GAME_STATE, em_room = broadcast_channel event_id, em_message = message\<rparr>]))"

definition route_broadcast_only :: "string \<Rightarrow> (pyval \<Rightarrow> string) \<Rightarrow> nat \<Rightarrow> domain_event \<Rightarrow> string + realtime_emission list" where
  "route_broadcast_only realtime_event text n event =
    (case gathering_id text event of None \<Rightarrow> Inr []
     | Some event_id \<Rightarrow> Inr [\<lparr>em_event = realtime_event, em_room = broadcast_channel event_id,
         em_message = dict_merge [(''gathering'', Py_Str event_id)] (extra_payload event)\<rparr>])"

definition build_routes ::
  "(string \<times> ((pyval \<Rightarrow> string) \<Rightarrow> nat \<Rightarrow> domain_event \<Rightarrow> string + realtime_emission list)) list" where
  "build_routes =
    [(ATTENDANCE_RECORDED, route_single_attendance),
     (ATTENDANCE_BULK_RECORDED, route_bulk_attendance),
     (ENGAGEMENT_SESSION_OPENED, route_game_lifecycle),
     (ENGAGEMENT_SESSION_CLOSED, route_game_lifecycle),
     (NOTIFICATION_SENT, route_broadcast_only RT_NOTIFICATION),
     (ANNOUNCEMENT_SCHEDULED, route_broadcast_only RT_NOTIFICATION),
     (GATHERING_APPROVED, route_broadcast_only RT_NOTIFICATION)]"

definition project_emissions :: "(pyval \<Rightarrow> string) \<Rightarrow> nat \<Rightarrow> domain_event \<Rightarrow> string + realtime_emission list" where
  "project_emissions text n event =
    (case map_of build_routes (dv_name event) of None \<Rightarrow> Inr [] | Some route \<Rightarrow> route text n event)"

text \<open>\<open>project\<close>: every emission is published; a publish that raises is skipped.\<close>

fun publish_all :: "realtime_emission list \<Rightarrow> push_world \<Rightarrow> push_world" where
  "publish_all [] w = w"
| "publish_all (e # es) w =
     publish_all es (fst (publish_realtime (em_event e) (em_message e) (Some (em_room e)) w))"

definition project_handler :: "(pyval \<Rightarrow> string) \<Rightarrow> nat \<Rightarrow> domain_event \<Rightarrow> push_world \<Rightarrow> push_world \<times> string option" where
  "project_handler text n event w =
    (case project_emissions text n event of Inl e \<Rightarrow> (w, Some e) | Inr es \<Rightarrow> (publish_all es w, None))"

definition register_projector :: "(pyval \<Rightarrow> string) \<Rightarrow> nat \<Rightarrow> push_world event_bus \<Rightarrow> push_world event_bus" where
  "register_projector text n bus =
    fold (\<lambda>(name, _). subscribe name (project_handler text n) None) build_routes bus"

text \<open>The bus as \<open>hooks.py\<close> wires it at load.\<close>

definition wired_bus :: "(pyval \<Rightarrow> string) \<Rightarrow> push_world event_bus" where
  "wired_bus text = register_projector text DEFAULT_SHARD_COUNT (install_sink FrappeEventSink empty_bus)"

section \<open>The join gate\<close>

record event_room_ref =
  rr_event_id :: string
  rr_broadcast :: bool
  rr_shard :: "nat option"

text \<open>\<open>EVENT_ROOM_RE\<close>: the prefix, a non-empty event id without a line break, and one of the two
  endings, before which one final line break is allowed.  As each ending runs to the end of the
  name and holds no further one, the event id is the same whether the group is matched short or
  long.  Digits are the ASCII ones.\<close>

definition strip_suffix :: "string \<Rightarrow> string \<Rightarrow> string option" where
  "strip_suffix suf s = (if length suf \<le> length s \<and> drop (length s - length suf) s = suf
     then Some (take (length s - length suf) s) else None)"

definition strip_prefix :: "string \<Rightarrow> string \<Rightarrow> string option" where
  "strip_prefix pre s = (if take (length pre) s = pre then Some (drop (length pre) s) else None)"

text \<open>The trailing digits of a name, and the name before them.\<close>

definition split_digits :: "string \<Rightarrow> string \<times> string" where
  "split_digits s = (let ds = takeWhile (\<lambda>c. all_digits [c]) (rev s)
     in (take (length s - length ds) s, rev ds))"

definition event_id_match :: "string option \<Rightarrow> string option" where
  "event_id_match x = (if truthy x \<and> CHR 0x0A \<notin> set (the x) then x else None)"

definition chomp :: "string \<Rightarrow> string" where
  "chomp s = (if s \<noteq> [] \<and> last s = CHR 0x0A then butlast s else s)"

definition parse_event_room :: "string \<Rightarrow> event_room_ref option" where
  "parse_event_room room =
    (case strip_prefix (EVENT_ROOM_PREFIX @ '':'') (chomp room) of None \<Rightarrow> None
     | Some rest \<Rightarrow>
       (case event_id_match (strip_suffix ('':'' @ BROADCAST_SEGMENT) rest) of
          Some event_id \<Rightarrow> Some \<lparr>rr_event_id = event_id, rr_broadcast = True, rr_shard = None\<rparr>
        | None \<Rightarrow>
          let (before, ds) = split_digits rest in
          (case event_id_match (strip_suffix ('':'' @ SHARD_SEGMENT @ '':'') before) of
             Some event_id \<Rightarrow> (if ds = [] then None
               else Some \<lparr>rr_event_id = event_id, rr_broadcast = False, rr_shard = Some (nat (digits_value 0 ds))\<rparr>)
           | None \<Rightarrow> None)))"

text \<open>The resolver of a gathering's branch; a row with a null branch resolves to none.\<close>

definition branch_for_gathering :: "(docname \<times> docname option) list \<Rightarrow> docname \<Rightarrow> docname option" where
  "branch_for_gathering rows gathering =
    (if gathering = [] then None else case map_of rows gathering of None \<Rightarrow> None | Some b \<Rightarrow> b)"

definition event_room_join_allowed ::
  "permission_gateway \<Rightarrow> (docname \<Rightarrow> docname option) \<Rightarrow> string \<Rightarrow> string \<Rightarrow> bool" where
  "event_room_join_allowed gw resolver room user =
    (case parse_event_room room of None \<Rightarrow> False
     | Some ref \<Rightarrow>
       (case resolver (rr_event_id ref) of None \<Rightarrow> False
        | Some branch \<Rightarrow> can_access_branch (Some branch) (pg_branch_permissions gw user) (pg_user_roles gw user)))"

definition can_join_event_room :: "permission_gateway \<Rightarrow> (docname \<times> docname option) list \<Rightarrow> string \<Rightarrow> string \<Rightarrow> bool" where
  "can_join_event_room gw rows user room = event_room_join_allowed gw (branch_for_gathering rows) room user"


end
