(* ===== verification/Live_Feed.thy ===== *)
theory Live_Feed
  imports Realtime Reporting
begin

text \<open>
  What the clients of a gathering's rooms see: the path of an attendance event from the write
  of a batch (\<open>flock_os/reporting.py\<close>) over the bus (\<open>flock_os/events.py\<close>) and the projector to
  the rooms (\<open>flock_os/realtime.py\<close>), and who may join these rooms.
\<close>

section \<open>Events of the write path on the bus\<close>

definition bulk_event :: "attendance_event \<Rightarrow> string \<times> pydict" where
  "bulk_event ev = (case ev of
     Bulk_Recorded gathering count batch_id branch \<Rightarrow>
       (ATTENDANCE_BULK_RECORDED, [(''gathering'', Py_Str gathering), (''count'', Py_Num (of_nat count)),
          (''batch_id'', Py_Str batch_id), (''branch'', Py_Str branch)])
   | Batch_Rejected scope batch_id rejected out_of_scope \<Rightarrow>
       (ATTENDANCE_BATCH_REJECTED, [(''scope'', Py_Str scope), (''batch_id'', Py_Str batch_id),
          (''rejected'', Py_Num (of_nat rejected)), (''out_of_scope'', Py_Num (of_nat out_of_scope)),
          (''reason'', Py_Str ''out_of_scope'')]))"

text \<open>\<open>FrappeBulkAttendanceGateway.emit\<close> on the bus wired by \<open>hooks.py\<close>.\<close>

definition gateway_emit :: "(pyval \<Rightarrow> string) \<Rightarrow> attendance_event \<Rightarrow> push_world \<Rightarrow> push_world" where
  "gateway_emit text ev w =
    (let (name, payload) = bulk_event ev in fst (bus_emit (wired_bus text) name payload [] True None w))"

text \<open>What a client of the broadcast room of a gathering adds up from the count ticks.\<close>

definition is_count_tick :: "string \<Rightarrow> push_message \<Rightarrow> bool" where
  "is_count_tick g m \<longleftrightarrow> pm_event m = RT_ATTENDANCE_COUNT \<and> pm_room m = Some (broadcast_channel g)"

definition tick_delta :: "push_message \<Rightarrow> rat" where
  "tick_delta m = (case py_get (pm_message m) ''delta'' of Py_Num d \<Rightarrow> d | _ \<Rightarrow> 0)"

definition feed_count :: "string \<Rightarrow> push_message list \<Rightarrow> rat" where
  "feed_count g ms = sum_list (map tick_delta (filter (is_count_tick g) ms))"

lemma feed_count_append [simp]: "feed_count g (xs @ ys) = feed_count g xs + feed_count g ys"
  by (simp add: feed_count_def)

lemma feed_count_Nil [simp]: "feed_count g [] = 0"
  by (simp add: feed_count_def)

section \<open>Names\<close>

lemmas event_names = ATTENDANCE_RECORDED_def ATTENDANCE_BULK_RECORDED_def ENGAGEMENT_SESSION_OPENED_def
  ENGAGEMENT_SESSION_CLOSED_def NOTIFICATION_SENT_def ANNOUNCEMENT_SCHEDULED_def GATHERING_APPROVED_def
  ATTENDANCE_BATCH_REJECTED_def

lemmas realtime_names = RT_ATTENDANCE_PRESENCE_def RT_ATTENDANCE_COUNT_def RT_GAME_STATE_def RT_NOTIFICATION_def

lemma wired_subscriptions:
  "subscriptions name (wired_bus text) =
     (if name \<in> fst ` set build_routes
      then [\<lparr>sb_handler = project_handler text DEFAULT_SHARD_COUNT, sb_filter = None\<rparr>] else [])"
proof -
  have start: "subscriptions name (install_sink s empty_bus) = []" for s
    by (simp add: subscriptions_def install_sink_def empty_bus_def)
  have fold: "subscriptions name (fold (\<lambda>(n, _). subscribe n h None) rs bus) =
      subscriptions name bus @ replicate (count_list (map fst rs) name) \<lparr>sb_handler = h, sb_filter = None\<rparr>"
    for rs :: "(string \<times> 'r) list" and h :: "domain_event \<Rightarrow> push_world \<Rightarrow> push_world \<times> string option" and bus
    by (induction rs arbitrary: bus) (auto simp: replicate_append_same)
  have once: "distinct xs \<Longrightarrow> count_list xs name = (if name \<in> set xs then 1 else 0)" for xs
    by (induction xs) auto
  have "distinct (map fst build_routes)" by (simp add: build_routes_def event_names)
  from once [OF this] show ?thesis
    unfolding wired_bus_def register_projector_def fold start by simp
qed

lemma wired_sink [simp]: "eb_sink (wired_bus text) = FrappeEventSink"
proof -
  have keep: "eb_sink (fold (\<lambda>(n, _). subscribe n h None) rs bus) = eb_sink bus"
    for rs :: "(string \<times> 'r) list" and h :: "domain_event \<Rightarrow> push_world \<Rightarrow> push_world \<times> string option" and bus
    by (induction rs arbitrary: bus) auto
  show ?thesis unfolding wired_bus_def register_projector_def keep by (simp add: install_sink_def)
qed

lemma broadcast_channel_eq [simp]: "broadcast_channel g = broadcast_channel h \<longleftrightarrow> g = h"
  by (simp add: broadcast_channel_def)

section \<open>What an event adds to the feed\<close>

abbreviation message_of :: "realtime_emission \<Rightarrow> push_message" where
  "message_of e \<equiv> \<lparr>pm_event = em_event e, pm_room = Some (em_room e), pm_message = em_message e\<rparr>"

lemma publish_all_ok:
  "pw_push_fails w = None \<Longrightarrow> publish_all es w = w \<lparr>pw_pushed := pw_pushed w @ map message_of es\<rparr>"
  by (induction es arbitrary: w) (simp_all add: publish_realtime_def)

lemma feed_of_presence [simp]: "em_event e \<noteq> RT_ATTENDANCE_COUNT \<Longrightarrow> feed_count g (message_of e # ms) = feed_count g ms"
  by (simp add: feed_count_def is_count_tick_def)

lemma feed_all_presence:
  "\<forall>e \<in> set es. em_event e \<noteq> RT_ATTENDANCE_COUNT \<Longrightarrow> feed_count g (map message_of es) = 0"
  by (induction es) auto

lemma sink_push_ok:
  "pw_push_fails w = None \<Longrightarrow> dv_name ev \<noteq> RT_ATTENDANCE_COUNT \<Longrightarrow>
   pw_push_fails (fst (FrappeEventSink ev True None w)) = None
   \<and> feed_count g (pw_pushed (fst (FrappeEventSink ev True None w))) = feed_count g (pw_pushed w)"
  by (simp add: FrappeEventSink_def publish_realtime_def append_outbox_def feed_count_def is_count_tick_def)

definition recorded_for :: "docname \<Rightarrow> attendance_event \<Rightarrow> nat" where
  "recorded_for g ev = (case ev of Bulk_Recorded g' n _ _ \<Rightarrow> if g' = g then n else 0 | _ \<Rightarrow> 0)"

lemma gateway_emit_feed:
  assumes ok: "pw_push_fails w = None" and g: "g \<noteq> []"
  shows "pw_push_fails (gateway_emit text ev w) = None
    \<and> feed_count g (pw_pushed (gateway_emit text ev w)) = feed_count g (pw_pushed w) + of_nat (recorded_for g ev)"
proof (cases ev)
  case (Batch_Rejected scope bid n out)
  have "ATTENDANCE_BATCH_REJECTED \<notin> fst ` set build_routes" by (simp add: build_routes_def event_names)
  then show ?thesis
    using sink_push_ok [OF ok] Batch_Rejected
    by (simp add: gateway_emit_def bulk_event_def bus_emit_def wired_subscriptions Let_def
      event_names realtime_names recorded_for_def)
next
  case (Bulk_Recorded g' n bid branch)
  let ?dv = "\<lparr>dv_name = ATTENDANCE_BULK_RECORDED, dv_payload = snd (bulk_event ev), dv_scope = []\<rparr>"
  define es where "es = (case project_emissions text DEFAULT_SHARD_COUNT ?dv of Inr es \<Rightarrow> es | _ \<Rightarrow> [])"
  have route: "map_of build_routes ATTENDANCE_BULK_RECORDED = Some route_bulk_attendance"
    by (simp add: build_routes_def event_names)
  then have in_routes: "ATTENDANCE_BULK_RECORDED \<in> fst ` set build_routes"
    by (metis domI dom_map_of_conv_image_fst)
  have es: "project_emissions text DEFAULT_SHARD_COUNT ?dv = Inr es
    \<and> feed_count g (map message_of es) = of_nat (recorded_for g ev)"
  proof (cases "g' = []")
    case True
    then show ?thesis using Bulk_Recorded g
      by (simp add: es_def project_emissions_def route route_bulk_attendance_def gathering_id_def gathering_key_def
        bulk_event_def py_or_def py_get_or_def recorded_for_def)
  next
    case False
    let ?p = "map (\<lambda>shard. \<lparr>em_event = RT_ATTENDANCE_PRESENCE, em_room = shard_channel g' shard,
        em_message = [(''gathering'', Py_Str g'), (''batch_id'', Py_Str bid)]\<rparr>) (all_shards DEFAULT_SHARD_COUNT)"
    let ?t = "\<lparr>em_event = RT_ATTENDANCE_COUNT, em_room = broadcast_channel g', em_message = presence_message ?dv (int n)\<rparr>"
    have "project_emissions text DEFAULT_SHARD_COUNT ?dv = Inr (?p @ [?t])"
      using False Bulk_Recorded
      by (simp add: project_emissions_def route route_bulk_attendance_def gathering_id_def gathering_key_def
        bulk_event_def py_or_def py_get_or_def py_text_def py_int_def attendee_refs_def refs_of_def Let_def)
    moreover have "feed_count g (map message_of ?p) = 0"
      by (rule feed_all_presence) (simp add: realtime_names)
    moreover have "feed_count g [message_of ?t] = of_nat (recorded_for g ev)"
      using Bulk_Recorded
      by (simp add: feed_count_def is_count_tick_def tick_delta_def presence_message_def py_get_or_def recorded_for_def)
    ultimately show ?thesis by (simp add: es_def comp_def)
  qed
  have "gateway_emit text ev w = fst (FrappeEventSink ?dv True None (publish_all es w))"
    using Bulk_Recorded in_routes es
    by (simp add: gateway_emit_def bulk_event_def bus_emit_def wired_subscriptions Let_def project_handler_def)
  moreover have "pw_push_fails (publish_all es w) = None"
    "feed_count g (pw_pushed (publish_all es w)) = feed_count g (pw_pushed w) + of_nat (recorded_for g ev)"
    using es by (simp_all add: publish_all_ok ok)
  ultimately show ?thesis
    using sink_push_ok [of "publish_all es w" ?dv g] by (simp add: event_names realtime_names)
qed

lemma emits_feed:
  assumes "pw_push_fails w = None" and g: "g \<noteq> []"
  shows "feed_count g (pw_pushed (fold (gateway_emit text) evs w)) =
    feed_count g (pw_pushed w) + of_nat (sum_list (map (recorded_for g) evs))"
  using assms(1)
proof (induction evs arbitrary: w)
  case (Cons ev evs)
  from gateway_emit_feed [OF Cons.prems g] Cons.IH [of "gateway_emit text ev w"] show ?case by simp
qed simp

section \<open>What the write path records\<close>

definition rows_of_event :: "docname \<Rightarrow> attendance_item list \<Rightarrow> attendance_item list" where
  "rows_of_event g rows = filter (\<lambda>r. ai_event r = g) rows"

definition announced :: "docname \<Rightarrow> attendance_tables \<Rightarrow> bool" where
  "announced g st \<longleftrightarrow> sum_list (map (recorded_for g) (at_events st)) = length (rows_of_event g (at_rows st))"

lemma recorded_by_batch:
  "sum_list (map (recorded_for g) (map (\<lambda>(e, n). Bulk_Recorded e n bid scope) (event_counts new)))
    = length (rows_of_event g new)"
proof -
  have "sum_list (map (recorded_for g) (map (\<lambda>(e, n). Bulk_Recorded e n bid scope) ps)) =
      sum_list (map snd (filter (\<lambda>p. fst p = g) ps))" for ps
    by (induction ps) (auto simp: recorded_for_def)
  moreover have "count_list (map ai_event new) g = length (rows_of_event g new)"
    by (induction new) (auto simp: rows_of_event_def)
  ultimately show ?thesis by (simp add: event_counts_sum)
qed

lemma emits_append: "at_events (fold (bg_emit FrappeBulkAttendanceGateway) evs st) = at_events st @ evs"
  by (induction evs arbitrary: st) (simp_all add: FrappeBulkAttendanceGateway_def)

lemma increments_keep_events:
  "at_events (fold (\<lambda>(e, n). bg_increment_aggregate FrappeBulkAttendanceGateway scope e n) ps st) = at_events st"
  by (induction ps arbitrary: st) (auto simp: FrappeBulkAttendanceGateway_def)

lemma write_batch_events:
  assumes "write_batch FrappeBulkAttendanceGateway items scope bid st = Inr ((ins, ded, evs), st1)"
  shows "at_events st1 = at_events st \<and> (\<exists>new. at_rows st1 = at_rows st @ map stored_item new
    \<and> evs = map (\<lambda>(e, n). Bulk_Recorded e n bid scope) (event_counts new))"
proof -
  let ?gw = FrappeBulkAttendanceGateway
  define new where "new = filter (\<lambda>i. idempotency_key i \<in> bg_filter_unseen ?gw (map idempotency_key items) st) items"
  show ?thesis
  proof (cases "new = []")
    case True
    then show ?thesis using assms by (auto simp: write_batch_def Let_def new_def event_counts_def intro: exI [of _ "[]"])
  next
    case False
    then obtain n st' where ins: "bg_bulk_insert ?gw new st = Inr (n, st')"
      and st1: "st1 = fold (\<lambda>(e, n). bg_increment_aggregate ?gw scope e n) (event_counts new) st'"
      and evs: "evs = map (\<lambda>(e, n). Bulk_Recorded e n bid scope) (event_counts new)"
      using assms by (auto simp: write_batch_def Let_def new_def [symmetric] res_bind_Inr_iff)
    have "at_rows st' = at_rows st @ map stored_item new \<and> at_events st' = at_events st"
      using ins False by (auto simp: FrappeBulkAttendanceGateway_def db_bulk_insert_def res_bind_Inr_iff table_insert_eq
        split: if_splits)
    then show ?thesis using st1 evs by (auto simp: db_increments_keep_rows increments_keep_events)
  qed
qed

lemma submit_announced:
  assumes st: "announced g st" and s: "submit FrappeBulkAttendanceGateway items scope bid st = (st', r)"
  shows "announced g st'"
proof (cases "\<exists>i \<in> set items. ai_branch i \<noteq> scope")
  case True
  then show ?thesis using s st
    by (auto simp: submit_def reject_batch_def Let_def announced_def recorded_for_def FrappeBulkAttendanceGateway_def)
next
  case False
  let ?gw = FrappeBulkAttendanceGateway
  let ?st0 = "bg_seed_aggregate ?gw scope (dedup (map ai_event items)) st"
  have st0: "at_rows ?st0 = at_rows st" "at_events ?st0 = at_events st"
    by (simp_all add: FrappeBulkAttendanceGateway_def)
  show ?thesis
  proof (cases "write_batch ?gw items scope bid ?st0")
    case (Inl e)
    then have "st' = ?st0" using s False by (simp add: submit_def)
    then show ?thesis using st st0 by (simp add: announced_def)
  next
    case (Inr p)
    obtain ins ded evs st1 where p: "p = ((ins, ded, evs), st1)" by (cases p) auto
    from write_batch_events [OF Inr [unfolded p]] obtain new where
      w: "at_events st1 = at_events st" "at_rows st1 = at_rows st @ map stored_item new"
        "evs = map (\<lambda>(e, n). Bulk_Recorded e n bid scope) (event_counts new)"
      using st0 by auto
    have "st' = fold (bg_emit ?gw) evs st1" using s False Inr p by (auto simp: submit_def)
    moreover have "length (rows_of_event g (map stored_item new)) = length (rows_of_event g new)"
      by (induction new) (auto simp: rows_of_event_def stored_item_def)
    ultimately show ?thesis
      using st w recorded_by_batch [of g bid scope new]
      by (simp add: announced_def emits_append db_emits_keep_rows) (simp add: rows_of_event_def)
  qed
qed

lemma submissions_announced: "submissions st st' \<Longrightarrow> announced g st \<Longrightarrow> announced g st'"
  by (induction rule: submissions.induct) (auto dest: submit_announced)

section \<open>Rooms\<close>

lemma digit_characters: "all_digits s \<longleftrightarrow> s \<noteq> [] \<and> (\<forall>c \<in> set s. all_digits [c])"
  by (simp add: all_digits_def)

lemma digits_nonempty [simp]: "digits n \<noteq> []"
  by (subst digits.simps) simp

lemma all_digits_digits [simp]: "0 \<le> n \<Longrightarrow> all_digits (digits n)"
  using digits_chars by (auto simp: all_digits_def)

lemma split_digits_eq:
  assumes "s = [] \<or> \<not> all_digits [last s]" "\<forall>c \<in> set ds. all_digits [c]"
  shows "split_digits (s @ ds) = (s, ds)"
proof -
  have "takeWhile (\<lambda>c. all_digits [c]) (rev s) = []"
    using assms(1) by (cases s rule: rev_cases) auto
  then have "takeWhile (\<lambda>c. all_digits [c]) (rev (s @ ds)) = rev ds"
    using assms(2) by (simp add: takeWhile_append)
  then show ?thesis by (simp only: split_digits_def Let_def) simp
qed

lemma strip_prefix_append [simp]: "strip_prefix pre (pre @ s) = Some s"
  by (simp add: strip_prefix_def)

lemma strip_suffix_append [simp]: "strip_suffix suf (s @ suf) = Some s"
  by (simp add: strip_suffix_def)

lemma strip_suffix_last: "suf \<noteq> [] \<Longrightarrow> s \<noteq> [] \<Longrightarrow> last suf \<noteq> last s \<Longrightarrow> strip_suffix suf s = None"
  by (auto simp: strip_suffix_def) (metis last_drop drop_eq_Nil2 linorder_not_le)

definition event_rooms :: "string \<Rightarrow> string set" where
  "event_rooms e = insert (broadcast_channel e) (range (shard_channel e))"

definition room_name_ok :: "string \<Rightarrow> bool" where
  "room_name_ok e \<longleftrightarrow> e \<noteq> [] \<and> CHR 0x0A \<notin> set e"

text \<open>Every spelling the pattern accepts for a room of a gathering: an ending is the broadcast segment
  or the shard segment with a number of any digits, and one line feed may follow.\<close>

definition room_ending :: "string \<Rightarrow> bool" where
  "room_ending t \<longleftrightarrow> t = BROADCAST_SEGMENT \<or> (\<exists>ds. all_digits ds \<and> t = SHARD_SEGMENT @ '':'' @ ds)"

definition spells_room :: "string \<Rightarrow> string \<Rightarrow> bool" where
  "spells_room e room \<longleftrightarrow> (\<exists>t nl. room_ending t \<and> nl \<in> {[], [CHR 0x0A]}
     \<and> room = EVENT_ROOM_PREFIX @ '':'' @ e @ '':'' @ t @ nl)"

lemma ending_last:
  assumes "room_ending t"
  shows "t \<noteq> []" "last t \<noteq> CHR 0x0A"
  using assms by (auto simp: room_ending_def BROADCAST_SEGMENT_def all_digits_def dest: bspec [OF _ last_in_set])

lemma chomp_ending:
  assumes "room_ending t" "nl \<in> {[], [CHR 0x0A]}"
  shows "chomp (EVENT_ROOM_PREFIX @ '':'' @ e @ '':'' @ t @ nl) = (EVENT_ROOM_PREFIX @ '':'') @ e @ '':'' @ t"
  using assms(2) ending_last [OF assms(1)] by (auto simp: chomp_def butlast_append)

lemma parse_spelled:
  assumes e: "room_name_ok e" and t: "room_ending t" and nl: "nl \<in> {[], [CHR 0x0A]}"
  shows "parse_event_room (EVENT_ROOM_PREFIX @ '':'' @ e @ '':'' @ t @ nl) =
    Some (if t = BROADCAST_SEGMENT then \<lparr>rr_event_id = e, rr_broadcast = True, rr_shard = None\<rparr>
      else \<lparr>rr_event_id = e, rr_broadcast = False,
        rr_shard = Some (nat (digits_value 0 (drop (length (SHARD_SEGMENT @ '':'')) t)))\<rparr>)"
proof (cases "t = BROADCAST_SEGMENT")
  case True
  then have "strip_suffix ('':'' @ BROADCAST_SEGMENT) (e @ '':'' @ t) = Some e" by (simp only: strip_suffix_append)
  then show ?thesis using e True unfolding parse_event_room_def chomp_ending [OF t nl]
    by (simp only: strip_prefix_append option.case) (simp add: event_id_match_def room_name_ok_def)
next
  case False
  then obtain ds where ds: "all_digits ds" "t = SHARD_SEGMENT @ '':'' @ ds" using t by (auto simp: room_ending_def)
  let ?before = "e @ '':'' @ SHARD_SEGMENT @ '':''"
  have rest: "e @ '':'' @ t = ?before @ ds" by (simp add: ds(2))
  have nd: "ds \<noteq> []" and lt: "last ds \<noteq> CHR ''t''"
    using ds(1) by (auto simp: all_digits_def dest: bspec [OF _ last_in_set])
  have "strip_suffix ('':'' @ BROADCAST_SEGMENT) (?before @ ds) = None"
    using nd lt by (intro strip_suffix_last) (simp_all add: BROADCAST_SEGMENT_def)
  moreover have "split_digits (?before @ ds) = (?before, ds)"
    by (rule split_digits_eq) (use ds(1) in \<open>auto simp: all_digits_def\<close>)
  moreover have "drop (length (SHARD_SEGMENT @ '':'')) t = ds" by (simp add: ds(2))
  ultimately show ?thesis using e nd False unfolding parse_event_room_def chomp_ending [OF t nl] rest
    by (simp only: strip_prefix_append strip_suffix_append option.case Let_def prod.case)
      (simp add: event_id_match_def room_name_ok_def)
qed

lemma parse_broadcast:
  assumes e: "room_name_ok e"
  shows "parse_event_room (broadcast_channel e) = Some \<lparr>rr_event_id = e, rr_broadcast = True, rr_shard = None\<rparr>"
  using parse_spelled [OF e, of BROADCAST_SEGMENT "[]"] by (simp add: broadcast_channel_def room_ending_def)

lemma parse_shard:
  assumes e: "room_name_ok e"
  shows "parse_event_room (shard_channel e k) = Some \<lparr>rr_event_id = e, rr_broadcast = False, rr_shard = Some k\<rparr>"
proof -
  let ?t = "SHARD_SEGMENT @ '':'' @ digits (int k)"
  have t: "room_ending ?t" by (auto simp: room_ending_def)
  have "?t \<noteq> BROADCAST_SEGMENT" by (simp add: SHARD_SEGMENT_def BROADCAST_SEGMENT_def)
  moreover have "shard_channel e k = EVENT_ROOM_PREFIX @ '':'' @ e @ '':'' @ ?t @ []" by (simp add: shard_channel_def)
  ultimately show ?thesis using parse_spelled [OF e t, of "[]"] by (simp add: digits_value_digits del: append_assoc)
qed

lemma strip_prefix_Some: "strip_prefix pre s = Some r \<Longrightarrow> s = pre @ r"
  by (auto simp: strip_prefix_def split: if_splits) (metis append_take_drop_id)

lemma strip_suffix_Some: "strip_suffix suf s = Some r \<Longrightarrow> s = r @ suf"
  by (auto simp: strip_suffix_def split: if_splits) (metis append_take_drop_id)

lemma split_digits_append: "split_digits s = (before, ds) \<Longrightarrow> s = before @ ds"
proof -
  let ?t = "takeWhile (\<lambda>c. all_digits [c]) (rev s)"
  have "s = rev (dropWhile (\<lambda>c. all_digits [c]) (rev s)) @ rev ?t"
    by (metis rev_append rev_rev_ident takeWhile_dropWhile_id)
  moreover from this have "take (length s - length ?t) s = rev (dropWhile (\<lambda>c. all_digits [c]) (rev s))"
    by (metis add_diff_cancel_right' append_eq_conv_conj length_append length_rev)
  moreover assume "split_digits s = (before, ds)"
  ultimately show ?thesis by (simp add: split_digits_def Let_def)
qed

text \<open>Whatever parses is a spelling of a room of the gathering it is parsed to.\<close>

lemma split_digits_digits: "split_digits s = (before, ds) \<Longrightarrow> ds \<noteq> [] \<Longrightarrow> all_digits ds"
  unfolding digit_characters [of ds] by (auto simp: split_digits_def Let_def dest: set_takeWhileD)

lemma parse_spells:
  assumes "parse_event_room room = Some ref"
  shows "room_name_ok (rr_event_id ref) \<and> spells_room (rr_event_id ref) room"
proof -
  obtain rest where rest: "strip_prefix (EVENT_ROOM_PREFIX @ '':'') (chomp room) = Some rest"
    using assms by (auto simp: parse_event_room_def split: option.splits)
  have "\<exists>nl. nl \<in> {[], [CHR 0x0A]} \<and> room = chomp room @ nl"
    by (cases room rule: rev_cases) (auto simp: chomp_def)
  then obtain nl where nl: "nl \<in> {[], [CHR 0x0A]}" and room: "room = EVENT_ROOM_PREFIX @ '':'' @ rest @ nl"
    using strip_prefix_Some [OF rest] by auto
  obtain before ds where sd: "split_digits rest = (before, ds)" by (cases "split_digits rest")
  have match: "event_id_match x = Some e \<Longrightarrow> x = Some e \<and> room_name_ok e" for x e
    by (cases x) (auto simp: event_id_match_def room_name_ok_def split: if_splits)
  have "room_name_ok (rr_event_id ref) \<and> (strip_suffix ('':'' @ BROADCAST_SEGMENT) rest = Some (rr_event_id ref)
      \<or> ds \<noteq> [] \<and> strip_suffix ('':'' @ SHARD_SEGMENT @ '':'') before = Some (rr_event_id ref))"
    using assms by (auto simp: parse_event_room_def rest sd split: option.splits if_splits dest!: match)
  moreover from this have "\<exists>t. room_ending t \<and> rest = rr_event_id ref @ '':'' @ t"
    using split_digits_append [OF sd] split_digits_digits [OF sd]
    by (auto simp: room_ending_def dest!: strip_suffix_Some)
  ultimately show ?thesis using room nl unfolding spells_room_def by (metis append_assoc)
qed

lemma spelled_parses:
  assumes "room_name_ok e" "spells_room e room"
  shows "\<exists>ref. parse_event_room room = Some ref \<and> rr_event_id ref = e"
  using assms parse_spelled by (fastforce simp: spells_room_def)

lemma spellsI: "room_ending t \<Longrightarrow> spells_room e (EVENT_ROOM_PREFIX @ '':'' @ e @ '':'' @ t)"
  unfolding spells_room_def by (intro exI [of _ t] exI [of _ "[]"]) simp

lemma rooms_spelled:
  assumes "room \<in> event_rooms e"
  shows "spells_room e room"
proof -
  have "spells_room e (broadcast_channel e)"
    using spellsI [of BROADCAST_SEGMENT e] by (simp add: room_ending_def broadcast_channel_def)
  moreover have "spells_room e (shard_channel e k)" for k
  proof -
    have "room_ending (SHARD_SEGMENT @ '':'' @ digits (int k))" by (auto simp: room_ending_def)
    from spellsI [OF this, of e] show ?thesis by (simp add: shard_channel_def)
  qed
  ultimately show ?thesis using assms by (auto simp: event_rooms_def)
qed

text \<open>The gate over the parsed gathering.\<close>

definition branch_open_to :: "permission_gateway \<Rightarrow> string \<Rightarrow> docname \<Rightarrow> bool" where
  "branch_open_to gw user b \<longleftrightarrow>
     pg_user_roles gw user \<inter> GLOBAL_BRANCH_ROLES \<noteq> {} \<or> b = [] \<or> b \<in> set (pg_branch_permissions gw user)"

lemma parsed_gate:
  assumes "parse_event_room room = Some ref" "rr_event_id ref \<noteq> []"
  shows "can_join_event_room gw rows user room \<longleftrightarrow>
    (\<exists>b. map_of rows (rr_event_id ref) = Some (Some b) \<and> branch_open_to gw user b)"
  using assms
  by (auto simp: can_join_event_room_def event_room_join_allowed_def branch_for_gathering_def can_access_branch_def
    branch_open_to_def split: option.splits)

section \<open>Fan-out\<close>

lemma shard_channel_eq [simp]: "shard_channel g k = shard_channel g l \<longleftrightarrow> k = l"
  by (auto simp: shard_channel_def digits_inject)

lemma shard_not_broadcast [simp]: "shard_channel g k \<noteq> broadcast_channel g" "broadcast_channel g \<noteq> shard_channel g k"
  by (simp_all add: shard_channel_def broadcast_channel_def SHARD_SEGMENT_def BROADCAST_SEGMENT_def)

abbreviation told :: "string \<Rightarrow> realtime_emission list \<Rightarrow> nat" where
  "told room es \<equiv> length (filter (\<lambda>em. em_room em = room) es)"

lemma told_shards:
  "distinct ks \<Longrightarrow> told (shard_channel g k) (map (\<lambda>s. \<lparr>em_event = x, em_room = shard_channel g s, em_message = m s\<rparr>) ks) =
     (if k \<in> set ks then 1 else 0)"
  by (induction ks) auto

lemma told_broadcast:
  "told (broadcast_channel g) (map (\<lambda>s. \<lparr>em_event = x, em_room = shard_channel g s, em_message = m s\<rparr>) ks) = 0"
  by (induction ks) auto

lemma shard_for_bound [simp]: "0 < n \<Longrightarrow> shard_for a n < n"
  by (simp add: shard_for_def)

lemma shards_for_set [simp]: "set (shards_for refs n) = (\<lambda>r. shard_for r n) ` set refs" "distinct (shards_for refs n)"
  by (simp_all add: shards_for_def)

definition fans_out :: "domain_event \<Rightarrow> bool" where
  "fans_out ev \<longleftrightarrow> dv_name ev \<in> {ATTENDANCE_BULK_RECORDED, ENGAGEMENT_SESSION_OPENED, ENGAGEMENT_SESSION_CLOSED}"

definition addresses :: "(pyval \<Rightarrow> string) \<Rightarrow> domain_event \<Rightarrow> string \<Rightarrow> bool" where
  "addresses text ev a \<longleftrightarrow> dv_name ev = ATTENDANCE_BULK_RECORDED \<longrightarrow>
     attendee_refs text ev = [] \<or> a \<in> set (attendee_refs text ev)"

lemma fan_out_shape:
  assumes "project_emissions text n ev = Inr es" "gathering_id text ev = Some g" "fans_out ev"
  shows "\<exists>x m t ks. es = map (\<lambda>s. \<lparr>em_event = x, em_room = shard_channel g s, em_message = m s\<rparr>) ks
      @ [\<lparr>em_event = fst t, em_room = broadcast_channel g, em_message = snd t\<rparr>]
    \<and> ks = (if dv_name ev = ATTENDANCE_BULK_RECORDED \<and> attendee_refs text ev \<noteq> []
        then shards_for (attendee_refs text ev) n else all_shards n)"
proof -
  have routes: "map_of build_routes ATTENDANCE_BULK_RECORDED = Some route_bulk_attendance"
    "map_of build_routes ENGAGEMENT_SESSION_OPENED = Some route_game_lifecycle"
    "map_of build_routes ENGAGEMENT_SESSION_CLOSED = Some route_game_lifecycle"
    by (simp_all add: build_routes_def event_names)
  consider "dv_name ev = ATTENDANCE_BULK_RECORDED" |
    "dv_name ev \<noteq> ATTENDANCE_BULK_RECORDED" "map_of build_routes (dv_name ev) = Some route_game_lifecycle"
    using assms(3) routes by (auto simp: fans_out_def event_names)
  then show ?thesis
  proof cases
    case 1
    then obtain count where "es = map (\<lambda>shard. \<lparr>em_event = RT_ATTENDANCE_PRESENCE, em_room = shard_channel g shard,
          em_message = [(''gathering'', Py_Str g), (''batch_id'', py_get (dv_payload ev) ''batch_id'')]\<rparr>)
        (if attendee_refs text ev \<noteq> [] then shards_for (attendee_refs text ev) n else all_shards n)
      @ [\<lparr>em_event = RT_ATTENDANCE_COUNT, em_room = broadcast_channel g, em_message = presence_message ev count\<rparr>]"
      using assms(1,2) routes by (auto simp: project_emissions_def route_bulk_attendance_def Let_def res_bind_Inr_iff)
    then show ?thesis using 1
      by (intro exI [where x = RT_ATTENDANCE_PRESENCE]
        exI [where x = "\<lambda>_. [(''gathering'', Py_Str g), (''batch_id'', py_get (dv_payload ev) ''batch_id'')]"]
        exI [where x = "(RT_ATTENDANCE_COUNT, presence_message ev count)"] exI conjI refl) simp_all
  next
    case 2
    then obtain m where "es = map (\<lambda>shard. \<lparr>em_event = RT_GAME_STATE, em_room = shard_channel g shard, em_message = m\<rparr>) (all_shards n)
      @ [\<lparr>em_event = RT_GAME_STATE, em_room = broadcast_channel g, em_message = m\<rparr>]"
      using assms(1,2) by (auto simp: project_emissions_def route_game_lifecycle_def Let_def)
    then show ?thesis using 2
      by (intro exI [where x = RT_GAME_STATE] exI [where x = "\<lambda>_. m"] exI [where x = "(RT_GAME_STATE, m)"]
        exI conjI refl) simp_all
  qed
qed

section \<open>Properties\<close>

text \<open>C8. A client of the broadcast room of a gathering who adds up the count ticks sees the
  attendance that is stored: after any sequence of batches on empty tables, accepted, rejected
  or failed, publishing their events in order adds exactly the number of rows stored for the
  gathering, whatever branches they belong to.\<close>
theorem live_count_matches_rows:
  assumes "submissions empty_tables st" and "g \<noteq> []" and "pw_push_fails w = None"
  shows "feed_count g (pw_pushed (fold (gateway_emit text) (at_events st) w)) =
    feed_count g (pw_pushed w) + of_nat (length (filter (\<lambda>r. ai_event r = g) (at_rows st)))"
proof -
  have "announced g empty_tables" by (simp add: announced_def empty_tables_def rows_of_event_def)
  from submissions_announced [OF assms(1) this] show ?thesis
    unfolding emits_feed [OF assms(3,2)] by (simp add: announced_def rows_of_event_def)
qed

text \<open>C24. The rooms of a gathering parse back to it, and the join gate lets a user into the
  broadcast room and into any shard room alike: exactly when the gathering exists with a branch,
  and the user has a global role or the branch is the empty text or among the branches granted to
  the user.  A name may be joined exactly when it spells a room of such a gathering: the prefix,
  the gathering, and as ending the broadcast segment or the shard segment with a number of
  ASCII digits (zeros in front and shards that do not exist included), with at most one line feed
  behind.\<close>
theorem event_room_gate:
  "(room_name_ok e \<longrightarrow> room \<in> event_rooms e \<longrightarrow>
      (\<exists>ref. parse_event_room room = Some ref \<and> rr_event_id ref = e)
      \<and> (can_join_event_room gw rows user room \<longleftrightarrow>
          (\<exists>b. map_of rows e = Some (Some b) \<and> (pg_user_roles gw user \<inter> GLOBAL_BRANCH_ROLES \<noteq> {}
             \<or> b = [] \<or> b \<in> set (pg_branch_permissions gw user)))))
   \<and> (can_join_event_room gw rows user room \<longleftrightarrow>
      (\<exists>e' b. room_name_ok e' \<and> spells_room e' room \<and> map_of rows e' = Some (Some b)
         \<and> (pg_user_roles gw user \<inter> GLOBAL_BRANCH_ROLES \<noteq> {}
             \<or> b = [] \<or> b \<in> set (pg_branch_permissions gw user))))"
  unfolding branch_open_to_def [symmetric]
proof (intro conjI impI)
  assume e: "room_name_ok e" and room: "room \<in> event_rooms e"
  show parsed: "\<exists>ref. parse_event_room room = Some ref \<and> rr_event_id ref = e"
    by (rule spelled_parses [OF e rooms_spelled [OF room]])
  have "e \<noteq> []" using e by (simp add: room_name_ok_def)
  with parsed show "can_join_event_room gw rows user room \<longleftrightarrow>
      (\<exists>b. map_of rows e = Some (Some b) \<and> branch_open_to gw user b)"
    using parsed_gate by blast
next
  show "can_join_event_room gw rows user room \<longleftrightarrow>
      (\<exists>e' b. room_name_ok e' \<and> spells_room e' room \<and> map_of rows e' = Some (Some b) \<and> branch_open_to gw user b)"
  proof (cases "parse_event_room room")
    case None
    then have "\<not> can_join_event_room gw rows user room"
      by (simp add: can_join_event_room_def event_room_join_allowed_def)
    then show ?thesis using None spelled_parses by fastforce
  next
    case (Some ref)
    note sp = parse_spells [OF Some]
    have only: "e' = rr_event_id ref" if "room_name_ok e'" "spells_room e' room" for e'
      using spelled_parses [OF that] Some by auto
    have "rr_event_id ref \<noteq> []" using sp by (simp add: room_name_ok_def)
    then show ?thesis using parsed_gate [OF Some] sp only by blast
  qed
qed

text \<open>A client who joined the broadcast room and the own shard room of a gathering is told of
  each bulk write and each opening and closing of a session exactly once in either room, provided
  a bulk write that lists attendees lists the client; and everything an event fans out to is a
  room of its own gathering.\<close>
theorem every_client_told_once:
  assumes "project_emissions text n ev = Inr es" and "gathering_id text ev = Some g" and "0 < n"
    and "fans_out ev" and "addresses text ev a"
  shows "told (shard_channel g (shard_for a n)) es = 1 \<and> told (broadcast_channel g) es = 1
    \<and> (\<forall>em \<in> set es. em_room em \<in> event_rooms g)"
proof -
  obtain x m t ks where es: "es = map (\<lambda>s. \<lparr>em_event = x, em_room = shard_channel g s, em_message = m s\<rparr>) ks
      @ [\<lparr>em_event = fst t, em_room = broadcast_channel g, em_message = snd t\<rparr>]"
    and ks: "ks = (if dv_name ev = ATTENDANCE_BULK_RECORDED \<and> attendee_refs text ev \<noteq> []
        then shards_for (attendee_refs text ev) n else all_shards n)"
    using fan_out_shape [OF assms(1,2,4)] by blast
  have d: "distinct ks" and k: "shard_for a n \<in> set ks"
    using assms(3,5) by (auto simp: ks addresses_def all_shards_def)
  show ?thesis
    unfolding es filter_append length_append told_shards [OF d] told_broadcast using k by (auto simp: event_rooms_def)
qed

text \<open>When the push to the browsers fails the event leaves no trace: no message, no outbox
  row and no log line, although the outbox is the durable copy and is available, and the emit
  still reports success to its caller (of any event whose count is not malformed).\<close>
theorem push_failure_loses_outbox:
  assumes "pw_push_fails w = Some x"
  shows "fst (bus_emit (wired_bus text) name payload scope True room w) = w
    \<and> (name \<noteq> ATTENDANCE_BULK_RECORDED \<longrightarrow>
        snd (bus_emit (wired_bus text) name payload scope True room w) =
          Inr \<lparr>dv_name = name, dv_payload = payload, dv_scope = scope\<rparr>)"
proof -
  let ?dv = "\<lparr>dv_name = name, dv_payload = payload, dv_scope = scope\<rparr>"
  have push: "publish_realtime ev m r w = (w, Some x)" for ev m r by (simp add: publish_realtime_def assms)
  then have all: "publish_all es w = w" for es by (induction es) simp_all
  have sink: "FrappeEventSink ?dv True room w = (w, Some x)" by (simp add: FrappeEventSink_def push)
  have "\<exists>es. project_emissions text n ?dv = Inr es" if "name \<noteq> ATTENDANCE_BULK_RECORDED" for n
    using that by (auto simp: project_emissions_def build_routes_def route_single_attendance_def
      route_game_lifecycle_def route_broadcast_only_def Let_def split: option.splits)
  then have ok: "name \<noteq> ATTENDANCE_BULK_RECORDED \<Longrightarrow> \<exists>es. project_emissions text DEFAULT_SHARD_COUNT ?dv = Inr es"
    by blast
  show ?thesis
    by (cases "project_emissions text DEFAULT_SHARD_COUNT ?dv")
      (use ok in \<open>auto simp: bus_emit_def Let_def wired_subscriptions project_handler_def all sink\<close>)
qed

section \<open>Witnesses\<close>

definition demo_push :: push_world where
  "demo_push = \<lparr>pw_pushed = [], pw_outbox = [], pw_log = [], pw_push_fails = None, pw_outbox_fails = False\<rparr>"

definition demo_opened :: domain_event where
  "demo_opened = \<lparr>dv_name = ENGAGEMENT_SESSION_OPENED, dv_payload = [(''gathering'', Py_Str ''E'')], dv_scope = []\<rparr>"

definition demo_gateway_perm :: permission_gateway where
  "demo_gateway_perm = NullPermissionGateway \<lparr>pg_branch_permissions := (\<lambda>u. if u = ''lead@x'' then [''B''] else [])\<rparr>"

lemma live_count_matches_rows_witness:
  "feed_count ''E'' (pw_pushed (fold (gateway_emit (\<lambda>_. '''')) (at_events demo_tables1) demo_push)) = 1"
proof -
  have "filter (\<lambda>r. ai_event r = ''E'') (at_rows demo_tables1) = [stored_item (demo_item ''M1'' ''c1'')]"
    by code_simp
  then show ?thesis
    using live_count_matches_rows [OF demo_submitted, of "''E''" demo_push "\<lambda>_. ''''"] by (simp add: demo_push_def)
qed

lemma event_room_gate_witness:
  "can_join_event_room demo_gateway_perm [(''E'', Some ''B'')] ''lead@x'' (broadcast_channel ''E'')
   \<and> \<not> can_join_event_room demo_gateway_perm [(''E'', Some ''B'')] ''other@x'' (shard_channel ''E'' 3)"
proof -
  have "room_name_ok ''E''" "broadcast_channel ''E'' \<in> event_rooms ''E''" "shard_channel ''E'' 3 \<in> event_rooms ''E''"
    by (simp_all add: room_name_ok_def event_rooms_def)
  then show ?thesis
    using event_room_gate [of "''E''" "broadcast_channel ''E''" demo_gateway_perm "[(''E'', Some ''B'')]" "''lead@x''"]
      event_room_gate [of "''E''" "shard_channel ''E'' 3" demo_gateway_perm "[(''E'', Some ''B'')]" "''other@x''"]
    by (simp add: demo_gateway_perm_def NullPermissionGateway_def)
qed

lemma every_client_told_once_witness:
  "\<exists>es. project_emissions (\<lambda>_. '''') 10 demo_opened = Inr es
    \<and> told (shard_channel ''E'' (shard_for ''M1'' 10)) es = 1"
proof -
  have g: "gathering_id (\<lambda>_. '''') demo_opened = Some ''E''" by code_simp
  obtain es where es: "project_emissions (\<lambda>_. '''') 10 demo_opened = Inr es"
    using g by (auto simp: project_emissions_def build_routes_def route_game_lifecycle_def demo_opened_def event_names Let_def)
  have "fans_out demo_opened" "addresses (\<lambda>_. '''') demo_opened ''M1''"
    by (simp_all add: fans_out_def addresses_def demo_opened_def event_names)
  from every_client_told_once [OF es g _ this] es show ?thesis by simp
qed

lemma push_failure_loses_outbox_witness:
  "fst (bus_emit (wired_bus (\<lambda>_. '''')) MEMBER_CREATED [] [] True None (demo_push \<lparr>pw_push_fails := Some ''redis''\<rparr>))
     = demo_push \<lparr>pw_push_fails := Some ''redis''\<rparr>
   \<and> pw_outbox (fst (bus_emit (wired_bus (\<lambda>_. '''')) MEMBER_CREATED [] [] True None demo_push)) \<noteq> []"
proof -
  have "pw_outbox (fst (bus_emit (wired_bus (\<lambda>_. '''')) MEMBER_CREATED [] [] True None demo_push)) \<noteq> []"
    by (simp add: bus_emit_def Let_def wired_subscriptions build_routes_def event_names MEMBER_CREATED_def
      FrappeEventSink_def publish_realtime_def append_outbox_def demo_push_def)
  then show ?thesis
    using push_failure_loses_outbox [of "demo_push \<lparr>pw_push_fails := Some ''redis''\<rparr>" "''redis''"
      "\<lambda>_. ''''" MEMBER_CREATED "[]" "[]" None] by simp
qed

end
