(* ===== verification/Branch_Scopes.thy ===== *)
theory Branch_Scopes
  imports Events Permissions Tree_Tables
begin

text \<open>
  Model of the controller of branch admin scopes
  (\<open>flock_os/flock_os/doctype/flock_branch_admin_scope/flock_branch_admin_scope.py\<close>) and of the
  subscriber of \<open>flock_os/hooks.py\<close> that re-syncs the scopes when a branch has moved.

  A scope names a user and a root branch; saving it grants the user the branches of the
  subtree as rows of the framework's table of user permissions.  The branch tree itself is
  kept by the framework and may change between two requests.
\<close>

section \<open>The controller\<close>

record admin_scope =
  as_name :: docname
  as_user :: string
  as_branch :: "docname option"
  as_is_active :: bool

record scope_world =
  sw_branches :: "branch_row nested_row list"
  sw_scopes :: "admin_scope list"
  sw_permissions :: "user_permission list"
  sw_jobs :: "docname list"

text \<open>The adjacency in tree order: one read of the table, ordered by \<open>lft\<close>.\<close>

definition add_branch :: "branch_row \<Rightarrow> parent_map \<times> child_map \<Rightarrow> parent_map \<times> child_map" where
  "add_branch row = (\<lambda>(parent_of, children_of).
    let children = (case map_of children_of (br_name row) of None \<Rightarrow> AList.update (br_name row) [] children_of
                    | Some _ \<Rightarrow> children_of)
    in (AList.update (br_name row) (br_parent row) parent_of,
        if truthy (br_parent row) then dict_push (the (br_parent row)) (br_name row) children else children))"

definition materialize_branch_adjacency :: "branch_row nested_row list \<Rightarrow> parent_map \<times> child_map" where
  "materialize_branch_adjacency rows = fold add_branch (map nr_row (sort_key nr_lft rows)) ([], [])"

definition resolve_subtree :: "branch_row nested_row list \<Rightarrow> admin_scope \<Rightarrow> tree_error + docname list" where
  "resolve_subtree rows scope =
    (if \<not> truthy (as_branch scope) then Inr []
     else let (parent_of, children_of) = materialize_branch_adjacency rows
          in compute_branch_subtree (the (as_branch scope)) children_of)"

text \<open>\<open>validate\<close>, as the framework runs it in a save: an exception leaves everything as it was.\<close>

definition save_scope :: "admin_scope \<Rightarrow> scope_world \<Rightarrow> tree_error + scope_world" where
  "save_scope scope w =
    res_bind (resolve_subtree (sw_branches w) scope) (\<lambda>subtree.
      Inr (w \<lparr>sw_permissions := sync_branch_scope (sw_permissions w) (as_user scope) subtree,
              sw_scopes := filter (\<lambda>s. as_name s \<noteq> as_name scope) (sw_scopes w) @ [scope]\<rparr>))"

text \<open>\<open>on_trash\<close>, and the removal of the row.\<close>

definition withdraw_user_permissions :: "string \<Rightarrow> user_permission list \<Rightarrow> user_permission list" where
  "withdraw_user_permissions user = filter (\<lambda>p. \<not> (up_user p = user \<and> up_allow p = BRANCH_DOCTYPE))"

definition trash_scope :: "admin_scope \<Rightarrow> scope_world \<Rightarrow> scope_world" where
  "trash_scope scope w =
    w \<lparr>sw_permissions := withdraw_user_permissions (as_user scope) (sw_permissions w),
       sw_scopes := filter (\<lambda>s. as_name s \<noteq> as_name scope) (sw_scopes w)\<rparr>"

section \<open>The re-sync\<close>

definition on_branch_moved :: "domain_event \<Rightarrow> scope_world \<Rightarrow> scope_world \<times> string option" where
  "on_branch_moved event w =
    (if \<not> py_true (py_get (dv_payload event) ''branch'') then (w, None)
     else (w \<lparr>sw_jobs := sw_jobs w @ map as_name (filter as_is_active (sw_scopes w))\<rparr>, None))"

definition register_branch_scope_sync :: "scope_world event_bus \<Rightarrow> scope_world event_bus" where
  "register_branch_scope_sync bus = subscribe BRANCH_MOVED on_branch_moved None bus"

text \<open>The job; a scope which is gone, or whose subtree fails to resolve, fails the job.\<close>

definition resync_branch_admin_scope :: "docname \<Rightarrow> scope_world \<Rightarrow> scope_world" where
  "resync_branch_admin_scope scope_name w =
    (case find (\<lambda>s. as_name s = scope_name) (sw_scopes w) of None \<Rightarrow> w
     | Some scope \<Rightarrow> (case save_scope scope w of Inl _ \<Rightarrow> w | Inr w' \<Rightarrow> w'))"

definition run_jobs :: "scope_world \<Rightarrow> scope_world" where
  "run_jobs w = fold resync_branch_admin_scope (sw_jobs w) (w \<lparr>sw_jobs := []\<rparr>)"

text \<open>What the permission gateway reads for a user.\<close>

definition branch_grants :: "string \<Rightarrow> scope_world \<Rightarrow> docname set" where
  "branch_grants user w = {up_for_value p | p. p \<in> set (sw_permissions w) \<and> up_user p = user \<and> up_allow p = BRANCH_DOCTYPE}"

section \<open>The adjacency\<close>

definition branch_edges :: "branch_row nested_row list \<Rightarrow> (docname \<times> docname) set" where
  "branch_edges rows = {(p, br_name (nr_row r)) | p r. r \<in> set rows \<and> br_parent (nr_row r) = Some p \<and> p \<noteq> []}"

lemma children_dict_or: "children_get C n = dict_or [] C n"
  by (simp add: children_get_def dict_or_def)

lemma add_branch_children:
  "children_get (snd (add_branch row (P, C))) n =
     children_get C n @ (if br_parent row = Some n \<and> n \<noteq> [] then [br_name row] else [])"
  by (cases "br_parent row")
    (auto simp: add_branch_def Let_def children_dict_or dict_or_def update_conv' dict_push_def split: option.splits)

lemma adjacency_children_fold:
  "children_get (snd (fold add_branch rows (P, C))) n =
     children_get C n @ map br_name (filter (\<lambda>r. br_parent r = Some n \<and> n \<noteq> []) rows)"
proof (induction rows arbitrary: P C)
  case (Cons r rows)
  obtain P' C' where s: "add_branch r (P, C) = (P', C')" by (cases "add_branch r (P, C)")
  have "children_get C' n = children_get C n @ (if br_parent r = Some n \<and> n \<noteq> [] then [br_name r] else [])"
    using add_branch_children [of r P C n] s by simp
  then show ?case using Cons.IH [of P' C'] by (simp add: s)
qed simp

lemma adjacency_children:
  "children_get (snd (materialize_branch_adjacency rows)) n =
     map br_name (filter (\<lambda>r. br_parent r = Some n \<and> n \<noteq> []) (map nr_row (sort_key nr_lft rows)))"
  using adjacency_children_fold [of _ "[]" "[]" n]
  by (simp add: materialize_branch_adjacency_def children_get_def)

lemma adjacency_edges: "child_edge (snd (materialize_branch_adjacency rows)) = branch_edges rows"
  by (auto simp: child_edge_def branch_edges_def adjacency_children)

text \<open>The framework keeps the table a forest with unique names.\<close>

definition branch_forest :: "branch_row nested_row list \<Rightarrow> bool" where
  "branch_forest rows \<longleftrightarrow> distinct (map (br_name o nr_row) rows) \<and> acyclic (branch_edges rows)"

lemma forest_parent_unique:
  assumes "branch_forest rows" "(p, x) \<in> branch_edges rows" "(q, x) \<in> branch_edges rows"
  shows "p = q"
proof -
  obtain r s where "r \<in> set rows" "s \<in> set rows" "br_parent (nr_row r) = Some p" "br_parent (nr_row s) = Some q"
    "br_name (nr_row r) = x" "br_name (nr_row s) = x"
    using assms(2,3) by (auto simp: branch_edges_def)
  moreover have "inj_on (br_name o nr_row) (set rows)"
    using assms(1) by (simp add: branch_forest_def distinct_map)
  ultimately have "r = s" by (metis inj_onD comp_apply)
  with \<open>br_parent (nr_row r) = Some p\<close> \<open>br_parent (nr_row s) = Some q\<close> show ?thesis by simp
qed

lemma forest_tree_below:
  assumes f: "branch_forest rows"
  shows "tree_below (snd (materialize_branch_adjacency rows)) b"
proof -
  let ?C = "snd (materialize_branch_adjacency rows)"
  have "distinct (children_get ?C x)" for x
    using f by (auto simp: adjacency_children branch_forest_def distinct_map inj_on_def)
  moreover have "set (children_get ?C x) \<inter> set (children_get ?C y) = {}" if "x \<noteq> y" for x y
    using forest_parent_unique [OF f] that unfolding adjacency_edges [symmetric] child_edge_def by blast
  moreover have "(b, b) \<notin> (child_edge ?C)\<^sup>+"
    using f unfolding adjacency_edges branch_forest_def acyclic_def by blast
  ultimately show ?thesis by (simp add: tree_below_def)
qed

lemma resolve_subtree_forest:
  assumes f: "branch_forest rows" and b: "as_branch scope = Some b" "b \<noteq> []"
  shows "\<exists>bs. resolve_subtree rows scope = Inr bs \<and> set bs = {d. (b, d) \<in> (branch_edges rows)\<^sup>*}"
proof -
  let ?C = "snd (materialize_branch_adjacency rows)"
  obtain ds where ds: "descendants_of b ?C = Inr ds"
    using descendants_of_ok [OF forest_tree_below [OF f]] by blast
  have "resolve_subtree rows scope = Inr (b # ds)"
    using b ds by (simp add: resolve_subtree_def compute_branch_subtree_def subtree_of_def case_prod_beta)
  moreover have "set (b # ds) = {d. (b, d) \<in> (branch_edges rows)\<^sup>*}"
    using descendants_of_set [OF ds] unfolding adjacency_edges by (auto simp: rtrancl_eq_or_trancl)
  ultimately show ?thesis by blast
qed

abbreviation grant :: "string \<Rightarrow> docname \<Rightarrow> user_permission" where
  "grant u b \<equiv> \<lparr>up_user = u, up_allow = BRANCH_DOCTYPE, up_for_value = b\<rparr>"

lemma grant_eq:
  "p = grant u b \<longleftrightarrow> up_user p = u \<and> up_allow p = BRANCH_DOCTYPE \<and> up_for_value p = b" for p :: user_permission
  by (cases p) auto

lemma branch_grants_iff: "b \<in> branch_grants u w \<longleftrightarrow> grant u b \<in> set (sw_permissions w)"
proof -
  have "b \<in> branch_grants u w \<longleftrightarrow> (\<exists>p. p = grant u b \<and> p \<in> set (sw_permissions w))"
    unfolding branch_grants_def grant_eq by auto
  then show ?thesis by simp
qed

lemma granted_values:
  "b \<in> up_for_value ` {p \<in> set rows. up_user p = u \<and> up_allow p = BRANCH_DOCTYPE} \<longleftrightarrow> grant u b \<in> set rows"
proof -
  have "b \<in> up_for_value ` {p \<in> set rows. up_user p = u \<and> up_allow p = BRANCH_DOCTYPE}
      \<longleftrightarrow> (\<exists>p. p = grant u b \<and> p \<in> set rows)"
    unfolding grant_eq by auto
  then show ?thesis by simp
qed

lemma sync_grants:
  "branch_grants u (w \<lparr>sw_permissions := sync_branch_scope (sw_permissions w) user bs, sw_scopes := ss\<rparr>) =
     (if u = user then set bs else branch_grants u w)"
proof -
  have "grant u b \<in> set (sync_branch_scope rows user bs) \<longleftrightarrow> (if u = user then b \<in> set bs else grant u b \<in> set rows)"
    for b rows
    unfolding sync_branch_scope_mem granted_values by auto
  then show ?thesis by (simp add: set_eq_iff branch_grants_iff)
qed

lemma save_forest:
  assumes "branch_forest (sw_branches w)" "as_branch scope = Some b" "b \<noteq> []"
  shows "\<exists>w'. save_scope scope w = Inr w' \<and> sw_branches w' = sw_branches w \<and> sw_jobs w' = sw_jobs w
    \<and> sw_scopes w' = filter (\<lambda>s. as_name s \<noteq> as_name scope) (sw_scopes w) @ [scope]
    \<and> (\<forall>u. branch_grants u w' = (if u = as_user scope then {d. (b, d) \<in> (branch_edges (sw_branches w))\<^sup>*}
        else branch_grants u w))
    \<and> filter (\<lambda>p. up_allow p \<noteq> BRANCH_DOCTYPE) (sw_permissions w') =
        filter (\<lambda>p. up_allow p \<noteq> BRANCH_DOCTYPE) (sw_permissions w)"
proof -
  obtain bs where bs: "resolve_subtree (sw_branches w) scope = Inr bs"
    "set bs = {d. (b, d) \<in> (branch_edges (sw_branches w))\<^sup>*}"
    using resolve_subtree_forest [OF assms] by blast
  have other: "filter (\<lambda>p. up_allow p \<noteq> BRANCH_DOCTYPE) (sync_branch_scope rows user bs) =
      filter (\<lambda>p. up_allow p \<noteq> BRANCH_DOCTYPE) rows" for rows user
    by (auto simp: sync_branch_scope_filter filter_empty_conv intro: filter_cong)
  show ?thesis using bs by (simp add: save_scope_def sync_grants other)
qed

section \<open>Running the re-sync\<close>

definition scopes_ok :: "branch_row nested_row list \<Rightarrow> admin_scope set \<Rightarrow> scope_world \<Rightarrow> bool" where
  "scopes_ok rows S w \<longleftrightarrow> sw_branches w = rows \<and> branch_forest rows \<and> set (sw_scopes w) = S
     \<and> distinct (map as_name (sw_scopes w))"

lemma find_scope:
  assumes "distinct (map as_name ss)" "s \<in> set ss"
  shows "find (\<lambda>t. as_name t = as_name s) ss = Some s"
proof -
  obtain t where t: "find (\<lambda>t. as_name t = as_name s) ss = Some t"
    using assms(2) by (cases "find (\<lambda>t. as_name t = as_name s) ss") (auto simp: find_None_iff)
  then have "t \<in> set ss" "as_name t = as_name s" by (auto simp: find_Some_iff)
  then have "t = s" using assms by (auto simp: distinct_map dest: inj_onD)
  with t show ?thesis by simp
qed

lemma resync_one:
  assumes ok: "scopes_ok rows S w" and s: "s \<in> S" "truthy (as_branch s)"
  shows "scopes_ok rows S (resync_branch_admin_scope (as_name s) w)
    \<and> (\<forall>u. branch_grants u (resync_branch_admin_scope (as_name s) w) =
        (if u = as_user s then {d. (the (as_branch s), d) \<in> (branch_edges rows)\<^sup>*} else branch_grants u w))"
proof -
  have s': "s \<in> set (sw_scopes w)" "distinct (map as_name (sw_scopes w))"
    using ok s by (auto simp: scopes_ok_def)
  obtain b where b: "as_branch s = Some b" "b \<noteq> []" using s(2) by (cases "as_branch s") auto
  obtain w' where w': "save_scope s w = Inr w'" "sw_branches w' = sw_branches w"
    "sw_scopes w' = filter (\<lambda>t. as_name t \<noteq> as_name s) (sw_scopes w) @ [s]"
    "\<forall>u. branch_grants u w' = (if u = as_user s then {d. (b, d) \<in> (branch_edges (sw_branches w))\<^sup>*}
        else branch_grants u w)"
    using save_forest [OF _ b] ok unfolding scopes_ok_def by blast
  have "resync_branch_admin_scope (as_name s) w = w'"
    using find_scope [OF s'(2,1)] w'(1) by (simp add: resync_branch_admin_scope_def)
  moreover have "set (sw_scopes w') = set (sw_scopes w)"
    using s' by (auto simp: w'(3) distinct_map dest: inj_onD)
  moreover have "distinct (map as_name (sw_scopes w'))"
    using s'(2) by (auto simp: w'(3) distinct_map inj_on_def)
  ultimately show ?thesis using ok w' b by (simp add: scopes_ok_def)
qed

lemma resync_all:
  assumes "scopes_ok rows S w" "set ss \<subseteq> S" "\<forall>s \<in> set ss. truthy (as_branch s)" "distinct (map as_user ss)"
  shows "(\<forall>s \<in> set ss. branch_grants (as_user s) (fold resync_branch_admin_scope (map as_name ss) w) =
        {d. (the (as_branch s), d) \<in> (branch_edges rows)\<^sup>*})
    \<and> (\<forall>u. u \<notin> as_user ` set ss \<longrightarrow>
        branch_grants u (fold resync_branch_admin_scope (map as_name ss) w) = branch_grants u w)"
  using assms
proof (induction ss arbitrary: w)
  case (Cons s ss)
  have s: "s \<in> S" "truthy (as_branch s)" using Cons.prems by auto
  note one = resync_one [OF Cons.prems(1) s]
  then have ok: "scopes_ok rows S (resync_branch_admin_scope (as_name s) w)" by blast
  have fresh: "as_user s \<notin> as_user ` set ss" using Cons.prems(4) by simp
  note rest = Cons.IH [OF ok]
  show ?case using rest one fresh Cons.prems(2-4) by auto
qed simp

section \<open>Properties\<close>

text \<open>C11. In a branch forest saving an admin scope succeeds and leaves its user, whether or not
  the scope is marked active, with exactly the branches of the scope's subtree; the branches of
  all other users and all permissions of other kinds stay.\<close>
theorem admin_scope_grants_subtree:
  assumes "branch_forest (sw_branches w)" and "as_branch scope = Some b" and "b \<noteq> []"
  shows "\<exists>w'. save_scope scope w = Inr w'
    \<and> branch_grants (as_user scope) w' = {d. (b, d) \<in> (branch_edges (sw_branches w))\<^sup>*}
    \<and> (\<forall>u. u \<noteq> as_user scope \<longrightarrow> branch_grants u w' = branch_grants u w)
    \<and> filter (\<lambda>p. up_allow p \<noteq> BRANCH_DOCTYPE) (sw_permissions w') =
        filter (\<lambda>p. up_allow p \<noteq> BRANCH_DOCTYPE) (sw_permissions w)"
  using save_forest [OF assms] by auto

text \<open>Two admin scopes of one user do not add up: after saving the first and then the second,
  the user has the subtree of the second alone, and withdrawing the first leaves the user
  without any branch although the second scope is still stored.\<close>
theorem second_scope_replaces_first:
  assumes "branch_forest (sw_branches w)" and "as_user s1 = user" and "as_user s2 = user" and "as_name s1 \<noteq> as_name s2"
    and "as_branch s1 = Some b1" and "b1 \<noteq> []" and "as_branch s2 = Some b2" and "b2 \<noteq> []"
  shows "\<exists>w1 w2. save_scope s1 w = Inr w1 \<and> save_scope s2 w1 = Inr w2
    \<and> {s1, s2} \<subseteq> set (sw_scopes w2)
    \<and> branch_grants user w2 = {d. (b2, d) \<in> (branch_edges (sw_branches w))\<^sup>*}
    \<and> s2 \<in> set (sw_scopes (trash_scope s1 w2)) \<and> branch_grants user (trash_scope s1 w2) = {}"
proof -
  obtain w1 where w1: "save_scope s1 w = Inr w1" "sw_branches w1 = sw_branches w"
    "sw_scopes w1 = filter (\<lambda>s. as_name s \<noteq> as_name s1) (sw_scopes w) @ [s1]"
    using save_forest [of w s1 b1] assms by blast
  obtain w2 where w2: "save_scope s2 w1 = Inr w2"
    "sw_scopes w2 = filter (\<lambda>s. as_name s \<noteq> as_name s2) (sw_scopes w1) @ [s2]"
    "\<forall>u. branch_grants u w2 = (if u = as_user s2 then {d. (b2, d) \<in> (branch_edges (sw_branches w1))\<^sup>*}
        else branch_grants u w1)"
    using save_forest [of w1 s2 b2] assms w1(2) by metis
  have "branch_grants user (trash_scope s1 w2) = {}"
    using assms(2) by (auto simp: branch_grants_def trash_scope_def withdraw_user_permissions_def)
  then show ?thesis using w1 w2 assms by (simp add: trash_scope_def)
qed

text \<open>The re-sync after a branch has moved is correct and never runs.  Were the event emitted,
  the jobs it queues would give the user of every active scope, each the only one of the user, the
  subtree in the tree as it is then; but of the document events the hooks forward to the bus none
  is that event, so whatever document changes the grants stay those of the old tree.\<close>
theorem branch_moves_go_unnoticed:
  "(scopes_ok rows (set (sw_scopes w)) w \<and> sw_jobs w = [] \<and> moved \<noteq> []
      \<and> distinct (map as_user (filter as_is_active (sw_scopes w)))
      \<and> (\<forall>s \<in> set (sw_scopes w). as_is_active s \<longrightarrow> truthy (as_branch s)) \<longrightarrow>
    (\<forall>s \<in> set (sw_scopes w). as_is_active s \<longrightarrow>
       branch_grants (as_user s) (run_jobs (fst (bus_emit (register_branch_scope_sync empty_bus) BRANCH_MOVED
           [(''branch'', Py_Str moved)] [] True None w)))
         = {d. (the (as_branch s), d) \<in> (branch_edges rows)\<^sup>*}))
   \<and> dispatch_flock_doc_event (register_branch_scope_sync empty_bus) doc hook w = (w, None)"
proof (intro conjI impI)
  let ?bus = "register_branch_scope_sync empty_bus" and ?act = "filter as_is_active (sw_scopes w)"
  assume a: "scopes_ok rows (set (sw_scopes w)) w \<and> sw_jobs w = [] \<and> moved \<noteq> []
      \<and> distinct (map as_user ?act) \<and> (\<forall>s \<in> set (sw_scopes w). as_is_active s \<longrightarrow> truthy (as_branch s))"
  have "fst (bus_emit ?bus BRANCH_MOVED [(''branch'', Py_Str moved)] [] True None w) =
      w \<lparr>sw_jobs := map as_name ?act\<rparr>"
    using a by (simp add: bus_emit_def register_branch_scope_sync_def Let_def)
      (simp add: subscriptions_def empty_bus_def NullEventSink_def on_branch_moved_def py_get_or_def)
  then have "run_jobs (fst (bus_emit ?bus BRANCH_MOVED [(''branch'', Py_Str moved)] [] True None w)) =
      fold resync_branch_admin_scope (map as_name ?act) w"
    using a by (cases w) (simp add: run_jobs_def)
  then show "\<forall>s \<in> set (sw_scopes w). as_is_active s \<longrightarrow>
       branch_grants (as_user s) (run_jobs (fst (bus_emit ?bus BRANCH_MOVED [(''branch'', Py_Str moved)] [] True None w)))
         = {d. (the (as_branch s), d) \<in> (branch_edges rows)\<^sup>*}"
    using resync_all [of rows "set (sw_scopes w)" w ?act] a by simp
next
  let ?bus = "register_branch_scope_sync empty_bus"
  have "subscriptions e ?bus = []" if "e \<noteq> BRANCH_MOVED" for e
    using that by (simp add: register_branch_scope_sync_def) (simp add: subscriptions_def empty_bus_def)
  moreover have "eb_sink ?bus = NullEventSink" by (simp add: register_branch_scope_sync_def empty_bus_def)
  ultimately have quiet: "on_doc_event ?bus doc e w = (w, Inr \<lparr>dv_name = e,
      dv_payload = [(''doctype'', Py_Str (ed_doctype doc)), (''name'', Py_Str (ed_name doc))],
      dv_scope = scope_from_doc (ed_branch doc) (ed_group doc) (ed_organization doc)\<rparr>)" if "e \<noteq> BRANCH_MOVED" for e
    using that by (simp add: on_doc_event_def bus_emit_def Let_def NullEventSink_def)
  have "e \<noteq> BRANCH_MOVED" if "map_of FLOCK_DOC_EVENTS k = Some e" for k e
    using map_of_SomeD [OF that] by (auto simp: FLOCK_DOC_EVENTS_def BRANCH_MOVED_def BRANCH_CREATED_def
      GROUP_CREATED_def GROUP_MEMBER_ADDED_def MEMBER_CREATED_def GATHERING_CREATED_def)
  then show "dispatch_flock_doc_event ?bus doc hook w = (w, None)"
    by (auto simp: dispatch_flock_doc_event_def quiet split: option.split)
qed

section \<open>Witnesses\<close>

definition demo_branch_row :: "docname \<Rightarrow> docname option \<Rightarrow> int \<Rightarrow> int \<Rightarrow> branch_row nested_row" where
  "demo_branch_row n p l r = \<lparr>nr_row = \<lparr>br_name = n, br_branch_name = None, br_parent = p,
     br_organization = Some ''O'', br_is_active = Some 1\<rparr>, nr_lft = l, nr_rgt = r\<rparr>"

definition demo_scope_world :: scope_world where
  "demo_scope_world = \<lparr>sw_branches = [demo_branch_row ''N'' None 1 4, demo_branch_row ''N1'' (Some ''N'') 2 3,
       demo_branch_row ''S'' None 5 6],
     sw_scopes = [], sw_permissions = [], sw_jobs = []\<rparr>"

definition demo_scope :: "docname \<Rightarrow> docname \<Rightarrow> admin_scope" where
  "demo_scope n b = \<lparr>as_name = n, as_user = ''a@x'', as_branch = Some b, as_is_active = True\<rparr>"

lemma branch_edges_list:
  "branch_edges rows = set (map (\<lambda>r. (the (br_parent (nr_row r)), br_name (nr_row r)))
     (filter (\<lambda>r. truthy (br_parent (nr_row r))) rows))"
  unfolding branch_edges_def truthy_def by (force split: option.splits)

lemma demo_branches: "branch_edges (sw_branches demo_scope_world) = {(''N'', ''N1'')}"
  by (simp add: branch_edges_list demo_scope_world_def demo_branch_row_def)

lemma demo_branch_forest: "branch_forest (sw_branches demo_scope_world)"
proof -
  have "acyclic ({} :: (docname \<times> docname) set)" by (simp add: acyclic_def)
  then have "acyclic {(''N'', ''N1'')}" by (simp add: acyclic_insert)
  then show ?thesis unfolding branch_forest_def demo_branches
    by (simp add: demo_scope_world_def demo_branch_row_def)
qed

lemma admin_scope_grants_subtree_witness:
  "\<exists>w'. save_scope (demo_scope ''s1'' ''N'') demo_scope_world = Inr w' \<and> branch_grants ''a@x'' w' = {''N'', ''N1''}"
proof -
  have "{d. (''N'', d) \<in> (branch_edges (sw_branches demo_scope_world))\<^sup>*} = {''N'', ''N1''}"
    by (auto simp: demo_branches single_edge_rtrancl)
  then show ?thesis
    using admin_scope_grants_subtree [of demo_scope_world "demo_scope ''s1'' ''N''" "''N''"] demo_branch_forest
    by (auto simp: demo_scope_def)
qed

lemma second_scope_replaces_first_witness:
  "\<exists>w1 w2. save_scope (demo_scope ''s1'' ''N'') demo_scope_world = Inr w1 \<and> save_scope (demo_scope ''s2'' ''S'') w1 = Inr w2
     \<and> branch_grants ''a@x'' w2 = {''S''}"
proof -
  have "{d. (''S'', d) \<in> (branch_edges (sw_branches demo_scope_world))\<^sup>*} = {''S''}"
    by (auto simp: demo_branches single_edge_rtrancl)
  then show ?thesis
    using second_scope_replaces_first [of demo_scope_world "demo_scope ''s1'' ''N''" "''a@x''" "demo_scope ''s2'' ''S''"
      "''N''" "''S''"] demo_branch_forest
    by (auto simp: demo_scope_def)
qed

lemma branch_moves_go_unnoticed_witness:
  "branch_grants ''a@x'' (run_jobs (fst (bus_emit (register_branch_scope_sync empty_bus) BRANCH_MOVED
       [(''branch'', Py_Str ''N1'')] [] True None (demo_scope_world \<lparr>sw_scopes := [demo_scope ''s1'' ''N'']\<rparr>)))) = {''N'', ''N1''}"
proof -
  let ?w = "demo_scope_world \<lparr>sw_scopes := [demo_scope ''s1'' ''N'']\<rparr>"
  have "{d. (''N'', d) \<in> (branch_edges (sw_branches ?w))\<^sup>*} = {''N'', ''N1''}"
    by (auto simp: demo_branches single_edge_rtrancl)
  moreover have "scopes_ok (sw_branches ?w) (set (sw_scopes ?w)) ?w"
    using demo_branch_forest by (simp add: scopes_ok_def)
  ultimately show ?thesis
    using branch_moves_go_unnoticed [of "sw_branches ?w" ?w "''N1''"]
    by (simp add: demo_scope_def demo_scope_world_def)
qed

end
