(* ===== verification/Invitations.thy ===== *)
theory Invitations
  imports Registration_Doc
begin

text \<open>
  Model of \<open>flock_os/flock_os/doctype/flock_event_invitation/flock_event_invitation.py\<close>: the
  validate hook of an invitation and the endpoints that create one and answer it by its token.

  The scope gate of a registration reads the same table: \<open>registration_view\<close> is the database of
  \<open>Registration_Doc\<close> with the invitations as its rows.  A request runs alone and a raise rolls it
  back; the token and the name of a new row are given by the request.  The checks of the
  framework on links and the checks of a user's role on a document are not modelled: the
  endpoints write with \<open>ignore_permissions\<close>, and a save by hand is taken from anybody.
\<close>

section \<open>State\<close>

definition INVITATION_SENT_STATUS :: string where [status_defs]: "INVITATION_SENT_STATUS = ''Sent''"
definition INVITATION_ACCEPTED_STATUS :: string where [status_defs]: "INVITATION_ACCEPTED_STATUS = ''Accepted''"
definition INVITATION_DECLINED_STATUS :: string where [status_defs]: "INVITATION_DECLINED_STATUS = ''Declined''"
definition INVITATION_EXPIRED_STATUS :: string where [status_defs]: "INVITATION_EXPIRED_STATUS = ''Expired''"

record invitation_doc = invitation_row +
  in_name :: docname
  in_organization :: "docname option"
  in_branch :: docname
  in_group :: docname
  in_invitee_name :: string
  in_token :: string

datatype invitation_event =
    Invitation_Sent_Event docname docname docname docname event_scope
  | Invitation_Accepted_Event docname docname docname event_scope
  | Invitation_Declined_Event docname docname docname event_scope

record invitation_db =
  vd_base :: registration_db
  vd_docs :: "invitation_doc list"
  vd_events :: "invitation_event list"

record invitation_env =
  ie_user :: string
  ie_now :: string
  ie_perm :: permission_gateway
  ie_name :: docname
  ie_token :: string

datatype invitation_error =
    Invitation_Gathering_Required
  | Invitation_Nobody
  | Invitation_Guard permission_error
  | Invitation_Branch_Required
  | Invitation_Branch_Mismatch
  | Invitation_Group_Mismatch
  | Invitation_Not_One_Time
  | Invitation_Duplicate
  | Invitation_Bad_Decision
  | Invitation_Not_Found
  | Invitation_Expired
  | Invitation_Not_Open string

definition registration_view :: "invitation_db \<Rightarrow> registration_db" where
  "registration_view v = (vd_base v) \<lparr>rd_invitations := map invitation_row.truncate (vd_docs v)\<rparr>"

section \<open>The validate hook\<close>

definition invitation_tenant_floor :: "registration_db \<Rightarrow> invitation_doc \<Rightarrow> invitation_doc" where
  "invitation_tenant_floor db doc =
    (if truthy (in_organization doc) then doc
     else if in_branch doc \<noteq> [] \<and> truthy (rd_branch_org db (in_branch doc))
     then doc \<lparr>in_organization := rd_branch_org db (in_branch doc)\<rparr>
     else doc)"

definition denormalize_invitee_name :: "registration_db \<Rightarrow> invitation_doc \<Rightarrow> invitation_doc" where
  "denormalize_invitee_name db doc =
    (if truthy (iv_invitee doc) \<and> in_invitee_name doc = []
     then doc \<lparr>in_invitee_name := member_full_name db (the (iv_invitee doc))\<rparr>
     else doc)"

definition validate_invitation_binding :: "registration_db \<Rightarrow> invitation_doc \<Rightarrow> invitation_error + unit" where
  "validate_invitation_binding db doc =
    (if in_branch doc = [] then Inl Invitation_Branch_Required
     else let gathering_branch = gathering_col db eg_branch (iv_gathering doc);
              gathering_group = gathering_col db eg_group (iv_gathering doc)
     in if truthy gathering_branch \<and> gathering_branch \<noteq> Some (in_branch doc) then Inl Invitation_Branch_Mismatch
        else if in_group doc \<noteq> [] \<and> truthy gathering_group \<and> gathering_group \<noteq> Some (in_group doc)
        then Inl Invitation_Group_Mismatch
        else Inr ())"

definition validate_invitation_one_time :: "registration_db \<Rightarrow> invitation_doc \<Rightarrow> invitation_error + unit" where
  "validate_invitation_one_time db doc =
    (let category = gathering_col db eg_category (iv_gathering doc)
     in if truthy category \<and> category \<noteq> Some ''One-time'' then Inl Invitation_Not_One_Time else Inr ())"

definition ensure_invite_token :: "string \<Rightarrow> invitation_doc \<Rightarrow> invitation_doc" where
  "ensure_invite_token token doc = (if in_token doc = [] then doc \<lparr>in_token := token\<rparr> else doc)"

definition validate_invitation ::
  "registration_db \<Rightarrow> string \<Rightarrow> invitation_doc \<Rightarrow> invitation_error + invitation_doc" where
  "validate_invitation db token doc0 =
    (let doc = denormalize_invitee_name db (invitation_tenant_floor db doc0)
     in res_bind (validate_invitation_binding db doc) (\<lambda>_.
        res_bind (validate_invitation_one_time db doc) (\<lambda>_. Inr (ensure_invite_token token doc))))"

text \<open>\<open>doc.insert\<close> under the primary key and the unique token, and \<open>doc.save\<close>.\<close>

definition insert_invitation ::
  "string \<Rightarrow> invitation_doc \<Rightarrow> invitation_db \<Rightarrow> invitation_error + invitation_doc \<times> invitation_db" where
  "insert_invitation token doc0 v =
    res_bind (validate_invitation (vd_base v) token doc0) (\<lambda>doc.
      if \<exists>d \<in> set (vd_docs v). in_name d = in_name doc \<or> in_token d = in_token doc then Inl Invitation_Duplicate
      else Inr (doc, v \<lparr>vd_docs := vd_docs v @ [doc]\<rparr>))"

definition save_invitation ::
  "string \<Rightarrow> invitation_doc \<Rightarrow> invitation_db \<Rightarrow> invitation_error + invitation_doc \<times> invitation_db" where
  "save_invitation token doc0 v =
    res_bind (validate_invitation (vd_base v) token doc0) (\<lambda>doc.
      Inr (doc, v \<lparr>vd_docs := map (\<lambda>d. if in_name d = in_name doc then doc else d) (vd_docs v)\<rparr>))"

text \<open>A save of a document by hand, through the desk or the REST interface: the row must be there, and
  the column of the tokens is unique.  The status is an editable field and the hook checks no
  transition of it.\<close>

definition plain_save_invitation ::
  "string \<Rightarrow> invitation_doc \<Rightarrow> invitation_db \<Rightarrow> invitation_error + invitation_doc \<times> invitation_db" where
  "plain_save_invitation token doc0 v =
    res_bind (validate_invitation (vd_base v) token doc0) (\<lambda>doc.
      if \<forall>e \<in> set (vd_docs v). in_name e \<noteq> in_name doc then Inl Invitation_Not_Found
      else if \<exists>e \<in> set (vd_docs v). in_name e \<noteq> in_name doc \<and> in_token e = in_token doc then Inl Invitation_Duplicate
      else save_invitation token doc0 v)"

section \<open>The endpoints\<close>

definition resolve_branch_group_for_gathering :: "registration_db \<Rightarrow> docname \<Rightarrow> docname \<times> docname" where
  "resolve_branch_group_for_gathering db g =
    (or_empty (gathering_col db eg_branch g), or_empty (gathering_col db eg_group g))"

definition invitation_event_scope :: "registration_db \<Rightarrow> docname \<Rightarrow> docname \<Rightarrow> docname \<Rightarrow> event_scope" where
  "invitation_event_scope db g branch grp =
    \<lparr>es_branch = branch, es_group = grp,
     es_organization = (if g \<noteq> [] then gathering_col db eg_organization g else None)\<rparr>"

record invitation_reply =
  ir_invitation :: docname
  ir_status :: string
  ir_token :: "string option"

definition create_invitation ::
  "invitation_env \<Rightarrow> docname \<Rightarrow> docname option \<Rightarrow> docname option \<Rightarrow> string option \<Rightarrow> invitation_db
    \<Rightarrow> invitation_error + invitation_reply \<times> invitation_db" where
  "create_invitation env gathering invitee invitee_group expires_on v =
    (if gathering = [] then Inl Invitation_Gathering_Required
     else if \<not> truthy invitee \<and> \<not> truthy invitee_group then Inl Invitation_Nobody
     else case assert_branch_scope (ie_perm env) (gathering_col (vd_base v) eg_branch gathering) (ie_user env) of
       Inl e \<Rightarrow> Inl (Invitation_Guard e)
     | Inr _ \<Rightarrow>
         let (branch, grp) = resolve_branch_group_for_gathering (vd_base v) gathering;
             doc0 = \<lparr>iv_gathering = gathering, iv_invitee = Some (or_empty invitee),
               iv_invitee_group = Some (or_empty invitee_group), iv_status = INVITATION_SENT_STATUS,
               iv_expires_on = expires_on, iv_docstatus = 0, in_name = ie_name env,
               in_organization = gathering_col (vd_base v) eg_organization gathering, in_branch = branch,
               in_group = (if grp \<noteq> [] then grp else or_empty invitee_group),
               in_invitee_name = [], in_token = []\<rparr>
         in res_bind (insert_invitation (ie_token env) doc0 v) (\<lambda>(doc, v1).
              Inr (\<lparr>ir_invitation = in_name doc, ir_status = iv_status doc, ir_token = Some (in_token doc)\<rparr>,
                v1 \<lparr>vd_events := vd_events v1 @ [Invitation_Sent_Event (in_name doc) gathering (or_empty invitee)
                  (or_empty invitee_group) (invitation_event_scope (vd_base v1) gathering branch grp)]\<rparr>)))"

text \<open>The answer to an invitation.  For an expired one the row is saved as expired and then the
  request raises, which rolls the save back.\<close>

definition rsvp_invitation ::
  "invitation_env \<Rightarrow> string \<Rightarrow> string \<Rightarrow> invitation_db \<Rightarrow> invitation_error + invitation_reply \<times> invitation_db" where
  "rsvp_invitation env invite_token decision v =
    (if decision \<noteq> INVITATION_ACCEPTED_STATUS \<and> decision \<noteq> INVITATION_DECLINED_STATUS then Inl Invitation_Bad_Decision
     else case find (\<lambda>d. in_token d = invite_token) (vd_docs v) of None \<Rightarrow> Inl Invitation_Not_Found
     | Some doc \<Rightarrow>
         if is_invitation_expired (iv_expires_on doc) (ie_now env)
         then res_bind (if iv_status doc \<noteq> INVITATION_EXPIRED_STATUS
                then save_invitation (ie_token env) (doc \<lparr>iv_status := INVITATION_EXPIRED_STATUS\<rparr>) v
                else Inr (doc, v)) (\<lambda>_. Inl Invitation_Expired)
         else if iv_status doc \<noteq> INVITATION_SENT_STATUS then Inl (Invitation_Not_Open (iv_status doc))
         else res_bind (save_invitation (ie_token env) (doc \<lparr>iv_status := decision\<rparr>) v) (\<lambda>(doc1, v1).
           let (branch, grp) = resolve_branch_group_for_gathering (vd_base v1) (iv_gathering doc1);
               scope = invitation_event_scope (vd_base v1) (iv_gathering doc1) branch grp
           in Inr (\<lparr>ir_invitation = in_name doc1, ir_status = iv_status doc1, ir_token = None\<rparr>,
                v1 \<lparr>vd_events := vd_events v1 @
                  [if decision = INVITATION_ACCEPTED_STATUS
                   then Invitation_Accepted_Event (in_name doc1) (iv_gathering doc1) (or_empty (iv_invitee doc1)) scope
                   else Invitation_Declined_Event (in_name doc1) (iv_gathering doc1) (or_empty (iv_invitee doc1)) scope]\<rparr>)))"

text \<open>How an invitation may change: an answer is final, and nothing but the status ever changes
  of what it invites to.\<close>

definition answered_once :: "invitation_doc \<Rightarrow> invitation_doc \<Rightarrow> bool" where
  "answered_once d d' \<longleftrightarrow> in_name d' = in_name d \<and> in_token d' = in_token d \<and> iv_gathering d' = iv_gathering d
     \<and> iv_invitee d' = iv_invitee d \<and> iv_invitee_group d' = iv_invitee_group d \<and> iv_expires_on d' = iv_expires_on d
     \<and> (iv_status d \<noteq> INVITATION_SENT_STATUS \<longrightarrow> iv_status d' = iv_status d)"

section \<open>Steps\<close>

text \<open>A request either commits or leaves everything as it was; the token generator gives no empty
  text.  Beside the two endpoints, a user may insert, save and delete rows by hand, whatever
  their fields say.  The state carries the set of the names a hand has touched: those inserted in
  another status than Sent, those saved with another status, another token or other terms, and
  those deleted.  Any other request may change the rest of the database, but not the branch of a
  gathering.\<close>

definition terms_kept :: "invitation_db \<Rightarrow> invitation_doc \<Rightarrow> bool" where
  "terms_kept v doc \<longleftrightarrow> (\<forall>e \<in> set (vd_docs v). in_name e = in_name doc \<longrightarrow> answered_once e doc \<and> iv_status doc = iv_status e)"

inductive invitation_step :: "docname set \<times> invitation_db \<Rightarrow> docname set \<times> invitation_db \<Rightarrow> bool" where
  step_create: "ie_token env \<noteq> [] \<Longrightarrow> create_invitation env g i ig x v = Inr (r, v') \<Longrightarrow> invitation_step (H, v) (H, v')"
| step_rsvp: "ie_token env \<noteq> [] \<Longrightarrow> rsvp_invitation env t d v = Inr (r, v') \<Longrightarrow> invitation_step (H, v) (H, v')"
| step_insert: "t \<noteq> [] \<Longrightarrow> insert_invitation t doc0 v = Inr (doc, v') \<Longrightarrow>
     invitation_step (H, v) (if iv_status doc = INVITATION_SENT_STATUS then H else insert (in_name doc) H, v')"
| step_save: "t \<noteq> [] \<Longrightarrow> plain_save_invitation t doc0 v = Inr (doc, v') \<Longrightarrow>
     invitation_step (H, v) (if terms_kept v doc then H else insert (in_name doc) H, v')"
| step_delete: "invitation_step (H, v) (insert n H, v \<lparr>vd_docs := filter (\<lambda>d. in_name d \<noteq> n) (vd_docs v)\<rparr>)"
| step_other: "(\<And>g. gathering_col db eg_branch g = gathering_col (vd_base v) eg_branch g) \<Longrightarrow>
     invitation_step (H, v) (H, v \<lparr>vd_base := db\<rparr>)"

abbreviation invitation_run :: "docname set \<times> invitation_db \<Rightarrow> docname set \<times> invitation_db \<Rightarrow> bool" where
  "invitation_run \<equiv> invitation_step\<^sup>*\<^sup>*"

section \<open>What the hook keeps\<close>

lemma floor_keeps:
  "iv_gathering (invitation_tenant_floor db doc) = iv_gathering doc" "iv_invitee (invitation_tenant_floor db doc) = iv_invitee doc"
  "iv_invitee_group (invitation_tenant_floor db doc) = iv_invitee_group doc" "iv_status (invitation_tenant_floor db doc) = iv_status doc"
  "iv_expires_on (invitation_tenant_floor db doc) = iv_expires_on doc" "iv_docstatus (invitation_tenant_floor db doc) = iv_docstatus doc"
  "in_name (invitation_tenant_floor db doc) = in_name doc" "in_branch (invitation_tenant_floor db doc) = in_branch doc"
  "in_group (invitation_tenant_floor db doc) = in_group doc" "in_token (invitation_tenant_floor db doc) = in_token doc"
  by (simp_all add: invitation_tenant_floor_def)

lemma name_keeps:
  "iv_gathering (denormalize_invitee_name db doc) = iv_gathering doc" "iv_invitee (denormalize_invitee_name db doc) = iv_invitee doc"
  "iv_invitee_group (denormalize_invitee_name db doc) = iv_invitee_group doc" "iv_status (denormalize_invitee_name db doc) = iv_status doc"
  "iv_expires_on (denormalize_invitee_name db doc) = iv_expires_on doc" "iv_docstatus (denormalize_invitee_name db doc) = iv_docstatus doc"
  "in_name (denormalize_invitee_name db doc) = in_name doc" "in_branch (denormalize_invitee_name db doc) = in_branch doc"
  "in_group (denormalize_invitee_name db doc) = in_group doc" "in_token (denormalize_invitee_name db doc) = in_token doc"
  by (simp_all add: denormalize_invitee_name_def)

lemma validate_result:
  assumes "validate_invitation db t doc0 = Inr doc"
  shows "iv_gathering doc = iv_gathering doc0 \<and> iv_invitee doc = iv_invitee doc0 \<and> iv_invitee_group doc = iv_invitee_group doc0
    \<and> iv_status doc = iv_status doc0 \<and> iv_expires_on doc = iv_expires_on doc0 \<and> iv_docstatus doc = iv_docstatus doc0
    \<and> in_name doc = in_name doc0 \<and> in_branch doc = in_branch doc0
    \<and> in_token doc = (if in_token doc0 = [] then t else in_token doc0)
    \<and> in_branch doc \<noteq> []
    \<and> (truthy (gathering_col db eg_branch (iv_gathering doc)) \<longrightarrow>
         gathering_col db eg_branch (iv_gathering doc) = Some (in_branch doc))"
  using assms
  by (auto simp: validate_invitation_def Let_def res_bind_Inr_iff ensure_invite_token_def floor_keeps name_keeps
    validate_invitation_binding_def split: if_splits)

text \<open>A validated document with a token passes again under any status, unchanged but for it.\<close>

lemma floor_again:
  "invitation_tenant_floor db ((invitation_tenant_floor db doc) \<lparr>iv_status := s\<rparr>) = (invitation_tenant_floor db doc) \<lparr>iv_status := s\<rparr>"
  by (simp add: invitation_tenant_floor_def)

lemma validate_again:
  assumes v: "validate_invitation db t doc0 = Inr doc" and t: "in_token doc \<noteq> []"
  shows "validate_invitation db t' (doc \<lparr>iv_status := s\<rparr>) = Inr (doc \<lparr>iv_status := s\<rparr>)"
proof -
  let ?n = "denormalize_invitee_name db (invitation_tenant_floor db doc0)"
  have doc: "doc = ensure_invite_token t ?n"
    and b: "validate_invitation_binding db ?n = Inr ()" "validate_invitation_one_time db ?n = Inr ()"
    using v by (auto simp: validate_invitation_def Let_def res_bind_Inr_iff)
  have "invitation_tenant_floor db (doc \<lparr>iv_status := s\<rparr>) = doc \<lparr>iv_status := s\<rparr>"
    by (simp add: doc ensure_invite_token_def denormalize_invitee_name_def invitation_tenant_floor_def)
  moreover have "denormalize_invitee_name db (doc \<lparr>iv_status := s\<rparr>) = doc \<lparr>iv_status := s\<rparr>"
    by (simp add: doc ensure_invite_token_def denormalize_invitee_name_def invitation_tenant_floor_def)
  moreover have "validate_invitation_binding db (doc \<lparr>iv_status := s\<rparr>) = Inr ()"
    using b(1) by (auto simp: doc ensure_invite_token_def validate_invitation_binding_def Let_def split: if_splits)
  moreover have "validate_invitation_one_time db (doc \<lparr>iv_status := s\<rparr>) = Inr ()"
    using b(2) by (simp add: doc ensure_invite_token_def validate_invitation_one_time_def Let_def split: if_splits)
  ultimately show ?thesis using t by (simp add: validate_invitation_def Let_def ensure_invite_token_def)
qed

section \<open>What a request does\<close>

lemma create_effect:
  assumes "create_invitation env g i ig x v = Inr (r, v')" and t: "ie_token env \<noteq> []"
  shows "\<exists>doc doc0. vd_docs v' = vd_docs v @ [doc] \<and> vd_base v' = vd_base v
    \<and> validate_invitation (vd_base v) (ie_token env) doc0 = Inr doc
    \<and> (\<forall>d \<in> set (vd_docs v). in_name d \<noteq> in_name doc \<and> in_token d \<noteq> in_token doc)
    \<and> iv_gathering doc = g \<and> iv_invitee doc = Some (or_empty i) \<and> iv_invitee_group doc = Some (or_empty ig)
    \<and> iv_status doc = INVITATION_SENT_STATUS \<and> iv_expires_on doc = x \<and> iv_docstatus doc = 0
    \<and> in_token doc = ie_token env \<and> r = \<lparr>ir_invitation = in_name doc, ir_status = iv_status doc, ir_token = Some (in_token doc)\<rparr>"
proof -
  obtain doc0 doc v1 where ins: "insert_invitation (ie_token env) doc0 v = Inr (doc, v1)"
    and d0: "iv_gathering doc0 = g" "iv_invitee doc0 = Some (or_empty i)" "iv_invitee_group doc0 = Some (or_empty ig)"
      "iv_status doc0 = INVITATION_SENT_STATUS" "iv_expires_on doc0 = x" "iv_docstatus doc0 = 0" "in_token doc0 = []"
    and out: "vd_docs v' = vd_docs v1" "vd_base v' = vd_base v1"
      "r = \<lparr>ir_invitation = in_name doc, ir_status = iv_status doc, ir_token = Some (in_token doc)\<rparr>"
    using assms(1) by (auto simp: create_invitation_def Let_def res_bind_Inr_iff case_prod_beta split: if_splits sum.splits)
  from ins have val: "validate_invitation (vd_base v) (ie_token env) doc0 = Inr doc"
    and v1: "v1 = v \<lparr>vd_docs := vd_docs v @ [doc]\<rparr>"
    and fresh: "\<forall>d \<in> set (vd_docs v). in_name d \<noteq> in_name doc \<and> in_token d \<noteq> in_token doc"
    by (auto simp: insert_invitation_def res_bind_Inr_iff split: if_splits)
  show ?thesis using val fresh out v1 d0 validate_result [OF val]
    by (intro exI [where x = doc] exI [where x = doc0]) simp
qed

lemma rsvp_effect:
  assumes "rsvp_invitation env t d v = Inr (r, v')"
  shows "d \<in> {INVITATION_ACCEPTED_STATUS, INVITATION_DECLINED_STATUS} \<and> vd_base v' = vd_base v
    \<and> (\<exists>doc doc'. find (\<lambda>d. in_token d = t) (vd_docs v) = Some doc \<and> iv_status doc = INVITATION_SENT_STATUS
      \<and> \<not> is_invitation_expired (iv_expires_on doc) (ie_now env)
      \<and> validate_invitation (vd_base v) (ie_token env) (doc \<lparr>iv_status := d\<rparr>) = Inr doc'
      \<and> vd_docs v' = map (\<lambda>e. if in_name e = in_name doc' then doc' else e) (vd_docs v))"
  using assms
  by (auto simp: rsvp_invitation_def save_invitation_def Let_def res_bind_Inr_iff case_prod_beta split: if_splits option.splits)

section \<open>The invariant\<close>

definition OPEN_OR_ANSWERED :: "string set" where
  "OPEN_OR_ANSWERED = {INVITATION_SENT_STATUS, INVITATION_ACCEPTED_STATUS, INVITATION_DECLINED_STATUS}"

definition branch_bound :: "invitation_db \<Rightarrow> invitation_doc \<Rightarrow> bool" where
  "branch_bound v d \<longleftrightarrow> (truthy (gathering_col (vd_base v) eg_branch (iv_gathering d)) \<longrightarrow>
     gathering_col (vd_base v) eg_branch (iv_gathering d) = Some (in_branch d))"

definition invitations_ok :: "docname set \<Rightarrow> invitation_db \<Rightarrow> bool" where
  "invitations_ok H v \<longleftrightarrow> distinct (map in_name (vd_docs v)) \<and> distinct (map in_token (vd_docs v))
    \<and> (\<forall>d \<in> set (vd_docs v). in_token d \<noteq> [] \<and> branch_bound v d \<and> (in_name d \<in> H \<or> iv_status d \<in> OPEN_OR_ANSWERED))"

lemma answered_once_refl [simp]: "answered_once d d"
  by (simp add: answered_once_def)

lemma answered_once_trans: "answered_once a b \<Longrightarrow> answered_once b c \<Longrightarrow> answered_once a c"
  by (auto simp: answered_once_def)

lemma validated_ok:
  assumes "validate_invitation (vd_base v) t doc0 = Inr doc" "t \<noteq> []" "vd_base v' = vd_base v"
  shows "in_token doc \<noteq> []" "branch_bound v' doc"
  using validate_result [OF assms(1)] assms(2,3) by (auto simp: branch_bound_def)

text \<open>Replacing the row of a name by a document that passed the hook.\<close>

lemma replaced_row_ok:
  assumes ok: "invitations_ok H v" and val: "validate_invitation (vd_base v) t doc0 = Inr doc" and t: "t \<noteq> []"
    and tok: "\<forall>e \<in> set (vd_docs v). in_name e \<noteq> in_name doc \<longrightarrow> in_token e \<noteq> in_token doc"
    and st: "in_name doc \<in> H' \<or> iv_status doc \<in> OPEN_OR_ANSWERED" and sub: "H \<subseteq> H'"
    and docs: "vd_docs v' = map (\<lambda>e. if in_name e = in_name doc then doc else e) (vd_docs v)"
    and base: "vd_base v' = vd_base v"
  shows "invitations_ok H' v'"
proof -
  have names: "map in_name (vd_docs v') = map in_name (vd_docs v)"
    unfolding docs map_map by (rule map_cong [OF refl]) simp
  have "distinct (map in_token (vd_docs v'))"
    unfolding docs
  proof (rule distinct_map [THEN iffD2], intro conjI inj_onI)
    let ?f = "\<lambda>e. if in_name e = in_name doc then doc else e"
    have n: "distinct (map in_name (vd_docs v))" and tk: "inj_on in_token (set (vd_docs v))"
      using ok by (auto simp: invitations_ok_def distinct_map)
    have "distinct (map in_name (map ?f (vd_docs v)))" using n names unfolding docs by argo
    then show "distinct (map ?f (vd_docs v))" unfolding distinct_map [of in_name] by (rule conjunct1)
    fix x y assume "x \<in> set (map ?f (vd_docs v))" "y \<in> set (map ?f (vd_docs v))" "in_token x = in_token y"
    then show "x = y" using tok tk by (auto split: if_splits dest: inj_onD)
  qed
  moreover have "distinct (map in_name (vd_docs v'))" using ok names by (simp add: invitations_ok_def)
  moreover have "in_token d \<noteq> [] \<and> branch_bound v' d \<and> (in_name d \<in> H' \<or> iv_status d \<in> OPEN_OR_ANSWERED)"
    if d: "d \<in> set (vd_docs v')" for d
  proof -
    from d consider "d = doc" | "d \<in> set (vd_docs v)" unfolding docs by (auto split: if_splits)
    then show ?thesis
    proof cases
      case 1
      then show ?thesis using validated_ok [OF val t base] st by blast
    next
      case 2
      then show ?thesis using ok sub base by (auto simp: invitations_ok_def branch_bound_def)
    qed
  qed
  ultimately show ?thesis by (simp add: invitations_ok_def)
qed

lemma inserted_row_ok:
  assumes ok: "invitations_ok H v" and ins: "insert_invitation t doc0 v = Inr (doc, v')" and t: "t \<noteq> []"
    and st: "in_name doc \<in> H' \<or> iv_status doc \<in> OPEN_OR_ANSWERED" and sub: "H \<subseteq> H'"
  shows "invitations_ok H' v' \<and> vd_docs v' = vd_docs v @ [doc]"
proof -
  from ins have val: "validate_invitation (vd_base v) t doc0 = Inr doc"
    and v': "v' = v \<lparr>vd_docs := vd_docs v @ [doc]\<rparr>"
    and fresh: "\<forall>d \<in> set (vd_docs v). in_name d \<noteq> in_name doc \<and> in_token d \<noteq> in_token doc"
    by (auto simp: insert_invitation_def res_bind_Inr_iff split: if_splits)
  have new: "in_name doc \<notin> in_name ` set (vd_docs v)" "in_token doc \<notin> in_token ` set (vd_docs v)"
    using fresh by force+
  have b: "branch_bound v' = branch_bound v" by (simp add: v' branch_bound_def fun_eq_iff)
  have "vd_base v' = vd_base v" by (simp add: v')
  note this = validated_ok [OF val t this]
  then show ?thesis using ok new st sub unfolding invitations_ok_def b by (auto simp: v')
qed

lemma rsvp_step_docs:
  assumes r: "rsvp_invitation env t d v = Inr (r, v')" and tk: "ie_token env \<noteq> []" and ok: "invitations_ok H v"
  shows "invitations_ok H v' \<and> (\<forall>e \<in> set (vd_docs v). \<exists>e' \<in> set (vd_docs v'). answered_once e e')"
proof -
  obtain doc doc' where d: "d \<in> {INVITATION_ACCEPTED_STATUS, INVITATION_DECLINED_STATUS}" and base: "vd_base v' = vd_base v"
    and f: "find (\<lambda>d. in_token d = t) (vd_docs v) = Some doc" and sent: "iv_status doc = INVITATION_SENT_STATUS"
    and val: "validate_invitation (vd_base v) (ie_token env) (doc \<lparr>iv_status := d\<rparr>) = Inr doc'"
    and docs: "vd_docs v' = map (\<lambda>e. if in_name e = in_name doc' then doc' else e) (vd_docs v)"
    using rsvp_effect [OF r] by blast
  have doc: "doc \<in> set (vd_docs v)" using f by (auto simp: find_Some_iff)
  then have tok: "in_token doc \<noteq> []" using ok by (simp add: invitations_ok_def)
  note res = validate_result [OF val]
  have same: "e = doc" if "e \<in> set (vd_docs v)" "in_name e = in_name doc'" for e
    using that doc ok res by (auto simp: invitations_ok_def distinct_map dest: inj_onD)
  have "answered_once e (if in_name e = in_name doc' then doc' else e)" if "e \<in> set (vd_docs v)" for e
    using same [OF that] res tok sent by (auto simp: answered_once_def)
  then have ans: "\<forall>e \<in> set (vd_docs v). \<exists>e' \<in> set (vd_docs v'). answered_once e e'"
    unfolding docs set_map by blast
  have "in_token e \<noteq> in_token doc'" if "e \<in> set (vd_docs v)" "in_name e \<noteq> in_name doc'" for e
    using that doc ok res tok by (auto simp: invitations_ok_def distinct_map dest: inj_onD)
  then have "invitations_ok H v'"
    using d res by (intro replaced_row_ok [OF ok val tk _ _ order_refl docs base]) (auto simp: OPEN_OR_ANSWERED_def)
  then show ?thesis using ans by blast
qed

lemma create_step_docs:
  assumes c: "create_invitation env g i ig x v = Inr (r, v')" and t: "ie_token env \<noteq> []" and ok: "invitations_ok H v"
  shows "invitations_ok H v' \<and> (\<forall>e \<in> set (vd_docs v). \<exists>e' \<in> set (vd_docs v'). answered_once e e')"
proof -
  obtain doc doc0 where e: "vd_docs v' = vd_docs v @ [doc]" "vd_base v' = vd_base v"
    and val: "validate_invitation (vd_base v) (ie_token env) doc0 = Inr doc"
    and fresh: "\<forall>d \<in> set (vd_docs v). in_name d \<noteq> in_name doc \<and> in_token d \<noteq> in_token doc"
    and st: "iv_status doc = INVITATION_SENT_STATUS"
    using create_effect [OF c t] by blast
  have "insert_invitation (ie_token env) doc0 v = Inr (doc, v \<lparr>vd_docs := vd_docs v @ [doc]\<rparr>)"
    using val fresh by (simp add: insert_invitation_def)
  then have "invitations_ok H (v \<lparr>vd_docs := vd_docs v @ [doc]\<rparr>)"
    using inserted_row_ok [OF ok _ t _ order_refl] st by (simp add: OPEN_OR_ANSWERED_def)
  then have "invitations_ok H v'" by (simp add: invitations_ok_def branch_bound_def e)
  then show ?thesis using e(1) answered_once_refl by fastforce
qed

text \<open>A step keeps the invariant, and a row no hand has touched changes only by its answer.\<close>

lemma step_docs:
  assumes "invitation_step (H, v) (H', v')" "invitations_ok H v"
  shows "invitations_ok H' v' \<and> H \<subseteq> H'
    \<and> (\<forall>d \<in> set (vd_docs v). in_name d \<notin> H' \<longrightarrow> (\<exists>d' \<in> set (vd_docs v'). answered_once d d'))"
  using assms(1)
proof cases
  case (step_create env g i ig x r)
  then show ?thesis using create_step_docs assms(2) by blast
next
  case (step_rsvp env t d r)
  then show ?thesis using rsvp_step_docs assms(2) by blast
next
  case (step_insert t doc0 doc)
  have "invitations_ok H' v' \<and> vd_docs v' = vd_docs v @ [doc]"
    using step_insert by (intro inserted_row_ok [OF assms(2)]) (auto simp: OPEN_OR_ANSWERED_def)
  then show ?thesis using step_insert(1) answered_once_refl by fastforce
next
  case (step_save t doc0 doc)
  then have val: "validate_invitation (vd_base v) t doc0 = Inr doc"
    and tok: "\<forall>e \<in> set (vd_docs v). in_name e \<noteq> in_name doc \<longrightarrow> in_token e \<noteq> in_token doc"
    and there: "\<exists>e \<in> set (vd_docs v). in_name e = in_name doc"
    and v': "v' = v \<lparr>vd_docs := map (\<lambda>e. if in_name e = in_name doc then doc else e) (vd_docs v)\<rparr>"
    by (auto simp: plain_save_invitation_def save_invitation_def res_bind_Inr_iff split: if_splits)
  have st: "in_name doc \<in> H' \<or> iv_status doc \<in> OPEN_OR_ANSWERED"
    using there assms(2) step_save(1) by (auto simp: terms_kept_def invitations_ok_def)
  have "invitations_ok H' v'"
    by (rule replaced_row_ok [OF assms(2) val step_save(2) tok st]) (auto simp: step_save(1) v')
  moreover have "\<exists>d' \<in> set (vd_docs v'). answered_once d d'" if "d \<in> set (vd_docs v)" "in_name d \<notin> H'" for d
  proof (cases "in_name d = in_name doc")
    case True
    then have "terms_kept v doc" using that(2) step_save(1) by (auto split: if_splits)
    then have "answered_once d doc" using that(1) True by (simp add: terms_kept_def)
    then show ?thesis using that(1) True by (force simp: v')
  next
    case False
    then show ?thesis using that(1) by (force simp: v' intro: answered_once_refl)
  qed
  ultimately show ?thesis using step_save(1) by auto
next
  case (step_delete n)
  have "invitations_ok H' v'"
    using assms(2) step_delete by (auto simp: invitations_ok_def branch_bound_def distinct_map_filter)
  then show ?thesis using step_delete answered_once_refl by fastforce
next
  case (step_other db)
  then have "invitations_ok H' v'" using assms(2) by (auto simp: invitations_ok_def branch_bound_def)
  moreover have "vd_docs v' = vd_docs v" "H' = H" using step_other by simp_all
  moreover have "\<exists>d' \<in> set (vd_docs v). answered_once d d'" if "d \<in> set (vd_docs v)" for d
    using that answered_once_refl by (rule rev_bexI)
  ultimately show ?thesis by simp
qed

lemma run_docs:
  assumes "invitation_run s s'" "invitations_ok (fst s) (snd s)"
  shows "invitations_ok (fst s') (snd s') \<and> fst s \<subseteq> fst s'
    \<and> (\<forall>d \<in> set (vd_docs (snd s)). in_name d \<notin> fst s' \<longrightarrow> (\<exists>d' \<in> set (vd_docs (snd s')). answered_once d d'))"
  using assms
proof (induction rule: rtranclp_induct)
  case (step s1 s2)
  note ih = step.IH [OF step.prems]
  have two: "invitation_step (fst s1, snd s1) (fst s2, snd s2)" using step.hyps(2) by simp
  note st = step_docs [OF two conjunct1 [OF ih]]
  have "\<exists>d' \<in> set (vd_docs (snd s2)). answered_once d d'"
    if d: "d \<in> set (vd_docs (snd s))" and n: "in_name d \<notin> fst s2" for d
  proof -
    obtain d1 where d1: "d1 \<in> set (vd_docs (snd s1))" "answered_once d d1" using ih st d n by blast
    moreover have "in_name d1 = in_name d" using d1(2) by (simp add: answered_once_def)
    ultimately obtain d2 where "d2 \<in> set (vd_docs (snd s2))" "answered_once d1 d2" using st n by metis
    then show ?thesis using d1(2) answered_once_trans by blast
  qed
  then show ?case using ih st by blast
next
  case base
  then show ?case using answered_once_refl by blast
qed

section \<open>Eligibility\<close>

lemma live_truncate [simp]:
  "live_invitation g (invitation_row.truncate d) \<longleftrightarrow> iv_gathering d = g \<and> iv_status d \<in> {''Sent'', ''Accepted''}"
  "iv_invitee (invitation_row.truncate d) = iv_invitee d" "iv_invitee_group (invitation_row.truncate d) = iv_invitee_group d"
  "iv_docstatus (invitation_row.truncate d) = iv_docstatus d" "iv_expires_on (invitation_row.truncate d) = iv_expires_on d"
  by (simp_all add: live_invitation_def invitation_row.truncate_def)

definition concerns :: "docname \<Rightarrow> docname \<Rightarrow> invitation_doc \<Rightarrow> bool" where
  "concerns g m d \<longleftrightarrow> iv_gathering d = g \<and> (iv_invitee d = Some m \<or> truthy (iv_invitee_group d))"

text \<open>A member who is concerned by one invitation only, a direct one, is eligible while it is
  live and has not expired.\<close>

lemma one_invitation_eligible:
  assumes docs: "vd_docs v = xs @ doc # ys" and others: "\<forall>d \<in> set (xs @ ys). \<not> concerns g m d"
    and doc: "iv_gathering doc = g" "iv_invitee doc = Some m" "\<not> truthy (iv_invitee_group doc)" "iv_docstatus doc = 0"
    and m: "m \<noteq> []" "g \<noteq> []"
  shows "is_member_in_scope m g SCOPE_INVITED_ONLY (FrappeRegistrationScopeGateway (registration_view v) now) =
    Inr (iv_status doc \<in> {''Sent'', ''Accepted''} \<and> \<not> is_invitation_expired (iv_expires_on doc) now)"
proof -
  let ?rows = "map invitation_row.truncate (vd_docs v)"
  let ?d = "\<lambda>i. live_invitation g i \<and> iv_invitee i = Some m \<and> iv_docstatus i < 2"
  have none: "find ?d (map invitation_row.truncate zs) = None" if "\<forall>d \<in> set zs. \<not> concerns g m d" for zs
    using that by (auto simp: find_None_iff concerns_def)
  have direct: "find ?d ?rows = (if iv_status doc \<in> {''Sent'', ''Accepted''} then Some (invitation_row.truncate doc) else None)"
  proof -
    have "find ?d (map invitation_row.truncate xs @ zs) = find ?d zs" for zs
      using others by (induction xs) (auto simp: concerns_def)
    then show ?thesis using none [of ys] others doc by (simp add: docs)
  qed
  have groups: "filter (\<lambda>i. live_invitation g i \<and> truthy (iv_invitee_group i) \<and> iv_docstatus i < 2) ?rows = []"
    using others doc by (auto simp: docs filter_empty_conv concerns_def)
  have "frappe_has_valid_invitation (registration_view v) now g m =
      Inr (iv_status doc \<in> {''Sent'', ''Accepted''} \<and> \<not> is_invitation_expired (iv_expires_on doc) now)"
    unfolding frappe_has_valid_invitation_def Let_def
    using m by (simp add: registration_view_def direct groups del: filter_map)
  then show ?thesis
    using m by (simp add: is_member_in_scope_def CLOSED_SCOPES_def FrappeRegistrationScopeGateway_def Let_def status_defs)
qed

section \<open>Properties\<close>

text \<open>C12. Starting from no invitation, whatever the endpoints do and whatever users insert, save or
  delete by hand, as long as no gathering changes its branch, names and tokens stay unique and every
  invitation is bound to the branch of its gathering.  An invitation no hand has touched is Sent, Accepted or Declined - the status Expired
  is never stored by the endpoints, since the answer that would store it is refused and rolled
  back - and later it still has its token, its gathering, its invitee and its term, and its
  answer, once given, is final.  Only the endpoints are held to this: a save by hand may store
  any status (\<open>plain_save_expires\<close>).\<close>
theorem invitation_lifecycle:
  assumes "vd_docs v0 = []" and "invitation_run ({}, v0) (H, v)" and "invitation_run (H, v) (H', v')"
  shows "distinct (map in_name (vd_docs v)) \<and> distinct (map in_token (vd_docs v))
    \<and> (\<forall>d \<in> set (vd_docs v). in_token d \<noteq> []
        \<and> (\<forall>b. gathering_col (vd_base v) eg_branch (iv_gathering d) = Some b \<and> b \<noteq> [] \<longrightarrow> in_branch d = b)
        \<and> (in_name d \<notin> H \<longrightarrow>
             iv_status d \<in> {INVITATION_SENT_STATUS, INVITATION_ACCEPTED_STATUS, INVITATION_DECLINED_STATUS}))
    \<and> (\<forall>d \<in> set (vd_docs v). in_name d \<notin> H' \<longrightarrow> (\<exists>d' \<in> set (vd_docs v'). in_name d' = in_name d
        \<and> in_token d' = in_token d \<and> iv_gathering d' = iv_gathering d \<and> iv_invitee d' = iv_invitee d
        \<and> iv_invitee_group d' = iv_invitee_group d \<and> iv_expires_on d' = iv_expires_on d
        \<and> (iv_status d \<noteq> INVITATION_SENT_STATUS \<longrightarrow> iv_status d' = iv_status d)))"
proof -
  have "invitations_ok {} v0" using assms(1) by (simp add: invitations_ok_def)
  then have ok: "invitations_ok H v" using run_docs [OF assms(2)] by simp
  then have later: "\<forall>d \<in> set (vd_docs v). in_name d \<notin> H' \<longrightarrow> (\<exists>d' \<in> set (vd_docs v'). answered_once d d')"
    using run_docs [OF assms(3)] by simp
  show ?thesis
  proof (intro conjI)
    show "\<forall>d \<in> set (vd_docs v). in_token d \<noteq> []
        \<and> (\<forall>b. gathering_col (vd_base v) eg_branch (iv_gathering d) = Some b \<and> b \<noteq> [] \<longrightarrow> in_branch d = b)
        \<and> (in_name d \<notin> H \<longrightarrow>
             iv_status d \<in> {INVITATION_SENT_STATUS, INVITATION_ACCEPTED_STATUS, INVITATION_DECLINED_STATUS})"
      using ok by (auto simp: invitations_ok_def branch_bound_def OPEN_OR_ANSWERED_def)
  qed (use ok later in \<open>simp_all add: invitations_ok_def answered_once_def\<close>)
qed

text \<open>A member invited to an event for invited members, and concerned by no other invitation of
  it, passes the scope gate of a registration until the invitation expires.  The answer by its
  token, by whoever holds it, succeeds while it has not expired; after an acceptance the gate still
  opens only until the expiry, after a refusal never; and neither answer makes a registration.\<close>
theorem invitation_admits:
  assumes "create_invitation env g (Some m) None x v = Inr (r, v')" and "ie_token env \<noteq> []" and "m \<noteq> []"
    and "\<forall>d \<in> set (vd_docs v). \<not> concerns g m d"
    and "decision \<in> {INVITATION_ACCEPTED_STATUS, INVITATION_DECLINED_STATUS}"
    and "\<not> is_invitation_expired x (ie_now env')"
  shows "is_member_in_scope m g SCOPE_INVITED_ONLY (FrappeRegistrationScopeGateway (registration_view v') now)
      = Inr (\<not> is_invitation_expired x now)
    \<and> (\<exists>r' v''. rsvp_invitation env' (the (ir_token r)) decision v' = Inr (r', v'')
        \<and> is_member_in_scope m g SCOPE_INVITED_ONLY (FrappeRegistrationScopeGateway (registration_view v'') now)
            = Inr (decision = INVITATION_ACCEPTED_STATUS \<and> \<not> is_invitation_expired x now)
        \<and> rd_registrations (registration_view v'') = rd_registrations (registration_view v))"
proof -
  obtain doc doc0 where c: "vd_docs v' = vd_docs v @ [doc]" "vd_base v' = vd_base v"
    "validate_invitation (vd_base v) (ie_token env) doc0 = Inr doc"
    "\<forall>d \<in> set (vd_docs v). in_name d \<noteq> in_name doc \<and> in_token d \<noteq> in_token doc"
    and doc: "iv_gathering doc = g" "iv_invitee doc = Some m" "iv_invitee_group doc = Some []"
    "iv_status doc = INVITATION_SENT_STATUS" "iv_expires_on doc = x" "iv_docstatus doc = 0"
    "in_token doc = ie_token env" and r: "r = \<lparr>ir_invitation = in_name doc, ir_status = iv_status doc, ir_token = Some (in_token doc)\<rparr>"
    using create_effect [OF assms(1,2)] by auto
  have g: "g \<noteq> []" using assms(1) by (auto simp: create_invitation_def)
  let ?doc' = "doc \<lparr>iv_status := decision\<rparr>"
  have again: "validate_invitation (vd_base v') (ie_token env') ?doc' = Inr ?doc'"
    using validate_again [OF c(3)] assms(2) doc c(2) by simp
  have skip: "find P (ds @ zs) = find P zs" if "\<forall>d \<in> set ds. \<not> P d" for P :: "invitation_doc \<Rightarrow> bool" and ds zs
    using that by (induction ds) auto
  have "find (\<lambda>d. in_token d = in_token doc) (vd_docs v @ zs) = find (\<lambda>d. in_token d = in_token doc) zs" for zs
    using c(4) by (intro skip) auto
  then have found: "find (\<lambda>d. in_token d = in_token doc) (vd_docs v') = Some doc" by (simp add: c(1))
  have others: "map (\<lambda>d. if in_name d = in_name doc then ?doc' else d) (vd_docs v) = vd_docs v"
    using c(4) by (intro map_idI) auto
  have open': "\<not> (decision \<noteq> INVITATION_ACCEPTED_STATUS \<and> decision \<noteq> INVITATION_DECLINED_STATUS)"
    "\<not> is_invitation_expired (iv_expires_on doc) (ie_now env')"
    using assms(5,6) doc(5) by auto
  have "save_invitation (ie_token env') ?doc' v' = Inr (?doc', v' \<lparr>vd_docs := vd_docs v @ [?doc']\<rparr>)"
    using again others by (simp add: save_invitation_def c(1))
  then have "\<exists>r' v''. rsvp_invitation env' (in_token doc) decision v' = Inr (r', v'')
      \<and> vd_docs v'' = vd_docs v @ [?doc'] \<and> vd_base v'' = vd_base v"
    by (simp add: rsvp_invitation_def open' found doc(4) c(2) case_prod_beta Let_def)
  then obtain r' v'' where ans: "rsvp_invitation env' (the (ir_token r)) decision v' = Inr (r', v'')"
    and v'': "vd_docs v'' = vd_docs v @ [?doc']" "vd_base v'' = vd_base v"
    by (auto simp: r)
  note gate = one_invitation_eligible [where g = g and m = m and now = now and ys = "[]", OF _ _ _ _ _ _ assms(3) g]
  have first: "is_member_in_scope m g SCOPE_INVITED_ONLY (FrappeRegistrationScopeGateway (registration_view v') now)
      = Inr (\<not> is_invitation_expired x now)"
    using gate [of v' "vd_docs v" doc] c(1) assms(4) doc by (simp add: INVITATION_SENT_STATUS_def)
  have second: "is_member_in_scope m g SCOPE_INVITED_ONLY (FrappeRegistrationScopeGateway (registration_view v'') now)
      = Inr (decision = INVITATION_ACCEPTED_STATUS \<and> \<not> is_invitation_expired x now)"
    using gate [of v'' "vd_docs v" ?doc'] v''(1) assms(4,5) doc
    by (auto simp: INVITATION_ACCEPTED_STATUS_def INVITATION_DECLINED_STATUS_def)
  have "rd_registrations (registration_view v'') = rd_registrations (registration_view v)"
    by (simp add: registration_view_def v''(2))
  with first second ans show ?thesis by blast
qed

section \<open>Witnesses\<close>

definition demo_invitations :: invitation_db where
  "demo_invitations = \<lparr>vd_base = demo_db, vd_docs = [], vd_events = []\<rparr>"

definition demo_invite_env :: "string \<Rightarrow> invitation_env" where
  "demo_invite_env now = \<lparr>ie_user = ''u1'', ie_now = now,
     ie_perm = NullPermissionGateway \<lparr>pg_user_roles := (\<lambda>_. {ROLE_ORG_ADMIN})\<rparr>, ie_name = ''I1'', ie_token = ''t1''\<rparr>"

lemma demo_created:
  "\<exists>r v'. create_invitation (demo_invite_env ''1'') ''G'' (Some ''M1'') None (Some ''5'') demo_invitations = Inr (r, v')
    \<and> ir_token r = Some ''t1''"
proof -
  have "case create_invitation (demo_invite_env ''1'') ''G'' (Some ''M1'') None (Some ''5'') demo_invitations of
      Inl _ \<Rightarrow> False | Inr (r, _) \<Rightarrow> ir_token r = Some ''t1''"
    by code_simp
  then show ?thesis by (auto split: sum.splits)
qed

lemma invitation_lifecycle_witness:
  "\<exists>v. invitation_run ({}, demo_invitations) ({}, v) \<and> vd_docs v \<noteq> []
    \<and> (\<forall>d \<in> set (vd_docs v). iv_status d \<noteq> INVITATION_EXPIRED_STATUS)"
proof -
  obtain r v' where c: "create_invitation (demo_invite_env ''1'') ''G'' (Some ''M1'') None (Some ''5'') demo_invitations = Inr (r, v')"
    using demo_created by blast
  have t: "ie_token (demo_invite_env ''1'') \<noteq> []" by (simp add: demo_invite_env_def)
  have "invitation_run ({}, demo_invitations) ({}, v')" using step_create [OF t c] by blast
  moreover have "vd_docs v' \<noteq> []" using create_effect [OF c t] by auto
  ultimately show ?thesis using invitation_lifecycle [of demo_invitations "{}" v' "{}" v']
    by (fastforce simp: demo_invitations_def status_defs)
qed

lemma invitation_admits_witness:
  "\<exists>r v'. create_invitation (demo_invite_env ''1'') ''G'' (Some ''M1'') None (Some ''5'') demo_invitations = Inr (r, v')
    \<and> is_member_in_scope ''M1'' ''G'' SCOPE_INVITED_ONLY (FrappeRegistrationScopeGateway (registration_view v') ''2'') = Inr True
    \<and> (\<exists>r' v''. rsvp_invitation (demo_invite_env ''3'') ''t1'' INVITATION_ACCEPTED_STATUS v' = Inr (r', v'')
        \<and> is_member_in_scope ''M1'' ''G'' SCOPE_INVITED_ONLY (FrappeRegistrationScopeGateway (registration_view v'') ''2'') = Inr True)"
proof -
  obtain r v' where c: "create_invitation (demo_invite_env ''1'') ''G'' (Some ''M1'') None (Some ''5'') demo_invitations = Inr (r, v')"
    and t: "ir_token r = Some ''t1''"
    using demo_created by blast
  have "\<not> is_invitation_expired (Some ''5'') ''2''" "\<not> is_invitation_expired (Some ''5'') (ie_now (demo_invite_env ''3''))"
    by code_simp+
  then show ?thesis
    using invitation_admits [OF c, of INVITATION_ACCEPTED_STATUS "demo_invite_env ''3''" "''2''"] c t
    by (auto simp: demo_invite_env_def demo_invitations_def)
qed

text \<open>A save by hand stores Expired, or takes an answer back.\<close>

lemma plain_save_expires:
  "case create_invitation (demo_invite_env ''1'') ''G'' (Some ''M1'') None (Some ''5'') demo_invitations of
     Inl _ \<Rightarrow> False
   | Inr (r, v) \<Rightarrow> (case plain_save_invitation ''t2'' ((hd (vd_docs v)) \<lparr>iv_status := INVITATION_EXPIRED_STATUS\<rparr>) v of
        Inl _ \<Rightarrow> False | Inr (d, v') \<Rightarrow> map iv_status (vd_docs v') = [INVITATION_EXPIRED_STATUS])"
  by code_simp

end
