(* ===== verification/Notifications.thy ===== *)
theory Notifications
  imports Realtime Tree_Tables
begin

text \<open>
  Model of \<open>flock_os/notifications.py\<close>: the scope of a push, the port of tree and leader reads with
  its production adapter over the tables, the audience of a scope, and the fan-out to the rooms of
  the audience's nodes.  The publisher is the one of the realtime projection or none; the bus is
  that of \<open>Events\<close>.  A full table read of the framework keeps the order of the table.
\<close>

section \<open>Rooms and scopes\<close>

definition NOTIFY_ROOM_PREFIX :: string where "NOTIFY_ROOM_PREFIX = ''flock_os:notify''"
definition BRANCH_AXIS :: string where "BRANCH_AXIS = ''branch''"
definition GROUP_AXIS :: string where "GROUP_AXIS = ''group''"
definition DEFAULT_AUDIENCE_ROLE :: string where "DEFAULT_AUDIENCE_ROLE = ''Leaders Only''"

definition branch_notification_room :: "docname \<Rightarrow> string" where
  "branch_notification_room branch = NOTIFY_ROOM_PREFIX @ '':'' @ BRANCH_AXIS @ '':'' @ branch @ '':'' @ BROADCAST_SEGMENT"

definition group_notification_room :: "docname \<Rightarrow> string" where
  "group_notification_room grp = NOTIFY_ROOM_PREFIX @ '':'' @ GROUP_AXIS @ '':'' @ grp @ '':'' @ BROADCAST_SEGMENT"

record notification_scope =
  ns_organization :: string
  ns_branch :: "docname option"
  ns_group :: "docname option"

definition scope_axis :: "notification_scope \<Rightarrow> string" where
  "scope_axis scope = (if truthy (ns_group scope) then GROUP_AXIS
     else if truthy (ns_branch scope) then BRANCH_AXIS else '''')"

datatype notification_error =
    Notify_Organization_Required
  | Notify_Anchor_Required
  | Notify_No_Group docname
  | Notify_Unbound_Group docname
  | Notify_Foreign_Group docname docname
  | Notify_Group_Branch docname docname
  | Notify_Foreign_Branch docname
  | Notify_Tree tree_error
  | Notify_Subscriber string

section \<open>The port\<close>

record fanout_gateway =
  fg_branch_exists :: "docname \<Rightarrow> string \<Rightarrow> bool"
  fg_group_exists :: "docname \<Rightarrow> bool"
  fg_group_branch :: "docname \<Rightarrow> docname option"
  fg_branch_parent_of :: parent_map
  fg_branch_children_of :: child_map
  fg_group_children_of :: child_map
  fg_leaders_in_branches :: "docname list \<Rightarrow> docname list"
  fg_leaders_in_groups :: "docname list \<Rightarrow> docname list"

definition NullNotificationFanoutGateway :: fanout_gateway where
  "NullNotificationFanoutGateway = \<lparr>fg_branch_exists = (\<lambda>_ _. False), fg_group_exists = (\<lambda>_. False),
     fg_group_branch = (\<lambda>_. None), fg_branch_parent_of = [], fg_branch_children_of = [], fg_group_children_of = [],
     fg_leaders_in_branches = (\<lambda>_. []), fg_leaders_in_groups = (\<lambda>_. [])\<rparr>"

section \<open>The production adapter\<close>

record leader_row =
  lw_group :: "docname option"
  lw_branch :: "docname option"
  lw_member :: "docname option"
  lw_role :: string
  lw_status :: string

record org_tables =
  ot_branches :: "branch_row list"
  ot_groups :: "group_row list"
  ot_roster :: "leader_row list"

definition branch_named :: "org_tables \<Rightarrow> docname \<Rightarrow> branch_row option" where
  "branch_named tt b = find (\<lambda>r. br_name r = b) (ot_branches tt)"

definition group_named :: "org_tables \<Rightarrow> docname \<Rightarrow> group_row option" where
  "group_named tt g = find (\<lambda>r. gr_name r = g) (ot_groups tt)"

definition org_branch_exists :: "org_tables \<Rightarrow> docname \<Rightarrow> string \<Rightarrow> bool" where
  "org_branch_exists tt branch organization =
    (let row = Option.bind (branch_named tt branch) br_organization in truthy row \<and> row = Some organization)"

text \<open>\<open>{row.name: row.parent or None}\<close>, and its inverse over the names that exist.\<close>

definition parents_of_rows :: "('r \<Rightarrow> docname) \<Rightarrow> ('r \<Rightarrow> docname option) \<Rightarrow> 'r list \<Rightarrow> parent_map" where
  "parents_of_rows name_of parent_of rows =
    fold (\<lambda>r. AList.update (name_of r) (if truthy (parent_of r) then parent_of r else None)) rows []"

definition children_of_parents :: "parent_map \<Rightarrow> child_map" where
  "children_of_parents parents =
    fold (\<lambda>(name, parent) children.
        case parent of None \<Rightarrow> children
        | Some p \<Rightarrow> if p \<in> fst ` set children then dict_push p name children else children)
      parents (map (\<lambda>(name, _). (name, [])) parents)"

definition select_leaders :: "org_tables \<Rightarrow> docname list \<Rightarrow> docname list \<Rightarrow> docname list" where
  "select_leaders tt filters_branch filters_group =
    (let group_rows = filter (\<lambda>r. (filters_branch \<noteq> [] \<longrightarrow> gr_branch r \<in> Some ` set filters_branch)
           \<and> (filters_group \<noteq> [] \<longrightarrow> gr_name r \<in> set filters_group)) (ot_groups tt);
         accountable = (if filters_branch \<noteq> [] \<or> filters_group \<noteq> []
           then map (\<lambda>r. the (gr_leader r)) (filter (\<lambda>r. truthy (gr_leader r)) group_rows) else []);
         roster = filter (\<lambda>r. lw_role r \<in> set LEADER_ROSTER_ROLES \<and> lw_status r = ''Active''
           \<and> (filters_branch \<noteq> [] \<longrightarrow> lw_branch r \<in> Some ` set filters_branch)
           \<and> (filters_group \<noteq> [] \<longrightarrow> lw_group r \<in> Some ` set filters_group)) (ot_roster tt)
     in dedup (accountable @ map (\<lambda>r. the (lw_member r)) (filter (\<lambda>r. truthy (lw_member r)) roster)))"

definition FrappeNotificationFanoutGateway :: "org_tables \<Rightarrow> fanout_gateway" where
  "FrappeNotificationFanoutGateway tt =
    \<lparr>fg_branch_exists = org_branch_exists tt,
     fg_group_exists = (\<lambda>g. group_named tt g \<noteq> None),
     fg_group_branch = (\<lambda>g. Option.bind (group_named tt g) gr_branch),
     fg_branch_parent_of = parents_of_rows br_name br_parent (ot_branches tt),
     fg_branch_children_of = children_of_parents (parents_of_rows br_name br_parent (ot_branches tt)),
     fg_group_children_of = children_of_parents (parents_of_rows gr_name gr_parent (ot_groups tt)),
     fg_leaders_in_branches = (\<lambda>bs. select_leaders tt bs []),
     fg_leaders_in_groups = (\<lambda>gs. select_leaders tt [] gs)\<rparr>"

section \<open>The audience\<close>

record scoped_audience =
  sa_axis :: string
  sa_nodes :: "docname list"
  sa_leaders :: "docname list"

definition audience_size :: "scoped_audience \<Rightarrow> nat" where
  "audience_size a = length (sa_leaders a)"

definition validate_notification_scope :: "notification_scope \<Rightarrow> fanout_gateway \<Rightarrow> notification_error + unit" where
  "validate_notification_scope scope gateway =
    (if ns_organization scope = [] then Inl Notify_Organization_Required
     else if \<not> truthy (ns_branch scope) \<and> \<not> truthy (ns_group scope) then Inl Notify_Anchor_Required
     else if truthy (ns_group scope) then
       let g = the (ns_group scope); group_branch = fg_group_branch gateway g
       in if \<not> fg_group_exists gateway g then Inl (Notify_No_Group g)
          else if \<not> truthy group_branch then Inl (Notify_Unbound_Group g)
          else if \<not> fg_branch_exists gateway (the group_branch) (ns_organization scope)
          then Inl (Notify_Foreign_Group g (the group_branch))
          else if truthy (ns_branch scope) \<and> ns_branch scope \<noteq> group_branch
          then Inl (Notify_Group_Branch g (the group_branch))
          else Inr ()
     else if \<not> fg_branch_exists gateway (the (ns_branch scope)) (ns_organization scope)
     then Inl (Notify_Foreign_Branch (the (ns_branch scope)))
     else Inr ())"

definition lift_tree :: "tree_error + 'a \<Rightarrow> notification_error + 'a" where
  "lift_tree r = (case r of Inl e \<Rightarrow> Inl (Notify_Tree e) | Inr a \<Rightarrow> Inr a)"

definition resolve_scoped_audience :: "notification_scope \<Rightarrow> fanout_gateway \<Rightarrow> notification_error + scoped_audience" where
  "resolve_scoped_audience scope gateway =
    res_bind (validate_notification_scope scope gateway) (\<lambda>_.
      if truthy (ns_group scope)
      then res_bind (lift_tree (subtree_of (the (ns_group scope)) (fg_group_children_of gateway))) (\<lambda>nodes.
             Inr \<lparr>sa_axis = GROUP_AXIS, sa_nodes = nodes, sa_leaders = fg_leaders_in_groups gateway nodes\<rparr>)
      else res_bind (lift_tree (compute_branch_subtree (the (ns_branch scope)) (fg_branch_children_of gateway))) (\<lambda>nodes.
             Inr \<lparr>sa_axis = BRANCH_AXIS, sa_nodes = nodes, sa_leaders = fg_leaders_in_branches gateway nodes\<rparr>))"

definition rooms_for :: "scoped_audience \<Rightarrow> string list" where
  "rooms_for audience =
    (if sa_axis audience = GROUP_AXIS then map group_notification_room (sa_nodes audience)
     else map branch_notification_room (sa_nodes audience))"

section \<open>The fan-out\<close>

record notification =
  nt_subject :: string
  nt_body :: string
  nt_audience_role :: string
  nt_category :: "string option"
  nt_ref :: "string option"

record fanout_result =
  fr_audience :: scoped_audience
  fr_rooms :: "string list"
  fr_event :: domain_event
  fr_ref :: "string option"

definition fanout_message :: "notification_scope \<Rightarrow> notification \<Rightarrow> scoped_audience \<Rightarrow> pydict" where
  "fanout_message scope n audience =
    [(''subject'', Py_Str (nt_subject n)), (''body'', Py_Str (nt_body n)),
     (''audience_role'', Py_Str (nt_audience_role n)), (''axis'', Py_Str (sa_axis audience)),
     (''nodes'', Py_List (map Py_Str (sa_nodes audience))), (''audience_size'', Py_Num (of_nat (audience_size audience))),
     (''organization'', Py_Str (ns_organization scope)), (''branch'', py_of_opt (ns_branch scope)),
     (''group'', py_of_opt (ns_group scope))]
    @ (case nt_category n of None \<Rightarrow> [] | Some c \<Rightarrow> [(''category'', Py_Str c)])
    @ (case nt_ref n of None \<Rightarrow> [] | Some r \<Rightarrow> [(''notification_ref'', Py_Str r)])"

definition fanout_payload :: "notification \<Rightarrow> scoped_audience \<Rightarrow> pydict" where
  "fanout_payload n audience =
    [(''subject'', Py_Str (nt_subject n)), (''body'', Py_Str (nt_body n)),
     (''audience_role'', Py_Str (nt_audience_role n)), (''axis'', Py_Str (sa_axis audience)),
     (''nodes'', Py_List (map Py_Str (sa_nodes audience))), (''audience_size'', Py_Num (of_nat (audience_size audience))),
     (''category'', py_of_opt (nt_category n)), (''notification_ref'', py_of_opt (nt_ref n))]"

definition scope_dict :: "notification_scope \<Rightarrow> pydict" where
  "scope_dict scope = [(''organization'', Py_Str (ns_organization scope)), (''branch'', py_of_opt (ns_branch scope)),
     (''group'', py_of_opt (ns_group scope))]"

text \<open>\<open>publisher\<close> says whether one is installed; without it the null publisher takes every push.\<close>

definition fanout_scoped_notification ::
  "notification_scope \<Rightarrow> notification \<Rightarrow> fanout_gateway \<Rightarrow> bool \<Rightarrow> push_world event_bus \<Rightarrow> push_world
    \<Rightarrow> push_world \<times> (notification_error + fanout_result)" where
  "fanout_scoped_notification scope n gateway publisher bus w =
    (case resolve_scoped_audience scope gateway of Inl e \<Rightarrow> (w, Inl e)
     | Inr audience \<Rightarrow>
       let rooms = (if audience_size audience > 0 then rooms_for audience else []);
           message = fanout_message scope n audience;
           w1 = (if publisher then publish_all
                   (map (\<lambda>room. \<lparr>em_event = RT_NOTIFICATION, em_room = room, em_message = message\<rparr>) rooms) w
                 else w)
       in case bus_emit bus NOTIFICATION_SENT (fanout_payload n audience) (scope_dict scope) False None w1 of
            (w2, Inl e) \<Rightarrow> (w2, Inl (Notify_Subscriber e))
          | (w2, Inr event) \<Rightarrow>
              (w2, Inr \<lparr>fr_audience = audience, fr_rooms = rooms, fr_event = event, fr_ref = nt_ref n\<rparr>))"

text \<open>The process-wide service has the production adapter and no publisher.\<close>

definition production_fanout ::
  "notification_scope \<Rightarrow> notification \<Rightarrow> org_tables \<Rightarrow> push_world event_bus \<Rightarrow> push_world
    \<Rightarrow> push_world \<times> (notification_error + fanout_result)" where
  "production_fanout scope n tt = fanout_scoped_notification scope n (FrappeNotificationFanoutGateway tt) False"

end
