(* ===== verification/Announcements.thy ===== *)
theory Announcements
  imports Notifications Permissions
begin

text \<open>
  Model of \<open>flock_os/scheduling.py\<close> and of the hook of
  \<open>flock_os/flock_os/doctype/flock_announcement/flock_announcement.py\<close>: the lifecycle of an
  announcement, its scope contract, and the endpoints which preview, publish and schedule it.

  A request that raises rolls the tables back, its outbox rows included; what was pushed to the
  browsers stays pushed.
\<close>

section \<open>The lifecycle\<close>

definition ANNOUNCEMENT_DRAFT :: string where [status_defs]: "ANNOUNCEMENT_DRAFT = ''Draft''"
definition ANNOUNCEMENT_SCHEDULED_STATUS :: string where [status_defs]: "ANNOUNCEMENT_SCHEDULED_STATUS = ''Scheduled''"
definition ANNOUNCEMENT_PUBLISHING :: string where [status_defs]: "ANNOUNCEMENT_PUBLISHING = ''Publishing''"
definition ANNOUNCEMENT_PUBLISHED_STATUS :: string where [status_defs]: "ANNOUNCEMENT_PUBLISHED_STATUS = ''Published''"
definition ANNOUNCEMENT_ARCHIVED :: string where [status_defs]: "ANNOUNCEMENT_ARCHIVED = ''Archived''"

definition ANNOUNCEMENT_STATUSES :: "string list" where
  "ANNOUNCEMENT_STATUSES = [ANNOUNCEMENT_DRAFT, ANNOUNCEMENT_SCHEDULED_STATUS, ANNOUNCEMENT_PUBLISHING,
     ANNOUNCEMENT_PUBLISHED_STATUS, ANNOUNCEMENT_ARCHIVED]"

definition ANNOUNCEMENT_TRANSITIONS :: "(string \<times> string list) list" where
  "ANNOUNCEMENT_TRANSITIONS =
    [(ANNOUNCEMENT_DRAFT, [ANNOUNCEMENT_SCHEDULED_STATUS, ANNOUNCEMENT_PUBLISHING, ANNOUNCEMENT_PUBLISHED_STATUS]),
     (ANNOUNCEMENT_SCHEDULED_STATUS, [ANNOUNCEMENT_PUBLISHING, ANNOUNCEMENT_PUBLISHED_STATUS]),
     (ANNOUNCEMENT_PUBLISHING, [ANNOUNCEMENT_PUBLISHED_STATUS]),
     (ANNOUNCEMENT_PUBLISHED_STATUS, [ANNOUNCEMENT_ARCHIVED]),
     (ANNOUNCEMENT_ARCHIVED, [])]"

datatype announcement_error =
    Announce_Organization_Required
  | Announce_Branch_Required
  | Announce_Foreign_Branch docname
  | Announce_No_Group docname
  | Announce_Unbound_Group docname
  | Announce_Group_Branch docname docname
  | Announce_Unknown_Status string
  | Announce_No_Time
  | Announce_Illegal_Transition string string
  | Announce_Tree tree_error
  | Announce_Guard permission_error
  | Announce_Not_Found docname
  | Announce_Missing_Argument
  | Announce_Fanout notification_error
  | Announce_Subscriber string

record announcement =
  an_name :: docname
  an_organization :: "docname option"
  an_branch :: "docname option"
  an_group :: "docname option"
  an_status :: "string option"
  an_scheduled_at :: "string option"
  an_published_at :: "string option"
  an_subject :: string
  an_body :: "string option"
  an_audience_role :: "string option"
  an_category :: "string option"
  an_channels :: "string option list"
  an_notification :: "docname option"

section \<open>The port\<close>

record scheduling_gateway =
  sg_branch_exists :: "docname \<Rightarrow> string \<Rightarrow> bool"
  sg_group_exists :: "docname \<Rightarrow> bool"
  sg_group_branch :: "docname \<Rightarrow> docname option"
  sg_branch_parent_of :: parent_map
  sg_branch_children_of :: child_map

definition NullSchedulingGateway :: scheduling_gateway where
  "NullSchedulingGateway = \<lparr>sg_branch_exists = (\<lambda>_ _. False), sg_group_exists = (\<lambda>_. False),
     sg_group_branch = (\<lambda>_. None), sg_branch_parent_of = [], sg_branch_children_of = []\<rparr>"

definition FrappeSchedulingGateway :: "org_tables \<Rightarrow> scheduling_gateway" where
  "FrappeSchedulingGateway tt =
    \<lparr>sg_branch_exists = org_branch_exists tt,
     sg_group_exists = (\<lambda>g. group_named tt g \<noteq> None),
     sg_group_branch = (\<lambda>g. Option.bind (group_named tt g) gr_branch),
     sg_branch_parent_of = parents_of_rows br_name br_parent (ot_branches tt),
     sg_branch_children_of = children_of_parents (parents_of_rows br_name br_parent (ot_branches tt))\<rparr>"

section \<open>Rules\<close>

definition status_of :: "announcement \<Rightarrow> string" where
  "status_of doc = (if truthy (an_status doc) then the (an_status doc) else ANNOUNCEMENT_DRAFT)"

definition validate_announcement_scope :: "announcement \<Rightarrow> scheduling_gateway \<Rightarrow> announcement_error + unit" where
  "validate_announcement_scope doc gateway =
    (let status = status_of doc; branch = the (an_branch doc); grp = the (an_group doc);
         group_branch = sg_group_branch gateway grp in
     if \<not> truthy (an_organization doc) then Inl Announce_Organization_Required
     else if \<not> truthy (an_branch doc) then Inl Announce_Branch_Required
     else if \<not> sg_branch_exists gateway branch (the (an_organization doc)) then Inl (Announce_Foreign_Branch branch)
     else if truthy (an_group doc) \<and> \<not> sg_group_exists gateway grp then Inl (Announce_No_Group grp)
     else if truthy (an_group doc) \<and> \<not> truthy group_branch then Inl (Announce_Unbound_Group grp)
     else if truthy (an_group doc) \<and> group_branch \<noteq> an_branch doc then Inl (Announce_Group_Branch grp (the group_branch))
     else if status \<notin> set ANNOUNCEMENT_STATUSES then Inl (Announce_Unknown_Status status)
     else if status = ANNOUNCEMENT_SCHEDULED_STATUS \<and> \<not> truthy (an_scheduled_at doc) then Inl Announce_No_Time
     else Inr ())"

definition validate_status_transition :: "string \<Rightarrow> string \<Rightarrow> announcement_error + unit" where
  "validate_status_transition current target =
    (let allowed = (case map_of ANNOUNCEMENT_TRANSITIONS current of None \<Rightarrow> [] | Some ts \<Rightarrow> ts)
     in if target \<notin> set allowed then Inl (Announce_Illegal_Transition current target) else Inr ())"

definition resolve_audience_branches :: "docname \<Rightarrow> scheduling_gateway \<Rightarrow> announcement_error + docname list" where
  "resolve_audience_branches branch gateway =
    (if branch = [] then Inl Announce_Branch_Required
     else case compute_branch_subtree branch (sg_branch_children_of gateway) of
       Inl e \<Rightarrow> Inl (Announce_Tree e) | Inr bs \<Rightarrow> Inr bs)"

text \<open>The hook of the document.\<close>

definition branch_organization_default :: "org_tables \<Rightarrow> announcement \<Rightarrow> announcement" where
  "branch_organization_default tt doc =
    (if truthy (an_organization doc) \<or> \<not> truthy (an_branch doc) then doc
     else let branch_org = Option.bind (branch_named tt (the (an_branch doc))) br_organization
     in if truthy branch_org then doc \<lparr>an_organization := branch_org\<rparr> else doc)"

definition validate_announcement :: "org_tables \<Rightarrow> announcement \<Rightarrow> announcement_error + announcement" where
  "validate_announcement tt doc0 =
    (let doc = branch_organization_default tt doc0
     in res_bind (validate_announcement_scope doc (FrappeSchedulingGateway tt)) (\<lambda>_. Inr doc))"

section \<open>The endpoints\<close>

record announce_world =
  aw_tables :: org_tables
  aw_docs :: "announcement list"
  aw_push :: push_world

record announce_env =
  ae_user :: string
  ae_now :: string
  ae_perm :: permission_gateway
  ae_bus :: "push_world event_bus"

definition frappe_author_branch_scope :: "announce_env \<Rightarrow> docname option \<Rightarrow> announcement_error + unit" where
  "frappe_author_branch_scope env branch =
    (if ae_user env = [] then Inr ()
     else case assert_branch_scope (ae_perm env) branch (ae_user env) of
       Inl e \<Rightarrow> Inl (Announce_Guard e) | Inr _ \<Rightarrow> Inr ())"

definition draft_target :: "docname \<Rightarrow> docname \<Rightarrow> docname option \<Rightarrow> announcement" where
  "draft_target organization branch grp =
    \<lparr>an_name = [], an_organization = Some organization, an_branch = Some branch, an_group = grp,
     an_status = Some ANNOUNCEMENT_DRAFT, an_scheduled_at = None, an_published_at = None, an_subject = [],
     an_body = None, an_audience_role = None, an_category = None, an_channels = [], an_notification = None\<rparr>"

definition preview_audience ::
  "announce_env \<Rightarrow> org_tables \<Rightarrow> docname \<Rightarrow> docname \<Rightarrow> docname option \<Rightarrow> announcement_error + docname list \<times> nat" where
  "preview_audience env tt organization branch grp =
    (let gateway = FrappeSchedulingGateway tt in
     res_bind (validate_announcement_scope (draft_target organization branch grp) gateway) (\<lambda>_.
     res_bind (frappe_author_branch_scope env (Some branch)) (\<lambda>_.
     res_bind (resolve_audience_branches branch gateway) (\<lambda>branches.
       Inr (branches, length branches)))))"

definition save_announcement :: "announcement \<Rightarrow> announce_world \<Rightarrow> announcement_error + announce_world" where
  "save_announcement doc0 w =
    res_bind (validate_announcement (aw_tables w) doc0) (\<lambda>doc.
      Inr (w \<lparr>aw_docs := map (\<lambda>d. if an_name d = an_name doc then doc else d) (aw_docs w)\<rparr>))"

text \<open>The call of the fan-out; a call without its gateway raises before the body runs.  The
  publisher is left to its default, none.\<close>

definition call_fanout ::
  "notification_scope \<Rightarrow> notification \<Rightarrow> fanout_gateway option \<Rightarrow> push_world event_bus \<Rightarrow> push_world
    \<Rightarrow> push_world \<times> (announcement_error + fanout_result)" where
  "call_fanout scope n gateway bus w =
    (case gateway of None \<Rightarrow> (w, Inl Announce_Missing_Argument)
     | Some gw \<Rightarrow> (case fanout_scoped_notification scope n gw False bus w of
         (w', Inl e) \<Rightarrow> (w', Inl (Announce_Fanout e)) | (w', Inr r) \<Rightarrow> (w', Inr r)))"

definition announcement_scope :: "announcement \<Rightarrow> pydict" where
  "announcement_scope doc = [(''organization'', py_of_opt (an_organization doc)), (''branch'', py_of_opt (an_branch doc)),
     (''group'', py_of_opt (an_group doc))]"

definition published_payload :: "announcement \<Rightarrow> nat \<Rightarrow> pydict" where
  "published_payload doc n =
    [(''announcement'', Py_Str (an_name doc)), (''branch'', py_of_opt (an_branch doc)), (''group'', py_of_opt (an_group doc)),
     (''organization'', py_of_opt (an_organization doc)), (''audience_role'', py_of_opt (an_audience_role doc)),
     (''channels'', Py_List (map py_of_opt (filter truthy (an_channels doc)))),
     (''audience_branch_count'', Py_Num (of_nat n)), (''notification_ref'', py_of_opt (an_notification doc))]"

record publish_reply =
  pr_status :: string
  pr_branches :: "docname list"
  pr_ref :: "docname option"

text \<open>What is left of a raising request.\<close>

definition rolled_back :: "announce_world \<Rightarrow> push_world \<Rightarrow> announce_world" where
  "rolled_back w push = w \<lparr>aw_push := push \<lparr>pw_outbox := pw_outbox (aw_push w)\<rparr>\<rparr>"

definition announcement_notice :: "announcement \<Rightarrow> notification" where
  "announcement_notice doc =
    \<lparr>nt_subject = an_subject doc, nt_body = or_empty (an_body doc),
     nt_audience_role = (if truthy (an_audience_role doc) then the (an_audience_role doc) else DEFAULT_AUDIENCE_ROLE),
     nt_category = an_category doc, nt_ref = Some (an_name doc)\<rparr>"

definition check_publishable :: "announce_env \<Rightarrow> announcement \<Rightarrow> org_tables \<Rightarrow> announcement_error + docname list" where
  "check_publishable env doc tt =
    (let gateway = FrappeSchedulingGateway tt in
     res_bind (validate_announcement_scope doc gateway) (\<lambda>_.
     res_bind (frappe_author_branch_scope env (an_branch doc)) (\<lambda>_.
     res_bind (validate_status_transition (status_of doc) ANNOUNCEMENT_PUBLISHING) (\<lambda>_.
     res_bind (validate_status_transition ANNOUNCEMENT_PUBLISHING ANNOUNCEMENT_PUBLISHED_STATUS) (\<lambda>_.
       resolve_audience_branches (or_empty (an_branch doc)) gateway)))))"

definition publish_with ::
  "fanout_gateway option \<Rightarrow> announce_env \<Rightarrow> docname \<Rightarrow> announce_world
    \<Rightarrow> announce_world \<times> (announcement_error + publish_reply)" where
  "publish_with gateway env name w =
    (case find (\<lambda>d. an_name d = name) (aw_docs w) of None \<Rightarrow> (w, Inl (Announce_Not_Found name))
     | Some doc0 \<Rightarrow>
       (case check_publishable env doc0 (aw_tables w) of Inl e \<Rightarrow> (w, Inl e)
        | Inr audience_branches \<Rightarrow>
          let doc = doc0 \<lparr>an_status := Some ANNOUNCEMENT_PUBLISHED_STATUS, an_published_at := Some (ae_now env)\<rparr>;
              scope = \<lparr>ns_organization = or_empty (an_organization doc), ns_branch = an_branch doc, ns_group = an_group doc\<rparr>
          in case call_fanout scope (announcement_notice doc) gateway (ae_bus env) (aw_push w) of
            (p1, Inl e) \<Rightarrow> (rolled_back w p1, Inl e)
          | (p1, Inr result) \<Rightarrow>
              let doc1 = (if fr_ref result = None then doc \<lparr>an_notification := Some (an_name doc)\<rparr> else doc) in
              (case bus_emit (ae_bus env) ANNOUNCEMENT_PUBLISHED (published_payload doc1 (length audience_branches))
                      (announcement_scope doc1) False None p1 of
                 (p2, Inl e) \<Rightarrow> (rolled_back w p2, Inl (Announce_Subscriber e))
               | (p2, Inr _) \<Rightarrow>
                   (case save_announcement doc1 (w \<lparr>aw_push := p2\<rparr>) of
                      Inl e \<Rightarrow> (rolled_back w p2, Inl e)
                    | Inr w' \<Rightarrow> (w', Inr \<lparr>pr_status = ANNOUNCEMENT_PUBLISHED_STATUS, pr_branches = audience_branches,
                        pr_ref = an_notification doc1\<rparr>)))))"

text \<open>The endpoint calls the fan-out without a gateway.\<close>

definition publish_announcement ::
  "announce_env \<Rightarrow> docname \<Rightarrow> announce_world \<Rightarrow> announce_world \<times> (announcement_error + publish_reply)" where
  "publish_announcement = publish_with None"

definition scheduled_payload :: "announcement \<Rightarrow> pydict" where
  "scheduled_payload doc =
    [(''announcement'', Py_Str (an_name doc)), (''branch'', py_of_opt (an_branch doc)), (''group'', py_of_opt (an_group doc)),
     (''organization'', py_of_opt (an_organization doc)),
     (''scheduled_at'', if truthy (an_scheduled_at doc) then py_of_opt (an_scheduled_at doc) else Py_None)]"

definition schedule_announcement ::
  "announce_env \<Rightarrow> docname \<Rightarrow> announce_world \<Rightarrow> announce_world \<times> (announcement_error + string option)" where
  "schedule_announcement env name w =
    (case find (\<lambda>d. an_name d = name) (aw_docs w) of None \<Rightarrow> (w, Inl (Announce_Not_Found name))
     | Some doc0 \<Rightarrow>
       let doc = doc0 \<lparr>an_status := Some ANNOUNCEMENT_SCHEDULED_STATUS\<rparr>; gateway = FrappeSchedulingGateway (aw_tables w) in
       (case res_bind (validate_announcement_scope doc gateway) (\<lambda>_.
             res_bind (frappe_author_branch_scope env (an_branch doc)) (\<lambda>_.
               validate_status_transition ANNOUNCEMENT_DRAFT ANNOUNCEMENT_SCHEDULED_STATUS)) of
          Inl e \<Rightarrow> (w, Inl e)
        | Inr _ \<Rightarrow>
          (case bus_emit (ae_bus env) ANNOUNCEMENT_SCHEDULED (scheduled_payload doc) (announcement_scope doc) False None (aw_push w) of
             (p, Inl e) \<Rightarrow> (rolled_back w p, Inl (Announce_Subscriber e))
           | (p, Inr _) \<Rightarrow>
               (case save_announcement doc (w \<lparr>aw_push := p\<rparr>) of
                  Inl e \<Rightarrow> (rolled_back w p, Inl e) | Inr w' \<Rightarrow> (w', Inr (an_scheduled_at doc))))))"

end
