(* ===== verification/Compose_Portal.thy ===== *)
theory Compose_Portal
  imports Announcements
begin

text \<open>
  Model of \<open>flock_os/portal.py\<close>: the compose context an admin is offered, with its port and the
  production adapter over the tables, and the guard of a picked target.  Two readings by name
  order sort by the collation weight of the database, a parameter of the tables.
\<close>

definition CATEGORY_OPTIONS :: "string list" where
  "CATEGORY_OPTIONS = [''General'', ''Urgent'', ''Event'', ''Pastoral'', ''Administrative'', ''Other'']"
definition PRIORITY_OPTIONS :: "string list" where
  "PRIORITY_OPTIONS = [''Low'', ''Normal'', ''High'', ''Critical'']"
definition AUDIENCE_ROLE_OPTIONS :: "string list" where
  "AUDIENCE_ROLE_OPTIONS = [''Everyone'', ''Leaders Only'', ''Admins Only'', ''Members Only'']"
definition CHANNEL_OPTIONS :: "string list" where
  "CHANNEL_OPTIONS = [''In-App'', ''Push'', ''Email'', ''SMS'']"

definition ADMIN_COMPOSE_ROLES :: "string set" where
  "ADMIN_COMPOSE_ROLES = {ROLE_ORG_ADMIN, ROLE_BRANCH_ADMIN, ROLE_GROUP_LEADER}"

datatype portal_error =
    Portal_Role_Missing string
  | Portal_Branch_Required
  | Portal_Branch_Outside docname
  | Portal_Group_Outside docname

section \<open>The port\<close>

record group_option =
  go_name :: docname
  go_branch :: docname
  go_label :: "string option"

record compose_gateway =
  cg_user_roles :: "string \<Rightarrow> string set"
  cg_user_organization :: "string \<Rightarrow> docname option"
  cg_targetable_branches :: "string \<Rightarrow> docname list"
  cg_branch_organization :: "docname \<Rightarrow> docname option"
  cg_branch_label :: "docname \<Rightarrow> string option"
  cg_groups_for_branches :: "docname list \<Rightarrow> group_option list"

definition NullComposeGateway :: compose_gateway where
  "NullComposeGateway = \<lparr>cg_user_roles = (\<lambda>_. {}), cg_user_organization = (\<lambda>_. None), cg_targetable_branches = (\<lambda>_. []),
     cg_branch_organization = (\<lambda>_. None), cg_branch_label = (\<lambda>_. None), cg_groups_for_branches = (\<lambda>_. [])\<rparr>"

record branch_option =
  bo_name :: docname
  bo_label :: string
  bo_organization :: "docname option"

record group_choice =
  gc_name :: docname
  gc_branch :: docname
  gc_label :: string

record compose_context =
  cc_user :: string
  cc_roles :: "string set"
  cc_organization :: "docname option"
  cc_branches :: "branch_option list"
  cc_groups :: "group_choice list"
  cc_categories :: "string list"
  cc_priorities :: "string list"
  cc_audience_roles :: "string list"
  cc_channels :: "string list"
  cc_endpoints :: "(string \<times> string) list"

definition is_compose_admin :: "string set \<Rightarrow> bool" where
  "is_compose_admin roles \<longleftrightarrow> roles \<inter> ADMIN_COMPOSE_ROLES \<noteq> {}"

definition build_compose_context :: "string \<Rightarrow> compose_gateway \<Rightarrow> portal_error + compose_context" where
  "build_compose_context user gateway =
    (let roles = cg_user_roles gateway user in
     if \<not> is_compose_admin roles then Inl (Portal_Role_Missing user)
     else let branches = cg_targetable_branches gateway user;
              groups = cg_groups_for_branches gateway branches
     in Inr \<lparr>cc_user = user, cc_roles = roles, cc_organization = cg_user_organization gateway user,
          cc_branches = map (\<lambda>b. \<lparr>bo_name = b,
              bo_label = (if truthy (cg_branch_label gateway b) then the (cg_branch_label gateway b) else b),
              bo_organization = cg_branch_organization gateway b\<rparr>) branches,
          cc_groups = map (\<lambda>g. \<lparr>gc_name = go_name g, gc_branch = go_branch g,
              gc_label = (if truthy (go_label g) then the (go_label g) else go_name g)\<rparr>)
            (filter (\<lambda>g. go_branch g \<in> set branches) groups),
          cc_categories = CATEGORY_OPTIONS, cc_priorities = PRIORITY_OPTIONS,
          cc_audience_roles = AUDIENCE_ROLE_OPTIONS, cc_channels = CHANNEL_OPTIONS,
          cc_endpoints = [(''preview_audience'', ''flock_os.scheduling.preview_audience''),
            (''publish_announcement'', ''flock_os.scheduling.publish_announcement''),
            (''schedule_announcement'', ''flock_os.scheduling.schedule_announcement''),
            (''insert'', ''frappe.client.insert'')]\<rparr>)"

definition assert_target_in_context :: "docname option \<Rightarrow> docname option \<Rightarrow> compose_context \<Rightarrow> portal_error + unit" where
  "assert_target_in_context branch grp context =
    (if \<not> truthy branch then Inl Portal_Branch_Required
     else if the branch \<notin> bo_name ` set (cc_branches context) then Inl (Portal_Branch_Outside (the branch))
     else if truthy grp \<and> the grp \<notin> gc_name ` set (cc_groups context) then Inl (Portal_Group_Outside (the grp))
     else Inr ())"

section \<open>The production adapter\<close>

record compose_db =
  cd_tables :: org_tables
  cd_members :: "(string option \<times> docname option) list"
  cd_organizations :: "docname list"
  cd_permissions :: permission_db
  cd_collate :: "string \<Rightarrow> string"

definition get_user_organization :: "compose_db \<Rightarrow> string \<Rightarrow> docname option" where
  "get_user_organization db user =
    (if user = [] then None
     else let member = Option.bind (find (\<lambda>(u, _). u = Some user) (cd_members db)) snd
     in if truthy member then member
        else case cd_organizations db of [] \<Rightarrow> None | org # _ \<Rightarrow> Some org)"

definition targetable_branches :: "compose_db \<Rightarrow> string \<Rightarrow> docname list" where
  "targetable_branches db user =
    (if user = [] then []
     else if pd_roles (cd_permissions db) user \<inter> GLOBAL_BRANCH_ROLES \<noteq> {}
     then let org = get_user_organization db user
          in if \<not> truthy org then []
             else map br_name (sort_key (\<lambda>r. cd_collate db (br_name r))
                    (filter (\<lambda>r. br_organization r = org) (ot_branches (cd_tables db))))
     else map up_for_value (filter (\<lambda>p. up_user p = user \<and> up_allow p = ''Flock Branch'')
            (pd_user_permissions (cd_permissions db))))"

definition groups_for_branches :: "compose_db \<Rightarrow> docname list \<Rightarrow> group_option list" where
  "groups_for_branches db branches =
    (if branches = [] then []
     else map (\<lambda>r. \<lparr>go_name = gr_name r, go_branch = or_empty (gr_branch r),
            go_label = (if truthy (gr_group_name r) then gr_group_name r else Some (gr_name r))\<rparr>)
       (sort_key (\<lambda>r. cd_collate db (or_empty (gr_branch r)))
         (sort_key (\<lambda>r. cd_collate db (or_empty (gr_group_name r)))
           (filter (\<lambda>r. gr_branch r \<in> Some ` set branches) (ot_groups (cd_tables db))))))"

definition FrappeComposeGateway :: "compose_db \<Rightarrow> compose_gateway" where
  "FrappeComposeGateway db =
    \<lparr>cg_user_roles = (\<lambda>u. if u = [] then {} else pd_roles (cd_permissions db) u),
     cg_user_organization = get_user_organization db,
     cg_targetable_branches = targetable_branches db,
     cg_branch_organization = (\<lambda>b. if b = [] then None else Option.bind (branch_named (cd_tables db) b) br_organization),
     cg_branch_label = (\<lambda>b. if b = [] then None
        else or_else (Option.bind (branch_named (cd_tables db) b) br_branch_name) (Some b)),
     cg_groups_for_branches = groups_for_branches db\<rparr>"

definition get_compose_context :: "compose_db \<Rightarrow> string \<Rightarrow> portal_error + compose_context" where
  "get_compose_context db user = build_compose_context user (FrappeComposeGateway db)"

section \<open>The page\<close>

text \<open>\<open>www/announce.py\<close>: without a compose role a guest is sent to the login, anybody else is refused.
  The page groups the offered groups by their branch.  Titles are left out.\<close>

datatype 'a page = Page_Sign_In string | Page_Forbidden | Page_Rendered 'a

definition choices_by_branch :: "group_choice list \<Rightarrow> (docname \<times> (docname \<times> string) list) list" where
  "choices_by_branch gs = fold (\<lambda>g. dict_push (gc_branch g) (gc_name g, gc_label g)) gs []"

definition announce_page ::
  "compose_db \<Rightarrow> string \<Rightarrow> (compose_context \<times> (docname \<times> (docname \<times> string) list) list) page" where
  "announce_page db user =
    (case get_compose_context db user of
       Inl _ \<Rightarrow> if user = ''Guest'' then Page_Sign_In ''/login'' else Page_Forbidden
     | Inr ctx \<Rightarrow> Page_Rendered (ctx, choices_by_branch (cc_groups ctx)))"

section \<open>What is offered\<close>

lemma offered_branches:
  "get_compose_context db user = Inr ctx \<Longrightarrow> bo_name ` set (cc_branches ctx) = set (targetable_branches db user)"
  by (auto simp: get_compose_context_def build_compose_context_def FrappeComposeGateway_def Let_def image_image split: if_splits)

lemma selected_image: "(\<And>x. x \<in> A \<Longrightarrow> P (f x)) \<Longrightarrow> h ` {y \<in> f ` A. P y} = (\<lambda>x. h (f x)) ` A"
  by auto

lemma listed_groups:
  "go_name ` {g \<in> set (groups_for_branches db branches). go_branch g \<in> set branches}
    = gr_name ` {r \<in> set (ot_groups (cd_tables db)). gr_branch r \<in> Some ` set branches}"
proof -
  let ?A = "{r \<in> set (ot_groups (cd_tables db)). gr_branch r \<in> Some ` set branches}"
  define f where "f r = \<lparr>go_name = gr_name r, go_branch = or_empty (gr_branch r),
      go_label = (if truthy (gr_group_name r) then gr_group_name r else Some (gr_name r))\<rparr>" for r :: group_row
  have rows: "set (groups_for_branches db branches) = f ` ?A"
    by (simp add: groups_for_branches_def f_def)
  have "go_name ` {g \<in> f ` ?A. go_branch g \<in> set branches} = (\<lambda>r. go_name (f r)) ` ?A"
    by (rule selected_image) (auto simp: f_def)
  then show ?thesis by (simp add: rows f_def)
qed

lemma offered_groups:
  assumes "get_compose_context db user = Inr ctx"
  shows "gc_name ` set (cc_groups ctx) =
    {gr_name r | r. r \<in> set (ot_groups (cd_tables db)) \<and> gr_branch r \<in> Some ` set (targetable_branches db user)}"
proof -
  let ?bs = "targetable_branches db user"
  have "cc_groups ctx = map (\<lambda>g. \<lparr>gc_name = go_name g, gc_branch = go_branch g,
      gc_label = (if truthy (go_label g) then the (go_label g) else go_name g)\<rparr>)
        (filter (\<lambda>g. go_branch g \<in> set ?bs) (groups_for_branches db ?bs))"
    using assms by (auto simp: get_compose_context_def build_compose_context_def FrappeComposeGateway_def Let_def split: if_splits)
  then have names: "gc_name ` set (cc_groups ctx) = go_name ` {g \<in> set (groups_for_branches db ?bs). go_branch g \<in> set ?bs}"
    by (simp add: image_image)
  show ?thesis unfolding names listed_groups by auto
qed

end
