(* ===== verification/Notification_Properties.thy ===== *)
theory Notification_Properties
  imports Notifications Live_Feed
begin

text \<open>
  Whom a push reaches: the adjacency the production adapter builds, the audience of a scope, the
  messages and records of a fan-out on the wired bus.
\<close>

section \<open>The adjacency of a table\<close>

definition row_edges :: "('r \<Rightarrow> docname) \<Rightarrow> ('r \<Rightarrow> docname option) \<Rightarrow> 'r list \<Rightarrow> (docname \<times> docname) set" where
  "row_edges nm pk rows = {(p, nm r) | p r. r \<in> set rows \<and> pk r = Some p \<and> p \<noteq> [] \<and> p \<in> nm ` set rows}"

lemma update_new: "k \<notin> fst ` set al \<Longrightarrow> AList.update k v al = al @ [(k, v)]"
  by (induction al) auto

lemma parents_of_rows_map:
  assumes "distinct (map nm rows)"
  shows "parents_of_rows nm pk rows = map (\<lambda>r. (nm r, if truthy (pk r) then pk r else None)) rows"
proof -
  let ?f = "\<lambda>r. AList.update (nm r) (if truthy (pk r) then pk r else None)"
  have "distinct (map nm rows) \<Longrightarrow> nm ` set rows \<inter> fst ` set al = {} \<Longrightarrow>
      fold ?f rows al = al @ map (\<lambda>r. (nm r, if truthy (pk r) then pk r else None)) rows" for al
  proof (induction rows arbitrary: al)
    case (Cons r rows)
    have new: "AList.update (nm r) (if truthy (pk r) then pk r else None) al =
        al @ [(nm r, if truthy (pk r) then pk r else None)]"
      using Cons.prems(2) by (intro update_new) auto
    have "nm ` set rows \<inter> fst ` set (al @ [(nm r, if truthy (pk r) then pk r else None)]) = {}"
      using Cons.prems by auto
    with Cons.IH [OF _ this] Cons.prems(1) new show ?case by simp
  qed simp
  from this [of "[]"] assms show ?thesis by (simp add: parents_of_rows_def)
qed

lemma dict_push_keys: "k \<in> fst ` set d \<Longrightarrow> fst ` set (dict_push k x d) = fst ` set d"
  by (simp add: dict_push_def dom_update insert_absorb flip: dom_map_of_conv_image_fst)
    (simp add: update_conv' dom_map_of_conv_image_fst insert_absorb)

lemma children_fold:
  "children_get (fold (\<lambda>(name, parent) children. case parent of None \<Rightarrow> children
        | Some p \<Rightarrow> if p \<in> fst ` set children then dict_push p name children else children) ps C) q =
     children_get C q @ (if q \<in> fst ` set C then map fst (filter (\<lambda>(n, p). p = Some q) ps) else [])"
proof (induction ps arbitrary: C)
  case (Cons x ps)
  obtain n p where x: "x = (n, p)" by (cases x)
  show ?case
  proof (cases p)
    case None
    then show ?thesis using Cons.IH [of C] by (simp add: x)
  next
    case (Some r)
    show ?thesis
    proof (cases "r \<in> fst ` set C")
      case True
      have "children_get (dict_push r n C) q = children_get C q @ (if q = r then [n] else [])"
        by (auto simp: children_get_def dict_push_def dict_or_def update_conv' split: option.splits)
      then show ?thesis using Cons.IH [of "dict_push r n C"] True Some by (auto simp: x dict_push_keys)
    next
      case False
      then show ?thesis using Cons.IH [of C] Some by (auto simp: x)
    qed
  qed
qed simp

lemma children_of_parents_get:
  "children_get (children_of_parents ps) q =
     (if q \<in> fst ` set ps then map fst (filter (\<lambda>(n, p). p = Some q) ps) else [])"
proof -
  have keys: "fst ` set (map (\<lambda>(n, _). (n, [])) ps) = fst ` set ps" by force
  have "children_get (map (\<lambda>(n, _). (n, [])) ps) q = []"
    by (induction ps) (auto simp: children_get_def)
  then show ?thesis unfolding children_of_parents_def children_fold keys by simp
qed

lemma table_children:
  assumes "distinct (map nm rows)"
  shows "children_get (children_of_parents (parents_of_rows nm pk rows)) q =
     (if q \<in> nm ` set rows then map nm (filter (\<lambda>r. pk r = Some q \<and> q \<noteq> []) rows) else [])"
proof -
  have "filter (\<lambda>(n, p). p = Some q) (map (\<lambda>r. (nm r, if truthy (pk r) then pk r else None)) rows) =
      map (\<lambda>r. (nm r, Some q)) (filter (\<lambda>r. pk r = Some q \<and> q \<noteq> []) rows)"
    by (induction rows) auto
  then show ?thesis
    unfolding children_of_parents_get parents_of_rows_map [OF assms] by (auto simp: image_image)
qed

lemma table_edges:
  assumes "distinct (map nm rows)"
  shows "child_edge (children_of_parents (parents_of_rows nm pk rows)) = row_edges nm pk rows"
  unfolding child_edge_def row_edges_def table_children [OF assms] by (auto split: if_splits)

lemma table_subtree:
  assumes "distinct (map nm rows)" and "subtree_of b (children_of_parents (parents_of_rows nm pk rows)) = Inr ns"
  shows "set ns = {d. (b, d) \<in> (row_edges nm pk rows)\<^sup>*}" "ns \<noteq> []" "distinct ns"
proof -
  let ?C = "children_of_parents (parents_of_rows nm pk rows)"
  obtain ds where ds: "descendants_of b ?C = Inr ds" "ns = b # ds"
    using assms(2) by (auto simp: subtree_of_def res_bind_Inr_iff)
  then show "set ns = {d. (b, d) \<in> (row_edges nm pk rows)\<^sup>*}" "ns \<noteq> []"
    using descendants_of_set [OF ds(1)] unfolding table_edges [OF assms(1)] by (auto simp: rtrancl_eq_or_trancl)
  show "distinct ns" using descendants_of_fixpoint [OF ds(1)] ds(2) by simp
qed

section \<open>The audience\<close>

text \<open>Who leads a group: its accountable leader, or an active member in a leading role.\<close>

definition leads_in_branches :: "org_tables \<Rightarrow> docname set \<Rightarrow> docname set" where
  "leads_in_branches tt B =
     {m. m \<noteq> [] \<and> ((\<exists>r \<in> set (ot_groups tt). gr_leader r = Some m \<and> gr_branch r \<in> Some ` B)
       \<or> (\<exists>r \<in> set (ot_roster tt). lw_member r = Some m \<and> lw_role r \<in> set LEADER_ROSTER_ROLES \<and> lw_status r = ''Active''
            \<and> lw_branch r \<in> Some ` B))}"

definition leads_in_groups :: "org_tables \<Rightarrow> docname set \<Rightarrow> docname set" where
  "leads_in_groups tt G =
     {m. m \<noteq> [] \<and> ((\<exists>r \<in> set (ot_groups tt). gr_leader r = Some m \<and> gr_name r \<in> G)
       \<or> (\<exists>r \<in> set (ot_roster tt). lw_member r = Some m \<and> lw_role r \<in> set LEADER_ROSTER_ROLES \<and> lw_status r = ''Active''
            \<and> lw_group r \<in> Some ` G))}"

lemma truthy_the: "truthy x \<longleftrightarrow> (\<exists>s. x = Some s \<and> s \<noteq> [])"
  by (cases x) auto

lemma set_truthy:
  "(\<lambda>r. the (f r)) ` {r \<in> A. truthy (f r) \<and> P r} = {m. m \<noteq> [] \<and> (\<exists>r \<in> A. f r = Some m \<and> P r)}"
  by (force simp: truthy_the)

lemma set_select:
  "set (map (\<lambda>r. the (f r)) (filter (\<lambda>r. truthy (f r)) (filter P rs))) = {m. m \<noteq> [] \<and> (\<exists>r \<in> set rs. f r = Some m \<and> P r)}"
proof -
  have "set (filter (\<lambda>r. truthy (f r)) (filter P rs)) = {r \<in> set rs. truthy (f r) \<and> P r}" by auto
  then show ?thesis by (simp only: set_map set_truthy)
qed

lemma select_branches:
  assumes "bs \<noteq> []"
  shows "set (select_leaders tt bs []) = leads_in_branches tt (set bs)"
proof -
  have "select_leaders tt bs [] =
      dedup (map (\<lambda>r. the (gr_leader r)) (filter (\<lambda>r. truthy (gr_leader r)) (filter (\<lambda>r. gr_branch r \<in> Some ` set bs) (ot_groups tt)))
        @ map (\<lambda>r. the (lw_member r)) (filter (\<lambda>r. truthy (lw_member r)) (filter (\<lambda>r. lw_role r \<in> set LEADER_ROSTER_ROLES
            \<and> lw_status r = ''Active'' \<and> lw_branch r \<in> Some ` set bs) (ot_roster tt))))"
    using assms by (simp add: select_leaders_def Let_def)
  then show ?thesis by (simp only: set_dedup set_append set_select) (auto simp: leads_in_branches_def)
qed

lemma select_groups:
  assumes "gs \<noteq> []"
  shows "set (select_leaders tt [] gs) = leads_in_groups tt (set gs)"
proof -
  have "select_leaders tt [] gs =
      dedup (map (\<lambda>r. the (gr_leader r)) (filter (\<lambda>r. truthy (gr_leader r)) (filter (\<lambda>r. gr_name r \<in> set gs) (ot_groups tt)))
        @ map (\<lambda>r. the (lw_member r)) (filter (\<lambda>r. truthy (lw_member r)) (filter (\<lambda>r. lw_role r \<in> set LEADER_ROSTER_ROLES
            \<and> lw_status r = ''Active'' \<and> lw_group r \<in> Some ` set gs) (ot_roster tt))))"
    using assms by (simp add: select_leaders_def Let_def)
  then show ?thesis by (simp only: set_dedup set_append set_select) (auto simp: leads_in_groups_def)
qed

lemma frappe_fanout_simps:
  "fg_branch_exists (FrappeNotificationFanoutGateway tt) = org_branch_exists tt"
  "fg_group_branch (FrappeNotificationFanoutGateway tt) g = Option.bind (group_named tt g) gr_branch"
  "fg_leaders_in_branches (FrappeNotificationFanoutGateway tt) bs = select_leaders tt bs []"
  "fg_leaders_in_groups (FrappeNotificationFanoutGateway tt) gs = select_leaders tt [] gs"
  "fg_branch_children_of (FrappeNotificationFanoutGateway tt) = children_of_parents (parents_of_rows br_name br_parent (ot_branches tt))"
  "fg_group_children_of (FrappeNotificationFanoutGateway tt) = children_of_parents (parents_of_rows gr_name gr_parent (ot_groups tt))"
  by (simp_all add: FrappeNotificationFanoutGateway_def)

definition org_keys :: "org_tables \<Rightarrow> bool" where
  "org_keys tt \<longleftrightarrow> distinct (map br_name (ot_branches tt)) \<and> distinct (map gr_name (ot_groups tt))"

lemma group_audience:
  assumes k: "org_keys tt" and g: "ns_group scope = Some g" "g \<noteq> []"
    and a: "resolve_scoped_audience scope (FrappeNotificationFanoutGateway tt) = Inr aud"
  shows "sa_axis aud = GROUP_AXIS \<and> distinct (sa_nodes aud)
    \<and> set (sa_nodes aud) = {d. (g, d) \<in> (row_edges gr_name gr_parent (ot_groups tt))\<^sup>*}
    \<and> set (sa_leaders aud) = leads_in_groups tt (set (sa_nodes aud))
    \<and> (\<exists>b. Option.bind (group_named tt g) gr_branch = Some b \<and> org_branch_exists tt b (ns_organization scope)
         \<and> (truthy (ns_branch scope) \<longrightarrow> ns_branch scope = Some b))"
proof -
  let ?G = "FrappeNotificationFanoutGateway tt"
  obtain ns where ns: "subtree_of g (fg_group_children_of ?G) = Inr ns"
    and aud: "aud = \<lparr>sa_axis = GROUP_AXIS, sa_nodes = ns, sa_leaders = fg_leaders_in_groups ?G ns\<rparr>"
    and valid: "validate_notification_scope scope ?G = Inr ()"
    using a g by (auto simp: resolve_scoped_audience_def res_bind_Inr_iff lift_tree_def split: sum.splits)
  have "truthy (Option.bind (group_named tt g) gr_branch)"
    "org_branch_exists tt (the (Option.bind (group_named tt g) gr_branch)) (ns_organization scope)"
    "truthy (ns_branch scope) \<Longrightarrow> ns_branch scope = Option.bind (group_named tt g) gr_branch"
    using valid g by (auto simp: validate_notification_scope_def Let_def frappe_fanout_simps split: if_splits)
  moreover have "distinct (map gr_name (ot_groups tt))" using k by (simp add: org_keys_def)
  note sub = table_subtree [OF this ns [unfolded frappe_fanout_simps]]
  ultimately show ?thesis
    using sub by (auto simp: aud frappe_fanout_simps select_groups truthy_the)
qed

lemma branch_audience:
  assumes k: "org_keys tt" and b: "\<not> truthy (ns_group scope)" "ns_branch scope = Some b"
    and a: "resolve_scoped_audience scope (FrappeNotificationFanoutGateway tt) = Inr aud"
  shows "sa_axis aud = BRANCH_AXIS \<and> distinct (sa_nodes aud)
    \<and> set (sa_nodes aud) = {d. (b, d) \<in> (row_edges br_name br_parent (ot_branches tt))\<^sup>*}
    \<and> set (sa_leaders aud) = leads_in_branches tt (set (sa_nodes aud))
    \<and> org_branch_exists tt b (ns_organization scope)"
proof -
  let ?G = "FrappeNotificationFanoutGateway tt"
  obtain ns where ns: "subtree_of b (fg_branch_children_of ?G) = Inr ns"
    and aud: "aud = \<lparr>sa_axis = BRANCH_AXIS, sa_nodes = ns, sa_leaders = fg_leaders_in_branches ?G ns\<rparr>"
    and valid: "validate_notification_scope scope ?G = Inr ()"
    using a b by (auto simp: resolve_scoped_audience_def compute_branch_subtree_def res_bind_Inr_iff lift_tree_def
      split: sum.splits if_splits)
  have "org_branch_exists tt b (ns_organization scope)"
    using valid b by (auto simp: validate_notification_scope_def Let_def frappe_fanout_simps split: if_splits)
  moreover have "distinct (map br_name (ot_branches tt))" using k by (simp add: org_keys_def)
  note sub = table_subtree [OF this ns [unfolded frappe_fanout_simps]]
  ultimately show ?thesis
    using sub by (simp add: aud frappe_fanout_simps select_branches)
qed

section \<open>The fan-out on the wired bus\<close>

lemma no_gathering: "gathering_id text \<lparr>dv_name = x, dv_payload = fanout_payload n a, dv_scope = scope_dict s\<rparr> = None"
  by (simp add: gathering_id_def gathering_key_def fanout_payload_def scope_dict_def py_get_or_def py_or_def)

lemma notification_emit:
  "bus_emit (wired_bus text) NOTIFICATION_SENT (fanout_payload n a) (scope_dict s) False None w =
     (let dv = \<lparr>dv_name = NOTIFICATION_SENT, dv_payload = fanout_payload n a, dv_scope = scope_dict s\<rparr>
      in (append_outbox dv w, Inr dv))"
proof -
  have route: "map_of build_routes NOTIFICATION_SENT = Some (route_broadcast_only RT_NOTIFICATION)"
    by (simp add: build_routes_def event_names)
  then have "NOTIFICATION_SENT \<in> fst ` set build_routes"
    by (metis domI dom_map_of_conv_image_fst)
  then show ?thesis
    by (simp add: bus_emit_def Let_def wired_subscriptions project_handler_def project_emissions_def route
      route_broadcast_only_def no_gathering FrappeEventSink_def)
qed

definition scope_nodes :: "org_tables \<Rightarrow> notification_scope \<Rightarrow> docname set" where
  "scope_nodes tt scope =
    (if truthy (ns_group scope) then {d. (the (ns_group scope), d) \<in> (row_edges gr_name gr_parent (ot_groups tt))\<^sup>*}
     else {d. (the (ns_branch scope), d) \<in> (row_edges br_name br_parent (ot_branches tt))\<^sup>*})"

definition scope_leaders :: "org_tables \<Rightarrow> notification_scope \<Rightarrow> docname set" where
  "scope_leaders tt scope = (if truthy (ns_group scope) then leads_in_groups tt (scope_nodes tt scope)
     else leads_in_branches tt (scope_nodes tt scope))"

definition node_room :: "notification_scope \<Rightarrow> docname \<Rightarrow> string" where
  "node_room scope = (if truthy (ns_group scope) then group_notification_room else branch_notification_room)"

lemma audience_of_scope:
  assumes k: "org_keys tt" and a: "resolve_scoped_audience scope (FrappeNotificationFanoutGateway tt) = Inr aud"
  shows "distinct (sa_nodes aud) \<and> set (sa_nodes aud) = scope_nodes tt scope \<and> set (sa_leaders aud) = scope_leaders tt scope
    \<and> rooms_for aud = map (node_room scope) (sa_nodes aud)"
proof (cases "truthy (ns_group scope)")
  case True
  then show ?thesis using group_audience [OF k _ _ a]
    by (auto simp: truthy_the scope_nodes_def scope_leaders_def node_room_def rooms_for_def)
next
  case False
  have "truthy (ns_branch scope)"
    using a False by (auto simp: resolve_scoped_audience_def res_bind_Inr_iff validate_notification_scope_def split: if_splits)
  then obtain b where "ns_branch scope = Some b" by (auto simp: truthy_the)
  then show ?thesis using branch_audience [OF k False _ a] False
    by (simp add: scope_nodes_def scope_leaders_def node_room_def rooms_for_def BRANCH_AXIS_def GROUP_AXIS_def)
qed

lemma node_room_inj: "node_room scope x = node_room scope y \<longleftrightarrow> x = y"
  by (simp add: node_room_def branch_notification_room_def group_notification_room_def)

section \<open>Properties\<close>

text \<open>C10. A push through an installed publisher reaches exactly its scope: the audience is everybody
  who leads a group of the subtree of the scope, as accountable leader or as an active leader of
  the roster, and nobody else; if there is somebody, the room of each node of the subtree gets the
  message once and no other room gets any; and the outbox gets the event once.\<close>
theorem push_reaches_exactly_scope:
  assumes "org_keys tt" and "pw_push_fails w = None" and "\<not> pw_outbox_fails w"
    and "fanout_scoped_notification scope n (FrappeNotificationFanoutGateway tt) True (wired_bus text) w = (w', Inr r)"
  shows "set (sa_leaders (fr_audience r)) = scope_leaders tt scope
    \<and> (\<exists>nodes. distinct nodes \<and> set nodes = (if scope_leaders tt scope = {} then {} else scope_nodes tt scope)
        \<and> pw_pushed w' = pw_pushed w @ map (\<lambda>d. \<lparr>pm_event = RT_NOTIFICATION, pm_room = Some (node_room scope d),
            pm_message = fanout_message scope n (fr_audience r)\<rparr>) nodes)
    \<and> pw_outbox w' = pw_outbox w @ [fr_event r]"
proof -
  obtain aud where aud: "resolve_scoped_audience scope (FrappeNotificationFanoutGateway tt) = Inr aud"
    using assms(4) by (auto simp: fanout_scoped_notification_def split: sum.splits)
  note a = audience_of_scope [OF assms(1) aud]
  let ?nodes = "if audience_size aud > 0 then sa_nodes aud else []"
  have "fr_audience r = aud \<and> pw_outbox w' = pw_outbox w @ [fr_event r]
      \<and> pw_pushed w' = pw_pushed w @ map (\<lambda>d. \<lparr>pm_event = RT_NOTIFICATION, pm_room = Some (node_room scope d),
            pm_message = fanout_message scope n aud\<rparr>) ?nodes"
    using assms(2-4) a
    by (auto simp: fanout_scoped_notification_def aud Let_def notification_emit publish_all_ok append_outbox_def
      comp_def split: if_splits)
  moreover have "audience_size aud > 0 \<longleftrightarrow> scope_leaders tt scope \<noteq> {}"
    using a by (auto simp: audience_size_def)
  then have "distinct ?nodes \<and> set ?nodes = (if scope_leaders tt scope = {} then {} else scope_nodes tt scope)"
    using a by simp
  ultimately show ?thesis using a by blast
qed

text \<open>The process-wide service has no publisher: whatever it is asked to push, no browser gets a
  message, also not over the bus, while it reports the rooms of the audience and records the event.\<close>
theorem service_push_reaches_nobody:
  assumes "\<not> pw_outbox_fails w"
  shows "pw_pushed (fst (production_fanout scope n tt (wired_bus text) w)) = pw_pushed w
    \<and> (\<forall>r. snd (production_fanout scope n tt (wired_bus text) w) = Inr r \<longrightarrow>
        fr_rooms r = (if sa_leaders (fr_audience r) = [] then [] else rooms_for (fr_audience r))
        \<and> pw_outbox (fst (production_fanout scope n tt (wired_bus text) w)) = pw_outbox w @ [fr_event r])"
  using assms
  by (auto simp: production_fanout_def fanout_scoped_notification_def Let_def notification_emit append_outbox_def
    audience_size_def split: sum.splits)

section \<open>Witnesses\<close>

definition demo_org :: org_tables where
  "demo_org = \<lparr>ot_branches = [\<lparr>br_name = ''N'', br_branch_name = None, br_parent = None, br_organization = Some ''O'', br_is_active = Some 1\<rparr>,
       \<lparr>br_name = ''S'', br_branch_name = None, br_parent = None, br_organization = Some ''O'', br_is_active = Some 1\<rparr>],
     ot_groups = [\<lparr>gr_name = ''G1'', gr_group_name = None, gr_parent = None, gr_branch = Some ''N'', gr_organization = Some ''O'',
         gr_leader = Some ''M1'', gr_group_type = None, gr_is_active = Some 1\<rparr>,
       \<lparr>gr_name = ''G2'', gr_group_name = None, gr_parent = None, gr_branch = Some ''S'', gr_organization = Some ''O'',
         gr_leader = Some ''M2'', gr_group_type = None, gr_is_active = Some 1\<rparr>],
     ot_roster = []\<rparr>"

definition demo_notice :: notification where
  "demo_notice = \<lparr>nt_subject = ''s'', nt_body = '''', nt_audience_role = DEFAULT_AUDIENCE_ROLE, nt_category = None, nt_ref = None\<rparr>"

definition demo_north :: notification_scope where
  "demo_north = \<lparr>ns_organization = ''O'', ns_branch = Some ''N'', ns_group = None\<rparr>"

lemma demo_audience:
  "resolve_scoped_audience demo_north (FrappeNotificationFanoutGateway demo_org) =
     Inr \<lparr>sa_axis = ''branch'', sa_nodes = [''N''], sa_leaders = [''M1'']\<rparr>"
  by code_simp

lemma demo_push_ok: "pw_push_fails demo_push = None" "\<not> pw_outbox_fails demo_push" "pw_pushed demo_push = []"
  by (simp_all add: demo_push_def)

lemma push_reaches_exactly_scope_witness:
  "scope_leaders demo_org demo_north = {''M1''}
   \<and> (\<exists>w' r. fanout_scoped_notification demo_north demo_notice (FrappeNotificationFanoutGateway demo_org) True
        (wired_bus (\<lambda>_. '''')) demo_push = (w', Inr r) \<and> pw_outbox w' = [fr_event r])"
proof -
  have keys: "org_keys demo_org" by (simp add: org_keys_def demo_org_def)
  obtain w' r where f: "fanout_scoped_notification demo_north demo_notice (FrappeNotificationFanoutGateway demo_org) True
      (wired_bus (\<lambda>_. '''')) demo_push = (w', Inr r)" "sa_leaders (fr_audience r) = [''M1'']"
    by (simp add: fanout_scoped_notification_def demo_audience notification_emit Let_def)
  have "pw_outbox demo_push = []" by (simp add: demo_push_def)
  then show ?thesis
    using push_reaches_exactly_scope [OF keys demo_push_ok(1,2) f(1)] f by auto
qed

lemma service_push_reaches_nobody_witness:
  "pw_pushed (fst (production_fanout demo_north demo_notice demo_org (wired_bus (\<lambda>_. '''')) demo_push)) = []
   \<and> (\<exists>r. snd (production_fanout demo_north demo_notice demo_org (wired_bus (\<lambda>_. '''')) demo_push) = Inr r
        \<and> fr_rooms r = [branch_notification_room ''N''])"
proof -
  obtain r where r: "snd (production_fanout demo_north demo_notice demo_org (wired_bus (\<lambda>_. '''')) demo_push) = Inr r"
    "fr_audience r = \<lparr>sa_axis = ''branch'', sa_nodes = [''N''], sa_leaders = [''M1'']\<rparr>"
    by (simp add: production_fanout_def fanout_scoped_notification_def demo_audience notification_emit Let_def)
  then show ?thesis
    using service_push_reaches_nobody [OF demo_push_ok(2), of demo_north demo_notice demo_org "\<lambda>_. ''''"] demo_push_ok(3)
    by (simp add: rooms_for_def GROUP_AXIS_def)
qed

end
