(* ===== verification/Announcement_Properties.thy ===== *)
theory Announcement_Properties
  imports Compose_Portal Notification_Properties
begin

text \<open>
  Properties of announcements: the endpoints of the scheduling service on the wired bus, and what
  the compose portal offers against what the service admits.
\<close>

section \<open>Rules\<close>

lemma scope_valid_iff:
  "validate_announcement_scope doc (FrappeSchedulingGateway tt) = Inr () \<longleftrightarrow>
     truthy (an_organization doc) \<and> truthy (an_branch doc)
     \<and> org_branch_exists tt (the (an_branch doc)) (the (an_organization doc))
     \<and> (truthy (an_group doc) \<longrightarrow> Option.bind (group_named tt (the (an_group doc))) gr_branch = an_branch doc)
     \<and> status_of doc \<in> set ANNOUNCEMENT_STATUSES
     \<and> (status_of doc = ANNOUNCEMENT_SCHEDULED_STATUS \<longrightarrow> truthy (an_scheduled_at doc))"
  by (cases "group_named tt (the (an_group doc))")
    (auto simp: validate_announcement_scope_def Let_def FrappeSchedulingGateway_def split: if_splits)

lemma audience_subtree:
  assumes "org_keys tt" "resolve_audience_branches b (FrappeSchedulingGateway tt) = Inr bs"
  shows "set bs = {d. (b, d) \<in> (row_edges br_name br_parent (ot_branches tt))\<^sup>*} \<and> distinct bs"
proof -
  have "subtree_of b (children_of_parents (parents_of_rows br_name br_parent (ot_branches tt))) = Inr bs"
    using assms(2) by (auto simp: resolve_audience_branches_def compute_branch_subtree_def FrappeSchedulingGateway_def
      split: if_splits sum.splits)
  then show ?thesis using table_subtree(1,3) [of br_name "ot_branches tt" b br_parent bs] assms(1) by (simp add: org_keys_def)
qed

section \<open>Emits of the endpoints\<close>

lemma silent_emit:
  assumes "name \<in> {ANNOUNCEMENT_PUBLISHED, ANNOUNCEMENT_SCHEDULED}" and "py_get p ''gathering'' = Py_None" "py_get p ''event'' = Py_None"
    and "py_get s ''gathering'' = Py_None" "py_get s ''event'' = Py_None"
  shows "\<exists>ev. bus_emit (wired_bus text) name p s False None w = (append_outbox ev w, Inr ev)"
proof -
  let ?dv = "\<lparr>dv_name = name, dv_payload = p, dv_scope = s\<rparr>"
  have none: "gathering_id text ?dv = None"
    using assms(2-) by (simp add: gathering_id_def gathering_key_def py_or_def)
  have "project_emissions text DEFAULT_SHARD_COUNT ?dv = Inr []"
    using assms(1) none
    by (auto simp: project_emissions_def build_routes_def event_names ANNOUNCEMENT_PUBLISHED_def route_broadcast_only_def)
  then show ?thesis
    by (simp add: bus_emit_def Let_def wired_subscriptions project_handler_def FrappeEventSink_def)
qed

lemma published_emit:
  "\<exists>ev. bus_emit (wired_bus text) ANNOUNCEMENT_PUBLISHED (published_payload doc n) (announcement_scope doc) False None w =
     (append_outbox ev w, Inr ev)"
  by (rule silent_emit) (simp_all add: published_payload_def announcement_scope_def py_get_or_def)

lemma scheduled_emit:
  "\<exists>ev. bus_emit (wired_bus text) ANNOUNCEMENT_SCHEDULED (scheduled_payload doc) (announcement_scope doc) False None w =
     (append_outbox ev w, Inr ev)"
  by (rule silent_emit) (simp_all add: scheduled_payload_def announcement_scope_def py_get_or_def)

lemma append_outbox_pushed [simp]: "pw_pushed (append_outbox ev w) = pw_pushed w"
  by (simp add: append_outbox_def)

lemma unpublished_fanout: "pw_pushed (fst (fanout_scoped_notification scope n gw False (wired_bus text) w)) = pw_pushed w"
  by (auto simp: fanout_scoped_notification_def Let_def notification_emit split: sum.splits)

lemma call_fanout_pushed: "pw_pushed (fst (call_fanout scope n gw (wired_bus text) w)) = pw_pushed w"
  using unpublished_fanout [of scope n "the gw" "text" w]
  by (auto simp: call_fanout_def split: option.splits prod.splits sum.splits)

lemma publish_with_pushed:
  assumes "ae_bus env = wired_bus text"
  shows "pw_pushed (aw_push (fst (publish_with gw env name w))) = pw_pushed (aw_push w)"
proof -
  have save: "save_announcement doc w1 = Inr w2 \<Longrightarrow> aw_push w2 = aw_push w1" for doc w1 w2
    by (auto simp: save_announcement_def res_bind_Inr_iff)
  have call: "call_fanout scope n gw (wired_bus text) (aw_push w) = (p, r) \<Longrightarrow> pw_pushed p = pw_pushed (aw_push w)" for scope n p r
    using call_fanout_pushed [of scope n gw "text" "aw_push w"] by simp
  have emit: "bus_emit (wired_bus text) ANNOUNCEMENT_PUBLISHED (published_payload doc k) (announcement_scope doc) False None p = (p', r)
      \<Longrightarrow> pw_pushed p' = pw_pushed p" for doc k p p' r
    using published_emit [of "text" doc k p] by auto
  show ?thesis
    unfolding publish_with_def assms Let_def
    by (auto simp: rolled_back_def split: option.splits sum.splits prod.splits if_splits dest!: save call emit)
qed

section \<open>Properties\<close>

text \<open>C39. Publishing never succeeds: every call raises and leaves the announcements, the outbox and the
  browsers as they were, and when everything that is checked is in order, what raises is the call of
  the fan-out, which is made without its gateway.  With one supplied no browser would get a message
  either, as no publisher is.\<close>
theorem publish_never_succeeds:
  "(\<exists>e. publish_announcement env name w = (w, Inl e))
   \<and> (find (\<lambda>d. an_name d = name) (aw_docs w) = Some doc \<and> check_publishable env doc (aw_tables w) = Inr bs \<longrightarrow>
        publish_announcement env name w = (w, Inl Announce_Missing_Argument))
   \<and> (ae_bus env = wired_bus text \<longrightarrow>
        pw_pushed (aw_push (fst (publish_with (Some gw) env name w))) = pw_pushed (aw_push w))"
proof -
  have same: "rolled_back w (aw_push w) = w" by (cases w) (simp add: rolled_back_def)
  show ?thesis
    using publish_with_pushed [of env "text" "Some gw" name w]
    by (auto simp: publish_announcement_def publish_with_def call_fanout_def Let_def same split: option.splits sum.splits)
qed

text \<open>Scheduling does not look at the status: an announcement that was published or archived is
  scheduled again, although the lifecycle allows no such step.\<close>
theorem schedule_from_any_status:
  assumes "find (\<lambda>d. an_name d = name) (aw_docs w) = Some doc" and "an_status doc \<in> Some ` {ANNOUNCEMENT_PUBLISHED_STATUS, ANNOUNCEMENT_ARCHIVED}"
    and "org_branch_exists (aw_tables w) (the (an_branch doc)) (the (an_organization doc))"
    and "truthy (an_organization doc)" and "truthy (an_branch doc)" and "\<not> truthy (an_group doc)" and "truthy (an_scheduled_at doc)"
    and "frappe_author_branch_scope env (an_branch doc) = Inr ()" and "ae_bus env = wired_bus text"
  shows "\<exists>w'. schedule_announcement env name w = (w', Inr (an_scheduled_at doc))
    \<and> (\<exists>d \<in> set (aw_docs w'). an_name d = name \<and> status_of d = ANNOUNCEMENT_SCHEDULED_STATUS)
    \<and> validate_status_transition (status_of doc) ANNOUNCEMENT_SCHEDULED_STATUS =
        Inl (Announce_Illegal_Transition (status_of doc) ANNOUNCEMENT_SCHEDULED_STATUS)"
proof -
  let ?doc = "doc \<lparr>an_status := Some ANNOUNCEMENT_SCHEDULED_STATUS\<rparr>"
  have doc: "doc \<in> set (aw_docs w)" "an_name doc = name" using assms(1) by (auto simp: find_Some_iff)
  have ok: "validate_announcement_scope ?doc (FrappeSchedulingGateway (aw_tables w)) = Inr ()"
    using assms(3-7) unfolding scope_valid_iff by (simp add: status_of_def ANNOUNCEMENT_STATUSES_def status_defs)
  obtain ev where ev: "bus_emit (wired_bus text) ANNOUNCEMENT_SCHEDULED (scheduled_payload ?doc) (announcement_scope ?doc)
      False None (aw_push w) = (append_outbox ev (aw_push w), Inr ev)"
    using scheduled_emit [of "text" ?doc "aw_push w"] by blast
  have save: "save_announcement ?doc w1 = Inr (w1 \<lparr>aw_docs := map (\<lambda>d. if an_name d = name then ?doc else d) (aw_docs w1)\<rparr>)"
    if "aw_tables w1 = aw_tables w" for w1
    using ok assms(4) doc(2) that
    by (simp add: save_announcement_def validate_announcement_def branch_organization_default_def Let_def)
  have trans: "validate_status_transition ANNOUNCEMENT_DRAFT ANNOUNCEMENT_SCHEDULED_STATUS = Inr ()" by code_simp
  have "validate_status_transition (status_of doc) ANNOUNCEMENT_SCHEDULED_STATUS =
      Inl (Announce_Illegal_Transition (status_of doc) ANNOUNCEMENT_SCHEDULED_STATUS)"
    using assms(2) by (auto simp: status_of_def validate_status_transition_def ANNOUNCEMENT_TRANSITIONS_def status_defs)
  moreover define w' where "w' = w \<lparr>aw_push := append_outbox ev (aw_push w),
    aw_docs := map (\<lambda>d. if an_name d = name then ?doc else d) (aw_docs w)\<rparr>"
  have "schedule_announcement env name w = (w', Inr (an_scheduled_at doc))"
    using assms(1,8,9) by (simp add: schedule_announcement_def Let_def ok trans ev save w'_def)
  moreover have "?doc \<in> set (aw_docs w')" using doc by (force simp: w'_def)
  moreover have "an_name ?doc = name" "status_of ?doc = ANNOUNCEMENT_SCHEDULED_STATUS"
    using doc by (simp_all add: status_of_def status_defs)
  ultimately show ?thesis by blast
qed

text \<open>A preview that succeeds names the branch and its descendants, each once, and their number; the
  branch is one of the organization, a group of the target is bound to it, and the author has a
  global role or a grant on it.\<close>
theorem preview_audience_exact:
  assumes "org_keys tt" and "ae_user env \<noteq> []" and "preview_audience env tt org b grp = Inr (bs, n)"
  shows "distinct bs \<and> set bs = {d. (b, d) \<in> (row_edges br_name br_parent (ot_branches tt))\<^sup>*} \<and> n = card (set bs)
    \<and> org_branch_exists tt b org
    \<and> (truthy grp \<longrightarrow> Option.bind (group_named tt (the grp)) gr_branch = Some b)
    \<and> (pg_user_roles (ae_perm env) (ae_user env) \<inter> GLOBAL_BRANCH_ROLES \<noteq> {}
        \<or> b \<in> set (pg_branch_permissions (ae_perm env) (ae_user env)))"
proof -
  let ?gw = "FrappeSchedulingGateway tt"
  have v: "validate_announcement_scope (draft_target org b grp) ?gw = Inr ()"
    and g: "frappe_author_branch_scope env (Some b) = Inr ()"
    and r: "resolve_audience_branches b ?gw = Inr bs" and n: "n = length bs"
    using assms(3) by (auto simp: preview_audience_def Let_def res_bind_Inr_iff)
  have "b \<noteq> []" "org_branch_exists tt b org" "truthy grp \<longrightarrow> Option.bind (group_named tt (the grp)) gr_branch = Some b"
    using v unfolding scope_valid_iff by (simp_all add: draft_target_def)
  moreover from this have "pg_user_roles (ae_perm env) (ae_user env) \<inter> GLOBAL_BRANCH_ROLES \<noteq> {}
      \<or> b \<in> set (pg_branch_permissions (ae_perm env) (ae_user env))"
    using g assms(2) by (auto simp: frappe_author_branch_scope_def assert_branch_scope_def can_access_branch_def Let_def
      split: if_splits sum.splits)
  moreover have "n = card (set bs)" using audience_subtree [OF assms(1) r] n by (metis distinct_card)
  ultimately show ?thesis using audience_subtree [OF assms(1) r] by simp
qed

text \<open>C27. The portal and the service draw the same line: whatever target passes the portal's guard passes
  the service's author guard, its group belongs to an offered branch; and an admin without a global
  role is offered a branch exactly when the service admits it.\<close>
theorem portal_offers_what_service_admits:
  assumes "get_compose_context db user = Inr ctx" and "user \<noteq> []"
    and "ae_user env = user" and "ae_perm env = FrappePermissionGateway (cd_permissions db)"
  shows "(assert_target_in_context branch grp ctx = Inr () \<longrightarrow>
      frappe_author_branch_scope env branch = Inr ()
      \<and> (truthy grp \<longrightarrow> (\<exists>r \<in> set (ot_groups (cd_tables db)). gr_name r = the grp
            \<and> gr_branch r \<in> Some ` set (targetable_branches db user))))
    \<and> (pd_roles (cd_permissions db) user \<inter> GLOBAL_BRANCH_ROLES = {} \<longrightarrow> truthy branch \<longrightarrow>
        (assert_target_in_context branch None ctx = Inr () \<longleftrightarrow> frappe_author_branch_scope env branch = Inr ()))"
proof -
  let ?roles = "pd_roles (cd_permissions db) user"
  have guard: "frappe_author_branch_scope env branch = Inr () \<longleftrightarrow> ?roles \<inter> GLOBAL_BRANCH_ROLES \<noteq> {} \<or> \<not> truthy branch
      \<or> the branch \<in> set (list_branch_user_permissions (cd_permissions db) user)"
    using assms(2-4)
    by (auto simp: frappe_author_branch_scope_def assert_branch_scope_def can_access_branch_def FrappePermissionGateway_def Let_def)
  have scoped: "set (targetable_branches db user) = set (list_branch_user_permissions (cd_permissions db) user)"
    if "?roles \<inter> GLOBAL_BRANCH_ROLES = {}"
    using that assms(2) by (simp add: targetable_branches_def list_branch_user_permissions_def BRANCH_DOCTYPE_def)
  have target: "assert_target_in_context branch g ctx = Inr () \<longleftrightarrow> truthy branch \<and> the branch \<in> set (targetable_branches db user)
      \<and> (truthy g \<longrightarrow> the g \<in> gc_name ` set (cc_groups ctx))" for g
    by (auto simp: assert_target_in_context_def offered_branches [OF assms(1)])
  show ?thesis
    unfolding guard target offered_groups [OF assms(1)] using scoped by auto
qed

section \<open>Witnesses\<close>

definition demo_announcement :: announcement where
  "demo_announcement = (draft_target ''O'' ''N'' None) \<lparr>an_name := ''A1'', an_scheduled_at := Some ''2026''\<rparr>"

definition demo_announce :: announce_world where
  "demo_announce = \<lparr>aw_tables = demo_org,
     aw_docs = [demo_announcement, demo_announcement \<lparr>an_name := ''A2'', an_status := Some ''Archived''\<rparr>], aw_push = demo_push\<rparr>"

definition demo_permissions :: permission_db where
  "demo_permissions = \<lparr>pd_roles = (\<lambda>u. {ROLE_BRANCH_ADMIN}), pd_members = [], pd_groups = [], pd_roster = [],
     pd_user_permissions = [\<lparr>up_user = ''a@x'', up_allow = BRANCH_DOCTYPE, up_for_value = ''N''\<rparr>]\<rparr>"

definition demo_author :: announce_env where
  "demo_author = \<lparr>ae_user = ''a@x'', ae_now = ''1'', ae_perm = FrappePermissionGateway demo_permissions,
     ae_bus = wired_bus (\<lambda>_. '''')\<rparr>"

lemma demo_author_simps [simp]:
  "ae_user demo_author = ''a@x''" "ae_bus demo_author = wired_bus (\<lambda>_. '''')" "ae_perm demo_author = FrappePermissionGateway demo_permissions"
  by (simp_all add: demo_author_def)

lemma demo_guard: "frappe_author_branch_scope demo_author (Some ''N'') = Inr ()"
  by (simp add: frappe_author_branch_scope_def assert_branch_scope_def can_access_branch_def FrappePermissionGateway_def
    list_branch_user_permissions_def demo_permissions_def)

lemma demo_org_keys: "org_keys demo_org"
  by (simp add: org_keys_def demo_org_def)

lemma demo_scope_valid: "validate_announcement_scope (draft_target ''O'' ''N'' None) (FrappeSchedulingGateway demo_org) = Inr ()"
  by code_simp

lemma demo_resolved: "resolve_audience_branches ''N'' (FrappeSchedulingGateway demo_org) = Inr [''N'']"
  by code_simp

lemma publish_never_succeeds_witness:
  "publish_announcement demo_author ''A1'' demo_announce = (demo_announce, Inl Announce_Missing_Argument)"
proof -
  have "validate_announcement_scope demo_announcement (FrappeSchedulingGateway demo_org) = Inr ()"
    "validate_status_transition (status_of demo_announcement) ANNOUNCEMENT_PUBLISHING = Inr ()"
    "validate_status_transition ANNOUNCEMENT_PUBLISHING ANNOUNCEMENT_PUBLISHED_STATUS = Inr ()"
    by code_simp+
  then have "check_publishable demo_author demo_announcement (aw_tables demo_announce) = Inr [''N'']"
    using demo_guard demo_resolved
    by (simp add: check_publishable_def Let_def demo_announce_def) (simp add: demo_announcement_def draft_target_def)
  moreover have "find (\<lambda>d. an_name d = ''A1'') (aw_docs demo_announce) = Some demo_announcement"
    by (simp add: demo_announce_def demo_announcement_def)
  ultimately show ?thesis using publish_never_succeeds [of demo_author "''A1''" demo_announce] by blast
qed

lemma schedule_from_any_status_witness:
  "\<exists>w'. schedule_announcement demo_author ''A2'' demo_announce = (w', Inr (Some ''2026''))
    \<and> (\<exists>d \<in> set (aw_docs w'). an_name d = ''A2'' \<and> status_of d = ''Scheduled'')"
proof -
  let ?doc = "demo_announcement \<lparr>an_name := ''A2'', an_status := Some ''Archived''\<rparr>"
  have f: "find (\<lambda>d. an_name d = ''A2'') (aw_docs demo_announce) = Some ?doc"
    by (simp add: demo_announce_def demo_announcement_def)
  have d: "an_branch ?doc = Some ''N''" "an_organization ?doc = Some ''O''" "an_group ?doc = None" "an_scheduled_at ?doc = Some ''2026''"
    "an_status ?doc \<in> Some ` {ANNOUNCEMENT_PUBLISHED_STATUS, ANNOUNCEMENT_ARCHIVED}"
    by (simp_all add: demo_announcement_def draft_target_def ANNOUNCEMENT_ARCHIVED_def)
  have "org_branch_exists demo_org ''N'' ''O''" by code_simp
  then have b: "org_branch_exists (aw_tables demo_announce) (the (an_branch ?doc)) (the (an_organization ?doc))"
    unfolding d by (simp add: demo_announce_def)
  have "\<exists>w'. schedule_announcement demo_author ''A2'' demo_announce = (w', Inr (an_scheduled_at ?doc))
    \<and> (\<exists>d \<in> set (aw_docs w'). an_name d = ''A2'' \<and> status_of d = ANNOUNCEMENT_SCHEDULED_STATUS)"
    using schedule_from_any_status [OF f d(5) b, of demo_author "\<lambda>_. ''''"] demo_guard unfolding d by auto
  then show ?thesis unfolding d ANNOUNCEMENT_SCHEDULED_STATUS_def .
qed

lemma preview_audience_exact_witness:
  "preview_audience demo_author demo_org ''O'' ''N'' None = Inr ([''N''], 1)
   \<and> {d. (''N'', d) \<in> (row_edges br_name br_parent (ot_branches demo_org))\<^sup>*} = {''N''}"
proof -
  have p: "preview_audience demo_author demo_org ''O'' ''N'' None = Inr ([''N''], 1)"
    using demo_scope_valid demo_guard demo_resolved by (simp add: preview_audience_def Let_def)
  then show ?thesis using preview_audience_exact [OF demo_org_keys _ p] by simp
qed

definition demo_compose :: compose_db where
  "demo_compose = \<lparr>cd_tables = demo_org, cd_members = [], cd_organizations = [''O''], cd_permissions = demo_permissions,
     cd_collate = (\<lambda>s. s)\<rparr>"

lemma portal_offers_what_service_admits_witness:
  "\<exists>ctx. get_compose_context demo_compose ''a@x'' = Inr ctx \<and> assert_target_in_context (Some ''N'') None ctx = Inr ()
    \<and> assert_target_in_context (Some ''S'') None ctx \<noteq> Inr ()"
proof -
  have "is_compose_admin {ROLE_BRANCH_ADMIN}" by (simp add: is_compose_admin_def ADMIN_COMPOSE_ROLES_def)
  then obtain ctx where ctx: "get_compose_context demo_compose ''a@x'' = Inr ctx"
    by (simp add: get_compose_context_def build_compose_context_def FrappeComposeGateway_def demo_compose_def demo_permissions_def Let_def)
  have roles: "pd_roles (cd_permissions demo_compose) ''a@x'' \<inter> GLOBAL_BRANCH_ROLES = {}"
    by (simp add: demo_compose_def demo_permissions_def GLOBAL_BRANCH_ROLES_def status_defs)
  have "frappe_author_branch_scope demo_author (Some ''S'') \<noteq> Inr ()"
    by (simp add: frappe_author_branch_scope_def assert_branch_scope_def can_access_branch_def FrappePermissionGateway_def
      list_branch_user_permissions_def demo_permissions_def GLOBAL_BRANCH_ROLES_def status_defs)
  moreover have "ae_perm demo_author = FrappePermissionGateway (cd_permissions demo_compose)" by (simp add: demo_compose_def)
  ultimately show ?thesis
    using portal_offers_what_service_admits [OF ctx, of demo_author "Some ''N''" None]
      portal_offers_what_service_admits [OF ctx, of demo_author "Some ''S''" None] ctx roles demo_guard by simp
qed

end
