(* ===== verification/Engagement_Console.thy ===== *)
theory Engagement_Console
  imports Engagement_Api Compose_Portal
begin

text \<open>
  Model of the console part of \<open>flock_os/engagement.py\<close>: accessibility profile, the constants
  handed to the browser, the context a facilitator is offered with its port and production
  adapter (\<open>FrappeFacilitatorGateway\<close> in \<open>flock_os/engagement_frappe.py\<close>), the guard of a picked
  target, and the helpers which turn console payloads and saved templates into arguments of the
  runtime.

  The adapter asks the framework for the branches of a scoped user by filtering and plucking
  columns the permission table does not have; what the framework answers, rows or an exception,
  is the component \<open>fd_scoped_query\<close> of the database.  \<open>json.loads\<close> is the parameter \<open>loads\<close>,
  \<open>None\<close> where it raises.
\<close>

section \<open>Accessibility and the browser contract\<close>

definition A11Y_MIN_TARGET_PX :: int where "A11Y_MIN_TARGET_PX = 48"
definition A11Y_PREF_KEY :: string where "A11Y_PREF_KEY = ''flock:engage:a11y''"

definition DEFAULT_A11Y_PROFILE :: "(string \<times> bool) list" where
  "DEFAULT_A11Y_PROFILE = [(''enabled'', False), (''reduced_motion'', False), (''high_contrast'', False),
     (''colorblind_safe'', False), (''captions'', False), (''haptics'', True)]"

definition resolve_a11y_profile :: "pydict option \<Rightarrow> (string \<times> bool) list" where
  "resolve_a11y_profile saved =
    (case saved of None \<Rightarrow> DEFAULT_A11Y_PROFILE
     | Some s \<Rightarrow> map (\<lambda>(k, v). (k, case map_of s k of None \<Rightarrow> v | Some x \<Rightarrow> py_true x)) DEFAULT_A11Y_PROFILE)"

record parity_contract =
  jp_realtime_events :: "(string \<times> string) list"
  jp_channels :: "(string \<times> string) list"
  jp_shard_count :: nat
  jp_shard_algorithm :: string
  jp_broadcast_channel :: string
  jp_shard_channel :: string

definition js_parity_contract :: "nat \<Rightarrow> parity_contract" where
  "js_parity_contract shard_count =
    \<lparr>jp_realtime_events = [(''game_state'', RT_GAME_STATE), (''attendance_presence'', RT_ATTENDANCE_PRESENCE),
       (''attendance_count'', RT_ATTENDANCE_COUNT)],
     jp_channels = [(''prefix'', EVENT_ROOM_PREFIX), (''broadcast_segment'', BROADCAST_SEGMENT),
       (''shard_segment'', SHARD_SEGMENT)],
     jp_shard_count = shard_count,
     jp_shard_algorithm = ''crc32(utf8(attendee_ref)) >>> 0) % shard_count'',
     jp_broadcast_channel = ''flock_os:event:<session_id>:broadcast'',
     jp_shard_channel = ''flock_os:event:<session_id>:shard:<n>''\<rparr>"

definition ENGAGEMENT_ENDPOINTS :: "(string \<times> string) list" where
  "ENGAGEMENT_ENDPOINTS =
    [(''create_session'', ''flock_os.engagement_views.create_session''),
     (''open_session'', ''flock_os.engagement_views.open_session''),
     (''close_session'', ''flock_os.engagement_views.close_session''),
     (''join_session'', ''flock_os.engagement_views.join_session''),
     (''participate'', ''flock_os.engagement_views.participate''),
     (''session_state'', ''flock_os.engagement_views.session_state''),
     (''flush_offline'', ''flock_os.engagement_views.flush_offline_queue''),
     (''facilitator_context'', ''flock_os.engagement_views.facilitator_context''),
     (''review_queue'', ''flock_os.engagement_views.suspect_review_queue''),
     (''manual_override'', ''flock_os.engagement_views.manual_override'')]"

section \<open>The context of the facilitator\<close>

definition FACILITATOR_ROLES :: "string set" where
  "FACILITATOR_ROLES = {ROLE_ORG_ADMIN, ROLE_BRANCH_ADMIN, ROLE_GROUP_LEADER}"

text \<open>The reads of the port may raise.\<close>

datatype facilitator_error =
    Facilitator_Engagement engagement_error
  | Facilitator_Query

record facilitator_gateway =
  fg_user_roles :: "string \<Rightarrow> string set"
  fg_user_organization :: "string \<Rightarrow> docname option"
  fg_facilitator_branches :: "string \<Rightarrow> facilitator_error + docname list"
  fg_branch_label :: "docname \<Rightarrow> string option"
  fg_gatherings_for_branches :: "docname list \<Rightarrow> group_option list"
  fg_groups_for_branches :: "docname list \<Rightarrow> group_option list"

definition NullFacilitatorGateway :: facilitator_gateway where
  "NullFacilitatorGateway = \<lparr>fg_user_roles = (\<lambda>_. {}), fg_user_organization = (\<lambda>_. None),
     fg_facilitator_branches = (\<lambda>_. Inr []), fg_branch_label = (\<lambda>_. None),
     fg_gatherings_for_branches = (\<lambda>_. []), fg_groups_for_branches = (\<lambda>_. [])\<rparr>"

definition is_facilitator :: "string set \<Rightarrow> bool" where
  "is_facilitator roles \<longleftrightarrow> roles \<inter> FACILITATOR_ROLES \<noteq> {}"

record facilitator_context =
  fc_user :: string
  fc_roles :: "string set"
  fc_organization :: "docname option"
  fc_branches :: "(docname \<times> string) list"
  fc_gatherings :: "group_choice list"
  fc_groups :: "group_choice list"
  fc_kinds :: "pydict list"
  fc_a11y_defaults :: "(string \<times> bool) list"
  fc_parity :: parity_contract
  fc_endpoints :: "(string \<times> string) list"
  fc_is_facilitator :: bool

text \<open>\<open>a.get("label") or a["name"]\<close> on the rows whose branch is offered.\<close>

definition offered_choices :: "docname list \<Rightarrow> group_option list \<Rightarrow> group_choice list" where
  "offered_choices branches rows =
    map (\<lambda>g. \<lparr>gc_name = go_name g, gc_branch = go_branch g, gc_label = the (or_else (go_label g) (Some (go_name g)))\<rparr>)
      (filter (\<lambda>g. go_branch g \<in> set branches) rows)"

definition build_facilitator_context ::
  "string \<Rightarrow> facilitator_gateway \<Rightarrow> facilitator_error + facilitator_context" where
  "build_facilitator_context user gateway =
    (let roles = fg_user_roles gateway user in
     if \<not> is_facilitator roles then Inl (Facilitator_Engagement Not_A_Facilitator)
     else res_bind (fg_facilitator_branches gateway user) (\<lambda>branches.
       Inr \<lparr>fc_user = user, fc_roles = roles, fc_organization = fg_user_organization gateway user,
            fc_branches = map (\<lambda>b. (b, the (or_else (fg_branch_label gateway b) (Some b)))) branches,
            fc_gatherings = offered_choices branches (fg_gatherings_for_branches gateway branches),
            fc_groups = offered_choices branches (fg_groups_for_branches gateway branches),
            fc_kinds = catalog_json, fc_a11y_defaults = DEFAULT_A11Y_PROFILE,
            fc_parity = js_parity_contract DEFAULT_SHARD_COUNT, fc_endpoints = ENGAGEMENT_ENDPOINTS,
            fc_is_facilitator = True\<rparr>))"

definition assert_host_target_in_context :: "docname option \<Rightarrow> docname option \<Rightarrow> docname option
    \<Rightarrow> facilitator_context \<Rightarrow> engagement_error + unit" where
  "assert_host_target_in_context branch grp gathering context =
    (if \<not> truthy branch then Inl Host_Branch_Required
     else if the branch \<notin> fst ` set (fc_branches context) then Inl (Host_Target_Outside (the branch))
     else if truthy grp \<and> the grp \<notin> gc_name ` set (fc_groups context) then Inl (Host_Target_Outside (the grp))
     else if truthy gathering \<and> the gathering \<notin> gc_name ` set (fc_gatherings context)
     then Inl (Host_Target_Outside (the gathering))
     else Inr ())"

section \<open>The production adapter\<close>

record host_gathering =
  hg_name :: docname
  hg_branch :: "docname option"
  hg_title :: "string option"
  hg_starts_on :: "string option"
  hg_status :: string

record facilitator_db =
  fd_compose :: compose_db
  fd_gatherings :: "host_gathering list"
  fd_scoped_query :: "string \<Rightarrow> docname list option"

definition frappe_facilitator_branches :: "facilitator_db \<Rightarrow> string \<Rightarrow> facilitator_error + docname list" where
  "frappe_facilitator_branches db user =
    (if user = [] then Inr []
     else if pd_roles (cd_permissions (fd_compose db)) user \<inter> GLOBAL_BRANCH_ROLES \<noteq> {}
     then let org = get_user_organization (fd_compose db) user
          in if \<not> truthy org then Inr []
             else Inr (map br_name (sort_key (\<lambda>r. cd_collate (fd_compose db) (br_name r))
                    (filter (\<lambda>r. br_organization r = org) (ot_branches (cd_tables (fd_compose db))))))
     else case fd_scoped_query db user of None \<Rightarrow> Inl Facilitator_Query | Some branches \<Rightarrow> Inr branches)"

text \<open>\<open>order_by="starts_on desc, title"\<close>, \<open>limit=200\<close>: a stable sort by title, then a stable
  descending sort by start.  No start sorts last.\<close>

definition HOST_GATHERING_LIMIT :: nat where "HOST_GATHERING_LIMIT = 200"

definition latest_first :: "(string \<Rightarrow> string) \<Rightarrow> host_gathering list \<Rightarrow> host_gathering list" where
  "latest_first collate rows =
    rev (sort_key (\<lambda>g. or_empty (hg_starts_on g)) (rev (sort_key (\<lambda>g. collate (or_empty (hg_title g))) rows)))"

definition gatherings_for_branches :: "facilitator_db \<Rightarrow> docname list \<Rightarrow> group_option list" where
  "gatherings_for_branches db branches =
    (if branches = [] then []
     else map (\<lambda>g. \<lparr>go_name = hg_name g, go_branch = or_empty (hg_branch g),
            go_label = or_else (hg_title g) (Some (hg_name g))\<rparr>)
       (take HOST_GATHERING_LIMIT (latest_first (cd_collate (fd_compose db))
         (filter (\<lambda>g. hg_branch g \<in> Some ` set branches \<and> hg_status g \<noteq> ''Cancelled'') (fd_gatherings db)))))"

definition FrappeFacilitatorGateway :: "facilitator_db \<Rightarrow> facilitator_gateway" where
  "FrappeFacilitatorGateway db =
    \<lparr>fg_user_roles = (\<lambda>u. if u = [] then {} else pd_roles (cd_permissions (fd_compose db)) u),
     fg_user_organization = get_user_organization (fd_compose db),
     fg_facilitator_branches = frappe_facilitator_branches db,
     fg_branch_label = (\<lambda>b. if b = [] then None
        else or_else (Option.bind (branch_named (cd_tables (fd_compose db)) b) br_branch_name) (Some b)),
     fg_gatherings_for_branches = gatherings_for_branches db,
     fg_groups_for_branches = groups_for_branches (fd_compose db)\<rparr>"

section \<open>Launch and authoring helpers\<close>

definition ROOM_CODE_LEN :: nat where "ROOM_CODE_LEN = 6"

text \<open>\<open>rng.choices(digits, k=6)\<close>: the i-th draw picks one of the ten digits.\<close>

definition generate_room_code :: "(nat \<Rightarrow> nat) \<Rightarrow> string" where
  "generate_room_code rng = map (\<lambda>i. ''0123456789'' ! (rng i mod 10)) [0..<ROOM_CODE_LEN]"

record session_args =
  sa_session_id :: "string option"
  sa_name :: "string option"
  sa_session :: "string option"
  sa_room_code :: "string option"

datatype session_ref = By_Id string | By_Code string

definition resolve_session_ref :: "session_args \<Rightarrow> engagement_error + session_ref" where
  "resolve_session_ref payload =
    (let sid = or_else (sa_session_id payload) (or_else (sa_name payload) (sa_session payload))
     in if truthy sid then Inr (By_Id (the sid))
        else if truthy (sa_room_code payload) then Inr (By_Code (the (sa_room_code payload)))
        else Inl Session_Reference_Required)"

definition CONSOLE_CONFIG_KEYS :: "string list" where
  "CONSOLE_CONFIG_KEYS = [''rounds'', ''calm_default'', ''accessibility_mode_default'', ''languages'']"

text \<open>\<open>d.update(e)\<close>.\<close>

definition dict_update :: "pydict \<Rightarrow> pydict \<Rightarrow> pydict" where
  "dict_update d e = fold (\<lambda>(k, v). AList.update k v) e d"

definition pack_session_config :: "pydict option \<Rightarrow> pydict \<Rightarrow> pydict" where
  "pack_session_config config flat =
    fold (\<lambda>key c. if py_get flat key \<noteq> Py_None then AList.update key (py_get flat key) c else c)
      CONSOLE_CONFIG_KEYS (case config of None \<Rightarrow> [] | Some c \<Rightarrow> c)"

text \<open>A truth value is an \<open>int\<close> for \<open>isinstance\<close>.\<close>

definition py_number :: "pyval \<Rightarrow> rat option" where
  "py_number v = (case v of Py_Num r \<Rightarrow> Some r | Py_Bool b \<Rightarrow> Some (if b then 1 else 0) | _ \<Rightarrow> None)"

record unpacked_mark =
  um_feedback :: pydict
  um_score :: "rat option"
  um_reaction_ms :: "rat option"

definition unpack_participate_payload :: "string \<Rightarrow> pydict \<Rightarrow> unpacked_mark" where
  "unpack_participate_payload kind payload =
    \<lparr>um_feedback = payload,
     um_score = (if kind = ''tap_burst'' then py_number (py_get payload ''hit'') else None),
     um_reaction_ms = None\<rparr>"

definition TEMPLATE_DOCTYPES :: "(string \<times> string) list" where
  "TEMPLATE_DOCTYPES = [(ENGAGEMENT_TYPE_GAME, ''Flock Engagement Game Template''),
     (ENGAGEMENT_TYPE_QUESTIONNAIRE, ''Flock Engagement Questionnaire Template'')]"

definition TEMPLATE_KINDS :: "(string \<times> string list) list" where
  "TEMPLATE_KINDS = [(ENGAGEMENT_TYPE_GAME, GAME_KINDS), (ENGAGEMENT_TYPE_QUESTIONNAIRE, QUESTIONNAIRE_KINDS)]"

definition TEMPLATE_AUTHOR_ROLES :: "string set" where
  "TEMPLATE_AUTHOR_ROLES = {ROLE_ORG_ADMIN, ROLE_BRANCH_ADMIN, ''System Manager''}"

definition template_doctype_for_kind :: "string \<Rightarrow> engagement_error + string" where
  "template_doctype_for_kind kind =
    (if kind \<in> set GAME_KINDS then Inr (the (map_of TEMPLATE_DOCTYPES ENGAGEMENT_TYPE_GAME))
     else if kind \<in> set QUESTIONNAIRE_KINDS then Inr (the (map_of TEMPLATE_DOCTYPES ENGAGEMENT_TYPE_QUESTIONNAIRE))
     else Inl (Unknown_Kind kind))"

text \<open>A template as a dict; a missing key is \<open>None\<close>.\<close>

record template_dict =
  td_name :: docname
  td_doctype :: "string option"
  td_template_name :: "string option"
  td_title :: "string option"
  td_kind :: "string option"
  td_description :: "string option"
  td_is_active :: "bool option"
  td_reviewed :: "bool option"
  td_a11y :: "bool option"
  td_organization :: "docname option"
  td_config :: pyval

definition template_config :: "(string \<Rightarrow> pyval option) \<Rightarrow> template_dict \<Rightarrow> pydict" where
  "template_config loads t =
    (case td_config t of
       Py_Dict d \<Rightarrow> d
     | Py_Str raw \<Rightarrow> if raw = [] then []
         else (case loads raw of Some (Py_Dict d) \<Rightarrow> d | _ \<Rightarrow> [])
     | _ \<Rightarrow> [])"

record launch_config =
  lc_kind :: string
  lc_engagement_type :: string
  lc_title :: "string option"
  lc_config :: pydict
  lc_a11y_default :: bool
  lc_template_name :: docname
  lc_template_doctype :: string

definition template_to_launch_config ::
  "(string \<Rightarrow> pyval option) \<Rightarrow> template_dict \<Rightarrow> engagement_error + launch_config" where
  "template_to_launch_config loads t =
    (if \<not> truthy (td_kind t) then Inl No_Template_Kind
     else let kind = the (td_kind t) in
       res_bind (engagement_type_for kind) (\<lambda>ty.
       res_bind (if truthy (td_doctype t) then Inr (the (td_doctype t)) else template_doctype_for_kind kind) (\<lambda>dt.
         Inr \<lparr>lc_kind = kind, lc_engagement_type = ty, lc_title = or_else (td_template_name t) (td_title t),
              lc_config = template_config loads t, lc_a11y_default = (td_a11y t = Some True),
              lc_template_name = td_name t, lc_template_doctype = dt\<rparr>)))"

record template_line =
  tl_name :: docname
  tl_doctype :: string
  tl_template_name :: string
  tl_kind :: "string option"
  tl_engagement_type :: "string option"
  tl_description :: string
  tl_is_active :: bool
  tl_reviewed :: bool
  tl_a11y :: bool

definition template_summary :: "template_dict \<Rightarrow> string \<Rightarrow> engagement_error + template_line" where
  "template_summary row doctype =
    (let kind = or_empty (td_kind row) in
     res_bind (if doctype \<noteq> [] then Inr doctype else if truthy (td_doctype row) then Inr (the (td_doctype row))
               else if kind \<noteq> [] then template_doctype_for_kind kind else Inr []) (\<lambda>dt.
     res_bind (if kind \<noteq> [] then res_bind (engagement_type_for kind) (\<lambda>ty. Inr (Some ty)) else Inr None) (\<lambda>ty.
       Inr \<lparr>tl_name = td_name row, tl_doctype = dt,
            tl_template_name = the (or_else (td_template_name row) (or_else (td_title row) (Some (td_name row)))),
            tl_kind = (if kind \<noteq> [] then Some kind else None), tl_engagement_type = ty,
            tl_description = or_empty (td_description row),
            tl_is_active = (td_is_active row \<noteq> Some False), tl_reviewed = (td_reviewed row = Some True),
            tl_a11y = (td_a11y row = Some True)\<rparr>)))"

end
