(* ===== verification/Engagement_Views.thy ===== *)
theory Engagement_Views
  imports Engagement_Console
begin

text \<open>
  Model of \<open>flock_os/engagement_views.py\<close>, the endpoints the engagement pages call, and of the pages
  \<open>www/engage-host.py\<close>, \<open>www/engage-templates.py\<close> and \<open>www/engage.py\<close>.  They reshape arguments
  and delegate to the endpoints of \<open>engagement_api\<close>.

  Requests arrive decoded; the flat console fields, a config and a payload are dicts of any value.
  Environment: the draws of the random source, the name the naming series yields, a fresh nonce,
  the template rows of each document type (latest change first), and which of several rows with
  one room code the database returns.  A write of session metadata which fails is logged by the
  program; such a failure is not modelled.  Titles of pages are left out.
\<close>

record view_env = api_env +
  ve_rng :: "nat \<Rightarrow> nat"
  ve_session_name :: docname
  ve_nonce :: string
  ve_templates :: "(string \<times> template_dict list) list"
  ve_pick :: "docname list \<Rightarrow> docname"
  ve_facilitator_db :: facilitator_db
  ve_loads :: "string \<Rightarrow> pyval option"

datatype view_error =
    View_Api api_error
  | View_Engagement engagement_error
  | View_Query
  | View_Key_Error string
  | View_Kind_Required
  | View_Ticket_Required
  | View_Unknown_Code string
  | View_Bad_Action
  | View_Bad_Grace string
  | View_Template_Required
  | View_Template_Not_Found docname
  | View_Template_Args_Required

definition view_try :: "engagement_error + 'a \<Rightarrow> view_error + 'a" where
  "view_try r = (case r of Inl e \<Rightarrow> Inl (View_Engagement e) | Inr a \<Rightarrow> Inr a)"

definition view_api :: "api_error + 'a \<Rightarrow> view_error + 'a" where
  "view_api r = (case r of Inl e \<Rightarrow> Inl (View_Api e) | Inr a \<Rightarrow> Inr a)"

lemma view_simps [simp]:
  "view_try (Inl e) = Inl (View_Engagement e)" "view_try (Inr a) = Inr a"
  "view_api (Inl e') = Inl (View_Api e')" "view_api (Inr a) = Inr a"
  by (simp_all add: view_try_def view_api_def)

section \<open>Reads and writes of the adapter module\<close>

text \<open>\<open>ref["session_id"]\<close> raises for a reference by room code.\<close>

definition ref_session_id :: "session_args \<Rightarrow> view_error + docname" where
  "ref_session_id args =
    res_bind (view_try (resolve_session_ref args)) (\<lambda>ref.
      case ref of By_Id sid \<Rightarrow> Inr sid | By_Code _ \<Rightarrow> Inl (View_Key_Error ''session_id''))"

definition sessions_with_code :: "string \<Rightarrow> redis_engagement \<Rightarrow> docname list" where
  "sessions_with_code code st = map fst (filter (\<lambda>(_, row). sd_room_code row = Some code) (rx_sessions st))"

definition resolve_session_id :: "view_env \<Rightarrow> session_args \<Rightarrow> redis_engagement \<Rightarrow> view_error + docname" where
  "resolve_session_id env args st =
    res_bind (view_try (resolve_session_ref args)) (\<lambda>ref.
      case ref of By_Id sid \<Rightarrow> Inr sid
      | By_Code code \<Rightarrow>
          (let found = sessions_with_code code st;
               session_id = (if found = [] then [] else ve_pick env found)
           in if session_id = [] then Inl (View_Unknown_Code code) else Inr session_id))"

definition persist_room_code :: "docname \<Rightarrow> string \<Rightarrow> bool \<Rightarrow> redis_engagement \<Rightarrow> redis_engagement" where
  "persist_room_code sid code accessibility =
    update_session_row sid (\<lambda>row.
      let row1 = row \<lparr>sd_room_code := Some code\<rparr> in if accessibility then row1 \<lparr>sd_calm := True\<rparr> else row1)"

text \<open>\<open>list(config.get("overrides") or [])\<close>, \<open>None\<close> where \<open>list\<close> raises.\<close>

definition py_list :: "pyval \<Rightarrow> pyval list option" where
  "py_list v = (if \<not> py_true v then Some [] else
    case v of Py_List xs \<Rightarrow> Some xs
    | Py_Str s \<Rightarrow> Some (map (\<lambda>c. Py_Str [c]) s)
    | Py_Dict d \<Rightarrow> Some (map (\<lambda>(k, _). Py_Str k) d)
    | _ \<Rightarrow> None)"

definition append_session_override :: "docname \<Rightarrow> pydict \<Rightarrow> redis_engagement \<Rightarrow> redis_engagement" where
  "append_session_override sid override =
    update_session_row sid (\<lambda>row.
      case py_list (py_get (se_config row) ''overrides'') of None \<Rightarrow> row
      | Some overrides \<Rightarrow>
          row \<lparr>se_config := AList.update ''overrides'' (Py_List (overrides @ [Py_Dict override])) (se_config row)\<rparr>)"

record lifecycle_reply =
  lr_session :: docname
  lr_status :: string
  lr_room_code :: "string option"
  lr_count :: "nat option"

definition enrich_lifecycle :: "docname \<Rightarrow> string \<Rightarrow> nat option \<Rightarrow> redis_engagement \<Rightarrow> lifecycle_reply" where
  "enrich_lifecycle sid status count st =
    \<lparr>lr_session = sid, lr_status = status,
     lr_room_code = Option.bind (map_of (rx_sessions st) sid) sd_room_code, lr_count = count\<rparr>"

definition TEMPLATE_ROW_LIMIT :: nat where "TEMPLATE_ROW_LIMIT = 200"

definition template_rows :: "view_env \<Rightarrow> string \<Rightarrow> docname option \<Rightarrow> bool \<Rightarrow> template_dict list" where
  "template_rows env doctype organization only_active =
    take TEMPLATE_ROW_LIMIT (filter (\<lambda>t. (truthy organization \<longrightarrow> td_organization t = organization)
        \<and> (only_active \<longrightarrow> td_is_active t = Some True)) (dict_or [] (ve_templates env) doctype))"

definition template_doc :: "view_env \<Rightarrow> string option \<Rightarrow> docname option \<Rightarrow> view_error + template_dict" where
  "template_doc env doctype name =
    (if \<not> truthy doctype \<or> \<not> truthy name then Inl View_Template_Required
     else case find (\<lambda>t. td_name t = the name) (dict_or [] (ve_templates env) (the doctype)) of
       None \<Rightarrow> Inl (View_Template_Not_Found (the name))
     | Some row \<Rightarrow> Inr (row \<lparr>td_doctype := doctype\<rparr>))"

section \<open>Facilitator lifecycle\<close>

record console_request =
  cr_kind :: "string option"
  cr_engagement_kind :: "string option"
  cr_config :: "pydict option"
  cr_flat :: pydict
  cr_title :: "string option"
  cr_template_name :: "docname option"
  cr_template_doctype :: "string option"
  cr_from_template :: bool
  cr_gathering :: "docname option"
  cr_branch :: "docname option"
  cr_group :: "docname option"
  cr_organization :: "docname option"
  cr_facilitator :: "docname option"
  cr_geofence :: "pydict option"
  cr_scheduled_at :: "string option"

record launch_plan =
  ln_kind :: "string option"
  ln_config :: pydict
  ln_title :: "string option"

text \<open>The first half of \<open>create_session\<close>: template defaults first, inline fields over them.\<close>

definition plan_launch :: "view_env \<Rightarrow> console_request \<Rightarrow> view_error + launch_plan" where
  "plan_launch env rq =
    (let kind = or_else (cr_kind rq) (cr_engagement_kind rq);
         config = pack_session_config (cr_config rq) (cr_flat rq)
     in if truthy (cr_template_name rq) \<and> (\<not> truthy kind \<or> \<not> cr_from_template rq)
        then res_bind (template_doc env (cr_template_doctype rq) (cr_template_name rq)) (\<lambda>template.
             res_bind (view_try (template_to_launch_config (ve_loads env) template)) (\<lambda>launch.
               Inr \<lparr>ln_kind = or_else kind (Some (lc_kind launch)),
                    ln_config = dict_update (lc_config launch) config,
                    ln_title = or_else (cr_title rq) (lc_title launch)\<rparr>))
        else Inr \<lparr>ln_kind = kind, ln_config = config, ln_title = cr_title rq\<rparr>)"

record create_reply =
  cy_session :: docname
  cy_status :: string
  cy_room_code :: string
  cy_player_url :: string
  cy_engagement_type :: string
  cy_kind :: string

definition view_create_session :: "api_service \<Rightarrow> view_env \<Rightarrow> console_request \<Rightarrow> api_world
    \<Rightarrow> view_error + create_reply \<times> api_world" where
  "view_create_session sx env rq w =
    res_bind (plan_launch env rq) (\<lambda>plan.
      if \<not> truthy (ln_kind plan) then Inl View_Kind_Required
      else let kind = the (ln_kind plan) in
        res_bind (view_try (engagement_type_for kind)) (\<lambda>ty.
        case py_int (py_or (py_get (cr_flat rq) ''grace_seconds'') (Py_Num DEFAULT_GRACE_SECONDS)) of
          Inl e \<Rightarrow> Inl (View_Bad_Grace e)
        | Inr grace \<Rightarrow>
          res_bind (view_api (api_create_session sx (api_env.truncate env)
            \<lparr>cq_gathering = or_empty (cr_gathering rq), cq_title = or_empty (ln_title plan),
             cq_engagement_type = ty, cq_kind = kind, cq_branch = cr_branch rq, cq_group = cr_group rq,
             cq_organization = cr_organization rq, cq_facilitator = cr_facilitator rq,
             cq_config = ln_config plan, cq_geofence = cr_geofence rq, cq_grace_seconds = of_int grace,
             cq_scheduled_at = cr_scheduled_at rq\<rparr> (ve_session_name env) w)) (\<lambda>((sid, status), w1).
            let room_code = generate_room_code (ve_rng env) in
            Inr (\<lparr>cy_session = sid, cy_status = status, cy_room_code = room_code,
                  cy_player_url = ''/engage?session='' @ sid, cy_engagement_type = ty, cy_kind = kind\<rparr>,
                 w1 \<lparr>ew_store := persist_room_code sid room_code
                   (py_true (py_get (cr_flat rq) ''calm_default'')) (ew_store w1)\<rparr>))))"

definition view_open_session :: "api_service \<Rightarrow> view_env \<Rightarrow> session_args \<Rightarrow> api_world
    \<Rightarrow> view_error + lifecycle_reply \<times> api_world" where
  "view_open_session sx env args w =
    res_bind (ref_session_id args) (\<lambda>sid.
    res_bind (view_api (api_open_session sx (api_env.truncate env) sid w)) (\<lambda>((_, status), w1).
      Inr (enrich_lifecycle sid status None (ew_store w1), w1)))"

definition view_close_session :: "api_service \<Rightarrow> view_env \<Rightarrow> session_args \<Rightarrow> api_world
    \<Rightarrow> view_error + lifecycle_reply \<times> api_world" where
  "view_close_session sx env args w =
    res_bind (ref_session_id args) (\<lambda>sid.
    res_bind (view_api (api_close_session sx (api_env.truncate env) sid w)) (\<lambda>(outcome, w1).
      Inr (enrich_lifecycle sid STATUS_CLOSING (Some (co_attendee_count outcome)) (ew_store w1), w1)))"

section \<open>The player\<close>

definition view_join_session :: "api_service \<Rightarrow> view_env \<Rightarrow> session_args \<Rightarrow> docname option \<Rightarrow> string option
    \<Rightarrow> api_world \<Rightarrow> view_error + session_ticket \<times> session_snapshot" where
  "view_join_session sx env args member device w =
    res_bind (resolve_session_id env args (ew_store w)) (\<lambda>sid.
      view_api (join_session sx (api_env.truncate env) sid member device w))"

record mark_args =
  mk_session :: session_args
  mk_ticket :: "session_ticket option"
  mk_ticket_kind :: "string option"
  mk_attendee_key :: "string option"
  mk_kind :: "string option"
  mk_payload :: "pydict option"
  mk_nonce :: "string option"
  mk_member :: "docname option"
  mk_display_name :: "string option"
  mk_device :: "string option"
  mk_role :: "string option"
  mk_client_submitted_at :: "rat option"
  mk_geo_region :: "string option"
  mk_offline_replay :: bool

definition mark_request :: "view_env \<Rightarrow> docname \<Rightarrow> mark_args \<Rightarrow> view_error + participate_request" where
  "mark_request env sid a =
    (let key = or_else (mk_attendee_key a) (map_option tk_attendee_key (mk_ticket a)) in
     if \<not> truthy key then Inl View_Ticket_Required
     else let kind = or_empty (or_else (mk_kind a) (mk_ticket_kind a));
              extra = unpack_participate_payload kind (case mk_payload a of None \<Rightarrow> [] | Some p \<Rightarrow> p)
       in case mk_ticket a of None \<Rightarrow> Inl (View_Api Api_Ticket_Malformed)
       | Some ticket \<Rightarrow>
         Inr \<lparr>pq_session = sid, pq_ticket = ticket, pq_attendee_key = the key, pq_member = mk_member a,
              pq_display_name = or_empty (mk_display_name a), pq_device = or_empty (mk_device a),
              pq_nonce = the (or_else (mk_nonce a) (Some (ve_nonce env))), pq_role = mk_role a,
              pq_score = um_score extra, pq_reaction_ms = um_reaction_ms extra, pq_submitted_at = None,
              pq_client_submitted_at = mk_client_submitted_at a, pq_ip = ap_client_ip env,
              pq_geo_region = mk_geo_region a, pq_offline_replay = mk_offline_replay a,
              pq_feedback = um_feedback extra\<rparr>)"

definition view_participate :: "api_service \<Rightarrow> view_env \<Rightarrow> mark_args \<Rightarrow> api_world
    \<Rightarrow> api_world \<times> (view_error + participation_receipt)" where
  "view_participate sx env a w =
    (case res_bind (resolve_session_id env (mk_session a) (ew_store w)) (\<lambda>sid. mark_request env sid a) of
       Inl e \<Rightarrow> (w, Inl e)
     | Inr rq \<Rightarrow> let (w1, r) = api_participate sx (api_env.truncate env) rq w in (w1, view_api r))"

definition flush_offline_queue :: "api_service \<Rightarrow> view_env \<Rightarrow> session_args \<Rightarrow> flush_item list \<Rightarrow> api_world
    \<Rightarrow> api_world \<times> (view_error + flush_reply)" where
  "flush_offline_queue sx env args items w =
    (case resolve_session_id env args (ew_store w) of
       Inl e \<Rightarrow> (w, Inl e)
     | Inr sid \<Rightarrow> let (w1, r) = bulk_attendance sx (api_env.truncate env) sid items w in (w1, view_api r))"

definition view_session_state :: "api_service \<Rightarrow> view_env \<Rightarrow> session_args \<Rightarrow> api_world
    \<Rightarrow> view_error + session_snapshot" where
  "view_session_state sx env args w =
    res_bind (resolve_session_id env args (ew_store w)) (\<lambda>sid. view_api (session_state sx sid w))"

section \<open>Console support\<close>

definition facilitator_context_for :: "view_env \<Rightarrow> string option \<Rightarrow> view_error + facilitator_context" where
  "facilitator_context_for env user =
    (case build_facilitator_context (the (or_else user (Some (ap_user env))))
        (FrappeFacilitatorGateway (ve_facilitator_db env)) of
       Inl (Facilitator_Engagement e) \<Rightarrow> Inl (View_Engagement e)
     | Inl Facilitator_Query \<Rightarrow> Inl View_Query
     | Inr ctx \<Rightarrow> Inr ctx)"

definition suspect_review_queue :: "api_service \<Rightarrow> session_args \<Rightarrow> api_world
    \<Rightarrow> view_error + docname \<times> review_queue" where
  "suspect_review_queue sx args w =
    res_bind (ref_session_id args) (\<lambda>sid.
      Inr (sid, review_queue_items (gg_participations (sx_gateway sx) sid (ew_store w)) REVIEW_QUEUE_MAX))"

definition override_entry :: "string option \<Rightarrow> string \<Rightarrow> string option \<Rightarrow> string \<Rightarrow> pydict" where
  "override_entry key action reason user =
    [(''attendee_key'', py_of_opt key), (''action'', Py_Str action),
     (''reason'', Py_Str (the (or_else reason (Some ''Facilitator review'')))), (''by'', Py_Str user)]"

definition manual_override :: "view_env \<Rightarrow> session_args \<Rightarrow> string option \<Rightarrow> string option \<Rightarrow> string option
    \<Rightarrow> api_world \<Rightarrow> view_error + (docname \<times> pydict) \<times> api_world" where
  "manual_override env args action key reason w =
    res_bind (ref_session_id args) (\<lambda>sid.
      if action \<notin> {Some ''keep'', Some ''revoke''} then Inl View_Bad_Action
      else let override = override_entry key (the action) reason (ap_user env)
      in Inr ((sid, override), w \<lparr>ew_store := append_session_override sid override (ew_store w)\<rparr>))"

section \<open>Templates\<close>

fun summaries :: "string \<Rightarrow> template_dict list \<Rightarrow> view_error + template_line list" where
  "summaries doctype [] = Inr []"
| "summaries doctype (t # ts) =
     res_bind (view_try (template_summary t doctype)) (\<lambda>l.
     res_bind (summaries doctype ts) (\<lambda>ls. Inr (l # ls)))"

fun template_families :: "(string \<Rightarrow> template_dict list) \<Rightarrow> (string \<times> string) list
    \<Rightarrow> view_error + (string \<times> template_line list) list" where
  "template_families rows [] = Inr []"
| "template_families rows ((family, doctype) # fs) =
     res_bind (summaries doctype (rows doctype)) (\<lambda>ls.
     res_bind (template_families rows fs) (\<lambda>out. Inr ((family, ls) # out)))"

definition list_engagement_templates :: "view_env \<Rightarrow> docname option \<Rightarrow> string option
    \<Rightarrow> view_error + (string \<times> template_line list) list" where
  "list_engagement_templates env organization engagement_type =
    template_families (\<lambda>doctype. template_rows env doctype organization True)
      (case engagement_type of
         Some family \<Rightarrow> (case map_of TEMPLATE_DOCTYPES family of
             Some doctype \<Rightarrow> [(family, doctype)] | None \<Rightarrow> TEMPLATE_DOCTYPES)
       | None \<Rightarrow> TEMPLATE_DOCTYPES)"

text \<open>\<open>{**summary, **launch, ...}\<close>: where both have a key, that of the launch config wins.\<close>

definition get_engagement_template :: "view_env \<Rightarrow> string option \<Rightarrow> docname option \<Rightarrow> string option
    \<Rightarrow> view_error + template_line \<times> launch_config" where
  "get_engagement_template env doctype0 name kind =
    res_bind (if \<not> truthy doctype0 \<and> truthy kind
        then res_bind (view_try (template_doctype_for_kind (the kind))) (\<lambda>dt. Inr (Some dt))
        else Inr doctype0) (\<lambda>doctype.
      if \<not> truthy doctype \<or> \<not> truthy name then Inl View_Template_Args_Required
      else res_bind (template_doc env doctype name) (\<lambda>row.
           res_bind (view_try (template_summary row (the doctype))) (\<lambda>summary.
           res_bind (view_try (template_to_launch_config (ve_loads env) row)) (\<lambda>launch.
             Inr (summary \<lparr>tl_template_name := lc_template_name launch\<rparr>,
                  launch \<lparr>lc_template_doctype := the doctype\<rparr>)))))"

section \<open>The pages\<close>

definition facilitator_page :: "string \<Rightarrow> facilitator_db \<Rightarrow> string \<Rightarrow> view_error + facilitator_context page" where
  "facilitator_page login db user =
    (case build_facilitator_context user (FrappeFacilitatorGateway db) of
       Inl (Facilitator_Engagement _) \<Rightarrow> Inr (if user = ''Guest'' then Page_Sign_In login else Page_Forbidden)
     | Inl Facilitator_Query \<Rightarrow> Inl View_Query
     | Inr ctx \<Rightarrow> Inr (Page_Rendered ctx))"

record host_page =
  hp_context :: facilitator_context
  hp_groups_by_branch :: "(docname \<times> (docname \<times> string) list) list"
  hp_gatherings_by_branch :: "(docname \<times> (docname \<times> string) list) list"
  hp_templates :: "(string \<times> template_line list) list"
  hp_template_preselect :: string

definition templates_by_family :: "view_env \<Rightarrow> docname option \<Rightarrow> view_error + (string \<times> template_line list) list" where
  "templates_by_family env organization =
    template_families (\<lambda>doctype.
      map (\<lambda>t. t \<lparr>td_is_active := None, td_reviewed := None, td_organization := None\<rparr>)
        (take 100 (filter (\<lambda>t. (truthy organization \<longrightarrow> td_organization t = organization) \<and> td_is_active t = Some True)
          (dict_or [] (ve_templates env) doctype)))) TEMPLATE_DOCTYPES"

definition engage_host_page :: "view_env \<Rightarrow> string option \<Rightarrow> view_error + host_page page" where
  "engage_host_page env preselect =
    res_bind (facilitator_page ''/login?redirect-to=/engage-host'' (ve_facilitator_db env) (ap_user env)) (\<lambda>p.
      case p of Page_Sign_In to \<Rightarrow> Inr (Page_Sign_In to) | Page_Forbidden \<Rightarrow> Inr Page_Forbidden
      | Page_Rendered ctx \<Rightarrow>
          res_bind (templates_by_family env (fc_organization ctx)) (\<lambda>templates.
            Inr (Page_Rendered \<lparr>hp_context = ctx, hp_groups_by_branch = choices_by_branch (fc_groups ctx),
              hp_gatherings_by_branch = choices_by_branch (fc_gatherings ctx), hp_templates = templates,
              hp_template_preselect = or_empty preselect\<rparr>)))"

record templates_page =
  tp_context :: facilitator_context
  tp_can_author :: bool
  tp_templates :: "(string \<times> template_line list) list"

text \<open>\<open>order_by="is_active desc, modified desc"\<close>.\<close>

definition engage_templates_page :: "view_env \<Rightarrow> view_error + templates_page page" where
  "engage_templates_page env =
    res_bind (facilitator_page ''/login?redirect-to=/engage-templates'' (ve_facilitator_db env) (ap_user env)) (\<lambda>p.
      case p of Page_Sign_In to \<Rightarrow> Inr (Page_Sign_In to) | Page_Forbidden \<Rightarrow> Inr Page_Forbidden
      | Page_Rendered ctx \<Rightarrow>
          res_bind (template_families (\<lambda>doctype.
              let rows = filter (\<lambda>t. truthy (fc_organization ctx) \<longrightarrow> td_organization t = fc_organization ctx)
                           (dict_or [] (ve_templates env) doctype)
              in take 200 (filter (\<lambda>t. td_is_active t = Some True) rows
                   @ filter (\<lambda>t. td_is_active t \<noteq> Some True) rows)) TEMPLATE_DOCTYPES) (\<lambda>templates.
            Inr (Page_Rendered \<lparr>tp_context = ctx, tp_can_author = (fc_roles ctx \<inter> TEMPLATE_AUTHOR_ROLES \<noteq> {}),
              tp_templates = templates\<rparr>)))"

text \<open>\<open>www/engage.py\<close>; \<open>quote\<close> is the framework's URL quoting.\<close>

definition room_qs :: "(string \<Rightarrow> string) \<Rightarrow> string \<Rightarrow> string \<Rightarrow> string" where
  "room_qs quote session_id room_code =
    (let parts = (if session_id \<noteq> [] then [''session='' @ quote session_id] else [])
               @ (if room_code \<noteq> [] then [''code='' @ quote room_code] else [])
     in case parts of [] \<Rightarrow> [] | part # rest \<Rightarrow> ''?'' @ part @ concat (map (\<lambda>q. ''&'' @ q) rest))"

record player_page =
  pp_session_id :: string
  pp_room_code :: string
  pp_kinds :: "pydict list"
  pp_parity :: parity_contract
  pp_a11y_defaults :: "(string \<times> bool) list"
  pp_endpoints :: "(string \<times> string) list"
  pp_a11y_pref_key :: string
  pp_min_target_px :: int

definition engage_page :: "(string \<Rightarrow> string) \<Rightarrow> string \<Rightarrow> string option \<Rightarrow> string option \<Rightarrow> string option
    \<Rightarrow> player_page page" where
  "engage_page quote user session_arg s_arg code_arg =
    (let session_id = py_strip (or_empty (or_else session_arg s_arg)); room_code = py_strip (or_empty code_arg)
     in if user = ''Guest'' then Page_Sign_In (''/login?redirect-to=/engage'' @ room_qs quote session_id room_code)
        else Page_Rendered \<lparr>pp_session_id = session_id, pp_room_code = room_code, pp_kinds = catalog_json,
          pp_parity = js_parity_contract DEFAULT_SHARD_COUNT, pp_a11y_defaults = DEFAULT_A11Y_PROFILE,
          pp_endpoints = ENGAGEMENT_ENDPOINTS, pp_a11y_pref_key = A11Y_PREF_KEY,
          pp_min_target_px = A11Y_MIN_TARGET_PX\<rparr>)"

end
