(* ===== verification/Engagement_View_Properties.thy ===== *)
theory Engagement_View_Properties
  imports Engagement_Views Engagement_Demo
begin

text \<open>
  What the console and the player pages guarantee: the targets a facilitator can host for, the
  session a room code leads to, what a mark sent through the page can set, the launch from a
  template and the trail of overrides.
\<close>

section \<open>Room codes\<close>

lemma room_code_digits: "length (generate_room_code rng) = 6" "set (generate_room_code rng) \<subseteq> set ''0123456789''"
proof -
  have draw: "''0123456789'' ! (n mod 10) \<in> set ''0123456789''" for n :: nat
    by (rule nth_mem) simp
  show "set (generate_room_code rng) \<subseteq> set ''0123456789''"
    unfolding generate_room_code_def set_map by (rule image_subsetI, rule draw)
qed (simp add: generate_room_code_def ROOM_CODE_LEN_def)

lemma map_entry_snoc:
  "map_of xs k = None \<Longrightarrow> AList.map_entry k f (xs @ [(k, v)]) = xs @ [(k, f v)]"
  by (induction xs) (auto split: if_splits)

text \<open>What a successful \<open>create_session\<close> adds.\<close>

lemma api_create_effect:
  assumes made: "api_create_session (get_service dumps cr) aenv q sid w = Inr ((rp, status), w0)"
    and fresh: "map_of (rx_sessions (ew_store w)) sid = None"
  obtains row where "ew_store w0 = (ew_store w) \<lparr>rx_sessions := rx_sessions (ew_store w) @ [(sid, row)]\<rparr>" "rp = sid"
    "se_kind row = cq_kind q" "se_status row = status" "se_config row = cq_config q" "\<not> sd_calm row" "sd_title row = cq_title q"
proof -
  let ?sx = "get_service dumps cr"
  obtain g where g: "map_of (ap_gatherings aenv) (cq_gathering q) = Some g"
    using made by (auto simp: api_create_session_def split: option.splits)
  define session where "session = \<lparr>se_id = sid, se_gathering = cq_gathering q,
      se_branch = the (or_else (cq_branch q) (ag_branch g)), se_organization = the (or_else (cq_organization q) (ag_organization g)),
      se_group = or_else (cq_group q) (ag_group g), se_kind = cq_kind q,
      se_status = (if truthy (cq_scheduled_at q) then STATUS_SCHEDULED else STATUS_DRAFT),
      se_open_at = None, se_close_at = None, se_facilitator = cq_facilitator q,
      se_config = cq_config q, se_geofence = cq_geofence q\<rparr>"
  have "res_bind (api_try (create_session (sx_gateway ?sx) session (ew_store w))) (\<lambda>(_, st).
      Inr ((sid, se_status session), w \<lparr>ew_store := persist_session_doc session q st\<rparr>)) = Inr ((rp, status), w0)"
    using made unfolding api_create_session_def g session_def
    by (simp add: Let_def split: if_splits sum.splits)
  then have w0: "w0 = w \<lparr>ew_store := persist_session_doc session q (ew_store w)\<rparr>" "rp = sid" "status = se_status session"
    by (auto simp: res_bind_Inr_iff api_try_def create_session_def get_service_def FrappeEngagementGateway_def split: sum.splits)
  define row where "row = snd (last (rx_sessions (persist_session_doc session q (ew_store w))))"
  show thesis
    by (rule that [of row]) (use fresh in \<open>simp_all add: w0 row_def persist_session_doc_def session_def\<close>)
qed

text \<open>The request \<open>create_session\<close> delegates.\<close>

definition delegated_create :: "console_request \<Rightarrow> launch_plan \<Rightarrow> string \<Rightarrow> int \<Rightarrow> create_request" where
  "delegated_create rq plan ty grace =
     \<lparr>cq_gathering = or_empty (cr_gathering rq), cq_title = or_empty (ln_title plan),
      cq_engagement_type = ty, cq_kind = the (ln_kind plan), cq_branch = cr_branch rq, cq_group = cr_group rq,
      cq_organization = cr_organization rq, cq_facilitator = cr_facilitator rq,
      cq_config = ln_config plan, cq_geofence = cr_geofence rq, cq_grace_seconds = of_int grace,
      cq_scheduled_at = cr_scheduled_at rq\<rparr>"

lemma view_create_parts:
  assumes "view_create_session sx env rq w = Inr (reply, w1)"
  obtains plan ty grace status w0 rp where
    "plan_launch env rq = Inr plan" "truthy (ln_kind plan)" "engagement_type_for (the (ln_kind plan)) = Inr ty"
    "api_create_session sx (api_env.truncate env) (delegated_create rq plan ty grace) (ve_session_name env) w = Inr ((rp, status), w0)"
    "reply = \<lparr>cy_session = rp, cy_status = status, cy_room_code = generate_room_code (ve_rng env),
                  cy_player_url = ''/engage?session='' @ rp, cy_engagement_type = ty, cy_kind = the (ln_kind plan)\<rparr>"
    "w1 = w0 \<lparr>ew_store := persist_room_code rp (generate_room_code (ve_rng env))
                   (py_true (py_get (cr_flat rq) ''calm_default'')) (ew_store w0)\<rparr>"
proof -
  obtain plan where plan: "plan_launch env rq = Inr plan"
    using assms by (auto simp: view_create_session_def res_bind_Inr_iff)
  have kind: "truthy (ln_kind plan)" using assms by (auto simp: view_create_session_def plan split: if_splits)
  obtain ty where ty: "engagement_type_for (the (ln_kind plan)) = Inr ty"
    using assms kind by (cases "engagement_type_for (the (ln_kind plan))") (simp_all add: view_create_session_def plan)
  obtain grace where grace: "py_int (py_or (py_get (cr_flat rq) ''grace_seconds'') (Py_Num DEFAULT_GRACE_SECONDS)) = Inr grace"
    using assms kind ty
    by (cases "py_int (py_or (py_get (cr_flat rq) ''grace_seconds'') (Py_Num DEFAULT_GRACE_SECONDS))") (simp_all add: view_create_session_def plan)
  obtain r where r: "api_create_session sx (api_env.truncate env) (delegated_create rq plan ty grace) (ve_session_name env) w = Inr r"
    using assms kind ty grace
    by (cases "api_create_session sx (api_env.truncate env) (delegated_create rq plan ty grace) (ve_session_name env) w")
      (simp_all add: view_create_session_def plan delegated_create_def)
  obtain rp status w0 where q: "r = ((rp, status), w0)" by (metis surj_pair)
  show thesis
    using assms by (intro that [OF plan kind ty r [unfolded q]])
      (simp_all add: view_create_session_def plan kind ty grace r [unfolded q delegated_create_def] Let_def)
qed

lemma view_create_effect:
  assumes create: "view_create_session (get_service dumps cr) env rq w = Inr (reply, w1)"
    and fresh: "map_of (rx_sessions (ew_store w)) (ve_session_name env) = None"
  obtains plan row where
    "plan_launch env rq = Inr plan" "ln_kind plan = Some (cy_kind reply)"
    "ew_store w1 = (ew_store w) \<lparr>rx_sessions := rx_sessions (ew_store w) @ [(ve_session_name env, row)]\<rparr>"
    "cy_session reply = ve_session_name env" "cy_room_code reply = generate_room_code (ve_rng env)"
    "se_kind row = cy_kind reply" "se_status row = cy_status reply" "se_config row = ln_config plan"
    "sd_room_code row = Some (cy_room_code reply)"
    "sd_calm row = py_true (py_get (cr_flat rq) ''calm_default'')"
    "sd_title row = or_empty (ln_title plan)"
    "engagement_type_for (cy_kind reply) = Inr (cy_engagement_type reply)"
proof -
  let ?sid = "ve_session_name env" and ?st = "ew_store w"
  from view_create_parts [OF create] obtain plan ty grace status w0 rp where
    plan: "plan_launch env rq = Inr plan" and kind: "truthy (ln_kind plan)"
    and ty: "engagement_type_for (the (ln_kind plan)) = Inr ty"
    and made: "api_create_session (get_service dumps cr) (api_env.truncate env) (delegated_create rq plan ty grace) ?sid w = Inr ((rp, status), w0)"
    and out: "reply = \<lparr>cy_session = rp, cy_status = status, cy_room_code = generate_room_code (ve_rng env),
                  cy_player_url = ''/engage?session='' @ rp, cy_engagement_type = ty, cy_kind = the (ln_kind plan)\<rparr>"
      "w1 = w0 \<lparr>ew_store := persist_room_code rp (generate_room_code (ve_rng env))
                   (py_true (py_get (cr_flat rq) ''calm_default'')) (ew_store w0)\<rparr>" .
  obtain row where row: "ew_store w0 = ?st \<lparr>rx_sessions := rx_sessions ?st @ [(?sid, row)]\<rparr>" "rp = ?sid"
    "se_kind row = the (ln_kind plan)" "se_status row = status" "se_config row = ln_config plan"
    "\<not> sd_calm row" "sd_title row = or_empty (ln_title plan)"
    using api_create_effect [OF made fresh] by (auto simp: delegated_create_def)
  show thesis
  proof (rule that [OF plan])
    show "ew_store w1 = ?st \<lparr>rx_sessions := rx_sessions ?st @ [(?sid, (let row1 = row \<lparr>sd_room_code := Some (cy_room_code reply)\<rparr>
        in if py_true (py_get (cr_flat rq) ''calm_default'') then row1 \<lparr>sd_calm := True\<rparr> else row1))]\<rparr>"
      by (simp add: out row persist_room_code_def update_session_row_def map_entry_snoc [OF fresh])
  qed (use kind ty row in \<open>auto simp: out truthy_def Let_def split: option.splits\<close>)
qed

definition by_code :: "string \<Rightarrow> session_args" where
  "by_code code = \<lparr>sa_session_id = None, sa_name = None, sa_session = None, sa_room_code = Some code\<rparr>"

definition by_id :: "string \<Rightarrow> session_args" where
  "by_id sid = \<lparr>sa_session_id = Some sid, sa_name = None, sa_session = None, sa_room_code = None\<rparr>"

lemma resolve_refs:
  "sid \<noteq> [] \<Longrightarrow> resolve_session_id env (by_id sid) st = Inr sid"
  "code \<noteq> [] \<Longrightarrow> resolve_session_id env (by_code code) st =
     (let found = sessions_with_code code st; s = (if found = [] then [] else ve_pick env found)
      in if s = [] then Inl (View_Unknown_Code code) else Inr s)"
  by (simp_all add: resolve_session_id_def resolve_session_ref_def by_id_def by_code_def or_else_def)

lemma sessions_with_code_snoc:
  "sessions_with_code code (st \<lparr>rx_sessions := rx_sessions st @ [(sid, row)]\<rparr>) =
     sessions_with_code code st @ (if sd_room_code row = Some code then [sid] else [])"
  by (simp add: sessions_with_code_def)

lemma new_session_found:
  "map_of (rx_sessions st) sid = None \<Longrightarrow>
   redis_get_session sid (st \<lparr>rx_sessions := rx_sessions st @ [(sid, row)]\<rparr>) = Some (session_from_row (rx_utc_offset st) row)"
  by (simp add: redis_get_session_def map_add_def)

text \<open>A room code is six digits, and when no earlier session has it, it leads to the session it was
  made for: every reader resolves it to that session, joining by the code is joining by the id, and
  the state read by it is that of the created session.\<close>

theorem room_code_leads_to_session:
  assumes create: "view_create_session (get_service dumps cr) env rq w = Inr (reply, w1)"
    and fresh: "map_of (rx_sessions (ew_store w)) (ve_session_name env) = None" "ve_session_name env \<noteq> []"
    and unused: "sessions_with_code (generate_room_code (ve_rng env)) (ew_store w) = []"
    and picks: "\<And>ms. ms \<noteq> [] \<Longrightarrow> ve_pick env' ms \<in> set ms"
  shows "length (cy_room_code reply) = 6 \<and> set (cy_room_code reply) \<subseteq> set ''0123456789''
    \<and> resolve_session_id env' (by_code (cy_room_code reply)) (ew_store w1) = Inr (cy_session reply)
    \<and> view_join_session sx env' (by_code (cy_room_code reply)) member device w1
        = view_join_session sx env' (by_id (cy_session reply)) member device w1
    \<and> (\<exists>snap. view_session_state (get_service dumps cr) env' (by_code (cy_room_code reply)) w1 = Inr snap
         \<and> sn_status snap = cy_status reply \<and> sn_kind snap = cy_kind reply
         \<and> sn_engagement_type snap = cy_engagement_type reply)"
proof -
  obtain plan row where e:
    "ew_store w1 = (ew_store w) \<lparr>rx_sessions := rx_sessions (ew_store w) @ [(ve_session_name env, row)]\<rparr>"
    "cy_session reply = ve_session_name env" "cy_room_code reply = generate_room_code (ve_rng env)"
    "se_kind row = cy_kind reply" "se_status row = cy_status reply" "sd_room_code row = Some (cy_room_code reply)"
    "engagement_type_for (cy_kind reply) = Inr (cy_engagement_type reply)"
    by (rule view_create_effect [OF create fresh(1)])
  have code: "length (cy_room_code reply) = 6" "set (cy_room_code reply) \<subseteq> set ''0123456789''"
    unfolding e(3) by (rule room_code_digits)+
  then have nonempty: "cy_room_code reply \<noteq> []" by auto
  have "sessions_with_code (cy_room_code reply) (ew_store w1) = [cy_session reply]"
    unfolding e(1) sessions_with_code_snoc using unused by (simp add: e)
  with picks [of "[cy_session reply]"] fresh(2) have found:
    "resolve_session_id env' (by_code (cy_room_code reply)) (ew_store w1) = Inr (cy_session reply)"
    by (simp add: resolve_refs(2) [OF nonempty] e(2))
  have id: "resolve_session_id env' (by_id (cy_session reply)) (ew_store w1) = Inr (cy_session reply)"
    using fresh(2) by (simp add: resolve_refs(1) e(2))
  have got: "redis_get_session (ve_session_name env) (ew_store w1) = Some (session_from_row (rx_utc_offset (ew_store w)) row)"
    unfolding e(1) by (rule new_session_found [OF fresh(1)])
  show ?thesis
  proof (intro conjI)
    show "view_join_session sx env' (by_code (cy_room_code reply)) member device w1
        = view_join_session sx env' (by_id (cy_session reply)) member device w1"
      by (simp add: view_join_session_def found id)
    show "\<exists>snap. view_session_state (get_service dumps cr) env' (by_code (cy_room_code reply)) w1 = Inr snap
         \<and> sn_status snap = cy_status reply \<and> sn_kind snap = cy_kind reply
         \<and> sn_engagement_type snap = cy_engagement_type reply"
      by (simp add: view_session_state_def found session_state_def require_session_def get_service_def api_try_def
          FrappeEngagementGateway_def got session_from_row_def e(2,4,5,7) engagement_session.defs)
  qed (use code found in simp_all)
qed

text \<open>Two sessions may draw one code; then both are reached by it only in the order the database picks.\<close>

lemma shared_room_code:
  assumes create: "view_create_session (get_service dumps cr) env rq w = Inr (reply, w1)"
    and fresh: "map_of (rx_sessions (ew_store w)) (ve_session_name env) = None"
    and taken: "old \<in> set (sessions_with_code (generate_room_code (ve_rng env)) (ew_store w))"
  shows "sessions_with_code (cy_room_code reply) (ew_store w1)
      = sessions_with_code (cy_room_code reply) (ew_store w) @ [cy_session reply]
    \<and> old \<noteq> cy_session reply"
proof -
  obtain plan row where e:
    "ew_store w1 = (ew_store w) \<lparr>rx_sessions := rx_sessions (ew_store w) @ [(ve_session_name env, row)]\<rparr>"
    "cy_session reply = ve_session_name env" "sd_room_code row = Some (cy_room_code reply)"
    by (rule view_create_effect [OF create fresh])
  have "old \<in> fst ` set (rx_sessions (ew_store w))" using taken by (force simp: sessions_with_code_def)
  then have "old \<noteq> ve_session_name env" using fresh map_of_eq_None_iff by metis
  then show ?thesis by (simp add: e sessions_with_code_snoc)
qed

section \<open>The targets of a facilitator\<close>

definition hostable :: "facilitator_db \<Rightarrow> docname list \<Rightarrow> host_gathering list" where
  "hostable db branches = filter (\<lambda>g. hg_branch g \<in> Some ` set branches \<and> hg_status g \<noteq> ''Cancelled'') (fd_gatherings db)"

lemma set_latest_first [simp]: "set (latest_first collate rows) = set rows"
  by (simp add: latest_first_def)

lemma length_latest_first [simp]: "length (latest_first collate rows) = length rows"
  by (simp add: latest_first_def)

lemma offered_names:
  "gc_name ` set (offered_choices branches rows) = go_name ` {g \<in> set rows. go_branch g \<in> set branches}"
  by (simp add: offered_choices_def image_image)

lemma listed_gatherings:
  assumes "length (hostable db branches) \<le> HOST_GATHERING_LIMIT"
  shows "go_name ` {g \<in> set (gatherings_for_branches db branches). go_branch g \<in> set branches}
    = hg_name ` set (hostable db branches)"
proof -
  define f where "f g = \<lparr>go_name = hg_name g, go_branch = or_empty (hg_branch g),
      go_label = or_else (hg_title g) (Some (hg_name g))\<rparr>" for g :: host_gathering
  have rows: "set (gatherings_for_branches db branches) = f ` set (hostable db branches)"
    using assms by (simp add: gatherings_for_branches_def hostable_def f_def)
  have "go_name ` {g \<in> f ` set (hostable db branches). go_branch g \<in> set branches}
      = (\<lambda>g. go_name (f g)) ` set (hostable db branches)"
    by (rule selected_image) (auto simp: hostable_def f_def)
  then show ?thesis by (simp add: rows f_def)
qed

lemma facilitator_context_parts:
  assumes "facilitator_context_for env user = Inr ctx"
  obtains bs where
    "frappe_facilitator_branches (ve_facilitator_db env) (the (or_else user (Some (ap_user env)))) = Inr bs"
    "fst ` set (fc_branches ctx) = set bs"
    "fc_gatherings ctx = offered_choices bs (gatherings_for_branches (ve_facilitator_db env) bs)"
    "fc_groups ctx = offered_choices bs (groups_for_branches (fd_compose (ve_facilitator_db env)) bs)"
    "is_facilitator (fc_roles ctx)"
    "fc_roles ctx = fg_user_roles (FrappeFacilitatorGateway (ve_facilitator_db env)) (the (or_else user (Some (ap_user env))))"
  using assms
  by (auto simp: facilitator_context_for_def build_facilitator_context_def FrappeFacilitatorGateway_def Let_def
      res_bind_Inr_iff image_image split: sum.splits facilitator_error.splits if_splits)

text \<open>C29. The context of the console is offered to facilitators only, and its guard accepts a picked
  target exactly when the branch is one of the branches the adapter reads for the user, the group
  lies in one of these branches, and so does the gathering, which is not cancelled.  For a global
  role these branches are exactly those of the own organization.  The list of gatherings must fit
  into the two hundred rows that are read.\<close>

theorem host_targets_confined:
  assumes ctx: "facilitator_context_for env user = Inr ctx"
    and who: "u = the (or_else user (Some (ap_user env)))" "db = ve_facilitator_db env"
    and fits: "\<And>bs. frappe_facilitator_branches db u = Inr bs \<Longrightarrow> length (hostable db bs) \<le> HOST_GATHERING_LIMIT"
  shows "\<exists>bs. frappe_facilitator_branches db u = Inr bs
    \<and> is_facilitator (pd_roles (cd_permissions (fd_compose db)) u)
    \<and> (pd_roles (cd_permissions (fd_compose db)) u \<inter> GLOBAL_BRANCH_ROLES \<noteq> {} \<longrightarrow>
        set bs = {br_name r | r org. r \<in> set (ot_branches (cd_tables (fd_compose db)))
          \<and> get_user_organization (fd_compose db) u = Some org \<and> org \<noteq> [] \<and> br_organization r = Some org})
    \<and> (assert_host_target_in_context branch grp gathering ctx = Inr () \<longleftrightarrow>
        truthy branch \<and> the branch \<in> set bs
        \<and> (truthy grp \<longrightarrow> (\<exists>r \<in> set (ot_groups (cd_tables (fd_compose db))). gr_name r = the grp \<and> gr_branch r \<in> Some ` set bs))
        \<and> (truthy gathering \<longrightarrow> (\<exists>g \<in> set (fd_gatherings db). hg_name g = the gathering
             \<and> hg_branch g \<in> Some ` set bs \<and> hg_status g \<noteq> ''Cancelled'')))"
proof -
  obtain bs where bs: "frappe_facilitator_branches db u = Inr bs"
    and c: "fst ` set (fc_branches ctx) = set bs" "fc_gatherings ctx = offered_choices bs (gatherings_for_branches db bs)"
      "fc_groups ctx = offered_choices bs (groups_for_branches (fd_compose db) bs)"
      "is_facilitator (fc_roles ctx)" "fc_roles ctx = fg_user_roles (FrappeFacilitatorGateway db) u"
    unfolding who by (rule facilitator_context_parts [OF ctx])
  have user: "u \<noteq> []" using c(4,5) by (auto simp: FrappeFacilitatorGateway_def is_facilitator_def)
  have roles: "fc_roles ctx = pd_roles (cd_permissions (fd_compose db)) u"
    using user by (simp add: c(5) FrappeFacilitatorGateway_def)
  have gatherings: "gc_name ` set (fc_gatherings ctx) = hg_name ` set (hostable db bs)"
    unfolding c(2) offered_names by (rule listed_gatherings [OF fits [OF bs]])
  have groups: "gc_name ` set (fc_groups ctx)
      = gr_name ` {r \<in> set (ot_groups (cd_tables (fd_compose db))). gr_branch r \<in> Some ` set bs}"
    unfolding c(3) offered_names by (rule listed_groups)
  have global: "set bs = {br_name r | r org. r \<in> set (ot_branches (cd_tables (fd_compose db)))
          \<and> get_user_organization (fd_compose db) u = Some org \<and> org \<noteq> [] \<and> br_organization r = Some org}"
    if "pd_roles (cd_permissions (fd_compose db)) u \<inter> GLOBAL_BRANCH_ROLES \<noteq> {}"
    using bs user that by (cases "get_user_organization (fd_compose db) u")
      (auto simp: frappe_facilitator_branches_def Let_def split: if_splits)
  have guard: "assert_host_target_in_context branch grp gathering ctx = Inr () \<longleftrightarrow>
        truthy branch \<and> the branch \<in> set bs
        \<and> (truthy grp \<longrightarrow> the grp \<in> gc_name ` set (fc_groups ctx))
        \<and> (truthy gathering \<longrightarrow> the gathering \<in> gc_name ` set (fc_gatherings ctx))"
    by (simp add: assert_host_target_in_context_def c(1))
  show ?thesis
  proof (intro exI conjI)
    show "assert_host_target_in_context branch grp gathering ctx = Inr () \<longleftrightarrow>
        truthy branch \<and> the branch \<in> set bs
        \<and> (truthy grp \<longrightarrow> (\<exists>r \<in> set (ot_groups (cd_tables (fd_compose db))). gr_name r = the grp \<and> gr_branch r \<in> Some ` set bs))
        \<and> (truthy gathering \<longrightarrow> (\<exists>g \<in> set (fd_gatherings db). hg_name g = the gathering
             \<and> hg_branch g \<in> Some ` set bs \<and> hg_status g \<noteq> ''Cancelled''))"
      unfolding guard gatherings groups by (auto simp: hostable_def image_iff)
  qed (use bs c(4) roles global in simp_all)
qed

section \<open>Marks sent by the page\<close>

lemma participate_plain_fields:
  "snd (participate (get_service dumps cr) (rq \<lparr>pq_score := s, pq_feedback := fb\<rparr>) clk st)
     = snd (participate (get_service dumps cr) rq clk st)"
proof -
  have gate: "participate_gate sx (rq \<lparr>pq_score := s, pq_feedback := fb\<rparr>) clk st = participate_gate sx rq clk st"
    for sx :: api_service by (simp add: participate_gate_def refusal_def cong: if_cong)
  have recorded: "fst (redis_record_participation dumps (request_participation session (rq \<lparr>pq_score := s, pq_feedback := fb\<rparr>) t f ty) st')
      = fst (redis_record_participation dumps (request_participation session rq t f ty) st')" for session t f ty st'
    by (simp add: redis_record_participation_def request_participation_def nonce_member_def Let_def)
  show ?thesis
    unfolding participate_def gate
    by (simp add: Let_def case_prod_beta request_time_def request_throttle_key_def refusal_def recorded
        get_service_def FrappeEngagementGateway_def cong: if_cong split: sum.splits)
qed

lemma mark_request_payload:
  "mark_request env sid (a \<lparr>mk_payload := p\<rparr>) =
     (case mark_request env sid (a \<lparr>mk_payload := None\<rparr>) of Inl e \<Rightarrow> Inl e
      | Inr rq \<Rightarrow> let extra = unpack_participate_payload (or_empty (or_else (mk_kind a) (mk_ticket_kind a)))
                        (case p of None \<Rightarrow> [] | Some d \<Rightarrow> d)
          in Inr (rq \<lparr>pq_score := um_score extra, pq_feedback := um_feedback extra\<rparr>))"
  by (simp add: mark_request_def Let_def unpack_participate_payload_def split: option.splits)

lemma view_participate_payload:
  "snd (view_participate (get_service dumps cr) env (a \<lparr>mk_payload := p\<rparr>) w)
     = snd (view_participate (get_service dumps cr) env (a \<lparr>mk_payload := None\<rparr>) w)"
proof (cases "resolve_session_id env (mk_session a) (ew_store w)")
  case (Inr sid)
  show ?thesis
  proof (cases "mark_request env sid (a \<lparr>mk_payload := None\<rparr>)")
    case rq: (Inr rq)
    define extra where "extra = unpack_participate_payload (or_empty (or_else (mk_kind a) (mk_ticket_kind a)))
                        (case p of None \<Rightarrow> [] | Some d \<Rightarrow> d)"
    have req: "mark_request env sid (a \<lparr>mk_payload := p\<rparr>)
        = Inr (rq \<lparr>pq_score := um_score extra, pq_feedback := um_feedback extra\<rparr>)"
      by (subst mark_request_payload) (simp add: rq extra_def Let_def)
    have ip: "rq \<lparr>pq_score := s, pq_feedback := fb\<rparr> \<lparr>pq_ip := x\<rparr> = rq \<lparr>pq_ip := x\<rparr> \<lparr>pq_score := s, pq_feedback := fb\<rparr>" for s fb x
      by simp
    have "snd (api_participate (get_service dumps cr) e (rq \<lparr>pq_score := s, pq_feedback := fb\<rparr>) w)
        = snd (api_participate (get_service dumps cr) e rq w)" for e s fb
      unfolding api_participate_def ip by (simp add: Let_def case_prod_beta participate_plain_fields)
    then show ?thesis
      by (simp add: view_participate_def Inr rq req Let_def case_prod_beta)
  next
    case (Inl e)
    then have "mark_request env sid (a \<lparr>mk_payload := p\<rparr>) = Inl e" by (subst mark_request_payload) simp
    then show ?thesis by (simp add: view_participate_def Inr Inl)
  qed
qed (simp add: view_participate_def)

lemma fast_mark_flagged:
  assumes "participate sx rq clk st = (st', Inr rc)" "pc_flags rc = Some f"
    "pq_reaction_ms rq = Some r" "0 < r" "r < SUSPECT_REACTION_MS"
  shows "sf_suspect_pattern f"
proof -
  have "pc_flags (refusal rq reason) = None" for reason by (simp add: refusal_def)
  moreover have "participate_gate sx rq clk st = Inr (Inl rc') \<Longrightarrow> pc_flags rc' = None" for rc'
    by (auto simp: participate_gate_def refusal_def res_bind_Inr_iff split: if_splits)
  ultimately show ?thesis
    using assms by (auto simp: participate_def Let_def case_prod_beta status_flags_for_def detect_suspect_pattern_def
        split: sum.splits if_splits)
qed

lemma bulk_receipts:
  "bulk_participate sx rqs clk st = (st', Inr rcs) \<Longrightarrow> rc \<in> set rcs \<Longrightarrow>
   \<exists>rq st0 st1. rq \<in> set rqs \<and> participate sx rq clk st0 = (st1, Inr rc)"
proof (induction rqs arbitrary: st st' rcs)
  case (Cons rq rqs)
  then obtain st1 r rs where "participate sx rq clk st = (st1, Inr r)" "bulk_participate sx rqs clk st1 = (st', Inr rs)" "rcs = r # rs"
    by (auto split: prod.splits sum.splits)
  with Cons show ?case by (metis list.set_intros set_ConsD)
qed simp

lemma items_requests:
  "requests_from_items env sid i raws = Inr rqs \<Longrightarrow> rq \<in> set rqs \<Longrightarrow>
   \<exists>raw \<in> set raws. pq_reaction_ms rq = fi_reaction_ms raw"
proof (induction raws arbitrary: i rqs)
  case (Cons raw raws)
  then obtain rq1 rest where r: "request_from_item env sid i raw = Inr rq1"
    "requests_from_items env sid (i + 1) raws = Inr rest" "rqs = rq1 # rest"
    by (auto simp: res_bind_Inr_iff)
  have "pq_reaction_ms rq1 = fi_reaction_ms raw"
    using r(1) by (auto simp: request_from_item_def split: option.splits)
  with Cons r show ?case by (metis list.set_intros set_ConsD)
qed simp

text \<open>A mark sent by the page is answered the same whatever its payload holds: a reaction time in it
  never reaches the check for marks that are too fast.  The same check flags every mark with such
  a time which comes in through the offline queue.\<close>

theorem reaction_times_bypass_check:
  shows "(\<forall>p q. snd (view_participate (get_service dumps cr) env (a \<lparr>mk_payload := p\<rparr>) w)
        = snd (view_participate (get_service dumps cr) env (a \<lparr>mk_payload := q\<rparr>) w))
    \<and> (flush_offline_queue (get_service dumps cr) env args items w = (w', Inr reply)
        \<longrightarrow> (\<forall>raw \<in> set items. \<exists>r. fi_reaction_ms raw = Some r \<and> 0 < r \<and> r < SUSPECT_REACTION_MS)
        \<longrightarrow> (\<forall>rc \<in> set (fl_receipts reply). \<forall>f. pc_flags rc = Some f \<longrightarrow> sf_suspect_pattern f))"
proof (intro conjI allI impI ballI)
  fix p q
  show "snd (view_participate (get_service dumps cr) env (a \<lparr>mk_payload := p\<rparr>) w)
        = snd (view_participate (get_service dumps cr) env (a \<lparr>mk_payload := q\<rparr>) w)"
    by (rule trans [OF view_participate_payload sym [OF view_participate_payload]])
next
  fix rc f
  assume run: "flush_offline_queue (get_service dumps cr) env args items w = (w', Inr reply)"
    and fast: "\<forall>raw \<in> set items. \<exists>r. fi_reaction_ms raw = Some r \<and> 0 < r \<and> r < SUSPECT_REACTION_MS"
    and rc: "rc \<in> set (fl_receipts reply)" "pc_flags rc = Some f"
  obtain sid where sid: "resolve_session_id env args (ew_store w) = Inr sid"
    using run by (auto simp: flush_offline_queue_def split: sum.splits)
  have "bulk_attendance (get_service dumps cr) (api_env.truncate env) sid items w = (w', Inr reply)"
    using run by (cases "bulk_attendance (get_service dumps cr) (api_env.truncate env) sid items w")
      (auto simp: flush_offline_queue_def sid view_api_def split: sum.splits)
  then obtain rqs st where rqs: "requests_from_items (api_env.truncate env) sid 0 items = Inr rqs"
    "bulk_participate (get_service dumps cr) rqs (ap_clock env) (ew_store w) = (st, Inr (fl_receipts reply))"
    by (auto simp: bulk_attendance_def api_env.defs split: sum.splits prod.splits)
  obtain rq st0 st1 where rq: "rq \<in> set rqs" "participate (get_service dumps cr) rq (ap_clock env) st0 = (st1, Inr rc)"
    using bulk_receipts [OF rqs(2) rc(1)] by blast
  obtain r where "pq_reaction_ms rq = Some r" "0 < r" "r < SUSPECT_REACTION_MS"
    using items_requests [OF rqs(1) rq(1)] fast by fastforce
  then show "sf_suspect_pattern f" by (rule fast_mark_flagged [OF rq(2) rc(2)])
qed

section \<open>Launch from a template\<close>

lemma map_of_dict_update:
  "distinct (map fst e) \<Longrightarrow> map_of (dict_update d e) k = (case map_of e k of None \<Rightarrow> map_of d k | Some v \<Rightarrow> Some v)"
  by (induction e arbitrary: d)
    (auto simp: dict_update_def update_conv' map_of_eq_None_iff image_iff split: option.splits)

lemma packed_step:
  "map_of (fold (\<lambda>key c. if py_get flat key \<noteq> Py_None then AList.update key (py_get flat key) c else c) ks c) k
     = (if k \<in> set ks \<and> py_get flat k \<noteq> Py_None then Some (py_get flat k) else map_of c k)"
  by (induction ks arbitrary: c) (auto simp: update_conv')

lemma packed_distinct:
  "distinct (map fst c) \<Longrightarrow>
   distinct (map fst (fold (\<lambda>key c. if py_get flat key \<noteq> Py_None then AList.update key (py_get flat key) c else c) ks c))"
  by (induction ks arbitrary: c) (auto simp: distinct_update)

text \<open>A launch from a saved template: the kind given inline or else that of the template; each key of
  the configuration from the flat console fields, else from the inline configuration, else from
  the template; the title given or else that of the template.  The calm mode follows the inline
  field only, whatever the template says.\<close>

lemma template_launch:
  assumes create: "view_create_session (get_service dumps cr) env rq w = Inr (reply, w1)"
    and fresh: "map_of (rx_sessions (ew_store w)) (ve_session_name env) = None"
    and template: "template_doc env (cr_template_doctype rq) (cr_template_name rq) = Inr t"
    and direct: "\<not> cr_from_template rq"
    and dicts: "\<And>c. cr_config rq = Some c \<Longrightarrow> distinct (map fst c)"
  shows "\<exists>row. map_of (rx_sessions (ew_store w1)) (cy_session reply) = Some row
    \<and> Some (se_kind row) = or_else (or_else (cr_kind rq) (cr_engagement_kind rq)) (td_kind t)
    \<and> (\<forall>k. map_of (se_config row) k =
         (if k \<in> set CONSOLE_CONFIG_KEYS \<and> py_get (cr_flat rq) k \<noteq> Py_None then Some (py_get (cr_flat rq) k)
          else case Option.bind (cr_config rq) (\<lambda>c. map_of c k) of Some v \<Rightarrow> Some v
          | None \<Rightarrow> map_of (template_config (ve_loads env) t) k))
    \<and> sd_title row = or_empty (or_else (cr_title rq) (or_else (td_template_name t) (td_title t)))
    \<and> sd_calm row = py_true (py_get (cr_flat rq) ''calm_default'')"
proof -
  obtain plan row where e: "plan_launch env rq = Inr plan" "ln_kind plan = Some (cy_kind reply)"
    "ew_store w1 = (ew_store w) \<lparr>rx_sessions := rx_sessions (ew_store w) @ [(ve_session_name env, row)]\<rparr>"
    "cy_session reply = ve_session_name env" "se_kind row = cy_kind reply" "se_config row = ln_config plan"
    "sd_calm row = py_true (py_get (cr_flat rq) ''calm_default'')" "sd_title row = or_empty (ln_title plan)"
    by (rule view_create_effect [OF create fresh])
  have named: "truthy (cr_template_name rq)" using template by (auto simp: template_doc_def split: if_splits)
  obtain launch where launch: "template_to_launch_config (ve_loads env) t = Inr launch"
    using e(1) named direct template
    by (cases "template_to_launch_config (ve_loads env) t") (simp_all add: plan_launch_def Let_def)
  have parts: "td_kind t = Some (lc_kind launch)" "lc_config launch = template_config (ve_loads env) t"
    "lc_title launch = or_else (td_template_name t) (td_title t)"
    using launch by (auto simp: template_to_launch_config_def Let_def res_bind_Inr_iff truthy_def split: if_splits option.splits)
  define packed where "packed = pack_session_config (cr_config rq) (cr_flat rq)"
  have plan: "plan = \<lparr>ln_kind = or_else (or_else (cr_kind rq) (cr_engagement_kind rq)) (td_kind t),
      ln_config = dict_update (template_config (ve_loads env) t) packed,
      ln_title = or_else (cr_title rq) (or_else (td_template_name t) (td_title t))\<rparr>"
    using e(1) named direct template launch by (simp add: plan_launch_def packed_def Let_def parts)
  have keys: "map_of packed k = (if k \<in> set CONSOLE_CONFIG_KEYS \<and> py_get (cr_flat rq) k \<noteq> Py_None
      then Some (py_get (cr_flat rq) k) else Option.bind (cr_config rq) (\<lambda>c. map_of c k))" for k
    unfolding packed_def pack_session_config_def packed_step by (cases "cr_config rq") simp_all
  have "distinct (map fst packed)"
    unfolding packed_def pack_session_config_def
    by (rule packed_distinct) (use dicts in \<open>auto split: option.split\<close>)
  then have config: "map_of (se_config row) k = (case map_of packed k of None \<Rightarrow> map_of (template_config (ve_loads env) t) k
      | Some v \<Rightarrow> Some v)" for k
    by (simp add: e(6) plan map_of_dict_update)
  have found: "map_of (rx_sessions (ew_store w1)) (cy_session reply) = Some row"
    using fresh by (simp add: e(3,4) map_add_def)
  show ?thesis
    using found e(2,5) plan by (intro exI [of _ row]) (auto simp: config keys e(7,8))
qed

section \<open>The trail of overrides\<close>

definition override_trail :: "docname \<Rightarrow> redis_engagement \<Rightarrow> pyval list option" where
  "override_trail sid st = Option.bind (map_of (rx_sessions st) sid) (\<lambda>row. py_list (py_get (se_config row) ''overrides''))"

fun run_overrides :: "docname \<Rightarrow> (view_env \<times> string \<times> string option \<times> string option) list \<Rightarrow> api_world
    \<Rightarrow> view_error + api_world" where
  "run_overrides sid [] w = Inr w"
| "run_overrides sid ((env, action, key, reason) # rest) w =
     res_bind (manual_override env (by_id sid) (Some action) key reason w) (\<lambda>(_, w1). run_overrides sid rest w1)"

definition without_config :: "api_world \<Rightarrow> api_world" where
  "without_config w = w \<lparr>ew_store := (ew_store w) \<lparr>rx_sessions :=
     map (\<lambda>(sid, row). (sid, row \<lparr>se_config := []\<rparr>)) (rx_sessions (ew_store w))\<rparr>\<rparr>"

lemma map_entry_projected:
  "(\<And>row. g (f row) = g row) \<Longrightarrow>
   map (\<lambda>(k, row). (k, g row)) (AList.map_entry sid f rows) = map (\<lambda>(k, row). (k, g row)) rows"
  by (induction rows) auto

lemma map_of_map_entry_same: "map_of (AList.map_entry k f rows) k = map_option f (map_of rows k)"
  by (induction rows) auto

lemma py_get_update: "py_get_or dflt (AList.update k v d) k = v"
  by (simp add: py_get_or_def update_conv')

lemma py_list_List: "py_list (Py_List xs) = Some xs"
  by (simp add: py_list_def)

lemma override_step:
  assumes step: "manual_override env (by_id sid) (Some action) key reason w = Inr (r, w1)"
    and trail: "override_trail sid (ew_store w) = Some trail"
  shows "override_trail sid (ew_store w1) = Some (trail @ [Py_Dict (override_entry key action reason (ap_user env))])"
    and "without_config w1 = without_config w"
proof -
  have sid: "ref_session_id (by_id sid) = Inr sid" if "sid \<noteq> []"
    using that by (simp add: ref_session_id_def resolve_session_ref_def by_id_def or_else_def)
  have "sid \<noteq> []"
  proof
    assume "sid = []"
    then have "ref_session_id (by_id sid) = Inl (View_Engagement Session_Reference_Required)"
      by (simp add: ref_session_id_def resolve_session_ref_def by_id_def or_else_def)
    then show False using step by (simp add: manual_override_def)
  qed
  with step have w1: "w1 = w \<lparr>ew_store := append_session_override sid (override_entry key action reason (ap_user env)) (ew_store w)\<rparr>"
    by (auto simp: manual_override_def sid Let_def split: if_splits)
  obtain row where row: "map_of (rx_sessions (ew_store w)) sid = Some row"
    "py_list (py_get (se_config row) ''overrides'') = Some trail"
    using trail by (auto simp: override_trail_def bind_eq_Some_conv)
  show "override_trail sid (ew_store w1) = Some (trail @ [Py_Dict (override_entry key action reason (ap_user env))])"
    by (simp add: override_trail_def w1 append_session_override_def update_session_row_def map_of_map_entry_same row
        py_get_update py_list_List)
  show "without_config w1 = without_config w"
    unfolding without_config_def w1 append_session_override_def update_session_row_def
    by (simp add: map_entry_projected split: option.split)
qed

text \<open>Overrides are a record and nothing more: any user may make them, whatever the roles; however many
  are made, the trail of the session is the old one with exactly these decisions at its end, in
  order, and apart from the configuration of sessions nothing has changed: no participation,
  no attendance row, no status and no event.\<close>

theorem overrides_only_recorded:
  assumes "run_overrides sid steps w = Inr w1" "override_trail sid (ew_store w) = Some trail"
  shows "override_trail sid (ew_store w1) = Some (trail @
      map (\<lambda>(env, action, key, reason). Py_Dict (override_entry key action reason (ap_user env))) steps)
    \<and> without_config w1 = without_config w"
  using assms
proof (induction steps arbitrary: w trail)
  case (Cons s steps)
  obtain env action key reason where s: "s = (env, action, key, reason)" by (cases s)
  obtain r w0 where step: "manual_override env (by_id sid) (Some action) key reason w = Inr (r, w0)"
    and rest: "run_overrides sid steps w0 = Inr w1"
    using Cons.prems(1) by (auto simp: s res_bind_Inr_iff)
  note after = override_step [OF step Cons.prems(2)]
  from Cons.IH [OF rest after(1)] after(2) show ?case by (simp add: s)
qed simp

section \<open>Concrete requests\<close>

text \<open>An administrator of \<open>O\<close>, whose branches are \<open>N\<close> and \<open>S\<close>; branch \<open>X\<close> is not of \<open>O\<close>.\<close>

definition demo_branch :: "docname \<Rightarrow> docname \<Rightarrow> branch_row" where
  "demo_branch b org = \<lparr>br_name = b, br_branch_name = None, br_parent = None, br_organization = Some org, br_is_active = Some 1\<rparr>"

definition demo_host_group :: group_row where
  "demo_host_group = \<lparr>gr_name = ''G1'', gr_group_name = None, gr_parent = None, gr_branch = Some ''N'',
     gr_organization = Some ''O'', gr_leader = None, gr_group_type = None, gr_is_active = Some 1\<rparr>"

definition demo_hosts :: facilitator_db where
  "demo_hosts = \<lparr>fd_compose = \<lparr>cd_tables = \<lparr>ot_branches = [demo_branch ''S'' ''O'', demo_branch ''X'' ''Q'', demo_branch ''N'' ''O''],
       ot_groups = [demo_host_group], ot_roster = []\<rparr>,
       cd_members = [], cd_organizations = [''O''], cd_permissions = \<lparr>pd_roles = (\<lambda>u. {ROLE_ORG_ADMIN}), pd_members = [],
         pd_groups = [], pd_roster = [], pd_user_permissions = []\<rparr>, cd_collate = (\<lambda>s. s)\<rparr>,
     fd_gatherings = [\<lparr>hg_name = ''V1'', hg_branch = Some ''N'', hg_title = None, hg_starts_on = None, hg_status = ''Planned''\<rparr>,
       \<lparr>hg_name = ''V2'', hg_branch = Some ''N'', hg_title = None, hg_starts_on = None, hg_status = ''Cancelled''\<rparr>],
     fd_scoped_query = (\<lambda>_. None)\<rparr>"

definition demo_view :: view_env where
  "demo_view = \<lparr>ap_user = ''A'', ap_perm = NullPermissionGateway \<lparr>pg_user_roles := (\<lambda>_. {ROLE_ORG_ADMIN})\<rparr>,
     ap_gatherings = [(''G'', \<lparr>ag_branch = Some ''B'', ag_group = None, ag_organization = Some ''O''\<rparr>)],
     ap_linked_user = [], ap_clock = 20, ap_client_ip = None, ve_rng = (\<lambda>i. i), ve_session_name = ''E3'',
     ve_nonce = ''n'', ve_templates = [], ve_pick = hd, ve_facilitator_db = demo_hosts, ve_loads = (\<lambda>_. None)\<rparr>"

definition demo_console :: console_request where
  "demo_console = \<lparr>cr_kind = Some ''tap_burst'', cr_engagement_kind = None, cr_config = None, cr_flat = [],
     cr_title = None, cr_template_name = None, cr_template_doctype = None, cr_from_template = False,
     cr_gathering = Some ''G'', cr_branch = None, cr_group = None, cr_organization = None, cr_facilitator = None,
     cr_geofence = None, cr_scheduled_at = None\<rparr>"

lemma demo_console_runs:
  "case view_create_session demo_engagement demo_view demo_console demo_world of Inl e \<Rightarrow> False
   | Inr (reply, w1) \<Rightarrow> cy_room_code reply = ''012345'' \<and> cy_session reply = ''E3''"
  by code_simp

lemma room_code_leads_to_session_witness:
  "\<exists>reply w1. view_create_session demo_engagement demo_view demo_console demo_world = Inr (reply, w1)
     \<and> cy_room_code reply = ''012345''
     \<and> resolve_session_id demo_view (by_code ''012345'') (ew_store w1) = Inr ''E3''"
proof -
  obtain reply w1 where run: "view_create_session demo_engagement demo_view demo_console demo_world = Inr (reply, w1)"
    "cy_room_code reply = ''012345''" "cy_session reply = ''E3''"
    using demo_console_runs by (auto split: sum.splits)
  have h: "map_of (rx_sessions (ew_store demo_world)) (ve_session_name demo_view) = None" "ve_session_name demo_view \<noteq> []"
    "sessions_with_code (generate_room_code (ve_rng demo_view)) (ew_store demo_world) = []"
    by code_simp+
  have pick: "ms \<noteq> [] \<Longrightarrow> ve_pick demo_view ms \<in> set ms" for ms by (simp add: demo_view_def)
  from room_code_leads_to_session [OF run(1) [unfolded demo_engagement_def] h pick]
  show ?thesis using run by auto
qed

lemma demo_fits: "frappe_facilitator_branches demo_hosts ''A'' = Inr bs \<Longrightarrow> length (hostable demo_hosts bs) \<le> HOST_GATHERING_LIMIT"
proof -
  have "length (fd_gatherings demo_hosts) \<le> HOST_GATHERING_LIMIT" by code_simp
  then show ?thesis unfolding hostable_def using length_filter_le le_trans by blast
qed

lemma host_targets_confined_witness:
  "\<exists>ctx. facilitator_context_for demo_view None = Inr ctx
     \<and> assert_host_target_in_context (Some ''N'') (Some ''G1'') (Some ''V1'') ctx = Inr ()
     \<and> assert_host_target_in_context (Some ''X'') None None ctx \<noteq> Inr ()
     \<and> assert_host_target_in_context (Some ''N'') None (Some ''V2'') ctx \<noteq> Inr ()"
proof -
  have branches: "frappe_facilitator_branches demo_hosts ''A'' = Inr [''N'', ''S'']" by code_simp
  have db: "ve_facilitator_db demo_view = demo_hosts" "the (or_else None (Some (ap_user demo_view))) = ''A''"
    by (simp_all add: demo_view_def or_else_def)
  have "is_facilitator {ROLE_ORG_ADMIN}" by (simp add: is_facilitator_def FACILITATOR_ROLES_def)
  then have "fg_user_roles (FrappeFacilitatorGateway demo_hosts) ''A'' = {ROLE_ORG_ADMIN}" "is_facilitator {ROLE_ORG_ADMIN}"
    by (simp_all add: FrappeFacilitatorGateway_def demo_hosts_def)
  then obtain ctx where ctx: "facilitator_context_for demo_view None = Inr ctx"
    unfolding facilitator_context_for_def db build_facilitator_context_def
    by (simp add: FrappeFacilitatorGateway_def branches Let_def)
  note target = host_targets_confined [OF ctx refl refl, unfolded db, OF demo_fits]
  have rows: "ot_groups (cd_tables (fd_compose demo_hosts)) = [demo_host_group]"
    "gr_name demo_host_group = ''G1''" "gr_branch demo_host_group = Some ''N''"
    "fd_gatherings demo_hosts = [\<lparr>hg_name = ''V1'', hg_branch = Some ''N'', hg_title = None, hg_starts_on = None, hg_status = ''Planned''\<rparr>,
       \<lparr>hg_name = ''V2'', hg_branch = Some ''N'', hg_title = None, hg_starts_on = None, hg_status = ''Cancelled''\<rparr>]"
    by (simp_all add: demo_hosts_def demo_host_group_def)
  have "assert_host_target_in_context (Some ''N'') (Some ''G1'') (Some ''V1'') ctx = Inr ()"
    using target [of "Some ''N''" "Some ''G1''" "Some ''V1''"] by (simp add: branches rows)
  moreover have "assert_host_target_in_context (Some ''X'') None None ctx \<noteq> Inr ()"
    using target [of "Some ''X''" None None] by (simp add: branches rows)
  moreover have "assert_host_target_in_context (Some ''N'') None (Some ''V2'') ctx \<noteq> Inr ()"
    using target [of "Some ''N''" None "Some ''V2''"] by (simp add: branches rows)
  ultimately show ?thesis using ctx by blast
qed

definition demo_fast_item :: flush_item where
  "demo_fast_item = \<lparr>fi_ticket = Some (demo_ticket ''E1'' ''M1'' demo_live),
     fi_attendee_key = Some (tk_attendee_key (demo_ticket ''E1'' ''M1'' demo_live)), fi_nonce = Some ''n'',
     fi_member = None, fi_display_name = None, fi_device = None, fi_role = None, fi_score = None,
     fi_reaction_ms = Some 50, fi_submitted_at = None, fi_client_submitted_at = None, fi_geo_region = None,
     fi_offline_replay = True, fi_feedback = None\<rparr>"

definition demo_mark :: mark_args where
  "demo_mark = \<lparr>mk_session = by_id ''E1'', mk_ticket = Some (demo_ticket ''E1'' ''M1'' demo_live), mk_ticket_kind = None,
     mk_attendee_key = None, mk_kind = Some ''reaction'', mk_payload = None, mk_nonce = Some ''n'', mk_member = None,
     mk_display_name = None, mk_device = None, mk_role = None, mk_client_submitted_at = None, mk_geo_region = None,
     mk_offline_replay = True\<rparr>"

lemma demo_fast_runs:
  "case flush_offline_queue demo_engagement demo_view (by_id ''E1'') [demo_fast_item] demo_live of
     (w, Inr reply) \<Rightarrow> length (fl_receipts reply) = 1 \<and> (\<forall>rc \<in> set (fl_receipts reply). pc_accepted rc \<and> pc_flags rc \<noteq> None)
   | (w, Inl e) \<Rightarrow> False"
  "case view_participate demo_engagement demo_view demo_mark demo_live of
     (w, Inr rc) \<Rightarrow> pc_accepted rc \<and> map_option sf_suspect_pattern (pc_flags rc) = Some False
   | (w, Inl e) \<Rightarrow> False"
  by code_simp+

lemma reaction_times_bypass_check_witness:
  "(\<exists>w' reply rc f. flush_offline_queue demo_engagement demo_view (by_id ''E1'') [demo_fast_item] demo_live = (w', Inr reply)
      \<and> fl_receipts reply = [rc] \<and> pc_flags rc = Some f \<and> sf_suspect_pattern f)
   \<and> (\<exists>rc. snd (view_participate demo_engagement demo_view (demo_mark \<lparr>mk_payload := Some [(''reaction_ms'', Py_Num 50)]\<rparr>) demo_live)
        = Inr rc \<and> map_option sf_suspect_pattern (pc_flags rc) = Some False)"
proof
  obtain w' reply where flush: "flush_offline_queue demo_engagement demo_view (by_id ''E1'') [demo_fast_item] demo_live = (w', Inr reply)"
    "length (fl_receipts reply) = 1" "\<forall>rc \<in> set (fl_receipts reply). pc_accepted rc \<and> pc_flags rc \<noteq> None"
    using demo_fast_runs(1) by (auto split: prod.splits sum.splits)
  then obtain rc f where rc: "fl_receipts reply = [rc]" "pc_flags rc = Some f"
    by (auto simp: length_Suc_conv)
  have "0 < (50::rat) \<and> 50 < SUSPECT_REACTION_MS" by (simp add: SUSPECT_REACTION_MS_def)
  then have "sf_suspect_pattern f"
    using reaction_times_bypass_check [of demo_dumps demo_crypto demo_view demo_mark demo_live "by_id ''E1''" "[demo_fast_item]" w' reply]
      flush(1) rc unfolding demo_engagement_def by (simp add: demo_fast_item_def)
  then show "\<exists>w' reply rc f. flush_offline_queue demo_engagement demo_view (by_id ''E1'') [demo_fast_item] demo_live = (w', Inr reply)
      \<and> fl_receipts reply = [rc] \<and> pc_flags rc = Some f \<and> sf_suspect_pattern f" using flush(1) rc by blast
next
  have same: "demo_mark \<lparr>mk_payload := None\<rparr> = demo_mark" by (simp add: demo_mark_def)
  have "snd (view_participate demo_engagement demo_view (demo_mark \<lparr>mk_payload := Some [(''reaction_ms'', Py_Num 50)]\<rparr>) demo_live)
      = snd (view_participate demo_engagement demo_view (demo_mark \<lparr>mk_payload := None\<rparr>) demo_live)"
    using reaction_times_bypass_check [THEN conjunct1] unfolding demo_engagement_def by blast
  then show "\<exists>rc. snd (view_participate demo_engagement demo_view (demo_mark \<lparr>mk_payload := Some [(''reaction_ms'', Py_Num 50)]\<rparr>) demo_live)
        = Inr rc \<and> map_option sf_suspect_pattern (pc_flags rc) = Some False"
    unfolding same using demo_fast_runs(2) by (auto split: prod.splits sum.splits)
qed

end
