(* ===== verification/Telemetry.thy ===== *)
theory Telemetry
  imports Attendance_Queue Py_Values
begin

text \<open>
  Model of \<open>flock_os/telemetry.py\<close> and \<open>flock_os/telemetry_scrape.py\<close>: the latency histogram of the
  bulk endpoint with its quantiles, the metric sources, the collector and the text it is scraped
  as.  What the servers answer is the record \<open>scrape_env\<close>, \<open>None\<close> where a call raises.  The text of
  a float is the parameter \<open>show\<close>.  Float arithmetic is exact here, as elsewhere.
\<close>

section \<open>The histogram\<close>

datatype bucket = Edge rat | Inf_Edge

fun edge_less :: "bucket \<Rightarrow> bucket \<Rightarrow> bool" where
  "edge_less (Edge a) (Edge b) = (a < b)"
| "edge_less (Edge a) Inf_Edge = True"
| "edge_less Inf_Edge b = False"

fun lands :: "rat \<Rightarrow> bucket \<Rightarrow> bool" where
  "lands x (Edge b) = (x \<le> b)"
| "lands x Inf_Edge = True"

definition DEFAULT_LATENCY_BUCKETS :: "bucket list" where
  "DEFAULT_LATENCY_BUCKETS = map Edge [5/1000, 1/100, 25/1000, 5/100, 1/10, 15/100, 25/100, 4/10, 5/10,
     75/100, 1, 25/10, 5, 10] @ [Inf_Edge]"

definition BULK_LATENCY_P95_BUDGET_SECONDS :: rat where "BULK_LATENCY_P95_BUDGET_SECONDS = 5/10"

record latency_histogram =
  lh_name :: string
  lh_buckets :: "bucket list"
  lh_count :: nat
  lh_sum :: rat
  lh_cumulative :: "nat list"

datatype telemetry_error = Bucket_Required | Buckets_Decreasing

fun decreasing_somewhere :: "bucket list \<Rightarrow> bool" where
  "decreasing_somewhere (a # b # rest) = (edge_less b a \<or> decreasing_somewhere (b # rest))"
| "decreasing_somewhere _ = False"

definition new_histogram :: "string \<Rightarrow> bucket list \<Rightarrow> telemetry_error + latency_histogram" where
  "new_histogram name buckets0 =
    (if buckets0 = [] then Inl Bucket_Required
     else if decreasing_somewhere buckets0 then Inl Buckets_Decreasing
     else let buckets = (if last buckets0 \<noteq> Inf_Edge then buckets0 @ [Inf_Edge] else buckets0)
     in Inr \<lparr>lh_name = name, lh_buckets = buckets, lh_count = 0, lh_sum = 0,
          lh_cumulative = replicate (length buckets) 0\<rparr>)"

text \<open>The two loops of \<open>observe\<close>: the first bucket the value fits, then that one and all above.\<close>

fun landing :: "rat \<Rightarrow> bucket list \<Rightarrow> nat \<Rightarrow> nat option" where
  "landing x [] i = None"
| "landing x (b # bs) i = (if lands x b then Some i else landing x bs (i + 1))"

definition observe :: "rat \<Rightarrow> latency_histogram \<Rightarrow> latency_histogram" where
  "observe seconds h =
    (if seconds < 0 then h
     else h \<lparr>lh_count := lh_count h + 1, lh_sum := lh_sum h + seconds,
       lh_cumulative := (case landing seconds (lh_buckets h) 0 of None \<Rightarrow> lh_cumulative h
         | Some i \<Rightarrow> take i (lh_cumulative h) @ map Suc (drop i (lh_cumulative h)))\<rparr>)"

definition reset_histogram :: "latency_histogram \<Rightarrow> latency_histogram" where
  "reset_histogram h = h \<lparr>lh_count := 0, lh_sum := 0, lh_cumulative := replicate (length (lh_buckets h)) 0\<rparr>"

text \<open>The loop of \<open>_quantile_from_cumulative\<close>; \<open>None\<close> when it runs through.\<close>

fun quantile_loop :: "rat \<Rightarrow> nat \<Rightarrow> rat \<Rightarrow> (bucket \<times> nat) list \<Rightarrow> rat option" where
  "quantile_loop target prev_count prev_bound [] = None"
| "quantile_loop target prev_count prev_bound ((upper, cum) # rest) =
     (if target \<le> of_nat cum
      then Some (case upper of Inf_Edge \<Rightarrow> prev_bound
        | Edge u \<Rightarrow>
            (let mass = of_int (int cum - int prev_count) in
             if mass \<le> 0 then u else prev_bound + (target - of_nat prev_count) / mass * (u - prev_bound)))
      else quantile_loop target cum (case upper of Edge u \<Rightarrow> u | Inf_Edge \<Rightarrow> prev_bound) rest)"

definition quantile_from_cumulative :: "bucket list \<Rightarrow> nat list \<Rightarrow> rat \<Rightarrow> rat option" where
  "quantile_from_cumulative buckets cumulative quantile =
    (let total = (if cumulative = [] then 0 else last cumulative) in
     if total = 0 then None
     else case quantile_loop (quantile * of_nat total) 0 0 (zip buckets cumulative) of
       Some v \<Rightarrow> Some v
     | None \<Rightarrow> if buckets = [] then None else (case last buckets of Edge u \<Rightarrow> Some u | Inf_Edge \<Rightarrow> None))"

record histogram_snapshot =
  hs_name :: string
  hs_count :: nat
  hs_sum :: rat
  hs_buckets :: "bucket list"
  hs_bucket_counts :: "nat list"
  hs_p50 :: "rat option"
  hs_p95 :: "rat option"
  hs_p99 :: "rat option"

definition mean_seconds :: "histogram_snapshot \<Rightarrow> rat option" where
  "mean_seconds s = (if hs_count s \<noteq> 0 then Some (hs_sum s / of_nat (hs_count s)) else None)"

definition histogram_snapshot :: "latency_histogram \<Rightarrow> histogram_snapshot" where
  "histogram_snapshot h =
    \<lparr>hs_name = lh_name h, hs_count = lh_count h, hs_sum = lh_sum h, hs_buckets = lh_buckets h,
     hs_bucket_counts = lh_cumulative h,
     hs_p50 = quantile_from_cumulative (lh_buckets h) (lh_cumulative h) (1/2),
     hs_p95 = quantile_from_cumulative (lh_buckets h) (lh_cumulative h) (95/100),
     hs_p99 = quantile_from_cumulative (lh_buckets h) (lh_cumulative h) (99/100)\<rparr>"

section \<open>The sources\<close>

record redis_metrics =
  rm_pubsub_per_sec :: rat
  rm_connected_clients :: int
  rm_rq_depth :: int

record mariadb_metrics =
  mm_slow_query_count :: int
  mm_connections :: int
  mm_hit_ratio :: rat

definition RedisMetrics :: redis_metrics where
  "RedisMetrics = \<lparr>rm_pubsub_per_sec = 0, rm_connected_clients = 0, rm_rq_depth = 0\<rparr>"

definition MariaDBMetrics :: mariadb_metrics where
  "MariaDBMetrics = \<lparr>mm_slow_query_count = 0, mm_connections = 0, mm_hit_ratio = 1\<rparr>"

text \<open>\<open>INFO\<close> of Redis by key, the lengths of its job queues (\<open>None\<close> inside: no connection), and
  \<open>SHOW GLOBAL STATUS\<close> by variable.\<close>

record scrape_env =
  sv_redis_info :: "(string \<times> rat) list option"
  sv_queue_length :: "(string \<Rightarrow> int) option option"
  sv_status :: "(string \<Rightarrow> rat option) option"

text \<open>\<open>round(x, k)\<close> and \<open>int(x)\<close>.\<close>

definition round_to :: "nat \<Rightarrow> rat \<Rightarrow> rat" where
  "round_to k x = of_int (half_even (x * 10 ^ k)) / 10 ^ k"

definition int_of_rat :: "rat \<Rightarrow> int" where
  "int_of_rat x = (if x < 0 then \<lceil>x\<rceil> else \<lfloor>x\<rfloor>)"

definition BULK_ATTENDANCE_JOB_QUEUE :: string where "BULK_ATTENDANCE_JOB_QUEUE = ''long''"

definition frappe_rq_depth :: "(string \<Rightarrow> int) option \<Rightarrow> int" where
  "frappe_rq_depth conn = (case conn of None \<Rightarrow> 0
     | Some llen \<Rightarrow> sum_list (map (\<lambda>name. llen (''rq:queue:'' @ name)) [BULK_ATTENDANCE_JOB_QUEUE, ''default'']))"

definition info_or :: "rat \<Rightarrow> (string \<times> rat) list \<Rightarrow> string \<Rightarrow> rat" where
  "info_or dflt info key = (let v = (case map_of info key of None \<Rightarrow> dflt | Some v \<Rightarrow> v) in if v = 0 then dflt else v)"

definition frappe_redis_metrics :: "scrape_env \<Rightarrow> redis_metrics" where
  "frappe_redis_metrics sv =
    (case sv_redis_info sv of None \<Rightarrow> RedisMetrics | Some info \<Rightarrow>
     case sv_queue_length sv of None \<Rightarrow> RedisMetrics | Some conn \<Rightarrow>
       \<lparr>rm_pubsub_per_sec = round_to 3 (info_or 0 info ''pubsub_commands'' / info_or 1 info ''uptime_in_seconds''),
        rm_connected_clients = int_of_rat (info_or 0 info ''connected_clients''),
        rm_rq_depth = frappe_rq_depth conn\<rparr>)"

definition status_or_zero :: "(string \<Rightarrow> rat option) \<Rightarrow> string \<Rightarrow> rat" where
  "status_or_zero status name = (case status name of None \<Rightarrow> 0 | Some v \<Rightarrow> v)"

definition frappe_mariadb_metrics :: "scrape_env \<Rightarrow> mariadb_metrics" where
  "frappe_mariadb_metrics sv =
    (case sv_status sv of None \<Rightarrow> MariaDBMetrics | Some status \<Rightarrow>
       let read_requests = status_or_zero status ''Innodb_buffer_pool_read_requests'';
           reads = status_or_zero status ''Innodb_buffer_pool_reads'';
           hit_ratio = (if read_requests > 0 then max 0 (1 - reads / read_requests) else 1)
       in \<lparr>mm_slow_query_count = int_of_rat (status_or_zero status ''Slow_queries''),
           mm_connections = int_of_rat (status_or_zero status ''Threads_connected''),
           mm_hit_ratio = round_to 4 hit_ratio\<rparr>)"

section \<open>The collector\<close>

record telemetry_collector =
  tc_bulk_latency :: latency_histogram
  tc_redis_source :: "scrape_env \<Rightarrow> redis_metrics"
  tc_mariadb_source :: "scrape_env \<Rightarrow> mariadb_metrics"

definition initial_collector :: telemetry_collector where
  "initial_collector =
    \<lparr>tc_bulk_latency = projr (new_histogram ''flock_bulk_attendance_latency'' DEFAULT_LATENCY_BUCKETS),
     tc_redis_source = (\<lambda>_. RedisMetrics), tc_mariadb_source = (\<lambda>_. MariaDBMetrics)\<rparr>"

definition install_frappe_sources :: "telemetry_collector \<Rightarrow> telemetry_collector" where
  "install_frappe_sources col =
    col \<lparr>tc_redis_source := frappe_redis_metrics, tc_mariadb_source := frappe_mariadb_metrics\<rparr>"

definition observe_bulk_latency :: "rat \<Rightarrow> telemetry_collector \<Rightarrow> telemetry_collector" where
  "observe_bulk_latency seconds col = col \<lparr>tc_bulk_latency := observe seconds (tc_bulk_latency col)\<rparr>"

text \<open>The block of a \<open>with\<close> statement, which has its result or its exception, between two readings
  of the performance counter.\<close>

definition measure_bulk_latency :: "rat \<Rightarrow> rat \<Rightarrow> 'r \<Rightarrow> telemetry_collector \<Rightarrow> telemetry_collector \<times> 'r" where
  "measure_bulk_latency start stop result col = (observe_bulk_latency (stop - start) col, result)"

text \<open>\<open>bulk_submit\<close> with its measurement: the two argument checks come before it.\<close>

definition measured_bulk_submit :: "rat \<Rightarrow> rat \<Rightarrow> docname option list \<Rightarrow> docname \<Rightarrow> bulk_entry list \<Rightarrow> string
    \<Rightarrow> attendance_queue \<Rightarrow> telemetry_collector \<Rightarrow> telemetry_collector \<times> (bulk_error + nat \<times> attendance_queue)" where
  "measured_bulk_submit start stop caller event entries batch_id q col =
    (if event = [] \<or> batch_id = [] then (col, bulk_submit caller event entries batch_id q)
     else measure_bulk_latency start stop (bulk_submit caller event entries batch_id q) col)"

record telemetry_snapshot =
  ts_redis :: redis_metrics
  ts_mariadb :: mariadb_metrics
  ts_bulk_latency :: histogram_snapshot
  ts_taken_at :: rat

definition collector_snapshot :: "scrape_env \<Rightarrow> rat \<Rightarrow> telemetry_collector \<Rightarrow> telemetry_snapshot" where
  "collector_snapshot sv clk col =
    \<lparr>ts_redis = tc_redis_source col sv, ts_mariadb = tc_mariadb_source col sv,
     ts_bulk_latency = histogram_snapshot (tc_bulk_latency col), ts_taken_at = clk\<rparr>"

text \<open>The text form; the comment lines have a section sign, two bytes in UTF-8.\<close>

definition SECTION_SIGN :: string where "SECTION_SIGN = [CHR 0xC2, CHR 0xA7]"

definition bucket_line :: "(rat \<Rightarrow> string) \<Rightarrow> bucket \<times> nat \<Rightarrow> string" where
  "bucket_line show bc = ''flock_bulk_latency_seconds_bucket{le=\"'' @ (case fst bc of Inf_Edge \<Rightarrow> ''+Inf'' | Edge b \<Rightarrow> show b)
     @ ''\"} '' @ digits (int (snd bc))"

definition prometheus_lines :: "(rat \<Rightarrow> string) \<Rightarrow> telemetry_snapshot \<Rightarrow> string list" where
  "prometheus_lines show s =
    (let r = ts_redis s; m = ts_mariadb s; h = ts_bulk_latency s in
     [''# HELP flock_redis_connected_clients Redis connected clients (D3).'',
      ''# TYPE flock_redis_connected_clients gauge'',
      ''flock_redis_connected_clients '' @ int_text (rm_connected_clients r),
      ''# HELP flock_redis_pubsub_messages_per_sec Redis pub/sub throughput (D3).'',
      ''# TYPE flock_redis_pubsub_messages_per_sec gauge'',
      ''flock_redis_pubsub_messages_per_sec '' @ show (rm_pubsub_per_sec r),
      ''# HELP flock_redis_rq_depth RQ queue depth ('' @ SECTION_SIGN @ ''8 drain budget).'',
      ''# TYPE flock_redis_rq_depth gauge'',
      ''flock_redis_rq_depth '' @ int_text (rm_rq_depth r),
      ''# HELP flock_mariadb_slow_queries_total MariaDB slow-query count (D5).'',
      ''# TYPE flock_mariadb_slow_queries_total counter'',
      ''flock_mariadb_slow_queries_total '' @ int_text (mm_slow_query_count m),
      ''# HELP flock_mariadb_connections MariaDB live connections (D5).'',
      ''# TYPE flock_mariadb_connections gauge'',
      ''flock_mariadb_connections '' @ int_text (mm_connections m),
      ''# HELP flock_mariadb_buffer_pool_hit_ratio InnoDB buffer-pool hit ratio (D5).'',
      ''# TYPE flock_mariadb_buffer_pool_hit_ratio gauge'',
      ''flock_mariadb_buffer_pool_hit_ratio '' @ show (mm_hit_ratio m),
      ''# HELP flock_bulk_latency_seconds Bulk-attendance receipt latency ('' @ SECTION_SIGN @ ''8 p95 gate).'',
      ''# TYPE flock_bulk_latency_seconds histogram'']
     @ map (bucket_line show) (zip (hs_buckets h) (hs_bucket_counts h))
     @ [''flock_bulk_latency_seconds_count '' @ digits (int (hs_count h)),
        ''flock_bulk_latency_seconds_sum '' @ show (hs_sum h)])"

definition as_prometheus :: "(rat \<Rightarrow> string) \<Rightarrow> telemetry_snapshot \<Rightarrow> string" where
  "as_prometheus show s = concat (map (\<lambda>l. l @ [CHR 0x0A]) (prometheus_lines show s))"

text \<open>\<open>scrape\<close>.\<close>

definition scrape :: "(rat \<Rightarrow> string) \<Rightarrow> scrape_env \<Rightarrow> rat \<Rightarrow> telemetry_collector \<Rightarrow> string" where
  "scrape show sv clk col = as_prometheus show (collector_snapshot sv clk col)"

section \<open>What the histogram holds\<close>

abbreviation edge_le :: "bucket \<Rightarrow> bucket \<Rightarrow> bool" where
  "edge_le a b \<equiv> \<not> edge_less b a"

lemma edge_le_trans: "edge_le a b \<Longrightarrow> edge_le b c \<Longrightarrow> edge_le a c"
  by (cases a; cases b; cases c) auto

lemma edge_le_Inf [simp]: "edge_le a Inf_Edge"
  by (cases a) simp_all

lemma edge_le_Inf_iff [simp]: "edge_le Inf_Edge a \<longleftrightarrow> a = Inf_Edge"
  by (cases a) simp_all

lemma lands_mono: "lands x a \<Longrightarrow> edge_le a b \<Longrightarrow> lands x b"
  by (cases a; cases b) auto

lemma not_decreasing: "\<not> decreasing_somewhere bs \<Longrightarrow> sorted_wrt edge_le bs"
proof (induction bs rule: decreasing_somewhere.induct)
  case (1 a b rest)
  then have "edge_le a b" "sorted_wrt edge_le (b # rest)" by auto
  then show ?case using edge_le_trans by auto
qed auto

lemma landing_first:
  "landing x bs i = Some j \<Longrightarrow> \<exists>k < length bs. j = i + k \<and> lands x (bs ! k) \<and> (\<forall>m < k. \<not> lands x (bs ! m))"
proof (induction bs arbitrary: i)
  case (Cons b bs)
  show ?case
  proof (cases "lands x b")
    case False
    then have "landing x bs (Suc i) = Some j" using Cons.prems by simp
    from Cons.IH [OF this] obtain k where "k < length bs" "j = Suc i + k" "lands x (bs ! k)" "\<forall>m < k. \<not> lands x (bs ! m)"
      by blast
    with False show ?thesis by (intro exI [of _ "Suc k"]) (auto simp: nth_Cons split: nat.split)
  qed (use Cons in auto)
qed simp

lemma landing_None: "landing x bs i = None \<longleftrightarrow> (\<forall>b \<in> set bs. \<not> lands x b)"
  by (induction bs arbitrary: i) auto

definition below_edge :: "rat list \<Rightarrow> bucket \<Rightarrow> nat" where
  "below_edge xs e = length (filter (\<lambda>x. lands x e) xs)"

lemma below_edge_simps [simp]: "below_edge xs Inf_Edge = length xs" "below_edge [] e = 0"
  by (simp_all add: below_edge_def)

lemma below_edge_mono: "edge_le a b \<Longrightarrow> below_edge xs a \<le> below_edge xs b"
  unfolding below_edge_def by (induction xs) (auto dest: lands_mono)

text \<open>The histogram of the observations \<open>xs\<close>, none of them negative.\<close>

definition histogram_of :: "rat list \<Rightarrow> latency_histogram \<Rightarrow> bool" where
  "histogram_of xs h \<longleftrightarrow> (\<forall>x \<in> set xs. 0 \<le> x) \<and> lh_count h = length xs \<and> lh_sum h = sum_list xs
     \<and> sorted_wrt edge_le (lh_buckets h) \<and> lh_buckets h \<noteq> [] \<and> last (lh_buckets h) = Inf_Edge
     \<and> lh_cumulative h = map (below_edge xs) (lh_buckets h)"

lemma new_histogram_of:
  assumes "new_histogram name buckets = Inr h"
  shows "histogram_of [] h" "set buckets \<subseteq> set (lh_buckets h)"
proof -
  have zeros: "replicate (length bs) 0 = map (below_edge []) bs" for bs
    by (induction bs) simp_all
  show "histogram_of [] h" "set buckets \<subseteq> set (lh_buckets h)"
    using assms not_decreasing [of buckets]
    by (auto simp: new_histogram_def histogram_of_def Let_def sorted_wrt_append zeros simp del: replicate_Suc
        split: if_splits)
qed

lemma observe_histogram_of:
  assumes h: "histogram_of xs h" and x: "0 \<le> x"
  shows "histogram_of (xs @ [x]) (observe x h)"
proof -
  let ?bs = "lh_buckets h" and ?cs = "lh_cumulative h"
  have "last ?bs \<in> set ?bs" using h by (intro last_in_set) (simp add: histogram_of_def)
  moreover have "lands x (last ?bs)" using h by (simp add: histogram_of_def)
  ultimately have "\<exists>b \<in> set ?bs. lands x b" by blast
  then obtain j where j: "landing x ?bs 0 = Some j" using landing_None [of x ?bs 0] by (cases "landing x ?bs 0") auto
  then have first: "j < length ?bs" "lands x (?bs ! j)" "\<forall>m < j. \<not> lands x (?bs ! m)"
    using landing_first [OF j] by auto
  have above: "lands x (?bs ! m)" if "j \<le> m" "m < length ?bs" for m
  proof (cases "j = m")
    case False
    with that have "edge_le (?bs ! j) (?bs ! m)"
      using h sorted_wrt_nth_less [of edge_le ?bs j m] by (auto simp: histogram_of_def)
    then show ?thesis by (rule lands_mono [OF first(2)])
  qed (use first in simp)
  have "take j ?cs @ map Suc (drop j ?cs) = map (below_edge (xs @ [x])) ?bs"
  proof (rule nth_equalityI)
    have len: "length ?cs = length ?bs" using h by (simp add: histogram_of_def)
    then show "length (take j ?cs @ map Suc (drop j ?cs)) = length (map (below_edge (xs @ [x])) ?bs)"
      using first(1) by simp
    fix m assume "m < length (take j ?cs @ map Suc (drop j ?cs))"
    then have m: "m < length ?bs" using first(1) len by simp
    have c: "?cs ! m = below_edge xs (?bs ! m)" using h m by (simp add: histogram_of_def)
    show "(take j ?cs @ map Suc (drop j ?cs)) ! m = map (below_edge (xs @ [x])) ?bs ! m"
      using first above [of m] m len c by (auto simp: nth_append below_edge_def)
  qed
  then show ?thesis using h x j by (simp add: histogram_of_def observe_def)
qed

lemma fold_observe:
  "histogram_of ys h \<Longrightarrow> histogram_of (ys @ filter (\<lambda>x. 0 \<le> x) xs) (fold observe xs h)"
proof (induction xs arbitrary: ys h)
  case (Cons x xs)
  show ?case
  proof (cases "0 \<le> x")
    case True
    then show ?thesis using Cons.IH [OF observe_histogram_of [OF Cons.prems True]] by simp
  next
    case False
    then have "observe x h = h" by (simp add: observe_def)
    with False show ?thesis using Cons.IH [OF Cons.prems] by simp
  qed
qed simp

section \<open>What a quantile says\<close>

lemma quantile_loop_inner:
  assumes "sorted_wrt edge_le (Edge pb # bs)" "bs \<noteq> []" "last bs = Inf_Edge"
    and "of_nat (below_edge xs (Edge pb)) < target" "target \<le> of_nat (length xs)"
  shows "\<exists>r. quantile_loop target (below_edge xs (Edge pb)) pb (zip bs (map (below_edge xs) bs)) = Some r \<and> pb \<le> r
    \<and> (\<forall>b b'. Edge b \<in> set (Edge pb # bs) \<longrightarrow> Edge b' \<in> set (Edge pb # bs) \<longrightarrow> b < b' \<longrightarrow>
        (r \<le> b \<longleftrightarrow> target \<le> of_nat (below_edge xs (Edge b))))"
  using assms
proof (induction bs arbitrary: pb)
  case (Cons u rest)
  let ?C = "below_edge xs"
  note sorted = Cons.prems(1) and target = Cons.prems(4,5)
  show ?case
  proof (cases u)
    case Inf_Edge
    then have "\<forall>e \<in> set rest. e = Inf_Edge" using sorted by auto
    with Inf_Edge have only: "Edge b \<in> set (Edge pb # u # rest) \<Longrightarrow> b = pb" for b by auto
    show ?thesis using Inf_Edge target(2) only by auto
  next
    case (Edge v)
    have le: "pb \<le> v" using sorted by (simp add: Edge)
    show ?thesis
    proof (cases "target \<le> of_nat (?C (Edge v))")
      case True
      have "?C (Edge pb) < ?C (Edge v)" using target(1) True by (metis le_less_trans not_le of_nat_less_iff order_less_le_trans)
      then have lt: "pb < v" using le by (cases "pb = v") auto
      define d where "d = (of_int (int (?C (Edge v)) - int (?C (Edge pb))) :: rat)"
      have d: "0 < d" "target - of_nat (?C (Edge pb)) \<le> d" "0 < target - of_nat (?C (Edge pb))"
        using \<open>?C (Edge pb) < ?C (Edge v)\<close> target(1) True by (simp_all add: d_def)
      define r where "r = pb + (target - of_nat (?C (Edge pb))) / d * (v - pb)"
      have run: "quantile_loop target (?C (Edge pb)) pb (zip (u # rest) (map ?C (u # rest))) = Some r"
        using True \<open>?C (Edge pb) < ?C (Edge v)\<close> by (simp add: Edge r_def d_def)
      have "0 < (target - of_nat (?C (Edge pb))) / d" "(target - of_nat (?C (Edge pb))) / d \<le> 1"
        using d by simp_all
      moreover from this(1) have "0 < (target - of_nat (?C (Edge pb))) / d * (v - pb)" using lt by (intro mult_pos_pos) simp_all
      ultimately have r: "pb < r" "r \<le> v"
        using lt mult_left_le_one_le [of "v - pb" "(target - of_nat (?C (Edge pb))) / d"] by (simp_all add: r_def)
      have gate: "r \<le> b \<longleftrightarrow> target \<le> of_nat (?C (Edge b))" if b: "Edge b \<in> set (Edge pb # u # rest)" for b
      proof (cases "b = pb")
        case True
        then show ?thesis using r(1) target(1) by simp
      next
        case False
        then have vb: "v \<le> b" using b sorted by (auto simp: Edge)
        then have "?C (Edge v) \<le> ?C (Edge b)" by (intro below_edge_mono) simp
        then show ?thesis using vb r(2) True by (meson dual_order.trans of_nat_mono)
      qed
      show ?thesis using run r(1) gate by (intro exI [of _ r]) auto
    next
      case False
      have tail: "sorted_wrt edge_le (Edge v # rest)" "rest \<noteq> []" "last rest = Inf_Edge"
        using sorted Cons.prems(3) by (auto simp: Edge split: if_splits)
      obtain r where r: "quantile_loop target (?C (Edge v)) v (zip rest (map ?C rest)) = Some r" "v \<le> r"
        and gate: "\<forall>b b'. Edge b \<in> set (Edge v # rest) \<longrightarrow> Edge b' \<in> set (Edge v # rest) \<longrightarrow> b < b' \<longrightarrow>
          (r \<le> b \<longleftrightarrow> target \<le> of_nat (?C (Edge b)))"
        using Cons.IH [OF tail] False target(2) by auto
      have "r \<le> b \<longleftrightarrow> target \<le> of_nat (?C (Edge b))"
        if b: "Edge b \<in> set (Edge pb # u # rest)" "Edge b' \<in> set (Edge pb # u # rest)" "b < b'" for b b'
      proof (cases "b = pb \<and> pb < v")
        case True
        then show ?thesis using r(2) target(1) by auto
      next
        case other: False
        then have vb: "v \<le> b" "Edge b \<in> set (Edge v # rest)" using b(1) sorted le by (auto simp: Edge)
        then have "Edge b' \<in> set (Edge v # rest)" using b(2,3) le by (auto simp: Edge)
        then show ?thesis using gate vb(2) b(3) by blast
      qed
      then show ?thesis using r False le by (intro exI [of _ r]) (auto simp: Edge)
    qed
  qed
qed simp

text \<open>At the start the previous bound is 0, which need not be an edge.\<close>

lemma quantile_loop_gate:
  assumes "sorted_wrt edge_le bs" "bs \<noteq> []" "last bs = Inf_Edge" "\<forall>x \<in> set xs. 0 \<le> x"
    and "0 < target" "target \<le> of_nat (length xs)" "Edge b \<in> set bs" "Edge b' \<in> set bs" "b < b'"
  shows "\<exists>r. quantile_loop target 0 0 (zip bs (map (below_edge xs) bs)) = Some r
    \<and> (r \<le> b \<longleftrightarrow> target \<le> of_nat (below_edge xs (Edge b)))"
proof -
  let ?C = "below_edge xs"
  obtain v rest where bs: "bs = Edge v # rest"
    using assms(1,2,7) by (cases bs; cases "hd bs") auto
  show ?thesis
  proof (cases "target \<le> of_nat (?C (Edge v))")
    case True
    then have pos: "0 < ?C (Edge v)" using assms(5) by (metis less_le_trans of_nat_0_less_iff)
    then obtain x where "x \<in> set xs" "x \<le> v" by (auto simp: below_edge_def filter_empty_conv)
    then have v: "0 \<le> v" using assms(4) by force
    define r where "r = target / of_nat (?C (Edge v)) * v"
    have run: "quantile_loop target 0 0 (zip bs (map ?C bs)) = Some r"
      using True pos by (simp add: bs r_def)
    have "target / of_nat (?C (Edge v)) \<le> 1" "0 \<le> target / of_nat (?C (Edge v))" using True pos assms(5) by simp_all
    with v have "r \<le> v" unfolding r_def by (intro mult_left_le_one_le)
    moreover have vb: "v \<le> b" using assms(1,7) by (auto simp: bs)
    moreover have "target \<le> of_nat (?C (Edge b))"
    proof -
      have "?C (Edge v) \<le> ?C (Edge b)" using vb by (intro below_edge_mono) simp
      then show ?thesis using True by (meson dual_order.trans of_nat_mono)
    qed
    ultimately show ?thesis using run by auto
  next
    case False
    have "rest \<noteq> []" "last rest = Inf_Edge" using assms(3) by (auto simp: bs split: if_splits)
    then show ?thesis
      using quantile_loop_inner [of v rest xs target] assms False by (auto simp: bs)
  qed
qed

lemma quantile_gate:
  assumes h: "histogram_of xs h" and xs: "xs \<noteq> []" and q: "0 < q" "q \<le> 1"
    and b: "Edge b \<in> set (lh_buckets h)" "Edge b' \<in> set (lh_buckets h)" "b < b'"
  shows "\<exists>r. quantile_from_cumulative (lh_buckets h) (lh_cumulative h) q = Some r
    \<and> (r \<le> b \<longleftrightarrow> q * of_nat (length xs) \<le> of_nat (length (filter (\<lambda>x. x \<le> b) xs)))"
proof -
  have t: "last (lh_cumulative h) = length xs" "lh_cumulative h \<noteq> []"
    using h by (auto simp: histogram_of_def last_map)
  have "q * of_nat (length xs) \<le> of_nat (length xs)" "0 < q * of_nat (length xs)" using q xs by simp_all
  then obtain r where "quantile_loop (q * of_nat (length xs)) 0 0 (zip (lh_buckets h) (lh_cumulative h)) = Some r"
    "r \<le> b \<longleftrightarrow> q * of_nat (length xs) \<le> of_nat (below_edge xs (Edge b))"
    using quantile_loop_gate [of "lh_buckets h" xs "q * of_nat (length xs)" b b'] h b by (auto simp: histogram_of_def)
  then show ?thesis using t xs by (auto simp: quantile_from_cumulative_def below_edge_def Let_def)
qed

section \<open>The gate of the endpoint\<close>

record measured_request =
  mq_start :: rat
  mq_stop :: rat
  mq_caller :: "docname option list"
  mq_event :: docname
  mq_entries :: "bulk_entry list"
  mq_batch_id :: string

text \<open>Requests one after another; a refused one leaves the queue as it is.\<close>

fun run_measured :: "measured_request list \<Rightarrow> attendance_queue \<Rightarrow> telemetry_collector
    \<Rightarrow> attendance_queue \<times> telemetry_collector" where
  "run_measured [] q col = (q, col)"
| "run_measured (m # ms) q col =
     (case measured_bulk_submit (mq_start m) (mq_stop m) (mq_caller m) (mq_event m) (mq_entries m) (mq_batch_id m) q col of
        (col1, Inl e) \<Rightarrow> run_measured ms q col1
      | (col1, Inr (n, q1)) \<Rightarrow> run_measured ms q1 col1)"

definition measured_durations :: "measured_request list \<Rightarrow> rat list" where
  "measured_durations ms =
     map (\<lambda>m. mq_stop m - mq_start m) (filter (\<lambda>m. mq_event m \<noteq> [] \<and> mq_batch_id m \<noteq> []) ms)"

lemma run_measured_histogram:
  "tc_bulk_latency (snd (run_measured ms q col)) = fold observe (measured_durations ms) (tc_bulk_latency col)"
  by (induction ms arbitrary: q col)
    (auto simp: measured_durations_def measured_bulk_submit_def measure_bulk_latency_def observe_bulk_latency_def
      split: prod.splits sum.splits if_splits)

lemma run_measured_sources:
  "tc_redis_source (snd (run_measured ms q col)) = tc_redis_source col"
  "tc_mariadb_source (snd (run_measured ms q col)) = tc_mariadb_source col"
  by (induction ms arbitrary: q col)
    (auto simp: measured_bulk_submit_def measure_bulk_latency_def observe_bulk_latency_def
      split: prod.splits sum.splits if_splits)

lemma initial_histogram: "histogram_of [] (tc_bulk_latency initial_collector)"
  "lh_buckets (tc_bulk_latency initial_collector) = DEFAULT_LATENCY_BUCKETS"
proof -
  have ok: "is_ok (new_histogram ''flock_bulk_attendance_latency'' DEFAULT_LATENCY_BUCKETS)" by code_simp
  then show "histogram_of [] (tc_bulk_latency initial_collector)"
    using new_histogram_of(1) by (auto simp: is_ok_iff initial_collector_def)
  show "lh_buckets (tc_bulk_latency initial_collector) = DEFAULT_LATENCY_BUCKETS" by code_simp
qed

text \<open>C36. The 95th percentile the collector reports is an interpolation inside a bucket, yet as a gate it
  is exact: it is there as soon as one request was measured, and it is at most the budget exactly
  when at least 95 percent of the measured requests took at most the budget.  Refused batches
  count as well; only requests without an event or a batch id are not measured.\<close>

theorem latency_gate_exact:
  assumes "\<And>m. m \<in> set ms \<Longrightarrow> mq_start m \<le> mq_stop m"
    and "durations = measured_durations ms" "durations \<noteq> []"
  shows "\<exists>p. hs_p95 (ts_bulk_latency (collector_snapshot sv clk (snd (run_measured ms q initial_collector)))) = Some p
    \<and> (p \<le> BULK_LATENCY_P95_BUDGET_SECONDS \<longleftrightarrow>
        95/100 * of_nat (length durations) \<le> (of_nat (length (filter (\<lambda>d. d \<le> BULK_LATENCY_P95_BUDGET_SECONDS) durations)) :: rat))"
proof -
  let ?h = "tc_bulk_latency (snd (run_measured ms q initial_collector))"
  have "filter (\<lambda>x. 0 \<le> x) durations = durations"
    using assms(1) by (auto simp: assms(2) measured_durations_def filter_id_conv)
  then have h: "histogram_of durations ?h"
    using fold_observe [OF initial_histogram(1), of durations] by (simp add: run_measured_histogram assms(2))
  have "lh_buckets (fold observe xs h) = lh_buckets h" for xs h
    by (induction xs arbitrary: h) (simp_all add: observe_def)
  then have buckets: "lh_buckets ?h = DEFAULT_LATENCY_BUCKETS"
    by (simp add: run_measured_histogram initial_histogram)
  have "Edge BULK_LATENCY_P95_BUDGET_SECONDS \<in> set DEFAULT_LATENCY_BUCKETS" "Edge 10 \<in> set DEFAULT_LATENCY_BUCKETS"
    "BULK_LATENCY_P95_BUDGET_SECONDS < 10" "0 < (95/100 :: rat)" "95/100 \<le> (1 :: rat)"
    by code_simp+
  then show ?thesis
    using quantile_gate [OF h assms(3), of "95/100" BULK_LATENCY_P95_BUDGET_SECONDS 10]
    by (simp add: buckets collector_snapshot_def histogram_snapshot_def)
qed

definition demo_measured :: "measured_request list" where
  "demo_measured = [\<lparr>mq_start = 0, mq_stop = 45/100, mq_caller = [], mq_event = ''E'', mq_entries = [], mq_batch_id = ''B''\<rparr>,
     \<lparr>mq_start = 1, mq_stop = 3, mq_caller = [], mq_event = ''E'', mq_entries = [], mq_batch_id = ''B''\<rparr>,
     \<lparr>mq_start = 4, mq_stop = 5, mq_caller = [], mq_event = [], mq_entries = [], mq_batch_id = ''B''\<rparr>]"

definition demo_server :: scrape_env where
  "demo_server = \<lparr>sv_redis_info = None, sv_queue_length = None, sv_status = None\<rparr>"

lemma latency_gate_exact_witness:
  "\<exists>p. hs_p95 (ts_bulk_latency (collector_snapshot demo_server 6 (snd (run_measured demo_measured demo_queue0 initial_collector)))) = Some p
    \<and> \<not> p \<le> BULK_LATENCY_P95_BUDGET_SECONDS"
proof -
  have ordered: "m \<in> set demo_measured \<Longrightarrow> mq_start m \<le> mq_stop m" for m by (auto simp: demo_measured_def)
  have d: "measured_durations demo_measured = [45/100, 2]" by code_simp
  show ?thesis
    using latency_gate_exact [of demo_measured "[45/100, 2]" demo_server 6 demo_queue0] ordered d
    by (simp add: BULK_LATENCY_P95_BUDGET_SECONDS_def)
qed

end
