(* ===== verification/Py_Text.thy ===== *)
theory Py_Text
  imports Py_Values "HOL-Library.Sublist"
begin

text \<open>
  The methods of \<open>str\<close> which the tools use: \<open>in\<close>, \<open>split\<close> at a character, \<open>replace\<close>, \<open>join\<close>,
  \<open>strip\<close> with a set of characters, \<open>splitlines\<close>, \<open>upper\<close>, \<open>partition\<close>.  Letters outside ASCII
  keep their case.
\<close>

definition NEWLINE :: string where "NEWLINE = [CHR 0x0A]"

text \<open>\<open>needle in hay\<close>.\<close>

definition contains_text :: "string \<Rightarrow> string \<Rightarrow> bool" where
  "contains_text needle hay = list_ex (prefix needle) (suffixes hay)"

lemma contains_text_sublist: "contains_text needle hay \<longleftrightarrow> sublist needle hay"
  by (auto simp: contains_text_def list_ex_iff sublist_altdef')

lemma contains_textI: "contains_text needle (xs @ needle @ ys)"
  by (simp add: contains_text_sublist)

text \<open>\<open>hay.split(c)\<close>.\<close>

fun split_on :: "char \<Rightarrow> string \<Rightarrow> string list" where
  "split_on sep [] = [[]]"
| "split_on sep (c # cs) =
     (if c = sep then [] # split_on sep cs
      else case split_on sep cs of [] \<Rightarrow> [[c]] | p # ps \<Rightarrow> (c # p) # ps)"

lemma split_on_free: "sep \<notin> set s \<Longrightarrow> split_on sep s = [s]"
  by (induction s) auto

lemma split_on_append: "sep \<notin> set s \<Longrightarrow> split_on sep (s @ sep # t) = s # split_on sep t"
  by (induction s) auto

text \<open>\<open>s.replace(old, new)\<close> for a text \<open>old\<close> that is not empty.\<close>

function replace_text :: "string \<Rightarrow> string \<Rightarrow> string \<Rightarrow> string" where
  "replace_text old new s =
    (if s = [] then []
     else if old \<noteq> [] \<and> prefix old s then new @ replace_text old new (drop (length old) s)
     else hd s # replace_text old new (tl s))"
  by pat_completeness auto
termination by (relation "measure (\<lambda>(old, new, s). length s)") auto

declare replace_text.simps [simp del]

text \<open>\<open>s.replace(c, new)\<close> of one character.\<close>

definition replace_char :: "char \<Rightarrow> string \<Rightarrow> string \<Rightarrow> string" where
  "replace_char old new s = concat (map (\<lambda>c. if c = old then new else [c]) s)"

text \<open>\<open>sep.join(xs)\<close>.\<close>

fun py_join :: "string \<Rightarrow> string list \<Rightarrow> string" where
  "py_join sep [] = []"
| "py_join sep [x] = x"
| "py_join sep (x # y # ys) = x @ sep @ py_join sep (y # ys)"

text \<open>\<open>s.strip(chars)\<close>, and \<open>s.upper()\<close>.\<close>

definition strip_chars :: "string \<Rightarrow> string \<Rightarrow> string" where
  "strip_chars chars s = rev (dropWhile (\<lambda>c. c \<in> set chars) (rev (dropWhile (\<lambda>c. c \<in> set chars) s)))"

definition upper_ascii :: "string \<Rightarrow> string" where
  "upper_ascii s = map (\<lambda>c. let n = (of_char c :: nat) in if 97 \<le> n \<and> n \<le> 122 then char_of (n - 32) else c) s"

text \<open>\<open>s.splitlines()\<close>: the ends of a line are those of Python in the first 256 code points, a
  carriage return with a line feed counts once, and no empty line follows a last end.\<close>

definition line_break :: "char \<Rightarrow> bool" where
  "line_break c = (let n = (of_char c :: nat) in (10 \<le> n \<and> n \<le> 13) \<or> (28 \<le> n \<and> n \<le> 30) \<or> n = 133)"

function splitlines :: "string \<Rightarrow> string list" where
  "splitlines s =
    (if s = [] then []
     else let line = takeWhile (\<lambda>c. \<not> line_break c) s; rest = dropWhile (\<lambda>c. \<not> line_break c) s in
       line # (case rest of [] \<Rightarrow> []
         | c # cs \<Rightarrow> if c = CHR 0x0D \<and> cs \<noteq> [] \<and> hd cs = CHR 0x0A then splitlines (tl cs) else splitlines cs))"
  by pat_completeness auto
termination
proof (relation "measure length", goal_cases)
  case (2 s line rest c cs)
  then have "c # cs = dropWhile (\<lambda>c. \<not> line_break c) s" by simp
  then have "length cs < length s"
    using length_dropWhile_le [of "\<lambda>c. \<not> line_break c" s] by (metis Suc_le_eq length_Cons)
  then show ?case by simp
next
  case (3 s line rest c cs)
  then have "c # cs = dropWhile (\<lambda>c. \<not> line_break c) s" by simp
  then show ?case
    using length_dropWhile_le [of "\<lambda>c. \<not> line_break c" s] by (metis Suc_le_eq in_measure length_Cons)
qed simp

declare splitlines.simps [simp del]

lemma splitlines_Nil [simp]: "splitlines [] = []"
  by (simp add: splitlines.simps)

lemma splitlines_line:
  assumes "\<forall>c \<in> set line. \<not> line_break c"
  shows "splitlines (line @ NEWLINE @ rest) = line # splitlines rest"
proof -
  have "takeWhile (\<lambda>c. \<not> line_break c) (line @ NEWLINE @ rest) = line"
    using assms by (auto simp: NEWLINE_def line_break_def takeWhile_append)
  moreover have "dropWhile (\<lambda>c. \<not> line_break c) (line @ NEWLINE @ rest) = CHR 0x0A # rest"
    using assms by (auto simp: NEWLINE_def line_break_def dropWhile_append)
  ultimately show ?thesis by (subst splitlines.simps) (simp add: NEWLINE_def)
qed

text \<open>A text that neither begins nor ends with white space is its own \<open>strip()\<close>.\<close>

definition trimmed :: "string \<Rightarrow> bool" where
  "trimmed s \<longleftrightarrow> s \<noteq> [] \<and> \<not> py_space (hd s) \<and> \<not> py_space (last s)"

lemma dropWhile_hd: "\<not> P (hd s) \<Longrightarrow> dropWhile P s = s"
  by (cases s) auto

lemma py_strip_trimmed: "trimmed s \<Longrightarrow> py_strip s = s"
  by (simp add: trimmed_def py_strip_def dropWhile_hd hd_rev)

lemma trimmed_digits:
  assumes "0 \<le> n" shows "trimmed (digits n)"
proof -
  have c: "\<not> py_space c" if "c \<in> set (digits n)" for c
  proof -
    have "48 \<le> (of_char c :: int)" "(of_char c :: int) \<le> 57" using digits_chars [OF assms that] by auto
    then have "48 \<le> (of_char c :: nat)" "(of_char c :: nat) \<le> 57"
      by (metis nat_int nat_mono of_nat_of_char numeral_One nat_numeral)+
    then show ?thesis by (simp add: py_space_def)
  qed
  have "digits n \<noteq> []" by (subst digits.simps) auto
  then show ?thesis using c by (auto simp: trimmed_def)
qed

end
