(* ===== verification/Heartbeat_Monitor.thy ===== *)
theory Heartbeat_Monitor
  imports Py_Text
begin

text \<open>
  Model of \<open>tools/ops/ceo_heartbeat/monitor.py\<close>: the runs of the heartbeat routine and the agent as
  the control plane reports them, the detection of silent runs, the completion statistics, the health
  snapshot of one scrape and the alert issues opened for silent runs.

  The control plane is a parameter: \<open>send\<close> takes a request and the state of the world and gives an
  answer and the next state, so two reads may see different things.  An answer is the decoded body
  of a 2xx reply, an HTTP error, a network error or any other exception.  The text of a value that is
  no string is the parameter \<open>show\<close>, and \<open>fromiso\<close> is the library's reading of an ISO time, \<open>None\<close>
  when it raises.  Identifiers in replies are strings or null; any other value reads as null.
\<close>

section \<open>Requests\<close>

datatype http_verb = GET | POST

record http_request =
  rq_verb :: http_verb
  rq_url :: string
  rq_headers :: "(string \<times> string) list"
  rq_body :: pydict

datatype http_answer =
    Http_Body pyval
  | Http_Error int string
  | Url_Error string
  | Raised string

datatype ops_error =
    Runtime_Error string
  | Action_Error string
  | Release_Forbidden string
  | Other_Error string

type_synonym 'w http_server = "http_request \<Rightarrow> 'w \<Rightarrow> http_answer \<times> 'w"
type_synonym ('w, 'a) io = "'w \<Rightarrow> (ops_error + 'a) \<times> 'w"

definition io_return :: "'a \<Rightarrow> ('w, 'a) io" where
  "io_return x w = (Inr x, w)"

definition io_raise :: "ops_error \<Rightarrow> ('w, 'a) io" where
  "io_raise e w = (Inl e, w)"

definition io_bind :: "('w, 'a) io \<Rightarrow> ('a \<Rightarrow> ('w, 'b) io) \<Rightarrow> ('w, 'b) io" where
  "io_bind m f w = (case m w of (Inl e, w1) \<Rightarrow> (Inl e, w1) | (Inr a, w1) \<Rightarrow> f a w1)"

lemma io_simps [simp]:
  "io_return x w = (Inr x, w)" "io_raise e w = (Inl e, w)"
  "io_bind (io_return x) f = f x" "io_bind (io_raise e) f = io_raise e"
  by (simp_all add: io_return_def io_raise_def io_bind_def fun_eq_iff)

definition verb_text :: "http_verb \<Rightarrow> string" where
  "verb_text v = (case v of GET \<Rightarrow> ''GET'' | POST \<Rightarrow> ''POST'')"

text \<open>\<open>default_http_get\<close> and \<open>default_http_post\<close>; the class of the exception is an argument.\<close>

definition default_http :: "(string \<Rightarrow> ops_error) \<Rightarrow> 'w http_server \<Rightarrow> http_request \<Rightarrow> ('w, pyval) io" where
  "default_http error send rq w =
    (case send rq w of (answer, w1) \<Rightarrow>
      (case answer of
         Http_Body v \<Rightarrow> Inr v
       | Http_Error code reason \<Rightarrow>
           Inl (error (verb_text (rq_verb rq) @ '' '' @ rq_url rq @ '' -> HTTP '' @ digits code @ '': '' @ reason))
       | Url_Error reason \<Rightarrow>
           Inl (error (verb_text (rq_verb rq) @ '' '' @ rq_url rq @ '' -> network error: '' @ reason))
       | Raised what \<Rightarrow> Inl (Other_Error what), w1))"

text \<open>\<open>urllib.parse.quote\<close> and \<open>str.rstrip("/")\<close>.\<close>

definition hex_digit :: "nat \<Rightarrow> char" where
  "hex_digit n = char_of (if n < 10 then 48 + n else 55 + n)"

definition url_safe :: "char \<Rightarrow> bool" where
  "url_safe c = (let n = (of_char c :: nat) in (48 \<le> n \<and> n \<le> 57) \<or> (65 \<le> n \<and> n \<le> 90) \<or> (97 \<le> n \<and> n \<le> 122)
     \<or> c \<in> set ''_.-~/'')"

definition url_quote :: "string \<Rightarrow> string" where
  "url_quote s = concat (map (\<lambda>c. if url_safe c then [c]
     else [CHR ''%'', hex_digit (of_char c div 16), hex_digit (of_char c mod 16)]) s)"

definition rstrip_slash :: "string \<Rightarrow> string" where
  "rstrip_slash s = rev (dropWhile (\<lambda>c. c = CHR ''/'') (rev s))"

definition json_headers :: "string \<Rightarrow> (string \<times> string) list" where
  "json_headers api_key = [(''Authorization'', ''Bearer '' @ api_key), (''Accept'', ''application/json'')]"

text \<open>\<open>_get\<close> and \<open>_post\<close> of the clients.\<close>

definition api_get :: "(string \<Rightarrow> ops_error) \<Rightarrow> 'w http_server \<Rightarrow> string \<Rightarrow> string \<Rightarrow> string \<Rightarrow> ('w, pyval) io" where
  "api_get error send api_url api_key path =
    default_http error send \<lparr>rq_verb = GET, rq_url = rstrip_slash api_url @ path, rq_headers = json_headers api_key, rq_body = []\<rparr>"

definition api_post :: "(string \<Rightarrow> ops_error) \<Rightarrow> 'w http_server \<Rightarrow> string \<Rightarrow> (string \<times> string) list \<Rightarrow> string \<Rightarrow> pydict
    \<Rightarrow> ('w, pyval) io" where
  "api_post error send api_url headers path body =
    default_http error send \<lparr>rq_verb = POST, rq_url = rstrip_slash api_url @ path,
      rq_headers = AList.update ''Accept'' ''application/json'' (AList.update ''Content-Type'' ''application/json'' headers),
      rq_body = body\<rparr>"

section \<open>Runs and thresholds\<close>

definition DEFAULT_WARNING_SILENCE_MINUTES :: rat where "DEFAULT_WARNING_SILENCE_MINUTES = 15"
definition DEFAULT_CRITICAL_SILENCE_MINUTES :: rat where "DEFAULT_CRITICAL_SILENCE_MINUTES = 30"

definition ACTIVE_RUN_STATUSES :: "string list" where
  "ACTIVE_RUN_STATUSES = [''issue_created'', ''running'', ''active'', ''pending'', ''queued'']"

definition SEVERITY_OK :: string where "SEVERITY_OK = ''ok''"
definition SEVERITY_WARNING :: string where "SEVERITY_WARNING = ''warning''"
definition SEVERITY_CRITICAL :: string where "SEVERITY_CRITICAL = ''critical''"

lemmas severity_defs = SEVERITY_OK_def SEVERITY_WARNING_def SEVERITY_CRITICAL_def

record heartbeat_run =
  hr_id :: string
  hr_status :: string
  hr_triggered_at :: rat
  hr_completed_at :: "rat option"
  hr_linked_id :: "string option"
  hr_linked_identifier :: "string option"
  hr_linked_title :: "string option"
  hr_linked_status :: "string option"
  hr_coalesced_into :: "string option"
  hr_failure_reason :: "string option"

record agent_state =
  ag_id :: "string option"
  ag_name :: string
  ag_status :: string
  ag_last_heartbeat :: "rat option"
  ag_updated :: "rat option"
  ag_chain_status :: "string option"
  ag_chain_reason :: "string option"

record silent_alert =
  sa_run :: heartbeat_run
  sa_age :: rat
  sa_severity :: string

text \<open>\<open>_parse_iso8601_to_epoch\<close>: one trailing Z becomes an offset.\<close>

definition parse_iso8601_to_epoch :: "(pyval \<Rightarrow> string) \<Rightarrow> (string \<Rightarrow> rat option) \<Rightarrow> pyval \<Rightarrow> rat option" where
  "parse_iso8601_to_epoch show fromiso v =
    (case v of
       Py_None \<Rightarrow> None
     | Py_Num x \<Rightarrow> Some x
     | Py_Bool b \<Rightarrow> Some (if b then 1 else 0)
     | _ \<Rightarrow>
       let s = py_strip (py_text show v) in
       if s = [] then None
       else fromiso (if last s = CHR ''Z'' then butlast s @ ''+00:00'' else s))"

definition age_minutes :: "rat option \<Rightarrow> rat \<Rightarrow> rat option" where
  "age_minutes triggered now = (case triggered of None \<Rightarrow> None | Some t \<Rightarrow> Some (max 0 ((now - t) / 60)))"

section \<open>Detection\<close>

definition is_superseded_by_newer_base_run :: "heartbeat_run \<Rightarrow> heartbeat_run list \<Rightarrow> bool" where
  "is_superseded_by_newer_base_run run runs =
    list_ex (\<lambda>other. hr_id other \<noteq> hr_id run \<and> \<not> truthy (hr_coalesced_into other)
      \<and> hr_triggered_at other > hr_triggered_at run) runs"

definition in_flight :: "heartbeat_run \<Rightarrow> bool" where
  "in_flight run \<longleftrightarrow> hr_status run \<in> set ACTIVE_RUN_STATUSES \<and> hr_completed_at run = None \<and> \<not> truthy (hr_coalesced_into run)"

definition silent_alert_of :: "heartbeat_run list \<Rightarrow> rat \<Rightarrow> rat \<Rightarrow> rat \<Rightarrow> heartbeat_run \<Rightarrow> silent_alert option" where
  "silent_alert_of runs now warning critical run =
    (if \<not> in_flight run then None
     else if is_superseded_by_newer_base_run run runs then None
     else case age_minutes (Some (hr_triggered_at run)) now of None \<Rightarrow> None
     | Some age \<Rightarrow>
         if age \<ge> critical then Some \<lparr>sa_run = run, sa_age = age, sa_severity = SEVERITY_CRITICAL\<rparr>
         else if age \<ge> warning then Some \<lparr>sa_run = run, sa_age = age, sa_severity = SEVERITY_WARNING\<rparr>
         else None)"

text \<open>A sort by a key with \<open>reverse=True\<close> keeps the order of equal elements.\<close>

definition sort_descending :: "('a \<Rightarrow> rat) \<Rightarrow> 'a list \<Rightarrow> 'a list" where
  "sort_descending key xs = sort_key (\<lambda>x. - key x) xs"

definition detect_silent_runs :: "rat \<Rightarrow> rat \<Rightarrow> heartbeat_run list \<Rightarrow> rat \<Rightarrow> silent_alert list" where
  "detect_silent_runs warning critical runs now =
    sort_descending sa_age (List.map_filter (silent_alert_of runs now warning critical) runs)"

definition active_in_flight_runs :: "heartbeat_run list \<Rightarrow> heartbeat_run list" where
  "active_in_flight_runs runs = filter in_flight runs"

section \<open>Completion statistics\<close>

record completion_stats =
  cs_count :: nat
  cs_failures :: nat
  cs_p50 :: "rat option"
  cs_p95 :: "rat option"
  cs_max :: "rat option"
  cs_mean :: "rat option"
  cs_durations :: "rat list"

text \<open>The duration a run adds to the sample, if any.\<close>

definition run_duration :: "heartbeat_run \<Rightarrow> rat option" where
  "run_duration r =
    (case hr_completed_at r of None \<Rightarrow> None
     | Some done_at \<Rightarrow>
         if hr_status r = ''coalesced'' then None
         else let duration = (done_at - hr_triggered_at r) / 60 in if duration < 0 then None else Some duration)"

definition percentile_rank :: "nat \<Rightarrow> rat \<Rightarrow> int" where
  "percentile_rank n q = max 1 (min (int n) \<lceil>q * of_nat n\<rceil>)"

definition compute_completion_stats :: "heartbeat_run list \<Rightarrow> completion_stats" where
  "compute_completion_stats runs =
    (let durations = sort (List.map_filter run_duration runs);
         failures = length (filter (\<lambda>r. run_duration r \<noteq> None \<and> hr_status r = ''failed'') runs);
         n = length durations;
         percentile = (\<lambda>q. durations ! nat (percentile_rank n q - 1)) in
     if durations = [] then
       \<lparr>cs_count = 0, cs_failures = failures, cs_p50 = None, cs_p95 = None, cs_max = None, cs_mean = None, cs_durations = []\<rparr>
     else
       \<lparr>cs_count = n, cs_failures = failures, cs_p50 = Some (percentile (1/2)), cs_p95 = Some (percentile (95/100)),
        cs_max = Some (last durations), cs_mean = Some (sum_list durations / of_nat n), cs_durations = durations\<rparr>)"

section \<open>One scrape\<close>

definition liveness_severity :: "agent_state \<Rightarrow> rat \<Rightarrow> rat \<Rightarrow> rat \<Rightarrow> string" where
  "liveness_severity agent now warning critical =
    (if ag_chain_status agent = Some ''unhealthy'' then SEVERITY_CRITICAL
     else case age_minutes (ag_last_heartbeat agent) now of None \<Rightarrow> SEVERITY_OK
     | Some staleness \<Rightarrow>
         if staleness \<ge> critical then SEVERITY_CRITICAL
         else if staleness \<ge> warning then SEVERITY_WARNING else SEVERITY_OK)"

definition max_severity :: "string list \<Rightarrow> string" where
  "max_severity levels =
    (if SEVERITY_CRITICAL \<in> set levels then SEVERITY_CRITICAL
     else if SEVERITY_WARNING \<in> set levels then SEVERITY_WARNING else SEVERITY_OK)"

definition severity_to_exit_code :: "string \<Rightarrow> int" where
  "severity_to_exit_code severity =
    (if severity = SEVERITY_CRITICAL then 2 else if severity = SEVERITY_WARNING then 1 else 0)"

record health_snapshot =
  sn_taken_at :: rat
  sn_severity :: string
  sn_agent :: agent_state
  sn_active_runs :: "heartbeat_run list"
  sn_alerts :: "silent_alert list"
  sn_stats :: completion_stats
  sn_current :: "heartbeat_run option"
  sn_inspected :: nat

text \<open>\<open>max(runs, key=...)\<close>: the first of the greatest elements.\<close>

fun latest_run :: "heartbeat_run \<Rightarrow> heartbeat_run list \<Rightarrow> heartbeat_run" where
  "latest_run best [] = best"
| "latest_run best (r # rs) = latest_run (if hr_triggered_at r > hr_triggered_at best then r else best) rs"

definition latest_of :: "heartbeat_run list \<Rightarrow> heartbeat_run option" where
  "latest_of runs = (case runs of [] \<Rightarrow> None | r # rs \<Rightarrow> Some (latest_run r rs))"

definition health_of :: "rat \<Rightarrow> rat \<Rightarrow> rat \<Rightarrow> agent_state \<Rightarrow> heartbeat_run list \<Rightarrow> health_snapshot" where
  "health_of warning critical now agent runs =
    (let silent = detect_silent_runs warning critical runs now;
         active = active_in_flight_runs runs in
     \<lparr>sn_taken_at = now,
      sn_severity = max_severity (map sa_severity silent @ [liveness_severity agent now warning critical]),
      sn_agent = agent, sn_active_runs = active, sn_alerts = silent, sn_stats = compute_completion_stats runs,
      sn_current = (if active \<noteq> [] then latest_of active else latest_of runs),
      sn_inspected = length runs\<rparr>)"

record heartbeat_monitor =
  hm_warning :: rat
  hm_critical :: rat
  hm_run_limit :: int

text \<open>\<open>CEOHeartbeatMonitor.evaluate_health\<close> over a source, which may raise; the clock is read first.\<close>

definition evaluate_health :: "heartbeat_monitor \<Rightarrow> (int \<Rightarrow> ('w, agent_state \<times> heartbeat_run list) io) \<Rightarrow> rat
    \<Rightarrow> ('w, health_snapshot) io" where
  "evaluate_health mon fetch now =
    io_bind (fetch (hm_run_limit mon)) (\<lambda>(agent, runs). io_return (health_of (hm_warning mon) (hm_critical mon) now agent runs))"

text \<open>\<open>StaticCEOHeartbeatSource.fetch\<close>, with a Python slice.\<close>

definition last_slice :: "int \<Rightarrow> 'a list \<Rightarrow> 'a list" where
  "last_slice k xs = (if - k < 0 then drop (length xs - nat k) xs else drop (nat (- k)) xs)"

definition static_fetch :: "agent_state \<Rightarrow> heartbeat_run list \<Rightarrow> int \<Rightarrow> ('w, agent_state \<times> heartbeat_run list) io" where
  "static_fetch agent runs run_limit =
    io_return (agent, if run_limit < int (length runs) then last_slice run_limit runs else runs)"

section \<open>The control plane as the source\<close>

record heartbeat_source =
  hb_api_url :: string
  hb_api_key :: string
  hb_company_id :: string
  hb_agent_id :: string
  hb_routine_id :: "string option"

definition source_get :: "'w http_server \<Rightarrow> heartbeat_source \<Rightarrow> string \<Rightarrow> ('w, pyval) io" where
  "source_get send src path = api_get Runtime_Error send (hb_api_url src) (hb_api_key src) path"

definition list_items :: "pyval \<Rightarrow> pyval list" where
  "list_items v = (case v of Py_List xs \<Rightarrow> xs | _ \<Rightarrow> [])"

definition dict_items :: "pyval list \<Rightarrow> pydict list" where
  "dict_items xs = List.map_filter (\<lambda>v. case v of Py_Dict d \<Rightarrow> Some d | _ \<Rightarrow> None) xs"

definition routine_of :: "string \<Rightarrow> pyval \<Rightarrow> string option" where
  "routine_of agent_id payload =
    (case filter (\<lambda>r. py_get r ''assigneeAgentId'' = Py_Str agent_id \<and> py_get r ''status'' = Py_Str ''active'')
        (dict_items (list_items payload)) of
       [] \<Rightarrow> None
     | r # _ \<Rightarrow> py_str_opt (py_get r ''id''))"

text \<open>\<open>_resolve_routine_id\<close>: the source with the id cached, and the id.\<close>

definition resolve_routine_id :: "'w http_server \<Rightarrow> heartbeat_source \<Rightarrow> ('w, heartbeat_source \<times> string) io" where
  "resolve_routine_id send src =
    (if truthy (hb_routine_id src) then io_return (src, the (hb_routine_id src))
     else io_bind (source_get send src (''/api/companies/'' @ hb_company_id src @ ''/routines'')) (\<lambda>payload.
       case routine_of (hb_agent_id src) payload of
         Some (c # cs) \<Rightarrow> io_return (src \<lparr>hb_routine_id := Some (c # cs)\<rparr>, c # cs)
       | _ \<Rightarrow> io_raise (Runtime_Error (''No active routine assigned to CEO agent '' @ hb_agent_id src
           @ '' in company '' @ hb_company_id src @ ''; set FLO_CEO_ROUTINE_ID explicitly.''))))"

definition agent_of :: "(pyval \<Rightarrow> string) \<Rightarrow> (string \<Rightarrow> rat option) \<Rightarrow> string \<Rightarrow> pydict \<Rightarrow> agent_state" where
  "agent_of show fromiso agent_id doc =
    (let chain = py_get doc ''orgChainHealth'';
         chain_get = (\<lambda>key. case chain of Py_Dict d \<Rightarrow> py_str_opt (py_get d key) | _ \<Rightarrow> None) in
     \<lparr>ag_id = py_str_opt (py_get_or (Py_Str agent_id) doc ''id''),
      ag_name = py_text show (py_or (py_get doc ''name'') (Py_Str ''CEO'')),
      ag_status = py_text show (py_or (py_get doc ''status'') (Py_Str ''unknown'')),
      ag_last_heartbeat = parse_iso8601_to_epoch show fromiso (py_get doc ''lastHeartbeatAt''),
      ag_updated = parse_iso8601_to_epoch show fromiso (py_get doc ''updatedAt''),
      ag_chain_status = chain_get ''status'', ag_chain_reason = chain_get ''reason''\<rparr>)"

definition fetch_agent :: "(pyval \<Rightarrow> string) \<Rightarrow> (string \<Rightarrow> rat option) \<Rightarrow> 'w http_server \<Rightarrow> heartbeat_source
    \<Rightarrow> ('w, agent_state) io" where
  "fetch_agent show fromiso send src =
    io_bind (source_get send src (''/api/agents/'' @ hb_agent_id src)) (\<lambda>payload.
      case payload of
        Py_Dict doc \<Rightarrow> io_return (agent_of show fromiso (hb_agent_id src) doc)
      | _ \<Rightarrow> io_raise (Runtime_Error (''Unexpected agent payload for '' @ hb_agent_id src)))"

text \<open>One row of the run history; the reading of times is an argument, because the watchdog has its
  own.  A time that is missing or cannot be read is the epoch.\<close>

definition run_of :: "(pyval \<Rightarrow> string) \<Rightarrow> (pyval \<Rightarrow> rat option) \<Rightarrow> pydict \<Rightarrow> heartbeat_run option" where
  "run_of show parse r =
    (if \<not> truthy (py_str_opt (py_get r ''id'')) then None
     else let linked = (case py_get r ''linkedIssue'' of Py_Dict d \<Rightarrow> d | _ \<Rightarrow> []) in
       Some \<lparr>hr_id = the (py_str_opt (py_get r ''id'')),
         hr_status = py_text show (py_or (py_get r ''status'') (Py_Str ''unknown'')),
         hr_triggered_at = (case parse (py_get r ''triggeredAt'') of None \<Rightarrow> 0 | Some t \<Rightarrow> t),
         hr_completed_at = parse (py_get r ''completedAt''),
         hr_linked_id = py_str_opt (py_get r ''linkedIssueId''),
         hr_linked_identifier = py_str_opt (py_get linked ''identifier''),
         hr_linked_title = py_str_opt (py_get linked ''title''),
         hr_linked_status = py_str_opt (py_get linked ''status''),
         hr_coalesced_into = py_str_opt (py_get r ''coalescedIntoRunId''),
         hr_failure_reason = py_str_opt (py_get r ''failureReason'')\<rparr>)"

definition runs_of :: "(pyval \<Rightarrow> string) \<Rightarrow> (pyval \<Rightarrow> rat option) \<Rightarrow> pyval \<Rightarrow> heartbeat_run list" where
  "runs_of show parse payload = List.map_filter (run_of show parse) (dict_items (list_items payload))"

definition runs_path :: "string \<Rightarrow> int \<Rightarrow> string" where
  "runs_path routine_id run_limit = ''/api/routines/'' @ routine_id @ ''/runs?limit='' @ int_text run_limit"

definition source_runs :: "(pyval \<Rightarrow> string) \<Rightarrow> (string \<Rightarrow> rat option) \<Rightarrow> 'w http_server \<Rightarrow> heartbeat_source \<Rightarrow> int
    \<Rightarrow> ('w, heartbeat_run list) io" where
  "source_runs show fromiso send src run_limit =
    io_bind (resolve_routine_id send src) (\<lambda>(src1, routine_id).
      io_bind (source_get send src1 (runs_path routine_id run_limit)) (\<lambda>payload.
        io_return (runs_of show (parse_iso8601_to_epoch show fromiso) payload)))"

definition source_fetch :: "(pyval \<Rightarrow> string) \<Rightarrow> (string \<Rightarrow> rat option) \<Rightarrow> 'w http_server \<Rightarrow> heartbeat_source \<Rightarrow> int
    \<Rightarrow> ('w, agent_state \<times> heartbeat_run list) io" where
  "source_fetch show fromiso send src run_limit =
    io_bind (fetch_agent show fromiso send src) (\<lambda>agent.
      io_bind (source_runs show fromiso send src run_limit) (\<lambda>runs. io_return (agent, runs)))"

section \<open>Alert issues\<close>

text \<open>The fields of \<open>PaperclipAlertIssuer\<close>.\<close>

record alert_issuer =
  ai_api_url :: string
  ai_api_key :: string
  ai_company_id :: string
  ai_escalation_agent :: string
  ai_parent_issue :: "string option"
  ai_project :: "string option"

definition TERMINAL_ISSUE_STATUSES :: "string list" where
  "TERMINAL_ISSUE_STATUSES = [''done'', ''cancelled'']"

definition alert_haystack :: "(pyval \<Rightarrow> string) \<Rightarrow> pydict \<Rightarrow> string" where
  "alert_haystack show issue =
    (let part = (\<lambda>k. py_text show (py_get_or (Py_Str []) issue k)) in
     part ''title'' @ '' '' @ part ''description'' @ '' '' @ part ''identifier'')"

definition mentions_run :: "(pyval \<Rightarrow> string) \<Rightarrow> string \<Rightarrow> pydict \<Rightarrow> bool" where
  "mentions_run show run_id issue \<longleftrightarrow>
     py_get issue ''status'' \<notin> set (map Py_Str TERMINAL_ISSUE_STATUSES) \<and> contains_text run_id (alert_haystack show issue)"

definition issues_of :: "string list \<Rightarrow> pyval \<Rightarrow> pyval list" where
  "issues_of keys payload =
    (case payload of
       Py_List xs \<Rightarrow> xs
     | Py_Dict d \<Rightarrow> list_items (foldr py_or (map (py_get d) keys) (Py_List []))
     | _ \<Rightarrow> [])"

definition search_path :: "string \<Rightarrow> string \<Rightarrow> string" where
  "search_path company_id query = ''/api/companies/'' @ company_id @ ''/issues?q='' @ url_quote query"

text \<open>\<open>_has_open_alert\<close>: a search that raises counts as no match.\<close>

definition has_open_alert :: "(pyval \<Rightarrow> string) \<Rightarrow> 'w http_server \<Rightarrow> alert_issuer \<Rightarrow> string \<Rightarrow> ('w, bool) io" where
  "has_open_alert show send ai run_id w =
    (case api_get Runtime_Error send (ai_api_url ai) (ai_api_key ai) (search_path (ai_company_id ai) run_id) w of
       (Inl _, w1) \<Rightarrow> (Inr False, w1)
     | (Inr payload, w1) \<Rightarrow> (Inr (list_ex (mentions_run show run_id) (dict_items (issues_of [''items''] payload))), w1))"

text \<open>\<open>_alert_body\<close>.\<close>

definition severity_label :: "string \<Rightarrow> string" where
  "severity_label severity =
    (if severity = SEVERITY_CRITICAL then ''CRITICAL'' else if severity = SEVERITY_WARNING then ''WARNING'' else ''OK'')"

definition current_work :: "heartbeat_run \<Rightarrow> string" where
  "current_work run = or_empty (or_else (hr_linked_identifier run) (or_else (hr_linked_title run) (Some (hr_id run))))"

definition or_text :: "string option \<Rightarrow> string \<Rightarrow> string" where
  "or_text x dflt = (if truthy x then the x else dflt)"

definition alert_title :: "silent_alert \<Rightarrow> string" where
  "alert_title a =
    ''['' @ severity_label (sa_severity a) @ ''] CEO silent heartbeat run '' @ hr_id (sa_run a)
      @ '' ('' @ fixed_text 0 (sa_age a) @ ''m)''"

definition alert_description :: "silent_alert \<Rightarrow> string" where
  "alert_description a =
    (let run = sa_run a in
     ''Detected by the CEO heartbeat monitor (FLO-266): a CEO heartbeat routine run is in flight beyond the ''
     @ sa_severity a @ '' silence budget.'' @ NEWLINE @ NEWLINE
     @ ''- **Run id**: `'' @ hr_id run @ ''`'' @ NEWLINE
     @ ''- **Severity**: '' @ severity_label (sa_severity a) @ '' (age '' @ fixed_text 1 (sa_age a)
     @ ''m; warning>=15m, critical>=30m)'' @ NEWLINE
     @ ''- **Status**: `'' @ hr_status run @ ''` (completedAt is null)'' @ NEWLINE
     @ ''- **Current operation**: '' @ current_work run @ NEWLINE
     @ ''- **Linked issue**: '' @ or_text (hr_linked_identifier run) ''n/a'' @ '' (''
     @ or_text (hr_linked_status run) ''n/a'' @ '')'' @ NEWLINE @ NEWLINE
     @ ''Recovery: see `docs/operations/ceo-heartbeat-monitoring.md`. ''
     @ ''Auto-restart is owned by [FLO-267](/FLO/issues/FLO-267).'')"

definition alert_body :: "alert_issuer \<Rightarrow> silent_alert \<Rightarrow> pydict" where
  "alert_body ai a =
    [(''title'', Py_Str (alert_title a)),
     (''description'', Py_Str (alert_description a)),
     (''assigneeAgentId'', Py_Str (ai_escalation_agent ai)),
     (''status'', Py_Str ''blocked''),
     (''priority'', Py_Str (if sa_severity a = SEVERITY_CRITICAL then ''critical'' else ''high'')),
     (''labels'', Py_List [Py_Str ''ceo-heartbeat'', Py_Str ''silent-run'', Py_Str (''run:'' @ hr_id (sa_run a))])]
    @ (if truthy (ai_parent_issue ai) then [(''parentId'', py_of_opt (ai_parent_issue ai))] else [])
    @ (if truthy (ai_project ai) then [(''projectId'', py_of_opt (ai_project ai))] else [])"

definition create_alert :: "'w http_server \<Rightarrow> alert_issuer \<Rightarrow> silent_alert
    \<Rightarrow> ('w, pyval) io" where
  "create_alert send ai a =
    api_post Runtime_Error send (ai_api_url ai) (json_headers (ai_api_key ai)) (''/api/companies/'' @ ai_company_id ai @ ''/issues'')
      (alert_body ai a)"

text \<open>\<open>issue_for\<close>: the payloads created so far are an argument of the loop.\<close>

fun issue_for :: "(pyval \<Rightarrow> string) \<Rightarrow> 'w http_server \<Rightarrow> alert_issuer
    \<Rightarrow> pydict list \<Rightarrow> silent_alert list \<Rightarrow> ('w, pydict list) io" where
  "issue_for show send ai created [] = io_return created"
| "issue_for show send ai created (a # as) =
     io_bind (has_open_alert show send ai (hr_id (sa_run a))) (\<lambda>open_alert.
       if open_alert then issue_for show send ai created as
       else io_bind (create_alert send ai a) (\<lambda>payload.
         issue_for show send ai
           (case payload of Py_Dict d \<Rightarrow> created @ [d] | _ \<Rightarrow> created) as))"

end
