(* ===== verification/Heartbeat_Reports.thy ===== *)
theory Heartbeat_Reports
  imports Heartbeat_Monitor
begin

text \<open>
  The three reports of a health snapshot in \<open>tools/ops/ceo_heartbeat/monitor.py\<close>: the text for a
  reader, the JSON value and the Prometheus exposition.  Parameters are the text of a time
  (\<open>stamp\<close> and \<open>isotime\<close>), the text of a float (\<open>show\<close>) and \<open>json.dumps\<close>.
\<close>

definition stamp_or_unknown :: "(rat \<Rightarrow> string) \<Rightarrow> rat option \<Rightarrow> string" where
  "stamp_or_unknown stamp t = (case t of None \<Rightarrow> ''unknown'' | Some x \<Rightarrow> stamp x)"

definition fmt_dur :: "rat option \<Rightarrow> string" where
  "fmt_dur minutes =
    (case minutes of None \<Rightarrow> ''n/a''
     | Some m \<Rightarrow> if m < 1 then fixed_text 0 (m * 60) @ ''s'' else fixed_text 1 m @ ''m'')"

definition count_text :: "nat \<Rightarrow> string" where
  "count_text n = digits (int n)"

definition alert_line :: "(rat \<Rightarrow> string) \<Rightarrow> silent_alert \<Rightarrow> string" where
  "alert_line stamp a =
    (let r = sa_run a in
     ''    ['' @ severity_label (sa_severity a) @ ''] run '' @ hr_id r @ '' age='' @ fixed_text 1 (sa_age a) @ ''m status='' @ hr_status r
       @ '' on '' @ current_work r @ '' (started '' @ stamp (hr_triggered_at r) @ '')'')"

definition report_lines :: "(rat \<Rightarrow> string) \<Rightarrow> health_snapshot \<Rightarrow> string list" where
  "report_lines stamp s =
    (let stats = sn_stats s; agent = sn_agent s in
     [''CEO heartbeat health: '' @ severity_label (sn_severity s),
      ''  agent: '' @ ag_name agent @ '' status='' @ ag_status agent
        @ '' last_heartbeat='' @ stamp_or_unknown stamp (ag_last_heartbeat agent)
        @ '' chain='' @ or_text (ag_chain_status agent) ''unknown'',
      if cs_count stats \<noteq> 0 then
        ''  completion (n='' @ count_text (cs_count stats) @ '', failures='' @ count_text (cs_failures stats)
          @ ''): p50='' @ fmt_dur (cs_p50 stats) @ '' p95='' @ fmt_dur (cs_p95 stats)
          @ '' max='' @ fmt_dur (cs_max stats) @ '' mean='' @ fmt_dur (cs_mean stats)
      else ''  completion: no completed runs in window'']
     @ (if sn_alerts s \<noteq> [] then
          (''  SILENT RUNS ('' @ count_text (length (sn_alerts s)) @ ''):'') # map (alert_line stamp) (sn_alerts s)
        else if sn_active_runs s \<noteq> [] then
          [''  active runs: '' @ count_text (length (sn_active_runs s)) @ '' (within threshold)'']
        else [''  active runs: none''])
     @ (case sn_current s of None \<Rightarrow> []
        | Some cur \<Rightarrow> [''  current operation: '' @ current_work cur @ '' ['' @ or_text (hr_linked_status cur) (hr_status cur) @ '']''])
     @ [''  runs inspected: '' @ count_text (sn_inspected s)])"

definition snapshot_as_text :: "(rat \<Rightarrow> string) \<Rightarrow> health_snapshot \<Rightarrow> string" where
  "snapshot_as_text stamp s = py_join NEWLINE (report_lines stamp s)"

section \<open>The JSON value\<close>

definition iso_value :: "(rat \<Rightarrow> string) \<Rightarrow> rat option \<Rightarrow> pyval" where
  "iso_value isotime t = (case t of None \<Rightarrow> Py_None | Some x \<Rightarrow> Py_Str (isotime x))"

definition num_value :: "rat option \<Rightarrow> pyval" where
  "num_value x = (case x of None \<Rightarrow> Py_None | Some v \<Rightarrow> Py_Num v)"

definition nat_value :: "nat \<Rightarrow> pyval" where
  "nat_value n = Py_Num (of_nat n)"

definition round_tenth :: "rat \<Rightarrow> rat" where
  "round_tenth x = of_int (half_even (x * 10)) / 10"

definition active_run_value :: "(rat \<Rightarrow> string) \<Rightarrow> heartbeat_run \<Rightarrow> pyval" where
  "active_run_value isotime r = Py_Dict
    [(''id'', Py_Str (hr_id r)), (''status'', Py_Str (hr_status r)), (''triggered_at'', Py_Str (isotime (hr_triggered_at r))),
     (''linked_issue'', py_of_opt (hr_linked_identifier r)), (''linked_issue_status'', py_of_opt (hr_linked_status r))]"

definition alert_value :: "(rat \<Rightarrow> string) \<Rightarrow> silent_alert \<Rightarrow> pyval" where
  "alert_value isotime a =
    (let r = sa_run a in Py_Dict
     [(''severity'', Py_Str (sa_severity a)), (''run_id'', Py_Str (hr_id r)), (''age_minutes'', Py_Num (round_tenth (sa_age a))),
      (''status'', Py_Str (hr_status r)), (''triggered_at'', Py_Str (isotime (hr_triggered_at r))),
      (''linked_issue'', py_of_opt (hr_linked_identifier r)), (''linked_issue_id'', py_of_opt (hr_linked_id r)),
      (''linked_issue_status'', py_of_opt (hr_linked_status r)), (''failure_reason'', py_of_opt (hr_failure_reason r))])"

definition snapshot_value :: "(rat \<Rightarrow> string) \<Rightarrow> health_snapshot \<Rightarrow> pyval" where
  "snapshot_value isotime s =
    (let stats = sn_stats s; agent = sn_agent s in Py_Dict
     [(''severity'', Py_Str (sn_severity s)), (''taken_at'', Py_Str (isotime (sn_taken_at s))),
      (''agent'', Py_Dict
        [(''id'', py_of_opt (ag_id agent)), (''name'', Py_Str (ag_name agent)), (''status'', Py_Str (ag_status agent)),
         (''last_heartbeat_at'', iso_value isotime (ag_last_heartbeat agent)), (''updated_at'', iso_value isotime (ag_updated agent)),
         (''org_chain_health'', py_of_opt (ag_chain_status agent)), (''org_chain_health_reason'', py_of_opt (ag_chain_reason agent))]),
      (''completion'', Py_Dict
        [(''count'', nat_value (cs_count stats)), (''failure_count'', nat_value (cs_failures stats)),
         (''p50_minutes'', num_value (cs_p50 stats)), (''p95_minutes'', num_value (cs_p95 stats)),
         (''max_minutes'', num_value (cs_max stats)), (''mean_minutes'', num_value (cs_mean stats))]),
      (''active_runs'', Py_List (map (active_run_value isotime) (sn_active_runs s))),
      (''silent_run_alerts'', Py_List (map (alert_value isotime) (sn_alerts s))),
      (''current_operation'', case sn_current s of None \<Rightarrow> Py_None | Some cur \<Rightarrow> Py_Dict
        [(''run_id'', Py_Str (hr_id cur)), (''linked_issue'', py_of_opt (hr_linked_identifier cur)),
         (''linked_issue_id'', py_of_opt (hr_linked_id cur)), (''linked_issue_title'', py_of_opt (hr_linked_title cur)),
         (''linked_issue_status'', py_of_opt (hr_linked_status cur)), (''status'', Py_Str (hr_status cur))]),
      (''runs_inspected'', nat_value (sn_inspected s))])"

definition snapshot_as_json :: "(pyval \<Rightarrow> string) \<Rightarrow> (rat \<Rightarrow> string) \<Rightarrow> health_snapshot \<Rightarrow> string" where
  "snapshot_as_json dumps isotime s = dumps (snapshot_value isotime s)"

section \<open>The exposition\<close>

definition or_zero :: "rat option \<Rightarrow> rat" where
  "or_zero x = (case x of None \<Rightarrow> 0 | Some v \<Rightarrow> v)"

text \<open>\<open>last_heartbeat or 0\<close>: the integer 0 is printed where there is no time or the time is 0.\<close>

definition heartbeat_value :: "(rat \<Rightarrow> string) \<Rightarrow> rat option \<Rightarrow> string" where
  "heartbeat_value show t = (if or_zero t = 0 then ''0'' else show (or_zero t))"

definition seconds_text :: "(rat \<Rightarrow> string) \<Rightarrow> rat option \<Rightarrow> string" where
  "seconds_text show x = (if or_zero x = 0 then ''0'' else show (or_zero x * 60))"

definition gauge_lines :: "string \<Rightarrow> string \<Rightarrow> string \<Rightarrow> string list" where
  "gauge_lines name help value =
    [''# HELP '' @ name @ '' '' @ help, ''# TYPE '' @ name @ '' gauge'', name @ '' '' @ value]"

definition completion_lines :: "(rat \<Rightarrow> string) \<Rightarrow> completion_stats \<Rightarrow> string list" where
  "completion_lines show stats =
    (if cs_count stats = 0 then []
     else
      [''# HELP ceo_heartbeat_completion_seconds CEO heartbeat run duration (completed runs).'',
       ''# TYPE ceo_heartbeat_completion_seconds summary'',
       ''ceo_heartbeat_completion_seconds{quantile=\"0.5\"} '' @ seconds_text show (cs_p50 stats),
       ''ceo_heartbeat_completion_seconds{quantile=\"0.95\"} '' @ seconds_text show (cs_p95 stats),
       ''ceo_heartbeat_completion_seconds{quantile=\"max\"} '' @ seconds_text show (cs_max stats),
       ''ceo_heartbeat_completion_seconds_count '' @ count_text (cs_count stats),
       ''ceo_heartbeat_completion_seconds_sum '' @ show (sum_list (cs_durations stats) * 60)])"

definition alert_gauge :: "silent_alert \<Rightarrow> string list" where
  "alert_gauge a =
    [''# HELP ceo_silent_run_age_minutes Age (minutes) of a silent CEO run.'',
     ''# TYPE ceo_silent_run_age_minutes gauge'',
     ''ceo_silent_run_age_minutes{severity=\"'' @ sa_severity a @ ''\",run_id=\"'' @ hr_id (sa_run a) @ ''\",linked_issue=\"''
       @ or_empty (hr_linked_identifier (sa_run a)) @ ''\"} '' @ fixed_text 1 (sa_age a)]"

definition exposition_lines :: "(rat \<Rightarrow> string) \<Rightarrow> health_snapshot \<Rightarrow> string list" where
  "exposition_lines show s =
    gauge_lines ''ceo_health_severity'' ''CEO heartbeat health severity (0=ok,1=warning,2=critical).''
      (int_text (severity_to_exit_code (sn_severity s)))
    @ gauge_lines ''ceo_last_heartbeat_timestamp_seconds'' (''Unix epoch of the CEO'' @ [CHR 0x27] @ ''s last heartbeat.'')
      (heartbeat_value show (ag_last_heartbeat (sn_agent s)))
    @ gauge_lines ''ceo_active_run_count'' ''In-flight CEO heartbeat runs right now.'' (count_text (length (sn_active_runs s)))
    @ gauge_lines ''ceo_silent_run_alert_count'' ''Silent CEO runs currently over threshold.'' (count_text (length (sn_alerts s)))
    @ completion_lines show (sn_stats s)
    @ concat (map alert_gauge (sn_alerts s))"

definition snapshot_as_prometheus :: "(rat \<Rightarrow> string) \<Rightarrow> health_snapshot \<Rightarrow> string" where
  "snapshot_as_prometheus show s = py_join NEWLINE (exposition_lines show s) @ NEWLINE"

end
