(* ===== verification/Agent_Liveness.thy ===== *)
theory Agent_Liveness
  imports Heartbeat_Monitor "HOL-Library.List_Lexorder" "HOL-Library.Char_ord" "HOL-Library.Product_Lexorder"
begin

text \<open>
  Model of \<open>tools/ops/agent_liveness/recovery.py\<close>: the chain of command and who recovers a stuck
  agent, the verdict on one run from its age and its linked issue, and the plan that follows from the
  verdict and the number of attempts made.
\<close>

section \<open>The chain of command\<close>

record agent_node =
  an_id :: string
  an_name :: string
  an_reports_to :: "string option"

type_synonym chain_of_command = "(string \<times> agent_node) list"

definition chain_from_agents :: "agent_node list \<Rightarrow> chain_of_command" where
  "chain_from_agents agents = fold (\<lambda>a. AList.update (an_id a) a) agents []"

definition chain_get :: "chain_of_command \<Rightarrow> string \<Rightarrow> agent_node option" where
  "chain_get chain agent_id = map_of chain agent_id"

definition manager_of :: "chain_of_command \<Rightarrow> string \<Rightarrow> agent_node option" where
  "manager_of chain agent_id =
    (case chain_get chain agent_id of None \<Rightarrow> None
     | Some node \<Rightarrow> (case an_reports_to node of None \<Rightarrow> None | Some boss \<Rightarrow> chain_get chain boss))"

definition resolve_recovery_owner :: "string \<Rightarrow> chain_of_command \<Rightarrow> string option \<Rightarrow> string option" where
  "resolve_recovery_owner stuck chain fallback =
    (case chain_get chain stuck of None \<Rightarrow> None
     | Some node \<Rightarrow>
         (case manager_of chain stuck of Some manager \<Rightarrow> Some (an_id manager)
          | None \<Rightarrow> if fallback \<noteq> None \<and> fallback \<noteq> Some stuck then fallback else None))"

section \<open>Verdicts\<close>

record liveness_thresholds =
  lt_suspicious :: rat
  lt_stuck :: rat
  lt_escalate :: rat
  lt_abort :: rat

definition DEFAULT_T_ESCALATE_MINUTES :: rat where "DEFAULT_T_ESCALATE_MINUTES = 30"

definition LivenessThresholds :: liveness_thresholds where
  "LivenessThresholds = \<lparr>lt_suspicious = 15, lt_stuck = 20, lt_escalate = DEFAULT_T_ESCALATE_MINUTES, lt_abort = 45\<rparr>"

definition DEFAULT_MAX_ATTEMPTS :: int where "DEFAULT_MAX_ATTEMPTS = 3"
definition DEFAULT_BACKOFF_SECONDS :: "int list" where "DEFAULT_BACKOFF_SECONDS = [30, 60, 120]"

datatype verdict = Healthy | Suspicious | Stuck | Abort

definition verdict_text :: "verdict \<Rightarrow> string" where
  "verdict_text v = (case v of Healthy \<Rightarrow> ''healthy'' | Suspicious \<Rightarrow> ''suspicious'' | Stuck \<Rightarrow> ''stuck'' | Abort \<Rightarrow> ''abort'')"

text \<open>Strings are UTF-8 bytes; the texts have an em dash.\<close>

definition EM_DASH :: string where "EM_DASH = [CHR 0xE2, CHR 0x80, CHR 0x94]"

record run_verdict =
  rv_verdict :: verdict
  rv_age :: rat
  rv_stuck_agent :: string
  rv_owner :: "string option"
  rv_linked_issue :: "string option"
  rv_reason :: string

definition classify_run :: "heartbeat_run \<Rightarrow> rat \<Rightarrow> string \<Rightarrow> chain_of_command \<Rightarrow> liveness_thresholds
    \<Rightarrow> bool \<Rightarrow> bool \<Rightarrow> bool \<Rightarrow> string option \<Rightarrow> run_verdict" where
  "classify_run run now stuck chain th terminal superseded missing fallback =
    (let owner = resolve_recovery_owner stuck chain fallback;
         result = (\<lambda>v age reason. \<lparr>rv_verdict = v, rv_age = age, rv_stuck_agent = stuck, rv_owner = owner,
           rv_linked_issue = hr_linked_id run, rv_reason = reason\<rparr>) in
     case age_minutes (Some (hr_triggered_at run)) now of
       None \<Rightarrow> result Healthy 0 (''run age unknown '' @ EM_DASH @ '' treating as healthy'')
     | Some age \<Rightarrow>
         if terminal then result Healthy age (''linked issue is terminal '' @ EM_DASH @ '' run is not stuck'')
         else if superseded then result Healthy age
           (''superseded by a newer non-coalesced base run '' @ EM_DASH @ '' agent moved on (FLO-419)'')
         else if missing then result Healthy age
           (''linked issue under a missing_disposition recovery (successful_run_missing_state) '' @ EM_DASH
             @ '' run succeeded, not stuck (FLO-771)'')
         else if age \<ge> lt_abort th then result Abort age
           (''age '' @ fixed_text 1 age @ ''m >= T_ABORT '' @ fixed_text 0 (lt_abort th) @ ''m '' @ EM_DASH @ '' stop automated retry'')
         else if age \<ge> lt_stuck th then result Stuck age
           (''age '' @ fixed_text 1 age @ ''m >= T_STUCK '' @ fixed_text 0 (lt_stuck th) @ ''m and linked issue active'')
         else if age \<ge> lt_suspicious th then result Suspicious age
           (''age '' @ fixed_text 1 age @ ''m in suspicious window '' @ EM_DASH @ '' watch'')
         else result Healthy age (''age '' @ fixed_text 1 age @ ''m within normal bounds''))"

section \<open>Plans\<close>

datatype recovery_action = Noop | Release_Restart | Escalate_Board

definition action_text :: "recovery_action \<Rightarrow> string" where
  "action_text a = (case a of Noop \<Rightarrow> ''noop'' | Release_Restart \<Rightarrow> ''release_restart'' | Escalate_Board \<Rightarrow> ''escalate_board'')"

record recovery_plan =
  rp_action :: recovery_action
  rp_remaining :: int
  rp_backoff :: "int option"
  rp_owner :: "string option"
  rp_reason :: string

definition backoff_delay :: "int list \<Rightarrow> int \<Rightarrow> int" where
  "backoff_delay backoff prior =
    (if prior \<le> 0 then 0
     else if backoff \<noteq> [] then backoff ! nat (min (prior - 1) (int (length backoff) - 1))
     else 0)"

definition plan_recovery :: "run_verdict \<Rightarrow> int \<Rightarrow> int \<Rightarrow> int list \<Rightarrow> rat \<Rightarrow> recovery_plan" where
  "plan_recovery v prior max_attempts backoff escalate =
    (if rv_verdict v \<in> {Healthy, Suspicious} then
       \<lparr>rp_action = Noop, rp_remaining = max 0 (max_attempts - prior), rp_backoff = None, rp_owner = rv_owner v,
        rp_reason = ''verdict '' @ verdict_text (rv_verdict v) @ '' '' @ EM_DASH @ '' no recovery action''\<rparr>
     else if rv_verdict v = Abort \<or> prior \<ge> max_attempts \<or> rv_age v \<ge> escalate then
       \<lparr>rp_action = Escalate_Board, rp_remaining = 0, rp_backoff = None, rp_owner = rv_owner v,
        rp_reason = ''escalate: verdict='' @ verdict_text (rv_verdict v) @ '' age='' @ fixed_text 1 (rv_age v) @ ''m attempts=''
          @ int_text prior @ ''/'' @ int_text max_attempts\<rparr>
     else let delay = backoff_delay backoff prior in
       \<lparr>rp_action = Release_Restart, rp_remaining = max 0 (max_attempts - prior - 1), rp_backoff = Some delay,
        rp_owner = rv_owner v, rp_reason = ''release+restart: attempt '' @ int_text (prior + 1) @ ''/'' @ int_text max_attempts
          @ '' backoff='' @ int_text delay @ ''s''\<rparr>)"

section \<open>The table of owners\<close>

definition owner_row :: "chain_of_command \<Rightarrow> string option \<Rightarrow> agent_node \<Rightarrow> string \<times> string \<times> string" where
  "owner_row chain fallback node =
    (let manager_name = (case manager_of chain (an_id node) of None \<Rightarrow> EM_DASH | Some m \<Rightarrow> an_name m);
         owner_id = resolve_recovery_owner (an_id node) chain fallback;
         owner = (if truthy owner_id then chain_get chain (the owner_id) else None) in
     (an_name node, manager_name,
      case owner of Some o1 \<Rightarrow> an_name o1 | None \<Rightarrow> if owner_id = None then ''board (no fallback)'' else EM_DASH))"

definition owner_row_key :: "string \<times> string \<times> string \<Rightarrow> bool \<times> string" where
  "owner_row_key row =
    (case row of (agent, manager, owner) \<Rightarrow> (manager = EM_DASH \<and> owner \<noteq> ''board (no fallback)'', agent))"

definition recovery_owner_table :: "chain_of_command \<Rightarrow> string option \<Rightarrow> (string \<times> string \<times> string) list" where
  "recovery_owner_table chain fallback = sort_key owner_row_key (map (owner_row chain fallback \<circ> snd) chain)"

end
