(* ===== verification/Liveness_Watchdog.thy ===== *)
theory Liveness_Watchdog
  imports Agent_Liveness
begin

text \<open>
  Model of \<open>tools/ops/agent_liveness/watchdog.py\<close>: one fire of the watchdog over its two ports, the
  reader and the recovery actions, with the clock and the sleep, then the test doubles and the
  adapters that read and act through the REST API.  A port call is a step of the state \<open>'w\<close> and
  may raise.  A raised error ends the fire unless the code catches it there.
\<close>

section \<open>Configuration, probes and ports\<close>

record watchdog_config =
  wc_watched_agent :: string
  wc_watched_routine :: "string option"
  wc_watched_name :: "string option"
  wc_fallback_owner :: "string option"
  wc_issue :: "string option"
  wc_project :: "string option"
  wc_goal :: "string option"
  wc_thresholds :: liveness_thresholds
  wc_max_attempts :: int
  wc_backoff :: "int list"
  wc_admit_wait :: rat

definition DEFAULT_ADMIT_WAIT_SECONDS :: rat where "DEFAULT_ADMIT_WAIT_SECONDS = 45"

record liveness_probe =
  lp_run :: "heartbeat_run option"
  lp_all_runs :: "heartbeat_run list"
  lp_chain :: chain_of_command
  lp_terminal :: bool
  lp_missing :: bool

record approval_request =
  ar_issue_ids :: "string list"
  ar_title :: string
  ar_summary :: string
  ar_recommended :: string
  ar_risks :: "string list"

record 'w watchdog_ports =
  pt_probe :: "('w, liveness_probe) io"
  pt_release :: "string \<Rightarrow> string \<Rightarrow> ('w, unit) io"
  pt_invoke :: "string \<Rightarrow> ('w, unit) io"
  pt_approve :: "approval_request \<Rightarrow> ('w, pyval) io"
  pt_comment :: "string \<Rightarrow> string \<Rightarrow> ('w, unit) io"
  pt_clock :: "('w, rat) io"
  pt_sleep :: "rat \<Rightarrow> 'w \<Rightarrow> 'w"

datatype outcome_action = Was_Noop | Was_Recovered | Was_Escalated | Was_Dry_Run

record watchdog_outcome =
  wo_action :: outcome_action
  wo_verdict :: "run_verdict option"
  wo_attempts :: int
  wo_recovered :: bool
  wo_comment :: string
  wo_audit :: "string list"

definition outcome :: "outcome_action \<Rightarrow> run_verdict option \<Rightarrow> int \<Rightarrow> bool \<Rightarrow> string \<Rightarrow> string list \<Rightarrow> watchdog_outcome" where
  "outcome action v attempts recovered body audit =
    \<lparr>wo_action = action, wo_verdict = v, wo_attempts = attempts, wo_recovered = recovered, wo_comment = body, wo_audit = audit\<rparr>"

lemma wo_action_outcome [simp]: "wo_action (outcome action v attempts recovered body audit) = action"
  by (simp add: outcome_def)

definition classify_probe :: "watchdog_config \<Rightarrow> rat \<Rightarrow> liveness_probe \<Rightarrow> run_verdict option" where
  "classify_probe cfg now p =
    (case lp_run p of None \<Rightarrow> None
     | Some run \<Rightarrow> Some (classify_run run now (wc_watched_agent cfg) (lp_chain p) (wc_thresholds cfg) (lp_terminal p)
         (is_superseded_by_newer_base_run run (lp_all_runs p)) (lp_missing p) (wc_fallback_owner cfg)))"

definition watchdog_plan :: "watchdog_config \<Rightarrow> run_verdict \<Rightarrow> int \<Rightarrow> recovery_plan" where
  "watchdog_plan cfg v attempts =
    plan_recovery v attempts (wc_max_attempts cfg) (wc_backoff cfg) (lt_escalate (wc_thresholds cfg))"

section \<open>Comment bodies\<close>

definition ARROW :: string where "ARROW = [CHR 0xE2, CHR 0x86, CHR 0x92]"
definition SECTION_MARK :: string where "SECTION_MARK = [CHR 0xC2, CHR 0xA7]"

definition opt_text :: "string option \<Rightarrow> string" where
  "opt_text x = (case x of None \<Rightarrow> ''None'' | Some s \<Rightarrow> s)"

definition ticked :: "string \<Rightarrow> string" where
  "ticked s = ''`'' @ s @ ''`''"

definition procedure_line :: "string \<Rightarrow> string" where
  "procedure_line step = ''- Procedure: `docs/operations/agent-liveness-recovery-runbook.md`'' @ step @ NEWLINE"

definition runner_line :: string where
  "runner_line = ''- Runner: `scripts/dev/agent-liveness-watchdog.py` ([FLO-968](/FLO/issues/FLO-968))''"

definition check_head :: "string \<Rightarrow> watchdog_config \<Rightarrow> string" where
  "check_head what cfg = ''## Liveness check '' @ EM_DASH @ '' '' @ what @ NEWLINE @ NEWLINE
     @ ''- Watched agent: '' @ ticked (wc_watched_agent cfg) @ NEWLINE"

definition comment_healthy_no_run :: "watchdog_config \<Rightarrow> string" where
  "comment_healthy_no_run cfg = check_head ''healthy'' cfg
     @ ''- No in-flight base run detected; nothing to recover.'' @ NEWLINE @ procedure_line [] @ runner_line"

definition comment_healthy :: "watchdog_config \<Rightarrow> run_verdict \<Rightarrow> string" where
  "comment_healthy cfg v = check_head ''healthy'' cfg @ ''- '' @ rv_reason v @ ''.'' @ NEWLINE @ procedure_line [] @ runner_line"

definition comment_watch :: "watchdog_config \<Rightarrow> run_verdict \<Rightarrow> string" where
  "comment_watch cfg v = check_head ''suspicious (watch)'' cfg
     @ ''- '' @ rv_reason v @ ''; no recovery action yet.'' @ NEWLINE
     @ ''- Linked issue: '' @ ticked (opt_text (rv_linked_issue v)) @ NEWLINE @ procedure_line [] @ runner_line"

definition comment_recovered :: "watchdog_config \<Rightarrow> run_verdict \<Rightarrow> string \<Rightarrow> int \<Rightarrow> rat \<Rightarrow> string" where
  "comment_recovered cfg v owner attempts age =
     ''## Watchdog recovered '' @ ticked (wc_watched_agent cfg) @ NEWLINE @ NEWLINE
     @ ''- Recovered run '' @ ticked (opt_text (rv_linked_issue v)) @ '' after ~'' @ fixed_text 0 age @ ''m via release+invoke ''
     @ ''(attempt '' @ int_text attempts @ ''/'' @ int_text (wc_max_attempts cfg) @ ''; owner='' @ ticked owner @ '').'' @ NEWLINE
     @ procedure_line ('' '' @ SECTION_MARK @ ''Step 3'') @ runner_line"

definition approval_id :: "pyval \<Rightarrow> string option" where
  "approval_id approval = (case approval of Py_Dict d \<Rightarrow> py_str_opt (py_get d ''id'') | _ \<Rightarrow> None)"

definition comment_escalate :: "watchdog_config \<Rightarrow> run_verdict \<Rightarrow> int \<Rightarrow> pyval \<Rightarrow> bool \<Rightarrow> string option \<Rightarrow> string" where
  "comment_escalate cfg v attempts approval forbidden extra =
     ''## Watchdog escalating '' @ ticked (wc_watched_agent cfg) @ '' to the board'' @ NEWLINE @ NEWLINE
     @ ''- Automation exhausted after '' @ int_text attempts @ ''/'' @ int_text (wc_max_attempts cfg) @ '' attempt(s); ''
     @ (if forbidden then ''release was forbidden (403)'' else ''recovery did not self-heal'')
     @ ''. Base run age '' @ fixed_text 1 (rv_age v) @ ''m; recovery owner='' @ ticked (opt_text (rv_owner v)) @ ''.'' @ NEWLINE
     @ ''- Linked issue: '' @ ticked (opt_text (rv_linked_issue v)) @ NEWLINE
     @ (if truthy (approval_id approval)
        then ''- Board approval: ['' @ the (approval_id approval) @ ''](/FLO/approvals/'' @ the (approval_id approval) @ '')''
        else ''- Board approval: (creation failed '' @ EM_DASH @ '' see audit)'') @ NEWLINE
     @ procedure_line ('' '' @ SECTION_MARK @ ''Step 4'') @ runner_line
     @ (if truthy extra then NEWLINE @ ''- '' @ the extra else [])"

definition comment_unknown_agent :: "watchdog_config \<Rightarrow> string" where
  "comment_unknown_agent cfg = ''## Liveness check '' @ EM_DASH @ '' misconfiguration'' @ NEWLINE @ NEWLINE
     @ ''- Watched agent '' @ ticked (wc_watched_agent cfg) @ '' is not in the chain of command; ''
     @ ''cannot resolve a recovery owner. No action taken.'' @ NEWLINE @ runner_line"

section \<open>Side effects whose failure is noted\<close>

text \<open>\<open>except RecoveryActionError\<close>: a forbidden release is one, too.\<close>

definition action_error_text :: "ops_error \<Rightarrow> string option" where
  "action_error_text e = (case e of Action_Error m \<Rightarrow> Some m | Release_Forbidden m \<Rightarrow> Some m | _ \<Rightarrow> None)"

definition post_noted :: "'w watchdog_ports \<Rightarrow> string option \<Rightarrow> string \<Rightarrow> string list \<Rightarrow> ('w, string list) io" where
  "post_noted P issue body audit w =
    (case issue of None \<Rightarrow> (Inr (audit @ [''(no watchdog issue id '' @ EM_DASH @ '' comment skipped)'']), w)
     | Some i \<Rightarrow>
         (case pt_comment P i body w of
            (Inr _, w1) \<Rightarrow> (Inr audit, w1)
          | (Inl e, w1) \<Rightarrow>
              (case action_error_text e of None \<Rightarrow> (Inl e, w1)
               | Some m \<Rightarrow> (Inr (audit @ [''warn: could not post comment: '' @ m]), w1))))"

definition approval_request_for :: "watchdog_config \<Rightarrow> run_verdict \<Rightarrow> int \<Rightarrow> string \<Rightarrow> approval_request" where
  "approval_request_for cfg v attempts reason =
    \<lparr>ar_issue_ids = map the (filter truthy [wc_issue cfg, rv_linked_issue v]),
     ar_title = ''[Liveness] '' @ wc_watched_agent cfg @ '' stuck run '' @ fixed_text 0 (rv_age v) @ ''m '' @ EM_DASH @ '' authorise recovery'',
     ar_summary = ''Automated recovery for watched agent '' @ ticked (wc_watched_agent cfg) @ '' could not self-heal after ''
       @ int_text attempts @ '' attempt(s): '' @ reason @ ''. Base run age '' @ fixed_text 1 (rv_age v)
       @ ''m; recovery owner resolved to '' @ ticked (opt_text (rv_owner v)) @ ''.'',
     ar_recommended = ''Authorise force-release / pause-resume of the stuck agent, then re-fire the watchdog.'',
     ar_risks = [''Force-releasing a senior agent'' @ [CHR 0x27] @ ''s checkout may interrupt in-flight work.'',
       ''Pause/resume has org-wide blast radius for a senior agent.'']\<rparr>"

definition escalate :: "'w watchdog_ports \<Rightarrow> watchdog_config \<Rightarrow> run_verdict \<Rightarrow> int \<Rightarrow> string \<Rightarrow> string list
    \<Rightarrow> ('w, pyval \<times> string list) io" where
  "escalate P cfg v attempts reason audit w =
    (case pt_approve P (approval_request_for cfg v attempts reason) w of
       (Inr approval, w1) \<Rightarrow>
         (Inr (case approval of
            Py_Dict d \<Rightarrow> (approval, audit @ [''opened board approval: '' @ opt_text (approval_id approval)])
          | _ \<Rightarrow> (Py_Dict [], audit @ [''opened board approval: ?''])), w1)
     | (Inl e, w1) \<Rightarrow>
         (case action_error_text e of None \<Rightarrow> (Inl e, w1)
          | Some m \<Rightarrow> (Inr (Py_Dict [], audit @ [''warn: could not open board approval: '' @ m]), w1)))"

text \<open>The approval, the comment and the outcome, as every escalating path has them.\<close>

definition escalate_and_end :: "'w watchdog_ports \<Rightarrow> watchdog_config \<Rightarrow> run_verdict \<Rightarrow> int \<Rightarrow> string \<Rightarrow> bool \<Rightarrow> string option
    \<Rightarrow> string list \<Rightarrow> ('w, watchdog_outcome) io" where
  "escalate_and_end P cfg v attempts reason forbidden extra audit =
    io_bind (escalate P cfg v attempts reason audit) (\<lambda>(approval, audit1).
      let body = comment_escalate cfg v attempts approval forbidden extra in
      io_bind (post_noted P (wc_issue cfg) body audit1) (\<lambda>audit2.
        io_return (outcome Was_Escalated (Some v) attempts False body audit2)))"

section \<open>The release and restart loop\<close>

datatype loop_end =
    Gave_Up int "string list"
  | Forbidden int "string list"
  | Recovered int "string list"

datatype attempt_end = Stop loop_end | Again run_verdict "string list"

definition sleep_step :: "'w watchdog_ports \<Rightarrow> rat \<Rightarrow> ('w, unit) io" where
  "sleep_step P seconds w = (Inr (), pt_sleep P seconds w)"

text \<open>The release: whether it was forbidden, and the audit.\<close>

definition release_step :: "'w watchdog_ports \<Rightarrow> string option \<Rightarrow> string \<Rightarrow> string list \<Rightarrow> ('w, bool \<times> string list) io" where
  "release_step P linked owner audit w =
    (case linked of None \<Rightarrow> (Inr (False, audit @ [''no linked issue to release '' @ EM_DASH @ '' skipping release, invoking only'']), w)
     | Some i \<Rightarrow>
         (case pt_release P i owner w of
            (Inr _, w1) \<Rightarrow> (Inr (False, audit @ [''released issue '' @ i @ '' (owner='' @ owner @ '')'']), w1)
          | (Inl (Release_Forbidden m), w1) \<Rightarrow>
              (Inr (True, audit @ [''release forbidden (403): '' @ m @ '' '' @ EM_DASH @ '' escalating'']), w1)
          | (Inl e, w1) \<Rightarrow> (Inl e, w1)))"

definition redetect :: "'w watchdog_ports \<Rightarrow> watchdog_config \<Rightarrow> int \<Rightarrow> run_verdict \<Rightarrow> string list \<Rightarrow> ('w, attempt_end) io" where
  "redetect P cfg attempts current audit =
    io_bind (pt_probe P) (\<lambda>p. io_bind (pt_clock P) (\<lambda>now.
      io_return
        (if lp_run p = None \<or> lp_terminal p then
           Stop (Recovered attempts (audit @ [''recovered on attempt '' @ int_text attempts @ '': run cleared / linked issue terminal'']))
         else case classify_probe cfg now p of
           None \<Rightarrow> Again current audit
         | Some v \<Rightarrow>
             if rv_verdict v = Healthy \<or> is_superseded_by_newer_base_run (the (lp_run p)) (lp_all_runs p) then
               Stop (Recovered attempts (audit @ [''recovered on attempt '' @ int_text attempts @ '': fresh healthy run admitted'']))
             else Again v (audit @ [''attempt '' @ int_text attempts @ '' did not recover '' @ EM_DASH @ '' verdict='' @ verdict_text (rv_verdict v)]))))"

text \<open>One pass of the loop body after the plan; \<open>attempts\<close> already counts this attempt.\<close>

definition attempt_once :: "'w watchdog_ports \<Rightarrow> watchdog_config \<Rightarrow> string \<Rightarrow> string option \<Rightarrow> int \<Rightarrow> run_verdict \<Rightarrow> string list
    \<Rightarrow> ('w, attempt_end) io" where
  "attempt_once P cfg owner linked attempts current audit =
    io_bind (release_step P linked owner audit) (\<lambda>(forbidden, audit1).
      if forbidden then io_return (Stop (Forbidden attempts audit1))
      else io_bind (pt_invoke P (wc_watched_agent cfg)) (\<lambda>_.
        io_bind (sleep_step P (wc_admit_wait cfg)) (\<lambda>_.
          redetect P cfg attempts current (audit1 @ [''invoked heartbeat for '' @ wc_watched_agent cfg]))))"

definition backoff_step :: "'w watchdog_ports \<Rightarrow> recovery_plan \<Rightarrow> int \<Rightarrow> string list \<Rightarrow> ('w, string list) io" where
  "backoff_step P plan attempts audit =
    (case rp_backoff plan of
       None \<Rightarrow> io_return audit
     | Some s \<Rightarrow>
         if s = 0 then io_return audit
         else io_bind (sleep_step P (of_int s)) (\<lambda>_.
           io_return (audit @ [''backoff '' @ int_text s @ ''s before attempt '' @ int_text (attempts + 1)])))"

lemma restart_plan:
  assumes "rp_action (watchdog_plan cfg v attempts) = Release_Restart"
  shows "attempts < wc_max_attempts cfg" "rv_verdict v = Stuck" "rv_age v < lt_escalate (wc_thresholds cfg)"
  using assms by (cases "rv_verdict v"; auto simp: watchdog_plan_def plan_recovery_def Let_def split: if_splits)+

function restart_loop :: "'w watchdog_ports \<Rightarrow> watchdog_config \<Rightarrow> string \<Rightarrow> string option \<Rightarrow> int \<Rightarrow> run_verdict \<Rightarrow> string list
    \<Rightarrow> ('w, loop_end) io" where
  "restart_loop P cfg owner linked attempts current audit =
    (let plan = watchdog_plan cfg current attempts in
     if rp_action plan \<noteq> Release_Restart then io_return (Gave_Up attempts (audit @ [''stop retrying: '' @ rp_reason plan]))
     else io_bind (backoff_step P plan attempts audit) (\<lambda>audit1.
       io_bind (attempt_once P cfg owner linked (attempts + 1) current audit1) (\<lambda>res.
         case res of Stop e \<Rightarrow> io_return e
         | Again v audit2 \<Rightarrow> restart_loop P cfg owner linked (attempts + 1) v audit2)))"
  by pat_completeness auto
termination
  by (relation "measure (\<lambda>(P, cfg, owner, linked, attempts, current, audit). nat (wc_max_attempts cfg - attempts))")
    (auto dest: restart_plan)

declare restart_loop.simps [simp del]

text \<open>What follows the loop, and both together.\<close>

definition finish_loop :: "'w watchdog_ports \<Rightarrow> watchdog_config \<Rightarrow> run_verdict \<Rightarrow> string \<Rightarrow> loop_end \<Rightarrow> ('w, watchdog_outcome) io" where
  "finish_loop P cfg v owner res =
    (case res of
       Recovered attempts audit1 \<Rightarrow>
         let body = comment_recovered cfg v owner attempts (rv_age v) in
         io_bind (post_noted P (wc_issue cfg) body audit1) (\<lambda>audit2.
           io_return (outcome Was_Recovered (Some v) attempts True body audit2))
     | Forbidden attempts audit1 \<Rightarrow>
         escalate_and_end P cfg v attempts ''release forbidden (403)'' True None audit1
     | Gave_Up attempts audit1 \<Rightarrow>
         escalate_and_end P cfg v attempts
           (''exhausted '' @ int_text attempts @ ''/'' @ int_text (wc_max_attempts cfg) @ '' attempts'') False None audit1)"

definition release_restart_loop :: "'w watchdog_ports \<Rightarrow> watchdog_config \<Rightarrow> run_verdict \<Rightarrow> string \<Rightarrow> string option \<Rightarrow> int \<Rightarrow> string list
    \<Rightarrow> ('w, watchdog_outcome) io" where
  "release_restart_loop P cfg v owner linked prior audit =
    io_bind (restart_loop P cfg owner linked prior v audit) (finish_loop P cfg v owner)"

section \<open>One fire\<close>

definition finish_dry_run :: "watchdog_config \<Rightarrow> run_verdict option \<Rightarrow> string list \<Rightarrow> watchdog_outcome" where
  "finish_dry_run cfg v audit =
    outcome Was_Dry_Run v 0 False []
      (audit @ [case v of None \<Rightarrow> ''dry-run: no in-flight base run '' @ EM_DASH @ '' would NOOP''
        | Some v1 \<Rightarrow>
            let plan = plan_recovery v1 0 (wc_max_attempts cfg) (wc_backoff cfg) DEFAULT_T_ESCALATE_MINUTES in
            ''dry-run: verdict='' @ verdict_text (rv_verdict v1) @ '' age='' @ fixed_text 1 (rv_age v1) @ ''m '' @ ARROW
              @ '' would '' @ action_text (rp_action plan) @ '' ('' @ rp_reason plan @ '')''])"

definition repr_opt :: "string option \<Rightarrow> string" where
  "repr_opt x = (case x of None \<Rightarrow> ''None'' | Some s \<Rightarrow> [CHR 0x27] @ s @ [CHR 0x27])"

definition act_on_verdict :: "'w watchdog_ports \<Rightarrow> watchdog_config \<Rightarrow> int \<Rightarrow> run_verdict \<Rightarrow> string list
    \<Rightarrow> ('w, watchdog_outcome) io" where
  "act_on_verdict P cfg prior v audit0 =
    (let plan = watchdog_plan cfg v prior;
         audit = audit0 @ [''verdict='' @ verdict_text (rv_verdict v) @ '' age='' @ fixed_text 1 (rv_age v) @ ''m '' @ ARROW @ '' ''
           @ action_text (rp_action plan) @ '' ('' @ rp_reason plan @ '')''] in
     case rp_action plan of
       Noop \<Rightarrow>
         if rv_verdict v = Suspicious then
           let body = comment_watch cfg v in
           io_bind (post_noted P (wc_issue cfg) body audit) (\<lambda>audit1. io_return (outcome Was_Noop (Some v) 0 False body audit1))
         else io_return (outcome Was_Noop (Some v) 0 False (comment_healthy cfg v) audit)
     | Escalate_Board \<Rightarrow> escalate_and_end P cfg v 0 (rp_reason plan) False None audit
     | Release_Restart \<Rightarrow>
         if rv_owner v = None \<or> rv_owner v = Some (wc_watched_agent cfg) then
           escalate_and_end P cfg v 0 ''no safe recovery owner'' False (Some ''recovery owner could not be resolved safely'')
             (audit @ [''recovery owner resolved to '' @ repr_opt (rv_owner v) @ '' (stuck='' @ wc_watched_agent cfg @ '') '' @ EM_DASH
               @ '' unsafe; escalating instead of recovering''])
         else release_restart_loop P cfg v (the (rv_owner v)) (rv_linked_issue v) prior audit)"

definition run_watchdog :: "'w watchdog_ports \<Rightarrow> watchdog_config \<Rightarrow> int \<Rightarrow> bool \<Rightarrow> ('w, watchdog_outcome) io" where
  "run_watchdog P cfg prior dry_run =
    io_bind (pt_clock P) (\<lambda>now. io_bind (pt_probe P) (\<lambda>p.
      if chain_get (lp_chain p) (wc_watched_agent cfg) = None then
        io_return (outcome Was_Noop None 0 False (comment_unknown_agent cfg)
          [''unknown watched agent '' @ wc_watched_agent cfg @ ''; cannot resolve chain''])
      else let v = classify_probe cfg now p in
        if dry_run then io_return (finish_dry_run cfg v [])
        else case v of
          None \<Rightarrow> io_return (outcome Was_Noop None 0 False (comment_healthy_no_run cfg) [''no in-flight base run '' @ EM_DASH @ '' healthy''])
        | Some v1 \<Rightarrow> act_on_verdict P cfg prior v1 []))"

section \<open>The test doubles\<close>

record scripted_world =
  sw_probes :: "liveness_probe list"
  sw_next :: nat
  sw_releases :: "(string \<times> string) list"
  sw_invokes :: "string list"
  sw_approvals :: "pydict list"
  sw_comments :: "(string \<times> string) list"
  sw_forbid_release :: bool
  sw_now :: rat

definition scripted_probe :: "(scripted_world, liveness_probe) io" where
  "scripted_probe w =
    (if sw_next w < length (sw_probes w) then (Inr (sw_probes w ! sw_next w), w \<lparr>sw_next := sw_next w + 1\<rparr>)
     else if sw_probes w = [] then (Inl (Other_Error ''list index out of range''), w)
     else (Inr (last (sw_probes w)), w))"

definition recording_release :: "string \<Rightarrow> string \<Rightarrow> (scripted_world, unit) io" where
  "recording_release issue owner w =
    (if sw_forbid_release w then (Inl (Release_Forbidden (''release '' @ issue @ '' -> HTTP 403 (forced)'')), w)
     else (Inr (), w \<lparr>sw_releases := sw_releases w @ [(issue, owner)]\<rparr>))"

definition recording_invoke :: "string \<Rightarrow> (scripted_world, unit) io" where
  "recording_invoke agent w = (Inr (), w \<lparr>sw_invokes := sw_invokes w @ [agent]\<rparr>)"

definition recording_approval :: "string \<Rightarrow> approval_request \<Rightarrow> (scripted_world, pyval) io" where
  "recording_approval next_id rq w =
    (let approval = [(''id'', Py_Str next_id), (''title'', Py_Str (ar_title rq)), (''issueIds'', Py_List (map Py_Str (ar_issue_ids rq)))] in
     (Inr (Py_Dict approval), w \<lparr>sw_approvals := sw_approvals w @ [approval]\<rparr>))"

definition recording_comment :: "string \<Rightarrow> string \<Rightarrow> (scripted_world, unit) io" where
  "recording_comment issue body w = (Inr (), w \<lparr>sw_comments := sw_comments w @ [(issue, body)]\<rparr>)"

definition scripted_ports :: "scripted_world watchdog_ports" where
  "scripted_ports =
    \<lparr>pt_probe = scripted_probe, pt_release = recording_release, pt_invoke = recording_invoke,
     pt_approve = recording_approval ''approval-test'', pt_comment = recording_comment,
     pt_clock = (\<lambda>w. (Inr (sw_now w), w)), pt_sleep = (\<lambda>_ w. w)\<rparr>"

section \<open>The REST adapters\<close>

text \<open>Times: every Z becomes an offset.\<close>

definition parse_iso8601 :: "(string \<Rightarrow> rat option) \<Rightarrow> string option \<Rightarrow> rat option" where
  "parse_iso8601 fromiso value =
    (if \<not> truthy value then None
     else let s = concat (map (\<lambda>c. if c = CHR ''Z'' then ''+00:00'' else [c]) (py_strip (the value))) in
       if s = [] then None else fromiso s)"

definition STALE_RUN_ORIGIN_KIND :: string where "STALE_RUN_ORIGIN_KIND = ''stale_active_run_evaluation''"

text \<open>The search for \<open>Started at:\s*([^\n\r]+)\<close> without case.  Where only white space is left the
  last step of the white space is given back to the group, if it is no line end, and \<open>strip\<close> leaves
  nothing of it.\<close>

definition lower_char :: "char \<Rightarrow> char" where
  "lower_char c = (let n = (of_char c :: nat) in if 65 \<le> n \<and> n \<le> 90 then char_of (n + 32) else c)"

definition line_end :: "char \<Rightarrow> bool" where
  "line_end c \<longleftrightarrow> c = CHR 0x0A \<or> c = CHR 0x0D"

definition started_group :: "string \<Rightarrow> string option" where
  "started_group rest =
    (let later = dropWhile py_space rest in
     if later \<noteq> [] then Some (py_strip (takeWhile (\<lambda>c. \<not> line_end c) later))
     else if list_ex (\<lambda>c. \<not> line_end c) rest then Some []
     else None)"

fun search_started_at :: "string \<Rightarrow> string option" where
  "search_started_at [] = None"
| "search_started_at (c # cs) =
     (if prefix ''started at:'' (map lower_char (c # cs)) \<and> started_group (drop 11 (c # cs)) \<noteq> None
      then started_group (drop 11 (c # cs))
      else search_started_at cs)"

definition parse_started_at :: "string option \<Rightarrow> string option" where
  "parse_started_at description = (if truthy description then search_started_at (the description) else None)"

record liveness_reader =
  lr_api_url :: string
  lr_api_key :: string
  lr_company_id :: string
  lr_watched_routine :: "string option"
  lr_watched_name :: "string option"
  lr_run_limit :: int

datatype reader_error = No_Detection_Input

definition new_reader :: "liveness_reader \<Rightarrow> reader_error + liveness_reader" where
  "new_reader lr = (if \<not> truthy (lr_watched_routine lr) \<and> \<not> truthy (lr_watched_name lr) then Inl No_Detection_Input else Inr lr)"

definition reader_get :: "'w http_server \<Rightarrow> liveness_reader \<Rightarrow> string \<Rightarrow> ('w, pyval) io" where
  "reader_get send lr path = api_get Action_Error send (lr_api_url lr) (lr_api_key lr) path"

definition agent_node_of :: "(pyval \<Rightarrow> string) \<Rightarrow> pydict \<Rightarrow> agent_node option" where
  "agent_node_of show a =
    (if \<not> truthy (py_str_opt (py_get a ''id'')) then None
     else Some \<lparr>an_id = the (py_str_opt (py_get a ''id'')),
       an_name = py_text show (py_or (py_get a ''name'') (py_or (py_get a ''shortName'') (py_get a ''id''))),
       an_reports_to = py_str_opt (py_get a ''reportsTo'')\<rparr>)"

definition fetch_chain :: "(pyval \<Rightarrow> string) \<Rightarrow> 'w http_server \<Rightarrow> liveness_reader \<Rightarrow> ('w, chain_of_command) io" where
  "fetch_chain show send lr =
    io_bind (reader_get send lr (''/api/companies/'' @ lr_company_id lr @ ''/agents'')) (\<lambda>payload.
      io_return (chain_from_agents (List.map_filter (agent_node_of show) (dict_items (list_items payload)))))"

definition reader_runs :: "(pyval \<Rightarrow> string) \<Rightarrow> (string \<Rightarrow> rat option) \<Rightarrow> 'w http_server \<Rightarrow> liveness_reader
    \<Rightarrow> ('w, heartbeat_run list) io" where
  "reader_runs show fromiso send lr =
    io_bind (reader_get send lr (runs_path (or_empty (lr_watched_routine lr)) (lr_run_limit lr))) (\<lambda>payload.
      io_return (runs_of show (\<lambda>v. parse_iso8601 fromiso (py_str_opt v)) payload))"

definition issue_flags :: "pyval \<Rightarrow> bool \<times> bool" where
  "issue_flags payload =
    (case payload of
       Py_Dict issue \<Rightarrow>
         (py_get issue ''status'' \<in> set (map Py_Str TERMINAL_ISSUE_STATUSES),
          case py_get issue ''activeRecoveryAction'' of
            Py_Dict action \<Rightarrow> py_get action ''kind'' = Py_Str ''missing_disposition''
              \<and> py_get action ''cause'' = Py_Str ''successful_run_missing_state''
          | _ \<Rightarrow> False)
     | _ \<Rightarrow> (False, False))"

definition linked_flags :: "'w http_server \<Rightarrow> liveness_reader \<Rightarrow> string option \<Rightarrow> ('w, bool \<times> bool) io" where
  "linked_flags send lr linked =
    (if \<not> truthy linked then io_return (False, False)
     else io_bind (reader_get send lr (''/api/issues/'' @ the linked)) (\<lambda>payload. io_return (issue_flags payload)))"

definition created_at :: "pydict \<Rightarrow> string" where
  "created_at issue = or_empty (py_str_opt (py_get issue ''createdAt''))"

fun newest_issue :: "pydict \<Rightarrow> pydict list \<Rightarrow> pydict" where
  "newest_issue best [] = best"
| "newest_issue best (i # is) = newest_issue (if created_at best < created_at i then i else best) is"

definition stale_run_issue :: "pydict \<Rightarrow> bool" where
  "stale_run_issue i \<longleftrightarrow> py_get i ''status'' \<notin> set (map Py_Str TERMINAL_ISSUE_STATUSES)
     \<and> py_get i ''originKind'' = Py_Str STALE_RUN_ORIGIN_KIND"

definition stale_run_of :: "(pyval \<Rightarrow> string) \<Rightarrow> (string \<Rightarrow> rat option) \<Rightarrow> pydict \<Rightarrow> heartbeat_run" where
  "stale_run_of show fromiso review =
    \<lparr>hr_id = py_text show (py_or (py_or (py_get review ''originRunId'') (py_get review ''originId'')) (Py_Str ''unknown'')),
     hr_status = ''running'',
     hr_triggered_at = (case parse_iso8601 fromiso (parse_started_at (py_str_opt (py_get review ''description''))) of
       None \<Rightarrow> 0 | Some t \<Rightarrow> t),
     hr_completed_at = None, hr_linked_id = py_str_opt (py_get review ''parentId''),
     hr_linked_identifier = None, hr_linked_title = None, hr_linked_status = None,
     hr_coalesced_into = None, hr_failure_reason = None\<rparr>"

definition fetch_stale_run_issue :: "(pyval \<Rightarrow> string) \<Rightarrow> (string \<Rightarrow> rat option) \<Rightarrow> 'w http_server \<Rightarrow> liveness_reader
    \<Rightarrow> ('w, heartbeat_run option) io" where
  "fetch_stale_run_issue show fromiso send lr =
    io_bind (reader_get send lr (search_path (lr_company_id lr) (''Review silent active run for '' @ opt_text (lr_watched_name lr))))
      (\<lambda>payload. io_return
        (case filter stale_run_issue (dict_items (issues_of [''items'', ''issues''] payload)) of
           [] \<Rightarrow> None
         | i # is \<Rightarrow> Some (stale_run_of show fromiso (newest_issue i is))))"

definition is_base_run :: "heartbeat_run \<Rightarrow> bool" where
  "is_base_run r \<longleftrightarrow> \<not> truthy (hr_coalesced_into r)"

definition reader_probe :: "(pyval \<Rightarrow> string) \<Rightarrow> (string \<Rightarrow> rat option) \<Rightarrow> 'w http_server \<Rightarrow> liveness_reader
    \<Rightarrow> ('w, liveness_probe) io" where
  "reader_probe show fromiso send lr =
    io_bind (fetch_chain show send lr) (\<lambda>chain.
      io_bind
        (if truthy (lr_watched_routine lr) then
           io_bind (reader_runs show fromiso send lr) (\<lambda>runs. io_return (latest_of (filter is_base_run runs), runs))
         else
           io_bind (fetch_stale_run_issue show fromiso send lr) (\<lambda>latest.
             io_return (latest, case latest of None \<Rightarrow> [] | Some r \<Rightarrow> [r])))
        (\<lambda>(latest, runs).
          io_bind (linked_flags send lr (case latest of None \<Rightarrow> None | Some r \<Rightarrow> hr_linked_id r)) (\<lambda>(terminal, missing).
            io_return \<lparr>lp_run = latest, lp_all_runs = runs, lp_chain = chain, lp_terminal = terminal, lp_missing = missing\<rparr>)))"

record recovery_client =
  rc_api_url :: string
  rc_api_key :: string
  rc_company_id :: string
  rc_run_id :: "string option"

definition client_post :: "'w http_server \<Rightarrow> recovery_client \<Rightarrow> string \<Rightarrow> pydict \<Rightarrow> ('w, pyval) io" where
  "client_post send rc path body =
    api_post Action_Error send (rc_api_url rc)
      (json_headers (rc_api_key rc) @ (if truthy (rc_run_id rc) then [(''X-Paperclip-Run-Id'', the (rc_run_id rc))] else []))
      path body"

definition client_release :: "'w http_server \<Rightarrow> recovery_client \<Rightarrow> string \<Rightarrow> string \<Rightarrow> ('w, unit) io" where
  "client_release send rc issue owner w =
    (case client_post send rc (''/api/issues/'' @ issue @ ''/release'') [(''agentId'', Py_Str owner)] w of
       (Inr _, w1) \<Rightarrow> (Inr (), w1)
     | (Inl e, w1) \<Rightarrow>
         (Inl (case action_error_text e of None \<Rightarrow> e
           | Some m \<Rightarrow> if contains_text ''HTTP 401'' m \<or> contains_text ''HTTP 403'' m then Release_Forbidden m else e), w1))"

definition client_invoke :: "'w http_server \<Rightarrow> recovery_client \<Rightarrow> string \<Rightarrow> ('w, unit) io" where
  "client_invoke send rc agent =
    io_bind (client_post send rc (''/api/agents/'' @ agent @ ''/heartbeat/invoke'') []) (\<lambda>_. io_return ())"

definition client_approval :: "'w http_server \<Rightarrow> recovery_client \<Rightarrow> approval_request \<Rightarrow> ('w, pyval) io" where
  "client_approval send rc rq =
    io_bind (client_post send rc (''/api/companies/'' @ rc_company_id rc @ ''/approvals'')
      [(''type'', Py_Str ''request_board_approval''), (''issueIds'', Py_List (map Py_Str (ar_issue_ids rq))),
       (''payload'', Py_Dict [(''title'', Py_Str (ar_title rq)), (''summary'', Py_Str (ar_summary rq)),
          (''recommendedAction'', Py_Str (ar_recommended rq)), (''risks'', Py_List (map Py_Str (ar_risks rq)))])])
      (\<lambda>result. io_return (case result of Py_Dict d \<Rightarrow> result | _ \<Rightarrow> Py_Dict []))"

definition client_comment :: "'w http_server \<Rightarrow> recovery_client \<Rightarrow> string \<Rightarrow> string \<Rightarrow> ('w, unit) io" where
  "client_comment send rc issue body =
    io_bind (client_post send rc (''/api/issues/'' @ issue @ ''/comments'') [(''comment'', Py_Str body)]) (\<lambda>_. io_return ())"

definition rest_ports :: "(pyval \<Rightarrow> string) \<Rightarrow> (string \<Rightarrow> rat option) \<Rightarrow> 'w http_server \<Rightarrow> liveness_reader \<Rightarrow> recovery_client
    \<Rightarrow> ('w \<Rightarrow> rat) \<Rightarrow> (rat \<Rightarrow> 'w \<Rightarrow> 'w) \<Rightarrow> 'w watchdog_ports" where
  "rest_ports show fromiso send lr rc now sleep =
    \<lparr>pt_probe = reader_probe show fromiso send lr, pt_release = client_release send rc, pt_invoke = client_invoke send rc,
     pt_approve = client_approval send rc, pt_comment = client_comment send rc,
     pt_clock = (\<lambda>w. (Inr (now w), w)), pt_sleep = sleep\<rparr>"

end
