(* ===== verification/Timeout_Watchdog.thy ===== *)
theory Timeout_Watchdog
  imports Heartbeat_Monitor
begin

text \<open>
  Model of \<open>scripts/dev/ceo-heartbeat-watchdog.py\<close>: the timeout policy of the manifest, the open
  execution leases read from the activity log, and the enforcement pass that terminates a process
  for each lease over the timeout.  The control plane is \<open>send\<close>, as for the monitor; the process
  table, signals, shell commands, clock and sleep are the record \<open>process_ports\<close>.  Lines printed on
  the console are left out.
\<close>

section \<open>The policy\<close>

datatype manifest_value =
    M_Null
  | M_Bool bool
  | M_Int int
  | M_Float rat
  | M_Str string
  | M_List "manifest_value list"
  | M_Dict "(string \<times> manifest_value) list"

type_synonym manifest_dict = "(string \<times> manifest_value) list"

datatype policy_error =
    Is_Boolean string
  | Not_Integer string
  | Out_Of_Bounds string int
  | Bad_Grace
  | Negative_Grace int
  | Bad_Role

definition DEFAULT_TIMEOUT_SECONDS :: int where "DEFAULT_TIMEOUT_SECONDS = 720"
definition DEFAULT_KILL_GRACE_SECONDS :: int where "DEFAULT_KILL_GRACE_SECONDS = 60"
definition MIN_TIMEOUT_SECONDS :: int where "MIN_TIMEOUT_SECONDS = 60"
definition MAX_TIMEOUT_SECONDS :: int where "MAX_TIMEOUT_SECONDS = 3600"

definition manifest_company :: "manifest_dict \<Rightarrow> manifest_dict" where
  "manifest_company manifest = (case map_of manifest ''company'' of Some (M_Dict d) \<Rightarrow> d | _ \<Rightarrow> [])"

definition heartbeat_config :: "manifest_dict \<Rightarrow> manifest_dict" where
  "heartbeat_config manifest =
    (case map_of (manifest_company manifest) ''heartbeatConfig'' of Some (M_Dict d) \<Rightarrow> d | _ \<Rightarrow> [])"

definition coerce_timeout_seconds :: "manifest_value \<Rightarrow> string \<Rightarrow> policy_error + int" where
  "coerce_timeout_seconds value context =
    (case value of
       M_Bool _ \<Rightarrow> Inl (Is_Boolean context)
     | M_Int seconds \<Rightarrow>
         if seconds < MIN_TIMEOUT_SECONDS \<or> seconds > MAX_TIMEOUT_SECONDS then Inl (Out_Of_Bounds context seconds) else Inr seconds
     | _ \<Rightarrow> Inl (Not_Integer context))"

definition heartbeat_timeout_seconds :: "manifest_dict \<Rightarrow> policy_error + int" where
  "heartbeat_timeout_seconds manifest =
    (case map_of (heartbeat_config manifest) ''timeoutSeconds'' of
       Some v \<Rightarrow> coerce_timeout_seconds v ''heartbeatConfig.timeoutSeconds''
     | None \<Rightarrow>
         (let company = manifest_company manifest in
          case map_of company ''heartbeatTimeoutSeconds'' of
            Some v \<Rightarrow> coerce_timeout_seconds v ''company.heartbeatTimeoutSeconds''
          | None \<Rightarrow>
              (case map_of company ''heartbeat_timeout_seconds'' of
                 Some v \<Rightarrow> coerce_timeout_seconds v ''company.heartbeat_timeout_seconds''
               | None \<Rightarrow> coerce_timeout_seconds (M_Int DEFAULT_TIMEOUT_SECONDS) ''default'')))"

text \<open>\<open>int(raw)\<close> on a manifest value.\<close>

definition manifest_int :: "manifest_value \<Rightarrow> string + int" where
  "manifest_int v =
    (case v of M_Int n \<Rightarrow> Inr n | M_Float r \<Rightarrow> py_int (Py_Num r) | M_Bool b \<Rightarrow> py_int (Py_Bool b) | M_Str s \<Rightarrow> py_int (Py_Str s)
     | _ \<Rightarrow> Inl ''TypeError'')"

definition heartbeat_grace_seconds :: "manifest_dict \<Rightarrow> policy_error + int" where
  "heartbeat_grace_seconds manifest =
    (case manifest_int (case map_of (heartbeat_config manifest) ''graceSeconds'' of None \<Rightarrow> M_Int DEFAULT_KILL_GRACE_SECONDS | Some v \<Rightarrow> v) of
       Inl _ \<Rightarrow> Inl Bad_Grace
     | Inr seconds \<Rightarrow> if seconds < 0 then Inl (Negative_Grace seconds) else Inr seconds)"

definition heartbeat_agent_role :: "manifest_dict \<Rightarrow> policy_error + string" where
  "heartbeat_agent_role manifest =
    (case map_of (heartbeat_config manifest) ''agent'' of
       None \<Rightarrow> Inr ''ceo''
     | Some (M_Str role) \<Rightarrow> if py_strip role = [] then Inl Bad_Role else Inr role
     | Some _ \<Rightarrow> Inl Bad_Role)"

section \<open>Runs\<close>

definition parse_iso8601_utc :: "(string \<Rightarrow> rat option) \<Rightarrow> pyval \<Rightarrow> rat option" where
  "parse_iso8601_utc fromiso value =
    (case value of
       Py_Str s \<Rightarrow> (let t = py_strip s in if t = [] then None else fromiso (replace_char (CHR ''Z'') ''+00:00'' t))
     | _ \<Rightarrow> None)"

definition run_age_seconds :: "(string \<Rightarrow> rat option) \<Rightarrow> pydict \<Rightarrow> rat \<Rightarrow> rat option" where
  "run_age_seconds fromiso run now =
    (case parse_iso8601_utc fromiso (py_or (py_get run ''triggeredAt'') (py_get run ''startedAt'')) of
       None \<Rightarrow> None | Some started \<Rightarrow> Some (max 0 (now - started)))"

definition ROUTINE_TERMINAL_STATUSES :: "string list" where
  "ROUTINE_TERMINAL_STATUSES = [''coalesced'', ''completed'', ''succeeded'', ''failed'', ''cancelled'', ''error'', ''done'', ''issue_created'']"

definition lower_ascii :: "string \<Rightarrow> string" where
  "lower_ascii s = map (\<lambda>c. let n = (of_char c :: nat) in if 65 \<le> n \<and> n \<le> 90 then char_of (n + 32) else c) s"

definition is_run_active :: "pydict \<Rightarrow> bool" where
  "is_run_active run =
    (if py_true (py_get run ''completedAt'') then False
     else let status = lower_ascii (or_empty (py_str_opt (py_get run ''status''))) in
       status = [] \<or> status \<notin> set ROUTINE_TERMINAL_STATUSES)"

definition is_run_timed_out :: "(string \<Rightarrow> rat option) \<Rightarrow> pydict \<Rightarrow> rat \<Rightarrow> int \<Rightarrow> bool" where
  "is_run_timed_out fromiso run now timeout =
    (if \<not> is_run_active run then False
     else case run_age_seconds fromiso run now of None \<Rightarrow> False | Some age \<Rightarrow> age \<ge> of_int timeout)"

definition select_timed_out_runs :: "(string \<Rightarrow> rat option) \<Rightarrow> pydict list \<Rightarrow> rat \<Rightarrow> int \<Rightarrow> pydict list" where
  "select_timed_out_runs fromiso runs now timeout = filter (\<lambda>r. is_run_timed_out fromiso r now timeout) runs"

section \<open>Open leases\<close>

definition LEASE_ACQUIRED :: string where "LEASE_ACQUIRED = ''environment.lease_acquired''"
definition LEASE_RELEASED :: string where "LEASE_RELEASED = ''environment.lease_released''"
definition LOOKBACK_SECONDS :: rat where "LOOKBACK_SECONDS = 3600"

record open_lease =
  ol_run_id :: string
  ol_acquired_at :: rat
  ol_issue :: "string option"
  ol_age :: rat

text \<open>The three dicts of the loop.\<close>

record lease_scan =
  lk_latest :: "(string \<times> pydict) list"
  lk_acquired :: "(string \<times> rat) list"
  lk_issue :: "(string \<times> string option) list"

text \<open>The run and the time of an event the loop does not pass over.\<close>

definition lease_event :: "(string \<Rightarrow> rat option) \<Rightarrow> string \<Rightarrow> rat \<Rightarrow> pydict \<Rightarrow> (string \<times> rat) option" where
  "lease_event fromiso agent_id horizon ev =
    (if or_empty (py_str_opt (py_get ev ''agentId'')) \<noteq> agent_id then None
     else if py_get ev ''action'' \<notin> {Py_Str LEASE_ACQUIRED, Py_Str LEASE_RELEASED} then None
     else if \<not> truthy (py_str_opt (py_get ev ''runId'')) then None
     else case parse_iso8601_utc fromiso (py_get ev ''createdAt'') of
       None \<Rightarrow> None
     | Some created \<Rightarrow> if created < horizon then None else Some (the (py_str_opt (py_get ev ''runId'')), created))"

definition scan_event :: "(string \<Rightarrow> rat option) \<Rightarrow> string \<Rightarrow> rat \<Rightarrow> pydict \<Rightarrow> lease_scan \<Rightarrow> lease_scan" where
  "scan_event fromiso agent_id horizon ev lk =
    (case lease_event fromiso agent_id horizon ev of
       None \<Rightarrow> lk
     | Some (run_id, created) \<Rightarrow>
         if (case map_of (lk_latest lk) run_id of
               None \<Rightarrow> True
             | Some prior \<Rightarrow> (case parse_iso8601_utc fromiso (py_get prior ''createdAt'') of None \<Rightarrow> 0 | Some t \<Rightarrow> t) < created)
         then let lk1 = lk \<lparr>lk_latest := AList.update run_id ev (lk_latest lk)\<rparr> in
           if py_get ev ''action'' = Py_Str LEASE_ACQUIRED
           then lk1 \<lparr>lk_acquired := AList.update run_id created (lk_acquired lk1),
                  lk_issue := AList.update run_id
                    (case py_get ev ''details'' of Py_Dict d \<Rightarrow> py_str_opt (py_get d ''issueId'') | _ \<Rightarrow> None) (lk_issue lk1)\<rparr>
           else lk1
         else lk)"

definition lease_of :: "lease_scan \<Rightarrow> rat \<Rightarrow> string \<times> pydict \<Rightarrow> open_lease option" where
  "lease_of lk now item =
    (if py_get (snd item) ''action'' \<noteq> Py_Str LEASE_ACQUIRED then None
     else case map_of (lk_acquired lk) (fst item) of
       None \<Rightarrow> None
     | Some acq \<Rightarrow> Some \<lparr>ol_run_id = fst item, ol_acquired_at = acq,
         ol_issue = (case map_of (lk_issue lk) (fst item) of None \<Rightarrow> None | Some i \<Rightarrow> i), ol_age = max 0 (now - acq)\<rparr>)"

definition open_leases_from_activity :: "(string \<Rightarrow> rat option) \<Rightarrow> rat \<Rightarrow> pydict list \<Rightarrow> string \<Rightarrow> rat \<Rightarrow> open_lease list" where
  "open_leases_from_activity fromiso lookback events agent_id now =
    (let lk = fold (scan_event fromiso agent_id (now - lookback)) events \<lparr>lk_latest = [], lk_acquired = [], lk_issue = []\<rparr> in
     sort_descending ol_age (List.map_filter (lease_of lk now) (lk_latest lk)))"

section \<open>Processes\<close>

text \<open>\<open>float(p)\<close> on the digits \<open>ps\<close> prints; other numerals read as an error.\<close>

definition float_digits :: "string \<Rightarrow> rat option" where
  "float_digits s = (let t = py_strip s in if all_digits t then Some (of_int (digits_value 0 t)) else None)"

fun all_some :: "'a option list \<Rightarrow> 'a list option" where
  "all_some [] = Some []"
| "all_some (None # xs) = None"
| "all_some (Some x # xs) = map_option (Cons x) (all_some xs)"

definition clock_seconds :: "string \<Rightarrow> rat \<Rightarrow> rat option" where
  "clock_seconds token days =
    (let parts = split_on CHR '':'' token in
     if length parts > 3 then None
     else case all_some (map float_digits parts) of
       None \<Rightarrow> None
     | Some nums \<Rightarrow> Some (days * 86400 + foldl (\<lambda>secs num. secs * 60 + num) 0 nums))"

definition parse_etime_seconds :: "string \<Rightarrow> rat option" where
  "parse_etime_seconds etime =
    (let token = py_strip etime in
     if token = [] then None
     else if CHR ''-'' \<in> set token then
       (case float_digits (takeWhile (\<lambda>c. c \<noteq> CHR ''-'') token) of
          None \<Rightarrow> None
        | Some days \<Rightarrow> clock_seconds (tl (dropWhile (\<lambda>c. c \<noteq> CHR ''-'') token)) days)
     else clock_seconds token 0)"

text \<open>\<open>stripped.split(None, 2)\<close>, where it has three parts.\<close>

definition three_parts :: "string \<Rightarrow> (string \<times> string \<times> string) option" where
  "three_parts s =
    (let word = takeWhile (\<lambda>c. \<not> py_space c); rest = (\<lambda>t. dropWhile py_space (dropWhile (\<lambda>c. \<not> py_space c) t));
         s1 = rest s; s2 = rest s1 in
     if s2 = [] then None else Some (word s, word s1, s2))"

definition process_candidate :: "rat \<Rightarrow> string \<Rightarrow> (int \<times> rat) option" where
  "process_candidate age line =
    (let stripped = py_strip line in
     if \<not> contains_text ''opencode'' stripped \<or> \<not> contains_text '' run '' stripped then None
     else case three_parts stripped of
       None \<Rightarrow> None
     | Some (pid_text, etime, command) \<Rightarrow>
         (case py_int (Py_Str pid_text) of
            Inl _ \<Rightarrow> None
          | Inr pid \<Rightarrow>
              (case parse_etime_seconds etime of
                 None \<Rightarrow> None
               | Some elapsed \<Rightarrow> if elapsed \<ge> age then Some (pid, elapsed) else None)))"

definition oldest_candidate :: "rat \<Rightarrow> string list \<Rightarrow> (int \<times> rat) option" where
  "oldest_candidate age lines =
    (case sort_descending snd (List.map_filter (process_candidate age) lines) of [] \<Rightarrow> None | c # _ \<Rightarrow> Some c)"

datatype signal_result = Delivered | No_Such_Process | Not_Permitted

record 'w process_ports =
  pp_ps :: "'w \<Rightarrow> string list option \<times> 'w"
  pp_signal :: "int \<Rightarrow> int \<Rightarrow> 'w \<Rightarrow> signal_result \<times> 'w"
  pp_shell :: "string \<Rightarrow> 'w \<Rightarrow> bool \<times> 'w"
  pp_time :: "'w \<Rightarrow> rat \<times> 'w"
  pp_sleep :: "rat \<Rightarrow> 'w \<Rightarrow> 'w"

text \<open>The loop that waits for the process to go: \<open>True\<close> when it is gone.  It ends only if time
  passes.\<close>

partial_function (option) await_exit :: "'w process_ports \<Rightarrow> rat \<Rightarrow> int \<Rightarrow> 'w \<Rightarrow> (bool \<times> 'w) option" where
  "await_exit P deadline pid w =
    (case pp_time P w of (now, w1) \<Rightarrow>
      if now < deadline then
        (case pp_signal P pid 0 w1 of (res, w2) \<Rightarrow>
          (case res of
             No_Such_Process \<Rightarrow> Some (True, w2)
           | Not_Permitted \<Rightarrow> Some (False, w2)
           | Delivered \<Rightarrow> await_exit P deadline pid (pp_sleep P 1 w2)))
      else Some (False, w1))"

definition kill_pid :: "'w process_ports \<Rightarrow> bool \<Rightarrow> int \<Rightarrow> int \<Rightarrow> 'w \<Rightarrow> (bool \<times> 'w) option" where
  "kill_pid P dry_run pid grace w =
    (if dry_run then Some (True, w)
     else case pp_signal P pid 15 w of (res, w1) \<Rightarrow>
       if res \<noteq> Delivered then Some (False, w1)
       else case pp_time P w1 of (now, w2) \<Rightarrow>
         (case await_exit P (now + of_int (max 0 grace)) pid w2 of
            None \<Rightarrow> None
          | Some (gone, w3) \<Rightarrow>
              if gone then Some (True, w3)
              else case pp_signal P pid 9 w3 of (res9, w4) \<Rightarrow> Some (res9 \<noteq> Not_Permitted, w4)))"

definition terminate_opencode_process :: "'w process_ports \<Rightarrow> bool \<Rightarrow> open_lease \<Rightarrow> int \<Rightarrow> 'w \<Rightarrow> (bool \<times> 'w) option" where
  "terminate_opencode_process P dry_run lease grace w =
    (case pp_ps P w of
       (None, w1) \<Rightarrow> Some (False, w1)
     | (Some lines, w1) \<Rightarrow>
         (case oldest_candidate (ol_age lease) lines of
            None \<Rightarrow> Some (False, w1)
          | Some (pid, elapsed) \<Rightarrow> kill_pid P dry_run pid grace w1))"

definition terminate_via_cmd :: "'w process_ports \<Rightarrow> bool \<Rightarrow> string \<Rightarrow> string \<Rightarrow> string \<Rightarrow> int \<Rightarrow> 'w \<Rightarrow> bool \<times> 'w" where
  "terminate_via_cmd P dry_run cmd run_id agent_id grace w =
    (if dry_run then (True, w)
     else pp_shell P (replace_text ''{grace}'' (int_text grace) (replace_text ''{run}'' run_id (replace_text ''{agent}'' agent_id cmd))) w)"

section \<open>The enforcement pass\<close>

record timeout_watchdog =
  tw_api_url :: string
  tw_api_token :: string
  tw_company_id :: string
  tw_agent_id :: "string option"
  tw_terminate_cmd :: "string option"
  tw_dry_run :: bool

definition terminate_run_process :: "'w process_ports \<Rightarrow> timeout_watchdog \<Rightarrow> open_lease \<Rightarrow> string \<Rightarrow> int \<Rightarrow> 'w \<Rightarrow> (bool \<times> 'w) option" where
  "terminate_run_process P wd lease agent_id grace w =
    (if truthy (tw_terminate_cmd wd)
     then Some (terminate_via_cmd P (tw_dry_run wd) (the (tw_terminate_cmd wd)) (ol_run_id lease) agent_id grace w)
     else terminate_opencode_process P (tw_dry_run wd) lease grace w)"

text \<open>\<open>_request\<close>: only an HTTP error becomes a \<open>RuntimeError\<close>; a network error stays what it is.\<close>

definition watchdog_request :: "'w http_server \<Rightarrow> timeout_watchdog \<Rightarrow> http_verb \<Rightarrow> string \<Rightarrow> pydict \<Rightarrow> ('w, pyval) io" where
  "watchdog_request send wd verb path body w =
    (case send \<lparr>rq_verb = verb, rq_url = rstrip_slash (tw_api_url wd) @ path,
       rq_headers = [(''Authorization'', ''Bearer '' @ tw_api_token wd), (''Content-Type'', ''application/json''),
         (''Accept'', ''application/json'')], rq_body = body\<rparr> w of
       (Http_Body v, w1) \<Rightarrow> (Inr v, w1)
     | (Http_Error code reason, w1) \<Rightarrow> (Inl (Runtime_Error (verb_text verb @ '' '' @ path @ '' -> HTTP '' @ digits code)), w1)
     | (Url_Error reason, w1) \<Rightarrow> (Inl (Other_Error reason), w1)
     | (Raised what, w1) \<Rightarrow> (Inl (Other_Error what), w1))"

definition agent_with_role :: "string \<Rightarrow> pydict list \<Rightarrow> string option" where
  "agent_with_role role agents =
    (case filter (\<lambda>a. lower_ascii (or_empty (py_str_opt (py_get a ''role''))) = lower_ascii role \<and> truthy (py_str_opt (py_get a ''id''))) agents of
       [] \<Rightarrow> None
     | a # _ \<Rightarrow> py_str_opt (py_get a ''id''))"

definition resolve_agent_id :: "'w http_server \<Rightarrow> timeout_watchdog \<Rightarrow> string \<Rightarrow> ('w, string) io" where
  "resolve_agent_id send wd role =
    (if truthy (tw_agent_id wd) then io_return (the (tw_agent_id wd))
     else io_bind (watchdog_request send wd GET (''/api/companies/'' @ tw_company_id wd @ ''/agents'') []) (\<lambda>payload.
       case payload of
         Py_List xs \<Rightarrow>
           (case agent_with_role role (dict_items xs) of
              None \<Rightarrow> io_raise (Runtime_Error (''no agent with role '' @ role @ '' found''))
            | Some aid \<Rightarrow> io_return aid)
       | _ \<Rightarrow> io_raise (Runtime_Error ''agents list not returned from API'')))"

definition list_open_executions :: "(string \<Rightarrow> rat option) \<Rightarrow> 'w http_server \<Rightarrow> timeout_watchdog \<Rightarrow> string \<Rightarrow> rat
    \<Rightarrow> ('w, open_lease list) io" where
  "list_open_executions fromiso send wd agent_id now =
    io_bind (watchdog_request send wd GET (''/api/companies/'' @ tw_company_id wd @ ''/activity?limit=100'') []) (\<lambda>payload.
      io_return (case payload of
        Py_List xs \<Rightarrow> open_leases_from_activity fromiso LOOKBACK_SECONDS (dict_items xs) agent_id now
      | _ \<Rightarrow> []))"

definition STOPWATCH :: string where "STOPWATCH = [CHR 0xE2, CHR 0x8F, CHR 0xB1, CHR 0xEF, CHR 0xB8, CHR 0x8F]"

definition incident_text :: "string \<Rightarrow> rat \<Rightarrow> int \<Rightarrow> bool \<Rightarrow> string" where
  "incident_text run_id age timeout killed =
    (let tick = ''`''; dash = [CHR 0xE2, CHR 0x80, CHR 0x94]; arrow = [CHR 0xE2, CHR 0x86, CHR 0x92] in
     STOPWATCH @ '' CEO heartbeat timeout watchdog ('' @ int_text timeout @ ''s) '' @ dash @ '' run '' @ tick @ run_id @ tick
     @ '' reached ~'' @ int_text \<lfloor>age\<rfloor> @ ''s active.'' @ NEWLINE @ NEWLINE
     @ ''- Action: **'' @ (if killed then ''terminated'' else ''failed to terminate'') @ ''**'' @ NEWLINE
     @ ''- Policy: `.paperclip/manifest.json` '' @ arrow @ '' `company.heartbeatConfig.timeoutSeconds`'' @ NEWLINE
     @ ''- Runbook: `docs/operations/ceo-heartbeat-timeout.md`'' @ NEWLINE
     @ ''- Source: [FLO-265](/FLO/issues/FLO-265)'')"

definition post_incident_comment :: "'w http_server \<Rightarrow> timeout_watchdog \<Rightarrow> string \<Rightarrow> string \<Rightarrow> rat \<Rightarrow> int \<Rightarrow> bool \<Rightarrow> ('w, unit) io" where
  "post_incident_comment send wd issue run_id age timeout killed w =
    (if tw_dry_run wd then (Inr (), w)
     else case watchdog_request send wd POST (''/api/issues/'' @ issue @ ''/comments'')
         [(''comment'', Py_Str (incident_text run_id age timeout killed))] w of
       (Inr _, w1) \<Rightarrow> (Inr (), w1)
     | (Inl (Runtime_Error m), w1) \<Rightarrow> (Inr (), w1)
     | (Inl e, w1) \<Rightarrow> (Inl e, w1))"

text \<open>The loop over the leases; \<open>None\<close> when waiting for a process never ends.\<close>

fun enforce_leases :: "'w http_server \<Rightarrow> 'w process_ports \<Rightarrow> timeout_watchdog \<Rightarrow> int \<Rightarrow> int \<Rightarrow> string \<Rightarrow> int \<Rightarrow> open_lease list \<Rightarrow> 'w
    \<Rightarrow> ((ops_error + int) \<times> 'w) option" where
  "enforce_leases send P wd timeout grace agent_id acted [] w = Some (Inr acted, w)"
| "enforce_leases send P wd timeout grace agent_id acted (lease # rest) w =
     (case terminate_run_process P wd lease agent_id grace w of
        None \<Rightarrow> None
      | Some (killed, w1) \<Rightarrow>
          (case (if truthy (ol_issue lease)
                 then post_incident_comment send wd (the (ol_issue lease)) (ol_run_id lease) (ol_age lease) timeout killed w1
                 else (Inr (), w1)) of
             (Inl e, w2) \<Rightarrow> Some (Inl e, w2)
           | (Inr _, w2) \<Rightarrow> enforce_leases send P wd timeout grace agent_id (acted + 1) rest w2))"

definition over_timeout :: "int \<Rightarrow> open_lease list \<Rightarrow> open_lease list" where
  "over_timeout timeout leases = filter (\<lambda>l. ol_age l \<ge> of_int timeout) leases"

definition enforce :: "(string \<Rightarrow> rat option) \<Rightarrow> 'w http_server \<Rightarrow> 'w process_ports \<Rightarrow> timeout_watchdog \<Rightarrow> int \<Rightarrow> int \<Rightarrow> string \<Rightarrow> 'w
    \<Rightarrow> ((ops_error + int) \<times> 'w) option" where
  "enforce fromiso send P wd timeout grace role w =
    (case pp_time P w of (now, w0) \<Rightarrow>
      (case io_bind (resolve_agent_id send wd role) (\<lambda>agent_id.
         io_bind (list_open_executions fromiso send wd agent_id now) (\<lambda>leases. io_return (agent_id, leases))) w0 of
         (Inl e, w1) \<Rightarrow> Some (Inl e, w1)
       | (Inr (agent_id, leases), w1) \<Rightarrow> enforce_leases send P wd timeout grace agent_id 0 (over_timeout timeout leases) w1))"

end
