(* ===== verification/Ops_Commands.thy ===== *)
theory Ops_Commands
  imports Heartbeat_Reports Liveness_Watchdog Timeout_Watchdog
begin

text \<open>
  Model of the three command line tools: \<open>scripts/dev/ceo-heartbeat-monitor.py\<close>,
  \<open>scripts/dev/agent-liveness-watchdog.py\<close> and the \<open>main\<close> of
  \<open>scripts/dev/ceo-heartbeat-watchdog.py\<close>.  The environment is an association list; a command ends
  with its exit code and the lines it prints are left out.  Arguments are already parsed.
\<close>

type_synonym environment = "(string \<times> string) list"

section \<open>The monitor\<close>

definition EXIT_CONFIG_ERROR :: int where "EXIT_CONFIG_ERROR = 3"

text \<open>\<open>os.environ.get(name, "").strip()\<close>, and \<open>or None\<close>.\<close>

definition env_text :: "environment \<Rightarrow> string \<Rightarrow> string" where
  "env_text env name = py_strip (or_empty (map_of env name))"

definition env_opt :: "environment \<Rightarrow> string \<Rightarrow> string option" where
  "env_opt env name = (if env_text env name = [] then None else Some (env_text env name))"

text \<open>\<open>tofloat\<close> is \<open>float\<close> on a text, \<open>None\<close> when it raises.\<close>

definition env_float :: "(string \<Rightarrow> rat option) \<Rightarrow> environment \<Rightarrow> string \<Rightarrow> rat \<Rightarrow> rat option" where
  "env_float tofloat env name dflt = (case env_opt env name of None \<Rightarrow> Some dflt | Some raw \<Rightarrow> tofloat raw)"

definition env_int :: "environment \<Rightarrow> string \<Rightarrow> int \<Rightarrow> int option" where
  "env_int env name dflt =
    (case env_opt env name of None \<Rightarrow> Some dflt
     | Some raw \<Rightarrow> (case py_int (Py_Str raw) of Inl _ \<Rightarrow> None | Inr n \<Rightarrow> Some n))"

record monitor_args =
  ma_warn_min :: "rat option"
  ma_crit_min :: "rat option"
  ma_run_limit :: "int option"
  ma_alert :: bool

definition arg_or :: "'a option \<Rightarrow> 'a option \<Rightarrow> 'a option" where
  "arg_or x y = (case x of None \<Rightarrow> y | Some v \<Rightarrow> Some v)"

text \<open>The checks before the first request; \<open>None\<close> is the configuration error exit.\<close>

definition monitor_setup :: "(string \<Rightarrow> rat option) \<Rightarrow> environment \<Rightarrow> monitor_args
    \<Rightarrow> (heartbeat_source \<times> heartbeat_monitor) option" where
  "monitor_setup tofloat env args =
    (case (env_opt env ''PAPERCLIP_API_URL'', env_opt env ''PAPERCLIP_API_KEY'', env_opt env ''PAPERCLIP_COMPANY_ID'',
        env_opt env ''FLO_CEO_AGENT_ID'') of
       (Some api_url, Some api_key, Some company_id, Some agent_id) \<Rightarrow>
         (case (arg_or (ma_warn_min args) (env_float tofloat env ''FLO_CEO_MONITOR_WARN_MIN'' 15),
             arg_or (ma_crit_min args) (env_float tofloat env ''FLO_CEO_MONITOR_CRIT_MIN'' 30),
             arg_or (ma_run_limit args) (env_int env ''FLO_CEO_MONITOR_RUN_LIMIT'' 50)) of
            (Some warn, Some crit, Some run_limit) \<Rightarrow>
              if crit < warn then None
              else Some (\<lparr>hb_api_url = api_url, hb_api_key = api_key, hb_company_id = company_id, hb_agent_id = agent_id,
                  hb_routine_id = env_opt env ''FLO_CEO_ROUTINE_ID''\<rparr>,
                \<lparr>hm_warning = warn, hm_critical = crit, hm_run_limit = run_limit\<rparr>)
          | _ \<Rightarrow> None)
     | _ \<Rightarrow> None)"

text \<open>\<open>_discover_escalation_owner\<close>: any failure of the request routes the alert to the agent itself;
  a record without an id raises a \<open>KeyError\<close>, \<open>None\<close>.\<close>

definition first_other :: "string \<Rightarrow> (pydict \<Rightarrow> bool) \<Rightarrow> pydict list \<Rightarrow> pydict option" where
  "first_other agent_id wanted agents =
    (case filter (\<lambda>a. wanted a \<and> py_get a ''id'' \<noteq> Py_Str agent_id) agents of [] \<Rightarrow> None | a # _ \<Rightarrow> Some a)"

definition has_role :: "string \<Rightarrow> pydict \<Rightarrow> bool" where
  "has_role role a \<longleftrightarrow> py_get a ''role'' = Py_Str role"

definition escalation_owner_of :: "string \<Rightarrow> pydict list \<Rightarrow> string option" where
  "escalation_owner_of agent_id agents =
    (case (first_other agent_id (has_role ''cto'') agents, first_other agent_id (has_role ''software_architect'') agents,
        first_other agent_id (\<lambda>_. True) agents) of
       (Some a, _, _) \<Rightarrow> py_str_opt (py_get a ''id'')
     | (None, Some a, _) \<Rightarrow> py_str_opt (py_get a ''id'')
     | (None, None, Some a) \<Rightarrow> py_str_opt (py_get a ''id'')
     | (None, None, None) \<Rightarrow> Some agent_id)"

definition discover_escalation_owner :: "'w http_server \<Rightarrow> heartbeat_source \<Rightarrow> 'w \<Rightarrow> string option \<times> 'w" where
  "discover_escalation_owner send src w =
    (case source_get send src (''/api/companies/'' @ hb_company_id src @ ''/agents'') w of
       (Inr (Py_List xs), w1) \<Rightarrow> (escalation_owner_of (hb_agent_id src) (dict_items xs), w1)
     | (_, w1) \<Rightarrow> (Some (hb_agent_id src), w1))"

text \<open>\<open>_issue_alerts\<close>: the state after it, \<open>None\<close> when it raises.\<close>

definition issue_alerts :: "(pyval \<Rightarrow> string) \<Rightarrow> 'w http_server \<Rightarrow> environment \<Rightarrow> heartbeat_source \<Rightarrow> silent_alert list \<Rightarrow> 'w
    \<Rightarrow> 'w option \<times> 'w" where
  "issue_alerts show send env src alerts w =
    (let (owner, w1) = (case env_opt env ''FLO_CEO_MONITOR_ESCALATION_AGENT_ID'' of
         Some a \<Rightarrow> (Some a, w) | None \<Rightarrow> discover_escalation_owner send src w) in
     case owner of
       None \<Rightarrow> (None, w1)
     | Some agent \<Rightarrow>
         let ai = \<lparr>ai_api_url = hb_api_url src, ai_api_key = hb_api_key src, ai_company_id = hb_company_id src,
           ai_escalation_agent = agent, ai_parent_issue = env_opt env ''FLO_CEO_HEARTBEAT_ISSUE_ID'',
           ai_project = env_opt env ''PAPERCLIP_PROJECT_ID''\<rparr>;
             w2 = snd (issue_for show send ai [] alerts w1)
         in (Some w2, w2))"

text \<open>\<open>main\<close>: the exit code, \<open>None\<close> when it ends with an exception.\<close>

definition monitor_main :: "(pyval \<Rightarrow> string) \<Rightarrow> (string \<Rightarrow> rat option) \<Rightarrow> (string \<Rightarrow> rat option) \<Rightarrow> 'w http_server
    \<Rightarrow> environment \<Rightarrow> monitor_args \<Rightarrow> rat \<Rightarrow> 'w \<Rightarrow> int option \<times> 'w" where
  "monitor_main show fromiso tofloat send env args now w =
    (case monitor_setup tofloat env args of
       None \<Rightarrow> (Some EXIT_CONFIG_ERROR, w)
     | Some (src, mon) \<Rightarrow>
         (case evaluate_health mon (source_fetch show fromiso send src) now w of
            (Inl e, w1) \<Rightarrow> (Some EXIT_CONFIG_ERROR, w1)
          | (Inr snap, w1) \<Rightarrow>
              let code = severity_to_exit_code (sn_severity snap) in
              if ma_alert args \<and> sn_alerts snap \<noteq> []
              then (case issue_alerts show send env src (sn_alerts snap) w1 of
                      (None, w2) \<Rightarrow> (None, w2) | (Some _, w2) \<Rightarrow> (Some code, w2))
              else (Some code, w1)))"

section \<open>The liveness watchdog\<close>

text \<open>\<open>build_config\<close>; \<open>None\<close> is the exit on missing input.\<close>

definition build_config :: "environment \<Rightarrow> watchdog_config option" where
  "build_config env =
    (let agent = map_of env ''FLO_LIVENESS_WATCHED_AGENT_ID''; routine = map_of env ''FLO_LIVENESS_WATCHED_ROUTINE_ID'';
         name = map_of env ''FLO_LIVENESS_WATCHED_AGENT_NAME'' in
     if \<not> truthy agent then None
     else if \<not> truthy routine \<and> \<not> truthy name then None
     else Some \<lparr>wc_watched_agent = the agent,
       wc_watched_routine = (if truthy routine then routine else None),
       wc_watched_name = (if truthy name then name else None),
       wc_fallback_owner = map_of env ''FLO_LIVENESS_CEO_FALLBACK_OWNER'',
       wc_issue = (case map_of env ''FLO_LIVENESS_WATCHDOG_ISSUE_ID'' of
         Some i \<Rightarrow> Some i | None \<Rightarrow> map_of env ''PAPERCLIP_TASK_ID''),
       wc_project = map_of env ''FLO_LIVENESS_PROJECT_ID'', wc_goal = map_of env ''FLO_LIVENESS_GOAL_ID'',
       wc_thresholds = LivenessThresholds, wc_max_attempts = DEFAULT_MAX_ATTEMPTS, wc_backoff = DEFAULT_BACKOFF_SECONDS,
       wc_admit_wait = DEFAULT_ADMIT_WAIT_SECONDS\<rparr>)"

definition watchdog_exit_code :: "outcome_action \<Rightarrow> int" where
  "watchdog_exit_code action = (case action of Was_Escalated \<Rightarrow> 2 | Was_Recovered \<Rightarrow> 1 | _ \<Rightarrow> 0)"

text \<open>\<open>run_once\<close> with \<open>main\<close> around it: an exception of the fire and a missing variable are exit codes,
  too.  The dry run has the recording sink for its actions.\<close>

definition liveness_ports_of :: "(pyval \<Rightarrow> string) \<Rightarrow> (string \<Rightarrow> rat option) \<Rightarrow> 'w http_server \<Rightarrow> environment \<Rightarrow> watchdog_config
    \<Rightarrow> ('w \<Rightarrow> rat) \<Rightarrow> (rat \<Rightarrow> 'w \<Rightarrow> 'w) \<Rightarrow> 'w watchdog_ports" where
  "liveness_ports_of show fromiso send env cfg now sleep =
    (let url = or_empty (map_of env ''PAPERCLIP_API_URL''); key = or_empty (map_of env ''PAPERCLIP_API_KEY'');
         company = or_empty (map_of env ''PAPERCLIP_COMPANY_ID'') in
     rest_ports show fromiso send
       \<lparr>lr_api_url = url, lr_api_key = key, lr_company_id = company, lr_watched_routine = wc_watched_routine cfg,
        lr_watched_name = wc_watched_name cfg, lr_run_limit = 20\<rparr>
       \<lparr>rc_api_url = url, rc_api_key = key, rc_company_id = company, rc_run_id = map_of env ''PAPERCLIP_RUN_ID''\<rparr> now sleep)"

definition liveness_main :: "(pyval \<Rightarrow> string) \<Rightarrow> (string \<Rightarrow> rat option) \<Rightarrow> 'w http_server \<Rightarrow> environment \<Rightarrow> ('w \<Rightarrow> rat)
    \<Rightarrow> (rat \<Rightarrow> 'w \<Rightarrow> 'w) \<Rightarrow> bool \<Rightarrow> 'w \<Rightarrow> int \<times> 'w" where
  "liveness_main show fromiso send env now sleep dry_run w =
    (if \<not> truthy (map_of env ''PAPERCLIP_API_URL'') then (2, w)
     else if \<not> dry_run \<and> (\<not> truthy (map_of env ''PAPERCLIP_API_KEY'') \<or> \<not> truthy (map_of env ''PAPERCLIP_COMPANY_ID'')) then (2, w)
     else case build_config env of
       None \<Rightarrow> (1, w)
     | Some cfg \<Rightarrow>
         if map_of env ''PAPERCLIP_API_KEY'' = None \<or> map_of env ''PAPERCLIP_COMPANY_ID'' = None then (1, w)
         else (case run_watchdog (liveness_ports_of show fromiso send env cfg now sleep) cfg 0 dry_run w of
                 (Inl e, w1) \<Rightarrow> (1, w1)
               | (Inr out, w1) \<Rightarrow> (watchdog_exit_code (wo_action out), w1)))"

section \<open>The timeout watchdog\<close>

text \<open>\<open>main\<close> without the interval: the exit code, \<open>None\<close> when it ends with an exception or never.  The
  manifest is \<open>None\<close> when its file is missing.\<close>

definition timeout_main :: "(string \<Rightarrow> rat option) \<Rightarrow> 'w http_server \<Rightarrow> 'w process_ports \<Rightarrow> environment \<Rightarrow> manifest_dict option
    \<Rightarrow> bool \<Rightarrow> 'w \<Rightarrow> (int \<times> 'w) option" where
  "timeout_main fromiso send P env manifest dry_run w =
    (case manifest of
       None \<Rightarrow> Some (2, w)
     | Some m \<Rightarrow>
         (case (heartbeat_timeout_seconds m, heartbeat_grace_seconds m, heartbeat_agent_role m) of
            (Inr timeout, Inr grace, Inr role) \<Rightarrow>
              if \<not> (truthy (map_of env ''PAPERCLIP_API_URL'') \<and> truthy (map_of env ''PAPERCLIP_API_KEY'')
                   \<and> truthy (map_of env ''PAPERCLIP_COMPANY_ID'')) then Some (2, w)
              else (case enforce fromiso send P
                  \<lparr>tw_api_url = the (map_of env ''PAPERCLIP_API_URL''), tw_api_token = the (map_of env ''PAPERCLIP_API_KEY''),
                   tw_company_id = the (map_of env ''PAPERCLIP_COMPANY_ID''), tw_agent_id = map_of env ''FLOCK_CEO_AGENT_ID'',
                   tw_terminate_cmd = map_of env ''FLOCK_CEO_TERMINATE_CMD'', tw_dry_run = dry_run\<rparr> timeout grace role w of
                 None \<Rightarrow> None
               | Some (Inr _, w1) \<Rightarrow> Some (0, w1)
               | Some (Inl (Runtime_Error _), w1) \<Rightarrow> Some (1, w1)
               | Some (Inl _, w1) \<Rightarrow> None)
          | _ \<Rightarrow> None))"

end
