(* ===== verification/Watchdog_Safety.thy ===== *)
theory Watchdog_Safety
  imports Liveness_Watchdog "HOL-Library.Multiset"
begin

text \<open>
  What one fire of the liveness watchdog does to the outside.  The locale \<open>liveness_ports\<close> is the
  contract of the two ports: reading, the clock and the sleep act on nothing, and a mutating call
  acts once (a refused release may leave no trace).  Its lemmas bound what the restart loop and a
  whole fire do; they are applied to any ports whose calls are written down (\<open>logged\<close>) and hold as
  well for the doubles of the unit tests.
\<close>

section \<open>The contract of the ports\<close>

text \<open>A call of the port, whether it succeeds or raises: \<open>Approval_Asked\<close> is the attempt to open a
  board approval, which the watchdog reports as escalated even when the control plane refuses it
  (\<open>_escalate\<close> swallows the error).\<close>

datatype port_call =
    is_release: Released string string
  | is_invocation: Invoked string
  | is_approval: Approval_Asked
  | is_comment: Commented string string

definition restart_calls :: "watchdog_config \<Rightarrow> string \<Rightarrow> string option \<Rightarrow> nat \<Rightarrow> port_call multiset \<Rightarrow> bool" where
  "restart_calls cfg owner linked n new \<longleftrightarrow>
    (\<exists>j k. j \<le> n \<and> k \<le> n \<and> (linked = None \<longrightarrow> j = 0)
      \<and> new = replicate_mset j (Released (the linked) owner) + replicate_mset k (Invoked (wc_watched_agent cfg)))"

definition comment_calls :: "watchdog_config \<Rightarrow> port_call multiset \<Rightarrow> bool" where
  "comment_calls cfg new \<longleftrightarrow> new = {#} \<or> (\<exists>i b. wc_issue cfg = Some i \<and> new = {#Commented i b#})"

text \<open>How a fire ends: an approval exactly on escalation, then the comment.  Before that it may
  restart, if the plan says so and the owner is another agent.\<close>

definition ending_calls :: "watchdog_config \<Rightarrow> ops_error + watchdog_outcome \<Rightarrow> port_call multiset \<Rightarrow> bool" where
  "ending_calls cfg r new \<longleftrightarrow>
    (\<exists>approvals comments. new = approvals + comments \<and> approvals \<in> {{#}, {#Approval_Asked#}} \<and> comment_calls cfg comments
      \<and> (\<forall>out. r = Inr out \<longrightarrow> (approvals \<noteq> {#} \<longleftrightarrow> wo_action out = Was_Escalated)))"

definition may_restart :: "watchdog_config \<Rightarrow> int \<Rightarrow> run_verdict \<Rightarrow> string \<Rightarrow> bool" where
  "may_restart cfg prior v owner \<longleftrightarrow> rp_action (watchdog_plan cfg v prior) = Release_Restart
     \<and> rv_owner v = Some owner \<and> owner \<noteq> wc_watched_agent cfg"

definition verdict_calls :: "watchdog_config \<Rightarrow> int \<Rightarrow> run_verdict \<Rightarrow> ops_error + watchdog_outcome \<Rightarrow> port_call multiset \<Rightarrow> bool" where
  "verdict_calls cfg prior v r new \<longleftrightarrow> (rv_verdict v = Healthy \<longrightarrow> new = {#})
    \<and> (\<exists>restarts ending. new = restarts + ending \<and> ending_calls cfg r ending
      \<and> (restarts = {#} \<or> (\<exists>owner. may_restart cfg prior v owner
           \<and> restart_calls cfg owner (rv_linked_issue v) (nat (wc_max_attempts cfg - prior)) restarts)))"

text \<open>What a step does, beside its result: \<open>acted\<close> counts the calls made in a state.\<close>

definition effects :: "('w \<Rightarrow> port_call multiset) \<Rightarrow> ('w, 'a) io \<Rightarrow> (ops_error + 'a \<Rightarrow> port_call multiset \<Rightarrow> bool) \<Rightarrow> bool" where
  "effects acted m Q \<longleftrightarrow> (\<forall>w. \<exists>new. acted (snd (m w)) = acted w + new \<and> Q (fst (m w)) new)"

lemma effectsI: "(\<And>w r w1. m w = (r, w1) \<Longrightarrow> \<exists>new. acted w1 = acted w + new \<and> Q r new) \<Longrightarrow> effects acted m Q"
  unfolding effects_def by (metis prod.collapse)

lemma effectsD: "effects acted m Q \<Longrightarrow> m w = (r, w1) \<Longrightarrow> \<exists>new. acted w1 = acted w + new \<and> Q r new"
  unfolding effects_def by (metis fst_conv snd_conv)

lemma effects_mono: "effects acted m Q \<Longrightarrow> (\<And>r new. Q r new \<Longrightarrow> Q' r new) \<Longrightarrow> effects acted m Q'"
  unfolding effects_def by blast

lemma effects_return: "Q (Inr x) {#} \<Longrightarrow> effects acted (io_return x) Q"
  by (simp add: effects_def)

lemma effects_if:
  "(c \<Longrightarrow> effects acted m Q) \<Longrightarrow> (\<not> c \<Longrightarrow> effects acted n Q) \<Longrightarrow> effects acted (if c then m else n) Q"
  by simp

lemma effects_bind:
  assumes "effects acted m Q1" "\<And>e new. Q1 (Inl e) new \<Longrightarrow> Q (Inl e) new"
    and "\<And>a new. Q1 (Inr a) new \<Longrightarrow> effects acted (f a) (\<lambda>r new2. Q r (new + new2))"
  shows "effects acted (io_bind m f) Q"
proof (rule effectsI)
  fix w r w1
  assume eq: "io_bind m f w = (r, w1)"
  obtain r0 w0 where m: "m w = (r0, w0)" by (cases "m w")
  from effectsD [OF assms(1) m] obtain new where new: "acted w0 = acted w + new" "Q1 r0 new" by blast
  show "\<exists>new. acted w1 = acted w + new \<and> Q r new"
  proof (cases r0)
    case (Inl e)
    then show ?thesis using eq m new assms(2) by (auto simp: io_bind_def)
  next
    case (Inr a)
    then have "f a w0 = (r, w1)" using eq m by (simp add: io_bind_def)
    then obtain new2 where "acted w1 = acted w0 + new2" "Q r (new + new2)"
      using effectsD [OF assms(3)] new Inr by blast
    then show ?thesis using new(1) by (auto simp: add.assoc)
  qed
qed

lemma restart_calls_none [simp]: "restart_calls cfg owner linked n {#}"
  unfolding restart_calls_def by (intro exI [of _ 0]) simp

lemma restart_calls_mono: "restart_calls cfg owner linked m new \<Longrightarrow> m \<le> n \<Longrightarrow> restart_calls cfg owner linked n new"
proof -
  assume "restart_calls cfg owner linked m new" "m \<le> n"
  then obtain j k where "j \<le> n" "k \<le> n" "linked = None \<longrightarrow> j = 0"
    "new = replicate_mset j (Released (the linked) owner) + replicate_mset k (Invoked (wc_watched_agent cfg))"
    unfolding restart_calls_def using le_trans by blast
  then show ?thesis unfolding restart_calls_def by blast
qed

lemma replicate_mset_add: "replicate_mset (j + k) x = replicate_mset j x + replicate_mset k x"
  by (induction j) simp_all

lemma restart_calls_add:
  assumes "restart_calls cfg owner linked m a" "restart_calls cfg owner linked n b"
  shows "restart_calls cfg owner linked (m + n) (a + b)"
proof -
  from assms obtain j k j' k' where
    "j \<le> m" "k \<le> m" "linked = None \<longrightarrow> j = 0" "j' \<le> n" "k' \<le> n" "linked = None \<longrightarrow> j' = 0"
    "a = replicate_mset j (Released (the linked) owner) + replicate_mset k (Invoked (wc_watched_agent cfg))"
    "b = replicate_mset j' (Released (the linked) owner) + replicate_mset k' (Invoked (wc_watched_agent cfg))"
    unfolding restart_calls_def by blast
  then show ?thesis
    unfolding restart_calls_def by (intro exI [of _ "j + j'"] exI [of _ "k + k'"]) (auto simp: replicate_mset_add ac_simps)
qed

lemma released_once:
  "linked \<noteq> None \<Longrightarrow> restart_calls cfg owner linked (Suc 0) {#Released (the linked) owner#}"
  "linked \<noteq> None \<Longrightarrow> restart_calls cfg owner linked (Suc 0) ({#Released (the linked) owner#} + {#Invoked (wc_watched_agent cfg)#})"
  "restart_calls cfg owner linked (Suc 0) {#Invoked (wc_watched_agent cfg)#}"
proof -
  show "restart_calls cfg owner linked (Suc 0) {#Invoked (wc_watched_agent cfg)#}"
    unfolding restart_calls_def by (intro exI [of _ 0] exI [of _ 1]) simp
  show "restart_calls cfg owner linked (Suc 0) {#Released (the linked) owner#}" if "linked \<noteq> None"
    unfolding restart_calls_def by (intro exI [of _ 1] exI [of _ 0]) (use that in simp)
  show "restart_calls cfg owner linked (Suc 0) ({#Released (the linked) owner#} + {#Invoked (wc_watched_agent cfg)#})"
    if "linked \<noteq> None"
    unfolding restart_calls_def by (intro exI [of _ 1]) (use that in simp)
qed

lemma comment_calls_none [simp]: "comment_calls cfg {#}"
  by (simp add: comment_calls_def)

lemma ending_plain:
  "(\<And>out. r = Inr out \<Longrightarrow> wo_action out \<noteq> Was_Escalated) \<Longrightarrow> comment_calls cfg c \<Longrightarrow> ending_calls cfg r c"
  unfolding ending_calls_def by (rule exI [of _ "{#}"], rule exI [of _ c]) simp

lemma ending_approved:
  "(\<And>out. r = Inr out \<Longrightarrow> wo_action out = Was_Escalated) \<Longrightarrow> comment_calls cfg c \<Longrightarrow>
    ending_calls cfg r (add_mset Approval_Asked c)"
  unfolding ending_calls_def by (rule exI [of _ "{#Approval_Asked#}"], rule exI [of _ c]) simp

locale liveness_ports =
  fixes P :: "'w watchdog_ports" and acted :: "'w \<Rightarrow> port_call multiset"
  assumes probe_reads: "acted (snd (pt_probe P w)) = acted w"
    and clock_reads: "acted (snd (pt_clock P w)) = acted w"
    and sleep_waits: "acted (pt_sleep P t w) = acted w"
    and release_acts: "acted (snd (pt_release P i oid w)) \<in> {acted w, acted w + {#Released i oid#}}"
    and invoke_acts: "acted (snd (pt_invoke P a w)) = acted w + {#Invoked a#}"
    and approve_acts: "acted (snd (pt_approve P rq w)) = acted w + {#Approval_Asked#}"
    and comment_acts: "acted (snd (pt_comment P i b w)) = acted w + {#Commented i b#}"
begin

lemma effects_reads:
  "effects acted (pt_probe P) (\<lambda>r new. new = {#})" "effects acted (pt_clock P) (\<lambda>r new. new = {#})"
  "effects acted (sleep_step P t) (\<lambda>r new. new = {#})"
  by (simp_all add: effects_def sleep_step_def probe_reads clock_reads sleep_waits)

lemma effects_invoke: "effects acted (pt_invoke P a) (\<lambda>r new. new = {#Invoked a#})"
  by (simp add: effects_def invoke_acts)

lemma effects_post: "effects acted (post_noted P (wc_issue cfg) body audit) (\<lambda>r new. comment_calls cfg new)"
proof (rule effectsI)
  fix w r w1
  assume eq: "post_noted P (wc_issue cfg) body audit w = (r, w1)"
  show "\<exists>new. acted w1 = acted w + new \<and> comment_calls cfg new"
  proof (cases "wc_issue cfg")
    case (Some i)
    then have "w1 = snd (pt_comment P i body w)"
      using eq by (auto simp: post_noted_def split: prod.splits sum.splits option.splits)
    then show ?thesis using comment_acts Some by (auto simp: comment_calls_def)
  qed (use eq in \<open>auto simp: post_noted_def comment_calls_def\<close>)
qed

lemma effects_escalate: "effects acted (escalate P cfg v attempts reason audit) (\<lambda>r new. new = {#Approval_Asked#})"
proof (rule effectsI)
  fix w r w1
  assume "escalate P cfg v attempts reason audit w = (r, w1)"
  then have "w1 = snd (pt_approve P (approval_request_for cfg v attempts reason) w)"
    by (auto simp: escalate_def split: prod.splits sum.splits option.splits)
  then show "\<exists>new. acted w1 = acted w + new \<and> new = {#Approval_Asked#}" using approve_acts by simp
qed

lemma effects_release:
  "effects acted (release_step P linked owner audit)
    (\<lambda>r new. new = {#} \<or> (linked \<noteq> None \<and> new = {#Released (the linked) owner#}))"
proof (rule effectsI)
  fix w r w1
  assume eq: "release_step P linked owner audit w = (r, w1)"
  show "\<exists>new. acted w1 = acted w + new \<and> (new = {#} \<or> (linked \<noteq> None \<and> new = {#Released (the linked) owner#}))"
  proof (cases linked)
    case (Some i)
    then have "w1 = snd (pt_release P i owner w)"
      using eq by (auto simp: release_step_def split: prod.splits sum.splits ops_error.splits)
    then show ?thesis using release_acts [of i owner w] Some by auto
  qed (use eq in \<open>auto simp: release_step_def\<close>)
qed

lemma effects_redetect: "effects acted (redetect P cfg attempts current audit) (\<lambda>r new. new = {#})"
  unfolding redetect_def by (intro effects_bind [OF effects_reads(1)] effects_bind [OF effects_reads(2)] effects_return) auto

lemma effects_attempt:
  "effects acted (attempt_once P cfg owner linked attempts current audit) (\<lambda>r new. restart_calls cfg owner linked 1 new)"
  unfolding attempt_once_def
proof (rule effects_bind [OF effects_release], goal_cases)
  case (1 e new)
  then show ?case using released_once [where linked = linked and owner = owner and cfg = cfg] by auto
next
  case (2 a new)
  obtain forbidden audit1 where a: "a = (forbidden, audit1)" by (cases a)
  have rest: "effects acted (io_bind (sleep_step P (wc_admit_wait cfg)) (\<lambda>_. redetect P cfg attempts current audit2))
    (\<lambda>r new. new = {#})" for audit2
    by (intro effects_bind [OF effects_reads(3)] effects_mono [OF effects_redetect]) auto
  have "effects acted (io_bind (pt_invoke P (wc_watched_agent cfg)) (\<lambda>_. io_bind (sleep_step P (wc_admit_wait cfg))
      (\<lambda>_. redetect P cfg attempts current audit2))) (\<lambda>r new2. new2 = {#Invoked (wc_watched_agent cfg)#})" for audit2
    by (intro effects_bind [OF effects_invoke] effects_mono [OF rest]) auto
  note invoke = effects_mono [OF this]
  from 2 have once: "restart_calls cfg owner linked 1 new"
    "restart_calls cfg owner linked 1 (new + {#Invoked (wc_watched_agent cfg)#})"
    using released_once [where linked = linked and owner = owner and cfg = cfg] by fastforce+
  show ?case
  proof (cases forbidden)
    case True
    then show ?thesis using once(1) by (simp add: a effects_return)
  next
    case False
    then show ?thesis unfolding a prod.case if_False using once(2) by (simp only: if_False) (rule invoke, simp only:)
  qed
qed

lemma effects_backoff: "effects acted (backoff_step P plan attempts audit) (\<lambda>r new. new = {#})"
  unfolding backoff_step_def
  by (auto intro!: effects_return effects_bind [OF effects_reads(3)] split: option.split)

lemma effects_loop:
  "effects acted (restart_loop P cfg owner linked attempts current audit)
    (\<lambda>r new. restart_calls cfg owner linked (nat (wc_max_attempts cfg - attempts)) new
      \<and> (rp_action (watchdog_plan cfg current attempts) \<noteq> Release_Restart \<longrightarrow> new = {#}))"
proof (induction "nat (wc_max_attempts cfg - attempts)" arbitrary: attempts current audit rule: less_induct)
  case less
  let ?plan = "watchdog_plan cfg current attempts"
  let ?n = "nat (wc_max_attempts cfg - attempts)"
  show ?case
  proof (cases "rp_action ?plan = Release_Restart")
    case True
    then have left: "nat (wc_max_attempts cfg - (attempts + 1)) + 1 = ?n" using restart_plan(1) by fastforce
    have once: "restart_calls cfg owner linked ?n x" if "restart_calls cfg owner linked 1 x" for x
      by (rule restart_calls_mono [OF that]) (use left in simp)
    have more: "effects acted (case res of Stop e \<Rightarrow> io_return e
        | Again v audit2 \<Rightarrow> restart_loop P cfg owner linked (attempts + 1) v audit2)
      (\<lambda>r new2. restart_calls cfg owner linked ?n (new + new2))" if "restart_calls cfg owner linked 1 new" for res new
    proof (cases res)
      case (Stop e)
      with once [OF that] show ?thesis by (auto intro!: effects_return)
    next
      case (Again v audit2)
      have added: "restart_calls cfg owner linked ?n (new + x)"
        if "restart_calls cfg owner linked (nat (wc_max_attempts cfg - (attempts + 1))) x" for x
        using restart_calls_add [OF \<open>restart_calls cfg owner linked 1 new\<close> that] left by (simp add: add.commute)
      show ?thesis unfolding Again attempt_end.case
        by (rule effects_mono [OF less]) (use left added in auto)
    qed
    show ?thesis
      by (subst restart_loop.simps)
        (use True once in \<open>auto simp: Let_def intro!: effects_bind [OF effects_backoff] effects_bind [OF effects_attempt] more\<close>)
  next
    case False
    then show ?thesis by (subst restart_loop.simps) (auto simp: Let_def intro: effects_return restart_calls_none)
  qed
qed

lemma effects_end:
  "effects acted (escalate_and_end P cfg v attempts reason forbidden extra audit) (ending_calls cfg)"
  unfolding escalate_and_end_def Let_def
  by (intro effects_bind [OF effects_escalate])
    (auto intro!: effects_bind [OF effects_post] effects_return ending_approved)

lemma effects_comment:
  "(\<And>audit1. wo_action (f audit1) \<noteq> Was_Escalated) \<Longrightarrow>
    effects acted (io_bind (post_noted P (wc_issue cfg) body audit) (\<lambda>audit1. io_return (f audit1))) (ending_calls cfg)"
  by (rule effects_bind [OF effects_post]) (auto intro!: effects_return ending_plain)

lemma effects_finish: "effects acted (finish_loop P cfg v owner res) (ending_calls cfg)"
  by (cases res) (simp_all add: finish_loop_def Let_def effects_end effects_comment)

lemma effects_restart:
  assumes "may_restart cfg prior v owner"
  shows "effects acted (release_restart_loop P cfg v owner (rv_linked_issue v) prior audit)
    (\<lambda>r new. \<exists>restarts ending. new = restarts + ending \<and> ending_calls cfg r ending
      \<and> restart_calls cfg owner (rv_linked_issue v) (nat (wc_max_attempts cfg - prior)) restarts)"
  unfolding release_restart_loop_def
proof (rule effects_bind [OF effects_loop], goal_cases)
  case (1 e new)
  then show ?case by (intro exI [of _ new] exI [of _ "{#}"]) (auto intro: ending_plain)
next
  case (2 res new)
  show ?case
    by (rule effects_mono [OF effects_finish], rule exI [of _ new], rule exI) (use 2 in simp)
qed

lemma effects_verdict: "effects acted (act_on_verdict P cfg prior v audit) (verdict_calls cfg prior v)"
proof -
  have plan: "rv_verdict v = Healthy \<Longrightarrow> rp_action (watchdog_plan cfg v prior) = Noop"
    by (simp add: watchdog_plan_def plan_recovery_def)
  have ending: "effects acted m (ending_calls cfg) \<Longrightarrow> rv_verdict v \<noteq> Healthy \<Longrightarrow> effects acted m (verdict_calls cfg prior v)" for m
    by (rule effects_mono, assumption, unfold verdict_calls_def) (metis empty_neutral(1))
  have restart: "rp_action (watchdog_plan cfg v prior) = Release_Restart \<Longrightarrow> rv_owner v = Some owner \<Longrightarrow>
      owner \<noteq> wc_watched_agent cfg \<Longrightarrow>
      effects acted (release_restart_loop P cfg v owner (rv_linked_issue v) prior audit1) (verdict_calls cfg prior v)" for owner audit1
    using restart_plan(2) by (intro effects_mono [OF effects_restart]) (fastforce simp: may_restart_def verdict_calls_def)+
  have quiet: "wo_action out \<noteq> Was_Escalated \<Longrightarrow> effects acted (io_return out) (verdict_calls cfg prior v)" for out
    by (rule effects_return) (auto simp: verdict_calls_def intro: ending_plain)
  show ?thesis
  proof (cases "rp_action (watchdog_plan cfg v prior)")
    case Noop
    have watch: "rv_verdict v = Suspicious \<Longrightarrow> effects acted (io_bind (post_noted P (wc_issue cfg) body audit0)
        (\<lambda>audit1. io_return (outcome Was_Noop (Some v) 0 False body audit1))) (verdict_calls cfg prior v)" for body audit0
      by (rule ending) (simp_all add: effects_comment)
    show ?thesis unfolding act_on_verdict_def Let_def Noop recovery_action.case
      by (rule effects_if, erule watch, rule quiet, simp)
  next
    case Release_Restart
    then have "rv_verdict v \<noteq> Healthy" using plan by auto
    then show ?thesis using Release_Restart
      by (auto simp: act_on_verdict_def Let_def intro: ending effects_end restart)
  next
    case Escalate_Board
    then have "rv_verdict v \<noteq> Healthy" using plan by auto
    then show ?thesis using Escalate_Board
      by (auto simp: act_on_verdict_def Let_def intro: ending effects_end)
  qed
qed

text \<open>A whole fire: it does nothing, or it acts on the verdict of its first probe.\<close>

lemma fire_calls:
  assumes "run_watchdog P cfg prior dry w = (r, w3)"
  shows "\<exists>new. acted w3 = acted w + new
    \<and> ((new = {#} \<and> (\<forall>out. r = Inr out \<longrightarrow> wo_action out \<noteq> Was_Escalated))
      \<or> (\<not> dry \<and> (\<exists>now w1 p w2 v. pt_clock P w = (Inr now, w1) \<and> pt_probe P w1 = (Inr p, w2)
           \<and> chain_get (lp_chain p) (wc_watched_agent cfg) \<noteq> None \<and> classify_probe cfg now p = Some v
           \<and> verdict_calls cfg prior v r new)))"
proof -
  obtain rc w1 where clock: "pt_clock P w = (rc, w1)" by (cases "pt_clock P w")
  obtain rp w2 where probe: "pt_probe P w1 = (rp, w2)" by (cases "pt_probe P w1")
  have same: "acted w1 = acted w" "acted w2 = acted w1"
    using clock_reads [of w] probe_reads [of w1] by (simp_all add: clock probe)
  show ?thesis
  proof (cases "\<exists>now p v. rc = Inr now \<and> rp = Inr p \<and> chain_get (lp_chain p) (wc_watched_agent cfg) \<noteq> None
      \<and> classify_probe cfg now p = Some v \<and> \<not> dry")
    case True
    then obtain now p v where v: "rc = Inr now" "rp = Inr p" "chain_get (lp_chain p) (wc_watched_agent cfg) \<noteq> None"
      "classify_probe cfg now p = Some v" "\<not> dry" by blast
    then have "act_on_verdict P cfg prior v [] w2 = (r, w3)"
      using assms clock probe by (auto simp: run_watchdog_def io_bind_def Let_def)
    from effectsD [OF effects_verdict this] show ?thesis using v clock probe same by auto
  next
    case False
    then have "w3 \<in> {w1, w2} \<and> (\<forall>out. r = Inr out \<longrightarrow> wo_action out \<noteq> Was_Escalated)"
      using assms clock probe
      by (auto simp: run_watchdog_def io_bind_def io_return_def outcome_def finish_dry_run_def Let_def
        split: sum.splits if_splits option.splits)
    with same show ?thesis by auto
  qed
qed

end

section \<open>Ports whose calls are written down\<close>

text \<open>The log holds the calls made, in order, the failed ones included.\<close>

definition silent_call :: "('w, 'a) io \<Rightarrow> ('w \<times> port_call list, 'a) io" where
  "silent_call m wl = (case m (fst wl) of (r, w1) \<Rightarrow> (r, (w1, snd wl)))"

definition noted_call :: "port_call \<Rightarrow> ('w, 'a) io \<Rightarrow> ('w \<times> port_call list, 'a) io" where
  "noted_call c m wl = (case m (fst wl) of (r, w1) \<Rightarrow> (r, (w1, snd wl @ [c])))"

definition logged :: "'w watchdog_ports \<Rightarrow> ('w \<times> port_call list) watchdog_ports" where
  "logged P =
    \<lparr>pt_probe = silent_call (pt_probe P),
     pt_release = (\<lambda>i owner. noted_call (Released i owner) (pt_release P i owner)),
     pt_invoke = (\<lambda>a. noted_call (Invoked a) (pt_invoke P a)),
     pt_approve = (\<lambda>rq. noted_call Approval_Asked (pt_approve P rq)),
     pt_comment = (\<lambda>i b. noted_call (Commented i b) (pt_comment P i b)),
     pt_clock = silent_call (pt_clock P),
     pt_sleep = (\<lambda>t wl. (pt_sleep P t (fst wl), snd wl))\<rparr>"

interpretation logged: liveness_ports "logged P" "mset \<circ> snd" for P :: "'w watchdog_ports"
  by unfold_locales (auto simp: logged_def silent_call_def noted_call_def split: prod.split)

text \<open>The doubles of the unit tests keep the contract, too.\<close>

definition scripted_acts :: "scripted_world \<Rightarrow> port_call multiset" where
  "scripted_acts w = mset (map (\<lambda>(i, owner). Released i owner) (sw_releases w)) + mset (map Invoked (sw_invokes w))
     + replicate_mset (length (sw_approvals w)) Approval_Asked + mset (map (\<lambda>(i, b). Commented i b) (sw_comments w))"

interpretation scripted: liveness_ports scripted_ports scripted_acts
  by unfold_locales
    (auto simp: scripted_ports_def scripted_acts_def scripted_probe_def recording_release_def recording_invoke_def
      recording_approval_def recording_comment_def Let_def)

end
