(* ===== verification/Watchdog_Properties.thy ===== *)
theory Watchdog_Properties
  imports Watchdog_Safety
begin

text \<open>
  The properties of the liveness tooling: what a fire of the watchdog may do and when, where an error
  of a restart leaves it, what a review issue without a readable start does, and that the alerts of
  the heartbeat monitor and the verdicts of the watchdog agree.
\<close>

section \<open>What a fire may do\<close>

lemma comment_counts:
  assumes "comment_calls cfg new"
  shows "\<not> (\<exists>c \<in># new. is_release c \<or> is_invocation c \<or> is_approval c)" "size (filter_mset is_comment new) \<le> 1"
  using assms by (auto simp: comment_calls_def)

lemma filter_replicate_mset: "filter_mset Q (replicate_mset n x) = (if Q x then replicate_mset n x else {#})"
  by (induction n) auto

lemma restart_counts:
  assumes "restart_calls cfg owner linked n new"
  shows "size (filter_mset is_release new) \<le> n" "size (filter_mset is_invocation new) \<le> n"
    "\<not> (\<exists>c \<in># new. is_approval c \<or> is_comment c)"
    "Released i oid \<in># new \<Longrightarrow> linked = Some i \<and> oid = owner" "Invoked a \<in># new \<Longrightarrow> a = wc_watched_agent cfg"
  using assms unfolding restart_calls_def by (auto simp: filter_replicate_mset split: if_splits)

lemma no_calls: "\<not> (\<exists>c \<in># new. Q c) \<Longrightarrow> filter_mset Q new = {#}"
  by (metis filter_mset_False filter_mset_cong)

lemma verdict_counts:
  assumes "verdict_calls cfg prior v r new"
  shows "size (filter_mset is_release new) \<le> nat (wc_max_attempts cfg - prior)"
    "size (filter_mset is_invocation new) \<le> nat (wc_max_attempts cfg - prior)"
    "size (filter_mset is_approval new) \<le> 1" "size (filter_mset is_comment new) \<le> 1"
    "Released i oid \<in># new \<Longrightarrow> may_restart cfg prior v oid \<and> rv_linked_issue v = Some i"
    "Invoked a \<in># new \<Longrightarrow> a = wc_watched_agent cfg \<and> (\<exists>owner. may_restart cfg prior v owner)"
    "r = Inr out \<Longrightarrow> Approval_Asked \<in># new \<longleftrightarrow> wo_action out = Was_Escalated"
proof -
  from assms obtain restarts approvals comments where parts: "new = restarts + (approvals + comments)"
    "restarts = {#} \<or> (\<exists>owner. may_restart cfg prior v owner
       \<and> restart_calls cfg owner (rv_linked_issue v) (nat (wc_max_attempts cfg - prior)) restarts)"
    "approvals = {#} \<or> approvals = {#Approval_Asked#}" "comment_calls cfg comments"
    "\<And>out. r = Inr out \<Longrightarrow> approvals \<noteq> {#} \<longleftrightarrow> wo_action out = Was_Escalated"
    unfolding verdict_calls_def ending_calls_def by blast
  note comments = comment_counts [OF parts(4)]
  obtain owner where restarts: "restart_calls cfg owner (rv_linked_issue v) (nat (wc_max_attempts cfg - prior)) restarts"
    "restarts \<noteq> {#} \<Longrightarrow> may_restart cfg prior v owner"
    using parts(2) restart_calls_none by metis
  note counts = restart_counts [OF restarts(1)]
  have none: "filter_mset is_release comments = {#}" "filter_mset is_invocation comments = {#}"
    "filter_mset is_approval comments = {#}" "filter_mset is_approval restarts = {#}" "filter_mset is_comment restarts = {#}"
    using comments(1) counts(3) by (auto intro!: no_calls)
  show "size (filter_mset is_release new) \<le> nat (wc_max_attempts cfg - prior)"
    "size (filter_mset is_invocation new) \<le> nat (wc_max_attempts cfg - prior)"
    "size (filter_mset is_approval new) \<le> 1" "size (filter_mset is_comment new) \<le> 1"
    using counts(1,2) comments(2) parts(3) by (auto simp: parts(1) none)
  show "may_restart cfg prior v oid \<and> rv_linked_issue v = Some i" if "Released i oid \<in># new"
    using that comments(1) parts(3) counts(4) restarts(2) by (fastforce simp: parts(1))
  show "a = wc_watched_agent cfg \<and> (\<exists>owner. may_restart cfg prior v owner)" if "Invoked a \<in># new"
    using that comments(1) parts(3) counts(5) restarts(2) by (fastforce simp: parts(1))
  show "Approval_Asked \<in># new \<longleftrightarrow> wo_action out = Was_Escalated" if "r = Inr out"
    using parts(3) parts(5) [OF that] comments(1) counts(3) by (auto simp: parts(1))
qed

text \<open>C30. One fire of the watchdog, whatever the control plane answers and however often calls fail,
  asks for releases and restarts at most as often as attempts are left, asks for at most one board
  approval and posts at most one comment.  It never hands a release to the watched agent itself,
  restarts nobody else, and asks for an approval exactly when its outcome says escalated.  The
  calls are those made, the failed ones included: when the control plane refuses the approval, none
  is opened and the outcome says escalated all the same (\<open>refused_approval_escalates\<close>).\<close>

theorem watchdog_fire_bounded:
  assumes "run_watchdog (logged P) cfg prior dry (w, []) = (r, (w1, calls))"
  shows "length (filter is_release calls) \<le> nat (wc_max_attempts cfg - prior)
    \<and> length (filter is_invocation calls) \<le> nat (wc_max_attempts cfg - prior)
    \<and> length (filter is_approval calls) \<le> 1 \<and> length (filter is_comment calls) \<le> 1
    \<and> Released i (wc_watched_agent cfg) \<notin> set calls
    \<and> (Invoked a \<in> set calls \<longrightarrow> a = wc_watched_agent cfg)
    \<and> (r = Inr out \<longrightarrow> (Approval_Asked \<in> set calls \<longleftrightarrow> wo_action out = Was_Escalated))"
proof -
  have size: "length (filter Q calls) = size (filter_mset Q (mset calls))" for Q by (metis mset_filter size_mset)
  have elem: "c \<in> set calls \<longleftrightarrow> c \<in># mset calls" for c by simp
  from logged.fire_calls [OF assms] consider
      "mset calls = {#}" "\<And>out. r = Inr out \<Longrightarrow> wo_action out \<noteq> Was_Escalated"
    | v where "verdict_calls cfg prior v r (mset calls)"
    by auto
  then show ?thesis
  proof cases
    case 1
    then show ?thesis by auto
  next
    case (2 v)
    note counts = verdict_counts [OF 2]
    have "\<not> may_restart cfg prior v (wc_watched_agent cfg)" by (simp add: may_restart_def)
    then show ?thesis using counts unfolding size elem by blast
  qed
qed

text \<open>C31. A fire touches the outside only when it is no dry run, the watched agent is in the chain of
  command and its first probe shows a run that is not healthy.  It releases or restarts only a run
  that is stuck, younger than the escalation age, with attempts left and another agent as owner, and
  it releases the issue of that run.\<close>

theorem watchdog_acts_only_when_stuck:
  assumes "run_watchdog (logged P) cfg prior dry (w, []) = (r, (w3, calls))" "calls \<noteq> []"
  shows "\<exists>now w1 p w2 v. pt_clock P w = (Inr now, w1) \<and> pt_probe P w1 = (Inr p, w2)
    \<and> \<not> dry \<and> chain_get (lp_chain p) (wc_watched_agent cfg) \<noteq> None
    \<and> classify_probe cfg now p = Some v \<and> rv_verdict v \<noteq> Healthy
    \<and> (\<forall>c \<in> set calls. is_release c \<or> is_invocation c \<longrightarrow>
         rv_verdict v = Stuck \<and> rv_age v < lt_escalate (wc_thresholds cfg) \<and> prior < wc_max_attempts cfg
         \<and> (\<exists>owner. rv_owner v = Some owner \<and> owner \<noteq> wc_watched_agent cfg
             \<and> (\<forall>i oid. c = Released i oid \<longrightarrow> oid = owner \<and> rv_linked_issue v = Some i)))"
proof -
  from logged.fire_calls [OF assms(1)] assms(2) obtain now l1 p l2 v where
    fire: "\<not> dry" "pt_clock (logged P) (w, []) = (Inr now, l1)" "pt_probe (logged P) l1 = (Inr p, l2)"
      "chain_get (lp_chain p) (wc_watched_agent cfg) \<noteq> None" "classify_probe cfg now p = Some v"
    and calls: "verdict_calls cfg prior v r (mset calls)"
    by auto
  from fire(2,3) obtain w1 w2 where ports: "pt_clock P w = (Inr now, w1)" "pt_probe P w1 = (Inr p, w2)"
    by (auto simp: logged_def silent_call_def split: prod.splits)
  have bad: "rv_verdict v \<noteq> Healthy" using calls assms(2) by (auto simp: verdict_calls_def)
  have may: "rv_verdict v = Stuck \<and> rv_age v < lt_escalate (wc_thresholds cfg) \<and> prior < wc_max_attempts cfg
      \<and> rv_owner v = Some owner \<and> owner \<noteq> wc_watched_agent cfg" if "may_restart cfg prior v owner" for owner
    using that restart_plan unfolding may_restart_def by blast
  have each: "rv_verdict v = Stuck \<and> rv_age v < lt_escalate (wc_thresholds cfg) \<and> prior < wc_max_attempts cfg
      \<and> (\<exists>owner. rv_owner v = Some owner \<and> owner \<noteq> wc_watched_agent cfg
        \<and> (\<forall>i oid. c = Released i oid \<longrightarrow> oid = owner \<and> rv_linked_issue v = Some i))"
    if "c \<in> set calls" "is_release c \<or> is_invocation c" for c
  proof (cases c)
    case (Released i oid)
    then show ?thesis using may verdict_counts(5) [OF calls, of i oid] that(1) by auto
  next
    case (Invoked a)
    then show ?thesis using may verdict_counts(6) [OF calls, of a] that(1) by auto
  qed (use that(2) in simp_all)
  from each have all: "\<forall>c \<in> set calls. is_release c \<or> is_invocation c \<longrightarrow>
      rv_verdict v = Stuck \<and> rv_age v < lt_escalate (wc_thresholds cfg) \<and> prior < wc_max_attempts cfg
      \<and> (\<exists>owner. rv_owner v = Some owner \<and> owner \<noteq> wc_watched_agent cfg
        \<and> (\<forall>i oid. c = Released i oid \<longrightarrow> oid = owner \<and> rv_linked_issue v = Some i))"
    by (intro ballI impI)
  show ?thesis by (intro exI conjI) (rule ports fire(1,4,5) bad all)+
qed

section \<open>Errors of a restart\<close>

lemma logged_simps [simp]:
  "pt_clock (logged P) wl = (case pt_clock P (fst wl) of (r, w1) \<Rightarrow> (r, (w1, snd wl)))"
  "pt_probe (logged P) wl = (case pt_probe P (fst wl) of (r, w1) \<Rightarrow> (r, (w1, snd wl)))"
  "pt_release (logged P) i oid wl = (case pt_release P i oid (fst wl) of (r, w1) \<Rightarrow> (r, (w1, snd wl @ [Released i oid])))"
  "pt_invoke (logged P) a wl = (case pt_invoke P a (fst wl) of (r, w1) \<Rightarrow> (r, (w1, snd wl @ [Invoked a])))"
  "pt_approve (logged P) rq wl = (case pt_approve P rq (fst wl) of (r, w1) \<Rightarrow> (r, (w1, snd wl @ [Approval_Asked])))"
  by (simp_all add: logged_def silent_call_def noted_call_def)

text \<open>A fire up to its verdict.\<close>

lemma fire_reaches_verdict:
  assumes "pt_clock P w = (Inr now, w1)" "pt_probe P w1 = (Inr p, w2)"
    and "chain_get (lp_chain p) (wc_watched_agent cfg) \<noteq> None" "classify_probe cfg now p = Some v"
  shows "run_watchdog (logged P) cfg prior False (w, []) = act_on_verdict (logged P) cfg prior v [] (w2, [])"
  using assms by (auto simp: run_watchdog_def io_bind_def Let_def)

lemma act_restart:
  "may_restart cfg prior v owner \<Longrightarrow>
    \<exists>audit. act_on_verdict P cfg prior v [] = release_restart_loop P cfg v owner (rv_linked_issue v) prior audit"
  by (auto simp: act_on_verdict_def may_restart_def Let_def)

lemma first_attempt_fails:
  assumes "may_restart cfg 0 v owner" "attempt_once P cfg owner linked 1 v audit w = (Inl e, w1)"
  shows "restart_loop P cfg owner linked 0 v audit w = (Inl e, w1)"
proof -
  let ?plan = "watchdog_plan cfg v 0"
  have "backoff_step P ?plan 0 audit = io_return audit"
    by (simp add: backoff_step_def watchdog_plan_def plan_recovery_def Let_def backoff_delay_def)
  then show ?thesis
    using assms by (subst restart_loop.simps) (simp add: Let_def may_restart_def io_bind_def)
qed

text \<open>An error of the restart call ends the fire right there, also a recovery error which is not a
  refused release: the issue is released and the agent not restarted, no approval is opened, no
  comment posted, and the attempts that are left are not made.\<close>

theorem restart_error_ends_fire:
  assumes "pt_clock P w = (Inr now, w1)" "pt_probe P w1 = (Inr p, w2)"
    and "chain_get (lp_chain p) (wc_watched_agent cfg) \<noteq> None" "classify_probe cfg now p = Some v"
    and "may_restart cfg 0 v owner" "rv_linked_issue v = Some i"
    and "pt_release P i owner w2 = (Inr (), w3)" "pt_invoke P (wc_watched_agent cfg) w3 = (Inl e, w4)"
  shows "run_watchdog (logged P) cfg 0 False (w, []) = (Inl e, (w4, [Released i owner, Invoked (wc_watched_agent cfg)]))"
proof -
  have "attempt_once (logged P) cfg owner (Some i) 1 v audit (w2, []) =
      (Inl e, (w4, [Released i owner, Invoked (wc_watched_agent cfg)]))" for audit
    using assms(7,8) by (simp add: attempt_once_def release_step_def io_bind_def)
  then have "restart_loop (logged P) cfg owner (Some i) 0 v audit (w2, []) =
      (Inl e, (w4, [Released i owner, Invoked (wc_watched_agent cfg)]))" for audit
    by (rule first_attempt_fails [OF assms(5)])
  then have loop: "release_restart_loop (logged P) cfg v owner (rv_linked_issue v) 0 audit (w2, []) =
      (Inl e, (w4, [Released i owner, Invoked (wc_watched_agent cfg)]))" for audit
    by (simp add: release_restart_loop_def io_bind_def assms(6))
  obtain audit where "act_on_verdict (logged P) cfg 0 v [] =
      release_restart_loop (logged P) cfg v owner (rv_linked_issue v) 0 audit"
    using act_restart [OF assms(5)] by blast
  then show ?thesis using loop fire_reaches_verdict [OF assms(1-4)] by simp
qed

section \<open>A start that cannot be read\<close>

lemma comment_log:
  "\<exists>rest. snd (snd (post_noted (logged P) issue body audit wl)) = snd wl @ rest \<and> (\<forall>c \<in> set rest. is_comment c)"
  by (auto simp: post_noted_def logged_def noted_call_def split: option.split prod.split sum.split)

lemma approval_log: "snd (snd (escalate (logged P) cfg v n reason audit wl)) = snd wl @ [Approval_Asked]"
  by (auto simp: escalate_def split: prod.split sum.split option.split)

lemma ending_log:
  "\<exists>rest. snd (snd (escalate_and_end (logged P) cfg v n reason forbidden extra audit wl)) = snd wl @ Approval_Asked # rest
    \<and> (\<forall>c \<in> set rest. is_comment c)"
proof -
  obtain r w1 calls where esc: "escalate (logged P) cfg v n reason audit wl = (r, (w1, calls))"
    by (metis prod.collapse)
  have calls: "calls = snd wl @ [Approval_Asked]" using approval_log [of P cfg v n reason audit wl] by (simp add: esc)
  show ?thesis
  proof (cases r)
    case (Inl e)
    then show ?thesis using calls by (simp add: escalate_and_end_def io_bind_def esc)
  next
    case (Inr x)
    obtain approval audit1 where x: "x = (approval, audit1)" by (cases x)
    let ?body = "comment_escalate cfg v n approval forbidden extra"
    obtain rest where "snd (snd (post_noted (logged P) (wc_issue cfg) ?body audit1 (w1, calls))) = calls @ rest"
      "\<forall>c \<in> set rest. is_comment c"
      using comment_log [of P "wc_issue cfg" ?body audit1 "(w1, calls)"] by auto
    then show ?thesis
      using calls
      by (auto simp: escalate_and_end_def io_bind_def esc Inr x Let_def split: prod.splits sum.splits)
  qed
qed

lemma epoch_run_aborts:
  assumes "hr_triggered_at run = 0" "60 * lt_abort th \<le> now"
  shows "rv_verdict (classify_run run now stuck chain th False False False fallback) = Abort"
  using assms by (auto simp: classify_run_def age_minutes_def Let_def)

text \<open>A review issue whose body names no start that can be read is not taken for a run of unknown
  age: its run counts as started at the epoch, so every fire that is no dry run aborts on it and asks
  the board, without one attempt to restart the agent.\<close>

theorem unreadable_start_escalates:
  assumes "parse_iso8601 fromiso (parse_started_at (py_str_opt (py_get review ''description''))) = None"
    and "pt_clock P w = (Inr now, w1)" "pt_probe P w1 = (Inr p, w2)" "60 * lt_abort (wc_thresholds cfg) \<le> now"
    and "chain_get (lp_chain p) (wc_watched_agent cfg) \<noteq> None"
    and "lp_run p = Some (stale_run_of show fromiso review)" "lp_all_runs p = [stale_run_of show fromiso review]"
    and "\<not> lp_terminal p" "\<not> lp_missing p"
  shows "\<exists>v. classify_probe cfg now p = Some v \<and> rv_verdict v = Abort
    \<and> (\<exists>rest. snd (snd (run_watchdog (logged P) cfg prior False (w, []))) = Approval_Asked # rest
         \<and> (\<forall>c \<in> set rest. is_comment c))"
proof -
  let ?run = "stale_run_of show fromiso review"
  obtain v where v: "classify_probe cfg now p = Some v" "rv_verdict v = Abort"
    using epoch_run_aborts [of ?run "wc_thresholds cfg" now "wc_watched_agent cfg" "lp_chain p" "wc_fallback_owner cfg"] assms
    by (auto simp: classify_probe_def is_superseded_by_newer_base_run_def stale_run_of_def)
  let ?out = "act_on_verdict (logged P) cfg prior v [] (w2, [])"
  have plan: "rp_action (watchdog_plan cfg v prior) = Escalate_Board"
    by (simp add: watchdog_plan_def plan_recovery_def v(2))
  have "\<exists>rest. snd (snd ?out) = Approval_Asked # rest \<and> (\<forall>c \<in> set rest. is_comment c)"
    using ending_log [of _ _ _ _ _ _ _ _ "(w2, [])"] by (simp add: act_on_verdict_def plan Let_def)
  with v fire_reaches_verdict [OF assms(2,3,5) v(1)] show ?thesis by auto
qed

section \<open>Alerts and verdicts\<close>

lemma set_sort_descending [simp]: "set (sort_descending key xs) = set xs"
  by (simp add: sort_descending_def)

lemma alert_in:
  "a \<in> set (detect_silent_runs warning critical runs now) \<longleftrightarrow>
    (\<exists>run \<in> set runs. silent_alert_of runs now warning critical run = Some a)"
  by (force simp: detect_silent_runs_def List.map_filter_def)

lemma silent_alert_run:
  assumes "silent_alert_of runs now warning critical run = Some a"
  shows "sa_run a = run" "in_flight run" "\<not> is_superseded_by_newer_base_run run runs"
    "sa_age a = max 0 ((now - hr_triggered_at run) / 60)"
  using assms by (auto simp: silent_alert_of_def age_minutes_def split: if_splits)

text \<open>The monitor and the watchdog agree: with the thresholds in order, a run in flight has a silent
  run alert exactly when the watchdog, given the same window and an open linked issue, calls it not
  healthy.  All alerts of one scrape have the same age, so an older run in flight is never reported
  next to a newer one.\<close>

theorem alert_iff_not_healthy:
  assumes "run \<in> set runs" "in_flight run" "distinct (map hr_id runs)"
    and "lt_suspicious th \<le> critical" "lt_suspicious th \<le> lt_stuck th" "lt_stuck th \<le> lt_abort th"
  shows "((\<exists>a \<in> set (detect_silent_runs (lt_suspicious th) critical runs now). sa_run a = run) \<longleftrightarrow>
      rv_verdict (classify_run run now stuck chain th False (is_superseded_by_newer_base_run run runs) False fallback) \<noteq> Healthy)
    \<and> (\<forall>a \<in> set (detect_silent_runs (lt_suspicious th) critical runs now).
         \<forall>b \<in> set (detect_silent_runs (lt_suspicious th) critical runs now). sa_age a = sa_age b)"
proof -
  let ?alert = "silent_alert_of runs now (lt_suspicious th) critical"
  have "(\<exists>a. ?alert run = Some a) \<longleftrightarrow>
      rv_verdict (classify_run run now stuck chain th False (is_superseded_by_newer_base_run run runs) False fallback) \<noteq> Healthy"
    using assms(2,4-6) by (auto simp: silent_alert_of_def classify_run_def age_minutes_def Let_def)
  then have agree: "(\<exists>a \<in> set (detect_silent_runs (lt_suspicious th) critical runs now). sa_run a = run) \<longleftrightarrow>
      rv_verdict (classify_run run now stuck chain th False (is_superseded_by_newer_base_run run runs) False fallback) \<noteq> Healthy"
    using assms(1) by (metis alert_in silent_alert_run(1))
  have "sa_age a = sa_age b" if "a \<in> set (detect_silent_runs (lt_suspicious th) critical runs now)"
    "b \<in> set (detect_silent_runs (lt_suspicious th) critical runs now)" for a b
  proof -
  from that obtain x y where xy: "x \<in> set runs" "?alert x = Some a" "y \<in> set runs" "?alert y = Some b"
    unfolding alert_in by blast
  note x = silent_alert_run [OF xy(2)] and y = silent_alert_run [OF xy(4)]
  have "hr_triggered_at x = hr_triggered_at y"
  proof (cases "hr_id x = hr_id y")
    case True
    then show ?thesis using assms(3) xy(1,3) by (metis distinct_map inj_onD)
  next
    case False
    then have "\<not> hr_triggered_at y > hr_triggered_at x" "\<not> hr_triggered_at x > hr_triggered_at y"
      using x(2,3) y(2,3) xy(1,3) unfolding is_superseded_by_newer_base_run_def in_flight_def list_ex_iff by metis+
    then show ?thesis by simp
  qed
  then show ?thesis using x(4) y(4) by simp
  qed
  with agree show ?thesis by blast
qed

section \<open>Concrete fires\<close>

definition demo_chain :: chain_of_command where
  "demo_chain = chain_from_agents [\<lparr>an_id = ''ceo'', an_name = ''CEO'', an_reports_to = None\<rparr>,
     \<lparr>an_id = ''arch'', an_name = ''Architect'', an_reports_to = Some ''ceo''\<rparr>]"

definition demo_watch :: watchdog_config where
  "demo_watch = \<lparr>wc_watched_agent = ''arch'', wc_watched_routine = None, wc_watched_name = Some ''Architect'',
     wc_fallback_owner = None, wc_issue = Some ''W'', wc_project = None, wc_goal = None,
     wc_thresholds = LivenessThresholds, wc_max_attempts = DEFAULT_MAX_ATTEMPTS, wc_backoff = DEFAULT_BACKOFF_SECONDS,
     wc_admit_wait = DEFAULT_ADMIT_WAIT_SECONDS\<rparr>"

definition demo_run :: "string \<Rightarrow> rat \<Rightarrow> heartbeat_run" where
  "demo_run name triggered = \<lparr>hr_id = name, hr_status = ''running'', hr_triggered_at = triggered, hr_completed_at = None,
     hr_linked_id = Some ''I'', hr_linked_identifier = None, hr_linked_title = None, hr_linked_status = None,
     hr_coalesced_into = None, hr_failure_reason = None\<rparr>"

text \<open>A run that is 25 minutes old and never recovers.\<close>

definition demo_stuck :: liveness_probe where
  "demo_stuck = \<lparr>lp_run = Some (demo_run ''r'' 0), lp_all_runs = [demo_run ''r'' 0], lp_chain = demo_chain,
     lp_terminal = False, lp_missing = False\<rparr>"

definition demo_fire_world :: scripted_world where
  "demo_fire_world = \<lparr>sw_probes = [demo_stuck], sw_next = 0, sw_releases = [], sw_invokes = [], sw_approvals = [], sw_comments = [],
     sw_forbid_release = False, sw_now = 1500\<rparr>"

definition demo_fire :: "(ops_error + watchdog_outcome) \<times> scripted_world \<times> port_call list" where
  "demo_fire = run_watchdog (logged scripted_ports) demo_watch 0 False (demo_fire_world, [])"

lemma demo_fire_calls:
  "map is_release (snd (snd demo_fire)) = [True, False, True, False, True, False, False, False]"
  "map is_invocation (snd (snd demo_fire)) = [False, True, False, True, False, True, False, False]"
  "filter is_approval (snd (snd demo_fire)) = [Approval_Asked]" "length (filter is_comment (snd (snd demo_fire))) = 1"
  by code_simp+

lemma watchdog_fire_bounded_witness:
  "length (filter is_release (snd (snd demo_fire))) \<le> 3 \<and> length (filter is_approval (snd (snd demo_fire))) \<le> 1
    \<and> Released ''I'' ''arch'' \<notin> set (snd (snd demo_fire)) \<and> filter is_release (snd (snd demo_fire)) \<noteq> []"
proof -
  have "run_watchdog (logged scripted_ports) demo_watch 0 False (demo_fire_world, []) =
      (fst demo_fire, (fst (snd demo_fire), snd (snd demo_fire)))"
    by (simp add: demo_fire_def)
  from watchdog_fire_bounded [OF this, of "''I''"]
  have "length (filter is_release (snd (snd demo_fire))) \<le> 3" "length (filter is_approval (snd (snd demo_fire))) \<le> 1"
    "Released ''I'' ''arch'' \<notin> set (snd (snd demo_fire))"
    by (simp_all add: demo_watch_def DEFAULT_MAX_ATTEMPTS_def)
  moreover have "filter is_release (snd (snd demo_fire)) \<noteq> []" by code_simp
  ultimately show ?thesis by simp
qed

lemma watchdog_acts_only_when_stuck_witness:
  "\<exists>v. classify_probe demo_watch 1500 demo_stuck = Some v \<and> rv_verdict v \<noteq> Healthy"
proof -
  have fire: "run_watchdog (logged scripted_ports) demo_watch 0 False (demo_fire_world, []) =
      (fst demo_fire, (fst (snd demo_fire), snd (snd demo_fire)))"
    by (simp add: demo_fire_def)
  have acted: "snd (snd demo_fire) \<noteq> []" using demo_fire_calls(3) by auto
  have ports: "pt_clock scripted_ports demo_fire_world = (Inr 1500, demo_fire_world)"
    "fst (pt_probe scripted_ports demo_fire_world) = Inr demo_stuck"
    by (simp_all add: scripted_ports_def scripted_probe_def demo_fire_world_def)
  show ?thesis using watchdog_acts_only_when_stuck [OF fire acted] ports by auto
qed

text \<open>The same world with a control plane that does not take the restart.\<close>

definition demo_broken_ports :: "scripted_world watchdog_ports" where
  "demo_broken_ports = scripted_ports \<lparr>pt_invoke := (\<lambda>a w. (Inl (Action_Error ''HTTP 500''), w))\<rparr>"

lemma restart_error_ends_fire_witness:
  "snd (snd (run_watchdog (logged demo_broken_ports) demo_watch 0 False (demo_fire_world, []))) =
    [Released ''I'' ''ceo'', Invoked ''arch'']"
proof -
  let ?w2 = "demo_fire_world \<lparr>sw_next := 1\<rparr>" and ?w3 = "demo_fire_world \<lparr>sw_next := 1, sw_releases := [(''I'', ''ceo'')]\<rparr>"
  let ?v = "the (classify_probe demo_watch 1500 demo_stuck)"
  have v: "chain_get (lp_chain demo_stuck) (wc_watched_agent demo_watch) \<noteq> None"
    "classify_probe demo_watch 1500 demo_stuck = Some ?v" "may_restart demo_watch 0 ?v ''ceo''" "rv_linked_issue ?v = Some ''I''"
    by code_simp+
  have ports: "pt_clock demo_broken_ports demo_fire_world = (Inr 1500, demo_fire_world)"
    "pt_probe demo_broken_ports demo_fire_world = (Inr demo_stuck, ?w2)"
    "pt_release demo_broken_ports ''I'' ''ceo'' ?w2 = (Inr (), ?w3)"
    "pt_invoke demo_broken_ports (wc_watched_agent demo_watch) ?w3 = (Inl (Action_Error ''HTTP 500''), ?w3)"
    by (simp_all add: demo_broken_ports_def scripted_ports_def scripted_probe_def recording_release_def demo_fire_world_def)
  have "wc_watched_agent demo_watch = ''arch''" by (simp add: demo_watch_def)
  then show ?thesis using restart_error_ends_fire [OF ports(1,2) v ports(3,4)] by simp
qed

text \<open>And with one that does not take the approval: none is opened, and the outcome says escalated.\<close>

lemma refused_approval_escalates:
  "case run_watchdog (logged (scripted_ports \<lparr>pt_approve := (\<lambda>rq w. (Inl (Action_Error ''HTTP 500''), w))\<rparr>))
       demo_watch 0 False (demo_fire_world, []) of (r, w, calls) \<Rightarrow>
     (case r of Inl _ \<Rightarrow> False | Inr out \<Rightarrow> wo_action out = Was_Escalated)
     \<and> sw_approvals w = [] \<and> filter is_approval calls = [Approval_Asked]"
  by code_simp

text \<open>A control plane with one open review issue that names no start.\<close>

definition demo_review :: pydict where
  "demo_review = [(''status'', Py_Str ''todo''), (''originKind'', Py_Str STALE_RUN_ORIGIN_KIND), (''originRunId'', Py_Str ''r''),
     (''parentId'', Py_Str ''I''), (''description'', Py_Str ''Started at:'')]"

definition demo_control_plane :: "unit http_server" where
  "demo_control_plane rq w =
    (Http_Body
      (if rq_url rq = ''http://cp/api/companies/C/agents'' then
         Py_List [Py_Dict [(''id'', Py_Str ''arch''), (''name'', Py_Str ''Architect'')]]
       else if prefix ''http://cp/api/companies/C/issues?q='' (rq_url rq) then Py_List [Py_Dict demo_review]
       else Py_Dict [(''status'', Py_Str ''in_progress'')]), w)"

definition demo_ports :: "unit watchdog_ports" where
  "demo_ports = rest_ports (\<lambda>_. []) (\<lambda>_. None) demo_control_plane
     \<lparr>lr_api_url = ''http://cp/'', lr_api_key = ''k'', lr_company_id = ''C'', lr_watched_routine = None,
      lr_watched_name = Some ''Architect'', lr_run_limit = 20\<rparr>
     \<lparr>rc_api_url = ''http://cp/'', rc_api_key = ''k'', rc_company_id = ''C'', rc_run_id = None\<rparr> (\<lambda>_. 1800000000) (\<lambda>_ w. w)"

definition demo_review_probe :: liveness_probe where
  "demo_review_probe = projr (fst (pt_probe demo_ports ()))"

lemma unreadable_start_escalates_witness:
  "\<exists>rest. snd (snd (run_watchdog (logged demo_ports) demo_watch 0 False ((), []))) = Approval_Asked # rest"
proof -
  have clock: "pt_clock demo_ports () = (Inr 1800000000, ())" by (simp add: demo_ports_def rest_ports_def)
  have "is_ok (fst (pt_probe demo_ports ()))" by code_simp
  then have probe: "pt_probe demo_ports () = (Inr demo_review_probe, ())"
    by (cases "pt_probe demo_ports ()") (auto simp: demo_review_probe_def is_ok_iff)
  have facts: "parse_iso8601 (\<lambda>_. None) (parse_started_at (py_str_opt (py_get demo_review ''description''))) = None"
    "60 * lt_abort (wc_thresholds demo_watch) \<le> 1800000000"
    "chain_get (lp_chain demo_review_probe) (wc_watched_agent demo_watch) \<noteq> None"
    "lp_run demo_review_probe = Some (stale_run_of (\<lambda>_. []) (\<lambda>_. None) demo_review)"
    "lp_all_runs demo_review_probe = [stale_run_of (\<lambda>_. []) (\<lambda>_. None) demo_review]"
    "\<not> lp_terminal demo_review_probe" "\<not> lp_missing demo_review_probe"
    by code_simp+
  from unreadable_start_escalates [OF facts(1) clock probe facts(2-7), of 0] show ?thesis by blast
qed

lemma alert_iff_not_healthy_witness:
  "(\<exists>a \<in> set (detect_silent_runs 15 30 [demo_run ''r'' 0, demo_run ''s'' 600] 1500). sa_run a = demo_run ''s'' 600) \<longleftrightarrow>
    rv_verdict (classify_run (demo_run ''s'' 600) 1500 ''arch'' demo_chain LivenessThresholds False
      (is_superseded_by_newer_base_run (demo_run ''s'' 600) [demo_run ''r'' 0, demo_run ''s'' 600]) False None) \<noteq> Healthy"
proof -
  have run: "demo_run ''s'' 600 \<in> set [demo_run ''r'' 0, demo_run ''s'' 600]" by simp
  have flight: "in_flight (demo_run ''s'' 600)" "distinct (map hr_id [demo_run ''r'' 0, demo_run ''s'' 600])" by code_simp+
  have th: "lt_suspicious LivenessThresholds \<le> 30" "lt_suspicious LivenessThresholds \<le> lt_stuck LivenessThresholds"
    "lt_stuck LivenessThresholds \<le> lt_abort LivenessThresholds" "lt_suspicious LivenessThresholds = 15"
    by (simp_all add: LivenessThresholds_def)
  from alert_iff_not_healthy [OF run flight th(1-3), of 1500 "''arch''" demo_chain None] th(4) show ?thesis by simp
qed

end
