(* ===== verification/Timeout_Properties.thy ===== *)
theory Timeout_Properties
  imports Timeout_Watchdog
begin

text \<open>
  The properties of the timeout watchdog: which executions count as open, which of them a pass acts
  on, and that terminating a process returns.
\<close>

section \<open>Open leases\<close>

abbreviation acquires :: "pydict \<Rightarrow> bool" where
  "acquires ev \<equiv> py_get ev ''action'' = Py_Str LEASE_ACQUIRED"

text \<open>What the dicts hold of one run after some events: the first of its latest events.\<close>

definition run_scanned :: "(string \<Rightarrow> rat option) \<Rightarrow> string \<Rightarrow> rat \<Rightarrow> pydict list \<Rightarrow> lease_scan \<Rightarrow> string \<Rightarrow> bool" where
  "run_scanned fromiso agent_id horizon events lk r =
    (case map_of (lk_latest lk) r of
       None \<Rightarrow> (\<forall>ev \<in> set events. \<forall>t. lease_event fromiso agent_id horizon ev \<noteq> Some (r, t))
     | Some ev \<Rightarrow> ev \<in> set events \<and> (\<exists>t. lease_event fromiso agent_id horizon ev = Some (r, t)
         \<and> (acquires ev \<longrightarrow> map_of (lk_acquired lk) r = Some t)
         \<and> (\<forall>ev' \<in> set events. \<forall>t'. lease_event fromiso agent_id horizon ev' = Some (r, t') \<longrightarrow> t' \<le> t)))"

lemma lease_event_time:
  assumes "lease_event fromiso agent_id horizon ev = Some (r, t)"
  shows "parse_iso8601_utc fromiso (py_get ev ''createdAt'') = Some t" "horizon \<le> t"
  using assms by (auto simp: lease_event_def split: if_splits option.splits)

text \<open>The effect of one event on one run: it is taken when it is later than what the run has.\<close>

lemma scan_event_other:
  assumes "\<And>t. lease_event fromiso agent_id horizon ev \<noteq> Some (r, t)"
  shows "map_of (lk_latest (scan_event fromiso agent_id horizon ev lk)) r = map_of (lk_latest lk) r"
    "map_of (lk_acquired (scan_event fromiso agent_id horizon ev lk)) r = map_of (lk_acquired lk) r"
  using assms by (simp_all add: scan_event_def Let_def update_conv' split: option.splits prod.splits)

lemma scan_event_taken:
  assumes "lease_event fromiso agent_id horizon ev = Some (r, t)"
    and "\<And>prior. map_of (lk_latest lk) r = Some prior \<Longrightarrow>
      \<exists>t0. lease_event fromiso agent_id horizon prior = Some (r, t0) \<and> t0 < t"
  shows "map_of (lk_latest (scan_event fromiso agent_id horizon ev lk)) r = Some ev"
    "acquires ev \<Longrightarrow> map_of (lk_acquired (scan_event fromiso agent_id horizon ev lk)) r = Some t"
proof -
  have newer: "case map_of (lk_latest lk) r of None \<Rightarrow> True
     | Some prior \<Rightarrow> (case parse_iso8601_utc fromiso (py_get prior ''createdAt'') of None \<Rightarrow> 0 | Some t \<Rightarrow> t) < t"
    using assms(2) by (auto simp: lease_event_time split: option.split)
  show "map_of (lk_latest (scan_event fromiso agent_id horizon ev lk)) r = Some ev"
    "acquires ev \<Longrightarrow> map_of (lk_acquired (scan_event fromiso agent_id horizon ev lk)) r = Some t"
    unfolding scan_event_def assms(1) option.case prod.case if_P [OF newer] by (simp_all add: Let_def update_conv')
qed

lemma scan_event_late:
  assumes "lease_event fromiso agent_id horizon ev = Some (r, t)" "map_of (lk_latest lk) r = Some prior"
    "lease_event fromiso agent_id horizon prior = Some (r, t0)" "t \<le> t0"
  shows "scan_event fromiso agent_id horizon ev lk = lk"
  using assms lease_event_time(1) [OF assms(3)] by (simp add: scan_event_def)

lemma scan_step:
  assumes "run_scanned fromiso agent_id horizon events lk r"
  shows "run_scanned fromiso agent_id horizon (events @ [ev]) (scan_event fromiso agent_id horizon ev lk) r"
proof (cases "\<exists>t. lease_event fromiso agent_id horizon ev = Some (r, t)")
  case False
  then show ?thesis
    using assms scan_event_other [of fromiso agent_id horizon ev r lk]
    by (auto simp: run_scanned_def split: option.splits)
next
  case True
  then obtain t where ev: "lease_event fromiso agent_id horizon ev = Some (r, t)" by blast
  show ?thesis
  proof (cases "map_of (lk_latest lk) r")
    case None
    then show ?thesis
      using assms ev scan_event_taken [OF ev, of lk] by (auto simp: run_scanned_def)
  next
    case (Some prior)
    then obtain t0 where prior: "prior \<in> set events" "lease_event fromiso agent_id horizon prior = Some (r, t0)"
      "acquires prior \<longrightarrow> map_of (lk_acquired lk) r = Some t0"
      "\<forall>ev' \<in> set events. \<forall>t'. lease_event fromiso agent_id horizon ev' = Some (r, t') \<longrightarrow> t' \<le> t0"
      using assms by (auto simp: run_scanned_def)
    show ?thesis
    proof (cases "t0 < t")
      case True
      have bound: "\<forall>ev' \<in> set (events @ [ev]). \<forall>t'. lease_event fromiso agent_id horizon ev' = Some (r, t') \<longrightarrow> t' \<le> t"
        using prior(4) True ev by (force simp: less_le_trans)
      show ?thesis
        using scan_event_taken [OF ev, of lk] Some prior(2) True ev bound by (simp add: run_scanned_def)
    next
      case False
      then have "scan_event fromiso agent_id horizon ev lk = lk" using scan_event_late [OF ev Some prior(2)] by simp
      moreover have "\<forall>ev' \<in> set (events @ [ev]). \<forall>t'. lease_event fromiso agent_id horizon ev' = Some (r, t') \<longrightarrow> t' \<le> t0"
        using prior(4) False ev by auto
      ultimately show ?thesis using Some prior by (simp add: run_scanned_def)
    qed
  qed
qed

definition scanned :: "(string \<Rightarrow> rat option) \<Rightarrow> string \<Rightarrow> rat \<Rightarrow> pydict list \<Rightarrow> lease_scan" where
  "scanned fromiso agent_id horizon events =
    fold (scan_event fromiso agent_id horizon) events \<lparr>lk_latest = [], lk_acquired = [], lk_issue = []\<rparr>"

lemma scan_all: "run_scanned fromiso agent_id horizon events (scanned fromiso agent_id horizon events) r"
proof (induction events rule: rev_induct)
  case (snoc ev events)
  then show ?case using scan_step by (simp add: scanned_def)
qed (simp add: scanned_def run_scanned_def)

lemma scanned_keys: "distinct (map fst (lk_latest (scanned fromiso agent_id horizon events)))"
proof (induction events rule: rev_induct)
  case (snoc ev events)
  have "distinct (map fst (lk_latest lk)) \<Longrightarrow> distinct (map fst (lk_latest (scan_event fromiso agent_id horizon ev lk)))" for lk
    by (auto simp: scan_event_def Let_def distinct_update split: option.splits prod.splits)
  with snoc show ?case by (simp add: scanned_def)
qed (simp add: scanned_def)

lemma open_lease_iff:
  "l \<in> set (open_leases_from_activity fromiso lookback events agent_id now) \<longleftrightarrow>
    (\<exists>r ev. map_of (lk_latest (scanned fromiso agent_id (now - lookback) events)) r = Some ev
       \<and> lease_of (scanned fromiso agent_id (now - lookback) events) now (r, ev) = Some l)"
  using map_of_eq_Some_iff [OF scanned_keys [of fromiso agent_id "now - lookback" events]]
  by (force simp: open_leases_from_activity_def Let_def scanned_def [symmetric] sort_descending_def List.map_filter_def)

lemma lease_of_parts:
  "lease_of lk now (r, ev) = Some l \<longleftrightarrow> acquires ev \<and> (\<exists>acq. map_of (lk_acquired lk) r = Some acq
    \<and> l = \<lparr>ol_run_id = r, ol_acquired_at = acq,
        ol_issue = (case map_of (lk_issue lk) r of None \<Rightarrow> None | Some i \<Rightarrow> i), ol_age = max 0 (now - acq)\<rparr>)"
  by (auto simp: lease_of_def split: option.splits)

lemma open_lease_event:
  assumes "l \<in> set (open_leases_from_activity fromiso lookback events agent_id now)"
  shows "\<exists>ev \<in> set events. acquires ev \<and> lease_event fromiso agent_id (now - lookback) ev = Some (ol_run_id l, ol_acquired_at l)
    \<and> (\<forall>ev' \<in> set events. \<forall>t'. lease_event fromiso agent_id (now - lookback) ev' = Some (ol_run_id l, t') \<longrightarrow> t' \<le> ol_acquired_at l)"
    "ol_age l = max 0 (now - ol_acquired_at l)" "now - lookback \<le> ol_acquired_at l"
proof -
  let ?lk = "scanned fromiso agent_id (now - lookback) events"
  from assms obtain r ev where l: "map_of (lk_latest ?lk) r = Some ev" "lease_of ?lk now (r, ev) = Some l"
    unfolding open_lease_iff by blast
  with scan_all [of fromiso agent_id "now - lookback" events r] obtain t where t: "ev \<in> set events"
    "lease_event fromiso agent_id (now - lookback) ev = Some (r, t)" "acquires ev \<longrightarrow> map_of (lk_acquired ?lk) r = Some t"
    "\<forall>ev' \<in> set events. \<forall>t'. lease_event fromiso agent_id (now - lookback) ev' = Some (r, t') \<longrightarrow> t' \<le> t"
    by (auto simp: run_scanned_def)
  with l(2) have parts: "acquires ev" "ol_run_id l = r" "ol_acquired_at l = t" "ol_age l = max 0 (now - t)"
    by (auto simp: lease_of_parts)
  show "ol_age l = max 0 (now - ol_acquired_at l)" "now - lookback \<le> ol_acquired_at l"
    using parts lease_event_time(2) [OF t(2)] by simp_all
  show "\<exists>ev \<in> set events. acquires ev \<and> lease_event fromiso agent_id (now - lookback) ev = Some (ol_run_id l, ol_acquired_at l)
    \<and> (\<forall>ev' \<in> set events. \<forall>t'. lease_event fromiso agent_id (now - lookback) ev' = Some (ol_run_id l, t') \<longrightarrow> t' \<le> ol_acquired_at l)"
    using t parts by blast
qed

text \<open>C32. The open leases are exactly the runs whose latest lease event in the window is an acquisition,
  with its time, if no run is acquired and released in the same instant; the order of the activity
  log does not matter.\<close>

theorem open_leases_exact:
  assumes "\<forall>ev \<in> set events. \<forall>ev' \<in> set events. lease_event fromiso agent_id (now - lookback) ev \<noteq> None
      \<and> lease_event fromiso agent_id (now - lookback) ev = lease_event fromiso agent_id (now - lookback) ev' \<longrightarrow> (acquires ev \<longleftrightarrow> acquires ev')"
  shows "(\<exists>l \<in> set (open_leases_from_activity fromiso lookback events agent_id now). ol_run_id l = r \<and> ol_acquired_at l = t) \<longleftrightarrow>
    (\<exists>ev \<in> set events. acquires ev \<and> lease_event fromiso agent_id (now - lookback) ev = Some (r, t)
      \<and> (\<forall>ev' \<in> set events. \<forall>t'. lease_event fromiso agent_id (now - lookback) ev' = Some (r, t') \<longrightarrow> t' \<le> t))"
    (is "?open \<longleftrightarrow> ?latest")
proof
  assume ?open
  then show ?latest using open_lease_event(1) by blast
next
  let ?lk = "scanned fromiso agent_id (now - lookback) events"
  assume ?latest
  then obtain ev where ev: "ev \<in> set events" "acquires ev" "lease_event fromiso agent_id (now - lookback) ev = Some (r, t)"
    "\<And>ev' t'. ev' \<in> set events \<Longrightarrow> lease_event fromiso agent_id (now - lookback) ev' = Some (r, t') \<Longrightarrow> t' \<le> t"
    by blast
  with scan_all [of fromiso agent_id "now - lookback" events r] obtain ev0 t0 where ev0:
    "map_of (lk_latest ?lk) r = Some ev0" "ev0 \<in> set events" "lease_event fromiso agent_id (now - lookback) ev0 = Some (r, t0)"
    "acquires ev0 \<longrightarrow> map_of (lk_acquired ?lk) r = Some t0" "t \<le> t0"
    by (auto simp: run_scanned_def split: option.splits)
  have "t0 = t" using ev(4) [OF ev0(2,3)] ev0(5) by simp
  with bspec [OF bspec [OF assms ev(1)] ev0(2)] ev(2,3) ev0(3) have "acquires ev0" by simp
  with ev0(4) \<open>t0 = t\<close> obtain l where l: "lease_of ?lk now (r, ev0) = Some l" "ol_run_id l = r" "ol_acquired_at l = t"
    by (auto simp: lease_of_parts)
  have "l \<in> set (open_leases_from_activity fromiso lookback events agent_id now)"
    unfolding open_lease_iff using ev0(1) l(1) by blast
  with l(2,3) show ?open by blast
qed

text \<open>A pass acts only on executions that are over the timeout and at most an hour old: one that was
  acquired before the hour is not seen, however long it hangs, and with the largest timeout the
  policy accepts a pass acts only on an execution that is an hour old to the second.\<close>

theorem acted_executions_within_hour:
  assumes "l \<in> set (over_timeout timeout (open_leases_from_activity fromiso LOOKBACK_SECONDS events agent_id now))"
    and "0 < timeout"
  shows "of_int timeout \<le> ol_age l \<and> ol_age l = now - ol_acquired_at l \<and> ol_age l \<le> LOOKBACK_SECONDS
    \<and> (timeout = MAX_TIMEOUT_SECONDS \<longrightarrow> ol_age l = LOOKBACK_SECONDS)
    \<and> (\<exists>ev \<in> set events. acquires ev \<and> py_get ev ''runId'' = Py_Str (ol_run_id l)
         \<and> parse_iso8601_utc fromiso (py_get ev ''createdAt'') = Some (ol_acquired_at l))"
proof -
  have l: "l \<in> set (open_leases_from_activity fromiso LOOKBACK_SECONDS events agent_id now)" "of_int timeout \<le> ol_age l"
    using assms(1) by (auto simp: over_timeout_def)
  note parts = open_lease_event [OF l(1)]
  have "(0 :: rat) < of_int timeout" using assms(2) by simp
  then have age: "ol_age l = now - ol_acquired_at l" using parts(2) l(2) by linarith
  moreover have "ol_age l \<le> LOOKBACK_SECONDS" using parts(3) age by linarith
  moreover from parts(1) obtain ev where ev: "ev \<in> set events" "acquires ev"
    "lease_event fromiso agent_id (now - LOOKBACK_SECONDS) ev = Some (ol_run_id l, ol_acquired_at l)" by blast
  then have "py_get ev ''runId'' = Py_Str (ol_run_id l)"
    by (auto simp: lease_event_def py_str_opt_def split: if_splits option.splits pyval.splits)
  ultimately show ?thesis
    using l(2) ev lease_event_time(1) [OF ev(3)] by (auto simp: MAX_TIMEOUT_SECONDS_def LOOKBACK_SECONDS_def)
qed

section \<open>Waiting for a process\<close>

text \<open>Time passes: no call sets the clock back, and a sleep of a second moves it on by a second.\<close>

definition time_passes :: "'w process_ports \<Rightarrow> bool" where
  "time_passes P \<longleftrightarrow> (\<forall>w now w1 pid signo res w2.
     pp_time P w = (now, w1) \<longrightarrow> pp_signal P pid signo w1 = (res, w2) \<longrightarrow> now + 1 \<le> fst (pp_time P (pp_sleep P 1 w2)))"

lemma await_exit_returns:
  assumes "time_passes P"
  shows "\<exists>gone w1. await_exit P deadline pid w = Some (gone, w1)"
proof (induction "nat \<lceil>deadline - fst (pp_time P w)\<rceil>" arbitrary: w rule: less_induct)
  case less
  obtain now w1 where time: "pp_time P w = (now, w1)" by (cases "pp_time P w")
  obtain res w2 where sig: "pp_signal P pid 0 w1 = (res, w2)" by (cases "pp_signal P pid 0 w1")
  show ?case
  proof (cases "now < deadline \<and> res = Delivered")
    case True
    have "now + 1 \<le> fst (pp_time P (pp_sleep P 1 w2))" using assms time sig unfolding time_passes_def by blast
    then have "nat \<lceil>deadline - fst (pp_time P (pp_sleep P 1 w2))\<rceil> < nat \<lceil>deadline - fst (pp_time P w)\<rceil>"
      using True by (simp add: time) linarith
    from less [OF this] show ?thesis using True time sig by (subst await_exit.simps) simp
  next
    case False
    then show ?thesis using time sig by (subst await_exit.simps) (cases res; auto)
  qed
qed

text \<open>Terminating a process always returns when time passes: the wait between the two signals ends
  with the process or with the grace period.\<close>

theorem termination_returns:
  assumes "time_passes P"
  shows "\<exists>killed w1. terminate_run_process P wd lease agent_id grace w = Some (killed, w1)"
proof -
  have "\<exists>killed w1. kill_pid P dry pid grace w = Some (killed, w1)" for dry pid w
  proof -
    obtain res w1 where sent: "pp_signal P pid 15 w = (res, w1)" by (cases "pp_signal P pid 15 w")
    obtain now w2 where time: "pp_time P w1 = (now, w2)" by (cases "pp_time P w1")
    obtain gone w3 where "await_exit P (now + of_int (max 0 grace)) pid w2 = Some (gone, w3)"
      using await_exit_returns [OF assms] by blast
    then show ?thesis by (auto simp: kill_pid_def sent time split: prod.split)
  qed
  then show ?thesis
    by (auto simp: terminate_run_process_def terminate_opencode_process_def split: prod.split option.split)
qed

section \<open>Concrete logs and processes\<close>

definition demo_lease_event :: "string \<Rightarrow> string \<Rightarrow> string \<Rightarrow> pydict" where
  "demo_lease_event action run_id created = [(''agentId'', Py_Str ''ceo''), (''action'', Py_Str action), (''runId'', Py_Str run_id),
     (''createdAt'', Py_Str created), (''details'', Py_Dict [(''issueId'', Py_Str ''I'')])]"

definition demo_activity :: "pydict list" where
  "demo_activity = [demo_lease_event LEASE_RELEASED ''closed'' ''900'', demo_lease_event LEASE_ACQUIRED ''closed'' ''400'',
     demo_lease_event LEASE_ACQUIRED ''hanging'' ''1000'', demo_lease_event LEASE_ACQUIRED ''forgotten'' ''100'']"

lemma demo_leases:
  "map ol_run_id (open_leases_from_activity float_digits 3600 demo_activity ''ceo'' 4000) = [''hanging'']"
  "map ol_run_id (over_timeout 720 (open_leases_from_activity float_digits LOOKBACK_SECONDS demo_activity ''ceo'' 4000)) = [''hanging'']"
  by code_simp+

lemma open_leases_exact_witness:
  "\<exists>l \<in> set (open_leases_from_activity float_digits 3600 demo_activity ''ceo'' 4000). ol_run_id l = ''hanging'' \<and> ol_acquired_at l = 1000"
proof -
  let ?ev = "lease_event float_digits ''ceo'' (4000 - 3600)"
  have times: "map ?ev demo_activity = [Some (''closed'', 900), Some (''closed'', 400), Some (''hanging'', 1000), None]" by code_simp
  then have each: "?ev (demo_activity ! 0) = Some (''closed'', 900)" "?ev (demo_activity ! 1) = Some (''closed'', 400)"
    "?ev (demo_activity ! 2) = Some (''hanging'', 1000)" "?ev (demo_activity ! 3) = None"
    by (simp_all add: demo_activity_def)
  have members: "ev \<in> set demo_activity \<longleftrightarrow> ev = demo_activity ! 0 \<or> ev = demo_activity ! 1 \<or> ev = demo_activity ! 2 \<or> ev = demo_activity ! 3" for ev
    by (auto simp: demo_activity_def)
  have ties: "\<forall>ev \<in> set demo_activity. \<forall>ev' \<in> set demo_activity. ?ev ev \<noteq> None \<and> ?ev ev = ?ev ev' \<longrightarrow> (acquires ev \<longleftrightarrow> acquires ev')"
    by code_simp
  have "acquires (demo_activity ! 2)" by code_simp
  moreover have "t' \<le> 1000" if "ev' \<in> set demo_activity" "?ev ev' = Some (''hanging'', t')" for ev' t'
    using that each unfolding members by auto
  moreover have "demo_activity ! 2 \<in> set demo_activity" unfolding members by blast
  ultimately show ?thesis
    using each(3) open_leases_exact [where r = "''hanging''" and t = 1000, OF ties] by blast
qed

lemma acted_executions_within_hour_witness:
  "\<exists>l \<in> set (over_timeout 720 (open_leases_from_activity float_digits LOOKBACK_SECONDS demo_activity ''ceo'' 4000)).
    ol_run_id l = ''hanging'' \<and> 720 \<le> ol_age l \<and> ol_age l \<le> LOOKBACK_SECONDS"
proof -
  let ?over = "over_timeout 720 (open_leases_from_activity float_digits LOOKBACK_SECONDS demo_activity ''ceo'' 4000)"
  have "''hanging'' \<in> set (map ol_run_id ?over)" by (simp only: demo_leases list.set insert_iff simp_thms)
  then have "\<exists>l \<in> set ?over. ''hanging'' = ol_run_id l" by (simp only: set_map image_iff)
  then obtain l where l: "l \<in> set ?over" "''hanging'' = ol_run_id l" by (rule bexE)
  from acted_executions_within_hour [OF l(1)] have "720 \<le> ol_age l" "ol_age l \<le> LOOKBACK_SECONDS" by simp_all
  with l show ?thesis by (intro bexI [of _ l]) simp_all
qed

text \<open>A process that never goes, in a world that is a clock.\<close>

definition demo_clock :: "rat process_ports" where
  "demo_clock = \<lparr>pp_ps = (\<lambda>w. (Some [''7 20:00 opencode run x''], w)), pp_signal = (\<lambda>_ _ w. (Delivered, w)),
     pp_shell = (\<lambda>_ w. (True, w)), pp_time = (\<lambda>w. (w, w)), pp_sleep = (\<lambda>t w. w + t)\<rparr>"

lemma termination_returns_witness:
  "\<exists>killed w1. terminate_run_process demo_clock \<lparr>tw_api_url = [], tw_api_token = [], tw_company_id = [], tw_agent_id = None,
     tw_terminate_cmd = None, tw_dry_run = False\<rparr> \<lparr>ol_run_id = ''r'', ol_acquired_at = 0, ol_issue = None, ol_age = 800\<rparr> ''ceo'' 60 0
     = Some (killed, w1)"
  by (rule termination_returns) (simp add: time_passes_def demo_clock_def)

end
