(* ===== verification/Schema_Patches.thy ===== *)
theory Schema_Patches
  imports Py_Text
begin

text \<open>
  Model of the patches which \<open>bench migrate\<close> runs (\<open>flock_os/patches/\<close> and the catalogue of
  \<open>fixtures.py\<close>): the seeds, the composite indexes of the attendance, engagement, registration,
  invitation and roster tables, the recovery of duplicate rows before a unique index is added, and
  the sequence default of a name column.

  A table is its list of rows and a row a dictionary of columns; a missing column reads as null.
  \<open>=\<close> of two columns is false where one is null, \<open>GROUP BY\<close> puts nulls together and a unique index
  lets them repeat, as in MariaDB.  Texts are compared character by character, so the collation of
  the database is the binary one.  A schema change commits what was done before it, so a patch
  returns the database it leaves beside the error.  Log lines are left out.
\<close>

section \<open>The database\<close>

record site_db =
  sd_tables :: "(string \<times> pydict list) list"
  sd_indexes :: "(string \<times> string) list"
  sd_defaults :: "(string \<times> string) list"

datatype patch_error =
    Unknown_Table string
  | Duplicate_Entry string string

type_synonym patch = "site_db \<Rightarrow> site_db \<times> (patch_error + unit)"

definition table_rows :: "site_db \<Rightarrow> string \<Rightarrow> pydict list" where
  "table_rows db table = dict_or [] (sd_tables db) table"

definition set_rows :: "string \<Rightarrow> pydict list \<Rightarrow> site_db \<Rightarrow> site_db" where
  "set_rows table rows db = db \<lparr>sd_tables := AList.update table rows (sd_tables db)\<rparr>"

definition has_table :: "site_db \<Rightarrow> string \<Rightarrow> bool" where
  "has_table db table \<longleftrightarrow> map_of (sd_tables db) table \<noteq> None"

lemma table_rows_set [simp]:
  "table_rows (set_rows table rows db) t = (if t = table then rows else table_rows db t)"
  by (simp add: table_rows_def set_rows_def)

lemma has_table_set [simp]: "has_table (set_rows table rows db) t \<longleftrightarrow> t = table \<or> has_table db t"
  by (simp add: has_table_def set_rows_def update_conv')

lemma set_rows_indexes [simp]: "sd_indexes (set_rows table rows db) = sd_indexes db"
  by (simp add: set_rows_def)

definition row_name :: "pydict \<Rightarrow> rat" where
  "row_name row = (case py_get row ''name'' of Py_Num n \<Rightarrow> n | _ \<Rightarrow> 0)"

definition row_total :: "pydict \<Rightarrow> rat" where
  "row_total row = (case py_get row ''total'' of Py_Num n \<Rightarrow> n | _ \<Rightarrow> 0)"

definition index_key :: "string list \<Rightarrow> pydict \<Rightarrow> pyval list" where
  "index_key columns row = map (py_get row) columns"

definition without_null :: "pyval list \<Rightarrow> bool" where
  "without_null key \<longleftrightarrow> Py_None \<notin> set key"

text \<open>A sequence of statements or patches stops at the first that raises.\<close>

fun run_patches :: "('x \<Rightarrow> patch) \<Rightarrow> 'x list \<Rightarrow> patch" where
  "run_patches f [] db = (db, Inr ())"
| "run_patches f (x # xs) db = (case f x db of (db1, Inl e) \<Rightarrow> (db1, Inl e) | (db1, Inr _) \<Rightarrow> run_patches f xs db1)"

section \<open>Adding an index\<close>

definition table_of :: "string \<Rightarrow> string" where
  "table_of doctype = ''tab'' @ doctype"

definition index_exists :: "site_db \<Rightarrow> string \<Rightarrow> string \<Rightarrow> bool" where
  "index_exists db table name \<longleftrightarrow> (table, name) \<in> set (sd_indexes db)"

definition repeated_key :: "string list \<Rightarrow> pydict list \<Rightarrow> bool" where
  "repeated_key columns rows \<longleftrightarrow> \<not> distinct (filter without_null (map (index_key columns) rows))"

text \<open>\<open>ALTER TABLE ... ADD [UNIQUE] INDEX\<close>.\<close>

definition add_index :: "string \<Rightarrow> string \<Rightarrow> string list \<Rightarrow> bool \<Rightarrow> patch" where
  "add_index table name columns unique db =
    (if \<not> has_table db table then (db, Inl (Unknown_Table table))
     else if unique \<and> repeated_key columns (table_rows db table) then (db, Inl (Duplicate_Entry table name))
     else (db \<lparr>sd_indexes := sd_indexes db @ [(table, name)]\<rparr>, Inr ()))"

text \<open>\<open>_columns_of\<close> reads the columns back from the text of the index.\<close>

definition columns_of :: "string \<Rightarrow> string list" where
  "columns_of columns_sql = map (\<lambda>c. strip_chars ''`'' (py_strip c)) (split_on CHR '','' (strip_chars ''()'' columns_sql))"

type_synonym index_spec = "string \<times> string \<times> string \<times> bool"

text \<open>The body of the loop of every patch that only adds indexes.\<close>

definition index_step :: "index_spec \<Rightarrow> patch" where
  "index_step spec db = (case spec of (doctype, name, columns, unique) \<Rightarrow>
     let table = table_of doctype in
     if index_exists db table name then (db, Inr ())
     else add_index table name (columns_of columns) unique db)"

definition add_indexes :: "index_spec list \<Rightarrow> patch" where
  "add_indexes = run_patches index_step"

section \<open>Recovery of duplicate rows\<close>

text \<open>\<open>_collapse_keep_min_name\<close>: the count is the one of the self-join, a pair per row and
  earlier duplicate.\<close>

definition same_key :: "string list \<Rightarrow> pydict \<Rightarrow> pydict \<Rightarrow> bool" where
  "same_key columns r s \<longleftrightarrow> index_key columns r = index_key columns s \<and> without_null (index_key columns r)"

definition duplicate_pairs :: "string list \<Rightarrow> pydict list \<Rightarrow> (pydict \<times> pydict) list" where
  "duplicate_pairs columns rows =
    filter (\<lambda>(r, s). same_key columns r s \<and> row_name s < row_name r) (List.product rows rows)"

definition later_duplicate :: "string list \<Rightarrow> pydict list \<Rightarrow> pydict \<Rightarrow> bool" where
  "later_duplicate columns rows r \<longleftrightarrow> list_ex (\<lambda>s. same_key columns r s \<and> row_name s < row_name r) rows"

definition collapse_keep_min_name :: "string list \<Rightarrow> pydict list \<Rightarrow> nat \<times> pydict list" where
  "collapse_keep_min_name columns rows =
    (let dupes = length (duplicate_pairs columns rows) in
     (dupes, if dupes = 0 then rows else filter (\<lambda>r. \<not> later_duplicate columns rows r) rows))"

text \<open>\<open>_collapse_sum_total\<close>: the groups of more than one row with their first name and total.\<close>

definition rows_with_key :: "string list \<Rightarrow> pydict list \<Rightarrow> pyval list \<Rightarrow> pydict list" where
  "rows_with_key columns rows key = filter (\<lambda>r. index_key columns r = key) rows"

fun least_name :: "pydict list \<Rightarrow> rat" where
  "least_name [] = 0"
| "least_name [r] = row_name r"
| "least_name (r # s # rs) = min (row_name r) (least_name (s # rs))"

definition duplicate_groups :: "string list \<Rightarrow> pydict list \<Rightarrow> (pyval list \<times> rat \<times> rat) list" where
  "duplicate_groups columns rows =
    map (\<lambda>key. let g = rows_with_key columns rows key in (key, least_name g, sum_list (map row_total g)))
      (filter (\<lambda>key. 1 < length (rows_with_key columns rows key)) (dedup (map (index_key columns) rows)))"

definition outlived :: "string list \<Rightarrow> (pyval list \<times> rat \<times> rat) list \<Rightarrow> pydict \<Rightarrow> bool" where
  "outlived columns groups s \<longleftrightarrow>
    list_ex (\<lambda>(key, keep_name, _). index_key columns s = key \<and> without_null key \<and> row_name s \<noteq> keep_name) groups"

text \<open>\<open>UPDATE ... SET total\<close> of the row a group keeps.\<close>

definition with_group_total :: "(pyval list \<times> rat \<times> rat) list \<Rightarrow> pydict \<Rightarrow> pydict" where
  "with_group_total groups s =
    (case find (\<lambda>(_, keep_name, _). row_name s = keep_name) groups of
       None \<Rightarrow> s
     | Some (_, _, group_total) \<Rightarrow> AList.update ''total'' (Py_Num group_total) s)"

definition collapse_sum_total :: "string list \<Rightarrow> pydict list \<Rightarrow> nat \<times> pydict list" where
  "collapse_sum_total columns rows =
    (let groups = duplicate_groups columns rows; dupes = length (filter (outlived columns groups) rows) in
     (dupes, if dupes = 0 then rows
       else let summed = map (with_group_total groups) rows in
         filter (\<lambda>s. \<not> outlived columns (duplicate_groups columns summed) s) summed))"

section \<open>The attendance patch\<close>

definition ATTENDANCE_INDEXES :: "(string \<times> string \<times> string) list" where
  "ATTENDANCE_INDEXES =
    [(''Flock Attendance Record'', ''unique_event_attendee_ref'', ''(`event`, `attendee_ref`)''),
     (''Flock Attendance Record'', ''unique_event_attendee_req'', ''(`event`, `attendee_ref`, `client_req_id`)''),
     (''Event Attendance Summary'', ''unique_branch_event'', ''(`branch`, `event`)'')]"

definition DEDUP :: "(string \<times> string) list" where
  "DEDUP = [(''unique_event_attendee_ref'', ''keep_min_name''), (''unique_branch_event'', ''sum_total'')]"

definition collapse_before :: "string \<Rightarrow> string \<Rightarrow> string list \<Rightarrow> site_db \<Rightarrow> site_db" where
  "collapse_before name table columns db =
    (case map_of DEDUP name of
       Some strategy \<Rightarrow>
         if strategy = ''keep_min_name'' then set_rows table (snd (collapse_keep_min_name columns (table_rows db table))) db
         else if strategy = ''sum_total'' then set_rows table (snd (collapse_sum_total columns (table_rows db table))) db
         else db
     | None \<Rightarrow> db)"

definition attendance_step :: "string \<times> string \<times> string \<Rightarrow> patch" where
  "attendance_step spec db = (case spec of (doctype, name, columns_sql) \<Rightarrow>
     let table = table_of doctype in
     if index_exists db table name then (db, Inr ())
     else if \<not> has_table db table then (db, Inl (Unknown_Table table))
     else add_index table name (columns_of columns_sql) True (collapse_before name table (columns_of columns_sql) db))"

definition add_attendance_indexes :: patch where
  "add_attendance_indexes = run_patches attendance_step ATTENDANCE_INDEXES"

section \<open>The name column of the attendance tables\<close>

definition TARGETS :: "(string \<times> string \<times> string) list" where
  "TARGETS =
    [(''Flock Attendance Record'', ''tabFlock Attendance Record'', ''flock_attendance_record_id_seq''),
     (''Event Attendance Summary'', ''tabEvent Attendance Summary'', ''event_attendance_summary_id_seq'')]"

text \<open>What the server reports as the default of a column; the table keeps the text it reports.\<close>

definition name_default_is_sequence :: "site_db \<Rightarrow> string \<Rightarrow> bool" where
  "name_default_is_sequence db table =
    (case map_of (sd_defaults db) table of
       None \<Rightarrow> False
     | Some dflt \<Rightarrow> dflt \<noteq> [] \<and> contains_text ''NEXT VALUE'' (upper_ascii dflt))"

text \<open>\<open>reported\<close> is the way the server writes the default back: the statement sets
  \<open>NEXT VALUE FOR\<close> the sequence.\<close>

definition set_name_default :: "(string \<Rightarrow> string) \<Rightarrow> string \<times> string \<times> string \<Rightarrow> patch" where
  "set_name_default reported target db = (case target of (_, table, sequence) \<Rightarrow>
     if name_default_is_sequence db table then (db, Inr ())
     else if \<not> has_table db table then (db, Inl (Unknown_Table table))
     else (db \<lparr>sd_defaults := AList.update table (reported sequence) (sd_defaults db)\<rparr>, Inr ()))"

definition ensure_attendance_name_sequence_default :: "(string \<Rightarrow> string) \<Rightarrow> patch" where
  "ensure_attendance_name_sequence_default reported = run_patches (set_name_default reported) TARGETS"

section \<open>The patches which only add indexes\<close>

definition ENGAGEMENT_INDEXES :: "index_spec list" where
  "ENGAGEMENT_INDEXES =
    [(''Flock Attendance Record'', ''unique_engagement_session_attendee_key'', ''(`engagement_session`, `attendee_key`)'', True),
     (''Flock Attendance Record'', ''unique_branch_gathering_member'', ''(`branch`, `gathering`, `member`)'', True),
     (''Flock Attendance Record'', ''idx_branch_org_gathering_submitted'',
        ''(`branch`, `organization`, `gathering`, `submitted_at`)'', False)]"

definition REGISTRATION_INDEXES :: "index_spec list" where
  "REGISTRATION_INDEXES =
    [(''Flock Event Registration'', ''unique_gathering_registrant'', ''(`gathering`, `registrant`)'', True),
     (''Flock Event Registration'', ''index_gathering_status'', ''(`gathering`, `registration_status`)'', False),
     (''Flock Event Registration'', ''index_branch_registered_at'', ''(`branch`, `registered_at`)'', False)]"

definition INVITATION_INDEXES :: "index_spec list" where
  "INVITATION_INDEXES =
    [(''Flock Event Invitation'', ''index_gathering_invitee_status'', ''(`gathering`, `invitee`, `status`)'', False),
     (''Flock Event Invitation'', ''index_gathering_invitee_group_status'', ''(`gathering`, `invitee_group`, `status`)'', False)]"

definition GROUP_MEMBER_INDEXES :: "index_spec list" where
  "GROUP_MEMBER_INDEXES =
    [(''Flock Group Member'', ''idx_group_status'', ''(`group`, `status`)'', False),
     (''Flock Group Member'', ''idx_branch_status'', ''(`branch`, `status`)'', False)]"

definition add_engagement_indexes :: patch where "add_engagement_indexes = add_indexes ENGAGEMENT_INDEXES"
definition add_registration_indexes :: patch where "add_registration_indexes = add_indexes REGISTRATION_INDEXES"
definition add_invitation_indexes :: patch where "add_invitation_indexes = add_indexes INVITATION_INDEXES"
definition add_group_member_indexes :: patch where "add_group_member_indexes = add_indexes GROUP_MEMBER_INDEXES"

section \<open>Seeds\<close>

definition FLOCK_ROLES :: "string list" where
  "FLOCK_ROLES = [''Flock Org Admin'', ''Flock Branch Admin'', ''Flock Group Leader'', ''Flock Member'',
     ''Flock Visitor'', ''Flock Auditor'']"

definition group_type :: "string \<Rightarrow> pydict" where
  "group_type name = [(''group_type_name'', Py_Str name), (''is_active'', Py_Num 1)]"

definition FLOCK_GROUP_TYPES :: "pydict list" where
  "FLOCK_GROUP_TYPES = map group_type
    [''Ministry'', ''Cell Group'', ''Service Team'', ''Campus'', ''Youth'', ''Choir'', ''Other'']"

definition gathering_type :: "string \<Rightarrow> pydict" where
  "gathering_type name = [(''gathering_type_name'', Py_Str name), (''is_active'', Py_Num 1)]"

definition FLOCK_GATHERING_TYPES :: "pydict list" where
  "FLOCK_GATHERING_TYPES =
    (gathering_type ''Sunday Service'' @ [(''requires_confirmation'', Py_Num 1)]) #
    map gathering_type [''Cell Group'', ''Bible Study'', ''Prayer Meeting'', ''Youth Gathering'', ''Special Event'']"

definition type_name :: "string \<Rightarrow> pydict \<Rightarrow> string" where
  "type_name field row = or_empty (py_str_opt (py_get row field))"

definition row_exists :: "site_db \<Rightarrow> string \<Rightarrow> string \<Rightarrow> bool" where
  "row_exists db doctype name \<longleftrightarrow>
     list_ex (\<lambda>r. py_get r ''name'' = Py_Str name) (table_rows db (table_of doctype))"

text \<open>A document of these types is named by the field given; \<open>insert\<close> writes its row.\<close>

definition seed_row :: "string \<Rightarrow> string \<Rightarrow> pydict \<Rightarrow> site_db \<Rightarrow> site_db" where
  "seed_row doctype field row db =
    (let name = type_name field row in
     if row_exists db doctype name then db
     else set_rows (table_of doctype) (table_rows db (table_of doctype) @ [(''name'', Py_Str name) # row]) db)"

definition seed_core_fixtures :: patch where
  "seed_core_fixtures db =
    (fold (seed_row ''Flock Group Type'' ''group_type_name'') FLOCK_GROUP_TYPES
      (fold (\<lambda>role. seed_row ''Role'' ''role_name'' [(''role_name'', Py_Str role)]) FLOCK_ROLES db), Inr ())"

definition seed_gathering_fixtures :: patch where
  "seed_gathering_fixtures db =
    (fold (seed_row ''Flock Gathering Type'' ''gathering_type_name'') FLOCK_GATHERING_TYPES db, Inr ())"

text \<open>The order of \<open>patches.txt\<close>.\<close>

definition post_model_sync :: "(string \<Rightarrow> string) \<Rightarrow> patch" where
  "post_model_sync reported = run_patches (\<lambda>p. p)
    [seed_core_fixtures, seed_gathering_fixtures, add_attendance_indexes,
     ensure_attendance_name_sequence_default reported, add_engagement_indexes,
     add_registration_indexes, add_invitation_indexes, add_group_member_indexes]"

end
