(* ===== verification/Patch_Properties.thy ===== *)
theory Patch_Properties
  imports Schema_Patches
begin

text \<open>
  What the attendance patch does to tables that hold duplicates: it keeps the earliest row of every
  key, folds the totals of the summary, and ends with the unique indexes the bulk write path relies
  on.  The recovery makes the attendance rows unique but leaves the totals at the number of rows
  ever written, duplicates included.
\<close>

section \<open>Names and keys\<close>

definition named_rows :: "string list \<Rightarrow> pydict list \<Rightarrow> bool" where
  "named_rows columns rows \<longleftrightarrow> distinct (map row_name rows) \<and> (\<forall>r \<in> set rows. without_null (index_key columns r))"

definition earliest :: "string list \<Rightarrow> pydict list \<Rightarrow> pydict list" where
  "earliest columns rows = filter (\<lambda>r. \<not> later_duplicate columns rows r) rows"

definition key_total :: "string list \<Rightarrow> pydict list \<Rightarrow> pyval list \<Rightarrow> rat" where
  "key_total columns rows key = sum_list (map row_total (rows_with_key columns rows key))"

lemma same_name_same_row:
  "named_rows columns rows \<Longrightarrow> r \<in> set rows \<Longrightarrow> s \<in> set rows \<Longrightarrow> row_name r = row_name s \<Longrightarrow> r = s"
  by (auto simp: named_rows_def distinct_map dest: inj_onD)

lemma later_duplicate_iff:
  "named_rows columns rows \<Longrightarrow> r \<in> set rows \<Longrightarrow>
   later_duplicate columns rows r \<longleftrightarrow> (\<exists>s \<in> set rows. index_key columns s = index_key columns r \<and> row_name s < row_name r)"
  unfolding later_duplicate_def list_ex_iff same_key_def named_rows_def by metis

lemma set_earliest: "set (earliest columns rows) \<subseteq> set rows"
  by (auto simp: earliest_def)

lemma earliest_keys_distinct:
  assumes "named_rows columns rows" shows "distinct (map (index_key columns) (earliest columns rows))"
proof -
  have "inj_on (index_key columns) (set (earliest columns rows))"
  proof (rule inj_onI)
    fix r s assume h: "r \<in> set (earliest columns rows)" "s \<in> set (earliest columns rows)"
      "index_key columns r = index_key columns s"
    then have i: "r \<in> set rows" "s \<in> set rows" by (auto simp: earliest_def)
    then have "\<not> row_name s < row_name r" "\<not> row_name r < row_name s"
      using h later_duplicate_iff [OF assms] by (auto simp: earliest_def)
    then show "r = s" using same_name_same_row [OF assms i] by simp
  qed
  moreover have "distinct (earliest columns rows)"
    using assms by (simp add: earliest_def named_rows_def distinct_map)
  ultimately show ?thesis by (simp add: distinct_map)
qed

lemma earliest_has_key:
  assumes "named_rows columns rows" "r \<in> set rows"
  obtains e where "e \<in> set (earliest columns rows)" "index_key columns e = index_key columns r" "row_name e \<le> row_name r"
proof -
  let ?g = "set (rows_with_key columns rows (index_key columns r))"
  have g: "finite (row_name ` ?g)" "row_name r \<in> row_name ` ?g" using assms(2) by (auto simp: rows_with_key_def)
  then have "Min (row_name ` ?g) \<in> row_name ` ?g" by (intro Min_in) auto
  then obtain e where e: "e \<in> ?g" "row_name e = Min (row_name ` ?g)" by auto
  then have least: "row_name e \<le> row_name s" if "s \<in> ?g" for s using that g(1) by (simp add: Min_le)
  have "\<not> later_duplicate columns rows e"
    using e(1) least later_duplicate_iff [OF assms(1), of e] by (auto simp: rows_with_key_def not_less)
  then show ?thesis using that [of e] e(1) least g(2) assms(2) by (auto simp: earliest_def rows_with_key_def)
qed

lemma earliest_keys:
  assumes "named_rows columns rows"
  shows "index_key columns ` set (earliest columns rows) = index_key columns ` set rows"
proof
  show "index_key columns ` set rows \<subseteq> index_key columns ` set (earliest columns rows)"
    by (auto elim!: earliest_has_key [OF assms] intro: rev_image_eqI)
qed (use set_earliest in auto)

lemma earliest_again:
  assumes "named_rows columns rows" "distinct (map (index_key columns) rows)" shows "earliest columns rows = rows"
proof -
  have "\<not> later_duplicate columns rows r" if "r \<in> set rows" for r
    using assms that later_duplicate_iff [OF assms(1) that] by (auto simp: distinct_map dest: inj_onD)
  then show ?thesis by (simp add: earliest_def)
qed

lemma named_rows_filter: "named_rows columns rows \<Longrightarrow> named_rows columns (filter P rows)"
  by (auto simp: named_rows_def distinct_map_filter)

lemma named_not_repeated: "named_rows columns rows \<Longrightarrow> repeated_key columns rows \<longleftrightarrow> \<not> distinct (map (index_key columns) rows)"
  by (auto simp: repeated_key_def named_rows_def filter_id_conv cong: filter_cong)

section \<open>The rows of a record table\<close>

lemma keep_min_earliest: "snd (collapse_keep_min_name columns rows) = earliest columns rows"
proof (cases "duplicate_pairs columns rows = []")
  case True
  then have "\<not> later_duplicate columns rows r" if "r \<in> set rows" for r
    using that by (auto simp: duplicate_pairs_def later_duplicate_def list_ex_iff filter_empty_conv)
  then show ?thesis using True by (simp add: collapse_keep_min_name_def earliest_def Let_def)
qed (simp add: collapse_keep_min_name_def earliest_def Let_def)

section \<open>The rows of a summary table\<close>

lemma least_name_in: "rs \<noteq> [] \<Longrightarrow> least_name rs \<in> row_name ` set rs"
  by (induction rs rule: least_name.induct) (auto simp: min_def)

lemma least_name_row:
  assumes "rs \<noteq> []" obtains s where "s \<in> set rs" "row_name s = least_name rs"
  using least_name_in [OF assms] by (metis imageE)

lemma least_name_le: "r \<in> set rs \<Longrightarrow> least_name rs \<le> row_name r"
  by (induction rs rule: least_name.induct) auto

lemma group_total_keeps:
  assumes "''total'' \<notin> set columns"
  shows "row_name (with_group_total groups s) = row_name s"
    "index_key columns (with_group_total groups s) = index_key columns s"
proof -
  have "py_get (AList.update ''total'' v s) c = py_get s c" if "c \<noteq> ''total''" for v c
    using that by (simp add: py_get_or_def update_conv')
  then show "row_name (with_group_total groups s) = row_name s"
    "index_key columns (with_group_total groups s) = index_key columns s"
    using assms by (auto simp: with_group_total_def row_name_def index_key_def split: option.split) (metis)
qed

lemma in_duplicate_groups:
  "(key, keep_name, tot) \<in> set (duplicate_groups columns rows) \<longleftrightarrow>
     1 < length (rows_with_key columns rows key) \<and> keep_name = least_name (rows_with_key columns rows key)
     \<and> tot = key_total columns rows key"
proof -
  have "key \<in> index_key columns ` set rows" if "1 < length (rows_with_key columns rows key)"
  proof -
    have "rows_with_key columns rows key \<noteq> []" using that by auto
    then show ?thesis by (auto simp: rows_with_key_def filter_empty_conv)
  qed
  then show ?thesis by (auto simp: duplicate_groups_def key_total_def Let_def image_iff)
qed

lemma two_members: "r \<in> set xs \<Longrightarrow> s \<in> set xs \<Longrightarrow> r \<noteq> s \<Longrightarrow> 1 < length xs"
  by (cases xs; cases "tl xs") auto

lemma one_per_key: "distinct (map f xs) \<Longrightarrow> length (filter (\<lambda>r. f r = k) xs) \<le> 1"
  by (induction xs) (auto simp: filter_empty_conv rev_image_eqI)

lemma outlived_later:
  assumes named: "named_rows columns rows" and r: "r \<in> set rows"
  shows "outlived columns (duplicate_groups columns rows) r \<longleftrightarrow> later_duplicate columns rows r"
proof -
  let ?g = "rows_with_key columns rows (index_key columns r)"
  have g: "r \<in> set ?g" using r by (simp add: rows_with_key_def)
  have nn: "without_null (index_key columns r)" using named r by (simp add: named_rows_def)
  have "outlived columns (duplicate_groups columns rows) r \<longleftrightarrow> 1 < length ?g \<and> row_name r \<noteq> least_name ?g"
  proof
    assume "outlived columns (duplicate_groups columns rows) r"
    then obtain k n t where "(k, n, t) \<in> set (duplicate_groups columns rows)" "index_key columns r = k" "row_name r \<noteq> n"
      by (auto simp: outlived_def list_ex_iff)
    then show "1 < length ?g \<and> row_name r \<noteq> least_name ?g" by (simp add: in_duplicate_groups)
  next
    assume "1 < length ?g \<and> row_name r \<noteq> least_name ?g"
    then have "(index_key columns r, least_name ?g, key_total columns rows (index_key columns r)) \<in> set (duplicate_groups columns rows)"
      "row_name r \<noteq> least_name ?g" by (simp_all add: in_duplicate_groups)
    then show "outlived columns (duplicate_groups columns rows) r"
      using nn by (force simp: outlived_def list_ex_iff)
  qed
  also have "\<dots> \<longleftrightarrow> (\<exists>s \<in> set ?g. row_name s < row_name r)"
  proof
    assume "1 < length ?g \<and> row_name r \<noteq> least_name ?g"
    then have less: "least_name ?g < row_name r" using least_name_le [OF g] by simp
    obtain s where "s \<in> set ?g" "row_name s = least_name ?g" using least_name_row [of ?g] g by force
    then show "\<exists>s \<in> set ?g. row_name s < row_name r" using less by (intro bexI [of _ s]) simp_all
  next
    assume "\<exists>s \<in> set ?g. row_name s < row_name r"
    then obtain s where s: "s \<in> set ?g" "row_name s < row_name r" by auto
    then have "1 < length ?g" using g two_members [of r ?g s] by auto
    then show "1 < length ?g \<and> row_name r \<noteq> least_name ?g" using s least_name_le [OF s(1)] by auto
  qed
  also have "\<dots> \<longleftrightarrow> later_duplicate columns rows r"
    using later_duplicate_iff [OF named r] by (auto simp: rows_with_key_def)
  finally show ?thesis .
qed

lemma group_of_survivor:
  assumes named: "named_rows columns rows" and e: "e \<in> set rows"
    and group: "(key, row_name e, tot) \<in> set (duplicate_groups columns rows)"
  shows "key = index_key columns e"
proof -
  have "rows_with_key columns rows key \<noteq> []" and k: "row_name e = least_name (rows_with_key columns rows key)"
    using group by (auto simp: in_duplicate_groups)
  then obtain s where s: "s \<in> set (rows_with_key columns rows key)" "row_name s = row_name e"
    by (metis least_name_row)
  then have "s = e" using same_name_same_row [OF named _ e] by (auto simp: rows_with_key_def)
  then show ?thesis using s by (simp add: rows_with_key_def)
qed

lemma find_SomeD: "find P xs = Some x \<Longrightarrow> x \<in> set xs \<and> P x"
  by (induction xs) (auto split: if_splits)

lemma survivor_total:
  assumes named: "named_rows columns rows" and e: "e \<in> set (earliest columns rows)"
  shows "row_total (with_group_total (duplicate_groups columns rows) e) = key_total columns rows (index_key columns e)"
proof -
  let ?gs = "duplicate_groups columns rows" and ?g = "rows_with_key columns rows (index_key columns e)"
  have r: "e \<in> set rows" and g: "e \<in> set ?g" using e by (auto simp: earliest_def rows_with_key_def)
  have least: "least_name ?g = row_name e"
  proof -
    obtain s where s: "s \<in> set ?g" "row_name s = least_name ?g" using least_name_row [of ?g] g by force
    then have "\<not> row_name s < row_name e"
      using e later_duplicate_iff [OF named r] by (auto simp: earliest_def rows_with_key_def)
    then show ?thesis using s least_name_le [OF g] by simp
  qed
  show ?thesis
  proof (cases "find (\<lambda>(_, keep_name, _). row_name e = keep_name) ?gs")
    case None
    then have "\<not> 1 < length ?g"
    proof -
      have "(index_key columns e, row_name e, tot) \<notin> set ?gs" for tot using None by (auto simp: find_None_iff)
      from this [of "key_total columns rows (index_key columns e)"] show ?thesis
        using least by (simp add: in_duplicate_groups)
    qed
    then have "?g = [e]" using g by (cases ?g) auto
    then show ?thesis using None by (simp add: with_group_total_def key_total_def)
  next
    case (Some t)
    then obtain key tot where t: "t = (key, row_name e, tot)" "t \<in> set ?gs"
      using find_SomeD [OF Some] by (cases t) auto
    then have "key = index_key columns e" using group_of_survivor [OF named r] by simp
    then have "tot = key_total columns rows (index_key columns e)" using t by (simp add: in_duplicate_groups)
    then show ?thesis using Some t
      by (simp add: with_group_total_def row_total_def py_get_or_def update_conv')
  qed
qed

lemma sum_total_earliest:
  assumes named: "named_rows columns rows" and cols: "''total'' \<notin> set columns"
  shows "snd (collapse_sum_total columns rows) = map (with_group_total (duplicate_groups columns rows)) (earliest columns rows)"
proof -
  let ?gs = "duplicate_groups columns rows"
  let ?f = "with_group_total ?gs"
  have f: "row_name (?f s) = row_name s" "index_key columns (?f s) = index_key columns s" for s
    using group_total_keeps [OF cols] by auto
  show ?thesis
  proof (cases "filter (outlived columns ?gs) rows = []")
    case True
    then have "\<not> later_duplicate columns rows r" if "r \<in> set rows" for r
      using that outlived_later [OF named] by (auto simp: filter_empty_conv)
    then have all: "earliest columns rows = rows" by (simp add: earliest_def)
    have "?gs = []"
    proof (rule ccontr)
      assume "?gs \<noteq> []"
      then obtain k n t where "(k, n, t) \<in> set ?gs" by (cases ?gs) auto
      then have two: "1 < length (rows_with_key columns rows k)" by (simp add: in_duplicate_groups)
      then have "rows_with_key columns rows k = filter (\<lambda>r. index_key columns r = k) (earliest columns rows)"
        by (simp add: all rows_with_key_def)
      moreover have "length (filter (\<lambda>r. index_key columns r = k) (earliest columns rows)) \<le> 1"
        by (rule one_per_key [OF earliest_keys_distinct [OF named]])
      ultimately show False using two by simp
    qed
    then show ?thesis using True all by (simp add: collapse_sum_total_def with_group_total_def map_idI)
  next
    case False
    have "named_rows columns (map ?f rows)" using named by (simp add: named_rows_def f comp_def)
    then have "outlived columns (duplicate_groups columns (map ?f rows)) (?f r) \<longleftrightarrow> later_duplicate columns rows r"
      if "r \<in> set rows" for r
      using that outlived_later [of columns "map ?f rows" "?f r"]
      by (auto simp: later_duplicate_def list_ex_iff same_key_def f)
    then show ?thesis using False
      by (simp add: collapse_sum_total_def Let_def earliest_def filter_map comp_def cong: filter_cong)
  qed
qed

lemma summed_rows:
  assumes named: "named_rows columns rows" and cols: "''total'' \<notin> set columns"
  shows "named_rows columns (snd (collapse_sum_total columns rows))"
    "distinct (map (index_key columns) (snd (collapse_sum_total columns rows)))"
    "key_total columns (snd (collapse_sum_total columns rows)) key = key_total columns rows key"
proof -
  let ?f = "with_group_total (duplicate_groups columns rows)"
  note f = group_total_keeps [OF cols, of "duplicate_groups columns rows"]
  note out = sum_total_earliest [OF assms]
  show "named_rows columns (snd (collapse_sum_total columns rows))"
    using named_rows_filter [OF named] unfolding out by (simp add: named_rows_def f comp_def earliest_def)
  show "distinct (map (index_key columns) (snd (collapse_sum_total columns rows)))"
    using earliest_keys_distinct [OF named] unfolding out by (simp add: f comp_def)
  let ?one = "filter (\<lambda>r. index_key columns r = key) (earliest columns rows)"
  have k: "key_total columns (snd (collapse_sum_total columns rows)) key = sum_list (map (\<lambda>r. row_total (?f r)) ?one)"
    unfolding out by (simp add: key_total_def rows_with_key_def filter_map comp_def f)
  show "key_total columns (snd (collapse_sum_total columns rows)) key = key_total columns rows key"
  proof (cases "key \<in> index_key columns ` set rows")
    case True
    then obtain e where e: "e \<in> set ?one"
      using earliest_keys [OF named] by (metis (mono_tags, lifting) imageE mem_Collect_eq set_filter)
    then have "?one = [e]" using one_per_key [OF earliest_keys_distinct [OF named], of key] by (cases ?one) auto
    moreover have "e \<in> set (earliest columns rows)" "index_key columns e = key" using e by auto
    ultimately show ?thesis using survivor_total [OF named] by (simp add: k)
  next
    case False
    then have "rows_with_key columns rows key = []" by (auto simp: rows_with_key_def filter_empty_conv)
    moreover have "?one = []" using False set_earliest by (fastforce simp: filter_empty_conv)
    ultimately show ?thesis unfolding k by (simp add: key_total_def)
  qed
qed

section \<open>Tables with duplicates\<close>

abbreviation ATTENDANCE_TABLE :: string where "ATTENDANCE_TABLE \<equiv> ''tabFlock Attendance Record''"
abbreviation SUMMARY_TABLE :: string where "SUMMARY_TABLE \<equiv> ''tabEvent Attendance Summary''"
abbreviation ATTENDEE_KEY :: "string list" where "ATTENDEE_KEY \<equiv> [''event'', ''attendee_ref'']"
abbreviation SUMMARY_KEY :: "string list" where "SUMMARY_KEY \<equiv> [''branch'', ''event'']"

text \<open>Both tables are there, their names are unique and the columns of their keys never null, and
  none of the three indexes has been added.\<close>

definition unindexed :: "site_db \<Rightarrow> bool" where
  "unindexed db \<longleftrightarrow> has_table db ATTENDANCE_TABLE \<and> has_table db SUMMARY_TABLE
     \<and> named_rows ATTENDEE_KEY (table_rows db ATTENDANCE_TABLE) \<and> named_rows SUMMARY_KEY (table_rows db SUMMARY_TABLE)
     \<and> (\<forall>(doctype, name, _) \<in> set ATTENDANCE_INDEXES. \<not> index_exists db (table_of doctype) name)"

definition recovered :: "site_db \<Rightarrow> site_db" where
  "recovered db = set_rows SUMMARY_TABLE (snd (collapse_sum_total SUMMARY_KEY (table_rows db SUMMARY_TABLE)))
     (set_rows ATTENDANCE_TABLE (earliest ATTENDEE_KEY (table_rows db ATTENDANCE_TABLE)) db)
     \<lparr>sd_indexes := sd_indexes db @ [(ATTENDANCE_TABLE, ''unique_event_attendee_ref''),
        (ATTENDANCE_TABLE, ''unique_event_attendee_req''), (SUMMARY_TABLE, ''unique_branch_event'')]\<rparr>"

lemma attendance_columns:
  "columns_of ''(`event`, `attendee_ref`)'' = ATTENDEE_KEY"
  "columns_of ''(`event`, `attendee_ref`, `client_req_id`)'' = ATTENDEE_KEY @ [''client_req_id'']"
  "columns_of ''(`branch`, `event`)'' = SUMMARY_KEY"
  by code_simp+

lemma longer_key_unique:
  assumes "distinct (map (index_key columns) rows)"
  shows "\<not> repeated_key (columns @ extra) rows"
proof -
  have "distinct (map (index_key (columns @ extra)) rows)"
    using assms by (auto simp: distinct_map inj_on_def index_key_def)
  then show ?thesis by (simp add: repeated_key_def distinct_filter)
qed

lemma attendance_run:
  assumes "unindexed db"
  shows "add_attendance_indexes db = (recovered db, Inr ())"
proof -
  let ?att = "table_rows db ATTENDANCE_TABLE" and ?sum = "table_rows db SUMMARY_TABLE"
  have named: "named_rows ATTENDEE_KEY ?att" "named_rows SUMMARY_KEY ?sum"
    and tabs: "has_table db ATTENDANCE_TABLE" "has_table db SUMMARY_TABLE"
    and new: "(ATTENDANCE_TABLE, ''unique_event_attendee_ref'') \<notin> set (sd_indexes db)"
      "(ATTENDANCE_TABLE, ''unique_event_attendee_req'') \<notin> set (sd_indexes db)"
      "(SUMMARY_TABLE, ''unique_branch_event'') \<notin> set (sd_indexes db)"
    using assms by (auto simp: unindexed_def ATTENDANCE_INDEXES_def index_exists_def table_of_def)
  have att: "\<not> repeated_key ATTENDEE_KEY (earliest ATTENDEE_KEY ?att)"
      "\<not> repeated_key (ATTENDEE_KEY @ [''client_req_id'']) (earliest ATTENDEE_KEY ?att)"
    using longer_key_unique [OF earliest_keys_distinct [OF named(1)]] by (metis append_Nil2)+
  have sum: "\<not> repeated_key SUMMARY_KEY (snd (collapse_sum_total SUMMARY_KEY ?sum))"
    using longer_key_unique [OF summed_rows(2) [OF named(2)], of "[]"] by simp
  let ?db1 = "set_rows ATTENDANCE_TABLE (earliest ATTENDEE_KEY ?att) db
      \<lparr>sd_indexes := sd_indexes db @ [(ATTENDANCE_TABLE, ''unique_event_attendee_ref'')]\<rparr>"
  let ?db2 = "?db1 \<lparr>sd_indexes := sd_indexes ?db1 @ [(ATTENDANCE_TABLE, ''unique_event_attendee_req'')]\<rparr>"
  have tr: "table_rows (x \<lparr>sd_indexes := i\<rparr>) t = table_rows x t"
    "has_table (x \<lparr>sd_indexes := i\<rparr>) t = has_table x t" for x i t
    by (simp_all add: table_rows_def has_table_def)
  have 1: "attendance_step (''Flock Attendance Record'', ''unique_event_attendee_ref'', ''(`event`, `attendee_ref`)'') db = (?db1, Inr ())"
    using new(1) tabs(1) att(1)
    by (simp add: attendance_step_def table_of_def index_exists_def attendance_columns collapse_before_def DEDUP_def
        add_index_def keep_min_earliest Let_def)
  have 2: "attendance_step (''Flock Attendance Record'', ''unique_event_attendee_req'',
      ''(`event`, `attendee_ref`, `client_req_id`)'') ?db1 = (?db2, Inr ())"
    using new(2) tabs(1) att(2)
    by (simp add: attendance_step_def table_of_def index_exists_def attendance_columns collapse_before_def DEDUP_def
        add_index_def tr Let_def)
  have 3: "attendance_step (''Event Attendance Summary'', ''unique_branch_event'', ''(`branch`, `event`)'') ?db2
      = (recovered db, Inr ())"
    using new(3) tabs(2) sum
    by (simp add: attendance_step_def table_of_def index_exists_def attendance_columns collapse_before_def DEDUP_def
        add_index_def tr recovered_def Let_def) (simp add: set_rows_def)
  show ?thesis unfolding add_attendance_indexes_def ATTENDANCE_INDEXES_def
    by (simp only: run_patches.simps 1 2 3 prod.case sum.case)
qed

lemma run_again:
  "\<forall>(doctype, name, _) \<in> set specs. index_exists db (table_of doctype) name \<Longrightarrow> run_patches attendance_step specs db = (db, Inr ())"
proof (induction specs)
  case (Cons spec specs)
  obtain doctype name columns where spec: "spec = (doctype, name, columns)" by (cases spec)
  then have "attendance_step spec db = (db, Inr ())" using Cons.prems by (simp add: attendance_step_def Let_def)
  then show ?case using Cons by simp
qed simp

lemma recovered_rows:
  "table_rows (recovered db) ATTENDANCE_TABLE = earliest ATTENDEE_KEY (table_rows db ATTENDANCE_TABLE)"
  "table_rows (recovered db) SUMMARY_TABLE = snd (collapse_sum_total SUMMARY_KEY (table_rows db SUMMARY_TABLE))"
  by (simp_all add: recovered_def table_rows_def set_rows_def)

lemma recovered_elsewhere:
  "sd_indexes (recovered db) = sd_indexes db @ [(ATTENDANCE_TABLE, ''unique_event_attendee_ref''),
     (ATTENDANCE_TABLE, ''unique_event_attendee_req''), (SUMMARY_TABLE, ''unique_branch_event'')]"
  "table \<noteq> ATTENDANCE_TABLE \<Longrightarrow> table \<noteq> SUMMARY_TABLE \<Longrightarrow> table_rows (recovered db) table = table_rows db table"
  by (simp_all only: recovered_def table_rows_def set_rows_def site_db.select_convs site_db.update_convs site_db.surjective)
     (simp_all add: update_conv' del: append_assoc)

text \<open>C33.  The attendance patch on a database with duplicates: it succeeds, keeps of every event and
  attendee exactly the row written first, leaves one summary row per branch and event with the total
  of all of them, adds exactly the three unique indexes of the bulk write path, touches no other
  table, and does nothing when it is run again.\<close>
theorem attendance_patch_recovers:
  assumes "unindexed db"
  shows "\<exists>db'. add_attendance_indexes db = (db', Inr ())
    \<and> table_rows db' ATTENDANCE_TABLE = filter (\<lambda>r. \<not> (\<exists>s \<in> set (table_rows db ATTENDANCE_TABLE).
        index_key ATTENDEE_KEY s = index_key ATTENDEE_KEY r \<and> row_name s < row_name r)) (table_rows db ATTENDANCE_TABLE)
    \<and> distinct (map (index_key ATTENDEE_KEY) (table_rows db' ATTENDANCE_TABLE))
    \<and> distinct (map (index_key SUMMARY_KEY) (table_rows db' SUMMARY_TABLE))
    \<and> (\<forall>key. key_total SUMMARY_KEY (table_rows db' SUMMARY_TABLE) key = key_total SUMMARY_KEY (table_rows db SUMMARY_TABLE) key)
    \<and> sd_indexes db' = sd_indexes db @ [(ATTENDANCE_TABLE, ''unique_event_attendee_ref''),
        (ATTENDANCE_TABLE, ''unique_event_attendee_req''), (SUMMARY_TABLE, ''unique_branch_event'')]
    \<and> (\<forall>table. table \<noteq> ATTENDANCE_TABLE \<longrightarrow> table \<noteq> SUMMARY_TABLE \<longrightarrow> table_rows db' table = table_rows db table)
    \<and> add_attendance_indexes db' = (db', Inr ())"
proof -
  have named: "named_rows ATTENDEE_KEY (table_rows db ATTENDANCE_TABLE)" "named_rows SUMMARY_KEY (table_rows db SUMMARY_TABLE)"
    using assms by (simp_all add: unindexed_def)
  have again: "add_attendance_indexes (recovered db) = (recovered db, Inr ())"
    unfolding add_attendance_indexes_def
    by (rule run_again) (simp add: ATTENDANCE_INDEXES_def index_exists_def table_of_def recovered_def)
  have first: "earliest ATTENDEE_KEY (table_rows db ATTENDANCE_TABLE) = filter (\<lambda>r. \<not> (\<exists>s \<in> set (table_rows db ATTENDANCE_TABLE).
        index_key ATTENDEE_KEY s = index_key ATTENDEE_KEY r \<and> row_name s < row_name r)) (table_rows db ATTENDANCE_TABLE)"
    unfolding earliest_def by (rule filter_cong) (simp_all only: later_duplicate_iff [OF named(1)])
  have total: "''total'' \<notin> set SUMMARY_KEY" by simp
  note summed = summed_rows(2,3) [OF named(2) total]
  show ?thesis
    by (intro exI [of _ "recovered db"] conjI allI impI; (unfold recovered_rows)?;
        rule attendance_run [OF assms] first earliest_keys_distinct [OF named(1)] summed recovered_elsewhere again; assumption?)
qed

lemma length_split: "length (filter P xs) = length (filter P (filter Q xs)) + length (filter P (filter (\<lambda>x. \<not> Q x) xs))"
  by (induction xs) auto

text \<open>C40.  The totals of the recovered database: where the summary counted every row written for a branch
  and event, it is too high afterwards by the rows the patch deleted there, so it equals the rows
  exactly where there was no duplicate.\<close>
theorem recovered_totals_overcount:
  assumes "unindexed db"
    and counted: "key_total SUMMARY_KEY (table_rows db SUMMARY_TABLE) [Py_Str b, Py_Str e]
      = of_nat (length (rows_with_key SUMMARY_KEY (table_rows db ATTENDANCE_TABLE) [Py_Str b, Py_Str e]))"
  shows "let db' = fst (add_attendance_indexes db);
      total_of = (\<lambda>d. key_total SUMMARY_KEY (table_rows d SUMMARY_TABLE) [Py_Str b, Py_Str e]);
      rows_of = (\<lambda>d. rows_with_key SUMMARY_KEY (table_rows d ATTENDANCE_TABLE) [Py_Str b, Py_Str e]);
      deleted = filter (later_duplicate ATTENDEE_KEY (table_rows db ATTENDANCE_TABLE)) (rows_of db)
    in total_of db' = of_nat (length (rows_of db') + length deleted)
      \<and> (total_of db' = of_nat (length (rows_of db')) \<longleftrightarrow> deleted = [])"
proof -
  let ?att = "table_rows db ATTENDANCE_TABLE" and ?sum = "table_rows db SUMMARY_TABLE" and ?key = "[Py_Str b, Py_Str e]"
  let ?late = "later_duplicate ATTENDEE_KEY ?att"
  have named: "named_rows SUMMARY_KEY ?sum" using assms(1) by (simp add: unindexed_def)
  have sum: "key_total SUMMARY_KEY (table_rows (recovered db) SUMMARY_TABLE) ?key
      = of_nat (length (rows_with_key SUMMARY_KEY ?att ?key))"
    unfolding recovered_rows summed_rows(3) [OF named, simplified] by (rule counted)
  have deleted: "filter ?late (rows_with_key SUMMARY_KEY ?att ?key) = filter (\<lambda>r. index_key SUMMARY_KEY r = ?key) (filter ?late ?att)"
    by (simp add: rows_with_key_def conj_commute cong: filter_cong)
  have "length (rows_with_key SUMMARY_KEY ?att ?key)
      = length (rows_with_key SUMMARY_KEY (table_rows (recovered db) ATTENDANCE_TABLE) ?key)
        + length (filter ?late (rows_with_key SUMMARY_KEY ?att ?key))"
    unfolding deleted recovered_rows earliest_def
    unfolding rows_with_key_def by (subst length_split [of _ _ "\<lambda>r. \<not> ?late r"]) simp
  then show ?thesis using sum attendance_run [OF assms(1)] by (simp add: Let_def)
qed

section \<open>A table with a replayed row\<close>

definition demo_attendance_row :: "rat \<Rightarrow> string \<Rightarrow> string \<Rightarrow> pydict" where
  "demo_attendance_row n event attendee =
    [(''name'', Py_Num n), (''event'', Py_Str event), (''attendee_ref'', Py_Str attendee), (''branch'', Py_Str ''B'')]"

definition demo_summary_row :: "rat \<Rightarrow> string \<Rightarrow> rat \<Rightarrow> pydict" where
  "demo_summary_row n event count =
    [(''name'', Py_Num n), (''branch'', Py_Str ''B''), (''event'', Py_Str event), (''total'', Py_Num count)]"

definition demo_dirty :: site_db where
  "demo_dirty = \<lparr>sd_tables =
      [(ATTENDANCE_TABLE, [demo_attendance_row 1 ''G'' ''m'', demo_attendance_row 2 ''G'' ''k'', demo_attendance_row 3 ''G'' ''m'',
         demo_attendance_row 4 ''G'' ''m'']),
       (SUMMARY_TABLE, [demo_summary_row 1 ''G'' 2, demo_summary_row 2 ''G'' 2, demo_summary_row 3 ''H'' 0])],
     sd_indexes = [], sd_defaults = []\<rparr>"

lemma demo_dirty_unindexed: "unindexed demo_dirty"
  by code_simp

lemma attendance_patch_recovers_witness:
  "map row_name (table_rows (fst (add_attendance_indexes demo_dirty)) ATTENDANCE_TABLE) = [1, 2]
   \<and> distinct (map (index_key SUMMARY_KEY) (table_rows (fst (add_attendance_indexes demo_dirty)) SUMMARY_TABLE))
   \<and> length (sd_indexes (fst (add_attendance_indexes demo_dirty))) = 3"
proof -
  have "map row_name (filter (\<lambda>r. \<not> (\<exists>s \<in> set (table_rows demo_dirty ATTENDANCE_TABLE).
      index_key ATTENDEE_KEY s = index_key ATTENDEE_KEY r \<and> row_name s < row_name r)) (table_rows demo_dirty ATTENDANCE_TABLE)) = [1, 2]"
    by code_simp
  moreover obtain db' where "add_attendance_indexes demo_dirty = (db', Inr ())"
    "table_rows db' ATTENDANCE_TABLE = filter (\<lambda>r. \<not> (\<exists>s \<in> set (table_rows demo_dirty ATTENDANCE_TABLE).
      index_key ATTENDEE_KEY s = index_key ATTENDEE_KEY r \<and> row_name s < row_name r)) (table_rows demo_dirty ATTENDANCE_TABLE)"
    "distinct (map (index_key SUMMARY_KEY) (table_rows db' SUMMARY_TABLE))"
    "sd_indexes db' = sd_indexes demo_dirty @ [(ATTENDANCE_TABLE, ''unique_event_attendee_ref''),
        (ATTENDANCE_TABLE, ''unique_event_attendee_req''), (SUMMARY_TABLE, ''unique_branch_event'')]"
    using attendance_patch_recovers [OF demo_dirty_unindexed] by (elim exE conjE)
  moreover have "sd_indexes demo_dirty = []" by (simp only: demo_dirty_def site_db.select_convs)
  ultimately show ?thesis by (simp only: fst_conv append_Nil length_Cons list.size simp_thms)
qed

lemma recovered_totals_overcount_witness:
  "let db' = fst (add_attendance_indexes demo_dirty) in
     key_total SUMMARY_KEY (table_rows db' SUMMARY_TABLE) [Py_Str ''B'', Py_Str ''G''] = 4
     \<and> length (rows_with_key SUMMARY_KEY (table_rows db' ATTENDANCE_TABLE) [Py_Str ''B'', Py_Str ''G'']) = 2"
proof -
  have counted: "key_total SUMMARY_KEY (table_rows demo_dirty SUMMARY_TABLE) [Py_Str ''B'', Py_Str ''G'']
      = of_nat (length (rows_with_key SUMMARY_KEY (table_rows demo_dirty ATTENDANCE_TABLE) [Py_Str ''B'', Py_Str ''G'']))"
    by code_simp
  have "length (rows_with_key SUMMARY_KEY (table_rows (fst (add_attendance_indexes demo_dirty)) ATTENDANCE_TABLE) [Py_Str ''B'', Py_Str ''G'']) = 2"
    "length (filter (later_duplicate ATTENDEE_KEY (table_rows demo_dirty ATTENDANCE_TABLE))
       (rows_with_key SUMMARY_KEY (table_rows demo_dirty ATTENDANCE_TABLE) [Py_Str ''B'', Py_Str ''G''])) = 2"
    by code_simp+
  then show ?thesis using recovered_totals_overcount [OF demo_dirty_unindexed counted] by (simp add: Let_def)
qed

text \<open>The number \<open>_collapse_keep_min_name\<close> returns is not the one of the rows it deletes: three rows of a
  key are two deleted rows and three pairs.\<close>

lemma duplicates_counted_by_pairs:
  "case collapse_keep_min_name ATTENDEE_KEY (table_rows demo_dirty ATTENDANCE_TABLE) of (dupes, kept) \<Rightarrow>
     dupes = 3 \<and> length (table_rows demo_dirty ATTENDANCE_TABLE) - length kept = 2"
  by code_simp

text \<open>A server which reports the default as \<open>nextval(`db`.`seq`)\<close>, as the backup tools find it, is altered at
  every migration.\<close>

lemma sequence_default_not_recognised:
  assumes "target \<in> set TARGETS"
    and "map_of (sd_defaults db) (fst (snd target)) = Some (''nextval(`site`.`'' @ snd (snd target) @ ''`)'')"
  shows "\<not> name_default_is_sequence db (fst (snd target))"
  using assms unfolding TARGETS_def name_default_is_sequence_def
  by (elim set_ConsD [elim_format] disjE) (auto simp: contains_text_def upper_ascii_def Let_def)

text \<open>The other patches recover nothing: rows that repeat a branch, gathering and member stop the
  migration at the engagement indexes, and the patches after it do not run.\<close>

lemma engagement_indexes_need_clean_rows:
  assumes "has_table db ATTENDANCE_TABLE" "\<not> index_exists db ATTENDANCE_TABLE ''unique_engagement_session_attendee_key''"
    "\<not> index_exists db ATTENDANCE_TABLE ''unique_branch_gathering_member''"
    "\<not> repeated_key [''engagement_session'', ''attendee_key''] (table_rows db ATTENDANCE_TABLE)"
    "repeated_key [''branch'', ''gathering'', ''member''] (table_rows db ATTENDANCE_TABLE)"
  shows "snd (add_engagement_indexes db) = Inl (Duplicate_Entry ATTENDANCE_TABLE ''unique_branch_gathering_member'')"
proof -
  have cols: "columns_of ''(`engagement_session`, `attendee_key`)'' = [''engagement_session'', ''attendee_key'']"
    "columns_of ''(`branch`, `gathering`, `member`)'' = [''branch'', ''gathering'', ''member'']" by code_simp+
  show ?thesis using assms
    by (simp add: add_engagement_indexes_def add_indexes_def ENGAGEMENT_INDEXES_def index_step_def table_of_def cols
        add_index_def index_exists_def has_table_def table_rows_def Let_def)
qed

section \<open>Seeds\<close>

lemma row_exists_seed:
  "row_exists db doctype name \<Longrightarrow> row_exists (seed_row doctype' field row db) doctype name"
  by (auto simp: row_exists_def seed_row_def Let_def table_of_def)

lemma row_exists_seeded: "row_exists (seed_row doctype field row db) doctype (type_name field row)"
  by (auto simp: row_exists_def seed_row_def Let_def py_get_or_def)

lemma row_exists_seed_all:
  "row_exists db doctype name \<Longrightarrow> row_exists (fold (seed_row doctype' field) rows db) doctype name"
  by (induction rows arbitrary: db) (auto simp: row_exists_seed)

lemma seeded_all: "row \<in> set rows \<Longrightarrow> row_exists (fold (seed_row doctype field) rows db) doctype (type_name field row)"
  by (induction rows arbitrary: db) (auto simp: row_exists_seeded row_exists_seed_all)

lemma seed_all_again:
  "\<forall>row \<in> set rows. row_exists db doctype (type_name field row) \<Longrightarrow> fold (seed_row doctype field) rows db = db"
  by (induction rows) (auto simp: seed_row_def Let_def)

lemma seeds_idempotent:
  "seed_gathering_fixtures (fst (seed_gathering_fixtures db)) = seed_gathering_fixtures db"
  "seed_core_fixtures (fst (seed_core_fixtures db)) = seed_core_fixtures db"
proof -
  show "seed_gathering_fixtures (fst (seed_gathering_fixtures db)) = seed_gathering_fixtures db"
    by (simp add: seed_gathering_fixtures_def seed_all_again seeded_all)
  have roles: "fold (\<lambda>role. seed_row d f [(f, Py_Str role)]) names db = fold (seed_row d f) (map (\<lambda>role. [(f, Py_Str role)]) names) db"
    for d f names db by (simp add: fold_map comp_def)
  show "seed_core_fixtures (fst (seed_core_fixtures db)) = seed_core_fixtures db"
    by (simp add: seed_core_fixtures_def roles seed_all_again seeded_all row_exists_seed_all)
qed

end
