(* ===== verification/Drill_Properties.thy ===== *)
theory Drill_Properties
  imports Backup_Drill
begin

text \<open>
  What the restore drill decides, and when the qualifiers of a dump are gone for good: the verdict on
  two sites is the one on their row counts, a missing document type counting as empty.
\<close>

section \<open>Removing the qualifiers once\<close>

definition word_char :: "char \<Rightarrow> bool" where
  "word_char c \<longleftrightarrow> (let n = (of_char c :: nat) in (48 \<le> n \<and> n \<le> 57) \<or> (65 \<le> n \<and> n \<le> 90) \<or> n = 95 \<or> (97 \<le> n \<and> n \<le> 122))"

text \<open>The sequences which are named behind a qualifier have plain names.\<close>

definition plain_sequences :: "string \<Rightarrow> bool" where
  "plain_sequences s \<longleftrightarrow> (\<forall>t \<in> set (suffixes s). case qualified_head t of None \<Rightarrow> True | Some (seq, _) \<Rightarrow> list_all word_char seq)"

lemma plain_suffix: "plain_sequences s \<Longrightarrow> suffix t s \<Longrightarrow> plain_sequences t"
  by (auto simp: plain_sequences_def intro: suffix_order.trans)

lemma parts_append [simp]:
  "BACKTICK \<notin> set w \<Longrightarrow> name_part (w @ BACKTICK # r) = w" "BACKTICK \<notin> set w \<Longrightarrow> after_part (w @ BACKTICK # r) = BACKTICK # r"
  by (simp_all add: name_part_def after_part_def takeWhile_append dropWhile_append)

lemma parts_Cons [simp]:
  "name_part (BACKTICK # r) = []" "after_part (BACKTICK # r) = BACKTICK # r"
  "c \<noteq> BACKTICK \<Longrightarrow> name_part (c # r) = c # name_part r" "c \<noteq> BACKTICK \<Longrightarrow> after_part (c # r) = after_part r"
  "name_part [] = []" "after_part [] = []"
  by (simp_all add: name_part_def after_part_def)

lemma parts_of: "name_part s @ after_part s = s" "BACKTICK \<notin> set (name_part s)"
  by (auto simp: name_part_def after_part_def dest: set_takeWhileD)

lemma after_part_cases: obtains "after_part s = []" | r where "after_part s = BACKTICK # r" "s = name_part s @ BACKTICK # r"
proof (cases "after_part s")
  case (Cons c r)
  then have "c = BACKTICK" using hd_dropWhile [of "\<lambda>c. c \<noteq> BACKTICK" s] by (auto simp: after_part_def)
  then show ?thesis using Cons parts_of(1) [of s] that(2) [of r] by simp
qed (use that in auto)

lemma NEXTVAL_parts: "NEXTVAL @ r = ''nextval('' @ BACKTICK # r" "BACKTICK \<notin> set ''nextval(''"
  by (simp_all add: NEXTVAL_def BACKTICK_def)

lemma prefix_NEXTVAL: "prefix NEXTVAL s \<longleftrightarrow> name_part s = ''nextval('' \<and> after_part s \<noteq> []"
proof
  assume "prefix NEXTVAL s"
  then obtain r where "s = ''nextval('' @ BACKTICK # r" by (auto simp: prefix_def NEXTVAL_parts(1) simp del: append.simps)
  then show "name_part s = ''nextval('' \<and> after_part s \<noteq> []" using NEXTVAL_parts(2) by (simp del: append.simps)
next
  assume h: "name_part s = ''nextval('' \<and> after_part s \<noteq> []"
  show "prefix NEXTVAL s"
    by (rule after_part_cases [of s]) (use h in \<open>auto simp: prefix_def NEXTVAL_parts(1) simp del: append.simps\<close>)
qed

text \<open>The head read off the parts.\<close>

lemma qualified_head_iff:
  "qualified_head s = Some (seq, rest) \<longleftrightarrow>
    (\<exists>db. db \<noteq> [] \<and> BACKTICK \<notin> set db \<and> seq \<noteq> [] \<and> BACKTICK \<notin> set seq
      \<and> s = NEXTVAL @ db @ QUALIFIER_END @ seq @ CALL_END @ rest)"
proof
  assume h: "qualified_head s = Some (seq, rest)"
  then have "prefix NEXTVAL s" by (auto simp: qualified_head_def split: if_splits)
  then obtain d where d: "s = NEXTVAL @ d" by (auto simp: prefix_def)
  with h have "prefix QUALIFIER_END (after_part d)" and db: "name_part d \<noteq> []"
    by (auto simp: qualified_head_def Let_def split: if_splits)
  then obtain q where q: "after_part d = QUALIFIER_END @ q" by (auto simp: prefix_def)
  with h d db have "prefix CALL_END (after_part q)" and seq: "name_part q \<noteq> []" "seq = name_part q"
    by (auto simp: qualified_head_def Let_def split: if_splits)
  then obtain r where r: "after_part q = CALL_END @ r" by (auto simp: prefix_def)
  have "rest = r" using h d db q seq r by (simp add: qualified_head_def Let_def)
  then have "d = name_part d @ QUALIFIER_END @ seq @ CALL_END @ rest"
    using parts_of(1) [of d] parts_of(1) [of q] q r seq by simp
  then show "\<exists>db. db \<noteq> [] \<and> BACKTICK \<notin> set db \<and> seq \<noteq> [] \<and> BACKTICK \<notin> set seq
      \<and> s = NEXTVAL @ db @ QUALIFIER_END @ seq @ CALL_END @ rest"
    using d db seq parts_of(2) by (intro exI [of _ "name_part d"]) auto
next
  assume "\<exists>db. db \<noteq> [] \<and> BACKTICK \<notin> set db \<and> seq \<noteq> [] \<and> BACKTICK \<notin> set seq
      \<and> s = NEXTVAL @ db @ QUALIFIER_END @ seq @ CALL_END @ rest"
  then obtain db where db: "db \<noteq> []" "BACKTICK \<notin> set db" "seq \<noteq> []" "BACKTICK \<notin> set seq"
    "s = NEXTVAL @ db @ QUALIFIER_END @ seq @ CALL_END @ rest" by blast
  have q: "QUALIFIER_END @ r = BACKTICK # CHR ''.'' # BACKTICK # r" "CALL_END @ r = BACKTICK # CHR '')'' # r" for r
    by (simp_all add: QUALIFIER_END_def CALL_END_def)
  show "qualified_head s = Some (seq, rest)" using db(1-4) unfolding db(5)
    by (simp add: qualified_head_def Let_def q QUALIFIER_END_def CALL_END_def)
qed

lemma strip_head_None: "qualified_head (c # t) = None \<Longrightarrow> strip_sequence_qualifier (c # t) = c # strip_sequence_qualifier t"
  by (subst strip_sequence_qualifier.simps) simp

lemma strip_head_Some:
  "qualified_head s = Some (seq, rest) \<Longrightarrow>
   strip_sequence_qualifier s = NEXTVAL @ seq @ CALL_END @ strip_sequence_qualifier rest"
  using qualified_head_shorter [of s seq rest] by (subst strip_sequence_qualifier.simps) auto

lemma strip_Nil [simp]: "strip_sequence_qualifier [] = []"
  by (simp add: strip_sequence_qualifier.simps)

lemma head_of_plain:
  "plain_sequences s \<Longrightarrow> qualified_head s = Some (seq, rest) \<Longrightarrow> list_all word_char seq \<and> plain_sequences rest"
proof
  assume h: "plain_sequences s" "qualified_head s = Some (seq, rest)"
  show "list_all word_char seq" using h unfolding plain_sequences_def
    by (metis (no_types, lifting) in_set_suffixes option.simps(5) prod.case suffix_order.refl)
  have "suffix rest s" using h(2) by (auto simp: qualified_head_iff suffix_def)
  then show "plain_sequences rest" using plain_suffix h(1) by blast
qed

text \<open>Up to its first backtick a text is left alone; behind it either the rest is treated on its own, or a
  call has lost its qualifier.\<close>

lemma strip_parts:
  "plain_sequences t \<Longrightarrow> name_part (strip_sequence_qualifier t) = name_part t
    \<and> (after_part t = [] \<longrightarrow> after_part (strip_sequence_qualifier t) = [])
    \<and> (\<forall>u. after_part t = BACKTICK # u \<longrightarrow> after_part (strip_sequence_qualifier t) = BACKTICK # strip_sequence_qualifier u
        \<or> suffix ''nextval('' (name_part t) \<and> (\<exists>seq R. seq \<noteq> [] \<and> list_all word_char seq
             \<and> after_part (strip_sequence_qualifier t) = BACKTICK # seq @ CALL_END @ R))"
proof (induction t rule: strip_sequence_qualifier.induct)
  case (1 s)
  show ?case
  proof (cases s)
    case (Cons c t)
    show ?thesis
    proof (cases "qualified_head s")
      case None
      then have strip: "strip_sequence_qualifier s = c # strip_sequence_qualifier t"
        using Cons strip_head_None by simp
      have "plain_sequences t" using "1.prems" plain_suffix Cons by (auto simp: suffix_def)
      then have "c \<noteq> BACKTICK \<Longrightarrow> ?thesis"
        using "1.IH"(1) [OF _ None] Cons strip by (auto intro: suffix_ConsI)
      moreover have "c = BACKTICK \<Longrightarrow> ?thesis" using Cons strip by simp
      ultimately show ?thesis by blast
    next
      case (Some p)
      then obtain seq rest where p: "qualified_head s = Some (seq, rest)" by (cases p) auto
      then obtain db where s: "s = NEXTVAL @ db @ QUALIFIER_END @ seq @ CALL_END @ rest" and seq: "seq \<noteq> []"
        unfolding qualified_head_iff by blast
      have "name_part s = ''nextval(''" "after_part s = BACKTICK # db @ QUALIFIER_END @ seq @ CALL_END @ rest"
        unfolding s NEXTVAL_parts(1) using NEXTVAL_parts(2) by (rule parts_append)+
      moreover have "name_part (strip_sequence_qualifier s) = ''nextval(''"
        "after_part (strip_sequence_qualifier s) = BACKTICK # seq @ CALL_END @ strip_sequence_qualifier rest"
        unfolding strip_head_Some [OF p] NEXTVAL_parts(1) using NEXTVAL_parts(2) by (rule parts_append)+
      ultimately show ?thesis using head_of_plain [OF "1.prems" p] seq by auto
    qed
  qed simp
qed

text \<open>No head appears where there was none.\<close>

lemma not_word: "\<not> word_char CHR ''.''" "\<not> word_char CHR '')''" "\<not> word_char CHR ''(''" "\<not> word_char BACKTICK"
  by (simp_all add: word_char_def BACKTICK_def)

lemma strip_keeps_first: "strip_sequence_qualifier z = c # Z \<Longrightarrow> c \<noteq> CHR ''n'' \<Longrightarrow> \<exists>z'. z = c # z'"
proof -
  assume h: "strip_sequence_qualifier z = c # Z" "c \<noteq> CHR ''n''"
  then obtain d z' where z: "z = d # z'" by (cases z) auto
  show ?thesis
  proof (cases "qualified_head z")
    case None
    then show ?thesis using h(1) z strip_head_None [of d z'] by simp
  next
    case (Some p)
    then have "strip_sequence_qualifier z = CHR ''n'' # tl NEXTVAL @ fst p @ CALL_END @ strip_sequence_qualifier (snd p)"
      using strip_head_Some [of z "fst p" "snd p"] by (simp add: NEXTVAL_def)
    then show ?thesis using h by simp
  qed
qed

lemma strip_after:
  assumes "plain_sequences t" "after_part (strip_sequence_qualifier t) = BACKTICK # X"
  obtains u where "after_part t = BACKTICK # u" "t = name_part t @ BACKTICK # u" "plain_sequences u"
    "X = strip_sequence_qualifier u \<or> suffix ''nextval('' (name_part t) \<and> (\<exists>seq R. seq \<noteq> [] \<and> list_all word_char seq \<and> X = seq @ R)"
proof (cases rule: after_part_cases [of t])
  case 1
  then show ?thesis using strip_parts [OF assms(1)] assms(2) by simp
next
  case (2 u)
  then have "suffix u t" by (metis Cons_eq_appendI append_assoc append_Cons append_Nil suffix_def)
  then have "plain_sequences u" using assms(1) plain_suffix by blast
  then show ?thesis using that [OF 2] strip_parts [OF assms(1)] 2(1) assms(2) by auto
qed

lemma strip_step:
  assumes "plain_sequences t" "strip_sequence_qualifier t = w @ BACKTICK # Y" "BACKTICK \<notin> set w"
    and "\<not> suffix ''nextval('' w \<or> (\<exists>c Y'. Y = c # Y' \<and> \<not> word_char c)"
  obtains u where "t = w @ BACKTICK # u" "plain_sequences u" "strip_sequence_qualifier u = Y"
proof -
  have "name_part (strip_sequence_qualifier t) = w" and after: "after_part (strip_sequence_qualifier t) = BACKTICK # Y"
    unfolding assms(2) using assms(3) by (rule parts_append)+
  then have w: "name_part t = w" using strip_parts [OF assms(1)] by simp
  obtain u where u: "t = w @ BACKTICK # u" "plain_sequences u"
    "Y = strip_sequence_qualifier u \<or> suffix ''nextval('' w \<and> (\<exists>seq R. seq \<noteq> [] \<and> list_all word_char seq \<and> Y = seq @ R)"
    using strip_after [OF assms(1) after] unfolding w by metis
  have "\<not> (\<exists>seq R. seq \<noteq> [] \<and> list_all word_char seq \<and> Y = seq @ R)" if "Y = c # Y'" "\<not> word_char c" for c Y'
    using that by (auto simp: Cons_eq_append_conv)
  then have "Y = strip_sequence_qualifier u" using u(3) assms(4) by metis
  then show ?thesis using that u by simp
qed

lemma no_new_head:
  assumes none: "qualified_head (c # t) = None" and plain: "plain_sequences t"
  shows "qualified_head (c # strip_sequence_qualifier t) = None"
proof (rule ccontr)
  assume "qualified_head (c # strip_sequence_qualifier t) \<noteq> None"
  then obtain seq rest db where db: "db \<noteq> []" "BACKTICK \<notin> set db" "seq \<noteq> []" "BACKTICK \<notin> set seq"
    and s: "c # strip_sequence_qualifier t = NEXTVAL @ db @ QUALIFIER_END @ seq @ CALL_END @ rest"
    using qualified_head_iff by (metis option.exhaust prod.exhaust)
  let ?Z = "seq @ BACKTICK # CHR '')'' # rest"
  have c: "c = CHR ''n''"
    and st: "strip_sequence_qualifier t = ''extval('' @ BACKTICK # db @ BACKTICK # ''.'' @ BACKTICK # ?Z"
    using s by (simp_all add: NEXTVAL_def QUALIFIER_END_def CALL_END_def)
  have free: "BACKTICK \<notin> set ''extval(''" "BACKTICK \<notin> set ''.''" by (simp_all add: BACKTICK_def)
  have short: "\<not> suffix ''nextval('' ''extval(''" "\<not> suffix ''nextval('' ''.''"
    by (auto simp: suffix_def Cons_eq_append_conv)
  obtain u where u: "t = ''extval('' @ BACKTICK # u" "plain_sequences u"
      "strip_sequence_qualifier u = db @ BACKTICK # ''.'' @ BACKTICK # ?Z"
    using strip_step [OF plain st free(1)] short(1) by metis
  obtain v where v: "u = db @ BACKTICK # v" "plain_sequences v" "strip_sequence_qualifier v = ''.'' @ BACKTICK # ?Z"
    by (rule strip_step [OF u(2,3) db(2)]) (use not_word(1) in auto)
  obtain w where w: "v = ''.'' @ BACKTICK # w" "plain_sequences w" "strip_sequence_qualifier w = ?Z"
    using strip_step [OF v(2,3) free(2)] short(2) by metis
  obtain z where z: "w = seq @ BACKTICK # z" "strip_sequence_qualifier z = CHR '')'' # rest"
    by (rule strip_step [OF w(2,3) db(4)]) (use not_word(2) in auto)
  then obtain z' where "z = CHR '')'' # z'" using strip_keeps_first by fastforce
  then have "c # t = NEXTVAL @ db @ QUALIFIER_END @ seq @ CALL_END @ z'"
    using c u(1) v(1) w(1) z(1) by (simp add: NEXTVAL_def QUALIFIER_END_def CALL_END_def)
  then have "qualified_head (c # t) = Some (seq, z')" using db qualified_head_iff by blast
  then show False using none by simp
qed

text \<open>Inside a treated call no search succeeds.\<close>

lemma no_head_in_call:
  assumes seq: "list_all word_char seq" "BACKTICK \<notin> set seq"
    and u: "suffix u (NEXTVAL @ seq @ CALL_END)" "u \<noteq> []"
  shows "qualified_head (u @ r) = None"
proof (rule ccontr)
  assume "qualified_head (u @ r) \<noteq> None"
  then obtain q rest db where h: "BACKTICK \<notin> set db" "u @ r = NEXTVAL @ db @ QUALIFIER_END @ q @ CALL_END @ rest"
    using qualified_head_iff by (metis option.exhaust prod.exhaust)
  then have first: "u \<noteq> [] \<and> hd u = CHR ''n''" and name: "name_part (u @ r) = ''nextval(''"
    using u(2) prefix_NEXTVAL [of "u @ r"] by (cases u; auto simp: NEXTVAL_def)+
  have word: "name_part (t @ CALL_END @ r) = t" if "suffix t seq" for t
    using that seq(2) parts_append(1) [of t "CHR '')'' # r"] by (auto simp: CALL_END_def suffix_def)
  consider t where "u = t @ CALL_END" "suffix t seq" | "suffix u CALL_END"
    | t where "u = t @ seq @ CALL_END" "suffix t NEXTVAL" "t \<noteq> []"
    using u(1) by (auto simp: suffix_append)
  then show False
  proof cases
    case 1
    then have "t = ''nextval(''" using word [of t] name by simp
    then have "list_all word_char ''nextval(''" using 1(2) seq(1) by (auto simp: suffix_def)
    then show False using not_word(3) by simp
  next
    case 2
    then show False using first by (auto simp: CALL_END_def suffix_Cons BACKTICK_def)
  next
    case 3
    then have "t = NEXTVAL" using first by (auto simp: NEXTVAL_def suffix_Cons BACKTICK_def)
    then have "seq @ CALL_END @ r = db @ QUALIFIER_END @ q @ CALL_END @ rest" using 3(1) h(2) by simp
    then have "CALL_END @ r = after_part (db @ QUALIFIER_END @ q @ CALL_END @ rest)"
      using parts_append(2) [OF seq(2), of "CHR '')'' # r"] by (simp add: CALL_END_def)
    also have "\<dots> = QUALIFIER_END @ q @ CALL_END @ rest"
      using parts_append(2) [OF h(1)] by (simp add: QUALIFIER_END_def)
    finally show False by (simp add: CALL_END_def QUALIFIER_END_def)
  qed
qed

lemma no_head_left:
  "plain_sequences s \<Longrightarrow> suffix t (strip_sequence_qualifier s) \<Longrightarrow> qualified_head t = None"
proof (induction s arbitrary: t rule: strip_sequence_qualifier.induct)
  case (1 s)
  have nil: "qualified_head [] = None" by (simp add: qualified_head_def NEXTVAL_def)
  show ?case
  proof (cases s)
    case Nil
    then show ?thesis using 1(4) nil by simp
  next
    case (Cons c s')
    show ?thesis
    proof (cases "qualified_head s")
      case None
      have plain: "plain_sequences s'" using 1(3) Cons plain_suffix by (auto simp: suffix_def)
      have "suffix t (c # strip_sequence_qualifier s')" using 1(4) None Cons strip_head_None by simp
      then show ?thesis
        using 1(1) [OF _ None] plain Cons no_new_head [OF _ plain, of c] None by (auto simp: suffix_Cons)
    next
      case (Some p)
      then obtain seq rest where p: "qualified_head s = Some (seq, rest)" by (cases p) auto
      then have seq: "list_all word_char seq" "plain_sequences rest" "BACKTICK \<notin> set seq"
        using head_of_plain [OF 1(3)] by (auto simp: qualified_head_iff)
      have "suffix t ((NEXTVAL @ seq @ CALL_END) @ strip_sequence_qualifier rest)"
        using 1(4) strip_head_Some [OF p] by simp
      then consider "suffix t (strip_sequence_qualifier rest)"
        | u where "t = u @ strip_sequence_qualifier rest" "suffix u (NEXTVAL @ seq @ CALL_END)"
        by (auto simp: suffix_append)
      then show ?thesis
      proof cases
        case 1
        then show ?thesis using "1.IH"(2) [OF _ p] Cons seq(2) by simp
      next
        case 2
        then show ?thesis using no_head_in_call [OF seq(1,3)] "1.IH"(2) [OF _ p] Cons seq(2)
          by (cases "u = []") auto
      qed
    qed
  qed
qed

lemma strip_without_heads: "(\<And>t. suffix t s \<Longrightarrow> qualified_head t = None) \<Longrightarrow> strip_sequence_qualifier s = s"
proof (induction s)
  case (Cons c s)
  then show ?case using strip_head_None [of c s] by (auto simp: suffix_ConsI)
qed simp

text \<open>Removing the qualifiers of a dump whose sequences have plain names leaves no qualified call, so
  removing them again changes nothing.\<close>
theorem strip_qualifier_idempotent:
  assumes "plain_sequences s"
  shows "(\<forall>t \<in> set (suffixes (strip_sequence_qualifier s)). qualified_head t = None)
    \<and> strip_sequence_qualifier (strip_sequence_qualifier s) = strip_sequence_qualifier s"
  using no_head_left [OF assms] strip_without_heads by auto

definition demo_dump :: string where
  "demo_dump = ''DEFAULT nextval(`_src`.`a_seq`), `x` int''"

lemma strip_qualifier_idempotent_witness:
  "strip_sequence_qualifier demo_dump = ''DEFAULT nextval(`a_seq`), `x` int''
   \<and> strip_sequence_qualifier (strip_sequence_qualifier demo_dump) = strip_sequence_qualifier demo_dump"
proof -
  have "plain_sequences demo_dump" by code_simp
  moreover have "strip_sequence_qualifier demo_dump = ''DEFAULT nextval(`a_seq`), `x` int''" by code_simp
  ultimately show ?thesis using strip_qualifier_idempotent by blast
qed

text \<open>Without that it may take more than one pass, although the function is documented as idempotent.\<close>

lemma strip_not_idempotent:
  "let s = ''nextval(`nextval(`a`.`.`)`)'' in
     strip_sequence_qualifier s = ''nextval(`nextval(`.`)`)''
     \<and> strip_sequence_qualifier (strip_sequence_qualifier s) = ''nextval(`)`)''"
  by code_simp

section \<open>Reading counts back\<close>

text \<open>What \<open>mysql -N -B\<close> prints for the rows of the count statement: a line per row, the columns
  separated by a tabulator.\<close>

definition count_text :: "(string \<times> nat) list \<Rightarrow> string" where
  "count_text rows = concat (map (\<lambda>(doctype, n). doctype @ [TSV_SEP] @ digits (int n) @ NEWLINE) rows)"

text \<open>A name which the text keeps: no white space around it, no tabulator and no end of a line in it.\<close>

definition plain_name :: "string \<Rightarrow> bool" where
  "plain_name d \<longleftrightarrow> trimmed d \<and> TSV_SEP \<notin> set d \<and> (\<forall>c \<in> set d. \<not> line_break c)"

lemma digits_code:
  assumes "c \<in> set (digits (int n))" shows "48 \<le> (of_char c :: nat) \<and> (of_char c :: nat) \<le> 57"
proof -
  have "48 \<le> (of_char c :: int)" "(of_char c :: int) \<le> 57" using digits_chars [OF _ assms] by auto
  then show ?thesis by (metis nat_int nat_mono of_nat_of_char numeral_One nat_numeral)
qed

lemma py_int_digits: "py_int (Py_Str (digits (int n))) = Inr (int n)"
proof -
  have "digits (int n) \<noteq> []" by (subst digits.simps) auto
  then have "all_digits (digits (int n))" using digits_chars [of "int n"] by (auto simp: all_digits_def)
  then show ?thesis by (simp add: py_int_def digits_value_digits)
qed

lemma count_line_text:
  assumes "plain_name d"
  shows "count_line (d @ [TSV_SEP] @ digits (int n)) counts = Inr (AList.update d (int n) counts)"
proof -
  have "TSV_SEP \<notin> set (digits (int n))" using digits_code [of TSV_SEP n] by (auto simp: TSV_SEP_def)
  then have "split_on TSV_SEP (d @ [TSV_SEP] @ digits (int n)) = [d, digits (int n)]"
    using assms by (simp add: plain_name_def split_on_append split_on_free)
  then show ?thesis using assms
    by (simp add: count_line_def Let_def plain_name_def py_strip_trimmed trimmed_digits py_int_digits)
qed

lemma count_lines_text:
  assumes "\<forall>(d, n) \<in> set rows. plain_name d"
  shows "count_lines (splitlines (count_text rows)) counts = Inr (fold (\<lambda>(d, n). AList.update d (int n)) rows counts)"
  using assms
proof (induction rows arbitrary: counts)
  case (Cons row rows)
  obtain d n where row: "row = (d, n)" by (cases row)
  let ?line = "d @ [TSV_SEP] @ digits (int n)"
  have d: "plain_name d" using Cons.prems row by simp
  have lb: "\<forall>c \<in> set ?line. \<not> line_break c"
    using d digits_code by (fastforce simp: plain_name_def TSV_SEP_def line_break_def Let_def)
  then have lines: "splitlines (count_text ((d, n) # rows)) = ?line # splitlines (count_text rows)"
    using splitlines_line [OF lb] by (simp add: count_text_def)
  have "digits (int n) \<noteq> []" "last (digits (int n)) \<noteq> CHR 0x0D"
    using trimmed_digits [of "int n"] by (auto simp: trimmed_def py_space_def)
  then have "rev (dropWhile (\<lambda>c. c = CHR 0x0D) (rev ?line)) = ?line"
    by (simp add: dropWhile_hd hd_rev)
  moreover have "py_strip ?line \<noteq> []"
  proof -
    have "trimmed ?line" using d trimmed_digits [of "int n"] by (auto simp: plain_name_def trimmed_def)
    then show ?thesis by (simp add: py_strip_trimmed)
  qed
  ultimately show ?case using Cons by (simp add: lines Let_def count_line_text [OF d, simplified] row)
qed (simp add: count_text_def)

lemma fold_updates:
  fixes counts :: "('a \<times> int) list"
  shows "distinct (map fst rows) \<Longrightarrow> fst ` set rows \<inter> fst ` set counts = {} \<Longrightarrow>
   fold (\<lambda>(d, n). AList.update d (int n)) rows counts = counts @ map (\<lambda>(d, n). (d, int n)) rows"
proof (induction rows arbitrary: counts)
  case (Cons row rows)
  obtain d n where row: "row = (d, n)" by (cases row)
  have new: "AList.update d (int n) counts = counts @ [(d, int n)]" if "d \<notin> fst ` set counts" for counts :: "('a \<times> int) list"
    using that by (induction counts) auto
  have "d \<notin> fst ` set counts" using Cons.prems(2) row by auto
  then show ?case using Cons.IH [of "counts @ [(d, int n)]"] Cons.prems by (auto simp: row new)
qed simp

lemma parse_counts_text:
  "\<forall>(d, n) \<in> set rows. plain_name d \<Longrightarrow> distinct (map fst rows) \<Longrightarrow>
   parse_counts (count_text rows) = Inr (map (\<lambda>(d, n). (d, int n)) rows)"
  by (simp add: parse_counts_def count_lines_text fold_updates)

section \<open>The verdict\<close>

lemma dict_or_absent: "key \<notin> fst ` set m \<Longrightarrow> dict_or dflt m key = dflt"
  by (simp add: dict_or_def map_of_eq_None_iff [THEN iffD2])

lemma compare_counts_iff: "fst (compare_counts source restored) \<longleftrightarrow> (\<forall>key. dict_or 0 source key = dict_or 0 restored key)"
proof -
  have "dict_or 0 m key = 0" if "key \<notin> fst ` set m" for m :: counts and key
    by (rule dict_or_absent [OF that])
  then show ?thesis by (fastforce simp: compare_counts_def Let_def filter_empty_conv)
qed

text \<open>The rows of a site by document type, those the discovery statement selects, in the order of names, and
  the text of the count statement over them.\<close>

definition site_output :: "(string \<times> nat) list \<Rightarrow> string" where
  "site_output site = count_text (map (\<lambda>d. (d, dict_or 0 site d)) (sort (filter (prefix ''Flock '') (map fst site))))"

definition drill_verdict :: "(string \<times> nat) list \<Rightarrow> (string \<times> nat) list \<Rightarrow> drill_error + bool" where
  "drill_verdict source restored = res_bind (parse_counts (site_output source)) (\<lambda>s.
     res_bind (parse_counts (site_output restored)) (\<lambda>r. Inr (fst (compare_counts s r))))"

lemma parse_site:
  assumes "\<forall>d \<in> fst ` set site. plain_name d" "distinct (map fst site)"
  shows "\<exists>m. parse_counts (site_output site) = Inr m \<and> (\<forall>d. dict_or 0 m d = (if prefix ''Flock '' d then int (dict_or 0 site d) else 0))"
proof -
  let ?ds = "sort (filter (prefix ''Flock '') (map fst site))"
  let ?rows = "map (\<lambda>d. (d, dict_or 0 site d)) ?ds"
  let ?m = "map (\<lambda>d. (d, int (dict_or 0 site d))) ?ds"
  have "parse_counts (site_output site) = Inr (map (\<lambda>(d, n). (d, int n)) ?rows)"
    unfolding site_output_def by (rule parse_counts_text) (use assms in \<open>auto simp: comp_def\<close>)
  moreover have "map (\<lambda>(d, n). (d, int n)) ?rows = ?m" by simp
  ultimately have "parse_counts (site_output site) = Inr ?m" by (rule trans [OF _ arg_cong])
  moreover have "dict_or 0 (map (\<lambda>d. (d, int (dict_or 0 site d))) ?ds) d = (if prefix ''Flock '' d then int (dict_or 0 site d) else 0)" for d
  proof (cases "d \<in> set ?ds")
    case True
    then have "map_of (map (\<lambda>d. (d, int (dict_or 0 site d))) ?ds) d = Some (int (dict_or 0 site d))"
      by (simp add: map_of_map_restrict)
    then show ?thesis using True by (simp add: dict_or_def)
  next
    case False
    then have "map_of (map (\<lambda>d. (d, int (dict_or 0 site d))) ?ds) d = None"
      by (simp only: map_of_eq_None_iff list.set_map image_image fst_conv image_ident simp_thms)
    moreover have "dict_or 0 site d = 0" if "prefix ''Flock '' d"
    proof -
      have "d \<in> set (map fst site) \<Longrightarrow> d \<in> set ?ds" using that by simp
      then show ?thesis using False by (intro dict_or_absent) auto
    qed
    ultimately show ?thesis by (simp add: dict_or_def)
  qed
  ultimately show ?thesis by (intro exI [of _ ?m] conjI allI)
qed

text \<open>C34.  The drill reads back what it counted and passes exactly when every document type whose name begins
  with \<open>Flock\<close> has as many rows in the restored site as in the source, a missing one counting as empty.\<close>
theorem drill_passes_iff_rows_agree:
  assumes "\<forall>d \<in> fst ` set source \<union> fst ` set restored. plain_name d"
    and "distinct (map fst source)" "distinct (map fst restored)"
  shows "drill_verdict source restored
    = Inr (\<forall>d. prefix ''Flock '' d \<longrightarrow> dict_or 0 source d = dict_or 0 restored d)"
proof -
  obtain s where s: "parse_counts (site_output source) = Inr s"
    "\<And>d. dict_or 0 s d = (if prefix ''Flock '' d then int (dict_or 0 source d) else 0)"
    using parse_site [of source] assms by auto
  obtain r where r: "parse_counts (site_output restored) = Inr r"
    "\<And>d. dict_or 0 r d = (if prefix ''Flock '' d then int (dict_or 0 restored d) else 0)"
    using parse_site [of restored] assms by auto
  show ?thesis unfolding drill_verdict_def s(1) r(1) res_bind_simps compare_counts_iff s(2) r(2) by auto
qed

text \<open>A restored site with a document type of no rows more passes, and so does one with other totals of the
  attendance summary, whose name begins with another word.\<close>

lemma drill_passes_iff_rows_agree_witness:
  "drill_verdict [(''Flock Branch'', 2), (''Event Attendance Summary'', 3)]
     [(''Flock Branch'', 2), (''Flock Extra'', 0), (''Event Attendance Summary'', 1)] = Inr True"
proof -
  have names: "\<forall>d \<in> fst ` set [(''Flock Branch'', 2::nat), (''Event Attendance Summary'', 3)]
      \<union> fst ` set [(''Flock Branch'', 2::nat), (''Flock Extra'', 0), (''Event Attendance Summary'', 1)]. plain_name d"
    by code_simp
  have "prefix ''Flock '' d \<longrightarrow> dict_or 0 [(''Flock Branch'', 2::nat), (''Event Attendance Summary'', 3)] d
     = dict_or 0 [(''Flock Branch'', 2), (''Flock Extra'', 0), (''Event Attendance Summary'', 1)] d" for d
    by (auto simp: dict_or_def)
  then show ?thesis by (subst drill_passes_iff_rows_agree [OF names]) auto
qed

end
