(* ===== verification/Resp_Client.thy ===== *)
theory Resp_Client
  imports Py_Text
begin

text \<open>
  Model of the RESP client of \<open>scripts/ops/redis-pubsub-exporter.py\<close>: reading lines and bulk strings from
  a socket in whatever pieces it delivers them, parsing one reply, and encoding a command.

  Bytes are characters, and a text is the bytes of its UTF-8 encoding: \<open>decode\<close> checks that there is such
  a text, \<open>encode\<close> changes nothing, \<open>len\<close> of a text counts the bytes which do not continue a character,
  and the order of texts is the one of their bytes.  A connection is what the socket delivers during its
  life, piece by piece (nothing more when the server has closed it, \<open>None\<close> when the wait times out), and the
  number of commands it takes.  \<open>parse_reply\<close> takes the depth of calls Python still allows.
\<close>

section \<open>Text as UTF-8\<close>

text \<open>The second byte a leading byte allows, and how many follow.\<close>

definition utf8_lead :: "nat \<Rightarrow> (nat \<times> nat \<times> nat) option" where
  "utf8_lead n =
    (if n < 128 then Some (0, 0, 0)
     else if 194 \<le> n \<and> n \<le> 223 then Some (1, 128, 191)
     else if n = 224 then Some (2, 160, 191)
     else if n = 237 then Some (2, 128, 159)
     else if 225 \<le> n \<and> n \<le> 239 then Some (2, 128, 191)
     else if n = 240 then Some (3, 144, 191)
     else if 241 \<le> n \<and> n \<le> 243 then Some (3, 128, 191)
     else if n = 244 then Some (3, 128, 143)
     else None)"

fun utf8_from :: "nat \<times> nat \<times> nat \<Rightarrow> string \<Rightarrow> bool" where
  "utf8_from (k, lo, hi) [] = (k = 0)"
| "utf8_from (k, lo, hi) (c # cs) =
    (let n = of_char c in
     if k = 0 then (case utf8_lead n of None \<Rightarrow> False | Some next \<Rightarrow> utf8_from next cs)
     else lo \<le> n \<and> n \<le> hi \<and> utf8_from (k - 1, 128, 191) cs)"

definition valid_utf8 :: "string \<Rightarrow> bool" where
  "valid_utf8 s = utf8_from (0, 0, 0) s"

definition continues :: "char \<Rightarrow> bool" where
  "continues c \<longleftrightarrow> (let n = (of_char c :: nat) in 128 \<le> n \<and> n \<le> 191)"

definition text_length :: "string \<Rightarrow> nat" where
  "text_length s = length (filter (\<lambda>c. \<not> continues c) s)"

text \<open>The characters of a text, for \<open>for c in text\<close>.\<close>

fun text_chars :: "string \<Rightarrow> string list" where
  "text_chars [] = []"
| "text_chars (c # cs) =
    (case text_chars cs of
       [] \<Rightarrow> [[c]]
     | d # ds \<Rightarrow> if d \<noteq> [] \<and> continues (hd d) then (c # d) # ds else [c] # d # ds)"

section \<open>The socket\<close>

datatype resp_error =
    Connection_Closed string
  | Timed_Out
  | Send_Failed
  | Connect_Failed string
  | Redis_Error string
  | Unsupported_Tag char string
  | Bad_Number string
  | Bad_Type
  | Undecodable string
  | Recursion_Limit

datatype resp_value =
    R_Str string
  | R_Int int
  | R_Nil
  | R_Bytes string
  | R_List "resp_value list"

record connection =
  cn_in :: "string option list"
  cn_sends :: nat
  cn_out :: "string list"

type_synonym 'a reader = "string \<times> string option list \<Rightarrow> resp_error + 'a \<times> string \<times> string option list"

definition CRLF :: string where "CRLF = [CHR 0x0D, CHR 0x0A]"

text \<open>\<open>buf.partition(b"\r\n")\<close>.\<close>

fun split_crlf :: "string \<Rightarrow> (string \<times> string) option" where
  "split_crlf [] = None"
| "split_crlf (c # cs) =
    (if prefix CRLF (c # cs) then Some ([], drop 2 (c # cs)) else map_option (apfst (Cons c)) (split_crlf cs))"

fun read_line :: "string \<Rightarrow> string option list \<Rightarrow> resp_error + string \<times> string \<times> string option list" where
  "read_line buf [] = (case split_crlf buf of
      Some (line, rest) \<Rightarrow> Inr (line, rest, [])
    | None \<Rightarrow> Inl (Connection_Closed ''adapter redis closed the connection mid-reply''))"
| "read_line buf (p # ps) = (case split_crlf buf of
      Some (line, rest) \<Rightarrow> Inr (line, rest, p # ps)
    | None \<Rightarrow> (case p of
        None \<Rightarrow> Inl Timed_Out
      | Some chunk \<Rightarrow>
          if chunk = [] then Inl (Connection_Closed ''adapter redis closed the connection mid-reply'')
          else read_line (buf @ chunk) ps))"

text \<open>\<open>s[:n]\<close> and what \<open>del s[:n]\<close> leaves; a negative bound counts from the end.\<close>

definition slice_bound :: "int \<Rightarrow> 'a list \<Rightarrow> nat" where
  "slice_bound n s = nat (if n < 0 then int (length s) + n else n)"

fun read_n :: "int \<Rightarrow> string \<Rightarrow> string option list \<Rightarrow> resp_error + string \<times> string \<times> string option list" where
  "read_n n buf [] =
    (if int (length buf) < n + 2 then Inl (Connection_Closed ''adapter redis closed mid-bulk'')
     else Inr (take (slice_bound n buf) buf, drop (slice_bound (n + 2) buf) buf, []))"
| "read_n n buf (p # ps) =
    (if int (length buf) < n + 2 then (case p of
        None \<Rightarrow> Inl Timed_Out
      | Some chunk \<Rightarrow> if chunk = [] then Inl (Connection_Closed ''adapter redis closed mid-bulk'') else read_n n (buf @ chunk) ps)
     else Inr (take (slice_bound n buf) buf, drop (slice_bound (n + 2) buf) buf, p # ps))"

section \<open>Replies\<close>

text \<open>\<open>int(body)\<close> of bytes or text: white space around the number is ignored.\<close>

definition int_of_bytes :: "string \<Rightarrow> resp_error + int" where
  "int_of_bytes body =
    (let digits_in = strip_chars [CHR 0x09, CHR 0x0A, CHR 0x0B, CHR 0x0C, CHR 0x0D, CHR 0x20] body in
     case py_int (Py_Str digits_in) of Inl _ \<Rightarrow> Inl (Bad_Number body) | Inr n \<Rightarrow> Inr n)"

definition reads :: "'a \<Rightarrow> 'a reader" where
  "reads x st = Inr (x, st)"

definition then_read :: "'a reader \<Rightarrow> ('a \<Rightarrow> 'b reader) \<Rightarrow> 'b reader" where
  "then_read r f st = (case r st of Inl e \<Rightarrow> Inl e | Inr (x, st') \<Rightarrow> f x st')"

definition fails :: "resp_error \<Rightarrow> 'a reader" where
  "fails e st = Inl e"

definition lifted :: "resp_error + 'a \<Rightarrow> 'a reader" where
  "lifted r st = (case r of Inl e \<Rightarrow> Inl e | Inr x \<Rightarrow> Inr (x, st))"

fun read_items :: "nat \<Rightarrow> 'a reader \<Rightarrow> 'a list reader" where
  "read_items 0 item = reads []"
| "read_items (Suc n) item = then_read item (\<lambda>x. then_read (read_items n item) (\<lambda>xs. reads (x # xs)))"

definition parse_tagged :: "resp_value reader \<Rightarrow> char \<Rightarrow> string \<Rightarrow> resp_value reader" where
  "parse_tagged item tag body =
    (if tag = CHR ''+'' then (if valid_utf8 body then reads (R_Str body) else fails (Undecodable body))
     else if tag = CHR ''-'' then fails (Redis_Error body)
     else if tag = CHR '':'' then then_read (lifted (int_of_bytes body)) (\<lambda>n. reads (R_Int n))
     else if tag = CHR ''$'' then then_read (lifted (int_of_bytes body)) (\<lambda>n.
       if n = - 1 then reads R_Nil
       else then_read (\<lambda>(buf, ps). read_n n buf ps) (\<lambda>data. reads (R_Bytes data)))
     else if tag = CHR ''*'' then then_read (lifted (int_of_bytes body)) (\<lambda>n.
       if n = - 1 then reads R_Nil else then_read (read_items (nat n) item) (\<lambda>xs. reads (R_List xs)))
     else fails (Unsupported_Tag tag (tag # body)))"

fun parse_reply :: "nat \<Rightarrow> resp_value reader" where
  "parse_reply 0 = fails Recursion_Limit"
| "parse_reply (Suc depth) = then_read (\<lambda>(buf, ps). read_line buf ps) (\<lambda>line.
     case line of
       [] \<Rightarrow> fails (Connection_Closed ''empty reply from adapter redis'')
     | tag # body \<Rightarrow> parse_tagged (parse_reply depth) tag body)"

section \<open>Commands\<close>

definition encode_cmd :: "string list \<Rightarrow> string" where
  "encode_cmd args =
    ''*'' @ int_text (int (length args)) @ CRLF @
    concat (map (\<lambda>s. ''$'' @ int_text (int (text_length s)) @ CRLF @ s @ CRLF) args)"

definition send_all :: "string \<Rightarrow> connection \<Rightarrow> resp_error + connection" where
  "send_all bytes cn =
    (if cn_sends cn = 0 then Inl Send_Failed
     else Inr (cn \<lparr>cn_sends := cn_sends cn - 1, cn_out := cn_out cn @ [bytes]\<rparr>))"

text \<open>\<open>_issue\<close>: a command and its reply, with the buffer of the connection.\<close>

definition issue :: "nat \<Rightarrow> string list \<Rightarrow> string \<times> connection \<Rightarrow> resp_error + resp_value \<times> string \<times> connection" where
  "issue depth args st = (case st of (buf, cn) \<Rightarrow>
     res_bind (send_all (encode_cmd args) cn) (\<lambda>cn1.
     res_bind (parse_reply depth (buf, cn_in cn1)) (\<lambda>(v, buf1, ps).
       Inr (v, buf1, cn1 \<lparr>cn_in := ps\<rparr>))))"

text \<open>\<open>_connect\<close>: \<open>AUTH\<close> reads its reply with a buffer of its own.\<close>

definition connect :: "(string \<Rightarrow> int \<Rightarrow> resp_error + connection) \<Rightarrow> nat \<Rightarrow> string \<Rightarrow> int \<Rightarrow> string option
    \<Rightarrow> resp_error + connection" where
  "connect create depth host port password =
    res_bind (create host port) (\<lambda>cn.
      if truthy password
      then res_bind (issue depth [''AUTH'', the password] ([], cn)) (\<lambda>(_, _, cn1). Inr cn1)
      else Inr cn)"

end
