(* ===== verification/Pubsub_Exporter.thy ===== *)
theory Pubsub_Exporter
  imports Resp_Client "HOL-Library.List_Lexorder" "HOL-Library.Char_ord"
begin

text \<open>
  Model of the probe and the metrics page of \<open>scripts/ops/redis-pubsub-exporter.py\<close>: which channels are
  counted, one pass over the adapter Redis, what is kept when it fails, and the text served for it.

  \<open>urlparse\<close> gives the parts of the address as an argument, \<open>show\<close> the text of a value that is neither
  bytes nor text, \<open>float_text\<close> the one of a float, \<open>describe\<close> the one of an exception.  The threads, the
  listening socket and the log lines are left out.
\<close>

section \<open>The address\<close>

record parsed_url =
  pu_scheme :: string
  pu_hostname :: "string option"
  pu_port :: "int option"
  pu_username :: "string option"
  pu_password :: "string option"

definition parse_redis_url :: "parsed_url \<Rightarrow> string + string \<times> int \<times> string option" where
  "parse_redis_url url =
    (if pu_scheme url \<notin> {'''', ''redis''} then Inl ''adapter redis URL must be redis://''
     else Inr (if truthy (pu_hostname url) then the (pu_hostname url) else ''127.0.0.1'',
       (case pu_port url of None \<Rightarrow> 6379 | Some p \<Rightarrow> if p = 0 then 6379 else p),
       or_else (pu_password url) (if truthy (pu_username url) then pu_username url else None)))"

section \<open>The probe\<close>

record sample =
  sa_channels :: rat
  sa_numsub :: rat
  sa_adapter :: rat
  sa_numpat :: rat
  sa_up :: rat
  sa_names :: "string list"

record adapter_probe =
  ap_host :: string
  ap_port :: int
  ap_password :: "string option"
  ap_adapter_key :: string
  ap_latest :: sample
  ap_last_error :: string

definition new_probe :: "string \<Rightarrow> int \<Rightarrow> string option \<Rightarrow> string \<Rightarrow> adapter_probe" where
  "new_probe host port password key =
    \<lparr>ap_host = host, ap_port = port, ap_password = password, ap_adapter_key = key,
     ap_latest = \<lparr>sa_channels = 0, sa_numsub = 0, sa_adapter = 0, sa_numpat = 0, sa_up = 0, sa_names = []\<rparr>,
     ap_last_error = []\<rparr>"

text \<open>\<open>c.decode() if isinstance(c, bytes) else str(c)\<close>.\<close>

definition reply_text :: "(resp_value \<Rightarrow> string) \<Rightarrow> resp_value \<Rightarrow> resp_error + string" where
  "reply_text show v =
    (case v of
       R_Bytes b \<Rightarrow> if valid_utf8 b then Inr b else Inl (Undecodable b)
     | R_Str s \<Rightarrow> Inr s
     | _ \<Rightarrow> Inr (show v))"

text \<open>The elements of \<open>reply or []\<close>.\<close>

definition reply_items :: "resp_value \<Rightarrow> resp_error + resp_value list" where
  "reply_items v =
    (case v of
       R_List xs \<Rightarrow> Inr xs
     | R_Nil \<Rightarrow> Inr []
     | R_Int n \<Rightarrow> if n = 0 then Inr [] else Inl Bad_Type
     | R_Str s \<Rightarrow> Inr (map R_Str (text_chars s))
     | R_Bytes b \<Rightarrow> Inr (map (\<lambda>c. R_Int (of_char c)) b))"

fun texts_of :: "(resp_value \<Rightarrow> string) \<Rightarrow> resp_value list \<Rightarrow> resp_error + string list" where
  "texts_of show [] = Inr []"
| "texts_of show (v # vs) = res_bind (reply_text show v) (\<lambda>t. res_bind (texts_of show vs) (\<lambda>ts. Inr (t # ts)))"

definition key_matches :: "string \<Rightarrow> string \<Rightarrow> bool" where
  "key_matches key s \<longleftrightarrow> s = key \<or> prefix (key @ ''-'') s \<or> prefix (key @ ''/'') s \<or> prefix (key @ ''#'') s"

definition build_numsub_targets :: "string \<Rightarrow> string list \<Rightarrow> string list" where
  "build_numsub_targets key discovered = sort (remdups (''events'' # filter (key_matches key) discovered))"

definition subscriber_count :: "resp_value \<Rightarrow> resp_error + int" where
  "subscriber_count v =
    (case v of
       R_Nil \<Rightarrow> Inr 0
     | R_Int n \<Rightarrow> Inr n
     | R_Str s \<Rightarrow> int_of_bytes s
     | R_Bytes b \<Rightarrow> int_of_bytes b
     | R_List _ \<Rightarrow> Inl Bad_Type)"

fun numsub_pairs :: "(resp_value \<Rightarrow> string) \<Rightarrow> resp_value list \<Rightarrow> (string \<times> int) list \<Rightarrow> resp_error + (string \<times> int) list" where
  "numsub_pairs show (name # count # rest) out =
    res_bind (reply_text show name) (\<lambda>t. res_bind (subscriber_count count) (\<lambda>n.
      numsub_pairs show rest (AList.update t n out)))"
| "numsub_pairs show _ out = Inr out"

definition numsub_pairs_to_map :: "(resp_value \<Rightarrow> string) \<Rightarrow> resp_value \<Rightarrow> resp_error + (string \<times> int) list" where
  "numsub_pairs_to_map show reply =
    (case reply of
       R_List xs \<Rightarrow> if even (length xs) then numsub_pairs show xs [] else Inr []
     | _ \<Rightarrow> Inr [])"

definition numpat_of :: "resp_value \<Rightarrow> int" where
  "numpat_of v = (case v of R_Int n \<Rightarrow> n | _ \<Rightarrow> 0)"

definition subscribers :: "(string \<times> int) list \<Rightarrow> int" where
  "subscribers m = sum_list (map snd m)"

definition probe_once :: "(resp_value \<Rightarrow> string) \<Rightarrow> (string \<Rightarrow> int \<Rightarrow> resp_error + connection) \<Rightarrow> nat \<Rightarrow> adapter_probe
    \<Rightarrow> resp_error + sample" where
  "probe_once show create depth p =
    res_bind (connect create depth (ap_host p) (ap_port p) (ap_password p)) (\<lambda>cn.
    res_bind (issue depth [''PUBSUB'', ''CHANNELS''] ([], cn)) (\<lambda>(channels_reply, st1).
    res_bind (reply_items channels_reply) (\<lambda>items.
    res_bind (texts_of show items) (\<lambda>channels.
    res_bind (issue depth [''PUBSUB'', ''NUMSUB'', ''events''] st1) (\<lambda>(events_reply, st2).
    res_bind (issue depth ([''PUBSUB'', ''NUMSUB''] @ build_numsub_targets (ap_adapter_key p) channels) st2) (\<lambda>(adapter_reply, st3).
    res_bind (issue depth [''PUBSUB'', ''NUMPAT''] st3) (\<lambda>(numpat_reply, _).
    res_bind (numsub_pairs_to_map show events_reply) (\<lambda>events_map.
    res_bind (numsub_pairs_to_map show adapter_reply) (\<lambda>adapter_map.
    Inr \<lparr>sa_channels = of_nat (length channels), sa_numsub = of_int (subscribers events_map),
       sa_adapter = of_int (subscribers adapter_map), sa_numpat = of_int (numpat_of numpat_reply),
       sa_up = 1, sa_names = sort channels\<rparr>)))))))))"

text \<open>\<open>poll\<close>: a failed pass keeps the values of the last good one and sets \<open>up\<close> to zero.\<close>

definition poll :: "(resp_error \<Rightarrow> string) \<Rightarrow> (resp_value \<Rightarrow> string) \<Rightarrow> (string \<Rightarrow> int \<Rightarrow> resp_error + connection) \<Rightarrow> nat
    \<Rightarrow> adapter_probe \<Rightarrow> adapter_probe" where
  "poll describe show create depth p =
    (case probe_once show create depth p of
       Inr s \<Rightarrow> p \<lparr>ap_latest := s, ap_last_error := []\<rparr>
     | Inl e \<Rightarrow> p \<lparr>ap_latest := (ap_latest p) \<lparr>sa_up := 0\<rparr>, ap_last_error := describe e\<rparr>)"

definition latest :: "adapter_probe \<Rightarrow> sample \<times> string" where
  "latest p = (ap_latest p, ap_last_error p)"

section \<open>The metrics page\<close>

definition escape_label :: "string \<Rightarrow> string" where
  "escape_label value = replace_char CHR 0x22 [CHR 0x5C, CHR 0x22] (replace_char CHR 0x5C [CHR 0x5C, CHR 0x5C] value)"

definition gauge :: "string \<Rightarrow> string \<Rightarrow> string \<Rightarrow> string list" where
  "gauge name help value = [''# HELP '' @ name @ '' '' @ help, ''# TYPE '' @ name @ '' gauge'', name @ '' '' @ value]"

definition channel_line :: "string \<Rightarrow> string" where
  "channel_line ch = ''flock_redis_adapter_channel_present{channel='' @ [CHR 0x22] @ escape_label ch @ [CHR 0x22] @ ''} 1''"

definition sample_gauges :: "(rat \<Rightarrow> string) \<Rightarrow> sample \<Rightarrow> string list list" where
  "sample_gauges float_text s =
    [gauge ''flock_redis_adapter_pubsub_channels'' ''Active pub/sub channels on the adapter Redis.'' (float_text (sa_channels s)),
     gauge ''flock_redis_adapter_pubsub_numsub_socketio'' ([CHR 0x27] @ ''events'' @ [CHR 0x27] @ '' channel subscribers (one per worker).'') (float_text (sa_numsub s)),
     gauge ''flock_redis_adapter_pubsub_adapter_subscribers'' ''Adapter channel subscribers (fan-out).'' (float_text (sa_adapter s)),
     gauge ''flock_redis_adapter_pubsub_numpat'' ''Pattern subscribers (PSUBSCRIBE) on the adapter Redis.'' (float_text (sa_numpat s)),
     gauge ''flock_redis_adapter_up'' ''1 if the last probe succeeded, 0 otherwise.'' (float_text (sa_up s))]"

fun separated :: "string list list \<Rightarrow> string list" where
  "separated [] = []"
| "separated [g] = g"
| "separated (g # h # gs) = g @ [''''] @ separated (h # gs)"

definition exporter_lines :: "(rat \<Rightarrow> string) \<Rightarrow> sample \<Rightarrow> string \<Rightarrow> string list" where
  "exporter_lines float_text s error =
    separated (sample_gauges float_text s)
    @ map channel_line (take 64 (sa_names s))
    @ (if error \<noteq> [] then ['''', ''# last_probe_error: '' @ error] else []) @ ['''']"

definition render_prometheus :: "(rat \<Rightarrow> string) \<Rightarrow> sample \<Rightarrow> string \<Rightarrow> string" where
  "render_prometheus float_text s error = py_join NEWLINE (exporter_lines float_text s error)"

definition METRICS_CONTENT_TYPE :: string where
  "METRICS_CONTENT_TYPE = ''text/plain; version=0.0.4; charset=utf-8''"

text \<open>\<open>do_GET\<close>: status, content type and body.\<close>

definition do_GET :: "(rat \<Rightarrow> string) \<Rightarrow> adapter_probe \<Rightarrow> string \<Rightarrow> nat \<times> string \<times> string" where
  "do_GET float_text p path =
    (if path \<notin> {''/metrics'', ''/''} then (404, ''text/plain'', ''not found'' @ NEWLINE)
     else let (s, error) = latest p in (200, METRICS_CONTENT_TYPE, render_prometheus float_text s error))"

end
