(* ===== verification/Exporter_Properties.thy ===== *)
theory Exporter_Properties
  imports Pubsub_Exporter
begin

text \<open>
  The RESP client reads back every reply a server writes, however the network cuts it in pieces, and a
  pass of the probe over a Redis that answers as documented reports its channels and subscribers.
\<close>

section \<open>Reading a stream in pieces\<close>

definition delivers :: "string \<times> string option list \<Rightarrow> string \<Rightarrow> bool" where
  "delivers st s \<longleftrightarrow> (\<forall>p \<in> set (snd st). \<exists>chunk. p = Some chunk \<and> chunk \<noteq> []) \<and> s = fst st @ concat (map the (snd st))"

lemma split_crlf_line: "CHR 0x0A \<notin> set l \<Longrightarrow> split_crlf (l @ CRLF @ r) = Some (l, r)"
proof (induction l)
  case Nil
  then show ?case by (simp add: CRLF_def)
next
  case (Cons c l)
  have "\<not> prefix CRLF (c # l @ CRLF @ r)" using Cons.prems by (cases l) (auto simp: CRLF_def)
  then show ?case using Cons by simp
qed

lemma split_crlf_append: "split_crlf buf = Some (l, r) \<Longrightarrow> split_crlf (buf @ x) = Some (l, r @ x)"
proof (induction buf arbitrary: l)
  case (Cons c buf)
  show ?case
  proof (cases "prefix CRLF (c # buf)")
    case True
    then show ?thesis using Cons.prems by (auto simp: CRLF_def prefix_def)
  next
    case False
    then obtain l' where l': "split_crlf buf = Some (l', r)" "l = c # l'" using Cons.prems by auto
    have "\<not> prefix CRLF (c # buf @ x)"
      using False l'(1) by (cases buf) (auto simp: CRLF_def)
    then show ?thesis using Cons.IH [OF l'(1)] l'(2) by simp
  qed
qed simp

lemma read_line_delivers:
  "delivers (buf, ps) s \<Longrightarrow> split_crlf s = Some (l, r) \<Longrightarrow>
   \<exists>st. read_line buf ps = Inr (l, st) \<and> delivers st r"
proof (induction ps arbitrary: buf)
  case Nil
  then show ?case by (auto simp: delivers_def)
next
  case (Cons p ps)
  obtain chunk where p: "p = Some chunk" "chunk \<noteq> []" using Cons.prems(1) by (auto simp: delivers_def)
  show ?case
  proof (cases "split_crlf buf")
    case None
    have "delivers (buf @ chunk, ps) s" using Cons.prems(1) p by (simp add: delivers_def)
    then show ?thesis using Cons.IH Cons.prems(2) None p by simp
  next
    case (Some lr)
    then obtain l' r' where lr: "split_crlf buf = Some (l', r')" by (cases lr) auto
    have "split_crlf s = Some (l', r' @ concat (map the (p # ps)))"
      using Cons.prems(1) split_crlf_append [OF lr] by (simp add: delivers_def)
    then show ?thesis using Cons.prems lr by (auto simp: delivers_def)
  qed
qed

lemma read_n_delivers:
  "delivers (buf, ps) (data @ CRLF @ r) \<Longrightarrow> \<exists>st. read_n (int (length data)) buf ps = Inr (data, st) \<and> delivers st r"
proof (induction ps arbitrary: buf)
  case Nil
  then have "buf = data @ CRLF @ r" by (simp add: delivers_def)
  then show ?case by (simp add: CRLF_def slice_bound_def nat_add_distrib delivers_def)
next
  case (Cons p ps)
  obtain chunk where p: "p = Some chunk" "chunk \<noteq> []" using Cons.prems(1) by (auto simp: delivers_def)
  show ?case
  proof (cases "length buf < length data + 2")
    case True
    have "delivers (buf @ chunk, ps) (data @ CRLF @ r)" using Cons.prems p by (simp add: delivers_def)
    then show ?thesis using Cons.IH True p by simp
  next
    case False
    have s: "data @ CRLF @ r = buf @ concat (map the (p # ps))" using Cons.prems by (simp add: delivers_def)
    have "take (length data + 2) buf = data @ CRLF"
      using arg_cong [OF s, of "take (length data + 2)"] False by (simp add: CRLF_def)
    then have "buf = data @ CRLF @ drop (length data + 2) buf" by (metis append_assoc append_take_drop_id)
    then obtain t where t: "buf = data @ CRLF @ t" by blast
    then have "r = t @ concat (map the (p # ps))" using s by (simp add: CRLF_def)
    then show ?thesis using t Cons.prems
      by (simp add: CRLF_def slice_bound_def nat_add_distrib delivers_def)
  qed
qed

section \<open>Replies\<close>

fun server_text :: "resp_value \<Rightarrow> string" where
  "server_text (R_Str s) = ''+'' @ s @ CRLF"
| "server_text (R_Int n) = '':'' @ int_text n @ CRLF"
| "server_text R_Nil = ''$-1'' @ CRLF"
| "server_text (R_Bytes b) = ''$'' @ int_text (int (length b)) @ CRLF @ b @ CRLF"
| "server_text (R_List xs) = ''*'' @ int_text (int (length xs)) @ CRLF @ concat (map server_text xs)"

text \<open>Lines of text have no line feed, and replies are nested no deeper than the calls allow.\<close>

fun readable :: "nat \<Rightarrow> resp_value \<Rightarrow> bool" where
  "readable 0 v = False"
| "readable (Suc d) (R_Str s) = (valid_utf8 s \<and> CHR 0x0A \<notin> set s)"
| "readable (Suc d) (R_List xs) = (\<forall>x \<in> set xs. readable d x)"
| "readable (Suc d) v = True"

lemma digits_code_char:
  assumes "0 \<le> n" "c \<in> set (digits n)" shows "48 \<le> (of_char c :: nat) \<and> (of_char c :: nat) \<le> 57"
proof -
  have "48 \<le> (of_char c :: int)" "(of_char c :: int) \<le> 57" using digits_chars [OF assms] by auto
  then show ?thesis by (metis nat_int nat_mono of_nat_of_char numeral_One nat_numeral)
qed

lemma int_text_chars:
  assumes "c \<in> set (int_text n)" shows "c = CHR ''-'' \<or> 48 \<le> (of_char c :: nat) \<and> (of_char c :: nat) \<le> 57"
  using assms digits_code_char [of n c] digits_code_char [of "- n" c]
  by (auto simp: int_text_def split: if_splits)

lemma digits_not_Nil: "digits n \<noteq> []"
  by (subst digits.simps) auto

lemma int_text_not_Nil: "int_text n \<noteq> []"
  by (simp add: int_text_def digits_not_Nil)

lemma int_text_line: "CHR 0x0A \<notin> set (int_text n)"
  using int_text_chars [of "CHR 0x0A" n] by auto

lemma py_int_text: "py_int (Py_Str (int_text n)) = Inr n"
proof (cases "n < 0")
  case True
  have "all_digits (digits (- n))" using True digits_chars [of "- n"] by (auto simp: all_digits_def digits_not_Nil)
  moreover have "\<not> all_digits (CHR ''-'' # digits (- n))" by (simp add: all_digits_def)
  ultimately show ?thesis using True by (simp add: py_int_def int_text_def digits_value_digits)
next
  case False
  then have "all_digits (digits n)" using digits_chars [of n] by (auto simp: all_digits_def digits_not_Nil)
  then show ?thesis using False by (simp add: py_int_def int_text_def digits_value_digits)
qed

lemma int_of_text: "int_of_bytes (int_text n) = Inr n"
proof -
  let ?ws = "[CHR 0x09, CHR 0x0A, CHR 0x0B, CHR 0x0C, CHR 0x0D, CHR 0x20]"
  have free: "c \<notin> set ?ws" if "c \<in> set (int_text n)" for c
    using int_text_chars [OF that] by auto
  have "strip_chars ?ws (int_text n) = int_text n"
    using free int_text_not_Nil [of n]
    by (simp only: strip_chars_def dropWhile_hd [of _ "int_text n"] hd_in_set dropWhile_hd [of _ "rev (int_text n)"] hd_rev
        last_in_set rev_rev_ident not_False_eq_True)
  then show ?thesis by (simp add: int_of_bytes_def py_int_text Let_def)
qed

lemma read_items_delivers:
  assumes "\<And>x st r. x \<in> set xs \<Longrightarrow> delivers st (server_text x @ r) \<Longrightarrow> \<exists>st'. item st = Inr (x, st') \<and> delivers st' r"
  shows "delivers st (concat (map server_text xs) @ r) \<Longrightarrow> \<exists>st'. read_items (length xs) item st = Inr (xs, st') \<and> delivers st' r"
  using assms
proof (induction xs arbitrary: st)
  case Nil
  then show ?case by (simp add: reads_def)
next
  case (Cons x xs)
  obtain st1 where st1: "item st = Inr (x, st1)" "delivers st1 (concat (map server_text xs) @ r)"
    using Cons.prems(2) [of x st "concat (map server_text xs) @ r"] Cons.prems(1) by auto
  obtain st2 where "read_items (length xs) item st1 = Inr (xs, st2)" "delivers st2 r"
    using Cons.IH [OF st1(2)] Cons.prems(2) by auto
  then show ?case using st1(1) by (simp add: then_read_def reads_def)
qed

lemma parse_line:
  assumes "delivers st (tag # body @ CRLF @ r)" "CHR 0x0A \<notin> set (tag # body)"
  obtains st1 where "delivers st1 r" "parse_reply (Suc depth) st = parse_tagged (parse_reply depth) tag body st1"
proof -
  obtain buf ps where st: "st = (buf, ps)" by (cases st)
  have "split_crlf (tag # body @ CRLF @ r) = Some (tag # body, r)" using split_crlf_line [OF assms(2), of r] by simp
  then obtain st1 where "read_line buf ps = Inr (tag # body, st1)" "delivers st1 r"
    using read_line_delivers assms(1) st by blast
  then show ?thesis using that by (simp add: st then_read_def)
qed

lemma parse_reply_delivers:
  assumes "readable depth v" "delivers st (server_text v @ rest)"
  shows "\<exists>st'. parse_reply depth st = Inr (v, st') \<and> delivers st' rest"
  using assms
proof (induction depth arbitrary: v st rest)
  case (Suc depth)
  show ?case
  proof (cases v)
    case (R_Str s)
    then obtain st1 where "delivers st1 rest" "parse_reply (Suc depth) st = parse_tagged (parse_reply depth) CHR ''+'' s st1"
      using parse_line [of st "CHR ''+''" s rest] Suc.prems by auto
    then show ?thesis using Suc.prems(1) R_Str by (simp add: parse_tagged_def reads_def)
  next
    case (R_Int n)
    then obtain st1 where "delivers st1 rest" "parse_reply (Suc depth) st = parse_tagged (parse_reply depth) CHR '':'' (int_text n) st1"
      using parse_line [of st "CHR '':''" "int_text n" rest] Suc.prems int_text_line by auto
    then show ?thesis using R_Int by (simp add: parse_tagged_def then_read_def lifted_def reads_def int_of_text)
  next
    case R_Nil
    have one: "int_text (- 1) = ''-1''" by code_simp
    obtain st1 where "delivers st1 rest" "parse_reply (Suc depth) st = parse_tagged (parse_reply depth) CHR ''$'' (int_text (- 1)) st1"
      using parse_line [of st "CHR ''$''" "int_text (- 1)" rest] Suc.prems int_text_line R_Nil by (auto simp: one)
    then show ?thesis using R_Nil by (simp add: parse_tagged_def then_read_def lifted_def reads_def int_of_text)
  next
    case (R_Bytes b)
    then obtain st1 where st1: "delivers st1 (b @ CRLF @ rest)"
        "parse_reply (Suc depth) st = parse_tagged (parse_reply depth) CHR ''$'' (int_text (int (length b))) st1"
      using parse_line [of st "CHR ''$''" "int_text (int (length b))" "b @ CRLF @ rest"] Suc.prems int_text_line by auto
    obtain buf ps where "st1 = (buf, ps)" by (cases st1)
    moreover from this obtain st2 where "read_n (int (length b)) buf ps = Inr (b, st2)" "delivers st2 rest"
      using read_n_delivers st1(1) by blast
    ultimately show ?thesis using R_Bytes st1(2)
      by (simp add: parse_tagged_def then_read_def lifted_def reads_def int_of_text)
  next
    case (R_List xs)
    then obtain st1 where st1: "delivers st1 (concat (map server_text xs) @ rest)"
        "parse_reply (Suc depth) st = parse_tagged (parse_reply depth) CHR ''*'' (int_text (int (length xs))) st1"
      using parse_line [of st "CHR ''*''" "int_text (int (length xs))" "concat (map server_text xs) @ rest"] Suc.prems int_text_line
      by auto
    have "\<exists>st'. parse_reply depth t = Inr (x, st') \<and> delivers st' r"
      if "x \<in> set xs" "delivers t (server_text x @ r)" for x t r
      using Suc.IH that Suc.prems(1) R_List by simp
    then obtain st2 where "read_items (length xs) (parse_reply depth) st1 = Inr (xs, st2)" "delivers st2 rest"
      using read_items_delivers [OF _ st1(1), of "parse_reply depth"] by blast
    then show ?thesis using R_List st1(2)
      by (simp add: parse_tagged_def then_read_def lifted_def reads_def int_of_text)
  qed
qed simp

definition demo_reply :: resp_value where
  "demo_reply = R_List [R_Bytes ''events'', R_Int 3]"

definition in_pieces :: "nat \<Rightarrow> string \<Rightarrow> string option list" where
  "in_pieces n s = [Some (take n s), Some (drop n s)]"

text \<open>C35.  Whatever pieces the network cuts a reply into, the client reads the value the server wrote and leaves
  exactly what follows it.\<close>
theorem parse_reply_reads_back:
  assumes "readable depth v" "delivers st (server_text v @ rest)"
  shows "\<exists>st'. parse_reply depth st = Inr (v, st') \<and> delivers st' rest"
  using assms by (rule parse_reply_delivers)

lemma parse_reply_reads_back_witness:
  "\<exists>st'. parse_reply 2 (''*'', in_pieces 4 (tl (server_text demo_reply @ ''rest''))) = Inr (demo_reply, st') \<and> delivers st' ''rest''"
proof -
  have "readable 2 demo_reply" by code_simp
  moreover have "delivers (''*'', in_pieces 4 (tl (server_text demo_reply @ ''rest''))) (server_text demo_reply @ ''rest'')"
    by (simp add: delivers_def in_pieces_def demo_reply_def CRLF_def int_text_def digits.simps)
  ultimately show ?thesis by (rule parse_reply_reads_back)
qed

section \<open>Commands\<close>

definition ascii :: "string \<Rightarrow> bool" where
  "ascii s \<longleftrightarrow> (\<forall>c \<in> set s. (of_char c :: nat) < 128)"

lemma ascii_length: "ascii s \<Longrightarrow> text_length s = length s"
  by (induction s) (auto simp: ascii_def text_length_def continues_def Let_def)

text \<open>A command of ASCII arguments is the array of its arguments.\<close>

lemma encode_cmd_ascii: "\<forall>a \<in> set args. ascii a \<Longrightarrow> encode_cmd args = server_text (R_List (map R_Bytes args))"
  by (simp add: encode_cmd_def comp_def ascii_length cong: map_cong)

text \<open>The length of another argument is announced in characters and not in bytes: a server takes too little of
  it, here of the password of one accented letter, and is left with the end of the line as its next input.\<close>

lemma encode_cmd_beyond_ascii:
  "let accent = [CHR 0xC3, CHR 0xA9] in valid_utf8 accent
     \<and> parse_reply 2 (encode_cmd [''AUTH'', accent], []) = Inr (R_List [R_Bytes ''AUTH'', R_Bytes [CHR 0xC3]], [CHR 0x0A], [])"
  by code_simp

section \<open>A pass over a Redis that answers as documented\<close>

record redis_state =
  rs_channels :: "(string \<times> nat) list"
  rs_patterns :: nat

definition channels_reply :: "redis_state \<Rightarrow> resp_value" where
  "channels_reply rs = R_List (map (R_Bytes o fst) (rs_channels rs))"

definition subscribed :: "redis_state \<Rightarrow> string \<Rightarrow> int" where
  "subscribed rs t = int (dict_or 0 (rs_channels rs) t)"

definition numsub_reply :: "redis_state \<Rightarrow> string list \<Rightarrow> resp_value" where
  "numsub_reply rs targets = R_List (concat (map (\<lambda>t. [R_Bytes t, R_Int (subscribed rs t)]) targets))"

definition redis_session :: "redis_state \<Rightarrow> string list \<Rightarrow> string" where
  "redis_session rs targets = server_text (channels_reply rs) @ server_text (numsub_reply rs [''events''])
     @ server_text (numsub_reply rs targets) @ server_text (R_Int (int (rs_patterns rs)))"

lemma issue_reads:
  assumes "cn_sends cn = Suc k" "readable depth v" "delivers (buf, cn_in cn) (server_text v @ rest)"
  obtains buf' cn' where "issue depth args (buf, cn) = Inr (v, buf', cn')" "cn_sends cn' = k" "delivers (buf', cn_in cn') rest"
proof -
  obtain buf' ps where "parse_reply depth (buf, cn_in cn) = Inr (v, buf', ps)" "delivers (buf', ps) rest"
    using parse_reply_delivers [OF assms(2,3)] by auto
  then show ?thesis using that assms(1) by (simp add: issue_def send_all_def)
qed

lemma texts_of_bytes: "\<forall>t \<in> set ts. valid_utf8 t \<Longrightarrow> texts_of show (map R_Bytes ts) = Inr ts"
  by (induction ts) (auto simp: reply_text_def)

lemma update_fresh: "k \<notin> fst ` set m \<Longrightarrow> AList.update k v m = m @ [(k, v)]"
  by (induction m) auto

lemma numsub_pairs_targets:
  "\<forall>t \<in> set ts. valid_utf8 t \<Longrightarrow> distinct ts \<Longrightarrow> set ts \<inter> fst ` set out = {} \<Longrightarrow>
   numsub_pairs show (concat (map (\<lambda>t. [R_Bytes t, R_Int (f t)]) ts)) out = Inr (out @ map (\<lambda>t. (t, f t)) ts)"
proof (induction ts arbitrary: out)
  case (Cons t ts)
  have "t \<notin> fst ` set out" using Cons.prems(3) by auto
  then show ?case using Cons.IH [of "out @ [(t, f t)]"] Cons.prems
    by (auto simp: reply_text_def subscriber_count_def update_fresh)
qed simp

lemma numsub_map:
  assumes "\<forall>t \<in> set ts. valid_utf8 t" "distinct ts"
  shows "numsub_pairs_to_map show (numsub_reply rs ts) = Inr (map (\<lambda>t. (t, subscribed rs t)) ts)"
proof -
  have "even (length (concat (map (\<lambda>t. [R_Bytes t, R_Int (subscribed rs t)]) ts)))"
    by (induction ts) auto
  then show ?thesis using numsub_pairs_targets [OF assms, of "[]" "show"] by (simp add: numsub_pairs_to_map_def numsub_reply_def)
qed

lemma readable_replies:
  "readable (Suc (Suc d)) (channels_reply rs)" "readable (Suc (Suc d)) (numsub_reply rs ts)" "readable (Suc (Suc d)) (R_Int n)"
  by (auto simp: channels_reply_def numsub_reply_def)

lemma events_valid: "valid_utf8 ''events''" by code_simp

text \<open>Against a Redis which answers the four commands as documented, in whatever pieces its answers arrive, a
  pass reports all channels, the subscribers of \<open>events\<close>, the subscribers of \<open>events\<close> and of the channels of
  the adapter's key together, and the patterns.\<close>
theorem probe_reports_redis:
  assumes connected: "ap_password p = None" "create (ap_host p) (ap_port p) = Inr cn" "4 \<le> cn_sends cn" "2 \<le> depth"
    and names: "\<forall>t \<in> fst ` set (rs_channels rs). valid_utf8 t"
    and answers: "delivers ([], cn_in cn)
      (redis_session rs (build_numsub_targets (ap_adapter_key p) (map fst (rs_channels rs))) @ rest)"
  shows "poll describe show create depth p = p \<lparr>ap_latest :=
      \<lparr>sa_channels = of_nat (length (rs_channels rs)), sa_numsub = of_int (subscribed rs ''events''),
       sa_adapter = of_int (\<Sum>t \<in> {''events''} \<union> {t \<in> fst ` set (rs_channels rs). key_matches (ap_adapter_key p) t}. subscribed rs t),
       sa_numpat = of_nat (rs_patterns rs), sa_up = 1, sa_names = sort (map fst (rs_channels rs))\<rparr>,
      ap_last_error := []\<rparr>"
proof -
  let ?ts = "build_numsub_targets (ap_adapter_key p) (map fst (rs_channels rs))"
  obtain d where "depth = 2 + d" using connected(4) le_Suc_ex by blast
  then have d: "depth = Suc (Suc d)" by simp
  obtain k where "cn_sends cn = 4 + k" using connected(3) le_Suc_ex by blast
  then have k: "cn_sends cn = Suc (Suc (Suc (Suc k)))" by simp
  have conn: "connect create depth (ap_host p) (ap_port p) (ap_password p) = Inr cn"
    using connected by (simp add: connect_def)
  have s: "delivers ([], cn_in cn) (server_text (channels_reply rs) @ server_text (numsub_reply rs [''events''])
     @ server_text (numsub_reply rs ?ts) @ server_text (R_Int (int (rs_patterns rs))) @ rest)"
    using answers by (simp add: redis_session_def)
  obtain b1 c1 where 1: "issue depth [''PUBSUB'', ''CHANNELS''] ([], cn) = Inr (channels_reply rs, b1, c1)" "cn_sends c1 = Suc (Suc (Suc k))"
    "delivers (b1, cn_in c1) (server_text (numsub_reply rs [''events'']) @ server_text (numsub_reply rs ?ts)
       @ server_text (R_Int (int (rs_patterns rs))) @ rest)"
    unfolding d by (rule issue_reads [OF k readable_replies(1) s])
  obtain b2 c2 where 2: "issue depth [''PUBSUB'', ''NUMSUB'', ''events''] (b1, c1) = Inr (numsub_reply rs [''events''], b2, c2)"
    "cn_sends c2 = Suc (Suc k)"
    "delivers (b2, cn_in c2) (server_text (numsub_reply rs ?ts) @ server_text (R_Int (int (rs_patterns rs))) @ rest)"
    unfolding d by (rule issue_reads [OF 1(2) readable_replies(2) 1(3)])
  obtain b3 c3 where 3: "issue depth ([''PUBSUB'', ''NUMSUB''] @ ?ts) (b2, c2) = Inr (numsub_reply rs ?ts, b3, c3)" "cn_sends c3 = Suc k"
    "delivers (b3, cn_in c3) (server_text (R_Int (int (rs_patterns rs))) @ rest)"
    unfolding d by (rule issue_reads [OF 2(2) readable_replies(2) 2(3)])
  obtain b4 c4 where 4: "issue depth [''PUBSUB'', ''NUMPAT''] (b3, c3) = Inr (R_Int (int (rs_patterns rs)), b4, c4)"
    unfolding d by (rule issue_reads [OF 3(2) readable_replies(3) 3(3)])
  have items: "reply_items (channels_reply rs) = Inr (map R_Bytes (map fst (rs_channels rs)))"
    by (simp add: channels_reply_def reply_items_def)
  have texts: "texts_of show (map R_Bytes (map fst (rs_channels rs))) = Inr (map fst (rs_channels rs))"
    using names by (intro texts_of_bytes) simp
  have ts: "set ?ts = {''events''} \<union> {t \<in> fst ` set (rs_channels rs). key_matches (ap_adapter_key p) t}" "distinct ?ts"
    by (auto simp: build_numsub_targets_def)
  have valid: "\<forall>t \<in> set ?ts. valid_utf8 t" using names ts(1) events_valid by auto
  have sum: "subscribers (map (\<lambda>t. (t, subscribed rs t)) ?ts) = (\<Sum>t \<in> set ?ts. subscribed rs t)"
    using ts(2) by (simp add: subscribers_def comp_def sum_list_distinct_conv_sum_set)
  have one: "numsub_pairs_to_map show (numsub_reply rs [''events'']) = Inr [(''events'', subscribed rs ''events'')]"
    using numsub_map [of "[''events'']" "show" rs] events_valid by simp
  have "probe_once show create depth p = Inr
      \<lparr>sa_channels = of_nat (length (rs_channels rs)), sa_numsub = of_int (subscribed rs ''events''),
       sa_adapter = of_int (\<Sum>t \<in> set ?ts. subscribed rs t),
       sa_numpat = of_nat (rs_patterns rs), sa_up = 1, sa_names = sort (map fst (rs_channels rs))\<rparr>"
    unfolding probe_once_def conn res_bind_simps 1(1) prod.case items texts 2(1) 3(1) 4 one numsub_map [OF valid ts(2)] sum
    by (simp add: subscribers_def numpat_of_def)
  then show ?thesis unfolding poll_def ts(1) by simp
qed

definition demo_redis :: redis_state where
  "demo_redis = \<lparr>rs_channels = [(''events'', 2), (''socket.io-request#/x#'', 3), (''other'', 5)], rs_patterns = 1\<rparr>"

definition demo_probe :: adapter_probe where
  "demo_probe = new_probe ''redis-adapter'' 6379 None ''socket.io''"

definition demo_connection :: connection where
  "demo_connection = \<lparr>cn_in = in_pieces 7 (redis_session demo_redis [''events'', ''socket.io-request#/x#'']), cn_sends = 4, cn_out = []\<rparr>"

lemma probe_reports_redis_witness:
  "ap_latest (poll (\<lambda>_. ''error'') (\<lambda>_. ''value'') (\<lambda>_ _. Inr demo_connection) 2 demo_probe) =
     \<lparr>sa_channels = 3, sa_numsub = 2, sa_adapter = 5, sa_numpat = 1, sa_up = 1,
      sa_names = [''events'', ''other'', ''socket.io-request#/x#'']\<rparr>"
proof -
  have ts: "build_numsub_targets (ap_adapter_key demo_probe) (map fst (rs_channels demo_redis)) = [''events'', ''socket.io-request#/x#'']"
    by code_simp
  have p: "ap_password demo_probe = None" "4 \<le> cn_sends demo_connection" "(2::nat) \<le> 2"
    by (simp_all add: demo_probe_def new_probe_def demo_connection_def)
  have names: "\<forall>t \<in> fst ` set (rs_channels demo_redis). valid_utf8 t" by code_simp
  have nonempty: "take 7 (redis_session demo_redis [''events'', ''socket.io-request#/x#'']) \<noteq> []"
    "drop 7 (redis_session demo_redis [''events'', ''socket.io-request#/x#'']) \<noteq> []" by code_simp+
  have answers: "delivers ([], cn_in demo_connection)
      (redis_session demo_redis (build_numsub_targets (ap_adapter_key demo_probe) (map fst (rs_channels demo_redis))) @ [])"
    unfolding ts using nonempty by (simp add: delivers_def demo_connection_def in_pieces_def)
  have "(\<Sum>t \<in> {''events''} \<union> {t \<in> fst ` set (rs_channels demo_redis). key_matches (ap_adapter_key demo_probe) t}. subscribed demo_redis t) = 5"
    by code_simp
  moreover have "sort (map fst (rs_channels demo_redis)) = [''events'', ''other'', ''socket.io-request#/x#'']"
    "subscribed demo_redis ''events'' = 2" by code_simp+
  ultimately show ?thesis
    using probe_reports_redis [of demo_probe "\<lambda>_ _. Inr demo_connection", OF p(1) refl p(2,3) names answers,
      of "\<lambda>_. ''error''" "\<lambda>_. ''value''"]
    by (simp add: demo_redis_def)
qed

end
