(* ===== verification/Realtime_Wiring.thy ===== *)
theory Realtime_Wiring
  imports Py_Text
begin

text \<open>
  Model of \<open>flock_os/utils/realtime_setup.py\<close>: the hooks which put the application's handlers back into the
  framework's \<open>realtime/index.js\<close> after a migration, and fail the migration when a handler is missing then.

  The file system is a record of queries on a state of the world; a wiring script takes the world to
  another one and prints something or raises.  Log lines are values of the outcome.
\<close>

section \<open>Paths\<close>

text \<open>\<open>os.path.dirname\<close> and \<open>os.path.join\<close> of POSIX, for a relative second part.\<close>

definition path_head :: "string \<Rightarrow> string" where
  "path_head p = rev (dropWhile (\<lambda>c. c \<noteq> CHR ''/'') (rev p))"

definition dirname :: "string \<Rightarrow> string" where
  "dirname p = (let head = path_head p in
     if list_all (\<lambda>c. c = CHR ''/'') head then head else rev (dropWhile (\<lambda>c. c = CHR ''/'') (rev head)))"

lemma rev_dropWhile_prefix: "prefix (rev (dropWhile P (rev s))) s"
  by (metis rev_rev_ident suffix_dropWhile suffix_to_prefix)

lemma dirname_prefix: "prefix (dirname p) p"
proof -
  have head: "prefix (path_head p) p" unfolding path_head_def by (rule rev_dropWhile_prefix)
  have "prefix (dirname p) (path_head p)"
    unfolding dirname_def Let_def by (split if_split) (intro conjI impI prefix_order.refl rev_dropWhile_prefix)
  then show ?thesis using head by (rule prefix_order.trans)
qed

lemma dirname_shorter: "dirname p \<noteq> p \<Longrightarrow> length (dirname p) < length p"
  using dirname_prefix [of p] prefix_length_less [of "dirname p" p] by (simp add: strict_prefix_def)

definition path_join :: "string \<Rightarrow> string \<Rightarrow> string" where
  "path_join d m = (if d = [] then m else if last d = CHR ''/'' then d @ m else d @ ''/'' @ m)"

text \<open>\<open>_walk_up\<close>, from an absolute path on.\<close>

function walk_up :: "string \<Rightarrow> string list" where
  "walk_up d = d # (if dirname d = d then [] else walk_up (dirname d))"
  by pat_completeness auto
termination
  by (relation "measure length") (auto intro: dirname_shorter)

declare walk_up.simps [simp del]

section \<open>The world\<close>

datatype file_text = File_Text string | Os_Error | Not_Text

record 'w file_system =
  fs_is_dir :: "string \<Rightarrow> 'w \<Rightarrow> bool"
  fs_is_file :: "string \<Rightarrow> 'w \<Rightarrow> bool"
  fs_read :: "string \<Rightarrow> 'w \<Rightarrow> file_text"
  fs_run :: "string \<Rightarrow> string \<Rightarrow> 'w \<Rightarrow> (string + string) \<times> 'w"

definition WIRE_SCRIPT_REL :: "string list" where "WIRE_SCRIPT_REL = [''scripts'', ''dev'', ''wire-socketio-handler.sh'']"
definition WIRING_MARKER :: string where "WIRING_MARKER = ''FLOCK_OS_REALTIME_HANDLER_START''"
definition AUTH_WIRE_SCRIPT_REL :: "string list" where "AUTH_WIRE_SCRIPT_REL = [''scripts'', ''dev'', ''wire-socketio-auth-cache.sh'']"
definition AUTH_WIRING_MARKER :: string where "AUTH_WIRING_MARKER = ''FLOCK_OS_REALTIME_AUTH_CACHE_START''"
definition REDIS_ADAPTER_WIRE_SCRIPT_REL :: "string list" where
  "REDIS_ADAPTER_WIRE_SCRIPT_REL = [''scripts'', ''dev'', ''wire-socketio-redis-adapter.sh'']"
definition REDIS_ADAPTER_WIRING_MARKER :: string where "REDIS_ADAPTER_WIRING_MARKER = ''FLOCK_OS_REALTIME_REDIS_ADAPTER_START''"
definition METRICS_WIRE_SCRIPT_REL :: "string list" where "METRICS_WIRE_SCRIPT_REL = [''scripts'', ''dev'', ''wire-socketio-metrics.sh'']"
definition METRICS_WIRING_MARKER :: string where "METRICS_WIRING_MARKER = ''FLOCK_OS_REALTIME_METRICS_START''"

definition FRAPPE_REALTIME_INDEX :: "string list" where "FRAPPE_REALTIME_INDEX = [''apps'', ''frappe'', ''realtime'', ''index.js'']"
definition BENCH_MARKERS :: "string list" where "BENCH_MARKERS = [''apps'', ''sites'']"

definition join_all :: "string \<Rightarrow> string list \<Rightarrow> string" where
  "join_all d parts = fold (\<lambda>m p. path_join p m) parts d"

text \<open>A file that is not UTF-8 raises; \<open>None\<close> stands for that.\<close>

definition marker_present :: "'w file_system \<Rightarrow> string \<Rightarrow> string \<Rightarrow> 'w \<Rightarrow> bool option" where
  "marker_present F index_path marker w =
    (case fs_read F index_path w of
       File_Text t \<Rightarrow> Some (contains_text marker t)
     | Os_Error \<Rightarrow> Some False
     | Not_Text \<Rightarrow> None)"

definition find_bench_root :: "'w file_system \<Rightarrow> string \<Rightarrow> 'w \<Rightarrow> string option" where
  "find_bench_root F frappe_file w =
    find (\<lambda>d. list_all (\<lambda>m. fs_is_dir F (path_join d m) w) BENCH_MARKERS) (walk_up (dirname frappe_file))"

definition find_wire_script :: "'w file_system \<Rightarrow> string \<Rightarrow> string list \<Rightarrow> 'w \<Rightarrow> string option" where
  "find_wire_script F module_file script_rel w =
    find (\<lambda>cand. fs_is_file F cand w) (map (\<lambda>d. join_all d script_rel) (walk_up (dirname module_file)))"

section \<open>The hooks\<close>

record wiring =
  wr_script_rel :: "string list"
  wr_marker :: string
  wr_noun :: string
  wr_script_name :: string
  wr_consequence :: string
  wr_regression :: string

text \<open>What a hook logs when it returns: nothing to wire, wired already, or verified with what the script said.\<close>

datatype wiring_outcome =
    No_Bench_Root
  | No_Script
  | No_Index string
  | Already_Wired string
  | Wiring_Verified string

datatype wiring_error =
    Realtime_Wiring_Error string
  | Index_Not_Text

text \<open>The dash and the section sign of the messages, in UTF-8.\<close>

definition EM_DASH :: string where "EM_DASH = [CHR 0xE2, CHR 0x80, CHR 0x94]"
definition SECTION_SIGN :: string where "SECTION_SIGN = [CHR 0xC2, CHR 0xA7]"

definition wiring_message :: "wiring \<Rightarrow> string \<Rightarrow> string \<Rightarrow> string \<Rightarrow> string" where
  "wiring_message r script bench_root detail =
    ''flock_os '' @ wr_noun r @ '' wiring is MISSING after a bench update '' @ EM_DASH @ '' '' @ wr_consequence r
    @ '' ('' @ wr_regression r @ '' regression). Re-wire and restart, then re-run `bench migrate`:'' @ NEWLINE
    @ ''  bash '' @ script @ '' --bench '' @ bench_root @ NEWLINE @ ''  bench restart'' @ NEWLINE
    @ ''wire script output:'' @ NEWLINE @ (if detail \<noteq> [] then detail else ''(no output)'')"

text \<open>The paths are absolute, as \<open>__file__\<close> is.\<close>

definition rewire_realtime :: "'w file_system \<Rightarrow> string \<Rightarrow> string \<Rightarrow> wiring \<Rightarrow> 'w \<Rightarrow> (wiring_error + wiring_outcome) \<times> 'w" where
  "rewire_realtime F frappe_file module_file r w =
    (case (find_bench_root F frappe_file w, find_wire_script F module_file (wr_script_rel r) w) of
       (None, _) \<Rightarrow> (Inr No_Bench_Root, w)
     | (_, None) \<Rightarrow> (Inr No_Script, w)
     | (Some bench_root, Some script) \<Rightarrow>
         let index_path = join_all bench_root FRAPPE_REALTIME_INDEX in
         if \<not> fs_is_file F index_path w then (Inr (No_Index index_path), w)
         else case marker_present F index_path (wr_marker r) w of
           None \<Rightarrow> (Inl Index_Not_Text, w)
         | Some True \<Rightarrow> (Inr (Already_Wired index_path), w)
         | Some False \<Rightarrow>
             let (res, w1) = fs_run F script bench_root w;
                 detail = (case res of Inl exc \<Rightarrow> exc | Inr output \<Rightarrow> py_strip output)
             in case marker_present F index_path (wr_marker r) w1 of
               None \<Rightarrow> (Inl Index_Not_Text, w1)
             | Some False \<Rightarrow> (Inl (Realtime_Wiring_Error (wiring_message r script bench_root detail)), w1)
             | Some True \<Rightarrow> (Inr (Wiring_Verified (if detail \<noteq> [] then detail else ''ok'')), w1))"

definition handler_wiring :: wiring where
  "handler_wiring = \<lparr>wr_script_rel = WIRE_SCRIPT_REL, wr_marker = WIRING_MARKER, wr_noun = ''realtime handler'',
     wr_script_name = ''wire-socketio-handler.sh'',
     wr_consequence = (''the projector'' @ [CHR 0x27] @ ''s broadcasts would silently reach no clients''), wr_regression = ''FLO-107''\<rparr>"

definition auth_cache_wiring :: wiring where
  "auth_cache_wiring = \<lparr>wr_script_rel = AUTH_WIRE_SCRIPT_REL, wr_marker = AUTH_WIRING_MARKER, wr_noun = ''realtime auth-cache'',
     wr_script_name = ''wire-socketio-auth-cache.sh'',
     wr_consequence = ''the '' @ SECTION_SIGN @ ''8 15k WS auth wall would recur (connect p95 > 2 s, flock_ws_receive_errors > 0)'',
     wr_regression = ''FLO-116''\<rparr>"

definition redis_adapter_wiring :: wiring where
  "redis_adapter_wiring = \<lparr>wr_script_rel = REDIS_ADAPTER_WIRE_SCRIPT_REL, wr_marker = REDIS_ADAPTER_WIRING_MARKER,
     wr_noun = ''realtime redis-adapter'', wr_script_name = ''wire-socketio-redis-adapter.sh'',
     wr_consequence = ''the scaled socketio tier could not fan broadcasts/rooms across node workers ('' @ SECTION_SIGN @ ''8 15k WS connection-setup wall would recur)'',
     wr_regression = ''FLO-121''\<rparr>"

definition metrics_wiring :: wiring where
  "metrics_wiring = \<lparr>wr_script_rel = METRICS_WIRE_SCRIPT_REL, wr_marker = METRICS_WIRING_MARKER,
     wr_noun = ''realtime per-worker metrics'', wr_script_name = ''wire-socketio-metrics.sh'',
     wr_consequence = ''Prometheus would have no per-worker socket.io scrape target, so the four critical '' @ SECTION_SIGN
       @ ''8 WS-SLO alerts (WSConnectSLOBreach, WSBroadcastSLOBreach, WSErrorCounterNonZero, WSessionsDropped) would silently stop firing'',
     wr_regression = ''FLO-922''\<rparr>"

text \<open>\<open>after_migrate\<close> of \<open>hooks.py\<close>: the hooks in order, up to the first that raises.\<close>

definition AFTER_MIGRATE :: "wiring list" where
  "AFTER_MIGRATE = [handler_wiring, auth_cache_wiring, redis_adapter_wiring, metrics_wiring]"

fun after_migrate :: "'w file_system \<Rightarrow> string \<Rightarrow> string \<Rightarrow> wiring list \<Rightarrow> 'w \<Rightarrow> (wiring_error + wiring_outcome list) \<times> 'w" where
  "after_migrate F frappe_file module_file [] w = (Inr [], w)"
| "after_migrate F frappe_file module_file (r # rs) w =
    (case rewire_realtime F frappe_file module_file r w of
       (Inl e, w1) \<Rightarrow> (Inl e, w1)
     | (Inr out, w1) \<Rightarrow> (case after_migrate F frappe_file module_file rs w1 of
         (Inl e, w2) \<Rightarrow> (Inl e, w2)
       | (Inr outs, w2) \<Rightarrow> (Inr (out # outs), w2)))"

end
