(* ===== verification/Wiring_Properties.thy ===== *)
theory Wiring_Properties
  imports Realtime_Wiring
begin

text \<open>
  A migration which succeeds on a bench leaves all four handlers in the framework's realtime server.
\<close>

section \<open>What a migration guarantees\<close>

lemma rewire_outcome:
  assumes bench: "find_bench_root F frappe_file w = Some bench_root" "find_wire_script F module_file (wr_script_rel r) w = Some script"
    and index: "fs_is_file F (join_all bench_root FRAPPE_REALTIME_INDEX) w"
    and run: "rewire_realtime F frappe_file module_file r w = (Inr out, w1)"
  shows "marker_present F (join_all bench_root FRAPPE_REALTIME_INDEX) (wr_marker r) w1 = Some True
    \<and> (w1 = w \<or> w1 = snd (fs_run F script bench_root w))"
proof -
  let ?i = "join_all bench_root FRAPPE_REALTIME_INDEX"
  obtain res w2 where script: "fs_run F script bench_root w = (res, w2)" by (cases "fs_run F script bench_root w")
  show ?thesis
  proof (cases "marker_present F ?i (wr_marker r) w")
    case None
    then show ?thesis using bench index run by (simp add: rewire_realtime_def Let_def)
  next
    case (Some present)
    show ?thesis
    proof (cases present)
      case True
      then show ?thesis using bench index run Some by (auto simp: rewire_realtime_def Let_def)
    next
      case False
      then show ?thesis using bench index run Some script
        by (auto simp: rewire_realtime_def Let_def split: option.splits bool.splits)
    qed
  qed
qed

text \<open>A bench: its layout, the index and the four scripts are there, and no script takes away the bench or a handler
  another one has put in.\<close>

definition bench_ready :: "'w file_system \<Rightarrow> string \<Rightarrow> string \<Rightarrow> string \<Rightarrow> 'w \<Rightarrow> bool" where
  "bench_ready F frappe_file module_file bench_root w \<longleftrightarrow> find_bench_root F frappe_file w = Some bench_root
     \<and> fs_is_file F (join_all bench_root FRAPPE_REALTIME_INDEX) w
     \<and> (\<forall>r \<in> set AFTER_MIGRATE. find_wire_script F module_file (wr_script_rel r) w \<noteq> None)"

definition scripts_compose :: "'w file_system \<Rightarrow> string \<Rightarrow> string \<Rightarrow> string \<Rightarrow> bool" where
  "scripts_compose F frappe_file module_file bench_root \<longleftrightarrow> (\<forall>w script. bench_ready F frappe_file module_file bench_root w \<longrightarrow>
     bench_ready F frappe_file module_file bench_root (snd (fs_run F script bench_root w))
     \<and> (\<forall>r \<in> set AFTER_MIGRATE. marker_present F (join_all bench_root FRAPPE_REALTIME_INDEX) (wr_marker r) w = Some True \<longrightarrow>
          marker_present F (join_all bench_root FRAPPE_REALTIME_INDEX) (wr_marker r) (snd (fs_run F script bench_root w)) = Some True))"

lemma after_migrate_wires:
  assumes compose: "scripts_compose F frappe_file module_file bench_root"
  shows "bench_ready F frappe_file module_file bench_root w \<Longrightarrow> set rs \<subseteq> set AFTER_MIGRATE \<Longrightarrow>
    after_migrate F frappe_file module_file rs w = (Inr outs, w') \<Longrightarrow>
    (\<forall>r \<in> set rs. marker_present F (join_all bench_root FRAPPE_REALTIME_INDEX) (wr_marker r) w' = Some True)
    \<and> (\<forall>r \<in> set AFTER_MIGRATE. marker_present F (join_all bench_root FRAPPE_REALTIME_INDEX) (wr_marker r) w = Some True \<longrightarrow>
         marker_present F (join_all bench_root FRAPPE_REALTIME_INDEX) (wr_marker r) w' = Some True)"
proof (induction rs arbitrary: w outs)
  case (Cons r rs)
  let ?i = "join_all bench_root FRAPPE_REALTIME_INDEX"
  obtain out w1 outs' where step: "rewire_realtime F frappe_file module_file r w = (Inr out, w1)"
    and rest: "after_migrate F frappe_file module_file rs w1 = (Inr outs', w')"
    using Cons.prems(3) by (auto split: prod.splits sum.splits)
  obtain script where script: "find_wire_script F module_file (wr_script_rel r) w = Some script"
    using Cons.prems(1,2) by (auto simp: bench_ready_def)
  have w1: "marker_present F ?i (wr_marker r) w1 = Some True" "w1 = w \<or> w1 = snd (fs_run F script bench_root w)"
    using rewire_outcome [OF _ script _ step] Cons.prems(1) by (auto simp: bench_ready_def)
  have ready: "bench_ready F frappe_file module_file bench_root w1"
    and keep: "\<And>q. q \<in> set AFTER_MIGRATE \<Longrightarrow> marker_present F ?i (wr_marker q) w = Some True \<Longrightarrow> marker_present F ?i (wr_marker q) w1 = Some True"
    using w1(2) compose Cons.prems(1) by (auto simp: scripts_compose_def)
  from Cons.IH [OF ready _ rest] Cons.prems(2) show ?case using w1(1) keep by auto
qed simp

text \<open>Where every handler is in place no script runs.\<close>

lemma already_wired:
  assumes "bench_ready F frappe_file module_file bench_root w" "set rs \<subseteq> set AFTER_MIGRATE"
    and "\<forall>r \<in> set rs. marker_present F (join_all bench_root FRAPPE_REALTIME_INDEX) (wr_marker r) w = Some True"
  shows "fst (after_migrate F frappe_file module_file rs w) \<in> range Inr \<and> snd (after_migrate F frappe_file module_file rs w) = w"
  using assms(2,3)
proof (induction rs)
  case (Cons r rs)
  obtain script where "find_wire_script F module_file (wr_script_rel r) w = Some script"
    using assms(1) Cons.prems(1) by (auto simp: bench_ready_def)
  then have "rewire_realtime F frappe_file module_file r w = (Inr (Already_Wired (join_all bench_root FRAPPE_REALTIME_INDEX)), w)"
    using assms(1) Cons.prems(2) by (simp add: rewire_realtime_def bench_ready_def Let_def)
  then show ?case using Cons by (auto split: prod.splits sum.splits)
qed simp

text \<open>A migration that succeeds on a bench leaves all four handlers in the framework's server, whatever the
  scripts printed or raised; it cannot drop one silently.\<close>
theorem migration_leaves_handlers_wired:
  assumes "scripts_compose F frappe_file module_file bench_root"
    and "bench_ready F frappe_file module_file bench_root w"
    and "after_migrate F frappe_file module_file AFTER_MIGRATE w = (Inr outs, w')"
  shows "\<forall>marker \<in> {WIRING_MARKER, AUTH_WIRING_MARKER, REDIS_ADAPTER_WIRING_MARKER, METRICS_WIRING_MARKER}.
    marker_present F (join_all bench_root FRAPPE_REALTIME_INDEX) marker w' = Some True"
  using after_migrate_wires [OF assms(1,2) _ assms(3)]
  by (auto simp: AFTER_MIGRATE_def handler_wiring_def auth_cache_wiring_def redis_adapter_wiring_def metrics_wiring_def)

text \<open>A bench under \<open>/b\<close> with one script that puts in everything, as a world of the text of the index.\<close>

definition demo_markers :: string where "demo_markers = concat (map wr_marker AFTER_MIGRATE)"

definition demo_files :: "string file_system" where
  "demo_files = \<lparr>fs_is_dir = (\<lambda>p _. p \<in> {''/b/apps'', ''/b/sites''}), fs_is_file = (\<lambda>_ _. True),
     fs_read = (\<lambda>_ w. File_Text w),
     fs_run = (\<lambda>_ _ w. (Inr ''wired'', w @ demo_markers))\<rparr>"

definition demo_migration :: "(wiring_error + wiring_outcome list) \<times> string" where
  "demo_migration = after_migrate demo_files ''/b/apps/f.py'' ''/r/s.py'' AFTER_MIGRATE []"

lemma contains_text_longer: "contains_text m s \<Longrightarrow> contains_text m (s @ t)"
  unfolding contains_text_sublist sublist_def by (metis append_assoc)

lemma migration_leaves_handlers_wired_witness:
  "is_ok (fst demo_migration) \<and> marker_present demo_files ''/b/apps/frappe/realtime/index.js'' METRICS_WIRING_MARKER (snd demo_migration) = Some True"
proof -
  let ?ff = "''/b/apps/f.py''" and ?mf = "''/r/s.py''"
  have index: "join_all ''/b'' FRAPPE_REALTIME_INDEX = ''/b/apps/frappe/realtime/index.js''" by code_simp
  have ready: "bench_ready demo_files ?ff ?mf ''/b'' w" for w :: string
  proof -
    have "bench_ready demo_files ?ff ?mf ''/b'' [] " by code_simp
    moreover have "bench_ready demo_files ?ff ?mf ''/b'' w = bench_ready demo_files ?ff ?mf ''/b'' []"
      by (simp add: bench_ready_def find_bench_root_def find_wire_script_def demo_files_def)
    ultimately show ?thesis by simp
  qed
  have compose: "scripts_compose demo_files ?ff ?mf ''/b''"
  proof -
    have run: "snd (fs_run demo_files script bench_root w) = w @ demo_markers" for script bench_root w
      by (simp add: demo_files_def)
    have mark: "marker_present demo_files i m w = Some (contains_text m w)" for i m w
      by (simp add: marker_present_def demo_files_def)
    show ?thesis unfolding scripts_compose_def run mark option.inject eq_True
      by (intro allI impI conjI ballI ready) (erule contains_text_longer)
  qed
  have mark: "marker_present demo_files i m w = Some (contains_text m w)" for i m w
    by (simp add: marker_present_def demo_files_def)
  have markers: "contains_text (wr_marker r) demo_markers" if r: "r \<in> set AFTER_MIGRATE" for r
  proof -
    obtain xs ys where rs: "AFTER_MIGRATE = xs @ r # ys" using split_list [OF r] by blast
    then show ?thesis unfolding demo_markers_def rs by (simp add: contains_textI)
  qed
  have first: "rewire_realtime demo_files ?ff ?mf handler_wiring [] = (Inr (Wiring_Verified ''wired''), demo_markers)"
  proof -
    obtain script where "find_wire_script demo_files ?mf (wr_script_rel handler_wiring) [] = Some script"
      using ready [of "[]"] by (auto simp: bench_ready_def AFTER_MIGRATE_def)
    moreover have "find_bench_root demo_files ?ff [] = Some ''/b''" using ready [of "[]"] by (simp add: bench_ready_def)
    moreover have "\<not> contains_text (wr_marker handler_wiring) []" "py_strip ''wired'' = ''wired''" by code_simp+
    moreover have "fs_run demo_files script r w = (Inr ''wired'', w @ demo_markers)" "fs_is_file demo_files i w" for script r w i
      by (simp_all add: demo_files_def)
    ultimately show ?thesis using markers [of handler_wiring] by (simp add: rewire_realtime_def mark AFTER_MIGRATE_def)
  qed
  have others: "fst (after_migrate demo_files ?ff ?mf rs demo_markers) \<in> range Inr" if "set rs \<subseteq> set AFTER_MIGRATE" for rs
  proof -
    have "\<forall>r \<in> set rs. contains_text (wr_marker r) demo_markers" using that markers by blast
    then show ?thesis using that already_wired [OF ready [of demo_markers], of rs] by (simp add: mark)
  qed
  have "is_ok (fst demo_migration)"
    using others [of "[auth_cache_wiring, redis_adapter_wiring, metrics_wiring]"] first
    by (auto simp: demo_migration_def AFTER_MIGRATE_def is_ok_iff simp del: after_migrate.simps(1) split: sum.splits prod.splits)
  then obtain outs where "demo_migration = (Inr outs, snd demo_migration)"
    unfolding is_ok_iff by (metis prod.collapse)
  then show ?thesis using \<open>is_ok (fst demo_migration)\<close> migration_leaves_handlers_wired [OF compose ready] unfolding index
    by (simp add: demo_migration_def)
qed

end
