(* ===== verification/Spec2Isabelle.thy ===== *)
theory Spec2Isabelle
  imports Group_Docs Traversal Approval_Doc Registration_Safety Engagement_Limits Leader_Properties Live_Feed
    Branch_Scopes Invitations Announcement_Properties Engagement_View_Properties Telemetry
    Ops_Commands Watchdog_Properties Timeout_Properties
    Patch_Properties Drill_Properties Exporter_Properties Wiring_Properties
begin

text \<open>
  Flock OS, the server side: a Frappe application in Python (\<open>src/flock_os/\<close>) which keeps an
  organization's tree of branches and groups, its members, its gatherings and who attended them.

  \<^bold>\<open>The parts and how they interact.\<close>  Two trees, of branches and of groups, carry every scope of
  the program: what a user may see, who approves an event, who may register, whom a message
  reaches.  Leaders plan gatherings; an event needs an approval by the leaders above the group;
  an approved event opens for registrations, with a capacity, a waiting list and invitations.
  Attendance comes in three ways which meet in one bulk write path: reports of leaders, imported
  batches over a queue, and live engagement sessions in which participants earn their credit.
  Each write announces itself on an event bus; a projector turns the events into messages to
  rooms, and announcements use the same bus.  Rules live in modules without the framework
  ("ports and adapters"), the adapters and the document controllers beside them.  The model keeps
  that split: a port is a record of functions, each adapter a value of it.

  Beside the application stand the tools which watch the agents operating it: a monitor of
  heartbeats, a watchdog which restarts or escalates a stuck agent, and a watchdog of timeouts
  over the leases in a service log.  A migration seeds the
  catalogues, makes the attendance tables unique and puts the realtime handlers back; a drill compares a
  restored backup with its source, and an exporter watches the Redis behind the realtime workers.

  \<^bold>\<open>Theories and the files they model\<close> (under \<open>src/flock_os/\<close> unless a longer path is given).
  \<^item> \<open>Flock_Prelude\<close>, \<open>Py_Values\<close>: names, optional strings, calls that raise (\<open>res_bind\<close>), lists
    without repetition, batches; values without a declared type, dictionaries, decimal text.
  \<^item> \<open>Status_Machine\<close>: the contract of a status guard and of a status machine, as locales; the
    approval, gathering and registration tables are its instances.
  \<^item> \<open>Trees\<close>: \<open>flock_os/trees.py\<close>.  \<open>Group_Docs\<close>: \<open>flock_os/rules.py\<close> and the controllers of
    groups, group members and members.  \<open>Traversal\<close>: the tree service and endpoints of
    \<open>traversal.py\<close>.  \<open>Tree_Tables\<close>: its production adapter over nested-set tables.
  \<^item> \<open>Permissions\<close>: \<open>permissions.py\<close>, both axes, the list-query hook and the guards.
    \<open>Branch_Scopes\<close>: the controller of branch admin scopes and the re-sync of \<open>hooks.py\<close>.
  \<^item> \<open>Gatherings\<close>: \<open>gatherings.py\<close> and the gathering controller.  \<open>Approvals\<close>: \<open>approvals.py\<close>.
    \<open>Approval_Doc\<close>: controller and endpoints of approval requests.
  \<^item> \<open>Registrations\<close>: \<open>registrations.py\<close>.  \<open>Registration_Doc\<close>: controller, endpoints and adapter of
    event registrations.  \<open>Registration_Safety\<close>: their invariant and what follows from it.
    \<open>Invitations\<close>: the controller and endpoints of event invitations.
  \<^item> \<open>Reporting\<close>: \<open>reporting.py\<close>, the bulk write path with its in-memory and its database adapter.
    \<open>Attendance_Queue\<close>: the queue, retries and dead letters of \<open>attendance.py\<close>.
    \<open>Leader_Reports\<close>, \<open>Leader_Safety\<close>, \<open>Leader_Properties\<close>: \<open>leader_reporting.py\<close>.
  \<^item> \<open>Engagement\<close>: the runtime of \<open>engagement.py\<close> with its in-memory adapter.  \<open>Engagement_Store\<close>:
    the contract of its storage port.  \<open>Engagement_Redis\<close>: \<open>engagement_frappe.py\<close>.
    \<open>Engagement_Api\<close>: \<open>engagement_api.py\<close>.  \<open>Engagement_Safety\<close>, \<open>Engagement_Properties\<close>,
    \<open>Engagement_Limits\<close>: reachable states, the abstract session, tickets and the throttle.
    \<open>Engagement_Demo\<close>: concrete sessions.
  \<^item> \<open>Engagement_Console\<close>: the facilitator console and the launch helpers of \<open>engagement.py\<close>.
    \<open>Engagement_Views\<close>: \<open>engagement_views.py\<close> and the pages \<open>www/engage*.py\<close>.
    \<open>Engagement_View_Properties\<close>: what they guarantee.
  \<^item> \<open>Events\<close>: the bus of \<open>events.py\<close>.  \<open>Realtime\<close>: the projector and the room gate of \<open>realtime.py\<close>.
    \<open>Live_Feed\<close>: the way from a write to the clients.  \<open>Telemetry\<close>: \<open>telemetry.py\<close> and its scrape.
  \<^item> \<open>Notifications\<close>, \<open>Notification_Properties\<close>: \<open>notifications.py\<close>.  \<open>Announcements\<close>: \<open>scheduling.py\<close>.
    \<open>Compose_Portal\<close>: \<open>portal.py\<close> and \<open>www/announce.py\<close>.  \<open>Announcement_Properties\<close>.
  \<^item> \<open>Heartbeat_Monitor\<close>: the fetches, samples and verdicts of \<open>src/tools/ops/ceo_heartbeat/monitor.py\<close>;
    \<open>Heartbeat_Reports\<close>: its text, JSON and metrics.  \<open>Agent_Liveness\<close>:
    \<open>src/tools/ops/agent_liveness/recovery.py\<close>.  \<open>Liveness_Watchdog\<close>: \<open>watchdog.py\<close> beside it, with its
    actions as a port; \<open>Watchdog_Safety\<close>: the locale of that port and the effects of a fire;
    \<open>Watchdog_Properties\<close>.
  \<^item> \<open>Timeout_Watchdog\<close>, \<open>Timeout_Properties\<close>: \<open>src/scripts/dev/ceo-heartbeat-watchdog.py\<close>.
    \<open>Ops_Commands\<close>: the command lines of the three tools and their exit codes.
  \<^item> \<open>Schema_Patches\<close>, \<open>Patch_Properties\<close>: the patches of \<open>patches/\<close> with the catalogue of \<open>fixtures.py\<close>, in
    the order of \<open>patches.txt\<close>.  \<open>Realtime_Wiring\<close>, \<open>Wiring_Properties\<close>: \<open>utils/realtime_setup.py\<close>, the hooks
    behind a migration.  \<open>Backup_Drill\<close>, \<open>Drill_Properties\<close>: \<open>utils/backup_drill.py\<close>.
  \<^item> \<open>Resp_Client\<close>, \<open>Pubsub_Exporter\<close>, \<open>Exporter_Properties\<close>: \<open>src/scripts/ops/redis-pubsub-exporter.py\<close>.
    \<open>Py_Text\<close>: the methods of texts which these tools share.

  \<^bold>\<open>State and errors.\<close>  A database is a record of tables; an operation takes it and returns the next
  one.  An exception is the left side of a sum whose datatype names each \<open>raise\<close> of the source; a
  request which raises is rolled back, and where the code commits half way (the seed of a summary
  row), publishes before it fails, or writes to Redis, the operation returns the state it leaves
  beside the error.  What a request reads from an older snapshot than the one it writes to is kept
  apart in \<open>Registration_Doc\<close>.  Clocks, generated names and tokens, random draws, digests, JSON text and
  database collations are arguments.

  \<^bold>\<open>What the lemmas show.\<close>
  \<^item> Trees: ancestors and descendants are the walks of the edge relation and always return; the
    production subtree reads the whole table; group saves keep the tree inside its branches.
  \<^item> Permissions: the list hook and the row guard accept the same rows; an approval step is decided
    only inside the decider's scope; an admin scope grants exactly a subtree.
  \<^item> Approvals: resolved chains are nearest first and well formed; an approved request has been
    decided, step by step, by users the guard accepts, unless a plain save wrote the decision by hand:
    \<open>approval_reach\<close> has every plain save the hook admits and collects the names so touched.
  \<^item> Registrations: seat counters are exact and no sequence of requests, on whatever snapshots,
    overbooks (\<open>registration_inv\<close>); a freed seat goes to the oldest waiting row; invitations keep
    their tokens apart under any save, and those no hand has touched are answered once.
  \<^item> Attendance: with any faults every queued batch comes to an end, an acknowledged batch stays
    stored and the totals equal the rows; leader reports are complete and made once.
  \<^item> Engagement: every reachable log is well formed over any adapter that keeps the store contract,
    and the service refines an abstract session with three phases (\<open>spec_step\<close>); tickets, close
    and throttle do what they promise, within limits that are stated as theorems.
  \<^item> Messages: the live count of a room adds up to the stored rows, every client is told once, a name
    is joined exactly when it spells a room of a gathering in the user's scope, a push reaches the leaders of its subtree and nobody else.
  \<^item> Pages: the targets offered to a facilitator are those the guard accepts; a room code leads to
    its session; overrides are recorded and change nothing else.
  \<^item> Telemetry: the latency gate is exact although the percentile it tests is interpolated.
  \<^item> Tools: a fire of the watchdog acts a bounded number of times, and only on a stuck agent; the open
    leases read from a log are exactly those taken and not ended; ending a process returns.
  \<^item> Operation of a site: the attendance patch recovers a database with duplicates and can be run again;
    a migration that succeeds has put the four handlers in; the restore drill passes exactly when the
    tables it compares have as many rows; the exporter reads every reply, in whatever pieces it comes.
  Several theorems state where the code does not do what its comments promise: a close that loses
  attendance, a ticket that credits its holder again in another session, publishing which always raises, branch moves
  nobody is told of, reaction times that never reach their check, an error of a restart that ends
  the watchdog's fire without an escalation, totals above the rows after a recovery.

  \<^bold>\<open>Bounds.\<close>  The loops of the program are bounded by their data: tree walks stop at a repeated node
  (\<open>ancestors_loop\<close>, \<open>descendants_loop\<close>, with their termination proofs), the group path walk after 64
  steps, a queued batch after ten attempts in place in each of at most six runs; batches have 500
  items; a ticket lives for an hour, a page of templates or gatherings has 200 rows.  These are the
  constants of the source.  The watchdog tries again at most as often as its configuration says.  Waiting
  for a process to exit (\<open>await_exit\<close>) has no bound but the clock, so it is a partial function, which is
  shown to return when the clock advances.  A nested reply of
  Redis is read as deep as Python still allows calls (an argument of \<open>parse_reply\<close>).  No fuel is added by the
  model.  Only the CRC of \<open>shard_for\<close> computes on
  machine words; Python's integers are unbounded.

  \<^bold>\<open>Not modelled.\<close>  \<open>hooks.py\<close> beyond the tables the
  bus, the scope re-sync and the migration hooks use; document types without code; demos, seeders and
  load tests outside the application proper; the threads and the listening socket of the exporter;
  the console output, self-tests and interval loops of the tools, whose HTTP server, parsing
  of ISO dates and rendering of floats are arguments; the JavaScript of the pages.  Of the framework, permission checks of its own, caches, key
  expiry in Redis, isolation beyond the snapshot reads named above and failures of best-effort
  writes are left out.  Floating-point times are rationals.
\<close>

end
